(* ===== verification/Prelude.thy ===== *)
theory Prelude
  imports Main "HOL-Library.AList" "HOL-Library.Multiset"
begin

section \<open>Results, throwing methods and the array operations of the code\<close>

text \<open>
  Shared by every component.
  \<^item> \<^verbatim>\<open>Result<T, E>\<close> (packages/types/src/result.ts) is the sum type: \<open>Inl\<close> an error, \<open>Inr\<close> a value.
  \<^item> A method of an aggregate may mutate the object and may throw, in any order; what it had
    already written before the throw stays written. It is an \<open>action\<close>: a function from the object
    to the outcome paired with the object as it is afterwards, also after a throw.
  \<^item> \<open>Date\<close> values are milliseconds since the epoch.
  \<^item> A JavaScript \<open>Map\<close> is an association list in insertion order; \<open>AList.update\<close> replaces in place
    or appends, as \<open>Map.set\<close> does.
\<close>

type_synonym timestamp = int
type_synonym ('e, 'a) result = "'e + 'a"
type_synonym ('e, 's, 'a) action = "'s \<Rightarrow> ('e + 'a) \<times> 's"

named_theorems action_simps \<open>unfolding of the action combinators\<close>
named_theorems atomic_intros \<open>rules that show an action leaves the object alone when it throws\<close>

subsection \<open>Result helpers (packages/types/src/result.ts)\<close>

definition isOk :: "('e, 'a) result \<Rightarrow> bool" where
  "isOk r = (case r of Inl _ \<Rightarrow> False | Inr _ \<Rightarrow> True)"

definition isErr :: "('e, 'a) result \<Rightarrow> bool" where
  "isErr r = (\<not> isOk r)"

definition map_ok :: "('a \<Rightarrow> 'b) \<Rightarrow> ('e, 'a) result \<Rightarrow> ('e, 'b) result" where
  "map_ok f r = (case r of Inl e \<Rightarrow> Inl e | Inr v \<Rightarrow> Inr (f v))"

definition mapError :: "('e \<Rightarrow> 'f) \<Rightarrow> ('e, 'a) result \<Rightarrow> ('f, 'a) result" where
  "mapError f r = (case r of Inl e \<Rightarrow> Inl (f e) | Inr v \<Rightarrow> Inr v)"

definition match_result :: "('a \<Rightarrow> 'u) \<Rightarrow> ('e \<Rightarrow> 'u) \<Rightarrow> ('e, 'a) result \<Rightarrow> 'u" where
  "match_result onOk onErr r = (case r of Inl e \<Rightarrow> onErr e | Inr v \<Rightarrow> onOk v)"

definition unwrapOr :: "('e, 'a) result \<Rightarrow> 'a \<Rightarrow> 'a" where
  "unwrapOr r fallback = (case r of Inl _ \<Rightarrow> fallback | Inr v \<Rightarrow> v)"

definition bind_result :: "('e, 'a) result \<Rightarrow> ('a \<Rightarrow> ('e, 'b) result) \<Rightarrow> ('e, 'b) result" where
  "bind_result r f = (case r of Inl e \<Rightarrow> Inl e | Inr v \<Rightarrow> f v)"

lemma isOk_simps [simp]: "isOk (Inr v)" "\<not> isOk (Inl e)"
  by (simp_all add: isOk_def)

lemma bind_result_simps [simp]:
  "bind_result (Inl e) f = Inl e"
  "bind_result (Inr v) f = f v"
  by (simp_all add: bind_result_def)

lemma bind_result_Inr_iff:
  "bind_result r f = Inr y \<longleftrightarrow> (\<exists>v. r = Inr v \<and> f v = Inr y)"
  by (cases r) auto

subsection \<open>Actions\<close>

definition ret :: "'a \<Rightarrow> ('e, 's, 'a) action" where
  "ret x = (\<lambda>s. (Inr x, s))"

definition throw :: "'e \<Rightarrow> ('e, 's, 'a) action" where
  "throw e = (\<lambda>s. (Inl e, s))"

definition modify :: "('s \<Rightarrow> 's) \<Rightarrow> ('e, 's, unit) action" where
  "modify f = (\<lambda>s. (Inr (), f s))"

definition bind_action :: "('e, 's, 'a) action \<Rightarrow> ('a \<Rightarrow> ('e, 's, 'b) action) \<Rightarrow> ('e, 's, 'b) action" where
  "bind_action f g = (\<lambda>s. case f s of (Inl e, s') \<Rightarrow> (Inl e, s') | (Inr x, s') \<Rightarrow> g x s')"

definition then_do :: "('e, 's, unit) action \<Rightarrow> ('e, 's, 'b) action \<Rightarrow> ('e, 's, 'b) action" where
  "then_do f g = bind_action f (\<lambda>_. g)"

definition require :: "('s \<Rightarrow> bool) \<Rightarrow> ('s \<Rightarrow> 'e) \<Rightarrow> ('e, 's, unit) action" where
  "require b err = (\<lambda>s. if b s then (Inr (), s) else (Inl (err s), s))"

definition from_result :: "('s \<Rightarrow> ('e, 'a) result) \<Rightarrow> ('e, 's, 'a) action" where
  "from_result r = (\<lambda>s. (r s, s))"

lemma ret_apply [action_simps, simp]: "ret x s = (Inr x, s)"
  by (simp add: ret_def)

lemma throw_apply [action_simps, simp]: "throw e s = (Inl e, s)"
  by (simp add: throw_def)

lemma modify_apply [action_simps, simp]: "modify f s = (Inr (), f s)"
  by (simp add: modify_def)

lemma require_apply [action_simps, simp]:
  "require b err s = (if b s then (Inr (), s) else (Inl (err s), s))"
  by (simp add: require_def)

lemma from_result_apply [action_simps, simp]: "from_result r s = (r s, s)"
  by (simp add: from_result_def)

lemma bind_action_apply [action_simps]:
  "bind_action f g s = (case f s of (Inl e, s') \<Rightarrow> (Inl e, s') | (Inr x, s') \<Rightarrow> g x s')"
  by (simp add: bind_action_def)

lemma then_do_apply [action_simps]:
  "then_do f g s = (case f s of (Inl e, s') \<Rightarrow> (Inl e, s') | (Inr _, s') \<Rightarrow> g s')"
  by (simp add: then_do_def bind_action_def)

lemma then_do_ok_iff:
  "then_do f g s = (Inr y, t) \<longleftrightarrow> (\<exists>s'. f s = (Inr (), s') \<and> g s' = (Inr y, t))"
  by (auto simp: then_do_apply split: prod.splits sum.splits)

lemma then_do_throws_iff:
  "then_do f g s = (Inl e, t) \<longleftrightarrow>
     f s = (Inl e, t) \<or> (\<exists>s'. f s = (Inr (), s') \<and> g s' = (Inl e, t))"
  by (auto simp: then_do_apply split: prod.splits sum.splits)

lemma bind_action_ok_iff:
  "bind_action f g s = (Inr y, t) \<longleftrightarrow> (\<exists>x s'. f s = (Inr x, s') \<and> g x s' = (Inr y, t))"
  by (auto simp: bind_action_apply split: prod.splits sum.splits)

text \<open>An action is atomic when a throw leaves the object as it was.\<close>

definition atomic :: "('e, 's, 'a) action \<Rightarrow> bool" where
  "atomic f \<longleftrightarrow> (\<forall>s e t. f s = (Inl e, t) \<longrightarrow> t = s)"

lemma atomicI: "(\<And>s e t. f s = (Inl e, t) \<Longrightarrow> t = s) \<Longrightarrow> atomic f"
  by (auto simp: atomic_def)

lemma atomicD: "atomic f \<Longrightarrow> f s = (Inl e, t) \<Longrightarrow> t = s"
  by (auto simp: atomic_def)

lemma atomic_ret [atomic_intros]: "atomic (ret x)"
  by (auto simp: atomic_def)

lemma atomic_throw [atomic_intros]: "atomic (throw e)"
  by (auto simp: atomic_def)

lemma atomic_modify [atomic_intros]: "atomic (modify f)"
  by (auto simp: atomic_def)

lemma atomic_require [atomic_intros]: "atomic (require b err)"
  by (auto simp: atomic_def)

lemma atomic_from_result [atomic_intros]: "atomic (from_result r)"
  by (auto simp: atomic_def)

text \<open>A guard in front of an atomic action, and an action that cannot throw after an atomic one.\<close>

lemma atomic_require_then [atomic_intros]: "atomic g \<Longrightarrow> atomic (then_do (require b err) g)"
  by (auto simp: atomic_def then_do_apply split: if_splits)

lemma atomic_then_modify [atomic_intros]: "atomic f \<Longrightarrow> atomic (then_do f (modify g))"
  by (auto simp: atomic_def then_do_apply split: prod.splits sum.splits)

subsection \<open>Arrays\<close>

text \<open>\<^verbatim>\<open>xs.splice(xs.indexOf(x), 1)\<close> with \<open>x\<close> the first element a predicate accepts.\<close>

fun remove_first :: "('a \<Rightarrow> bool) \<Rightarrow> 'a list \<Rightarrow> 'a list" where
  "remove_first P [] = []"
| "remove_first P (x # xs) = (if P x then xs else x # remove_first P xs)"

text \<open>Mutation, through its reference, of the first element a predicate accepts.\<close>

fun update_first :: "('a \<Rightarrow> bool) \<Rightarrow> ('a \<Rightarrow> 'a) \<Rightarrow> 'a list \<Rightarrow> 'a list" where
  "update_first P f [] = []"
| "update_first P f (x # xs) = (if P x then f x # xs else x # update_first P f xs)"

lemma find_Some_props: "List.find P xs = Some x \<Longrightarrow> P x \<and> x \<in> set xs"
  by (induction xs) (auto split: if_splits)

lemma find_None_iff_all: "List.find P xs = None \<longleftrightarrow> (\<forall>x\<in>set xs. \<not> P x)"
  by (induction xs) auto

lemma set_remove_first: "set (remove_first P xs) \<subseteq> set xs"
  by (induction xs) auto

lemma remove_first_id: "(\<forall>x\<in>set xs. \<not> P x) \<Longrightarrow> remove_first P xs = xs"
  by (induction xs) auto

lemma sum_list_remove_first:
  fixes f :: "'a \<Rightarrow> int"
  shows "List.find P xs = Some x \<Longrightarrow>
    sum_list (map f (remove_first P xs)) = sum_list (map f xs) - f x"
  by (induction xs) (auto split: if_splits)

lemma sum_list_nonneg_mem:
  fixes f :: "'a \<Rightarrow> int"
  assumes "x \<in> set xs" and "\<And>y. y \<in> set xs \<Longrightarrow> 0 \<le> f y"
  shows "f x \<le> sum_list (map f xs)"
  using assms
proof (induction xs)
  case Nil
  then show ?case by simp
next
  case (Cons y ys)
  have "0 \<le> sum_list (map f ys)" using Cons.prems by (intro sum_list_nonneg) auto
  with Cons show ?case by fastforce
qed

lemma find_append:
  "List.find P (xs @ ys) = (case List.find P xs of Some x \<Rightarrow> Some x | None \<Rightarrow> List.find P ys)"
  by (induction xs) auto

lemma remove_first_append:
  "List.find P xs = None \<Longrightarrow> remove_first P (xs @ ys) = xs @ remove_first P ys"
  by (induction xs) (auto split: if_splits)

lemma set_update_first: "set (update_first P f xs) \<subseteq> f ` set xs \<union> set xs"
  by (induction xs) auto

lemma length_update_first [simp]: "length (update_first P f xs) = length xs"
  by (induction xs) auto

lemma length_remove_first:
  "List.find P xs = Some x \<Longrightarrow> Suc (length (remove_first P xs)) = length xs"
  by (induction xs) (auto split: if_splits)

lemma map_update_first:
  "(\<And>x. g (f x) = g x) \<Longrightarrow> map g (update_first P f xs) = map g xs"
  by (induction xs) auto

lemma sum_list_update_first:
  fixes g :: "'a \<Rightarrow> int"
  shows "List.find P xs = Some x \<Longrightarrow>
    sum_list (map g (update_first P f xs)) = sum_list (map g xs) - g x + g (f x)"
  by (induction xs) (auto split: if_splits)

lemma list_all_update_first:
  "list_all Q xs \<Longrightarrow> (\<And>x. x \<in> set xs \<Longrightarrow> P x \<Longrightarrow> Q (f x)) \<Longrightarrow> list_all Q (update_first P f xs)"
  by (induction xs) auto

text \<open>\<^verbatim>\<open>xs.sort(cmp)\<close>: the stable order of a comparator, negative when the first comes first.\<close>

fun ins_cmp :: "('a \<Rightarrow> 'a \<Rightarrow> int) \<Rightarrow> 'a \<Rightarrow> 'a list \<Rightarrow> 'a list" where
  "ins_cmp cmp x [] = [x]"
| "ins_cmp cmp x (y # ys) = (if cmp x y \<le> 0 then x # y # ys else y # ins_cmp cmp x ys)"

fun sort_cmp :: "('a \<Rightarrow> 'a \<Rightarrow> int) \<Rightarrow> 'a list \<Rightarrow> 'a list" where
  "sort_cmp cmp [] = []"
| "sort_cmp cmp (x # xs) = ins_cmp cmp x (sort_cmp cmp xs)"

lemma mset_ins_cmp [simp]: "mset (ins_cmp cmp x xs) = add_mset x (mset xs)"
  by (induction xs) auto

lemma mset_sort_cmp [simp]: "mset (sort_cmp cmp xs) = mset xs"
  by (induction xs) auto

lemma set_sort_cmp [simp]: "set (sort_cmp cmp xs) = set xs"
  by (metis mset_sort_cmp set_mset_mset)

lemma length_sort_cmp [simp]: "length (sort_cmp cmp xs) = length xs"
  by (metis mset_sort_cmp size_mset)

lemma distinct_sort_cmp [simp]: "distinct (sort_cmp cmp xs) = distinct xs"
  by (metis mset_sort_cmp mset_eq_imp_distinct_iff)

text \<open>\<^verbatim>\<open>[...new Set(xs)]\<close>: the first occurrences, in order.\<close>

fun dedup :: "'a list \<Rightarrow> 'a list" where
  "dedup [] = []"
| "dedup (x # xs) = x # filter (\<lambda>y. y \<noteq> x) (dedup xs)"

lemma set_dedup [simp]: "set (dedup xs) = set xs"
  by (induction xs) auto

lemma distinct_dedup [simp]: "distinct (dedup xs)"
  by (induction xs) auto

end
