(* ===== verification/JsText.thy ===== *)
theory JsText
  imports Prelude
begin

section \<open>JavaScript strings\<close>

text \<open>
  A string of the code is a HOL \<open>string\<close>, one \<open>char\<close> per UTF-16 code unit, which covers the
  code units below 256. Case conversion is the ASCII one: \<^verbatim>\<open>toUpperCase\<close> and
  \<^verbatim>\<open>toLowerCase\<close> on letters outside ASCII (the sharp s, Turkish dotless i) are not modelled, so text
  given to them is meant to be ASCII: codes, e-mail addresses, country codes.
\<close>

definition code_unit :: "char \<Rightarrow> nat" where
  "code_unit c = of_char c"

text \<open>The code units below 256 that \<^verbatim>\<open>String.prototype.trim\<close> removes.\<close>

definition is_js_space :: "char \<Rightarrow> bool" where
  "is_js_space c = (code_unit c \<in> {9, 10, 11, 12, 13, 32, 160})"

definition trimStart :: "string \<Rightarrow> string" where
  "trimStart s = dropWhile is_js_space s"

definition trim :: "string \<Rightarrow> string" where
  "trim s = rev (trimStart (rev (trimStart s)))"

definition blank :: "string \<Rightarrow> bool" where
  "blank s = (length (trim s) = 0)"

definition upper_char :: "char \<Rightarrow> char" where
  "upper_char c = (if 97 \<le> code_unit c \<and> code_unit c \<le> 122 then char_of (code_unit c - 32) else c)"

definition lower_char :: "char \<Rightarrow> char" where
  "lower_char c = (if 65 \<le> code_unit c \<and> code_unit c \<le> 90 then char_of (code_unit c + 32) else c)"

definition toUpperCase :: "string \<Rightarrow> string" where
  "toUpperCase s = map upper_char s"

definition toLowerCase :: "string \<Rightarrow> string" where
  "toLowerCase s = map lower_char s"

text \<open>Character classes of the regular expressions of the code.\<close>

definition is_upper_letter :: "char \<Rightarrow> bool" where
  "is_upper_letter c = (65 \<le> code_unit c \<and> code_unit c \<le> 90)"

definition is_lower_letter :: "char \<Rightarrow> bool" where
  "is_lower_letter c = (97 \<le> code_unit c \<and> code_unit c \<le> 122)"

definition is_digit_char :: "char \<Rightarrow> bool" where
  "is_digit_char c = (48 \<le> code_unit c \<and> code_unit c \<le> 57)"

text \<open>Decimal printing of whole numbers, for template strings.\<close>

fun show_nat :: "nat \<Rightarrow> string" where
  "show_nat n = (if n < 10 then [char_of (48 + n)] else show_nat (n div 10) @ [char_of (48 + n mod 10)])"

declare show_nat.simps [simp del]

definition show_int :: "int \<Rightarrow> string" where
  "show_int i = (if i < 0 then CHR ''-'' # show_nat (nat (- i)) else show_nat (nat i))"

text \<open>\<^verbatim>\<open>xs.join(sep)\<close>\<close>

fun join :: "string \<Rightarrow> string list \<Rightarrow> string" where
  "join sep [] = []"
| "join sep [x] = x"
| "join sep (x # y # zs) = x @ sep @ join sep (y # zs)"

subsection \<open>Lemmas\<close>

lemma dropWhile_twice [simp]: "dropWhile P (dropWhile P xs) = dropWhile P xs"
  by (induction xs) auto

lemma dropWhile_keep_hd: "xs \<noteq> [] \<Longrightarrow> \<not> P (hd xs) \<Longrightarrow> dropWhile P xs = xs"
  by (cases xs) auto

lemma trimStart_suffix: "\<exists>p. s = p @ trimStart s"
  unfolding trimStart_def by (metis takeWhile_dropWhile_id)

lemma trimStart_hd: "trimStart s \<noteq> [] \<Longrightarrow> \<not> is_js_space (hd (trimStart s))"
  unfolding trimStart_def by (metis hd_dropWhile)

lemma trim_idem [simp]: "trim (trim s) = trim s"
proof -
  define a where "a = trimStart s"
  define b where "b = trimStart (rev a)"
  have t: "trim s = rev b" by (simp add: trim_def a_def b_def)
  obtain p where p: "rev a = p @ b" using trimStart_suffix b_def by blast
  have "trimStart (rev b) = rev b"
  proof (cases "b = []")
    case False
    have "a = rev b @ rev p" using p by (metis rev_append rev_rev_ident)
    moreover from this False have "a \<noteq> []" by auto
    ultimately have "hd (rev b) = hd a" "\<not> is_js_space (hd a)"
      using False trimStart_hd [of s] by (auto simp: a_def)
    then show ?thesis
      using False by (simp add: trimStart_def dropWhile_keep_hd)
  qed (simp add: trimStart_def)
  moreover have "trimStart b = b" by (simp add: b_def trimStart_def)
  ultimately have "trim (rev b) = rev b" unfolding trim_def by (metis rev_rev_ident)
  then show ?thesis by (simp add: t)
qed

lemma blank_trim [simp]: "blank (trim s) = blank s"
  by (simp add: blank_def)

lemma code_unit_char_of: "n < 256 \<Longrightarrow> code_unit (char_of n) = n"
  by (simp add: code_unit_def)

lemma upper_char_idem [simp]: "upper_char (upper_char c) = upper_char c"
  by (auto simp: upper_char_def code_unit_char_of)

lemma toUpperCase_idem [simp]: "toUpperCase (toUpperCase s) = toUpperCase s"
  by (simp add: toUpperCase_def)

lemma lower_char_idem [simp]: "lower_char (lower_char c) = lower_char c"
  by (auto simp: lower_char_def code_unit_char_of)

lemma toLowerCase_idem [simp]: "toLowerCase (toLowerCase s) = toLowerCase s"
  by (simp add: toLowerCase_def)

lemma is_js_space_upper [simp]: "is_js_space (upper_char c) = is_js_space c"
  by (auto simp: is_js_space_def upper_char_def code_unit_char_of)

lemma trimStart_upper: "trimStart (toUpperCase s) = toUpperCase (trimStart s)"
  by (induction s) (auto simp: trimStart_def toUpperCase_def)

lemma rev_upper: "rev (toUpperCase s) = toUpperCase (rev s)"
  by (simp add: toUpperCase_def rev_map)

lemma trim_upper: "trim (toUpperCase s) = toUpperCase (trim s)"
  by (simp add: trim_def trimStart_upper rev_upper)

text \<open>\<^verbatim>\<open>s.includes(needle)\<close>\<close>

fun str_includes :: "string \<Rightarrow> string \<Rightarrow> bool" where
  "str_includes [] needle = (needle = [])"
| "str_includes (c # cs) needle = (take (length needle) (c # cs) = needle \<or> str_includes cs needle)"

text \<open>\<^verbatim>\<open>a < b\<close> on strings: by code units.\<close>

fun str_less :: "string \<Rightarrow> string \<Rightarrow> bool" where
  "str_less s [] = False"
| "str_less [] (c # cs) = True"
| "str_less (a # as) (b # bs) =
     (if code_unit a = code_unit b then str_less as bs else code_unit a < code_unit b)"

end
