(* ===== verification/JsNumber.thy ===== *)
theory JsNumber
  imports Complex_Main "HOL-Library.Log_Nat"
begin

section \<open>JavaScript numbers\<close>

text \<open>
  A JavaScript \<open>number\<close> is an IEEE-754 double. Amounts, quantities and timestamps of the code are
  whole numbers; the model keeps them as \<open>int\<close>, which is what the doubles are as long as no result
  leaves the safe range \<open>2 ^ 53\<close>. Where the code divides or takes a percentage, the rounding
  of the double is part of the behaviour, so those places use the operations of this theory:
  \<open>fl\<close> rounds an exact rational to 53 significant bits, ties to even, and \<open>js_mul\<close>, \<open>js_div\<close>,
  \<open>js_sub\<close> are the exact operation followed by \<open>fl\<close>. Overflow to infinity and subnormal results
  (magnitudes above \<open>2 ^ 1023\<close> or below \<open>2 ^ -1022\<close>) are not modelled: no amount of the
  code comes near either.

  \<open>js_number\<close> is a number as it arrives from outside, before \<^verbatim>\<open>Number.isInteger\<close> has looked at it:
  a finite value, an infinity or NaN.
\<close>

subsection \<open>Unvalidated numbers\<close>

datatype js_number = JNum rat | JInf bool | JNaN

definition isInteger :: "js_number \<Rightarrow> bool" where
  "isInteger x = (case x of JNum q \<Rightarrow> snd (quotient_of q) = 1 | _ \<Rightarrow> False)"

text \<open>Comparisons with NaN are false; \<open>JInf True\<close> is \<^verbatim>\<open>+Infinity\<close>.\<close>

fun js_less :: "js_number \<Rightarrow> js_number \<Rightarrow> bool" where
  "js_less JNaN _ = False"
| "js_less _ JNaN = False"
| "js_less (JNum x) (JNum y) = (x < y)"
| "js_less (JInf a) (JInf b) = (\<not> a \<and> b)"
| "js_less (JInf a) (JNum _) = (\<not> a)"
| "js_less (JNum _) (JInf b) = b"

fun js_to_int :: "js_number \<Rightarrow> int" where
  "js_to_int (JNum q) = \<lfloor>q\<rfloor>"
| "js_to_int _ = 0"

abbreviation jint :: "int \<Rightarrow> js_number" where
  "jint n \<equiv> JNum (rat_of_int n)"

lemma isInteger_jint [simp]: "isInteger (jint n)"
  by (simp add: isInteger_def)

lemma quotient_of_snd_1: "snd (quotient_of q) = 1 \<longleftrightarrow> (\<exists>n. q = rat_of_int n)"
proof
  assume "snd (quotient_of q) = 1"
  then obtain p where "quotient_of q = (p, 1)" by (cases "quotient_of q") auto
  from quotient_of_div [OF this] show "\<exists>n. q = rat_of_int n" by auto
qed auto

lemma isInteger_iff: "isInteger x \<longleftrightarrow> (\<exists>n. x = jint n)"
  by (cases x) (auto simp: isInteger_def quotient_of_snd_1)

lemma js_to_int_jint [simp]: "js_to_int (jint n) = n"
  by simp

lemma js_less_jint [simp]: "js_less (jint a) (jint b) \<longleftrightarrow> a < b"
  by simp

subsection \<open>Rounding to a double\<close>

definition pow2 :: "int \<Rightarrow> rat" where
  "pow2 e = (if 0 \<le> e then 2 ^ nat e else 1 / 2 ^ nat (- e))"

text \<open>\<open>expo x\<close> is the exponent of the leading bit: \<open>2 ^ expo x \<le> x < 2 ^ (expo x + 1)\<close> for \<open>0 < x\<close>.\<close>

definition expo :: "rat \<Rightarrow> int" where
  "expo x = (let (p, q) = quotient_of x; e = bitlen p - bitlen q
             in if pow2 e \<le> x then e else e - 1)"

definition round_half_even :: "rat \<Rightarrow> int" where
  "round_half_even y = (let n = \<lfloor>y\<rfloor>; d = y - of_int n
     in if d < 1 / 2 then n else if 1 / 2 < d then n + 1 else if even n then n else n + 1)"

definition fl_pos :: "rat \<Rightarrow> rat" where
  "fl_pos x = (let u = pow2 (expo x - 52) in of_int (round_half_even (x / u)) * u)"

definition fl :: "rat \<Rightarrow> rat" where
  "fl x = (if x = 0 then 0 else if 0 < x then fl_pos x else - fl_pos (- x))"

definition js_mul :: "rat \<Rightarrow> rat \<Rightarrow> rat" where "js_mul x y = fl (x * y)"
definition js_div :: "rat \<Rightarrow> rat \<Rightarrow> rat" where "js_div x y = fl (x / y)"
definition js_sub :: "rat \<Rightarrow> rat \<Rightarrow> rat" where "js_sub x y = fl (x - y)"

text \<open>\<^verbatim>\<open>Math.floor\<close> is the floor of the double, exact; \<^verbatim>\<open>Math.round\<close> rounds halves up.\<close>

definition js_round :: "rat \<Rightarrow> int" where "js_round x = \<lfloor>x + 1 / 2\<rfloor>"

definition safe_limit :: int where "safe_limit = 2 ^ 53"

lemma pow2_pos [simp]: "0 < pow2 e"
  by (simp add: pow2_def)

lemma pow2_nonneg [simp]: "0 \<le> pow2 e"
  by (rule less_imp_le) simp

lemma pow2_nonzero [simp]: "pow2 e \<noteq> 0"
  using pow2_pos [of e] by linarith

lemma pow2_add: "pow2 (a + b) = pow2 a * pow2 b"
proof -
  have nn: "pow2 (int m + int n) = pow2 (int m) * pow2 (int n)" for m n
    by (simp add: pow2_def power_add nat_add_distrib)
  have np: "pow2 (int m - int n) = pow2 (int m) * pow2 (- int n)" for m n
  proof (cases "n \<le> m")
    case True
    then have "(2::rat) ^ m = 2 ^ (m - n) * 2 ^ n" by (simp flip: power_add)
    with True show ?thesis by (simp add: pow2_def nat_diff_distrib field_simps)
  next
    case False
    then have "(2::rat) ^ n = 2 ^ (n - m) * 2 ^ m" by (simp flip: power_add)
    with False show ?thesis by (simp add: pow2_def nat_diff_distrib field_simps)
  qed
  have pp: "pow2 (- int m - int n) = pow2 (- int m) * pow2 (- int n)" for m n
    by (cases "m = 0"; cases "n = 0") (auto simp: pow2_def power_add nat_add_distrib)
  obtain m where "a = int m \<or> a = - int m" by (metis int_cases2)
  moreover obtain n where "b = int n \<or> b = - int n" by (metis int_cases2)
  ultimately show ?thesis
    using nn [of m n] np [of m n] np [of n m] pp [of m n]
    by (auto simp: algebra_simps)
qed

lemma pow2_nat [simp]: "pow2 (int n) = 2 ^ n"
  by (simp add: pow2_def)

lemma pow2_Suc: "pow2 (e + 1) = 2 * pow2 e"
  by (simp add: pow2_add) (simp add: pow2_def)

lemma pow2_mono: "a \<le> b \<Longrightarrow> pow2 a \<le> pow2 b"
proof -
  assume "a \<le> b"
  then obtain n where "b = a + int n" by (metis zle_iff_zadd)
  then show ?thesis by (simp add: pow2_add)
qed

lemma pow2_less_iff: "pow2 a < pow2 b \<longleftrightarrow> a < b"
  using pow2_mono [of b a] pow2_mono [of "a + 1" b] pow2_pos [of a]
  by (fastforce simp: pow2_Suc not_le [symmetric])

lemma expo_bounds:
  assumes "0 < x"
  shows "pow2 (expo x) \<le> x" and "x < pow2 (expo x + 1)"
proof -
  obtain p q where pq: "quotient_of x = (p, q)" by (cases "quotient_of x")
  have q: "0 < q" using quotient_of_denom_pos [OF pq] .
  have x: "x = of_int p / of_int q" using quotient_of_div [OF pq] .
  have p: "0 < p" using assms q by (simp add: x zero_less_divide_iff)
  have bp: "2 ^ nat (bitlen p - 1) \<le> p" "p < 2 ^ nat (bitlen p)"
    using bitlen_bounds [OF p] by auto
  have bq: "2 ^ nat (bitlen q - 1) \<le> q" "q < 2 ^ nat (bitlen q)"
    using bitlen_bounds [OF q] by auto
  define a b where "a = bitlen p" and "b = bitlen q"
  have ab: "0 < a" "0 < b"
    using p q bp(2) bq(2) by (auto simp: a_def b_def intro!: ccontr [of "0 < _"] dest!: leI)
  have P1: "pow2 (a - 1) \<le> of_int p" and P2: "of_int p < pow2 a"
    using bp ab of_int_le_iff [of "2 ^ nat (a - 1)" p, where 'a = rat]
      of_int_less_iff [of p "2 ^ nat a", where 'a = rat]
    by (auto simp: pow2_def a_def)
  have Q1: "pow2 (b - 1) \<le> of_int q" and Q2: "of_int q < pow2 b"
    using bq ab of_int_le_iff [of "2 ^ nat (b - 1)" q, where 'a = rat]
      of_int_less_iff [of q "2 ^ nat b", where 'a = rat]
    by (auto simp: pow2_def b_def)
  have qpos: "(0::rat) < of_int q" using q by simp
  have lower: "pow2 (a - b - 1) \<le> x"
  proof -
    have "pow2 (a - b - 1) * of_int q \<le> pow2 (a - b - 1) * pow2 b"
      using Q2 by (intro mult_left_mono) (auto intro: less_imp_le)
    also have "\<dots> = pow2 (a - 1)" by (simp flip: pow2_add)
    also have "\<dots> \<le> of_int p" by (rule P1)
    finally show ?thesis using qpos by (simp add: x pos_le_divide_eq)
  qed
  have upper: "x < pow2 (a - b + 1)"
  proof -
    have "of_int p < pow2 a" by (rule P2)
    also have "pow2 a = pow2 (a - b + 1) * pow2 (b - 1)" by (simp flip: pow2_add)
    also have "\<dots> \<le> pow2 (a - b + 1) * of_int q"
      using Q1 by (intro mult_left_mono) (auto intro: less_imp_le)
    finally show ?thesis using qpos by (simp add: x pos_divide_less_eq)
  qed
  have e: "expo x = (if pow2 (a - b) \<le> x then a - b else a - b - 1)"
    by (simp add: expo_def pq a_def b_def)
  show "pow2 (expo x) \<le> x" using lower e by (auto split: if_splits)
  show "x < pow2 (expo x + 1)" using upper e by (auto split: if_splits)
qed

lemma expo_unique: "pow2 e \<le> x \<Longrightarrow> x < pow2 (e + 1) \<Longrightarrow> expo x = e"
proof -
  assume a: "pow2 e \<le> x" "x < pow2 (e + 1)"
  then have "0 < x" using pow2_pos [of e] by linarith
  note b = expo_bounds [OF this]
  have "e < expo x + 1" using a(1) b(2) by (metis pow2_less_iff order_le_less_trans)
  moreover have "expo x < e + 1" using a(2) b(1) by (metis pow2_less_iff order_le_less_trans)
  ultimately show ?thesis by simp
qed

subsection \<open>Exactness in the safe range\<close>

lemma round_half_even_of_int [simp]: "round_half_even (of_int n) = n"
  by (simp add: round_half_even_def Let_def)

lemma round_half_even_ge: "of_int n \<le> y \<Longrightarrow> n \<le> round_half_even y"
proof -
  assume "of_int n \<le> y"
  then have "n \<le> \<lfloor>y\<rfloor>" by (simp add: le_floor_iff)
  then show ?thesis by (auto simp: round_half_even_def Let_def)
qed

lemma round_half_even_error: "\<bar>of_int (round_half_even y) - y\<bar> \<le> 1 / 2"
proof -
  have "of_int \<lfloor>y\<rfloor> \<le> y" "y < of_int \<lfloor>y\<rfloor> + 1" by linarith+
  then show ?thesis by (auto simp: round_half_even_def Let_def abs_le_iff)
qed

lemma fl_pos_error:
  assumes "0 < x"
  shows "\<bar>fl_pos x - x\<bar> \<le> x / of_int safe_limit"
proof -
  let ?u = "pow2 (expo x - 52)"
  have u: "0 < ?u" by simp
  have eq: "fl_pos x - x = (of_int (round_half_even (x / ?u)) - x / ?u) * ?u"
    by (simp add: fl_pos_def Let_def left_diff_distrib)
  have "\<bar>fl_pos x - x\<bar> = \<bar>of_int (round_half_even (x / ?u)) - x / ?u\<bar> * ?u"
    by (simp add: eq abs_mult)
  also have "\<dots> \<le> 1 / 2 * ?u"
    using round_half_even_error [of "x / ?u"] u by (intro mult_right_mono) auto
  also have "\<dots> = pow2 (expo x) / of_int safe_limit"
  proof -
    have "pow2 (expo x) = ?u * pow2 52" by (simp flip: pow2_add)
    moreover have "pow2 52 = 2 ^ 52" by (simp add: pow2_def)
    ultimately show ?thesis by (simp add: safe_limit_def)
  qed
  also have "\<dots> \<le> x / of_int safe_limit"
    using expo_bounds(1) [OF assms] by (simp add: safe_limit_def divide_right_mono)
  finally show ?thesis .
qed

lemma int_over_ulp:
  assumes "e \<le> 52"
  shows "\<exists>k. rat_of_int n / pow2 (e - 52) = of_int k"
proof -
  have "pow2 (52 - e) * pow2 (e - 52) = 1" by (simp flip: pow2_add) (simp add: pow2_def)
  then have "1 / pow2 (e - 52) = pow2 (52 - e)" by (simp add: eq_divide_eq divide_eq_eq)
  moreover have "pow2 (52 - e) = of_int (2 ^ nat (52 - e))" using assms by (simp add: pow2_def)
  ultimately have "rat_of_int n / pow2 (e - 52) = of_int (n * 2 ^ nat (52 - e))"
    by (metis of_int_mult times_divide_eq_right mult.right_neutral)
  then show ?thesis by blast
qed

lemma expo_le_52:
  assumes "0 < x" and "x < of_int safe_limit"
  shows "expo x \<le> 52"
proof -
  have "pow2 (expo x) < pow2 53"
    using expo_bounds(1) [OF assms(1)] assms(2) by (simp add: safe_limit_def pow2_def)
  then show ?thesis by (simp add: pow2_less_iff)
qed

lemma fl_pos_int_le:
  assumes "0 < x" and "x < of_int safe_limit" and "of_int n \<le> x"
  shows "of_int n \<le> fl_pos x"
proof -
  let ?u = "pow2 (expo x - 52)"
  obtain k where k: "rat_of_int n / ?u = of_int k"
    using int_over_ulp [OF expo_le_52 [OF assms(1,2)]] by blast
  have "of_int k \<le> x / ?u" using assms(3) k by (metis divide_right_mono pow2_pos less_imp_le)
  then have "k \<le> round_half_even (x / ?u)" by (rule round_half_even_ge)
  then have "of_int k * ?u \<le> of_int (round_half_even (x / ?u)) * ?u"
    by (intro mult_right_mono) auto
  moreover have "of_int k * ?u = of_int n" using k pow2_pos [of "expo x - 52"] by (simp add: field_simps)
  ultimately show ?thesis by (simp add: fl_pos_def Let_def)
qed

lemma fl_of_int:
  assumes "0 \<le> n" and "n < safe_limit"
  shows "fl (of_int n) = of_int n"
proof (cases "n = 0")
  case False
  with assms have x: "0 < rat_of_int n" "rat_of_int n < of_int safe_limit"
    by (simp_all add: safe_limit_def)
  obtain k where k: "rat_of_int n / pow2 (expo (of_int n) - 52) = of_int k"
    using int_over_ulp [OF expo_le_52 [OF x]] by blast
  then have "fl_pos (of_int n) = of_int k * pow2 (expo (of_int n) - 52)"
    by (simp add: fl_pos_def Let_def)
  also have "\<dots> = of_int n"
    using k pow2_pos [of "expo (of_int n) - 52"] by (simp add: field_simps)
  finally show ?thesis using x by (simp add: fl_def)
qed (simp add: fl_def)

lemma fl_nonneg: "0 \<le> x \<Longrightarrow> 0 \<le> fl x"
proof -
  assume "0 \<le> x"
  moreover have "0 \<le> fl_pos x" if "0 < x"
  proof -
    have "0 \<le> round_half_even (x / pow2 (expo x - 52))"
      using that by (intro round_half_even_ge) simp
    then show ?thesis by (simp add: fl_pos_def Let_def)
  qed
  ultimately show ?thesis by (auto simp: fl_def)
qed

text \<open>
  The floor of a rounded quotient is the exact integer quotient, for every dividend of the safe
  range: the rounding error \<open>x / 2 ^ 53\<close> is smaller than the distance \<open>1 / b\<close> to the next integer.
\<close>

lemma floor_js_div:
  assumes "0 \<le> a" and "a < safe_limit" and "0 < b"
  shows "\<lfloor>js_div (of_int a) (of_int b)\<rfloor> = a div b"
proof (cases "a = 0")
  case False
  define x where "x = rat_of_int a / of_int b"
  have b: "(0::rat) < of_int b" "(1::rat) \<le> of_int b" using assms(3) by (simp, linarith)
  have x: "0 < x" using assms False b by (simp add: x_def)
  have "x \<le> of_int a" using assms b by (simp add: x_def divide_le_eq mult_le_cancel_left1)
  then have lim: "x < of_int safe_limit" using assms(2) of_int_less_iff [of a safe_limit, where 'a = rat] by linarith
  have exact: "x = of_int (a div b) + of_int (a mod b) / of_int b"
    using b by (simp add: x_def field_simps flip: of_int_mult of_int_add)
  have lo: "of_int (a div b) \<le> x"
    using exact b pos_mod_sign [of b a] assms(3) by simp
  have "a mod b \<le> b - 1" using assms(3) by simp
  then have mod: "rat_of_int (a mod b) \<le> of_int b - 1"
    using of_int_le_iff [of "a mod b" "b - 1", where 'a = rat] by simp
  have hi: "x \<le> of_int (a div b) + 1 - 1 / of_int b"
    using exact mod b by (simp add: field_simps)
  have "x / of_int safe_limit < 1 / of_int b"
    using assms(2) b of_int_less_iff [of a safe_limit, where 'a = rat]
    by (simp add: x_def divide_less_eq safe_limit_def field_simps)
  then have "fl_pos x < of_int (a div b) + 1"
    using fl_pos_error [OF x] hi by (simp add: abs_le_iff)
  moreover have "of_int (a div b) \<le> fl_pos x" by (rule fl_pos_int_le [OF x lim lo])
  ultimately have "\<lfloor>fl_pos x\<rfloor> = a div b" by (simp add: floor_unique)
  then show ?thesis using x by (simp add: js_div_def fl_def x_def)
qed (simp add: js_div_def fl_def)

lemma js_mul_of_int:
  assumes "0 \<le> a * b" and "a * b < safe_limit"
  shows "js_mul (of_int a) (of_int b) = of_int (a * b)"
  using fl_of_int [OF assms] by (simp add: js_mul_def)

lemma js_round_of_int [simp]: "js_round (of_int n) = n"
  by (simp add: js_round_def floor_unique)

text \<open>Upper bounds, and the fraction that is left of a rounded quotient.\<close>

lemma round_half_even_le: "y \<le> of_int n \<Longrightarrow> round_half_even y \<le> n"
proof -
  assume y: "y \<le> of_int n"
  show ?thesis
  proof (cases "\<lfloor>y\<rfloor> = n")
    case True
    then have "y = of_int n" using y by linarith
    then show ?thesis by simp
  next
    case False
    then have "\<lfloor>y\<rfloor> + 1 \<le> n" using y by linarith
    then show ?thesis by (auto simp: round_half_even_def Let_def)
  qed
qed

lemma fl_int_ge:
  assumes "0 \<le> x" and "x \<le> of_int n" and "n < safe_limit"
  shows "fl x \<le> of_int n"
proof (cases "x = 0")
  case False
  then have x: "0 < x" "x < of_int safe_limit"
    using assms of_int_less_iff [of n safe_limit, where 'a = rat] by linarith+
  let ?u = "pow2 (expo x - 52)"
  obtain k where k: "rat_of_int n / ?u = of_int k"
    using int_over_ulp [OF expo_le_52 [OF x]] by blast
  have "x / ?u \<le> of_int k" using assms(2) k by (metis divide_right_mono pow2_pos less_imp_le)
  then have "round_half_even (x / ?u) \<le> k" by (rule round_half_even_le)
  then have "of_int (round_half_even (x / ?u)) * ?u \<le> of_int k * ?u"
    by (intro mult_right_mono) auto
  moreover have "of_int k * ?u = of_int n" using k pow2_pos [of "expo x - 52"] by (simp add: field_simps)
  ultimately show ?thesis using x by (simp add: fl_def fl_pos_def Let_def)
qed (use assms in \<open>simp add: fl_def\<close>)

lemma fl_pos_positive: "0 < x \<Longrightarrow> 0 < fl x"
proof -
  assume x: "0 < x"
  have "x / of_int safe_limit < x" using x by (simp add: safe_limit_def divide_less_eq)
  then show ?thesis using fl_pos_error [OF x] x by (simp add: fl_def abs_le_iff)
qed

lemma fl_neg: "x < 0 \<Longrightarrow> fl x < 0"
  using fl_pos_positive [of "- x"] by (simp add: fl_def)

definition js_fraction :: "rat \<Rightarrow> rat" where
  "js_fraction x = js_sub x (of_int \<lfloor>x\<rfloor>)"

lemma js_fraction_nonneg: "0 \<le> js_fraction x"
  unfolding js_fraction_def js_sub_def by (rule fl_nonneg) linarith

lemma js_fraction_pos_iff: "0 < js_fraction x \<longleftrightarrow> x \<noteq> of_int \<lfloor>x\<rfloor>"
proof
  assume "x \<noteq> of_int \<lfloor>x\<rfloor>"
  moreover have "of_int \<lfloor>x\<rfloor> \<le> x" by linarith
  ultimately show "0 < js_fraction x"
    unfolding js_fraction_def js_sub_def by (intro fl_pos_positive) linarith
qed (auto simp: js_fraction_def js_sub_def fl_def)

lemma js_fraction_div:
  assumes "0 \<le> a" and "a < safe_limit" and "0 < b"
  shows "0 < js_fraction (js_div (of_int a) (of_int b)) \<longleftrightarrow> a mod b \<noteq> 0"
proof -
  have fl: "\<lfloor>js_div (of_int a) (of_int b)\<rfloor> = a div b" by (rule floor_js_div [OF assms])
  show ?thesis
  proof (cases "a mod b = 0")
    case True
    then have "rat_of_int a / of_int b = of_int (a div b)"
      using assms(3) by (simp add: divide_eq_eq flip: of_int_mult) (metis mod_0_imp_dvd dvd_div_mult_self)
    moreover have "a div b \<le> a" using assms zdiv_mono2 [of a 1 b] by simp
    ultimately have "js_div (of_int a) (of_int b) = of_int (a div b)"
      using assms fl_of_int [of "a div b"] by (simp add: js_div_def pos_imp_zdiv_nonneg_iff)
    with True show ?thesis by (simp add: js_fraction_pos_iff)
  next
    case False
    define x where "x = rat_of_int a / of_int b"
    have b: "(0::rat) < of_int b" using assms(3) by simp
    have a: "0 < a" using False assms(1) by (cases "a = 0") auto
    have x: "0 < x" using a b by (simp add: x_def)
    have exact: "x = of_int (a div b) + of_int (a mod b) / of_int b"
      using b by (simp add: x_def field_simps flip: of_int_mult of_int_add)
    have "1 \<le> a mod b" using False assms(3) pos_mod_sign [of b a] by linarith
    then have "(1::rat) \<le> of_int (a mod b)" by simp
    then have "1 / of_int b \<le> rat_of_int (a mod b) / of_int b" using b by (simp add: divide_right_mono)
    moreover have "x / of_int safe_limit < 1 / of_int b"
      using assms(2) b of_int_less_iff [of a safe_limit, where 'a = rat]
      by (simp add: x_def divide_less_eq safe_limit_def field_simps)
    ultimately have "of_int (a div b) < fl_pos x"
      using fl_pos_error [OF x] exact by (simp add: abs_le_iff)
    then have "js_div (of_int a) (of_int b) \<noteq> of_int (a div b)"
      using x a b by (auto simp: js_div_def fl_def x_def)
    with False fl show ?thesis by (simp add: js_fraction_pos_iff)
  qed
qed

end
