(* ===== verification/Kernel.thy ===== *)
theory Kernel
  imports JsText JsNumber
begin

section \<open>The shared kernel\<close>

text \<open>
  packages/utils (domain errors, error envelope) and packages/domain (identity, guards, money,
  aggregate root and its event collection, specifications), used by every bounded context.
  \<^item> A domain error keeps its class, message and field issues; \<open>cause\<close> and \<open>context\<close>, which only
    reach logs, are left out.
  \<^item> \<^verbatim>\<open>ValueObject.equals\<close> is structural, so value objects are records compared with \<open>=\<close>.
  \<^item> An aggregate is a record that extends \<open>aggregate\<close>, with its id, its version and the events
    raised since the last \<open>pullDomainEvents\<close>.
\<close>

subsection \<open>Domain errors (packages/utils/src/domain-errors.ts)\<close>

record field_issue =
  fi_field :: string
  fi_message :: string

datatype domain_error =
    ValidationError string "field_issue list"
  | NotFoundError string
  | ConflictError string
  | ConcurrencyError string
  | BusinessRuleError string
  | UnexpectedError string
  | AuthenticationError string
  | AuthorizationError string

abbreviation issue :: "string \<Rightarrow> string \<Rightarrow> field_issue" where
  "issue f m \<equiv> \<lparr>fi_field = f, fi_message = m\<rparr>"

fun error_code :: "domain_error \<Rightarrow> string" where
  "error_code (ValidationError _ _) = ''VALIDATION''"
| "error_code (NotFoundError _) = ''NOT_FOUND''"
| "error_code (ConflictError _) = ''CONFLICT''"
| "error_code (ConcurrencyError _) = ''CONCURRENCY''"
| "error_code (BusinessRuleError _) = ''BUSINESS_RULE''"
| "error_code (UnexpectedError _) = ''UNEXPECTED''"
| "error_code (AuthenticationError _) = ''UNAUTHENTICATED''"
| "error_code (AuthorizationError _) = ''FORBIDDEN''"

fun error_message :: "domain_error \<Rightarrow> string" where
  "error_message (ValidationError m _) = m"
| "error_message (NotFoundError m) = m"
| "error_message (ConflictError m) = m"
| "error_message (ConcurrencyError m) = m"
| "error_message (BusinessRuleError m) = m"
| "error_message (UnexpectedError m) = m"
| "error_message (AuthenticationError m) = m"
| "error_message (AuthorizationError m) = m"

fun retryable :: "domain_error \<Rightarrow> bool" where
  "retryable (ConcurrencyError _) = True"
| "retryable (UnexpectedError _) = True"
| "retryable _ = False"

text \<open>What can be thrown: a domain error, another \<open>AppError\<close> (message, code), or anything else.\<close>

datatype thrown = ThrownDomain domain_error | ThrownApp string string | ThrownOther

record error_envelope =
  env_code :: string
  env_message :: string
  env_retryable :: bool
  env_fields :: "field_issue list"
  env_traceId :: "string option"

fun toErrorEnvelope :: "thrown \<Rightarrow> string option \<Rightarrow> error_envelope" where
  "toErrorEnvelope (ThrownDomain (ValidationError m fs)) traceId =
     \<lparr>env_code = error_code (ValidationError m fs), env_message = m,
      env_retryable = retryable (ValidationError m fs), env_fields = fs, env_traceId = traceId\<rparr>"
| "toErrorEnvelope (ThrownDomain e) traceId =
     \<lparr>env_code = error_code e, env_message = error_message e, env_retryable = retryable e,
      env_fields = [], env_traceId = traceId\<rparr>"
| "toErrorEnvelope (ThrownApp m code) traceId =
     \<lparr>env_code = code, env_message = m, env_retryable = False, env_fields = [], env_traceId = traceId\<rparr>"
| "toErrorEnvelope ThrownOther traceId =
     \<lparr>env_code = ''UNEXPECTED'', env_message = ''An unexpected error occurred'',
      env_retryable = True, env_fields = [], env_traceId = traceId\<rparr>"

subsection \<open>Guards (packages/domain/src/shared/guards/guard.ts)\<close>

definition guard_fail :: "string \<Rightarrow> string \<Rightarrow> (domain_error, 'a) result" where
  "guard_fail field message = Inl (ValidationError (field @ '' '' @ message) [issue field message])"

definition againstNull :: "'a option \<Rightarrow> string \<Rightarrow> (domain_error, 'a) result" where
  "againstNull v field = (case v of None \<Rightarrow> guard_fail field ''must not be null'' | Some x \<Rightarrow> Inr x)"

definition againstUndefined :: "'a option \<Rightarrow> string \<Rightarrow> (domain_error, 'a) result" where
  "againstUndefined v field =
     (case v of None \<Rightarrow> guard_fail field ''must not be undefined'' | Some x \<Rightarrow> Inr x)"

definition againstNullOrUndefined :: "'a option option \<Rightarrow> string \<Rightarrow> (domain_error, 'a) result" where
  "againstNullOrUndefined v field =
     (case v of Some (Some x) \<Rightarrow> Inr x | _ \<Rightarrow> guard_fail field ''is required'')"

definition againstEmpty :: "string \<Rightarrow> string \<Rightarrow> (domain_error, string) result" where
  "againstEmpty v field = (if blank v then guard_fail field ''must not be empty'' else Inr v)"

definition againstEmptyArray :: "'a list \<Rightarrow> string \<Rightarrow> (domain_error, 'a list) result" where
  "againstEmptyArray v field =
     (if length v = 0 then guard_fail field ''must not be empty'' else Inr v)"

definition againstNegative :: "js_number \<Rightarrow> string \<Rightarrow> (domain_error, js_number) result" where
  "againstNegative v field =
     (if js_less v (jint 0) then guard_fail field ''must not be negative'' else Inr v)"

definition againstOutOfRange :: "js_number \<Rightarrow> int \<Rightarrow> int \<Rightarrow> string \<Rightarrow> (domain_error, js_number) result" where
  "againstOutOfRange v mn mx field =
     (if js_less v (jint mn) \<or> js_less (jint mx) v
      then guard_fail field (''must be between '' @ show_int mn @ '' and '' @ show_int mx)
      else Inr v)"

fun guard_issues :: "(domain_error, unit) result list \<Rightarrow> field_issue list" where
  "guard_issues [] = []"
| "guard_issues (Inl (ValidationError _ fs) # rs) = fs @ guard_issues rs"
| "guard_issues (_ # rs) = guard_issues rs"

definition guard_combine :: "(domain_error, unit) result list \<Rightarrow> string \<Rightarrow> (domain_error, unit) result" where
  "guard_combine rs message =
     (let issues = guard_issues rs in
      if length issues = 0 then Inr () else Inl (ValidationError message issues))"

lemma againstEmpty_Inr_iff: "againstEmpty v f = Inr w \<longleftrightarrow> \<not> blank v \<and> w = v"
  by (auto simp: againstEmpty_def guard_fail_def)

lemma againstEmpty_ok [simp]: "\<not> blank v \<Longrightarrow> againstEmpty v f = Inr v"
  by (simp add: againstEmpty_def)

subsection \<open>Identity (unique-entity-id.ts), references by bare id (product-ref.ts)\<close>

text \<open>The identity is its string; a blank one throws.\<close>

definition UniqueEntityId_from :: "string \<Rightarrow> (domain_error, string) result" where
  "UniqueEntityId_from v =
     (case againstEmpty v ''UniqueEntityId.value'' of Inl e \<Rightarrow> Inl e | Inr _ \<Rightarrow> Inr v)"

definition ProductRef_create :: "string \<Rightarrow> (domain_error, string) result" where
  "ProductRef_create v = (case againstEmpty v ''productId'' of Inl e \<Rightarrow> Inl e | Inr _ \<Rightarrow> Inr v)"

lemma UniqueEntityId_from_Inr_iff: "UniqueEntityId_from v = Inr w \<longleftrightarrow> \<not> blank v \<and> w = v"
  by (auto simp: UniqueEntityId_from_def againstEmpty_def guard_fail_def)

lemma UniqueEntityId_from_ok [simp]: "\<not> blank v \<Longrightarrow> UniqueEntityId_from v = Inr v"
  by (simp add: UniqueEntityId_from_def)

subsection \<open>Money (packages/domain/src/shared/value-objects/money.ts)\<close>

record money =
  amountMinor :: int
  currency :: string

definition isValidCurrencyCode :: "string \<Rightarrow> bool" where
  "isValidCurrencyCode v = (length v = 3 \<and> list_all is_upper_letter v)"

definition Money_create :: "js_number \<Rightarrow> string \<Rightarrow> (domain_error, money) result" where
  "Money_create amount cur =
     (let issues =
        (if \<not> isInteger amount \<or> js_less amount (jint 0)
         then [issue ''amountMinor'' ''must be a non-negative integer (minor units)''] else []) @
        (if \<not> isValidCurrencyCode cur
         then [issue ''currency'' ''must be a 3-letter ISO-4217 code''] else [])
      in if length issues > 0 then Inl (ValidationError ''Invalid money'' issues)
         else Inr \<lparr>amountMinor = js_to_int amount, currency = cur\<rparr>)"

definition Money_zero :: "string \<Rightarrow> (domain_error, money) result" where
  "Money_zero cur =
     (if \<not> isValidCurrencyCode cur
      then Inl (BusinessRuleError (''Invalid currency code \"'' @ cur @ ''\" for Money.zero''))
      else Inr \<lparr>amountMinor = 0, currency = cur\<rparr>)"

definition assertSameCurrency :: "money \<Rightarrow> money \<Rightarrow> (domain_error, unit) result" where
  "assertSameCurrency m other =
     (if currency other \<noteq> currency m
      then Inl (BusinessRuleError ''Cannot operate on money of different currencies'') else Inr ())"

definition Money_plus :: "money \<Rightarrow> money \<Rightarrow> (domain_error, money) result" where
  "Money_plus m other = bind_result (assertSameCurrency m other) (\<lambda>_.
     Inr \<lparr>amountMinor = amountMinor m + amountMinor other, currency = currency m\<rparr>)"

definition Money_minus :: "money \<Rightarrow> money \<Rightarrow> (domain_error, money) result" where
  "Money_minus m other = bind_result (assertSameCurrency m other) (\<lambda>_.
     let r = amountMinor m - amountMinor other in
     if r < 0 then Inl (BusinessRuleError ''Money cannot be negative'')
     else Inr \<lparr>amountMinor = r, currency = currency m\<rparr>)"

definition Money_times :: "money \<Rightarrow> js_number \<Rightarrow> (domain_error, money) result" where
  "Money_times m factor =
     (if \<not> isInteger factor \<or> js_less factor (jint 0)
      then Inl (BusinessRuleError ''Money can only be multiplied by a non-negative integer'')
      else Inr \<lparr>amountMinor = amountMinor m * js_to_int factor, currency = currency m\<rparr>)"

definition Money_isGreaterThan :: "money \<Rightarrow> money \<Rightarrow> (domain_error, bool) result" where
  "Money_isGreaterThan m other = bind_result (assertSameCurrency m other) (\<lambda>_.
     Inr (amountMinor other < amountMinor m))"

definition Money_isZero :: "money \<Rightarrow> bool" where
  "Money_isZero m = (amountMinor m = 0)"

text \<open>The invariant of the class.\<close>

definition money_ok :: "money \<Rightarrow> bool" where
  "money_ok m \<longleftrightarrow> 0 \<le> amountMinor m \<and> isValidCurrencyCode (currency m)"

lemma assertSameCurrency_Inr_iff:
  "assertSameCurrency m n = Inr u \<longleftrightarrow> currency n = currency m"
  by (auto simp: assertSameCurrency_def)

lemma Money_create_Inr_iff:
  "Money_create x c = Inr m \<longleftrightarrow>
     (\<exists>n. x = jint n \<and> 0 \<le> n \<and> isValidCurrencyCode c \<and> m = \<lparr>amountMinor = n, currency = c\<rparr>)"
  by (cases "isInteger x") (auto simp: Money_create_def isInteger_iff)

lemma Money_zero_Inr_iff:
  "Money_zero c = Inr m \<longleftrightarrow> isValidCurrencyCode c \<and> m = \<lparr>amountMinor = 0, currency = c\<rparr>"
  by (auto simp: Money_zero_def)

lemma Money_plus_Inr_iff:
  "Money_plus m n = Inr r \<longleftrightarrow>
     currency n = currency m \<and> r = \<lparr>amountMinor = amountMinor m + amountMinor n, currency = currency m\<rparr>"
  by (auto simp: Money_plus_def bind_result_Inr_iff assertSameCurrency_Inr_iff)

lemma Money_plus_same [simp]:
  "currency n = currency m \<Longrightarrow>
     Money_plus m n = Inr \<lparr>amountMinor = amountMinor m + amountMinor n, currency = currency m\<rparr>"
  by (simp add: Money_plus_Inr_iff)

lemma Money_minus_Inr_iff:
  "Money_minus m n = Inr r \<longleftrightarrow>
     currency n = currency m \<and> amountMinor n \<le> amountMinor m \<and>
     r = \<lparr>amountMinor = amountMinor m - amountMinor n, currency = currency m\<rparr>"
  by (auto simp: Money_minus_def bind_result_Inr_iff assertSameCurrency_Inr_iff Let_def)

lemma Money_times_jint:
  "Money_times m (jint k) =
     (if k < 0 then Inl (BusinessRuleError ''Money can only be multiplied by a non-negative integer'')
      else Inr \<lparr>amountMinor = amountMinor m * k, currency = currency m\<rparr>)"
  by (simp add: Money_times_def)

lemma Money_times_Inr_iff:
  "Money_times m x = Inr r \<longleftrightarrow>
     (\<exists>k. x = jint k \<and> 0 \<le> k \<and> r = \<lparr>amountMinor = amountMinor m * k, currency = currency m\<rparr>)"
  by (cases "isInteger x") (auto simp: Money_times_def isInteger_iff)

lemma Money_isGreaterThan_Inr_iff:
  "Money_isGreaterThan m n = Inr b \<longleftrightarrow> currency n = currency m \<and> b = (amountMinor n < amountMinor m)"
  by (auto simp: Money_isGreaterThan_def bind_result_Inr_iff assertSameCurrency_Inr_iff)

lemma money_ok_create: "Money_create x c = Inr m \<Longrightarrow> money_ok m"
  by (auto simp: Money_create_Inr_iff money_ok_def)

text \<open>\<^verbatim>\<open>xs.reduce((acc, x) => acc.plus(x), start)\<close>, stopping at the first throw.\<close>

fun Money_sum :: "money \<Rightarrow> money list \<Rightarrow> (domain_error, money) result" where
  "Money_sum acc [] = Inr acc"
| "Money_sum acc (m # ms) = bind_result (Money_plus acc m) (\<lambda>acc'. Money_sum acc' ms)"

fun Money_diff :: "money \<Rightarrow> money list \<Rightarrow> (domain_error, money) result" where
  "Money_diff acc [] = Inr acc"
| "Money_diff acc (m # ms) = bind_result (Money_minus acc m) (\<lambda>acc'. Money_diff acc' ms)"

lemma Money_sum_same_currency:
  "\<forall>m\<in>set ms. currency m = currency acc \<Longrightarrow>
     Money_sum acc ms =
       Inr \<lparr>amountMinor = amountMinor acc + sum_list (map amountMinor ms), currency = currency acc\<rparr>"
  by (induction ms arbitrary: acc) auto

lemma Money_diff_same_currency:
  assumes "\<forall>m\<in>set ms. currency m = currency acc \<and> 0 \<le> amountMinor m"
    and "sum_list (map amountMinor ms) \<le> amountMinor acc"
  shows "Money_diff acc ms =
    Inr \<lparr>amountMinor = amountMinor acc - sum_list (map amountMinor ms), currency = currency acc\<rparr>"
  using assms
proof (induction ms arbitrary: acc)
  case Nil
  then show ?case by simp
next
  case (Cons m ms)
  have nn: "0 \<le> sum_list (map amountMinor ms)" using Cons.prems(1) by (auto intro!: sum_list_nonneg)
  let ?acc' = "\<lparr>amountMinor = amountMinor acc - amountMinor m, currency = currency acc\<rparr>"
  have "Money_minus acc m = Inr ?acc'"
    using Cons.prems nn by (auto simp: Money_minus_Inr_iff)
  moreover have "Money_diff ?acc' ms =
      Inr \<lparr>amountMinor = amountMinor ?acc' - sum_list (map amountMinor ms), currency = currency ?acc'\<rparr>"
    using Cons.prems by (intro Cons.IH) auto
  ultimately show ?case by simp
qed

subsection \<open>Aggregate root (packages/domain/src/shared/aggregate/aggregate-root.ts)\<close>

record 'd domain_event =
  ev_eventId :: string
  ev_aggregateId :: string
  ev_occurredAt :: timestamp
  ev_data :: 'd

record 'd aggregate =
  agg_id :: string
  agg_version :: int
  agg_events :: "'d domain_event list"

definition addDomainEvent :: "string \<Rightarrow> timestamp \<Rightarrow> 'd \<Rightarrow> ('d, 'z) aggregate_scheme \<Rightarrow> ('d, 'z) aggregate_scheme" where
  "addDomainEvent eventId occ d a =
     a\<lparr>agg_events := agg_events a @
        [\<lparr>ev_eventId = eventId, ev_aggregateId = agg_id a, ev_occurredAt = occ, ev_data = d\<rparr>]\<rparr>"

definition pullDomainEvents ::
  "('d, 'z) aggregate_scheme \<Rightarrow> 'd domain_event list \<times> ('d, 'z) aggregate_scheme" where
  "pullDomainEvents a = (agg_events a, a\<lparr>agg_events := []\<rparr>)"

lemma addDomainEvent_sel [simp]:
  "agg_id (addDomainEvent e t d a) = agg_id a"
  "agg_version (addDomainEvent e t d a) = agg_version a"
  "agg_events (addDomainEvent e t d a) = agg_events a @
     [\<lparr>ev_eventId = e, ev_aggregateId = agg_id a, ev_occurredAt = t, ev_data = d\<rparr>]"
  "aggregate.more (addDomainEvent e t d a) = aggregate.more a"
  by (simp_all add: addDomainEvent_def)

subsection \<open>Specifications (packages/domain/src/shared/specification/specification.ts)\<close>

text \<open>A specification is a leaf predicate, or built from others.\<close>

datatype 'c spec_tree =
    Leaf "'c \<Rightarrow> bool"
  | AndSpecification "'c spec_tree" "'c spec_tree"
  | OrSpecification "'c spec_tree" "'c spec_tree"
  | NotSpecification "'c spec_tree"

fun isSatisfiedBy :: "'c spec_tree \<Rightarrow> 'c \<Rightarrow> bool" where
  "isSatisfiedBy (Leaf p) c = p c"
| "isSatisfiedBy (AndSpecification l r) c = (isSatisfiedBy l c \<and> isSatisfiedBy r c)"
| "isSatisfiedBy (OrSpecification l r) c = (isSatisfiedBy l c \<or> isSatisfiedBy r c)"
| "isSatisfiedBy (NotSpecification s) c = (\<not> isSatisfiedBy s c)"

subsection \<open>Properties\<close>

lemma currency_code_USD: "isValidCurrencyCode ''USD''"
  by code_simp

text \<open>
  arithmetic on valid amounts yields valid amounts (no negative amount, a three-letter currency);
  an operation throws exactly on different currencies, on a difference below zero, or on a negative
  factor.
\<close>

lemma money_arithmetic_valid:
  "money_ok a \<Longrightarrow> money_ok b \<Longrightarrow>
     (case Money_plus a b of Inl e \<Rightarrow> currency a \<noteq> currency b | Inr r \<Rightarrow> money_ok r \<and> currency a = currency b) \<and>
     (case Money_minus a b of
        Inl e \<Rightarrow> currency a \<noteq> currency b \<or> amountMinor a < amountMinor b
      | Inr r \<Rightarrow> money_ok r \<and> currency a = currency b) \<and>
     (case Money_times a (jint k) of Inl e \<Rightarrow> k < 0 | Inr r \<Rightarrow> money_ok r)"
  by (auto simp: money_ok_def Money_plus_def Money_minus_def Money_times_jint assertSameCurrency_def
      Let_def split: sum.splits)

lemma money_arithmetic_valid_witness:
  "let a = \<lparr>amountMinor = 5, currency = ''USD''\<rparr>; b = \<lparr>amountMinor = 7, currency = ''USD''\<rparr> in
     (case Money_minus a b of
        Inl e \<Rightarrow> currency a \<noteq> currency b \<or> amountMinor a < amountMinor b
      | Inr r \<Rightarrow> money_ok r \<and> currency a = currency b)"
  using money_arithmetic_valid [of "\<lparr>amountMinor = 5, currency = ''USD''\<rparr>" "\<lparr>amountMinor = 7, currency = ''USD''\<rparr>" 0]
    currency_code_USD
  unfolding Let_def by (simp add: money_ok_def)

end
