(* ===== verification/Lifecycle.thy ===== *)
theory Lifecycle
  imports Prelude
begin

section \<open>Objects under sequences of calls\<close>

text \<open>
  The contracts the aggregates share. An object is driven by calls; \<open>runs step cs s\<close> is the object
  after the calls \<open>cs\<close>, each of which may throw: the object stays in the hands of its owner after a
  throw, with whatever the call had written, and the next call finds it so.
  \<^item> \<open>guarded_object\<close>: every call that its guard admits keeps an invariant, whether it returns or
    throws; \<open>invariant_object\<close> is the case of a guard on the call alone.
  \<^item> \<open>lifecycle\<close>: a status that a call moves along edges of a transition table (none, one or several),
    such as \<^verbatim>\<open>ORDER_STATUS_TRANSITIONS\<close>; what follows about sequences of calls is proved once here.
  \<^item> \<open>refinement\<close>: an abstract view on which every call amounts to an abstract operation.
  \<^item> \<open>closed_lifecycle\<close>: a set of statuses that the table never leaves; an \<open>invariant_object\<close>.
\<close>

fun runs :: "('c \<Rightarrow> ('e, 's, 'a) action) \<Rightarrow> 'c list \<Rightarrow> 's \<Rightarrow> 's" where
  "runs step [] s = s"
| "runs step (c # cs) s = runs step cs (snd (step c s))"

lemma runs_append: "runs step (cs @ ds) s = runs step ds (runs step cs s)"
  by (induction cs arbitrary: s) auto

definition edges :: "('t \<Rightarrow> 't list) \<Rightarrow> ('t \<times> 't) set" where
  "edges allowed = {(a, b). b \<in> set (allowed a)}"

lemma edges_iff [simp]: "(a, b) \<in> edges allowed \<longleftrightarrow> b \<in> set (allowed a)"
  by (simp add: edges_def)

text \<open>A list of statuses is a path of the table when neighbours are joined by an edge.\<close>

fun is_path :: "('t \<Rightarrow> 't list) \<Rightarrow> 't list \<Rightarrow> bool" where
  "is_path allowed [] = True"
| "is_path allowed [a] = True"
| "is_path allowed (a # b # ts) = (b \<in> set (allowed a) \<and> is_path allowed (b # ts))"

lemma is_path_snoc:
  "is_path allowed ts \<Longrightarrow> ts = [] \<or> b \<in> set (allowed (last ts)) \<Longrightarrow> is_path allowed (ts @ [b])"
  by (induction allowed ts rule: is_path.induct) auto

lemma is_path_rtrancl:
  "is_path allowed (a # ts) \<Longrightarrow> (a, last (a # ts)) \<in> (edges allowed)\<^sup>*"
proof (induction ts arbitrary: a)
  case (Cons b ts)
  then have "(a, b) \<in> edges allowed" "(b, last (b # ts)) \<in> (edges allowed)\<^sup>*" by auto
  then show ?case by (simp add: converse_rtrancl_into_rtrancl)
qed simp

lemma closed_rtrancl:
  "(a, b) \<in> (edges allowed)\<^sup>* \<Longrightarrow> a \<in> S \<Longrightarrow> (\<And>x y. x \<in> S \<Longrightarrow> y \<in> set (allowed x) \<Longrightarrow> y \<in> S) \<Longrightarrow> b \<in> S"
  by (induction rule: rtrancl_induct) auto

text \<open>A guard on a call may depend on the object it reaches.\<close>

fun admissible :: "('s \<Rightarrow> 'c \<Rightarrow> bool) \<Rightarrow> ('c \<Rightarrow> ('e, 's, 'a) action) \<Rightarrow> 's \<Rightarrow> 'c list \<Rightarrow> bool" where
  "admissible good step s [] = True"
| "admissible good step s (c # cs) = (good s c \<and> admissible good step (snd (step c s)) cs)"

lemma admissible_const: "list_all good cs \<Longrightarrow> admissible (\<lambda>_. good) step s cs"
  by (induction cs arbitrary: s) auto

locale guarded_object =
  fixes inv :: "'s \<Rightarrow> bool"
    and good :: "'s \<Rightarrow> 'c \<Rightarrow> bool"
    and step :: "'c \<Rightarrow> ('e, 's, 'a) action"
  assumes guarded_step: "inv s \<Longrightarrow> good s c \<Longrightarrow> inv (snd (step c s))"
begin

lemma guarded_runs: "inv s \<Longrightarrow> admissible good step s cs \<Longrightarrow> inv (runs step cs s)"
  by (induction cs arbitrary: s) (auto simp: guarded_step)

end

locale invariant_object =
  fixes inv :: "'s \<Rightarrow> bool"
    and good :: "'c \<Rightarrow> bool"
    and step :: "'c \<Rightarrow> ('e, 's, 'a) action"
  assumes step_inv: "inv s \<Longrightarrow> good c \<Longrightarrow> inv (snd (step c s))"
begin

lemma runs_inv: "inv s \<Longrightarrow> list_all good cs \<Longrightarrow> inv (runs step cs s)"
  by (induction cs arbitrary: s) (auto simp: step_inv)

end

sublocale invariant_object \<subseteq> guarded_object inv "\<lambda>_. good" step
  by unfold_locales (rule step_inv)

text \<open>The abstract operations that the calls amount to, in the order of the calls.\<close>

fun meanings :: "('c \<Rightarrow> ('e, 's, 'a) action) \<Rightarrow> ('s \<Rightarrow> 'c \<Rightarrow> 'o) \<Rightarrow> 'c list \<Rightarrow> 's \<Rightarrow> 'o list" where
  "meanings step meaning [] s = []"
| "meanings step meaning (c # cs) s = meaning s c # meanings step meaning cs (snd (step c s))"

locale refinement = guarded_object inv good step
  for inv :: "'s \<Rightarrow> bool" and good :: "'s \<Rightarrow> 'c \<Rightarrow> bool" and step :: "'c \<Rightarrow> ('e, 's, 'a) action" +
  fixes view :: "'s \<Rightarrow> 'v"
    and meaning :: "'s \<Rightarrow> 'c \<Rightarrow> 'o"
    and perform :: "'o \<Rightarrow> 'v \<Rightarrow> 'v"
  assumes simulates: "inv s \<Longrightarrow> good s c \<Longrightarrow> view (snd (step c s)) = perform (meaning s c) (view s)"
begin

lemma runs_refine:
  "inv s \<Longrightarrow> admissible good step s cs \<Longrightarrow>
     view (runs step cs s) = fold perform (meanings step meaning cs s) (view s)"
  by (induction cs arbitrary: s) (auto simp: simulates guarded_step)

end

locale lifecycle =
  fixes status :: "'s \<Rightarrow> 't"
    and allowed :: "'t \<Rightarrow> 't list"
    and step :: "'c \<Rightarrow> ('e, 's, 'a) action"
  assumes step_moves: "(status s, status (snd (step c s))) \<in> (edges allowed)\<^sup>*"
begin

lemma runs_path: "(status s, status (runs step cs s)) \<in> (edges allowed)\<^sup>*"
proof (induction cs arbitrary: s)
  case (Cons c cs)
  then show ?case using step_moves [of s c] by (auto intro: rtrancl_trans)
qed simp

lemma runs_terminal: "allowed (status s) = [] \<Longrightarrow> status (runs step cs s) = status s"
  using closed_rtrancl [OF runs_path [of s cs], of "{status s}"] by auto

lemma runs_closed:
  "status s \<in> S \<Longrightarrow> (\<And>x y. x \<in> S \<Longrightarrow> y \<in> set (allowed x) \<Longrightarrow> y \<in> S) \<Longrightarrow> status (runs step cs s) \<in> S"
  using closed_rtrancl [OF runs_path [of s cs]] by blast

end

locale closed_lifecycle = lifecycle status allowed step
  for status :: "'s \<Rightarrow> 't" and allowed :: "'t \<Rightarrow> 't list" and step :: "'c \<Rightarrow> ('e, 's, 'a) action" +
  fixes S :: "'t set"
  assumes closed: "x \<in> S \<Longrightarrow> y \<in> set (allowed x) \<Longrightarrow> y \<in> S"

sublocale closed_lifecycle \<subseteq> invariant_object "\<lambda>s. status s \<in> S" "\<lambda>_. True" step
proof unfold_locales
  fix s c
  assume "status s \<in> S"
  with closed_rtrancl [OF step_moves] show "status (snd (step c s)) \<in> S" using closed by blast
qed

end
