(* ===== verification/Outbox.thy ===== *)
theory Outbox
  imports Kernel Lifecycle
begin

section \<open>The outbox: domain events become integration-event envelopes\<close>

text \<open>
  packages/domain-events (envelope, topic names) and packages/messaging/src/outbox (writer, in-memory
  store, polling relay), packages/repository/src/index.ts (pages).
  \<^item> The translator of a context is a function from its domain events to an optional descriptor;
    the injected \<^verbatim>\<open>EventSerializer\<close> is a function from the envelope to content type and bytes.
  \<^item> Timestamps stay milliseconds where the code prints them with \<^verbatim>\<open>toISOString\<close>.
  \<^item> An error that is no domain error (\<^verbatim>\<open>new Error\<close>) is the string of its message, cut where
    the message leaves the 8-bit code units.
\<close>

subsection \<open>Topic names (packages/domain-events/src/topic.ts)\<close>

definition segment_char :: "char \<Rightarrow> bool" where
  "segment_char c = (is_lower_letter c \<or> is_digit_char c \<or> c = CHR ''_'')"

fun is_segment :: "string \<Rightarrow> bool" where
  "is_segment [] = False"
| "is_segment (c # cs) = (is_lower_letter c \<and> list_all segment_char cs)"

fun split_dots :: "string \<Rightarrow> string list" where
  "split_dots [] = [[]]"
| "split_dots (c # cs) =
     (if c = CHR ''.'' then [] # split_dots cs
      else case split_dots cs of [] \<Rightarrow> [[c]] | w # ws \<Rightarrow> (c # w) # ws)"

definition event_type_pattern :: "string \<Rightarrow> bool" where
  "event_type_pattern s = (length (split_dots s) = 3 \<and> list_all is_segment (split_dots s))"

definition topicFor :: "string \<Rightarrow> int \<Rightarrow> (string, string) result" where
  "topicFor eventType eventVersion =
     (if \<not> event_type_pattern eventType
      then Inl (''Invalid event type \"'' @ eventType @ ''\" (expected \"<context>.<aggregate>.<event>\").'')
      else if eventVersion < 1
      then Inl (''Invalid event version \"'' @ show_int eventVersion @ ''\" (expected an integer >= 1).'')
      else Inr (eventType @ ''.v'' @ show_int eventVersion))"

subsection \<open>Envelope (packages/domain-events/src/integration-event.ts)\<close>

definition readEnvelopeTenant :: "string option \<Rightarrow> string option" where
  "readEnvelopeTenant t = (case t of Some s \<Rightarrow> if \<not> blank s then Some s else None | None \<Rightarrow> None)"

record 'p descriptor =
  d_type :: string
  d_eventVersion :: int
  d_aggregateType :: string
  d_payload :: 'p

record 'p integration_event =
  ie_messageId :: string
  ie_type :: string
  ie_eventVersion :: int
  ie_aggregateId :: string
  ie_aggregateType :: string
  ie_occurredAt :: timestamp
  ie_correlationId :: string
  ie_causationId :: string
  ie_tenantId :: string
  ie_producer :: "string option"
  ie_payload :: 'p

record event_context =
  cx_correlationId :: string
  cx_causationId :: string
  cx_tenantId :: "string option"

definition rootEventContext :: "string \<Rightarrow> string option \<Rightarrow> event_context" where
  "rootEventContext genId tenantId =
     \<lparr>cx_correlationId = genId, cx_causationId = genId, cx_tenantId = tenantId\<rparr>"

definition followOnEventContext :: "string \<Rightarrow> string \<Rightarrow> string option \<Rightarrow> event_context" where
  "followOnEventContext messageId correlationId tenantId =
     \<lparr>cx_correlationId = correlationId, cx_causationId = messageId, cx_tenantId = tenantId\<rparr>"

subsection \<open>Writer and store\<close>

datatype outbox_status = Pending | Published

record headers =
  h_messageId :: string
  h_type :: string
  h_eventVersion :: string
  h_contentType :: string
  h_correlationId :: string
  h_causationId :: string
  h_tenantId :: string
  h_producer :: "string option"

record 'b outbox_entry =
  oe_id :: string
  oe_topic :: string
  oe_key :: string
  oe_contentType :: string
  oe_payload :: 'b
  oe_headers :: headers
  oe_status :: outbox_status
  oe_createdAt :: timestamp
  oe_publishedAt :: "timestamp option"

text \<open>What the writer is built from: translator, serializer, clock reading and producer.\<close>

record ('d, 'p, 'b) outbox_deps =
  od_translate :: "'d domain_event \<Rightarrow> 'p descriptor option"
  od_serialize :: "'p integration_event \<Rightarrow> string \<times> 'b"
  od_now :: timestamp
  od_producer :: "string option"

definition make_envelope ::
  "('d, 'p, 'b) outbox_deps \<Rightarrow> 'd domain_event \<Rightarrow> 'p descriptor \<Rightarrow> event_context \<Rightarrow> string \<Rightarrow> 'p integration_event" where
  "make_envelope deps event descr cx tenantId =
     \<lparr>ie_messageId = ev_eventId event, ie_type = d_type descr, ie_eventVersion = d_eventVersion descr,
      ie_aggregateId = ev_aggregateId event, ie_aggregateType = d_aggregateType descr,
      ie_occurredAt = ev_occurredAt event, ie_correlationId = cx_correlationId cx,
      ie_causationId = cx_causationId cx, ie_tenantId = tenantId,
      ie_producer = od_producer deps, ie_payload = d_payload descr\<rparr>"

definition toEntry ::
  "('d, 'p, 'b) outbox_deps \<Rightarrow> 'd domain_event \<Rightarrow> event_context \<Rightarrow> (string, 'b outbox_entry option) result" where
  "toEntry deps event cx =
     (case od_translate deps event of
        None \<Rightarrow> Inr None
      | Some descr \<Rightarrow>
          (case readEnvelopeTenant (cx_tenantId cx) of
             None \<Rightarrow> Inl (''OutboxWriter: refusing to enqueue \"'' @ d_type descr @ ''\"'')
           | Some tenantId \<Rightarrow>
               (let envelope = make_envelope deps event descr cx tenantId;
                    (contentType, bytes) = od_serialize deps envelope
                in bind_result (topicFor (ie_type envelope) (ie_eventVersion envelope)) (\<lambda>topic.
                   Inr (Some
                     \<lparr>oe_id = ie_messageId envelope, oe_topic = topic, oe_key = ie_aggregateId envelope,
                      oe_contentType = contentType, oe_payload = bytes,
                      oe_headers =
                        \<lparr>h_messageId = ie_messageId envelope, h_type = ie_type envelope,
                         h_eventVersion = show_int (ie_eventVersion envelope), h_contentType = contentType,
                         h_correlationId = ie_correlationId envelope,
                         h_causationId = ie_causationId envelope, h_tenantId = ie_tenantId envelope,
                         h_producer = ie_producer envelope\<rparr>,
                      oe_status = Pending, oe_createdAt = od_now deps, oe_publishedAt = None\<rparr>)))))"

fun toEntries ::
  "('d, 'p, 'b) outbox_deps \<Rightarrow> 'd domain_event list \<Rightarrow> event_context \<Rightarrow> (string, 'b outbox_entry list) result" where
  "toEntries deps [] cx = Inr []"
| "toEntries deps (event # events) cx =
     bind_result (toEntry deps event cx) (\<lambda>entry.
     bind_result (toEntries deps events cx) (\<lambda>entries.
       Inr (case entry of None \<Rightarrow> entries | Some e \<Rightarrow> e # entries)))"

definition append_entries :: "'b outbox_entry list \<Rightarrow> 'b outbox_entry list \<Rightarrow> 'b outbox_entry list" where
  "append_entries store entries = store @ entries"

text \<open>\<^verbatim>\<open>OutboxWriter.write\<close>: nothing is appended when any event of the batch is refused.\<close>

definition outbox_write ::
  "('d, 'p, 'b) outbox_deps \<Rightarrow> 'd domain_event list \<Rightarrow> event_context \<Rightarrow>
     (string, 'b outbox_entry list, unit) action" where
  "outbox_write deps events cx store =
     (case toEntries deps events cx of
        Inl e \<Rightarrow> (Inl e, store)
      | Inr entries \<Rightarrow> (Inr (), if length entries = 0 then store else append_entries store entries))"

definition fetchPending :: "int \<Rightarrow> 'b outbox_entry list \<Rightarrow> 'b outbox_entry list" where
  "fetchPending limit store = take (nat limit) (filter (\<lambda>e. oe_status e = Pending) store)"

definition markPublished :: "string list \<Rightarrow> timestamp \<Rightarrow> 'b outbox_entry list \<Rightarrow> 'b outbox_entry list" where
  "markPublished ids publishedAt store =
     map (\<lambda>e. if oe_status e = Pending \<and> oe_id e \<in> set ids
              then e\<lparr>oe_status := Published, oe_publishedAt := Some publishedAt\<rparr> else e) store"

subsection \<open>Polling relay (outbox-relay.ts)\<close>

record 'b publish_record =
  pr_topic :: string
  pr_key :: string
  pr_value :: 'b
  pr_headers :: headers

definition toRecord :: "'b outbox_entry \<Rightarrow> 'b publish_record" where
  "toRecord e = \<lparr>pr_topic = oe_topic e, pr_key = oe_key e, pr_value = oe_payload e, pr_headers = oe_headers e\<rparr>"

text \<open>
  \<^verbatim>\<open>drainOnce\<close> on the store and the log of what the publisher was given. \<open>publish\<close> is the outcome of
  \<^verbatim>\<open>publishBatch\<close>: whether it returned, and how many records of the batch the broker took before
  it returned or threw.
\<close>

definition drainOnce ::
  "int \<Rightarrow> timestamp \<Rightarrow> ('b publish_record list \<Rightarrow> bool \<times> nat) \<Rightarrow>
     (unit, 'b outbox_entry list \<times> 'b publish_record list, int) action" where
  "drainOnce batchSize now publish s =
     (case s of (store, plog) \<Rightarrow>
        (let batch = fetchPending batchSize store in
         if length batch = 0 then (Inr 0, (store, plog))
         else case publish (map toRecord batch) of
           (False, k) \<Rightarrow> (Inl (), (store, plog @ take k (map toRecord batch)))
         | (True, _) \<Rightarrow>
             (Inr (int (length batch)),
              (markPublished (map oe_id batch) now store, plog @ map toRecord batch))))"

subsection \<open>Pages (packages/repository/src/index.ts)\<close>

record page_info =
  hasNextPage :: bool
  endCursor :: "string option"

definition normalizePageSize :: "int option \<Rightarrow> int" where
  "normalizePageSize first = (case first of None \<Rightarrow> 50 | Some n \<Rightarrow> max 1 (min n 100))"

definition buildPaginatedPage :: "'a list \<Rightarrow> int \<Rightarrow> ('a \<Rightarrow> string) \<Rightarrow> 'a list \<times> page_info" where
  "buildPaginatedPage overFetchedRows first sortKeyOf =
     (let hasNext = int (length overFetchedRows) > first;
          items = (if hasNext then take (nat first) overFetchedRows else overFetchedRows);
          cursor = (if length items > 0 then Some (sortKeyOf (items ! (length items - 1))) else None)
      in (items, \<lparr>hasNextPage = hasNext, endCursor = cursor\<rparr>))"

text \<open>
  \<^verbatim>\<open>list\<close> of the in-memory repositories: sort by id with \<open>localeCompare\<close> (a parameter), start after
  the cursor (at the beginning when the cursor names no row: \<^verbatim>\<open>findIndex\<close> is then -1), over-fetch by one.
\<close>

fun find_index :: "('a \<Rightarrow> bool) \<Rightarrow> 'a list \<Rightarrow> int" where
  "find_index P [] = -1"
| "find_index P (x # xs) =
     (if P x then 0 else let i = find_index P xs in if i = -1 then -1 else i + 1)"

definition list_page ::
  "(string \<Rightarrow> string \<Rightarrow> int) \<Rightarrow> ('a \<Rightarrow> string) \<Rightarrow> int option \<Rightarrow> string option \<Rightarrow> 'a list \<Rightarrow> 'a list \<times> page_info" where
  "list_page localeCompare idOf first after rows =
     (let limit = normalizePageSize first;
          all = sort_cmp (\<lambda>a b. localeCompare (idOf a) (idOf b)) rows;
          startIndex = (case after of None \<Rightarrow> 0 | Some c \<Rightarrow> find_index (\<lambda>x. idOf x = c) all + 1);
          fetched = take (nat (limit + 1)) (drop (nat startIndex) all)
      in buildPaginatedPage fetched limit idOf)"

subsection \<open>Lemmas on the writer\<close>

lemma toEntry_Inr_Some:
  assumes "toEntry deps event cx = Inr (Some e)"
  shows "oe_id e = ev_eventId event" "oe_key e = ev_aggregateId event" "oe_status e = Pending"
    "oe_publishedAt e = None" "h_messageId (oe_headers e) = oe_id e"
    "cx_tenantId cx = Some (h_tenantId (oe_headers e))"
    "\<not> blank (h_tenantId (oe_headers e))"
  using assms
  by (auto simp: toEntry_def make_envelope_def readEnvelopeTenant_def Let_def bind_result_Inr_iff
      split: option.splits prod.splits if_splits)

lemma toEntries_props:
  "toEntries deps events cx = Inr entries \<Longrightarrow> e \<in> set entries \<Longrightarrow>
     oe_status e = Pending \<and> h_messageId (oe_headers e) = oe_id e \<and>
     cx_tenantId cx = Some (h_tenantId (oe_headers e)) \<and>
     (\<exists>ev\<in>set events. oe_id e = ev_eventId ev \<and> oe_key e = ev_aggregateId ev)"
proof (induction events arbitrary: entries)
  case (Cons ev evs)
  then obtain x xs where x: "toEntry deps ev cx = Inr x" and xs: "toEntries deps evs cx = Inr xs"
    and entries: "entries = (case x of None \<Rightarrow> xs | Some e \<Rightarrow> e # xs)"
    by (auto simp: bind_result_Inr_iff)
  show ?case
  proof (cases "x = Some e")
    case True
    with toEntry_Inr_Some [of deps ev cx e] x show ?thesis by auto
  next
    case False
    with Cons.prems entries have "e \<in> set xs" by (auto split: option.splits)
    with Cons.IH [OF xs] show ?thesis by auto
  qed
qed simp

text \<open>The events a batch publishes are those the translator maps, in their order.\<close>

lemma toEntries_total:
  assumes "\<And>ev d. od_translate deps ev = Some d \<Longrightarrow> event_type_pattern (d_type d) \<and> d_eventVersion d = 1"
    and "readEnvelopeTenant (cx_tenantId cx) = Some t"
  shows "\<exists>entries. toEntries deps events cx = Inr entries"
proof (induction events)
  case (Cons ev events)
  have "\<exists>x. toEntry deps ev cx = Inr x"
  proof (cases "od_translate deps ev")
    case (Some d)
    with assms(1) [OF Some] show ?thesis
      by (simp add: toEntry_def assms(2) make_envelope_def topicFor_def split: prod.split)
  qed (simp add: toEntry_def)
  with Cons show ?case by auto
qed simp

lemma toEntries_ids:
  "toEntries deps events cx = Inr entries \<Longrightarrow>
     map oe_id entries = map ev_eventId (filter (\<lambda>ev. od_translate deps ev \<noteq> None) events)"
proof (induction events arbitrary: entries)
  case (Cons ev evs)
  then obtain x xs where x: "toEntry deps ev cx = Inr x" and xs: "toEntries deps evs cx = Inr xs"
    and entries: "entries = (case x of None \<Rightarrow> xs | Some e \<Rightarrow> e # xs)"
    by (auto simp: bind_result_Inr_iff)
  have "(x = None) = (od_translate deps ev = None)"
    using x by (auto simp: toEntry_def Let_def bind_result_Inr_iff split: option.splits prod.splits)
  with Cons.IH [OF xs] entries toEntry_Inr_Some [of deps ev cx] x show ?case
    by (auto split: option.splits)
qed simp

lemma outbox_write_ok_iff:
  "outbox_write deps events cx store = (Inr u, store') \<longleftrightarrow>
     (\<exists>entries. toEntries deps events cx = Inr entries \<and> store' = store @ entries)"
  by (auto simp: outbox_write_def append_entries_def split: sum.splits)

lemma atomic_outbox_write [atomic_intros]: "atomic (outbox_write deps events cx)"
  by (auto simp: atomic_def outbox_write_def split: sum.splits)

subsection \<open>Lemmas on the relay\<close>

text \<open>
  The calls that reach a store and its publisher: a repository writes a batch of events, or the relay
  drains, with the broker's outcome. An entry is marked published only after the broker was given a
  record with its message id.
\<close>

datatype ('d, 'p, 'b) relay_call =
    WriteEvents "('d, 'p, 'b) outbox_deps" "'d domain_event list" event_context
  | Drain int timestamp "'b publish_record list \<Rightarrow> bool \<times> nat"

fun relay_step :: "('d, 'p, 'b) relay_call \<Rightarrow>
    (string, 'b outbox_entry list \<times> 'b publish_record list, int) action" where
  "relay_step (WriteEvents deps events cx) (store, plog) =
     (case outbox_write deps events cx store of (r, store') \<Rightarrow> (map_ok (\<lambda>_. 0) r, (store', plog)))"
| "relay_step (Drain batchSize now publish) s =
     (case drainOnce batchSize now publish s of (r, s') \<Rightarrow> (mapError (\<lambda>_. ''publish failed'') r, s'))"

definition outbox_ok :: "'b outbox_entry list \<times> 'b publish_record list \<Rightarrow> bool" where
  "outbox_ok s = list_all (\<lambda>e. h_messageId (oe_headers e) = oe_id e \<and>
      (oe_status e = Published \<longrightarrow> oe_id e \<in> (h_messageId \<circ> pr_headers) ` set (snd s))) (fst s)"

lemma fetchPending_set: "e \<in> set (fetchPending limit store) \<Longrightarrow> e \<in> set store \<and> oe_status e = Pending"
  using set_take_subset by (fastforce simp: fetchPending_def)

lemma toRecord_id [simp]: "pr_headers (toRecord e) = oe_headers e"
  by (simp add: toRecord_def)

lemma outbox_ok_log: "outbox_ok (store, plog) \<Longrightarrow> outbox_ok (store, plog @ extra)"
  by (auto simp: outbox_ok_def list_all_iff)

lemma outbox_ok_mark:
  assumes ok: "outbox_ok (store, plog)"
  shows "outbox_ok (markPublished (map oe_id (fetchPending n store)) now store,
    plog @ map toRecord (fetchPending n store))"
proof -
  have "oe_id b \<in> (h_messageId \<circ> pr_headers) ` set (map toRecord (fetchPending n store))"
    if "b \<in> set (fetchPending n store)" for b
  proof -
    have "h_messageId (oe_headers b) = oe_id b"
      using ok fetchPending_set [OF that] by (auto simp: outbox_ok_def list_all_iff)
    with that show ?thesis by (force simp: image_iff)
  qed
  then show ?thesis using ok
    by (auto simp: outbox_ok_def list_all_iff markPublished_def image_Un)
qed

lemma relay_step_ok: "outbox_ok s \<Longrightarrow> outbox_ok (snd (relay_step c s))"
proof (cases c)
  case (WriteEvents deps events cx)
  assume ok: "outbox_ok s"
  obtain store plog where s: "s = (store, plog)" by (cases s)
  show ?thesis
  proof (cases "toEntries deps events cx")
    case (Inl e)
    then show ?thesis using ok by (simp add: WriteEvents s outbox_write_def)
  next
    case (Inr entries)
    with ok show ?thesis
      by (auto simp: WriteEvents s outbox_write_def append_entries_def outbox_ok_def list_all_iff
          dest: toEntries_props)
  qed
next
  case (Drain n now publish)
  assume ok: "outbox_ok s"
  obtain store plog where s: "s = (store, plog)" by (cases s)
  show ?thesis
    using ok outbox_ok_log [of store plog] outbox_ok_mark [of store plog n now]
    by (auto simp: Drain s drainOnce_def Let_def split: prod.splits bool.splits)
qed

subsection \<open>Lemmas on pages\<close>

lemma find_index_nth:
  "distinct (map f xs) \<Longrightarrow> i < length xs \<Longrightarrow> find_index (\<lambda>x. f x = f (xs ! i)) xs = int i"
proof (induction xs arbitrary: i)
  case (Cons x xs)
  show ?case
  proof (cases i)
    case (Suc j)
    then have j: "j < length xs" "f x \<noteq> f (xs ! j)" using Cons.prems by auto
    then show ?thesis using Cons Suc by (simp add: Let_def)
  qed simp
qed simp

definition page_from :: "('a \<Rightarrow> string) \<Rightarrow> nat \<Rightarrow> 'a list \<Rightarrow> nat \<Rightarrow> 'a list \<times> page_info" where
  "page_from idOf limit all i = buildPaginatedPage (take (Suc limit) (drop i all)) (int limit) idOf"

lemma page_from_items: "fst (page_from idOf limit all i) = take limit (drop i all)"
  by (auto simp: page_from_def buildPaginatedPage_def Let_def min_def)

lemma page_from_next:
  "hasNextPage (snd (page_from idOf limit all i)) \<longleftrightarrow> i + limit < length all"
  by (auto simp: page_from_def buildPaginatedPage_def Let_def)

lemma page_from_cursor:
  "0 < limit \<Longrightarrow> i + limit < length all \<Longrightarrow>
     endCursor (snd (page_from idOf limit all i)) = Some (idOf (all ! (i + limit - 1)))"
  by (auto simp: page_from_def buildPaginatedPage_def Let_def nth_take)

lemma list_page_start:
  "list_page cmp idOf first None rows =
     page_from idOf (nat (normalizePageSize first)) (sort_cmp (\<lambda>a b. cmp (idOf a) (idOf b)) rows) 0"
  by (auto simp: list_page_def page_from_def normalizePageSize_def Let_def nat_add_distrib split: option.splits)

lemma list_page_after:
  assumes "distinct (map idOf rows)"
    and "all = sort_cmp (\<lambda>a b. cmp (idOf a) (idOf b)) rows" and "j < length all"
  shows "list_page cmp idOf first (Some (idOf (all ! j))) rows =
    page_from idOf (nat (normalizePageSize first)) all (Suc j)"
proof -
  have "mset (map idOf all) = mset (map idOf rows)" using assms(2) by simp
  then have "distinct (map idOf all)" using assms(1) by (metis mset_eq_imp_distinct_iff)
  from find_index_nth [OF this assms(3)] show ?thesis
    by (auto simp: list_page_def page_from_def Let_def assms(2) [symmetric] nat_add_distrib
        normalizePageSize_def split: option.splits)
qed

text \<open>A client that follows the cursors, for at most \<open>n\<close> pages.\<close>

fun walk_pages :: "nat \<Rightarrow> (string \<Rightarrow> string \<Rightarrow> int) \<Rightarrow> ('a \<Rightarrow> string) \<Rightarrow> int option \<Rightarrow> string option \<Rightarrow>
    'a list \<Rightarrow> 'a list" where
  "walk_pages 0 cmp idOf first after rows = []"
| "walk_pages (Suc n) cmp idOf first after rows =
     (case list_page cmp idOf first after rows of (items, info) \<Rightarrow>
        items @ (if hasNextPage info then walk_pages n cmp idOf first (endCursor info) rows else []))"

lemma walk_pages_from:
  assumes d: "distinct (map idOf rows)"
    and all: "all = sort_cmp (\<lambda>a b. cmp (idOf a) (idOf b)) rows"
    and L: "L = nat (normalizePageSize first)"
  shows "list_page cmp idOf first after rows = page_from idOf L all i \<Longrightarrow> i \<le> length all \<Longrightarrow>
    length all < i + n * L \<or> 0 < n \<and> length all \<le> i + n * L \<Longrightarrow>
    walk_pages n cmp idOf first after rows = drop i all"
proof (induction n arbitrary: i after)
  case (Suc n)
  have L0: "0 < L" by (auto simp: L normalizePageSize_def split: option.splits)
  obtain items info where p: "page_from idOf L all i = (items, info)" by (cases "page_from idOf L all i")
  have items: "items = take L (drop i all)" using page_from_items [of idOf L all i] p by simp
  show ?case
  proof (cases "i + L < length all")
    case False
    then show ?thesis using Suc.prems p items page_from_next [of idOf L all i] by simp
  next
    case True
    then have info: "hasNextPage info" "endCursor info = Some (idOf (all ! (i + L - 1)))"
      using page_from_next [of idOf L all i] page_from_cursor [of L i all idOf] p L0 by auto
    have "list_page cmp idOf first (endCursor info) rows = page_from idOf L all (i + L)"
      using list_page_after [OF d all, of "i + L - 1" first] True L0 L info by simp
    moreover have "length all < i + L + n * L \<or> 0 < n \<and> length all \<le> i + L + n * L"
      using Suc.prems(3) True by (cases n) (auto simp: add.assoc)
    ultimately have "walk_pages n cmp idOf first (endCursor info) rows = drop (i + L) all"
      using True by (intro Suc.IH) auto
    then have "walk_pages (Suc n) cmp idOf first after rows = take L (drop i all) @ drop (i + L) all"
      using Suc.prems(1) p info(1) items by simp
    also have "\<dots> = drop i all" by (metis append_take_drop_id drop_drop add.commute)
    finally show ?thesis .
  qed
qed auto

lemma walk_pages_all:
  assumes "distinct (map idOf rows)" and "length rows \<le> n * nat (normalizePageSize first)" and "0 < n"
  shows "walk_pages n cmp idOf first None rows = sort_cmp (\<lambda>a b. cmp (idOf a) (idOf b)) rows"
  using walk_pages_from [OF assms(1) refl refl, of cmp first None 0 n] assms(2,3)
  by (simp add: list_page_start)

subsection \<open>Properties\<close>

lemma pending_mark:
  "filter (\<lambda>e. oe_status e = Pending) (markPublished ids now store) =
     filter (\<lambda>e. oe_status e = Pending \<and> oe_id e \<notin> set ids) store"
  by (induction store) (auto simp: markPublished_def)

lemma pending_shrinks:
  assumes "1 \<le> k" and "filter (\<lambda>e. oe_status e = Pending) store \<noteq> []"
  shows "length (filter (\<lambda>e. oe_status e = Pending) (markPublished (map oe_id (fetchPending k store)) now store))
    < length (filter (\<lambda>e. oe_status e = Pending) store)"
proof -
  let ?p = "filter (\<lambda>e. oe_status e = Pending) store"
  obtain x xs where p: "?p = x # xs" using assms(2) by (cases ?p) auto
  have "oe_id x \<in> set (map oe_id (fetchPending k store))"
    using assms(1) p by (cases "nat k") (auto simp: fetchPending_def)
  then have "length (filter (\<lambda>e. oe_id e \<notin> set (map oe_id (fetchPending k store))) ?p) < length ?p"
    unfolding p by (simp add: less_Suc_eq_le)
  then show ?thesis by (simp add: pending_mark conj_commute)
qed

lemma drain_empty: "filter (\<lambda>e. oe_status e = Pending) store = [] \<Longrightarrow>
    relay_step (Drain k now publish) (store, plog) = (Inr 0, (store, plog))"
  by (simp add: drainOnce_def fetchPending_def mapError_def)

interpretation relay: invariant_object outbox_ok "\<lambda>_. True"
  "relay_step :: ('d, 'p, 'b) relay_call \<Rightarrow> (string, 'b outbox_entry list \<times> 'b publish_record list, int) action"
  by unfold_locales (rule relay_step_ok)

text \<open>
  an entry of the outbox is marked published only after the broker was handed a record with its
  message id, whatever the interleaving of writes and drains and however the broker fails.
\<close>

lemma published_only_after_handed:
  "case runs relay_step calls ([], []) of (store, plog) \<Rightarrow>
     list_all (\<lambda>e. oe_status e = Pending \<or> oe_id e \<in> set (map (\<lambda>r. h_messageId (pr_headers r)) plog)) store"
proof -
  have "outbox_ok (runs relay_step calls ([], []))"
    by (rule relay.runs_inv) (simp_all add: outbox_ok_def list_all_iff)
  then show ?thesis
    by (auto simp: outbox_ok_def list_all_iff split: prod.splits) (metis outbox_status.exhaust)
qed

text \<open>
  once the broker works, a relay that keeps draining empties the outbox: with at least one entry
  per batch, as many drains as there are pending entries leave everything published.
\<close>

lemma relay_empties_outbox:
  "1 \<le> k \<Longrightarrow> length (filter (\<lambda>e. oe_status e = Pending) store) \<le> n \<Longrightarrow>
     list_all (\<lambda>e. oe_status e = Published)
       (fst (runs relay_step (replicate n (Drain k now (\<lambda>_. (True, 0)) :: ('d, 'p, 'b) relay_call)) (store, plog)))"
proof (induction n arbitrary: store plog)
  case 0
  then have "\<forall>e\<in>set store. oe_status e \<noteq> Pending" by (auto simp: filter_empty_conv)
  then show ?case by (auto simp: list_all_iff) (metis outbox_status.exhaust)
next
  case (Suc n)
  show ?case
  proof (cases "filter (\<lambda>e. oe_status e = Pending) store = []")
    case True
    then show ?thesis using Suc.IH [of store plog] Suc.prems(1) by (simp add: drain_empty del: relay_step.simps)
  next
    case False
    let ?b = "fetchPending k store"
    have ne: "length ?b \<noteq> 0" using False Suc.prems(1) by (simp add: fetchPending_def)
    have "snd (relay_step (Drain k now (\<lambda>_. (True, 0)) :: ('d, 'p, 'b) relay_call) (store, plog)) =
        (markPublished (map oe_id ?b) now store, plog @ map toRecord ?b)"
      using ne by (simp add: drainOnce_def Let_def)
    moreover have "length (filter (\<lambda>e. oe_status e = Pending) (markPublished (map oe_id ?b) now store)) \<le> n"
      using pending_shrinks [OF Suc.prems(1) False, of now] Suc.prems(2) by simp
    ultimately show ?thesis using Suc.IH Suc.prems(1) by (simp del: relay_step.simps)
  qed
qed

definition sample_entry :: "string \<Rightarrow> unit outbox_entry" where
  "sample_entry i = \<lparr>oe_id = i, oe_topic = ''a.b.c.v1'', oe_key = ''k'', oe_contentType = ''json'',
     oe_payload = (), oe_headers = \<lparr>h_messageId = i, h_type = ''a.b.c'', h_eventVersion = ''1'',
       h_contentType = ''json'', h_correlationId = ''c'', h_causationId = ''c'', h_tenantId = ''t'',
       h_producer = None\<rparr>, oe_status = Pending, oe_createdAt = 0, oe_publishedAt = None\<rparr>"

lemma relay_empties_outbox_witness:
  "list_all (\<lambda>e. oe_status e = Published)
     (fst (runs relay_step (replicate 2 (Drain 1 9 (\<lambda>_. (True, 0))))
        ([sample_entry ''m1'', sample_entry ''m2''], [])))"
  by (rule relay_empties_outbox) (simp_all add: sample_entry_def)

text \<open>
  C22: a client that follows the cursors of a paginated listing sees every row exactly once, in the
  order of the listing, whatever the comparator and the page size asked for; \<open>n\<close> pages are enough
  when \<open>n\<close> times the page size covers the rows.
\<close>

theorem pages_cover_rows:
  "distinct (map idOf rows) \<Longrightarrow> 0 < n \<Longrightarrow> length rows \<le> n * nat (normalizePageSize first) \<Longrightarrow>
     mset (walk_pages n cmp idOf first None rows) = mset rows \<and>
     walk_pages n cmp idOf first None rows = sort_cmp (\<lambda>a b. cmp (idOf a) (idOf b)) rows"
  by (simp add: walk_pages_all)

lemma pages_cover_rows_witness:
  "mset (walk_pages 3 (\<lambda>a b. int (length a) - int (length b)) id (Some 0) None [''ccc'', ''a'', ''bb'']) =
     mset [''ccc'', ''a'', ''bb'']"
  using pages_cover_rows [of id "[''ccc'', ''a'', ''bb'']" 3 "Some 0" "\<lambda>a b. int (length a) - int (length b)"]
  by (simp add: normalizePageSize_def)

text \<open>
  a batch the writer accepts reaches the outbox whole and in order: one pending entry per event
  the context translates, keyed by its aggregate, under the tenant of the event context; a batch it
  refuses leaves the outbox as it was.
\<close>

lemma outbox_write_spec:
  "case outbox_write deps events cx store of
     (Inl e, store') \<Rightarrow> store' = store
   | (Inr _, store') \<Rightarrow>
       (\<exists>entries. store' = store @ entries \<and>
          map oe_id entries = map ev_eventId (filter (\<lambda>ev. od_translate deps ev \<noteq> None) events) \<and>
          list_all (\<lambda>e. oe_status e = Pending \<and> cx_tenantId cx = Some (h_tenantId (oe_headers e)) \<and>
            oe_key e \<in> set (map ev_aggregateId events)) entries)"
proof (cases "toEntries deps events cx")
  case (Inl e)
  then show ?thesis by (simp add: outbox_write_def)
next
  case (Inr entries)
  have "list_all (\<lambda>e. oe_status e = Pending \<and> cx_tenantId cx = Some (h_tenantId (oe_headers e)) \<and>
      oe_key e \<in> set (map ev_aggregateId events)) entries"
    using toEntries_props [OF Inr] by (fastforce simp: list_all_iff)
  with Inr toEntries_ids [OF Inr] show ?thesis by (auto simp: outbox_write_def append_entries_def)
qed

end
