(* ===== verification/Repository.thy ===== *)
theory Repository
  imports Outbox
begin

section \<open>In-memory repositories\<close>

text \<open>
  The in-memory repositories all keep \<^verbatim>\<open>Map<tenantId, Map<id, aggregate>>\<close>, and \<^verbatim>\<open>save\<close> stores the
  aggregate, pulls its events and hands them to the outbox writer. The stored objects are live: a
  use case that loads one and mutates it has changed the store, saved or not; \<open>touch_row\<close> writes
  such a mutation back. The locale \<open>repository\<close> states what the use cases rely on.
\<close>

type_synonym 'a store = "(string \<times> (string \<times> 'a) list) list"

definition bucket :: "string \<Rightarrow> 'a store \<Rightarrow> (string \<times> 'a) list" where
  "bucket tenant store = (case map_of store tenant of None \<Rightarrow> [] | Some b \<Rightarrow> b)"

definition rows_of :: "string \<Rightarrow> 'a store \<Rightarrow> 'a list" where
  "rows_of tenant store = map snd (bucket tenant store)"

definition find_row :: "string \<Rightarrow> string \<Rightarrow> 'a store \<Rightarrow> 'a option" where
  "find_row tenant rid store = map_of (bucket tenant store) rid"

definition put_row :: "string \<Rightarrow> string \<Rightarrow> 'a \<Rightarrow> 'a store \<Rightarrow> 'a store" where
  "put_row tenant rid a store = AList.update tenant (AList.update rid a (bucket tenant store)) store"

definition touch_row :: "string \<Rightarrow> ('d, 'z) aggregate_scheme \<Rightarrow>
    ('d, 'z) aggregate_scheme store \<Rightarrow> ('d, 'z) aggregate_scheme store" where
  "touch_row tenant a store = put_row tenant (agg_id a) a store"

definition save_aggregate ::
  "('d, 'p, 'b) outbox_deps \<Rightarrow> event_context \<Rightarrow> string \<Rightarrow> ('d, 'z) aggregate_scheme \<Rightarrow>
     (string, ('d, 'z) aggregate_scheme store \<times> 'b outbox_entry list, unit) action" where
  "save_aggregate deps cx tenant a s =
     (case s of (store, outbox) \<Rightarrow>
      case pullDomainEvents a of (events, a') \<Rightarrow>
      case outbox_write deps events (cx\<lparr>cx_tenantId := Some tenant\<rparr>) outbox of
        (r, outbox') \<Rightarrow> (r, (put_row tenant (agg_id a) a' store, outbox')))"

subsection \<open>The contract\<close>

locale repository =
  fixes find :: "string \<Rightarrow> string \<Rightarrow> 's \<Rightarrow> 'a option"
    and save :: "string \<Rightarrow> string \<Rightarrow> 'a \<Rightarrow> 's \<Rightarrow> 's"
  assumes find_save_same: "find t i (save t i a s) = Some a"
    and find_save_other: "(t, i) \<noteq> (t', i') \<Longrightarrow> find t i (save t' i' a s) = find t i s"
begin

lemma find_save: "find t i (save t' i' a s) = (if t = t' \<and> i = i' then Some a else find t i s)"
  by (auto simp: find_save_same find_save_other)

text \<open>After a batch of saves a row is the last one saved under its key.\<close>

lemma find_saves:
  "find t i (fold (\<lambda>(t', i', a). save t' i' a) xs s) =
     (case map_of (rev (map (\<lambda>(t', i', a). ((t', i'), a)) xs)) (t, i) of
        Some a \<Rightarrow> Some a | None \<Rightarrow> find t i s)"
  by (induction xs arbitrary: s rule: rev_induct) (auto simp: find_save split: option.splits)

lemma tenant_isolation: "t \<noteq> t' \<Longrightarrow> find t i (save t' i' a s) = find t i s"
  by (rule find_save_other) auto

end

lemma bucket_put: "bucket t (put_row t' i a s) = (if t = t' then AList.update i a (bucket t s) else bucket t s)"
  by (auto simp: bucket_def put_row_def update_conv')

interpretation memory: repository find_row put_row
  by unfold_locales (auto simp: find_row_def bucket_put update_conv')

subsection \<open>Invariants of a store\<close>

text \<open>\<open>store_all P\<close>: every bucket has distinct keys, each row sits under its own id and satisfies \<open>P\<close>.\<close>

definition store_all :: "(('d, 'z) aggregate_scheme \<Rightarrow> bool) \<Rightarrow> ('d, 'z) aggregate_scheme store \<Rightarrow> bool" where
  "store_all P store \<longleftrightarrow> (\<forall>t. distinct (map fst (bucket t store)) \<and>
     (\<forall>(i, a)\<in>set (bucket t store). agg_id a = i \<and> P a))"

lemma store_all_empty [simp]: "store_all P []"
  by (simp add: store_all_def bucket_def)

lemma set_AList_update: "set (AList.update k v xs) \<subseteq> insert (k, v) (set xs)"
  by (induction xs) auto

lemma store_all_put:
  assumes "store_all P store" and "P a" and "agg_id a = i"
  shows "store_all P (put_row t i a store)"
  unfolding store_all_def
proof (intro allI conjI)
  fix t'
  show "distinct (map fst (bucket t' (put_row t i a store)))"
    using assms(1) by (auto simp: store_all_def bucket_put intro: distinct_update)
  show "\<forall>(j, x)\<in>set (bucket t' (put_row t i a store)). agg_id x = j \<and> P x"
    using assms set_AList_update [of i a "bucket t store"]
    by (cases "t' = t") (fastforce simp: store_all_def bucket_put)+
qed

lemma store_all_row: "store_all P store \<Longrightarrow> a \<in> set (rows_of t store) \<Longrightarrow> P a"
  by (fastforce simp: store_all_def rows_of_def)

lemma store_all_find: "store_all P store \<Longrightarrow> find_row t i store = Some a \<Longrightarrow> P a \<and> agg_id a = i"
  by (fastforce simp: store_all_def find_row_def dest: map_of_SomeD)

lemma row_find:
  assumes "store_all P store" and "a \<in> set (rows_of t store)"
  shows "find_row t (agg_id a) store = Some a"
  using assms unfolding store_all_def rows_of_def find_row_def by (fastforce intro: map_of_is_SomeI)

lemma AList_update_id: "map_of xs k = Some v \<Longrightarrow> AList.update k v xs = xs"
  by (induction xs) (auto split: if_splits)

text \<open>Writing back an unchanged row changes nothing.\<close>

lemma put_row_same:
  assumes "find_row t i store = Some a"
  shows "put_row t i a store = store"
proof -
  obtain b where b: "map_of store t = Some b" "map_of b i = Some a"
    using assms by (auto simp: find_row_def bucket_def split: option.splits)
  then show ?thesis by (simp add: put_row_def bucket_def AList_update_id)
qed

lemma put_put_row [simp]: "put_row t i b (put_row t i a store) = put_row t i b store"
  by (simp add: put_row_def bucket_def update_conv' AList.update_last)

end
