(* ===== verification/UseCase.thy ===== *)
theory UseCase
  imports Repository
begin

section \<open>Use cases\<close>

text \<open>
  The shape the application layer shares: a use case is an action on the state behind its ports; it
  rejects (\<open>Inl\<close>: a throw leaves \<^verbatim>\<open>execute\<close>) or returns a \<open>Result\<close>. The combinators are the
  source's idioms:
  \<^item> \<open>or_return\<close>: \<^verbatim>\<open>const x = ...; if (!x.ok) return err(x.error);\<close>
  \<^item> \<open>or_reject\<close>: a call outside any \<^verbatim>\<open>try\<close> that may throw a domain error
  \<^item> \<open>lookup\<close>: \<^verbatim>\<open>const x = await repo.find(...); if (x === null) return err(...);\<close>
  Two judgements on a use case started in \<open>s\<close>: \<open>keeps P\<close>, it preserves \<open>P\<close>; \<open>clean\<close>, returning an
  error means having changed nothing.
\<close>

type_synonym ('s, 'a) use_case = "(thrown, 's, (domain_error, 'a) result) action"

named_theorems keeps_intros \<open>preservation through the use case combinators\<close>
named_theorems clean_intros \<open>error returns that change nothing\<close>

definition return_err :: "domain_error \<Rightarrow> ('s, 'a) use_case" where
  "return_err e = (\<lambda>s. (Inr (Inl e), s))"

definition return_ok :: "'a \<Rightarrow> ('s, 'a) use_case" where
  "return_ok x = (\<lambda>s. (Inr (Inr x), s))"

definition or_return :: "(domain_error, 'a) result \<Rightarrow> ('a \<Rightarrow> ('s, 'b) use_case) \<Rightarrow> ('s, 'b) use_case" where
  "or_return r f = (\<lambda>s. case r of Inl e \<Rightarrow> (Inr (Inl e), s) | Inr x \<Rightarrow> f x s)"

definition or_reject :: "(domain_error, 'a) result \<Rightarrow> ('a \<Rightarrow> ('s, 'b) use_case) \<Rightarrow> ('s, 'b) use_case" where
  "or_reject r f = (\<lambda>s. case r of Inl e \<Rightarrow> (Inl (ThrownDomain e), s) | Inr x \<Rightarrow> f x s)"

text \<open>The same where the call first reads the state.\<close>

definition or_reject_at :: "('s \<Rightarrow> (domain_error, 'a) result) \<Rightarrow> ('a \<Rightarrow> ('s, 'b) use_case) \<Rightarrow> ('s, 'b) use_case" where
  "or_reject_at q f = (\<lambda>s. or_reject (q s) f s)"

definition lookup :: "domain_error \<Rightarrow> ('s \<Rightarrow> 'a option) \<Rightarrow> ('a \<Rightarrow> ('s, 'b) use_case) \<Rightarrow> ('s, 'b) use_case" where
  "lookup e q f = (\<lambda>s. case q s of None \<Rightarrow> (Inr (Inl e), s) | Some x \<Rightarrow> f x s)"

text \<open>The answer of a use case, when only its outcome matters.\<close>

definition drop_answer :: "('s, 'a) use_case \<Rightarrow> ('s, unit) use_case" where
  "drop_answer f s = (case f s of (r, s') \<Rightarrow> (map_ok (map_ok (\<lambda>_. ())) r, s'))"

lemma return_apply [simp]:
  "return_ok x s = (Inr (Inr x), s)"
  "return_err e s = (Inr (Inl e), s)"
  by (simp_all add: return_ok_def return_err_def)

definition keeps :: "('s \<Rightarrow> bool) \<Rightarrow> ('s, 'a) use_case \<Rightarrow> 's \<Rightarrow> bool" where
  "keeps P f s \<longleftrightarrow> (P s \<longrightarrow> P (snd (f s)))"

definition clean :: "('s, 'a) use_case \<Rightarrow> 's \<Rightarrow> bool" where
  "clean f s \<longleftrightarrow> (\<forall>e s'. f s = (Inr (Inl e), s') \<longrightarrow> s' = s)"

lemma keepsD: "keeps P f s \<Longrightarrow> P s \<Longrightarrow> P (snd (f s))"
  by (simp add: keeps_def)

lemma cleanD: "clean f s \<Longrightarrow> f s = (Inr (Inl e), s') \<Longrightarrow> s' = s"
  by (simp add: clean_def)

lemma snd_drop_answer [simp]: "snd (drop_answer f s) = snd (f s)"
  by (simp add: drop_answer_def split: prod.splits)

lemma snd_then_return [simp]: "snd (then_do f (return_ok x) s) = snd (f s)"
  by (simp add: then_do_apply return_ok_def split: prod.splits sum.splits)

lemma then_return_ok [simp]: "then_do f (return_ok x) s \<noteq> (Inr (Inl e), t)"
  by (simp add: then_do_apply return_ok_def split: prod.splits sum.splits)

lemma keeps_return_err [keeps_intros]: "keeps P (return_err e) s"
  by (simp add: keeps_def return_err_def)

lemma keeps_return_ok [keeps_intros]: "keeps P (return_ok x) s"
  by (simp add: keeps_def return_ok_def)

lemma keeps_or_return [keeps_intros]:
  "(\<And>x. r = Inr x \<Longrightarrow> keeps P (f x) s) \<Longrightarrow> keeps P (or_return r f) s"
  by (auto simp: keeps_def or_return_def split: sum.splits)

lemma keeps_or_reject [keeps_intros]:
  "(\<And>x. r = Inr x \<Longrightarrow> keeps P (f x) s) \<Longrightarrow> keeps P (or_reject r f) s"
  by (auto simp: keeps_def or_reject_def split: sum.splits)

lemma keeps_or_reject_at [keeps_intros]:
  "(\<And>x. q s = Inr x \<Longrightarrow> P s \<Longrightarrow> keeps P (f x) s) \<Longrightarrow> keeps P (or_reject_at q f) s"
  by (auto simp: keeps_def or_reject_at_def or_reject_def split: sum.splits)

lemma keeps_lookup [keeps_intros]:
  "(\<And>x. q s = Some x \<Longrightarrow> P s \<Longrightarrow> keeps P (f x) s) \<Longrightarrow> keeps P (lookup e q f) s"
  by (auto simp: keeps_def lookup_def split: option.splits)

lemma keeps_drop [keeps_intros]: "keeps P f s \<Longrightarrow> keeps P (drop_answer f) s"
  by (simp add: keeps_def)

lemma clean_return_err [clean_intros]: "clean (return_err e) s"
  by (simp add: clean_def return_err_def)

lemma clean_return_ok [clean_intros]: "clean (return_ok x) s"
  by (simp add: clean_def return_ok_def)

lemma clean_or_return [clean_intros]:
  "(\<And>x. r = Inr x \<Longrightarrow> clean (f x) s) \<Longrightarrow> clean (or_return r f) s"
  by (auto simp: clean_def or_return_def split: sum.splits)

lemma clean_or_reject [clean_intros]:
  "(\<And>x. r = Inr x \<Longrightarrow> clean (f x) s) \<Longrightarrow> clean (or_reject r f) s"
  by (auto simp: clean_def or_reject_def split: sum.splits)

lemma clean_or_reject_at [clean_intros]:
  "(\<And>x. q s = Inr x \<Longrightarrow> clean (f x) s) \<Longrightarrow> clean (or_reject_at q f) s"
  by (auto simp: clean_def or_reject_at_def or_reject_def split: sum.splits)

lemma clean_lookup [clean_intros]:
  "(\<And>x. q s = Some x \<Longrightarrow> clean (f x) s) \<Longrightarrow> clean (lookup e q f) s"
  by (auto simp: clean_def lookup_def split: option.splits)

lemma clean_drop [clean_intros]: "clean f s \<Longrightarrow> clean (drop_answer f) s"
  by (auto simp: clean_def drop_answer_def map_ok_def split: prod.splits sum.splits)

text \<open>When the combinators return a value.\<close>

lemma returns_iff:
  "or_return r f s = (Inr (Inr y), t) \<longleftrightarrow> (\<exists>x. r = Inr x \<and> f x s = (Inr (Inr y), t))"
  "or_reject r f s = (Inr (Inr y), t) \<longleftrightarrow> (\<exists>x. r = Inr x \<and> f x s = (Inr (Inr y), t))"
  "or_reject_at q f s = (Inr (Inr y), t) \<longleftrightarrow> (\<exists>x. q s = Inr x \<and> f x s = (Inr (Inr y), t))"
  "lookup e o' f s = (Inr (Inr y), t) \<longleftrightarrow> (\<exists>x. o' s = Some x \<and> f x s = (Inr (Inr y), t))"
  by (auto simp: or_return_def or_reject_def or_reject_at_def lookup_def split: sum.splits option.splits)

text \<open>What holds of a value a use case answers, in the state it leaves.\<close>

named_theorems answers_intros \<open>facts about answers through the use case combinators\<close>

definition answers :: "('a \<Rightarrow> 's \<Rightarrow> bool) \<Rightarrow> ('s, 'a) use_case \<Rightarrow> 's \<Rightarrow> bool" where
  "answers Q f s \<longleftrightarrow> (\<forall>y s'. f s = (Inr (Inr y), s') \<longrightarrow> Q y s')"

lemma answersD: "answers Q f s \<Longrightarrow> f s = (Inr (Inr y), s') \<Longrightarrow> Q y s'"
  by (simp add: answers_def)

lemma answers_return [answers_intros]:
  "answers Q (return_err e) s"
  "Q x s \<Longrightarrow> answers Q (return_ok x) s"
  by (simp_all add: answers_def)

lemma answers_or_return [answers_intros]:
  "(\<And>x. r = Inr x \<Longrightarrow> answers Q (f x) s) \<Longrightarrow> answers Q (or_return r f) s"
  by (auto simp: answers_def returns_iff)

lemma answers_or_reject [answers_intros]:
  "(\<And>x. r = Inr x \<Longrightarrow> answers Q (f x) s) \<Longrightarrow> answers Q (or_reject r f) s"
  by (auto simp: answers_def returns_iff)

lemma answers_lookup [answers_intros]:
  "(\<And>x. q s = Some x \<Longrightarrow> answers Q (f x) s) \<Longrightarrow> answers Q (lookup e q f) s"
  by (auto simp: answers_def returns_iff)

lemma answers_then [answers_intros]:
  "(\<And>s'. f s = (Inr (), s') \<Longrightarrow> answers Q g s') \<Longrightarrow> answers Q (then_do f g) s"
  by (auto simp: answers_def then_do_ok_iff)

end
