(* ===== verification/AggregateService.thy ===== *)
theory AggregateService
  imports UseCase
begin

section \<open>Services of one aggregate\<close>

text \<open>
  What the application layers of the small services share: one in-memory repository of an aggregate, an
  outbox, and use cases of the form load, call a method in a \<^verbatim>\<open>try\<close>, save, answer. \<open>env_at\<close> gives what
  the composition root injects, with the clock reading of the call. The locale \<open>aggregate_calls\<close> lifts
  what the methods of an aggregate keep to every row of the repository.
\<close>

record ('a, 'b) agg_service =
  ag_rows :: "'a store"
  ag_outbox :: "'b outbox_entry list"

record ('d, 'b) agg_env =
  ae_translate :: "'d domain_event \<Rightarrow> 'd descriptor option"
  ae_serialize :: "'d integration_event \<Rightarrow> string \<times> 'b"
  ae_producer :: "string option"
  ae_context :: event_context

definition env_at :: "('d, 'b) agg_env \<Rightarrow> timestamp \<Rightarrow> ('d, 'd, 'b) outbox_deps" where
  "env_at env now = \<lparr>od_translate = ae_translate env, od_serialize = ae_serialize env, od_now = now,
     od_producer = ae_producer env\<rparr>"

type_synonym ('d, 'z, 'b, 'x, 'a) agg_use_case = "((('d, 'z) aggregate_scheme, 'b, 'x) agg_service_scheme, 'a) use_case"

definition find_agg :: "string \<Rightarrow> string \<Rightarrow> ('a, 'b, 'x) agg_service_scheme \<Rightarrow> 'a option" where
  "find_agg tenant rid s = find_row tenant rid (ag_rows s)"

definition save_agg ::
  "('d, 'b) agg_env \<Rightarrow> timestamp \<Rightarrow> string \<Rightarrow> ('d, 'z) aggregate_scheme \<Rightarrow>
     (thrown, (('d, 'z) aggregate_scheme, 'b, 'x) agg_service_scheme, unit) action" where
  "save_agg env now tenant a s =
     (case save_aggregate (env_at env now) (ae_context env) tenant a (ag_rows s, ag_outbox s) of
        (r, (rows, outbox)) \<Rightarrow> (mapError (\<lambda>_. ThrownOther) r, s\<lparr>ag_rows := rows, ag_outbox := outbox\<rparr>))"

text \<open>The live object of a loaded row, after a method has run on it.\<close>

definition touch_agg :: "string \<Rightarrow> ('d, 'z) aggregate_scheme \<Rightarrow>
    (('d, 'z) aggregate_scheme, 'b, 'x) agg_service_scheme \<Rightarrow> (('d, 'z) aggregate_scheme, 'b, 'x) agg_service_scheme" where
  "touch_agg tenant a s = s\<lparr>ag_rows := touch_row tenant a (ag_rows s)\<rparr>"

definition call_save ::
  "('d, 'b) agg_env \<Rightarrow> timestamp \<Rightarrow> string \<Rightarrow> (domain_error, ('d, 'z) aggregate_scheme, unit) action \<Rightarrow>
     (('d, 'z) aggregate_scheme \<Rightarrow> 'a) \<Rightarrow> ('d, 'z) aggregate_scheme \<Rightarrow> ('d, 'z, 'b, 'x, 'a) agg_use_case" where
  "call_save env now tenant act out a s =
     (case act a of
        (Inl e, a') \<Rightarrow> (Inr (Inl e), touch_agg tenant a' s)
      | (Inr _, a') \<Rightarrow> then_do (save_agg env now tenant a') (return_ok (out a')) (touch_agg tenant a' s))"

text \<open>A fresh aggregate, saved and answered.\<close>

definition save_new ::
  "('d, 'b) agg_env \<Rightarrow> timestamp \<Rightarrow> string \<Rightarrow> (('d, 'z) aggregate_scheme \<Rightarrow> 'a) \<Rightarrow>
     ('d, 'z) aggregate_scheme \<Rightarrow> ('d, 'z, 'b, 'x, 'a) agg_use_case" where
  "save_new env now tenant out a = then_do (save_agg env now tenant a) (return_ok (out a))"

text \<open>The page after the first row past the cursor, none when there is no such row.\<close>

definition page_past ::
  "(('d, 'z) aggregate_scheme \<Rightarrow> string \<Rightarrow> bool) \<Rightarrow> int option \<Rightarrow> string option \<Rightarrow>
     ('d, 'z) aggregate_scheme list \<Rightarrow> ('d, 'z) aggregate_scheme list \<times> page_info" where
  "page_past past first after all =
     (let start = (case after of None \<Rightarrow> 0 | Some c \<Rightarrow> find_index (\<lambda>p. past p c) all);
          limit = normalizePageSize first;
          fetched = (if start < 0 then [] else take (nat (limit + 1)) (drop (nat start) all))
      in buildPaginatedPage fetched limit agg_id)"

subsection \<open>Lemmas\<close>

lemma save_agg_rows [simp]:
  "ag_rows (snd (save_agg env now t a s)) = put_row t (agg_id a) (a\<lparr>agg_events := []\<rparr>) (ag_rows s)"
  by (simp add: save_agg_def save_aggregate_def pullDomainEvents_def split: prod.splits)

lemma touch_agg_rows [simp]: "ag_rows (touch_agg t a s) = touch_row t a (ag_rows s)"
  by (simp add: touch_agg_def)

lemma snd_call_save:
  "snd (call_save env now t act out a s) =
     (case act a of (Inl e, a') \<Rightarrow> touch_agg t a' s
      | (Inr _, a') \<Rightarrow> snd (save_agg env now t a' (touch_agg t a' s)))"
  by (simp add: call_save_def split: prod.splits sum.splits)

lemma snd_save_new [simp]: "snd (save_new env now t out a s) = snd (save_agg env now t a s)"
  by (simp add: save_new_def)

text \<open>The outbox refuses no event of a translator whose topics are well-formed.\<close>

lemma save_agg_ok:
  fixes s :: "(('d, 'z) aggregate_scheme, 'b, 'x) agg_service_scheme"
  assumes "\<And>ev d. ae_translate env ev = Some d \<Longrightarrow> event_type_pattern (d_type d) \<and> d_eventVersion d = 1" "\<not> blank t"
  shows "fst (save_agg env now t a s) = Inr ()"
proof -
  have "readEnvelopeTenant (cx_tenantId ((ae_context env)\<lparr>cx_tenantId := Some t\<rparr>)) = Some t"
    using assms(2) by (simp add: readEnvelopeTenant_def)
  from toEntries_total [OF _ this, of "env_at env now" "agg_events a"] assms(1)
  obtain entries where "toEntries (env_at env now) (agg_events a) ((ae_context env)\<lparr>cx_tenantId := Some t\<rparr>) = Inr entries"
    by (auto simp: env_at_def)
  then show ?thesis
    by (auto simp: save_agg_def save_aggregate_def pullDomainEvents_def outbox_write_def mapError_def split: prod.splits)
qed

lemma find_agg_touch:
  "find_agg t i (touch_agg t' a s) = (if t = t' \<and> i = agg_id a then Some a else find_agg t i s)"
  by (simp add: find_agg_def touch_row_def memory.find_save)

lemma find_agg_save:
  "find_agg t i (snd (save_agg env now t' a s)) =
     (if t = t' \<and> i = agg_id a then Some (a\<lparr>agg_events := []\<rparr>) else find_agg t i s)"
  by (simp add: find_agg_def memory.find_save)

text \<open>
  Every row of every tenant satisfies \<open>P\<close>. The predicate does not look at the pending events, which a
  save takes out.
\<close>

locale aggregate_calls =
  fixes P :: "('d, 'z) aggregate_scheme \<Rightarrow> bool"
  assumes events_irrelevant: "P (a\<lparr>agg_events := es\<rparr>) = P a"
begin

abbreviation rows_ok :: "(('d, 'z) aggregate_scheme, 'b, 'x) agg_service_scheme \<Rightarrow> bool" where
  "rows_ok s \<equiv> store_all P (ag_rows s)"

lemma loaded_ok: "rows_ok s \<Longrightarrow> find_agg t i s = Some a \<Longrightarrow> P a \<and> agg_id a = i"
  unfolding find_agg_def by (rule store_all_find)

lemma row_ok: "rows_ok s \<Longrightarrow> a \<in> set (rows_of t (ag_rows s)) \<Longrightarrow> P a"
  by (rule store_all_row)

lemma save_rows: "rows_ok s \<Longrightarrow> P a \<Longrightarrow> rows_ok (snd (save_agg env now t a s))"
  by (simp add: store_all_put events_irrelevant)

lemma touch_rows: "rows_ok s \<Longrightarrow> P a \<Longrightarrow> rows_ok (touch_agg t a s)"
  by (simp add: touch_row_def store_all_put)

lemma keeps_save_new [keeps_intros]: "P a \<Longrightarrow> keeps rows_ok (save_new env now t out a) s"
  by (simp add: keeps_def store_all_put events_irrelevant)

lemma keeps_call_save [keeps_intros]:
  assumes "P (snd (act a))"
  shows "keeps rows_ok (call_save env now t act out a) s"
  using assms by (cases "act a") (auto simp: keeps_def snd_call_save touch_row_def store_all_put events_irrelevant split: sum.splits)

end

text \<open>A method that leaves the object alone when it throws makes the use case clean.\<close>

lemma touch_agg_same: "find_agg t (agg_id a) s = Some a \<Longrightarrow> touch_agg t a s = s"
  by (simp add: touch_agg_def touch_row_def find_agg_def put_row_same)

lemma clean_save_new [clean_intros]: "clean (save_new env now t out a) s"
  by (simp add: clean_def save_new_def)

lemma clean_call_save:
  assumes "atomic act" "find_agg t (agg_id a) s = Some a"
  shows "clean (call_save env now t act out a) s"
  using assms atomicD [OF assms(1)] touch_agg_same [OF assms(2)]
  by (cases "act a") (auto simp: clean_def call_save_def split: sum.splits)

text \<open>A fact about one row that its methods keep; other rows come and go.\<close>

locale aggregate_fact =
  fixes K :: "('d, 'z) aggregate_scheme \<Rightarrow> bool"
  assumes events_free: "K (a\<lparr>agg_events := es\<rparr>) = K a"
begin

definition held :: "string \<Rightarrow> string \<Rightarrow> (('d, 'z) aggregate_scheme, 'b, 'x) agg_service_scheme \<Rightarrow> bool" where
  "held t i s = (store_all (\<lambda>_. True) (ag_rows s) \<and> (\<exists>a. find_agg t i s = Some a \<and> K a))"

lemma heldD: "held t i s \<Longrightarrow> \<exists>a. find_agg t i s = Some a \<and> agg_id a = i \<and> K a"
  unfolding held_def find_agg_def using store_all_find by blast

lemma held_save:
  assumes "held t i s" "u = t \<Longrightarrow> agg_id a = i \<Longrightarrow> K a"
  shows "held t i (snd (save_agg env now u a s))"
  using assms by (auto simp: held_def find_agg_save store_all_put events_free)

lemma held_touch:
  assumes "held t i s" "u = t \<Longrightarrow> agg_id a = i \<Longrightarrow> K a"
  shows "held t i (touch_agg u a s)"
  using assms by (auto simp: held_def find_agg_touch touch_row_def store_all_put)

lemma keeps_held_new [keeps_intros]:
  "\<not> (u = t \<and> agg_id a = i) \<or> K a \<Longrightarrow> keeps (held t i) (save_new env now u out a) s"
  unfolding keeps_def snd_save_new by (blast intro: held_save)

text \<open>A method of a loaded row.\<close>

lemma keeps_held_call:
  assumes "find_agg u j s = Some a" "agg_id (snd (act a)) = agg_id a" "K a \<Longrightarrow> K (snd (act a))"
  shows "keeps (held t i) (call_save env now u act out a) s"
  unfolding keeps_def
proof
  assume h: "held t i s"
  obtain r a' where a': "act a = (r, a')" by (cases "act a")
  have k: "K a'" if "u = t" "agg_id a' = i"
  proof -
    have "agg_id a = j" using h assms(1) unfolding held_def find_agg_def by (blast dest: store_all_find)
    then have "find_agg t i s = Some a" using assms(1,2) that by (simp add: a')
    then show ?thesis using h assms(3) by (simp add: held_def a')
  qed
  have t: "held t i (touch_agg u a' s)" using h k by (rule held_touch)
  have v: "held t i (snd (save_agg env now u a' (touch_agg u a' s)))" using t k by (rule held_save)
  from t v show "held t i (snd (call_save env now u act out a s))"
    by (cases r) (simp_all add: snd_call_save a')
qed

end

end
