(* ===== verification/Inventory.thy ===== *)
theory Inventory
  imports Outbox Lifecycle
begin

section \<open>Inventory: stock of a product at a warehouse\<close>

text \<open>
  services/inventory/src/domain: \<^verbatim>\<open>Quantity\<close>, \<^verbatim>\<open>WarehouseId\<close>, \<^verbatim>\<open>StockLevel\<close>, \<^verbatim>\<open>Reservation\<close>,
  \<^verbatim>\<open>InventoryItem\<close>, \<^verbatim>\<open>Warehouse\<close>, \<^verbatim>\<open>resolveStockRow\<close> and the events. The invariant \<open>item_ok\<close> says
  that the reserved figure is the sum of the live reservations and never above the stock on hand.
\<close>

subsection \<open>Value objects\<close>

definition Quantity_create :: "js_number \<Rightarrow> (domain_error, int) result" where
  "Quantity_create value =
     (if \<not> isInteger value \<or> js_less value (jint 1)
      then Inl (ValidationError ''Invalid quantity'' [issue ''quantity'' ''must be a positive integer''])
      else Inr (js_to_int value))"

definition WarehouseId_create :: "string \<Rightarrow> (domain_error, string) result" where
  "WarehouseId_create value =
     (case againstEmpty value ''warehouseId'' of Inl e \<Rightarrow> Inl e | Inr _ \<Rightarrow> Inr (trim value))"

record stock_level =
  onHand :: int
  reserved :: int

definition StockLevel_create :: "js_number \<Rightarrow> js_number \<Rightarrow> (domain_error, stock_level) result" where
  "StockLevel_create oh rs =
     (let i1 = (if \<not> isInteger oh \<or> js_less oh (jint 0)
                then [issue ''onHand'' ''must be a non-negative integer''] else []);
          i2 = i1 @ (if \<not> isInteger rs \<or> js_less rs (jint 0)
                     then [issue ''reserved'' ''must be a non-negative integer''] else []);
          issues = i2 @ (if length i2 = 0 \<and> js_less oh rs
                         then [issue ''reserved'' ''cannot exceed on-hand''] else [])
      in if length issues > 0 then Inl (ValidationError ''Invalid stock level'' issues)
         else Inr \<lparr>onHand = js_to_int oh, reserved = js_to_int rs\<rparr>)"

definition StockLevel_zero :: stock_level where
  "StockLevel_zero = \<lparr>onHand = 0, reserved = 0\<rparr>"

definition available :: "stock_level \<Rightarrow> int" where
  "available l = onHand l - reserved l"

definition StockLevel_receive :: "int \<Rightarrow> stock_level \<Rightarrow> (domain_error, stock_level) result" where
  "StockLevel_receive q l = Inr \<lparr>onHand = onHand l + q, reserved = reserved l\<rparr>"

definition StockLevel_reserve :: "int \<Rightarrow> stock_level \<Rightarrow> (domain_error, stock_level) result" where
  "StockLevel_reserve q l =
     (if available l < q then Inl (BusinessRuleError ''Insufficient available stock'')
      else Inr \<lparr>onHand = onHand l, reserved = reserved l + q\<rparr>)"

definition StockLevel_release :: "int \<Rightarrow> stock_level \<Rightarrow> (domain_error, stock_level) result" where
  "StockLevel_release q l = Inr \<lparr>onHand = onHand l, reserved = max 0 (reserved l - q)\<rparr>"

definition StockLevel_adjustTo :: "int \<Rightarrow> stock_level \<Rightarrow> (domain_error, stock_level) result" where
  "StockLevel_adjustTo oh l =
     (if oh < reserved l then Inl (BusinessRuleError ''Cannot adjust on-hand below reserved'')
      else Inr \<lparr>onHand = oh, reserved = reserved l\<rparr>)"

definition StockLevel_commit :: "int \<Rightarrow> stock_level \<Rightarrow> (domain_error, stock_level) result" where
  "StockLevel_commit q l =
     (if reserved l < q then Inl (BusinessRuleError ''Cannot commit more than reserved'')
      else Inr \<lparr>onHand = onHand l - q, reserved = reserved l - q\<rparr>)"

definition StockLevel_remove :: "int \<Rightarrow> stock_level \<Rightarrow> (domain_error, stock_level) result" where
  "StockLevel_remove q l =
     (if available l < q then Inl (BusinessRuleError ''Insufficient available stock'')
      else Inr \<lparr>onHand = onHand l - q, reserved = reserved l\<rparr>)"

subsection \<open>Events\<close>

datatype adjustment_reason =
  Received | Adjusted | Reserved | Released | Committed | TransferredOut | TransferredIn

record adjusted_data =
  ad_productId :: string
  ad_warehouseId :: string
  ad_onHand :: int
  ad_reserved :: int
  ad_available :: int
  ad_reason :: adjustment_reason

datatype inventory_event =
    InventoryAdjusted adjusted_data
  | WarehouseRegistered string string
  | WarehouseDeactivated string

subsection \<open>Inventory item (inventory-item.ts)\<close>

record reservation =
  rv_id :: string
  rv_quantity :: int
  rv_reference :: string

record inventory_item = "inventory_event aggregate" +
  it_product :: string
  it_warehouseId :: string
  it_variantRef :: "string option"
  it_stockLevel :: stock_level
  it_reservations :: "reservation list"

definition InventoryItem_create :: "string \<Rightarrow> string \<Rightarrow> string \<Rightarrow> string option \<Rightarrow> inventory_item" where
  "InventoryItem_create iid product warehouseId variantRef =
     \<lparr>agg_id = iid, agg_version = 0, agg_events = [], it_product = product,
      it_warehouseId = warehouseId, it_variantRef = variantRef, it_stockLevel = StockLevel_zero,
      it_reservations = []\<rparr>"

definition InventoryItem_reconstitute ::
  "string \<Rightarrow> string \<Rightarrow> string \<Rightarrow> stock_level \<Rightarrow> reservation list \<Rightarrow> int \<Rightarrow> string option \<Rightarrow> inventory_item" where
  "InventoryItem_reconstitute iid product warehouseId level rvs version variantRef =
     \<lparr>agg_id = iid, agg_version = version, agg_events = [], it_product = product,
      it_warehouseId = warehouseId, it_variantRef = variantRef, it_stockLevel = level,
      it_reservations = rvs\<rparr>"

type_synonym item_action = "(domain_error, inventory_item, unit) action"

definition set_level :: "(stock_level \<Rightarrow> (domain_error, stock_level) result) \<Rightarrow> item_action" where
  "set_level f = (\<lambda>s. case f (it_stockLevel s) of
      Inl e \<Rightarrow> (Inl e, s) | Inr l \<Rightarrow> (Inr (), s\<lparr>it_stockLevel := l\<rparr>))"

definition recordAdjustment :: "adjustment_reason \<Rightarrow> string \<Rightarrow> timestamp \<Rightarrow> item_action" where
  "recordAdjustment reason eventId occurredAt = modify (\<lambda>s.
     addDomainEvent eventId occurredAt
       (InventoryAdjusted
         \<lparr>ad_productId = it_product s, ad_warehouseId = it_warehouseId s,
          ad_onHand = onHand (it_stockLevel s), ad_reserved = reserved (it_stockLevel s),
          ad_available = available (it_stockLevel s), ad_reason = reason\<rparr>) s)"

definition item_receive :: "int \<Rightarrow> string \<Rightarrow> timestamp \<Rightarrow> item_action" where
  "item_receive q eventId occurredAt =
     then_do (set_level (StockLevel_receive q)) (recordAdjustment Received eventId occurredAt)"

definition item_adjust :: "int \<Rightarrow> string \<Rightarrow> timestamp \<Rightarrow> item_action" where
  "item_adjust oh eventId occurredAt =
     then_do (set_level (StockLevel_adjustTo oh)) (recordAdjustment Adjusted eventId occurredAt)"

definition item_reserve :: "string \<Rightarrow> int \<Rightarrow> string \<Rightarrow> string \<Rightarrow> timestamp \<Rightarrow> item_action" where
  "item_reserve rid q reference eventId occurredAt =
     then_do (set_level (StockLevel_reserve q))
    (then_do (modify (\<lambda>s. s\<lparr>it_reservations := it_reservations s @
        [\<lparr>rv_id = rid, rv_quantity = q, rv_reference = reference\<rparr>]\<rparr>))
     (recordAdjustment Reserved eventId occurredAt))"

definition find_reservation :: "string \<Rightarrow> inventory_item \<Rightarrow> reservation option" where
  "find_reservation rid s = List.find (\<lambda>r. rv_id r = rid) (it_reservations s)"

definition splice_reservation :: "string \<Rightarrow> inventory_item \<Rightarrow> inventory_item" where
  "splice_reservation rid s = s\<lparr>it_reservations := remove_first (\<lambda>r. rv_id r = rid) (it_reservations s)\<rparr>"

definition item_releaseReservation :: "string \<Rightarrow> string \<Rightarrow> timestamp \<Rightarrow> item_action" where
  "item_releaseReservation rid eventId occurredAt = (\<lambda>s.
     case find_reservation rid s of
       None \<Rightarrow> (Inl (BusinessRuleError ''Reservation not found''), s)
     | Some r \<Rightarrow>
         then_do (modify (splice_reservation rid))
        (then_do (set_level (StockLevel_release (rv_quantity r)))
         (recordAdjustment Released eventId occurredAt)) s)"

definition item_commitReservation :: "string \<Rightarrow> string \<Rightarrow> timestamp \<Rightarrow> item_action" where
  "item_commitReservation rid eventId occurredAt = (\<lambda>s.
     case find_reservation rid s of
       None \<Rightarrow> (Inl (BusinessRuleError ''Reservation not found''), s)
     | Some r \<Rightarrow>
         then_do (modify (splice_reservation rid))
        (then_do (set_level (StockLevel_commit (rv_quantity r)))
         (recordAdjustment Committed eventId occurredAt)) s)"

definition item_transferOut :: "int \<Rightarrow> string \<Rightarrow> timestamp \<Rightarrow> item_action" where
  "item_transferOut q eventId occurredAt =
     then_do (set_level (StockLevel_remove q)) (recordAdjustment TransferredOut eventId occurredAt)"

definition item_transferIn :: "int \<Rightarrow> string \<Rightarrow> timestamp \<Rightarrow> item_action" where
  "item_transferIn q eventId occurredAt =
     then_do (set_level (StockLevel_receive q)) (recordAdjustment TransferredIn eventId occurredAt)"

subsection \<open>Lookup of a stock row (resolve-stock-row.ts)\<close>

definition resolveStockRow :: "inventory_item list \<Rightarrow> string option \<Rightarrow> inventory_item option" where
  "resolveStockRow rows variantId =
     (case variantId of
        Some v \<Rightarrow>
          (case List.find (\<lambda>row. it_variantRef row = Some v) rows of
             Some exact \<Rightarrow> Some exact
           | None \<Rightarrow> (case rows of [only] \<Rightarrow> if it_variantRef only = None then Some only else None | _ \<Rightarrow> None))
      | None \<Rightarrow> (case rows of [only] \<Rightarrow> Some only | _ \<Rightarrow> None))"

subsection \<open>Warehouse registry (warehouse.ts)\<close>

datatype warehouse_status = WActive | WInactive

record warehouse = "inventory_event aggregate" +
  wh_code :: string
  wh_name :: string
  wh_status :: warehouse_status

definition Warehouse_register :: "string \<Rightarrow> string \<Rightarrow> string \<Rightarrow> string \<Rightarrow> timestamp \<Rightarrow> warehouse" where
  "Warehouse_register wid code name eventId occurredAt =
     addDomainEvent eventId occurredAt (WarehouseRegistered code name)
       \<lparr>agg_id = wid, agg_version = 0, agg_events = [], wh_code = code, wh_name = name, wh_status = WActive\<rparr>"

definition Warehouse_reconstitute :: "string \<Rightarrow> string \<Rightarrow> string \<Rightarrow> warehouse_status \<Rightarrow> int \<Rightarrow> warehouse" where
  "Warehouse_reconstitute wid code name st version =
     \<lparr>agg_id = wid, agg_version = version, agg_events = [], wh_code = code, wh_name = name, wh_status = st\<rparr>"

definition Warehouse_rename :: "string \<Rightarrow> (domain_error, warehouse, unit) action" where
  "Warehouse_rename name = modify (\<lambda>s. s\<lparr>wh_name := name\<rparr>)"

definition Warehouse_deactivate :: "string \<Rightarrow> timestamp \<Rightarrow> (domain_error, warehouse, unit) action" where
  "Warehouse_deactivate eventId occurredAt =
     then_do (require (\<lambda>s. wh_status s \<noteq> WInactive) (\<lambda>_. BusinessRuleError ''Warehouse is already inactive''))
    (then_do (modify (\<lambda>s. s\<lparr>wh_status := WInactive\<rparr>))
     (modify (\<lambda>s. addDomainEvent eventId occurredAt (WarehouseDeactivated (wh_code s)) s)))"

subsection \<open>Invariant\<close>

definition level_ok :: "stock_level \<Rightarrow> bool" where
  "level_ok l \<longleftrightarrow> 0 \<le> reserved l \<and> reserved l \<le> onHand l"

definition reserved_sum :: "inventory_item \<Rightarrow> int" where
  "reserved_sum s = sum_list (map rv_quantity (it_reservations s))"

definition item_ok :: "inventory_item \<Rightarrow> bool" where
  "item_ok s \<longleftrightarrow> level_ok (it_stockLevel s) \<and> reserved (it_stockLevel s) = reserved_sum s \<and>
     list_all (\<lambda>r. 1 \<le> rv_quantity r) (it_reservations s)"

text \<open>The calls that can reach an item; quantities come from \<^verbatim>\<open>Quantity.create\<close>.\<close>

datatype item_call =
    CReceive int | CAdjust int | CReserve string int string | CRelease string | CCommit string
  | CTransferOut int | CTransferIn int

fun item_call_good :: "item_call \<Rightarrow> bool" where
  "item_call_good (CReceive q) = (1 \<le> q)"
| "item_call_good (CReserve _ q _) = (1 \<le> q)"
| "item_call_good (CTransferOut q) = (1 \<le> q)"
| "item_call_good (CTransferIn q) = (1 \<le> q)"
| "item_call_good _ = True"

fun item_step :: "item_call \<times> string \<times> timestamp \<Rightarrow> item_action" where
  "item_step (CReceive q, e, t) = item_receive q e t"
| "item_step (CAdjust q, e, t) = item_adjust q e t"
| "item_step (CReserve rid q ref, e, t) = item_reserve rid q ref e t"
| "item_step (CRelease rid, e, t) = item_releaseReservation rid e t"
| "item_step (CCommit rid, e, t) = item_commitReservation rid e t"
| "item_step (CTransferOut q, e, t) = item_transferOut q e t"
| "item_step (CTransferIn q, e, t) = item_transferIn q e t"

lemmas level_defs = StockLevel_receive_def StockLevel_reserve_def StockLevel_release_def
  StockLevel_adjustTo_def StockLevel_commit_def StockLevel_remove_def available_def

lemmas item_defs = item_receive_def item_adjust_def item_reserve_def item_releaseReservation_def
  item_commitReservation_def item_transferOut_def item_transferIn_def set_level_def
  recordAdjustment_def find_reservation_def splice_reservation_def

lemma item_sel_addDomainEvent [simp]:
  fixes s :: inventory_item
  shows "it_product (addDomainEvent e t d s) = it_product s"
    "it_warehouseId (addDomainEvent e t d s) = it_warehouseId s"
    "it_variantRef (addDomainEvent e t d s) = it_variantRef s"
    "it_stockLevel (addDomainEvent e t d s) = it_stockLevel s"
    "it_reservations (addDomainEvent e t d s) = it_reservations s"
  by (simp_all add: addDomainEvent_def)

lemma item_ok_create: "item_ok (InventoryItem_create i p w v)"
  by (simp add: item_ok_def InventoryItem_create_def StockLevel_zero_def level_ok_def reserved_sum_def)

text \<open>Under the invariant a live reservation is covered by the reserved figure.\<close>

lemma reservation_covered:
  assumes "item_ok s" and "find_reservation rid s = Some r"
  shows "1 \<le> rv_quantity r" "rv_quantity r \<le> reserved (it_stockLevel s)"
proof -
  have r: "r \<in> set (it_reservations s)"
    using assms(2) find_Some_props by (fastforce simp: find_reservation_def)
  then show "1 \<le> rv_quantity r" using assms(1) by (auto simp: item_ok_def list_all_iff)
  have "rv_quantity r \<le> sum_list (map rv_quantity (it_reservations s))"
    using assms(1) r by (intro sum_list_nonneg_mem) (fastforce simp: item_ok_def list_all_iff)+
  then show "rv_quantity r \<le> reserved (it_stockLevel s)"
    using assms(1) by (simp add: item_ok_def reserved_sum_def)
qed

lemma splice_facts:
  assumes "item_ok s" and "find_reservation rid s = Some r"
  shows "reserved_sum (splice_reservation rid s) = reserved (it_stockLevel s) - rv_quantity r"
    and "list_all (\<lambda>r. 1 \<le> rv_quantity r) (it_reservations (splice_reservation rid s))"
  using assms sum_list_remove_first [of "\<lambda>r. rv_id r = rid" "it_reservations s" r rv_quantity]
    set_remove_first [of "\<lambda>r. rv_id r = rid" "it_reservations s"]
  by (auto simp: item_ok_def find_reservation_def splice_reservation_def reserved_sum_def list_all_iff)

lemma item_ok_release:
  "item_ok s \<Longrightarrow> item_ok (snd (item_releaseReservation rid e t s))"
  using reservation_covered [of s rid] splice_facts [of s rid]
  by (cases "find_reservation rid s")
    (auto simp: item_releaseReservation_def then_do_apply set_level_def recordAdjustment_def
      level_defs item_ok_def level_ok_def reserved_sum_def splice_reservation_def)

text \<open>A commit of a live reservation never throws: the reserved figure covers it.\<close>

lemma commit_result:
  assumes "item_ok s" and "find_reservation rid s = Some r"
  shows "fst (item_commitReservation rid e t s) = Inr ()"
  using reservation_covered [OF assms] assms(2)
  by (simp add: item_commitReservation_def then_do_apply set_level_def recordAdjustment_def level_defs
      splice_reservation_def)

lemma item_ok_commit:
  "item_ok s \<Longrightarrow> item_ok (snd (item_commitReservation rid e t s))"
  using reservation_covered [of s rid] splice_facts [of s rid]
  by (cases "find_reservation rid s")
    (auto simp: item_commitReservation_def then_do_apply set_level_def recordAdjustment_def
      level_defs item_ok_def level_ok_def reserved_sum_def splice_reservation_def)

lemma item_ok_others:
  assumes "item_ok s"
  shows "1 \<le> q \<Longrightarrow> item_ok (snd (item_receive q e t s))"
    and "item_ok (snd (item_adjust oh e t s))"
    and "1 \<le> q \<Longrightarrow> item_ok (snd (item_reserve rid q ref e t s))"
    and "1 \<le> q \<Longrightarrow> item_ok (snd (item_transferOut q e t s))"
    and "1 \<le> q \<Longrightarrow> item_ok (snd (item_transferIn q e t s))"
  using assms
  by (auto simp: item_receive_def item_adjust_def item_reserve_def item_transferOut_def
      item_transferIn_def then_do_apply set_level_def recordAdjustment_def level_defs item_ok_def
      level_ok_def reserved_sum_def)

lemma item_step_ok: "item_ok s \<Longrightarrow> item_call_good (fst c) \<Longrightarrow> item_ok (snd (item_step c s))"
  by (cases c rule: item_step.cases)
    (simp_all add: item_ok_others item_ok_release item_ok_commit)

interpretation inv_item: invariant_object item_ok "\<lambda>c. item_call_good (fst c)" item_step
  by unfold_locales (rule item_step_ok)

subsection \<open>Further facts\<close>

lemma item_step_throws:
  assumes "item_ok s" and "item_step c s = (Inl err, t)"
  shows "t = s"
  using assms commit_result
  by (cases c rule: item_step.cases)
    (auto simp: item_defs then_do_apply level_defs item_commitReservation_def find_reservation_def
      dest: commit_result split: option.splits if_splits prod.splits sum.splits)

text \<open>Every call that returns raises one event, with the levels it left behind.\<close>

lemma item_step_event:
  assumes "item_step c s = (Inr u, t)"
  shows "\<exists>reason. agg_events t = agg_events s @
    [\<lparr>ev_eventId = fst (snd c), ev_aggregateId = agg_id s, ev_occurredAt = snd (snd c),
      ev_data = InventoryAdjusted
        \<lparr>ad_productId = it_product t, ad_warehouseId = it_warehouseId t,
         ad_onHand = onHand (it_stockLevel t), ad_reserved = reserved (it_stockLevel t),
         ad_available = available (it_stockLevel t), ad_reason = reason\<rparr>\<rparr>]"
  using assms
  by (cases c rule: item_step.cases)
    (auto simp: item_defs then_do_apply available_def split: option.splits sum.splits prod.splits)

lemma item_step_identity:
  "agg_id (snd (item_step c s)) = agg_id s \<and> it_product (snd (item_step c s)) = it_product s \<and>
   it_warehouseId (snd (item_step c s)) = it_warehouseId s \<and>
   it_variantRef (snd (item_step c s)) = it_variantRef s"
  by (cases c rule: item_step.cases)
    (auto simp: item_defs then_do_apply split: option.splits sum.splits prod.splits)

lemma reserve_then_release:
  assumes ok: "item_ok s" and fresh: "find_reservation rid s = None"
    and res: "item_reserve rid q ref e t s = (Inr (), s1)"
  shows "\<exists>s2. item_releaseReservation rid e' t' s1 = (Inr (), s2) \<and>
    it_stockLevel s2 = it_stockLevel s \<and> it_reservations s2 = it_reservations s"
proof -
  have lvl: "reserved (it_stockLevel s) \<ge> 0" using ok by (simp add: item_ok_def level_ok_def)
  let ?r = "\<lparr>rv_id = rid, rv_quantity = q, rv_reference = ref\<rparr>"
  have s1: "it_reservations s1 = it_reservations s @ [?r]"
    "it_stockLevel s1 = \<lparr>onHand = onHand (it_stockLevel s), reserved = reserved (it_stockLevel s) + q\<rparr>"
    using res by (auto simp: item_reserve_def then_do_apply set_level_def recordAdjustment_def level_defs
        split: if_splits)
  have "find_reservation rid s1 = Some ?r"
    using fresh by (simp add: s1 find_reservation_def find_append)
  moreover have "remove_first (\<lambda>r. rv_id r = rid) (it_reservations s1) = it_reservations s"
    using fresh by (simp add: s1 find_reservation_def remove_first_append)
  ultimately show ?thesis using lvl
    by (simp add: item_releaseReservation_def then_do_apply set_level_def recordAdjustment_def
        level_defs s1 splice_reservation_def)
qed

lemma resolveStockRow_props:
  assumes "resolveStockRow rows v = Some r"
  shows "r \<in> set rows" and "v = None \<Longrightarrow> rows = [r]"
    and "v = Some x \<Longrightarrow> it_variantRef r = Some x \<or> rows = [r] \<and> it_variantRef r = None"
  using assms find_Some_props
  by (fastforce simp: resolveStockRow_def split: option.splits list.splits if_splits)+

subsection \<open>Properties\<close>

text \<open>
  through any admissible sequence of calls on an item, throwing ones included, the reserved
  figure equals the sum of the live reservations and stays between zero and the stock on hand.
\<close>

lemma stock_figures_consistent:
  "list_all (\<lambda>c. item_call_good (fst c)) cs \<Longrightarrow>
     (let s = runs item_step cs (InventoryItem_create iid product warehouse variant) in
        reserved (it_stockLevel s) = sum_list (map rv_quantity (it_reservations s)) \<and>
        0 \<le> reserved (it_stockLevel s) \<and> reserved (it_stockLevel s) \<le> onHand (it_stockLevel s))"
  using inv_item.runs_inv [OF item_ok_create [of iid product warehouse variant], of cs]
  by (simp add: item_ok_def level_ok_def reserved_sum_def Let_def)

lemma stock_figures_consistent_witness:
  "let s = runs item_step [(CReceive 5, ''e1'', 1), (CReserve ''r'' 9 ''o'', ''e2'', 2), (CReserve ''r'' 3 ''o'', ''e3'', 3)]
      (InventoryItem_create ''i'' ''p'' ''w'' None) in
     reserved (it_stockLevel s) = sum_list (map rv_quantity (it_reservations s)) \<and>
     0 \<le> reserved (it_stockLevel s) \<and> reserved (it_stockLevel s) \<le> onHand (it_stockLevel s)"
  by (rule stock_figures_consistent) simp

text \<open>
  a live reservation of an item can always be committed, and can always be released: neither
  call can throw, and a commit takes its quantity off both figures.
\<close>

lemma live_reservation_commits:
  "list_all (\<lambda>c. item_call_good (fst c)) cs \<Longrightarrow>
     s = runs item_step cs (InventoryItem_create iid product warehouse variant) \<Longrightarrow>
     find_reservation rid s = Some r \<Longrightarrow>
     fst (item_commitReservation rid e t s) = Inr () \<and> fst (item_releaseReservation rid e t s) = Inr () \<and>
     onHand (it_stockLevel (snd (item_commitReservation rid e t s))) = onHand (it_stockLevel s) - rv_quantity r \<and>
     reserved (it_stockLevel (snd (item_commitReservation rid e t s))) = reserved (it_stockLevel s) - rv_quantity r"
  using inv_item.runs_inv [OF item_ok_create [of iid product warehouse variant], of cs]
    reservation_covered [of s rid r] commit_result [of s rid r e t]
  by (simp add: item_commitReservation_def item_releaseReservation_def then_do_apply set_level_def
      recordAdjustment_def level_defs splice_reservation_def)

lemma live_reservation_commits_witness:
  "let s = runs item_step [(CReceive 5, ''e1'', 1), (CReserve ''r'' 3 ''o'', ''e3'', 3)]
      (InventoryItem_create ''i'' ''p'' ''w'' None) in
     fst (item_commitReservation ''r'' ''e4'' 4 s) = Inr ()"
  using live_reservation_commits
    [of "[(CReceive 5, ''e1'', 1), (CReserve ''r'' 3 ''o'', ''e3'', 3)]" _ "''i''" "''p''" "''w''" None "''r''"
      "\<lparr>rv_id = ''r'', rv_quantity = 3, rv_reference = ''o''\<rparr>" "''e4''" 4, OF _ refl]
  by (simp add: Let_def find_reservation_def InventoryItem_create_def item_receive_def item_reserve_def
      then_do_apply set_level_def recordAdjustment_def level_defs StockLevel_zero_def)

text \<open>
  Releasing a reservation undoes it: after \<open>reserve\<close> under a fresh id and \<open>release\<close> of that id
  the item has the stock figures and the reservations it started with.
\<close>

lemma reserve_release_roundtrip:
  "item_ok s \<Longrightarrow> find_reservation rid s = None \<Longrightarrow>
     item_reserve rid q ref e t s = (Inr (), s1) \<Longrightarrow>
     (case item_releaseReservation rid e' t' s1 of
        (Inl _, _) \<Rightarrow> False
      | (Inr _, s2) \<Rightarrow> it_stockLevel s2 = it_stockLevel s \<and> it_reservations s2 = it_reservations s)"
  by (drule (2) reserve_then_release [of s rid q ref e t s1 e' t']) auto

lemma reserve_release_roundtrip_witness:
  "let s = snd (item_receive 5 ''e1'' 1 (InventoryItem_create ''i'' ''p'' ''w'' None));
       s1 = snd (item_reserve ''r'' 2 ''o'' ''e2'' 2 s) in
     (case item_releaseReservation ''r'' ''e3'' 3 s1 of
        (Inl _, _) \<Rightarrow> False
      | (Inr _, s2) \<Rightarrow> it_stockLevel s2 = it_stockLevel s \<and> it_reservations s2 = it_reservations s)"
  unfolding Let_def
  by (rule reserve_release_roundtrip [where ref = "''o''" and e = "''e2''" and t = 2 and q = 2])
    (simp_all add: item_ok_others(1) item_ok_create find_reservation_def InventoryItem_create_def item_receive_def
      item_reserve_def then_do_apply set_level_def recordAdjustment_def level_defs StockLevel_zero_def
      item_ok_def level_ok_def reserved_sum_def)

end
