(* ===== verification/InventoryService.thy ===== *)
theory InventoryService
  imports Inventory UseCase
begin

section \<open>Inventory use cases over the in-memory repositories\<close>

text \<open>
  services/inventory/src/application and src/infrastructure (in-memory repositories, unit of work,
  event translator). \<open>gen\<close> values are what \<^verbatim>\<open>idGenerator.generate()\<close> returns, in
  the order of the calls, and \<open>now\<close> what \<^verbatim>\<open>clock.now()\<close> does. The in-memory unit of work just
  runs the body.
\<close>

definition InventoryEventTranslator :: "inventory_event domain_event \<Rightarrow> inventory_event descriptor option" where
  "InventoryEventTranslator event = (case ev_data event of
      InventoryAdjusted d \<Rightarrow> Some \<lparr>d_type = ''inventory.inventory_item.adjusted'', d_eventVersion = 1,
        d_aggregateType = ''inventory_item'', d_payload = ev_data event\<rparr>
    | WarehouseRegistered c n \<Rightarrow> Some \<lparr>d_type = ''inventory.warehouse.registered'', d_eventVersion = 1,
        d_aggregateType = ''warehouse'', d_payload = ev_data event\<rparr>
    | WarehouseDeactivated c \<Rightarrow> Some \<lparr>d_type = ''inventory.warehouse.deactivated'', d_eventVersion = 1,
        d_aggregateType = ''warehouse'', d_payload = ev_data event\<rparr>)"

record 'b inventory_service =
  sv_items :: "inventory_item store"
  sv_warehouses :: "warehouse store"
  sv_outbox :: "'b outbox_entry list"

text \<open>What the composition root injects, the translator being the one above.\<close>

record 'b inventory_env =
  en_serialize :: "inventory_event integration_event \<Rightarrow> string \<times> 'b"
  en_producer :: "string option"
  en_context :: event_context

definition inventory_deps ::
  "'b inventory_env \<Rightarrow> timestamp \<Rightarrow> (inventory_event, inventory_event, 'b) outbox_deps" where
  "inventory_deps env now = \<lparr>od_translate = InventoryEventTranslator, od_serialize = en_serialize env,
     od_now = now, od_producer = en_producer env\<rparr>"

type_synonym ('b, 'a) inventory_use_case = "('b inventory_service, 'a) use_case"

subsection \<open>Repositories\<close>

definition findByProductAndWarehouse ::
  "string \<Rightarrow> string \<Rightarrow> string \<Rightarrow> string option \<Rightarrow> 'b inventory_service \<Rightarrow> inventory_item option" where
  "findByProductAndWarehouse product warehouse tenant variantId s =
     resolveStockRow
       (filter (\<lambda>i. it_product i = product \<and> it_warehouseId i = warehouse) (rows_of tenant (sv_items s)))
       variantId"

definition findByProduct :: "string \<Rightarrow> string \<Rightarrow> 'b inventory_service \<Rightarrow> inventory_item list" where
  "findByProduct product tenant s = filter (\<lambda>i. it_product i = product) (rows_of tenant (sv_items s))"

definition findByReservationReference ::
  "string \<Rightarrow> string \<Rightarrow> string \<Rightarrow> 'b inventory_service \<Rightarrow> inventory_item option" where
  "findByReservationReference itemId reference tenant s =
     (case find_row tenant itemId (sv_items s) of None \<Rightarrow> None
      | Some item \<Rightarrow> if list_ex (\<lambda>r. rv_reference r = reference) (it_reservations item)
                     then Some item else None)"

definition findByCode :: "string \<Rightarrow> string \<Rightarrow> 'b inventory_service \<Rightarrow> warehouse option" where
  "findByCode code tenant s = List.find (\<lambda>w. wh_code w = code) (rows_of tenant (sv_warehouses s))"

definition save_item ::
  "'b inventory_env \<Rightarrow> timestamp \<Rightarrow> string \<Rightarrow> inventory_item \<Rightarrow> (thrown, 'b inventory_service, unit) action" where
  "save_item env now tenant item s =
     (case save_aggregate (inventory_deps env now) (en_context env) tenant item (sv_items s, sv_outbox s) of
        (r, (items, outbox)) \<Rightarrow>
          (mapError (\<lambda>_. ThrownOther) r, s\<lparr>sv_items := items, sv_outbox := outbox\<rparr>))"

definition save_warehouse ::
  "'b inventory_env \<Rightarrow> timestamp \<Rightarrow> string \<Rightarrow> warehouse \<Rightarrow> (thrown, 'b inventory_service, unit) action" where
  "save_warehouse env now tenant wh s =
     (case save_aggregate (inventory_deps env now) (en_context env) tenant wh (sv_warehouses s, sv_outbox s) of
        (r, (whs, outbox)) \<Rightarrow>
          (mapError (\<lambda>_. ThrownOther) r, s\<lparr>sv_warehouses := whs, sv_outbox := outbox\<rparr>))"

text \<open>The object behind a loaded item, after a method has run on it.\<close>

definition touch_item :: "string \<Rightarrow> inventory_item \<Rightarrow> 'b inventory_service \<Rightarrow> 'b inventory_service" where
  "touch_item tenant item s = s\<lparr>sv_items := touch_row tenant item (sv_items s)\<rparr>"

text \<open>
  The common tail of the use cases on one loaded item: call a method in a \<^verbatim>\<open>try\<close>, return its domain
  error, else save and return the output.
\<close>

definition call_and_save ::
  "'b inventory_env \<Rightarrow> timestamp \<Rightarrow> string \<Rightarrow> item_action \<Rightarrow> (inventory_item \<Rightarrow> 'a) \<Rightarrow> inventory_item \<Rightarrow>
     ('b, 'a) inventory_use_case" where
  "call_and_save env now tenant act out item s =
     (case act item of
        (Inl e, item') \<Rightarrow> (Inr (Inl e), touch_item tenant item' s)
      | (Inr _, item') \<Rightarrow>
          then_do (save_item env now tenant item') (return_ok (out item')) (touch_item tenant item' s))"

subsection \<open>Use cases\<close>

definition item_not_found :: domain_error where
  "item_not_found = NotFoundError ''Inventory item not found''"

definition ReserveStock ::
  "'b inventory_env \<Rightarrow> string \<Rightarrow> string \<Rightarrow> timestamp \<Rightarrow> string \<Rightarrow> string \<Rightarrow> string \<Rightarrow> string option \<Rightarrow>
     js_number \<Rightarrow> string \<Rightarrow> ('b, string \<times> int) inventory_use_case" where
  "ReserveStock env gen1 gen2 now tenant productId warehouseId variantId qty reference =
     or_return (ProductRef_create productId) (\<lambda>product.
     or_return (WarehouseId_create warehouseId) (\<lambda>warehouse.
     or_return (Quantity_create qty) (\<lambda>quantity.
     or_return (againstEmpty reference ''reference'') (\<lambda>_.
     lookup item_not_found (findByProductAndWarehouse product warehouse tenant variantId) (\<lambda>item.
     or_reject (UniqueEntityId_from gen1) (\<lambda>reservationId.
       call_and_save env now tenant (item_reserve reservationId quantity reference gen2 now)
         (\<lambda>i. (reservationId, available (it_stockLevel i))) item))))))"

definition ReleaseReservation ::
  "'b inventory_env \<Rightarrow> string \<Rightarrow> timestamp \<Rightarrow> string \<Rightarrow> string \<Rightarrow> string \<Rightarrow> string option \<Rightarrow> string \<Rightarrow>
     ('b, int) inventory_use_case" where
  "ReleaseReservation env gen1 now tenant productId warehouseId variantId reservationId =
     or_return (ProductRef_create productId) (\<lambda>product.
     or_return (WarehouseId_create warehouseId) (\<lambda>warehouse.
     lookup item_not_found (findByProductAndWarehouse product warehouse tenant variantId) (\<lambda>item.
       call_and_save env now tenant (item_releaseReservation reservationId gen1 now)
         (\<lambda>i. available (it_stockLevel i)) item)))"

definition CommitReservation ::
  "'b inventory_env \<Rightarrow> string \<Rightarrow> timestamp \<Rightarrow> string \<Rightarrow> string \<Rightarrow> string \<Rightarrow> string option \<Rightarrow> string \<Rightarrow>
     ('b, int \<times> int) inventory_use_case" where
  "CommitReservation env gen1 now tenant productId warehouseId variantId reservationId =
     or_return (ProductRef_create productId) (\<lambda>product.
     or_return (WarehouseId_create warehouseId) (\<lambda>warehouse.
     lookup item_not_found (findByProductAndWarehouse product warehouse tenant variantId) (\<lambda>item.
       call_and_save env now tenant (item_commitReservation reservationId gen1 now)
         (\<lambda>i. (onHand (it_stockLevel i), available (it_stockLevel i))) item)))"

definition AdjustInventory ::
  "'b inventory_env \<Rightarrow> string \<Rightarrow> timestamp \<Rightarrow> string \<Rightarrow> string \<Rightarrow> string \<Rightarrow> string option \<Rightarrow> js_number \<Rightarrow>
     ('b, int) inventory_use_case" where
  "AdjustInventory env gen1 now tenant productId warehouseId variantId oh =
     or_return (ProductRef_create productId) (\<lambda>product.
     or_return (WarehouseId_create warehouseId) (\<lambda>warehouse.
     if \<not> isInteger oh \<or> js_less oh (jint 0)
     then return_err (ValidationError ''Invalid on-hand quantity''
            [issue ''onHand'' ''must be a non-negative integer''])
     else lookup item_not_found (findByProductAndWarehouse product warehouse tenant variantId) (\<lambda>item.
       call_and_save env now tenant (item_adjust (js_to_int oh) gen1 now)
         (\<lambda>i. available (it_stockLevel i)) item)))"

text \<open>
  \<^verbatim>\<open>existing ?? InventoryItem.create(...)\<close>: the flag says whether the object is already in the store.
  A fresh one is not, until it is saved; its id is generated first.
\<close>

definition existing_or_new ::
  "inventory_item option \<Rightarrow> string \<Rightarrow> string \<Rightarrow> string \<Rightarrow> string option \<Rightarrow>
     (domain_error, bool \<times> inventory_item) result" where
  "existing_or_new existing genId product warehouse variantId =
     (case existing of
        Some item \<Rightarrow> Inr (True, item)
      | None \<Rightarrow> bind_result (UniqueEntityId_from genId) (\<lambda>iid.
                  Inr (False, InventoryItem_create iid product warehouse variantId)))"

definition ReceiveStock ::
  "'b inventory_env \<Rightarrow> string \<Rightarrow> string \<Rightarrow> timestamp \<Rightarrow> string \<Rightarrow> string \<Rightarrow> string \<Rightarrow> string option \<Rightarrow>
     js_number \<Rightarrow> ('b, int) inventory_use_case" where
  "ReceiveStock env genId genEv now tenant productId warehouseId variantId qty =
     or_return (ProductRef_create productId) (\<lambda>product.
     or_return (WarehouseId_create warehouseId) (\<lambda>warehouse.
     or_return (Quantity_create qty) (\<lambda>quantity.
     or_reject_at (\<lambda>s. existing_or_new (findByProductAndWarehouse product warehouse tenant variantId s)
                  genId product warehouse variantId) (\<lambda>(stored, item).
       case item_receive quantity genEv now item of
         (Inl e, item') \<Rightarrow> or_reject (Inl e) return_ok
       | (Inr _, item') \<Rightarrow>
           then_do (save_item env now tenant item') (return_ok (available (it_stockLevel item')))))))"

text \<open>The two legs of a transfer, out of the source and into the destination, and their saves.\<close>

definition transfer_legs ::
  "'b inventory_env \<Rightarrow> string \<Rightarrow> string \<Rightarrow> timestamp \<Rightarrow> string \<Rightarrow> int \<Rightarrow> inventory_item \<Rightarrow> bool \<times> inventory_item \<Rightarrow>
     ('b, int \<times> int) inventory_use_case" where
  "transfer_legs env genEv1 genEv2 now tenant quantity src dst_loaded s =
     (case dst_loaded of (stored, dst) \<Rightarrow>
      case item_transferOut quantity genEv1 now src of
         (Inl e, src') \<Rightarrow> return_err e (touch_item tenant src' s)
       | (Inr _, src') \<Rightarrow>
           (case item_transferIn quantity genEv2 now dst of
              (Inl e, dst') \<Rightarrow> return_err e (touch_item tenant src' s)
            | (Inr _, dst') \<Rightarrow>
                then_do (save_item env now tenant src')
               (then_do (save_item env now tenant dst')
                (return_ok (available (it_stockLevel src'), available (it_stockLevel dst'))))
                  (if stored then touch_item tenant dst' (touch_item tenant src' s)
                   else touch_item tenant src' s)))"

definition TransferStock ::
  "'b inventory_env \<Rightarrow> string \<Rightarrow> string \<Rightarrow> string \<Rightarrow> timestamp \<Rightarrow> string \<Rightarrow> string \<Rightarrow> string option \<Rightarrow>
     string \<Rightarrow> string \<Rightarrow> js_number \<Rightarrow> ('b, int \<times> int) inventory_use_case" where
  "TransferStock env genId genEv1 genEv2 now tenant productId variantId sourceId destId qty =
     or_return (ProductRef_create productId) (\<lambda>product.
     or_return (WarehouseId_create sourceId) (\<lambda>source.
     or_return (WarehouseId_create destId) (\<lambda>destination.
     if source = destination
     then return_err (ValidationError ''Cannot transfer stock to the same warehouse''
            [issue ''destinationWarehouseId'' ''must differ from sourceWarehouseId''])
     else
     or_return (Quantity_create qty) (\<lambda>quantity.
     lookup (NotFoundError ''Source inventory item not found'')
       (findByProductAndWarehouse product source tenant variantId) (\<lambda>src.
     or_reject_at (\<lambda>s. existing_or_new (findByProductAndWarehouse product destination tenant variantId s)
                  genId product destination variantId) (\<lambda>dst_loaded.
       transfer_legs env genEv1 genEv2 now tenant quantity src dst_loaded))))))"

definition CheckAvailability ::
  "string \<Rightarrow> string \<Rightarrow> string \<Rightarrow> string option \<Rightarrow> 'b inventory_service \<Rightarrow> (domain_error, int) result" where
  "CheckAvailability tenant productId warehouseId variantId s =
     bind_result (ProductRef_create productId) (\<lambda>product.
     bind_result (WarehouseId_create warehouseId) (\<lambda>warehouse.
       case findByProductAndWarehouse product warehouse tenant variantId s of
         None \<Rightarrow> Inl (NotFoundError ''Inventory item not found'')
       | Some item \<Rightarrow> Inr (available (it_stockLevel item))))"

record warehouse_output =
  wo_warehouseId :: string
  wo_code :: string
  wo_name :: string
  wo_status :: warehouse_status

definition warehouse_out :: "warehouse \<Rightarrow> warehouse_output" where
  "warehouse_out w = \<lparr>wo_warehouseId = agg_id w, wo_code = wh_code w, wo_name = wh_name w,
     wo_status = wh_status w\<rparr>"

definition RegisterWarehouse ::
  "'b inventory_env \<Rightarrow> string \<Rightarrow> string \<Rightarrow> timestamp \<Rightarrow> string \<Rightarrow> string \<Rightarrow> string \<Rightarrow>
     ('b, warehouse_output) inventory_use_case" where
  "RegisterWarehouse env genId genEv now tenant code name =
     or_return (againstEmpty code ''code'') (\<lambda>_.
     or_return (againstEmpty name ''name'') (\<lambda>_. (\<lambda>s.
     case findByCode code tenant s of
       Some _ \<Rightarrow> return_err (ConflictError
                  (''Warehouse code '' @ [CHR 0x27] @ code @ [CHR 0x27] @ '' is already registered'')) s
     | None \<Rightarrow>
         or_reject (UniqueEntityId_from genId) (\<lambda>wid.
           let wh = Warehouse_register wid code name genEv now
           in then_do (save_warehouse env now tenant wh) (return_ok (warehouse_out wh))) s)))"

definition DeactivateWarehouse ::
  "'b inventory_env \<Rightarrow> string \<Rightarrow> timestamp \<Rightarrow> string \<Rightarrow> string \<Rightarrow> ('b, warehouse_output) inventory_use_case" where
  "DeactivateWarehouse env genEv now tenant warehouseId =
     lookup (NotFoundError ''Warehouse not found'')
       (\<lambda>s. find_row tenant warehouseId (sv_warehouses s)) (\<lambda>wh. (\<lambda>s.
     case Warehouse_deactivate genEv now wh of
       (Inl e, wh') \<Rightarrow> return_err e (s\<lparr>sv_warehouses := touch_row tenant wh' (sv_warehouses s)\<rparr>)
     | (Inr _, wh') \<Rightarrow>
         then_do (save_warehouse env now tenant wh') (return_ok (warehouse_out wh'))
           (s\<lparr>sv_warehouses := touch_row tenant wh' (sv_warehouses s)\<rparr>)))"

definition ListWarehouses ::
  "(string \<Rightarrow> string \<Rightarrow> int) \<Rightarrow> string \<Rightarrow> int option \<Rightarrow> string option \<Rightarrow> 'b inventory_service \<Rightarrow>
     warehouse_output list \<times> page_info" where
  "ListWarehouses localeCompare tenant first after s =
     (case list_page localeCompare agg_id (Some (case first of None \<Rightarrow> 50 | Some n \<Rightarrow> n)) after
             (rows_of tenant (sv_warehouses s)) of
        (items, info) \<Rightarrow> (map warehouse_out items, info))"

definition ListInventoryItems ::
  "(string \<Rightarrow> string \<Rightarrow> int) \<Rightarrow> string \<Rightarrow> int option \<Rightarrow> string option \<Rightarrow> 'b inventory_service \<Rightarrow>
     inventory_item list \<times> page_info" where
  "ListInventoryItems localeCompare tenant first after s =
     list_page localeCompare agg_id first after (rows_of tenant (sv_items s))"

subsection \<open>Requests\<close>

text \<open>Every use case that writes, with its tenant and whatever the ports returned; answers are dropped.\<close>

datatype inventory_request =
    ReqReserve string string timestamp string string string "string option" js_number string
  | ReqRelease string timestamp string string string "string option" string
  | ReqCommit string timestamp string string string "string option" string
  | ReqAdjust string timestamp string string string "string option" js_number
  | ReqReceive string string timestamp string string string "string option" js_number
  | ReqTransfer string string string timestamp string string "string option" string string js_number
  | ReqRegister string string timestamp string string string
  | ReqDeactivate string timestamp string string

fun inventory_handle :: "'b inventory_env \<Rightarrow> inventory_request \<Rightarrow> ('b, unit) inventory_use_case" where
  "inventory_handle env (ReqReserve g1 g2 now t p w v q ref) = drop_answer (ReserveStock env g1 g2 now t p w v q ref)"
| "inventory_handle env (ReqRelease g1 now t p w v rid) = drop_answer (ReleaseReservation env g1 now t p w v rid)"
| "inventory_handle env (ReqCommit g1 now t p w v rid) = drop_answer (CommitReservation env g1 now t p w v rid)"
| "inventory_handle env (ReqAdjust g1 now t p w v oh) = drop_answer (AdjustInventory env g1 now t p w v oh)"
| "inventory_handle env (ReqReceive gi g1 now t p w v q) = drop_answer (ReceiveStock env gi g1 now t p w v q)"
| "inventory_handle env (ReqTransfer gi g1 g2 now t p v src dst q) = drop_answer (TransferStock env gi g1 g2 now t p v src dst q)"
| "inventory_handle env (ReqRegister gi g1 now t code name) = drop_answer (RegisterWarehouse env gi g1 now t code name)"
| "inventory_handle env (ReqDeactivate g1 now t wid) = drop_answer (DeactivateWarehouse env g1 now t wid)"

subsection \<open>The stock figures stay consistent\<close>

definition service_ok :: "'b inventory_service \<Rightarrow> bool" where
  "service_ok s \<longleftrightarrow> store_all item_ok (sv_items s)"

lemma item_ok_events [simp]: "item_ok (i\<lparr>agg_events := es\<rparr>) = item_ok i"
  by (simp add: item_ok_def reserved_sum_def)

lemma save_item_items:
  "sv_items (snd (save_item env now t item s)) = put_row t (agg_id item) (item\<lparr>agg_events := []\<rparr>) (sv_items s)"
  by (simp add: save_item_def save_aggregate_def pullDomainEvents_def split: prod.splits)

lemma save_item_warehouses [simp]:
  "sv_warehouses (snd (save_item env now t item s)) = sv_warehouses s"
  by (simp add: save_item_def split: prod.splits)

lemma save_item_ok: "service_ok s \<Longrightarrow> item_ok item \<Longrightarrow> service_ok (snd (save_item env now t item s))"
  by (simp add: service_ok_def save_item_items store_all_put)

lemma touch_item_ok: "service_ok s \<Longrightarrow> item_ok item \<Longrightarrow> service_ok (touch_item t item s)"
  by (simp add: service_ok_def touch_item_def touch_row_def store_all_put)

lemma touch_item_warehouses [simp]: "sv_warehouses (touch_item t item s) = sv_warehouses s"
  by (simp add: touch_item_def)

lemma found_row:
  "findByProductAndWarehouse p w t v s = Some item \<Longrightarrow>
     item \<in> set (rows_of t (sv_items s)) \<and> it_product item = p \<and> it_warehouseId item = w"
  unfolding findByProductAndWarehouse_def by (drule resolveStockRow_props(1)) simp

lemma found_ok:
  "service_ok s \<Longrightarrow> findByProductAndWarehouse p w t v s = Some item \<Longrightarrow> item_ok item"
  unfolding service_ok_def by (drule found_row) (blast intro: store_all_row)

lemma Quantity_create_pos: "Quantity_create x = Inr q \<Longrightarrow> 1 \<le> q"
  by (auto simp: Quantity_create_def isInteger_iff split: if_splits)

lemma keeps_call_and_save [keeps_intros]:
  assumes "item_ok (snd (act item))"
  shows "keeps service_ok (call_and_save env now t act out item) s"
proof -
  obtain r item' where "act item = (r, item')" by (cases "act item")
  with assms show ?thesis
    by (cases r) (simp_all add: keeps_def call_and_save_def save_item_ok touch_item_ok)
qed

lemma keeps_reserve: "keeps service_ok (ReserveStock env g1 g2 now t p w v x ref) s"
  unfolding ReserveStock_def
  by (intro keeps_intros item_ok_others) (auto dest: found_ok Quantity_create_pos)

lemma keeps_release: "keeps service_ok (ReleaseReservation env g1 now t p w v rid) s"
  unfolding ReleaseReservation_def
  by (intro keeps_intros item_ok_release) (auto dest: found_ok)

lemma keeps_commit: "keeps service_ok (CommitReservation env g1 now t p w v rid) s"
  unfolding CommitReservation_def
  by (intro keeps_intros item_ok_commit) (auto dest: found_ok)

lemma keeps_adjust: "keeps service_ok (AdjustInventory env g1 now t p w v x) s"
proof -
  have "keeps service_ok (lookup item_not_found (findByProductAndWarehouse a b t v) (\<lambda>item.
       call_and_save env now t (item_adjust (js_to_int x) g1 now)
         (\<lambda>i. available (it_stockLevel i)) item)) s" for a b
    by (intro keeps_intros item_ok_others) (auto dest: found_ok)
  then show ?thesis
    unfolding AdjustInventory_def by (intro keeps_intros) (simp add: keeps_return_err)
qed

lemma existing_or_new_ok:
  "service_ok s \<Longrightarrow> existing_or_new (findByProductAndWarehouse p w t v s) g p w v = Inr y \<Longrightarrow>
     item_ok (snd y)"
  by (auto simp: existing_or_new_def bind_result_Inr_iff item_ok_create dest: found_ok split: option.splits)

lemma keeps_receive: "keeps service_ok (ReceiveStock env gi g1 now t p w v x) s"
proof -
  have main: "keeps service_ok (case y of (stored, item) \<Rightarrow>
          case item_receive q g1 now item of
            (Inl e, item') \<Rightarrow> or_reject (Inl e) return_ok
          | (Inr _, item') \<Rightarrow>
              then_do (save_item env now t item') (return_ok (available (it_stockLevel item')))) s"
    if "1 \<le> q" "item_ok (snd y)" for q y
  proof -
    obtain stored item where y: "y = (stored, item)" by (cases y)
    obtain r item' where r: "item_receive q g1 now item = (r, item')" by (cases "item_receive q g1 now item")
    have "item_ok item'" using item_ok_others(1) [of item q g1 now] that y r by simp
    with r y show ?thesis by (cases r) (simp_all add: keeps_def or_reject_def save_item_ok)
  qed
  then show ?thesis
    unfolding ReceiveStock_def
    by (intro keeps_intros main) (auto intro: Quantity_create_pos existing_or_new_ok)
qed

lemma keeps_then_save:
  assumes "item_ok a" and "item_ok b"
  shows "service_ok s \<Longrightarrow> service_ok (snd (then_do (save_item env now t a)
    (then_do (save_item env now t b) (return_ok x)) s))"
proof -
  assume s: "service_ok s"
  obtain r s' where r: "save_item env now t a s = (r, s')" by (cases "save_item env now t a s")
  have "service_ok s'" using save_item_ok [OF s assms(1), of env now t] r by simp
  with r assms(2) show ?thesis by (cases r) (simp_all add: then_do_apply [of "save_item env now t a"] save_item_ok)
qed

lemma keeps_legs:
  assumes "1 \<le> q" "item_ok src" "item_ok (snd d)"
  shows "keeps service_ok (transfer_legs env g1 g2 now t q src d) s"
proof -
  obtain stored dst where d: "d = (stored, dst)" by (cases d)
  obtain r src' where 1: "item_transferOut q g1 now src = (r, src')" by (cases "item_transferOut q g1 now src")
  obtain r' dst' where 2: "item_transferIn q g2 now dst = (r', dst')" by (cases "item_transferIn q g2 now dst")
  have "item_ok src'" "item_ok dst'"
    using item_ok_others(4) [of src q g1 now] item_ok_others(5) [of dst q g2 now] assms 1 2 d by simp_all
  then show ?thesis
    by (cases r; cases r') (simp_all add: d 1 2 keeps_def transfer_legs_def touch_item_ok keeps_then_save)
qed

lemma keeps_transfer: "keeps service_ok (TransferStock env gi g1 g2 now t p v sw dw x) s"
proof -
  have "keeps service_ok (if a = b then return_err e else
      or_return (Quantity_create x) (\<lambda>quantity.
      lookup e' (findByProductAndWarehouse c a t v) (\<lambda>src.
      or_reject_at (\<lambda>s. existing_or_new (findByProductAndWarehouse c b t v s) gi c b v) (\<lambda>d.
        transfer_legs env g1 g2 now t quantity src d)))) s" for a b c e e'
  proof (cases "a = b")
    case False
    then show ?thesis
      by (simp, intro keeps_intros keeps_legs)
        (auto intro: Quantity_create_pos found_ok existing_or_new_ok)
  qed (simp add: keeps_return_err)
  then show ?thesis unfolding TransferStock_def by (intro keeps_or_return)
qed

lemma save_warehouse_items [simp]: "sv_items (snd (save_warehouse env now t wh s)) = sv_items s"
  by (simp add: save_warehouse_def split: prod.splits)

lemma keeps_register: "keeps service_ok (RegisterWarehouse env gi g1 now t code name) s"
  unfolding RegisterWarehouse_def Let_def
  by (intro keeps_or_return)
    (auto simp: keeps_def return_err_def or_reject_def service_ok_def split: option.splits sum.splits)

lemma keeps_deactivate: "keeps service_ok (DeactivateWarehouse env g1 now t wid) s"
  unfolding DeactivateWarehouse_def
  by (intro keeps_lookup)
    (auto simp: keeps_def return_err_def service_ok_def split: prod.splits sum.splits)

lemma inventory_handle_keeps: "service_ok s \<Longrightarrow> service_ok (snd (inventory_handle env req s))"
  by (cases req)
    (simp_all add: keepsD [OF keeps_reserve] keepsD [OF keeps_release] keepsD [OF keeps_commit]
      keepsD [OF keeps_adjust] keepsD [OF keeps_receive] keepsD [OF keeps_transfer]
      keepsD [OF keeps_register] keepsD [OF keeps_deactivate])

interpretation inv_service: invariant_object service_ok "\<lambda>_. True" "inventory_handle env" for env
  by unfold_locales (rule inventory_handle_keeps)

subsection \<open>A returned error means nothing changed\<close>

lemma touch_same:
  assumes "service_ok s" and "item \<in> set (rows_of t (sv_items s))"
  shows "touch_item t item s = s"
  using row_find [of item_ok "sv_items s" item t] assms
  by (simp add: touch_item_def touch_row_def put_row_same service_ok_def)

lemma clean_call_and_save [clean_intros]:
  assumes "service_ok s" and "item \<in> set (rows_of t (sv_items s))"
    and "\<And>e i'. act item = (Inl e, i') \<Longrightarrow> i' = item"
  shows "clean (call_and_save env now t act out item) s"
  using assms
  by (auto simp: clean_def call_and_save_def touch_same split: prod.splits sum.splits)

lemma item_error_unchanged:
  "item_ok i \<Longrightarrow> item_reserve rid q ref e t i = (Inl err, i') \<Longrightarrow> i' = i"
  "item_ok i \<Longrightarrow> item_releaseReservation rid e t i = (Inl err, i') \<Longrightarrow> i' = i"
  "item_ok i \<Longrightarrow> item_commitReservation rid e t i = (Inl err, i') \<Longrightarrow> i' = i"
  "item_ok i \<Longrightarrow> item_adjust oh e t i = (Inl err, i') \<Longrightarrow> i' = i"
  "item_ok i \<Longrightarrow> item_transferOut q e t i = (Inl err, i') \<Longrightarrow> i' = i"
  using item_step_throws [of i "(CReserve rid q ref, e, t)"] item_step_throws [of i "(CRelease rid, e, t)"]
    item_step_throws [of i "(CCommit rid, e, t)"] item_step_throws [of i "(CAdjust oh, e, t)"]
    item_step_throws [of i "(CTransferOut q, e, t)"]
  by simp_all

lemma transferIn_returns: "item_transferIn q e t i = (r, i') \<Longrightarrow> r = Inr ()"
  by (auto simp: item_transferIn_def then_do_apply set_level_def recordAdjustment_def StockLevel_receive_def)

lemma found_facts:
  "service_ok s \<Longrightarrow> findByProductAndWarehouse p w t v s = Some item \<Longrightarrow>
     item_ok item \<and> item \<in> set (rows_of t (sv_items s))"
  using found_ok found_row by blast

lemma clean_item_use_cases:
  assumes ok: "service_ok s"
  shows "clean (ReserveStock env g1 g2 now t p w v x ref) s"
    and "clean (ReleaseReservation env g1 now t p w v rid) s"
    and "clean (CommitReservation env g1 now t p w v rid) s"
  unfolding ReserveStock_def ReleaseReservation_def CommitReservation_def
  by (intro clean_intros ok; auto dest: found_facts [OF ok] item_error_unchanged)+

lemma clean_adjust:
  assumes ok: "service_ok s"
  shows "clean (AdjustInventory env g1 now t p w v x) s"
proof -
  have "clean (lookup item_not_found (findByProductAndWarehouse a b t v) (\<lambda>item.
       call_and_save env now t (item_adjust (js_to_int x) g1 now)
         (\<lambda>i. available (it_stockLevel i)) item)) s" for a b
    by (intro clean_intros ok; auto dest: found_facts [OF ok] item_error_unchanged)
  then show ?thesis
    unfolding AdjustInventory_def by (intro clean_intros) (simp add: clean_return_err)
qed

lemma clean_legs:
  assumes "service_ok s" "item_ok src" "src \<in> set (rows_of t (sv_items s))"
  shows "clean (transfer_legs env g1 g2 now t q src d) s"
  using assms touch_same [of s src t]
  by (auto simp: clean_def transfer_legs_def then_do_ok_iff
      dest: item_error_unchanged transferIn_returns split: prod.splits sum.splits)

lemma clean_transfer:
  assumes ok: "service_ok s"
  shows "clean (TransferStock env gi g1 g2 now t p v sw dw x) s"
proof -
  have "clean (if a = b then return_err e else
      or_return (Quantity_create x) (\<lambda>quantity.
      lookup e' (findByProductAndWarehouse c a t v) (\<lambda>src.
      or_reject_at (\<lambda>s. existing_or_new (findByProductAndWarehouse c b t v s) gi c b v) (\<lambda>d.
        transfer_legs env g1 g2 now t quantity src d)))) s" for a b c e e'
  proof (cases "a = b")
    case False
    then show ?thesis
      using found_facts [OF ok] by (simp, intro clean_intros clean_legs ok) auto
  qed (simp add: clean_return_err)
  then show ?thesis unfolding TransferStock_def by (intro clean_or_return)
qed

lemma clean_others:
  "clean (ReceiveStock env gi g1 now t p w v x) s"
  "clean (RegisterWarehouse env gi g1 now t code name) s"
  unfolding ReceiveStock_def RegisterWarehouse_def Let_def
  by (intro clean_intros; auto simp: clean_def or_reject_def split: prod.splits sum.splits option.splits)+

lemma deactivate_error_unchanged:
  "Warehouse_deactivate e t wh = (Inl err, wh') \<Longrightarrow> wh' = wh"
  by (auto simp: Warehouse_deactivate_def then_do_apply split: if_splits)

lemma clean_deactivate:
  assumes "store_all (\<lambda>_. True) (sv_warehouses s)"
  shows "clean (DeactivateWarehouse env g1 now t wid) s"
  unfolding DeactivateWarehouse_def
proof (rule clean_lookup)
  fix wh assume wh: "find_row t wid (sv_warehouses s) = Some wh"
  have id: "agg_id wh = wid" using store_all_find [OF assms wh] by simp
  show "clean (\<lambda>s. case Warehouse_deactivate g1 now wh of
       (Inl e, wh') \<Rightarrow> return_err e (s\<lparr>sv_warehouses := touch_row t wh' (sv_warehouses s)\<rparr>)
     | (Inr _, wh') \<Rightarrow>
         then_do (save_warehouse env now t wh') (return_ok (warehouse_out wh'))
           (s\<lparr>sv_warehouses := touch_row t wh' (sv_warehouses s)\<rparr>)) s"
    using put_row_same [OF wh] id
    by (auto simp: clean_def touch_row_def dest: deactivate_error_unchanged split: prod.splits sum.splits)
qed

lemma inventory_handle_clean:
  assumes "service_ok s" and "store_all (\<lambda>_. True) (sv_warehouses s)"
  shows "clean (inventory_handle env req) s"
  using assms
  by (cases req)
    (simp_all add: clean_drop clean_item_use_cases clean_adjust clean_transfer clean_others clean_deactivate)

subsection \<open>Tenants do not see each other\<close>

fun request_tenant :: "inventory_request \<Rightarrow> string" where
  "request_tenant (ReqReserve g1 g2 now t p w v q ref) = t"
| "request_tenant (ReqRelease g1 now t p w v rid) = t"
| "request_tenant (ReqCommit g1 now t p w v rid) = t"
| "request_tenant (ReqAdjust g1 now t p w v oh) = t"
| "request_tenant (ReqReceive gi g1 now t p w v q) = t"
| "request_tenant (ReqTransfer gi g1 g2 now t p v src dst q) = t"
| "request_tenant (ReqRegister gi g1 now t code name) = t"
| "request_tenant (ReqDeactivate g1 now t wid) = t"

text \<open>The rows of one tenant.\<close>

definition tenant_view :: "string \<Rightarrow> 'b inventory_service \<Rightarrow>
    (string \<times> inventory_item) list \<times> (string \<times> warehouse) list" where
  "tenant_view t s = (bucket t (sv_items s), bucket t (sv_warehouses s))"

lemma save_warehouse_rows:
  "sv_warehouses (snd (save_warehouse env now t wh s)) =
     put_row t (agg_id wh) (wh\<lparr>agg_events := []\<rparr>) (sv_warehouses s)"
  by (simp add: save_warehouse_def save_aggregate_def pullDomainEvents_def split: prod.splits)

lemma view_writes [simp]:
  "t \<noteq> u \<Longrightarrow> tenant_view u (touch_item t item s) = tenant_view u s"
  "t \<noteq> u \<Longrightarrow> tenant_view u (snd (save_item env now t item s)) = tenant_view u s"
  "t \<noteq> u \<Longrightarrow> tenant_view u (snd (save_warehouse env now t wh s)) = tenant_view u s"
  "t \<noteq> u \<Longrightarrow> tenant_view u (s\<lparr>sv_warehouses := touch_row t wh (sv_warehouses s)\<rparr>) = tenant_view u s"
  by (simp_all add: tenant_view_def touch_item_def touch_row_def bucket_put save_item_items
      save_warehouse_rows)

lemma view_then:
  assumes "tenant_view u (snd (f s)) = V" and "\<And>s'. tenant_view u s' = V \<Longrightarrow> tenant_view u (snd (g s')) = V"
  shows "tenant_view u (snd (then_do f g s)) = V"
  using assms by (cases "f s") (auto simp: then_do_apply split: sum.splits)

lemma view_call_and_save [keeps_intros]:
  "t \<noteq> u \<Longrightarrow> keeps (\<lambda>s. tenant_view u s = V) (call_and_save env now t act out item) s"
  by (auto simp: keeps_def call_and_save_def split: prod.splits sum.splits)

lemma view_legs [keeps_intros]:
  "t \<noteq> u \<Longrightarrow> keeps (\<lambda>s. tenant_view u s = V) (transfer_legs env g1 g2 now t q src d) s"
  by (auto simp: keeps_def transfer_legs_def intro!: view_then split: prod.splits sum.splits)

lemma view_receive [keeps_intros]:
  "t \<noteq> u \<Longrightarrow> keeps (\<lambda>s. tenant_view u s = V) (ReceiveStock env gi g1 now t p w v x) s"
  unfolding ReceiveStock_def
  by (intro keeps_intros) (auto simp: keeps_def or_reject_def split: prod.splits sum.splits)

lemma view_warehouses [keeps_intros]:
  "t \<noteq> u \<Longrightarrow> keeps (\<lambda>s. tenant_view u s = V) (RegisterWarehouse env gi g1 now t code name) s"
  "t \<noteq> u \<Longrightarrow> keeps (\<lambda>s. tenant_view u s = V) (DeactivateWarehouse env g1 now t wid) s"
  unfolding RegisterWarehouse_def DeactivateWarehouse_def Let_def
  by (intro keeps_intros; auto simp: keeps_def or_reject_def split: prod.splits sum.splits option.splits)+

lemma view_items [keeps_intros]:
  assumes "t \<noteq> u"
  shows "keeps (\<lambda>s. tenant_view u s = V) (ReserveStock env g1 g2 now t p w v x ref) s"
    and "keeps (\<lambda>s. tenant_view u s = V) (ReleaseReservation env g1 now t p w v rid) s"
    and "keeps (\<lambda>s. tenant_view u s = V) (CommitReservation env g1 now t p w v rid) s"
  unfolding ReserveStock_def ReleaseReservation_def CommitReservation_def
  by (intro keeps_intros assms)+

lemma keeps_if [keeps_intros]: "keeps P f s \<Longrightarrow> keeps P g s \<Longrightarrow> keeps P (if b then f else g) s"
  by simp

lemma view_adjust_transfer [keeps_intros]:
  assumes "t \<noteq> u"
  shows "keeps (\<lambda>s. tenant_view u s = V) (AdjustInventory env g1 now t p w v x) s"
    and "keeps (\<lambda>s. tenant_view u s = V) (TransferStock env gi g1 g2 now t p v sw dw x) s"
  unfolding AdjustInventory_def TransferStock_def
  by (intro keeps_intros assms)+

lemma view_handle:
  "request_tenant req \<noteq> u \<Longrightarrow> tenant_view u (snd (inventory_handle env req s)) = tenant_view u s"
  by (rule keepsD [of "\<lambda>s'. tenant_view u s' = tenant_view u s"], cases req)
    (auto intro!: keeps_intros)

subsection \<open>A transfer conserves stock\<close>

definition total_rows :: "('a \<Rightarrow> int) \<Rightarrow> string \<Rightarrow> 'a store \<Rightarrow> int" where
  "total_rows f t store = sum_list (map f (rows_of t store))"

lemma sum_AList_update:
  fixes f :: "'a \<Rightarrow> int"
  shows "sum_list (map f (map snd (AList.update i a xs))) =
    sum_list (map f (map snd xs)) + f a - (case map_of xs i of None \<Rightarrow> 0 | Some b \<Rightarrow> f b)"
  by (induction xs) (auto split: option.splits)

lemma total_put:
  "total_rows f t (put_row t i a store) =
     total_rows f t store + f a - (case find_row t i store of None \<Rightarrow> 0 | Some b \<Rightarrow> f b)"
  by (simp add: total_rows_def rows_of_def bucket_put find_row_def sum_AList_update del: map_map)

lemma find_row_touch:
  "find_row t i (sv_items (touch_item t item s)) =
     (if i = agg_id item then Some item else find_row t i (sv_items s))"
  by (auto simp: touch_item_def touch_row_def memory.find_save)

lemma find_row_save:
  "find_row t i (sv_items (snd (save_item env now t item s))) =
     (if i = agg_id item then Some (item\<lparr>agg_events := []\<rparr>) else find_row t i (sv_items s))"
  by (simp add: save_item_items memory.find_save)

lemma total_touch:
  "total_rows f t (sv_items (touch_item t item s)) =
     total_rows f t (sv_items s) + f item - (case find_row t (agg_id item) (sv_items s) of None \<Rightarrow> 0 | Some b \<Rightarrow> f b)"
  by (simp add: touch_item_def touch_row_def total_put)

lemma total_save:
  "total_rows f t (sv_items (snd (save_item env now t item s))) =
     total_rows f t (sv_items s) + f (item\<lparr>agg_events := []\<rparr>) -
     (case find_row t (agg_id item) (sv_items s) of None \<Rightarrow> 0 | Some b \<Rightarrow> f b)"
  by (simp add: save_item_items total_put)

lemma two_saves:
  assumes "then_do (save_item env now t a) (then_do (save_item env now t b) (return_ok x)) s = (Inr r, s')"
  shows "s' = snd (save_item env now t b (snd (save_item env now t a s)))"
  using assms by (cases "save_item env now t a s"; cases "save_item env now t b (snd (save_item env now t a s))")
    (auto simp: then_do_ok_iff)

lemma transferOut_levels:
  "item_transferOut q e t i = (Inr u, i') \<Longrightarrow> onHand (it_stockLevel i') = onHand (it_stockLevel i) - q \<and>
     reserved (it_stockLevel i') = reserved (it_stockLevel i) \<and> agg_id i' = agg_id i"
  by (auto simp: item_transferOut_def then_do_apply set_level_def recordAdjustment_def StockLevel_remove_def
      split: if_splits)

lemma transferIn_levels:
  "item_transferIn q e t i = (Inr u, i') \<Longrightarrow> onHand (it_stockLevel i') = onHand (it_stockLevel i) + q \<and>
     reserved (it_stockLevel i') = reserved (it_stockLevel i) \<and> agg_id i' = agg_id i"
  by (auto simp: item_transferIn_def then_do_apply set_level_def recordAdjustment_def StockLevel_receive_def)

abbreviation stored_on_hand :: "string \<Rightarrow> 'b inventory_service \<Rightarrow> int" where
  "stored_on_hand t s \<equiv> total_rows (\<lambda>i. onHand (it_stockLevel i)) t (sv_items s)"

lemma legs_conserve:
  assumes run: "transfer_legs env g1 g2 now t q src (stored, dst) s = (Inr (Inr r), s')"
    and src: "find_row t (agg_id src) (sv_items s) = Some src"
    and dst: "if stored then find_row t (agg_id dst) (sv_items s) = Some dst
              else find_row t (agg_id dst) (sv_items s) = None \<and> onHand (it_stockLevel dst) = 0"
    and ne: "agg_id src \<noteq> agg_id dst"
  shows "stored_on_hand t s' = stored_on_hand t s"
proof -
  obtain u src' where 1: "item_transferOut q g1 now src = (Inr u, src')"
    using run by (cases "item_transferOut q g1 now src") (auto simp: transfer_legs_def split: sum.splits)
  obtain w dst' where 2: "item_transferIn q g2 now dst = (Inr w, dst')"
    using run 1 by (cases "item_transferIn q g2 now dst") (auto simp: transfer_legs_def split: sum.splits)
  define m where "m = (if stored then touch_item t dst' (touch_item t src' s) else touch_item t src' s)"
  have s': "s' = snd (save_item env now t dst' (snd (save_item env now t src' m)))"
    using run 1 2 by (auto simp: transfer_legs_def m_def intro!: two_saves)
  note lv = transferOut_levels [OF 1] transferIn_levels [OF 2]
  show ?thesis
    using src dst ne lv
    by (cases stored) (simp_all add: s' m_def total_save total_touch find_row_save find_row_touch)
qed

lemma transfer_conserves:
  assumes ok: "service_ok s" and fresh: "find_row t gi (sv_items s) = None"
    and run: "TransferStock env gi g1 g2 now t p v sw dw x s = (Inr (Inr r), s')"
  shows "stored_on_hand t s' = stored_on_hand t s"
proof -
  obtain a b c q src d where ne: "a \<noteq> b"
    and src: "findByProductAndWarehouse c a t v s = Some src"
    and d: "existing_or_new (findByProductAndWarehouse c b t v s) gi c b v = Inr d"
    and legs: "transfer_legs env g1 g2 now t q src d s = (Inr (Inr r), s')"
    using run by (auto simp: TransferStock_def returns_iff split: if_splits)
  obtain stored dst where d': "d = (stored, dst)" by (cases d)
  have find: "find_row t (agg_id i) (sv_items s) = Some i" if "i \<in> set (rows_of t (sv_items s))" for i
    using row_find that ok unfolding service_ok_def by blast
  have S: "find_row t (agg_id src) (sv_items s) = Some src" "it_warehouseId src = a"
    using found_row [OF src] find by auto
  have D: "it_warehouseId dst = b \<and> (if stored then find_row t (agg_id dst) (sv_items s) = Some dst
      else find_row t (agg_id dst) (sv_items s) = None \<and> onHand (it_stockLevel dst) = 0)"
  proof (cases "findByProductAndWarehouse c b t v s")
    case None
    with d d' fresh show ?thesis
      by (auto simp: existing_or_new_def bind_result_Inr_iff UniqueEntityId_from_Inr_iff
          InventoryItem_create_def StockLevel_zero_def)
  next
    case (Some i)
    with d d' found_row [OF Some] find show ?thesis by (auto simp: existing_or_new_def)
  qed
  have "agg_id src \<noteq> agg_id dst" using S D ne by (metis option.distinct(1) option.inject)
  with legs_conserve [OF legs [unfolded d']] S D show ?thesis by blast
qed

subsection \<open>Warehouse codes\<close>

definition warehouses_ok :: "'b inventory_service \<Rightarrow> bool" where
  "warehouses_ok s \<longleftrightarrow> store_all (\<lambda>_. True) (sv_warehouses s) \<and>
     (\<forall>t. distinct (map wh_code (rows_of t (sv_warehouses s))))"

lemma rows_put_other: "t \<noteq> u \<Longrightarrow> rows_of u (put_row t i a store) = rows_of u store"
  by (simp add: rows_of_def bucket_put)

lemma codes_update_new:
  "distinct (map f (map snd xs)) \<Longrightarrow> f a \<notin> f ` set (map snd xs) \<Longrightarrow>
     distinct (map f (map snd (AList.update i a xs))) \<and>
     set (map snd (AList.update i a xs)) \<subseteq> insert a (set (map snd xs))"
proof (induction xs)
  case (Cons x xs)
  have "f (snd x) \<notin> f ` set (map snd (AList.update i a xs))"
  proof -
    have "set (map snd (AList.update i a xs)) \<subseteq> insert a (set (map snd xs))" using Cons by auto
    moreover have "f (snd x) \<notin> f ` insert a (set (map snd xs))" using Cons.prems by auto
    ultimately show ?thesis by blast
  qed
  with Cons show ?case by (cases x) auto
qed simp

lemma codes_update_same:
  "map_of xs i = Some b \<Longrightarrow> f a = f b \<Longrightarrow> map f (map snd (AList.update i a xs)) = map f (map snd xs)"
  by (induction xs) (auto split: if_splits)

lemma warehouses_ok_new:
  assumes "warehouses_ok s" and "findByCode (wh_code wh) t s = None"
  shows "warehouses_ok (s\<lparr>sv_warehouses := put_row t (agg_id wh) wh (sv_warehouses s), sv_outbox := ob\<rparr>)"
proof -
  have "wh_code wh \<notin> wh_code ` set (map snd (bucket t (sv_warehouses s)))"
    using assms(2) by (auto simp: findByCode_def find_None_iff_all rows_of_def)
  then have "distinct (map wh_code (rows_of u (put_row t (agg_id wh) wh (sv_warehouses s))))" for u
    using assms(1) codes_update_new [of wh_code "bucket t (sv_warehouses s)" wh "agg_id wh"]
    by (cases "u = t") (auto simp: warehouses_ok_def rows_of_def bucket_put simp del: map_map)
  then show ?thesis
    using assms(1) by (simp add: warehouses_ok_def store_all_put)
qed

lemma warehouses_ok_same:
  assumes "warehouses_ok s" and "find_row t (agg_id wh) (sv_warehouses s) = Some b" and "wh_code wh = wh_code b"
  shows "warehouses_ok (s\<lparr>sv_warehouses := put_row t (agg_id wh) wh (sv_warehouses s)\<rparr>)"
proof -
  have "distinct (map wh_code (rows_of u (put_row t (agg_id wh) wh (sv_warehouses s))))" for u
    using assms codes_update_same [of "bucket t (sv_warehouses s)" "agg_id wh" b wh_code wh]
    by (cases "u = t")
      (auto simp: warehouses_ok_def rows_of_def bucket_put find_row_def simp del: map_map)
  then show ?thesis
    using assms(1) by (simp add: warehouses_ok_def store_all_put)
qed

lemma warehouses_ok_save_item [simp]:
  "warehouses_ok (snd (save_item env now t item s)) = warehouses_ok s"
  "warehouses_ok (touch_item t item s) = warehouses_ok s"
  by (simp_all add: warehouses_ok_def)

lemma save_warehouse_state:
  "\<exists>ob. snd (save_warehouse env now t wh s) =
     s\<lparr>sv_warehouses := put_row t (agg_id wh) (wh\<lparr>agg_events := []\<rparr>) (sv_warehouses s), sv_outbox := ob\<rparr>"
  by (auto simp: save_warehouse_def save_aggregate_def pullDomainEvents_def split: prod.splits)

lemma warehouses_register: "keeps warehouses_ok (RegisterWarehouse env gi g1 now t code name) s"
proof -
  have "warehouses_ok (snd (save_warehouse env now t (Warehouse_register wid code name g1 now) s))"
    if ok: "warehouses_ok s" and none: "findByCode code t s = None" for wid
  proof -
    let ?wh = "Warehouse_register wid code name g1 now\<lparr>agg_events := []\<rparr>"
    have "wh_code ?wh = code" "agg_id ?wh = wid" "agg_id (Warehouse_register wid code name g1 now) = wid"
      by (simp_all add: Warehouse_register_def addDomainEvent_def)
    then show ?thesis
      using warehouses_ok_new [of s ?wh t] that
        save_warehouse_state [of env now t "Warehouse_register wid code name g1 now" s] by auto
  qed
  then show ?thesis
    unfolding RegisterWarehouse_def Let_def
    by (intro keeps_or_return)
      (auto simp: keeps_def or_reject_def split: option.splits sum.splits)
qed

lemma warehouses_deactivate: "keeps warehouses_ok (DeactivateWarehouse env g1 now t wid) s"
proof (unfold DeactivateWarehouse_def, rule keeps_lookup)
  fix wh assume wh: "find_row t wid (sv_warehouses s) = Some wh" and ok: "warehouses_ok s"
  obtain r wh' where r: "Warehouse_deactivate g1 now wh = (r, wh')" by (cases "Warehouse_deactivate g1 now wh")
  have id: "agg_id wh = wid" using store_all_find [OF _ wh] ok unfolding warehouses_ok_def by blast
  have c: "wh_code wh' = wh_code wh" "agg_id wh' = wid"
    using r id by (auto simp: Warehouse_deactivate_def then_do_apply addDomainEvent_def split: if_splits)
  let ?s = "s\<lparr>sv_warehouses := touch_row t wh' (sv_warehouses s)\<rparr>"
  have 1: "warehouses_ok ?s"
    using warehouses_ok_same [OF ok, of t wh' wh] wh c by (simp add: touch_row_def)
  have "warehouses_ok (snd (save_warehouse env now t wh' ?s))"
  proof -
    let ?v = "wh'\<lparr>agg_events := []\<rparr>"
    have "warehouses_ok (s\<lparr>sv_warehouses := put_row t (agg_id ?v) ?v (sv_warehouses s)\<rparr>)"
      using warehouses_ok_same [OF ok, of t ?v wh] wh c by simp
    then show ?thesis
      using save_warehouse_state [of env now t wh' ?s] by (auto simp: warehouses_ok_def touch_row_def)
  qed
  with 1 r show "keeps warehouses_ok (\<lambda>s. case Warehouse_deactivate g1 now wh of
       (Inl e, wh') \<Rightarrow> return_err e (s\<lparr>sv_warehouses := touch_row t wh' (sv_warehouses s)\<rparr>)
     | (Inr _, wh') \<Rightarrow>
         then_do (save_warehouse env now t wh') (return_ok (warehouse_out wh'))
           (s\<lparr>sv_warehouses := touch_row t wh' (sv_warehouses s)\<rparr>)) s"
    by (cases r) (simp_all add: keeps_def)
qed

text \<open>The item use cases leave the warehouses alone.\<close>

lemma frame_then:
  assumes "sv_warehouses (snd (f s)) = W" and "\<And>s'. sv_warehouses s' = W \<Longrightarrow> sv_warehouses (snd (g s')) = W"
  shows "sv_warehouses (snd (then_do f g s)) = W"
  using assms by (cases "f s") (auto simp: then_do_apply split: sum.splits)

lemma frame_items [keeps_intros]:
  "keeps (\<lambda>s. sv_warehouses s = W) (call_and_save env now t act out item) s"
  "keeps (\<lambda>s. sv_warehouses s = W) (transfer_legs env g1 g2 now t q src d) s"
  by (auto simp: keeps_def call_and_save_def transfer_legs_def intro!: frame_then split: prod.splits sum.splits)

lemma frame_use_cases:
  "keeps (\<lambda>s. sv_warehouses s = W) (ReserveStock env g1 g2 now t p w v x ref) s"
  "keeps (\<lambda>s. sv_warehouses s = W) (ReleaseReservation env g1 now t p w v rid) s"
  "keeps (\<lambda>s. sv_warehouses s = W) (CommitReservation env g1 now t p w v rid) s"
  "keeps (\<lambda>s. sv_warehouses s = W) (AdjustInventory env g1 now t p w v x) s"
  "keeps (\<lambda>s. sv_warehouses s = W) (TransferStock env gi g1 g2 now t p v sw dw x) s"
  unfolding ReserveStock_def ReleaseReservation_def CommitReservation_def AdjustInventory_def TransferStock_def
  by (intro keeps_intros)+

lemma frame_receive:
  "keeps (\<lambda>s. sv_warehouses s = W) (ReceiveStock env gi g1 now t p w v x) s"
  unfolding ReceiveStock_def
  by (intro keeps_intros) (auto simp: keeps_def or_reject_def split: prod.splits sum.splits)

lemma warehouses_same:
  "warehouses_ok s \<Longrightarrow> keeps (\<lambda>s'. sv_warehouses s' = sv_warehouses s) f s \<Longrightarrow> warehouses_ok (snd (f s))"
  by (simp add: warehouses_ok_def keeps_def)

lemma handle_warehouses: "warehouses_ok s \<Longrightarrow> warehouses_ok (snd (inventory_handle env req s))"
  using keepsD [OF warehouses_register] keepsD [OF warehouses_deactivate]
  by (cases req) (simp_all add: warehouses_same frame_use_cases frame_receive)

interpretation inv_warehouses: invariant_object warehouses_ok "\<lambda>_. True" "inventory_handle env" for env
  by unfold_locales (rule handle_warehouses)

definition empty_inventory :: "'b inventory_service" where
  "empty_inventory = \<lparr>sv_items = [], sv_warehouses = [], sv_outbox = []\<rparr>"

lemma empty_inventory_ok: "service_ok empty_inventory" "warehouses_ok empty_inventory"
  by (simp_all add: service_ok_def warehouses_ok_def empty_inventory_def rows_of_def bucket_def)

lemma reachable_service:
  "service_ok (runs (inventory_handle env) reqs empty_inventory)"
  "warehouses_ok (runs (inventory_handle env) reqs empty_inventory)"
  by (simp_all add: inv_service.runs_inv inv_warehouses.runs_inv empty_inventory_ok list_all_iff)

subsection \<open>Properties\<close>

text \<open>
  C19: whatever requests a service receives, with whatever inputs, every stored item keeps its figures
  consistent: no oversold stock, and a reserved figure that is the sum of the live reservations.
\<close>

theorem stored_items_consistent:
  "list_all item_ok (rows_of tenant (sv_items (runs (inventory_handle env) reqs empty_inventory)))"
  using reachable_service(1) [of env reqs] store_all_row
  unfolding service_ok_def list_all_iff by blast

text \<open>
  C21: a request that returns an error has changed nothing: neither the stock, nor the warehouses, nor
  the outbox.
\<close>

theorem error_leaves_service_unchanged:
  "s = runs (inventory_handle env) reqs empty_inventory \<Longrightarrow>
     inventory_handle env req s = (Inr (Inl e), s') \<Longrightarrow> s' = s"
  using reachable_service [of env reqs] inventory_handle_clean [of s env req]
  by (auto simp: warehouses_ok_def dest: cleanD)

definition sample_env :: "unit inventory_env" where
  "sample_env = \<lparr>en_serialize = \<lambda>_. (''json'', ()), en_producer = None,
     en_context = \<lparr>cx_correlationId = ''c'', cx_causationId = ''c'', cx_tenantId = None\<rparr>\<rparr>"

lemma sample_reserve_unknown:
  "inventory_handle sample_env (ReqReserve ''g1'' ''g2'' 1 ''t'' ''p'' ''w'' None (jint 1) ''o'') empty_inventory
     = (Inr (Inl item_not_found), empty_inventory)"
  by code_simp

lemma error_leaves_service_unchanged_witness:
  "snd (inventory_handle sample_env (ReqReserve ''g1'' ''g2'' 1 ''t'' ''p'' ''w'' None (jint 1) ''o'') empty_inventory)
     = empty_inventory"
  using error_leaves_service_unchanged [of empty_inventory sample_env "[]"
      "ReqReserve ''g1'' ''g2'' 1 ''t'' ''p'' ''w'' None (jint 1) ''o''" item_not_found empty_inventory]
    sample_reserve_unknown
  by simp

text \<open>
  a request of one tenant leaves the rows of every other tenant as they were.
\<close>

lemma requests_isolate_tenants:
  "request_tenant req \<noteq> other \<Longrightarrow>
     bucket other (sv_items (snd (inventory_handle env req s))) = bucket other (sv_items s) \<and>
     bucket other (sv_warehouses (snd (inventory_handle env req s))) = bucket other (sv_warehouses s)"
  using view_handle [of req other env s] by (simp add: tenant_view_def)

lemma requests_isolate_tenants_witness:
  "bucket ''u'' (sv_items (snd (inventory_handle sample_env
      (ReqReceive ''i'' ''e'' 1 ''t'' ''p'' ''w'' None (jint 5)) empty_inventory))) = []"
  using requests_isolate_tenants [of "ReqReceive ''i'' ''e'' 1 ''t'' ''p'' ''w'' None (jint 5)" "''u''"
      sample_env empty_inventory]
  by (simp add: empty_inventory_def bucket_def)

text \<open>
  C20: a transfer between two warehouses that succeeds conserves the tenant's stock on hand, given
  that a generated id names no existing item.
\<close>

theorem transfer_conserves_stock:
  "s = runs (inventory_handle env) reqs empty_inventory \<Longrightarrow>
     find_row tenant genId (sv_items s) = None \<Longrightarrow>
     TransferStock env genId g1 g2 now tenant product variant src dst qty s = (Inr (Inr r), s') \<Longrightarrow>
     stored_on_hand tenant s' = stored_on_hand tenant s"
  using transfer_conserves reachable_service(1) by blast

lemma transfer_conserves_stock_witness:
  "let s = runs (inventory_handle sample_env) [ReqReceive ''i'' ''e'' 1 ''t'' ''p'' ''w'' None (jint 5)] empty_inventory in
     (case TransferStock sample_env ''i2'' ''e1'' ''e2'' 2 ''t'' ''p'' None ''w'' ''x'' (jint 2) s of
       (r, s') \<Rightarrow> stored_on_hand ''t'' s' = stored_on_hand ''t'' s)"
proof -
  let ?s = "runs (inventory_handle sample_env) [ReqReceive ''i'' ''e'' 1 ''t'' ''p'' ''w'' None (jint 5)] empty_inventory"
  have 1: "find_row ''t'' ''i2'' (sv_items ?s) = None" by code_simp
  have 2: "fst (TransferStock sample_env ''i2'' ''e1'' ''e2'' 2 ''t'' ''p'' None ''w'' ''x'' (jint 2) ?s) = Inr (Inr (3, 2))"
    by code_simp
  show ?thesis
    using transfer_conserves_stock [OF refl 1, of "''e1''" "''e2''" 2 "''p''" None "''w''" "''x''" "jint 2" "(3, 2)"] 2
    unfolding Let_def by (simp add: split_beta prod_eq_iff)
qed

text \<open>the codes of a tenant's warehouses stay distinct.\<close>

lemma warehouse_codes_distinct:
  "distinct (map wh_code (rows_of tenant (sv_warehouses (runs (inventory_handle env) reqs empty_inventory))))"
  using reachable_service(2) [of env reqs] by (simp add: warehouses_ok_def)

end
