(* ===== verification/Orders.thy ===== *)
theory Orders
  imports Kernel Lifecycle
begin

section \<open>Orders\<close>

text \<open>
  services/orders/src/domain. The status of an order is the type of the last entry of its append-only
  history; two lifecycles share the table, the legacy one that starts at \<open>placed\<close> and the checkout
  one that starts at \<open>created\<close>. A method that records an entry and then fails to build its event
  (the total cannot be computed) throws with the entry already in the history, which the actions
  keep. Amounts of the totals snapshot and quantities arrive unvalidated, as \<open>js_number\<close>.
\<close>

subsection \<open>Statuses and the transition table (order-event.ts, refund-policy.ts)\<close>

datatype order_event_type =
    OPlaced | OPaid | ORefunded | OCreated | OConfirmed | OCancelled | OHeld | OResumed
  | OAwaitingPayment | OPaymentRequested | OPaymentReceived | OPaymentFailed
  | OReadyForFulfillment | OFulfillmentRequested | OFulfilled | OPartiallyFulfilled | ODelivered
  | OReturnRequested | OReturned | ORefundRequested | OClosed

fun order_type_name :: "order_event_type \<Rightarrow> string" where
  "order_type_name OPlaced = ''placed''"
| "order_type_name OPaid = ''paid''"
| "order_type_name ORefunded = ''refunded''"
| "order_type_name OCreated = ''created''"
| "order_type_name OConfirmed = ''confirmed''"
| "order_type_name OCancelled = ''cancelled''"
| "order_type_name OHeld = ''held''"
| "order_type_name OResumed = ''resumed''"
| "order_type_name OAwaitingPayment = ''awaiting_payment''"
| "order_type_name OPaymentRequested = ''payment_requested''"
| "order_type_name OPaymentReceived = ''payment_received''"
| "order_type_name OPaymentFailed = ''payment_failed''"
| "order_type_name OReadyForFulfillment = ''ready_for_fulfillment''"
| "order_type_name OFulfillmentRequested = ''fulfillment_requested''"
| "order_type_name OFulfilled = ''fulfilled''"
| "order_type_name OPartiallyFulfilled = ''partially_fulfilled''"
| "order_type_name ODelivered = ''delivered''"
| "order_type_name OReturnRequested = ''return_requested''"
| "order_type_name OReturned = ''returned''"
| "order_type_name ORefundRequested = ''refund_requested''"
| "order_type_name OClosed = ''closed''"

fun order_transitions :: "order_event_type \<Rightarrow> order_event_type list" where
  "order_transitions OPlaced = [OPaid, OCancelled]"
| "order_transitions OPaid = [ORefunded]"
| "order_transitions ORefunded = []"
| "order_transitions OCreated = [OConfirmed, OCancelled]"
| "order_transitions OConfirmed = [OAwaitingPayment, OHeld, OCancelled]"
| "order_transitions OHeld = [OResumed, OCancelled]"
| "order_transitions OResumed = [OAwaitingPayment]"
| "order_transitions OAwaitingPayment = [OPaymentRequested, OCancelled]"
| "order_transitions OPaymentRequested = [OPaymentReceived, OPaymentFailed, OCancelled]"
| "order_transitions OPaymentFailed = [OPaymentRequested, OCancelled]"
| "order_transitions OPaymentReceived = [OReadyForFulfillment]"
| "order_transitions OReadyForFulfillment = [OFulfillmentRequested]"
| "order_transitions OFulfillmentRequested = [OFulfilled, OPartiallyFulfilled]"
| "order_transitions OPartiallyFulfilled = [OFulfilled]"
| "order_transitions OFulfilled = [ODelivered]"
| "order_transitions ODelivered = [OReturnRequested, OClosed]"
| "order_transitions OReturnRequested = [OReturned]"
| "order_transitions OReturned = [ORefundRequested, OClosed]"
| "order_transitions ORefundRequested = [OClosed]"
| "order_transitions OCancelled = [OClosed]"
| "order_transitions OClosed = []"

definition canTransition :: "order_event_type \<Rightarrow> order_event_type \<Rightarrow> bool" where
  "canTransition from to = (to \<in> set (order_transitions from))"

definition canRefund :: "order_event_type \<Rightarrow> bool" where
  "canRefund st = (st \<in> {OPaid, OPaymentReceived, OReadyForFulfillment, OFulfillmentRequested,
     OPartiallyFulfilled, OFulfilled, ODelivered, OReturned})"

record order_event =
  oh_id :: string
  oh_type :: order_event_type
  oh_occurredAt :: timestamp

subsection \<open>Value objects\<close>

record address_snapshot =
  as_line1 :: string
  as_line2 :: "string option"
  as_city :: string
  as_postalCode :: string
  as_country :: string
  as_recipientName :: "string option"
  as_phone :: "string option"
  as_province :: "string option"

record address_extra =
  ax_recipientName :: "string option"
  ax_phone :: "string option"
  ax_line2 :: "string option"
  ax_province :: "string option"

definition AddressSnapshot_create ::
  "string \<Rightarrow> string \<Rightarrow> string \<Rightarrow> string \<Rightarrow> address_extra option \<Rightarrow> (domain_error, address_snapshot) result" where
  "AddressSnapshot_create line1 city postalCode country extra =
     (let issues = map (\<lambda>(f, v). issue f ''must not be empty'')
            (filter (\<lambda>(f, v). blank v) [(''line1'', line1), (''city'', city), (''country'', country)])
      in if length issues > 0 then Inl (ValidationError ''Invalid address'' issues)
         else Inr \<lparr>as_line1 = line1, as_line2 = Option.bind extra ax_line2, as_city = city,
                as_postalCode = postalCode, as_country = country,
                as_recipientName = Option.bind extra ax_recipientName,
                as_phone = Option.bind extra ax_phone, as_province = Option.bind extra ax_province\<rparr>)"

definition OrderNumber_create :: "string \<Rightarrow> (domain_error, string) result" where
  "OrderNumber_create v = (case againstEmpty v ''orderNumber'' of Inl e \<Rightarrow> Inl e | Inr _ \<Rightarrow> Inr v)"

record order_discount_line =
  od_title :: string
  od_code :: "string option"
  od_discountClass :: string
  od_amountMinor :: js_number

record order_totals =
  ot_subtotalMinor :: js_number
  ot_taxMinor :: js_number
  ot_shippingMinor :: js_number
  ot_discountMinor :: js_number
  ot_totalMinor :: js_number
  ot_currency :: string
  ot_shippingMethod :: "string option"
  ot_shippingName :: "string option"
  ot_taxIncluded :: "bool option"
  ot_shippingDiscountMinor :: "js_number option"
  ot_discounts :: "order_discount_line list option"

definition totals_taxIncluded :: "order_totals \<Rightarrow> bool" where
  "totals_taxIncluded t = (case ot_taxIncluded t of None \<Rightarrow> False | Some b \<Rightarrow> b)"

definition totals_shippingDiscount :: "order_totals \<Rightarrow> js_number" where
  "totals_shippingDiscount t = (case ot_shippingDiscountMinor t of None \<Rightarrow> jint 0 | Some n \<Rightarrow> n)"

definition totals_discounts :: "order_totals \<Rightarrow> order_discount_line list" where
  "totals_discounts t = (case ot_discounts t of None \<Rightarrow> [] | Some ds \<Rightarrow> ds)"

record product_variant =
  pv_variantRef :: string
  pv_sku :: string
  pv_variantTitle :: "string option"

record product_snapshot =
  ps_productId :: string
  ps_name :: string
  ps_unitPrice :: money
  ps_variant :: "product_variant option"

definition ProductSnapshot_create ::
  "string \<Rightarrow> string \<Rightarrow> money \<Rightarrow> product_variant option \<Rightarrow> (domain_error, product_snapshot) result" where
  "ProductSnapshot_create productId name unitPrice variant =
     (let issues =
        (if blank productId then [issue ''productId'' ''must not be empty''] else []) @
        (if blank name then [issue ''name'' ''must not be empty''] else [])
      in if length issues > 0 then Inl (ValidationError ''Invalid product snapshot'' issues)
         else Inr \<lparr>ps_productId = productId, ps_name = name, ps_unitPrice = unitPrice, ps_variant = variant\<rparr>)"

record order_item =
  oi_id :: string
  oi_snapshot :: product_snapshot
  oi_quantity :: js_number

definition lineTotal :: "order_item \<Rightarrow> (domain_error, money) result" where
  "lineTotal i = Money_times (ps_unitPrice (oi_snapshot i)) (oi_quantity i)"

subsection \<open>The aggregate (order.ts)\<close>

datatype order_domain_event =
    OrderPlaced string string string int int
  | OrderPaid string string string string int
  | OrderRefunded string string string int
  | OrderTransitioned string string order_event_type order_event_type

record order = "order_domain_event aggregate" +
  or_orderNumber :: string
  or_customerRef :: string
  or_currency :: string
  or_items :: "order_item list"
  or_shippingAddress :: address_snapshot
  or_history :: "order_event list"
  or_billingAddress :: "address_snapshot option"
  or_totals :: "order_totals option"
  or_checkoutRef :: "string option"
  or_paymentRef :: "string option"
  or_fulfillmentRef :: "string option"

type_synonym order_action = "(domain_error, order, unit) action"

definition order_status :: "order \<Rightarrow> (domain_error, order_event_type) result" where
  "order_status s =
     (if or_history s = [] then Inl (BusinessRuleError ''Order has no history'')
      else Inr (oh_type (last (or_history s))))"

text \<open>\<^verbatim>\<open>items.reduce((acc, item) => acc.plus(item.lineTotal), Money.zero(currency))\<close>\<close>

fun sum_lines :: "money \<Rightarrow> order_item list \<Rightarrow> (domain_error, money) result" where
  "sum_lines acc [] = Inr acc"
| "sum_lines acc (i # is) =
     bind_result (lineTotal i) (\<lambda>t. bind_result (Money_plus acc t) (\<lambda>acc'. sum_lines acc' is))"

definition totalAmount :: "order \<Rightarrow> (domain_error, money) result" where
  "totalAmount s =
     (case or_totals s of
        Some t \<Rightarrow> (case Money_create (ot_totalMinor t) (ot_currency t) of
                     Inl _ \<Rightarrow> Inl (BusinessRuleError ''Corrupt order totals snapshot'')
                   | Inr m \<Rightarrow> Inr m)
      | None \<Rightarrow> bind_result (Money_zero (or_currency s)) (\<lambda>z. sum_lines z (or_items s)))"

definition order_record :: "order_event_type \<Rightarrow> string \<Rightarrow> timestamp \<Rightarrow> order_action" where
  "order_record ty eventId occurredAt = (\<lambda>s.
     case UniqueEntityId_from eventId of
       Inl e \<Rightarrow> (Inl e, s)
     | Inr i \<Rightarrow> (Inr (), s\<lparr>or_history := or_history s @
                  [\<lparr>oh_id = i, oh_type = ty, oh_occurredAt = occurredAt\<rparr>]\<rparr>))"

text \<open>Raising an event whose data carries the total, which is computed first and may throw.\<close>

definition raise_with_total ::
  "string \<Rightarrow> timestamp \<Rightarrow> (order \<Rightarrow> int \<Rightarrow> order_domain_event) \<Rightarrow> order_action" where
  "raise_with_total eventId occurredAt mk =
     bind_action (from_result totalAmount) (\<lambda>m.
       modify (\<lambda>s. addDomainEvent eventId occurredAt (mk s (amountMinor m)) s))"

definition with_status :: "(order_event_type \<Rightarrow> order_action) \<Rightarrow> order_action" where
  "with_status f = bind_action (from_result order_status) f"

definition Order_place ::
  "string \<Rightarrow> string \<Rightarrow> string \<Rightarrow> string \<Rightarrow> order_item list \<Rightarrow> address_snapshot \<Rightarrow> string \<Rightarrow> timestamp \<Rightarrow>
     (domain_error, order) result" where
  "Order_place oid orderNumber customerRef cur items address eventId occurredAt =
     (if length items = 0 then Inl (BusinessRuleError ''An order needs at least one item'')
      else if \<not> isValidCurrencyCode cur
      then Inl (BusinessRuleError (''Invalid order currency \"'' @ cur @ ''\"''))
      else
        (let o0 = \<lparr>agg_id = oid, agg_version = 0, agg_events = [], or_orderNumber = orderNumber,
               or_customerRef = customerRef, or_currency = cur, or_items = items,
               or_shippingAddress = address, or_history = [], or_billingAddress = None,
               or_totals = None, or_checkoutRef = None, or_paymentRef = None, or_fulfillmentRef = None\<rparr>
         in case then_do (order_record OPlaced eventId occurredAt)
                (raise_with_total eventId occurredAt (\<lambda>s total.
                   OrderPlaced orderNumber customerRef cur total (int (length items)))) o0 of
              (Inl e, _) \<Rightarrow> Inl e
            | (Inr _, s) \<Rightarrow> Inr s))"

definition Order_createFromCheckout ::
  "string \<Rightarrow> string \<Rightarrow> string \<Rightarrow> string \<Rightarrow> order_item list \<Rightarrow> address_snapshot \<Rightarrow> address_snapshot \<Rightarrow>
     order_totals \<Rightarrow> string \<Rightarrow> string \<Rightarrow> timestamp \<Rightarrow> (domain_error, order) result" where
  "Order_createFromCheckout oid orderNumber customerRef cur items shipping billing totals checkoutRef
      eventId occurredAt =
     (if length items = 0 then Inl (BusinessRuleError ''An order needs at least one item'')
      else if \<not> isValidCurrencyCode cur
      then Inl (BusinessRuleError (''Invalid order currency \"'' @ cur @ ''\"''))
      else
        (let o0 = \<lparr>agg_id = oid, agg_version = 0, agg_events = [], or_orderNumber = orderNumber,
               or_customerRef = customerRef, or_currency = cur, or_items = items,
               or_shippingAddress = shipping, or_history = [], or_billingAddress = Some billing,
               or_totals = Some totals, or_checkoutRef = Some checkoutRef, or_paymentRef = None,
               or_fulfillmentRef = None\<rparr>
         in case then_do (order_record OCreated eventId occurredAt)
                (modify (addDomainEvent eventId occurredAt
                   (OrderTransitioned orderNumber customerRef OCreated OCreated))) o0 of
              (Inl e, _) \<Rightarrow> Inl e
            | (Inr _, s) \<Rightarrow> Inr s))"

record order_extra =
  ex_billingAddress :: "address_snapshot option"
  ex_totals :: "order_totals option"
  ex_checkoutRef :: "string option"
  ex_paymentRef :: "string option"
  ex_fulfillmentRef :: "string option"

definition Order_reconstitute ::
  "string \<Rightarrow> string \<Rightarrow> string \<Rightarrow> string \<Rightarrow> order_item list \<Rightarrow> address_snapshot \<Rightarrow> order_event list \<Rightarrow> int \<Rightarrow>
     order_extra \<Rightarrow> (domain_error, order) result" where
  "Order_reconstitute oid orderNumber customerRef cur items shipping history version extra =
     (if length history = 0
      then Inl (BusinessRuleError ''A persisted order must have at least one history entry'')
      else Inr \<lparr>agg_id = oid, agg_version = version, agg_events = [], or_orderNumber = orderNumber,
             or_customerRef = customerRef, or_currency = cur, or_items = items,
             or_shippingAddress = shipping, or_history = history,
             or_billingAddress = ex_billingAddress extra, or_totals = ex_totals extra,
             or_checkoutRef = ex_checkoutRef extra, or_paymentRef = ex_paymentRef extra,
             or_fulfillmentRef = ex_fulfillmentRef extra\<rparr>)"

definition cannot_be_paid :: "order_event_type \<Rightarrow> domain_error" where
  "cannot_be_paid st = BusinessRuleError (''Order cannot be paid from status \"'' @ order_type_name st @ ''\"'')"

definition order_markPaid :: "string \<Rightarrow> string \<Rightarrow> timestamp \<Rightarrow> order_action" where
  "order_markPaid paymentRef eventId occurredAt =
     with_status (\<lambda>st.
       if st \<noteq> OPlaced then throw (cannot_be_paid st)
       else then_do (order_record OPaid eventId occurredAt)
              (raise_with_total eventId occurredAt (\<lambda>s total.
                 OrderPaid (or_orderNumber s) (or_customerRef s) paymentRef (or_currency s) total)))"

definition order_transition :: "order_event_type \<Rightarrow> string \<Rightarrow> timestamp \<Rightarrow> order_action" where
  "order_transition toStatus eventId occurredAt =
     with_status (\<lambda>fromStatus.
       if \<not> canTransition fromStatus toStatus
       then throw (BusinessRuleError (''Cannot transition order from \"'' @ order_type_name fromStatus @
              ''\" to \"'' @ order_type_name toStatus @ ''\"''))
       else then_do (order_record toStatus eventId occurredAt)
              (modify (\<lambda>s. addDomainEvent eventId occurredAt
                 (OrderTransitioned (or_orderNumber s) (or_customerRef s) fromStatus toStatus) s)))"

definition order_completePayment :: "string \<Rightarrow> string \<Rightarrow> timestamp \<Rightarrow> order_action" where
  "order_completePayment paymentRef eventId occurredAt =
     with_status (\<lambda>st.
       if st = OPlaced then order_markPaid paymentRef eventId occurredAt
       else if canTransition st OPaymentReceived
       then then_do (order_transition OPaymentReceived eventId occurredAt)
              (modify (\<lambda>s. s\<lparr>or_paymentRef := Some paymentRef\<rparr>))
       else throw (cannot_be_paid st))"

definition order_refund :: "string \<Rightarrow> timestamp \<Rightarrow> order_action" where
  "order_refund eventId occurredAt =
     with_status (\<lambda>st.
       if \<not> canRefund st
       then throw (BusinessRuleError (''Order is not refundable from status \"'' @ order_type_name st @ ''\"''))
       else then_do (order_record ORefunded eventId occurredAt)
              (raise_with_total eventId occurredAt (\<lambda>s total.
                 OrderRefunded (or_orderNumber s) (or_customerRef s) (or_currency s) total)))"

definition order_requestPayment :: "string \<Rightarrow> string \<Rightarrow> timestamp \<Rightarrow> order_action" where
  "order_requestPayment paymentRef eventId occurredAt =
     then_do (order_transition OPaymentRequested eventId occurredAt)
       (modify (\<lambda>s. s\<lparr>or_paymentRef := Some paymentRef\<rparr>))"

definition order_requestFulfillment :: "string \<Rightarrow> string \<Rightarrow> timestamp \<Rightarrow> order_action" where
  "order_requestFulfillment fulfillmentRef eventId occurredAt =
     then_do (order_transition OFulfillmentRequested eventId occurredAt)
       (modify (\<lambda>s. s\<lparr>or_fulfillmentRef := Some fulfillmentRef\<rparr>))"

text \<open>The named methods delegate to \<open>transition\<close>.\<close>

definition order_confirm :: "string \<Rightarrow> timestamp \<Rightarrow> order_action" where
  "order_confirm = order_transition OConfirmed"

definition order_cancel :: "string \<Rightarrow> timestamp \<Rightarrow> order_action" where
  "order_cancel = order_transition OCancelled"

definition order_hold :: "string \<Rightarrow> timestamp \<Rightarrow> order_action" where
  "order_hold = order_transition OHeld"

definition order_resume :: "string \<Rightarrow> timestamp \<Rightarrow> order_action" where
  "order_resume = order_transition OResumed"

definition order_markAwaitingPayment :: "string \<Rightarrow> timestamp \<Rightarrow> order_action" where
  "order_markAwaitingPayment = order_transition OAwaitingPayment"

definition order_markPaymentReceived :: "string \<Rightarrow> timestamp \<Rightarrow> order_action" where
  "order_markPaymentReceived = order_transition OPaymentReceived"

definition order_markPaymentFailed :: "string \<Rightarrow> timestamp \<Rightarrow> order_action" where
  "order_markPaymentFailed = order_transition OPaymentFailed"

definition order_markReadyForFulfillment :: "string \<Rightarrow> timestamp \<Rightarrow> order_action" where
  "order_markReadyForFulfillment = order_transition OReadyForFulfillment"

definition order_markFulfilled :: "string \<Rightarrow> timestamp \<Rightarrow> order_action" where
  "order_markFulfilled = order_transition OFulfilled"

definition order_markPartiallyFulfilled :: "string \<Rightarrow> timestamp \<Rightarrow> order_action" where
  "order_markPartiallyFulfilled = order_transition OPartiallyFulfilled"

definition order_markDelivered :: "string \<Rightarrow> timestamp \<Rightarrow> order_action" where
  "order_markDelivered = order_transition ODelivered"

definition order_requestReturn :: "string \<Rightarrow> timestamp \<Rightarrow> order_action" where
  "order_requestReturn = order_transition OReturnRequested"

definition order_markReturned :: "string \<Rightarrow> timestamp \<Rightarrow> order_action" where
  "order_markReturned = order_transition OReturned"

definition order_requestRefund :: "string \<Rightarrow> timestamp \<Rightarrow> order_action" where
  "order_requestRefund = order_transition ORefundRequested"

definition order_close :: "string \<Rightarrow> timestamp \<Rightarrow> order_action" where
  "order_close = order_transition OClosed"

subsection \<open>Derived statuses (order-statuses.ts)\<close>

datatype order_payment_status = PayPending | PayPaid | PayRefunded | PayVoided

definition isOpenOrder :: "order_event list \<Rightarrow> bool" where
  "isOpenOrder history = (\<not> list_ex (\<lambda>h. oh_type h = OCancelled \<or> oh_type h = OClosed) history)"

definition derivePaymentStatus :: "order_event list \<Rightarrow> order_payment_status" where
  "derivePaymentStatus history =
     (let types = map oh_type history in
      if list_ex (\<lambda>ty. ty \<in> {ORefunded, ORefundRequested}) types then PayRefunded
      else if list_ex (\<lambda>ty. ty \<in> {OPaid, OPaymentReceived}) types then PayPaid
      else if list_ex (\<lambda>ty. ty = OCancelled) types then PayVoided
      else PayPending)"

subsection \<open>Sequences of calls\<close>

datatype order_call =
    CallMarkPaid string | CallCompletePayment string | CallRefund | CallTransition order_event_type
  | CallRequestPayment string | CallRequestFulfillment string

fun order_step :: "order_call \<times> string \<times> timestamp \<Rightarrow> order_action" where
  "order_step (CallMarkPaid ref, e, t) = order_markPaid ref e t"
| "order_step (CallCompletePayment ref, e, t) = order_completePayment ref e t"
| "order_step (CallRefund, e, t) = order_refund e t"
| "order_step (CallTransition ty, e, t) = order_transition ty e t"
| "order_step (CallRequestPayment ref, e, t) = order_requestPayment ref e t"
| "order_step (CallRequestFulfillment ref, e, t) = order_requestFulfillment ref e t"

text \<open>The edges an order can move along: the table, and \<open>refund\<close>, which has a policy of its own.\<close>

definition order_edges :: "order_event_type \<Rightarrow> order_event_type list" where
  "order_edges st = order_transitions st @ (if canRefund st then [ORefunded] else [])"

definition history_types :: "order \<Rightarrow> order_event_type list" where
  "history_types s = map oh_type (or_history s)"

definition status_of :: "order \<Rightarrow> order_event_type option" where
  "status_of s = (if or_history s = [] then None else Some (last (history_types s)))"

fun opt_edges :: "order_event_type option \<Rightarrow> order_event_type option list" where
  "opt_edges None = []"
| "opt_edges (Some st) = map Some (order_edges st)"

lemmas order_ops = order_markPaid_def order_completePayment_def order_refund_def order_transition_def
  order_requestPayment_def order_requestFulfillment_def

lemma order_sel_event [simp]:
  fixes s :: order
  shows "or_history (addDomainEvent e t d s) = or_history s"
    "or_totals (addDomainEvent e t d s) = or_totals s"
    "or_items (addDomainEvent e t d s) = or_items s"
    "or_currency (addDomainEvent e t d s) = or_currency s"
  by (simp_all add: addDomainEvent_def)

lemma order_status_Inr_iff:
  "order_status s = Inr st \<longleftrightarrow> or_history s \<noteq> [] \<and> st = last (history_types s)"
  by (auto simp: order_status_def history_types_def last_map)

lemma with_status_cases:
  "with_status f s = (if or_history s = [] then (Inl (BusinessRuleError ''Order has no history''), s)
     else f (last (history_types s)) s)"
  by (simp add: with_status_def bind_action_apply order_status_def history_types_def last_map)

text \<open>
  An action grows the history by at most one entry, along an edge. \<open>order_record\<close> grows it by its
  own entry or, for a blank event id, not at all; what may follow it leaves the history alone.
\<close>

definition grows :: "order \<Rightarrow> order \<Rightarrow> bool" where
  "grows s t \<longleftrightarrow> or_items t = or_items s \<and> or_totals t = or_totals s \<and> or_currency t = or_currency s \<and>
     (or_history t = or_history s \<or>
      (or_history s \<noteq> [] \<and> (\<exists>h. or_history t = or_history s @ [h] \<and>
         oh_type h \<in> set (order_edges (last (history_types s))))))"

lemma grows_refl [simp]: "grows s s"
  by (simp add: grows_def)

lemma record_then_grows:
  assumes "or_history s \<noteq> []" and "ty \<in> set (order_edges (last (history_types s)))"
    and g: "\<And>s'. or_history (snd (g s')) = or_history s' \<and> or_items (snd (g s')) = or_items s' \<and>
      or_totals (snd (g s')) = or_totals s' \<and> or_currency (snd (g s')) = or_currency s'"
  shows "grows s (snd (then_do (order_record ty e t) g s))"
  using assms by (auto simp: grows_def then_do_apply order_record_def split: sum.splits)

lemma raise_with_total_frame:
  "or_history (snd (raise_with_total e t mk s)) = or_history s \<and> or_items (snd (raise_with_total e t mk s)) = or_items s \<and>
   or_totals (snd (raise_with_total e t mk s)) = or_totals s \<and> or_currency (snd (raise_with_total e t mk s)) = or_currency s"
  by (auto simp: raise_with_total_def bind_action_apply split: sum.splits)

lemma transition_grows: "grows s (snd (order_transition ty e t s))"
  by (auto simp: order_transition_def with_status_cases canTransition_def order_edges_def
      intro!: record_then_grows)

lemma then_modify_grows:
  assumes "grows s (snd (f s))"
    and "\<And>s'. or_history (h s') = or_history s' \<and> or_items (h s') = or_items s' \<and>
      or_totals (h s') = or_totals s' \<and> or_currency (h s') = or_currency s'"
  shows "grows s (snd (then_do f (modify h) s))"
  using assms by (auto simp: then_do_apply grows_def split: prod.splits sum.splits)

lemma markPaid_grows: "grows s (snd (order_markPaid ref e t s))"
  by (auto simp: order_markPaid_def with_status_cases order_edges_def raise_with_total_frame
      intro!: record_then_grows)

lemma refund_grows: "grows s (snd (order_refund e t s))"
  by (auto simp: order_refund_def with_status_cases order_edges_def raise_with_total_frame
      intro!: record_then_grows)

lemma order_step_grows: "grows s (snd (order_step c s))"
  by (cases c rule: order_step.cases)
    (auto simp: transition_grows markPaid_grows refund_grows order_completePayment_def with_status_cases
      order_requestPayment_def order_requestFulfillment_def intro!: then_modify_grows)

interpretation ord: lifecycle status_of opt_edges order_step
proof unfold_locales
  fix c s
  have "status_of (snd (order_step c s)) = status_of s \<or>
    status_of (snd (order_step c s)) \<in> set (opt_edges (status_of s))"
    using order_step_grows [of s c] by (auto simp: grows_def status_of_def history_types_def)
  then show "(status_of s, status_of (snd (order_step c s))) \<in> (edges opt_edges)\<^sup>*" by auto
qed

subsection \<open>What the history can say\<close>

abbreviation before_payment :: "order_event_type set" where
  "before_payment \<equiv> {OPlaced, OCreated, OConfirmed, OHeld, OResumed, OAwaitingPayment,
     OPaymentRequested, OPaymentFailed}"

abbreviation after_payment :: "order_event_type set" where
  "after_payment \<equiv> {OPaid, ORefunded, OPaymentReceived, OReadyForFulfillment, OFulfillmentRequested,
     OPartiallyFulfilled, OFulfilled, ODelivered, OReturnRequested, OReturned, ORefundRequested, OClosed}"

text \<open>
  The three phases of an order: unpaid so far; paid, and then never cancelled; cancelled, and then
  never paid nor refunded.
\<close>

definition phase_ok :: "order_event_type list \<Rightarrow> bool" where
  "phase_ok ts \<longleftrightarrow> ts \<noteq> [] \<and>
     (set ts \<subseteq> before_payment \<or>
      (last ts \<in> after_payment \<and> set ts \<inter> {OPaid, OPaymentReceived} \<noteq> {} \<and> OCancelled \<notin> set ts) \<or>
      (last ts \<in> {OCancelled, OClosed} \<and> OCancelled \<in> set ts \<and>
       set ts \<inter> {OPaid, OPaymentReceived, ORefunded, ORefundRequested} = {}))"

lemma phase_step:
  assumes "phase_ok ts" and e: "ty \<in> set (order_edges (last ts))"
  shows "phase_ok (ts @ [ty])"
proof -
  have l: "last ts \<in> set ts" and ne: "ts \<noteq> []" using assms(1) by (auto simp: phase_ok_def)
  consider (pre) "set ts \<subseteq> before_payment"
    | (post) "last ts \<in> after_payment" "set ts \<inter> {OPaid, OPaymentReceived} \<noteq> {}" "OCancelled \<notin> set ts"
    | (void) "last ts \<in> {OCancelled, OClosed}" "OCancelled \<in> set ts"
        "set ts \<inter> {OPaid, OPaymentReceived, ORefunded, ORefundRequested} = {}"
    using assms(1) unfolding phase_ok_def by blast
  then show ?thesis
  proof cases
    case pre
    with l have "last ts \<in> before_payment" by blast
    with e have "ty \<in> before_payment \<or> ty \<in> {OPaid, OPaymentReceived} \<or> ty = OCancelled"
      by (cases "last ts") (auto simp: order_edges_def canRefund_def)
    with pre show ?thesis by (auto simp: phase_ok_def)
  next
    case post
    with e have "ty \<in> after_payment \<and> ty \<noteq> OCancelled"
      by (cases "last ts") (auto simp: order_edges_def canRefund_def)
    with post show ?thesis unfolding phase_ok_def by auto
  next
    case void
    with e have "ty = OClosed" by (auto simp: order_edges_def canRefund_def)
    with void show ?thesis by (auto simp: phase_ok_def)
  qed
qed

definition order_inv :: "order \<Rightarrow> bool" where
  "order_inv s \<longleftrightarrow> phase_ok (history_types s) \<and> is_path order_edges (history_types s)"

lemma order_step_inv: "order_inv s \<Longrightarrow> order_inv (snd (order_step c s))"
  using order_step_grows [of s c] phase_step [of "history_types s"] is_path_snoc [of order_edges "history_types s"]
  by (auto simp: grows_def order_inv_def history_types_def)

interpretation ord_inv: invariant_object order_inv "\<lambda>_. True" order_step
  by unfold_locales (rule order_step_inv)

lemma place_history: "Order_place i n c cur items a e t = Inr s \<Longrightarrow> history_types s = [OPlaced]"
  by (auto simp: Order_place_def Let_def then_do_apply order_record_def raise_with_total_def
      bind_action_apply history_types_def split: if_splits sum.splits prod.splits)

lemma create_history:
  "Order_createFromCheckout i n c cur items sa ba tot ck e t = Inr s \<Longrightarrow> history_types s = [OCreated]"
  by (auto simp: Order_createFromCheckout_def Let_def then_do_apply order_record_def
      history_types_def split: if_splits sum.splits prod.splits)

text \<open>An order comes from one of the two factories.\<close>

inductive new_order :: "order \<Rightarrow> bool" where
  placed: "Order_place i n c cur items a e t = Inr s \<Longrightarrow> new_order s"
| from_checkout: "Order_createFromCheckout i n c cur items sa ba tot ck e t = Inr s \<Longrightarrow> new_order s"

lemma new_order_history: "new_order s \<Longrightarrow> history_types s = [OPlaced] \<or> history_types s = [OCreated]"
  by (induction rule: new_order.induct) (auto dest: place_history create_history)

lemma new_order_inv: "new_order s \<Longrightarrow> order_inv s"
  by (drule new_order_history) (auto simp: order_inv_def phase_ok_def)

lemma reachable_order_inv: "new_order s \<Longrightarrow> order_inv (runs order_step cs s)"
  by (rule ord_inv.runs_inv [OF new_order_inv]) (simp_all add: list_all_iff)

lemma derive_voided_iff:
  "phase_ok ts \<Longrightarrow> map oh_type h = ts \<Longrightarrow> derivePaymentStatus h = PayVoided \<longleftrightarrow> OCancelled \<in> set ts"
  unfolding phase_ok_def derivePaymentStatus_def Let_def list_ex_iff by auto

lemma derive_paid_or_refunded_iff:
  "phase_ok ts \<Longrightarrow> map oh_type h = ts \<Longrightarrow>
     derivePaymentStatus h \<in> {PayPaid, PayRefunded} \<longleftrightarrow> OPaid \<in> set ts \<or> OPaymentReceived \<in> set ts"
  unfolding phase_ok_def derivePaymentStatus_def Let_def list_ex_iff by auto

subsection \<open>Further facts\<close>

interpretation ord_paid: closed_lifecycle status_of opt_edges order_step "Some ` after_payment"
proof unfold_locales
  fix x y
  assume "x \<in> Some ` after_payment" and y: "y \<in> set (opt_edges x)"
  then obtain st where "x = Some st" "st \<in> after_payment" by blast
  with y show "y \<in> Some ` after_payment" by (auto simp: order_edges_def canRefund_def)
qed

lemma completePayment_ok_status:
  assumes "order_completePayment ref e t s = (Inr u, s1)"
  shows "status_of s1 \<in> Some ` after_payment"
  using assms
  by (auto simp: order_completePayment_def order_markPaid_def order_transition_def with_status_cases
      then_do_apply bind_action_apply order_record_def raise_with_total_def status_of_def history_types_def
      split: if_splits sum.splits prod.splits)

lemma after_payment_not_payable:
  assumes "status_of s = Some st" and "st \<in> after_payment"
  shows "order_completePayment ref e t s = (Inl (cannot_be_paid st), s)"
proof -
  have "or_history s \<noteq> []" "last (history_types s) = st" using assms(1) by (auto simp: status_of_def split: if_splits)
  moreover have "\<not> canTransition st OPaymentReceived" "st \<noteq> OPlaced"
    using assms(2) by (auto simp: canTransition_def)
  ultimately show ?thesis by (simp add: order_completePayment_def with_status_cases)
qed

lemma order_frame:
  "or_items (runs order_step cs s) = or_items s \<and> or_totals (runs order_step cs s) = or_totals s \<and>
   or_currency (runs order_step cs s) = or_currency s"
  using order_step_grows by (induction cs arbitrary: s) (simp_all add: grows_def)

lemma frozen_history:
  "status_of s \<in> {Some OClosed, Some ORefunded} \<Longrightarrow> or_history (runs order_step cs s) = or_history s"
proof (induction cs arbitrary: s)
  case (Cons c cs)
  have "or_history (snd (order_step c s)) = or_history s"
    using order_step_grows [of s c] Cons.prems
    by (auto simp: grows_def status_of_def order_edges_def canRefund_def split: if_splits)
  moreover from this have "status_of (snd (order_step c s)) = status_of s"
    by (simp add: status_of_def history_types_def)
  ultimately show ?case using Cons by simp
qed simp

lemma sum_lines_amount:
  "sum_lines acc is = Inr m \<Longrightarrow>
     m = \<lparr>amountMinor = amountMinor acc +
            sum_list (map (\<lambda>i. amountMinor (ps_unitPrice (oi_snapshot i)) * js_to_int (oi_quantity i)) is),
          currency = currency acc\<rparr>"
proof (induction "is" arbitrary: acc)
  case (Cons i "is")
  then obtain t acc' where t: "lineTotal i = Inr t" and a: "Money_plus acc t = Inr acc'"
    and r: "sum_lines acc' is = Inr m" by (auto simp: bind_result_Inr_iff)
  have "amountMinor t = amountMinor (ps_unitPrice (oi_snapshot i)) * js_to_int (oi_quantity i)"
    using t by (auto simp: lineTotal_def Money_times_Inr_iff)
  with a Cons.IH [OF r] show ?case by (simp add: Money_plus_Inr_iff)
qed simp

lemma place_total:
  assumes "Order_place i n c cur items a e t = Inr s"
  shows "or_items s = items \<and> or_totals s = None \<and> or_currency s = cur \<and>
    totalAmount s = Inr \<lparr>amountMinor =
      sum_list (map (\<lambda>i. amountMinor (ps_unitPrice (oi_snapshot i)) * js_to_int (oi_quantity i)) items),
      currency = cur\<rparr>"
proof -
  have s: "or_items s = items" "or_totals s = None" "or_currency s = cur" "\<exists>m. totalAmount s = Inr m"
    using assms
    by (auto simp: Order_place_def Let_def then_do_apply order_record_def raise_with_total_def
        bind_action_apply totalAmount_def split: if_splits sum.splits prod.splits)
  then obtain m where m: "totalAmount s = Inr m" by blast
  then obtain z where "Money_zero cur = Inr z" "sum_lines z items = Inr m"
    using s by (auto simp: totalAmount_def bind_result_Inr_iff)
  with sum_lines_amount m s show ?thesis by (fastforce simp: Money_zero_Inr_iff)
qed

lemma totalAmount_cong:
  "or_items t = or_items s \<Longrightarrow> or_totals t = or_totals s \<Longrightarrow> or_currency t = or_currency s \<Longrightarrow>
     totalAmount t = totalAmount s"
  by (cases "or_totals s") (simp_all add: totalAmount_def)

text \<open>With a computable total, a call either does nothing or does everything.\<close>

definition whole_step :: "order \<Rightarrow> (domain_error, unit) result \<times> order \<Rightarrow> bool" where
  "whole_step s r = (case r of
      (Inl _, t) \<Rightarrow> t = s
    | (Inr _, t) \<Rightarrow> (\<exists>h d. or_history t = or_history s @ [h] \<and> agg_events t = agg_events s @ [d] \<and>
                      ev_eventId d = oh_id h \<and> ev_occurredAt d = oh_occurredAt h))"

lemma record_raise_whole:
  assumes "totalAmount s = Inr m"
  shows "whole_step s (then_do (order_record ty e t) (raise_with_total e t mk) s)"
proof -
  have "totalAmount (s\<lparr>or_history := h\<rparr>) = Inr m" for h
    using assms totalAmount_cong [of "s\<lparr>or_history := h\<rparr>" s] by simp
  then show ?thesis
    by (auto simp: whole_step_def then_do_apply order_record_def raise_with_total_def bind_action_apply
        UniqueEntityId_from_Inr_iff split: sum.splits)
qed

lemma transition_whole: "whole_step s (order_transition ty e t s)"
  by (auto simp: whole_step_def order_transition_def with_status_cases then_do_apply order_record_def
      UniqueEntityId_from_Inr_iff split: sum.splits)

lemma then_set_whole:
  assumes "whole_step s (f s)"
    and "\<And>s'. or_history (h s') = or_history s' \<and> agg_events (h s') = agg_events s'"
  shows "whole_step s (then_do f (modify h) s)"
  using assms by (auto simp: whole_step_def then_do_apply split: prod.splits sum.splits)

lemma order_step_whole:
  assumes "totalAmount s = Inr m"
  shows "whole_step s (order_step c s)"
proof -
  have stay: "whole_step s (Inl e, s)" for e by (simp add: whole_step_def)
  have mp: "whole_step s (order_markPaid ref e t s)" for ref e t
    using record_raise_whole [OF assms] stay by (simp add: order_markPaid_def with_status_cases)
  show ?thesis
    using record_raise_whole [OF assms] stay mp
    by (cases c rule: order_step.cases)
      (auto simp: transition_whole order_refund_def order_completePayment_def with_status_cases
        order_requestPayment_def order_requestFulfillment_def intro!: then_set_whole)
qed

subsection \<open>Properties\<close>

definition sample_address :: address_snapshot where
  "sample_address = \<lparr>as_line1 = ''1 Main'', as_line2 = None, as_city = ''C'', as_postalCode = [],
     as_country = ''EG'', as_recipientName = None, as_phone = None, as_province = None\<rparr>"

definition sample_item :: order_item where
  "sample_item = \<lparr>oi_id = ''l'', oi_snapshot = \<lparr>ps_productId = ''p'', ps_name = ''n'',
     ps_unitPrice = \<lparr>amountMinor = 250, currency = ''EGP''\<rparr>, ps_variant = None\<rparr>, oi_quantity = jint 2\<rparr>"

definition sample_order :: order where
  "sample_order = (case Order_place ''o'' ''1001'' ''c'' ''EGP'' [sample_item] sample_address ''e0'' 0 of
     Inr s \<Rightarrow> s | Inl _ \<Rightarrow> undefined)"

lemma sample_order_placed:
  "Order_place ''o'' ''1001'' ''c'' ''EGP'' [sample_item] sample_address ''e0'' 0 = Inr sample_order"
proof -
  have "isOk (Order_place ''o'' ''1001'' ''c'' ''EGP'' [sample_item] sample_address ''e0'' 0)" by code_simp
  then show ?thesis unfolding sample_order_def by (simp add: isOk_def split: sum.splits)
qed

lemma sample_order_new: "new_order sample_order"
  by (rule new_order.placed [OF sample_order_placed])

text \<open>
  C6: every two successive entries of the history of an order are an edge of the transition table or an edge to
  \<open>refunded\<close> from a status the refund policy admits (\<open>refund\<close> does not go through the table), through any sequence of calls, and an order that was paid is never cancelled, nor a cancelled one
  paid or refunded.
\<close>

theorem order_history_valid:
  "new_order s \<Longrightarrow>
     (let ts = history_types (runs order_step cs s) in
        is_path order_edges ts \<and>
        \<not> (OCancelled \<in> set ts \<and> (OPaid \<in> set ts \<or> OPaymentReceived \<in> set ts \<or> ORefunded \<in> set ts)))"
  using reachable_order_inv [of s cs] by (auto simp: order_inv_def phase_ok_def Let_def)

lemma order_history_valid_witness:
  "let ts = history_types (runs order_step [(CallMarkPaid ''ref'', ''e1'', 1), (CallTransition OCancelled, ''e2'', 2)] sample_order) in
     is_path order_edges ts \<and>
     \<not> (OCancelled \<in> set ts \<and> (OPaid \<in> set ts \<or> OPaymentReceived \<in> set ts \<or> ORefunded \<in> set ts))"
  by (rule order_history_valid [OF sample_order_new])

text \<open>
  the derived payment status tells the truth: \<open>voided\<close> exactly when the order was cancelled,
  \<open>paid\<close> or \<open>refunded\<close> exactly when a payment was received; in particular a refunded order was paid.
\<close>

lemma payment_status_faithful:
  "new_order s \<Longrightarrow>
     (let h = or_history (runs order_step cs s); ts = map oh_type h in
        (derivePaymentStatus h = PayVoided \<longleftrightarrow> OCancelled \<in> set ts) \<and>
        (derivePaymentStatus h \<in> {PayPaid, PayRefunded} \<longleftrightarrow> OPaid \<in> set ts \<or> OPaymentReceived \<in> set ts))"
proof -
  assume "new_order s"
  then have ok: "phase_ok (map oh_type (or_history (runs order_step cs s)))"
    using reachable_order_inv [of s cs] by (simp add: order_inv_def history_types_def)
  show ?thesis
    unfolding Let_def using derive_voided_iff [OF ok refl] derive_paid_or_refunded_iff [OF ok refl] by blast
qed

lemma payment_status_faithful_witness:
  "let h = or_history (runs order_step [(CallTransition OCancelled, ''e2'', 2)] sample_order); ts = map oh_type h in
     (derivePaymentStatus h = PayVoided \<longleftrightarrow> OCancelled \<in> set ts) \<and>
     (derivePaymentStatus h \<in> {PayPaid, PayRefunded} \<longleftrightarrow> OPaid \<in> set ts \<or> OPaymentReceived \<in> set ts)"
  by (rule payment_status_faithful [OF sample_order_new])

text \<open>
  a payment is completed at most once: after \<open>completePayment\<close> has returned, and after any
  further calls, \<open>completePayment\<close> throws the status error callers recognise and changes nothing.
\<close>

lemma payment_completed_once:
  "order_completePayment ref e t s = (Inr u, s1) \<Longrightarrow>
     (\<exists>st. order_completePayment ref' e' t' (runs order_step cs s1) = (Inl (cannot_be_paid st), runs order_step cs s1))"
  using ord_paid.runs_inv [OF completePayment_ok_status, of ref e t s u s1 cs] after_payment_not_payable
  by (force simp: list_all_iff)

lemma payment_completed_once_witness:
  "\<exists>st. order_completePayment ''r2'' ''e2'' 2 (snd (order_completePayment ''r1'' ''e1'' 1 sample_order)) =
     (Inl (cannot_be_paid st), snd (order_completePayment ''r1'' ''e1'' 1 sample_order))"
proof -
  have "isOk (fst (order_completePayment ''r1'' ''e1'' 1 sample_order))" by code_simp
  then obtain u where "fst (order_completePayment ''r1'' ''e1'' 1 sample_order) = Inr u"
    by (auto simp: isOk_def split: sum.splits)
  then have "order_completePayment ''r1'' ''e1'' 1 sample_order =
      (Inr u, snd (order_completePayment ''r1'' ''e1'' 1 sample_order))" by (simp add: prod_eq_iff)
  from payment_completed_once [OF this, of "''r2''" "''e2''" 2 "[]"] show ?thesis by simp
qed

text \<open>a closed or refunded order is final: no sequence of calls adds to its history.\<close>

lemma closed_order_final:
  "order_status s \<in> {Inr OClosed, Inr ORefunded} \<Longrightarrow> or_history (runs order_step cs s) = or_history s"
  by (rule frozen_history) (auto simp: order_status_Inr_iff status_of_def)

lemma closed_order_final_witness:
  "let s = runs order_step [(CallMarkPaid ''ref'', ''e1'', 1), (CallRefund, ''e2'', 2)] sample_order in
     or_history (runs order_step [(CallTransition OClosed, ''e3'', 3), (CallRefund, ''e4'', 4)] s) = or_history s"
  unfolding Let_def
proof (rule closed_order_final)
  show "order_status (runs order_step [(CallMarkPaid ''ref'', ''e1'', 1), (CallRefund, ''e2'', 2)] sample_order)
    \<in> {Inr OClosed, Inr ORefunded}" by code_simp
qed

text \<open>
  the total of a placed order is the sum of unit price times quantity over its lines, in the
  order's currency, and no call changes it.
\<close>

lemma placed_order_total:
  "Order_place i n c cur items a e t = Inr s \<Longrightarrow>
     totalAmount (runs order_step cs s) = Inr \<lparr>amountMinor =
       sum_list (map (\<lambda>i. amountMinor (ps_unitPrice (oi_snapshot i)) * js_to_int (oi_quantity i)) items),
       currency = cur\<rparr>"
  using place_total [of i n c cur items a e t s] order_frame [of cs s] totalAmount_cong [of "runs order_step cs s" s]
  by simp

lemma placed_order_total_witness:
  "totalAmount (runs order_step [(CallMarkPaid ''ref'', ''e1'', 1)] sample_order) =
     Inr \<lparr>amountMinor = 500, currency = ''EGP''\<rparr>"
  using placed_order_total [OF sample_order_placed, of "[(CallMarkPaid ''ref'', ''e1'', 1)]"]
  by (simp add: sample_item_def)

text \<open>
  calls on an order whose total can be computed are all or nothing: a call that throws changes
  nothing, one that returns appends one history entry and raises one event with its id and time.
\<close>

lemma order_calls_atomic:
  "totalAmount s = Inr m \<Longrightarrow>
     (case order_step c s of
        (Inl _, t) \<Rightarrow> t = s
      | (Inr _, t) \<Rightarrow> (\<exists>h d. or_history t = or_history s @ [h] \<and> agg_events t = agg_events s @ [d] \<and>
           ev_eventId d = oh_id h \<and> ev_occurredAt d = oh_occurredAt h))"
  using order_step_whole [of s m c] by (simp add: whole_step_def)

lemma order_calls_atomic_witness:
  "case order_step (CallRefund, ''e1'', 1) sample_order of
     (Inl _, t) \<Rightarrow> t = sample_order
   | (Inr _, t) \<Rightarrow> (\<exists>h d. or_history t = or_history sample_order @ [h] \<and>
        agg_events t = agg_events sample_order @ [d] \<and> ev_eventId d = oh_id h \<and> ev_occurredAt d = oh_occurredAt h)"
  using place_total [OF sample_order_placed] by (intro order_calls_atomic) (elim conjE)

end
