(* ===== verification/JsConvert.thy ===== *)
theory JsConvert
  imports Prelude JsText JsNumber
begin

section \<open>Conversions between text, numbers and dates\<close>

text \<open>
  \<^verbatim>\<open>Number(text)\<close>, after ECMA-262 StringToNumber: white space around, an empty text, the three radix prefixes,
  signed decimals with fraction and exponent, \<^verbatim>\<open>Infinity\<close>; anything else is NaN. And \<^verbatim>\<open>Date.toISOString\<close>.
\<close>

subsection \<open>Number(text)\<close>

definition digit_value :: "char \<Rightarrow> int" where
  "digit_value c = int (code_unit c) - 48"

definition digits_value :: "string \<Rightarrow> int" where
  "digits_value s = foldl (\<lambda>n c. 10 * n + digit_value c) 0 s"

definition pow10 :: "int \<Rightarrow> rat" where
  "pow10 e = (if 0 \<le> e then 10 ^ nat e else 1 / 10 ^ nat (- e))"

text \<open>A sign in front, then the rest.\<close>

fun signed_rest :: "string \<Rightarrow> bool \<times> string" where
  "signed_rest (c # cs) = (if c = CHR ''-'' then (True, cs) else if c = CHR ''+'' then (False, cs) else (False, c # cs))"
| "signed_rest [] = (False, [])"

fun parse_exponent :: "string \<Rightarrow> int option" where
  "parse_exponent [] = Some 0"
| "parse_exponent (c # cs) =
     (if c = CHR ''e'' \<or> c = CHR ''E''
      then case signed_rest cs of (neg, ds) \<Rightarrow>
        if ds \<noteq> [] \<and> list_all is_digit_char ds then Some (if neg then - digits_value ds else digits_value ds) else None
      else None)"

definition parse_decimal :: "string \<Rightarrow> rat option" where
  "parse_decimal s =
     (let whole = takeWhile is_digit_char s; rest = dropWhile is_digit_char s;
          dot = (rest \<noteq> [] \<and> hd rest = CHR ''.'');
          fraction = (if dot then takeWhile is_digit_char (tl rest) else []);
          tail = (if dot then dropWhile is_digit_char (tl rest) else rest)
      in if whole = [] \<and> fraction = [] then None
         else map_option (\<lambda>e. of_int (digits_value (whole @ fraction)) * pow10 (e - int (length fraction))) (parse_exponent tail))"

definition hex_value :: "char \<Rightarrow> int option" where
  "hex_value c =
     (if is_digit_char c then Some (digit_value c)
      else if 97 \<le> code_unit c \<and> code_unit c \<le> 102 then Some (int (code_unit c) - 87)
      else if 65 \<le> code_unit c \<and> code_unit c \<le> 70 then Some (int (code_unit c) - 55) else None)"

fun radix_value :: "int \<Rightarrow> int \<Rightarrow> string \<Rightarrow> int option" where
  "radix_value b n [] = Some n"
| "radix_value b n (c # cs) =
     (case hex_value c of None \<Rightarrow> None | Some d \<Rightarrow> if d < b then radix_value b (b * n + d) cs else None)"

fun radix_of :: "string \<Rightarrow> int option" where
  "radix_of (z # c # ds) =
     (if z \<noteq> CHR ''0'' \<or> ds = [] then None
      else if c = CHR ''x'' \<or> c = CHR ''X'' then radix_value 16 0 ds
      else if c = CHR ''o'' \<or> c = CHR ''O'' then radix_value 8 0 ds
      else if c = CHR ''b'' \<or> c = CHR ''B'' then radix_value 2 0 ds
      else None)"
| "radix_of _ = None"

text \<open>The nearest double; values from \<open>2 ^ 1024 - 2 ^ 970\<close> on are infinite.\<close>

definition nearest_number :: "rat \<Rightarrow> js_number" where
  "nearest_number q =
     (if \<bar>q\<bar> < of_int safe_limit then JNum (fl q)
      else if 2 ^ 1024 - 2 ^ 970 \<le> \<bar>q\<bar> then JInf (0 < q) else JNum (fl q))"

definition js_parse_number :: "string \<Rightarrow> js_number" where
  "js_parse_number text =
     (let s = trim text in
      if s = [] then jint 0
      else case radix_of s of
        Some n \<Rightarrow> nearest_number (of_int n)
      | None \<Rightarrow>
          (case signed_rest s of (neg, u) \<Rightarrow>
             if u = ''Infinity'' then JInf (\<not> neg)
             else case parse_decimal u of None \<Rightarrow> JNaN | Some q \<Rightarrow> nearest_number (if neg then - q else q)))"

text \<open>\<^verbatim>\<open>Number(undefined)\<close> is NaN.\<close>

definition js_Number :: "string option \<Rightarrow> js_number" where
  "js_Number x = (case x of None \<Rightarrow> JNaN | Some s \<Rightarrow> js_parse_number s)"

definition isFinite :: "js_number \<Rightarrow> bool" where
  "isFinite x = (case x of JNum q \<Rightarrow> True | _ \<Rightarrow> False)"

subsection \<open>What String prints, Number reads\<close>

lemma digit_char_of: "k < 10 \<Longrightarrow> is_digit_char (char_of (48 + k :: nat))"
  by (simp add: is_digit_char_def code_unit_char_of)

lemma show_nat_digits: "list_all is_digit_char (show_nat n)"
proof (induction n rule: show_nat.induct)
  case (1 n)
  then show ?case
    using digit_char_of [of n] digit_char_of [of "n mod 10"] by (subst show_nat.simps) simp
qed

lemma show_nat_nonempty [simp]: "show_nat n \<noteq> []"
  by (subst show_nat.simps) simp

lemma digits_value_snoc: "digits_value (s @ [c]) = 10 * digits_value s + digit_value c"
  by (simp add: digits_value_def)

lemma digits_value_show: "digits_value (show_nat n) = int n"
proof (induction n rule: show_nat.induct)
  case (1 n)
  show ?case
  proof (cases "n < 10")
    case True
    then show ?thesis by (subst show_nat.simps) (simp add: digits_value_def digit_value_def code_unit_char_of)
  next
    case False
    with 1 have "digits_value (show_nat n) = 10 * int (n div 10) + int (n mod 10)"
      by (subst show_nat.simps) (simp add: digits_value_snoc digit_value_def code_unit_char_of)
    then show ?thesis by presburger
  qed
qed

lemma digit_no_space: "is_digit_char c \<Longrightarrow> \<not> is_js_space c"
  by (auto simp: is_digit_char_def is_js_space_def)

text \<open>A text with a character that is no white space is not blank; numerals tell their numbers apart.\<close>

lemma not_blank: "c \<in> set s \<Longrightarrow> \<not> is_js_space c \<Longrightarrow> \<not> blank s"
proof
  assume c: "c \<in> set s" "\<not> is_js_space c" and "blank s"
  then have "trimStart (rev (trimStart s)) = []" by (simp add: blank_def trim_def)
  then have "\<forall>x\<in>set (trimStart s). is_js_space x" by (simp add: trimStart_def dropWhile_eq_Nil_conv)
  moreover have "c \<in> set (trimStart s)"
    using c by (metis trimStart_def set_dropWhileD takeWhile_dropWhile_id UnE set_append set_takeWhileD)
  ultimately show False using c(2) by blast
qed

lemma not_blank_show_nat [simp]: "\<not> blank (s @ show_nat n)"
proof (rule not_blank)
  show "hd (show_nat n) \<in> set (s @ show_nat n)" by simp
  have "is_digit_char (hd (show_nat n))"
    using show_nat_digits [of n] by (simp add: list_all_iff)
  then show "\<not> is_js_space (hd (show_nat n))" by (auto simp: is_digit_char_def is_js_space_def)
qed

lemma show_nat_inj: "show_nat m = show_nat n \<Longrightarrow> m = n"
  by (metis digits_value_show of_nat_eq_iff)

lemma digit_plain:
  "is_digit_char c \<Longrightarrow> c \<noteq> CHR ''-'' \<and> c \<noteq> CHR ''+'' \<and> c \<noteq> CHR ''I'' \<and> c \<noteq> CHR ''x'' \<and> c \<noteq> CHR ''X'' \<and> c \<noteq> CHR ''o'' \<and>
     c \<noteq> CHR ''O'' \<and> c \<noteq> CHR ''b'' \<and> c \<noteq> CHR ''B''"
  by (auto simp: is_digit_char_def code_unit_def)

lemma digits_trim: "list_all is_digit_char s \<Longrightarrow> trim s = s"
proof -
  assume d: "list_all is_digit_char s"
  have "trimStart t = t" if "list_all is_digit_char t" for t
    using that by (cases t) (auto simp: trimStart_def digit_no_space)
  with d show ?thesis by (simp add: trim_def)
qed

lemma digits_decimal:
  assumes "list_all is_digit_char s" "s \<noteq> []"
  shows "parse_decimal s = Some (of_int (digits_value s))"
proof -
  have "\<forall>c\<in>set s. is_digit_char c" using assms(1) by (simp add: list_all_iff)
  then have parts: "takeWhile is_digit_char s = s" "dropWhile is_digit_char s = []" by auto
  show ?thesis using assms(2) by (simp add: parse_decimal_def Let_def pow10_def parts)
qed

lemma digits_no_radix: "list_all is_digit_char s \<Longrightarrow> radix_of s = None"
proof (cases s rule: radix_of.cases)
  case (1 z c ds)
  assume "list_all is_digit_char s"
  with 1 digit_plain [of c] show ?thesis by simp
qed simp_all

lemma Number_of_digits:
  assumes "0 \<le> n" "n < safe_limit"
  shows "js_Number (Some (show_int n)) = jint n"
proof -
  let ?s = "show_nat (nat n)"
  have d: "list_all is_digit_char ?s" by (rule show_nat_digits)
  have sign: "signed_rest ?s = (False, ?s)"
    using d by (cases ?s) (auto dest: digit_plain)
  have inf: "?s \<noteq> ''Infinity''" using d by (auto simp: is_digit_char_def code_unit_def)
  have "nearest_number (of_int n) = jint n" using assms by (simp add: nearest_number_def fl_of_int)
  then show ?thesis
    using assms(1) sign inf
    by (simp add: js_Number_def js_parse_number_def digits_trim [OF d] digits_no_radix [OF d] digits_decimal [OF d]
        digits_value_show show_int_def)
qed

subsection \<open>Date.toISOString\<close>

text \<open>Year, month and day of a day count since 1970-01-01 in the proleptic Gregorian calendar.\<close>

definition civil_date :: "int \<Rightarrow> int \<times> int \<times> int" where
  "civil_date days =
     (let z = days + 719468;
          era = z div 146097;
          doe = z mod 146097;
          yoe = (doe - doe div 1460 + doe div 36524 - doe div 146096) div 365;
          doy = doe - (365 * yoe + yoe div 4 - yoe div 100);
          mp = (5 * doy + 2) div 153;
          m = (if mp < 10 then mp + 3 else mp - 9)
      in (yoe + era * 400 + (if m \<le> 2 then 1 else 0), m, doy - (153 * mp + 2) div 5 + 1))"

definition padded :: "nat \<Rightarrow> int \<Rightarrow> string" where
  "padded width n = (let s = show_int n in replicate (width - length s) (CHR ''0'') @ s)"

definition iso_year :: "int \<Rightarrow> string" where
  "iso_year y =
     (if 0 \<le> y \<and> y \<le> 9999 then padded 4 y
      else if y < 0 then CHR ''-'' # padded 6 (- y) else CHR ''+'' # padded 6 y)"

definition toISOString :: "timestamp \<Rightarrow> string" where
  "toISOString t =
     (let (y, m, d) = civil_date (t div 86400000); ms = t mod 86400000
      in iso_year y @ ''-'' @ padded 2 m @ ''-'' @ padded 2 d @ ''T'' @ padded 2 (ms div 3600000) @ '':'' @
         padded 2 (ms div 60000 mod 60) @ '':'' @ padded 2 (ms div 1000 mod 60) @ ''.'' @ padded 3 (ms mod 1000) @ ''Z'')"

lemma toISOString_leap_day: "toISOString 951782400123 = ''2000-02-29T00:00:00.123Z''"
  by code_simp

end
