(* ===== verification/Payments.thy ===== *)
theory Payments
  imports Kernel Lifecycle JsConvert
begin

section \<open>Payment intents\<close>

text \<open>
  services/payments/src/domain. An intent moves along the table of payment-status.ts, except that
  \<open>refund\<close> and \<open>completeRefund\<close> set the status themselves. Several methods write before they can
  throw (\<open>markCaptured\<close> pushes the charge before the transition is checked, \<open>authorize\<close> transitions
  before the amount is checked, \<open>completeRefund\<close> settles before \<open>remaining\<close> is computed); the actions
  keep that order. Ids and tokens are their strings.
\<close>

subsection \<open>Status (value-objects/payment-status.ts)\<close>

datatype payment_status =
    RequiresPayment | Captured | PFailed | Refunded | PCreated | Processing | Authorized
  | CaptureRequested | PCancelled | Expired | PartiallyRefunded | PClosed

fun payment_status_name :: "payment_status \<Rightarrow> string" where
  "payment_status_name RequiresPayment = ''requires_payment''"
| "payment_status_name Captured = ''captured''"
| "payment_status_name PFailed = ''failed''"
| "payment_status_name Refunded = ''refunded''"
| "payment_status_name PCreated = ''created''"
| "payment_status_name Processing = ''processing''"
| "payment_status_name Authorized = ''authorized''"
| "payment_status_name CaptureRequested = ''capture_requested''"
| "payment_status_name PCancelled = ''cancelled''"
| "payment_status_name Expired = ''expired''"
| "payment_status_name PartiallyRefunded = ''partially_refunded''"
| "payment_status_name PClosed = ''closed''"

fun payment_transitions :: "payment_status \<Rightarrow> payment_status list" where
  "payment_transitions RequiresPayment = [Captured, PFailed]"
| "payment_transitions Captured = [Refunded, PartiallyRefunded, PClosed]"
| "payment_transitions PFailed = [Processing]"
| "payment_transitions Refunded = [PClosed]"
| "payment_transitions PCreated = [Processing, PCancelled]"
| "payment_transitions Processing = [Authorized, PFailed]"
| "payment_transitions Authorized = [CaptureRequested, PCancelled, Expired]"
| "payment_transitions CaptureRequested = [Captured, PFailed]"
| "payment_transitions PCancelled = [PClosed]"
| "payment_transitions Expired = [PClosed]"
| "payment_transitions PartiallyRefunded = [Refunded, PClosed]"
| "payment_transitions PClosed = []"

definition canTransitionPayment :: "payment_status \<Rightarrow> payment_status \<Rightarrow> bool" where
  "canTransitionPayment from to = (to \<in> set (payment_transitions from))"

subsection \<open>Value objects and entities\<close>

definition isWellFormedProviderKey :: "string \<Rightarrow> bool" where
  "isWellFormedProviderKey v =
     (case v of [] \<Rightarrow> False
      | c # cs \<Rightarrow> is_lower_letter c \<and> length cs \<le> 63 \<and>
          list_all (\<lambda>d. is_lower_letter d \<or> is_digit_char d \<or> d = CHR ''_'' \<or> d = CHR ''-'') cs)"

definition PspReference_create :: "string \<Rightarrow> (domain_error, string) result" where
  "PspReference_create v = (case againstEmpty v ''pspReference'' of Inl e \<Rightarrow> Inl e | Inr _ \<Rightarrow> Inr v)"

record payment_method =
  pm_token :: string
  pm_brand :: "string option"

definition PaymentMethod_create :: "string \<Rightarrow> string option \<Rightarrow> (domain_error, payment_method) result" where
  "PaymentMethod_create token brand =
     (case againstEmpty token ''paymentMethodToken'' of
        Inl e \<Rightarrow> Inl e | Inr _ \<Rightarrow> Inr \<lparr>pm_token = token, pm_brand = brand\<rparr>)"

definition PspToken_create :: "string \<Rightarrow> (domain_error, string) result" where
  "PspToken_create v = (case againstEmpty v ''pspToken'' of Inl e \<Rightarrow> Inl e | Inr _ \<Rightarrow> Inr v)"

record provider_capabilities =
  settlesAtPayTime :: bool
  deliversWebhooks :: bool
  requiresMerchantCredentials :: bool
  chargesOffSession :: bool

definition isSettledByOperatorConfirmation :: "provider_capabilities \<Rightarrow> bool" where
  "isSettledByOperatorConfirmation c = (settlesAtPayTime c \<and> \<not> deliversWebhooks c)"

record charge =
  ch_id :: string
  ch_amount :: money
  ch_pspToken :: string
  ch_occurredAt :: timestamp

datatype refund_status = RPending | RCompleted | RFailed

record refund =
  rf_id :: string
  rf_amount :: money
  rf_occurredAt :: timestamp
  rf_status :: refund_status
  rf_idempotencyKey :: "string option"

definition refund_markCompleted :: "refund \<Rightarrow> refund" where
  "refund_markCompleted r = r\<lparr>rf_status := RCompleted\<rparr>"

definition refund_markFailed :: "refund \<Rightarrow> refund" where
  "refund_markFailed r = r\<lparr>rf_status := RFailed\<rparr>"

datatype attempt_kind = AuthorizeAttempt | CaptureAttempt | RefundAttempt | WebhookAttempt
datatype attempt_outcome = AttemptSucceeded | AttemptFailed

record payment_attempt =
  pa_id :: string
  pa_kind :: attempt_kind
  pa_outcome :: attempt_outcome
  pa_occurredAt :: timestamp
  pa_reference :: "string option"

datatype refund_state = RefundRequested | RefundCompleted | RefundFailed

datatype payment_event =
    PaymentCaptured string int string
  | PaymentFailed string string
  | PaymentRefunded string int string
  | PaymentTransitioned string payment_status payment_status
  | PaymentWebhookReceived string string string
  | RefundTransitioned string int string refund_state

subsection \<open>The aggregate (payment-intent.ts)\<close>

record payment_intent = "payment_event aggregate" +
  pi_orderRef :: string
  pi_amount :: money
  pi_provider :: string
  pi_providerTransactionRef :: "string option"
  pi_status :: payment_status
  pi_charges :: "charge list"
  pi_refunds :: "refund list"
  pi_attempts :: "payment_attempt list"
  pi_pspReference :: "string option"
  pi_paymentMethod :: "payment_method option"
  pi_authorizedAmount :: "money option"

type_synonym 'a pay_action = "(domain_error, payment_intent, 'a) action"

definition new_intent :: "payment_status \<Rightarrow> string \<Rightarrow> string \<Rightarrow> money \<Rightarrow> string \<Rightarrow> payment_intent" where
  "new_intent st pid orderRef amount provider =
     \<lparr>agg_id = pid, agg_version = 0, agg_events = [], pi_orderRef = orderRef, pi_amount = amount,
      pi_provider = provider, pi_providerTransactionRef = None, pi_status = st, pi_charges = [],
      pi_refunds = [], pi_attempts = [], pi_pspReference = None, pi_paymentMethod = None,
      pi_authorizedAmount = None\<rparr>"

definition PaymentIntent_create :: "string \<Rightarrow> string \<Rightarrow> money \<Rightarrow> string \<Rightarrow> payment_intent" where
  "PaymentIntent_create = new_intent RequiresPayment"

definition PaymentIntent_createIntent :: "string \<Rightarrow> string \<Rightarrow> money \<Rightarrow> string \<Rightarrow> payment_intent" where
  "PaymentIntent_createIntent = new_intent PCreated"

record payment_extra =
  px_provider :: string
  px_providerTransactionRef :: "string option"
  px_attempts :: "payment_attempt list option"
  px_pspReference :: "string option"
  px_paymentMethod :: "payment_method option"
  px_authorizedAmount :: "money option"

definition PaymentIntent_reconstitute ::
  "string \<Rightarrow> string \<Rightarrow> money \<Rightarrow> payment_status \<Rightarrow> charge list \<Rightarrow> refund list \<Rightarrow> int \<Rightarrow> payment_extra \<Rightarrow> payment_intent" where
  "PaymentIntent_reconstitute pid orderRef amount st charges refunds version extra =
     \<lparr>agg_id = pid, agg_version = version, agg_events = [], pi_orderRef = orderRef, pi_amount = amount,
      pi_provider = px_provider extra, pi_providerTransactionRef = px_providerTransactionRef extra,
      pi_status = st, pi_charges = charges, pi_refunds = refunds,
      pi_attempts = (case px_attempts extra of None \<Rightarrow> [] | Some xs \<Rightarrow> xs),
      pi_pspReference = px_pspReference extra, pi_paymentMethod = px_paymentMethod extra,
      pi_authorizedAmount = px_authorizedAmount extra\<rparr>"

text \<open>\<^verbatim>\<open>remaining()\<close>: captured minus refunded or reserved.\<close>

definition pay_remaining :: "payment_intent \<Rightarrow> (domain_error, money) result" where
  "pay_remaining s =
     bind_result (Money_zero (currency (pi_amount s))) (\<lambda>z.
     bind_result (Money_sum z (map ch_amount (pi_charges s))) (\<lambda>captured.
       Money_diff captured (map rf_amount (filter (\<lambda>r. rf_status r \<noteq> RFailed) (pi_refunds s)))))"

definition pay_raise :: "string \<Rightarrow> timestamp \<Rightarrow> (payment_intent \<Rightarrow> payment_event) \<Rightarrow> unit pay_action" where
  "pay_raise eventId occurredAt mk = modify (\<lambda>s. addDomainEvent eventId occurredAt (mk s) s)"

definition recordAttempt ::
  "attempt_kind \<Rightarrow> attempt_outcome \<Rightarrow> timestamp \<Rightarrow> string option \<Rightarrow> unit pay_action" where
  "recordAttempt kind outcome occurredAt reference =
     bind_action (from_result (\<lambda>s. UniqueEntityId_from (agg_id s @ show_nat (length (pi_attempts s))))) (\<lambda>aid.
       modify (\<lambda>s. s\<lparr>pi_attempts := pi_attempts s @
         [\<lparr>pa_id = aid, pa_kind = kind, pa_outcome = outcome, pa_occurredAt = occurredAt,
           pa_reference = reference\<rparr>]\<rparr>))"

definition push_charge :: "string \<Rightarrow> (payment_intent \<Rightarrow> money) \<Rightarrow> string \<Rightarrow> timestamp \<Rightarrow> unit pay_action" where
  "push_charge eventId amount token occurredAt =
     bind_action (from_result (\<lambda>_. UniqueEntityId_from eventId)) (\<lambda>cid.
       modify (\<lambda>s. s\<lparr>pi_charges := pi_charges s @
         [\<lparr>ch_id = cid, ch_amount = amount s, ch_pspToken = token, ch_occurredAt = occurredAt\<rparr>]\<rparr>))"

definition pay_capture :: "string \<Rightarrow> string \<Rightarrow> timestamp \<Rightarrow> unit pay_action" where
  "pay_capture pspToken eventId occurredAt =
     then_do (require (\<lambda>s. pi_status s = RequiresPayment) (\<lambda>s. BusinessRuleError
                (''Cannot capture a payment that is '' @ payment_status_name (pi_status s))))
    (then_do (push_charge eventId pi_amount pspToken occurredAt)
    (then_do (modify (\<lambda>s. s\<lparr>pi_status := Captured\<rparr>))
     (pay_raise eventId occurredAt (\<lambda>s.
        PaymentCaptured (pi_orderRef s) (amountMinor (pi_amount s)) (currency (pi_amount s))))))"

definition pay_fail :: "string \<Rightarrow> string \<Rightarrow> timestamp \<Rightarrow> unit pay_action" where
  "pay_fail reason eventId occurredAt =
     then_do (require (\<lambda>s. pi_status s = RequiresPayment) (\<lambda>s. BusinessRuleError
                (''Cannot fail a payment that is '' @ payment_status_name (pi_status s))))
    (then_do (modify (\<lambda>s. s\<lparr>pi_status := PFailed\<rparr>))
     (pay_raise eventId occurredAt (\<lambda>s. PaymentFailed (pi_orderRef s) reason)))"

text \<open>\<^verbatim>\<open>if (amount.isGreaterThan(this.remaining())) throw ...\<close>\<close>

definition refund_guard :: "money \<Rightarrow> unit pay_action" where
  "refund_guard amount =
     bind_action (from_result (\<lambda>s. bind_result (pay_remaining s) (Money_isGreaterThan amount))) (\<lambda>greater.
       if greater then throw (BusinessRuleError ''Refund exceeds the captured amount'') else ret ())"

definition push_refund :: "string \<Rightarrow> money \<Rightarrow> timestamp \<Rightarrow> refund_status \<Rightarrow> string option \<Rightarrow> refund pay_action" where
  "push_refund eventId amount occurredAt st key =
     bind_action (from_result (\<lambda>_. UniqueEntityId_from eventId)) (\<lambda>rid.
       let r = \<lparr>rf_id = rid, rf_amount = amount, rf_occurredAt = occurredAt, rf_status = st,
                rf_idempotencyKey = key\<rparr>
       in then_do (modify (\<lambda>s. s\<lparr>pi_refunds := pi_refunds s @ [r]\<rparr>)) (ret r))"

definition pay_refund :: "money \<Rightarrow> string \<Rightarrow> timestamp \<Rightarrow> unit pay_action" where
  "pay_refund amount eventId occurredAt =
     then_do (require (\<lambda>s. pi_status s = Captured) (\<lambda>s. BusinessRuleError
                (''Cannot refund a payment that is '' @ payment_status_name (pi_status s))))
    (then_do (refund_guard amount)
    (bind_action (push_refund eventId amount occurredAt RCompleted None) (\<lambda>_.
     bind_action (from_result pay_remaining) (\<lambda>rest.
     then_do (modify (\<lambda>s. if Money_isZero rest then s\<lparr>pi_status := Refunded\<rparr> else s))
     (pay_raise eventId occurredAt (\<lambda>s.
        PaymentRefunded (pi_orderRef s) (amountMinor amount) (currency amount)))))))"

definition pay_transition :: "payment_status \<Rightarrow> string \<Rightarrow> timestamp \<Rightarrow> unit pay_action" where
  "pay_transition toStatus eventId occurredAt = (\<lambda>s.
     let fromStatus = pi_status s in
     if \<not> canTransitionPayment fromStatus toStatus
     then (Inl (BusinessRuleError (''Cannot transition payment from \"'' @ payment_status_name fromStatus @
             ''\" to \"'' @ payment_status_name toStatus @ ''\"'')), s)
     else then_do (modify (\<lambda>s. s\<lparr>pi_status := toStatus\<rparr>))
            (pay_raise eventId occurredAt (\<lambda>s. PaymentTransitioned (pi_orderRef s) fromStatus toStatus)) s)"

definition pay_markProcessing :: "string \<Rightarrow> timestamp \<Rightarrow> unit pay_action" where
  "pay_markProcessing = pay_transition Processing"

definition pay_requestCapture :: "string \<Rightarrow> timestamp \<Rightarrow> unit pay_action" where
  "pay_requestCapture = pay_transition CaptureRequested"

definition pay_cancelAuthorization :: "string \<Rightarrow> timestamp \<Rightarrow> unit pay_action" where
  "pay_cancelAuthorization = pay_transition PCancelled"

definition pay_markExpired :: "string \<Rightarrow> timestamp \<Rightarrow> unit pay_action" where
  "pay_markExpired = pay_transition Expired"

definition pay_retry :: "string \<Rightarrow> timestamp \<Rightarrow> unit pay_action" where
  "pay_retry = pay_transition Processing"

definition pay_close :: "string \<Rightarrow> timestamp \<Rightarrow> unit pay_action" where
  "pay_close = pay_transition PClosed"

definition pay_authorize ::
  "string \<Rightarrow> payment_method \<Rightarrow> js_number \<Rightarrow> string \<Rightarrow> timestamp \<Rightarrow> unit pay_action" where
  "pay_authorize pspRef method authorizedMinor eventId occurredAt =
     then_do (pay_transition Authorized eventId occurredAt)
    (then_do (modify (\<lambda>s. s\<lparr>pi_pspReference := Some pspRef, pi_paymentMethod := Some method\<rparr>))
    (bind_action (from_result (\<lambda>s. mapError (\<lambda>_. BusinessRuleError ''Invalid authorized amount'')
                    (Money_create authorizedMinor (currency (pi_amount s))))) (\<lambda>m.
     then_do (modify (\<lambda>s. s\<lparr>pi_authorizedAmount := Some m\<rparr>))
     (recordAttempt AuthorizeAttempt AttemptSucceeded occurredAt None))))"

definition captured_amount :: "payment_intent \<Rightarrow> money" where
  "captured_amount s = (case pi_authorizedAmount s of Some m \<Rightarrow> m | None \<Rightarrow> pi_amount s)"

definition capture_token :: "string \<Rightarrow> payment_intent \<Rightarrow> string" where
  "capture_token eventId s =
     (case pi_paymentMethod s of Some m \<Rightarrow> pm_token m
      | None \<Rightarrow> (case pi_pspReference s of Some r \<Rightarrow> r | None \<Rightarrow> eventId))"

definition pay_markCaptured :: "string \<Rightarrow> timestamp \<Rightarrow> string option \<Rightarrow> unit pay_action" where
  "pay_markCaptured eventId occurredAt integrationEventId = (\<lambda>s0.
     let capturedAmount = captured_amount s0 in
     bind_action (from_result (\<lambda>s. mapError (\<lambda>_. BusinessRuleError ''Invalid PSP token derived at capture time'')
                    (PspToken_create (capture_token eventId s)))) (\<lambda>token.
     then_do (push_charge eventId (\<lambda>_. capturedAmount) token occurredAt)
    (then_do (pay_transition Captured eventId occurredAt)
    (then_do (recordAttempt CaptureAttempt AttemptSucceeded occurredAt None)
     (case integrationEventId of
        None \<Rightarrow> ret ()
      | Some ie \<Rightarrow> pay_raise ie occurredAt (\<lambda>s.
          PaymentCaptured (pi_orderRef s) (amountMinor capturedAmount) (currency capturedAmount)))))) s0)"

definition pay_recordProviderIntent :: "string \<Rightarrow> unit pay_action" where
  "pay_recordProviderIntent providerIntentId = (\<lambda>s.
     case PspReference_create providerIntentId of
       Inl _ \<Rightarrow> (Inl (BusinessRuleError ''Provider returned an empty intent reference''), s)
     | Inr reference \<Rightarrow>
         (case pi_pspReference s of
            Some r \<Rightarrow> if r = providerIntentId then (Inr (), s)
                     else (Inl (BusinessRuleError ''Payment intent already has a different provider reference''), s)
          | None \<Rightarrow> (Inr (), s\<lparr>pi_pspReference := Some reference\<rparr>)))"

text \<open>\<open>nextId k\<close> is what the \<open>k\<close>-th call of \<^verbatim>\<open>nextEventId()\<close> returns, counting from 0.\<close>

definition pay_prepareDirectCapture ::
  "(nat \<Rightarrow> string) \<Rightarrow> timestamp \<Rightarrow> string option \<Rightarrow> unit pay_action" where
  "pay_prepareDirectCapture nextId occurredAt txRef =
     then_do (modify (\<lambda>s. if txRef \<noteq> None \<and> pi_providerTransactionRef s = None
                          then s\<lparr>pi_providerTransactionRef := txRef\<rparr> else s))
     (\<lambda>s. let st = pi_status s in
        if st = CaptureRequested \<or> st = Captured then (Inr (), s)
        else
          (let n1 = (if st = PCreated then 1 else 0) in
           then_do (if st = PCreated then pay_transition Processing (nextId 0) occurredAt else ret ())
             (\<lambda>s1. let n2 = n1 + (if pi_status s1 = Processing then 1 else 0) in
                then_do (if pi_status s1 = Processing then pay_transition Authorized (nextId n1) occurredAt else ret ())
                  (pay_transition CaptureRequested (nextId n2) occurredAt) s1) s))"

definition pay_markFailed :: "string \<Rightarrow> string \<Rightarrow> timestamp \<Rightarrow> unit pay_action" where
  "pay_markFailed reason eventId occurredAt =
     then_do (pay_transition PFailed eventId occurredAt)
       (recordAttempt CaptureAttempt AttemptFailed occurredAt (Some reason))"

definition refund_event :: "money \<Rightarrow> refund_state \<Rightarrow> payment_intent \<Rightarrow> payment_event" where
  "refund_event amount st s = RefundTransitioned (pi_orderRef s) (amountMinor amount) (currency amount) st"

definition reserve_refund :: "money \<Rightarrow> string \<Rightarrow> timestamp \<Rightarrow> string option \<Rightarrow> (refund \<times> bool) pay_action" where
  "reserve_refund amount eventId occurredAt key =
     then_do (refund_guard amount)
    (bind_action (push_refund eventId amount occurredAt RPending key) (\<lambda>r.
     then_do (pay_raise eventId occurredAt (refund_event amount RefundRequested)) (ret (r, True))))"

definition find_key :: "string \<Rightarrow> payment_intent \<Rightarrow> refund option" where
  "find_key key s = List.find (\<lambda>r. rf_idempotencyKey r = Some key) (pi_refunds s)"

definition pay_requestRefund ::
  "money \<Rightarrow> string \<Rightarrow> timestamp \<Rightarrow> string option \<Rightarrow> (refund \<times> bool) pay_action" where
  "pay_requestRefund amount eventId occurredAt idempotencyKey = (\<lambda>s.
     case Option.bind idempotencyKey (\<lambda>k. find_key k s) of
       Some existing \<Rightarrow>
         (if rf_amount existing \<noteq> amount
          then (Inl (BusinessRuleError (''Refund idempotency key \"'' @ the idempotencyKey @
                  ''\" was already used for a different amount'')), s)
          else if rf_status existing = RFailed
          then (Inl (BusinessRuleError (''Refund idempotency key \"'' @ the idempotencyKey @
                  ''\" already failed'')), s)
          else (Inr (existing, False), s))
     | None \<Rightarrow> reserve_refund amount eventId occurredAt idempotencyKey s)"

definition findReservedRefund :: "string \<Rightarrow> payment_intent \<Rightarrow> (domain_error, refund) result" where
  "findReservedRefund refundId s =
     (case List.find (\<lambda>r. rf_id r = refundId) (pi_refunds s) of
        None \<Rightarrow> Inl (BusinessRuleError (''No reserved refund '' @ refundId @ '' on this payment intent''))
      | Some r \<Rightarrow> Inr r)"

definition mark_refund :: "(refund \<Rightarrow> refund) \<Rightarrow> string \<Rightarrow> unit pay_action" where
  "mark_refund f refundId =
     modify (\<lambda>s. s\<lparr>pi_refunds := update_first (\<lambda>r. rf_id r = refundId) f (pi_refunds s)\<rparr>)"

definition pay_completeRefund :: "string \<Rightarrow> string \<Rightarrow> timestamp \<Rightarrow> unit pay_action" where
  "pay_completeRefund refundId eventId occurredAt =
     bind_action (from_result (findReservedRefund refundId)) (\<lambda>r.
     then_do (mark_refund refund_markCompleted refundId)
    (bind_action (from_result pay_remaining) (\<lambda>rest.
     then_do (modify (\<lambda>s. s\<lparr>pi_status := (if Money_isZero rest then Refunded else PartiallyRefunded)\<rparr>))
    (then_do (recordAttempt RefundAttempt AttemptSucceeded occurredAt None)
     (pay_raise eventId occurredAt (refund_event (rf_amount r) RefundCompleted))))))"

definition pay_failRefund :: "string \<Rightarrow> string \<Rightarrow> timestamp \<Rightarrow> string \<Rightarrow> unit pay_action" where
  "pay_failRefund refundId eventId occurredAt reason =
     bind_action (from_result (findReservedRefund refundId)) (\<lambda>r.
     then_do (mark_refund refund_markFailed refundId)
    (then_do (recordAttempt RefundAttempt AttemptFailed occurredAt (Some reason))
     (pay_raise eventId occurredAt (refund_event (rf_amount r) RefundFailed))))"

definition pay_recordWebhook :: "string \<Rightarrow> string \<Rightarrow> string \<Rightarrow> timestamp \<Rightarrow> unit pay_action" where
  "pay_recordWebhook provider kind eventId occurredAt =
     then_do (recordAttempt WebhookAttempt AttemptSucceeded occurredAt (Some kind))
     (pay_raise eventId occurredAt (\<lambda>s. PaymentWebhookReceived (pi_orderRef s) provider kind))"

subsection \<open>Sequences of calls\<close>

datatype pay_call =
    PayCapture string | PayFail string | PayRefund money | PayTransition payment_status
  | PayAuthorize string payment_method js_number | PayMarkCaptured "string option"
  | PayRecordProvider string | PayPrepare "nat \<Rightarrow> string" "string option" | PayMarkFailed string
  | PayRequestRefund money "string option" | PayCompleteRefund string | PayFailRefund string string
  | PayWebhook string string

definition ignore :: "'a pay_action \<Rightarrow> unit pay_action" where
  "ignore f = bind_action f (\<lambda>_. ret ())"

fun pay_step :: "pay_call \<times> string \<times> timestamp \<Rightarrow> unit pay_action" where
  "pay_step (PayCapture tok, e, t) = pay_capture tok e t"
| "pay_step (PayFail reason, e, t) = pay_fail reason e t"
| "pay_step (PayRefund m, e, t) = pay_refund m e t"
| "pay_step (PayTransition st, e, t) = pay_transition st e t"
| "pay_step (PayAuthorize ref pm n, e, t) = pay_authorize ref pm n e t"
| "pay_step (PayMarkCaptured ie, e, t) = pay_markCaptured e t ie"
| "pay_step (PayRecordProvider i, e, t) = pay_recordProviderIntent i"
| "pay_step (PayPrepare nx tx, e, t) = pay_prepareDirectCapture nx t tx"
| "pay_step (PayMarkFailed reason, e, t) = pay_markFailed reason e t"
| "pay_step (PayRequestRefund m key, e, t) = ignore (pay_requestRefund m e t key)"
| "pay_step (PayCompleteRefund rid, e, t) = pay_completeRefund rid e t"
| "pay_step (PayFailRefund rid reason, e, t) = pay_failRefund rid e t reason"
| "pay_step (PayWebhook p k, e, t) = pay_recordWebhook p k e t"

text \<open>
  What the application layer must respect: refund amounts are \<open>Money\<close> values, a capture is only
  recorded where the table allows it, and only pending refunds are settled.
\<close>

fun pay_admits :: "payment_intent \<Rightarrow> pay_call \<times> string \<times> timestamp \<Rightarrow> bool" where
  "pay_admits s (PayRefund m, _, _) = money_ok m"
| "pay_admits s (PayRequestRefund m key, _, _) = money_ok m"
| "pay_admits s (PayMarkCaptured ie, _, _) = canTransitionPayment (pi_status s) Captured"
| "pay_admits s (PayCompleteRefund rid, _, _) =
     (case findReservedRefund rid s of Inl _ \<Rightarrow> True | Inr r \<Rightarrow> rf_status r = RPending)"
| "pay_admits s (PayFailRefund rid reason, _, _) =
     (case findReservedRefund rid s of Inl _ \<Rightarrow> True | Inr r \<Rightarrow> rf_status r = RPending)"
| "pay_admits s _ = True"

definition captured_sum :: "payment_intent \<Rightarrow> int" where
  "captured_sum s = sum_list (map (\<lambda>c. amountMinor (ch_amount c)) (pi_charges s))"

definition live_refund :: "refund \<Rightarrow> int" where
  "live_refund r = (if rf_status r = RFailed then 0 else amountMinor (rf_amount r))"

definition live_refunds :: "payment_intent \<Rightarrow> int" where
  "live_refunds s = sum_list (map live_refund (pi_refunds s))"

definition in_currency :: "string \<Rightarrow> money \<Rightarrow> bool" where
  "in_currency cur m \<longleftrightarrow> money_ok m \<and> currency m = cur"

abbreviation captured_statuses :: "payment_status set" where
  "captured_statuses \<equiv> {Captured, Refunded, PartiallyRefunded, PClosed}"

definition pay_inv :: "payment_intent \<Rightarrow> bool" where
  "pay_inv s \<longleftrightarrow> money_ok (pi_amount s) \<and> pred_option (in_currency (currency (pi_amount s))) (pi_authorizedAmount s) \<and>
     list_all (\<lambda>c. in_currency (currency (pi_amount s)) (ch_amount c)) (pi_charges s) \<and>
     list_all (\<lambda>r. in_currency (currency (pi_amount s)) (rf_amount r)) (pi_refunds s) \<and>
     live_refunds s \<le> captured_sum s \<and> length (pi_charges s) \<le> 1 \<and>
     (pi_charges s \<noteq> [] \<longrightarrow> pi_status s \<in> captured_statuses)"

lemma pay_sel_event [simp]:
  fixes s :: payment_intent
  shows "pi_amount (addDomainEvent e t d s) = pi_amount s"
    "pi_authorizedAmount (addDomainEvent e t d s) = pi_authorizedAmount s"
    "pi_charges (addDomainEvent e t d s) = pi_charges s"
    "pi_refunds (addDomainEvent e t d s) = pi_refunds s"
    "pi_status (addDomainEvent e t d s) = pi_status s"
    "pi_attempts (addDomainEvent e t d s) = pi_attempts s"
    "pi_orderRef (addDomainEvent e t d s) = pi_orderRef s"
    "pi_paymentMethod (addDomainEvent e t d s) = pi_paymentMethod s"
    "pi_pspReference (addDomainEvent e t d s) = pi_pspReference s"
  by (simp_all add: addDomainEvent_def)

lemma recordAttempt_apply [simp]:
  "recordAttempt k oc t ref s = (Inr (), s\<lparr>pi_attempts := pi_attempts s @
     [\<lparr>pa_id = agg_id s @ show_nat (length (pi_attempts s)), pa_kind = k, pa_outcome = oc, pa_occurredAt = t,
       pa_reference = ref\<rparr>]\<rparr>)"
  by (simp add: recordAttempt_def bind_action_apply)

lemma pay_raise_apply [simp]: "pay_raise e t mk s = (Inr (), addDomainEvent e t (mk s) s)"
  by (simp add: pay_raise_def)

text \<open>Under the invariant the remaining amount can always be computed.\<close>

lemma live_refunds_filter:
  "live_refunds s = sum_list (map amountMinor (map rf_amount (filter (\<lambda>r. rf_status r \<noteq> RFailed) (pi_refunds s))))"
proof -
  have "sum_list (map live_refund rs) = sum_list (map (\<lambda>r. amountMinor (rf_amount r)) (filter (\<lambda>r. rf_status r \<noteq> RFailed) rs))"
    for rs by (induction rs) (auto simp: live_refund_def)
  then show ?thesis by (simp add: live_refunds_def comp_def)
qed

lemma pay_remaining_eq:
  assumes "money_ok (pi_amount s)" and "list_all (\<lambda>c. in_currency (currency (pi_amount s)) (ch_amount c)) (pi_charges s)"
    and "list_all (\<lambda>r. in_currency (currency (pi_amount s)) (rf_amount r)) (pi_refunds s)" and "live_refunds s \<le> captured_sum s"
  shows "pay_remaining s = Inr \<lparr>amountMinor = captured_sum s - live_refunds s, currency = currency (pi_amount s)\<rparr>"
proof -
  let ?cur = "currency (pi_amount s)"
  let ?z = "\<lparr>amountMinor = 0, currency = ?cur\<rparr>"
  have z: "Money_zero ?cur = Inr ?z" using assms(1) by (simp add: Money_zero_Inr_iff money_ok_def)
  have c: "Money_sum ?z (map ch_amount (pi_charges s)) = Inr \<lparr>amountMinor = captured_sum s, currency = ?cur\<rparr>"
    using assms(2) Money_sum_same_currency [of "map ch_amount (pi_charges s)" ?z]
    by (auto simp: captured_sum_def comp_def list_all_iff in_currency_def)
  have "Money_diff \<lparr>amountMinor = captured_sum s, currency = ?cur\<rparr>
      (map rf_amount (filter (\<lambda>r. rf_status r \<noteq> RFailed) (pi_refunds s))) =
    Inr \<lparr>amountMinor = captured_sum s - live_refunds s, currency = ?cur\<rparr>"
    using assms(3,4)
    by (subst Money_diff_same_currency)
      (auto simp: live_refunds_filter list_all_iff in_currency_def money_ok_def)
  with z c show ?thesis by (simp add: pay_remaining_def)
qed

lemma pay_inv_remaining:
  "pay_inv s \<Longrightarrow> pay_remaining s =
     Inr \<lparr>amountMinor = captured_sum s - live_refunds s, currency = currency (pi_amount s)\<rparr>"
  by (rule pay_remaining_eq) (auto simp: pay_inv_def)

text \<open>What does not touch the money keeps the invariant when it does not leave the captured statuses.\<close>

lemma pay_inv_frame:
  assumes "pay_inv s" and "pi_amount t = pi_amount s" and "pi_authorizedAmount t = pi_authorizedAmount s"
    and "pi_charges t = pi_charges s" and "pi_refunds t = pi_refunds s"
    and "pi_status t = pi_status s \<or> pi_status t \<in> captured_statuses \<or> pi_status s \<notin> captured_statuses"
  shows "pay_inv t"
  using assms unfolding pay_inv_def captured_sum_def live_refunds_def in_currency_def by auto

lemma transition_cases:
  "pay_transition st e t s =
     (if canTransitionPayment (pi_status s) st
      then (Inr (), addDomainEvent e t (PaymentTransitioned (pi_orderRef s) (pi_status s) st) (s\<lparr>pi_status := st\<rparr>))
      else (Inl (BusinessRuleError (''Cannot transition payment from \"'' @ payment_status_name (pi_status s) @
             ''\" to \"'' @ payment_status_name st @ ''\"'')), s))"
  by (simp add: pay_transition_def then_do_apply Let_def)

lemma captured_closed:
  "a \<in> captured_statuses \<Longrightarrow> canTransitionPayment a b \<Longrightarrow> b \<in> captured_statuses"
  by (auto simp: canTransitionPayment_def)

lemma pay_inv_transition: "pay_inv s \<Longrightarrow> pay_inv (snd (pay_transition st e t s))"
  using captured_closed [of "pi_status s" st]
  by (auto simp: transition_cases elim!: pay_inv_frame)

lemma pay_inv_attempts [simp]:
  "pay_inv (s\<lparr>pi_attempts := xs\<rparr>) = pay_inv s"
  "pay_inv (addDomainEvent e t d s) = pay_inv s"
  "pay_inv (s\<lparr>pi_pspReference := r\<rparr>) = pay_inv s"
  "pay_inv (s\<lparr>pi_paymentMethod := pm\<rparr>) = pay_inv s"
  "pay_inv (s\<lparr>pi_providerTransactionRef := tx\<rparr>) = pay_inv s"
  by (auto simp: pay_inv_def captured_sum_def live_refunds_def in_currency_def)

lemma pay_inv_then:
  assumes "pay_inv (snd (f s))" and "\<And>s'. pay_inv s' \<Longrightarrow> pay_inv (snd (g s'))"
  shows "pay_inv (snd (then_do f g s))"
  using assms by (cases "f s") (auto simp: then_do_apply split: sum.splits)

lemma pay_inv_capture: "pay_inv s \<Longrightarrow> pay_inv (snd (pay_capture tok e t s))"
  by (auto simp: pay_capture_def then_do_apply push_charge_def bind_action_apply pay_inv_def captured_sum_def
      live_refunds_def in_currency_def money_ok_def split: sum.splits)

lemma pay_inv_fail: "pay_inv s \<Longrightarrow> pay_inv (snd (pay_fail reason e t s))"
  by (auto simp: pay_fail_def then_do_apply elim!: pay_inv_frame)

lemma pay_inv_authorize: "pay_inv s \<Longrightarrow> pay_inv (snd (pay_authorize ref pm n e t s))"
proof -
  assume inv: "pay_inv s"
  have auth: "pay_inv (s'\<lparr>pi_authorizedAmount := Some m\<rparr>)"
    if "pay_inv s'" "Money_create n (currency (pi_amount s')) = Inr m" for s' m
    using that by (auto simp: pay_inv_def captured_sum_def live_refunds_def in_currency_def
        Money_create_Inr_iff money_ok_def)
  show ?thesis
    unfolding pay_authorize_def
    by (rule pay_inv_then, rule pay_inv_transition [OF inv], rule pay_inv_then)
      (auto simp: bind_action_apply then_do_apply mapError_def intro!: auth split: sum.splits)
qed

lemma pay_inv_markCaptured:
  assumes inv: "pay_inv s" and can: "canTransitionPayment (pi_status s) Captured"
  shows "pay_inv (snd (pay_markCaptured e t ie s))"
proof -
  have none: "pi_charges s = []"
    using inv can by (cases "pi_status s") (auto simp: pay_inv_def canTransitionPayment_def)
  have cur: "in_currency (currency (pi_amount s)) (captured_amount s)"
    using inv by (cases "pi_authorizedAmount s")
      (auto simp: captured_amount_def pay_inv_def in_currency_def)
  have "pay_inv (s\<lparr>pi_charges := [c], pi_status := Captured\<rparr>)" if "ch_amount c = captured_amount s" for c
    using inv cur none that
    by (auto simp: pay_inv_def captured_sum_def live_refunds_def in_currency_def money_ok_def)
  then show ?thesis
    using can inv none
    by (auto simp: pay_markCaptured_def bind_action_apply then_do_apply push_charge_def transition_cases
        Let_def mapError_def split: sum.splits option.splits)
qed

lemma pay_inv_recordProvider: "pay_inv s \<Longrightarrow> pay_inv (snd (pay_recordProviderIntent i s))"
  by (auto simp: pay_recordProviderIntent_def split: sum.splits option.splits)

lemma pay_inv_prepare: "pay_inv s \<Longrightarrow> pay_inv (snd (pay_prepareDirectCapture nx t tx s))"
  unfolding pay_prepareDirectCapture_def
  by (rule pay_inv_then)
    (auto simp: Let_def pay_inv_transition intro!: pay_inv_then split: if_splits)

lemma pay_inv_markFailed: "pay_inv s \<Longrightarrow> pay_inv (snd (pay_markFailed reason e t s))"
  unfolding pay_markFailed_def by (rule pay_inv_then) (simp_all add: pay_inv_transition)

lemma pay_inv_webhook: "pay_inv s \<Longrightarrow> pay_inv (snd (pay_recordWebhook p k e t s))"
  by (simp add: pay_recordWebhook_def then_do_apply)

text \<open>A refund that the guard lets pass fits into what remains.\<close>

lemma refund_guard_cases:
  assumes "pay_inv s"
  shows "refund_guard m s =
    (if currency m \<noteq> currency (pi_amount s)
     then (Inl (BusinessRuleError ''Cannot operate on money of different currencies''), s)
     else if captured_sum s - live_refunds s < amountMinor m
     then (Inl (BusinessRuleError ''Refund exceeds the captured amount''), s)
     else (Inr (), s))"
  using pay_inv_remaining [OF assms]
  by (auto simp: refund_guard_def bind_action_apply Money_isGreaterThan_def assertSameCurrency_def)

lemma pay_inv_push:
  assumes "pay_inv s" and "money_ok m" and "currency m = currency (pi_amount s)"
    and "amountMinor m \<le> captured_sum s - live_refunds s" and "rf_amount r = m"
  shows "pay_inv (s\<lparr>pi_refunds := pi_refunds s @ [r]\<rparr>)"
  using assms by (auto simp: pay_inv_def captured_sum_def live_refunds_def live_refund_def in_currency_def money_ok_def)

lemma pay_inv_status:
  "pay_inv s \<Longrightarrow> st \<in> captured_statuses \<Longrightarrow> pay_inv (s\<lparr>pi_status := st\<rparr>)"
  by (erule pay_inv_frame) auto

lemma pay_inv_refund: "pay_inv s \<Longrightarrow> money_ok m \<Longrightarrow> pay_inv (snd (pay_refund m e t s))"
  using pay_inv_push [of s m] pay_inv_remaining
  by (auto simp: pay_refund_def then_do_apply refund_guard_cases push_refund_def bind_action_apply Let_def
      intro!: pay_inv_status split: sum.splits)

lemma pay_inv_reserve: "pay_inv s \<Longrightarrow> money_ok m \<Longrightarrow> pay_inv (snd (reserve_refund m e t key s))"
  using pay_inv_push [of s m]
  by (auto simp: reserve_refund_def then_do_apply refund_guard_cases push_refund_def bind_action_apply Let_def
      split: sum.splits)

lemma pay_inv_requestRefund: "pay_inv s \<Longrightarrow> money_ok m \<Longrightarrow> pay_inv (snd (pay_requestRefund m e t key s))"
  by (simp add: pay_requestRefund_def pay_inv_reserve split: option.splits)

lemma pay_inv_mark:
  assumes "pay_inv s" and "findReservedRefund rid s = Inr r" and "rf_status r = RPending"
    and f: "f = refund_markCompleted \<or> f = refund_markFailed"
  shows "pay_inv (snd (mark_refund f rid s))"
proof -
  have r: "List.find (\<lambda>r. rf_id r = rid) (pi_refunds s) = Some r"
    using assms(2) by (auto simp: findReservedRefund_def split: option.splits)
  have amt: "rf_amount (f x) = rf_amount x" for x
    using f by (auto simp: refund_markCompleted_def refund_markFailed_def)
  have inr: "r \<in> set (pi_refunds s)" using find_Some_props [OF r] by simp
  then have nn: "0 \<le> amountMinor (rf_amount r)"
    using assms(1) by (auto simp: pay_inv_def in_currency_def money_ok_def list_all_iff)
  have "live_refund (f r) \<le> live_refund r"
    using f assms(3) nn by (auto simp: live_refund_def refund_markCompleted_def refund_markFailed_def)
  then have "sum_list (map live_refund (update_first (\<lambda>r. rf_id r = rid) f (pi_refunds s))) \<le> live_refunds s"
    using sum_list_update_first [OF r, of live_refund f] by (simp add: live_refunds_def)
  moreover have "list_all (\<lambda>r. in_currency (currency (pi_amount s)) (rf_amount r)) (update_first (\<lambda>r. rf_id r = rid) f (pi_refunds s))"
    using assms(1) amt by (intro list_all_update_first) (auto simp: pay_inv_def list_all_iff)
  ultimately show ?thesis
    using assms(1) by (auto simp: mark_refund_def pay_inv_def captured_sum_def live_refunds_def in_currency_def)
qed

lemma pay_inv_completeRefund:
  assumes "pay_inv s" and "case findReservedRefund rid s of Inl _ \<Rightarrow> True | Inr r \<Rightarrow> rf_status r = RPending"
  shows "pay_inv (snd (pay_completeRefund rid e t s))"
proof (cases "findReservedRefund rid s")
  case (Inr r)
  then have "pay_inv (snd (mark_refund refund_markCompleted rid s))"
    using assms pay_inv_mark [of s rid r refund_markCompleted] by simp
  then show ?thesis
    using Inr pay_inv_remaining
    by (auto simp: pay_completeRefund_def bind_action_apply then_do_apply mark_refund_def
        intro!: pay_inv_status split: sum.splits)
qed (simp add: pay_completeRefund_def bind_action_apply assms)

lemma pay_inv_failRefund:
  assumes "pay_inv s" and "case findReservedRefund rid s of Inl _ \<Rightarrow> True | Inr r \<Rightarrow> rf_status r = RPending"
  shows "pay_inv (snd (pay_failRefund rid e t reason s))"
proof (cases "findReservedRefund rid s")
  case (Inr r)
  then have "pay_inv (snd (mark_refund refund_markFailed rid s))"
    using assms pay_inv_mark [of s rid r refund_markFailed] by simp
  then show ?thesis
    using Inr by (simp add: pay_failRefund_def bind_action_apply then_do_apply mark_refund_def)
qed (simp add: pay_failRefund_def bind_action_apply assms)

lemma snd_ignore [simp]: "snd (ignore f s) = snd (f s)"
  by (simp add: ignore_def bind_action_apply split: prod.splits sum.splits)

lemma pay_step_inv: "pay_inv s \<Longrightarrow> pay_admits s c \<Longrightarrow> pay_inv (snd (pay_step c s))"
  by (cases c rule: pay_step.cases)
    (simp_all add: pay_inv_capture pay_inv_fail pay_inv_refund pay_inv_transition pay_inv_authorize
      pay_inv_markCaptured pay_inv_recordProvider pay_inv_prepare pay_inv_markFailed pay_inv_requestRefund
      pay_inv_completeRefund pay_inv_failRefund pay_inv_webhook)

interpretation payment: guarded_object pay_inv pay_admits pay_step
  by unfold_locales (rule pay_step_inv)

subsection \<open>Status\<close>

definition pay_edges :: "payment_status \<Rightarrow> payment_status list" where
  "pay_edges st = payment_transitions st @ [Refunded, PartiallyRefunded]"

abbreviation moves :: "payment_intent \<Rightarrow> payment_intent \<Rightarrow> bool" where
  "moves s t \<equiv> (pi_status s, pi_status t) \<in> (edges pay_edges)\<^sup>*"

lemma moves_edge: "b \<in> set (pay_edges a) \<Longrightarrow> (a, b) \<in> (edges pay_edges)\<^sup>*"
  by (simp add: r_into_rtrancl)

lemma moves_transition: "moves s (snd (pay_transition st e t s))"
  by (auto simp: transition_cases canTransitionPayment_def pay_edges_def intro!: moves_edge)

lemma moves_then:
  assumes "moves s (snd (f s))" and "\<And>s'. moves s' (snd (g s'))"
  shows "moves s (snd (then_do f g s))"
  using assms by (cases "f s") (auto simp: then_do_apply intro: rtrancl_trans split: sum.splits)

lemma moves_bind:
  assumes "\<And>x. moves s (snd (g x s))"
  shows "moves s (snd (bind_action (from_result q) g s))"
  using assms by (simp add: bind_action_apply split: sum.splits)

lemma moves_pieces:
  "moves s (snd (refund_guard m s))" "moves s (snd (push_refund e m t st key s))"
  "moves s (snd (push_charge e am tok t s))" "moves s (snd (mark_refund f rid s))"
  "moves s (snd (recordAttempt k oc t ref s))" "moves s (snd (pay_raise e t mk s))"
  by (simp_all add: refund_guard_def push_refund_def push_charge_def mark_refund_def bind_action_apply
      then_do_apply Let_def split: sum.splits)

lemma moves_authorize: "moves s (snd (pay_authorize ref pm n e t s))"
  unfolding pay_authorize_def
  by (intro moves_then moves_bind moves_transition moves_pieces) auto

lemma moves_markCaptured: "moves s (snd (pay_markCaptured e t ie s))"
  unfolding pay_markCaptured_def Let_def
  by (intro moves_then moves_bind moves_transition moves_pieces) (auto split: option.splits)

lemma moves_prepare: "moves s (snd (pay_prepareDirectCapture nx t tx s))"
proof -
  have if_moves: "moves u (snd ((if b then pay_transition st e t else ret ()) u))" for b st e u
    using moves_transition by simp
  show ?thesis
    unfolding pay_prepareDirectCapture_def Let_def
    apply (rule moves_then)
     apply simp
    subgoal for s'
      by (cases "pi_status s' = CaptureRequested \<or> pi_status s' = Captured")
        (simp, simp only: if_False, intro moves_then if_moves moves_transition)
    done
qed

lemma moves_completeRefund: "moves s (snd (pay_completeRefund rid e t s))"
  unfolding pay_completeRefund_def
  by (intro moves_then moves_bind moves_pieces) (auto simp: pay_edges_def intro!: moves_edge)

lemma moves_simple:
  "moves s (snd (pay_capture tok e t s))" "moves s (snd (pay_fail reason e t s))"
  by (auto simp: pay_capture_def pay_fail_def then_do_apply push_charge_def bind_action_apply pay_edges_def
      intro!: moves_edge split: sum.splits)

lemma moves_refund: "moves s (snd (pay_refund m e t s))"
proof -
  have *: "moves s (snd (bind_action (push_refund e m t RCompleted None) g s))"
    if "\<And>x s'. moves s' (snd (g x s'))" for g :: "refund \<Rightarrow> unit pay_action" and s
  proof (cases "push_refund e m t RCompleted None s")
    case (Pair r s')
    have "moves s s'" using moves_pieces(2) [of s e m t RCompleted None] Pair by simp
    then show ?thesis using that Pair by (cases r) (auto simp: bind_action_apply intro: rtrancl_trans)
  qed
  show ?thesis
    unfolding pay_refund_def
    by (intro moves_then moves_bind moves_pieces *) (auto simp: pay_edges_def intro!: moves_edge)
qed

lemma moves_others:
  "moves s (snd (pay_recordProviderIntent i s))" "moves s (snd (pay_markFailed reason e t s))"
  "moves s (snd (pay_recordWebhook p k e t s))" "moves s (snd (pay_failRefund rid e t reason s))"
  unfolding pay_markFailed_def pay_recordWebhook_def pay_failRefund_def
  by (auto simp: pay_recordProviderIntent_def intro!: moves_then moves_bind moves_transition moves_pieces
      split: sum.splits option.splits)

lemma moves_requestRefund: "moves s (snd (pay_requestRefund m e t key s))"
  by (auto simp: pay_requestRefund_def reserve_refund_def then_do_apply refund_guard_def push_refund_def
      bind_action_apply Let_def split: option.splits sum.splits if_splits)

interpretation payment_status: closed_lifecycle pi_status pay_edges pay_step captured_statuses
proof unfold_locales
  fix s c
  show "moves s (snd (pay_step c s))"
    by (cases c rule: pay_step.cases)
      (simp_all add: moves_simple moves_refund moves_transition moves_authorize moves_markCaptured
        moves_prepare moves_others moves_requestRefund moves_completeRefund)
next
  fix x y
  assume "x \<in> captured_statuses" and "y \<in> set (pay_edges x)"
  then show "y \<in> captured_statuses" by (auto simp: pay_edges_def)
qed

subsection \<open>Refund identity\<close>

text \<open>The identifying part of a refund never changes, and refunds are only ever appended.\<close>

definition refund_core :: "refund \<Rightarrow> string \<times> money \<times> string option" where
  "refund_core r = (rf_id r, rf_amount r, rf_idempotencyKey r)"

definition refunds_grow :: "payment_intent \<Rightarrow> payment_intent \<Rightarrow> bool" where
  "refunds_grow s t \<longleftrightarrow> (\<exists>ext. map refund_core (pi_refunds t) = map refund_core (pi_refunds s) @ ext)"

lemma refunds_grow_same: "map refund_core (pi_refunds t) = map refund_core (pi_refunds s) \<Longrightarrow> refunds_grow s t"
  by (simp add: refunds_grow_def)

lemma refunds_grow_refl [simp]: "refunds_grow s s"
  by (simp add: refunds_grow_def)

lemma refunds_grow_trans: "refunds_grow s t \<Longrightarrow> refunds_grow t u \<Longrightarrow> refunds_grow s u"
  by (auto simp: refunds_grow_def)

lemma grow_mark:
  "map refund_core (update_first P refund_markCompleted rs) = map refund_core rs"
  "map refund_core (update_first P refund_markFailed rs) = map refund_core rs"
  by (rule map_update_first, simp add: refund_core_def refund_markCompleted_def refund_markFailed_def)+

text \<open>What follows a mark or a push in \<open>completeRefund\<close>, \<open>failRefund\<close>, \<open>refund\<close> leaves the refunds alone.\<close>

lemma pay_step_refunds_same:
  "(\<And>m. fst c \<noteq> PayRefund m) \<Longrightarrow> (\<And>m key. fst c \<noteq> PayRequestRefund m key) \<Longrightarrow>
     map refund_core (pi_refunds (snd (pay_step c s))) = map refund_core (pi_refunds s)"
  by (cases c rule: pay_step.cases)
    (auto simp: pay_capture_def pay_fail_def transition_cases pay_authorize_def pay_markCaptured_def
      pay_recordProviderIntent_def pay_prepareDirectCapture_def pay_markFailed_def pay_completeRefund_def
      pay_failRefund_def pay_recordWebhook_def then_do_apply bind_action_apply push_charge_def mark_refund_def
      Let_def grow_mark split: sum.splits option.splits)

lemma grow_refund: "refunds_grow s (snd (pay_refund m e t s))"
  by (auto simp: pay_refund_def then_do_apply refund_guard_def push_refund_def bind_action_apply Let_def
      refunds_grow_def split: sum.splits)

lemma grow_requestRefund: "refunds_grow s (snd (pay_requestRefund m e t key s))"
  by (auto simp: pay_requestRefund_def reserve_refund_def then_do_apply refund_guard_def push_refund_def
      bind_action_apply Let_def refunds_grow_def split: option.splits sum.splits if_splits)

lemma pay_step_grow: "refunds_grow s (snd (pay_step c s))"
proof (cases "(\<exists>m. fst c = PayRefund m) \<or> (\<exists>m key. fst c = PayRequestRefund m key)")
  case True
  then show ?thesis by (cases c rule: pay_step.cases) (auto simp: grow_refund grow_requestRefund)
next
  case False
  then show ?thesis by (intro refunds_grow_same pay_step_refunds_same) auto
qed

lemma runs_grow: "refunds_grow s (runs pay_step cs s)"
  by (induction cs arbitrary: s) (auto intro: refunds_grow_trans pay_step_grow)

lemma find_core_prefix:
  "map refund_core ts = map refund_core rs @ ext \<Longrightarrow> List.find (\<lambda>r. rf_idempotencyKey r = Some k) rs = Some r \<Longrightarrow>
     \<exists>r'. List.find (\<lambda>r. rf_idempotencyKey r = Some k) ts = Some r' \<and> refund_core r' = refund_core r"
proof (induction rs arbitrary: ts)
  case (Cons x rs)
  then obtain y ys where ts: "ts = y # ys" "refund_core y = refund_core x"
    "map refund_core ys = map refund_core rs @ ext" by (cases ts) auto
  have key: "rf_idempotencyKey y = rf_idempotencyKey x" using ts(2) by (simp add: refund_core_def)
  show ?case using Cons.IH [OF ts(3)] Cons.prems(2) ts key by (auto split: if_splits)
qed simp

lemma find_key_grow:
  "refunds_grow s t \<Longrightarrow> find_key k s = Some r \<Longrightarrow> \<exists>r'. find_key k t = Some r' \<and> refund_core r' = refund_core r"
  unfolding refunds_grow_def find_key_def using find_core_prefix by blast

lemma requestRefund_found:
  assumes "pay_requestRefund m e t (Some k) s = (Inr (r, new), s1)"
  shows "find_key k s1 = Some r \<and> rf_amount r = m"
proof (cases "find_key k s")
  case None
  then show ?thesis
    using assms
    by (auto simp: pay_requestRefund_def reserve_refund_def then_do_apply refund_guard_def push_refund_def
        bind_action_apply Let_def find_key_def find_append split: sum.splits if_splits)
next
  case (Some r0)
  then show ?thesis using assms by (auto simp: pay_requestRefund_def split: if_splits)
qed

subsection \<open>Direct capture\<close>

text \<open>Neither identifying data nor money is touched on the way to \<open>capture_requested\<close>.\<close>

lemma capture_frame [simp]:
  "captured_amount (addDomainEvent ev t d s) = captured_amount s"
  "captured_amount (s\<lparr>pi_status := st\<rparr>) = captured_amount s"
  "captured_amount (s\<lparr>pi_providerTransactionRef := tx\<rparr>) = captured_amount s"
  "capture_token e (addDomainEvent ev t d s) = capture_token e s"
  "capture_token e (s\<lparr>pi_status := st\<rparr>) = capture_token e s"
  "capture_token e (s\<lparr>pi_providerTransactionRef := tx\<rparr>) = capture_token e s"
  by (simp_all add: captured_amount_def capture_token_def split: option.split)

lemma prepare_ok:
  assumes "pi_status s \<in> {PCreated, Processing, Authorized, CaptureRequested}"
  shows "\<exists>s1. pay_prepareDirectCapture nx t tx s = (Inr (), s1) \<and> pi_status s1 = CaptureRequested \<and>
    pi_charges s1 = pi_charges s \<and> captured_amount s1 = captured_amount s \<and>
    capture_token e s1 = capture_token e s"
  using assms
  by (auto simp: pay_prepareDirectCapture_def then_do_apply transition_cases canTransitionPayment_def Let_def)

lemma markCaptured_ok:
  assumes "pi_status s = CaptureRequested" and "\<not> blank e" and "\<not> blank (capture_token e s)"
  shows "\<exists>s1. pay_markCaptured e t ie s = (Inr (), s1) \<and> pi_status s1 = Captured \<and>
    pi_charges s1 = pi_charges s @ [\<lparr>ch_id = e, ch_amount = captured_amount s, ch_pspToken = capture_token e s,
      ch_occurredAt = t\<rparr>]"
  using assms
  by (auto simp: pay_markCaptured_def then_do_apply bind_action_apply push_charge_def transition_cases
      canTransitionPayment_def PspToken_create_def mapError_def Let_def split: option.splits)

subsection \<open>Properties\<close>

definition usd :: "int \<Rightarrow> money" where
  "usd n = \<lparr>amountMinor = n, currency = ''USD''\<rparr>"

definition sample_intent :: payment_intent where
  "sample_intent = PaymentIntent_create ''pi'' ''order'' (usd 100) ''cod''"

lemma usd_ok: "0 \<le> n \<Longrightarrow> money_ok (usd n)"
  by (simp add: usd_def money_ok_def currency_code_USD)

lemma new_intent_inv: "money_ok m \<Longrightarrow> pay_inv (new_intent st i ref m p)"
  by (simp add: new_intent_def pay_inv_def captured_sum_def live_refunds_def)

text \<open>
  C5: money safety: as long as captures are recorded where the table allows them and only pending
  refunds are settled, an intent is captured at most once and what is refunded or reserved for a
  refund never exceeds what was captured; the remaining amount can always be computed.
\<close>

theorem refunds_never_exceed_capture:
  "money_ok amount \<Longrightarrow> admissible pay_admits pay_step (new_intent st i orderRef amount provider) cs \<Longrightarrow>
     (let s = runs pay_step cs (new_intent st i orderRef amount provider) in
        length (pi_charges s) \<le> 1 \<and> live_refunds s \<le> captured_sum s \<and>
        pay_remaining s = Inr \<lparr>amountMinor = captured_sum s - live_refunds s, currency = currency amount\<rparr>)"
proof -
  assume m: "money_ok amount" and adm: "admissible pay_admits pay_step (new_intent st i orderRef amount provider) cs"
  let ?s = "runs pay_step cs (new_intent st i orderRef amount provider)"
  have inv: "pay_inv ?s" by (rule payment.guarded_runs [OF new_intent_inv [OF m] adm])
  have "pi_amount (snd (pay_step c s)) = pi_amount s" for c s
    by (cases c rule: pay_step.cases)
      (auto simp: pay_capture_def pay_fail_def transition_cases pay_authorize_def pay_markCaptured_def
        pay_recordProviderIntent_def pay_prepareDirectCapture_def pay_markFailed_def pay_completeRefund_def
        pay_failRefund_def pay_recordWebhook_def pay_refund_def pay_requestRefund_def reserve_refund_def
        refund_guard_def push_refund_def then_do_apply bind_action_apply push_charge_def mark_refund_def
        Let_def split: sum.splits option.splits if_splits)
  then have "pi_amount (runs pay_step cs s) = pi_amount s" for s
    by (induction cs arbitrary: s) auto
  then have "pi_amount ?s = amount" by (simp add: new_intent_def)
  then show ?thesis using inv pay_inv_remaining [OF inv] by (simp add: pay_inv_def Let_def)
qed

lemma refunds_never_exceed_capture_witness:
  "let s = runs pay_step [(PayCapture ''tok'', ''e1'', 1), (PayRefund (usd 60), ''e2'', 2), (PayRefund (usd 60), ''e3'', 3)]
       (new_intent RequiresPayment ''pi'' ''order'' (usd 100) ''cod'') in
     length (pi_charges s) \<le> 1 \<and> live_refunds s \<le> captured_sum s \<and>
     pay_remaining s = Inr \<lparr>amountMinor = captured_sum s - live_refunds s, currency = currency (usd 100)\<rparr>"
  by (rule refunds_never_exceed_capture) (simp_all add: usd_ok)

text \<open>
  a refund request is idempotent under its key: once a request under a key has returned a
  reservation, then after any further calls a request for the same amount under that key either
  returns that same reservation as not new, or is refused; it never reserves again.
\<close>

lemma refund_request_idempotent:
  "pay_requestRefund amount e t (Some key) s = (Inr (r, new), s1) \<Longrightarrow>
     (case pay_requestRefund amount e' t' (Some key) (runs pay_step cs s1) of
        (Inl _, s2) \<Rightarrow> s2 = runs pay_step cs s1
      | (Inr (r', new'), s2) \<Rightarrow> s2 = runs pay_step cs s1 \<and> \<not> new' \<and> rf_id r' = rf_id r \<and> rf_amount r' = amount)"
proof -
  assume "pay_requestRefund amount e t (Some key) s = (Inr (r, new), s1)"
  then have f: "find_key key s1 = Some r" "rf_amount r = amount" by (auto dest: requestRefund_found)
  obtain r' where r': "find_key key (runs pay_step cs s1) = Some r'" "refund_core r' = refund_core r"
    using find_key_grow [OF runs_grow f(1)] by blast
  then show ?thesis using f(2) by (simp add: pay_requestRefund_def refund_core_def)
qed

lemma refund_request_idempotent_witness:
  "let s = snd (pay_capture ''tok'' ''e1'' 1 sample_intent);
       (r1, s1) = pay_requestRefund (usd 40) ''e2'' 2 (Some ''k'') s in
     (case pay_requestRefund (usd 40) ''e3'' 3 (Some ''k'') s1 of
        (Inl _, s2) \<Rightarrow> s2 = s1 | (Inr (r', new'), s2) \<Rightarrow> s2 = s1 \<and> \<not> new')"
proof -
  let ?s = "snd (pay_capture ''tok'' ''e1'' 1 sample_intent)"
  let ?q = "pay_requestRefund (usd 40) ''e2'' 2 (Some ''k'') ?s"
  have "isOk (fst ?q)" by code_simp
  then obtain r new where "fst ?q = Inr (r, new)" by (auto simp: isOk_def split: sum.splits)
  then have "?q = (Inr (r, new), snd ?q)" by (simp add: prod_eq_iff)
  from refund_request_idempotent [OF this, where e' = "''e3''" and t' = 3 and cs = "[]"] show ?thesis
    by (auto simp: Let_def split_beta split: sum.splits)
qed

text \<open>
  direct capture succeeds: from any status before capture, \<open>prepareDirectCapture\<close> followed by
  \<open>markCaptured\<close> returns and leaves the intent captured with exactly one further charge, of the
  authorized amount if there is one and of the intent's amount otherwise.
\<close>

lemma direct_capture_succeeds:
  "pi_status s \<in> {PCreated, Processing, Authorized, CaptureRequested} \<Longrightarrow> \<not> blank e \<Longrightarrow>
     \<not> blank (capture_token e s) \<Longrightarrow>
     (case then_do (pay_prepareDirectCapture nextId t txRef) (pay_markCaptured e t ie) s of
        (Inl _, _) \<Rightarrow> False
      | (Inr _, s1) \<Rightarrow> pi_status s1 = Captured \<and>
          map ch_amount (pi_charges s1) = map ch_amount (pi_charges s) @ [captured_amount s])"
proof -
  assume "pi_status s \<in> {PCreated, Processing, Authorized, CaptureRequested}" "\<not> blank e" "\<not> blank (capture_token e s)"
  then show ?thesis
    using prepare_ok [of s nextId t txRef e] markCaptured_ok [of _ e t ie] by (fastforce simp: then_do_apply)
qed

lemma direct_capture_succeeds_witness:
  "let s = PaymentIntent_createIntent ''pi'' ''order'' (usd 100) ''cod'' in
     (case then_do (pay_prepareDirectCapture (\<lambda>k. ''e'') 5 None) (pay_markCaptured ''e9'' 5 (Some ''ie'')) s of
        (Inl _, _) \<Rightarrow> False
      | (Inr _, s1) \<Rightarrow> pi_status s1 = Captured \<and>
          map ch_amount (pi_charges s1) = map ch_amount (pi_charges s) @ [captured_amount s])"
proof -
  have b: "\<not> blank ''e9''" by code_simp
  show ?thesis
    unfolding Let_def
    by (rule direct_capture_succeeds)
      (simp_all add: PaymentIntent_createIntent_def new_intent_def capture_token_def b)
qed

text \<open>
  captured money is never forgotten: once an intent is captured, no sequence of calls, throwing
  ones included, brings it back to a status from before the capture.
\<close>

lemma captured_stays_captured:
  "pi_status s = Captured \<Longrightarrow>
     pi_status (runs pay_step cs s) \<in> {Captured, Refunded, PartiallyRefunded, PClosed}"
  using payment_status.runs_inv [of s cs] by (simp add: list_all_iff)

lemma captured_stays_captured_witness:
  "pi_status (runs pay_step [(PayMarkFailed ''late'', ''e2'', 2), (PayTransition PCancelled, ''e3'', 3)]
      (snd (pay_capture ''tok'' ''e1'' 1 sample_intent))) \<in> {Captured, Refunded, PartiallyRefunded, PClosed}"
proof (rule captured_stays_captured)
  show "pi_status (snd (pay_capture ''tok'' ''e1'' 1 sample_intent)) = Captured" by code_simp
qed

subsection \<open>Where the guard of the first property is needed\<close>

text \<open>
  Recording a capture twice throws, but only after the second charge is on the object: an intent of
  100 then accepts a refund of 200.
\<close>

lemma second_capture_inflates_refunds:
  "let s = snd (pay_capture ''tok'' ''e1'' 1 sample_intent);
       (r1, s1) = pay_markCaptured ''e2'' 2 None s;
       (r2, s2) = pay_requestRefund (usd 200) ''e3'' 3 None s1 in
     isErr r1 \<and> length (pi_charges s1) = 2 \<and> isOk r2 \<and> live_refunds s2 = 200"
  by code_simp

text \<open>
  Settling a refund does not ask whether it is still pending: completing one that had failed revives
  it, and refunds exceed the captured amount.
\<close>

lemma completing_failed_refund_overrefunds:
  "let s = snd (pay_capture ''tok'' ''e1'' 1 sample_intent);
       s1 = snd (pay_requestRefund (usd 100) ''r1'' 2 None s);
       s2 = snd (pay_failRefund ''r1'' ''e3'' 3 ''declined'' s1);
       s3 = snd (pay_refund (usd 100) ''r2'' 4 s2);
       (r, s4) = pay_completeRefund ''r1'' ''e5'' 5 s3 in
     isErr r \<and> live_refunds s4 = 200 \<and> captured_sum s4 = 100"
  by code_simp

end
