(* ===== verification/Promotions.thy ===== *)
theory Promotions
  imports Kernel Lifecycle
begin

section \<open>Promotions\<close>

text \<open>
  services/promotions/src/domain: the rule (condition and reward), schedule and eligibility of a
  promotion, its lifecycle and its legacy \<open>evaluate\<close>. Numbers of a reward arrive as \<open>js_number\<close>;
  \<open>PromotionReward_create\<close> decides which are let through. Percentages may be fractional and are read
  as rationals by \<open>js_rat\<close>, amounts and counts as integers by \<open>js_to_int\<close>; a reward that holds NaN (which
  the comparisons of \<open>rewardIssues\<close> do not catch) has no meaning here.
\<close>

subsection \<open>Lifecycle (value-objects/promotion-status.ts)\<close>

datatype promotion_status =
  PrDraft | PrScheduled | PrActive | PrPaused | PrExpired | PrDepleted | PrCancelled | PrArchived

fun promotion_status_name :: "promotion_status \<Rightarrow> string" where
  "promotion_status_name PrDraft = ''draft''"
| "promotion_status_name PrScheduled = ''scheduled''"
| "promotion_status_name PrActive = ''active''"
| "promotion_status_name PrPaused = ''paused''"
| "promotion_status_name PrExpired = ''expired''"
| "promotion_status_name PrDepleted = ''depleted''"
| "promotion_status_name PrCancelled = ''cancelled''"
| "promotion_status_name PrArchived = ''archived''"

fun promotion_transitions :: "promotion_status \<Rightarrow> promotion_status list" where
  "promotion_transitions PrDraft = [PrScheduled, PrActive, PrCancelled, PrArchived]"
| "promotion_transitions PrScheduled = [PrActive, PrCancelled, PrArchived]"
| "promotion_transitions PrActive = [PrPaused, PrExpired, PrDepleted, PrCancelled, PrArchived]"
| "promotion_transitions PrPaused = [PrActive, PrExpired, PrCancelled, PrArchived]"
| "promotion_transitions PrExpired = [PrArchived]"
| "promotion_transitions PrDepleted = [PrArchived]"
| "promotion_transitions PrCancelled = [PrArchived]"
| "promotion_transitions PrArchived = []"

definition canTransitionPromotion :: "promotion_status \<Rightarrow> promotion_status \<Rightarrow> bool" where
  "canTransitionPromotion from to = (to \<in> set (promotion_transitions from))"

subsection \<open>Schedule, eligibility (value-objects/promotion-schedule.ts)\<close>

record promotion_schedule =
  sc_startsAt :: timestamp
  sc_endsAt :: "timestamp option"

definition schedule_isActiveAt :: "promotion_schedule \<Rightarrow> timestamp \<Rightarrow> bool" where
  "schedule_isActiveAt s now =
     (if now < sc_startsAt s then False
      else case sc_endsAt s of None \<Rightarrow> True | Some e \<Rightarrow> now < e)"

definition schedule_isExpiredAt :: "promotion_schedule \<Rightarrow> timestamp \<Rightarrow> bool" where
  "schedule_isExpiredAt s now = (case sc_endsAt s of None \<Rightarrow> False | Some e \<Rightarrow> e \<le> now)"

record customer_eligibility =
  el_customerRefs :: "string list option"
  el_segmentRefs :: "string list option"

definition isEligible :: "customer_eligibility \<Rightarrow> string \<Rightarrow> string list \<Rightarrow> bool" where
  "isEligible e customerRef segmentRefs =
     (if el_customerRefs e = None \<and> el_segmentRefs e = None then True
      else if (case el_customerRefs e of None \<Rightarrow> False | Some refs \<Rightarrow> customerRef \<in> set refs) then True
      else case el_segmentRefs e of
             None \<Rightarrow> False | Some refs \<Rightarrow> list_ex (\<lambda>r. r \<in> set segmentRefs) refs)"

subsection \<open>Rule (value-objects/promotion-rule.ts)\<close>

datatype rule_type = AutomaticRule | BuyXGetYRule
datatype reward_type = PercentageReward | FixedAmountReward | FreeShippingReward | BuyXGetYReward
datatype promotion_scope = CartScope | ProductScope | CategoryScope

record cart_snapshot_line =
  cl_productRef :: string
  cl_categoryRefs :: "string list"
  cl_quantity :: int
  cl_unitPriceAmountMinor :: int

record cart_snapshot =
  cs_lines :: "cart_snapshot_line list"
  cs_subtotalAmountMinor :: int

record promotion_condition =
  pc_scope :: promotion_scope
  pc_targetRefs :: "string list"
  pc_minimumQuantity :: "int option"
  pc_minimumSubtotalAmountMinor :: "int option"

definition relevantLines :: "promotion_condition \<Rightarrow> cart_snapshot \<Rightarrow> cart_snapshot_line list" where
  "relevantLines c cart =
     (if pc_scope c = CartScope then cs_lines cart
      else if length (pc_targetRefs c) = 0 then cs_lines cart
      else if pc_scope c = ProductScope
      then filter (\<lambda>l. cl_productRef l \<in> set (pc_targetRefs c)) (cs_lines cart)
      else filter (\<lambda>l. list_ex (\<lambda>r. r \<in> set (pc_targetRefs c)) (cl_categoryRefs l)) (cs_lines cart))"

definition condition_matches :: "promotion_condition \<Rightarrow> cart_snapshot \<Rightarrow> bool" where
  "condition_matches c cart =
     (if (case pc_minimumSubtotalAmountMinor c of None \<Rightarrow> False | Some m \<Rightarrow> cs_subtotalAmountMinor cart < m)
      then False
      else if pc_scope c \<noteq> CartScope \<and> length (relevantLines c cart) = 0 then False
      else case pc_minimumQuantity c of
             None \<Rightarrow> True
           | Some q \<Rightarrow> q \<le> sum_list (map cl_quantity (relevantLines c cart)))"

definition matchedSubtotalAmountMinor :: "promotion_condition \<Rightarrow> cart_snapshot \<Rightarrow> int" where
  "matchedSubtotalAmountMinor c cart =
     (if pc_scope c = CartScope then cs_subtotalAmountMinor cart
      else sum_list (map (\<lambda>l. cl_quantity l * cl_unitPriceAmountMinor l) (relevantLines c cart)))"

datatype buys_kind = BuysQuantity | BuysAmount

record buy_x_buys =
  bb_kind :: buys_kind
  bb_value :: js_number

datatype gets_effect = GetsPercentage js_number | GetsFree

record buy_x_gets =
  bg_quantity :: js_number
  bg_scope :: promotion_scope
  bg_targetRefs :: "string list"
  bg_effect :: gets_effect

record promotion_reward =
  rw_type :: reward_type
  rw_value :: "js_number option"
  rw_buyQuantity :: "js_number option"
  rw_getQuantity :: "js_number option"
  rw_appliesOncePerOrder :: "bool option"
  rw_countries :: "string list option"
  rw_maxShippingRateMinor :: "js_number option"
  rw_buys :: "buy_x_buys option"
  rw_gets :: "buy_x_gets option"
  rw_maxUsesPerOrder :: "js_number option"

definition isPositiveInteger :: "js_number option \<Rightarrow> bool" where
  "isPositiveInteger v = (case v of None \<Rightarrow> False | Some x \<Rightarrow> isInteger x \<and> js_less (jint 0) x)"

definition is_country_code :: "string \<Rightarrow> bool" where
  "is_country_code c = (length c = 2 \<and> list_all is_upper_letter c)"

definition bad_minor :: "js_number option \<Rightarrow> bool" where
  "bad_minor v = (case v of None \<Rightarrow> False | Some x \<Rightarrow> \<not> isInteger x \<or> js_less x (jint 0))"

definition rewardIssues :: "promotion_reward \<Rightarrow> field_issue list" where
  "rewardIssues p =
     (case rw_type p of
        PercentageReward \<Rightarrow>
          (if (case rw_value p of None \<Rightarrow> True | Some v \<Rightarrow> js_less v (jint 0) \<or> js_less (jint 100) v)
           then [issue ''value'' ''percentage reward must be 0-100''] else [])
      | FixedAmountReward \<Rightarrow>
          (if bad_minor (rw_value p)
           then [issue ''value'' ''fixed amount must be a whole number of minor units''] else [])
      | BuyXGetYReward \<Rightarrow>
          (if (case rw_buys p of None \<Rightarrow> True | Some b \<Rightarrow> \<not> isPositiveInteger (Some (bb_value b)))
           then [issue ''buys'' ''must say how much the customer buys''] else []) @
          (case rw_gets p of
             None \<Rightarrow> [issue ''gets'' ''must say which items and how many the customer gets'']
           | Some g \<Rightarrow>
               if \<not> isPositiveInteger (Some (bg_quantity g)) \<or> length (bg_targetRefs g) = 0
               then [issue ''gets'' ''must say which items and how many the customer gets'']
               else case bg_effect g of
                      GetsFree \<Rightarrow> []
                    | GetsPercentage v \<Rightarrow>
                        if \<not> js_less (jint 0) v \<and> v \<noteq> JNaN \<or> js_less (jint 100) v
                        then [issue ''gets.effect'' ''percentage must be 0-100''] else []) @
          (if rw_maxUsesPerOrder p \<noteq> None \<and> \<not> isPositiveInteger (rw_maxUsesPerOrder p)
           then [issue ''maxUsesPerOrder'' ''must be a positive whole number''] else [])
      | FreeShippingReward \<Rightarrow>
          (if (case rw_countries p of None \<Rightarrow> False | Some cs \<Rightarrow> list_ex (\<lambda>c. \<not> is_country_code c) cs)
           then [issue ''countries'' ''must be ISO 3166-1 alpha-2 codes''] else []) @
          (if bad_minor (rw_maxShippingRateMinor p)
           then [issue ''maxShippingRateMinor'' ''must be a whole number of minor units''] else []))"

definition PromotionReward_create :: "promotion_reward \<Rightarrow> (domain_error, promotion_reward) result" where
  "PromotionReward_create props =
     (let issues = rewardIssues props in
      if length issues > 0 then Inl (ValidationError ''Invalid promotion reward'' issues) else Inr props)"

fun js_rat :: "js_number \<Rightarrow> rat" where
  "js_rat (JNum q) = q"
| "js_rat _ = 0"

definition reward_value :: "promotion_reward \<Rightarrow> js_number" where
  "reward_value r = (case rw_value r of None \<Rightarrow> jint 0 | Some v \<Rightarrow> v)"

definition discountAmountMinor :: "promotion_reward \<Rightarrow> int \<Rightarrow> int" where
  "discountAmountMinor r subtotal =
     (case rw_type r of
        PercentageReward \<Rightarrow> \<lfloor>js_div (js_mul (of_int subtotal) (js_rat (reward_value r))) 100\<rfloor>
      | FixedAmountReward \<Rightarrow> min (js_to_int (reward_value r)) subtotal
      | FreeShippingReward \<Rightarrow> 0
      | BuyXGetYReward \<Rightarrow> 0)"

record promotion_rule =
  ru_type :: rule_type
  ru_condition :: promotion_condition
  ru_reward :: promotion_reward
  ru_stackable :: bool
  ru_priority :: js_number

definition PromotionRule_create ::
  "rule_type \<Rightarrow> promotion_condition \<Rightarrow> promotion_reward \<Rightarrow> bool \<Rightarrow> js_number \<Rightarrow>
     (domain_error, promotion_rule) result" where
  "PromotionRule_create ty condition reward stackable priority =
     (if ty = BuyXGetYRule \<and> rw_type reward \<noteq> BuyXGetYReward \<and>
         (rw_buyQuantity reward = None \<or> rw_getQuantity reward = None)
      then Inl (ValidationError ''Invalid promotion rule''
             [issue ''reward'' ''buy_x_get_y requires buyQuantity and getQuantity''])
      else if rw_type reward = BuyXGetYReward \<and> ty \<noteq> BuyXGetYRule
      then Inl (ValidationError ''Invalid promotion rule''
             [issue ''ruleType'' ''a buy X get Y reward needs the buy_x_get_y rule type''])
      else bind_result (againstNegative priority ''priority'') (\<lambda>p.
             Inr \<lparr>ru_type = ty, ru_condition = condition, ru_reward = reward, ru_stackable = stackable,
                  ru_priority = p\<rparr>))"

subsection \<open>Combination classes (value-objects/discount-settings.ts)\<close>

datatype discount_method = CodeMethod | AutomaticMethod
datatype discount_class = ProductClass | OrderClass | ShippingClass

record combines_with =
  cw_product :: bool
  cw_order :: bool
  cw_shipping :: bool

definition COMBINES_WITH_NOTHING :: combines_with where
  "COMBINES_WITH_NOTHING = \<lparr>cw_product = False, cw_order = False, cw_shipping = False\<rparr>"

definition COMBINES_WITH_EVERYTHING :: combines_with where
  "COMBINES_WITH_EVERYTHING = \<lparr>cw_product = True, cw_order = True, cw_shipping = True\<rparr>"

definition discountClassOf :: "promotion_rule \<Rightarrow> discount_class" where
  "discountClassOf r =
     (if rw_type (ru_reward r) = FreeShippingReward then ShippingClass
      else if ru_type r = BuyXGetYRule then ProductClass
      else if pc_scope (ru_condition r) = CartScope then OrderClass else ProductClass)"

fun combines_class :: "combines_with \<Rightarrow> discount_class \<Rightarrow> bool" where
  "combines_class c ProductClass = cw_product c"
| "combines_class c OrderClass = cw_order c"
| "combines_class c ShippingClass = cw_shipping c"

definition canCombine :: "discount_class \<times> combines_with \<Rightarrow> discount_class \<times> combines_with \<Rightarrow> bool" where
  "canCombine a b = (combines_class (snd a) (fst b) \<and> combines_class (snd b) (fst a))"

subsection \<open>The aggregate (promotion.ts)\<close>

datatype promotion_event = PromotionTransitioned string promotion_status promotion_status

record promotion = "promotion_event aggregate" +
  pn_name :: string
  pn_rule :: promotion_rule
  pn_schedule :: promotion_schedule
  pn_eligibility :: customer_eligibility
  pn_campaignRef :: "string option"
  pn_usageLimit :: "int option"
  pn_usageCount :: int
  pn_status :: promotion_status
  pn_method :: "discount_method option"
  pn_combinesWith :: combines_with

type_synonym promotion_action = "(domain_error, promotion, unit) action"

record promotion_settings =
  pst_method :: "discount_method option"
  pst_combinesWith :: "combines_with option"

definition settings_combinesWith :: "promotion_settings \<Rightarrow> promotion_rule \<Rightarrow> combines_with" where
  "settings_combinesWith settings rule =
     (case pst_combinesWith settings of
        Some c \<Rightarrow> c
      | None \<Rightarrow> if ru_stackable rule then COMBINES_WITH_EVERYTHING else COMBINES_WITH_NOTHING)"

definition Promotion_create ::
  "string \<Rightarrow> string \<Rightarrow> promotion_rule \<Rightarrow> promotion_schedule \<Rightarrow> customer_eligibility \<Rightarrow> string option \<Rightarrow>
     int option \<Rightarrow> promotion_settings \<Rightarrow> promotion" where
  "Promotion_create pid name rule schedule eligibility campaign usageLimit settings =
     \<lparr>agg_id = pid, agg_version = 0, agg_events = [], pn_name = name, pn_rule = rule,
      pn_schedule = schedule, pn_eligibility = eligibility, pn_campaignRef = campaign,
      pn_usageLimit = usageLimit, pn_usageCount = 0, pn_status = PrDraft,
      pn_method = pst_method settings, pn_combinesWith = settings_combinesWith settings rule\<rparr>"

definition Promotion_reconstitute ::
  "string \<Rightarrow> string \<Rightarrow> promotion_rule \<Rightarrow> promotion_schedule \<Rightarrow> customer_eligibility \<Rightarrow> string option \<Rightarrow>
     int option \<Rightarrow> int \<Rightarrow> promotion_status \<Rightarrow> int \<Rightarrow> promotion_settings \<Rightarrow> promotion" where
  "Promotion_reconstitute pid name rule schedule eligibility campaign usageLimit usageCount st version settings =
     \<lparr>agg_id = pid, agg_version = version, agg_events = [], pn_name = name, pn_rule = rule,
      pn_schedule = schedule, pn_eligibility = eligibility, pn_campaignRef = campaign,
      pn_usageLimit = usageLimit, pn_usageCount = usageCount, pn_status = st,
      pn_method = pst_method settings, pn_combinesWith = settings_combinesWith settings rule\<rparr>"

definition promotion_transition :: "promotion_status \<Rightarrow> string \<Rightarrow> timestamp \<Rightarrow> promotion_action" where
  "promotion_transition toStatus eventId occurredAt = (\<lambda>s.
     let fromStatus = pn_status s in
     if \<not> canTransitionPromotion fromStatus toStatus
     then (Inl (BusinessRuleError (''Cannot transition promotion from \"'' @ promotion_status_name fromStatus @
             ''\" to \"'' @ promotion_status_name toStatus @ ''\"'')), s)
     else (Inr (), addDomainEvent eventId occurredAt
             (PromotionTransitioned (pn_name s) fromStatus toStatus) (s\<lparr>pn_status := toStatus\<rparr>)))"

definition promotion_scheduleActivation :: "string \<Rightarrow> timestamp \<Rightarrow> promotion_action" where
  "promotion_scheduleActivation = promotion_transition PrScheduled"
definition promotion_activate :: "string \<Rightarrow> timestamp \<Rightarrow> promotion_action" where
  "promotion_activate = promotion_transition PrActive"
definition promotion_pause :: "string \<Rightarrow> timestamp \<Rightarrow> promotion_action" where
  "promotion_pause = promotion_transition PrPaused"
definition promotion_resume :: "string \<Rightarrow> timestamp \<Rightarrow> promotion_action" where
  "promotion_resume = promotion_transition PrActive"
definition promotion_expire :: "string \<Rightarrow> timestamp \<Rightarrow> promotion_action" where
  "promotion_expire = promotion_transition PrExpired"
definition promotion_cancel :: "string \<Rightarrow> timestamp \<Rightarrow> promotion_action" where
  "promotion_cancel = promotion_transition PrCancelled"
definition promotion_archive :: "string \<Rightarrow> timestamp \<Rightarrow> promotion_action" where
  "promotion_archive = promotion_transition PrArchived"

definition promotion_recordUsage :: "string \<Rightarrow> timestamp \<Rightarrow> promotion_action" where
  "promotion_recordUsage eventId occurredAt =
     then_do (modify (\<lambda>s. s\<lparr>pn_usageCount := pn_usageCount s + 1\<rparr>))
       (\<lambda>s. case pn_usageLimit s of
              None \<Rightarrow> (Inr (), s)
            | Some allowance \<Rightarrow> if allowance \<le> pn_usageCount s then promotion_transition PrDepleted eventId occurredAt s
                         else (Inr (), s))"

record promotion_changes =
  chg_name :: string
  chg_rule :: promotion_rule
  chg_schedule :: promotion_schedule
  chg_eligibility :: customer_eligibility
  chg_usageLimit :: "int option"
  chg_combinesWith :: combines_with

definition promotion_update :: "promotion_changes \<Rightarrow> promotion_action" where
  "promotion_update changes =
     then_do (require (\<lambda>s. pn_status s \<noteq> PrArchived)
                (\<lambda>_. BusinessRuleError ''An archived discount cannot be edited''))
    (then_do (require (\<lambda>s. ru_type (chg_rule changes) = ru_type (pn_rule s) \<and>
                  discountClassOf (chg_rule changes) = discountClassOf (pn_rule s))
                (\<lambda>_. BusinessRuleError (''A discount'' @ [CHR 0x27] @ ''s type cannot be changed'')))
     (modify (\<lambda>s. s\<lparr>pn_name := chg_name changes, pn_rule := chg_rule changes,
        pn_schedule := chg_schedule changes, pn_eligibility := chg_eligibility changes,
        pn_usageLimit := chg_usageLimit changes, pn_combinesWith := chg_combinesWith changes\<rparr>)))"

datatype promotion_view = ViewActive | ViewScheduled | ViewExpired | ViewArchived

definition viewAt :: "promotion \<Rightarrow> timestamp \<Rightarrow> promotion_view" where
  "viewAt s now =
     (if pn_status s = PrArchived then ViewArchived
      else if pn_status s \<noteq> PrActive \<and> pn_status s \<noteq> PrScheduled then ViewExpired
      else if schedule_isExpiredAt (pn_schedule s) now then ViewExpired
      else if now < sc_startsAt (pn_schedule s) then ViewScheduled
      else if pn_status s = PrActive then ViewActive else ViewScheduled)"

record promotion_determination =
  pd_promotionId :: string
  pd_discountAmountMinor :: int
  pd_stackable :: bool
  pd_priority :: js_number

definition usage_left :: "promotion \<Rightarrow> bool" where
  "usage_left s = (case pn_usageLimit s of None \<Rightarrow> True | Some allowance \<Rightarrow> pn_usageCount s < allowance)"

definition promotion_evaluate ::
  "promotion \<Rightarrow> cart_snapshot \<Rightarrow> string \<Rightarrow> string list \<Rightarrow> timestamp \<Rightarrow> promotion_determination option" where
  "promotion_evaluate s cart customerRef segmentRefs now =
     (if pn_status s \<noteq> PrActive then None
      else if \<not> schedule_isActiveAt (pn_schedule s) now then None
      else if \<not> isEligible (pn_eligibility s) customerRef segmentRefs then None
      else if \<not> usage_left s then None
      else if \<not> condition_matches (ru_condition (pn_rule s)) cart then None
      else Some \<lparr>pd_promotionId = agg_id s,
             pd_discountAmountMinor = discountAmountMinor (ru_reward (pn_rule s))
               (matchedSubtotalAmountMinor (ru_condition (pn_rule s)) cart),
             pd_stackable = ru_stackable (pn_rule s), pd_priority = ru_priority (pn_rule s)\<rparr>)"

subsection \<open>The lifecycle of a promotion\<close>

lemmas promotion_ops =
  promotion_scheduleActivation_def promotion_activate_def promotion_pause_def promotion_resume_def
  promotion_expire_def promotion_cancel_def promotion_archive_def

datatype promotion_call =
    PrTransition promotion_status string timestamp
  | PrRecordUsage string timestamp
  | PrUpdate promotion_changes

fun promotion_step :: "promotion_call \<Rightarrow> promotion_action" where
  "promotion_step (PrTransition to i t) = promotion_transition to i t"
| "promotion_step (PrRecordUsage i t) = promotion_recordUsage i t"
| "promotion_step (PrUpdate c) = promotion_update c"

lemma promotion_transition_cases:
  "promotion_transition to i t s =
     (if to \<in> set (promotion_transitions (pn_status s))
      then (Inr (), addDomainEvent i t (PromotionTransitioned (pn_name s) (pn_status s) to) (s\<lparr>pn_status := to\<rparr>))
      else (Inl (BusinessRuleError (''Cannot transition promotion from \"'' @
              promotion_status_name (pn_status s) @ ''\" to \"'' @ promotion_status_name to @ ''\"'')), s))"
  by (simp add: promotion_transition_def canTransitionPromotion_def Let_def)

lemma addDomainEvent_promotion [simp]:
  "pn_status (addDomainEvent i t d s) = pn_status s"
  "pn_usageCount (addDomainEvent i t d s) = pn_usageCount s"
  "pn_usageLimit (addDomainEvent i t d s) = pn_usageLimit s"
  "pn_rule (addDomainEvent i t d s) = pn_rule s"
  by (simp_all add: addDomainEvent_def)

lemma promotion_transition_moves:
  "(pn_status s, pn_status (snd (promotion_transition to i t s))) \<in> (edges promotion_transitions)\<^sup>*"
  by (simp add: promotion_transition_cases r_into_rtrancl)

lemma promotion_recordUsage_cases:
  "promotion_recordUsage i t s =
     (let u = s\<lparr>pn_usageCount := pn_usageCount s + 1\<rparr> in
      if (case pn_usageLimit s of None \<Rightarrow> False | Some n \<Rightarrow> n \<le> pn_usageCount s + 1)
      then promotion_transition PrDepleted i t u else (Inr (), u))"
  by (simp add: promotion_recordUsage_def then_do_apply split: option.splits)

lemma promotion_update_status: "pn_status (snd (promotion_update c s)) = pn_status s"
  by (simp add: promotion_update_def then_do_apply)

interpretation promotions: lifecycle pn_status promotion_transitions promotion_step
proof unfold_locales
  fix c s
  show "(pn_status s, pn_status (snd (promotion_step c s))) \<in> (edges promotion_transitions)\<^sup>*"
  proof (cases c)
    case (PrRecordUsage i t)
    then show ?thesis
      using promotion_transition_moves [of "s\<lparr>pn_usageCount := pn_usageCount s + 1\<rparr>" PrDepleted i t]
      by (simp add: promotion_recordUsage_cases Let_def)
  qed (simp_all add: promotion_transition_moves promotion_update_status)
qed

definition ended_statuses :: "promotion_status set" where
  "ended_statuses = {PrExpired, PrDepleted, PrCancelled, PrArchived}"

interpretation ended: closed_lifecycle pn_status promotion_transitions promotion_step ended_statuses
proof unfold_locales
  fix x y
  assume "x \<in> ended_statuses" "y \<in> set (promotion_transitions x)"
  then show "y \<in> ended_statuses" by (cases x) (auto simp: ended_statuses_def)
qed

lemma ended_not_evaluated: "pn_status s \<in> ended_statuses \<Longrightarrow> promotion_evaluate s cart ref segs now = None"
  by (auto simp: ended_statuses_def promotion_evaluate_def)

lemma ended_runs: "pn_status s \<in> ended_statuses \<Longrightarrow> pn_status (runs promotion_step cs s) \<in> ended_statuses"
  by (rule ended.runs_inv) (simp_all add: list_all_iff)

subsection \<open>The usage limit\<close>

text \<open>\<open>n\<close> applications of an active promotion, each recorded: every one returns.\<close>

fun uses_return :: "(string \<times> timestamp) list \<Rightarrow> promotion \<Rightarrow> bool" where
  "uses_return [] s = True"
| "uses_return ((i, t) # us) s =
     (fst (promotion_recordUsage i t s) = Inr () \<and> uses_return us (snd (promotion_recordUsage i t s)))"

definition use_calls :: "(string \<times> timestamp) list \<Rightarrow> promotion_call list" where
  "use_calls us = map (\<lambda>(i, t). PrRecordUsage i t) us"

lemma promotion_recordUsage_before_limit:
  assumes "pn_usageLimit s = Some n" "pn_usageCount s + 1 < n"
  shows "promotion_recordUsage i t s = (Inr (), s\<lparr>pn_usageCount := pn_usageCount s + 1\<rparr>)"
  using assms by (simp add: promotion_recordUsage_cases Let_def)

lemma promotion_recordUsage_at_limit:
  assumes "pn_usageLimit s = Some n" "pn_usageCount s + 1 = n" "pn_status s = PrActive"
  shows "fst (promotion_recordUsage i t s) = Inr ()"
    "pn_status (snd (promotion_recordUsage i t s)) = PrDepleted"
    "pn_usageCount (snd (promotion_recordUsage i t s)) = n"
  using assms by (simp_all add: promotion_recordUsage_cases Let_def promotion_transition_cases)

lemma uses_deplete:
  assumes "pn_usageLimit s = Some n" "pn_status s = PrActive"
    and "int (length us) = n - pn_usageCount s" "us \<noteq> []"
  shows "uses_return us s \<and> pn_status (runs promotion_step (use_calls us) s) = PrDepleted \<and>
         pn_usageCount (runs promotion_step (use_calls us) s) = n"
  using assms
proof (induction us arbitrary: s)
  case (Cons u us)
  obtain i t where u: "u = (i, t)" by (cases u)
  show ?case
  proof (cases "us = []")
    case True
    with Cons.prems have "pn_usageCount s + 1 = n" by simp
    with True Cons.prems promotion_recordUsage_at_limit [of s n i t] show ?thesis
      by (simp add: u use_calls_def)
  next
    case False
    then have "pn_usageCount s + 1 < n" using Cons.prems by (cases us) auto
    with Cons.prems have r: "promotion_recordUsage i t s = (Inr (), s\<lparr>pn_usageCount := pn_usageCount s + 1\<rparr>)"
      by (simp add: promotion_recordUsage_before_limit)
    show ?thesis using Cons.IH [of "s\<lparr>pn_usageCount := pn_usageCount s + 1\<rparr>"] Cons.prems False
      by (simp add: u use_calls_def r)
  qed
qed simp

text \<open>
  An active promotion with a usage limit above its count takes exactly the missing number of
  applications: each \<open>recordUsage\<close> returns, the last one leaves it depleted with the count at the limit,
  and from then on no sequence of calls (transitions, usages, edits that raise the limit included)
  brings it back to give a determination for any cart, customer or time.
\<close>

lemma usage_limit_is_final:
  "pn_status s = PrActive \<Longrightarrow> pn_usageLimit s = Some n \<Longrightarrow> pn_usageCount s < n \<Longrightarrow>
   int (length us) = n - pn_usageCount s \<Longrightarrow>
   uses_return us s \<and> pn_status (runs promotion_step (use_calls us) s) = PrDepleted \<and>
   pn_usageCount (runs promotion_step (use_calls us) s) = n \<and>
   (\<forall>cs cart ref segs now.
      promotion_evaluate (runs promotion_step (use_calls us @ cs) s) cart ref segs now = None)"
proof -
  assume a: "pn_status s = PrActive" "pn_usageLimit s = Some n" "pn_usageCount s < n"
    "int (length us) = n - pn_usageCount s"
  then have "us \<noteq> []" by (cases us) auto
  with a uses_deplete [of s n us]
  have d: "uses_return us s" "pn_status (runs promotion_step (use_calls us) s) = PrDepleted"
    "pn_usageCount (runs promotion_step (use_calls us) s) = n" by blast+
  then have "pn_status (runs promotion_step (use_calls us @ cs) s) \<in> ended_statuses" for cs
    using ended_runs [of "runs promotion_step (use_calls us) s" cs] by (simp add: runs_append ended_statuses_def)
  with d show ?thesis using ended_not_evaluated by blast
qed

subsection \<open>The determination\<close>

definition cart_ok :: "cart_snapshot \<Rightarrow> bool" where
  "cart_ok cart = (0 \<le> cs_subtotalAmountMinor cart \<and> 100 * cs_subtotalAmountMinor cart < safe_limit \<and>
     list_all (\<lambda>l. 0 \<le> cl_quantity l \<and> 0 \<le> cl_unitPriceAmountMinor l) (cs_lines cart) \<and>
     cs_subtotalAmountMinor cart =
       sum_list (map (\<lambda>l. cl_quantity l * cl_unitPriceAmountMinor l) (cs_lines cart)))"

lemma sum_list_filter_bounds:
  fixes f :: "'a \<Rightarrow> int"
  shows "(\<And>x. x \<in> set xs \<Longrightarrow> 0 \<le> f x) \<Longrightarrow>
    0 \<le> sum_list (map f (filter P xs)) \<and> sum_list (map f (filter P xs)) \<le> sum_list (map f xs)"
  by (induction xs) (fastforce intro: add_increasing add_mono)+

lemma relevantLines_filter: "\<exists>P. relevantLines c cart = filter P (cs_lines cart)"
  by (auto simp: relevantLines_def intro: exI [of _ "\<lambda>_. True"])

lemma matched_bounds:
  assumes "cart_ok cart"
  shows "0 \<le> matchedSubtotalAmountMinor c cart \<and> matchedSubtotalAmountMinor c cart \<le> cs_subtotalAmountMinor cart"
proof -
  obtain P where "relevantLines c cart = filter P (cs_lines cart)" using relevantLines_filter by blast
  with assms sum_list_filter_bounds [of "cs_lines cart" "\<lambda>l. cl_quantity l * cl_unitPriceAmountMinor l" P]
  show ?thesis by (auto simp: matchedSubtotalAmountMinor_def cart_ok_def list_all_iff)
qed

lemma reward_percentage_range:
  assumes "PromotionReward_create p = Inr r" "rw_type r = PercentageReward" "reward_value r \<noteq> JNaN"
  shows "0 \<le> js_rat (reward_value r) \<and> js_rat (reward_value r) \<le> 100"
proof -
  from assms obtain v where "rw_value r = Some v" "\<not> js_less v (jint 0)" "\<not> js_less (jint 100) v"
    by (auto simp: PromotionReward_create_def Let_def rewardIssues_def split: if_splits option.splits)
  with assms show ?thesis by (cases v) (auto simp: reward_value_def split: if_splits)
qed

lemma reward_amount_nonneg:
  assumes "PromotionReward_create p = Inr r" "rw_type r = FixedAmountReward"
  shows "0 \<le> js_to_int (reward_value r)"
  using assms
  by (auto simp: PromotionReward_create_def Let_def rewardIssues_def bad_minor_def reward_value_def
      isInteger_iff split: if_splits option.splits)

lemma percentage_floor_bounds:
  assumes "0 \<le> n" "100 * n < safe_limit" "0 \<le> v" "v \<le> 100"
  shows "0 \<le> \<lfloor>js_div (js_mul (of_int n) v) 100\<rfloor> \<and> \<lfloor>js_div (js_mul (of_int n) v) 100\<rfloor> \<le> n"
proof -
  have v: "of_int n * v \<le> of_int (100 * n)" using assms mult_left_mono [of v 100 "of_int n"] by simp
  have m: "0 \<le> js_mul (of_int n) v \<and> js_mul (of_int n) v \<le> of_int (100 * n)"
    unfolding js_mul_def using assms v
    by (intro conjI fl_nonneg fl_int_ge) (auto simp: safe_limit_def)
  have "0 \<le> js_div (js_mul (of_int n) v) 100 \<and> js_div (js_mul (of_int n) v) 100 \<le> of_int n"
    unfolding js_div_def using assms m
    by (intro conjI fl_nonneg fl_int_ge) (auto simp: safe_limit_def)
  then show ?thesis by linarith
qed

lemma discountAmount_bounds:
  assumes "PromotionReward_create p = Inr r" "reward_value r \<noteq> JNaN" "0 \<le> n" "100 * n < safe_limit"
  shows "0 \<le> discountAmountMinor r n \<and> discountAmountMinor r n \<le> n"
proof (cases "rw_type r")
  case PercentageReward
  then show ?thesis using reward_percentage_range [OF assms(1) _ assms(2)] percentage_floor_bounds [of n] assms
    by (simp add: discountAmountMinor_def)
next
  case FixedAmountReward
  then show ?thesis using reward_amount_nonneg [OF assms(1)] assms
    by (simp add: discountAmountMinor_def)
qed (use assms in \<open>simp_all add: discountAmountMinor_def\<close>)

text \<open>
  A determination is given only for a promotion that is active, within its schedule, open to the
  customer and below its usage limit, on a cart that meets the condition; and where the reward is one
  \<open>PromotionReward.create\<close> returns (its value not NaN), what it takes off lies between nothing and the
  subtotal of the lines the condition is about, which never exceeds the subtotal of the cart.
\<close>

lemma determination_sound:
  "promotion_evaluate s cart ref segs now = Some d \<Longrightarrow>
   PromotionReward_create props = Inr (ru_reward (pn_rule s)) \<Longrightarrow>
   reward_value (ru_reward (pn_rule s)) \<noteq> JNaN \<Longrightarrow> cart_ok cart \<Longrightarrow>
   pd_promotionId d = agg_id s \<and> viewAt s now = ViewActive \<and>
   isEligible (pn_eligibility s) ref segs \<and>
   (\<forall>n. pn_usageLimit s = Some n \<longrightarrow> pn_usageCount s < n) \<and>
   condition_matches (ru_condition (pn_rule s)) cart \<and>
   0 \<le> pd_discountAmountMinor d \<and>
   pd_discountAmountMinor d \<le> matchedSubtotalAmountMinor (ru_condition (pn_rule s)) cart \<and>
   pd_discountAmountMinor d \<le> cs_subtotalAmountMinor cart"
  using matched_bounds [of cart "ru_condition (pn_rule s)"]
    discountAmount_bounds [of props "ru_reward (pn_rule s)" "matchedSubtotalAmountMinor (ru_condition (pn_rule s)) cart"]
  by (force simp: promotion_evaluate_def usage_left_def viewAt_def schedule_isActiveAt_def
      schedule_isExpiredAt_def cart_ok_def split: if_splits option.splits)

subsection \<open>An example\<close>

definition summer_reward :: promotion_reward where
  "summer_reward = \<lparr>rw_type = PercentageReward, rw_value = Some (jint 15), rw_buyQuantity = None,
     rw_getQuantity = None, rw_appliesOncePerOrder = None, rw_countries = None, rw_maxShippingRateMinor = None,
     rw_buys = None, rw_gets = None, rw_maxUsesPerOrder = None\<rparr>"

definition summer_condition :: promotion_condition where
  "summer_condition = \<lparr>pc_scope = ProductScope, pc_targetRefs = [''p1''], pc_minimumQuantity = Some 2,
     pc_minimumSubtotalAmountMinor = None\<rparr>"

definition summer_rule :: promotion_rule where
  "summer_rule = \<lparr>ru_type = AutomaticRule, ru_condition = summer_condition, ru_reward = summer_reward,
     ru_stackable = True, ru_priority = jint 1\<rparr>"

definition everyone :: customer_eligibility where
  "everyone = \<lparr>el_customerRefs = None, el_segmentRefs = None\<rparr>"

definition summer :: promotion where
  "summer = Promotion_reconstitute ''promo-1'' ''Summer'' summer_rule
     \<lparr>sc_startsAt = 10, sc_endsAt = Some 100\<rparr> everyone None (Some 2) 0 PrActive 1
     \<lparr>pst_method = Some AutomaticMethod, pst_combinesWith = None\<rparr>"

definition example_cart :: cart_snapshot where
  "example_cart = \<lparr>cs_lines = [\<lparr>cl_productRef = ''p1'', cl_categoryRefs = [], cl_quantity = 3,
       cl_unitPriceAmountMinor = 999\<rparr>, \<lparr>cl_productRef = ''p2'', cl_categoryRefs = [], cl_quantity = 1,
       cl_unitPriceAmountMinor = 500\<rparr>], cs_subtotalAmountMinor = 3497\<rparr>"

lemma summer_evaluates:
  "promotion_evaluate summer example_cart ''c1'' [] 50 =
     Some \<lparr>pd_promotionId = ''promo-1'', pd_discountAmountMinor = 449, pd_stackable = True, pd_priority = jint 1\<rparr>"
  "PromotionReward_create summer_reward = Inr (ru_reward (pn_rule summer))"
  "reward_value (ru_reward (pn_rule summer)) \<noteq> JNaN" "cart_ok example_cart"
  by code_simp+

lemma determination_sound_witness:
  "0 \<le> (449::int) \<and> viewAt summer 50 = ViewActive \<and> (449::int) \<le> cs_subtotalAmountMinor example_cart"
  using determination_sound [OF summer_evaluates] by simp

lemma usage_limit_is_final_witness:
  "pn_status (runs promotion_step (use_calls [(''e1'', 20), (''e2'', 30)]) summer) = PrDepleted \<and>
   promotion_evaluate (runs promotion_step (use_calls [(''e1'', 20), (''e2'', 30)] @ []) summer)
     example_cart ''c1'' [] 50 = None"
proof -
  have "pn_status summer = PrActive" "pn_usageLimit summer = Some 2" "pn_usageCount summer < 2"
    "int (length [(''e1'', 20 :: timestamp), (''e2'', 30)]) = 2 - pn_usageCount summer"
    by (simp_all add: summer_def Promotion_reconstitute_def)
  from usage_limit_is_final [OF this] show ?thesis by blast
qed

end
