(* ===== verification/DiscountCalculator.thy ===== *)
theory DiscountCalculator
  imports Promotions "HOL-Library.AList" "HOL-Library.Monad_Syntax"
begin

section \<open>The discount calculator\<close>

text \<open>
  services/promotions/src/domain/discount-calculator.ts: which discounts a cart gets, and how much each
  takes off which line. \<open>localeCompare\<close> of two promotion ids is a parameter \<open>loc\<close>. A JavaScript \<^verbatim>\<open>Map\<close> is
  an association list in insertion order. The \<^verbatim>\<open>while\<close> loop of the buy X get Y discount may run for ever
  on unvalidated quantities, so it is a \<open>partial_function (option)\<close>: \<open>None\<close> is a call that does not
  return, and what calls it is an \<open>option\<close> too. Divisions and percentages are those of binary64
  (\<open>JsNumber\<close>); sums and products of amounts are exact integers, as they are below \<open>2 ^ 53\<close>.
\<close>

subsection \<open>Data\<close>

datatype discount_rejection =
  NotFound | DExpired | NotStarted | MinimumNotMet | NoMatchingItems | NotEligible
| UsageLimitReached | AlreadyUsed | CannotCombine | TooManyCodes

definition MAX_DISCOUNT_CODES :: nat where "MAX_DISCOUNT_CODES = 5"

definition normalizeDiscountCode :: "string \<Rightarrow> string" where
  "normalizeDiscountCode code = toUpperCase (trim code)"

record discount_line =
  dl_lineRef :: string
  dl_productRef :: string
  dl_categoryRefs :: "string list"
  dl_quantity :: int
  dl_unitPriceMinor :: int

record discount_shipping =
  ds_countryCode :: string
  ds_rateMinor :: int

record discount_customer =
  dc_customerRef :: "string option"
  dc_email :: "string option"

datatype coupon_state_status = CsActive | CsDisabled | CsExpired | CsDepleted

record coupon_redemption_ref =
  rr_customerRef :: string
  rr_email :: "string option"

record coupon_state =
  ct_couponId :: string
  ct_code :: string
  ct_status :: coupon_state_status
  ct_usageLimit :: "int option"
  ct_usageCount :: int
  ct_oncePerCustomer :: bool
  ct_assignedCustomerRef :: "string option"
  ct_expiresAt :: "timestamp option"
  ct_redemptions :: "coupon_redemption_ref list"

record discount_candidate =
  cd_promotion :: promotion
  cd_coupon :: "coupon_state option"

record discounts_input =
  di_lines :: "discount_line list"
  di_shipping :: "discount_shipping option"
  di_customer :: discount_customer
  di_enteredCodes :: "string list"
  di_candidates :: "discount_candidate list"
  di_now :: timestamp

record applied_discount =
  ap_promotionId :: string
  ap_couponId :: "string option"
  ap_code :: "string option"
  ap_title :: string
  ap_discountClass :: discount_class
  ap_amountMinor :: int

record code_status =
  co_code :: string
  co_applicable :: bool
  co_reason :: "discount_rejection option"

record discount_result =
  dr_applied :: "applied_discount list"
  dr_orderDiscountMinor :: int
  dr_shippingDiscountMinor :: int
  dr_codeStatuses :: "code_status list"
  dr_lineAllocations :: "(string \<times> int) list"

record eligible =
  el_candidate :: discount_candidate
  el_promotionId :: string
  el_code :: "string option"
  el_discountClass :: discount_class
  el_combinesWith :: combines_with

fun CLASS_ORDER :: "discount_class \<Rightarrow> int" where
  "CLASS_ORDER ProductClass = 0"
| "CLASS_ORDER OrderClass = 1"
| "CLASS_ORDER ShippingClass = 2"

definition EXHAUSTIVE_LIMIT :: nat where "EXHAUSTIVE_LIMIT = 10"

subsection \<open>Lines and rejections\<close>

definition percentOf :: "int \<Rightarrow> rat \<Rightarrow> int" where
  "percentOf amount percentage =
     \<lfloor>js_div (js_mul (of_int amount) (of_int (js_round (js_mul percentage 100)))) 10000\<rfloor>"

definition dl_total :: "discount_line \<Rightarrow> int" where
  "dl_total l = dl_unitPriceMinor l * dl_quantity l"

definition matchingLines :: "discount_line list \<Rightarrow> promotion_scope \<Rightarrow> string list \<Rightarrow> discount_line list" where
  "matchingLines lines scope targetRefs =
     (if scope = CartScope \<or> length targetRefs = 0 then lines
      else if scope = ProductScope then filter (\<lambda>l. dl_productRef l \<in> set targetRefs) lines
      else filter (\<lambda>l. list_ex (\<lambda>r. r \<in> set targetRefs) (dl_categoryRefs l)) lines)"

definition usedBy :: "coupon_state \<Rightarrow> discount_customer \<Rightarrow> bool" where
  "usedBy coupon customer =
     (let email = map_option toLowerCase (dc_email customer) in
      list_ex (\<lambda>r. (dc_customerRef customer \<noteq> None \<and> Some (rr_customerRef r) = dc_customerRef customer) \<or>
                  (email \<noteq> None \<and> rr_email r \<noteq> None \<and> map_option toLowerCase (rr_email r) = email))
        (ct_redemptions coupon))"

definition quantity_of :: "discount_line list \<Rightarrow> int" where
  "quantity_of lines = sum_list (map dl_quantity lines)"

definition amount_of :: "discount_line list \<Rightarrow> int" where
  "amount_of lines = sum_list (map dl_total lines)"

definition opt_less :: "int \<Rightarrow> int option \<Rightarrow> bool" where
  "opt_less n m = (case m of None \<Rightarrow> False | Some k \<Rightarrow> n < k)"

definition opt_reached :: "int \<Rightarrow> int option \<Rightarrow> bool" where
  "opt_reached n m = (case m of None \<Rightarrow> False | Some k \<Rightarrow> k \<le> n)"

definition shipping_rejected :: "promotion_reward \<Rightarrow> discount_shipping option \<Rightarrow> bool" where
  "shipping_rejected r shipping =
     (case shipping of
        None \<Rightarrow> False
      | Some sh \<Rightarrow>
          rw_type r = FreeShippingReward \<and>
          ((case rw_countries r of
              None \<Rightarrow> False
            | Some cs \<Rightarrow> \<not> list_ex (\<lambda>c. toUpperCase c = toUpperCase (ds_countryCode sh)) cs) \<or>
           (case rw_maxShippingRateMinor r of None \<Rightarrow> False | Some m \<Rightarrow> js_less m (jint (ds_rateMinor sh)))))"

definition requirementRejection :: "promotion \<Rightarrow> discounts_input \<Rightarrow> discount_rejection option" where
  "requirementRejection p input =
     (let rule = pn_rule p; condition = ru_condition rule; reward = ru_reward rule;
          lines = di_lines input;
          matched = matchingLines lines (pc_scope condition) (pc_targetRefs condition) in
      if shipping_rejected reward (di_shipping input) then Some NotEligible
      else if ru_type rule = BuyXGetYRule then
        (case (rw_buys reward, rw_gets reward) of
           (Some buys, Some gets) \<Rightarrow>
             if length matched = 0 \<or> length (matchingLines lines (bg_scope gets) (bg_targetRefs gets)) = 0
             then Some NoMatchingItems
             else let bought = (if bb_kind buys = BuysQuantity then quantity_of matched else amount_of matched)
                  in if js_less (jint bought) (bb_value buys) then Some MinimumNotMet else None
         | _ \<Rightarrow> Some NoMatchingItems)
      else if discountClassOf rule = ProductClass \<and> length matched = 0 then Some NoMatchingItems
      else let base = (if discountClassOf rule = ProductClass then matched else lines) in
        if opt_less (amount_of base) (pc_minimumSubtotalAmountMinor condition) then Some MinimumNotMet
        else if opt_less (quantity_of base) (pc_minimumQuantity condition) then Some MinimumNotMet
        else None)"

text \<open>The three groups of checks of \<^verbatim>\<open>rejectionFor\<close>, in the order it makes them.\<close>

definition coupon_rejection :: "coupon_state option \<Rightarrow> timestamp \<Rightarrow> discount_rejection option" where
  "coupon_rejection coupon now =
     (case coupon of
        None \<Rightarrow> None
      | Some c \<Rightarrow>
          if ct_status c = CsDisabled then Some NotFound
          else if ct_status c = CsExpired then Some DExpired
          else if ct_status c = CsDepleted then Some UsageLimitReached
          else if opt_reached now (ct_expiresAt c) then Some DExpired else None)"

fun status_rejection :: "promotion_status \<Rightarrow> discount_rejection option" where
  "status_rejection PrDraft = Some NotFound"
| "status_rejection PrCancelled = Some NotFound"
| "status_rejection PrArchived = Some NotFound"
| "status_rejection PrPaused = Some DExpired"
| "status_rejection PrExpired = Some DExpired"
| "status_rejection PrDepleted = Some UsageLimitReached"
| "status_rejection PrActive = None"
| "status_rejection PrScheduled = None"

definition customer_rejected :: "customer_eligibility \<Rightarrow> coupon_state option \<Rightarrow> discount_customer \<Rightarrow> bool" where
  "customer_rejected e coupon customer =
     ((el_customerRefs e \<noteq> None \<or> el_segmentRefs e \<noteq> None) \<and>
        (case (dc_customerRef customer, el_customerRefs e) of
           (Some ref, Some refs) \<Rightarrow> ref \<notin> set refs | _ \<Rightarrow> True) \<or>
      (case Option.bind coupon ct_assignedCustomerRef of
         None \<Rightarrow> False | Some ref \<Rightarrow> Some ref \<noteq> dc_customerRef customer))"

definition rejectionFor :: "discount_candidate \<Rightarrow> discounts_input \<Rightarrow> discount_rejection option" where
  "rejectionFor candidate input =
     (let promotion = cd_promotion candidate; coupon = cd_coupon candidate; now = di_now input in
      if coupon_rejection coupon now \<noteq> None then coupon_rejection coupon now
      else if status_rejection (pn_status promotion) \<noteq> None then status_rejection (pn_status promotion)
      else if now < sc_startsAt (pn_schedule promotion) then Some NotStarted
      else if schedule_isExpiredAt (pn_schedule promotion) now then Some DExpired
      else if customer_rejected (pn_eligibility promotion) coupon (di_customer input) then Some NotEligible
      else if opt_reached (pn_usageCount promotion) (pn_usageLimit promotion) then Some UsageLimitReached
      else if (case coupon of None \<Rightarrow> False | Some c \<Rightarrow> opt_reached (ct_usageCount c) (ct_usageLimit c))
      then Some UsageLimitReached
      else if (case coupon of None \<Rightarrow> False | Some c \<Rightarrow> ct_oncePerCustomer c \<and> usedBy c (di_customer input))
      then Some AlreadyUsed
      else requirementRejection promotion input)"

subsection \<open>Splitting an amount over lines\<close>

type_synonym amounts = "(string \<times> int) list"

text \<open>\<^verbatim>\<open>new Map(entries)\<close> and \<^verbatim>\<open>map.get(ref) ?? 0\<close>\<close>

definition js_map :: "('k \<times> 'v) list \<Rightarrow> ('k \<times> 'v) list" where
  "js_map kvs = fold (\<lambda>(k, v). AList.update k v) kvs []"

definition get0 :: "amounts \<Rightarrow> string \<Rightarrow> int" where
  "get0 m k = (case map_of m k of None \<Rightarrow> 0 | Some v \<Rightarrow> v)"

record share =
  sh_ref :: string
  sh_index :: nat
  sh_value :: int
  sh_fraction :: rat

definition share_of :: "int \<Rightarrow> int \<Rightarrow> nat \<times> string \<times> int \<Rightarrow> share" where
  "share_of amount whole b =
     (let exact = js_div (js_mul (of_int amount) (of_int (snd (snd b)))) (of_int whole) in
      \<lparr>sh_ref = fst (snd b), sh_index = fst b, sh_value = \<lfloor>exact\<rfloor>, sh_fraction = js_fraction exact\<rparr>)"

definition share_cmp :: "share \<Rightarrow> share \<Rightarrow> int" where
  "share_cmp a b =
     (let d = js_sub (sh_fraction b) (sh_fraction a) in
      if d < 0 then -1 else if 0 < d then 1 else int (sh_index a) - int (sh_index b))"

text \<open>The indexes of the shares that get one more unit.\<close>

fun bumped :: "int \<Rightarrow> share list \<Rightarrow> nat list" where
  "bumped left [] = []"
| "bumped left (s # ss) = (if left = 0 then [] else sh_index s # bumped (left - 1) ss)"

definition allocate :: "int \<Rightarrow> (string \<times> int) list \<Rightarrow> amounts" where
  "allocate amount base =
     (let whole = sum_list (map snd base) in
      if amount \<le> 0 \<or> whole \<le> 0 then js_map (map (\<lambda>b. (fst b, 0)) base)
      else let shares = map (share_of amount whole) (List.enumerate 0 base);
               left = amount - sum_list (map sh_value shares);
               up = bumped left (sort_cmp share_cmp shares)
           in js_map (map (\<lambda>s. (sh_ref s, sh_value s + (if sh_index s \<in> set up then 1 else 0))) shares))"

subsection \<open>Buy X get Y\<close>

text \<open>\<^verbatim>\<open>xs.slice(0, n)\<close>\<close>

definition slice0 :: "int \<Rightarrow> 'a list \<Rightarrow> 'a list" where
  "slice0 n xs = take (nat (if n < 0 then int (length xs) + n else n)) xs"

definition units_of :: "discount_line list \<Rightarrow> amounts \<Rightarrow> (string \<times> int) list" where
  "units_of lines remaining =
     concat (map (\<lambda>l. replicate (nat (dl_quantity l))
       (dl_lineRef l, \<lfloor>js_div (of_int (get0 remaining (dl_lineRef l))) (of_int (dl_quantity l))\<rfloor>)) lines)"

definition cheapest_first :: "(string \<times> int) list \<Rightarrow> nat \<Rightarrow> nat \<Rightarrow> int" where
  "cheapest_first units a b =
     (let d = snd (units ! a) - snd (units ! b) in if d \<noteq> 0 then d else int a - int b)"

definition dearest_first :: "(string \<times> int) list \<Rightarrow> nat \<Rightarrow> nat \<Rightarrow> int" where
  "dearest_first units a b =
     (let d = snd (units ! b) - snd (units ! a) in if d \<noteq> 0 then d else int a - int b)"

definition under_limit :: "int \<Rightarrow> int option \<Rightarrow> bool" where
  "under_limit n maxUses = (case maxUses of None \<Rightarrow> True | Some m \<Rightarrow> n < m)"

text \<open>The \<^verbatim>\<open>while (uses < maxUses)\<close> loop: \<open>used\<close> and \<open>got\<close> are index lists in insertion order.\<close>

partial_function (option) use_loop ::
  "nat list \<Rightarrow> nat list \<Rightarrow> int \<Rightarrow> int \<Rightarrow> int option \<Rightarrow> int \<Rightarrow> nat list \<Rightarrow> nat list \<Rightarrow> nat list option" where
  "use_loop buysOrder getsOrder buyN getN maxUses uses used got =
     (if \<not> under_limit uses maxUses then Some got
      else let bought = slice0 buyN (filter (\<lambda>i. i \<notin> set used) buysOrder) in
        if int (length bought) < buyN then Some got
        else let used1 = used @ bought;
                 free = slice0 getN (filter (\<lambda>i. i \<notin> set used1) getsOrder) in
          if int (length free) < getN then Some got
          else use_loop buysOrder getsOrder buyN getN maxUses (uses + 1) (used1 @ free) (got @ free))"

definition add_off :: "gets_effect \<Rightarrow> (string \<times> int) \<Rightarrow> amounts \<Rightarrow> amounts" where
  "add_off effect u m =
     (let off = (case effect of GetsFree \<Rightarrow> snd u | GetsPercentage v \<Rightarrow> percentOf (snd u) (js_rat v))
      in AList.update (fst u) (get0 m (fst u) + off) m)"

definition buyXGetYDiscounts :: "promotion \<Rightarrow> discount_line list \<Rightarrow> amounts \<Rightarrow> amounts option" where
  "buyXGetYDiscounts p lines remaining =
     (let rule = pn_rule p; reward = ru_reward rule in
      case (rw_buys reward, rw_gets reward) of
        (Some buys, Some gets) \<Rightarrow>
          let buysRefs = map dl_lineRef
                (matchingLines lines (pc_scope (ru_condition rule)) (pc_targetRefs (ru_condition rule)));
              getsRefs = map dl_lineRef (matchingLines lines (bg_scope gets) (bg_targetRefs gets));
              units = units_of lines remaining;
              indexes = [0..<length units];
              getsOrder = sort_cmp (cheapest_first units) (filter (\<lambda>i. fst (units ! i) \<in> set getsRefs) indexes);
              buysOrder = sort_cmp (dearest_first units) (filter (\<lambda>i. fst (units ! i) \<in> set buysRefs) indexes);
              buyN = js_to_int (bb_value buys); getN = js_to_int (bg_quantity gets);
              maxUses = map_option js_to_int (rw_maxUsesPerOrder reward) in
          Option.bind
            (if bb_kind buys = BuysAmount then
               let free = slice0 getN getsOrder;
                   freeAmountFromBuys =
                     sum_list (map (\<lambda>i. snd (units ! i)) (filter (\<lambda>i. fst (units ! i) \<in> set buysRefs) free));
                   bought = sum_list (map (\<lambda>l. get0 remaining (dl_lineRef l))
                       (filter (\<lambda>l. dl_lineRef l \<in> set buysRefs) lines)) - freeAmountFromBuys
               in Some (if buyN \<le> bought \<and> under_limit 0 maxUses \<and> int (length free) = getN then free else [])
             else use_loop buysOrder getsOrder buyN getN maxUses 0 [] [])
            (\<lambda>got. Some (map (\<lambda>(ref, amount). (ref, min amount (get0 remaining ref)))
               (fold (\<lambda>i. add_off (bg_effect gets) (units ! i)) got [])))
      | _ \<Rightarrow> Some [])"

subsection \<open>One discount, one set of discounts\<close>

definition lineDiscounts :: "promotion \<Rightarrow> discount_line list \<Rightarrow> amounts \<Rightarrow> amounts option" where
  "lineDiscounts p lines remaining =
     (let rule = pn_rule p; condition = ru_condition rule; reward = ru_reward rule in
      if ru_type rule = BuyXGetYRule then buyXGetYDiscounts p lines remaining
      else
        let isProduct = (discountClassOf rule = ProductClass);
            targets = (if isProduct then matchingLines lines (pc_scope condition) (pc_targetRefs condition) else lines);
            base = map (\<lambda>l. (dl_lineRef l, get0 remaining (dl_lineRef l))) targets;
            whole = sum_list (map snd base);
            val = reward_value reward in
        Some (if rw_type reward = PercentageReward then
                if isProduct then js_map (map (\<lambda>b. (fst b, percentOf (snd b) (js_rat val))) base)
                else allocate (percentOf whole (js_rat val)) base
              else if isProduct \<and> rw_appliesOncePerOrder reward \<noteq> Some True
              then js_map (map (\<lambda>l. (dl_lineRef l,
                     min (get0 remaining (dl_lineRef l)) (js_to_int val * dl_quantity l))) targets)
              else allocate (min (js_to_int val) whole) base))"

record application_state =
  as_remaining :: amounts
  as_allocations :: amounts
  as_shippingLeft :: int
  as_applied :: "applied_discount list"

fun take_off :: "(string \<times> int) list \<Rightarrow> amounts \<times> amounts \<times> int \<Rightarrow> amounts \<times> amounts \<times> int" where
  "take_off [] st = st"
| "take_off ((ref, off) # offs) (remaining, allocations, amount) =
     take_off offs
       (if off \<le> 0 then (remaining, allocations, amount)
        else (AList.update ref (get0 remaining ref - off) remaining,
              AList.update ref (get0 allocations ref + off) allocations, amount + off))"

definition applied_entry :: "eligible \<Rightarrow> int \<Rightarrow> applied_discount" where
  "applied_entry e amount =
     \<lparr>ap_promotionId = el_promotionId e, ap_couponId = map_option ct_couponId (cd_coupon (el_candidate e)),
      ap_code = el_code e, ap_title = pn_name (cd_promotion (el_candidate e)),
      ap_discountClass = el_discountClass e, ap_amountMinor = amount\<rparr>"

definition apply_one :: "discount_line list \<Rightarrow> eligible \<Rightarrow> application_state \<Rightarrow> application_state option" where
  "apply_one lines e st =
     (if el_discountClass e = ShippingClass
      then Some (st\<lparr>as_shippingLeft := 0, as_applied := as_applied st @ [applied_entry e (as_shippingLeft st)]\<rparr>)
      else Option.bind (lineDiscounts (cd_promotion (el_candidate e)) lines (as_remaining st)) (\<lambda>offs.
        let (remaining, allocations, amount) = take_off offs (as_remaining st, as_allocations st, 0) in
        Some (st\<lparr>as_remaining := remaining, as_allocations := allocations,
                 as_applied := as_applied st @ [applied_entry e amount]\<rparr>)))"

fun apply_all :: "discount_line list \<Rightarrow> eligible list \<Rightarrow> application_state \<Rightarrow> application_state option" where
  "apply_all lines [] st = Some st"
| "apply_all lines (e # es) st = Option.bind (apply_one lines e st) (apply_all lines es)"

definition class_then_id :: "(string \<Rightarrow> string \<Rightarrow> int) \<Rightarrow> eligible \<Rightarrow> eligible \<Rightarrow> int" where
  "class_then_id loc a b =
     (let d = CLASS_ORDER (el_discountClass a) - CLASS_ORDER (el_discountClass b) in
      if d \<noteq> 0 then d else loc (el_promotionId a) (el_promotionId b))"

record application =
  an_applied :: "applied_discount list"
  an_allocations :: amounts
  an_total :: int
  an_set :: "eligible list"

definition start_state :: "discounts_input \<Rightarrow> application_state" where
  "start_state input =
     \<lparr>as_remaining = js_map (map (\<lambda>l. (dl_lineRef l, dl_total l)) (di_lines input)), as_allocations = [],
      as_shippingLeft = (case di_shipping input of None \<Rightarrow> 0 | Some sh \<Rightarrow> ds_rateMinor sh), as_applied = []\<rparr>"

definition applySet :: "(string \<Rightarrow> string \<Rightarrow> int) \<Rightarrow> discounts_input \<Rightarrow> eligible list \<Rightarrow> application option" where
  "applySet loc input es =
     map_option (\<lambda>st. \<lparr>an_applied = as_applied st, an_allocations = as_allocations st,
         an_total = sum_list (map ap_amountMinor (as_applied st)), an_set = es\<rparr>)
       (apply_all (di_lines input) (sort_cmp (class_then_id loc) es) (start_state input))"

subsection \<open>The best set\<close>

definition combinable :: "eligible \<Rightarrow> eligible \<Rightarrow> bool" where
  "combinable a b =
     canCombine (el_discountClass a, el_combinesWith a) (el_discountClass b, el_combinesWith b)"

fun isCompatible :: "eligible list \<Rightarrow> bool" where
  "isCompatible [] = True"
| "isCompatible (e # es) = (list_all (combinable e) es \<and> isCompatible es)"

definition str_cmp :: "string \<Rightarrow> string \<Rightarrow> int" where
  "str_cmp a b = (if str_less a b then -1 else if str_less b a then 1 else 0)"

definition set_key :: "eligible list \<Rightarrow> string" where
  "set_key es = join ''|'' (sort_cmp str_cmp (map el_promotionId es))"

definition code_count :: "eligible list \<Rightarrow> nat" where
  "code_count es = length (filter (\<lambda>e. el_code e \<noteq> None) es)"

definition isBetter :: "application \<Rightarrow> application \<Rightarrow> bool" where
  "isBetter a b =
     (if an_total a \<noteq> an_total b then an_total a > an_total b
      else if code_count (an_set a) \<noteq> code_count (an_set b)
      then code_count (an_set a) > code_count (an_set b)
      else str_less (set_key (an_set a)) (set_key (an_set b)))"

text \<open>\<^verbatim>\<open>eligible.filter((_, i) => (mask & (1 << i)) !== 0)\<close>\<close>

definition mask_set :: "nat \<Rightarrow> 'a list \<Rightarrow> 'a list" where
  "mask_set bits xs = map snd (filter (\<lambda>(i, _). (bits div 2 ^ i) mod 2 \<noteq> 0) (List.enumerate 0 xs))"

fun best_of :: "(string \<Rightarrow> string \<Rightarrow> int) \<Rightarrow> discounts_input \<Rightarrow> eligible list \<Rightarrow> nat list \<Rightarrow> application \<Rightarrow> application option" where
  "best_of loc input elig [] best = Some best"
| "best_of loc input elig (bits # masks) best =
     (let es = mask_set bits elig in
      if \<not> isCompatible es then best_of loc input elig masks best
      else Option.bind (applySet loc input es) (\<lambda>candidate.
        best_of loc input elig masks (if isBetter candidate best then candidate else best)))"

fun greedy_set :: "eligible list \<Rightarrow> eligible list \<Rightarrow> eligible list" where
  "greedy_set es [] = es"
| "greedy_set es (e # rest) = greedy_set (if isCompatible (es @ [e]) then es @ [e] else es) rest"

definition bestSet :: "(string \<Rightarrow> string \<Rightarrow> int) \<Rightarrow> discounts_input \<Rightarrow> eligible list \<Rightarrow> application option" where
  "bestSet loc input elig =
     Option.bind (applySet loc input []) (\<lambda>best.
       if length elig \<le> EXHAUSTIVE_LIMIT then best_of loc input elig [1..<2 ^ length elig] best
       else Option.bind (those (map (\<lambda>e. map_option (\<lambda>a. (e, an_total a)) (applySet loc input [e])) elig))
         (\<lambda>savings. applySet loc input
            (greedy_set [] (map fst (sort_cmp (\<lambda>a b. snd b - snd a) savings)))))"

subsection \<open>The calculation\<close>

record screening =
  sn_rejections :: "(string \<times> discount_rejection) list"
  sn_eligible :: "eligible list"

definition candidate_code :: "discount_candidate \<Rightarrow> string option" where
  "candidate_code c = map_option (\<lambda>k. normalizeDiscountCode (ct_code k)) (cd_coupon c)"

definition to_eligible :: "discount_candidate \<Rightarrow> eligible" where
  "to_eligible c =
     \<lparr>el_candidate = c, el_promotionId = agg_id (cd_promotion c), el_code = candidate_code c,
      el_discountClass = discountClassOf (pn_rule (cd_promotion c)),
      el_combinesWith = pn_combinesWith (cd_promotion c)\<rparr>"

definition screen_candidate :: "discounts_input \<Rightarrow> string list \<Rightarrow> discount_candidate \<Rightarrow> screening \<Rightarrow> screening" where
  "screen_candidate input activeCodes c st =
     (if (case candidate_code c of
            Some code \<Rightarrow> code \<notin> set activeCodes
          | None \<Rightarrow> pn_method (cd_promotion c) \<noteq> Some AutomaticMethod) then st
      else case rejectionFor c input of
             Some reason \<Rightarrow>
               (case candidate_code c of
                  None \<Rightarrow> st
                | Some code \<Rightarrow> st\<lparr>sn_rejections := AList.update code reason (sn_rejections st)\<rparr>)
           | None \<Rightarrow> st\<lparr>sn_eligible := sn_eligible st @ [to_eligible c]\<rparr>)"

definition entered_codes :: "discounts_input \<Rightarrow> string list" where
  "entered_codes input = filter (\<lambda>c. c \<noteq> []) (dedup (map normalizeDiscountCode (di_enteredCodes input)))"

definition screen :: "discounts_input \<Rightarrow> screening" where
  "screen input =
     fold (screen_candidate input (take MAX_DISCOUNT_CODES (entered_codes input))) (di_candidates input)
       \<lparr>sn_rejections = [], sn_eligible = []\<rparr>"

definition empty_codes :: "discounts_input \<Rightarrow> applied_discount list \<Rightarrow> string list" where
  "empty_codes input applied =
     List.map_filter ap_code (filter (\<lambda>a. ap_amountMinor a = 0 \<and>
       (ap_discountClass a \<noteq> ShippingClass \<or> di_shipping input \<noteq> None)) applied)"

definition code_status_of :: "screening \<Rightarrow> string list \<Rightarrow> string list \<Rightarrow> nat \<times> string \<Rightarrow> code_status" where
  "code_status_of sn emptyCodes chosenCodes ic =
     (let code = snd ic;
          rejected = (\<lambda>r. \<lparr>co_code = code, co_applicable = False, co_reason = Some r\<rparr>) in
      if fst ic \<ge> MAX_DISCOUNT_CODES then rejected TooManyCodes
      else if code \<in> set emptyCodes then rejected NoMatchingItems
      else if code \<in> set chosenCodes then \<lparr>co_code = code, co_applicable = True, co_reason = None\<rparr>
      else case map_of (sn_rejections sn) code of
             Some r \<Rightarrow> rejected r
           | None \<Rightarrow> rejected (if list_ex (\<lambda>e. el_code e = Some code) (sn_eligible sn)
                              then CannotCombine else NotFound))"

definition result_of :: "discounts_input \<Rightarrow> screening \<Rightarrow> application \<Rightarrow> discount_result" where
  "result_of input sn best =
     (let emptyCodes = empty_codes input (an_applied best);
          chosenCodes = filter (\<lambda>c. c \<notin> set emptyCodes) (List.map_filter el_code (an_set best));
          applied = filter (\<lambda>a. case ap_code a of None \<Rightarrow> 0 < ap_amountMinor a
                                | Some c \<Rightarrow> c \<notin> set emptyCodes) (an_applied best)
      in \<lparr>dr_applied = applied,
          dr_orderDiscountMinor =
            sum_list (map ap_amountMinor (filter (\<lambda>a. ap_discountClass a \<noteq> ShippingClass) applied)),
          dr_shippingDiscountMinor =
            sum_list (map ap_amountMinor (filter (\<lambda>a. ap_discountClass a = ShippingClass) applied)),
          dr_codeStatuses =
            map (code_status_of sn emptyCodes chosenCodes) (List.enumerate 0 (entered_codes input)),
          dr_lineAllocations =
            filter (\<lambda>a. 0 < snd a)
              (map (\<lambda>l. (dl_lineRef l, get0 (an_allocations best) (dl_lineRef l))) (di_lines input))\<rparr>)"

definition calculateDiscounts :: "(string \<Rightarrow> string \<Rightarrow> int) \<Rightarrow> discounts_input \<Rightarrow> discount_result option" where
  "calculateDiscounts loc input =
     (let sn = screen input in map_option (result_of input sn) (bestSet loc input (sn_eligible sn)))"

end
