(* ===== verification/LargestRemainder.thy ===== *)
theory LargestRemainder
  imports Prelude
begin

section \<open>Sharing an amount by largest remainder\<close>

text \<open>
  Facts that the splits of \<^verbatim>\<open>discount-calculator.ts\<close> and \<^verbatim>\<open>tax-calculation.ts\<close> share: a comparator that sorts
  some elements to the front, what the integer quotients of a sum leave over, and how many parts it reaches.
\<close>

subsection \<open>Sorting\<close>

text \<open>A comparator that puts the elements of \<open>P\<close> first sorts them to the front.\<close>

definition front :: "('a \<Rightarrow> bool) \<Rightarrow> 'a list \<Rightarrow> bool" where
  "front P xs = sorted_wrt (\<lambda>x y. P y \<longrightarrow> P x) xs"

lemma front_ins_cmp:
  assumes "\<And>y. P x \<Longrightarrow> \<not> P y \<Longrightarrow> cmp x y \<le> 0" "\<And>y. \<not> P x \<Longrightarrow> P y \<Longrightarrow> 0 < cmp x y"
  shows "front P ys \<Longrightarrow> front P (ins_cmp cmp x ys)"
proof (induction ys)
  case (Cons y ys)
  have set: "set (ins_cmp cmp x ys) = insert x (set ys)"
    by (metis mset_ins_cmp set_mset_mset set_mset_add_mset_insert)
  show ?case
  proof (cases "cmp x y \<le> 0")
    case True
    then have "P y \<Longrightarrow> P x" using assms(2) [of y] by auto
    with True Cons.prems show ?thesis by (auto simp: front_def)
  next
    case False
    then have "P x \<Longrightarrow> P y" using assms(1) [of y] by auto
    with False Cons set show ?thesis by (auto simp: front_def)
  qed
qed (simp add: front_def)

lemma front_sort_cmp:
  assumes "\<And>x y. P x \<Longrightarrow> \<not> P y \<Longrightarrow> cmp x y \<le> 0" "\<And>x y. \<not> P x \<Longrightarrow> P y \<Longrightarrow> 0 < cmp x y"
  shows "front P (sort_cmp cmp xs)"
  by (induction xs) (simp_all add: front_def [of P "[]"] front_ins_cmp assms)

lemma front_take:
  assumes "front P xs" "n \<le> length (filter P xs)" "x \<in> set (take n xs)"
  shows "P x"
  using assms
proof (induction xs arbitrary: n)
  case (Cons y ys)
  show ?case
  proof (cases "P y")
    case True
    with Cons show ?thesis by (cases n) (auto simp: front_def)
  next
    case False
    with Cons.prems have "filter P (y # ys) = []" by (auto simp: front_def filter_empty_conv)
    with Cons.prems show ?thesis by simp
  qed
qed simp

subsection \<open>Quotients of a sum\<close>

lemma sum_div_mod:
  fixes w :: int
  shows "w * (\<Sum>x\<leftarrow>xs. f x div w) + (\<Sum>x\<leftarrow>xs. f x mod w) = (\<Sum>x\<leftarrow>xs. f x)"
  by (induction xs) (simp_all add: algebra_simps)

lemma sum_mod_count:
  fixes w :: int
  assumes "0 < w"
  shows "0 \<le> (\<Sum>x\<leftarrow>xs. f x mod w) \<and>
    (\<Sum>x\<leftarrow>xs. f x mod w) \<le> w * int (length (filter (\<lambda>x. f x mod w \<noteq> 0) xs))"
proof (induction xs)
  case (Cons x xs)
  moreover have "0 \<le> f x mod w" "f x mod w \<le> w" using assms by (simp_all add: less_imp_le)
  ultimately show ?case by (auto simp: algebra_simps)
qed simp

lemma sum_indicator:
  "(\<Sum>x\<leftarrow>xs. if P x then 1 else 0 :: int) = int (length (filter P xs))"
  by (induction xs) auto

lemma length_filter_mem:
  assumes "distinct (map f xs)" "distinct up" "set up \<subseteq> f ` set xs"
  shows "length (filter (\<lambda>x. f x \<in> set up) xs) = length up"
proof -
  have "distinct (map f (filter (\<lambda>x. f x \<in> set up) xs))"
    using assms(1) by (rule distinct_map_filter)
  moreover have "set (map f (filter (\<lambda>x. f x \<in> set up) xs)) = set up" using assms(3) by auto
  ultimately show ?thesis using assms(2) by (metis distinct_card length_map)
qed

lemma sum_list_diff_nat:
  fixes v :: "'a \<Rightarrow> int"
  shows "(\<Sum>x\<leftarrow>xs. v x + (if P x then 1 else 0)) = (\<Sum>x\<leftarrow>xs. v x) + int (length (filter P xs))"
  by (simp add: sum_list_addf sum_indicator)

lemma share_bound:
  fixes w :: int
  assumes "0 < w" "0 \<le> a * v" "a \<le> w" "0 \<le> v"
  shows "0 \<le> a * v div w" "a * v div w \<le> v" "a * v mod w \<noteq> 0 \<Longrightarrow> a * v div w + 1 \<le> v"
proof -
  have le: "a * v \<le> w * v" using assms by (simp add: mult_right_mono)
  have eq: "a * v = w * (a * v div w) + a * v mod w" by simp
  have m: "0 \<le> a * v mod w" using assms by simp
  show "0 \<le> a * v div w" using assms by (simp add: pos_imp_zdiv_nonneg_iff)
  have "w * (a * v div w) \<le> w * v" using le eq m by linarith
  then show "a * v div w \<le> v" using assms by simp
  assume "a * v mod w \<noteq> 0"
  then have "w * (a * v div w) < w * v" using le eq m by linarith
  then have "a * v div w < v" using assms by simp
  then show "a * v div w + 1 \<le> v" by simp
qed

end
