(* ===== verification/DiscountAmounts.thy ===== *)
theory DiscountAmounts
  imports DiscountCalculator LargestRemainder
begin

section \<open>What discounts take off\<close>

text \<open>
  Facts about the amounts of \<^verbatim>\<open>discount-calculator.ts\<close>: the percentages and the split of an amount over
  lines are exact, the buy X get Y loop returns, and whatever set of discounts is applied, every line
  keeps a balance between nothing and its total. Carts are meant within \<open>lines_ok\<close>: distinct line refs,
  amounts whose square stays below \<open>2 ^ 53\<close> (about 94.9 million minor units).
\<close>

subsection \<open>Maps\<close>

lemma update_new: "k \<notin> fst ` set al \<Longrightarrow> AList.update k v al = al @ [(k, v)]"
  by (induction al) auto

lemma fold_update_distinct:
  "distinct (map fst (al @ kvs)) \<Longrightarrow> fold (\<lambda>(k, v). AList.update k v) kvs al = al @ kvs"
proof (induction kvs arbitrary: al)
  case (Cons p kvs)
  obtain k v where p: "p = (k, v)" by (cases p)
  with Cons.prems have "k \<notin> fst ` set al" by auto
  with Cons.IH [of "al @ [(k, v)]"] Cons.prems show ?case by (simp add: p update_new)
qed simp

lemma js_map_distinct: "distinct (map fst kvs) \<Longrightarrow> js_map kvs = kvs"
  using fold_update_distinct [of "[]" kvs] by (simp add: js_map_def)

lemma get0_update [simp]: "get0 (AList.update k v m) k' = (if k' = k then v else get0 m k')"
  by (simp add: get0_def update_conv')

lemma get0_Nil [simp]: "get0 [] k = 0"
  by (simp add: get0_def)

lemma get0_notin: "k \<notin> fst ` set m \<Longrightarrow> get0 m k = 0"
  by (simp add: get0_def flip: map_of_eq_None_iff)

subsection \<open>Percentages\<close>

lemma percentOf_bounds:
  assumes "0 \<le> n" "n * 10000 < safe_limit" "0 \<le> v" "v \<le> 100"
  shows "0 \<le> percentOf n v \<and> percentOf n v \<le> n"
proof -
  define p where "p = js_round (js_mul v 100)"
  have "0 \<le> js_mul v 100" "js_mul v 100 \<le> of_int 10000"
    unfolding js_mul_def using assms by (intro fl_nonneg fl_int_ge; simp add: safe_limit_def)+
  then have p: "0 \<le> p" "p \<le> 10000" by (simp_all add: p_def js_round_def)
  have le: "n * p \<le> n * 10000" using assms p by (intro mult_left_mono) auto
  then have m: "js_mul (of_int n) (of_int p) = of_int (n * p)"
    using assms p by (intro js_mul_of_int) auto
  have "percentOf n v = \<lfloor>js_div (of_int (n * p)) (of_int 10000)\<rfloor>"
    by (simp add: percentOf_def m flip: p_def)
  also have "\<dots> = n * p div 10000"
    using assms p le by (intro floor_js_div) auto
  finally have "percentOf n v = n * p div 10000" .
  moreover have "n * p div 10000 \<le> n * 10000 div 10000" using le by (intro zdiv_mono1) auto
  ultimately show ?thesis using assms p by (simp add: pos_imp_zdiv_nonneg_iff)
qed

subsection \<open>Splitting an amount\<close>

lemma bumped_take: "bumped (int n) ss = map sh_index (take n ss)"
proof (induction ss arbitrary: n)
  case (Cons s ss)
  then show ?case by (cases n) simp_all
qed simp

lemma share_of_value:
  assumes "0 \<le> amount * a" "amount * a < safe_limit" "0 < whole"
  shows "sh_value (share_of amount whole (i, r, a)) = amount * a div whole"
    "0 < sh_fraction (share_of amount whole (i, r, a)) \<longleftrightarrow> amount * a mod whole \<noteq> 0"
  using assms by (simp_all add: share_of_def Let_def js_mul_of_int floor_js_div js_fraction_div del: of_int_mult)

lemma share_cmp_front:
  "0 < sh_fraction x \<Longrightarrow> \<not> 0 < sh_fraction y \<Longrightarrow> share_cmp x y \<le> 0"
  "\<not> 0 < sh_fraction x \<Longrightarrow> 0 < sh_fraction y \<Longrightarrow> 0 < share_cmp x y"
  using fl_neg [of "sh_fraction y - sh_fraction x"] fl_pos_positive [of "sh_fraction y - sh_fraction x"]
  by (auto simp: share_cmp_def js_sub_def Let_def)

definition split_ok :: "int \<Rightarrow> (string \<times> int) list \<Rightarrow> bool" where
  "split_ok amount base =
     (distinct (map fst base) \<and> (\<forall>b\<in>set base. 0 \<le> snd b) \<and> 0 \<le> amount \<and>
      amount \<le> sum_list (map snd base) \<and> amount * sum_list (map snd base) < safe_limit)"


text \<open>The shares of an amount over lines: their index, value and fraction, and what they leave over.\<close>

definition shares_of :: "int \<Rightarrow> (string \<times> int) list \<Rightarrow> share list" where
  "shares_of amount base = map (share_of amount (sum_list (map snd base))) (List.enumerate 0 base)"

definition left_over :: "int \<Rightarrow> (string \<times> int) list \<Rightarrow> int" where
  "left_over amount base = amount - sum_list (map sh_value (shares_of amount base))"

definition bumped_indexes :: "int \<Rightarrow> (string \<times> int) list \<Rightarrow> nat list" where
  "bumped_indexes amount base = bumped (left_over amount base) (sort_cmp share_cmp (shares_of amount base))"

lemma length_shares [simp]: "length (shares_of amount base) = length base"
  by (simp add: shares_of_def)

lemma share_index [simp]: "i < length base \<Longrightarrow> sh_index (shares_of amount base ! i) = i"
  by (simp add: shares_of_def nth_enumerate_eq share_of_def Let_def)

lemma share_ref [simp]: "i < length base \<Longrightarrow> sh_ref (shares_of amount base ! i) = fst (base ! i)"
  by (simp add: shares_of_def nth_enumerate_eq share_of_def Let_def)

lemma share_product_range:
  assumes "split_ok amount base" "b \<in> set base"
  shows "0 \<le> amount * snd b \<and> amount * snd b < safe_limit"
proof -
  have b: "0 \<le> snd b" and le: "snd b \<le> sum_list (map snd base)"
    using assms by (auto simp: split_ok_def intro: sum_list_nonneg_mem)
  then have "amount * snd b \<le> amount * sum_list (map snd base)"
    using assms by (intro mult_left_mono) (auto simp: split_ok_def)
  with b assms show ?thesis by (auto simp: split_ok_def)
qed

lemma share_numbers:
  assumes "split_ok amount base" "0 < sum_list (map snd base)" "i < length base"
  shows "sh_value (shares_of amount base ! i) = amount * snd (base ! i) div sum_list (map snd base)"
    "0 < sh_fraction (shares_of amount base ! i) \<longleftrightarrow> amount * snd (base ! i) mod sum_list (map snd base) \<noteq> 0"
  using share_product_range [OF assms(1), of "base ! i"] assms
    share_of_value [of amount "snd (base ! i)" "sum_list (map snd base)" i "fst (base ! i)"]
  by (simp_all add: shares_of_def nth_enumerate_eq)

lemma left_over_range:
  assumes "split_ok amount base" "0 < sum_list (map snd base)"
  shows "0 \<le> left_over amount base \<and>
    left_over amount base \<le> int (length (filter (\<lambda>s. 0 < sh_fraction s) (shares_of amount base)))"
proof -
  let ?w = "sum_list (map snd base)" and ?f = "\<lambda>b. amount * snd b"
  have vals: "map sh_value (shares_of amount base) = map (\<lambda>b. ?f b div ?w) base"
    by (rule nth_equalityI) (simp_all add: share_numbers [OF assms])
  have "map (\<lambda>s. 0 < sh_fraction s) (shares_of amount base) = map (\<lambda>b. ?f b mod ?w \<noteq> 0) base"
    by (rule nth_equalityI) (simp_all add: share_numbers [OF assms])
  from arg_cong [OF this, of "\<lambda>bs. length (filter id bs)"]
  have cnt: "length (filter (\<lambda>s. 0 < sh_fraction s) (shares_of amount base)) =
    length (filter (\<lambda>b. ?f b mod ?w \<noteq> 0) base)" by (simp add: filter_map comp_def)
  have "(\<Sum>b\<leftarrow>base. ?f b) = amount * ?w" by (simp add: sum_list_const_mult)
  then have "?w * left_over amount base = (\<Sum>b\<leftarrow>base. ?f b mod ?w)"
    using sum_div_mod [of ?w ?f base] by (simp add: left_over_def vals algebra_simps)
  then have "0 \<le> ?w * left_over amount base"
    "?w * left_over amount base \<le> ?w * int (length (filter (\<lambda>b. ?f b mod ?w \<noteq> 0) base))"
    using sum_mod_count [of ?w ?f base] assms(2) by auto
  with assms(2) show ?thesis by (simp add: cnt zero_le_mult_iff)
qed

lemma bumped_facts:
  assumes "split_ok amount base" "0 < sum_list (map snd base)"
  shows "distinct (bumped_indexes amount base)"
    "int (length (bumped_indexes amount base)) = left_over amount base"
    "i \<in> set (bumped_indexes amount base) \<Longrightarrow>
       i < length base \<and> amount * snd (base ! i) mod sum_list (map snd base) \<noteq> 0"
proof -
  let ?shares = "shares_of amount base" and ?pos = "\<lambda>s. 0 < sh_fraction s"
  define n where "n = nat (left_over amount base)"
  have n: "left_over amount base = int n" "n \<le> length (filter ?pos ?shares)"
    using left_over_range [OF assms] by (auto simp: n_def nat_le_iff)
  have up: "bumped_indexes amount base = map sh_index (take n (sort_cmp share_cmp ?shares))"
    by (simp add: bumped_indexes_def n(1) bumped_take)
  have "n \<le> length ?shares" using n(2) length_filter_le order_trans by blast
  then show "int (length (bumped_indexes amount base)) = left_over amount base" by (simp add: up n(1))
  have "map sh_index ?shares = [0..<length base]" by (rule nth_equalityI) simp_all
  then have "distinct (map sh_index (sort_cmp share_cmp ?shares))"
    by (metis distinct_upt mset_map mset_sort_cmp mset_eq_imp_distinct_iff)
  then show "distinct (bumped_indexes amount base)" by (simp add: up take_map [symmetric])
  have "front ?pos (sort_cmp share_cmp ?shares)"
    by (rule front_sort_cmp) (rule share_cmp_front; assumption)+
  moreover have "n \<le> length (filter ?pos (sort_cmp share_cmp ?shares))"
    using n(2) by (metis mset_filter mset_sort_cmp size_mset)
  ultimately have front: "\<And>s. s \<in> set (take n (sort_cmp share_cmp ?shares)) \<Longrightarrow> ?pos s"
    by (rule front_take)
  assume "i \<in> set (bumped_indexes amount base)"
  then obtain s where t: "s \<in> set (take n (sort_cmp share_cmp ?shares))" and i: "sh_index s = i"
    by (auto simp: up)
  have s: "?pos s" "s \<in> set ?shares" using front [OF t] t by (auto dest: in_set_takeD)
  then obtain j where "j < length base" "s = ?shares ! j" by (auto simp: in_set_conv_nth)
  with s i share_numbers [OF assms] show "i < length base \<and> amount * snd (base ! i) mod sum_list (map snd base) \<noteq> 0"
    by simp
qed

text \<open>\<open>in_shares\<close>: what each line of the base gets lies between nothing and its amount.\<close>

definition in_shares :: "(string \<times> int) list \<Rightarrow> (string \<times> int) list \<Rightarrow> bool" where
  "in_shares = list_all2 (\<lambda>a b. fst a = fst b \<and> 0 \<le> snd a \<and> snd a \<le> snd b)"

lemma in_shares_fst: "in_shares xs ys \<Longrightarrow> map fst xs = map fst ys"
  unfolding in_shares_def by (induction rule: list_all2_induct) auto

text \<open>
  C3: \<open>allocate\<close> splits an amount without losing or inventing a unit: over lines with distinct refs
  whose sum is at least the amount (and the product of both below \<open>2 ^ 53\<close>) the parts sum to exactly the
  amount, and each line gets between nothing and its own amount, in the order of the lines.
\<close>

theorem allocate_exact:
  "split_ok amount base \<Longrightarrow>
   sum_list (map snd (allocate amount base)) = amount \<and> in_shares (allocate amount base) base"
proof (cases "amount \<le> 0 \<or> sum_list (map snd base) \<le> 0")
  case True
  assume ok: "split_ok amount base"
  then have "distinct (map fst (map (\<lambda>b. (fst b, 0 :: int)) base))" by (simp add: split_ok_def comp_def)
  with True have a: "allocate amount base = map (\<lambda>b. (fst b, 0)) base"
    by (simp add: allocate_def Let_def js_map_distinct)
  have "amount = 0" using True ok by (auto simp: split_ok_def)
  with ok show ?thesis
    unfolding a by (auto simp: split_ok_def comp_def in_shares_def list_all2_map1 intro: list.rel_refl_strong)
next
  case False
  assume ok: "split_ok amount base"
  let ?w = "sum_list (map snd base)" and ?up = "bumped_indexes amount base"
  define out where
    "out = map (\<lambda>s. (sh_ref s, sh_value s + (if sh_index s \<in> set ?up then 1 else 0))) (shares_of amount base)"
  have w: "0 < ?w" using False by simp
  note bump = bumped_facts [OF ok w]
  have fst_out: "map fst out = map fst base"
    by (rule nth_equalityI) (simp_all add: out_def)
  then have alloc: "allocate amount base = out"
    using False ok js_map_distinct [of out]
    by (simp add: allocate_def Let_def out_def shares_of_def bumped_indexes_def left_over_def split_ok_def)
  have idx: "map sh_index (shares_of amount base) = [0..<length base]" by (rule nth_equalityI) simp_all
  then have "sh_index ` set (shares_of amount base) = {0..<length base}" by (metis set_map set_upt)
  then have "set ?up \<subseteq> sh_index ` set (shares_of amount base)" using bump(3) by auto
  then have "sum_list (map snd out) = (\<Sum>s\<leftarrow>shares_of amount base. sh_value s) + int (length ?up)"
    using length_filter_mem [of sh_index "shares_of amount base" ?up] idx bump(1)
    by (simp add: out_def comp_def sum_list_diff_nat)
  then have total: "sum_list (map snd out) = amount" using bump(2) by (simp add: left_over_def)
  have "0 \<le> snd (out ! i) \<and> snd (out ! i) \<le> snd (base ! i)" if i: "i < length base" for i
  proof -
    have "base ! i \<in> set base" using i by simp
    then have "0 \<le> snd (base ! i)" "0 \<le> amount * snd (base ! i)" "amount \<le> ?w"
      using ok share_product_range [OF ok] by (auto simp: split_ok_def)
    from share_bound [OF w this(2,3,1)] bump(3) [of i] i share_numbers [OF ok w i]
    show ?thesis by (cases "i \<in> set ?up") (simp_all add: out_def)
  qed
  then have "in_shares out base" using fst_out
    by (auto simp: in_shares_def list_all2_conv_all_nth out_def)
  with alloc total show ?thesis by simp
qed

subsection \<open>The buy X get Y loop\<close>

lemma set_slice0: "set (slice0 n xs) \<subseteq> set xs"
  by (auto simp: slice0_def dest: in_set_takeD)

lemma length_slice0: "0 \<le> n \<Longrightarrow> length (slice0 n xs) = min (length xs) (nat n)"
  by (simp add: slice0_def)

text \<open>
  Every pass uses up at least one more buying unit, so the loop returns when at least one unit must be
  bought; what holds of every stop and is carried over a pass holds of the result.
\<close>

lemma use_loop_rule:
  assumes "1 \<le> buyN"
    and stop: "\<And>uses used got. P uses used got got"
    and step: "\<And>uses used got got' bought free. under_limit uses maxUses \<Longrightarrow>
      bought = slice0 buyN (filter (\<lambda>i. i \<notin> set used) buysOrder) \<Longrightarrow> buyN \<le> int (length bought) \<Longrightarrow>
      free = slice0 getN (filter (\<lambda>i. i \<notin> set (used @ bought)) getsOrder) \<Longrightarrow> getN \<le> int (length free) \<Longrightarrow>
      P (uses + 1) ((used @ bought) @ free) (got @ free) got' \<Longrightarrow> P uses used got got'"
  shows "\<exists>got'. use_loop buysOrder getsOrder buyN getN maxUses uses used got = Some got' \<and> P uses used got got'"
proof (induction "length (filter (\<lambda>i. i \<notin> set used) buysOrder)" arbitrary: uses used got rule: less_induct)
  case less
  define bought where "bought = slice0 buyN (filter (\<lambda>i. i \<notin> set used) buysOrder)"
  define free where "free = slice0 getN (filter (\<lambda>i. i \<notin> set (used @ bought)) getsOrder)"
  note body = use_loop.simps [of buysOrder getsOrder buyN getN maxUses uses used got]
  show ?case
  proof (cases "under_limit uses maxUses \<and> buyN \<le> int (length bought) \<and> getN \<le> int (length free)")
    case True
    then obtain b where b: "b \<in> set bought" using assms(1) by (cases bought) auto
    then have b': "b \<in> set (filter (\<lambda>i. i \<notin> set used) buysOrder)"
      using set_slice0 unfolding bought_def by fast
    have "filter (\<lambda>i. i \<notin> set ((used @ bought) @ free)) buysOrder =
      filter (\<lambda>i. i \<notin> set bought \<and> i \<notin> set free) (filter (\<lambda>i. i \<notin> set used) buysOrder)"
      by (simp add: conj_ac)
    moreover have "length (filter (\<lambda>i. i \<notin> set bought \<and> i \<notin> set free) (filter (\<lambda>i. i \<notin> set used) buysOrder)) <
      length (filter (\<lambda>i. i \<notin> set used) buysOrder)"
      using b b' by (intro length_filter_less) auto
    ultimately obtain got' where got':
      "use_loop buysOrder getsOrder buyN getN maxUses (uses + 1) ((used @ bought) @ free) (got @ free) = Some got'"
      "P (uses + 1) ((used @ bought) @ free) (got @ free) got'"
      using less by metis
    have free': "slice0 getN (filter (\<lambda>i. i \<notin> set used \<and> i \<notin> set bought) getsOrder) = free"
      by (simp add: free_def)
    have "use_loop buysOrder getsOrder buyN getN maxUses uses used got = Some got'"
      using True got'(1) by (subst body) (simp add: Let_def free' flip: bought_def)
    with True step [OF _ bought_def _ free_def _ got'(2)] show ?thesis by simp
  next
    case False
    then show ?thesis using stop by (subst body) (auto simp: Let_def bought_def free_def)
  qed
qed

lemma use_loop_got:
  assumes "1 \<le> buyN"
  shows "\<exists>got'. use_loop buysOrder getsOrder buyN getN maxUses uses used got = Some got' \<and>
    set got' \<subseteq> set got \<union> set getsOrder"
  using assms
proof (rule use_loop_rule)
  fix got got' free and used :: "nat list"
  assume "free = slice0 getN (filter (\<lambda>i. i \<notin> set used) getsOrder)" "set got' \<subseteq> set (got @ free) \<union> set getsOrder"
  then show "set got' \<subseteq> set got \<union> set getsOrder" using set_slice0 by fastforce
qed simp

subsection \<open>The contract of one discount\<close>

definition lines_ok :: "discount_line list \<Rightarrow> bool" where
  "lines_ok lines =
     (distinct (map dl_lineRef lines) \<and>
      list_all (\<lambda>l. 0 \<le> dl_unitPriceMinor l \<and> 0 \<le> dl_quantity l) lines \<and>
      amount_of lines * amount_of lines < safe_limit \<and> amount_of lines * 10000 < safe_limit)"

definition promotion_ok :: "promotion \<Rightarrow> bool" where
  "promotion_ok p =
     (let rule = pn_rule p; reward = ru_reward rule in
      PromotionReward_create reward = Inr reward \<and> reward_value reward \<noteq> JNaN \<and>
      (rw_type reward = BuyXGetYReward \<longrightarrow> ru_type rule = BuyXGetYRule) \<and>
      (ru_type rule = BuyXGetYRule \<longrightarrow>
         rw_type reward = BuyXGetYReward \<or> rw_buys reward = None \<or> rw_gets reward = None))"

definition remaining_ok :: "discount_line list \<Rightarrow> amounts \<Rightarrow> bool" where
  "remaining_ok lines remaining =
     list_all (\<lambda>l. 0 \<le> get0 remaining (dl_lineRef l) \<and> get0 remaining (dl_lineRef l) \<le> dl_total l) lines"

definition offs_ok :: "discount_line list \<Rightarrow> amounts \<Rightarrow> amounts \<Rightarrow> bool" where
  "offs_ok lines remaining offs =
     (distinct (map fst offs) \<and>
      list_all (\<lambda>(ref, off). ref \<in> dl_lineRef ` set lines \<and> off \<le> get0 remaining ref) offs)"

definition base_of :: "amounts \<Rightarrow> discount_line list \<Rightarrow> (string \<times> int) list" where
  "base_of remaining targets = map (\<lambda>l. (dl_lineRef l, get0 remaining (dl_lineRef l))) targets"

lemma matchingLines_filter: "\<exists>P. matchingLines lines scope refs = filter P lines"
  by (auto simp: matchingLines_def intro: exI [of _ "\<lambda>_. True"])

lemma sum_le_filter:
  fixes f g :: "'a \<Rightarrow> int"
  assumes "\<And>x. x \<in> set xs \<Longrightarrow> 0 \<le> f x \<and> f x \<le> g x"
  shows "0 \<le> sum_list (map f (filter P xs)) \<and> sum_list (map f (filter P xs)) \<le> sum_list (map g xs)"
  using assms
proof (induction xs)
  case (Cons x xs)
  then have "0 \<le> f x" "f x \<le> g x"
    "0 \<le> sum_list (map f (filter P xs)) \<and> sum_list (map f (filter P xs)) \<le> sum_list (map g xs)" by auto
  then show ?case by auto
qed simp

lemma base_facts:
  assumes "lines_ok lines" "remaining_ok lines remaining"
  shows "distinct (map fst (base_of remaining (filter P lines)))"
    and "b \<in> set (base_of remaining (filter P lines)) \<Longrightarrow> 0 \<le> snd b \<and> snd b \<le> amount_of lines"
    and "0 \<le> sum_list (map snd (base_of remaining (filter P lines)))"
    and "sum_list (map snd (base_of remaining (filter P lines))) \<le> amount_of lines"
proof -
  let ?f = "\<lambda>l. get0 remaining (dl_lineRef l)"
  have r: "l \<in> set lines \<Longrightarrow> 0 \<le> ?f l \<and> ?f l \<le> dl_total l" for l
    using assms(2) by (simp add: remaining_ok_def list_all_iff)
  have t: "l \<in> set lines \<Longrightarrow> 0 \<le> dl_total l" for l using r by fastforce
  show "distinct (map fst (base_of remaining (filter P lines)))"
    using assms(1) by (simp add: lines_ok_def base_of_def comp_def distinct_map_filter)
  show "b \<in> set (base_of remaining (filter P lines)) \<Longrightarrow> 0 \<le> snd b \<and> snd b \<le> amount_of lines"
    using r sum_list_nonneg_mem [of _ lines dl_total] t unfolding base_of_def amount_of_def
    by (fastforce intro: order_trans)
  have "0 \<le> sum_list (map ?f (filter P lines)) \<and> sum_list (map ?f (filter P lines)) \<le> amount_of lines"
    unfolding amount_of_def by (rule sum_le_filter) (rule r)
  then show "0 \<le> sum_list (map snd (base_of remaining (filter P lines)))"
    "sum_list (map snd (base_of remaining (filter P lines))) \<le> amount_of lines"
    by (simp_all add: base_of_def comp_def)
qed

lemma base_split_ok:
  assumes "lines_ok lines" "remaining_ok lines remaining" "0 \<le> amount"
    and "amount \<le> sum_list (map snd (base_of remaining (filter P lines)))"
  shows "split_ok amount (base_of remaining (filter P lines))"
proof -
  note b = base_facts [OF assms(1,2), where P = P]
  let ?s = "sum_list (map snd (base_of remaining (filter P lines)))"
  have "amount * ?s \<le> amount_of lines * amount_of lines"
    using b(3,4) assms(3,4) by (intro mult_mono) auto
  with assms b(1,2) show ?thesis by (auto simp: split_ok_def lines_ok_def)
qed

lemma offs_okI:
  assumes "map fst offs = map fst (base_of remaining (filter P lines))" "lines_ok lines"
    "remaining_ok lines remaining"
    and "\<And>i. i < length offs \<Longrightarrow> snd (offs ! i) \<le> snd (base_of remaining (filter P lines) ! i)"
  shows "offs_ok lines remaining offs"
proof -
  let ?base = "base_of remaining (filter P lines)"
  have len: "length offs = length ?base" using assms(1) by (metis length_map)
  have "fst (offs ! i) \<in> dl_lineRef ` set lines \<and> snd (offs ! i) \<le> get0 remaining (fst (offs ! i))"
    if i: "i < length offs" for i
  proof -
    have "fst (offs ! i) = fst (?base ! i)" using i len assms(1) by (metis nth_map)
    moreover have "?base ! i = (dl_lineRef (filter P lines ! i), get0 remaining (dl_lineRef (filter P lines ! i)))"
      "filter P lines ! i \<in> set lines"
      using i len nth_mem [of i "filter P lines"] by (simp_all add: base_of_def)
    ultimately show ?thesis using assms(4) [OF i] by auto
  qed
  then have "list_all (\<lambda>(ref, off). ref \<in> dl_lineRef ` set lines \<and> off \<le> get0 remaining ref) offs"
    by (auto simp: list_all_length split: prod.splits) (metis fst_conv, metis fst_conv snd_conv)
  then show ?thesis using base_facts(1) [OF assms(2,3), where P = P] assms(1) by (simp add: offs_ok_def)
qed

lemma promotion_ok_facts:
  assumes "promotion_ok p"
  shows "PromotionReward_create (ru_reward (pn_rule p)) = Inr (ru_reward (pn_rule p))"
    "reward_value (ru_reward (pn_rule p)) \<noteq> JNaN"
    "rw_type (ru_reward (pn_rule p)) = BuyXGetYReward \<Longrightarrow> ru_type (pn_rule p) = BuyXGetYRule"
    "ru_type (pn_rule p) = BuyXGetYRule \<Longrightarrow> rw_buys (ru_reward (pn_rule p)) \<noteq> None \<Longrightarrow>
       rw_gets (ru_reward (pn_rule p)) \<noteq> None \<Longrightarrow> rw_type (ru_reward (pn_rule p)) = BuyXGetYReward"
  using assms by (auto simp: promotion_ok_def Let_def)

lemma buys_positive:
  assumes "PromotionReward_create r = Inr r" "rw_type r = BuyXGetYReward" "rw_buys r = Some buys"
  shows "1 \<le> js_to_int (bb_value buys)"
  using assms
  by (auto simp: PromotionReward_create_def Let_def rewardIssues_def isPositiveInteger_def isInteger_iff
      split: if_splits)

lemma units_refs: "i < length (units_of lines remaining) \<Longrightarrow> fst (units_of lines remaining ! i) \<in> dl_lineRef ` set lines"
  using nth_mem [of i "units_of lines remaining"] by (auto simp: units_of_def)

lemma fold_add_off:
  "distinct (map fst m) \<Longrightarrow> distinct (map fst (fold (\<lambda>i. add_off effect (units ! i)) got m)) \<and>
   fst ` set (fold (\<lambda>i. add_off effect (units ! i)) got m) \<subseteq> fst ` set m \<union> (\<lambda>i. fst (units ! i)) ` set got"
proof (induction got arbitrary: m)
  case (Cons i got)
  have "distinct (map fst (add_off effect (units ! i) m))"
    using Cons.prems by (simp add: add_off_def Let_def distinct_update)
  moreover have "fst ` set (add_off effect (units ! i) m) = insert (fst (units ! i)) (fst ` set m)"
    by (simp add: add_off_def Let_def dom_update)
  ultimately show ?case using Cons.IH [of "add_off effect (units ! i) m"] by auto
qed simp

lemma offs_ok_min:
  assumes "distinct (map fst m)" "fst ` set m \<subseteq> dl_lineRef ` set lines"
  shows "offs_ok lines remaining (map (\<lambda>(ref, amount). (ref, min amount (get0 remaining ref))) m)"
  using assms by (auto simp: offs_ok_def comp_def case_prod_unfold list_all_iff)

lemma buyXGetY_ok:
  assumes "promotion_ok p" "ru_type (pn_rule p) = BuyXGetYRule"
  shows "\<exists>offs. buyXGetYDiscounts p lines remaining = Some offs \<and> offs_ok lines remaining offs"
proof (cases "rw_buys (ru_reward (pn_rule p))")
  case None
  then show ?thesis by (simp add: buyXGetYDiscounts_def Let_def offs_ok_def)
next
  case (Some buys)
  note buys = this
  show ?thesis
  proof (cases "rw_gets (ru_reward (pn_rule p))")
    case None
    then show ?thesis by (simp add: buyXGetYDiscounts_def Let_def buys offs_ok_def)
  next
    case (Some gets)
    let ?units = "units_of lines remaining"
    define getsRefs where "getsRefs = map dl_lineRef (matchingLines lines (bg_scope gets) (bg_targetRefs gets))"
    define getsOrder where "getsOrder = sort_cmp (cheapest_first ?units)
      (filter (\<lambda>i. fst (?units ! i) \<in> set getsRefs) [0..<length ?units])"
    have order: "set getsOrder \<subseteq> {0..<length ?units}" by (auto simp: getsOrder_def)
    have finish: "\<exists>offs. Option.bind c (\<lambda>got. Some (map (\<lambda>(ref, amount). (ref, min amount (get0 remaining ref)))
        (fold (\<lambda>i. add_off (bg_effect gets) (?units ! i)) got []))) = Some offs \<and> offs_ok lines remaining offs"
      if "\<exists>got. c = Some got \<and> set got \<subseteq> set getsOrder" for c
    proof -
      from that obtain got where got: "c = Some got" "set got \<subseteq> set getsOrder" by blast
      then have "\<And>i. i \<in> set got \<Longrightarrow> i < length ?units" using order by fastforce
      then have sub: "(\<lambda>i. fst (?units ! i)) ` set got \<subseteq> dl_lineRef ` set lines"
        using units_refs by blast
      have "distinct (map fst (fold (\<lambda>i. add_off (bg_effect gets) (?units ! i)) got []))"
        "fst ` set (fold (\<lambda>i. add_off (bg_effect gets) (?units ! i)) got []) \<subseteq> (\<lambda>i. fst (?units ! i)) ` set got"
        using fold_add_off [of "[]" "bg_effect gets" ?units got] by simp_all
      from offs_ok_min [OF this(1) subset_trans [OF this(2) sub]]
      have "offs_ok lines remaining (map (\<lambda>(ref, amount). (ref, min amount (get0 remaining ref)))
        (fold (\<lambda>i. add_off (bg_effect gets) (?units ! i)) got []))" .
      with got(1) show ?thesis by simp
    qed
    have "1 \<le> js_to_int (bb_value buys)" by (rule buys_positive) (use promotion_ok_facts(1,4) [OF assms(1)] assms(2) buys Some in auto)
    then have loop: "\<exists>got. use_loop order getsOrder (js_to_int (bb_value buys)) n m u [] [] = Some got \<and>
      set got \<subseteq> set getsOrder" for order n m u
      using use_loop_got [of "js_to_int (bb_value buys)" order getsOrder n m u "[]" "[]"] by simp
    show ?thesis
      unfolding buyXGetYDiscounts_def Let_def buys Some option.case prod.case
      unfolding getsRefs_def [symmetric] getsOrder_def [symmetric]
      by (rule finish) (use loop in \<open>auto split: if_splits dest: set_slice0 [THEN subsetD]\<close>)
  qed
qed

lemma lineDiscounts_ok:
  assumes "promotion_ok p" "discountClassOf (pn_rule p) \<noteq> ShippingClass" "lines_ok lines" "remaining_ok lines remaining"
  shows "\<exists>offs. lineDiscounts p lines remaining = Some offs \<and> offs_ok lines remaining offs"
proof (cases "ru_type (pn_rule p) = BuyXGetYRule")
  case True
  then show ?thesis using buyXGetY_ok [OF assms(1)]
    by (simp add: lineDiscounts_def Let_def)
next
  case False
  let ?r = "ru_reward (pn_rule p)" and ?c = "ru_condition (pn_rule p)"
  let ?isProduct = "discountClassOf (pn_rule p) = ProductClass"
  define targets where "targets = (if ?isProduct then matchingLines lines (pc_scope ?c) (pc_targetRefs ?c) else lines)"
  have "lines = filter (\<lambda>_. True) lines" by simp
  then obtain P where P: "targets = filter P lines"
    using matchingLines_filter [of lines "pc_scope ?c" "pc_targetRefs ?c"] unfolding targets_def by metis
  define base where "base = base_of remaining (filter P lines)"
  note facts = base_facts [OF assms(3,4), where P = P, folded base_def]
  have lim: "amount_of lines * 10000 < safe_limit" using assms(3) by (simp add: lines_ok_def)
  have pct: "0 \<le> percentOf n (js_rat (reward_value ?r)) \<and> percentOf n (js_rat (reward_value ?r)) \<le> n"
    if "rw_type ?r = PercentageReward" "0 \<le> n" "n \<le> amount_of lines" for n
    using reward_percentage_range [OF promotion_ok_facts(1) [OF assms(1)] that(1) promotion_ok_facts(2) [OF assms(1)]]
      that lim by (intro percentOf_bounds) auto
  have alloc: "offs_ok lines remaining (allocate n base)" if "0 \<le> n" "n \<le> sum_list (map snd base)" for n
  proof -
    have "in_shares (allocate n base) base"
      using allocate_exact [OF base_split_ok [OF assms(3,4) that(1), where P = P, folded base_def]] that by simp
    then show ?thesis unfolding base_def
      by (intro offs_okI [of _ _ P]) (auto simp: in_shares_fst assms in_shares_def list_all2_conv_all_nth)
  qed
  have prod: "offs_ok lines remaining (js_map (map (\<lambda>l. (dl_lineRef l, f l)) (filter P lines)))"
    if f: "\<And>l. l \<in> set lines \<Longrightarrow> f l \<le> get0 remaining (dl_lineRef l)" for f
  proof -
    have d: "distinct (map fst (map (\<lambda>l. (dl_lineRef l, f l)) (filter P lines)))"
      using facts(1) by (simp add: base_def base_of_def comp_def)
    show ?thesis unfolding js_map_distinct [OF d]
      using f nth_mem [of _ "filter P lines"] assms(3,4)
      by (intro offs_okI [of _ _ P]) (auto simp: base_of_def comp_def)
  qed
  have val: "rw_type ?r = FixedAmountReward \<Longrightarrow> 0 \<le> js_to_int (reward_value ?r)"
    by (rule reward_amount_nonneg [OF promotion_ok_facts(1) [OF assms(1)]])
  have type: "rw_type ?r = PercentageReward \<or> rw_type ?r = FixedAmountReward"
    using False assms(2) promotion_ok_facts(3) [OF assms(1)]
    by (cases "rw_type ?r") (auto simp: discountClassOf_def)
  have body: "lineDiscounts p lines remaining = Some
     (if rw_type ?r = PercentageReward then
        if ?isProduct then js_map (map (\<lambda>l. (dl_lineRef l,
             percentOf (get0 remaining (dl_lineRef l)) (js_rat (reward_value ?r)))) (filter P lines))
        else allocate (percentOf (sum_list (map snd base)) (js_rat (reward_value ?r))) base
      else if ?isProduct \<and> rw_appliesOncePerOrder ?r \<noteq> Some True
      then js_map (map (\<lambda>l. (dl_lineRef l,
             min (get0 remaining (dl_lineRef l)) (js_to_int (reward_value ?r) * dl_quantity l))) (filter P lines))
      else allocate (min (js_to_int (reward_value ?r)) (sum_list (map snd base))) base)"
    using False
    by (simp add: lineDiscounts_def Let_def base_def base_of_def comp_def
        flip: P) (simp add: targets_def)
  have rem: "l \<in> set lines \<Longrightarrow> 0 \<le> get0 remaining (dl_lineRef l) \<and> get0 remaining (dl_lineRef l) \<le> amount_of lines" for l
    using base_facts(2) [OF assms(3,4), of "(dl_lineRef l, get0 remaining (dl_lineRef l))" "\<lambda>_. True"]
    by (simp add: base_of_def image_iff) blast
  show ?thesis
    unfolding body using type pct [OF _ facts(3,4)] val facts(3) pct rem
    by (auto intro!: alloc prod)
qed

subsection \<open>A set of discounts\<close>

definition allocated :: "discount_line list \<Rightarrow> amounts \<Rightarrow> int" where
  "allocated lines allocations = sum_list (map (\<lambda>l. get0 allocations (dl_lineRef l)) lines)"

definition balance :: "discount_line list \<Rightarrow> amounts \<Rightarrow> amounts \<Rightarrow> bool" where
  "balance lines remaining allocations =
     list_all (\<lambda>l. get0 remaining (dl_lineRef l) + get0 allocations (dl_lineRef l) = dl_total l \<and>
       0 \<le> get0 remaining (dl_lineRef l) \<and> 0 \<le> get0 allocations (dl_lineRef l)) lines"

lemma allocated_update:
  "distinct (map dl_lineRef lines) \<Longrightarrow> ref \<in> dl_lineRef ` set lines \<Longrightarrow>
   allocated lines (AList.update ref v m) = allocated lines m + (v - get0 m ref)"
proof (induction lines)
  case (Cons l lines)
  show ?case
  proof (cases "dl_lineRef l = ref")
    case True
    with Cons.prems have "map (\<lambda>l. get0 (AList.update ref v m) (dl_lineRef l)) lines =
      map (\<lambda>l. get0 m (dl_lineRef l)) lines" by (auto intro!: map_cong) (metis imageI)
    with True show ?thesis by (simp only: allocated_def list.map sum_list.Cons get0_update) simp
  next
    case False
    with Cons show ?thesis by (auto simp: allocated_def)
  qed
qed simp

lemma balance_take:
  assumes "balance lines remaining allocations" "0 < off" "off \<le> get0 remaining ref"
  shows "balance lines (AList.update ref (get0 remaining ref - off) remaining)
    (AList.update ref (get0 allocations ref + off) allocations)"
  using assms by (auto simp: balance_def list_all_iff)

lemma take_off_balance:
  assumes "distinct (map dl_lineRef lines)" "offs_ok lines remaining offs" "balance lines remaining allocations"
    and "take_off offs (remaining, allocations, amount) = (remaining', allocations', amount')"
  shows "balance lines remaining' allocations' \<and> amount \<le> amount' \<and>
    amount' - amount = allocated lines allocations' - allocated lines allocations"
  using assms(2-)
proof (induction offs arbitrary: remaining allocations amount)
  case (Cons u offs)
  obtain ref off where u: "u = (ref, off)" by (cases u)
  have ref: "ref \<in> dl_lineRef ` set lines" "off \<le> get0 remaining ref" and tl: "offs_ok lines remaining offs"
    and fresh: "ref \<notin> fst ` set offs"
    using Cons.prems(1) by (auto simp: offs_ok_def u)
  show ?case
  proof (cases "off \<le> 0")
    case True
    with Cons.IH [OF tl Cons.prems(2)] Cons.prems(3) show ?thesis by (simp add: u)
  next
    case False
    have "x \<in> set offs \<Longrightarrow> fst x \<noteq> ref" for x using fresh by auto
    then have "offs_ok lines (AList.update ref (get0 remaining ref - off) remaining) offs"
      using tl by (simp add: offs_ok_def list_all_iff case_prod_unfold)
    from Cons.IH [OF this balance_take [OF Cons.prems(2) _ ref(2)]] Cons.prems(3) False
    show ?thesis by (fastforce simp: u allocated_update [OF assms(1) ref(1)])
  qed
qed simp

lemma balance_remaining: "balance lines remaining allocations \<Longrightarrow> remaining_ok lines remaining"
  by (auto simp: balance_def remaining_ok_def list_all_iff)

definition class_sum :: "bool \<Rightarrow> applied_discount list \<Rightarrow> int" where
  "class_sum shipping applied =
     sum_list (map ap_amountMinor (filter (\<lambda>a. (ap_discountClass a = ShippingClass) = shipping) applied))"

definition state_ok :: "discount_line list \<Rightarrow> int \<Rightarrow> application_state \<Rightarrow> bool" where
  "state_ok lines rate st =
     (balance lines (as_remaining st) (as_allocations st) \<and> 0 \<le> as_shippingLeft st \<and>
      class_sum False (as_applied st) = allocated lines (as_allocations st) \<and>
      class_sum True (as_applied st) = rate - as_shippingLeft st \<and>
      list_all (\<lambda>a. 0 \<le> ap_amountMinor a) (as_applied st))"

text \<open>An eligible discount as the calculation makes it, of a promotion within the validated rewards.\<close>

definition entry_ok :: "eligible \<Rightarrow> bool" where
  "entry_ok e = (promotion_ok (cd_promotion (el_candidate e)) \<and>
     el_discountClass e = discountClassOf (pn_rule (cd_promotion (el_candidate e))))"

lemma apply_one_ok:
  assumes "lines_ok lines" "entry_ok e" "state_ok lines rate st"
  shows "\<exists>st'. apply_one lines e st = Some st' \<and> state_ok lines rate st' \<and>
    (\<exists>amount. as_applied st' = as_applied st @ [applied_entry e amount])"
proof (cases "el_discountClass e = ShippingClass")
  case True
  with assms(3) show ?thesis by (simp add: apply_one_def state_ok_def class_sum_def applied_entry_def)
next
  case False
  let ?p = "cd_promotion (el_candidate e)"
  have bal: "balance lines (as_remaining st) (as_allocations st)" using assms(3) by (simp add: state_ok_def)
  obtain offs where offs: "lineDiscounts ?p lines (as_remaining st) = Some offs" "offs_ok lines (as_remaining st) offs"
    using lineDiscounts_ok [of ?p lines "as_remaining st"] assms(1,2) False balance_remaining [OF bal]
    by (auto simp: entry_ok_def)
  obtain r a n where t: "take_off offs (as_remaining st, as_allocations st, 0) = (r, a, n)" by (cases "take_off offs (as_remaining st, as_allocations st, 0)")
  have "distinct (map dl_lineRef lines)" using assms(1) by (simp add: lines_ok_def)
  from take_off_balance [OF this offs(2) bal t] assms(3) show ?thesis
    using False by (simp add: apply_one_def offs(1) t state_ok_def class_sum_def applied_entry_def)
qed

lemma apply_all_ok:
  assumes "lines_ok lines"
  shows "\<lbrakk>\<forall>e\<in>set es. entry_ok e; state_ok lines rate st\<rbrakk> \<Longrightarrow>
    \<exists>st'. apply_all lines es st = Some st' \<and> state_ok lines rate st' \<and>
      (\<exists>ns. length ns = length es \<and> as_applied st' = as_applied st @ map2 applied_entry es ns)"
proof (induction es arbitrary: st)
  case (Cons e es)
  then obtain st1 n where s1: "apply_one lines e st = Some st1" "state_ok lines rate st1"
    "as_applied st1 = as_applied st @ [applied_entry e n]"
    using apply_one_ok [OF assms] by (metis list.set_intros(1))
  with Cons obtain st' ns where "apply_all lines es st1 = Some st'" "state_ok lines rate st'"
    "length ns = length es" "as_applied st' = as_applied st1 @ map2 applied_entry es ns"
    by (metis list.set_intros(2))
  with s1 show ?case by (auto intro: exI [of _ "n # ns"])
qed simp

lemma start_state_ok:
  assumes "lines_ok (di_lines input)" "case di_shipping input of None \<Rightarrow> True | Some sh \<Rightarrow> 0 \<le> ds_rateMinor sh"
  shows "state_ok (di_lines input) (case di_shipping input of None \<Rightarrow> 0 | Some sh \<Rightarrow> ds_rateMinor sh) (start_state input)"
proof -
  let ?kvs = "map (\<lambda>l. (dl_lineRef l, dl_total l)) (di_lines input)"
  have d: "distinct (map fst ?kvs)" using assms(1) by (simp add: lines_ok_def comp_def)
  have "l \<in> set (di_lines input) \<Longrightarrow> get0 ?kvs (dl_lineRef l) = dl_total l" for l
    using map_of_is_SomeI [OF d, of "dl_lineRef l" "dl_total l"] by (auto simp: get0_def)
  moreover have "l \<in> set (di_lines input) \<Longrightarrow> 0 \<le> dl_total l" for l
    using assms(1) by (auto simp: lines_ok_def list_all_iff dl_total_def)
  ultimately have "balance (di_lines input) (js_map ?kvs) []"
    unfolding js_map_distinct [OF d] by (simp add: balance_def list_all_iff)
  moreover have "allocated (di_lines input) [] = 0"
    by (simp add: allocated_def map_replicate_const sum_list_replicate)
  ultimately show ?thesis using assms(2)
    by (auto simp: state_ok_def start_state_def class_sum_def split: option.splits)
qed

lemma class_sum_split:
  "class_sum False applied + class_sum True applied = sum_list (map ap_amountMinor applied)"
  by (induction applied) (auto simp: class_sum_def)

definition input_ok :: "discounts_input \<Rightarrow> bool" where
  "input_ok input =
     (lines_ok (di_lines input) \<and>
      (case di_shipping input of None \<Rightarrow> True | Some sh \<Rightarrow> 0 \<le> ds_rateMinor sh) \<and>
      list_all (\<lambda>c. promotion_ok (cd_promotion c)) (di_candidates input))"

definition rate_of :: "discounts_input \<Rightarrow> int" where
  "rate_of input = (case di_shipping input of None \<Rightarrow> 0 | Some sh \<Rightarrow> ds_rateMinor sh)"

definition application_ok :: "discounts_input \<Rightarrow> application \<Rightarrow> bool" where
  "application_ok input a =
     (list_all (\<lambda>l. 0 \<le> get0 (an_allocations a) (dl_lineRef l) \<and> get0 (an_allocations a) (dl_lineRef l) \<le> dl_total l)
        (di_lines input) \<and>
      class_sum False (an_applied a) = allocated (di_lines input) (an_allocations a) \<and>
      0 \<le> class_sum True (an_applied a) \<and> class_sum True (an_applied a) \<le> rate_of input \<and>
      list_all (\<lambda>x. 0 \<le> ap_amountMinor x) (an_applied a) \<and>
      an_total a = class_sum False (an_applied a) + class_sum True (an_applied a) \<and>
      (\<exists>es ns. mset es = mset (an_set a) \<and> length ns = length es \<and> an_applied a = map2 applied_entry es ns))"

lemma applySet_ok:
  assumes "input_ok input" "\<forall>e\<in>set es. entry_ok e"
  shows "\<exists>a. applySet loc input es = Some a \<and> an_set a = es \<and> application_ok input a"
proof -
  have lines: "lines_ok (di_lines input)" using assms(1) by (simp add: input_ok_def)
  have start: "state_ok (di_lines input) (rate_of input) (start_state input)"
    using start_state_ok assms(1) by (simp add: input_ok_def rate_of_def)
  let ?sorted = "sort_cmp (class_then_id loc) es"
  obtain st ns where st: "apply_all (di_lines input) ?sorted (start_state input) = Some st"
    "state_ok (di_lines input) (rate_of input) st" "length ns = length ?sorted"
    "as_applied st = map2 applied_entry ?sorted ns"
    using apply_all_ok [OF lines, of ?sorted "rate_of input" "start_state input"] assms(2) start
    by (auto simp: start_state_def)
  have "0 \<le> class_sum True (as_applied st)"
    using st(2) unfolding class_sum_def state_ok_def
    by (intro sum_list_nonneg) (auto simp: list_all_iff)
  moreover have "list_all (\<lambda>l. 0 \<le> get0 (as_allocations st) (dl_lineRef l) \<and>
      get0 (as_allocations st) (dl_lineRef l) \<le> dl_total l) (di_lines input)"
    using st(2) by (fastforce simp: state_ok_def balance_def list_all_iff)
  ultimately show ?thesis using st
    by (auto simp: applySet_def application_ok_def state_ok_def class_sum_split
        intro!: exI [of _ ?sorted] exI [of _ ns])
qed

lemma length_slice0_exact: "0 \<le> n \<Longrightarrow> n \<le> int (length (slice0 n xs)) \<Longrightarrow> int (length (slice0 n xs)) = n"
  by (simp add: length_slice0)

definition fair_use :: "int \<Rightarrow> int \<Rightarrow> int option \<Rightarrow> nat set \<Rightarrow> int \<Rightarrow> nat list \<Rightarrow> nat list \<Rightarrow> nat list \<Rightarrow> bool" where
  "fair_use buyN getN maxUses units uses used got got' =
     (distinct used \<and> set used \<subseteq> units \<and> distinct got \<and> set got \<subseteq> set used \<longrightarrow>
      distinct got' \<and>
      (\<exists>k\<ge>0. int (length got') = int (length got) + getN * k \<and>
        int (length used) + (buyN + getN) * k \<le> int (card units) \<and>
        (\<forall>m. maxUses = Some m \<longrightarrow> uses \<le> m \<longrightarrow> uses + k \<le> m)))"

lemma fair_use_step:
  assumes "finite units" "1 \<le> buyN" "0 \<le> getN" "distinct buysOrder" "distinct getsOrder"
    "set buysOrder \<subseteq> units" "set getsOrder \<subseteq> units" "under_limit uses maxUses"
    and bought: "bought = slice0 buyN (filter (\<lambda>i. i \<notin> set used) buysOrder)" "buyN \<le> int (length bought)"
    and free: "free = slice0 getN (filter (\<lambda>i. i \<notin> set (used @ bought)) getsOrder)" "getN \<le> int (length free)"
    and IH: "fair_use buyN getN maxUses units (uses + 1) ((used @ bought) @ free) (got @ free) got'"
  shows "fair_use buyN getN maxUses units uses used got got'"
  unfolding fair_use_def
proof (intro impI)
  assume pre: "distinct used \<and> set used \<subseteq> units \<and> distinct got \<and> set got \<subseteq> set used"
  have b: "distinct bought" "set bought \<subseteq> set buysOrder - set used" "int (length bought) = buyN"
    using bought assms(2,4) set_slice0 [of buyN "filter (\<lambda>i. i \<notin> set used) buysOrder"]
      length_slice0_exact [of buyN] by (auto simp: slice0_def)
  have f: "distinct free" "set free \<subseteq> set getsOrder - set (used @ bought)" "int (length free) = getN"
    using free assms(3,5) set_slice0 [of getN "filter (\<lambda>i. i \<notin> set (used @ bought)) getsOrder"]
      length_slice0_exact [of getN] by (auto simp: slice0_def)
  have "distinct ((used @ bought) @ free) \<and> set ((used @ bought) @ free) \<subseteq> units \<and>
    distinct (got @ free) \<and> set (got @ free) \<subseteq> set ((used @ bought) @ free)"
    using pre b f assms(6,7) by auto
  with IH obtain k where k: "distinct got'" "0 \<le> k" "int (length got') = int (length (got @ free)) + getN * k"
    "int (length ((used @ bought) @ free)) + (buyN + getN) * k \<le> int (card units)"
    "\<forall>m. maxUses = Some m \<longrightarrow> uses + 1 \<le> m \<longrightarrow> uses + 1 + k \<le> m"
    unfolding fair_use_def by blast
  have lim: "\<forall>m. maxUses = Some m \<longrightarrow> uses < m" using assms(8) by (auto simp: under_limit_def)
  show "distinct got' \<and> (\<exists>k\<ge>0. int (length got') = int (length got) + getN * k \<and>
      int (length used) + (buyN + getN) * k \<le> int (card units) \<and>
      (\<forall>m. maxUses = Some m \<longrightarrow> uses \<le> m \<longrightarrow> uses + k \<le> m))"
    using k b(3) f(3) lim by (intro conjI exI [of _ "k + 1"]) (auto simp: algebra_simps)
qed

text \<open>
  When at least one unit must be bought, the buy X get Y loop returns, on whatever units and limit;
  the free units are distinct units of the ones that may be free, as many as \<open>k\<close> uses give, where every
  use takes units of its own: \<open>k\<close> times the bought and the free ones fit in the cart, no unit is both
  bought and free, and \<open>k\<close> is at most the number of uses one order may make.
\<close>

lemma free_units_fair:
  "1 \<le> buyN \<Longrightarrow> 0 \<le> getN \<Longrightarrow> distinct buysOrder \<Longrightarrow> distinct getsOrder \<Longrightarrow>
   \<exists>got k. use_loop buysOrder getsOrder buyN getN maxUses 0 [] [] = Some got \<and> distinct got \<and>
     set got \<subseteq> set getsOrder \<and> 0 \<le> k \<and> int (length got) = getN * k \<and>
     (buyN + getN) * k \<le> int (card (set buysOrder \<union> set getsOrder)) \<and>
     (\<forall>m. maxUses = Some m \<longrightarrow> 0 \<le> m \<longrightarrow> k \<le> m)"
proof -
  assume a: "1 \<le> buyN" "0 \<le> getN" "distinct buysOrder" "distinct getsOrder"
  let ?units = "set buysOrder \<union> set getsOrder"
  have "\<exists>got. use_loop buysOrder getsOrder buyN getN maxUses 0 [] [] = Some got \<and>
    fair_use buyN getN maxUses ?units 0 [] [] got"
  proof (rule use_loop_rule [where P = "fair_use buyN getN maxUses ?units", OF a(1)])
    fix uses and used got :: "nat list"
    have "length used \<le> card ?units" if "distinct used" "set used \<subseteq> ?units"
      using that by (metis card_mono distinct_card finite_Un List.finite_set)
    then show "fair_use buyN getN maxUses ?units uses used got got"
      unfolding fair_use_def by (intro impI conjI exI [of _ 0]) auto
  next
    fix uses and used got got' bought free :: "nat list"
    assume b: "under_limit uses maxUses" "bought = slice0 buyN (filter (\<lambda>i. i \<notin> set used) buysOrder)"
      "buyN \<le> int (length bought)" and f: "free = slice0 getN (filter (\<lambda>i. i \<notin> set (used @ bought)) getsOrder)"
      "getN \<le> int (length free)"
      "fair_use buyN getN maxUses ?units (uses + 1) ((used @ bought) @ free) (got @ free) got'"
    show "fair_use buyN getN maxUses ?units uses used got got'"
      by (rule fair_use_step [OF _ a _ _ b f]) simp_all
  qed
  moreover obtain got where "use_loop buysOrder getsOrder buyN getN maxUses 0 [] [] = Some got"
    "set got \<subseteq> set getsOrder"
    using use_loop_got [OF a(1), of buysOrder getsOrder getN maxUses 0 "[]" "[]"] by auto
  ultimately show ?thesis by (auto simp: fair_use_def)
qed

lemma free_units_fair_witness:
  "\<exists>got k. use_loop [0, 1, 2, 3, 4] [4, 3, 2, 1, 0] 2 1 (Some 3) 0 [] [] = Some got \<and>
     int (length got) = 1 * k \<and> (2 + 1) * k \<le> int (card {0, 1, 2, 3, 4 :: nat})"
proof -
  have "(1::int) \<le> 2" "(0::int) \<le> 1" "distinct [0, 1, 2, 3, 4 :: nat]" "distinct [4, 3, 2, 1, 0 :: nat]" by simp_all
  from free_units_fair [OF this, of "Some 3"] obtain got k where
    "use_loop [0, 1, 2, 3, 4] [4, 3, 2, 1, 0] 2 1 (Some 3) 0 [] [] = Some got" "int (length got) = 1 * k"
    "(2 + 1) * k \<le> int (card (set [0, 1, 2, 3, 4 :: nat] \<union> set [4, 3, 2, 1, 0]))" by blast
  moreover have "set [0, 1, 2, 3, 4 :: nat] \<union> set [4, 3, 2, 1, 0] = {0, 1, 2, 3, 4}" by auto
  ultimately show ?thesis by metis
qed

lemma allocate_exact_witness:
  "allocate 100 [(''a'', 333), (''b'', 333), (''c'', 334)] = [(''a'', 33), (''b'', 33), (''c'', 34)] \<and>
   in_shares (allocate 100 [(''a'', 333), (''b'', 333), (''c'', 334)]) [(''a'', 333), (''b'', 333), (''c'', 334)]"
proof -
  have "split_ok 100 [(''a'', 333), (''b'', 333), (''c'', 334)]" by code_simp
  from allocate_exact [OF this]
  have "in_shares (allocate 100 [(''a'', 333), (''b'', 333), (''c'', 334)]) [(''a'', 333), (''b'', 333), (''c'', 334)]"
    by blast
  moreover have "allocate 100 [(''a'', 333), (''b'', 333), (''c'', 334)] = [(''a'', 33), (''b'', 33), (''c'', 34)]"
    by code_simp
  ultimately show ?thesis by blast
qed

subsection \<open>A reward that no check stops\<close>

text \<open>
  \<open>PromotionReward_create\<close> looks at \<open>buys\<close> and \<open>gets\<close> of a reward of its own type only, and
  \<open>PromotionRule_create\<close> lets a buy X get Y rule carry a reward of another type with the legacy
  quantities. With both quantities zero the loop of such a promotion never returns.
\<close>

lemma zero_quantities_loop: "use_loop buysOrder getsOrder 0 0 None uses used got \<noteq> Some r"
proof
  assume "use_loop buysOrder getsOrder 0 0 None uses used got = Some r"
  from use_loop.raw_induct [where P = "\<lambda>bo go b g m us ud gt r. b = 0 \<longrightarrow> g = 0 \<longrightarrow> m = None \<longrightarrow> False", OF _ this]
  show False by (fastforce simp: Let_def under_limit_def split: if_splits option.splits)
qed

definition legacy_reward :: promotion_reward where
  "legacy_reward = \<lparr>rw_type = PercentageReward, rw_value = Some (jint 10), rw_buyQuantity = Some (jint 1),
     rw_getQuantity = Some (jint 1), rw_appliesOncePerOrder = None, rw_countries = None,
     rw_maxShippingRateMinor = None, rw_buys = Some \<lparr>bb_kind = BuysQuantity, bb_value = jint 0\<rparr>,
     rw_gets = Some \<lparr>bg_quantity = jint 0, bg_scope = ProductScope, bg_targetRefs = [''p1''], bg_effect = GetsFree\<rparr>,
     rw_maxUsesPerOrder = None\<rparr>"

lemma accepted_rule_that_never_returns:
  "PromotionReward_create legacy_reward = Inr legacy_reward \<and>
   (\<exists>rule. PromotionRule_create BuyXGetYRule c legacy_reward True (jint 1) = Inr rule \<and>
     (\<forall>p lines remaining. pn_rule p = rule \<longrightarrow> lineDiscounts p lines remaining = None))"
proof -
  have none: "use_loop b g 0 0 None 0 [] [] = None" for b g
    using zero_quantities_loop [of b g 0 "[]" "[]"] by (cases "use_loop b g 0 0 None 0 [] []") auto
  show ?thesis
    by (simp add: PromotionReward_create_def rewardIssues_def legacy_reward_def PromotionRule_create_def
        againstNegative_def lineDiscounts_def buyXGetYDiscounts_def Let_def none)
qed

end
