(* ===== verification/DiscountChoice.thy ===== *)
theory DiscountChoice
  imports DiscountAmounts
begin

section \<open>Which discounts a cart gets\<close>

text \<open>
  The choice of \<^verbatim>\<open>calculateDiscounts\<close>: the candidates that pass the screening, the compatible set of them
  that saves the most, and what the result says of each entered code. The amounts of the result rest on
  \<open>DiscountAmounts\<close>. The search over sets is exhaustive up to \<open>EXHAUSTIVE_LIMIT\<close> eligible discounts;
  beyond it only compatibility is claimed.
\<close>

subsection \<open>Sets of eligible discounts\<close>

lemma mask_set_Cons:
  "mask_set m (x # xs) = (if m mod 2 \<noteq> 0 then [x] else []) @ mask_set (m div 2) xs"
proof -
  have "mask_set (m div 2) xs =
    map snd (filter (\<lambda>(i, _). (m div 2 ^ i) mod 2 \<noteq> 0) (List.enumerate (Suc 0) xs))"
    unfolding mask_set_def enumerate_Suc_eq
    by (simp add: filter_map comp_def case_prod_unfold div_mult2_eq)
  then show ?thesis by (simp add: mask_set_def)
qed

lemma mask_set_Nil [simp]: "mask_set m [] = []"
  by (simp add: mask_set_def)

lemma mask_set_0 [simp]: "mask_set 0 xs = []"
  by (induction xs) (simp_all add: mask_set_Cons)

lemma mask_set_subset: "set (mask_set m xs) \<subseteq> set xs"
  by (induction xs arbitrary: m) (auto simp: mask_set_Cons)

lemma mask_set_mset: "mset (mask_set m xs) \<subseteq># mset xs"
proof (induction xs arbitrary: m)
  case (Cons x xs)
  have "mset (mask_set (m div 2) xs) \<subseteq># add_mset x (mset xs)"
    using Cons.IH [of "m div 2"] by (rule subset_mset.order_trans) simp
  with Cons.IH [of "m div 2"] show ?case by (simp add: mask_set_Cons)
qed simp

lemma mask_set_surj: "ys \<in> set (subseqs xs) \<Longrightarrow> \<exists>m < 2 ^ length xs. mask_set m xs = ys"
proof (induction xs arbitrary: ys)
  case (Cons x xs)
  then consider zs where "ys = x # zs" "zs \<in> set (subseqs xs)" | "ys \<in> set (subseqs xs)"
    by (auto simp: Let_def)
  then show ?case
  proof cases
    case 1
    with Cons.IH obtain m where "m < 2 ^ length xs" "mask_set m xs = zs" by blast
    with 1 show ?thesis by (intro exI [of _ "2 * m + 1"]) (simp add: mask_set_Cons)
  next
    case 2
    with Cons.IH obtain m where "m < 2 ^ length xs" "mask_set m xs = ys" by blast
    then show ?thesis by (intro exI [of _ "2 * m"]) (simp add: mask_set_Cons)
  qed
qed simp

definition chosen :: "(string \<Rightarrow> string \<Rightarrow> int) \<Rightarrow> discounts_input \<Rightarrow> eligible list \<Rightarrow> application \<Rightarrow> bool" where
  "chosen loc input elig a =
     (applySet loc input (an_set a) = Some a \<and> isCompatible (an_set a) \<and> mset (an_set a) \<subseteq># mset elig)"

lemma chosen_subset: "chosen loc input elig a \<Longrightarrow> set (an_set a) \<subseteq> set elig"
  unfolding chosen_def by (metis set_mset_mono set_mset_mset)

definition saves_no_more :: "(string \<Rightarrow> string \<Rightarrow> int) \<Rightarrow> discounts_input \<Rightarrow> eligible list \<Rightarrow> int \<Rightarrow> bool" where
  "saves_no_more loc input es n = (\<exists>a. applySet loc input es = Some a \<and> an_total a \<le> n)"

lemma isBetter_total: "isBetter a b \<Longrightarrow> an_total b \<le> an_total a" "\<not> isBetter a b \<Longrightarrow> an_total a \<le> an_total b"
  by (auto simp: isBetter_def split: if_splits)

lemma best_of_chosen:
  assumes "input_ok input" "\<forall>e\<in>set elig. entry_ok e"
  shows "chosen loc input elig best \<Longrightarrow>
    \<exists>r. best_of loc input elig masks best = Some r \<and> chosen loc input elig r \<and> an_total best \<le> an_total r \<and>
      (\<forall>m\<in>set masks. isCompatible (mask_set m elig) \<longrightarrow> saves_no_more loc input (mask_set m elig) (an_total r))"
proof (induction masks arbitrary: best)
  case (Cons m masks)
  let ?es = "mask_set m elig"
  have "\<forall>e\<in>set ?es. entry_ok e" using assms(2) mask_set_subset [of m elig] by auto
  then obtain a where a: "applySet loc input ?es = Some a" "an_set a = ?es"
    using applySet_ok [OF assms(1)] by blast
  show ?case
  proof (cases "isCompatible ?es")
    case True
    define next_best where "next_best = (if isBetter a best then a else best)"
    have "chosen loc input elig next_best"
      using Cons.prems True a mask_set_mset [of m elig] by (simp add: next_best_def chosen_def)
    moreover have "an_total best \<le> an_total next_best" "an_total a \<le> an_total next_best"
      using isBetter_total by (simp_all add: next_best_def)
    ultimately show ?thesis using Cons.IH [of next_best] True a
      by (fastforce simp: saves_no_more_def simp flip: next_best_def)
  next
    case False
    with Cons.IH [OF Cons.prems] show ?thesis by simp
  qed
qed simp

lemma isCompatible_pairs:
  "isCompatible es \<longleftrightarrow> sorted_wrt combinable es"
  by (induction es) (auto simp: list_all_iff)

lemma greedy_set_ok:
  "isCompatible es \<Longrightarrow> isCompatible (greedy_set es rest) \<and> mset (greedy_set es rest) \<subseteq># mset es + mset rest"
proof (induction rest arbitrary: es)
  case (Cons e rest)
  show ?case
  proof (cases "isCompatible (es @ [e])")
    case True
    from Cons.IH [OF this] True show ?thesis by simp
  next
    case False
    from Cons.IH [OF Cons.prems] False show ?thesis
      by (auto intro: subset_mset.order_trans)
  qed
qed simp

lemma those_map_Some:
  "(\<And>x. x \<in> set xs \<Longrightarrow> \<exists>y. f x = Some (x, y)) \<Longrightarrow> \<exists>ps. those (map f xs) = Some ps \<and> map fst ps = xs"
proof (induction xs)
  case (Cons x xs)
  then obtain y ps where "f x = Some (x, y)" "those (map f xs) = Some ps" "map fst ps = xs" by force
  then show ?case by simp
qed simp

lemma bestSet_chosen:
  assumes "input_ok input" "\<forall>e\<in>set elig. entry_ok e"
  shows "\<exists>best. bestSet loc input elig = Some best \<and> chosen loc input elig best \<and>
    (length elig \<le> EXHAUSTIVE_LIMIT \<longrightarrow>
      (\<forall>es\<in>set (subseqs elig). isCompatible es \<longrightarrow> saves_no_more loc input es (an_total best)))"
proof -
  note ok = applySet_ok [OF assms(1), where loc = loc]
  obtain none where none: "applySet loc input [] = Some none" "an_set none = []" using ok [of "[]"] by auto
  have start: "chosen loc input elig none" using none by (simp add: chosen_def)
  show ?thesis
  proof (cases "length elig \<le> EXHAUSTIVE_LIMIT")
    case True
    obtain r where r: "best_of loc input elig [1..<2 ^ length elig] none = Some r" "chosen loc input elig r"
      "an_total none \<le> an_total r"
      and best: "\<And>m. 1 \<le> m \<Longrightarrow> m < 2 ^ length elig \<Longrightarrow> isCompatible (mask_set m elig) \<Longrightarrow>
        saves_no_more loc input (mask_set m elig) (an_total r)"
      using best_of_chosen [OF assms start, of "[1..<2 ^ length elig]"] by auto
    have "saves_no_more loc input es (an_total r)" if "es \<in> set (subseqs elig)" "isCompatible es" for es
    proof -
      from mask_set_surj [OF that(1)] obtain m where "m < 2 ^ length elig" "mask_set m elig = es" by blast
      with best [of m] that(2) none r(3) show ?thesis by (cases "m = 0") (auto simp: saves_no_more_def)
    qed
    with True none r show ?thesis by (simp add: bestSet_def)
  next
    case False
    let ?f = "\<lambda>e. map_option (\<lambda>a. (e, an_total a)) (applySet loc input [e])"
    have "\<exists>n. ?f e = Some (e, n)" if "e \<in> set elig" for e
      using ok [of "[e]"] assms(2) that by fastforce
    then obtain ps where ps: "those (map ?f elig) = Some ps" "map fst ps = elig"
      using those_map_Some [of elig ?f] by blast
    let ?g = "greedy_set [] (map fst (sort_cmp (\<lambda>a b. snd b - snd a) ps))"
    have "mset (map fst (sort_cmp (\<lambda>a b. snd b - snd a) ps)) = mset elig"
      using ps(2) by (metis mset_map mset_sort_cmp)
    then have g: "isCompatible ?g" "mset ?g \<subseteq># mset elig"
      using greedy_set_ok [of "[]" "map fst (sort_cmp (\<lambda>a b. snd b - snd a) ps)"] by auto
    have "\<forall>e\<in>set ?g. entry_ok e" using set_mset_mono [OF g(2)] assms(2) by auto
    then obtain a where "applySet loc input ?g = Some a" "an_set a = ?g" using ok [of ?g] by blast
    with False g none ps show ?thesis by (simp add: bestSet_def chosen_def)
  qed
qed

subsection \<open>Screening\<close>

definition considered :: "discounts_input \<Rightarrow> discount_candidate \<Rightarrow> bool" where
  "considered input c =
     (case candidate_code c of
        Some code \<Rightarrow> code \<in> set (take MAX_DISCOUNT_CODES (entered_codes input))
      | None \<Rightarrow> pn_method (cd_promotion c) = Some AutomaticMethod)"

lemma screen_candidate_eligible:
  "sn_eligible (screen_candidate input (take MAX_DISCOUNT_CODES (entered_codes input)) c st) =
     sn_eligible st @ (if considered input c \<and> rejectionFor c input = None then [to_eligible c] else [])"
  by (simp add: screen_candidate_def considered_def split: option.splits)

lemma screen_eligible:
  "sn_eligible (screen input) =
     map to_eligible (filter (\<lambda>c. considered input c \<and> rejectionFor c input = None) (di_candidates input))"
proof -
  let ?f = "screen_candidate input (take MAX_DISCOUNT_CODES (entered_codes input))"
  have "sn_eligible (fold ?f cs st) = sn_eligible st @
    map to_eligible (filter (\<lambda>c. considered input c \<and> rejectionFor c input = None) cs)" for cs st
    by (induction cs arbitrary: st) (simp_all add: screen_candidate_eligible)
  then show ?thesis by (simp add: screen_def)
qed

lemma eligible_entry_ok: "input_ok input \<Longrightarrow> \<forall>e\<in>set (sn_eligible (screen input)). entry_ok e"
  by (auto simp: screen_eligible entry_ok_def to_eligible_def input_ok_def list_all_iff)

lemma entered_codes_distinct: "distinct (entered_codes input)"
  by (simp add: entered_codes_def)

subsection \<open>The result\<close>

text \<open>What the calculation returns, in terms of the application it chose.\<close>

definition result_from :: "(string \<Rightarrow> string \<Rightarrow> int) \<Rightarrow> discounts_input \<Rightarrow> application \<Rightarrow> bool" where
  "result_from loc input best =
     (calculateDiscounts loc input = Some (result_of input (screen input) best) \<and>
      application_ok input best \<and> chosen loc input (sn_eligible (screen input)) best)"

lemma calculateDiscounts_best:
  assumes "input_ok input"
  shows "\<exists>best. result_from loc input best \<and>
    (length (sn_eligible (screen input)) \<le> EXHAUSTIVE_LIMIT \<longrightarrow>
      (\<forall>es\<in>set (subseqs (sn_eligible (screen input))). isCompatible es \<longrightarrow>
         saves_no_more loc input es (an_total best)))"
proof -
  obtain best where best: "bestSet loc input (sn_eligible (screen input)) = Some best"
    "chosen loc input (sn_eligible (screen input)) best"
    "length (sn_eligible (screen input)) \<le> EXHAUSTIVE_LIMIT \<longrightarrow>
      (\<forall>es\<in>set (subseqs (sn_eligible (screen input))). isCompatible es \<longrightarrow> saves_no_more loc input es (an_total best))"
    using bestSet_chosen [OF assms eligible_entry_ok [OF assms]] by blast
  have "\<forall>e\<in>set (an_set best). entry_ok e"
    using chosen_subset [OF best(2)] eligible_entry_ok [OF assms] by auto
  from applySet_ok [OF assms this, of loc] best(2) have "application_ok input best"
    by (auto simp: chosen_def)
  with best show ?thesis by (intro exI [of _ best]) (simp add: result_from_def calculateDiscounts_def Let_def)
qed

lemma filter_zero_sum:
  fixes f :: "'a \<Rightarrow> int"
  assumes "\<And>x. x \<in> set xs \<Longrightarrow> \<not> P x \<Longrightarrow> f x = 0"
  shows "sum_list (map f (filter Q (filter P xs))) = sum_list (map f (filter Q xs))"
  using assms by (induction xs) auto



text \<open>The discounts dropped from the application saved nothing.\<close>

definition kept :: "discounts_input \<Rightarrow> application \<Rightarrow> applied_discount \<Rightarrow> bool" where
  "kept input best a = (case ap_code a of None \<Rightarrow> 0 < ap_amountMinor a
     | Some c \<Rightarrow> c \<notin> set (empty_codes input (an_applied best)))"

lemma dr_applied_kept: "dr_applied (result_of input sn best) = filter (kept input best) (an_applied best)"
  by (simp add: result_of_def Let_def kept_def [abs_def])

lemma set_map_filter_option: "set (List.map_filter f xs) = {y. \<exists>x\<in>set xs. f x = Some y}"
  by (induction xs) (auto simp: map_filter_simps split: option.splits)

definition one_code_each :: "discounts_input \<Rightarrow> bool" where
  "one_code_each input = distinct (List.map_filter candidate_code (di_candidates input))"

lemma result_sums:
  assumes "application_ok input best"
    and "\<And>a. a \<in> set (an_applied best) \<Longrightarrow> \<not> kept input best a \<Longrightarrow> ap_amountMinor a = 0"
  shows "dr_orderDiscountMinor (result_of input sn best) = class_sum False (an_applied best)"
    "dr_shippingDiscountMinor (result_of input sn best) = class_sum True (an_applied best)"
  using filter_zero_sum [of "an_applied best" "kept input best" ap_amountMinor] assms(2)
  by (simp_all add: result_of_def Let_def class_sum_def kept_def [abs_def])

subsection \<open>Codes\<close>

lemma map_filter_mset_mono:
  "mset xs \<subseteq># mset ys \<Longrightarrow> mset (List.map_filter f xs) \<subseteq># mset (List.map_filter f ys)"
  by (simp add: List.map_filter_def image_mset_subseteq_mono multiset_filter_mono)

lemma distinct_mset_mono: "mset xs \<subseteq># mset ys \<Longrightarrow> distinct ys \<Longrightarrow> distinct xs"
proof -
  assume sub: "mset xs \<subseteq># mset ys" and d: "distinct ys"
  from sub obtain C where "mset ys = mset xs + C" by (auto simp: mset_subset_eq_exists_conv)
  then obtain zs where "mset ys = mset (xs @ zs)" by (metis ex_mset mset_append)
  with d have "distinct (xs @ zs)" by (metis mset_eq_imp_distinct_iff)
  then show ?thesis by simp
qed

lemma distinct_map_filter_inj:
  "distinct (List.map_filter f xs) \<Longrightarrow> x \<in> set xs \<Longrightarrow> y \<in> set xs \<Longrightarrow> f x = Some c \<Longrightarrow> f y = Some c \<Longrightarrow> x = y"
  by (induction xs) (auto simp: map_filter_simps set_map_filter_option split: option.splits)

lemma applied_codes:
  assumes "application_ok input best"
  shows "mset (map ap_code (an_applied best)) = mset (map el_code (an_set best))"
proof -
  obtain es ns where e: "mset es = mset (an_set best)" "length ns = length es" "an_applied best = map2 applied_entry es ns"
    using assms by (auto simp: application_ok_def)
  have "map ap_code (map2 applied_entry es ns) = map el_code es" using e(2)
    by (induction es ns rule: list_induct2') (simp_all add: applied_entry_def)
  with e show ?thesis by (metis mset_map)
qed

lemma map_filter_via_map: "List.map_filter f xs = List.map_filter id (map f xs)"
  by (induction xs) (simp_all add: map_filter_simps split: option.split)

lemma applied_codes_distinct:
  assumes "one_code_each input" "application_ok input best" "chosen loc input (sn_eligible (screen input)) best"
  shows "distinct (List.map_filter ap_code (an_applied best))"
proof -
  let ?accepted = "filter (\<lambda>c. considered input c \<and> rejectionFor c input = None) (di_candidates input)"
  have "mset (List.map_filter ap_code (an_applied best)) = mset (List.map_filter el_code (an_set best))"
    using map_filter_mset_mono [of "map ap_code (an_applied best)" "map el_code (an_set best)" id]
      map_filter_mset_mono [of "map el_code (an_set best)" "map ap_code (an_applied best)" id]
      applied_codes [OF assms(2)]
    by (simp add: map_filter_via_map [of ap_code] map_filter_via_map [of el_code] subset_mset.antisym)
  also have "\<dots> \<subseteq># mset (List.map_filter el_code (sn_eligible (screen input)))"
    by (rule map_filter_mset_mono) (use assms(3) in \<open>simp add: chosen_def\<close>)
  also have "List.map_filter el_code (sn_eligible (screen input)) = List.map_filter candidate_code ?accepted"
    by (simp add: screen_eligible List.map_filter_def filter_map comp_def to_eligible_def)
  also have "mset \<dots> \<subseteq># mset (List.map_filter candidate_code (di_candidates input))"
    by (rule map_filter_mset_mono) (simp add: multiset_filter_subset)
  finally show ?thesis using assms(1) distinct_mset_mono by (auto simp: one_code_each_def)
qed

lemma dropped_saves_nothing:
  assumes "one_code_each input" "application_ok input best" "chosen loc input (sn_eligible (screen input)) best"
    and "a \<in> set (an_applied best)" "\<not> kept input best a"
  shows "ap_amountMinor a = 0"
proof (cases "ap_code a")
  case None
  with assms(2,4,5) show ?thesis by (fastforce simp: kept_def application_ok_def list_all_iff)
next
  case (Some c)
  with assms(5) have "c \<in> set (empty_codes input (an_applied best))" by (simp add: kept_def)
  then obtain b where b: "b \<in> set (an_applied best)" "ap_code b = Some c" "ap_amountMinor b = 0"
    by (auto simp: empty_codes_def set_map_filter_option)
  from distinct_map_filter_inj [OF applied_codes_distinct [OF assms(1-3)] assms(4) b(1) Some b(2)] b(3)
  show ?thesis by simp
qed


text \<open>
  C2: The discounts of the result come from a set that may be combined, every pair of it accepting each
  other's class, and for up to \<open>EXHAUSTIVE_LIMIT\<close> eligible discounts no set of them that may be combined
  saves more than the order and shipping discounts of the result together.
\<close>

theorem best_combination:
  "input_ok input \<Longrightarrow> one_code_each input \<Longrightarrow> calculateDiscounts loc input = Some r \<Longrightarrow>
   (\<exists>es. sorted_wrt combinable es \<and> mset es \<subseteq># mset (sn_eligible (screen input)) \<and>
      set (dr_applied r) \<subseteq> {applied_entry e n |e n. e \<in> set es}) \<and>
   (length (sn_eligible (screen input)) \<le> EXHAUSTIVE_LIMIT \<longrightarrow>
      (\<forall>es\<in>set (subseqs (sn_eligible (screen input))). sorted_wrt combinable es \<longrightarrow>
         (\<exists>a. applySet loc input es = Some a \<and>
            an_total a \<le> dr_orderDiscountMinor r + dr_shippingDiscountMinor r)))"
proof -
  assume ok: "input_ok input" "one_code_each input" and r: "calculateDiscounts loc input = Some r"
  obtain best where best: "calculateDiscounts loc input = Some (result_of input (screen input) best)"
    "application_ok input best" "chosen loc input (sn_eligible (screen input)) best"
    and most: "length (sn_eligible (screen input)) \<le> EXHAUSTIVE_LIMIT \<longrightarrow>
      (\<forall>es\<in>set (subseqs (sn_eligible (screen input))). isCompatible es \<longrightarrow>
         saves_no_more loc input es (an_total best))"
    using calculateDiscounts_best [OF ok(1), of loc] unfolding result_from_def by blast
  have r: "r = result_of input (screen input) best" using r best(1) by simp
  note sums = result_sums [OF best(2) dropped_saves_nothing [OF ok(2) best(2,3)], where sn = "screen input"]
  have total: "an_total best = dr_orderDiscountMinor r + dr_shippingDiscountMinor r"
    using best(2) by (simp add: r sums application_ok_def)
  obtain es ns where e: "mset es = mset (an_set best)" "length ns = length es" "an_applied best = map2 applied_entry es ns"
    using best(2) by (auto simp: application_ok_def)
  have es: "set es = set (an_set best)" using e(1) by (metis set_mset_mset)
  have "set (dr_applied r) \<subseteq> set (an_applied best)" by (auto simp: r dr_applied_kept)
  also have "\<dots> \<subseteq> {applied_entry x n |x n. x \<in> set (an_set best)}"
  proof
    fix a
    assume "a \<in> set (an_applied best)"
    then obtain x n where "(x, n) \<in> set (zip es ns)" "a = applied_entry x n" by (auto simp: e(3))
    then show "a \<in> {applied_entry x n |x n. x \<in> set (an_set best)}" using es by (auto dest: set_zip_leftD)
  qed
  finally have "\<exists>es. sorted_wrt combinable es \<and> mset es \<subseteq># mset (sn_eligible (screen input)) \<and>
      set (dr_applied r) \<subseteq> {applied_entry e n |e n. e \<in> set es}"
    using best(3) by (intro exI [of _ "an_set best"]) (simp add: chosen_def isCompatible_pairs)
  with most show ?thesis unfolding total saves_no_more_def isCompatible_pairs by simp
qed

subsection \<open>What the result says of each code\<close>

lemma code_status_code [simp]: "co_code (code_status_of sn emptyCodes chosenCodes ic) = snd ic"
  by (simp add: code_status_of_def Let_def split: option.splits)

lemma code_status_applicable [simp]:
  "co_applicable (code_status_of sn emptyCodes chosenCodes ic) \<longleftrightarrow>
     fst ic < MAX_DISCOUNT_CODES \<and> snd ic \<notin> set emptyCodes \<and> snd ic \<in> set chosenCodes"
  by (auto simp: code_status_of_def Let_def split: option.splits)

lemma applied_candidate:
  assumes "application_ok input best" "chosen loc input (sn_eligible (screen input)) best" "a \<in> set (an_applied best)"
  shows "\<exists>c\<in>set (di_candidates input). considered input c \<and> rejectionFor c input = None \<and>
    ap_promotionId a = agg_id (cd_promotion c) \<and> ap_code a = candidate_code c"
proof -
  obtain es ns where e: "mset es = mset (an_set best)" "length ns = length es" "an_applied best = map2 applied_entry es ns"
    using assms(1) by (auto simp: application_ok_def)
  with assms(3) obtain x n where x: "x \<in> set es" "a = applied_entry x n" by (auto dest: set_zip_leftD)
  then have "x \<in> set (sn_eligible (screen input))"
    using chosen_subset [OF assms(2)] e(1) by (metis set_mset_mset subsetD)
  with x(2) show ?thesis by (auto simp: screen_eligible to_eligible_def applied_entry_def)
qed

lemma mem_enumerate: "(i, c) \<in> set (List.enumerate 0 xs) \<longleftrightarrow> i < length xs \<and> xs ! i = c"
  by (simp add: in_set_enumerate_eq)

lemma enumerate_take: "(\<exists>i. (i, c) \<in> set (List.enumerate 0 xs) \<and> i < n) \<longleftrightarrow> c \<in> set (take n xs)"
  unfolding mem_enumerate in_set_conv_nth [of c "take n xs"] by auto

lemma enumerate_drop: "ic \<in> set (drop n (List.enumerate 0 xs)) \<Longrightarrow> n \<le> fst ic"
  by (auto simp: in_set_conv_nth nth_enumerate_eq)

lemma status_applicable_iff:
  assumes "application_ok input best" "chosen loc input (sn_eligible (screen input)) best" "c \<in> set (entered_codes input)"
  shows "(\<exists>s\<in>set (dr_codeStatuses (result_of input sn best)). co_code s = c \<and> co_applicable s) \<longleftrightarrow>
    (\<exists>a\<in>set (dr_applied (result_of input sn best)). ap_code a = Some c)"
proof -
  have codes: "ap_code ` set (an_applied best) = el_code ` set (an_set best)"
    using applied_codes [OF assms(1)] by (metis set_map set_mset_mset)
  have chosen: "(\<exists>e\<in>set (an_set best). el_code e = Some c) \<longleftrightarrow> (\<exists>a\<in>set (an_applied best). ap_code a = Some c)"
    using arg_cong [OF codes, of "\<lambda>S. Some c \<in> S"] by (simp add: image_iff eq_commute [of "Some c"])
  have early: "c \<in> set (take MAX_DISCOUNT_CODES (entered_codes input))"
    if "a \<in> set (an_applied best)" "ap_code a = Some c" for a
    using applied_candidate [OF assms(1,2) that(1)] that(2) by (auto simp: considered_def split: option.splits)
  define E where "E = empty_codes input (an_applied best)"
  define K where "K = filter (\<lambda>c. c \<notin> set E) (List.map_filter el_code (an_set best))"
  have K: "c \<in> set K \<longleftrightarrow> c \<notin> set E \<and> (\<exists>e\<in>set (an_set best). el_code e = Some c)"
    by (auto simp: K_def set_map_filter_option)
  have "dr_codeStatuses (result_of input sn best) =
      map (code_status_of sn E K) (List.enumerate 0 (entered_codes input))"
    by (simp add: result_of_def Let_def E_def K_def)
  then have "(\<exists>s\<in>set (dr_codeStatuses (result_of input sn best)). co_code s = c \<and> co_applicable s) \<longleftrightarrow>
    (\<exists>ic\<in>set (List.enumerate 0 (entered_codes input)). snd ic = c \<and> fst ic < MAX_DISCOUNT_CODES \<and>
       snd ic \<notin> set E \<and> snd ic \<in> set K)" by simp
  also have "\<dots> \<longleftrightarrow>
    (\<exists>i. (i, c) \<in> set (List.enumerate 0 (entered_codes input)) \<and> i < MAX_DISCOUNT_CODES) \<and> c \<notin> set E \<and> c \<in> set K"
    by (metis fst_conv snd_conv prod.collapse)
  also have "\<dots> \<longleftrightarrow> c \<in> set (take MAX_DISCOUNT_CODES (entered_codes input)) \<and> c \<notin> set E \<and>
    (\<exists>e\<in>set (an_set best). el_code e = Some c)"
    unfolding enumerate_take K by blast
  also have "\<dots> \<longleftrightarrow> (\<exists>a\<in>set (dr_applied (result_of input sn best)). ap_code a = Some c)"
    using early chosen by (auto simp: dr_applied_kept kept_def E_def)
  finally show ?thesis .
qed

lemma applicable_early:
  "filter co_applicable (dr_codeStatuses (result_of input sn best)) =
   filter co_applicable (take MAX_DISCOUNT_CODES (dr_codeStatuses (result_of input sn best)))"
proof -
  have none: "filter co_applicable (drop MAX_DISCOUNT_CODES (dr_codeStatuses (result_of input sn best))) = []"
    by (auto simp: result_of_def Let_def filter_empty_conv drop_map dest: enumerate_drop)
  have "filter co_applicable (take n xs @ drop n xs) = filter co_applicable (take n xs)"
    if "filter co_applicable (drop n xs) = []" for n xs using that by (metis append_Nil2 filter_append)
  from this [OF none] show ?thesis by (simp only: append_take_drop_id)
qed

text \<open>
  The result has one status per distinct code entered, in the order entered, and calls a code
  applicable exactly when a discount with that code is applied, which at most five codes ever are. What
  is applied belongs to a candidate that passed every check, either automatic and saving something, or
  reached by one of the first five codes: a discount reached by code never applies without its code.
\<close>

lemma codes_and_discounts_agree:
  "input_ok input \<Longrightarrow> calculateDiscounts loc input = Some r \<Longrightarrow>
   map co_code (dr_codeStatuses r) = entered_codes input \<and>
   length (filter co_applicable (dr_codeStatuses r)) \<le> MAX_DISCOUNT_CODES \<and>
   (\<forall>c\<in>set (entered_codes input).
      (\<exists>s\<in>set (dr_codeStatuses r). co_code s = c \<and> co_applicable s) \<longleftrightarrow>
      (\<exists>a\<in>set (dr_applied r). ap_code a = Some c)) \<and>
   (\<forall>a\<in>set (dr_applied r). \<exists>c\<in>set (di_candidates input).
      ap_promotionId a = agg_id (cd_promotion c) \<and> rejectionFor c input = None \<and> ap_code a = candidate_code c \<and>
      (case ap_code a of
         None \<Rightarrow> pn_method (cd_promotion c) = Some AutomaticMethod \<and> 0 < ap_amountMinor a
       | Some code \<Rightarrow> code \<in> set (take MAX_DISCOUNT_CODES (entered_codes input))))"
proof -
  assume ok: "input_ok input" and r: "calculateDiscounts loc input = Some r"
  obtain best where best: "calculateDiscounts loc input = Some (result_of input (screen input) best)"
    "application_ok input best" "chosen loc input (sn_eligible (screen input)) best"
    using calculateDiscounts_best [OF ok, of loc] unfolding result_from_def by blast
  have r: "r = result_of input (screen input) best" using r best(1) by simp
  have codes: "map co_code (dr_codeStatuses r) = entered_codes input"
    by (simp add: r result_of_def Let_def comp_def)
  have "filter co_applicable (dr_codeStatuses r) = filter co_applicable (take MAX_DISCOUNT_CODES (dr_codeStatuses r))"
    unfolding r by (rule applicable_early)
  then have five: "length (filter co_applicable (dr_codeStatuses r)) \<le> MAX_DISCOUNT_CODES"
    by (metis length_filter_le length_take min.cobounded2 order_trans)
  have cand: "\<exists>c\<in>set (di_candidates input). ap_promotionId a = agg_id (cd_promotion c) \<and>
      rejectionFor c input = None \<and> ap_code a = candidate_code c \<and>
      (case ap_code a of None \<Rightarrow> pn_method (cd_promotion c) = Some AutomaticMethod \<and> 0 < ap_amountMinor a
       | Some code \<Rightarrow> code \<in> set (take MAX_DISCOUNT_CODES (entered_codes input)))"
    if a: "a \<in> set (dr_applied r)" for a
  proof -
    from a have "a \<in> set (an_applied best)" and k: "kept input best a" by (auto simp: r dr_applied_kept)
    from applied_candidate [OF best(2,3) this(1)] k show ?thesis
      by (auto simp: considered_def kept_def split: option.splits)
  qed
  show ?thesis
    using codes five status_applicable_iff [OF best(2,3), of _ "screen input"] cand unfolding r by blast
qed

subsection \<open>An example\<close>

text \<open>An automatic discount of 15% on one product and a code for 10% off the order.\<close>

definition welcome_rule :: promotion_rule where
  "welcome_rule = \<lparr>ru_type = AutomaticRule,
     ru_condition = \<lparr>pc_scope = CartScope, pc_targetRefs = [], pc_minimumQuantity = None,
       pc_minimumSubtotalAmountMinor = Some 1000\<rparr>,
     ru_reward = summer_reward\<lparr>rw_value := Some (jint 10)\<rparr>, ru_stackable = True, ru_priority = jint 1\<rparr>"

definition welcome_promotion :: promotion where
  "welcome_promotion = Promotion_reconstitute ''promo-2'' ''Welcome'' welcome_rule
     \<lparr>sc_startsAt = 10, sc_endsAt = None\<rparr> everyone None None 0 PrActive 1
     \<lparr>pst_method = Some CodeMethod, pst_combinesWith = None\<rparr>"

definition welcome_coupon :: coupon_state where
  "welcome_coupon = \<lparr>ct_couponId = ''coupon-1'', ct_code = ''WELCOME'', ct_status = CsActive,
     ct_usageLimit = Some 100, ct_usageCount = 3, ct_oncePerCustomer = True, ct_assignedCustomerRef = None,
     ct_expiresAt = None, ct_redemptions = []\<rparr>"

definition example_input :: discounts_input where
  "example_input =
     \<lparr>di_lines = [\<lparr>dl_lineRef = ''l1'', dl_productRef = ''p1'', dl_categoryRefs = [], dl_quantity = 3, dl_unitPriceMinor = 999\<rparr>,
                 \<lparr>dl_lineRef = ''l2'', dl_productRef = ''p2'', dl_categoryRefs = [], dl_quantity = 1, dl_unitPriceMinor = 500\<rparr>],
      di_shipping = None, di_customer = \<lparr>dc_customerRef = Some ''c1'', dc_email = None\<rparr>,
      di_enteredCodes = ['' welcome '', ''OTHER''],
      di_candidates = [\<lparr>cd_promotion = summer, cd_coupon = None\<rparr>, \<lparr>cd_promotion = welcome_promotion, cd_coupon = Some welcome_coupon\<rparr>],
      di_now = 50\<rparr>"

definition example_result :: discount_result where
  "example_result =
     \<lparr>dr_applied = [\<lparr>ap_promotionId = ''promo-1'', ap_couponId = None, ap_code = None, ap_title = ''Summer'',
          ap_discountClass = ProductClass, ap_amountMinor = 449\<rparr>,
        \<lparr>ap_promotionId = ''promo-2'', ap_couponId = Some ''coupon-1'', ap_code = Some ''WELCOME'', ap_title = ''Welcome'',
          ap_discountClass = OrderClass, ap_amountMinor = 304\<rparr>],
      dr_orderDiscountMinor = 753, dr_shippingDiscountMinor = 0,
      dr_codeStatuses = [\<lparr>co_code = ''WELCOME'', co_applicable = True, co_reason = None\<rparr>,
        \<lparr>co_code = ''OTHER'', co_applicable = False, co_reason = Some NotFound\<rparr>],
      dr_lineAllocations = [(''l1'', 703), (''l2'', 50)]\<rparr>"

lemma example_input_ok: "input_ok example_input" "one_code_each example_input"
  by code_simp+

lemma example_calculation: "calculateDiscounts str_cmp example_input = Some example_result"
  by code_simp


lemma best_combination_witness:
  "\<exists>a. applySet str_cmp example_input [] = Some a \<and> an_total a \<le> dr_orderDiscountMinor example_result + 0"
proof -
  have n: "length (sn_eligible (screen example_input)) \<le> EXHAUSTIVE_LIMIT"
    "[] \<in> set (subseqs (sn_eligible (screen example_input)))" by code_simp+
  have "dr_shippingDiscountMinor example_result = 0" by (simp add: example_result_def)
  with best_combination [OF example_input_ok example_calculation] n show ?thesis by fastforce
qed

lemma codes_and_discounts_agree_witness:
  "map co_code (dr_codeStatuses example_result) = entered_codes example_input \<and>
   length (filter co_applicable (dr_codeStatuses example_result)) \<le> MAX_DISCOUNT_CODES"
  using codes_and_discounts_agree [OF example_input_ok(1) example_calculation] by blast

end
