(* ===== verification/PromotionService.thy ===== *)
theory PromotionService
  imports DiscountCalculator AggregateService
begin

section \<open>Promotion use cases over the in-memory repository\<close>

text \<open>
  services/promotions/src/application and the in-memory repository. \<open>generated\<close> is what
  \<^verbatim>\<open>idGenerator.generate()\<close> returns and \<open>now\<close> what the clock reads; \<open>localeCompare\<close> is the
  host's string comparison. The invariants at the end say what the stored discounts keep: rewards the
  domain accepted, schedules that end after they start, and a type, class and method fixed at creation.
\<close>

type_synonym 'b promotion_service = "(promotion, 'b) agg_service"
type_synonym ('b, 'a) promotion_use_case = "('b promotion_service, 'a) use_case"

definition PromotionsEventTranslator :: "promotion_event domain_event \<Rightarrow> promotion_event descriptor option" where
  "PromotionsEventTranslator event = (case ev_data event of PromotionTransitioned name from to \<Rightarrow>
     Some \<lparr>d_type = ''promotions.promotion.'' @ promotion_status_name to, d_eventVersion = 1,
       d_aggregateType = ''promotion'', d_payload = ev_data event\<rparr>)"

subsection \<open>Queries (in-memory-promotion-repository.ts)\<close>

definition findActive :: "string \<Rightarrow> 'b promotion_service \<Rightarrow> promotion list" where
  "findActive tenant s = filter (\<lambda>p. pn_status p = PrActive) (rows_of tenant (ag_rows s))"

definition findActiveAutomatic :: "string \<Rightarrow> 'b promotion_service \<Rightarrow> promotion list" where
  "findActiveAutomatic tenant s =
     filter (\<lambda>p. pn_status p = PrActive \<and> pn_method p = Some AutomaticMethod) (rows_of tenant (ag_rows s))"

definition promotion_list ::
  "(string \<Rightarrow> string \<Rightarrow> int) \<Rightarrow> int option \<Rightarrow> string option \<Rightarrow> string \<Rightarrow> 'b promotion_service \<Rightarrow>
     promotion list \<times> page_info" where
  "promotion_list localeCompare first after tenant s =
     page_past (\<lambda>p c. str_less c (agg_id p)) first after
       (sort_cmp (\<lambda>a b. localeCompare (agg_id a) (agg_id b)) (rows_of tenant (ag_rows s)))"

datatype admin_view = AllViews | OnlyView promotion_view

record admin_promotion_query =
  aq_view :: admin_view
  aq_search :: "string option"
  aq_alsoIds :: "string list option"
  aq_first :: "int option"
  aq_after :: "string option"

definition shown_to_admin :: "timestamp \<Rightarrow> admin_promotion_query \<Rightarrow> promotion \<Rightarrow> bool" where
  "shown_to_admin now q p =
     (let search = map_option (\<lambda>x. toLowerCase (trim x)) (aq_search q) in
      viewAt p now \<noteq> ViewArchived \<and>
      (case aq_view q of AllViews \<Rightarrow> True | OnlyView v \<Rightarrow> viewAt p now = v) \<and>
      (case search of
         None \<Rightarrow> True
       | Some x \<Rightarrow> x = [] \<or> str_includes (toLowerCase (pn_name p)) x \<or>
           agg_id p \<in> set (case aq_alsoIds q of None \<Rightarrow> [] | Some ids \<Rightarrow> ids)))"

definition listForAdmin ::
  "(string \<Rightarrow> string \<Rightarrow> int) \<Rightarrow> timestamp \<Rightarrow> admin_promotion_query \<Rightarrow> string \<Rightarrow> 'b promotion_service \<Rightarrow>
     promotion list \<times> page_info" where
  "listForAdmin localeCompare now q tenant s =
     page_past (\<lambda>p c. str_less (agg_id p) c) (aq_first q) (aq_after q)
       (sort_cmp (\<lambda>a b. localeCompare (agg_id b) (agg_id a))
          (filter (shown_to_admin now q) (rows_of tenant (ag_rows s))))"

subsection \<open>Use cases (promotion.use-cases.ts)\<close>

record promotion_input =
  mi_name :: string
  mi_ruleType :: rule_type
  mi_scope :: promotion_scope
  mi_targetRefs :: "string list"
  mi_minimumQuantity :: "int option"
  mi_minimumSubtotalAmountMinor :: "int option"
  mi_rewardType :: reward_type
  mi_rewardValue :: "js_number option"
  mi_buyQuantity :: "js_number option"
  mi_getQuantity :: "js_number option"
  mi_stackable :: bool
  mi_priority :: js_number
  mi_startsAt :: timestamp
  mi_endsAt :: "timestamp option"
  mi_customerRefs :: "string list option"
  mi_segmentRefs :: "string list option"
  mi_usageLimit :: "int option"
  mi_combinesWith :: "combines_with option"
  mi_appliesOncePerOrder :: "bool option"
  mi_countries :: "string list option"
  mi_maxShippingRateMinor :: "js_number option"
  mi_buys :: "buy_x_buys option"
  mi_gets :: "buy_x_gets option"
  mi_maxUsesPerOrder :: "js_number option"

record promotion_parts =
  pp_rule :: promotion_rule
  pp_schedule :: promotion_schedule
  pp_eligibility :: customer_eligibility

definition input_condition :: "promotion_input \<Rightarrow> promotion_condition" where
  "input_condition i = \<lparr>pc_scope = mi_scope i, pc_targetRefs = mi_targetRefs i,
     pc_minimumQuantity = mi_minimumQuantity i,
     pc_minimumSubtotalAmountMinor = mi_minimumSubtotalAmountMinor i\<rparr>"

definition input_reward :: "promotion_input \<Rightarrow> promotion_reward" where
  "input_reward i = \<lparr>rw_type = mi_rewardType i, rw_value = mi_rewardValue i, rw_buyQuantity = mi_buyQuantity i,
     rw_getQuantity = mi_getQuantity i, rw_appliesOncePerOrder = mi_appliesOncePerOrder i,
     rw_countries = mi_countries i, rw_maxShippingRateMinor = mi_maxShippingRateMinor i, rw_buys = mi_buys i,
     rw_gets = mi_gets i, rw_maxUsesPerOrder = mi_maxUsesPerOrder i\<rparr>"

definition buildPromotionParts :: "promotion_input \<Rightarrow> (domain_error, promotion_parts) result" where
  "buildPromotionParts i =
     bind_result (againstEmpty (mi_name i) ''name'') (\<lambda>_.
     bind_result (PromotionReward_create (input_reward i)) (\<lambda>reward.
     bind_result (PromotionRule_create (mi_ruleType i) (input_condition i) reward (mi_stackable i) (mi_priority i)) (\<lambda>rule.
       if (case mi_endsAt i of None \<Rightarrow> False | Some e \<Rightarrow> e \<le> mi_startsAt i)
       then Inl (ValidationError ''Invalid promotion schedule'' [issue ''endsAt'' ''must be after startsAt''])
       else Inr \<lparr>pp_rule = rule, pp_schedule = \<lparr>sc_startsAt = mi_startsAt i, sc_endsAt = mi_endsAt i\<rparr>,
              pp_eligibility =
                (if mi_customerRefs i = None \<and> mi_segmentRefs i = None
                 then \<lparr>el_customerRefs = None, el_segmentRefs = None\<rparr>
                 else \<lparr>el_customerRefs = mi_customerRefs i, el_segmentRefs = mi_segmentRefs i\<rparr>)\<rparr>)))"

record promotion_output =
  po_promotionId :: string
  po_status :: promotion_status

definition promotion_out :: "promotion \<Rightarrow> promotion_output" where
  "promotion_out p = \<lparr>po_promotionId = agg_id p, po_status = pn_status p\<rparr>"

definition promotion_not_found :: domain_error where
  "promotion_not_found = NotFoundError ''Promotion not found''"

definition CreatePromotion ::
  "(promotion_event, 'b) agg_env \<Rightarrow> string \<Rightarrow> timestamp \<Rightarrow> string \<Rightarrow> promotion_input \<Rightarrow> discount_method option \<Rightarrow>
     string option \<Rightarrow> ('b, promotion_output) promotion_use_case" where
  "CreatePromotion env generated now tenant input method campaignRef =
     or_return (buildPromotionParts input) (\<lambda>parts.
     or_reject (UniqueEntityId_from generated) (\<lambda>pid.
       save_new env now tenant promotion_out
         (Promotion_create pid (mi_name input) (pp_rule parts) (pp_schedule parts) (pp_eligibility parts)
            campaignRef (mi_usageLimit input)
            \<lparr>pst_method = method, pst_combinesWith = mi_combinesWith input\<rparr>)))"

definition input_changes :: "promotion_input \<Rightarrow> promotion_parts \<Rightarrow> promotion \<Rightarrow> promotion_changes" where
  "input_changes i parts p = \<lparr>chg_name = mi_name i, chg_rule = pp_rule parts, chg_schedule = pp_schedule parts,
     chg_eligibility = pp_eligibility parts, chg_usageLimit = mi_usageLimit i,
     chg_combinesWith = (case mi_combinesWith i of None \<Rightarrow> pn_combinesWith p | Some c \<Rightarrow> c)\<rparr>"

definition UpdatePromotion ::
  "(promotion_event, 'b) agg_env \<Rightarrow> timestamp \<Rightarrow> string \<Rightarrow> string \<Rightarrow> promotion_input \<Rightarrow>
     ('b, promotion_output) promotion_use_case" where
  "UpdatePromotion env now tenant promotionId input =
     or_return (buildPromotionParts input) (\<lambda>parts.
     lookup promotion_not_found (find_agg tenant promotionId) (\<lambda>p.
       call_save env now tenant (promotion_update (input_changes input parts p)) promotion_out p))"

definition ListActiveAutomaticPromotions :: "string \<Rightarrow> 'b promotion_service \<Rightarrow> (domain_error, promotion list) result" where
  "ListActiveAutomaticPromotions tenant s = Inr (findActiveAutomatic tenant s)"

definition ListPromotionsForAdmin ::
  "(string \<Rightarrow> string \<Rightarrow> int) \<Rightarrow> timestamp \<Rightarrow> admin_promotion_query \<Rightarrow> string \<Rightarrow> 'b promotion_service \<Rightarrow>
     (domain_error, promotion list \<times> page_info) result" where
  "ListPromotionsForAdmin localeCompare now q tenant s = Inr (listForAdmin localeCompare now q tenant s)"

definition AdvancePromotion ::
  "(promotion_event, 'b) agg_env \<Rightarrow> string \<Rightarrow> timestamp \<Rightarrow> string \<Rightarrow> string \<Rightarrow> promotion_status \<Rightarrow>
     ('b, promotion_output) promotion_use_case" where
  "AdvancePromotion env generated now tenant promotionId toStatus =
     lookup promotion_not_found (find_agg tenant promotionId) (\<lambda>p.
       call_save env now tenant (promotion_transition toStatus generated now) promotion_out p)"

definition EvaluatePromotions ::
  "timestamp \<Rightarrow> string \<Rightarrow> cart_snapshot \<Rightarrow> string \<Rightarrow> string list option \<Rightarrow> 'b promotion_service \<Rightarrow>
     (domain_error, promotion_determination list) result" where
  "EvaluatePromotions now tenant cart customerRef segmentRefs s =
     Inr (map the (filter (\<lambda>d. d \<noteq> None)
       (map (\<lambda>p. promotion_evaluate p cart customerRef (case segmentRefs of None \<Rightarrow> [] | Some r \<Rightarrow> r) now)
          (findActive tenant s))))"

definition RecordPromotionUsage ::
  "(promotion_event, 'b) agg_env \<Rightarrow> string \<Rightarrow> timestamp \<Rightarrow> string \<Rightarrow> string \<Rightarrow>
     ('b, promotion_output) promotion_use_case" where
  "RecordPromotionUsage env generated now tenant promotionId =
     lookup promotion_not_found (find_agg tenant promotionId) (\<lambda>p.
       call_save env now tenant (promotion_recordUsage generated now) promotion_out p)"

definition GetPromotion :: "string \<Rightarrow> string \<Rightarrow> 'b promotion_service \<Rightarrow> (domain_error, promotion) result" where
  "GetPromotion tenant promotionId s =
     (case find_agg tenant promotionId s of None \<Rightarrow> Inl promotion_not_found | Some p \<Rightarrow> Inr p)"

definition ListPromotions ::
  "(string \<Rightarrow> string \<Rightarrow> int) \<Rightarrow> int option \<Rightarrow> string option \<Rightarrow> string \<Rightarrow> 'b promotion_service \<Rightarrow>
     (domain_error, promotion list \<times> page_info) result" where
  "ListPromotions localeCompare first after tenant s = Inr (promotion_list localeCompare first after tenant s)"

subsection \<open>Requests\<close>

datatype promotion_request =
    ReqCreatePromotion string timestamp string promotion_input "discount_method option" "string option"
  | ReqUpdatePromotion timestamp string string promotion_input
  | ReqAdvancePromotion string timestamp string string promotion_status
  | ReqRecordUsage string timestamp string string

fun promotion_handle :: "(promotion_event, 'b) agg_env \<Rightarrow> promotion_request \<Rightarrow> ('b, unit) promotion_use_case" where
  "promotion_handle env (ReqCreatePromotion g now t i m c) = drop_answer (CreatePromotion env g now t i m c)"
| "promotion_handle env (ReqUpdatePromotion now t p i) = drop_answer (UpdatePromotion env now t p i)"
| "promotion_handle env (ReqAdvancePromotion g now t p st) = drop_answer (AdvancePromotion env g now t p st)"
| "promotion_handle env (ReqRecordUsage g now t p) = drop_answer (RecordPromotionUsage env g now t p)"

definition empty_promotions :: "'b promotion_service" where
  "empty_promotions = \<lparr>ag_rows = [], ag_outbox = []\<rparr>"

subsection \<open>What is stored was accepted\<close>

definition schedule_ok :: "promotion_schedule \<Rightarrow> bool" where
  "schedule_ok s = (case sc_endsAt s of None \<Rightarrow> True | Some e \<Rightarrow> sc_startsAt s < e)"

definition rule_accepted :: "promotion_rule \<Rightarrow> bool" where
  "rule_accepted r = (PromotionReward_create (ru_reward r) = Inr (ru_reward r) \<and> reward_value (ru_reward r) \<noteq> JNaN)"

definition accepted :: "promotion \<Rightarrow> bool" where
  "accepted p = (rule_accepted (pn_rule p) \<and> schedule_ok (pn_schedule p))"

interpretation accepted: aggregate_calls accepted
  by unfold_locales (simp add: accepted_def)

text \<open>The guard: a reward value that is NaN passes the comparisons of the domain, so no request carries one.\<close>

fun not_nan :: "promotion_request \<Rightarrow> bool" where
  "not_nan (ReqCreatePromotion g now t i m c) = (mi_rewardValue i \<noteq> Some JNaN)"
| "not_nan (ReqUpdatePromotion now t p i) = (mi_rewardValue i \<noteq> Some JNaN)"
| "not_nan _ = True"

lemma buildPromotionParts_ok:
  assumes "buildPromotionParts i = Inr parts" "mi_rewardValue i \<noteq> Some JNaN"
  shows "rule_accepted (pp_rule parts) \<and> schedule_ok (pp_schedule parts)"
proof -
  obtain nm reward rule where r: "PromotionReward_create (input_reward i) = Inr reward"
      and ru: "PromotionRule_create (mi_ruleType i) (input_condition i) reward (mi_stackable i) (mi_priority i) = Inr rule"
      and p: "(if (case mi_endsAt i of None \<Rightarrow> False | Some e \<Rightarrow> e \<le> mi_startsAt i)
         then Inl (ValidationError ''Invalid promotion schedule'' [issue ''endsAt'' ''must be after startsAt''])
         else Inr \<lparr>pp_rule = rule, pp_schedule = \<lparr>sc_startsAt = mi_startsAt i, sc_endsAt = mi_endsAt i\<rparr>,
              pp_eligibility =
                (if mi_customerRefs i = None \<and> mi_segmentRefs i = None
                 then \<lparr>el_customerRefs = None, el_segmentRefs = None\<rparr>
                 else \<lparr>el_customerRefs = mi_customerRefs i, el_segmentRefs = mi_segmentRefs i\<rparr>)\<rparr>) = Inr parts"
    using assms(1) unfolding buildPromotionParts_def bind_result_Inr_iff by blast
  have rw: "reward = input_reward i" "ru_reward rule = reward"
    using r ru by (auto simp: PromotionReward_create_def PromotionRule_create_def Let_def bind_result_Inr_iff split: if_splits)
  have "pp_rule parts = rule" "schedule_ok (pp_schedule parts)"
    using p by (auto simp: schedule_ok_def split: if_splits option.splits)
  moreover have "reward_value reward \<noteq> JNaN"
    using assms(2) rw(1) by (cases "mi_rewardValue i") (auto simp: reward_value_def input_reward_def)
  ultimately show ?thesis using r rw by (simp add: rule_accepted_def)
qed

lemma accepted_create:
  "rule_accepted r \<Longrightarrow> schedule_ok sc \<Longrightarrow> accepted (Promotion_create pid nm r sc el c u st)"
  by (simp add: accepted_def Promotion_create_def)

lemma addDomainEvent_promotion_parts [simp]:
  "pn_schedule (addDomainEvent i t d (s::promotion)) = pn_schedule s"
  "pn_method (addDomainEvent i t d s) = pn_method s"
  "agg_id (addDomainEvent i t d s) = agg_id s"
  by (simp_all add: addDomainEvent_def)

lemma promotion_update_cases:
  "promotion_update chg s =
     (if pn_status s = PrArchived then (Inl (BusinessRuleError ''An archived discount cannot be edited''), s)
      else if \<not> (ru_type (chg_rule chg) = ru_type (pn_rule s) \<and>
                 discountClassOf (chg_rule chg) = discountClassOf (pn_rule s))
      then (Inl (BusinessRuleError (''A discount'' @ [CHR 0x27] @ ''s type cannot be changed'')), s)
      else (Inr (), s\<lparr>pn_name := chg_name chg, pn_rule := chg_rule chg, pn_schedule := chg_schedule chg,
        pn_eligibility := chg_eligibility chg, pn_usageLimit := chg_usageLimit chg,
        pn_combinesWith := chg_combinesWith chg\<rparr>))"
  by (simp add: promotion_update_def then_do_apply)

lemma accepted_steps:
  "accepted p \<Longrightarrow> accepted (snd (promotion_transition st g now p))"
  "accepted p \<Longrightarrow> accepted (snd (promotion_recordUsage g now p))"
  "accepted p \<Longrightarrow> rule_accepted (chg_rule chg) \<Longrightarrow> schedule_ok (chg_schedule chg) \<Longrightarrow>
     accepted (snd (promotion_update chg p))"
  by (simp_all add: accepted_def promotion_transition_cases promotion_recordUsage_cases Let_def
      promotion_update_cases)

lemma keeps_accepted:
  assumes "not_nan r"
  shows "keeps accepted.rows_ok (promotion_handle env r) s"
proof (cases r)
  case (ReqCreatePromotion g now t i m c)
  with assms show ?thesis
    by (auto simp: CreatePromotion_def intro!: keeps_intros accepted.keeps_save_new accepted_create
        dest: buildPromotionParts_ok)
next
  case (ReqUpdatePromotion now t p i)
  with assms show ?thesis
    by (auto simp: UpdatePromotion_def input_changes_def
        intro!: keeps_intros accepted.keeps_call_save accepted_steps
        dest: buildPromotionParts_ok accepted.loaded_ok)
next
  case (ReqAdvancePromotion g now t p st)
  then show ?thesis
    by (auto simp: AdvancePromotion_def intro!: keeps_intros accepted.keeps_call_save accepted_steps
        dest: accepted.loaded_ok)
next
  case (ReqRecordUsage g now t p)
  then show ?thesis
    by (auto simp: RecordPromotionUsage_def intro!: keeps_intros accepted.keeps_call_save accepted_steps
        dest: accepted.loaded_ok)
qed

interpretation accepted_requests: invariant_object
    "accepted.rows_ok :: 'b promotion_service \<Rightarrow> bool" not_nan "promotion_handle env"
  for env :: "(promotion_event, 'b) agg_env"
  by unfold_locales (rule keepsD [OF keeps_accepted])

text \<open>
  C4: Composition of the promotions service with its domain: after any requests (none with a NaN reward value) from an
  empty store, every determination \<open>EvaluatePromotions\<close> gives a tenant for a valid cart belongs to a
  stored promotion of that tenant which is active, inside its schedule, open to the customer and below its
  usage limit, and takes off between nothing and the subtotal of the cart.
\<close>

theorem evaluation_sound:
  fixes env :: "(promotion_event, 'b) agg_env"
  assumes "list_all not_nan requests" "cart_ok cart"
    and "EvaluatePromotions now tenant cart ref (Some segs) (runs (promotion_handle env) requests empty_promotions) =
      Inr ds" "d \<in> set ds"
  shows "\<exists>p. find_agg tenant (pd_promotionId d) (runs (promotion_handle env) requests empty_promotions) = Some p \<and>
           viewAt p now = ViewActive \<and> isEligible (pn_eligibility p) ref segs \<and>
           (\<forall>n. pn_usageLimit p = Some n \<longrightarrow> pn_usageCount p < n) \<and>
           condition_matches (ru_condition (pn_rule p)) cart \<and>
           0 \<le> pd_discountAmountMinor d \<and> pd_discountAmountMinor d \<le> cs_subtotalAmountMinor cart"
proof -
  let ?s = "runs (promotion_handle env) requests empty_promotions"
  have ok: "accepted.rows_ok ?s"
    by (rule accepted_requests.runs_inv [OF _ assms(1)]) (simp add: empty_promotions_def)
  obtain p where p: "p \<in> set (rows_of tenant (ag_rows ?s))" and d: "promotion_evaluate p cart ref segs now = Some d"
    using assms(3,4) by (auto simp: EvaluatePromotions_def findActive_def)
  have "find_agg tenant (agg_id p) ?s = Some p" using row_find [OF ok p] by (simp add: find_agg_def)
  moreover have "accepted p" using accepted.row_ok [OF ok p] .
  ultimately show ?thesis
    using determination_sound [OF d _ _ assms(2)] by (auto simp: accepted_def rule_accepted_def)
qed

subsection \<open>The kind of a discount is fixed\<close>

definition of_kind :: "rule_type \<Rightarrow> discount_class \<Rightarrow> discount_method option \<Rightarrow> promotion \<Rightarrow> bool" where
  "of_kind ty cl m p = (ru_type (pn_rule p) = ty \<and> discountClassOf (pn_rule p) = cl \<and> pn_method p = m)"

interpretation kind: aggregate_fact "of_kind ty cl m" for ty cl m
  by unfold_locales (simp add: of_kind_def)

lemma promotion_ids:
  "agg_id (snd (promotion_transition st g now p)) = agg_id p"
  "agg_id (snd (promotion_recordUsage g now p)) = agg_id p"
  "agg_id (snd (promotion_update chg p)) = agg_id p"
  by (simp_all add: promotion_transition_cases promotion_recordUsage_cases Let_def promotion_update_cases)

lemma of_kind_steps:
  "of_kind ty cl m p \<Longrightarrow> of_kind ty cl m (snd (promotion_transition st g now p))"
  "of_kind ty cl m p \<Longrightarrow> of_kind ty cl m (snd (promotion_recordUsage g now p))"
  "of_kind ty cl m p \<Longrightarrow> of_kind ty cl m (snd (promotion_update chg p))"
  by (simp_all add: of_kind_def promotion_transition_cases promotion_recordUsage_cases Let_def
      promotion_update_cases)

text \<open>No promotion is created under an id the generator has already given.\<close>

fun fresh_id :: "string \<Rightarrow> promotion_request \<Rightarrow> bool" where
  "fresh_id i (ReqCreatePromotion g now t inp m c) = (g \<noteq> i)"
| "fresh_id i _ = True"

lemma keeps_kind:
  assumes "fresh_id i r"
  shows "keeps (kind.held ty cl m t i) (promotion_handle env r) s"
proof (cases r)
  case (ReqCreatePromotion g now u inp m' c)
  with assms show ?thesis
    by (auto simp: CreatePromotion_def Promotion_create_def UniqueEntityId_from_Inr_iff
        intro!: keeps_intros kind.keeps_held_new)
next
  case (ReqUpdatePromotion now u p inp)
  then show ?thesis
    by (auto simp: UpdatePromotion_def promotion_ids intro!: keeps_intros kind.keeps_held_call of_kind_steps)
next
  case (ReqAdvancePromotion g now u p st)
  then show ?thesis
    by (auto simp: AdvancePromotion_def promotion_ids intro!: keeps_intros kind.keeps_held_call of_kind_steps)
next
  case (ReqRecordUsage g now u p)
  then show ?thesis
    by (auto simp: RecordPromotionUsage_def promotion_ids intro!: keeps_intros kind.keeps_held_call of_kind_steps)
qed

interpretation kind_requests: invariant_object
    "kind.held ty cl m t i :: 'b promotion_service \<Rightarrow> bool" "fresh_id i" "promotion_handle env"
  for env :: "(promotion_event, 'b) agg_env" and ty cl m t i
  by unfold_locales (rule keepsD [OF keeps_kind])

lemma automatic_row:
  assumes "store_all Q (ag_rows s)" "p \<in> set (findActiveAutomatic t s)"
  shows "find_agg t (agg_id p) s = Some p \<and> pn_method p = Some AutomaticMethod"
  using assms row_find [of Q "ag_rows s" p t] by (simp add: findActiveAutomatic_def find_agg_def)

text \<open>
  The type and the method of a discount never change: a promotion that \<open>CreatePromotion\<close> has answered stays
  stored for its tenant under its id, whatever is requested later, with the rule type, combination class and
  method it was created with; one not created automatic is never among the promotions checkout applies to
  every cart.
\<close>

lemma discount_kind_fixed:
  fixes env :: "(promotion_event, 'b) agg_env"
  assumes "CreatePromotion env g now tenant input method campaign
      (runs (promotion_handle env) earlier empty_promotions) = (Inr (Inr out), s)"
    and "buildPromotionParts input = Inr parts"
    and "list_all not_nan earlier" and "list_all (fresh_id (po_promotionId out)) later"
  shows "(\<exists>p. find_agg tenant (po_promotionId out) (runs (promotion_handle env) later s) = Some p \<and>
      ru_type (pn_rule p) = mi_ruleType input \<and> discountClassOf (pn_rule p) = discountClassOf (pp_rule parts) \<and>
      pn_method p = method) \<and>
    (method \<noteq> Some AutomaticMethod \<longrightarrow>
      po_promotionId out \<notin> agg_id ` set (findActiveAutomatic tenant (runs (promotion_handle env) later s)))"
proof (intro conjI)
  let ?before = "runs (promotion_handle env) earlier empty_promotions" and ?after = "runs (promotion_handle env) later s"
  let ?p = "\<lambda>pid. Promotion_create pid (mi_name input) (pp_rule parts) (pp_schedule parts) (pp_eligibility parts)
      campaign (mi_usageLimit input) \<lparr>pst_method = method, pst_combinesWith = mi_combinesWith input\<rparr>"
  obtain pid where new: "save_new env now tenant promotion_out (?p pid) ?before = (Inr (Inr out), s)"
    using assms(1,2) unfolding CreatePromotion_def returns_iff by auto
  have rt: "ru_type (pp_rule parts) = mi_ruleType input"
    using assms(2) by (auto simp: buildPromotionParts_def PromotionRule_create_def bind_result_Inr_iff split: if_splits)
  have out: "po_promotionId out = pid"
    using new by (auto simp: save_new_def then_do_apply return_ok_def promotion_out_def Promotion_create_def
        split: prod.splits sum.splits)
  have s: "s = snd (save_agg env now tenant (?p pid) ?before)" using new by (metis snd_conv snd_save_new)
  have "store_all accepted (ag_rows ?before)"
    by (rule accepted_requests.runs_inv [OF _ assms(3)]) (simp add: empty_promotions_def)
  then have "store_all (\<lambda>_. True) (ag_rows ?before)" by (auto simp: store_all_def)
  then have "kind.held (mi_ruleType input) (discountClassOf (pp_rule parts)) method tenant pid s"
    unfolding kind.held_def s
    by (simp add: find_agg_save store_all_put of_kind_def Promotion_create_def rt)
  then have held: "kind.held (mi_ruleType input) (discountClassOf (pp_rule parts)) method tenant pid ?after"
    by (rule kind_requests.runs_inv) (use assms(4) out in simp)
  from kind.heldD [OF this] obtain p where p: "find_agg tenant pid ?after = Some p"
      "of_kind (mi_ruleType input) (discountClassOf (pp_rule parts)) method p" by blast
  then show "\<exists>p. find_agg tenant (po_promotionId out) ?after = Some p \<and> ru_type (pn_rule p) = mi_ruleType input \<and>
      discountClassOf (pn_rule p) = discountClassOf (pp_rule parts) \<and> pn_method p = method"
    by (auto simp: out of_kind_def)
  show "method \<noteq> Some AutomaticMethod \<longrightarrow> po_promotionId out \<notin> agg_id ` set (findActiveAutomatic tenant ?after)"
  proof (intro impI notI)
    assume m: "method \<noteq> Some AutomaticMethod" and "po_promotionId out \<in> agg_id ` set (findActiveAutomatic tenant ?after)"
    then obtain q where q: "q \<in> set (findActiveAutomatic tenant ?after)" "agg_id q = pid" using out by auto
    have "store_all (\<lambda>_. True) (ag_rows ?after)" using held by (simp add: kind.held_def)
    from automatic_row [OF this q(1)] q(2) p m show False by (auto simp: of_kind_def)
  qed
qed

subsection \<open>Witnesses\<close>

definition example_promotion_env :: "(promotion_event, string) agg_env" where
  "example_promotion_env = \<lparr>ae_translate = PromotionsEventTranslator,
     ae_serialize = (\<lambda>e. (''promotions'', ie_type e)), ae_producer = None,
     ae_context = \<lparr>cx_correlationId = ''corr'', cx_causationId = ''corr'', cx_tenantId = None\<rparr>\<rparr>"

definition autumn_input :: promotion_input where
  "autumn_input = \<lparr>mi_name = ''Autumn'', mi_ruleType = AutomaticRule, mi_scope = CartScope, mi_targetRefs = [],
     mi_minimumQuantity = None, mi_minimumSubtotalAmountMinor = Some 1000, mi_rewardType = PercentageReward,
     mi_rewardValue = Some (jint 10), mi_buyQuantity = None, mi_getQuantity = None, mi_stackable = False,
     mi_priority = jint 1, mi_startsAt = 0, mi_endsAt = Some 90, mi_customerRefs = None, mi_segmentRefs = None,
     mi_usageLimit = None, mi_combinesWith = None, mi_appliesOncePerOrder = None, mi_countries = None,
     mi_maxShippingRateMinor = None, mi_buys = None, mi_gets = None, mi_maxUsesPerOrder = None\<rparr>"

definition autumn_requests :: "promotion_request list" where
  "autumn_requests = [ReqCreatePromotion ''p1'' 1 ''t1'' autumn_input (Some CodeMethod) None,
     ReqAdvancePromotion ''e1'' 2 ''t1'' ''p1'' PrActive]"

lemma evaluation_sound_witness:
  "\<exists>p. find_agg ''t1'' ''p1'' (runs (promotion_handle example_promotion_env) autumn_requests empty_promotions) = Some p \<and>
     viewAt p 50 = ViewActive"
proof -
  let ?after = "runs (promotion_handle example_promotion_env) autumn_requests empty_promotions"
  let ?d = "\<lparr>pd_promotionId = ''p1'', pd_discountAmountMinor = 349, pd_stackable = False, pd_priority = jint 1\<rparr>"
  have "list_all not_nan autumn_requests" "cart_ok example_cart"
    "EvaluatePromotions 50 ''t1'' example_cart ''c1'' (Some []) ?after = Inr [?d]" "?d \<in> set [?d]"
    by code_simp+
  from evaluation_sound [OF this] show ?thesis by auto
qed

lemma discount_kind_fixed_witness:
  "''p1'' \<notin> agg_id ` set (findActiveAutomatic ''t1'' (runs (promotion_handle example_promotion_env)
     [ReqAdvancePromotion ''e1'' 2 ''t1'' ''p1'' PrActive]
     (snd (CreatePromotion example_promotion_env ''p1'' 1 ''t1'' autumn_input (Some CodeMethod) None empty_promotions))))"
proof -
  let ?r = "CreatePromotion example_promotion_env ''p1'' 1 ''t1'' autumn_input (Some CodeMethod) None
    (runs (promotion_handle example_promotion_env) [] empty_promotions)"
  let ?out = "\<lparr>po_promotionId = ''p1'', po_status = PrDraft\<rparr>"
  have f: "fst ?r = Inr (Inr ?out)" by code_simp
  have r: "?r = (Inr (Inr ?out), snd ?r)" by (subst f [symmetric]) simp
  have p: "buildPromotionParts autumn_input = Inr (projr (buildPromotionParts autumn_input))"
    by (rule sum.collapse(2) [symmetric]) code_simp
  show ?thesis
    using discount_kind_fixed [OF r p, of "[ReqAdvancePromotion ''e1'' 2 ''t1'' ''p1'' PrActive]"] by simp
qed

end
