(* ===== verification/Coupons.thy ===== *)
theory Coupons
  imports DiscountCalculator JsConvert
begin

section \<open>Coupons\<close>

text \<open>
  services/coupons/src/domain: a discount code with its lifecycle and its ledger of redemptions. The
  ledger is append-only, its length is the usage count, and the invariants below say what the usage limit
  and the single-use flag make of it.
\<close>

subsection \<open>Value objects\<close>

definition is_code_char :: "char \<Rightarrow> bool" where
  "is_code_char c = (is_upper_letter c \<or> is_digit_char c \<or> c = CHR ''_'' \<or> c = CHR ''-'')"

definition code_pattern :: "string \<Rightarrow> bool" where
  "code_pattern s = (3 \<le> length s \<and> length s \<le> 32 \<and> list_all is_code_char s)"

definition CouponCode_create :: "string \<Rightarrow> (domain_error, string) result" where
  "CouponCode_create v =
     bind_result (againstEmpty v ''code'') (\<lambda>_.
       let normalized = toUpperCase (trim v) in
       if \<not> code_pattern normalized
       then Inl (ValidationError ''Invalid coupon code''
              [issue ''code'' ''must be 3-32 characters of A-Z, 0-9, _ or -''])
       else Inr normalized)"

datatype coupon_status = CpActive | CpDisabled | CpExpired | CpDepleted

fun coupon_status_name :: "coupon_status \<Rightarrow> string" where
  "coupon_status_name CpActive = ''active''"
| "coupon_status_name CpDisabled = ''disabled''"
| "coupon_status_name CpExpired = ''expired''"
| "coupon_status_name CpDepleted = ''depleted''"

fun coupon_transitions :: "coupon_status \<Rightarrow> coupon_status list" where
  "coupon_transitions CpActive = [CpDisabled, CpExpired, CpDepleted]"
| "coupon_transitions CpDisabled = [CpActive, CpExpired]"
| "coupon_transitions CpExpired = []"
| "coupon_transitions CpDepleted = []"

definition canTransitionCoupon :: "coupon_status \<Rightarrow> coupon_status \<Rightarrow> bool" where
  "canTransitionCoupon from to = (to \<in> set (coupon_transitions from))"

subsection \<open>The aggregate (coupon.ts)\<close>

record coupon_redemption =
  rd_id :: string
  rd_idempotencyKey :: string
  rd_customerRef :: string
  rd_orderRef :: "string option"
  rd_email :: "string option"
  rd_occurredAt :: timestamp

datatype coupon_event = CouponTransitioned string string coupon_status coupon_status

record coupon = "coupon_event aggregate" +
  cn_code :: string
  cn_promotionRef :: string
  cn_multiUse :: bool
  cn_customerRef :: "string option"
  cn_campaignRef :: "string option"
  cn_usageLimit :: "int option"
  cn_usageCount :: int
  cn_expiresAt :: "timestamp option"
  cn_status :: coupon_status
  cn_redemptions :: "coupon_redemption list"

type_synonym coupon_action = "(domain_error, coupon, unit) action"

definition Coupon_create ::
  "string \<Rightarrow> string \<Rightarrow> string \<Rightarrow> bool \<Rightarrow> int option \<Rightarrow> string option \<Rightarrow> timestamp option \<Rightarrow> string option \<Rightarrow> coupon" where
  "Coupon_create cid code promotionRef multiUse usageLimit customerRef expiresAt campaignRef =
     \<lparr>agg_id = cid, agg_version = 0, agg_events = [], cn_code = code, cn_promotionRef = promotionRef,
      cn_multiUse = multiUse, cn_customerRef = customerRef, cn_campaignRef = campaignRef,
      cn_usageLimit = usageLimit, cn_usageCount = 0, cn_expiresAt = expiresAt, cn_status = CpActive,
      cn_redemptions = []\<rparr>"

definition Coupon_reconstitute ::
  "string \<Rightarrow> string \<Rightarrow> string \<Rightarrow> bool \<Rightarrow> string option \<Rightarrow> string option \<Rightarrow> int option \<Rightarrow> int \<Rightarrow> timestamp option \<Rightarrow>
     coupon_status \<Rightarrow> int \<Rightarrow> coupon_redemption list \<Rightarrow> coupon" where
  "Coupon_reconstitute cid code promotionRef multiUse customerRef campaignRef usageLimit usageCount expiresAt
       status version redemptions =
     \<lparr>agg_id = cid, agg_version = version, agg_events = [], cn_code = code, cn_promotionRef = promotionRef,
      cn_multiUse = multiUse, cn_customerRef = customerRef, cn_campaignRef = campaignRef,
      cn_usageLimit = usageLimit, cn_usageCount = usageCount, cn_expiresAt = expiresAt, cn_status = status,
      cn_redemptions = redemptions\<rparr>"

definition coupon_transition :: "coupon_status \<Rightarrow> string \<Rightarrow> timestamp \<Rightarrow> coupon_action" where
  "coupon_transition toStatus eventId occurredAt = (\<lambda>s.
     let fromStatus = cn_status s in
     if \<not> canTransitionCoupon fromStatus toStatus
     then (Inl (BusinessRuleError (''Cannot transition coupon from \"'' @ coupon_status_name fromStatus @
             ''\" to \"'' @ coupon_status_name toStatus @ ''\"'')), s)
     else (Inr (), addDomainEvent eventId occurredAt
             (CouponTransitioned (cn_code s) (cn_promotionRef s) fromStatus toStatus) (s\<lparr>cn_status := toStatus\<rparr>)))"

definition coupon_disable :: "string \<Rightarrow> timestamp \<Rightarrow> coupon_action" where
  "coupon_disable = coupon_transition CpDisabled"
definition coupon_reactivate :: "string \<Rightarrow> timestamp \<Rightarrow> coupon_action" where
  "coupon_reactivate = coupon_transition CpActive"
definition coupon_expire :: "string \<Rightarrow> timestamp \<Rightarrow> coupon_action" where
  "coupon_expire = coupon_transition CpExpired"

definition redeemed_by :: "string \<Rightarrow> string option \<Rightarrow> coupon_redemption \<Rightarrow> bool" where
  "redeemed_by customerRef email r =
     (rd_customerRef r = customerRef \<or>
      (email \<noteq> None \<and> map_option toLowerCase (rd_email r) = map_option toLowerCase email))"

definition coupon_redeem ::
  "string \<Rightarrow> string \<Rightarrow> timestamp \<Rightarrow> string \<Rightarrow> string option \<Rightarrow> string option \<Rightarrow> coupon_action" where
  "coupon_redeem idempotencyKey customerRef occurredAt eventId orderRef email =
     then_do (require (\<lambda>s. cn_status s = CpActive)
       (\<lambda>s. BusinessRuleError (''Coupon is not active (status: '' @ coupon_status_name (cn_status s) @ '')'')))
    (then_do (require (\<lambda>s. \<not> opt_reached occurredAt (cn_expiresAt s)) (\<lambda>_. BusinessRuleError ''Coupon has expired''))
    (then_do (require (\<lambda>s. cn_customerRef s = None \<or> cn_customerRef s = Some customerRef)
       (\<lambda>_. BusinessRuleError ''Coupon is not assigned to this customer''))
    (then_do (require (\<lambda>s. cn_multiUse s \<or> \<not> list_ex (redeemed_by customerRef email) (cn_redemptions s))
       (\<lambda>_. BusinessRuleError ''Coupon has already been redeemed by this customer''))
    (bind_action (from_result (\<lambda>s. UniqueEntityId_from (agg_id s @ show_nat (length (cn_redemptions s))))) (\<lambda>rid.
     then_do (modify (\<lambda>s. s\<lparr>cn_redemptions := cn_redemptions s @
        [\<lparr>rd_id = rid, rd_idempotencyKey = idempotencyKey, rd_customerRef = customerRef, rd_orderRef = orderRef,
          rd_email = email, rd_occurredAt = occurredAt\<rparr>]\<rparr>))
    (then_do (modify (\<lambda>s. s\<lparr>cn_usageCount := cn_usageCount s + 1\<rparr>))
     (\<lambda>s. if opt_reached (cn_usageCount s) (cn_usageLimit s)
          then coupon_transition CpDepleted eventId occurredAt s else (Inr (), s))))))))"

definition coupon_reconfigure :: "string \<Rightarrow> bool \<Rightarrow> int option \<Rightarrow> coupon_action" where
  "coupon_reconfigure code multiUse usageLimit =
     modify (\<lambda>s. s\<lparr>cn_code := code, cn_multiUse := multiUse, cn_usageLimit := usageLimit\<rparr>)"

subsection \<open>Calls\<close>

datatype coupon_call =
    CpTransition coupon_status string timestamp
  | CpRedeem string string timestamp string "string option" "string option"
  | CpReconfigure string bool "int option"

fun coupon_step :: "coupon_call \<Rightarrow> coupon_action" where
  "coupon_step (CpTransition to i t) = coupon_transition to i t"
| "coupon_step (CpRedeem k c t i orderRef email) = coupon_redeem k c t i orderRef email"
| "coupon_step (CpReconfigure code m n) = coupon_reconfigure code m n"

lemma coupon_transition_cases:
  "coupon_transition to i t s =
     (if to \<in> set (coupon_transitions (cn_status s))
      then (Inr (), addDomainEvent i t (CouponTransitioned (cn_code s) (cn_promotionRef s) (cn_status s) to)
                      (s\<lparr>cn_status := to\<rparr>))
      else (Inl (BusinessRuleError (''Cannot transition coupon from \"'' @ coupon_status_name (cn_status s) @
              ''\" to \"'' @ coupon_status_name to @ ''\"'')), s))"
  by (simp add: coupon_transition_def canTransitionCoupon_def Let_def)

lemma addDomainEvent_coupon [simp]:
  "cn_code (addDomainEvent i t d s) = cn_code s"
  "cn_multiUse (addDomainEvent i t d s) = cn_multiUse s"
  "cn_usageLimit (addDomainEvent i t d s) = cn_usageLimit s"
  "cn_usageCount (addDomainEvent i t d s) = cn_usageCount s"
  "cn_status (addDomainEvent i t d s) = cn_status s"
  "cn_redemptions (addDomainEvent i t d s) = cn_redemptions s"
  "cn_promotionRef (addDomainEvent i t d s) = cn_promotionRef s"
  by (simp_all add: addDomainEvent_def)

definition redeemable :: "string \<Rightarrow> timestamp \<Rightarrow> string option \<Rightarrow> coupon \<Rightarrow> bool" where
  "redeemable customerRef occurredAt email s =
     (cn_status s = CpActive \<and> \<not> opt_reached occurredAt (cn_expiresAt s) \<and>
      (cn_customerRef s = None \<or> cn_customerRef s = Some customerRef) \<and>
      (cn_multiUse s \<or> \<not> list_ex (redeemed_by customerRef email) (cn_redemptions s)))"

definition with_redemption ::
  "string \<Rightarrow> string \<Rightarrow> timestamp \<Rightarrow> string option \<Rightarrow> string option \<Rightarrow> coupon \<Rightarrow> coupon" where
  "with_redemption k c t orderRef email s =
     s\<lparr>cn_redemptions := cn_redemptions s @
         [\<lparr>rd_id = agg_id s @ show_nat (length (cn_redemptions s)), rd_idempotencyKey = k, rd_customerRef = c,
           rd_orderRef = orderRef, rd_email = email, rd_occurredAt = t\<rparr>],
       cn_usageCount := cn_usageCount s + 1\<rparr>"

lemma coupon_redeem_ok:
  "redeemable c t email s \<Longrightarrow>
   coupon_redeem k c t i orderRef email s =
     (let u = with_redemption k c t orderRef email s in
      if opt_reached (cn_usageCount u) (cn_usageLimit u)
      then (Inr (), addDomainEvent i t (CouponTransitioned (cn_code s) (cn_promotionRef s) CpActive CpDepleted)
                      (u\<lparr>cn_status := CpDepleted\<rparr>))
      else (Inr (), u))"
  by (simp add: redeemable_def coupon_redeem_def then_do_apply bind_action_apply with_redemption_def Let_def
      coupon_transition_cases)

lemma coupon_redeem_refused:
  "\<not> redeemable c t email s \<Longrightarrow> \<exists>e. coupon_redeem k c t i orderRef email s = (Inl e, s)"
  by (auto simp: redeemable_def coupon_redeem_def then_do_apply)

lemma coupon_transition_atomic [atomic_intros]: "atomic (coupon_transition to i t)"
  by (rule atomicI) (auto simp: coupon_transition_cases split: if_splits)

lemma coupon_redeem_atomic [atomic_intros]: "atomic (coupon_redeem k c t i orderRef email)"
proof (rule atomicI)
  fix s e u
  assume r: "coupon_redeem k c t i orderRef email s = (Inl e, u)"
  then show "u = s"
    using coupon_redeem_refused [of c t email s k i orderRef]
    by (cases "redeemable c t email s") (auto simp: coupon_redeem_ok Let_def split: if_splits)
qed

subsection \<open>The ledger and the usage limit\<close>

definition redemption_ids :: "string \<Rightarrow> nat \<Rightarrow> string list" where
  "redemption_ids i n = map (\<lambda>k. i @ show_nat k) [0..<n]"

definition ledger_ok :: "coupon \<Rightarrow> bool" where
  "ledger_ok s =
     (cn_usageCount s = int (length (cn_redemptions s)) \<and>
      map rd_id (cn_redemptions s) = redemption_ids (agg_id s) (length (cn_redemptions s)) \<and>
      (\<forall>n. cn_usageLimit s = Some n \<longrightarrow>
         cn_usageCount s \<le> n \<and> (cn_status s \<in> {CpActive, CpDisabled} \<longrightarrow> cn_usageCount s < n)))"

text \<open>The guard: an edit leaves the limit above the uses so far.\<close>

fun limit_kept :: "coupon \<Rightarrow> coupon_call \<Rightarrow> bool" where
  "limit_kept s (CpReconfigure code m n) = (\<not> opt_reached (cn_usageCount s) n)"
| "limit_kept s _ = True"

lemma redemption_ids_Suc: "redemption_ids i (Suc n) = redemption_ids i n @ [i @ show_nat n]"
  by (simp add: redemption_ids_def)

lemma ledger_redeem:
  assumes "ledger_ok s"
  shows "ledger_ok (snd (coupon_redeem k c t i orderRef email s))"
proof (cases "redeemable c t email s")
  case True
  then have st: "cn_status s = CpActive" by (simp add: redeemable_def)
  with assms have lim: "cn_usageLimit s = Some n \<Longrightarrow> cn_usageCount s < n" for n by (simp add: ledger_ok_def)
  show ?thesis
    using assms st lim
    by (auto simp: coupon_redeem_ok [OF True] Let_def with_redemption_def ledger_ok_def redemption_ids_Suc
        opt_reached_def split: option.splits)
next
  case False
  with assms show ?thesis using coupon_redeem_refused [OF False] by (metis snd_conv)
qed

lemma ledger_step: "ledger_ok s \<Longrightarrow> limit_kept s c \<Longrightarrow> ledger_ok (snd (coupon_step c s))"
proof (cases c)
  case (CpTransition to i t)
  assume "ledger_ok s"
  then show ?thesis unfolding CpTransition
    by (cases "cn_status s") (auto simp: coupon_transition_cases ledger_ok_def)
next
  case (CpRedeem k cu t i orderRef email)
  assume "ledger_ok s"
  then show ?thesis unfolding CpRedeem by (simp add: ledger_redeem)
next
  case (CpReconfigure code m n)
  assume "ledger_ok s" "limit_kept s c"
  then show ?thesis unfolding CpReconfigure
    by (auto simp: coupon_reconfigure_def ledger_ok_def opt_reached_def)
qed

interpretation ledger: guarded_object ledger_ok limit_kept coupon_step
  by unfold_locales (rule ledger_step)

interpretation coupon_life: lifecycle cn_status coupon_transitions coupon_step
proof unfold_locales
  fix c s
  have t: "(cn_status s, cn_status (snd (coupon_transition to i t s))) \<in> (edges coupon_transitions)\<^sup>*" for to i t s
    by (simp add: coupon_transition_cases r_into_rtrancl)
  show "(cn_status s, cn_status (snd (coupon_step c s))) \<in> (edges coupon_transitions)\<^sup>*"
  proof (cases c)
    case (CpRedeem k cu u i orderRef email)
    show ?thesis
    proof (cases "redeemable cu u email s")
      case True
      then have "cn_status s = CpActive" by (simp add: redeemable_def)
      then show ?thesis
        by (simp add: CpRedeem coupon_redeem_ok [OF True] Let_def with_redemption_def r_into_rtrancl)
    next
      case False
      then obtain e where "coupon_redeem k cu u i orderRef email s = (Inl e, s)"
        using coupon_redeem_refused by blast
      then show ?thesis by (simp add: CpRedeem)
    qed
  qed (simp_all add: t coupon_reconfigure_def)
qed

text \<open>
  A coupon created with a positive usage limit, driven by any calls (transitions, redemptions, edits
  that leave the limit above the uses so far), has exactly as many uses as redemptions, all with ids of
  their own, and never more than its limit; at the limit it is depleted or expired, and no later call
  redeems it.
\<close>

lemma usage_limit_respected:
  "\<not> opt_reached 0 limit \<Longrightarrow>
   admissible limit_kept coupon_step (Coupon_create i code promo multi limit cust expires campaign) calls \<Longrightarrow>
   let s = runs coupon_step calls (Coupon_create i code promo multi limit cust expires campaign) in
   cn_usageCount s = int (length (cn_redemptions s)) \<and> distinct (map rd_id (cn_redemptions s)) \<and>
   (\<forall>n. cn_usageLimit s = Some n \<longrightarrow>
      int (length (cn_redemptions s)) \<le> n \<and>
      (int (length (cn_redemptions s)) = n \<longrightarrow>
         cn_status s \<in> {CpExpired, CpDepleted} \<and>
         (\<forall>k c t e ref mail more_calls. \<exists>err.
            fst (coupon_redeem k c t e ref mail (runs coupon_step more_calls s)) = Inl err)))"
proof -
  assume lim: "\<not> opt_reached 0 limit"
    and adm: "admissible limit_kept coupon_step (Coupon_create i code promo multi limit cust expires campaign) calls"
  define s where "s = runs coupon_step calls (Coupon_create i code promo multi limit cust expires campaign)"
  have "ledger_ok (Coupon_create i code promo multi limit cust expires campaign)"
    using lim by (auto simp: ledger_ok_def Coupon_create_def redemption_ids_def opt_reached_def)
  then have ok: "ledger_ok s" unfolding s_def using adm by (rule ledger.guarded_runs)
  have ids: "distinct (map rd_id (cn_redemptions s))"
    using ok show_nat_inj by (auto simp: ledger_ok_def redemption_ids_def distinct_map inj_on_def)
  have ended: "\<exists>err. fst (coupon_redeem k c t e ref mail (runs coupon_step more_calls s)) = Inl err"
    if "cn_status s \<in> {CpExpired, CpDepleted}" for k c t e ref mail more_calls
  proof -
    have "cn_status (runs coupon_step more_calls s) = cn_status s"
      by (rule coupon_life.runs_terminal) (use that in auto)
    then have "\<not> redeemable c t mail (runs coupon_step more_calls s)" using that by (auto simp: redeemable_def)
    from coupon_redeem_refused [OF this] show ?thesis by (metis fst_conv)
  qed
  have "cn_usageLimit s = Some n \<Longrightarrow> int (length (cn_redemptions s)) \<le> n \<and>
      (int (length (cn_redemptions s)) = n \<longrightarrow> cn_status s \<in> {CpExpired, CpDepleted})" for n
    using ok by (cases "cn_status s") (auto simp: ledger_ok_def)
  with ok ids ended show ?thesis unfolding Let_def s_def [symmetric] by (auto simp: ledger_ok_def)
qed

subsection \<open>One use per customer\<close>

fun stays_single :: "coupon_call \<Rightarrow> bool" where
  "stays_single (CpReconfigure code m n) = (\<not> m)"
| "stays_single _ = True"

definition mail_of :: "coupon_redemption \<Rightarrow> string option" where
  "mail_of r = map_option toLowerCase (rd_email r)"

definition single_ok :: "coupon \<Rightarrow> bool" where
  "single_ok s = (\<not> cn_multiUse s \<and> distinct (map rd_customerRef (cn_redemptions s)) \<and>
     distinct (List.map_filter mail_of (cn_redemptions s)))"

lemma map_filter_snoc:
  "List.map_filter f (xs @ [x]) = List.map_filter f xs @ (case f x of None \<Rightarrow> [] | Some y \<Rightarrow> [y])"
  by (simp add: List.map_filter_def split: option.splits)

lemma single_redeem:
  assumes "single_ok s"
  shows "single_ok (snd (coupon_redeem k c t i orderRef email s))"
proof (cases "redeemable c t email s")
  case True
  with assms have none: "r \<in> set (cn_redemptions s) \<Longrightarrow> \<not> redeemed_by c email r" for r
    by (auto simp: redeemable_def single_ok_def list_ex_iff)
  then have "c \<notin> rd_customerRef ` set (cn_redemptions s)" by (auto simp: redeemed_by_def)
  moreover have "toLowerCase e \<notin> set (List.map_filter mail_of (cn_redemptions s))" if "email = Some e" for e
    using none that by (fastforce simp: List.map_filter_def redeemed_by_def mail_of_def)
  ultimately show ?thesis
    using assms
    by (auto simp: coupon_redeem_ok [OF True] Let_def with_redemption_def single_ok_def map_filter_snoc mail_of_def
        split: option.splits)
next
  case False
  with assms show ?thesis using coupon_redeem_refused [OF False] by (metis snd_conv)
qed

lemma single_step: "single_ok s \<Longrightarrow> stays_single c \<Longrightarrow> single_ok (snd (coupon_step c s))"
  by (cases c) (simp_all add: single_redeem, auto simp: coupon_transition_cases single_ok_def coupon_reconfigure_def)

interpretation single_use: invariant_object single_ok stays_single coupon_step
  by unfold_locales (rule single_step)

text \<open>
  A single-use coupon is redeemed at most once by a customer, and at most once under an e-mail
  address however it is capitalised, through any calls that do not turn it into a multi-use one.
\<close>

lemma one_redemption_per_customer:
  "list_all stays_single calls \<Longrightarrow>
   let s = runs coupon_step calls (Coupon_create i code promo False limit cust expires campaign) in
   distinct (map rd_customerRef (cn_redemptions s)) \<and> distinct (List.map_filter mail_of (cn_redemptions s))"
  using single_use.runs_inv [of "Coupon_create i code promo False limit cust expires campaign" calls]
  by (simp add: single_ok_def Coupon_create_def Let_def List.map_filter_def)

subsection \<open>Codes\<close>

text \<open>
  The code a coupon stores is the code the discount calculator compares with: whatever is typed, a
  code \<open>CouponCode.create\<close> accepts is the calculator's normal form of it, and is stored unchanged when it
  is entered again.
\<close>

theorem stored_code_is_normal_form:
  "CouponCode_create v = Inr c \<Longrightarrow>
   c = normalizeDiscountCode v \<and> CouponCode_create c = Inr c \<and> normalizeDiscountCode c = c"
proof -
  assume a: "CouponCode_create v = Inr c"
  then have c: "c = toUpperCase (trim v)" and p: "code_pattern c" and nb: "\<not> blank v"
    by (auto simp: CouponCode_create_def bind_result_Inr_iff againstEmpty_Inr_iff Let_def split: if_splits)
  have t: "trim c = c" unfolding c by (simp add: trim_upper)
  have u: "toUpperCase c = c" unfolding c by simp
  have "\<not> blank c" using p by (simp add: blank_def t) (auto simp: code_pattern_def)
  with t u p have "CouponCode_create c = Inr c" by (simp add: CouponCode_create_def)
  with t u c show ?thesis by (simp add: normalizeDiscountCode_def)
qed

subsection \<open>Examples\<close>

definition example_coupon :: coupon where
  "example_coupon = Coupon_create ''c1'' ''WELCOME'' ''promo-2'' False (Some 2) None None None"

definition example_calls :: "coupon_call list" where
  "example_calls = [CpRedeem ''k1'' ''u1'' 10 ''e1'' None (Some ''A@x.io''), CpRedeem ''k2'' ''u1'' 11 ''e2'' None None,
     CpRedeem ''k3'' ''u2'' 12 ''e3'' None (Some ''a@X.io''), CpTransition CpDisabled ''e4'' 13,
     CpTransition CpActive ''e5'' 14, CpRedeem ''k4'' ''u3'' 15 ''e6'' None None]"

lemma usage_limit_respected_witness:
  "length (cn_redemptions (runs coupon_step example_calls example_coupon)) = 2 \<and>
   cn_status (runs coupon_step example_calls example_coupon) = CpDepleted"
proof -
  have a: "\<not> opt_reached 0 (Some (2::int))"
    "admissible limit_kept coupon_step example_coupon example_calls" by code_simp+
  have "cn_usageLimit (runs coupon_step example_calls example_coupon) = Some 2"
    "cn_usageCount (runs coupon_step example_calls example_coupon) = 2"
    "cn_status (runs coupon_step example_calls example_coupon) = CpDepleted" by code_simp+
  with usage_limit_respected [OF a(1) a(2) [unfolded example_coupon_def], folded example_coupon_def]
  show ?thesis by (simp add: Let_def)
qed

lemma one_redemption_per_customer_witness:
  "distinct (map rd_customerRef (cn_redemptions (runs coupon_step example_calls example_coupon)))"
proof -
  have "list_all stays_single example_calls" by code_simp
  from one_redemption_per_customer [OF this, of "''c1''" "''WELCOME''" "''promo-2''" "Some 2" None None None]
  show ?thesis by (simp add: Let_def example_coupon_def)
qed

lemma stored_code_is_normal_form_witness: "CouponCode_create '' welcome-10 '' = Inr ''WELCOME-10'' \<and>
  normalizeDiscountCode '' welcome-10 '' = ''WELCOME-10''"
proof -
  have "CouponCode_create '' welcome-10 '' = Inr ''WELCOME-10''" by code_simp
  with stored_code_is_normal_form [OF this] show ?thesis by simp
qed

text \<open>
  Edits may lower the limit of a live coupon to its uses or below: it stays active, and one more
  redemption goes through before it is depleted.
\<close>

lemma lowered_limit_lets_one_through:
  "length (cn_redemptions (runs coupon_step
     [CpRedeem ''k1'' ''u1'' 10 ''e1'' None None, CpReconfigure ''WELCOME'' False (Some 1),
      CpRedeem ''k2'' ''u2'' 11 ''e2'' None None] example_coupon)) = 2"
  by code_simp

end
