(* ===== verification/CouponService.thy ===== *)
theory CouponService
  imports Coupons AggregateService
begin

section \<open>Coupon use cases over the in-memory repository\<close>

text \<open>
  services/coupons/src/application and src/infrastructure (in-memory). The coupon repository is one
  \<^verbatim>\<open>Map\<close> from coupon id to the coupon and its tenant, so a save under an id replaces whatever tenant held
  it; every read filters by tenant. \<open>isActive\<close> is the answer of \<^verbatim>\<open>PromotionsPort\<close>, a parameter; \<open>gen\<close>
  values are what \<^verbatim>\<open>idGenerator.generate()\<close> returns.
\<close>

type_synonym coupon_store = "(string \<times> (string \<times> coupon)) list"

record 'b coupon_service =
  cv_store :: coupon_store
  cv_outbox :: "'b outbox_entry list"

type_synonym ('b, 'a) coupon_use_case = "('b coupon_service, 'a) use_case"

definition CouponsEventTranslator :: "coupon_event domain_event \<Rightarrow> coupon_event descriptor option" where
  "CouponsEventTranslator event = (case ev_data event of CouponTransitioned code promo from to \<Rightarrow>
     Some \<lparr>d_type = ''coupons.coupon.'' @ coupon_status_name to, d_eventVersion = 1,
       d_aggregateType = ''coupon'', d_payload = ev_data event\<rparr>)"

subsection \<open>Repository (in-memory-coupon-repository.ts)\<close>

definition coupons_of :: "string \<Rightarrow> coupon_store \<Rightarrow> coupon list" where
  "coupons_of tenant store = map (\<lambda>(i, t, c). c) (filter (\<lambda>(i, t, c). t = tenant) store)"

definition coupon_findById :: "string \<Rightarrow> string \<Rightarrow> 'b coupon_service \<Rightarrow> coupon option" where
  "coupon_findById cid tenant s =
     (case map_of (cv_store s) cid of
        None \<Rightarrow> None | Some (t, c) \<Rightarrow> if t = tenant then Some c else None)"

definition coupon_findByCode :: "string \<Rightarrow> string \<Rightarrow> 'b coupon_service \<Rightarrow> coupon option" where
  "coupon_findByCode code tenant s = List.find (\<lambda>c. cn_code c = code) (coupons_of tenant (cv_store s))"

definition coupon_findByPromotionRefs :: "string list \<Rightarrow> string \<Rightarrow> 'b coupon_service \<Rightarrow> coupon list" where
  "coupon_findByPromotionRefs refs tenant s =
     filter (\<lambda>c. cn_promotionRef c \<in> set refs) (coupons_of tenant (cv_store s))"

definition coupon_findPromotionRefsByCode :: "string \<Rightarrow> string \<Rightarrow> 'b coupon_service \<Rightarrow> string list" where
  "coupon_findPromotionRefsByCode fragment tenant s =
     (let needle = toUpperCase (trim fragment);
          refs = map cn_promotionRef (filter (\<lambda>c. str_includes (cn_code c) needle) (coupons_of tenant (cv_store s)))
      in take 50 (dedup refs))"

definition hasRedemption :: "string \<Rightarrow> string \<Rightarrow> string \<Rightarrow> 'b coupon_service \<Rightarrow> bool" where
  "hasRedemption couponId key tenant s =
     (case map_of (cv_store s) couponId of
        None \<Rightarrow> False
      | Some (t, c) \<Rightarrow> if t \<noteq> tenant then False else list_ex (\<lambda>r. rd_idempotencyKey r = key) (cn_redemptions c))"

definition coupon_list :: "int option \<Rightarrow> string option \<Rightarrow> string \<Rightarrow> 'b coupon_service \<Rightarrow> coupon list \<times> page_info" where
  "coupon_list first after tenant s =
     (let limit = normalizePageSize first;
          all = sort_cmp (\<lambda>a b. if str_less (agg_id a) (agg_id b) then 1 else -1) (coupons_of tenant (cv_store s));
          startIndex = (case after of None \<Rightarrow> 0 | Some c \<Rightarrow> find_index (\<lambda>x. agg_id x = c) all + 1);
          rows = take (nat (limit + 1)) (drop (nat startIndex) all)
      in buildPaginatedPage rows limit agg_id)"

definition put_coupon :: "string \<Rightarrow> coupon \<Rightarrow> 'b coupon_service \<Rightarrow> 'b coupon_service" where
  "put_coupon tenant c s = s\<lparr>cv_store := AList.update (agg_id c) (tenant, c) (cv_store s)\<rparr>"

definition save_coupon ::
  "(coupon_event, 'b) agg_env \<Rightarrow> timestamp \<Rightarrow> string \<Rightarrow> coupon \<Rightarrow> (thrown, 'b coupon_service, unit) action" where
  "save_coupon env now tenant c s =
     (case pullDomainEvents c of (events, c') \<Rightarrow>
      case outbox_write (env_at env now) events ((ae_context env)\<lparr>cx_tenantId := Some tenant\<rparr>) (cv_outbox s) of
        (r, outbox) \<Rightarrow> (mapError (\<lambda>_. ThrownOther) r, (put_coupon tenant c' s)\<lparr>cv_outbox := outbox\<rparr>))"

text \<open>Call a method of a loaded coupon in a \<^verbatim>\<open>try\<close>, return its domain error, else save and answer.\<close>

definition coupon_call_save ::
  "(coupon_event, 'b) agg_env \<Rightarrow> timestamp \<Rightarrow> string \<Rightarrow> coupon_action \<Rightarrow> (coupon \<Rightarrow> 'a) \<Rightarrow> coupon \<Rightarrow>
     ('b, 'a) coupon_use_case" where
  "coupon_call_save env now tenant act out c s =
     (case act c of
        (Inl e, c') \<Rightarrow> (Inr (Inl e), put_coupon tenant c' s)
      | (Inr _, c') \<Rightarrow> then_do (save_coupon env now tenant c') (return_ok (out c')) (put_coupon tenant c' s))"

subsection \<open>Use cases (coupon.use-cases.ts)\<close>

record coupon_output =
  cu_couponId :: string
  cu_status :: coupon_status

definition coupon_out :: "coupon \<Rightarrow> coupon_output" where
  "coupon_out c = \<lparr>cu_couponId = agg_id c, cu_status = cn_status c\<rparr>"

definition code_taken :: "string \<Rightarrow> domain_error" where
  "code_taken code = ConflictError (''Coupon code \"'' @ code @ ''\" already exists'')"

record create_coupon_input =
  cci_code :: string
  cci_promotionRef :: string
  cci_multiUse :: bool
  cci_usageLimit :: "int option"
  cci_customerRef :: "string option"
  cci_expiresAt :: "timestamp option"
  cci_campaignRef :: "string option"

definition CreateCoupon ::
  "(coupon_event, 'b) agg_env \<Rightarrow> string \<Rightarrow> timestamp \<Rightarrow> string \<Rightarrow> create_coupon_input \<Rightarrow> ('b, coupon_output) coupon_use_case" where
  "CreateCoupon env gen now tenant input =
     or_return (CouponCode_create (cci_code input)) (\<lambda>code.
     or_return (againstEmpty (cci_promotionRef input) ''promotionRef'') (\<lambda>_. (\<lambda>s.
       case coupon_findByCode code tenant s of
         Some _ \<Rightarrow> return_err (code_taken code) s
       | None \<Rightarrow>
           or_reject (UniqueEntityId_from gen) (\<lambda>cid.
             let c = Coupon_create cid code (cci_promotionRef input) (cci_multiUse input) (cci_usageLimit input)
                       (cci_customerRef input) (cci_expiresAt input) (cci_campaignRef input)
             in then_do (save_coupon env now tenant c) (return_ok (coupon_out c))) s)))"

definition coupon_not_found :: domain_error where
  "coupon_not_found = NotFoundError ''Coupon not found''"

definition AdvanceCoupon ::
  "(coupon_event, 'b) agg_env \<Rightarrow> string \<Rightarrow> timestamp \<Rightarrow> string \<Rightarrow> string \<Rightarrow> coupon_status \<Rightarrow> ('b, coupon_output) coupon_use_case" where
  "AdvanceCoupon env gen now tenant couponId toStatus =
     lookup coupon_not_found (coupon_findById couponId tenant) (\<lambda>c.
       coupon_call_save env now tenant (coupon_transition toStatus gen now) coupon_out c)"

record redeem_input =
  rei_code :: string
  rei_customerRef :: string
  rei_idempotencyKey :: string
  rei_orderRef :: "string option"
  rei_email :: "string option"

record redeem_output =
  reo_couponId :: string
  reo_status :: coupon_status
  reo_promotionRef :: string
  reo_duplicate :: bool

definition redeem_out :: "bool \<Rightarrow> coupon \<Rightarrow> redeem_output" where
  "redeem_out duplicate c = \<lparr>reo_couponId = agg_id c, reo_status = cn_status c,
     reo_promotionRef = cn_promotionRef c, reo_duplicate = duplicate\<rparr>"

definition RedeemCoupon ::
  "(coupon_event, 'b) agg_env \<Rightarrow> (string \<Rightarrow> bool) \<Rightarrow> string \<Rightarrow> timestamp \<Rightarrow> string \<Rightarrow> redeem_input \<Rightarrow>
     ('b, redeem_output) coupon_use_case" where
  "RedeemCoupon env isActive gen now tenant input =
     or_return (againstEmpty (rei_idempotencyKey input) ''idempotencyKey'') (\<lambda>_.
     lookup coupon_not_found (coupon_findByCode (toUpperCase (trim (rei_code input))) tenant) (\<lambda>c. (\<lambda>s.
       if hasRedemption (agg_id c) (rei_idempotencyKey input) tenant s then return_ok (redeem_out True c) s
       else if \<not> isActive (cn_promotionRef c)
       then return_err (ConflictError ''The promotion this coupon authorizes is not active'') s
       else coupon_call_save env now tenant
              (coupon_redeem (rei_idempotencyKey input) (rei_customerRef input) now gen
                 (rei_orderRef input) (rei_email input))
              (redeem_out False) c s)))"

definition GetCouponByCode :: "string \<Rightarrow> string \<Rightarrow> 'b coupon_service \<Rightarrow> (domain_error, coupon) result" where
  "GetCouponByCode tenant code s =
     (case coupon_findByCode (toUpperCase (trim code)) tenant s of
        None \<Rightarrow> Inl coupon_not_found | Some c \<Rightarrow> Inr c)"

definition ListCouponsByPromotionRefs :: "string \<Rightarrow> string list \<Rightarrow> 'b coupon_service \<Rightarrow> (domain_error, coupon list) result" where
  "ListCouponsByPromotionRefs tenant refs s = Inr (coupon_findByPromotionRefs refs tenant s)"

definition FindPromotionRefsByCode :: "string \<Rightarrow> string \<Rightarrow> 'b coupon_service \<Rightarrow> (domain_error, string list) result" where
  "FindPromotionRefsByCode tenant fragment s =
     (if trim fragment = [] then Inr [] else Inr (coupon_findPromotionRefsByCode fragment tenant s))"

definition ReconfigureCoupon ::
  "(coupon_event, 'b) agg_env \<Rightarrow> timestamp \<Rightarrow> string \<Rightarrow> string \<Rightarrow> string \<Rightarrow> bool \<Rightarrow> int option \<Rightarrow>
     ('b, coupon_output) coupon_use_case" where
  "ReconfigureCoupon env now tenant couponId rawCode multiUse usageLimit =
     or_return (CouponCode_create rawCode) (\<lambda>code.
     lookup coupon_not_found (coupon_findById couponId tenant) (\<lambda>c. (\<lambda>s.
       case coupon_findByCode code tenant s of
         Some holder \<Rightarrow>
           if agg_id holder \<noteq> agg_id c then return_err (code_taken code) s
           else coupon_call_save env now tenant (coupon_reconfigure code multiUse usageLimit) coupon_out c s
       | None \<Rightarrow> coupon_call_save env now tenant (coupon_reconfigure code multiUse usageLimit) coupon_out c s)))"

definition ListCoupons :: "int option \<Rightarrow> string option \<Rightarrow> string \<Rightarrow> 'b coupon_service \<Rightarrow>
    (domain_error, coupon list \<times> page_info) result" where
  "ListCoupons first after tenant s = Inr (coupon_list first after tenant s)"

subsection \<open>Requests\<close>

datatype coupon_request =
    ReqCreateCoupon string timestamp string create_coupon_input
  | ReqAdvanceCoupon string timestamp string string coupon_status
  | ReqRedeemCoupon bool string timestamp string redeem_input
  | ReqReconfigureCoupon timestamp string string string bool "int option"

fun coupon_handle :: "(coupon_event, 'b) agg_env \<Rightarrow> coupon_request \<Rightarrow> ('b, unit) coupon_use_case" where
  "coupon_handle env (ReqCreateCoupon g now t i) = drop_answer (CreateCoupon env g now t i)"
| "coupon_handle env (ReqAdvanceCoupon g now t c st) = drop_answer (AdvanceCoupon env g now t c st)"
| "coupon_handle env (ReqRedeemCoupon active g now t i) = drop_answer (RedeemCoupon env (\<lambda>_. active) g now t i)"
| "coupon_handle env (ReqReconfigureCoupon now t c code m n) = drop_answer (ReconfigureCoupon env now t c code m n)"

subsection \<open>Lemmas on the store\<close>

lemma save_coupon_store [simp]:
  "cv_store (snd (save_coupon env now t c s)) = AList.update (agg_id c) (t, c\<lparr>agg_events := []\<rparr>) (cv_store s)"
  by (simp add: save_coupon_def pullDomainEvents_def put_coupon_def split: prod.splits)

lemma put_coupon_store [simp]: "cv_store (put_coupon t c s) = AList.update (agg_id c) (t, c) (cv_store s)"
  by (simp add: put_coupon_def)

lemma agg_id_steps [simp]:
  "agg_id (snd (coupon_transition st g t c)) = agg_id c"
  "agg_id (snd (coupon_reconfigure code m n c)) = agg_id c"
  "agg_id (snd (coupon_redeem k cu t g r e c)) = agg_id c"
proof -
  show "agg_id (snd (coupon_redeem k cu t g r e c)) = agg_id c"
  proof (cases "redeemable cu t e c")
    case True
    then show ?thesis by (simp add: coupon_redeem_ok Let_def with_redemption_def)
  next
    case False
    then show ?thesis using coupon_redeem_refused [OF False] by (metis snd_conv)
  qed
qed (simp_all add: coupon_transition_cases coupon_reconfigure_def)

text \<open>The row a call leaves behind, whichever way the call ends.\<close>

lemma coupon_call_store:
  "agg_id (snd (act c)) = agg_id c \<Longrightarrow>
   \<exists>c'. (c' = snd (act c) \<or> c' = (snd (act c))\<lparr>agg_events := []\<rparr>) \<and>
     map_of (cv_store (snd (coupon_call_save env now t act out c s))) =
       (map_of (cv_store s))(agg_id c \<mapsto> (t, c'))"
  by (cases "act c"; cases "fst (act c)") (auto simp: coupon_call_save_def update_conv')

subsection \<open>Codes are unique\<close>

definition coupons_ok :: "'b coupon_service \<Rightarrow> bool" where
  "coupons_ok s =
     (distinct (map fst (cv_store s)) \<and>
      (\<forall>i t c. map_of (cv_store s) i = Some (t, c) \<longrightarrow> agg_id c = i) \<and>
      (\<forall>i j t c d. map_of (cv_store s) i = Some (t, c) \<and> map_of (cv_store s) j = Some (t, d) \<and>
         cn_code c = cn_code d \<longrightarrow> i = j))"

lemma coupons_okD:
  assumes "coupons_ok s"
  shows "map_of (cv_store s) i = Some (t, c) \<Longrightarrow> agg_id c = i"
    and "map_of (cv_store s) i = Some (t, c) \<Longrightarrow> map_of (cv_store s) j = Some (t, d) \<Longrightarrow>
      cn_code c = cn_code d \<Longrightarrow> i = j"
    and "distinct (map fst (cv_store s))"
  using assms unfolding coupons_ok_def by blast+

lemma coupons_ok_put:
  assumes "coupons_ok s" "cv_store s' = AList.update (agg_id c) (t, c) (cv_store s)"
    and "\<And>j d. map_of (cv_store s) j = Some (t, d) \<Longrightarrow> cn_code d = cn_code c \<Longrightarrow> j = agg_id c"
  shows "coupons_ok s'"
  unfolding coupons_ok_def assms(2) update_conv'
proof (intro conjI allI impI)
  show "distinct (map fst (AList.update (agg_id c) (t, c) (cv_store s)))"
    using assms(1) by (simp add: coupons_ok_def distinct_update)
next
  fix i u d
  assume "((map_of (cv_store s))(agg_id c \<mapsto> (t, c))) i = Some (u, d)"
  then show "agg_id d = i"
    using coupons_okD(1) [OF assms(1), of i u d] by (cases "i = agg_id c") simp_all
next
  fix i j u d e
  assume "((map_of (cv_store s))(agg_id c \<mapsto> (t, c))) i = Some (u, d) \<and>
    ((map_of (cv_store s))(agg_id c \<mapsto> (t, c))) j = Some (u, e) \<and> cn_code d = cn_code e"
  then have a: "(if i = agg_id c then Some (t, c) else map_of (cv_store s) i) = Some (u, d)"
      "(if j = agg_id c then Some (t, c) else map_of (cv_store s) j) = Some (u, e)" "cn_code d = cn_code e"
    by (simp_all only: fun_upd_apply)
  show "i = j"
  proof (rule ccontr)
    assume ne: "i \<noteq> j"
    consider "i = agg_id c" "j \<noteq> agg_id c" | "i \<noteq> agg_id c" "j = agg_id c" | "i \<noteq> agg_id c" "j \<noteq> agg_id c"
      using ne by blast
    then show False
    proof cases
      case 1
      with a have "map_of (cv_store s) j = Some (t, e)" "cn_code e = cn_code c" by simp_all
      with assms(3) 1(2) show False by blast
    next
      case 2
      with a have "map_of (cv_store s) i = Some (t, d)" "cn_code d = cn_code c" by simp_all
      with assms(3) 2(1) show False by blast
    next
      case 3
      with a coupons_okD(2) [OF assms(1), of i u d j e] ne show False by simp
    qed
  qed
qed

lemma coupon_row: "coupons_ok s \<Longrightarrow> coupon_findById i t s = Some c \<Longrightarrow> map_of (cv_store s) i = Some (t, c) \<and> agg_id c = i"
  by (auto simp: coupon_findById_def coupons_ok_def split: option.splits if_splits)

lemma coupon_by_code:
  assumes "coupons_ok s"
  shows "coupon_findByCode code t s = Some c \<Longrightarrow> map_of (cv_store s) (agg_id c) = Some (t, c) \<and> cn_code c = code"
    and "coupon_findByCode code t s = None \<Longrightarrow> map_of (cv_store s) j = Some (t, d) \<Longrightarrow> cn_code d \<noteq> code"
proof -
  have d: "distinct (map fst (cv_store s))" using assms by (simp add: coupons_ok_def)
  assume "coupon_findByCode code t s = Some c"
  then have c: "cn_code c = code" "c \<in> set (coupons_of t (cv_store s))"
    using find_Some_props by (fastforce simp: coupon_findByCode_def)+
  then obtain i where "(i, t, c) \<in> set (cv_store s)" by (auto simp: coupons_of_def)
  then have "map_of (cv_store s) i = Some (t, c)" using d by simp
  with c(1) assms show "map_of (cv_store s) (agg_id c) = Some (t, c) \<and> cn_code c = code"
    by (auto simp: coupons_ok_def)
next
  assume "coupon_findByCode code t s = None" "map_of (cv_store s) j = Some (t, d)"
  then have "d \<in> set (coupons_of t (cv_store s))" "\<forall>c\<in>set (coupons_of t (cv_store s)). cn_code c \<noteq> code"
    by (force simp: coupons_of_def dest: map_of_SomeD, simp add: coupon_findByCode_def find_None_iff_all)
  then show "cn_code d \<noteq> code" by blast
qed

text \<open>What a call must respect: the coupon keeps its id, and its code is held by no other.\<close>

lemma coupons_ok_call:
  assumes ok: "coupons_ok s" and id: "agg_id (snd (act c)) = agg_id c"
    and free: "\<And>j d. map_of (cv_store s) j = Some (t, d) \<Longrightarrow> cn_code d = cn_code (snd (act c)) \<Longrightarrow> j = agg_id c"
  shows "coupons_ok (snd (coupon_call_save env now t act out c s))"
proof -
  obtain r c' where c': "act c = (r, c')" by (cases "act c")
  have put: "coupons_ok (put_coupon t c' s)"
  proof (rule coupons_ok_put [where c = c' and t = t, OF ok])
    fix j d
    assume "map_of (cv_store s) j = Some (t, d)" "cn_code d = cn_code c'"
    then show "j = agg_id c'" using free [of j d] id by (simp add: c')
  qed simp
  have saved: "coupons_ok (snd (save_coupon env now t c' (put_coupon t c' s)))"
  proof (rule coupons_ok_put [where c = "c'\<lparr>agg_events := []\<rparr>" and t = t, OF put])
    fix j d
    assume "map_of (cv_store (put_coupon t c' s)) j = Some (t, d)"
      and "cn_code d = cn_code (c'\<lparr>agg_events := []\<rparr>)"
    then show "j = agg_id (c'\<lparr>agg_events := []\<rparr>)"
      using free [of j d] id by (cases "j = agg_id c'") (simp_all add: c' update_conv')
  qed simp
  show ?thesis using put saved by (cases r) (simp_all add: coupon_call_save_def c')
qed

lemma codes_kept:
  "cn_code (snd (coupon_transition st g t c)) = cn_code c"
  "cn_code (snd (coupon_redeem k cu t g r e c)) = cn_code c"
proof -
  show "cn_code (snd (coupon_redeem k cu t g r e c)) = cn_code c"
  proof (cases "redeemable cu t e c")
    case True
    then show ?thesis by (simp add: coupon_redeem_ok Let_def with_redemption_def)
  next
    case False
    then show ?thesis using coupon_redeem_refused [OF False] by (metis snd_conv)
  qed
qed (simp add: coupon_transition_cases)

lemma code_is_own:
  "coupons_ok s \<Longrightarrow> map_of (cv_store s) (agg_id c) = Some (t, c) \<Longrightarrow> map_of (cv_store s) j = Some (t, d) \<Longrightarrow>
   cn_code d = cn_code c \<Longrightarrow> j = agg_id c"
  unfolding coupons_ok_def by blast

lemma keeps_coupons_create: "keeps coupons_ok (CreateCoupon env g now t i) s"
  unfolding CreateCoupon_def
proof (intro keeps_intros)
  fix code u assume "CouponCode_create (cci_code i) = Inr code"
  have cr: "coupon_findByCode code t s = None \<Longrightarrow> coupons_ok s \<Longrightarrow> cn_code c = code \<Longrightarrow>
    coupons_ok (snd (save_coupon env now t c s))" for c
    by (rule coupons_ok_put [where c = "c\<lparr>agg_events := []\<rparr>" and t = t and s = s])
      (simp_all add: coupon_by_code(2))
  show "keeps coupons_ok (\<lambda>s. case coupon_findByCode code t s of
      Some _ \<Rightarrow> return_err (code_taken code) s
    | None \<Rightarrow> or_reject (UniqueEntityId_from g) (\<lambda>cid.
        let c = Coupon_create cid code (cci_promotionRef i) (cci_multiUse i) (cci_usageLimit i)
                  (cci_customerRef i) (cci_expiresAt i) (cci_campaignRef i)
        in then_do (save_coupon env now t c) (return_ok (coupon_out c))) s) s"
    using cr by (cases "coupon_findByCode code t s"; cases "UniqueEntityId_from g")
      (simp_all add: keeps_def or_reject_def Let_def Coupon_create_def)
qed

lemma keeps_own_call:
  assumes "coupons_ok s \<Longrightarrow> map_of (cv_store s) (agg_id c) = Some (t, c)"
    and "agg_id (snd (act c)) = agg_id c" "cn_code (snd (act c)) = cn_code c"
  shows "keeps coupons_ok (coupon_call_save env now t act out c) s"
  unfolding keeps_def
proof
  assume ok: "coupons_ok s"
  show "coupons_ok (snd (coupon_call_save env now t act out c s))"
  proof (rule coupons_ok_call [where act = act and c = c and t = t, OF ok assms(2)])
    fix j d
    assume "map_of (cv_store s) j = Some (t, d)" "cn_code d = cn_code (snd (act c))"
    then show "j = agg_id c" using code_is_own [OF ok assms(1) [OF ok]] assms(3) by simp
  qed
qed

lemma keeps_coupons_advance: "keeps coupons_ok (AdvanceCoupon env g now t cid st) s"
  unfolding AdvanceCoupon_def
  by (intro keeps_intros keeps_own_call) (auto simp: codes_kept dest: coupon_row)

lemma keeps_coupons_redeem: "keeps coupons_ok (RedeemCoupon env isActive g now t i) s"
  unfolding RedeemCoupon_def
proof (intro keeps_intros)
  fix u c
  assume "coupon_findByCode (toUpperCase (trim (rei_code i))) t s = Some c" "coupons_ok s"
  then have "map_of (cv_store s) (agg_id c) = Some (t, c)" using coupon_by_code(1) by blast
  then have "keeps coupons_ok (coupon_call_save env now t
      (coupon_redeem (rei_idempotencyKey i) (rei_customerRef i) now g (rei_orderRef i) (rei_email i))
      (redeem_out False) c) s"
    by (intro keeps_own_call) (simp_all add: codes_kept)
  then show "keeps coupons_ok (\<lambda>s. if hasRedemption (agg_id c) (rei_idempotencyKey i) t s
      then return_ok (redeem_out True c) s
      else if \<not> isActive (cn_promotionRef c)
      then return_err (ConflictError ''The promotion this coupon authorizes is not active'') s
      else coupon_call_save env now t
             (coupon_redeem (rei_idempotencyKey i) (rei_customerRef i) now g (rei_orderRef i) (rei_email i))
             (redeem_out False) c s) s"
    by (simp add: keeps_def)
qed

lemma keeps_coupons_reconfigure: "keeps coupons_ok (ReconfigureCoupon env now t cid raw m n) s"
  unfolding ReconfigureCoupon_def
proof (intro keeps_intros)
  fix code c
  assume found: "coupon_findById cid t s = Some c" and ok: "coupons_ok s"
  have call: "coupons_ok (snd (coupon_call_save env now t (coupon_reconfigure code m n) coupon_out c s))"
    if "\<And>j d. map_of (cv_store s) j = Some (t, d) \<Longrightarrow> cn_code d = code \<Longrightarrow> j = agg_id c"
    using that by (intro coupons_ok_call ok) (simp_all add: coupon_reconfigure_def)
  show "keeps coupons_ok (\<lambda>s. case coupon_findByCode code t s of
      Some holder \<Rightarrow> if agg_id holder \<noteq> agg_id c then return_err (code_taken code) s
        else coupon_call_save env now t (coupon_reconfigure code m n) coupon_out c s
    | None \<Rightarrow> coupon_call_save env now t (coupon_reconfigure code m n) coupon_out c s) s"
  proof (cases "coupon_findByCode code t s")
    case None
    have "coupons_ok (snd (coupon_call_save env now t (coupon_reconfigure code m n) coupon_out c s))"
      using coupon_by_code(2) [OF ok None] by (intro call) blast
    with None show ?thesis by (simp add: keeps_def)
  next
    case (Some holder)
    then have "map_of (cv_store s) (agg_id holder) = Some (t, holder)" "cn_code holder = code"
      using coupon_by_code(1) [OF ok] by blast+
    then have "map_of (cv_store s) j = Some (t, d) \<Longrightarrow> cn_code d = code \<Longrightarrow> j = agg_id holder" for j d
      using code_is_own [OF ok, of holder t j d] by simp
    then have "coupons_ok (snd (coupon_call_save env now t (coupon_reconfigure code m n) coupon_out c s))"
      if "agg_id holder = agg_id c"
      using that by (intro call) metis
    with Some show ?thesis by (simp add: keeps_def)
  qed
qed

interpretation coupon_codes: invariant_object "coupons_ok :: 'b coupon_service \<Rightarrow> bool" "\<lambda>_. True"
    "coupon_handle env" for env :: "(coupon_event, 'b) agg_env"
proof unfold_locales
  fix s :: "'b coupon_service" and c
  assume "coupons_ok s"
  then show "coupons_ok (snd (coupon_handle env c s))"
    using keepsD [OF keeps_coupons_create] keepsD [OF keeps_coupons_advance] keepsD [OF keeps_coupons_redeem]
      keepsD [OF keeps_coupons_reconfigure]
    by (cases c) simp_all
qed

definition empty_coupons :: "'b coupon_service" where
  "empty_coupons = \<lparr>cv_store = [], cv_outbox = []\<rparr>"

lemma empty_coupons_ok: "coupons_ok empty_coupons"
  by (simp add: coupons_ok_def empty_coupons_def)

lemma distinct_codes_of:
  assumes "coupons_ok s"
  shows "distinct (map fst xs) \<Longrightarrow> set xs \<subseteq> set (cv_store s) \<Longrightarrow> distinct (map cn_code (coupons_of t xs))"
proof (induction xs)
  case (Cons x xs)
  obtain i u c where x: "x = (i, u, c)" by (cases x)
  have rest: "distinct (map cn_code (coupons_of t xs))" using Cons by simp
  have row: "(j, v, d) \<in> set (x # xs) \<Longrightarrow> map_of (cv_store s) j = Some (v, d)" for j v d
    using Cons.prems(2) coupons_okD(3) [OF assms] by (meson map_of_is_SomeI subsetD)
  show ?case
  proof (cases "u = t")
    case True
    have "cn_code c \<noteq> cn_code d" if d: "d \<in> set (coupons_of t xs)" for d
    proof
      assume eq: "cn_code c = cn_code d"
      obtain j where j: "(j, t, d) \<in> set xs" using d by (auto simp: coupons_of_def)
      have "i = j" using coupons_okD(2) [OF assms row row eq, of i t j] j True by (simp add: x)
      with j Cons.prems(1) show False by (force simp: x)
    qed
    then have "cn_code c \<notin> set (map cn_code (coupons_of t xs))" by auto
    moreover have "coupons_of t (x # xs) = c # coupons_of t xs" using True by (simp add: coupons_of_def x)
    ultimately show ?thesis using rest by simp
  next
    case False
    then have "coupons_of t (x # xs) = coupons_of t xs" by (simp add: coupons_of_def x)
    with rest show ?thesis by simp
  qed
qed (simp add: coupons_of_def)

lemma distinct_codes: "coupons_ok s \<Longrightarrow> distinct (map cn_code (coupons_of t (cv_store s)))"
  using distinct_codes_of coupons_okD(3) by blast

text \<open>
  Whatever sequence of requests the coupon service handles from an empty store, with whatever ids the
  generator returns, no two coupons of one tenant carry the same code.
\<close>

lemma coupon_codes_unique:
  "distinct (map cn_code (coupons_of tenant (cv_store (runs (coupon_handle env) requests empty_coupons))))"
  by (rule distinct_codes, rule coupon_codes.runs_inv [OF empty_coupons_ok]) (simp add: list_all_iff)

subsection \<open>One redemption per idempotency key\<close>

definition holds_key :: "string \<Rightarrow> string \<Rightarrow> string \<Rightarrow> string \<Rightarrow> 'b coupon_service \<Rightarrow> bool" where
  "holds_key t i code k s =
     (\<exists>c. map_of (cv_store s) i = Some (t, c) \<and> cn_code c = code \<and>
        (\<exists>r\<in>set (cn_redemptions c). rd_idempotencyKey r = k))"

definition redeemed :: "string \<Rightarrow> string \<Rightarrow> string \<Rightarrow> string \<Rightarrow> 'b coupon_service \<Rightarrow> bool" where
  "redeemed t i code k s = (coupons_ok s \<and> holds_key t i code k s)"

text \<open>Requests that neither rename a coupon nor create one under its id.\<close>

fun leaves_alone :: "string \<Rightarrow> coupon_request \<Rightarrow> bool" where
  "leaves_alone i (ReqCreateCoupon g now t inp) = (g \<noteq> i)"
| "leaves_alone i (ReqReconfigureCoupon now t cid code m n) = (cid \<noteq> i)"
| "leaves_alone i _ = True"

lemma redeemed_found:
  assumes "redeemed t i code k s"
  shows "\<exists>c. coupon_findByCode code t s = Some c \<and> agg_id c = i \<and> cn_code c = code \<and> hasRedemption i k t s"
proof -
  obtain c where ok: "coupons_ok s" and c: "map_of (cv_store s) i = Some (t, c)" "cn_code c = code"
      and r: "\<exists>r\<in>set (cn_redemptions c). rd_idempotencyKey r = k"
    using assms unfolding redeemed_def holds_key_def by blast
  obtain d where d: "coupon_findByCode code t s = Some d"
    using coupon_by_code(2) [OF ok, of code t i c] c by fastforce
  have dd: "map_of (cv_store s) (agg_id d) = Some (t, d)" "cn_code d = code"
    using coupon_by_code(1) [OF ok d] by simp_all
  have "agg_id d = i" using coupons_okD(2) [OF ok dd(1) c(1)] dd(2) c(2) by simp
  moreover have "hasRedemption i k t s" using c r by (simp add: hasRedemption_def list_ex_iff)
  ultimately show ?thesis using d dd(2) by blast
qed

text \<open>The calls a service request makes on a coupon.\<close>

lemma redemptions_grow:
  "set (cn_redemptions c) \<subseteq> set (cn_redemptions (snd (coupon_transition st g now c)))"
  "set (cn_redemptions c) \<subseteq> set (cn_redemptions (snd (coupon_reconfigure code m n c)))"
  "set (cn_redemptions c) \<subseteq> set (cn_redemptions (snd (coupon_redeem k cu now g r e c)))"
proof -
  show "set (cn_redemptions c) \<subseteq> set (cn_redemptions (snd (coupon_redeem k cu now g r e c)))"
  proof (cases "redeemable cu now e c")
    case True
    then show ?thesis by (auto simp: coupon_redeem_ok Let_def with_redemption_def)
  next
    case False
    then show ?thesis using coupon_redeem_refused [OF False] by (metis order_refl snd_conv)
  qed
qed (simp_all add: coupon_transition_cases coupon_reconfigure_def)

text \<open>A call on a stored coupon that keeps its code and its ledger, or on another coupon.\<close>

lemma holds_key_call:
  assumes h: "holds_key t i code k s" and row: "map_of (cv_store s) (agg_id c) = Some (u, c)"
    and id: "agg_id (snd (act c)) = agg_id c"
    and grow: "agg_id c = i \<Longrightarrow>
      cn_code (snd (act c)) = cn_code c \<and> set (cn_redemptions c) \<subseteq> set (cn_redemptions (snd (act c)))"
  shows "holds_key t i code k (snd (coupon_call_save env now u act out c s))"
proof -
  obtain c' where c': "c' = snd (act c) \<or> c' = (snd (act c))\<lparr>agg_events := []\<rparr>"
      and m: "map_of (cv_store (snd (coupon_call_save env now u act out c s))) =
        (map_of (cv_store s))(agg_id c \<mapsto> (u, c'))"
    using coupon_call_store [where act = act and c = c, OF id] by blast
  obtain d where d: "map_of (cv_store s) i = Some (t, d)" "cn_code d = code"
      and r: "\<exists>r\<in>set (cn_redemptions d). rd_idempotencyKey r = k"
    using h unfolding holds_key_def by blast
  show ?thesis
  proof (cases "agg_id c = i")
    case True
    with row d(1) have "u = t" "d = c" by simp_all
    moreover have "cn_code c' = cn_code c" "set (cn_redemptions c) \<subseteq> set (cn_redemptions c')"
      using c' grow [OF True] by auto
    ultimately show ?thesis using m True d(2) r unfolding holds_key_def by auto
  next
    case False
    then show ?thesis using m d r unfolding holds_key_def by auto
  qed
qed

lemma keeps_redeemed_call:
  assumes ok: "keeps coupons_ok (coupon_call_save env now u act out c) s"
    and "redeemed t i code k s \<Longrightarrow> map_of (cv_store s) (agg_id c) = Some (u, c)"
    and "agg_id (snd (act c)) = agg_id c"
    and "agg_id c = i \<Longrightarrow>
      cn_code (snd (act c)) = cn_code c \<and> set (cn_redemptions c) \<subseteq> set (cn_redemptions (snd (act c)))"
  shows "keeps (redeemed t i code k) (coupon_call_save env now u act out c) s"
  unfolding keeps_def redeemed_def
proof (intro impI conjI)
  assume r: "coupons_ok s \<and> holds_key t i code k s"
  then show "coupons_ok (snd (coupon_call_save env now u act out c s))" using ok by (simp add: keeps_def)
  from r have row: "map_of (cv_store s) (agg_id c) = Some (u, c)" using assms(2) by (simp add: redeemed_def)
  show "holds_key t i code k (snd (coupon_call_save env now u act out c s))"
    by (rule holds_key_call [where c = c and act = act, OF _ row assms(3,4)]) (simp_all add: r)
qed

lemma redeemed_create:
  assumes "g \<noteq> i" "redeemed t i code k s"
  shows "redeemed t i code k (snd (CreateCoupon env g now u inp s))"
proof -
  have ok: "coupons_ok (snd (CreateCoupon env g now u inp s))"
    using assms(2) by (auto simp: redeemed_def intro: keepsD [OF keeps_coupons_create])
  have "keeps (holds_key t i code k) (CreateCoupon env g now u inp) s"
    unfolding CreateCoupon_def
  proof (intro keeps_intros)
    fix cd v
    show "keeps (holds_key t i code k) (\<lambda>s. case coupon_findByCode cd u s of
        Some _ \<Rightarrow> return_err (code_taken cd) s
      | None \<Rightarrow> or_reject (UniqueEntityId_from g) (\<lambda>cid.
          let c = Coupon_create cid cd (cci_promotionRef inp) (cci_multiUse inp) (cci_usageLimit inp)
                    (cci_customerRef inp) (cci_expiresAt inp) (cci_campaignRef inp)
          in then_do (save_coupon env now u c) (return_ok (coupon_out c))) s) s"
      using assms(1)
      by (cases "coupon_findByCode cd u s"; cases "UniqueEntityId_from g")
        (auto simp: keeps_def or_reject_def Let_def Coupon_create_def holds_key_def update_conv'
          UniqueEntityId_from_Inr_iff)
  qed
  with ok assms(2) show ?thesis by (simp add: redeemed_def keeps_def)
qed

lemma redeemed_advance: "keeps (redeemed t i code k) (AdvanceCoupon env g now u cid st) s"
  unfolding AdvanceCoupon_def
proof (intro keeps_intros)
  fix c assume f: "coupon_findById cid u s = Some c" and r: "redeemed t i code k s"
  then have row: "map_of (cv_store s) (agg_id c) = Some (u, c)"
    using coupon_row [OF _ f] by (auto simp: redeemed_def)
  show "keeps (redeemed t i code k) (coupon_call_save env now u (coupon_transition st g now) coupon_out c) s"
    by (rule keeps_redeemed_call) (simp_all add: row codes_kept redemptions_grow keeps_own_call)
qed

lemma redeemed_reconfigure:
  assumes "cid \<noteq> i"
  shows "keeps (redeemed t i code k) (ReconfigureCoupon env now u cid raw m n) s"
  unfolding keeps_def
proof
  assume r: "redeemed t i code k s"
  have "keeps (holds_key t i code k) (ReconfigureCoupon env now u cid raw m n) s"
    unfolding ReconfigureCoupon_def
  proof (intro keeps_intros)
    fix cd c assume f: "coupon_findById cid u s = Some c" and h: "holds_key t i code k s"
    have row: "map_of (cv_store s) (agg_id c) = Some (u, c)" "agg_id c \<noteq> i"
      using r assms coupon_row [OF _ f] by (auto simp: redeemed_def)
    have "holds_key t i code k (snd (coupon_call_save env now u (coupon_reconfigure cd m n) coupon_out c s))"
      by (rule holds_key_call [where c = c, OF h row(1)]) (simp_all add: row(2))
    with h show "keeps (holds_key t i code k) (\<lambda>s. case coupon_findByCode cd u s of
        Some holder \<Rightarrow> if agg_id holder \<noteq> agg_id c then return_err (code_taken cd) s
          else coupon_call_save env now u (coupon_reconfigure cd m n) coupon_out c s
      | None \<Rightarrow> coupon_call_save env now u (coupon_reconfigure cd m n) coupon_out c s) s"
      by (cases "coupon_findByCode cd u s") (simp_all add: keeps_def)
  qed
  with r show "redeemed t i code k (snd (ReconfigureCoupon env now u cid raw m n s))"
    by (auto simp: redeemed_def keeps_def [of "holds_key t i code k"] intro: keepsD [OF keeps_coupons_reconfigure])
qed

lemma redeemed_redeem: "keeps (redeemed t i code k) (RedeemCoupon env isActive g now u inp) s"
  unfolding RedeemCoupon_def
proof (intro keeps_intros)
  fix v c
  assume f: "coupon_findByCode (toUpperCase (trim (rei_code inp))) u s = Some c" and r: "redeemed t i code k s"
  then have row: "map_of (cv_store s) (agg_id c) = Some (u, c)"
    using coupon_by_code(1) [OF _ f] by (simp add: redeemed_def)
  have "keeps (redeemed t i code k) (coupon_call_save env now u
      (coupon_redeem (rei_idempotencyKey inp) (rei_customerRef inp) now g (rei_orderRef inp) (rei_email inp))
      (redeem_out False) c) s"
    by (rule keeps_redeemed_call) (simp_all add: row codes_kept redemptions_grow keeps_own_call)
  then show "keeps (redeemed t i code k) (\<lambda>s. if hasRedemption (agg_id c) (rei_idempotencyKey inp) u s
      then return_ok (redeem_out True c) s
      else if \<not> isActive (cn_promotionRef c)
      then return_err (ConflictError ''The promotion this coupon authorizes is not active'') s
      else coupon_call_save env now u
             (coupon_redeem (rei_idempotencyKey inp) (rei_customerRef inp) now g (rei_orderRef inp) (rei_email inp))
             (redeem_out False) c s) s"
    by (simp add: keeps_def)
qed

interpretation redeemed_once: invariant_object "redeemed t i code k :: 'b coupon_service \<Rightarrow> bool"
    "leaves_alone i" "coupon_handle env" for env :: "(coupon_event, 'b) agg_env" and t i code k
proof unfold_locales
  fix s :: "'b coupon_service" and c
  assume "redeemed t i code k s" "leaves_alone i c"
  then show "redeemed t i code k (snd (coupon_handle env c s))"
    using redeemed_create keepsD [OF redeemed_advance] keepsD [OF redeemed_redeem] keepsD [OF redeemed_reconfigure]
    by (cases c) simp_all
qed

text \<open>A redemption that the service answers is in the ledger.\<close>

lemma answered_redemption:
  assumes ok: "coupons_ok s" and r: "RedeemCoupon env isActive g now t inp s = (Inr (Inr out), s')"
  shows "redeemed t (reo_couponId out) (toUpperCase (trim (rei_code inp))) (rei_idempotencyKey inp) s'"
proof -
  have ok': "coupons_ok s'" using keepsD [OF keeps_coupons_redeem ok] r by (metis snd_conv)
  let ?code = "toUpperCase (trim (rei_code inp))" and ?k = "rei_idempotencyKey inp"
  let ?act = "coupon_redeem ?k (rei_customerRef inp) now g (rei_orderRef inp) (rei_email inp)"
  obtain c where c: "coupon_findByCode ?code t s = Some c"
      and b: "(if hasRedemption (agg_id c) ?k t s then return_ok (redeem_out True c) s
       else if \<not> isActive (cn_promotionRef c)
       then return_err (ConflictError ''The promotion this coupon authorizes is not active'') s
       else coupon_call_save env now t ?act (redeem_out False) c s) = (Inr (Inr out), s')"
    using r unfolding RedeemCoupon_def returns_iff by blast
  have row: "map_of (cv_store s) (agg_id c) = Some (t, c)" "cn_code c = ?code"
    using coupon_by_code(1) [OF ok c] by simp_all
  show ?thesis
  proof (cases "hasRedemption (agg_id c) ?k t s")
    case True
    with b have "out = redeem_out True c" "s' = s" by simp_all
    with True row ok show ?thesis
      by (auto simp: redeemed_def holds_key_def redeem_out_def hasRedemption_def list_ex_iff)
  next
    case False
    with b have call: "coupon_call_save env now t ?act (redeem_out False) c s = (Inr (Inr out), s')"
      by (simp split: if_splits)
    then obtain u c' where a: "?act c = (Inr u, c')" and out: "out = redeem_out False c'"
      by (cases "?act c"; cases "fst (?act c)")
        (auto simp: coupon_call_save_def then_do_apply return_ok_def split: prod.splits sum.splits)
    have can: "redeemable (rei_customerRef inp) now (rei_email inp) c"
    proof (rule ccontr)
      assume "\<not> redeemable (rei_customerRef inp) now (rei_email inp) c"
      then have "\<exists>e. ?act c = (Inl e, c)" by (rule coupon_redeem_refused)
      with a show False by auto
    qed
    have led: "\<exists>r\<in>set (cn_redemptions c'). rd_idempotencyKey r = ?k"
      using a by (auto simp: coupon_redeem_ok [OF can] Let_def with_redemption_def split: if_splits)
    have id: "agg_id c' = agg_id c" and cd: "cn_code c' = cn_code c"
      using agg_id_steps(3) codes_kept(2) a by (metis snd_conv)+
    have "\<exists>d. (d = c' \<or> d = c'\<lparr>agg_events := []\<rparr>) \<and> map_of (cv_store s') (agg_id c) = Some (t, d)"
      using coupon_call_store [where act = ?act and c = c and env = env and now = now and t = t and s = s
          and out = "redeem_out False"] call a id by auto
    then show ?thesis
      using ok' id cd led row(2) out by (auto simp: redeemed_def holds_key_def redeem_out_def)
  qed
qed

text \<open>
  C14: A redemption is effective once per idempotency key: after \<open>RedeemCoupon\<close> has answered, and
  after any requests that neither edit that coupon nor create one under its id, a request for the same code under
  the same key and tenant, from any caller, finds the coupon again, answers \<open>duplicate\<close> and changes nothing, whether or
  not the promotion is still active.
\<close>

theorem redeem_idempotent:
  fixes env :: "(coupon_event, 'b) agg_env"
  assumes "RedeemCoupon env isActive gen now tenant input (runs (coupon_handle env) earlier empty_coupons) =
      (Inr (Inr out), s)"
    and "list_all (leaves_alone (reo_couponId out)) later"
    and "rei_idempotencyKey again = rei_idempotencyKey input"
    and "toUpperCase (trim (rei_code again)) = toUpperCase (trim (rei_code input))"
  shows "\<exists>out'. RedeemCoupon env isActive' gen' now' tenant again (runs (coupon_handle env) later s) =
            (Inr (Inr out'), runs (coupon_handle env) later s) \<and>
          reo_duplicate out' \<and> reo_couponId out' = reo_couponId out"
proof -
  let ?s = "runs (coupon_handle env) later s"
  have "coupons_ok (runs (coupon_handle env) earlier empty_coupons)"
    by (rule coupon_codes.runs_inv [OF empty_coupons_ok]) (simp add: list_all_iff)
  then have "redeemed tenant (reo_couponId out) (toUpperCase (trim (rei_code input))) (rei_idempotencyKey input) s"
    using assms(1) by (rule answered_redemption)
  then have "redeemed tenant (reo_couponId out) (toUpperCase (trim (rei_code input))) (rei_idempotencyKey input) ?s"
    using assms(2) by (rule redeemed_once.runs_inv)
  then obtain c where "coupon_findByCode (toUpperCase (trim (rei_code input))) tenant ?s = Some c"
      "agg_id c = reo_couponId out" "hasRedemption (reo_couponId out) (rei_idempotencyKey input) tenant ?s"
    using redeemed_found by blast
  moreover obtain key where "againstEmpty (rei_idempotencyKey input) ''idempotencyKey'' = Inr key"
    using assms(1) by (auto simp: RedeemCoupon_def returns_iff)
  ultimately show ?thesis
    using assms(3,4) by (simp add: RedeemCoupon_def or_return_def lookup_def redeem_out_def)
qed


subsection \<open>Witnesses\<close>

definition example_coupon_env :: "(coupon_event, string) agg_env" where
  "example_coupon_env = \<lparr>ae_translate = CouponsEventTranslator,
     ae_serialize = (\<lambda>e. (''coupons'', ie_type e)), ae_producer = None,
     ae_context = \<lparr>cx_correlationId = ''corr'', cx_causationId = ''corr'', cx_tenantId = None\<rparr>\<rparr>"

definition example_create :: create_coupon_input where
  "example_create = \<lparr>cci_code = '' summer '', cci_promotionRef = ''p1'', cci_multiUse = False,
     cci_usageLimit = Some 3, cci_customerRef = None, cci_expiresAt = None, cci_campaignRef = None\<rparr>"

definition example_redeem :: redeem_input where
  "example_redeem = \<lparr>rei_code = ''Summer'', rei_customerRef = ''u1'', rei_idempotencyKey = ''order-1'',
     rei_orderRef = Some ''o1'', rei_email = None\<rparr>"

lemma redeem_idempotent_witness:
  "\<exists>out' s. RedeemCoupon example_coupon_env (\<lambda>_. False) ''g3'' 99 ''t1'' example_redeem s = (Inr (Inr out'), s) \<and>
     reo_duplicate out'"
proof -
  let ?earlier = "[ReqCreateCoupon ''c1'' 5 ''t1'' example_create]"
    and ?later = "[ReqAdvanceCoupon ''g2'' 7 ''t1'' ''c1'' CpDisabled]"
  let ?r = "RedeemCoupon example_coupon_env (\<lambda>_. True) ''g1'' 6 ''t1'' example_redeem
    (runs (coupon_handle example_coupon_env) ?earlier empty_coupons)"
  have "map_ok (map_ok reo_couponId) (fst ?r) = Inr (Inr ''c1'')" by code_simp
  then obtain out where r: "?r = (Inr (Inr out), snd ?r)" and i: "reo_couponId out = ''c1''"
    by (cases ?r; cases "fst ?r"; cases "projr (fst ?r)") (auto simp: map_ok_def)
  have "list_all (leaves_alone (reo_couponId out)) ?later" by (simp add: i)
  from redeem_idempotent [OF r this refl refl, of "\<lambda>_. False" "''g3''" 99] show ?thesis by blast
qed

end
