(* ===== verification/Carts.thy ===== *)
theory Carts
  imports Kernel Lifecycle
begin

section \<open>Carts\<close>

text \<open>
  services/cart/src/domain. The lines of a cart are objects of their own: a cart holds references, and
  \<^verbatim>\<open>merge\<close> pushes the very objects of the other cart. So the state here is a heap of \<open>cart_item\<close>s
  together with the cart, whose \<open>ct_items\<close> are addresses in it; a new line is allocated at the end of the
  heap. The abstract specification is the \<open>basket\<close>, the number of units per line key.
\<close>

subsection \<open>Lines (cart-item.ts, value-objects/quantity.ts)\<close>

definition CartQuantity_create :: "js_number \<Rightarrow> (domain_error, int) result" where
  "CartQuantity_create v =
     (if \<not> isInteger v \<or> js_less v (jint 1)
      then Inl (ValidationError ''Invalid quantity'' [issue ''quantity'' ''must be a positive integer''])
      else Inr (js_to_int v))"

definition CartQuantity_add :: "int \<Rightarrow> int \<Rightarrow> int" where
  "CartQuantity_add q other = q + other"

record line_merchandise =
  lm_variantRef :: string
  lm_sku :: string
  lm_title :: string
  lm_variantTitle :: "string option"

text \<open>The free-form metadata is stored verbatim and never read: its JSON text stands for it.\<close>

record item_snapshots =
  sn_inventoryAvailable :: "js_number option"
  sn_metadata :: "string option"
  sn_merchandise :: "line_merchandise option"

record cart_item =
  ci_id :: string
  ci_productRef :: string
  ci_quantity :: int
  ci_unitPrice :: money
  ci_inventoryAvailable :: "js_number option"
  ci_metadata :: "string option"
  ci_merchandise :: "line_merchandise option"

definition CartItem_create :: "string \<Rightarrow> string \<Rightarrow> int \<Rightarrow> money \<Rightarrow> item_snapshots \<Rightarrow> cart_item" where
  "CartItem_create itemId productRef quantity unitPrice snapshots =
     \<lparr>ci_id = itemId, ci_productRef = productRef, ci_quantity = quantity, ci_unitPrice = unitPrice,
      ci_inventoryAvailable = sn_inventoryAvailable snapshots, ci_metadata = sn_metadata snapshots,
      ci_merchandise = sn_merchandise snapshots\<rparr>"

definition key_of :: "line_merchandise option \<Rightarrow> string \<Rightarrow> string" where
  "key_of merchandise productRef = (case merchandise of Some m \<Rightarrow> lm_variantRef m | None \<Rightarrow> productRef)"

definition lineKey :: "cart_item \<Rightarrow> string" where
  "lineKey i = key_of (ci_merchandise i) (ci_productRef i)"

definition cart_lineTotal :: "cart_item \<Rightarrow> (domain_error, money) result" where
  "cart_lineTotal i = Money_times (ci_unitPrice i) (jint (ci_quantity i))"

definition increaseBy :: "int \<Rightarrow> cart_item \<Rightarrow> cart_item" where
  "increaseBy quantity i = i\<lparr>ci_quantity := CartQuantity_add (ci_quantity i) quantity\<rparr>"

definition changeQuantityTo :: "int \<Rightarrow> cart_item \<Rightarrow> cart_item" where
  "changeQuantityTo quantity i = i\<lparr>ci_quantity := quantity\<rparr>"

subsection \<open>The aggregate (cart.ts)\<close>

datatype cart_status = CaActive | CaCheckedOut | CaAbandoned | CaLocked | CaSaved | CaExpired

fun cart_status_name :: "cart_status \<Rightarrow> string" where
  "cart_status_name CaActive = ''active''"
| "cart_status_name CaCheckedOut = ''checked_out''"
| "cart_status_name CaAbandoned = ''abandoned''"
| "cart_status_name CaLocked = ''locked''"
| "cart_status_name CaSaved = ''saved''"
| "cart_status_name CaExpired = ''expired''"

datatype cart_event =
    CartCheckedOut string string int int
  | CartAbandoned string int
  | CartMerged string string int
  | CartLocked "string option"
  | CartSaved "string option" int
  | CartExpired "string option" cart_status

record cart = "cart_event aggregate" +
  ct_customerRef :: "string option"
  ct_sessionRef :: string
  ct_currency :: string
  ct_status :: cart_status
  ct_items :: "nat list"

type_synonym cart_heap = "cart_item list"
type_synonym cart_state = "cart_heap \<times> cart"
type_synonym cart_action = "(domain_error, cart_state, unit) action"

definition Cart_create :: "string \<Rightarrow> string option \<Rightarrow> string \<Rightarrow> string \<Rightarrow> (domain_error, cart) result" where
  "Cart_create cid customerRef sessionRef cur =
     (if \<not> isValidCurrencyCode cur then Inl (BusinessRuleError (''Invalid cart currency \"'' @ cur @ ''\"''))
      else Inr \<lparr>agg_id = cid, agg_version = 0, agg_events = [], ct_customerRef = customerRef,
             ct_sessionRef = sessionRef, ct_currency = cur, ct_status = CaActive, ct_items = []\<rparr>)"

text \<open>\<open>items\<close> are fresh objects here, put at the end of the heap.\<close>

definition Cart_reconstitute ::
  "string \<Rightarrow> string option \<Rightarrow> string \<Rightarrow> string \<Rightarrow> cart_status \<Rightarrow> cart_item list \<Rightarrow> int \<Rightarrow> cart_heap \<Rightarrow> cart_state" where
  "Cart_reconstitute cid customerRef sessionRef cur st items version h =
     (h @ items, \<lparr>agg_id = cid, agg_version = version, agg_events = [], ct_customerRef = customerRef,
        ct_sessionRef = sessionRef, ct_currency = cur, ct_status = st,
        ct_items = [length h..<length h + length items]\<rparr>)"

definition cart_lines :: "cart_heap \<Rightarrow> cart \<Rightarrow> cart_item list" where
  "cart_lines h c = map (\<lambda>a. h ! a) (ct_items c)"

definition ensureActive :: cart_action where
  "ensureActive = require (\<lambda>(h, c). ct_status c = CaActive)
     (\<lambda>(h, c). BusinessRuleError (''Cart is '' @ cart_status_name (ct_status c) @ '' and can no longer be modified''))"

definition line_with_key :: "cart_heap \<Rightarrow> nat list \<Rightarrow> string \<Rightarrow> nat option" where
  "line_with_key h items key = List.find (\<lambda>a. lineKey (h ! a) = key) items"

definition findLine :: "cart_heap \<Rightarrow> cart \<Rightarrow> string \<Rightarrow> nat option" where
  "findLine h c key =
     (case line_with_key h (ct_items c) key of
        Some a \<Rightarrow> Some a
      | None \<Rightarrow>
          let sameProduct = filter (\<lambda>a. ci_productRef (h ! a) = key) (ct_items c) in
          if length sameProduct = 1 then Some (sameProduct ! 0) else None)"

definition cart_item_not_found :: domain_error where
  "cart_item_not_found = BusinessRuleError ''Item not found in cart''"

definition same_currency :: "money \<Rightarrow> cart_action" where
  "same_currency unitPrice = require (\<lambda>(h, c). currency unitPrice = ct_currency c)
     (\<lambda>_. BusinessRuleError ''Item currency does not match the cart currency'')"

definition cart_addItem :: "string \<Rightarrow> string \<Rightarrow> int \<Rightarrow> money \<Rightarrow> item_snapshots \<Rightarrow> cart_action" where
  "cart_addItem itemId productRef quantity unitPrice snapshots =
     then_do ensureActive (then_do (same_currency unitPrice) (modify (\<lambda>(h, c).
       case line_with_key h (ct_items c) (key_of (sn_merchandise snapshots) productRef) of
         Some a \<Rightarrow> (h[a := increaseBy quantity (h ! a)], c)
       | None \<Rightarrow> (h @ [CartItem_create itemId productRef quantity unitPrice snapshots],
                  c\<lparr>ct_items := ct_items c @ [length h]\<rparr>))))"

text \<open>A line found by its key, or the throw; then the method goes on with its address.\<close>

definition with_line :: "string \<Rightarrow> (nat \<Rightarrow> cart_state \<Rightarrow> cart_state) \<Rightarrow> cart_action" where
  "with_line key f = (\<lambda>(h, c).
     case findLine h c key of None \<Rightarrow> (Inl cart_item_not_found, (h, c)) | Some a \<Rightarrow> (Inr (), f a (h, c)))"

definition cart_removeItem :: "string \<Rightarrow> cart_action" where
  "cart_removeItem key = then_do ensureActive (with_line key
     (\<lambda>a (h, c). (h, c\<lparr>ct_items := remove1 a (ct_items c)\<rparr>)))"

definition cart_changeItemQuantity :: "string \<Rightarrow> int \<Rightarrow> cart_action" where
  "cart_changeItemQuantity key quantity = then_do ensureActive (with_line key
     (\<lambda>a (h, c). (h[a := changeQuantityTo quantity (h ! a)], c)))"

text \<open>\<^verbatim>\<open>splice(indexOf(target), 1, item)\<close>\<close>

fun splice_at :: "nat \<Rightarrow> nat \<Rightarrow> nat list \<Rightarrow> nat list" where
  "splice_at old new [] = []"
| "splice_at old new (a # as) = (if a = old then new # as else a # splice_at old new as)"

definition cart_replaceItemVariant ::
  "string \<Rightarrow> string \<Rightarrow> string \<Rightarrow> int \<Rightarrow> money \<Rightarrow> item_snapshots \<Rightarrow> cart_action" where
  "cart_replaceItemVariant itemId oldLineKey newProductRef quantity unitPrice snapshots =
     then_do ensureActive (then_do (same_currency unitPrice) (with_line oldLineKey (\<lambda>a (h, c).
       (h @ [CartItem_create itemId newProductRef quantity unitPrice snapshots],
        c\<lparr>ct_items := splice_at a (length h) (ct_items c)\<rparr>))))"

definition cart_clear :: cart_action where
  "cart_clear = then_do ensureActive (modify (\<lambda>(h, c). (h, c\<lparr>ct_items := []\<rparr>)))"

definition cart_assignCustomer :: "string \<Rightarrow> cart_action" where
  "cart_assignCustomer customerRef =
     then_do (require (\<lambda>(h, c). ct_customerRef c = None) (\<lambda>_. BusinessRuleError ''Cart already has a customer''))
       (modify (\<lambda>(h, c). (h, c\<lparr>ct_customerRef := Some customerRef\<rparr>)))"

text \<open>The loop of \<^verbatim>\<open>merge\<close>: over the references of the source, onto the references of the target.\<close>

fun merge_lines :: "nat list \<Rightarrow> cart_heap \<Rightarrow> nat list \<Rightarrow> cart_heap \<times> nat list" where
  "merge_lines [] h items = (h, items)"
| "merge_lines (a # as) h items =
     (case line_with_key h items (lineKey (h ! a)) of
        Some b \<Rightarrow> merge_lines as (h[b := increaseBy (ci_quantity (h ! a)) (h ! b)]) items
      | None \<Rightarrow> merge_lines as h (items @ [a]))"

definition customer_or_blank :: "cart \<Rightarrow> string" where
  "customer_or_blank c = (case ct_customerRef c of None \<Rightarrow> '''' | Some r \<Rightarrow> r)"

definition raise_cart :: "string \<Rightarrow> timestamp \<Rightarrow> (cart \<Rightarrow> cart_event) \<Rightarrow> cart_action" where
  "raise_cart eventId occurredAt e = modify (\<lambda>(h, c). (h, addDomainEvent eventId occurredAt (e c) c))"

definition cart_merge :: "cart \<Rightarrow> string \<Rightarrow> timestamp \<Rightarrow> cart_action" where
  "cart_merge source eventId occurredAt =
     then_do ensureActive
    (then_do (require (\<lambda>(h, c). ct_currency source = ct_currency c)
        (\<lambda>_. BusinessRuleError ''Cannot merge carts with different currencies''))
    (then_do (modify (\<lambda>(h, c).
        case merge_lines (ct_items source) h (ct_items c) of (h', items) \<Rightarrow> (h', c\<lparr>ct_items := items\<rparr>)))
     (raise_cart eventId occurredAt
        (\<lambda>c. CartMerged (agg_id source) (customer_or_blank c) (int (length (ct_items c)))))))"

definition set_cart_status :: "cart_status \<Rightarrow> cart_action" where
  "set_cart_status st = modify (\<lambda>(h, c). (h, c\<lparr>ct_status := st\<rparr>))"

definition cart_lock :: "string \<Rightarrow> timestamp \<Rightarrow> cart_action" where
  "cart_lock eventId occurredAt = then_do ensureActive (then_do (set_cart_status CaLocked)
     (raise_cart eventId occurredAt (\<lambda>c. CartLocked (ct_customerRef c))))"

definition cart_unlock :: cart_action where
  "cart_unlock = then_do (require (\<lambda>(h, c). ct_status c = CaLocked) (\<lambda>_. BusinessRuleError ''Cart is not locked''))
     (set_cart_status CaActive)"

definition cart_saveForLater :: "string \<Rightarrow> timestamp \<Rightarrow> cart_action" where
  "cart_saveForLater eventId occurredAt = then_do ensureActive (then_do (set_cart_status CaSaved)
     (raise_cart eventId occurredAt (\<lambda>c. CartSaved (ct_customerRef c) (int (length (ct_items c))))))"

definition cart_restore :: cart_action where
  "cart_restore = then_do (require (\<lambda>(h, c). ct_status c = CaSaved) (\<lambda>_. BusinessRuleError ''Cart is not saved''))
     (set_cart_status CaActive)"

definition cart_expire :: "string \<Rightarrow> timestamp \<Rightarrow> cart_action" where
  "cart_expire eventId occurredAt =
     then_do (require (\<lambda>(h, c). \<not> (ct_status c = CaCheckedOut \<or> ct_status c = CaAbandoned \<or> ct_status c = CaExpired))
        (\<lambda>(h, c). BusinessRuleError (''Cart is '' @ cart_status_name (ct_status c) @ '' and cannot expire'')))
     (\<lambda>(h, c). then_do (set_cart_status CaExpired)
        (raise_cart eventId occurredAt (\<lambda>d. CartExpired (ct_customerRef d) (ct_status c))) (h, c))"

fun cart_sum :: "money \<Rightarrow> cart_item list \<Rightarrow> (domain_error, money) result" where
  "cart_sum acc [] = Inr acc"
| "cart_sum acc (i # is) = bind_result (cart_lineTotal i) (\<lambda>m. bind_result (Money_plus acc m) (\<lambda>acc'. cart_sum acc' is))"

definition cart_totalAmount :: "cart_heap \<Rightarrow> cart \<Rightarrow> (domain_error, money) result" where
  "cart_totalAmount h c = bind_result (Money_zero (ct_currency c)) (\<lambda>z. cart_sum z (cart_lines h c))"

definition cart_checkOut :: "string \<Rightarrow> timestamp \<Rightarrow> cart_action" where
  "cart_checkOut eventId occurredAt =
     then_do ensureActive
    (then_do (require (\<lambda>(h, c). length (ct_items c) \<noteq> 0) (\<lambda>_. BusinessRuleError ''Cannot check out an empty cart''))
    (then_do (set_cart_status CaCheckedOut)
    (bind_action (from_result (\<lambda>(h, c). cart_totalAmount h c)) (\<lambda>sum.
      raise_cart eventId occurredAt (\<lambda>c. CartCheckedOut (customer_or_blank c) (ct_currency c)
        (amountMinor sum) (int (length (ct_items c))))))))"

definition cart_abandon :: "string \<Rightarrow> timestamp \<Rightarrow> cart_action" where
  "cart_abandon eventId occurredAt = then_do ensureActive (then_do (set_cart_status CaAbandoned)
     (raise_cart eventId occurredAt (\<lambda>c. CartAbandoned (customer_or_blank c) (int (length (ct_items c))))))"

subsection \<open>Calls\<close>

datatype cart_call =
    CtAdd string string int money item_snapshots
  | CtRemove string
  | CtChange string int
  | CtReplace string string string int money item_snapshots
  | CtClear
  | CtAssign string
  | CtMerge cart string timestamp
  | CtLock string timestamp
  | CtUnlock
  | CtSave string timestamp
  | CtRestore
  | CtExpire string timestamp
  | CtCheckOut string timestamp
  | CtAbandon string timestamp

fun cart_step :: "cart_call \<Rightarrow> cart_action" where
  "cart_step (CtAdd i p q u sn) = cart_addItem i p q u sn"
| "cart_step (CtRemove k) = cart_removeItem k"
| "cart_step (CtChange k q) = cart_changeItemQuantity k q"
| "cart_step (CtReplace i k p q u sn) = cart_replaceItemVariant i k p q u sn"
| "cart_step CtClear = cart_clear"
| "cart_step (CtAssign r) = cart_assignCustomer r"
| "cart_step (CtMerge src e t) = cart_merge src e t"
| "cart_step (CtLock e t) = cart_lock e t"
| "cart_step CtUnlock = cart_unlock"
| "cart_step (CtSave e t) = cart_saveForLater e t"
| "cart_step CtRestore = cart_restore"
| "cart_step (CtExpire e t) = cart_expire e t"
| "cart_step (CtCheckOut e t) = cart_checkOut e t"
| "cart_step (CtAbandon e t) = cart_abandon e t"

subsection \<open>The abstract specification: units per line key\<close>

type_synonym basket = "string \<Rightarrow> int"

fun units :: "cart_item list \<Rightarrow> basket" where
  "units [] k = 0"
| "units (i # is) k = (if lineKey i = k then ci_quantity i else 0) + units is k"

definition basket :: "cart_state \<Rightarrow> basket" where
  "basket = (\<lambda>(h, c). units (cart_lines h c))"

datatype basket_op =
    BNothing
  | BAdd string int
  | BSet string int
  | BDrop string
  | BSwap string string int
  | BEmpty
  | BMerge basket

fun perform :: "basket_op \<Rightarrow> basket \<Rightarrow> basket" where
  "perform BNothing b = b"
| "perform (BAdd k q) b = b(k := b k + q)"
| "perform (BSet k q) b = b(k := q)"
| "perform (BDrop k) b = b(k := 0)"
| "perform (BSwap k k' q) b = (b(k := 0))(k' := q)"
| "perform BEmpty b = (\<lambda>_. 0)"
| "perform (BMerge b') b = (\<lambda>k. b k + b' k)"

text \<open>
  The line a caller means: the one with that key, else the only line of that product.
\<close>

definition resolve :: "cart_item list \<Rightarrow> string \<Rightarrow> string option" where
  "resolve lines key =
     (if key \<in> lineKey ` set lines then Some key
      else case filter (\<lambda>i. ci_productRef i = key) lines of [i] \<Rightarrow> Some (lineKey i) | _ \<Rightarrow> None)"

text \<open>What a call means: only an active cart takes part, only prices in its currency are accepted.\<close>

fun cart_meaning :: "cart_state \<Rightarrow> cart_call \<Rightarrow> basket_op" where
  "cart_meaning (h, c) call =
     (if ct_status c \<noteq> CaActive then BNothing
      else case call of
        CtAdd i p q u sn \<Rightarrow> if currency u = ct_currency c then BAdd (key_of (sn_merchandise sn) p) q else BNothing
      | CtRemove key \<Rightarrow> (case resolve (cart_lines h c) key of None \<Rightarrow> BNothing | Some k \<Rightarrow> BDrop k)
      | CtChange key q \<Rightarrow> (case resolve (cart_lines h c) key of None \<Rightarrow> BNothing | Some k \<Rightarrow> BSet k q)
      | CtReplace i key p q u sn \<Rightarrow>
          if currency u = ct_currency c
          then (case resolve (cart_lines h c) key of
                  None \<Rightarrow> BNothing | Some k \<Rightarrow> BSwap k (key_of (sn_merchandise sn) p) q)
          else BNothing
      | CtClear \<Rightarrow> BEmpty
      | CtMerge src e t \<Rightarrow> if ct_currency src = ct_currency c then BMerge (basket (h, src)) else BNothing
      | _ \<Rightarrow> BNothing)"

subsection \<open>Well-formed carts\<close>

definition line_ok :: "string \<Rightarrow> cart_item \<Rightarrow> bool" where
  "line_ok cur i = (1 \<le> ci_quantity i \<and> 0 \<le> amountMinor (ci_unitPrice i) \<and> currency (ci_unitPrice i) = cur)"

definition cart_wf :: "cart_state \<Rightarrow> bool" where
  "cart_wf = (\<lambda>(h, c). isValidCurrencyCode (ct_currency c) \<and>
     (\<forall>a\<in>set (ct_items c). a < length h \<and> line_ok (ct_currency c) (h ! a)) \<and>
     distinct (map (\<lambda>a. lineKey (h ! a)) (ct_items c)))"

text \<open>
  What callers must respect: quantities and prices come from \<^verbatim>\<open>Quantity.create\<close> and \<^verbatim>\<open>Money.create\<close>; a
  replacement does not bring in a variant that another line already holds; a cart merged in is well-formed.
\<close>

fun call_ok :: "cart_state \<Rightarrow> cart_call \<Rightarrow> bool" where
  "call_ok (h, c) (CtAdd i p q u sn) = (1 \<le> q \<and> 0 \<le> amountMinor u)"
| "call_ok (h, c) (CtChange k q) = (1 \<le> q)"
| "call_ok (h, c) (CtReplace i key p q u sn) =
     (1 \<le> q \<and> 0 \<le> amountMinor u \<and>
      (let k' = key_of (sn_merchandise sn) p in
       k' \<notin> lineKey ` set (cart_lines h c) \<or> resolve (cart_lines h c) key = Some k'))"
| "call_ok (h, c) (CtMerge src e t) = cart_wf (h, src)"
| "call_ok s _ = True"

subsection \<open>Lemmas on units\<close>

lemma units_append [simp]: "units (is @ js) k = units is k + units js k"
  by (induction "is") auto

lemma units_absent: "k \<notin> lineKey ` set is \<Longrightarrow> units is k = 0"
  by (induction "is") auto

abbreviation at_addrs :: "cart_heap \<Rightarrow> nat list \<Rightarrow> cart_item list" where
  "at_addrs h as \<equiv> map (\<lambda>a. h ! a) as"

lemma at_addrs_alloc [simp]: "\<forall>a\<in>set as. a < length h \<Longrightarrow> map (\<lambda>a. (h @ xs) ! a) as = at_addrs h as"
  by (simp add: nth_append)

lemma at_addrs_frame: "b \<notin> set as \<Longrightarrow> at_addrs (h[b := x]) as = at_addrs h as"
  by (intro map_cong refl nth_list_update_neq) auto

lemma units_update:
  assumes "distinct as" "a \<in> set as" "a < length h" "lineKey x = lineKey (h ! a)"
  shows "units (at_addrs (h[a := x]) as) k =
    units (at_addrs h as) k + (if lineKey x = k then ci_quantity x - ci_quantity (h ! a) else 0)"
  using assms
proof (induction as)
  case (Cons b as)
  show ?case
  proof (cases "b = a")
    case True
    with Cons.prems have "at_addrs (h[a := x]) as = at_addrs h as" by (intro at_addrs_frame) simp
    with True Cons.prems show ?thesis by (simp del: map_eq_conv)
  next
    case False
    with Cons show ?thesis by simp
  qed
qed simp

lemma units_remove:
  "a \<in> set as \<Longrightarrow> units (at_addrs h (remove1 a as)) k =
    units (at_addrs h as) k - (if lineKey (h ! a) = k then ci_quantity (h ! a) else 0)"
  by (induction as) auto

lemma units_own:
  assumes "distinct (map (\<lambda>a. lineKey (h ! a)) as)" "a \<in> set as"
  shows "units (at_addrs h as) (lineKey (h ! a)) = ci_quantity (h ! a)"
  using assms
proof (induction as)
  case (Cons b as)
  show ?case
  proof (cases "b = a")
    case True
    with Cons.prems have "lineKey (h ! a) \<notin> lineKey ` set (at_addrs h as)" by auto
    with True show ?thesis by (simp add: units_absent)
  next
    case False
    with Cons.prems have "lineKey (h ! b) \<noteq> lineKey (h ! a)" by (auto simp: image_iff)
    with False Cons show ?thesis by simp
  qed
qed simp

lemma keys_update:
  "lineKey x = lineKey (h ! a) \<Longrightarrow> a < length h \<Longrightarrow> lineKey (h[a := x] ! b) = lineKey (h ! b)"
  by (cases "b = a") simp_all

lemma line_edits [simp]:
  "lineKey (increaseBy q i) = lineKey i"
  "lineKey (changeQuantityTo q i) = lineKey i"
  "ci_quantity (increaseBy q i) = ci_quantity i + q"
  "ci_quantity (changeQuantityTo q i) = q"
  "1 \<le> q \<Longrightarrow> line_ok cur i \<Longrightarrow> line_ok cur (increaseBy q i)"
  "1 \<le> q \<Longrightarrow> line_ok cur i \<Longrightarrow> line_ok cur (changeQuantityTo q i)"
  by (simp_all add: increaseBy_def changeQuantityTo_def lineKey_def line_ok_def CartQuantity_add_def)

lemma line_created [simp]:
  "lineKey (CartItem_create i p q u sn) = key_of (sn_merchandise sn) p"
  "ci_quantity (CartItem_create i p q u sn) = q"
  "line_ok cur (CartItem_create i p q u sn) \<longleftrightarrow> 1 \<le> q \<and> 0 \<le> amountMinor u \<and> currency u = cur"
  by (simp_all add: CartItem_create_def lineKey_def line_ok_def)

lemma line_with_key_Some:
  "line_with_key h as k = Some a \<Longrightarrow> a \<in> set as \<and> lineKey (h ! a) = k"
  unfolding line_with_key_def by (auto dest: find_Some_props)

lemma line_with_key_None: "line_with_key h as k = None \<longleftrightarrow> k \<notin> (\<lambda>a. lineKey (h ! a)) ` set as"
  unfolding line_with_key_def by (auto simp: find_None_iff_all)

lemma findLine_resolve:
  "findLine h c key = Some a \<Longrightarrow> a \<in> set (ct_items c) \<and> resolve (cart_lines h c) key = Some (lineKey (h ! a))"
  "findLine h c key = None \<Longrightarrow> resolve (cart_lines h c) key = None"
proof -
  let ?same = "filter (\<lambda>a. ci_productRef (h ! a) = key) (ct_items c)"
  have same: "filter (\<lambda>i. ci_productRef i = key) (cart_lines h c) = at_addrs h ?same"
    by (simp add: cart_lines_def filter_map o_def)
  have keys: "lineKey ` set (cart_lines h c) = (\<lambda>a. lineKey (h ! a)) ` set (ct_items c)"
    by (auto simp: cart_lines_def)
  show "findLine h c key = Some a \<Longrightarrow>
      a \<in> set (ct_items c) \<and> resolve (cart_lines h c) key = Some (lineKey (h ! a))"
  proof (cases "line_with_key h (ct_items c) key")
    case None
    assume f: "findLine h c key = Some a"
    with None obtain b where b: "?same = [b]" "a = b"
      by (auto simp: findLine_def Let_def length_Suc_conv split: if_splits)
    then have "b \<in> set (ct_items c)" by (metis (no_types, lifting) filter_eq_ConsD in_set_conv_decomp)
    with None [unfolded line_with_key_None] b show ?thesis
      by (simp add: resolve_def keys same)
  next
    case (Some b)
    assume "findLine h c key = Some a"
    with Some have "a \<in> set (ct_items c)" "lineKey (h ! a) = key"
      using line_with_key_Some by (auto simp: findLine_def)
    then show ?thesis by (auto simp: resolve_def keys)
  qed
  show "findLine h c key = None \<Longrightarrow> resolve (cart_lines h c) key = None"
    by (auto simp: findLine_def Let_def resolve_def keys same line_with_key_None [symmetric]
        split: option.splits if_splits list.splits)
qed

subsection \<open>Well-formedness and the basket under each call\<close>

lemma cart_wfI:
  assumes "isValidCurrencyCode (ct_currency c)" "\<And>a. a \<in> set (ct_items c) \<Longrightarrow> a < length h \<and> line_ok (ct_currency c) (h ! a)"
    and "distinct (map (\<lambda>a. lineKey (h ! a)) (ct_items c))"
  shows "cart_wf (h, c)"
  using assms by (simp add: cart_wf_def)

lemma cart_wfD:
  assumes "cart_wf (h, c)"
  shows "isValidCurrencyCode (ct_currency c)"
    and "a \<in> set (ct_items c) \<Longrightarrow> a < length h"
    and "a \<in> set (ct_items c) \<Longrightarrow> line_ok (ct_currency c) (h ! a)"
    and "distinct (map (\<lambda>a. lineKey (h ! a)) (ct_items c))"
    and "distinct (ct_items c)"
    and "a \<in> set (ct_items c) \<Longrightarrow> b \<in> set (ct_items c) \<Longrightarrow> lineKey (h ! a) = lineKey (h ! b) \<Longrightarrow> a = b"
proof -
  show d: "distinct (map (\<lambda>a. lineKey (h ! a)) (ct_items c))" using assms by (simp add: cart_wf_def)
  then show "distinct (ct_items c)" by (simp add: distinct_map)
  show "a \<in> set (ct_items c) \<Longrightarrow> b \<in> set (ct_items c) \<Longrightarrow> lineKey (h ! a) = lineKey (h ! b) \<Longrightarrow> a = b"
    using d by (auto simp: distinct_map inj_on_def)
qed (use assms in \<open>auto simp: cart_wf_def\<close>)

lemma basket_pair: "basket (h, c) = units (at_addrs h (ct_items c))"
  by (simp add: basket_def cart_lines_def)

text \<open>An edit of one line in place.\<close>

lemma edit_line:
  assumes ok: "cart_wf (h, c)" and a: "a \<in> set (ct_items c)"
    and x: "lineKey x = lineKey (h ! a)" "line_ok (ct_currency c) x"
  shows "cart_wf (h[a := x], c)"
    and "basket (h[a := x], c) = (basket (h, c))(lineKey (h ! a) := ci_quantity x)"
proof -
  have al: "a < length h" using cart_wfD(2) [OF ok a] .
  show "cart_wf (h[a := x], c)"
  proof (rule cart_wfI)
    show "distinct (map (\<lambda>b. lineKey (h[a := x] ! b)) (ct_items c))"
      using cart_wfD(4) [OF ok] by (simp add: keys_update [OF x(1) al])
    fix b assume "b \<in> set (ct_items c)"
    then show "b < length (h[a := x]) \<and> line_ok (ct_currency c) (h[a := x] ! b)"
      using cart_wfD(2,3) [OF ok] x(2) al by (cases "a = b") auto
  qed (rule cart_wfD(1) [OF ok])
  show "basket (h[a := x], c) = (basket (h, c))(lineKey (h ! a) := ci_quantity x)"
  proof
    fix k
    show "basket (h[a := x], c) k = ((basket (h, c))(lineKey (h ! a) := ci_quantity x)) k"
      using units_update [OF cart_wfD(5) [OF ok] a al x(1), of k] units_own [OF cart_wfD(4) [OF ok] a] x(1)
      by (auto simp: basket_pair)
  qed
qed

text \<open>A line allocated at the end of the heap, under a key the cart does not hold.\<close>

lemma alloc_line:
  assumes ok: "cart_wf (h, c)" and x: "line_ok (ct_currency c) x" "lineKey x \<notin> lineKey ` set (cart_lines h c)"
    and c': "ct_items c' = ct_items c @ [length h]" "ct_currency c' = ct_currency c"
  shows "cart_wf (h @ [x], c')"
    and "basket (h @ [x], c') = (basket (h, c))(lineKey x := basket (h, c) (lineKey x) + ci_quantity x)"
proof -
  have r: "\<forall>a\<in>set (ct_items c). a < length h" using cart_wfD(2) [OF ok] by blast
  have k: "map (\<lambda>a. lineKey ((h @ [x]) ! a)) (ct_items c) = map (\<lambda>a. lineKey (h ! a)) (ct_items c)"
    using r by (simp add: nth_append)
  show "cart_wf (h @ [x], c')"
  proof (rule cart_wfI)
    show "distinct (map (\<lambda>a. lineKey ((h @ [x]) ! a)) (ct_items c'))"
      using cart_wfD(4) [OF ok] x(2) by (auto simp: c' k cart_lines_def)
    fix a assume "a \<in> set (ct_items c')"
    then show "a < length (h @ [x]) \<and> line_ok (ct_currency c') ((h @ [x]) ! a)"
      using r cart_wfD(3) [OF ok] x(1) by (auto simp: c' nth_append)
  qed (simp add: c' cart_wfD(1) [OF ok])
  show "basket (h @ [x], c') = (basket (h, c))(lineKey x := basket (h, c) (lineKey x) + ci_quantity x)"
    using r by (auto simp: basket_pair c')
qed

lemma remove_line:
  assumes ok: "cart_wf (h, c)" and a: "a \<in> set (ct_items c)"
    and c': "ct_items c' = remove1 a (ct_items c)" "ct_currency c' = ct_currency c"
  shows "cart_wf (h, c')" and "basket (h, c') = (basket (h, c))(lineKey (h ! a) := 0)"
proof -
  show "cart_wf (h, c')"
  proof (rule cart_wfI)
    show "distinct (map (\<lambda>b. lineKey (h ! b)) (ct_items c'))"
      using cart_wfD(4) [OF ok] by (auto simp: c' distinct_map intro: inj_on_subset dest: notin_set_remove1)
    fix b assume "b \<in> set (ct_items c')"
    then show "b < length h \<and> line_ok (ct_currency c') (h ! b)"
      using cart_wfD(2,3) [OF ok] by (auto simp: c' dest: notin_set_remove1)
  qed (simp add: c' cart_wfD(1) [OF ok])
  show "basket (h, c') = (basket (h, c))(lineKey (h ! a) := 0)"
    using units_remove [OF a, of h] units_own [OF cart_wfD(4) [OF ok] a] by (auto simp: basket_pair c')
qed

lemma cart_wf_same:
  "ct_items c' = ct_items c \<Longrightarrow> ct_currency c' = ct_currency c \<Longrightarrow> cart_wf (h, c') = cart_wf (h, c)"
  by (simp add: cart_wf_def)

lemma basket_same: "ct_items c' = ct_items c \<Longrightarrow> basket (h, c') = basket (h, c)"
  by (simp add: basket_pair)

text \<open>A replaced line: the old one out, the new one in its place.\<close>

lemma splice_units:
  assumes "a \<in> set as" "\<forall>b\<in>set as. b < length h"
  shows "units (at_addrs (h @ [x]) (splice_at a (length h) as)) k =
    units (at_addrs h as) k - (if lineKey (h ! a) = k then ci_quantity (h ! a) else 0) +
    (if lineKey x = k then ci_quantity x else 0)"
  using assms by (induction as) (auto simp: nth_append)

lemma set_splice: "set (splice_at a n as) \<subseteq> insert n (set as)"
  by (induction as) auto

lemma distinct_splice:
  assumes "distinct (map f as)" "a \<in> set as" "f n \<notin> f ` (set as - {a})"
  shows "distinct (map f (splice_at a n as))"
  using assms
proof (induction as)
  case (Cons b as)
  show ?case
  proof (cases "b = a")
    case True
    with Cons.prems show ?thesis by auto
  next
    case False
    then have "f n \<notin> f ` (set as - {a})" "f n \<noteq> f b" using Cons.prems by auto
    with False Cons set_splice [of a n as] show ?thesis by auto
  qed
qed simp

lemma replace_line:
  assumes ok: "cart_wf (h, c)" and a: "a \<in> set (ct_items c)" and x: "line_ok (ct_currency c) x"
    and free: "lineKey x \<notin> lineKey ` set (cart_lines h c) \<or> lineKey (h ! a) = lineKey x"
    and c': "ct_items c' = splice_at a (length h) (ct_items c)" "ct_currency c' = ct_currency c"
  shows "cart_wf (h @ [x], c')"
    and "basket (h @ [x], c') = ((basket (h, c))(lineKey (h ! a) := 0))(lineKey x := ci_quantity x)"
proof -
  have r: "\<forall>b\<in>set (ct_items c). b < length h" using cart_wfD(2) [OF ok] by blast
  have al: "a < length h" using r a by blast
  have same: "b \<in> set (ct_items c) \<Longrightarrow> b \<noteq> a \<Longrightarrow> lineKey (h ! b) \<noteq> lineKey x" for b
  proof
    assume b: "b \<in> set (ct_items c)" "b \<noteq> a" "lineKey (h ! b) = lineKey x"
    then have "lineKey x \<in> lineKey ` set (cart_lines h c)" by (metis cart_lines_def image_eqI list.set_map)
    with free b cart_wfD(6) [OF ok b(1) a] show False by simp
  qed
  show "cart_wf (h @ [x], c')"
  proof (rule cart_wfI)
    show "distinct (map (\<lambda>b. lineKey ((h @ [x]) ! b)) (ct_items c'))" unfolding c'(1)
    proof (rule distinct_splice [OF _ a])
      show "distinct (map (\<lambda>b. lineKey ((h @ [x]) ! b)) (ct_items c))"
        using cart_wfD(4) [OF ok] r by (simp add: nth_append cong: map_cong)
      show "lineKey ((h @ [x]) ! length h) \<notin> (\<lambda>b. lineKey ((h @ [x]) ! b)) ` (set (ct_items c) - {a})"
        using same r by (force simp: nth_append)
    qed
    fix b assume "b \<in> set (ct_items c')"
    then show "b < length (h @ [x]) \<and> line_ok (ct_currency c') ((h @ [x]) ! b)"
      using set_splice [of a "length h" "ct_items c"] r cart_wfD(3) [OF ok] x by (auto simp: c' nth_append)
  qed (simp add: c' cart_wfD(1) [OF ok])
  show "basket (h @ [x], c') = ((basket (h, c))(lineKey (h ! a) := 0))(lineKey x := ci_quantity x)"
  proof
    fix k
    have z: "units (at_addrs h (ct_items c)) (lineKey x) = 0" if "lineKey (h ! a) \<noteq> lineKey x"
      using that free by (simp add: units_absent cart_lines_def)
    show "basket (h @ [x], c') k = (((basket (h, c))(lineKey (h ! a) := 0))(lineKey x := ci_quantity x)) k"
      using splice_units [OF a r, of x k] units_own [OF cart_wfD(4) [OF ok] a] z
      by (auto simp: basket_pair c')
  qed
qed

text \<open>The merge loop, on well-formed carts that may even share lines.\<close>

lemma merge_lines_spec:
  assumes "distinct (map (\<lambda>a. lineKey (h ! a)) as)" "distinct (map (\<lambda>a. lineKey (h ! a)) items)"
    and "\<forall>a\<in>set as \<union> set items. a < length h \<and> line_ok cur (h ! a)"
    and "merge_lines as h items = (h', items')"
  shows "length h' = length h \<and> set items \<subseteq> set items' \<and> set items' \<subseteq> set items \<union> set as \<and>
    (\<forall>a. lineKey (h' ! a) = lineKey (h ! a)) \<and>
    (\<forall>a\<in>set items'. line_ok cur (h' ! a)) \<and> distinct (map (\<lambda>a. lineKey (h' ! a)) items') \<and>
    (\<forall>k. units (at_addrs h' items') k = units (at_addrs h items) k + units (at_addrs h as) k)"
  using assms
proof (induction as arbitrary: h items)
  case (Cons a as)
  show ?case
  proof (cases "line_with_key h items (lineKey (h ! a))")
    case None
    then have new: "lineKey (h ! a) \<notin> (\<lambda>b. lineKey (h ! b)) ` set items" by (simp add: line_with_key_None)
    with Cons.prems have m: "merge_lines as h (items @ [a]) = (h', items')"
      and d: "distinct (map (\<lambda>b. lineKey (h ! b)) (items @ [a]))" using None by auto
    have "distinct (map (\<lambda>b. lineKey (h ! b)) as)" using Cons.prems(1) by simp
    from Cons.IH [OF this d _ m] Cons.prems(3) show ?thesis by auto
  next
    case (Some b)
    then have b: "b \<in> set items" "lineKey (h ! b) = lineKey (h ! a)" using line_with_key_Some by blast+
    let ?x = "increaseBy (ci_quantity (h ! a)) (h ! b)" and ?as = "a # as"
    let ?h = "h[b := ?x]"
    have bl: "b < length h" using Cons.prems(3) b by simp
    have key: "lineKey (?h ! e) = lineKey (h ! e)" for e by (rule keys_update) (simp_all add: bl)
    have notin: "b \<notin> set as"
      using Cons.prems(1) b(2) by (auto simp: image_iff)
    have m: "merge_lines as ?h items = (h', items')" using Cons.prems(4) Some by simp
    have "line_ok cur (h ! b)" "1 \<le> ci_quantity (h ! a)" using Cons.prems(3) b(1) by (auto simp: line_ok_def)
    then have okx: "line_ok cur ?x" by simp
    have ok: "\<forall>e\<in>set as \<union> set items. e < length ?h \<and> line_ok cur (?h ! e)"
    proof
      fix e assume "e \<in> set as \<union> set items"
      then have "e < length h \<and> line_ok cur (h ! e)" using Cons.prems(3) by auto
      then show "e < length ?h \<and> line_ok cur (?h ! e)" using okx bl by (cases "b = e") auto
    qed
    have d1: "distinct (map (\<lambda>e. lineKey (?h ! e)) as)" using Cons.prems(1) by (simp add: key)
    have d2: "distinct (map (\<lambda>e. lineKey (?h ! e)) items)" using Cons.prems(2) by (simp add: key)
    have di: "distinct items" using Cons.prems(2) by (simp add: distinct_map)
    have u: "units (at_addrs ?h items) k + units (at_addrs ?h as) k =
        units (at_addrs h items) k + units (at_addrs h ?as) k" for k
      using units_update [OF di b(1) bl, of ?x k] at_addrs_frame [OF notin, of h ?x] b(2)
      by (simp del: map_eq_conv)
    show ?thesis using Cons.IH [OF d1 d2 ok m] u key by (auto simp del: map_eq_conv list.map)
  qed
qed auto

lemma merge_line:
  assumes ok: "cart_wf (h, c)" and src: "cart_wf (h, src)" "ct_currency src = ct_currency c"
    and m: "merge_lines (ct_items src) h (ct_items c) = (h', items')"
    and c': "ct_items c' = items'" "ct_currency c' = ct_currency c"
  shows "cart_wf (h', c')" and "basket (h', c') = (\<lambda>k. basket (h, c) k + basket (h, src) k)"
proof -
  have d: "distinct (map (\<lambda>a. lineKey (h ! a)) (ct_items src))" "distinct (map (\<lambda>a. lineKey (h ! a)) (ct_items c))"
    using cart_wfD(4) [OF src(1)] cart_wfD(4) [OF ok] .
  have r: "\<forall>a\<in>set (ct_items src) \<union> set (ct_items c). a < length h \<and> line_ok (ct_currency c) (h ! a)"
    using cart_wfD(2,3) [OF ok] cart_wfD(2,3) [OF src(1)] src(2) by auto
  note spec = merge_lines_spec [OF d r m]
  show "cart_wf (h', c')"
  proof (rule cart_wfI)
    fix a assume "a \<in> set (ct_items c')"
    with spec r c' show "a < length h' \<and> line_ok (ct_currency c') (h' ! a)" by auto
  qed (use spec c' cart_wfD(1) [OF ok] in auto)
  show "basket (h', c') = (\<lambda>k. basket (h, c) k + basket (h, src) k)"
    using spec by (auto simp: basket_pair c'(1) simp del: map_eq_conv list.map)
qed

subsection \<open>The cart refines the basket\<close>

lemmas cart_ops =
  cart_addItem_def cart_removeItem_def cart_changeItemQuantity_def cart_replaceItemVariant_def cart_clear_def
  cart_assignCustomer_def cart_merge_def cart_lock_def cart_unlock_def cart_saveForLater_def cart_restore_def
  cart_expire_def cart_checkOut_def cart_abandon_def

lemmas cart_plumbing =
  ensureActive_def same_currency_def set_cart_status_def raise_cart_def then_do_apply bind_action_apply

text \<open>Calls that do not touch the lines.\<close>

fun leaves_lines :: "cart_call \<Rightarrow> bool" where
  "leaves_lines (CtAdd i p q u sn) = False"
| "leaves_lines (CtRemove k) = False"
| "leaves_lines (CtChange k q) = False"
| "leaves_lines (CtReplace i k p q u sn) = False"
| "leaves_lines CtClear = False"
| "leaves_lines (CtMerge src e t) = False"
| "leaves_lines _ = True"

lemma leaves_lines_step:
  assumes "leaves_lines call" "cart_step call (h, c) = (r, (h', c'))"
  shows "h' = h \<and> ct_items c' = ct_items c \<and> ct_currency c' = ct_currency c"
  using assms
  by (cases call) (auto simp: cart_ops cart_plumbing addDomainEvent_def split: sum.splits if_splits)

lemma refused_step:
  assumes "ct_status c \<noteq> CaActive" "\<not> leaves_lines call"
  shows "snd (cart_step call (h, c)) = (h, c)"
  using assms by (cases call) (simp_all add: cart_ops cart_plumbing)

lemma with_line_cases:
  "with_line key f (h, c) =
     (case findLine h c key of None \<Rightarrow> (Inl cart_item_not_found, (h, c)) | Some a \<Rightarrow> (Inr (), f a (h, c)))"
  by (simp add: with_line_def)

definition refines_at :: "cart_state \<Rightarrow> cart_call \<Rightarrow> bool" where
  "refines_at s call = (cart_wf (snd (cart_step call s)) \<and>
     basket (snd (cart_step call s)) = perform (cart_meaning s call) (basket s))"

lemma refines_add:
  assumes ok: "cart_wf (h, c)" and st: "ct_status c = CaActive" and good: "call_ok (h, c) (CtAdd i p q u sn)"
  shows "refines_at (h, c) (CtAdd i p q u sn)"
proof (cases "currency u = ct_currency c")
  case cur: True
  let ?k = "key_of (sn_merchandise sn) p"
  show ?thesis
  proof (cases "line_with_key h (ct_items c) ?k")
    case None
    then have "?k \<notin> lineKey ` set (cart_lines h c)" by (auto simp: line_with_key_None cart_lines_def)
    then show ?thesis
      using alloc_line [OF ok, of "CartItem_create i p q u sn" "c\<lparr>ct_items := ct_items c @ [length h]\<rparr>"] good cur st None
      by (simp add: refines_at_def cart_ops cart_plumbing)
  next
    case (Some a)
    then have a: "a \<in> set (ct_items c)" "lineKey (h ! a) = ?k" using line_with_key_Some by blast+
    have x: "line_ok (ct_currency c) (increaseBy q (h ! a))" using good cart_wfD(3) [OF ok a(1)] by simp
    have "basket (h, c) ?k = ci_quantity (h ! a)"
      using units_own [OF cart_wfD(4) [OF ok] a(1)] a(2) by (simp add: basket_pair)
    then show ?thesis
      using edit_line [OF ok a(1) _ x] a(2) cur st Some
      by (simp add: refines_at_def cart_ops cart_plumbing)
  qed
next
  case False
  with ok st show ?thesis by (simp add: refines_at_def cart_ops cart_plumbing)
qed

lemma refines_remove:
  assumes ok: "cart_wf (h, c)" and st: "ct_status c = CaActive"
  shows "refines_at (h, c) (CtRemove key)"
proof (cases "findLine h c key")
  case None
  with ok st findLine_resolve(2) [OF None] show ?thesis
    by (simp add: refines_at_def cart_ops cart_plumbing with_line_cases)
next
  case (Some a)
  from findLine_resolve(1) [OF Some] remove_line [OF ok, of a "c\<lparr>ct_items := remove1 a (ct_items c)\<rparr>"] Some st
  show ?thesis by (simp add: refines_at_def cart_ops cart_plumbing with_line_cases)
qed

lemma refines_change:
  assumes ok: "cart_wf (h, c)" and st: "ct_status c = CaActive" and good: "call_ok (h, c) (CtChange key q)"
  shows "refines_at (h, c) (CtChange key q)"
proof (cases "findLine h c key")
  case None
  with ok st findLine_resolve(2) [OF None] show ?thesis
    by (simp add: refines_at_def cart_ops cart_plumbing with_line_cases)
next
  case (Some a)
  note a = findLine_resolve(1) [OF Some]
  have "line_ok (ct_currency c) (changeQuantityTo q (h ! a))" using good cart_wfD(3) [OF ok] a by simp
  with a edit_line [OF ok, of a "changeQuantityTo q (h ! a)"] Some st
  show ?thesis by (simp add: refines_at_def cart_ops cart_plumbing with_line_cases)
qed

lemma refines_replace:
  assumes ok: "cart_wf (h, c)" and st: "ct_status c = CaActive" and good: "call_ok (h, c) (CtReplace i key p q u sn)"
  shows "refines_at (h, c) (CtReplace i key p q u sn)"
proof (cases "currency u = ct_currency c")
  case cur: True
  show ?thesis
  proof (cases "findLine h c key")
    case None
    with ok st cur findLine_resolve(2) [OF None] show ?thesis
      by (simp add: refines_at_def cart_ops cart_plumbing with_line_cases)
  next
    case (Some a)
    note a = findLine_resolve(1) [OF Some]
    let ?x = "CartItem_create i p q u sn"
    have "line_ok (ct_currency c) ?x" "lineKey ?x \<notin> lineKey ` set (cart_lines h c) \<or> lineKey (h ! a) = lineKey ?x"
      using good a cur by (auto simp: Let_def)
    with a replace_line [OF ok, of a ?x "c\<lparr>ct_items := splice_at a (length h) (ct_items c)\<rparr>"] Some st cur
    show ?thesis by (simp add: refines_at_def cart_ops cart_plumbing with_line_cases)
  qed
next
  case False
  with ok st show ?thesis by (simp add: refines_at_def cart_ops cart_plumbing)
qed

lemma refines_merge:
  assumes ok: "cart_wf (h, c)" and st: "ct_status c = CaActive" and good: "call_ok (h, c) (CtMerge src e t)"
  shows "refines_at (h, c) (CtMerge src e t)"
proof (cases "ct_currency src = ct_currency c")
  case True
  obtain h' items' where m: "merge_lines (ct_items src) h (ct_items c) = (h', items')" by fastforce
  have src: "cart_wf (h, src)" using good by simp
  have c': "ct_items d = items' \<Longrightarrow> ct_currency d = ct_currency c \<Longrightarrow>
      cart_wf (h', d) \<and> basket (h', d) = (\<lambda>k. basket (h, c) k + basket (h, src) k)" for d
    using merge_line [OF ok src True m] by blast
  show ?thesis using True st m
    by (simp add: refines_at_def cart_ops cart_plumbing c' addDomainEvent_def)
next
  case False
  with ok st show ?thesis by (simp add: refines_at_def cart_ops cart_plumbing)
qed

lemma refines_clear:
  assumes ok: "cart_wf (h, c)" and st: "ct_status c = CaActive"
  shows "refines_at (h, c) CtClear"
  using ok st by (auto simp: refines_at_def cart_ops cart_plumbing cart_wf_def basket_pair)

lemma cart_refines_step:
  assumes ok: "cart_wf (h, c)" and good: "call_ok (h, c) call"
  shows "refines_at (h, c) call"
proof (cases "leaves_lines call")
  case True
  obtain r h' c' where s: "cart_step call (h, c) = (r, (h', c'))" by (metis surj_pair)
  have "cart_meaning (h, c) call = BNothing" using True by (cases call) simp_all
  with leaves_lines_step [OF True s] ok cart_wf_same [of c' c h] basket_same [of c' c h] s
  show ?thesis by (simp add: refines_at_def)
next
  case lines: False
  show ?thesis
  proof (cases "ct_status c = CaActive")
    case True
    then show ?thesis
      using lines ok good refines_add refines_remove refines_change refines_replace refines_merge refines_clear
      by (cases call) simp_all
  next
    case False
    with refused_step [OF False lines, of h] ok show ?thesis
      by (simp add: refines_at_def)
  qed
qed

interpretation cart_basket: refinement cart_wf call_ok cart_step basket cart_meaning perform
proof unfold_locales
  fix s :: cart_state and call
  assume "cart_wf s" "call_ok s call"
  then show "cart_wf (snd (cart_step call s))" "basket (snd (cart_step call s)) = perform (cart_meaning s call) (basket s)"
    using cart_refines_step [of "fst s" "snd s" call] by (simp_all add: refines_at_def)
qed

text \<open>
  C15: A valid cart refines the abstract basket of units per line key under any admissible calls, that is with
  quantities of at least one, prices not negative, valid carts merged in, and no replacement by a variant that another
  line of the cart holds. Whatever such calls reach it (adding, removing,
  changing, replacing, clearing, merging another cart in, and every change of status; accepted or refused),
  the units under each key are those of the abstract operations the calls amount to, performed in order.
  Each key keeps one line, with a quantity of at least one and a price in the currency of the cart.
\<close>

theorem cart_refines_basket:
  assumes "cart_wf s" and "admissible call_ok cart_step s calls"
  shows "basket (runs cart_step calls s) = fold perform (meanings cart_step cart_meaning calls s) (basket s) \<and>
    (case runs cart_step calls s of (h, c) \<Rightarrow>
       distinct (map lineKey (cart_lines h c)) \<and> (\<forall>i\<in>set (cart_lines h c). line_ok (ct_currency c) i))"
proof -
  obtain h c where r: "runs cart_step calls s = (h, c)" by fastforce
  have "cart_wf (h, c)" using cart_basket.guarded_runs [OF assms] by (simp add: r)
  then have "distinct (map lineKey (cart_lines h c))" "\<forall>i\<in>set (cart_lines h c). line_ok (ct_currency c) i"
    by (auto simp: cart_wf_def cart_lines_def o_def)
  with cart_basket.runs_refine [OF assms] r show ?thesis by simp
qed

subsection \<open>Status, checkout and totals\<close>

text \<open>Where the guards of the methods let a status go.\<close>

fun cart_moves :: "cart_status \<Rightarrow> cart_status list" where
  "cart_moves CaActive = [CaLocked, CaSaved, CaExpired, CaCheckedOut, CaAbandoned]"
| "cart_moves CaLocked = [CaActive, CaExpired]"
| "cart_moves CaSaved = [CaActive, CaExpired]"
| "cart_moves _ = []"

lemma cart_step_status:
  "cart_step call (h, c) = (r, (h', c')) \<Longrightarrow>
     ct_status c' = ct_status c \<or> ct_status c' \<in> set (cart_moves (ct_status c))"
  by (cases call; cases "ct_status c")
    (auto simp: cart_ops cart_plumbing addDomainEvent_def with_line_def split: sum.splits if_splits option.splits prod.splits)

interpretation cart_life: lifecycle "\<lambda>(h, c). ct_status c" cart_moves cart_step
proof unfold_locales
  fix s :: cart_state and call
  obtain h c where s: "s = (h, c)" by fastforce
  obtain r h' c' where "cart_step call (h, c) = (r, (h', c'))" by (metis surj_pair)
  with cart_step_status [OF this]
  show "(case s of (h, c) \<Rightarrow> ct_status c, case snd (cart_step call s) of (h, c) \<Rightarrow> ct_status c) \<in> (edges cart_moves)\<^sup>*"
    by (auto simp: s intro: r_into_rtrancl)
qed

definition line_amount :: "cart_item \<Rightarrow> int" where
  "line_amount i = amountMinor (ci_unitPrice i) * ci_quantity i"

lemma cart_sum_ok:
  "\<forall>i\<in>set is. line_ok (currency acc) i \<Longrightarrow>
   cart_sum acc is = Inr \<lparr>amountMinor = amountMinor acc + sum_list (map line_amount is), currency = currency acc\<rparr>"
proof (induction "is" arbitrary: acc)
  case (Cons i "is")
  then have "cart_lineTotal i = Inr \<lparr>amountMinor = line_amount i, currency = currency acc\<rparr>"
    by (auto simp: cart_lineTotal_def Money_times_jint line_ok_def line_amount_def)
  with Cons.IH [of "\<lparr>amountMinor = amountMinor acc + line_amount i, currency = currency acc\<rparr>"] Cons.prems
  show ?case by simp
qed simp

lemma cart_total_ok:
  assumes "cart_wf (h, c)"
  shows "cart_totalAmount h c =
    Inr \<lparr>amountMinor = sum_list (map line_amount (cart_lines h c)), currency = ct_currency c\<rparr>"
proof -
  have "\<forall>i\<in>set (cart_lines h c). line_ok (ct_currency c) i" using assms by (auto simp: cart_wf_def cart_lines_def)
  with cart_sum_ok [of "cart_lines h c" "\<lparr>amountMinor = 0, currency = ct_currency c\<rparr>"] assms
  show ?thesis by (simp add: cart_totalAmount_def Money_zero_def cart_wf_def)
qed

text \<open>A cart at the end of its life keeps its lines, whatever is called on it.\<close>

lemma ended_cart_lines:
  "cart_moves (ct_status c) = [] \<Longrightarrow>
     (case runs cart_step calls (h, c) of (h', c') \<Rightarrow> h' = h \<and> ct_items c' = ct_items c \<and> ct_currency c' = ct_currency c)"
proof (induction calls arbitrary: c)
  case (Cons call calls)
  obtain r h' c' where s: "cart_step call (h, c) = (r, (h', c'))" by (metis surj_pair)
  have same: "h' = h" "ct_items c' = ct_items c" "ct_currency c' = ct_currency c"
    using leaves_lines_step [OF _ s] refused_step [of c call h] Cons.prems s
    by (cases "leaves_lines call"; cases "ct_status c"; simp)+
  have "cart_moves (ct_status c') = []" using cart_step_status [OF s] Cons.prems by (cases "ct_status c") auto
  from Cons.IH [OF this] same s show ?case by (auto split: prod.splits)
qed simp

text \<open>
  Checking out a well-formed active cart with at least one line always returns; the event it raises
  carries the sum over the lines of price times quantity and their number; and from then on no sequence of calls changes the
  status, the lines or the total.
\<close>

lemma checkout_total_final:
  assumes "cart_wf (h, c)" "ct_status c = CaActive" "ct_items c \<noteq> []"
  shows "\<exists>c'. cart_checkOut e t (h, c) = (Inr (), (h, c')) \<and>
    agg_events c' = agg_events c @ [\<lparr>ev_eventId = e, ev_aggregateId = agg_id c, ev_occurredAt = t,
      ev_data = CartCheckedOut (customer_or_blank c) (ct_currency c)
        (sum_list (map line_amount (cart_lines h c))) (int (length (cart_lines h c)))\<rparr>] \<and>
    (\<forall>calls. case runs cart_step calls (h, c') of (h2, c2) \<Rightarrow>
       ct_status c2 = CaCheckedOut \<and> cart_lines h2 c2 = cart_lines h c \<and>
       cart_totalAmount h2 c2 =
         Inr \<lparr>amountMinor = sum_list (map line_amount (cart_lines h c)), currency = ct_currency c\<rparr>)"
proof -
  let ?sum = "sum_list (map line_amount (cart_lines h c))"
  let ?d = "c\<lparr>ct_status := CaCheckedOut\<rparr>"
  let ?c = "addDomainEvent e t (CartCheckedOut (customer_or_blank c) (ct_currency c) ?sum (int (length (ct_items c)))) ?d"
  have cart: "cart_totalAmount h d = cart_totalAmount h c" if "ct_items d = ct_items c" "ct_currency d = ct_currency c" for d
    using that by (simp add: cart_totalAmount_def cart_lines_def)
  have co: "cart_checkOut e t (h, c) = (Inr (), (h, ?c))"
    using assms cart [of ?d] cart_total_ok [OF assms(1)]
    by (simp add: cart_checkOut_def cart_plumbing customer_or_blank_def)
  have st: "ct_status ?c = CaCheckedOut" "ct_items ?c = ct_items c" "ct_currency ?c = ct_currency c"
    by (simp_all add: addDomainEvent_def)
  have fin: "case runs cart_step calls (h, ?c) of (h2, c2) \<Rightarrow>
       ct_status c2 = CaCheckedOut \<and> cart_lines h2 c2 = cart_lines h c \<and>
       cart_totalAmount h2 c2 = Inr \<lparr>amountMinor = ?sum, currency = ct_currency c\<rparr>" for calls
  proof -
    obtain h2 c2 where r: "runs cart_step calls (h, ?c) = (h2, c2)" by fastforce
    have l: "h2 = h" "ct_items c2 = ct_items c" "ct_currency c2 = ct_currency c"
      using ended_cart_lines [where c = ?c and calls = calls and h = h] r st by auto
    have "ct_status c2 = CaCheckedOut" using cart_life.runs_terminal [of "(h, ?c)" calls] r st by simp
    with l cart [of c2] cart_total_ok [OF assms(1)] r show ?thesis by (simp add: cart_lines_def)
  qed
  show ?thesis using co fin by (intro exI [of _ ?c]) (simp add: cart_lines_def)
qed

subsection \<open>Examples\<close>

definition in_usd :: "int \<Rightarrow> money" where
  "in_usd n = \<lparr>amountMinor = n, currency = ''USD''\<rparr>"

definition plain :: item_snapshots where
  "plain = \<lparr>sn_inventoryAvailable = None, sn_metadata = None, sn_merchandise = None\<rparr>"

definition variant :: "string \<Rightarrow> item_snapshots" where
  "variant v = \<lparr>sn_inventoryAvailable = None, sn_metadata = None,
     sn_merchandise = Some \<lparr>lm_variantRef = v, lm_sku = v, lm_title = v, lm_variantTitle = None\<rparr>\<rparr>"

definition new_cart :: "string \<Rightarrow> cart" where
  "new_cart i = projr (Cart_create i None ''s1'' ''USD'')"

definition example_cart_calls :: "cart_call list" where
  "example_cart_calls = [CtAdd ''i1'' ''p1'' 2 (in_usd 500) (variant ''v1''), CtAdd ''i2'' ''p1'' 1 (in_usd 500) (variant ''v2''),
     CtAdd ''i3'' ''p1'' 3 (in_usd 500) (variant ''v1''), CtChange ''v2'' 4, CtRemove ''p1'', CtLock ''e1'' 5, CtChange ''v2'' 9,
     CtUnlock, CtReplace ''i4'' ''v2'' ''p2'' 1 (in_usd 700) plain]"

lemma cart_refines_basket_witness:
  "basket (runs cart_step example_cart_calls ([], new_cart ''c1'')) ''v1'' = 5 \<and>
   basket (runs cart_step example_cart_calls ([], new_cart ''c1'')) ''v2'' = 0 \<and>
   basket (runs cart_step example_cart_calls ([], new_cart ''c1'')) ''p2'' = 1"
proof -
  let ?s = "([], new_cart ''c1'') :: cart_state"
  have a: "cart_wf ?s" "admissible call_ok cart_step ?s example_cart_calls" by code_simp+
  have "map (fold perform (meanings cart_step cart_meaning example_cart_calls ?s) (basket ?s)) [''v1'', ''v2'', ''p2''] = [5, 0, 1]"
    by code_simp
  with cart_refines_basket [OF a] show ?thesis by simp
qed

lemma checkout_total_final_witness:
  "\<exists>c'. cart_checkOut ''e9'' 9 (runs cart_step example_cart_calls ([], new_cart ''c1'')) =
     (Inr (), (fst (runs cart_step example_cart_calls ([], new_cart ''c1'')), c'))"
proof -
  let ?s = "runs cart_step example_cart_calls ([], new_cart ''c1'')"
  have a: "cart_wf (fst ?s, snd ?s)" "ct_status (snd ?s) = CaActive" "ct_items (snd ?s) \<noteq> []" by code_simp+
  from checkout_total_final [OF a, of "''e9''" 9] show ?thesis by auto
qed

text \<open>
  A replacement may bring in a variant the cart already holds: two lines then share a key, and only the
  first of them can be reached.
\<close>

lemma replace_may_repeat_key:
  "(let (h, c) = runs cart_step [CtAdd ''i1'' ''p1'' 2 (in_usd 500) (variant ''v1''), CtAdd ''i2'' ''p1'' 1 (in_usd 500) (variant ''v2''),
       CtReplace ''i3'' ''v2'' ''p1'' 1 (in_usd 500) (variant ''v1'')] ([], new_cart ''c1'')
    in map lineKey (cart_lines h c)) = [''v1'', ''v1'']"
  by code_simp

text \<open>
  After a merge the two carts hold the same line objects: a quantity changed in the customer's cart
  changes in the guest cart too.
\<close>

lemma merge_shares_lines:
  "(let (h, guest) = runs cart_step [CtAdd ''i1'' ''p1'' 2 (in_usd 500) plain] ([], new_cart ''guest'');
        (h', c) = runs cart_step [CtMerge guest ''e1'' 1, CtChange ''p1'' 7] (h, new_cart ''c1'')
    in (basket (h, guest) ''p1'', basket (h', guest) ''p1'')) = (2, 7)"
  by code_simp

end
