(* ===== verification/CartService.thy ===== *)
theory CartService
  imports Carts AggregateService
begin

section \<open>Cart use cases over the in-memory repository\<close>

text \<open>
  services/cart/src/application and the in-memory repository. Carts share their line objects once they
  have been merged, so the service state carries the heap of lines beside the repository and the outbox.
  Methods run on the live cart inside a \<^verbatim>\<open>try\<close>; computing the total of the answer comes after the save
  and is outside of it.
\<close>

record 'b cart_service = "(cart, 'b) agg_service" +
  cs_heap :: cart_heap

type_synonym ('b, 'a) cart_use_case = "('b cart_service, 'a) use_case"

definition CartEventTranslator :: "cart_event domain_event \<Rightarrow> cart_event descriptor option" where
  "CartEventTranslator event =
     (let desc = (\<lambda>ty. Some \<lparr>d_type = ty, d_eventVersion = 1, d_aggregateType = ''cart'', d_payload = ev_data event\<rparr>)
      in case ev_data event of
           CartCheckedOut r cu n k \<Rightarrow> desc ''cart.cart.checked_out''
         | CartAbandoned r k \<Rightarrow> desc ''cart.cart.abandoned''
         | CartMerged s r k \<Rightarrow> desc ''cart.cart.merged''
         | CartLocked r \<Rightarrow> desc ''cart.cart.locked''
         | CartSaved r k \<Rightarrow> desc ''cart.cart.saved''
         | CartExpired r st \<Rightarrow> desc ''cart.cart.expired'')"

subsection \<open>Queries (in-memory-cart-repository.ts)\<close>

definition cart_findBySessionRef :: "string \<Rightarrow> string \<Rightarrow> 'b cart_service \<Rightarrow> cart option" where
  "cart_findBySessionRef sessionRef tenant s =
     fold (\<lambda>c match. if ct_sessionRef c = sessionRef \<and> ct_status c = CaActive then Some c else match)
       (rows_of tenant (ag_rows s)) None"

definition cart_list ::
  "(string \<Rightarrow> string \<Rightarrow> int) \<Rightarrow> int option \<Rightarrow> string option \<Rightarrow> cart_status option \<Rightarrow> string \<Rightarrow> 'b cart_service \<Rightarrow>
     cart list \<times> page_info" where
  "cart_list localeCompare first after status tenant s =
     page_past (\<lambda>c k. str_less k (agg_id c)) first after
       (sort_cmp (\<lambda>a b. localeCompare (agg_id a) (agg_id b))
          (filter (\<lambda>c. status = None \<or> status = Some (ct_status c)) (rows_of tenant (ag_rows s))))"

subsection \<open>The shape of the commands\<close>

definition touch_cart :: "string \<Rightarrow> cart_state \<Rightarrow> 'b cart_service \<Rightarrow> 'b cart_service" where
  "touch_cart tenant hc s = touch_agg tenant (snd hc) (s\<lparr>cs_heap := fst hc\<rparr>)"

definition as_thrown :: "cart_action \<Rightarrow> (thrown, cart_state, unit) action" where
  "as_thrown act hc = (case act hc of (r, hc') \<Rightarrow> (mapError ThrownDomain r, hc'))"

definition cart_call_save ::
  "(cart_event, 'b) agg_env \<Rightarrow> timestamp \<Rightarrow> string \<Rightarrow> (thrown, cart_state, unit) action \<Rightarrow>
     (cart_heap \<Rightarrow> cart \<Rightarrow> (domain_error, 'a) result) \<Rightarrow> cart \<Rightarrow> ('b, 'a) cart_use_case" where
  "cart_call_save env now tenant act out c s =
     (case act (cs_heap s, c) of
        (Inl (ThrownDomain e), hc) \<Rightarrow> (Inr (Inl e), touch_cart tenant hc s)
      | (Inl other, hc) \<Rightarrow> (Inl other, touch_cart tenant hc s)
      | (Inr _, (h, c')) \<Rightarrow>
          then_do (save_agg env now tenant c') (or_reject (out h c') return_ok) (touch_cart tenant (h, c') s))"

record cart_total_output =
  cto_cartId :: string
  cto_totalAmountMinor :: int

definition cart_total_out :: "cart_heap \<Rightarrow> cart \<Rightarrow> (domain_error, cart_total_output) result" where
  "cart_total_out h c = map_ok (\<lambda>m. \<lparr>cto_cartId = agg_id c, cto_totalAmountMinor = amountMinor m\<rparr>) (cart_totalAmount h c)"

definition cart_not_found :: domain_error where
  "cart_not_found = NotFoundError ''Cart not found''"

subsection \<open>Use cases\<close>

definition CreateCart ::
  "(cart_event, 'b) agg_env \<Rightarrow> string \<Rightarrow> timestamp \<Rightarrow> string \<Rightarrow> string option \<Rightarrow> string \<Rightarrow> string \<Rightarrow>
     ('b, string) cart_use_case" where
  "CreateCart env generated now tenant customerRef sessionRef cur =
     or_return (againstEmpty sessionRef ''sessionRef'') (\<lambda>_.
     or_return (case customerRef of None \<Rightarrow> Inr [] | Some r \<Rightarrow> againstEmpty r ''customerRef'') (\<lambda>_.
     or_return (Money_create (jint 0) cur) (\<lambda>_.
     or_reject (bind_result (UniqueEntityId_from generated) (\<lambda>cid. Cart_create cid customerRef sessionRef cur)) (\<lambda>c.
       save_new env now tenant agg_id c))))"

record item_input =
  ii_quantity :: js_number
  ii_unitPriceAmountMinor :: js_number
  ii_currency :: string
  ii_snapshots :: item_snapshots

definition new_item_id :: "string \<Rightarrow> (string \<Rightarrow> cart_action) \<Rightarrow> (thrown, cart_state, unit) action" where
  "new_item_id generated f = as_thrown (bind_action (from_result (\<lambda>_. UniqueEntityId_from generated)) f)"

definition AddItem ::
  "(cart_event, 'b) agg_env \<Rightarrow> string \<Rightarrow> timestamp \<Rightarrow> string \<Rightarrow> string \<Rightarrow> string \<Rightarrow> item_input \<Rightarrow>
     ('b, cart_total_output) cart_use_case" where
  "AddItem env generated now tenant cartId productId input =
     or_return (ProductRef_create productId) (\<lambda>productRef.
     or_return (CartQuantity_create (ii_quantity input)) (\<lambda>quantity.
     or_return (Money_create (ii_unitPriceAmountMinor input) (ii_currency input)) (\<lambda>unitPrice.
     lookup cart_not_found (find_agg tenant cartId) (\<lambda>c.
       cart_call_save env now tenant
         (new_item_id generated (\<lambda>itemId. cart_addItem itemId productRef quantity unitPrice (ii_snapshots input)))
         cart_total_out c))))"

definition key_or :: "string option \<Rightarrow> string \<Rightarrow> string" where
  "key_or variantId productId = (case variantId of Some v \<Rightarrow> v | None \<Rightarrow> productId)"

definition RemoveItem ::
  "(cart_event, 'b) agg_env \<Rightarrow> timestamp \<Rightarrow> string \<Rightarrow> string \<Rightarrow> string \<Rightarrow> string option \<Rightarrow>
     ('b, cart_total_output) cart_use_case" where
  "RemoveItem env now tenant cartId productId variantId =
     or_return (ProductRef_create productId) (\<lambda>productRef.
     lookup cart_not_found (find_agg tenant cartId) (\<lambda>c.
       cart_call_save env now tenant (as_thrown (cart_removeItem (key_or variantId productRef))) cart_total_out c))"

definition ChangeItemQuantity ::
  "(cart_event, 'b) agg_env \<Rightarrow> timestamp \<Rightarrow> string \<Rightarrow> string \<Rightarrow> string \<Rightarrow> string option \<Rightarrow> js_number \<Rightarrow>
     ('b, cart_total_output) cart_use_case" where
  "ChangeItemQuantity env now tenant cartId productId variantId n =
     or_return (ProductRef_create productId) (\<lambda>productRef.
     or_return (CartQuantity_create n) (\<lambda>quantity.
     lookup cart_not_found (find_agg tenant cartId) (\<lambda>c.
       cart_call_save env now tenant
         (as_thrown (cart_changeItemQuantity (key_or variantId productRef) quantity)) cart_total_out c)))"

definition ReplaceVariant ::
  "(cart_event, 'b) agg_env \<Rightarrow> string \<Rightarrow> timestamp \<Rightarrow> string \<Rightarrow> string \<Rightarrow> string \<Rightarrow> string option \<Rightarrow> string \<Rightarrow>
     item_input \<Rightarrow> ('b, cart_total_output) cart_use_case" where
  "ReplaceVariant env generated now tenant cartId oldProductId oldVariantId newProductId input =
     or_return (ProductRef_create newProductId) (\<lambda>newProductRef.
     or_return (CartQuantity_create (ii_quantity input)) (\<lambda>quantity.
     or_return (Money_create (ii_unitPriceAmountMinor input) (ii_currency input)) (\<lambda>unitPrice.
     lookup cart_not_found (find_agg tenant cartId) (\<lambda>c.
       cart_call_save env now tenant
         (new_item_id generated (\<lambda>itemId. cart_replaceItemVariant itemId (key_or oldVariantId oldProductId)
            newProductRef quantity unitPrice (ii_snapshots input)))
         cart_total_out c))))"

record assign_output =
  ao_cartId :: string
  ao_customerRef :: string
  ao_assigned :: bool

definition AssignCartCustomer ::
  "(cart_event, 'b) agg_env \<Rightarrow> timestamp \<Rightarrow> string \<Rightarrow> string \<Rightarrow> string \<Rightarrow> ('b, assign_output) cart_use_case" where
  "AssignCartCustomer env now tenant cartId customerRef =
     or_return (againstEmpty customerRef ''customerRef'') (\<lambda>_.
     lookup cart_not_found (find_agg tenant cartId) (\<lambda>c.
       if ct_customerRef c = Some customerRef
       then return_ok \<lparr>ao_cartId = agg_id c, ao_customerRef = customerRef, ao_assigned = False\<rparr>
       else cart_call_save env now tenant (as_thrown (cart_assignCustomer customerRef))
              (\<lambda>h c'. Inr \<lparr>ao_cartId = agg_id c', ao_customerRef = customerRef, ao_assigned = True\<rparr>) c))"

definition MergeGuestCart ::
  "(cart_event, 'b) agg_env \<Rightarrow> string \<Rightarrow> timestamp \<Rightarrow> string \<Rightarrow> string \<Rightarrow> string \<Rightarrow>
     ('b, cart_total_output) cart_use_case" where
  "MergeGuestCart env generated now tenant targetCartId sourceCartId =
     lookup (NotFoundError ''Target cart not found'') (find_agg tenant targetCartId) (\<lambda>target.
     lookup (NotFoundError ''Source cart not found'') (find_agg tenant sourceCartId) (\<lambda>source.
       cart_call_save env now tenant (as_thrown (cart_merge source generated now)) cart_total_out target))"

definition CheckOutCart ::
  "(cart_event, 'b) agg_env \<Rightarrow> string \<Rightarrow> timestamp \<Rightarrow> string \<Rightarrow> string \<Rightarrow> ('b, cart_total_output) cart_use_case" where
  "CheckOutCart env generated now tenant cartId =
     lookup cart_not_found (find_agg tenant cartId) (\<lambda>c.
       cart_call_save env now tenant (as_thrown (cart_checkOut generated now)) cart_total_out c)"

definition AbandonCart ::
  "(cart_event, 'b) agg_env \<Rightarrow> string \<Rightarrow> timestamp \<Rightarrow> string \<Rightarrow> string \<Rightarrow> ('b, string) cart_use_case" where
  "AbandonCart env generated now tenant cartId =
     lookup cart_not_found (find_agg tenant cartId) (\<lambda>c.
       cart_call_save env now tenant (as_thrown (cart_abandon generated now)) (\<lambda>h c'. Inr (agg_id c')) c)"

subsection \<open>Lifecycle commands (cart-lifecycle.use-cases.ts)\<close>

text \<open>The id generator and the clock are optional there: without them three of the commands throw.\<close>

type_synonym command_deps = "(string \<times> timestamp) option"

record cart_status_output =
  cso_cartId :: string
  cso_status :: cart_status

definition CartLifecycleCommand ::
  "(thrown, cart_state, unit) action \<Rightarrow> (cart_event, 'b) agg_env \<Rightarrow> timestamp \<Rightarrow> string \<Rightarrow> string \<Rightarrow>
     ('b, cart_status_output) cart_use_case" where
  "CartLifecycleCommand mutate env now tenant cartId =
     lookup cart_not_found (find_agg tenant cartId) (\<lambda>c.
       cart_call_save env now tenant mutate
         (\<lambda>h c'. Inr \<lparr>cso_cartId = agg_id c', cso_status = ct_status c'\<rparr>) c)"

definition with_deps :: "command_deps \<Rightarrow> (string \<Rightarrow> timestamp \<Rightarrow> cart_action) \<Rightarrow> (thrown, cart_state, unit) action" where
  "with_deps deps f = (case deps of None \<Rightarrow> throw ThrownOther | Some (generated, now) \<Rightarrow> as_thrown (f generated now))"

definition LockCart :: "command_deps \<Rightarrow> (cart_event, 'b) agg_env \<Rightarrow> timestamp \<Rightarrow> string \<Rightarrow> string \<Rightarrow>
    ('b, cart_status_output) cart_use_case" where
  "LockCart deps = CartLifecycleCommand (with_deps deps cart_lock)"

definition UnlockCart :: "(cart_event, 'b) agg_env \<Rightarrow> timestamp \<Rightarrow> string \<Rightarrow> string \<Rightarrow>
    ('b, cart_status_output) cart_use_case" where
  "UnlockCart = CartLifecycleCommand (as_thrown cart_unlock)"

definition SaveCartForLater :: "command_deps \<Rightarrow> (cart_event, 'b) agg_env \<Rightarrow> timestamp \<Rightarrow> string \<Rightarrow> string \<Rightarrow>
    ('b, cart_status_output) cart_use_case" where
  "SaveCartForLater deps = CartLifecycleCommand (with_deps deps cart_saveForLater)"

definition RestoreCart :: "(cart_event, 'b) agg_env \<Rightarrow> timestamp \<Rightarrow> string \<Rightarrow> string \<Rightarrow>
    ('b, cart_status_output) cart_use_case" where
  "RestoreCart = CartLifecycleCommand (as_thrown cart_restore)"

definition ExpireCart :: "command_deps \<Rightarrow> (cart_event, 'b) agg_env \<Rightarrow> timestamp \<Rightarrow> string \<Rightarrow> string \<Rightarrow>
    ('b, cart_status_output) cart_use_case" where
  "ExpireCart deps = CartLifecycleCommand (with_deps deps cart_expire)"

definition ClearCart :: "(cart_event, 'b) agg_env \<Rightarrow> timestamp \<Rightarrow> string \<Rightarrow> string \<Rightarrow>
    ('b, cart_status_output) cart_use_case" where
  "ClearCart = CartLifecycleCommand (as_thrown cart_clear)"

subsection \<open>Reads\<close>

definition GetCart :: "string \<Rightarrow> string \<Rightarrow> 'b cart_service \<Rightarrow> (domain_error, cart) result" where
  "GetCart tenant cartId s = (case find_agg tenant cartId s of None \<Rightarrow> Inl cart_not_found | Some c \<Rightarrow> Inr c)"

definition GetCurrentCart :: "string \<Rightarrow> string \<Rightarrow> 'b cart_service \<Rightarrow> (domain_error, cart option) result" where
  "GetCurrentCart tenant sessionRef s =
     bind_result (againstEmpty sessionRef ''sessionRef'') (\<lambda>_. Inr (cart_findBySessionRef sessionRef tenant s))"

definition ListCarts ::
  "(string \<Rightarrow> string \<Rightarrow> int) \<Rightarrow> int option \<Rightarrow> string option \<Rightarrow> cart_status option \<Rightarrow> string \<Rightarrow> 'b cart_service \<Rightarrow>
     (domain_error, cart list \<times> page_info) result" where
  "ListCarts localeCompare first after status tenant s = Inr (cart_list localeCompare first after status tenant s)"

subsection \<open>Requests\<close>

datatype cart_request =
    ReqCreateCart string timestamp string "string option" string string
  | ReqAddItem string timestamp string string string item_input
  | ReqRemoveItem timestamp string string string "string option"
  | ReqChangeQuantity timestamp string string string "string option" js_number
  | ReqReplaceVariant string timestamp string string string "string option" string item_input
  | ReqAssignCustomer timestamp string string string
  | ReqMerge string timestamp string string string
  | ReqCheckOut string timestamp string string
  | ReqAbandon string timestamp string string
  | ReqLock command_deps timestamp string string
  | ReqUnlock timestamp string string
  | ReqSaveForLater command_deps timestamp string string
  | ReqRestore timestamp string string
  | ReqExpire command_deps timestamp string string
  | ReqClear timestamp string string

fun cart_handle :: "(cart_event, 'b) agg_env \<Rightarrow> cart_request \<Rightarrow> ('b, unit) cart_use_case" where
  "cart_handle env (ReqCreateCart g now t r se cu) = drop_answer (CreateCart env g now t r se cu)"
| "cart_handle env (ReqAddItem g now t c p i) = drop_answer (AddItem env g now t c p i)"
| "cart_handle env (ReqRemoveItem now t c p v) = drop_answer (RemoveItem env now t c p v)"
| "cart_handle env (ReqChangeQuantity now t c p v n) = drop_answer (ChangeItemQuantity env now t c p v n)"
| "cart_handle env (ReqReplaceVariant g now t c p v p' i) = drop_answer (ReplaceVariant env g now t c p v p' i)"
| "cart_handle env (ReqAssignCustomer now t c r) = drop_answer (AssignCartCustomer env now t c r)"
| "cart_handle env (ReqMerge g now t c src) = drop_answer (MergeGuestCart env g now t c src)"
| "cart_handle env (ReqCheckOut g now t c) = drop_answer (CheckOutCart env g now t c)"
| "cart_handle env (ReqAbandon g now t c) = drop_answer (AbandonCart env g now t c)"
| "cart_handle env (ReqLock d now t c) = drop_answer (LockCart d env now t c)"
| "cart_handle env (ReqUnlock now t c) = drop_answer (UnlockCart env now t c)"
| "cart_handle env (ReqSaveForLater d now t c) = drop_answer (SaveCartForLater d env now t c)"
| "cart_handle env (ReqRestore now t c) = drop_answer (RestoreCart env now t c)"
| "cart_handle env (ReqExpire d now t c) = drop_answer (ExpireCart d env now t c)"
| "cart_handle env (ReqClear now t c) = drop_answer (ClearCart env now t c)"

definition empty_carts :: "'b cart_service" where
  "empty_carts = \<lparr>ag_rows = [], ag_outbox = [], cs_heap = []\<rparr>"

subsection \<open>Lines stay valid in every stored cart\<close>

definition cart_lines_ok :: "cart_heap \<Rightarrow> cart \<Rightarrow> bool" where
  "cart_lines_ok h c = (isValidCurrencyCode (ct_currency c) \<and>
     (\<forall>a\<in>set (ct_items c). a < length h \<and> line_ok (ct_currency c) (h ! a)))"

text \<open>What a step may do to the lines of other carts: change quantities, never to less than one.\<close>

definition heap_grows :: "cart_heap \<Rightarrow> cart_heap \<Rightarrow> bool" where
  "heap_grows h h' = (length h \<le> length h' \<and>
     (\<forall>a<length h. ci_unitPrice (h' ! a) = ci_unitPrice (h ! a) \<and>
        (1 \<le> ci_quantity (h ! a) \<longrightarrow> 1 \<le> ci_quantity (h' ! a))))"

lemma heap_grows_refl [simp]: "heap_grows h h"
  by (simp add: heap_grows_def)

lemma heap_grows_alloc [simp]: "heap_grows h (h @ xs)"
  by (simp add: heap_grows_def nth_append)

lemma heap_grows_trans: "heap_grows h h' \<Longrightarrow> heap_grows h' k \<Longrightarrow> heap_grows h k"
  by (auto simp: heap_grows_def)

lemma heap_grows_edit:
  "ci_unitPrice x = ci_unitPrice (h ! a) \<Longrightarrow> 1 \<le> ci_quantity x \<Longrightarrow> heap_grows h (h[a := x])"
  unfolding heap_grows_def
proof (intro conjI allI impI)
  fix b assume "ci_unitPrice x = ci_unitPrice (h ! a)" "b < length h"
  then show "ci_unitPrice (h[a := x] ! b) = ci_unitPrice (h ! b)" by (cases "a = b") simp_all
next
  fix b assume "1 \<le> ci_quantity x" "b < length h" "1 \<le> ci_quantity (h ! b)"
  then show "1 \<le> ci_quantity (h[a := x] ! b)" by (cases "a = b") simp_all
qed simp

lemma addDomainEvent_cart [simp]:
  "ct_items (addDomainEvent e t d c) = ct_items c"
  "ct_currency (addDomainEvent e t d c) = ct_currency c"
  "ct_customerRef (addDomainEvent e t d c) = ct_customerRef c"
  by (simp_all add: addDomainEvent_def)

lemma cart_lines_ok_grows: "cart_lines_ok h c \<Longrightarrow> heap_grows h h' \<Longrightarrow> cart_lines_ok h' c"
  by (fastforce simp: cart_lines_ok_def heap_grows_def line_ok_def)

lemma cart_lines_ok_events [simp]: "cart_lines_ok h (c\<lparr>agg_events := es\<rparr>) = cart_lines_ok h c"
  by (simp add: cart_lines_ok_def)

lemma line_edit_prices [simp]:
  "ci_unitPrice (increaseBy q i) = ci_unitPrice i"
  "ci_unitPrice (changeQuantityTo q i) = ci_unitPrice i"
  by (simp_all add: increaseBy_def changeQuantityTo_def)

lemma merge_lines_grows:
  assumes "\<forall>a\<in>set as \<union> set items. a < length h \<and> 1 \<le> ci_quantity (h ! a)"
    and "merge_lines as h items = (h', items')"
  shows "heap_grows h h' \<and> set items' \<subseteq> set items \<union> set as"
  using assms
proof (induction as arbitrary: h items)
  case (Cons a as)
  show ?case
  proof (cases "line_with_key h items (lineKey (h ! a))")
    case None
    with Cons.IH [of "items @ [a]" h] Cons.prems show ?thesis by auto
  next
    case (Some b)
    then have b: "b \<in> set items" using line_with_key_Some by blast
    let ?x = "increaseBy (ci_quantity (h ! a)) (h ! b)"
    have q: "1 \<le> ci_quantity (h ! a)" "1 \<le> ci_quantity (h ! b)" "b < length h" using Cons.prems(1) b by auto
    have g: "heap_grows h (h[b := ?x])" using q by (intro heap_grows_edit) simp_all
    have "\<forall>e\<in>set as \<union> set items. e < length (h[b := ?x]) \<and> 1 \<le> ci_quantity (h[b := ?x] ! e)"
      using g Cons.prems(1) by (auto simp: heap_grows_def)
    with Cons.IH [of items "h[b := ?x]"] Cons.prems(2) Some g heap_grows_trans show ?thesis by auto
  qed
qed auto

text \<open>The arguments of a call, as the use cases validate them.\<close>

fun args_ok :: "cart_heap \<Rightarrow> cart_call \<Rightarrow> bool" where
  "args_ok h (CtAdd i p q u sn) = (1 \<le> q \<and> 0 \<le> amountMinor u)"
| "args_ok h (CtChange k q) = (1 \<le> q)"
| "args_ok h (CtReplace i key p q u sn) = (1 \<le> q \<and> 0 \<le> amountMinor u)"
| "args_ok h (CtMerge src e t) = cart_lines_ok h src"
| "args_ok h _ = True"

text \<open>What a method call does to the heap and its cart, whether it returns or throws.\<close>

definition sane_act :: "('e, cart_state, unit) action \<Rightarrow> cart_state \<Rightarrow> bool" where
  "sane_act act s = (case s of (h, c) \<Rightarrow> case act s of (r, (h', c')) \<Rightarrow>
     cart_lines_ok h c \<longrightarrow> heap_grows h h' \<and> cart_lines_ok h' c' \<and> agg_id c' = agg_id c)"

lemma findLine_in: "findLine h c key = Some a \<Longrightarrow> a \<in> set (ct_items c)"
  using findLine_resolve(1) by blast

lemma sane_step:
  assumes "args_ok h call"
  shows "sane_act (cart_step call) (h, c)"
proof (cases "leaves_lines call")
  case True
  obtain r h' c' where s: "cart_step call (h, c) = (r, (h', c'))" by (metis surj_pair)
  have "agg_id c' = agg_id c"
    using True s by (cases call) (auto simp: cart_ops cart_plumbing split: sum.splits if_splits)
  with leaves_lines_step [OF True s] s show ?thesis by (auto simp: sane_act_def cart_lines_ok_def)
next
  case lines: False
  show ?thesis
  proof (cases "ct_status c = CaActive")
    case False
    with refused_step [OF False lines, of h] show ?thesis
      by (cases "cart_step call (h, c)") (simp add: sane_act_def)
  next
    case act: True
    show ?thesis
    proof (cases call)
      case (CtAdd i p q u sn)
      show ?thesis
      proof (cases "line_with_key h (ct_items c) (key_of (sn_merchandise sn) p)")
        case None
        with CtAdd act assms show ?thesis
          by (auto simp: sane_act_def cart_ops cart_plumbing cart_lines_ok_def nth_append)
      next
        case (Some a)
        then have a: "a \<in> set (ct_items c)" using line_with_key_Some by blast
        have g: "cart_lines_ok h c \<Longrightarrow> heap_grows h (h[a := increaseBy q (h ! a)])"
          using a CtAdd assms by (intro heap_grows_edit) (auto simp: cart_lines_ok_def line_ok_def)
        with CtAdd act Some cart_lines_ok_grows [of h c] show ?thesis
          by (auto simp: sane_act_def cart_ops cart_plumbing)
      qed
    next
      case (CtRemove key)
      then show ?thesis using act
        by (auto simp: sane_act_def cart_ops cart_plumbing with_line_def cart_lines_ok_def
            split: option.splits dest: notin_set_remove1)
    next
      case (CtChange key q)
      have g: "heap_grows h (h[a := changeQuantityTo q (h ! a)])" for a
        using CtChange assms by (intro heap_grows_edit) simp_all
      with CtChange act cart_lines_ok_grows [of h c] show ?thesis
        by (auto simp: sane_act_def cart_ops cart_plumbing with_line_def split: option.splits)
    next
      case (CtReplace i key p q u sn)
      with act assms set_splice show ?thesis
        by (fastforce simp: sane_act_def cart_ops cart_plumbing with_line_def cart_lines_ok_def nth_append
            split: option.splits if_splits)
    next
      case CtClear
      then show ?thesis using act by (auto simp: sane_act_def cart_ops cart_plumbing cart_lines_ok_def)
    next
      case (CtMerge src e t)
      obtain h' items' where m: "merge_lines (ct_items src) h (ct_items c) = (h', items')" by fastforce
      have "heap_grows h h' \<and> set items' \<subseteq> set (ct_items c) \<union> set (ct_items src)" if "cart_lines_ok h c"
        by (rule merge_lines_grows [OF _ m]) (use that CtMerge assms in \<open>auto simp: cart_lines_ok_def line_ok_def\<close>)
      then have "cart_lines_ok h' (c\<lparr>ct_items := items'\<rparr>) \<and> heap_grows h h'"
        if "cart_lines_ok h c" "ct_currency src = ct_currency c"
        using that cart_lines_ok_grows [of h c h'] cart_lines_ok_grows [of h src h'] CtMerge assms
        by (auto simp: cart_lines_ok_def)
      with CtMerge act m show ?thesis
        by (auto simp: sane_act_def cart_ops cart_plumbing cart_lines_ok_def)
    qed (use lines in simp_all)
  qed
qed

subsection \<open>Preservation by the requests\<close>

definition carts_ok :: "'b cart_service \<Rightarrow> bool" where
  "carts_ok s = store_all (cart_lines_ok (cs_heap s)) (ag_rows s)"

lemma store_all_mono: "store_all P st \<Longrightarrow> (\<And>a. P a \<Longrightarrow> Q a) \<Longrightarrow> store_all Q st"
  by (fastforce simp: store_all_def)

lemma cs_heap_parts [simp]:
  "cs_heap (touch_cart t hc s) = fst hc"
  "cs_heap (snd (save_agg env now t c s)) = cs_heap s"
  "cs_heap (touch_agg t c s) = cs_heap s"
  by (simp_all add: touch_cart_def touch_agg_def save_agg_def split: prod.splits)

lemma carts_ok_touch:
  assumes "carts_ok s" "heap_grows (cs_heap s) h" "cart_lines_ok h c"
  shows "carts_ok (touch_cart t (h, c) s)"
  using assms store_all_mono [of "cart_lines_ok (cs_heap s)" "ag_rows s" "cart_lines_ok h"] cart_lines_ok_grows [of "cs_heap s" _ h]
  by (simp add: carts_ok_def touch_cart_def touch_row_def store_all_put)

lemma carts_ok_save: "carts_ok s \<Longrightarrow> cart_lines_ok (cs_heap s) c \<Longrightarrow> carts_ok (snd (save_agg env now t c s))"
  by (simp add: carts_ok_def store_all_put)

lemma snd_then_reject: "snd (then_do f (or_reject r return_ok) s) = snd (f s)"
  by (cases "f s"; cases r) (auto simp: then_do_apply or_reject_def split: sum.splits)

lemma keeps_cart_call:
  assumes "find_agg t i s = Some c" "sane_act act (cs_heap s, c)"
  shows "keeps carts_ok (cart_call_save env now t act out c) s"
  unfolding keeps_def
proof
  assume ok: "carts_ok s"
  then have "cart_lines_ok (cs_heap s) c"
    using assms(1) store_all_find unfolding carts_ok_def find_agg_def by blast
  moreover obtain r h' c' where a: "act (cs_heap s, c) = (r, (h', c'))" by (metis surj_pair)
  ultimately have g: "heap_grows (cs_heap s) h'" "cart_lines_ok h' c'"
    using assms(2) by (simp_all add: sane_act_def)
  have t: "carts_ok (touch_cart t (h', c') s)" using ok g by (rule carts_ok_touch)
  moreover have "carts_ok (snd (save_agg env now t c' (touch_cart t (h', c') s)))"
    using t g(2) by (intro carts_ok_save) simp_all
  ultimately show "carts_ok (snd (cart_call_save env now t act out c s))"
    by (cases r rule: sum.exhaust; cases "projl r")
      (simp_all add: cart_call_save_def a snd_then_reject)
qed

lemma sane_act_iff:
  "sane_act act s \<longleftrightarrow> (cart_lines_ok (fst s) (snd s) \<longrightarrow> heap_grows (fst s) (fst (snd (act s))) \<and>
     cart_lines_ok (fst (snd (act s))) (snd (snd (act s))) \<and> agg_id (snd (snd (act s))) = agg_id (snd s))"
  by (auto simp: sane_act_def split: prod.splits)

lemma snd_as_thrown [simp]: "snd (as_thrown act hc) = snd (act hc)"
  by (simp add: as_thrown_def split: prod.splits)

lemma snd_new_item:
  "snd (new_item_id g f hc) = (case UniqueEntityId_from g of Inl e \<Rightarrow> hc | Inr i \<Rightarrow> snd (f i hc))"
  by (simp add: new_item_id_def bind_action_apply split: sum.splits)

lemma snd_with_deps:
  "snd (with_deps d f hc) = (case d of None \<Rightarrow> hc | Some (g, now) \<Rightarrow> snd (f g now hc))"
  by (simp add: with_deps_def split: option.splits prod.splits)

lemma sane_as_thrown: "sane_act act hc \<Longrightarrow> sane_act (as_thrown act) hc"
  by (simp add: sane_act_iff)

lemma sane_new_item: "(\<And>i. sane_act (f i) hc) \<Longrightarrow> sane_act (new_item_id g f) hc"
  by (simp add: sane_act_iff snd_new_item split: sum.splits)

lemma sane_with_deps: "(\<And>g now. sane_act (f g now) hc) \<Longrightarrow> sane_act (with_deps d f) hc"
  by (simp add: sane_act_iff snd_with_deps split: option.splits prod.splits)

text \<open>Each method, by the call it is.\<close>

lemma sane_methods:
  "1 \<le> q \<Longrightarrow> 0 \<le> amountMinor u \<Longrightarrow> sane_act (cart_addItem i p q u sn) (h, c)"
  "sane_act (cart_removeItem k) (h, c)"
  "1 \<le> q \<Longrightarrow> sane_act (cart_changeItemQuantity k q) (h, c)"
  "1 \<le> q \<Longrightarrow> 0 \<le> amountMinor u \<Longrightarrow> sane_act (cart_replaceItemVariant i k p q u sn) (h, c)"
  "sane_act cart_clear (h, c)" "sane_act (cart_assignCustomer r) (h, c)"
  "cart_lines_ok h src \<Longrightarrow> sane_act (cart_merge src e t) (h, c)"
  "sane_act (cart_lock e t) (h, c)" "sane_act cart_unlock (h, c)" "sane_act (cart_saveForLater e t) (h, c)"
  "sane_act cart_restore (h, c)" "sane_act (cart_expire e t) (h, c)" "sane_act (cart_checkOut e t) (h, c)"
  "sane_act (cart_abandon e t) (h, c)"
  using sane_step [of h "CtAdd i p q u sn" c] sane_step [of h "CtRemove k" c] sane_step [of h "CtChange k q" c]
    sane_step [of h "CtReplace i k p q u sn" c] sane_step [of h CtClear c] sane_step [of h "CtAssign r" c]
    sane_step [of h "CtMerge src e t" c] sane_step [of h "CtLock e t" c] sane_step [of h CtUnlock c]
    sane_step [of h "CtSave e t" c] sane_step [of h CtRestore c] sane_step [of h "CtExpire e t" c]
    sane_step [of h "CtCheckOut e t" c] sane_step [of h "CtAbandon e t" c]
  by simp_all

lemma CartQuantity_create_ok: "CartQuantity_create v = Inr q \<Longrightarrow> 1 \<le> q"
  by (cases "isInteger v") (auto simp: CartQuantity_create_def isInteger_iff split: if_splits)

lemma Money_create_nonneg: "Money_create x c = Inr m \<Longrightarrow> 0 \<le> amountMinor m"
  by (auto simp: Money_create_Inr_iff)

lemma keeps_new_cart:
  assumes "bind_result (UniqueEntityId_from g) (\<lambda>cid. Cart_create cid r se cu) = Inr c"
  shows "keeps carts_ok (save_new env now t agg_id c) s"
  using assms
  by (auto simp: keeps_def carts_ok_def bind_result_Inr_iff Cart_create_def cart_lines_ok_def store_all_put split: if_splits)

lemmas cart_use_cases =
  CreateCart_def AddItem_def RemoveItem_def ChangeItemQuantity_def ReplaceVariant_def AssignCartCustomer_def
  MergeGuestCart_def CheckOutCart_def AbandonCart_def LockCart_def UnlockCart_def SaveCartForLater_def
  RestoreCart_def ExpireCart_def ClearCart_def CartLifecycleCommand_def

lemma keeps_assign:
  assumes "find_agg t i s = Some c"
  shows "keeps carts_ok (\<lambda>s. (if ct_customerRef c = Some r
       then return_ok \<lparr>ao_cartId = agg_id c, ao_customerRef = r, ao_assigned = False\<rparr>
       else cart_call_save env now t (as_thrown (cart_assignCustomer r))
              (\<lambda>h c'. Inr \<lparr>ao_cartId = agg_id c', ao_customerRef = r, ao_assigned = True\<rparr>) c) s) s"
  by (cases "ct_customerRef c = Some r")
    (auto simp: keeps_def intro!: keepsD [OF keeps_cart_call [OF assms sane_as_thrown [OF sane_methods(6)]]])

lemma found_lines_ok: "carts_ok s \<Longrightarrow> find_agg t i s = Some c \<Longrightarrow> cart_lines_ok (cs_heap s) c"
  unfolding carts_ok_def find_agg_def using store_all_find by blast

lemma keeps_carts: "keeps carts_ok (cart_handle env req) s"
  by (cases req)
    (auto simp: cart_use_cases
      intro!: keeps_intros keeps_cart_call keeps_assign [simplified] sane_as_thrown sane_new_item sane_with_deps sane_methods
        keeps_new_cart
      dest: CartQuantity_create_ok Money_create_nonneg intro: found_lines_ok)

interpretation cart_requests: invariant_object "carts_ok :: 'b cart_service \<Rightarrow> bool" "\<lambda>_. True" "cart_handle env"
  for env :: "(cart_event, 'b) agg_env"
  by unfold_locales (rule keepsD [OF keeps_carts])

lemma lines_total:
  assumes "cart_lines_ok h c"
  shows "cart_totalAmount h c =
      Inr \<lparr>amountMinor = sum_list (map line_amount (cart_lines h c)), currency = ct_currency c\<rparr>"
    and "0 \<le> sum_list (map line_amount (cart_lines h c))"
proof -
  have l: "\<forall>i\<in>set (cart_lines h c). line_ok (ct_currency c) i" using assms by (auto simp: cart_lines_ok_def cart_lines_def)
  with cart_sum_ok [of "cart_lines h c" "\<lparr>amountMinor = 0, currency = ct_currency c\<rparr>"] assms
  show "cart_totalAmount h c =
      Inr \<lparr>amountMinor = sum_list (map line_amount (cart_lines h c)), currency = ct_currency c\<rparr>"
    by (simp add: cart_totalAmount_def Money_zero_def cart_lines_ok_def)
  show "0 \<le> sum_list (map line_amount (cart_lines h c))"
    using l by (intro sum_list_nonneg) (auto simp: line_ok_def line_amount_def)
qed

text \<open>
  C16: After any requests from an empty store (merges that make carts share their line objects
  included), the total of every stored cart is defined, in the currency of the cart, and is the exact sum of
  price times quantity over its lines, each with a quantity of at least one; so the total that the item
  requests and the checkout answer never throws.
\<close>

theorem stored_totals_exact:
  fixes env :: "(cart_event, 'b) agg_env"
  assumes "find_agg tenant i (runs (cart_handle env) requests empty_carts) = Some c"
  shows "let h = cs_heap (runs (cart_handle env) requests empty_carts); n = sum_list (map line_amount (cart_lines h c)) in
    cart_totalAmount h c = Inr \<lparr>amountMinor = n, currency = ct_currency c\<rparr> \<and> 0 \<le> n \<and>
    isValidCurrencyCode (ct_currency c) \<and> list_all (line_ok (ct_currency c)) (cart_lines h c)"
proof -
  let ?s = "runs (cart_handle env) requests empty_carts"
  have "carts_ok ?s"
    by (rule cart_requests.runs_inv) (simp_all add: list_all_iff carts_ok_def empty_carts_def)
  from found_lines_ok [OF this assms] have l: "cart_lines_ok (cs_heap ?s) c" .
  with lines_total [OF l] show ?thesis by (auto simp: Let_def cart_lines_ok_def list_all_iff cart_lines_def)
qed

subsection \<open>A cart keeps its customer\<close>

definition owned_by :: "string \<Rightarrow> cart \<Rightarrow> bool" where
  "owned_by r c = (ct_customerRef c = Some r)"

interpretation owner: aggregate_fact "owned_by r" for r
  by unfold_locales (simp add: owned_by_def)

definition keeps_owner :: "('e, cart_state, unit) action \<Rightarrow> cart_state \<Rightarrow> bool" where
  "keeps_owner act s = (agg_id (snd (snd (act s))) = agg_id (snd s) \<and>
     (ct_customerRef (snd s) \<noteq> None \<longrightarrow> ct_customerRef (snd (snd (act s))) = ct_customerRef (snd s)))"

lemma owner_step: "keeps_owner (cart_step call) (h, c)"
  by (cases call)
    (auto simp: keeps_owner_def cart_ops cart_plumbing with_line_def split: option.splits sum.splits prod.splits)

lemma owner_lifts:
  "keeps_owner act hc \<Longrightarrow> keeps_owner (as_thrown act) hc"
  "(\<And>i. keeps_owner (f i) hc) \<Longrightarrow> keeps_owner (new_item_id g f) hc"
  "(\<And>g now. keeps_owner (k g now) hc) \<Longrightarrow> keeps_owner (with_deps d k) hc"
  by (simp_all add: keeps_owner_def snd_new_item snd_with_deps split: sum.splits option.splits prod.splits)

lemma owner_methods:
  "keeps_owner (cart_addItem i p q u sn) (h, c)" "keeps_owner (cart_removeItem k) (h, c)"
  "keeps_owner (cart_changeItemQuantity k q) (h, c)" "keeps_owner (cart_replaceItemVariant i k p q u sn) (h, c)"
  "keeps_owner cart_clear (h, c)" "keeps_owner (cart_assignCustomer r) (h, c)" "keeps_owner (cart_merge src e t) (h, c)"
  "keeps_owner (cart_lock e t) (h, c)" "keeps_owner cart_unlock (h, c)" "keeps_owner (cart_saveForLater e t) (h, c)"
  "keeps_owner cart_restore (h, c)" "keeps_owner (cart_expire e t) (h, c)" "keeps_owner (cart_checkOut e t) (h, c)"
  "keeps_owner (cart_abandon e t) (h, c)"
  using owner_step [of "CtAdd i p q u sn" h c] owner_step [of "CtRemove k" h c] owner_step [of "CtChange k q" h c]
    owner_step [of "CtReplace i k p q u sn" h c] owner_step [of CtClear h c] owner_step [of "CtAssign r" h c]
    owner_step [of "CtMerge src e t" h c] owner_step [of "CtLock e t" h c] owner_step [of CtUnlock h c]
    owner_step [of "CtSave e t" h c] owner_step [of CtRestore h c] owner_step [of "CtExpire e t" h c]
    owner_step [of "CtCheckOut e t" h c] owner_step [of "CtAbandon e t" h c]
  by simp_all

lemma held_heap [simp]: "owner.held r t i (s\<lparr>cs_heap := h\<rparr>) = owner.held r t i s"
  by (simp add: owner.held_def find_agg_def)

lemma keeps_owner_call:
  assumes "find_agg u j s = Some c" "keeps_owner act (cs_heap s, c)"
  shows "keeps (owner.held r t i) (cart_call_save env now u act out c) s"
  unfolding keeps_def
proof
  assume h: "owner.held r t i s"
  obtain x h' c' where a: "act (cs_heap s, c) = (x, (h', c'))" by (metis surj_pair)
  have j: "agg_id c = j" using h assms(1) unfolding owner.held_def find_agg_def by (blast dest: store_all_find)
  have k: "owned_by r c'" if "u = t" "agg_id c' = i"
  proof -
    have "agg_id c = i" using that(2) assms(2) a by (simp add: keeps_owner_def)
    then have "find_agg t i s = Some c" using assms(1) that(1) j by simp
    then have "owned_by r c" using h by (simp add: owner.held_def)
    then show ?thesis using assms(2) a by (simp add: keeps_owner_def owned_by_def)
  qed
  have t: "owner.held r t i (touch_cart u (h', c') s)"
    unfolding touch_cart_def by (rule owner.held_touch) (use h k in simp_all)
  moreover have "owner.held r t i (snd (save_agg env now u c' (touch_cart u (h', c') s)))"
    using t k by (rule owner.held_save)
  ultimately show "owner.held r t i (snd (cart_call_save env now u act out c s))"
    by (cases x rule: sum.exhaust; cases "projl x") (simp_all add: cart_call_save_def a snd_then_reject)
qed

fun fresh_cart :: "string \<Rightarrow> cart_request \<Rightarrow> bool" where
  "fresh_cart i (ReqCreateCart g now t r se cu) = (g \<noteq> i)"
| "fresh_cart i _ = True"

lemma new_cart_id: "bind_result (UniqueEntityId_from g) (\<lambda>cid. Cart_create cid r se cu) = Inr c \<Longrightarrow> agg_id c = g"
  by (auto simp: bind_result_Inr_iff Cart_create_def UniqueEntityId_from_Inr_iff split: if_splits)

lemma keeps_owner_new:
  assumes "bind_result (UniqueEntityId_from g) (\<lambda>cid. Cart_create cid r' se cu) = Inr c" "g \<noteq> i"
  shows "keeps (owner.held r t i) (save_new env now u agg_id c) s"
  using assms
  by (intro owner.keeps_held_new) (auto simp: bind_result_Inr_iff Cart_create_def UniqueEntityId_from_Inr_iff split: if_splits)

lemma keeps_owner_assign:
  assumes "find_agg u j s = Some c"
  shows "keeps (owner.held r t i) (\<lambda>s. (if ct_customerRef c = Some r'
       then return_ok \<lparr>ao_cartId = agg_id c, ao_customerRef = r', ao_assigned = False\<rparr>
       else cart_call_save env now u (as_thrown (cart_assignCustomer r'))
              (\<lambda>h c'. Inr \<lparr>ao_cartId = agg_id c', ao_customerRef = r', ao_assigned = True\<rparr>) c) s) s"
  by (cases "ct_customerRef c = Some r'")
    (auto simp: keeps_def intro!: keepsD [OF keeps_owner_call [OF assms owner_lifts(1) [OF owner_methods(6)]]])

lemma keeps_cart_owner: "fresh_cart i req \<Longrightarrow> keeps (owner.held r t i) (cart_handle env req) s"
  by (cases req)
    (auto simp: cart_use_cases
      intro!: keeps_intros keeps_owner_call keeps_owner_assign [simplified] owner_lifts owner_methods keeps_owner_new
      dest: new_cart_id)

interpretation owner_requests: invariant_object "owner.held r t i :: 'b cart_service \<Rightarrow> bool" "fresh_cart i" "cart_handle env"
  for env :: "(cart_event, 'b) agg_env" and r t i
  by unfold_locales (rule keepsD [OF keeps_cart_owner])

text \<open>
  C17: A cart is never handed from one customer to another: once \<open>AssignCartCustomer\<close> has answered, whatever
  the service handles later (no new cart under that id), the stored cart belongs to that customer; the same
  assignment again answers that nothing was assigned, and an assignment to any other customer is refused, both
  changing nothing.
\<close>

theorem cart_owner_fixed:
  fixes env :: "(cart_event, 'b) agg_env"
  assumes "AssignCartCustomer env now tenant cartId customer (runs (cart_handle env) earlier empty_carts) =
      (Inr (Inr out), s)"
    and "list_all (fresh_cart cartId) later"
  shows "let s' = runs (cart_handle env) later s in
    (\<exists>c. find_agg tenant cartId s' = Some c \<and> ct_customerRef c = Some customer) \<and>
    AssignCartCustomer env now' tenant cartId customer s' =
      (Inr (Inr \<lparr>ao_cartId = cartId, ao_customerRef = customer, ao_assigned = False\<rparr>), s') \<and>
    (\<forall>other. \<not> blank other \<longrightarrow> other \<noteq> customer \<longrightarrow>
       AssignCartCustomer env now' tenant cartId other s' =
         (Inr (Inl (BusinessRuleError ''Cart already has a customer'')), s'))"
proof -
  let ?before = "runs (cart_handle env) earlier empty_carts"
  have "carts_ok ?before"
    by (rule cart_requests.runs_inv) (simp_all add: list_all_iff carts_ok_def empty_carts_def)
  then have st: "store_all (\<lambda>_. True) (ag_rows ?before)" by (auto simp: carts_ok_def store_all_def)
  obtain c where c: "find_agg tenant cartId ?before = Some c" and nb: "\<not> blank customer"
    and b: "(if ct_customerRef c = Some customer
       then return_ok \<lparr>ao_cartId = agg_id c, ao_customerRef = customer, ao_assigned = False\<rparr>
       else cart_call_save env now tenant (as_thrown (cart_assignCustomer customer))
              (\<lambda>h c'. Inr \<lparr>ao_cartId = agg_id c', ao_customerRef = customer, ao_assigned = True\<rparr>) c) ?before =
      (Inr (Inr out), s)"
    using assms(1) unfolding AssignCartCustomer_def returns_iff againstEmpty_Inr_iff by blast
  have id: "agg_id c = cartId" using st c unfolding find_agg_def by (blast dest: store_all_find)
  have "owner.held customer tenant cartId s"
  proof (cases "ct_customerRef c = Some customer")
    case True
    with b c st show ?thesis by (auto simp: owner.held_def owned_by_def)
  next
    case False
    with b have call: "cart_call_save env now tenant (as_thrown (cart_assignCustomer customer))
        (\<lambda>h c'. Inr \<lparr>ao_cartId = agg_id c', ao_customerRef = customer, ao_assigned = True\<rparr>) c ?before =
      (Inr (Inr out), s)" by simp
    then have none: "ct_customerRef c = None"
      by (auto simp: cart_call_save_def as_thrown_def cart_assignCustomer_def then_do_apply mapError_def split: if_splits)
    let ?c = "c\<lparr>ct_customerRef := Some customer\<rparr>"
    have as: "cart_assignCustomer customer (h, c) = (Inr (), (h, ?c))" for h
      using none by (simp add: cart_assignCustomer_def then_do_apply)
    have "s = snd (cart_call_save env now tenant (as_thrown (cart_assignCustomer customer))
        (\<lambda>h c'. Inr \<lparr>ao_cartId = agg_id c', ao_customerRef = customer, ao_assigned = True\<rparr>) c ?before)"
      by (simp only: call snd_conv)
    also have "\<dots> = snd (save_agg env now tenant ?c (touch_cart tenant (cs_heap ?before, ?c) ?before))"
      by (simp add: cart_call_save_def as_thrown_def as mapError_def snd_then_reject)
    finally have "s = snd (save_agg env now tenant ?c (touch_cart tenant (cs_heap ?before, ?c) ?before))" .
    then show ?thesis
      using st by (simp add: owner.held_def owned_by_def find_agg_save store_all_put id touch_cart_def touch_row_def)
  qed
  then have "owner.held customer tenant cartId (runs (cart_handle env) later s)"
    using assms(2) by (rule owner_requests.runs_inv)
  from owner.heldD [OF this] obtain d where d: "find_agg tenant cartId (runs (cart_handle env) later s) = Some d"
      "agg_id d = cartId" "ct_customerRef d = Some customer" by (auto simp: owned_by_def)
  have same: "touch_cart tenant (cs_heap s', d) s' = s'" if "find_agg tenant cartId s' = Some d" for s' :: "'b cart_service"
    using touch_agg_same [of tenant d s'] that d(2) by (simp add: touch_cart_def)
  show ?thesis
    using d nb same
    by (auto simp: Let_def AssignCartCustomer_def or_return_def lookup_def cart_call_save_def as_thrown_def
        cart_assignCustomer_def then_do_apply mapError_def)
qed

subsection \<open>Witnesses\<close>

definition example_cart_env :: "(cart_event, string) agg_env" where
  "example_cart_env = \<lparr>ae_translate = CartEventTranslator,
     ae_serialize = (\<lambda>e. (''cart'', ie_type e)), ae_producer = Some ''cart'',
     ae_context = \<lparr>cx_correlationId = ''corr'', cx_causationId = ''corr'', cx_tenantId = None\<rparr>\<rparr>"

definition example_item :: item_input where
  "example_item = \<lparr>ii_quantity = jint 2, ii_unitPriceAmountMinor = jint 450, ii_currency = ''USD'', ii_snapshots = plain\<rparr>"

definition example_cart_requests :: "cart_request list" where
  "example_cart_requests = [ReqCreateCart ''guest'' 1 ''t1'' None ''s1'' ''USD'',
     ReqCreateCart ''c1'' 2 ''t1'' (Some ''u1'') ''s1'' ''USD'',
     ReqAddItem ''i1'' 3 ''t1'' ''guest'' ''p1'' example_item,
     ReqMerge ''e1'' 4 ''t1'' ''c1'' ''guest'',
     ReqChangeQuantity 5 ''t1'' ''c1'' ''p1'' None (jint 3)]"

lemma stored_totals_exact_witness:
  "\<exists>c. find_agg ''t1'' ''guest'' (runs (cart_handle example_cart_env) example_cart_requests empty_carts) = Some c \<and>
     map_ok amountMinor (cart_totalAmount
       (cs_heap (runs (cart_handle example_cart_env) example_cart_requests empty_carts)) c) = Inr 1350"
proof -
  let ?s = "runs (cart_handle example_cart_env) example_cart_requests empty_carts"
  have n: "map_option (\<lambda>c. sum_list (map line_amount (cart_lines (cs_heap ?s) c))) (find_agg ''t1'' ''guest'' ?s) = Some 1350"
    by code_simp
  then obtain c where c: "find_agg ''t1'' ''guest'' ?s = Some c" by (cases "find_agg ''t1'' ''guest'' ?s") auto
  from stored_totals_exact [OF c] n c show ?thesis by (auto simp: Let_def map_ok_def)
qed

lemma cart_owner_fixed_witness:
  "fst (AssignCartCustomer example_cart_env 9 ''t1'' ''guest'' ''u2''
     (runs (cart_handle example_cart_env) [ReqCheckOut ''e2'' 8 ''t1'' ''guest'']
        (snd (AssignCartCustomer example_cart_env 7 ''t1'' ''guest'' ''u1''
           (runs (cart_handle example_cart_env) example_cart_requests empty_carts))))) =
   Inr (Inl (BusinessRuleError ''Cart already has a customer''))"
proof -
  let ?r = "AssignCartCustomer example_cart_env 7 ''t1'' ''guest'' ''u1''
    (runs (cart_handle example_cart_env) example_cart_requests empty_carts)"
  let ?out = "\<lparr>ao_cartId = ''guest'', ao_customerRef = ''u1'', ao_assigned = True\<rparr>"
  have f: "fst ?r = Inr (Inr ?out)" by code_simp
  have r: "?r = (Inr (Inr ?out), snd ?r)" by (subst f [symmetric]) simp
  have "\<not> blank ''u2''" "''u2'' \<noteq> ''u1''" by code_simp+
  with cart_owner_fixed [OF r, of "[ReqCheckOut ''e2'' 8 ''t1'' ''guest'']" 9] show ?thesis
    by (simp add: Let_def)
qed

end
