(* ===== verification/CartCache.thy ===== *)
theory CartCache
  imports Carts Repository
begin

section \<open>The cached cart repository\<close>

text \<open>
  services/cart/src/infrastructure: \<^verbatim>\<open>CartMapper\<close> between carts and their rows, and
  \<^verbatim>\<open>CachedCartRepository\<close>, a read-through, delete-on-write cache of the rows in front of another repository. The inner
  repository is the argument pair \<open>find\<close>, \<open>save\<close> under the laws of the locale \<open>repository\<close>; the cache is a map
  that may lose any entry, and whose calls may fail (the \<open>fails\<close> arguments). A loaded cart is a
  \<open>cart_state\<close> with a heap of its own. \<open>same_cart\<close> is what a reader of a loaded cart can tell apart.
\<close>

subsection \<open>Rows (cart.mapper.ts)\<close>

record cart_row =
  cr_id :: string
  cr_tenantId :: string
  cr_customerRef :: "string option"
  cr_sessionRef :: string
  cr_currency :: string
  cr_status :: cart_status
  cr_version :: int

text \<open>\<open>ir_available\<close> is the \<^verbatim>\<open>available\<close> field of the inventory snapshot, when it is a number.\<close>

record cart_item_row =
  ir_id :: string
  ir_tenantId :: string
  ir_cartId :: string
  ir_productRef :: string
  ir_quantity :: js_number
  ir_unitPriceAmountMinor :: js_number
  ir_available :: "js_number option"
  ir_metadata :: "string option"
  ir_variantRef :: "string option"
  ir_sku :: "string option"
  ir_title :: "string option"
  ir_variantTitle :: "string option"

definition must :: "(domain_error, 'a) result \<Rightarrow> string \<Rightarrow> (domain_error, 'a) result" where
  "must r what = mapError (\<lambda>e. UnexpectedError
     (''Corrupt cart row: invalid '' @ what @ '' ('' @ error_message e @ '')'')) r"

definition row_merchandise :: "cart_item_row \<Rightarrow> line_merchandise option" where
  "row_merchandise r = (case ir_variantRef r of
     None \<Rightarrow> None
   | Some v \<Rightarrow> Some \<lparr>lm_variantRef = v, lm_sku = (case ir_sku r of None \<Rightarrow> '''' | Some x \<Rightarrow> x),
       lm_title = (case ir_title r of None \<Rightarrow> '''' | Some x \<Rightarrow> x), lm_variantTitle = ir_variantTitle r\<rparr>)"

definition item_toDomain :: "string \<Rightarrow> cart_item_row \<Rightarrow> (domain_error, cart_item) result" where
  "item_toDomain cur r =
     bind_result (UniqueEntityId_from (ir_id r)) (\<lambda>i.
     bind_result (must (ProductRef_create (ir_productRef r)) ''product ref'') (\<lambda>p.
     bind_result (must (CartQuantity_create (ir_quantity r)) ''quantity'') (\<lambda>q.
     bind_result (must (Money_create (ir_unitPriceAmountMinor r) cur) ''unit price'') (\<lambda>u.
       Inr (CartItem_create i p q u
         \<lparr>sn_inventoryAvailable = ir_available r, sn_metadata = ir_metadata r,
          sn_merchandise = row_merchandise r\<rparr>)))))"

fun items_toDomain :: "string \<Rightarrow> cart_item_row list \<Rightarrow> (domain_error, cart_item list) result" where
  "items_toDomain cur [] = Inr []"
| "items_toDomain cur (r # rs) =
     bind_result (item_toDomain cur r) (\<lambda>i. bind_result (items_toDomain cur rs) (\<lambda>is. Inr (i # is)))"

definition CartMapper_toDomain :: "cart_row \<Rightarrow> cart_item_row list \<Rightarrow> cart_heap \<Rightarrow> (domain_error, cart_state) result" where
  "CartMapper_toDomain row items h =
     bind_result (UniqueEntityId_from (cr_id row)) (\<lambda>cid.
     bind_result (items_toDomain (cr_currency row) items) (\<lambda>is.
       Inr (Cart_reconstitute cid (cr_customerRef row) (cr_sessionRef row) (cr_currency row) (cr_status row) is
         (cr_version row) h)))"

definition CartMapper_toCartRow :: "cart \<Rightarrow> string \<Rightarrow> cart_row" where
  "CartMapper_toCartRow c tenantId = \<lparr>cr_id = agg_id c, cr_tenantId = tenantId, cr_customerRef = ct_customerRef c,
     cr_sessionRef = ct_sessionRef c, cr_currency = ct_currency c, cr_status = ct_status c, cr_version = 1\<rparr>"

definition item_toRow :: "cart \<Rightarrow> string \<Rightarrow> cart_item \<Rightarrow> cart_item_row" where
  "item_toRow c tenantId i = \<lparr>ir_id = ci_id i, ir_tenantId = tenantId, ir_cartId = agg_id c,
     ir_productRef = ci_productRef i, ir_quantity = jint (ci_quantity i),
     ir_unitPriceAmountMinor = jint (amountMinor (ci_unitPrice i)), ir_available = ci_inventoryAvailable i,
     ir_metadata = ci_metadata i, ir_variantRef = map_option lm_variantRef (ci_merchandise i),
     ir_sku = map_option lm_sku (ci_merchandise i), ir_title = map_option lm_title (ci_merchandise i),
     ir_variantTitle = (case ci_merchandise i of None \<Rightarrow> None | Some m \<Rightarrow> lm_variantTitle m)\<rparr>"

definition CartMapper_toItemRows :: "cart_heap \<Rightarrow> cart \<Rightarrow> string \<Rightarrow> cart_item_row list" where
  "CartMapper_toItemRows h c tenantId = map (item_toRow c tenantId) (cart_lines h c)"

subsection \<open>The repository (cached-cart-repository.ts)\<close>

record cached_cart =
  cc_cart :: cart_row
  cc_items :: "cart_item_row list"

record 's cached_repo =
  rp_inner :: 's
  rp_cache :: "(string \<times> cached_cart) list"

definition cache_key :: "string \<Rightarrow> string \<Rightarrow> string" where
  "cache_key tenantId cartId = ''tenant:'' @ tenantId @ '':cart:'' @ cartId"

definition cart_snapshot_rows :: "string \<Rightarrow> cart_state \<Rightarrow> cached_cart" where
  "cart_snapshot_rows tenantId hc = (case hc of (h, c) \<Rightarrow>
     \<lparr>cc_cart = (CartMapper_toCartRow c tenantId)\<lparr>cr_version := agg_version c\<rparr>,
      cc_items = CartMapper_toItemRows h c tenantId\<rparr>)"

text \<open>The two halves of a save, and the population after a miss.\<close>

definition save_inner :: "(string \<Rightarrow> string \<Rightarrow> cart_state \<Rightarrow> 's \<Rightarrow> 's) \<Rightarrow> string \<Rightarrow> cart_state \<Rightarrow> 's cached_repo \<Rightarrow> 's cached_repo" where
  "save_inner save tenantId hc s = s\<lparr>rp_inner := save tenantId (agg_id (snd hc)) hc (rp_inner s)\<rparr>"

definition invalidate :: "string \<Rightarrow> string \<Rightarrow> 's cached_repo \<Rightarrow> 's cached_repo" where
  "invalidate tenantId cartId s = s\<lparr>rp_cache := AList.delete (cache_key tenantId cartId) (rp_cache s)\<rparr>"

definition populate :: "string \<Rightarrow> string \<Rightarrow> cart_state \<Rightarrow> 's cached_repo \<Rightarrow> 's cached_repo" where
  "populate tenantId cartId hc s =
     s\<lparr>rp_cache := AList.update (cache_key tenantId cartId) (cart_snapshot_rows tenantId hc) (rp_cache s)\<rparr>"

definition cached_save ::
  "(string \<Rightarrow> string \<Rightarrow> cart_state \<Rightarrow> 's \<Rightarrow> 's) \<Rightarrow> bool \<Rightarrow> string \<Rightarrow> cart_state \<Rightarrow> (thrown, 's cached_repo, unit) action" where
  "cached_save save delete_fails tenantId hc s =
     (let s' = save_inner save tenantId hc s in
      if delete_fails then (Inl ThrownOther, s') else (Inr (), invalidate tenantId (agg_id (snd hc)) s'))"

definition cached_findById ::
  "(string \<Rightarrow> string \<Rightarrow> 's \<Rightarrow> cart_state option) \<Rightarrow> bool \<Rightarrow> bool \<Rightarrow> bool \<Rightarrow> string \<Rightarrow> string \<Rightarrow>
     (thrown, 's cached_repo, cart_state option) action" where
  "cached_findById look in_tx get_fails set_fails tenantId cartId s =
     (if in_tx then (Inr (look tenantId cartId (rp_inner s)), s)
      else case (if get_fails then None else map_of (rp_cache s) (cache_key tenantId cartId)) of
        Some cached \<Rightarrow>
          (map_ok Some (mapError ThrownDomain (CartMapper_toDomain (cc_cart cached) (cc_items cached) [])), s)
      | None \<Rightarrow>
          (case look tenantId cartId (rp_inner s) of
             None \<Rightarrow> (Inr None, s)
           | Some hc \<Rightarrow> (Inr (Some hc), if set_fails then s else populate tenantId cartId hc s)))"

subsection \<open>Mapping there and back\<close>

definition same_cart :: "cart_state \<Rightarrow> cart_state \<Rightarrow> bool" where
  "same_cart a b = (case (a, b) of ((h, c), (h', d)) \<Rightarrow>
     agg_id c = agg_id d \<and> agg_version c = agg_version d \<and> ct_customerRef c = ct_customerRef d \<and>
     ct_sessionRef c = ct_sessionRef d \<and> ct_currency c = ct_currency d \<and> ct_status c = ct_status d \<and>
     cart_lines h c = cart_lines h' d)"

definition storable_line :: "string \<Rightarrow> cart_item \<Rightarrow> bool" where
  "storable_line cur i = (\<not> blank (ci_id i) \<and> \<not> blank (ci_productRef i) \<and> line_ok cur i)"

definition storable :: "cart_state \<Rightarrow> bool" where
  "storable hc = (case hc of (h, c) \<Rightarrow> \<not> blank (agg_id c) \<and> isValidCurrencyCode (ct_currency c) \<and>
     list_all (storable_line (ct_currency c)) (cart_lines h c))"

lemma item_round_trip:
  assumes "storable_line cur i" "isValidCurrencyCode cur"
  shows "item_toDomain cur (item_toRow c t i) = Inr i"
proof -
  have m: "Money_create (jint (amountMinor (ci_unitPrice i))) cur = Inr (ci_unitPrice i)"
    using assms by (cases "ci_unitPrice i") (auto simp: Money_create_Inr_iff storable_line_def line_ok_def)
  have q: "CartQuantity_create (jint (ci_quantity i)) = Inr (ci_quantity i)"
    using assms by (simp add: CartQuantity_create_def storable_line_def line_ok_def)
  have p: "ProductRef_create (ci_productRef i) = Inr (ci_productRef i)"
    using assms by (simp add: ProductRef_create_def storable_line_def)
  have mm: "row_merchandise (item_toRow c t i) = ci_merchandise i"
    by (cases "ci_merchandise i") (simp_all add: row_merchandise_def item_toRow_def)
  have i: "UniqueEntityId_from (ci_id i) = Inr (ci_id i)" using assms by (simp add: storable_line_def)
  show ?thesis unfolding item_toDomain_def mm by (simp add: item_toRow_def must_def mapError_def i p q m CartItem_create_def)
qed

lemma items_round_trip:
  "list_all (storable_line cur) is \<Longrightarrow> isValidCurrencyCode cur \<Longrightarrow>
   items_toDomain cur (map (item_toRow c t) is) = Inr is"
  by (induction "is") (simp_all add: item_round_trip)

lemma reconstituted_lines:
  "(case Cart_reconstitute i r se cu st is v h of (h', c) \<Rightarrow> cart_lines h' c) = is"
  by (auto simp: Cart_reconstitute_def cart_lines_def intro: nth_equalityI)

lemma rows_rebuild_cart_lemma:
  assumes "storable (h, c)"
  shows "\<exists>h' c'. CartMapper_toDomain ((CartMapper_toCartRow c tenant)\<lparr>cr_version := agg_version c\<rparr>)
      (CartMapper_toItemRows h c tenant) k = Inr (h', c') \<and>
    same_cart (h', c') (h, c) \<and> agg_events c' = [] \<and> (\<forall>a\<in>set (ct_items c'). length k \<le> a)"
proof -
  let ?hc = "Cart_reconstitute (agg_id c) (ct_customerRef c) (ct_sessionRef c) (ct_currency c) (ct_status c)
    (cart_lines h c) (agg_version c) k"
  obtain h' c' where hc: "?hc = (h', c')" by fastforce
  have it: "items_toDomain (ct_currency c) (CartMapper_toItemRows h c tenant) = Inr (cart_lines h c)"
    unfolding CartMapper_toItemRows_def using assms by (intro items_round_trip) (auto simp: storable_def)
  have m: "CartMapper_toDomain ((CartMapper_toCartRow c tenant)\<lparr>cr_version := agg_version c\<rparr>)
      (CartMapper_toItemRows h c tenant) k = Inr (h', c')"
    using assms hc by (simp add: CartMapper_toDomain_def CartMapper_toCartRow_def it storable_def)
  have "cart_lines h' c' = cart_lines h c"
    using reconstituted_lines [of "agg_id c" "ct_customerRef c" "ct_sessionRef c" "ct_currency c" "ct_status c"
        "cart_lines h c" "agg_version c" k] by (simp add: hc)
  with hc m show ?thesis by (auto simp: same_cart_def Cart_reconstitute_def)
qed

text \<open>
  The rows of a cart rebuild it: for a cart with non-blank ids and valid lines, mapping to rows and
  back gives a cart with the same identity, version, customer, session, currency and status and the same lines
  in the same order, as fresh objects and with no pending event.
\<close>

lemma rows_rebuild_cart:
  assumes "storable (h, c)"
  shows "\<exists>h' c'. CartMapper_toDomain ((CartMapper_toCartRow c tenant)\<lparr>cr_version := agg_version c\<rparr>)
      (CartMapper_toItemRows h c tenant) k = Inr (h', c') \<and>
    same_cart (h', c') (h, c) \<and> agg_events c' = [] \<and> (\<forall>a\<in>set (ct_items c'). length k \<le> a)"
  using assms by (rule rows_rebuild_cart_lemma)

subsection \<open>Keys\<close>

lemma colon_split:
  assumes "CHR '':'' \<notin> set a" "CHR '':'' \<notin> set b" "a @ CHR '':'' # x = b @ CHR '':'' # y"
  shows "a = b \<and> x = y"
  using assms
proof (induction a arbitrary: b)
  case Nil
  then show ?case by (cases b) auto
next
  case (Cons c a)
  then show ?case by (cases b) auto
qed

text \<open>Tenant ids hold no colon: without that, keys of two tenants may coincide.\<close>

definition plain_tenant :: "string \<Rightarrow> bool" where
  "plain_tenant t = (CHR '':'' \<notin> set t)"

lemma cache_key_inj:
  assumes "plain_tenant t" "plain_tenant u" "cache_key t i = cache_key u j"
  shows "t = u \<and> i = j"
proof -
  have "t @ CHR '':'' # (''cart:'' @ i) = u @ CHR '':'' # (''cart:'' @ j)" using assms(3) by (simp add: cache_key_def)
  from colon_split [OF _ _ this] assms(1,2) show ?thesis by (simp add: plain_tenant_def)
qed

subsection \<open>The cached repository against the one behind it\<close>

datatype cache_op =
    OpSave bool string cart_state
  | OpFind bool bool bool string string
  | OpLose string

text \<open>Saves and reads with any outage of the cache, and entries lost at will.\<close>

fun cache_step ::
  "(string \<Rightarrow> string \<Rightarrow> 's \<Rightarrow> cart_state option) \<Rightarrow> (string \<Rightarrow> string \<Rightarrow> cart_state \<Rightarrow> 's \<Rightarrow> 's) \<Rightarrow>
     cache_op \<Rightarrow> (thrown, 's cached_repo, cart_state option) action" where
  "cache_step look put (OpSave df t hc) s = (case cached_save put df t hc s of (r, s') \<Rightarrow> (map_ok (\<lambda>_. None) r, s'))"
| "cache_step look put (OpFind in_tx gf sf t i) s = cached_findById look in_tx gf sf t i s"
| "cache_step look put (OpLose k) s = (Inr None, s\<lparr>rp_cache := AList.delete k (rp_cache s)\<rparr>)"

fun op_ok :: "cache_op \<Rightarrow> bool" where
  "op_ok (OpSave df t hc) = (plain_tenant t \<and> storable hc)"
| "op_ok (OpFind in_tx gf sf t i) = plain_tenant t"
| "op_ok (OpLose k) = True"

text \<open>
  A save whose delete fails rejects; the repository behind the cache keeps what was saved, as it does in memory, where a
  database transaction around the call would roll it back. The carts whose entry may be out of date: those saved while the delete of their key failed, until a save of them gets
  through to the cache or their entry is lost (expires).
\<close>

fun outdated_after :: "cache_op \<Rightarrow> (string \<times> string) set \<Rightarrow> (string \<times> string) set" where
  "outdated_after (OpSave df t hc) T = (if df then insert (t, agg_id (snd hc)) T else T - {(t, agg_id (snd hc))})"
| "outdated_after (OpFind in_tx gf sf t i) T = T"
| "outdated_after (OpLose k) T = {(t, i) \<in> T. cache_key t i \<noteq> k}"

definition outdated :: "cache_op list \<Rightarrow> (string \<times> string) set" where
  "outdated ops = fold outdated_after ops {}"

text \<open>The abstract repository sees the saves only.\<close>

fun save_of :: "cache_op \<Rightarrow> (string \<times> cart_state) option" where
  "save_of (OpSave df t hc) = Some (t, hc)"
| "save_of _ = None"

fun apply_save :: "(string \<Rightarrow> string \<Rightarrow> cart_state \<Rightarrow> 's \<Rightarrow> 's) \<Rightarrow> (string \<times> cart_state) option \<Rightarrow> 's \<Rightarrow> 's" where
  "apply_save put (Some (t, hc)) s = put t (agg_id (snd hc)) hc s"
| "apply_save put None s = s"

lemma delete_conv': "map_of (AList.delete k xs) = (map_of xs)(k := None)"
  by (rule ext) (simp add: delete_conv)

locale cached_carts = repository look put
  for look :: "string \<Rightarrow> string \<Rightarrow> 's \<Rightarrow> cart_state option" and put :: "string \<Rightarrow> string \<Rightarrow> cart_state \<Rightarrow> 's \<Rightarrow> 's"
begin

text \<open>
  Every entry holds the rows of what the repository behind it stores now, except for the carts in \<open>T\<close>; what it stores
  is storable.
\<close>

definition coherent :: "(string \<times> string) set \<Rightarrow> 's cached_repo \<Rightarrow> bool" where
  "coherent T s = ((\<forall>t i hc. plain_tenant t \<longrightarrow> look t i (rp_inner s) = Some hc \<longrightarrow> storable hc) \<and>
     (\<forall>t i e. plain_tenant t \<longrightarrow> (t, i) \<notin> T \<longrightarrow> map_of (rp_cache s) (cache_key t i) = Some e \<longrightarrow>
        (\<exists>hc. look t i (rp_inner s) = Some hc \<and> e = cart_snapshot_rows t hc)))"

lemma coherentD:
  assumes "coherent T s" "plain_tenant t"
  shows "look t i (rp_inner s) = Some hc \<Longrightarrow> storable hc"
    and "(t, i) \<notin> T \<Longrightarrow> map_of (rp_cache s) (cache_key t i) = Some e \<Longrightarrow>
      \<exists>hc. look t i (rp_inner s) = Some hc \<and> e = cart_snapshot_rows t hc"
  using assms unfolding coherent_def by blast+

lemma coherent_mono: "coherent T s \<Longrightarrow> T \<subseteq> U \<Longrightarrow> coherent U s"
  unfolding coherent_def by blast

lemma coherent_save:
  assumes "coherent T s" "plain_tenant t" "storable hc"
  shows "coherent (outdated_after (OpSave df t hc) T) (snd (cached_save put df t hc s))" (is "coherent ?T ?s")
  unfolding coherent_def
proof (intro conjI allI impI)
  have s: "rp_inner ?s = put t (agg_id (snd hc)) hc (rp_inner s)"
      "rp_cache ?s = (if df then rp_cache s else AList.delete (cache_key t (agg_id (snd hc))) (rp_cache s))"
    by (simp_all add: cached_save_def save_inner_def invalidate_def Let_def)
  fix u i x assume u: "plain_tenant u"
  show "look u i (rp_inner ?s) = Some x \<Longrightarrow> storable x"
    using assms coherentD(1) [OF assms(1) u] by (auto simp: s find_save split: if_splits)
  fix e assume "map_of (rp_cache ?s) (cache_key u i) = Some e" and T: "(u, i) \<notin> ?T"
  then have k: "(u, i) \<noteq> (t, agg_id (snd hc))" and e: "map_of (rp_cache s) (cache_key u i) = Some e"
    by (auto simp: s delete_conv' split: if_splits)
  then have "(u, i) \<notin> T" using T by (auto split: if_splits)
  moreover have "look u i (rp_inner ?s) = look u i (rp_inner s)" unfolding s using k by (rule find_save_other)
  ultimately show "\<exists>hc'. look u i (rp_inner ?s) = Some hc' \<and> e = cart_snapshot_rows u hc'"
    using coherentD(2) [OF assms(1) u _ e] by simp
qed

lemma coherent_populate:
  assumes "coherent T s" "plain_tenant t" "look t i (rp_inner s) = Some hc"
  shows "coherent T (populate t i hc s)"
  unfolding coherent_def
proof (intro conjI allI impI)
  let ?s = "populate t i hc s"
  have s: "rp_inner ?s = rp_inner s" "rp_cache ?s = AList.update (cache_key t i) (cart_snapshot_rows t hc) (rp_cache s)"
    by (simp_all add: populate_def)
  fix u j x assume u: "plain_tenant u"
  show "look u j (rp_inner ?s) = Some x \<Longrightarrow> storable x"
    using coherentD(1) [OF assms(1) u] by (simp add: s)
  fix e assume e: "map_of (rp_cache ?s) (cache_key u j) = Some e" and T: "(u, j) \<notin> T"
  show "\<exists>hc'. look u j (rp_inner ?s) = Some hc' \<and> e = cart_snapshot_rows u hc'"
  proof (cases "cache_key u j = cache_key t i")
    case True
    with cache_key_inj [OF u assms(2)] have "u = t" "j = i" by simp_all
    with e assms(3) show ?thesis by (simp add: s update_conv')
  next
    case False
    with e have "map_of (rp_cache s) (cache_key u j) = Some e" by (simp add: s update_conv')
    from coherentD(2) [OF assms(1) u T this] show ?thesis by (simp add: s)
  qed
qed

lemma coherent_step: "coherent T s \<Longrightarrow> op_ok c \<Longrightarrow> coherent (outdated_after c T) (snd (cache_step look put c s))"
proof (cases c)
  case (OpSave df t hc)
  assume "coherent T s" "op_ok c"
  then show ?thesis using coherent_save [of T s t hc df] OpSave
    by (cases "cached_save put df t hc s") simp
next
  case (OpFind in_tx gf sf t i)
  assume "coherent T s" "op_ok c"
  then show ?thesis using coherent_populate [of T s t i] OpFind
    by (auto simp: cached_findById_def split: option.splits)
next
  case (OpLose k)
  assume "coherent T s"
  then show ?thesis unfolding OpLose by (auto simp: coherent_def delete_conv')
qed

lemma coherent_runs:
  "coherent T s \<Longrightarrow> list_all op_ok ops \<Longrightarrow> coherent (fold outdated_after ops T) (runs (cache_step look put) ops s)"
  by (induction ops arbitrary: T s) (simp_all add: coherent_step)

lemma inner_step: "rp_inner (snd (cache_step look put c s)) = apply_save put (save_of c) (rp_inner s)"
  by (cases c)
    (auto simp: cached_save_def save_inner_def invalidate_def cached_findById_def populate_def Let_def
      split: option.splits)

text \<open>A read answers what the repository behind it would answer.\<close>

lemma read_agrees:
  assumes "coherent T s" "plain_tenant t" "(t, i) \<notin> T"
  shows "\<exists>x. fst (cached_findById look in_tx gf sf t i s) = Inr x \<and> rel_option same_cart x (look t i (rp_inner s))"
proof -
  have refl: "rel_option same_cart (look t i (rp_inner s)) (look t i (rp_inner s))"
    by (cases "look t i (rp_inner s)") (auto simp: same_cart_def)
  show ?thesis
  proof (cases "in_tx \<or> gf \<or> map_of (rp_cache s) (cache_key t i) = None")
    case True
    with refl show ?thesis by (auto simp: cached_findById_def split: option.splits)
  next
    case False
    then obtain e where e: "map_of (rp_cache s) (cache_key t i) = Some e" by auto
    then obtain h c where hc: "look t i (rp_inner s) = Some (h, c)" "e = cart_snapshot_rows t (h, c)"
      using coherentD(2) [OF assms e] by auto
    then have "storable (h, c)" using coherentD(1) [OF assms(1,2)] by blast
    from rows_rebuild_cart_lemma [OF this, of t "[]"] obtain h' c' where
      "CartMapper_toDomain (cc_cart e) (cc_items e) [] = Inr (h', c')" "same_cart (h', c') (h, c)"
      by (auto simp: hc(2) cart_snapshot_rows_def)
    with False e hc show ?thesis by (auto simp: cached_findById_def map_ok_def mapError_def)
  qed
qed

end

interpretation cached_memory: cached_carts find_row put_row
  by unfold_locales

interpretation cached_memory_refines: refinement "cached_memory.coherent UNIV" "\<lambda>_. op_ok" "cache_step find_row put_row"
    rp_inner "\<lambda>_. save_of" "apply_save put_row"
  by unfold_locales
    (blast intro: cached_memory.coherent_mono [OF cached_memory.coherent_step], simp add: cached_memory.inner_step)

text \<open>
  C18: The cached repository refines the repository behind it. Take any sequence of saves, reads and lost cache entries,
  one after the other, with the cache failing at any of its calls, the delete of a save included, for tenants without
  a colon in their id and carts with non-blank ids and valid lines. The repository behind the cache holds what the
  saves alone would have left; and every read of a cart that is not outdated, in a transaction or not and with the
  cache up or down, answers the cart that repository holds. A cart is outdated from a save whose delete failed until
  its next save whose delete goes through, or until its entry is lost.
\<close>

theorem cache_is_transparent:
  assumes "list_all op_ok ops" and "plain_tenant tenant" and "(tenant, cartId) \<notin> outdated ops"
  shows "let s = runs (cache_step find_row put_row) ops \<lparr>rp_inner = [], rp_cache = []\<rparr> in
    rp_inner s = fold (\<lambda>op. apply_save put_row (save_of op)) ops [] \<and>
    (\<exists>x. fst (cached_findById find_row in_tx get_fails set_fails tenant cartId s) = Inr x \<and>
       rel_option same_cart x (find_row tenant cartId (rp_inner s)))"
proof -
  let ?init = "\<lparr>rp_inner = [], rp_cache = []\<rparr> :: cart_state store cached_repo"
  let ?s = "runs (cache_step find_row put_row) ops ?init"
  have ok: "cached_memory.coherent T ?init" for T by (simp add: cached_memory.coherent_def find_row_def bucket_def)
  have adm: "admissible (\<lambda>_. op_ok) (cache_step find_row put_row) ?init ops" using assms(1) by (rule admissible_const)
  have m: "meanings (cache_step find_row put_row) (\<lambda>_. save_of) ops s = map save_of ops" for s
    by (induction ops arbitrary: s) auto
  have "rp_inner ?s = fold (\<lambda>op. apply_save put_row (save_of op)) ops []"
    using cached_memory_refines.runs_refine [OF ok adm] by (simp add: m fold_map o_def)
  moreover
  have "cached_memory.coherent (outdated ops) ?s" unfolding outdated_def using ok assms(1) by (rule cached_memory.coherent_runs)
  from cached_memory.read_agrees [OF this assms(2,3)]
  have "\<exists>x. fst (cached_findById find_row in_tx get_fails set_fails tenant cartId ?s) = Inr x \<and>
      rel_option same_cart x (find_row tenant cartId (rp_inner ?s))" .
  ultimately show ?thesis unfolding Let_def by blast
qed

subsection \<open>Examples\<close>

definition a_cart :: "cart_status \<Rightarrow> int \<Rightarrow> cart_state" where
  "a_cart st v = Cart_reconstitute ''c1'' (Some ''u1'') ''s1'' ''USD'' st
     [CartItem_create ''i1'' ''p1'' 2 (in_usd 500) (variant ''v1''), CartItem_create ''i2'' ''p2'' 1 (in_usd 90) plain] v []"

lemma rows_rebuild_cart_witness:
  "\<exists>h' c'. CartMapper_toDomain ((CartMapper_toCartRow (snd (a_cart CaSaved 3)) ''t1'')\<lparr>cr_version := 3\<rparr>)
      (CartMapper_toItemRows (fst (a_cart CaSaved 3)) (snd (a_cart CaSaved 3)) ''t1'') [] = Inr (h', c') \<and>
    same_cart (h', c') (a_cart CaSaved 3)"
proof -
  have "storable (fst (a_cart CaSaved 3), snd (a_cart CaSaved 3))" "agg_version (snd (a_cart CaSaved 3)) = 3" by code_simp+
  with rows_rebuild_cart [OF this(1), of "''t1''" "[]"] show ?thesis by auto
qed

lemma cache_is_transparent_witness:
  "\<exists>x. fst (cached_findById find_row False False False ''t1'' ''c1''
       (runs (cache_step find_row put_row)
          [OpSave True ''t1'' (a_cart CaActive 1), OpFind False False False ''t1'' ''c1'', OpSave False ''t1'' (a_cart CaLocked 2),
           OpFind False False False ''t1'' ''c1''] \<lparr>rp_inner = [], rp_cache = []\<rparr>)) = Inr (Some x) \<and>
     same_cart x (a_cart CaLocked 2)"
proof -
  let ?ops = "[OpSave True ''t1'' (a_cart CaActive 1), OpFind False False False ''t1'' ''c1'',
    OpSave False ''t1'' (a_cart CaLocked 2), OpFind False False False ''t1'' ''c1'']"
  have a: "list_all op_ok ?ops" "plain_tenant ''t1''" by code_simp+
  have fresh: "(''t1'', ''c1'') \<notin> outdated ?ops" by (simp add: outdated_def a_cart_def Cart_reconstitute_def)
  have "find_row ''t1'' ''c1'' (fold (\<lambda>op. apply_save put_row (save_of op)) ?ops []) = Some (a_cart CaLocked 2)"
    by code_simp
  with cache_is_transparent [OF a fresh, of False False False] show ?thesis
    by (auto simp: Let_def option_rel_Some2)
qed

text \<open>A failed delete does leave an outdated entry: the save rejects, and a later read answers the cart of before it.\<close>

lemma failed_delete_is_outdated:
  "(let s = runs (cache_step find_row put_row)
       [OpSave False ''t1'' (a_cart CaActive 1), OpFind False False False ''t1'' ''c1'', OpSave True ''t1'' (a_cart CaLocked 2)]
       \<lparr>rp_inner = [], rp_cache = []\<rparr>
    in map_ok (map_option (\<lambda>(h, c). ct_status c)) (fst (cached_findById find_row False False False ''t1'' ''c1'' s)) =
         Inr (Some CaActive) \<and>
       map_option (\<lambda>(h, c). ct_status c) (find_row ''t1'' ''c1'' (rp_inner s)) = Some CaLocked)"
  by code_simp

text \<open>
  The transparency is one of calls that do not overlap. A reader that missed, and read the cart before a save,
  may populate after that save has deleted the key: until the entry expires, readers outside of
  transactions see the cart of before the save.
\<close>

lemma populate_after_save_is_stale:
  "(let before = a_cart CaActive 1;
        s = \<lparr>rp_inner = put_row ''t1'' ''c1'' before [], rp_cache = []\<rparr>;
        seen = the (find_row ''t1'' ''c1'' (rp_inner s));
        saved = snd (cached_save put_row False ''t1'' (a_cart CaCheckedOut 2) s);
        raced = populate ''t1'' ''c1'' seen saved
    in map_ok (map_option (\<lambda>(h, c). ct_status c)) (fst (cached_findById find_row False False False ''t1'' ''c1'' raced)) =
         Inr (Some CaActive) \<and>
       map_option (\<lambda>(h, c). ct_status c) (find_row ''t1'' ''c1'' (rp_inner raced)) = Some CaCheckedOut)"
  by code_simp

end
