(* ===== verification/CheckoutValues.thy ===== *)
theory CheckoutValues
  imports Kernel
begin

section \<open>Values of a checkout\<close>

text \<open>
  services/checkout/src/domain/value-objects and the region data of packages/regions. Each \<open>create\<close>
  answers the value or the issues of its input. Amounts in minor units are integers; quantities, prices and
  rates that arrive from outside are any number until they are validated.
\<close>

subsection \<open>Countries and provinces (packages/regions/src/index.ts)\<close>

text \<open>ISO 3166-1 alpha-2.\<close>

definition COUNTRY_CODES :: "string list" where
  "COUNTRY_CODES =
     [''AD'', ''AE'', ''AF'', ''AG'', ''AI'', ''AL'', ''AM'', ''AO'', ''AQ'', ''AR'', ''AS'', ''AT'', ''AU'', ''AW'', ''AX'',
      ''AZ'', ''BA'', ''BB'', ''BD'', ''BE'', ''BF'', ''BG'', ''BH'', ''BI'', ''BJ'', ''BL'', ''BM'', ''BN'', ''BO'', ''BQ'',
      ''BR'', ''BS'', ''BT'', ''BV'', ''BW'', ''BY'', ''BZ'', ''CA'', ''CC'', ''CD'', ''CF'', ''CG'', ''CH'', ''CI'', ''CK'',
      ''CL'', ''CM'', ''CN'', ''CO'', ''CR'', ''CU'', ''CV'', ''CW'', ''CX'', ''CY'', ''CZ'', ''DE'', ''DJ'', ''DK'', ''DM'',
      ''DO'', ''DZ'', ''EC'', ''EE'', ''EG'', ''EH'', ''ER'', ''ES'', ''ET'', ''FI'', ''FJ'', ''FK'', ''FM'', ''FO'', ''FR'',
      ''GA'', ''GB'', ''GD'', ''GE'', ''GF'', ''GG'', ''GH'', ''GI'', ''GL'', ''GM'', ''GN'', ''GP'', ''GQ'', ''GR'', ''GS'',
      ''GT'', ''GU'', ''GW'', ''GY'', ''HK'', ''HM'', ''HN'', ''HR'', ''HT'', ''HU'', ''ID'', ''IE'', ''IL'', ''IM'', ''IN'',
      ''IO'', ''IQ'', ''IR'', ''IS'', ''IT'', ''JE'', ''JM'', ''JO'', ''JP'', ''KE'', ''KG'', ''KH'', ''KI'', ''KM'', ''KN'',
      ''KP'', ''KR'', ''KW'', ''KY'', ''KZ'', ''LA'', ''LB'', ''LC'', ''LI'', ''LK'', ''LR'', ''LS'', ''LT'', ''LU'', ''LV'',
      ''LY'', ''MA'', ''MC'', ''MD'', ''ME'', ''MF'', ''MG'', ''MH'', ''MK'', ''ML'', ''MM'', ''MN'', ''MO'', ''MP'', ''MQ'',
      ''MR'', ''MS'', ''MT'', ''MU'', ''MV'', ''MW'', ''MX'', ''MY'', ''MZ'', ''NA'', ''NC'', ''NE'', ''NF'', ''NG'', ''NI'',
      ''NL'', ''NO'', ''NP'', ''NR'', ''NU'', ''NZ'', ''OM'', ''PA'', ''PE'', ''PF'', ''PG'', ''PH'', ''PK'', ''PL'', ''PM'',
      ''PN'', ''PR'', ''PS'', ''PT'', ''PW'', ''PY'', ''QA'', ''RE'', ''RO'', ''RS'', ''RU'', ''RW'', ''SA'', ''SB'', ''SC'',
      ''SD'', ''SE'', ''SG'', ''SH'', ''SI'', ''SJ'', ''SK'', ''SL'', ''SM'', ''SN'', ''SO'', ''SR'', ''SS'', ''ST'', ''SV'',
      ''SX'', ''SY'', ''SZ'', ''TC'', ''TD'', ''TF'', ''TG'', ''TH'', ''TJ'', ''TK'', ''TL'', ''TM'', ''TN'', ''TO'', ''TR'',
      ''TT'', ''TV'', ''TW'', ''TZ'', ''UA'', ''UG'', ''UM'', ''US'', ''UY'', ''UZ'', ''VA'', ''VC'', ''VE'', ''VG'', ''VI'',
      ''VN'', ''VU'', ''WF'', ''WS'', ''YE'', ''YT'', ''ZA'', ''ZM'', ''ZW'']"

definition provinces_EG :: "string list" where
  "provinces_EG =
     [''EG-ALX'', ''EG-ASN'', ''EG-AST'', ''EG-BA'', ''EG-BH'', ''EG-BNS'', ''EG-C'', ''EG-DK'', ''EG-DT'', ''EG-FYM'',
      ''EG-GH'', ''EG-GZ'', ''EG-IS'', ''EG-JS'', ''EG-KB'', ''EG-KFS'', ''EG-KN'', ''EG-LX'', ''EG-MN'', ''EG-MNF'',
      ''EG-MT'', ''EG-PTS'', ''EG-SHG'', ''EG-SHR'', ''EG-SIN'', ''EG-SUZ'', ''EG-WAD'']"

definition provinces_SA :: "string list" where
  "provinces_SA = [''SA-01'', ''SA-02'', ''SA-03'', ''SA-04'', ''SA-05'', ''SA-06'', ''SA-07'', ''SA-08'', ''SA-09'',
     ''SA-10'', ''SA-11'', ''SA-12'', ''SA-14'']"

definition provinces_AE :: "string list" where
  "provinces_AE = [''AE-AZ'', ''AE-AJ'', ''AE-FU'', ''AE-SH'', ''AE-DU'', ''AE-RK'', ''AE-UQ'']"

text \<open>The codes only: the names are for display.\<close>

definition PROVINCES :: "(string \<times> string list) list" where
  "PROVINCES = [(''EG'', provinces_EG), (''SA'', provinces_SA), (''AE'', provinces_AE)]"

definition hasProvinces :: "string \<Rightarrow> bool" where
  "hasProvinces country = (0 < (case map_of PROVINCES country of Some ps \<Rightarrow> length ps | None \<Rightarrow> 0))"

definition isProvinceOf :: "string \<Rightarrow> string \<Rightarrow> bool" where
  "isProvinceOf country code =
     (case map_of PROVINCES country of Some ps \<Rightarrow> list_ex (\<lambda>p. p = code) ps | None \<Rightarrow> False)"

text \<open>application/address-province.ts\<close>

definition provinceProblem :: "string \<Rightarrow> string option \<Rightarrow> domain_error option" where
  "provinceProblem country province =
     (let given = (case province of Some p \<Rightarrow> trim p | None \<Rightarrow> '''');
          problem = (if hasProvinces country then
              (if length given = 0 then Some (issue ''province'' ''required for this country'')
               else if \<not> isProvinceOf country given
                 then Some (issue ''province'' (given @ '' is not a province of '' @ country))
               else None)
            else if 0 < length given
              then Some (issue ''province'' (country @ '' has no provinces to choose from''))
            else None)
      in case problem of None \<Rightarrow> None | Some i \<Rightarrow> Some (ValidationError ''Invalid address'' [i]))"

subsection \<open>Addresses (checkout-address.ts)\<close>

text \<open>
  A phone number comes in as UTF-16 code units, because its digits may be Arabic-Indic or Persian. What
  passes the pattern is ASCII and is stored as a string.
\<close>

definition toAsciiDigits :: "nat list \<Rightarrow> nat list" where
  "toAsciiDigits value =
     map (\<lambda>u. if (0x660 \<le> u \<and> u \<le> 0x669) \<or> (0x6F0 \<le> u \<and> u \<le> 0x6F9)
              then 48 + (if 0x6F0 \<le> u then u - 0x6F0 else u - 0x660) else u) value"

definition unit_space :: "nat \<Rightarrow> bool" where
  "unit_space u = (u \<in> {9, 10, 11, 12, 13, 32, 0xA0, 0x1680, 0x2028, 0x2029, 0x202F, 0x205F, 0x3000, 0xFEFF}
     \<or> (0x2000 \<le> u \<and> u \<le> 0x200A))"

definition normalizePhone :: "nat list \<Rightarrow> nat list" where
  "normalizePhone raw = filter (\<lambda>u. \<not> (unit_space u \<or> u = 45 \<or> u = 40 \<or> u = 41)) (toAsciiDigits raw)"

definition PHONE_PATTERN :: "nat list \<Rightarrow> bool" where
  "PHONE_PATTERN p =
     (let digits = (case p of u # us \<Rightarrow> if u = 43 then us else p | [] \<Rightarrow> p)
      in list_all (\<lambda>u. 48 \<le> u \<and> u \<le> 57) digits \<and> 7 \<le> length digits \<and> length digits \<le> 15)"

definition units_text :: "nat list \<Rightarrow> string" where
  "units_text us = map char_of us"

record address_input =
  ai_name :: "string option"
  ai_phone :: "nat list option"
  ai_line1 :: string
  ai_line2 :: "string option"
  ai_city :: string
  ai_postalCode :: string
  ai_country :: string
  ai_province :: "string option"

record checkout_address =
  ad_name :: "string option"
  ad_phone :: "string option"
  ad_line1 :: string
  ad_line2 :: "string option"
  ad_city :: string
  ad_postalCode :: string
  ad_country :: string
  ad_province :: "string option"

definition NAME_MAX_LENGTH :: nat where "NAME_MAX_LENGTH = 120"

definition PROVINCE_MAX_LENGTH :: nat where "PROVINCE_MAX_LENGTH = 10"

definition address_issues :: "address_input \<Rightarrow> field_issue list" where
  "address_issues i =
     (if length (trim (ai_line1 i)) = 0 then [issue ''line1'' ''required''] else []) @
     (if length (trim (ai_city i)) = 0 then [issue ''city'' ''required''] else []) @
     (if length (trim (ai_country i)) = 0 then [issue ''country'' ''required''] else []) @
     (case map_option trim (ai_name i) of
        Some n \<Rightarrow> if length n = 0 \<or> NAME_MAX_LENGTH < length n
                  then [issue ''name'' ''must be 1-120 characters''] else []
      | None \<Rightarrow> []) @
     (case map_option normalizePhone (ai_phone i) of
        Some p \<Rightarrow> if \<not> PHONE_PATTERN p
                  then [issue ''phone'' ''must be 7-15 digits, optionally starting with +''] else []
      | None \<Rightarrow> []) @
     (case map_option trim (ai_province i) of
        Some p \<Rightarrow> if PROVINCE_MAX_LENGTH < length p
                  then [issue ''province'' ''must be at most 10 characters''] else []
      | None \<Rightarrow> [])"

definition CheckoutAddress_create :: "address_input \<Rightarrow> (domain_error, checkout_address) result" where
  "CheckoutAddress_create i =
     (if 0 < length (address_issues i) then Inl (ValidationError ''Invalid address'' (address_issues i))
      else Inr \<lparr>ad_name = map_option trim (ai_name i),
                ad_phone = (case ai_phone i of Some p \<Rightarrow> Some (units_text (normalizePhone p)) | None \<Rightarrow> None),
                ad_line1 = ai_line1 i, ad_line2 = ai_line2 i, ad_city = ai_city i,
                ad_postalCode = trim (ai_postalCode i), ad_country = ai_country i,
                ad_province = (case map_option trim (ai_province i) of
                   Some p \<Rightarrow> if p = '''' then None else Some p | None \<Rightarrow> None)\<rparr>)"

subsection \<open>The contact e-mail (contact-email.ts)\<close>

definition email_class :: "char \<Rightarrow> bool" where
  "email_class c = (\<not> is_js_space c \<and> c \<noteq> CHR ''@'')"

definition class_run :: "string \<Rightarrow> bool" where
  "class_run s = (s \<noteq> [] \<and> list_all email_class s)"

text \<open>The pattern read off: a run, an at sign at \<open>i\<close>, a run, a dot at \<open>j\<close>, a run.\<close>

definition EMAIL_PATTERN :: "string \<Rightarrow> bool" where
  "EMAIL_PATTERN s =
     list_ex (\<lambda>i. s ! i = CHR ''@'' \<and> class_run (take i s) \<and>
       list_ex (\<lambda>j. s ! j = CHR ''.'' \<and> class_run (drop (i + 1) (take j s)) \<and> class_run (drop (j + 1) s))
         [i + 1..<length s])
       [0..<length s]"

definition ContactEmail_create :: "string \<Rightarrow> (domain_error, string) result" where
  "ContactEmail_create value =
     (let normalized = toLowerCase (trim value)
      in if \<not> EMAIL_PATTERN normalized
         then Inl (ValidationError ''Invalid email'' [issue ''email'' ''must be a valid email''])
         else Inr normalized)"

subsection \<open>Lines (checkout-item.ts)\<close>

record item_merchandise =
  im_variantRef :: string
  im_sku :: string
  im_title :: string
  im_variantTitle :: "string option"

record checkout_item =
  ki_productRef :: string
  ki_quantity :: int
  ki_unitPriceAmountMinor :: int
  ki_currency :: string
  ki_merchandise :: "item_merchandise option"

definition CheckoutItem_create ::
  "string \<Rightarrow> js_number \<Rightarrow> js_number \<Rightarrow> string \<Rightarrow> item_merchandise option \<Rightarrow> (domain_error, checkout_item) result" where
  "CheckoutItem_create productRef quantity unitPrice cur merchandise =
     (let issues =
        (if length (trim productRef) = 0 then [issue ''productRef'' ''must not be empty''] else []) @
        (if \<not> isInteger quantity \<or> \<not> js_less (jint 0) quantity
         then [issue ''quantity'' ''must be a positive integer''] else []) @
        (if \<not> isInteger unitPrice \<or> js_less unitPrice (jint 0)
         then [issue ''unitPriceAmountMinor'' ''must be a non-negative integer''] else [])
      in if 0 < length issues then Inl (ValidationError ''Invalid checkout item'' issues)
         else Inr \<lparr>ki_productRef = productRef, ki_quantity = js_to_int quantity,
                   ki_unitPriceAmountMinor = js_to_int unitPrice, ki_currency = cur, ki_merchandise = merchandise\<rparr>)"

definition lineTotalMinor :: "checkout_item \<Rightarrow> int" where
  "lineTotalMinor i = ki_unitPriceAmountMinor i * ki_quantity i"

subsection \<open>Totals (checkout-totals.ts)\<close>

record checkout_totals =
  tt_subtotalMinor :: int
  tt_taxMinor :: int
  tt_shippingMinor :: int
  tt_discountMinor :: int
  tt_totalMinor :: int
  tt_currency :: string
  tt_taxIncluded :: bool
  tt_shippingName :: "string option"
  tt_shippingDiscountMinor :: int

record totals_extra =
  te_taxIncluded :: bool
  te_shippingName :: "string option"
  te_shippingDiscountMinor :: int

definition CheckoutTotals_assemble ::
  "checkout_item list \<Rightarrow> int \<Rightarrow> int \<Rightarrow> int \<Rightarrow> string \<Rightarrow> totals_extra \<Rightarrow> checkout_totals" where
  "CheckoutTotals_assemble items taxMinor shippingMinor discountMinor cur extra =
     (let subtotalMinor = fold (\<lambda>item acc. acc + lineTotalMinor item) items 0;
          shippingDiscountMinor = min (max 0 (te_shippingDiscountMinor extra)) shippingMinor;
          totalMinor = max 0 (subtotalMinor + shippingMinor - shippingDiscountMinor - discountMinor +
                              (if te_taxIncluded extra then 0 else taxMinor))
      in \<lparr>tt_subtotalMinor = subtotalMinor, tt_taxMinor = taxMinor, tt_shippingMinor = shippingMinor,
          tt_discountMinor = discountMinor, tt_totalMinor = totalMinor, tt_currency = cur,
          tt_taxIncluded = te_taxIncluded extra, tt_shippingName = te_shippingName extra,
          tt_shippingDiscountMinor = shippingDiscountMinor\<rparr>)"

subsection \<open>Selections (selections.ts)\<close>

record shipping_selection =
  ss_method :: string
  ss_rateAmountMinor :: int
  ss_currency :: string
  ss_name :: "string option"
  ss_description :: "string option"

definition ShippingSelection_create ::
  "string \<Rightarrow> js_number \<Rightarrow> string \<Rightarrow> string option \<Rightarrow> string option \<Rightarrow> (domain_error, shipping_selection) result" where
  "ShippingSelection_create mthd rate cur name description =
     (if length (trim mthd) = 0
      then Inl (ValidationError ''Invalid shipping selection'' [issue ''method'' ''must not be empty''])
      else if \<not> isInteger rate \<or> js_less rate (jint 0)
      then Inl (ValidationError ''Invalid shipping selection'' [issue ''rateAmountMinor'' ''must be a non-negative integer''])
      else Inr \<lparr>ss_method = mthd, ss_rateAmountMinor = js_to_int rate, ss_currency = cur, ss_name = name,
                ss_description = description\<rparr>)"

record payment_selection =
  ps_paymentMethodRef :: string
  ps_provider :: string

definition PaymentSelection_create :: "string \<Rightarrow> string \<Rightarrow> (domain_error, payment_selection) result" where
  "PaymentSelection_create paymentMethodRef provider =
     (if length (trim paymentMethodRef) = 0
      then Inl (ValidationError ''Invalid payment selection'' [issue ''paymentMethodRef'' ''must not be empty''])
      else if length (trim provider) = 0
      then Inl (ValidationError ''Invalid payment selection'' [issue ''provider'' ''must not be empty''])
      else Inr \<lparr>ps_paymentMethodRef = paymentMethodRef, ps_provider = provider\<rparr>)"

subsection \<open>Discount snapshots (discount-snapshot.ts)\<close>

datatype discount_class_value = DcvProduct | DcvOrder | DcvShipping

record applied_snapshot =
  sd_promotionId :: string
  sd_couponId :: "string option"
  sd_code :: "string option"
  sd_title :: string
  sd_discountClass :: discount_class_value
  sd_amountMinor :: int

record code_status_snapshot =
  cst_code :: string
  cst_applicable :: bool
  cst_reason :: "string option"

record discount_snapshot =
  ds_applied :: "applied_snapshot list"
  ds_orderDiscountMinor :: int
  ds_shippingDiscountMinor :: int
  ds_codeStatuses :: "code_status_snapshot list"
  ds_lineAllocations :: "(string \<times> int) list"

definition CO_MAX_DISCOUNT_CODES :: nat where "CO_MAX_DISCOUNT_CODES = 5"

definition DISCOUNT_ATTEMPT_LIMIT :: nat where "DISCOUNT_ATTEMPT_LIMIT = 10"

definition DISCOUNT_ATTEMPT_WINDOW_MS :: int where "DISCOUNT_ATTEMPT_WINDOW_MS = 15 * 60 * 1000"

definition co_normalizeDiscountCode :: "string \<Rightarrow> string" where
  "co_normalizeDiscountCode code = toUpperCase (trim code)"

subsection \<open>What the values guarantee\<close>

definition co_item_ok :: "checkout_item \<Rightarrow> bool" where
  "co_item_ok i = (0 < ki_quantity i \<and> 0 \<le> ki_unitPriceAmountMinor i \<and> \<not> blank (ki_productRef i))"

lemma CheckoutItem_create_ok: "CheckoutItem_create r q u k m = Inr i \<Longrightarrow> co_item_ok i"
  by (auto simp: CheckoutItem_create_def co_item_ok_def blank_def isInteger_iff Let_def split: if_splits)

definition subtotal :: "checkout_item list \<Rightarrow> int" where
  "subtotal items = sum_list (map lineTotalMinor items)"

lemma fold_subtotal: "fold (\<lambda>item acc. acc + lineTotalMinor item) items acc = acc + subtotal items"
  by (induction items arbitrary: acc) (auto simp: subtotal_def)

lemma subtotal_nonneg: "list_all co_item_ok items \<Longrightarrow> 0 \<le> subtotal items"
  by (induction items) (auto simp: subtotal_def co_item_ok_def lineTotalMinor_def)

text \<open>The figures of a total, whatever the ports answered.\<close>

definition totals_add_up :: "checkout_totals \<Rightarrow> bool" where
  "totals_add_up t =
     (tt_totalMinor t = max 0 (tt_subtotalMinor t + tt_shippingMinor t - tt_shippingDiscountMinor t -
        tt_discountMinor t + (if tt_taxIncluded t then 0 else tt_taxMinor t)) \<and>
      tt_shippingDiscountMinor t \<le> tt_shippingMinor t \<and>
      (0 \<le> tt_shippingMinor t \<longrightarrow> 0 \<le> tt_shippingDiscountMinor t))"

lemma assemble_adds_up: "totals_add_up (CheckoutTotals_assemble items tax sh d k x)"
  by (simp add: totals_add_up_def CheckoutTotals_assemble_def Let_def)

lemma assemble_sel [simp]:
  "tt_subtotalMinor (CheckoutTotals_assemble items tax sh d k x) = subtotal items"
  "tt_taxMinor (CheckoutTotals_assemble items tax sh d k x) = tax"
  "tt_shippingMinor (CheckoutTotals_assemble items tax sh d k x) = sh"
  "tt_discountMinor (CheckoutTotals_assemble items tax sh d k x) = d"
  "tt_currency (CheckoutTotals_assemble items tax sh d k x) = k"
  by (simp_all add: CheckoutTotals_assemble_def Let_def fold_subtotal)

lemma co_normalizeDiscountCode_idem [simp]:
  "co_normalizeDiscountCode (co_normalizeDiscountCode code) = co_normalizeDiscountCode code"
  by (simp add: co_normalizeDiscountCode_def trim_upper)

text \<open>A stored phone number is what its shopper sees again: normalising it changes nothing.\<close>

lemma normalizePhone_idem: "PHONE_PATTERN (normalizePhone p) \<Longrightarrow> normalizePhone (normalizePhone p) = normalizePhone p"
proof -
  assume "PHONE_PATTERN (normalizePhone p)"
  then have plain: "u = 43 \<or> (48 \<le> u \<and> u \<le> 57)" if "u \<in> set (normalizePhone p)" for u
    using that by (auto simp: PHONE_PATTERN_def Let_def list_all_iff split: list.splits if_splits)
  define q where "q = normalizePhone p"
  have "toAsciiDigits q = q"
    unfolding toAsciiDigits_def using plain by (intro map_idI) (fastforce simp: q_def)
  moreover have "filter (\<lambda>u. \<not> (unit_space u \<or> u = 45 \<or> u = 40 \<or> u = 41)) q = q"
    using plain by (intro filter_True) (fastforce simp: q_def unit_space_def)
  ultimately show ?thesis by (simp add: normalizePhone_def [of q] flip: q_def)
qed

lemma ContactEmail_normal: "ContactEmail_create v = Inr e \<Longrightarrow> toLowerCase e = e"
  by (auto simp: ContactEmail_create_def Let_def split: if_splits)

lemma province_checked:
  "provinceProblem country p = None \<Longrightarrow> hasProvinces country \<Longrightarrow>
     \<exists>code. p = Some code \<and> isProvinceOf country (trim code)"
  by (auto simp: provinceProblem_def Let_def split: if_splits option.splits)

end
