(* ===== verification/Checkout.thy ===== *)
theory Checkout
  imports CheckoutValues Lifecycle
begin

section \<open>The checkout session\<close>

text \<open>
  services/checkout/src/domain/checkout-session.ts. A session is open while it is started or locked, and then
  ends completed, failed or expired. Setters answer through \<open>set_if_open\<close>. A session holds snapshots that other
  contexts computed and assembles them into totals.
\<close>

subsection \<open>State (checkout-state.ts)\<close>

datatype checkout_state = CoStarted | CoLocked | CoCompleted | CoFailed | CoExpired

fun checkout_state_name :: "checkout_state \<Rightarrow> string" where
  "checkout_state_name CoStarted = ''started''"
| "checkout_state_name CoLocked = ''locked''"
| "checkout_state_name CoCompleted = ''completed''"
| "checkout_state_name CoFailed = ''failed''"
| "checkout_state_name CoExpired = ''expired''"

definition isStarted :: "checkout_state \<Rightarrow> bool" where
  "isStarted st = (st = CoStarted)"

definition isOpen :: "checkout_state \<Rightarrow> bool" where
  "isOpen st = (st = CoStarted \<or> st = CoLocked)"

datatype checkout_event =
    CheckoutCompleted string string string
  | CheckoutFailed string string string
  | CheckoutRecalculated string int int int int int string
  | CheckoutLocked string "string option"
  | CheckoutExpired string "string option"

record checkout = "checkout_event aggregate" +
  co_cartRef :: string
  co_customerRef :: "string option"
  co_sessionRef :: string
  co_currency :: string
  co_state :: checkout_state
  co_orderRef :: "string option"
  co_items :: "checkout_item list"
  co_billingAddress :: "checkout_address option"
  co_shippingAddress :: "checkout_address option"
  co_contactEmail :: "string option"
  co_shippingSelection :: "shipping_selection option"
  co_paymentSelection :: "payment_selection option"
  co_paymentIntentRef :: "string option"
  co_taxMinor :: "int option"
  co_taxIncluded :: "bool option"
  co_discountMinor :: "int option"
  co_totals :: "checkout_totals option"
  co_discountCodes :: "string list"
  co_discountSnapshot :: "discount_snapshot option"
  co_rejectedCodeAttempts :: nat
  co_codeAttemptsWindowStartedAt :: "timestamp option"

record order_draft =
  dr_cartRef :: string
  dr_customerRef :: "string option"
  dr_contactEmail :: "string option"
  dr_items :: "checkout_item list"
  dr_billingAddress :: checkout_address
  dr_shippingAddress :: checkout_address
  dr_totals :: checkout_totals
  dr_shippingMethod :: "string option"
  dr_discounts :: "applied_snapshot list"

record payment_intent_request =
  pir_customerRef :: "string option"
  pir_paymentMethodRef :: string
  pir_provider :: string
  pir_amountMinor :: int
  pir_currency :: string

type_synonym checkout_action = "(domain_error, checkout, unit) action"

subsection \<open>Operations\<close>

definition CheckoutSession_start :: "string \<Rightarrow> string \<Rightarrow> string option \<Rightarrow> string \<Rightarrow> string \<Rightarrow> checkout" where
  "CheckoutSession_start sid cartRef customerRef sessionRef cur =
     \<lparr>agg_id = sid, agg_version = 0, agg_events = [], co_cartRef = cartRef, co_customerRef = customerRef,
      co_sessionRef = sessionRef, co_currency = cur, co_state = CoStarted, co_orderRef = None, co_items = [],
      co_billingAddress = None, co_shippingAddress = None, co_contactEmail = None, co_shippingSelection = None,
      co_paymentSelection = None, co_paymentIntentRef = None, co_taxMinor = None, co_taxIncluded = None,
      co_discountMinor = None, co_totals = None, co_discountCodes = [], co_discountSnapshot = None,
      co_rejectedCodeAttempts = 0, co_codeAttemptsWindowStartedAt = None\<rparr>"

definition closed_error :: "checkout \<Rightarrow> domain_error" where
  "closed_error c = BusinessRuleError
     (''Checkout session is '' @ checkout_state_name (co_state c) @ '' and can no longer be modified'')"

definition co_ensureOpen :: checkout_action where
  "co_ensureOpen = require (\<lambda>c. isOpen (co_state c)) closed_error"

definition set_if_open :: "(checkout \<Rightarrow> checkout) \<Rightarrow> checkout_action" where
  "set_if_open f = then_do co_ensureOpen (modify f)"

definition co_loadItems :: "checkout_item list \<Rightarrow> checkout_action" where
  "co_loadItems items = set_if_open (\<lambda>c. c\<lparr>co_items := items\<rparr>)"

definition co_setBillingAddress :: "checkout_address \<Rightarrow> checkout_action" where
  "co_setBillingAddress address = set_if_open (\<lambda>c. c\<lparr>co_billingAddress := Some address\<rparr>)"

definition co_setShippingAddress :: "checkout_address \<Rightarrow> checkout_action" where
  "co_setShippingAddress address = set_if_open (\<lambda>c. c\<lparr>co_shippingAddress := Some address\<rparr>)"

definition co_setContactEmail :: "string \<Rightarrow> checkout_action" where
  "co_setContactEmail email = set_if_open (\<lambda>c. c\<lparr>co_contactEmail := Some email\<rparr>)"

definition co_selectShipping :: "shipping_selection \<Rightarrow> checkout_action" where
  "co_selectShipping selection = set_if_open (\<lambda>c. c\<lparr>co_shippingSelection := Some selection\<rparr>)"

definition co_selectPayment :: "payment_selection \<Rightarrow> checkout_action" where
  "co_selectPayment selection = set_if_open (\<lambda>c. c\<lparr>co_paymentSelection := Some selection\<rparr>)"

text \<open>Not gated by \<open>co_ensureOpen\<close>: payment starts after the order exists.\<close>

definition co_attachPaymentIntent :: "string \<Rightarrow> checkout_action" where
  "co_attachPaymentIntent ref =
     then_do (require (\<lambda>c. co_orderRef c \<noteq> None)
        (\<lambda>_. BusinessRuleError ''Payment can only be initiated for a completed checkout''))
    (then_do (require (\<lambda>c. co_paymentSelection c \<noteq> None)
        (\<lambda>_. BusinessRuleError ''Payment cannot be initiated before a payment method is selected''))
    (then_do (require (\<lambda>c. \<not> (co_paymentIntentRef c \<noteq> None \<and> co_paymentIntentRef c \<noteq> Some ref))
        (\<lambda>_. BusinessRuleError ''This checkout already has a payment intent''))
     (modify (\<lambda>c. c\<lparr>co_paymentIntentRef := Some ref\<rparr>))))"

definition co_applyTaxSnapshot :: "int \<Rightarrow> bool \<Rightarrow> checkout_action" where
  "co_applyTaxSnapshot taxMinor included =
     set_if_open (\<lambda>c. c\<lparr>co_taxMinor := Some taxMinor, co_taxIncluded := Some included\<rparr>)"

definition co_applyPromotionSnapshot :: "int \<Rightarrow> checkout_action" where
  "co_applyPromotionSnapshot discountMinor = set_if_open (\<lambda>c. c\<lparr>co_discountMinor := Some discountMinor\<rparr>)"

definition co_enterDiscountCode :: "string \<Rightarrow> checkout_action" where
  "co_enterDiscountCode code = then_do co_ensureOpen (\<lambda>c.
     let normalized = co_normalizeDiscountCode code in
     if normalized \<in> set (co_discountCodes c) then (Inr (), c)
     else if CO_MAX_DISCOUNT_CODES \<le> length (co_discountCodes c)
     then (Inl (BusinessRuleError ''TOO_MANY_CODES: at most 5 discount codes''), c)
     else (Inr (), c\<lparr>co_discountCodes := co_discountCodes c @ [normalized]\<rparr>))"

definition co_removeDiscountCode :: "string \<Rightarrow> checkout_action" where
  "co_removeDiscountCode code =
     set_if_open (\<lambda>c. c\<lparr>co_discountCodes := filter (\<lambda>k. k \<noteq> co_normalizeDiscountCode code) (co_discountCodes c)\<rparr>)"

definition co_applyDiscountSnapshot :: "discount_snapshot \<Rightarrow> checkout_action" where
  "co_applyDiscountSnapshot snapshot =
     set_if_open (\<lambda>c. c\<lparr>co_discountSnapshot := Some snapshot, co_discountMinor := Some (ds_orderDiscountMinor snapshot)\<rparr>)"

definition co_recordRejectedDiscountCode :: "timestamp \<Rightarrow> checkout_action" where
  "co_recordRejectedDiscountCode now = set_if_open (\<lambda>c.
     case co_codeAttemptsWindowStartedAt c of
       None \<Rightarrow> c\<lparr>co_codeAttemptsWindowStartedAt := Some now, co_rejectedCodeAttempts := 1\<rparr>
     | Some start \<Rightarrow>
         if DISCOUNT_ATTEMPT_WINDOW_MS \<le> now - start
         then c\<lparr>co_codeAttemptsWindowStartedAt := Some now, co_rejectedCodeAttempts := 1\<rparr>
         else c\<lparr>co_rejectedCodeAttempts := co_rejectedCodeAttempts c + 1\<rparr>)"

definition isDiscountCodeEntryLocked :: "timestamp \<Rightarrow> checkout \<Rightarrow> bool" where
  "isDiscountCodeEntryLocked now c =
     (case co_codeAttemptsWindowStartedAt c of
        None \<Rightarrow> False
      | Some start \<Rightarrow> now - start < DISCOUNT_ATTEMPT_WINDOW_MS \<and> DISCOUNT_ATTEMPT_LIMIT \<le> co_rejectedCodeAttempts c)"

definition or_zero :: "int option \<Rightarrow> int" where
  "or_zero x = (case x of Some n \<Rightarrow> n | None \<Rightarrow> 0)"

definition selected_rate :: "checkout \<Rightarrow> int" where
  "selected_rate c = or_zero (map_option ss_rateAmountMinor (co_shippingSelection c))"

definition shipping_discount :: "checkout \<Rightarrow> int" where
  "shipping_discount c = or_zero (map_option ds_shippingDiscountMinor (co_discountSnapshot c))"

definition assembled_totals :: "checkout \<Rightarrow> checkout_totals" where
  "assembled_totals c = CheckoutTotals_assemble (co_items c) (or_zero (co_taxMinor c)) (selected_rate c)
     (or_zero (co_discountMinor c)) (co_currency c)
     \<lparr>te_taxIncluded = (case co_taxIncluded c of Some b \<Rightarrow> b | None \<Rightarrow> False),
      te_shippingName = Option.bind (co_shippingSelection c) ss_name,
      te_shippingDiscountMinor = shipping_discount c\<rparr>"

definition co_recalculateTotals :: "string \<Rightarrow> timestamp \<Rightarrow> checkout_action" where
  "co_recalculateTotals eventId occurredAt =
     then_do co_ensureOpen
    (then_do (require (\<lambda>c. length (co_items c) \<noteq> 0)
        (\<lambda>_. BusinessRuleError ''Cannot recalculate totals for an empty checkout''))
     (modify (\<lambda>c. let t = assembled_totals c in
        addDomainEvent eventId occurredAt
          (CheckoutRecalculated (co_cartRef c) (tt_subtotalMinor t) (tt_taxMinor t) (tt_shippingMinor t)
             (tt_discountMinor t) (tt_totalMinor t) (tt_currency t))
          (c\<lparr>co_totals := Some t\<rparr>))))"

definition co_lock :: "string \<Rightarrow> timestamp \<Rightarrow> checkout_action" where
  "co_lock eventId occurredAt =
     then_do (require (\<lambda>c. isStarted (co_state c)) (\<lambda>c. BusinessRuleError
        (''Checkout session is '' @ checkout_state_name (co_state c) @ '' and cannot be locked'')))
     (modify (\<lambda>c. addDomainEvent eventId occurredAt (CheckoutLocked (co_cartRef c) (co_customerRef c))
        (c\<lparr>co_state := CoLocked\<rparr>)))"

definition co_expire :: "string \<Rightarrow> timestamp \<Rightarrow> checkout_action" where
  "co_expire eventId occurredAt = set_if_open (\<lambda>c.
     addDomainEvent eventId occurredAt (CheckoutExpired (co_cartRef c) (co_customerRef c)) (c\<lparr>co_state := CoExpired\<rparr>))"

definition customer_or_empty :: "checkout \<Rightarrow> string" where
  "customer_or_empty c = (case co_customerRef c of Some r \<Rightarrow> r | None \<Rightarrow> '''')"

definition co_complete :: "string \<Rightarrow> string \<Rightarrow> timestamp \<Rightarrow> checkout_action" where
  "co_complete orderRef eventId occurredAt = set_if_open (\<lambda>c.
     addDomainEvent eventId occurredAt (CheckoutCompleted (co_cartRef c) (customer_or_empty c) orderRef)
       (c\<lparr>co_state := CoCompleted, co_orderRef := Some orderRef\<rparr>))"

definition co_fail :: "string \<Rightarrow> string \<Rightarrow> timestamp \<Rightarrow> checkout_action" where
  "co_fail reason eventId occurredAt = set_if_open (\<lambda>c.
     addDomainEvent eventId occurredAt (CheckoutFailed (co_cartRef c) (customer_or_empty c) reason)
       (c\<lparr>co_state := CoFailed\<rparr>))"

definition generateOrderDraft :: "checkout \<Rightarrow> (domain_error, order_draft) result" where
  "generateOrderDraft c =
     (if length (co_items c) = 0 then Inl (BusinessRuleError ''Cannot generate an order draft with no items'')
      else case (co_billingAddress c, co_shippingAddress c) of
        (Some billing, Some shipping) \<Rightarrow>
          (case co_totals c of
             None \<Rightarrow> Inl (BusinessRuleError ''Cannot generate an order draft before totals are calculated'')
           | Some totals \<Rightarrow> Inr
               \<lparr>dr_cartRef = co_cartRef c, dr_customerRef = co_customerRef c, dr_contactEmail = co_contactEmail c,
                dr_items = co_items c, dr_billingAddress = billing, dr_shippingAddress = shipping,
                dr_totals = totals, dr_shippingMethod = map_option ss_method (co_shippingSelection c),
                dr_discounts = (case co_discountSnapshot c of Some s \<Rightarrow> ds_applied s | None \<Rightarrow> [])\<rparr>)
      | _ \<Rightarrow> Inl (BusinessRuleError ''Cannot generate an order draft without both addresses''))"

definition generatePaymentIntentRequest :: "checkout \<Rightarrow> (domain_error, payment_intent_request) result" where
  "generatePaymentIntentRequest c =
     (case co_paymentSelection c of
        None \<Rightarrow> Inl (BusinessRuleError ''Cannot generate a payment intent request without a payment selection'')
      | Some sel \<Rightarrow>
          (case co_totals c of
             None \<Rightarrow> Inl (BusinessRuleError ''Cannot generate a payment intent request before totals are calculated'')
           | Some totals \<Rightarrow> Inr
               \<lparr>pir_customerRef = co_customerRef c, pir_paymentMethodRef = ps_paymentMethodRef sel,
                pir_provider = ps_provider sel, pir_amountMinor = tt_totalMinor totals,
                pir_currency = tt_currency totals\<rparr>))"

definition hasDiscountState :: "checkout \<Rightarrow> bool" where
  "hasDiscountState c = (0 < length (co_discountCodes c) \<or> co_discountSnapshot c \<noteq> None)"

subsection \<open>Calls\<close>

datatype checkout_call =
    CoLoad "checkout_item list"
  | CoBilling checkout_address
  | CoShipTo checkout_address
  | CoEmail string
  | CoShipping shipping_selection
  | CoPayment payment_selection
  | CoIntent string
  | CoTax int bool
  | CoPromotion int
  | CoEnter string
  | CoRemove string
  | CoDiscount discount_snapshot
  | CoRejected timestamp
  | CoRecalculate string timestamp
  | CoLock string timestamp
  | CoExpire string timestamp
  | CoComplete string string timestamp
  | CoFail string string timestamp

fun co_step :: "checkout_call \<Rightarrow> checkout_action" where
  "co_step (CoLoad items) = co_loadItems items"
| "co_step (CoBilling a) = co_setBillingAddress a"
| "co_step (CoShipTo a) = co_setShippingAddress a"
| "co_step (CoEmail e) = co_setContactEmail e"
| "co_step (CoShipping sel) = co_selectShipping sel"
| "co_step (CoPayment sel) = co_selectPayment sel"
| "co_step (CoIntent r) = co_attachPaymentIntent r"
| "co_step (CoTax n inc) = co_applyTaxSnapshot n inc"
| "co_step (CoPromotion n) = co_applyPromotionSnapshot n"
| "co_step (CoEnter k) = co_enterDiscountCode k"
| "co_step (CoRemove k) = co_removeDiscountCode k"
| "co_step (CoDiscount s) = co_applyDiscountSnapshot s"
| "co_step (CoRejected now) = co_recordRejectedDiscountCode now"
| "co_step (CoRecalculate e t) = co_recalculateTotals e t"
| "co_step (CoLock e t) = co_lock e t"
| "co_step (CoExpire e t) = co_expire e t"
| "co_step (CoComplete r e t) = co_complete r e t"
| "co_step (CoFail why e t) = co_fail why e t"

lemmas co_ops = co_loadItems_def co_setBillingAddress_def co_setShippingAddress_def co_setContactEmail_def
  co_selectShipping_def co_selectPayment_def co_attachPaymentIntent_def co_applyTaxSnapshot_def
  co_applyPromotionSnapshot_def co_enterDiscountCode_def co_removeDiscountCode_def co_applyDiscountSnapshot_def
  co_recordRejectedDiscountCode_def co_recalculateTotals_def co_lock_def co_expire_def co_complete_def co_fail_def

lemma set_if_open_apply:
  "set_if_open f c = (if isOpen (co_state c) then (Inr (), f c) else (Inl (closed_error c), c))"
  by (simp add: set_if_open_def co_ensureOpen_def then_do_apply)

lemmas co_plumbing = set_if_open_apply co_ensureOpen_def then_do_apply Let_def addDomainEvent_def

text \<open>A method that throws leaves the session as it was.\<close>

lemma co_step_atomic: "atomic (co_step call)"
  by (cases call) (auto simp: atomic_def co_ops co_plumbing split: if_splits)

lemma co_step_id [simp]: "agg_id (snd (co_step call c)) = agg_id c"
  by (cases call) (auto simp: co_ops co_plumbing split: option.splits)

subsection \<open>The well-formed session\<close>

definition codes_ok :: "string list \<Rightarrow> bool" where
  "codes_ok codes = (distinct codes \<and> length codes \<le> CO_MAX_DISCOUNT_CODES \<and>
     (\<forall>k\<in>set codes. co_normalizeDiscountCode k = k))"

definition session_wf :: "checkout \<Rightarrow> bool" where
  "session_wf c \<longleftrightarrow>
     codes_ok (co_discountCodes c) \<and> list_all co_item_ok (co_items c) \<and>
     (\<forall>t. co_totals c = Some t \<longrightarrow> totals_add_up t \<and> 0 \<le> tt_subtotalMinor t \<and> tt_currency t = co_currency c) \<and>
     (co_orderRef c \<noteq> None \<longleftrightarrow> co_state c = CoCompleted) \<and>
     (co_paymentIntentRef c \<noteq> None \<longrightarrow> co_orderRef c \<noteq> None \<and> co_paymentSelection c \<noteq> None) \<and>
     (co_codeAttemptsWindowStartedAt c = None \<longleftrightarrow> co_rejectedCodeAttempts c = 0)"

fun valid_call :: "checkout_call \<Rightarrow> bool" where
  "valid_call (CoLoad items) = list_all co_item_ok items"
| "valid_call _ = True"

lemma codes_ok_enter:
  "codes_ok ks \<Longrightarrow> co_normalizeDiscountCode k \<notin> set ks \<Longrightarrow> length ks < CO_MAX_DISCOUNT_CODES \<Longrightarrow>
     codes_ok (ks @ [co_normalizeDiscountCode k])"
  by (auto simp: codes_ok_def)

lemma codes_ok_filter: "codes_ok ks \<Longrightarrow> codes_ok (filter P ks)"
  using le_trans [OF length_filter_le [of P ks]] by (simp add: codes_ok_def)

lemma assembled_totals_wf:
  "list_all co_item_ok (co_items c) \<Longrightarrow>
     totals_add_up (assembled_totals c) \<and> 0 \<le> tt_subtotalMinor (assembled_totals c) \<and>
     tt_currency (assembled_totals c) = co_currency c"
  by (simp add: assembled_totals_def assemble_adds_up subtotal_nonneg)

lemma co_step_wf:
  assumes "session_wf c" "valid_call call"
  shows "session_wf (snd (co_step call c))"
proof -
  note wf = assms(1) [unfolded session_wf_def]
  have ref: "isOpen (co_state c) \<Longrightarrow> co_orderRef c = None" "isOpen (co_state c) \<Longrightarrow> co_paymentIntentRef c = None"
    using wf by (auto simp: isOpen_def)
  show ?thesis
  proof (cases call)
    case (CoRecalculate e t)
    then show ?thesis using wf assembled_totals_wf [of c]
      by (auto simp: session_wf_def co_ops co_plumbing)
  next
    case (CoEnter k)
    then show ?thesis using wf codes_ok_enter [of "co_discountCodes c" k]
      by (simp add: session_wf_def co_ops co_plumbing; blast)
  next
    case (CoRemove k)
    then show ?thesis using wf codes_ok_filter [of "co_discountCodes c"]
      by (simp add: session_wf_def co_ops co_plumbing; blast)
  next
    case (CoComplete r e t)
    then show ?thesis using wf ref by (simp add: session_wf_def co_ops co_plumbing; blast)
  next
    case (CoFail r e t)
    then show ?thesis using wf ref by (simp add: session_wf_def co_ops co_plumbing; blast)
  next
    case (CoExpire e t)
    then show ?thesis using wf ref by (simp add: session_wf_def co_ops co_plumbing; blast)
  next
    case (CoLock e t)
    then show ?thesis using wf by (simp add: session_wf_def co_ops co_plumbing isStarted_def; auto)
  next
    case (CoRejected t)
    then show ?thesis using wf by (simp add: session_wf_def co_ops co_plumbing split: option.split; blast)
  qed (use wf assms(2) in \<open>simp add: session_wf_def co_ops co_plumbing; blast\<close>)+
qed

lemma co_step_currency: "co_currency (snd (co_step call c)) = co_currency c"
  by (cases call) (auto simp: co_ops co_plumbing split: option.splits)

lemma runs_currency: "co_currency (runs co_step calls c) = co_currency c"
  by (induction calls arbitrary: c) (simp_all add: co_step_currency)

interpretation session: invariant_object session_wf valid_call co_step
  by unfold_locales (rule co_step_wf)

lemma start_wf: "session_wf (CheckoutSession_start sid cartRef customerRef sessionRef cur)"
  by (simp add: session_wf_def CheckoutSession_start_def codes_ok_def)

text \<open>
  Whatever calls reach a session after its start, accepted or refused, with validated lines: it holds at
  most five distinct normalised codes; its totals, when assembled, are the sum of their parts, never negative
  and in the session's currency; it has an order exactly when it is completed, and a payment intent only with
  an order and a chosen payment method.
\<close>

lemma session_stays_well_formed:
  assumes "c = runs co_step calls (CheckoutSession_start sid cartRef customerRef sessionRef cur)"
    and "list_all valid_call calls"
  shows "(distinct (co_discountCodes c) \<and> length (co_discountCodes c) \<le> 5 \<and>
      (\<forall>k\<in>set (co_discountCodes c). co_normalizeDiscountCode k = k)) \<and>
    (\<forall>t. co_totals c = Some t \<longrightarrow> 0 \<le> tt_totalMinor t \<and> totals_add_up t \<and> tt_currency t = cur) \<and>
    (co_orderRef c \<noteq> None \<longleftrightarrow> co_state c = CoCompleted) \<and>
    (co_paymentIntentRef c \<noteq> None \<longrightarrow> co_orderRef c \<noteq> None \<and> co_paymentSelection c \<noteq> None)"
proof -
  have "session_wf c" using assms session.runs_inv [OF start_wf] by simp
  moreover have "co_currency c = cur"
    using assms(1) by (simp add: runs_currency) (simp add: CheckoutSession_start_def)
  ultimately show ?thesis
    by (auto simp: session_wf_def codes_ok_def CO_MAX_DISCOUNT_CODES_def totals_add_up_def)
qed

lemma session_stays_well_formed_witness:
  "tt_totalMinor (the (co_totals (runs co_step
     [CoLoad [\<lparr>ki_productRef = ''p'', ki_quantity = 2, ki_unitPriceAmountMinor = 500, ki_currency = ''USD'',
        ki_merchandise = None\<rparr>], CoEnter '' save10 '', CoTax 90 False, CoRecalculate ''e1'' 5,
      CoComplete ''order-1'' ''e2'' 6, CoLoad []]
     (CheckoutSession_start ''s'' ''cart'' None ''web'' ''USD'')))) = 1090 \<and>
   co_orderRef (runs co_step
     [CoLoad [\<lparr>ki_productRef = ''p'', ki_quantity = 2, ki_unitPriceAmountMinor = 500, ki_currency = ''USD'',
        ki_merchandise = None\<rparr>], CoEnter '' save10 '', CoTax 90 False, CoRecalculate ''e1'' 5,
      CoComplete ''order-1'' ''e2'' 6, CoLoad []]
     (CheckoutSession_start ''s'' ''cart'' None ''web'' ''USD'')) \<noteq> None"
proof -
  let ?calls = "[CoLoad [\<lparr>ki_productRef = ''p'', ki_quantity = 2, ki_unitPriceAmountMinor = 500, ki_currency = ''USD'',
        ki_merchandise = None\<rparr>], CoEnter '' save10 '', CoTax 90 False, CoRecalculate ''e1'' 5,
      CoComplete ''order-1'' ''e2'' 6, CoLoad []]"
  have "list_all valid_call ?calls" by code_simp
  from session_stays_well_formed [OF refl this] have
    "(co_orderRef (runs co_step ?calls (CheckoutSession_start ''s'' ''cart'' None ''web'' ''USD'')) \<noteq> None) =
     (co_state (runs co_step ?calls (CheckoutSession_start ''s'' ''cart'' None ''web'' ''USD'')) = CoCompleted)"
    by blast
  moreover have "co_state (runs co_step ?calls (CheckoutSession_start ''s'' ''cart'' None ''web'' ''USD'')) = CoCompleted"
    by code_simp
  moreover have "tt_totalMinor (the (co_totals (runs co_step ?calls
     (CheckoutSession_start ''s'' ''cart'' None ''web'' ''USD'')))) = 1090"
    by code_simp
  ultimately show ?thesis by simp
qed

subsection \<open>The closed session\<close>

definition frozen_as :: "checkout \<Rightarrow> checkout \<Rightarrow> bool" where
  "frozen_as c d \<longleftrightarrow> \<not> isOpen (co_state c) \<and> (\<exists>i. d = c\<lparr>co_paymentIntentRef := i\<rparr> \<and>
     (co_paymentIntentRef c \<noteq> None \<or> co_orderRef c = None \<longrightarrow> i = co_paymentIntentRef c))"

lemma closed_call:
  "\<not> isOpen (co_state d) \<Longrightarrow> \<nexists>r. call = CoIntent r \<Longrightarrow> snd (co_step call d) = d"
  by (cases call) (simp_all add: co_ops co_plumbing isOpen_def isStarted_def)

lemma snd_attach:
  "snd (co_attachPaymentIntent r d) =
     (if co_orderRef d \<noteq> None \<and> co_paymentSelection d \<noteq> None \<and> co_paymentIntentRef d = None
      then d\<lparr>co_paymentIntentRef := Some r\<rparr> else d)"
  by (auto simp: co_attachPaymentIntent_def co_plumbing)

lemma frozen_step:
  assumes "frozen_as c d"
  shows "frozen_as c (snd (co_step call d))"
proof (cases "\<exists>r. call = CoIntent r")
  case True
  then obtain r where r: "call = CoIntent r" by blast
  from assms obtain i where i: "\<not> isOpen (co_state c)" "d = c\<lparr>co_paymentIntentRef := i\<rparr>"
    "co_paymentIntentRef c \<noteq> None \<or> co_orderRef c = None \<longrightarrow> i = co_paymentIntentRef c"
    unfolding frozen_as_def by metis
  define j where "j = (if co_orderRef c \<noteq> None \<and> co_paymentSelection c \<noteq> None \<and> i = None then Some r else i)"
  have "snd (co_step call d) = c\<lparr>co_paymentIntentRef := j\<rparr>"
    by (simp add: r snd_attach i(2) j_def)
  moreover have "co_paymentIntentRef c \<noteq> None \<or> co_orderRef c = None \<longrightarrow> j = co_paymentIntentRef c"
    using i(3) by (auto simp: j_def)
  ultimately show ?thesis using i(1) unfolding frozen_as_def by metis
next
  case False
  moreover have "\<not> isOpen (co_state d)" using assms by (auto simp: frozen_as_def)
  ultimately have "snd (co_step call d) = d" using closed_call by blast
  with assms show ?thesis by simp
qed

interpretation frozen: invariant_object "frozen_as c" "\<lambda>_. True" co_step for c
  by unfold_locales (rule frozen_step)

text \<open>
  C12: Once a session is completed, failed or expired, no call changes it: under any calls it stays the
  same object but for the payment intent, which is recorded at most once and only on a session with an order.
  What is handed to Orders stays the same.
\<close>

theorem closed_session_frozen:
  assumes "\<not> isOpen (co_state c)"
  shows "\<exists>i. runs co_step calls c = c\<lparr>co_paymentIntentRef := i\<rparr> \<and>
      (co_paymentIntentRef c \<noteq> None \<or> co_orderRef c = None \<longrightarrow> i = co_paymentIntentRef c) \<and>
      generateOrderDraft (runs co_step calls c) = generateOrderDraft c"
proof -
  have "frozen_as c c" using assms by (auto simp: frozen_as_def intro: exI [of _ "co_paymentIntentRef c"])
  then have "frozen_as c (runs co_step calls c)" by (rule frozen.runs_inv) (simp add: list_all_iff)
  then obtain i where i: "runs co_step calls c = c\<lparr>co_paymentIntentRef := i\<rparr>"
    "co_paymentIntentRef c \<noteq> None \<or> co_orderRef c = None \<longrightarrow> i = co_paymentIntentRef c"
    unfolding frozen_as_def by metis
  moreover have "generateOrderDraft (c\<lparr>co_paymentIntentRef := i\<rparr>) = generateOrderDraft c"
    by (simp add: generateOrderDraft_def split: option.split)
  ultimately show ?thesis by auto
qed

lemma closed_session_frozen_witness:
  "\<exists>i. co_paymentIntentRef (runs co_step [CoIntent ''pi-1'', CoIntent ''pi-2'', CoEnter ''late'', CoExpire ''e'' 9]
     ((CheckoutSession_start ''s'' ''cart'' None ''web'' ''USD'')\<lparr>co_state := CoCompleted, co_orderRef := Some ''o'',
        co_paymentSelection := Some \<lparr>ps_paymentMethodRef = ''pm'', ps_provider = ''stripe''\<rparr>\<rparr>)) = i \<and>
     i = Some ''pi-1''"
proof -
  let ?c = "(CheckoutSession_start ''s'' ''cart'' None ''web'' ''USD'')\<lparr>co_state := CoCompleted, co_orderRef := Some ''o'',
        co_paymentSelection := Some \<lparr>ps_paymentMethodRef = ''pm'', ps_provider = ''stripe''\<rparr>\<rparr>"
  have "\<not> isOpen (co_state ?c)" by code_simp
  from closed_session_frozen [OF this, of "[CoIntent ''pi-1'', CoIntent ''pi-2'', CoEnter ''late'', CoExpire ''e'' 9]"]
  obtain i where "runs co_step [CoIntent ''pi-1'', CoIntent ''pi-2'', CoEnter ''late'', CoExpire ''e'' 9] ?c =
      ?c\<lparr>co_paymentIntentRef := i\<rparr>" by blast
  moreover have "co_paymentIntentRef (runs co_step
      [CoIntent ''pi-1'', CoIntent ''pi-2'', CoEnter ''late'', CoExpire ''e'' 9] ?c) = Some ''pi-1''"
    by code_simp
  ultimately show ?thesis by simp
qed

subsection \<open>Guessing codes\<close>

text \<open>
  Rejected codes entered at the times \<open>ts\<close>: a locked entry is refused before it is looked at, any other is
  counted. The result lists the times of the counted ones.
\<close>

fun rejections :: "timestamp list \<Rightarrow> checkout \<Rightarrow> timestamp list" where
  "rejections [] c = []"
| "rejections (t # ts) c =
     (if isDiscountCodeEntryLocked t c then rejections ts c
      else t # rejections ts (snd (co_recordRejectedDiscountCode t c)))"

abbreviation in_window :: "timestamp \<Rightarrow> timestamp list \<Rightarrow> timestamp list" where
  "in_window a ts \<equiv> filter (\<lambda>t. a \<le> t \<and> t < a + DISCOUNT_ATTEMPT_WINDOW_MS) ts"

text \<open>
  Of the counted times so far: those of the current window are at most ten, and an interval of that length
  which reaches into the current window holds at most nine older ones.
\<close>

definition guesses_ok :: "checkout \<Rightarrow> timestamp list \<Rightarrow> bool" where
  "guesses_ok c R \<longleftrightarrow> isOpen (co_state c) \<and> (\<forall>a. length (in_window a R) \<le> 19) \<and>
     (case co_codeAttemptsWindowStartedAt c of
        None \<Rightarrow> R = []
      | Some w \<Rightarrow> w \<in> set R \<and> (\<forall>t\<in>set R. t < w + DISCOUNT_ATTEMPT_WINDOW_MS) \<and>
          length (filter (\<lambda>t. w \<le> t) R) = co_rejectedCodeAttempts c \<and> co_rejectedCodeAttempts c \<le> DISCOUNT_ATTEMPT_LIMIT \<and>
          (\<forall>a. w < a + DISCOUNT_ATTEMPT_WINDOW_MS \<longrightarrow> length (filter (\<lambda>t. a \<le> t \<and> t < w) R) \<le> 9))"

lemma length_filter_mono: "(\<And>t. t \<in> set R \<Longrightarrow> P t \<Longrightarrow> Q t) \<Longrightarrow> length (filter P R) \<le> length (filter Q R)"
  by (induction R) auto

lemma length_filter_split: "length (filter P R) = length (filter (\<lambda>t. P t \<and> t < w) R) + length (filter (\<lambda>t. P t \<and> \<not> t < (w::int)) R)"
  by (induction R) auto

lemma filter_pos: "w \<in> set R \<Longrightarrow> 1 \<le> length (filter (\<lambda>t. t = w) R)"
  by (induction R) auto

text \<open>The two parts of an interval around the start of a window.\<close>

lemma window_split:
  "length (in_window a R) \<le> length (filter (\<lambda>t. a \<le> t \<and> t < w) R) + length (filter (\<lambda>t. w \<le> t) R)"
proof -
  have "length (filter (\<lambda>t. (a \<le> t \<and> t < a + DISCOUNT_ATTEMPT_WINDOW_MS) \<and> t < w) R) \<le> length (filter (\<lambda>t. a \<le> t \<and> t < w) R)"
    "length (filter (\<lambda>t. (a \<le> t \<and> t < a + DISCOUNT_ATTEMPT_WINDOW_MS) \<and> \<not> t < w) R) \<le> length (filter (\<lambda>t. w \<le> t) R)"
    by (rule length_filter_mono; simp)+
  then show ?thesis using length_filter_split [of "\<lambda>t. a \<le> t \<and> t < a + DISCOUNT_ATTEMPT_WINDOW_MS" R w] by linarith
qed

lemma after_start:
  fixes w :: timestamp
  assumes "w \<in> set R" "length (filter (\<lambda>t. w \<le> t) R) \<le> 10"
  shows "length (filter (\<lambda>t. w < t) R) \<le> 9"
proof -
  have "length (filter (\<lambda>t. w \<le> t) R) = length (filter (\<lambda>t. t = w) R) + length (filter (\<lambda>t. w < t) R)"
    by (induction R) auto
  with assms filter_pos [OF assms(1)] show ?thesis by linarith
qed

lemma guesses_ok_step:
  assumes ok: "guesses_ok c R" and later: "\<forall>r\<in>set R. r \<le> t" and free: "\<not> isDiscountCodeEntryLocked t c"
  shows "guesses_ok (snd (co_recordRejectedDiscountCode t c)) (R @ [t])"
proof (cases "co_codeAttemptsWindowStartedAt c")
  case None
  with ok show ?thesis
    by (auto simp: guesses_ok_def co_recordRejectedDiscountCode_def co_plumbing DISCOUNT_ATTEMPT_LIMIT_def DISCOUNT_ATTEMPT_WINDOW_MS_def)
next
  case (Some w)
  note ok' = ok [unfolded guesses_ok_def Some option.case]
  have w: "w \<in> set R" "w \<le> t" using ok' later by auto
  show ?thesis
  proof (cases "DISCOUNT_ATTEMPT_WINDOW_MS \<le> t - w")
    case True
    have few: "length (filter (\<lambda>r. a \<le> r \<and> r < t) R) \<le> 9" if "t < a + DISCOUNT_ATTEMPT_WINDOW_MS" for a
    proof -
      have "length (filter (\<lambda>r. a \<le> r \<and> r < t) R) \<le> length (filter (\<lambda>r. w < r) R)"
        using that True by (intro length_filter_mono) auto
      also have "\<dots> \<le> 9" using ok' by (intro after_start) (auto simp: DISCOUNT_ATTEMPT_LIMIT_def)
      finally show ?thesis .
    qed
    have now: "length (filter (\<lambda>r. t \<le> r) R) = 0" using ok' True by (fastforce simp: filter_empty_conv)
    have "length (in_window a (R @ [t])) \<le> 19" for a
    proof (cases "t < a + DISCOUNT_ATTEMPT_WINDOW_MS")
      case True
      then show ?thesis using few [OF True] now window_split [of a "R @ [t]" t] by simp
    next
      case False
      then show ?thesis using ok' by simp
    qed
    with few now True ok' Some show ?thesis
      by (auto simp: guesses_ok_def co_recordRejectedDiscountCode_def co_plumbing DISCOUNT_ATTEMPT_LIMIT_def
          DISCOUNT_ATTEMPT_WINDOW_MS_def)
  next
    case False
    then have less: "co_rejectedCodeAttempts c < DISCOUNT_ATTEMPT_LIMIT"
      using free Some by (auto simp: isDiscountCodeEntryLocked_def)
    have "length (in_window a (R @ [t])) \<le> 19" for a
    proof (cases "w < a + DISCOUNT_ATTEMPT_WINDOW_MS")
      case True
      then have "length (filter (\<lambda>r. a \<le> r \<and> r < w) (R @ [t])) \<le> 9" using ok' w by auto
      moreover have "length (filter (\<lambda>r. w \<le> r) (R @ [t])) \<le> 10"
        using ok' w less by (auto simp: DISCOUNT_ATTEMPT_LIMIT_def)
      ultimately show ?thesis using window_split [of a "R @ [t]" w] by linarith
    next
      case False
      then show ?thesis using ok' w by simp
    qed
    with False less ok' Some w show ?thesis
      by (simp add: guesses_ok_def co_recordRejectedDiscountCode_def co_plumbing)
  qed
qed

lemma rejections_ok:
  "guesses_ok c R \<Longrightarrow> sorted ts \<Longrightarrow> \<forall>r\<in>set R. \<forall>t\<in>set ts. r \<le> t \<Longrightarrow>
     \<exists>d. guesses_ok d (R @ rejections ts c)"
proof (induction ts arbitrary: c R)
  case (Cons t ts)
  show ?case
  proof (cases "isDiscountCodeEntryLocked t c")
    case False
    then have "guesses_ok (snd (co_recordRejectedDiscountCode t c)) (R @ [t])"
      using Cons.prems by (intro guesses_ok_step) auto
    from Cons.IH [OF this] Cons.prems False show ?thesis by auto
  qed (use Cons in auto)
qed auto

text \<open>
  C13: However many codes are tried on a session and at whatever times, at most nineteen rejected codes are
  looked at within any fifteen minutes.
\<close>

theorem guesses_bounded:
  assumes "sorted ts"
  shows "length (in_window a (rejections ts (CheckoutSession_start sid cartRef customerRef sessionRef cur))) \<le> 19"
proof -
  have "guesses_ok (CheckoutSession_start sid cartRef customerRef sessionRef cur) []"
    by (simp add: guesses_ok_def CheckoutSession_start_def isOpen_def)
  from rejections_ok [OF this assms] show ?thesis by (auto simp: guesses_ok_def)
qed

text \<open>The windows are fixed, so nineteen are reached: ten at the end of one and the start of the next.\<close>

lemma nineteen_within_a_window:
  "length (in_window 1 (rejections (0 # replicate 9 899999 @ replicate 12 900000)
     (CheckoutSession_start ''s'' ''cart'' None ''web'' ''USD''))) = 19"
  by code_simp

lemma guesses_bounded_witness:
  "sorted (0 # replicate 9 899999 @ replicate 12 (900000 :: int)) \<and>
   length (in_window 1 (rejections (0 # replicate 9 899999 @ replicate 12 900000)
     (CheckoutSession_start ''s'' ''cart'' None ''web'' ''USD''))) \<le> 19"
proof
  show s: "sorted (0 # replicate 9 899999 @ replicate 12 (900000 :: int))" by code_simp
  show "length (in_window 1 (rejections (0 # replicate 9 899999 @ replicate 12 900000)
     (CheckoutSession_start ''s'' ''cart'' None ''web'' ''USD''))) \<le> 19"
    by (rule guesses_bounded [OF s])
qed

subsection \<open>What the guards leave open\<close>

text \<open>A lock does not stop changes: every setter asks for an open session, and a locked one is open.\<close>

lemma locked_session_still_changes:
  "co_state c = CoLocked \<Longrightarrow> co_loadItems items c = (Inr (), c\<lparr>co_items := items\<rparr>)"
  by (simp add: co_loadItems_def set_if_open_apply isOpen_def)

text \<open>Totals survive a change of the lines they were assembled from, and the order draft pairs the two.\<close>

lemma draft_totals_may_be_stale:
  assumes "isOpen (co_state c)" "generateOrderDraft c = Inr d" "items \<noteq> []"
  shows "generateOrderDraft (snd (co_loadItems items c)) = Inr (d\<lparr>dr_items := items\<rparr>)"
  using assms
  by (auto simp: co_loadItems_def set_if_open_apply generateOrderDraft_def split: option.splits if_splits)

end
