(* ===== verification/CheckoutService.thy ===== *)
theory CheckoutService
  imports Checkout AggregateService
begin

section \<open>Checkout use cases over the in-memory repository\<close>

text \<open>
  services/checkout/src/application. The other contexts sit behind ports (ports.ts). A port is any function
  of the calls made so far and of the request, so it may keep a state of its own, refuse or throw; every call
  is written to a log, under the session on whose behalf it was made; orders and payments with the answer.
  The service state is the repository, the outbox and that log.
\<close>

subsection \<open>Ports (ports.ts)\<close>

record evaluation_input =
  de_tenantId :: string
  de_items :: "checkout_item list"
  de_shipping :: "(string \<times> int) option"
  de_customerRef :: "string option"
  de_email :: "string option"
  de_codes :: "string list"

record promotion_query =
  pq_items :: "checkout_item list"
  pq_customerRef :: "string option"
  pq_promotionRef :: "string option"
  pq_currency :: string
  pq_tenantId :: string

record promotion_validation =
  pv_valid :: bool
  pv_discountMinor :: int

record tax_query =
  tq_items :: "checkout_item list"
  tq_destination :: checkout_address
  tq_shippingMinor :: int
  tq_currency :: string
  tq_tenantId :: string
  tq_orderDiscountMinor :: int
  tq_shippingDiscountMinor :: int

record tax_result =
  tr_taxMinor :: int
  tr_included :: bool

record shipping_query =
  sq_shippingAddress :: checkout_address
  sq_items :: "checkout_item list"
  sq_currency :: string
  sq_tenantId :: string

record shipping_quote =
  qu_method :: string
  qu_name :: string
  qu_rateAmountMinor :: js_number
  qu_description :: "string option"

record validity =
  va_valid :: bool
  va_reason :: "string option"

record order_request =
  rq_tenantId :: string
  rq_checkoutSessionId :: string
  rq_customerRef :: "string option"
  rq_contactEmail :: "string option"
  rq_currency :: string
  rq_items :: "checkout_item list"
  rq_billingAddress :: checkout_address
  rq_shippingAddress :: checkout_address
  rq_totals :: checkout_totals
  rq_shippingMethod :: "string option"
  rq_discounts :: "applied_snapshot list option"
  rq_idempotencyKey :: string

record usage_request =
  us_tenantId :: string
  us_orderRef :: string
  us_customerRef :: "string option"
  us_email :: "string option"
  us_applied :: "applied_snapshot list"

record payment_request =
  pr_tenantId :: string
  pr_orderRef :: string
  pr_provider :: string
  pr_amountMinor :: int
  pr_currency :: string

record payment_opened =
  pop_paymentIntentId :: string
  pop_status :: string
  pop_provider :: string
  pop_clientHandle :: "string option"

datatype port_event =
    Evaluated evaluation_input
  | PromotionChecked promotion_query
  | Taxed tax_query
  | Quoted shipping_query
  | PricesChecked "checkout_item list" string string
  | StockChecked "checkout_item list" string
  | OrderPlaced string order_request "(thrown, string) result"
  | StockReserved string string "checkout_item list" string
  | StockReleased string string string
  | OrderCancelled string string string "(thrown, unit) result"
  | UsageRecorded usage_request
  | MethodsAsked string
  | PaymentOpened string payment_request "(thrown, payment_opened) result"

type_synonym port_log = "port_event list"
type_synonym ('q, 'a) port = "port_log \<Rightarrow> 'q \<Rightarrow> (thrown, 'a) result"

record promotion_port =
  pp_validate :: "(promotion_query, promotion_validation) port"
  pp_evaluate :: "(evaluation_input, discount_snapshot) port"

record reservation_port =
  rp_reserve :: "(string \<times> checkout_item list \<times> string, (string, unit) result) port"
  rp_release :: "(string \<times> string, unit) port"

type_synonym tax_port = "(tax_query, tax_result) port"
type_synonym stock_port = "(checkout_item list \<times> string, validity) port"

subsection \<open>The service\<close>

record 'b checkout_service = "(checkout, 'b) agg_service" +
  cks_log :: port_log

type_synonym ('b, 'a) checkout_use_case = "('b checkout_service, 'a) use_case"
type_synonym work = "checkout \<times> port_log"
type_synonym 'a work_action = "(thrown, work, 'a) action"

definition CheckoutEventTranslator :: "checkout_event domain_event \<Rightarrow> checkout_event descriptor option" where
  "CheckoutEventTranslator event =
     (let desc = (\<lambda>ty. Some \<lparr>d_type = ty, d_eventVersion = 1, d_aggregateType = ''checkout_session'', d_payload = ev_data event\<rparr>)
      in case ev_data event of
           CheckoutCompleted k cu r \<Rightarrow> desc ''checkout.checkout_session.completed''
         | CheckoutFailed k cu why \<Rightarrow> desc ''checkout.checkout_session.failed''
         | CheckoutRecalculated k su ta sh di al cur \<Rightarrow> desc ''checkout.checkout_session.recalculated''
         | CheckoutLocked k cu \<Rightarrow> desc ''checkout.checkout_session.locked''
         | CheckoutExpired k cu \<Rightarrow> desc ''checkout.checkout_session.expired'')"

definition session_not_found :: domain_error where
  "session_not_found = NotFoundError ''Checkout session not found''"

text \<open>A port called on the way, outside of any \<^verbatim>\<open>try\<close>, and one whose failure the caller looks at.\<close>

definition attempt ::
  "('q, 'a) port \<Rightarrow> ((thrown, 'a) result \<Rightarrow> port_event) \<Rightarrow> 'q \<Rightarrow> ((thrown, 'a) result \<Rightarrow> ('b, 'c) checkout_use_case) \<Rightarrow>
     ('b, 'c) checkout_use_case" where
  "attempt port note q k s =
     (let r = port (cks_log s) q in k r (s\<lparr>cks_log := cks_log s @ [note r]\<rparr>))"

definition ask ::
  "('q, 'a) port \<Rightarrow> ((thrown, 'a) result \<Rightarrow> port_event) \<Rightarrow> 'q \<Rightarrow> ('a \<Rightarrow> ('b, 'c) checkout_use_case) \<Rightarrow>
     ('b, 'c) checkout_use_case" where
  "ask port note q k = attempt port note q (\<lambda>r s. case r of Inl e \<Rightarrow> (Inl e, s) | Inr x \<Rightarrow> k x s)"

text \<open>Calls on the live session, between port calls, inside a \<^verbatim>\<open>try\<close>.\<close>

definition call_port :: "('q, 'a) port \<Rightarrow> port_event \<Rightarrow> 'q \<Rightarrow> 'a work_action" where
  "call_port port event q = (\<lambda>(c, calls). (port calls q, (c, calls @ [event])))"

definition on_session :: "checkout_action \<Rightarrow> unit work_action" where
  "on_session act = (\<lambda>(c, calls). case act c of (r, c') \<Rightarrow> (mapError ThrownDomain r, (c', calls)))"

definition with_work :: "(checkout \<Rightarrow> 'a work_action) \<Rightarrow> 'a work_action" where
  "with_work f = (\<lambda>w. f (fst w) w)"

definition touch_work :: "string \<Rightarrow> work \<Rightarrow> 'b checkout_service \<Rightarrow> 'b checkout_service" where
  "touch_work tenant w s = touch_agg tenant (fst w) (s\<lparr>cks_log := snd w\<rparr>)"

definition try_session ::
  "string \<Rightarrow> 'a work_action \<Rightarrow> ('a \<Rightarrow> checkout \<Rightarrow> ('b, 'c) checkout_use_case) \<Rightarrow> checkout \<Rightarrow>
     ('b, 'c) checkout_use_case" where
  "try_session tenant act k c s =
     (case act (c, cks_log s) of
        (Inl (ThrownDomain e), w) \<Rightarrow> (Inr (Inl e), touch_work tenant w s)
      | (Inl other, w) \<Rightarrow> (Inl other, touch_work tenant w s)
      | (Inr x, w) \<Rightarrow> k x (fst w) (touch_work tenant w s))"

definition save_session ::
  "(checkout_event, 'b) agg_env \<Rightarrow> timestamp \<Rightarrow> string \<Rightarrow> (domain_error, 'a) result \<Rightarrow> checkout \<Rightarrow> ('b, 'a) checkout_use_case" where
  "save_session env now tenant out c = then_do (save_agg env now tenant c) (\<lambda>s. (Inr out, s))"

subsection \<open>Session details (start-checkout, checkout-details.use-cases.ts)\<close>

definition StartCheckout ::
  "(checkout_event, 'b) agg_env \<Rightarrow> string \<Rightarrow> timestamp \<Rightarrow> string \<Rightarrow> string \<Rightarrow> string option \<Rightarrow> string \<Rightarrow> string \<Rightarrow>
     ('b, string) checkout_use_case" where
  "StartCheckout env generated now tenant cartRef customerRef sessionRef cur =
     or_return (againstEmpty cartRef ''cartRef'') (\<lambda>_.
     or_return (againstEmpty sessionRef ''sessionRef'') (\<lambda>_.
     or_return (case customerRef of None \<Rightarrow> Inr [] | Some r \<Rightarrow> againstEmpty r ''customerRef'') (\<lambda>_.
     or_return (Money_create (jint 0) cur) (\<lambda>_.
     or_reject (UniqueEntityId_from generated) (\<lambda>sid.
       save_new env now tenant agg_id (CheckoutSession_start sid cartRef customerRef sessionRef cur))))))"

definition GetCheckoutSession :: "string \<Rightarrow> string \<Rightarrow> ('b, checkout) checkout_use_case" where
  "GetCheckoutSession tenant sid = lookup session_not_found (find_agg tenant sid) return_ok"

definition withSession ::
  "(checkout_event, 'b) agg_env \<Rightarrow> timestamp \<Rightarrow> string \<Rightarrow> string \<Rightarrow> checkout_action \<Rightarrow> ('b, string) checkout_use_case" where
  "withSession env now tenant sid mutate =
     lookup session_not_found (find_agg tenant sid)
       (try_session tenant (on_session mutate) (\<lambda>_ c. save_session env now tenant (Inr (agg_id c)) c))"

record raw_item =
  ri_productId :: string
  ri_quantity :: js_number
  ri_unitPriceAmountMinor :: js_number
  ri_currency :: string
  ri_variantId :: "string option"
  ri_sku :: "string option"
  ri_title :: "string option"
  ri_variantTitle :: "string option"

definition raw_merchandise :: "raw_item \<Rightarrow> item_merchandise option" where
  "raw_merchandise raw = map_option (\<lambda>v.
     \<lparr>im_variantRef = v, im_sku = (case ri_sku raw of Some x \<Rightarrow> x | None \<Rightarrow> ''''),
      im_title = (case ri_title raw of Some x \<Rightarrow> x | None \<Rightarrow> ''''), im_variantTitle = ri_variantTitle raw\<rparr>)
     (ri_variantId raw)"

fun read_items :: "raw_item list \<Rightarrow> (domain_error, checkout_item list) result" where
  "read_items [] = Inr []"
| "read_items (raw # raws) =
     bind_result (ProductRef_create (ri_productId raw)) (\<lambda>p.
     bind_result (CheckoutItem_create p (ri_quantity raw) (ri_unitPriceAmountMinor raw) (ri_currency raw)
       (raw_merchandise raw)) (\<lambda>item.
     map_ok (\<lambda>items. item # items) (read_items raws)))"

definition LoadItems ::
  "(checkout_event, 'b) agg_env \<Rightarrow> timestamp \<Rightarrow> string \<Rightarrow> string \<Rightarrow> raw_item list \<Rightarrow> ('b, string) checkout_use_case" where
  "LoadItems env now tenant sid raws =
     or_return (read_items raws) (\<lambda>items. withSession env now tenant sid (co_loadItems items))"

definition read_address :: "address_input \<Rightarrow> (domain_error, checkout_address) result" where
  "read_address i =
     bind_result (CheckoutAddress_create i) (\<lambda>a.
       case provinceProblem (ai_country i) (ai_province i) of Some e \<Rightarrow> Inl e | None \<Rightarrow> Inr a)"

definition SetBillingAddress ::
  "(checkout_event, 'b) agg_env \<Rightarrow> timestamp \<Rightarrow> string \<Rightarrow> string \<Rightarrow> address_input \<Rightarrow> ('b, string) checkout_use_case" where
  "SetBillingAddress env now tenant sid i =
     or_return (read_address i) (\<lambda>a. withSession env now tenant sid (co_setBillingAddress a))"

definition SetShippingAddress ::
  "(checkout_event, 'b) agg_env \<Rightarrow> timestamp \<Rightarrow> string \<Rightarrow> string \<Rightarrow> address_input \<Rightarrow> ('b, string) checkout_use_case" where
  "SetShippingAddress env now tenant sid i =
     or_return (read_address i) (\<lambda>a. withSession env now tenant sid (co_setShippingAddress a))"

definition SetContactEmail ::
  "(checkout_event, 'b) agg_env \<Rightarrow> timestamp \<Rightarrow> string \<Rightarrow> string \<Rightarrow> string \<Rightarrow> ('b, string) checkout_use_case" where
  "SetContactEmail env now tenant sid email =
     or_return (ContactEmail_create email) (\<lambda>e. withSession env now tenant sid (co_setContactEmail e))"

definition shipping_query_of :: "string \<Rightarrow> checkout_address \<Rightarrow> checkout \<Rightarrow> shipping_query" where
  "shipping_query_of tenant a c =
     \<lparr>sq_shippingAddress = a, sq_items = co_items c, sq_currency = co_currency c, sq_tenantId = tenant\<rparr>"

definition SelectShipping ::
  "(shipping_query, shipping_quote list) port \<Rightarrow> (checkout_event, 'b) agg_env \<Rightarrow> timestamp \<Rightarrow> string \<Rightarrow> string \<Rightarrow> string \<Rightarrow>
     ('b, string) checkout_use_case" where
  "SelectShipping port env now tenant sid mthd =
     lookup session_not_found (find_agg tenant sid) (\<lambda>c.
     or_return (case co_shippingAddress c of
         None \<Rightarrow> Inl (BusinessRuleError ''Cannot select shipping before a shipping address is set'') | Some a \<Rightarrow> Inr a) (\<lambda>a.
     ask port (\<lambda>_. Quoted (shipping_query_of tenant a c)) (shipping_query_of tenant a c) (\<lambda>quotes.
     or_return (case List.find (\<lambda>q. qu_method q = mthd) quotes of
         None \<Rightarrow> Inl (ValidationError ''Unknown or unavailable shipping method''
                      [issue ''method'' ''does not match any current shipping quote''])
       | Some q \<Rightarrow> Inr q) (\<lambda>q.
     or_return (ShippingSelection_create (qu_method q) (qu_rateAmountMinor q) (co_currency c) (Some (qu_name q))
         (qu_description q)) (\<lambda>selection.
       try_session tenant (on_session (co_selectShipping selection))
         (\<lambda>_ c. save_session env now tenant (Inr (agg_id c)) c) c)))))"

definition SelectPayment ::
  "(string, string list) port \<Rightarrow> (checkout_event, 'b) agg_env \<Rightarrow> timestamp \<Rightarrow> string \<Rightarrow> string \<Rightarrow> string \<Rightarrow> string \<Rightarrow>
     ('b, string) checkout_use_case" where
  "SelectPayment port env now tenant sid methodRef provider =
     or_return (PaymentSelection_create methodRef provider) (\<lambda>selection.
     ask port (\<lambda>_. MethodsAsked tenant) tenant (\<lambda>offered.
     or_return (if provider \<notin> set offered then Inl (ValidationError ''Payment method is not available''
                  [issue ''provider'' ''is not offered by this merchant'']) else Inr ()) (\<lambda>_.
       withSession env now tenant sid (co_selectPayment selection))))"

subsection \<open>Discounts and tax (discount-code.use-cases.ts)\<close>

definition evaluation_of :: "string \<Rightarrow> checkout \<Rightarrow> evaluation_input" where
  "evaluation_of tenant c =
     \<lparr>de_tenantId = tenant, de_items = co_items c,
      de_shipping = (case (co_shippingAddress c, co_shippingSelection c) of
         (Some a, Some sel) \<Rightarrow> Some (ad_country a, ss_rateAmountMinor sel) | _ \<Rightarrow> None),
      de_customerRef = co_customerRef c, de_email = co_contactEmail c, de_codes = co_discountCodes c\<rparr>"

definition refreshDiscounts :: "promotion_port \<Rightarrow> string \<Rightarrow> unit work_action" where
  "refreshDiscounts port tenant = with_work (\<lambda>c.
     bind_action (call_port (pp_evaluate port) (Evaluated (evaluation_of tenant c)) (evaluation_of tenant c)) (\<lambda>snapshot.
       if 0 < length (ds_applied snapshot) \<or> hasDiscountState c
       then on_session (co_applyDiscountSnapshot snapshot) else ret ()))"

definition tax_query_of :: "string \<Rightarrow> checkout_address \<Rightarrow> checkout \<Rightarrow> tax_query" where
  "tax_query_of tenant a c =
     \<lparr>tq_items = co_items c, tq_destination = a, tq_shippingMinor = selected_rate c, tq_currency = co_currency c,
      tq_tenantId = tenant, tq_orderDiscountMinor = or_zero (co_discountMinor c),
      tq_shippingDiscountMinor = shipping_discount c\<rparr>"

definition no_address_for_tax :: domain_error where
  "no_address_for_tax = BusinessRuleError ''Cannot request tax calculation before a shipping address is set''"

definition calculateAndStoreTax :: "tax_port \<Rightarrow> string \<Rightarrow> tax_result work_action" where
  "calculateAndStoreTax port tenant = with_work (\<lambda>c.
     case co_shippingAddress c of
       None \<Rightarrow> throw (ThrownDomain no_address_for_tax)
     | Some a \<Rightarrow>
         bind_action (call_port port (Taxed (tax_query_of tenant a c)) (tax_query_of tenant a c)) (\<lambda>r.
           then_do (on_session (co_applyTaxSnapshot (tr_taxMinor r) (tr_included r))) (ret r)))"

definition figures :: "checkout \<Rightarrow> int \<times> int" where
  "figures c = (or_zero (co_discountMinor c), shipping_discount c)"

definition refreshDiscountsAndTax :: "promotion_port \<Rightarrow> tax_port option \<Rightarrow> string \<Rightarrow> bool work_action" where
  "refreshDiscountsAndTax promotion tax tenant = with_work (\<lambda>before.
     then_do (refreshDiscounts promotion tenant) (with_work (\<lambda>c.
       let discountsChanged = (figures before \<noteq> figures c) in
       case tax of
         Some port \<Rightarrow>
           if discountsChanged \<and> co_shippingAddress c \<noteq> None \<and> co_taxMinor c \<noteq> None
           then bind_action (calculateAndStoreTax port tenant) (\<lambda>_. ret discountsChanged)
           else ret discountsChanged
       | None \<Rightarrow> ret discountsChanged)))"

definition recalculateIfPossible :: "string \<Rightarrow> timestamp \<Rightarrow> unit work_action" where
  "recalculateIfPossible eventId now = with_work (\<lambda>c.
     if 0 < length (co_items c) then on_session (co_recalculateTotals eventId now) else ret ())"

record code_output =
  cdo_checkoutSessionId :: string
  cdo_state :: string
  cdo_code :: string
  cdo_applicable :: bool
  cdo_reason :: "string option"

definition code_answer :: "checkout \<Rightarrow> string \<Rightarrow> bool \<Rightarrow> string option \<Rightarrow> code_output" where
  "code_answer c code applicable reason =
     \<lparr>cdo_checkoutSessionId = agg_id c, cdo_state = checkout_state_name (co_state c), cdo_code = code,
      cdo_applicable = applicable, cdo_reason = reason\<rparr>"

definition session_code_status :: "string \<Rightarrow> checkout \<Rightarrow> code_status_snapshot option" where
  "session_code_status code c = Option.bind (co_discountSnapshot c) (\<lambda>s. List.find (\<lambda>x. cst_code x = code) (ds_codeStatuses s))"

text \<open>The body of the \<^verbatim>\<open>try\<close> between the entry of the code and the save; answers whether it applies and why not.\<close>

definition try_code ::
  "promotion_port \<Rightarrow> tax_port option \<Rightarrow> string \<Rightarrow> timestamp \<Rightarrow> string \<Rightarrow> timestamp \<Rightarrow> string \<Rightarrow> (bool \<times> string option) work_action" where
  "try_code promotion tax eventId recalcAt tenant now code =
     bind_action (refreshDiscountsAndTax promotion tax tenant) (\<lambda>_. with_work (\<lambda>c.
       let status = session_code_status code c;
           applicable = (case status of Some x \<Rightarrow> cst_applicable x | None \<Rightarrow> False);
           reason = (if applicable then None
                     else Some (case Option.bind status cst_reason of Some why \<Rightarrow> why | None \<Rightarrow> ''not_found''))
       in then_do (if applicable then ret ()
                   else then_do (on_session (co_removeDiscountCode code))
                       (then_do (on_session (co_recordRejectedDiscountCode now))
                        (bind_action (refreshDiscountsAndTax promotion tax tenant) (\<lambda>_. ret ()))))
         (then_do (recalculateIfPossible eventId recalcAt) (ret (applicable, reason)))))"

text \<open>\<^verbatim>\<open>error.message.startsWith("TOO_MANY_CODES")\<close>\<close>

definition too_many_codes :: "domain_error \<Rightarrow> bool" where
  "too_many_codes e = (take 14 (error_message e) = ''TOO_MANY_CODES'')"

definition AddDiscountCode ::
  "promotion_port \<Rightarrow> tax_port option \<Rightarrow> (checkout_event, 'b) agg_env \<Rightarrow> string \<Rightarrow> timestamp \<Rightarrow> timestamp \<Rightarrow> timestamp \<Rightarrow>
     string \<Rightarrow> string \<Rightarrow> string \<Rightarrow> ('b, code_output) checkout_use_case" where
  "AddDiscountCode promotion tax env eventId now recalcAt savedAt tenant sid raw =
     (let code = co_normalizeDiscountCode raw in
      if code = '''' then return_err (ValidationError ''Invalid discount code'' [issue ''code'' ''required''])
      else lookup session_not_found (find_agg tenant sid) (\<lambda>c.
        if isDiscountCodeEntryLocked now c then return_ok (code_answer c code False (Some ''too_many_attempts''))
        else case co_enterDiscountCode code c of
          (Inl e, _) \<Rightarrow> if too_many_codes e then return_ok (code_answer c code False (Some ''too_many_codes''))
                      else return_err e
        | (Inr _, _) \<Rightarrow>
            try_session tenant
              (then_do (on_session (co_enterDiscountCode code))
                 (try_code promotion tax eventId recalcAt tenant now code))
              (\<lambda>(applicable, reason) c. save_session env savedAt tenant (Inr (code_answer c code applicable reason)) c) c))"

record status_output =
  sto_checkoutSessionId :: string
  sto_state :: string

definition status_answer :: "checkout \<Rightarrow> status_output" where
  "status_answer c = \<lparr>sto_checkoutSessionId = agg_id c, sto_state = checkout_state_name (co_state c)\<rparr>"

definition RemoveDiscountCode ::
  "promotion_port \<Rightarrow> tax_port option \<Rightarrow> (checkout_event, 'b) agg_env \<Rightarrow> string \<Rightarrow> timestamp \<Rightarrow> timestamp \<Rightarrow>
     string \<Rightarrow> string \<Rightarrow> string \<Rightarrow> ('b, status_output) checkout_use_case" where
  "RemoveDiscountCode promotion tax env eventId recalcAt savedAt tenant sid code =
     lookup session_not_found (find_agg tenant sid)
       (try_session tenant
          (then_do (on_session (co_removeDiscountCode code))
          (bind_action (refreshDiscountsAndTax promotion tax tenant) (\<lambda>_. recalculateIfPossible eventId recalcAt)))
          (\<lambda>_ c. save_session env savedAt tenant (Inr (status_answer c)) c))"

subsection \<open>Orchestration (checkout-orchestration.use-cases.ts, checkout-handoff.use-cases.ts)\<close>

record validation_output =
  vo_valid :: bool
  vo_reason :: "string option"

definition invalid_because :: "string option \<Rightarrow> string \<Rightarrow> validation_output" where
  "invalid_because reason fallback =
     \<lparr>vo_valid = False, vo_reason = Some (case reason of Some why \<Rightarrow> why | None \<Rightarrow> fallback)\<rparr>"

definition ValidateCheckout ::
  "(checkout_item list \<times> string \<times> string, validity) port \<Rightarrow> stock_port \<Rightarrow> string \<Rightarrow> string \<Rightarrow>
     ('b, validation_output) checkout_use_case" where
  "ValidateCheckout prices stock tenant sid =
     lookup session_not_found (find_agg tenant sid) (\<lambda>c.
     ask prices (\<lambda>_. PricesChecked (co_items c) (co_currency c) tenant) (co_items c, co_currency c, tenant) (\<lambda>p.
       if \<not> va_valid p then return_ok (invalid_because (va_reason p) ''pricing validation failed'')
       else ask stock (\<lambda>_. StockChecked (co_items c) tenant) (co_items c, tenant) (\<lambda>v.
         if \<not> va_valid v then return_ok (invalid_because (va_reason v) ''inventory validation failed'')
         else return_ok \<lparr>vo_valid = True, vo_reason = None\<rparr>)))"

record tax_output = status_output +
  txo_taxMinor :: int

definition RequestTaxCalculation ::
  "tax_port \<Rightarrow> promotion_port option \<Rightarrow> (checkout_event, 'b) agg_env \<Rightarrow> string \<Rightarrow> timestamp \<Rightarrow> timestamp \<Rightarrow> string \<Rightarrow>
     string \<Rightarrow> ('b, tax_output) checkout_use_case" where
  "RequestTaxCalculation tax promotion env eventId recalcAt savedAt tenant sid =
     lookup session_not_found (find_agg tenant sid) (\<lambda>c.
       if co_shippingAddress c = None then return_err no_address_for_tax
       else try_session tenant
         (then_do (case promotion of Some port \<Rightarrow> refreshDiscounts port tenant | None \<Rightarrow> ret ())
         (bind_action (calculateAndStoreTax tax tenant) (\<lambda>r.
            then_do (recalculateIfPossible eventId recalcAt) (ret r))))
         (\<lambda>r c. save_session env savedAt tenant
            (Inr (status_output.extend (status_answer c) \<lparr>txo_taxMinor = tr_taxMinor r\<rparr>)) c) c)"

definition RequestShippingQuote ::
  "(shipping_query, shipping_quote list) port \<Rightarrow> string \<Rightarrow> string \<Rightarrow> ('b, status_output \<times> shipping_quote list) checkout_use_case" where
  "RequestShippingQuote port tenant sid =
     lookup session_not_found (find_agg tenant sid) (\<lambda>c.
     or_return (case co_shippingAddress c of
         None \<Rightarrow> Inl (BusinessRuleError ''Cannot request a shipping quote before a shipping address is set'')
       | Some a \<Rightarrow> Inr a) (\<lambda>a.
     ask port (\<lambda>_. Quoted (shipping_query_of tenant a c)) (shipping_query_of tenant a c) (\<lambda>quotes.
       return_ok (status_answer c, quotes))))"

record promotion_check_output = status_output +
  pmo_valid :: bool
  pmo_discountMinor :: int

definition promotion_answer :: "bool \<Rightarrow> int \<Rightarrow> checkout \<Rightarrow> promotion_check_output" where
  "promotion_answer v n c = status_output.extend (status_answer c) \<lparr>pmo_valid = v, pmo_discountMinor = n\<rparr>"

definition ValidatePromotion ::
  "promotion_port \<Rightarrow> (checkout_event, 'b) agg_env \<Rightarrow> timestamp \<Rightarrow> string \<Rightarrow> string \<Rightarrow> string option \<Rightarrow>
     ('b, promotion_check_output) checkout_use_case" where
  "ValidatePromotion promotion env now tenant sid promotionRef =
     lookup session_not_found (find_agg tenant sid) (\<lambda>c.
       let q = \<lparr>pq_items = co_items c, pq_customerRef = co_customerRef c, pq_promotionRef = promotionRef,
                pq_currency = co_currency c, pq_tenantId = tenant\<rparr> in
       ask (pp_validate promotion) (\<lambda>_. PromotionChecked q) q (\<lambda>r.
         if \<not> pv_valid r then return_ok (promotion_answer False 0 c)
         else try_session tenant (on_session (co_applyPromotionSnapshot (pv_discountMinor r)))
           (\<lambda>_ c. save_session env now tenant (Inr (promotion_answer True (pv_discountMinor r) c)) c) c))"

definition RecalculateTotals ::
  "promotion_port option \<Rightarrow> tax_port option \<Rightarrow> (checkout_event, 'b) agg_env \<Rightarrow> string \<Rightarrow> timestamp \<Rightarrow> timestamp \<Rightarrow>
     string \<Rightarrow> string \<Rightarrow> ('b, status_output) checkout_use_case" where
  "RecalculateTotals promotion tax env eventId recalcAt savedAt tenant sid =
     lookup session_not_found (find_agg tenant sid)
       (try_session tenant
         (then_do (case promotion of
              Some port \<Rightarrow> bind_action (refreshDiscountsAndTax port tax tenant) (\<lambda>_. ret ()) | None \<Rightarrow> ret ())
            (on_session (co_recalculateTotals eventId recalcAt)))
         (\<lambda>_ c. save_session env savedAt tenant (Inr (status_answer c)) c))"

text \<open>The shape \<^verbatim>\<open>Lock\<close>, \<^verbatim>\<open>ExpireCheckout\<close> and \<^verbatim>\<open>FailCheckout\<close> share.\<close>

definition move_session ::
  "(checkout_event, 'b) agg_env \<Rightarrow> timestamp \<Rightarrow> string \<Rightarrow> string \<Rightarrow> checkout_action \<Rightarrow> ('b, status_output) checkout_use_case" where
  "move_session env savedAt tenant sid act =
     lookup session_not_found (find_agg tenant sid)
       (try_session tenant (on_session act) (\<lambda>_ c. save_session env savedAt tenant (Inr (status_answer c)) c))"

definition LockCheckout ::
  "(checkout_event, 'b) agg_env \<Rightarrow> string \<Rightarrow> timestamp \<Rightarrow> timestamp \<Rightarrow> string \<Rightarrow> string \<Rightarrow> ('b, status_output) checkout_use_case" where
  "LockCheckout env eventId at_time savedAt tenant sid = move_session env savedAt tenant sid (co_lock eventId at_time)"

definition ExpireCheckout ::
  "(checkout_event, 'b) agg_env \<Rightarrow> string \<Rightarrow> timestamp \<Rightarrow> timestamp \<Rightarrow> string \<Rightarrow> string \<Rightarrow> ('b, status_output) checkout_use_case" where
  "ExpireCheckout env eventId at_time savedAt tenant sid = move_session env savedAt tenant sid (co_expire eventId at_time)"

definition FailCheckout ::
  "(checkout_event, 'b) agg_env \<Rightarrow> string \<Rightarrow> timestamp \<Rightarrow> timestamp \<Rightarrow> string \<Rightarrow> string \<Rightarrow> string \<Rightarrow>
     ('b, status_output) checkout_use_case" where
  "FailCheckout env eventId at_time savedAt tenant sid reason =
     or_return (againstEmpty reason ''reason'') (\<lambda>_. move_session env savedAt tenant sid (co_fail reason eventId at_time))"

definition GenerateOrderDraft :: "string \<Rightarrow> string \<Rightarrow> ('b, order_draft) checkout_use_case" where
  "GenerateOrderDraft tenant sid =
     lookup session_not_found (find_agg tenant sid) (\<lambda>c. or_return (generateOrderDraft c) return_ok)"

definition GeneratePaymentIntentRequest :: "string \<Rightarrow> string \<Rightarrow> ('b, payment_intent_request) checkout_use_case" where
  "GeneratePaymentIntentRequest tenant sid =
     lookup session_not_found (find_agg tenant sid) (\<lambda>c. or_return (generatePaymentIntentRequest c) return_ok)"

subsection \<open>Completion (complete-checkout.use-case.ts)\<close>

record complete_output = status_output +
  cpo_orderRef :: string

definition complete_answer :: "checkout \<Rightarrow> string \<Rightarrow> complete_output" where
  "complete_answer c orderRef = status_output.extend (status_answer c) \<lparr>cpo_orderRef = orderRef\<rparr>"

record complete_deps =
  cd_orderCreation :: "(order_request, string) port"
  cd_inventoryValidation :: "stock_port option"
  cd_stockReservation :: "reservation_port option"
  cd_orderCancellation :: "(string \<times> string, unit) port option"
  cd_promotionValidation :: "promotion_port option"
  cd_taxCalculation :: "tax_port option"
  cd_discountUsage :: "(usage_request, unit) port option"

definition order_request_of :: "string \<Rightarrow> string \<Rightarrow> checkout \<Rightarrow> order_draft \<Rightarrow> order_request" where
  "order_request_of tenant key c d =
     \<lparr>rq_tenantId = tenant, rq_checkoutSessionId = agg_id c, rq_customerRef = dr_customerRef d,
      rq_contactEmail = dr_contactEmail d, rq_currency = co_currency c, rq_items = dr_items d,
      rq_billingAddress = dr_billingAddress d, rq_shippingAddress = dr_shippingAddress d, rq_totals = dr_totals d,
      rq_shippingMethod = dr_shippingMethod d,
      rq_discounts = (if length (dr_discounts d) = 0 then None else Some (dr_discounts d)),
      rq_idempotencyKey = key\<rparr>"

definition out_of_stock :: "string \<Rightarrow> domain_error" where
  "out_of_stock why = BusinessRuleError (''OUT_OF_STOCK: '' @ why)"

definition DISCOUNTS_CHANGED :: domain_error where
  "DISCOUNTS_CHANGED = BusinessRuleError ''DISCOUNTS_CHANGED: the discounts changed; review the new total''"

text \<open>The last look at the discounts: a change is stored, saved and answered as an error.\<close>

definition review_discounts ::
  "complete_deps \<Rightarrow> (checkout_event, 'b) agg_env \<Rightarrow> string \<Rightarrow> timestamp \<Rightarrow> timestamp \<Rightarrow> string \<Rightarrow>
     (checkout \<Rightarrow> ('b, complete_output) checkout_use_case) \<Rightarrow> checkout \<Rightarrow> ('b, complete_output) checkout_use_case" where
  "review_discounts deps env eventId at_time savedAt tenant k before =
     (case cd_promotionValidation deps of
        None \<Rightarrow> k before
      | Some promotion \<Rightarrow>
          try_session tenant
            (bind_action (refreshDiscountsAndTax promotion (cd_taxCalculation deps) tenant) (\<lambda>changed. with_work (\<lambda>c.
               if changed \<or> co_taxMinor c \<noteq> co_taxMinor before
               then then_do (on_session (co_recalculateTotals eventId at_time)) (ret True)
               else ret False)))
            (\<lambda>moved c. if moved then save_session env savedAt tenant (Inl DISCOUNTS_CHANGED) c else k c)
            before)"

definition check_stock ::
  "complete_deps \<Rightarrow> string \<Rightarrow> checkout \<Rightarrow> ('b, complete_output) checkout_use_case \<Rightarrow> ('b, complete_output) checkout_use_case" where
  "check_stock deps tenant c k =
     (case cd_inventoryValidation deps of
        None \<Rightarrow> k
      | Some port \<Rightarrow> ask port (\<lambda>_. StockChecked (co_items c) tenant) (co_items c, tenant) (\<lambda>v.
          if \<not> va_valid v
          then return_err (out_of_stock (case va_reason v of Some why \<Rightarrow> why | None \<Rightarrow> ''insufficient stock''))
          else k))"

definition undoOrder ::
  "complete_deps \<Rightarrow> string \<Rightarrow> string \<Rightarrow> string \<Rightarrow> ('b, 'a) checkout_use_case \<Rightarrow> ('b, 'a) checkout_use_case" where
  "undoOrder deps tenant sid ref k =
     (let cancel = (case cd_orderCancellation deps of
            None \<Rightarrow> k | Some port \<Rightarrow> attempt port (OrderCancelled sid ref tenant) (ref, tenant) (\<lambda>_. k))
      in case cd_stockReservation deps of
           None \<Rightarrow> cancel
         | Some port \<Rightarrow> attempt (rp_release port) (\<lambda>_. StockReleased sid ref tenant) (ref, tenant) (\<lambda>_. cancel))"

text \<open>A reservation that throws counts as a failed one.\<close>

definition hold_stock ::
  "complete_deps \<Rightarrow> string \<Rightarrow> checkout \<Rightarrow> string \<Rightarrow> ('b, 'a) checkout_use_case \<Rightarrow> ('b, 'a) checkout_use_case" where
  "hold_stock deps tenant c ref k =
     (case cd_stockReservation deps of
        None \<Rightarrow> k
      | Some port \<Rightarrow>
          attempt (rp_reserve port) (\<lambda>_. StockReserved (agg_id c) ref (co_items c) tenant) (ref, co_items c, tenant) (\<lambda>r.
            case r of
              Inl _ \<Rightarrow> undoOrder deps tenant (agg_id c) ref (return_err (out_of_stock ''insufficient stock''))
            | Inr (Inl why) \<Rightarrow> undoOrder deps tenant (agg_id c) ref (return_err (out_of_stock why))
            | Inr (Inr _) \<Rightarrow> k))"

definition record_usage ::
  "complete_deps \<Rightarrow> string \<Rightarrow> string \<Rightarrow> order_draft \<Rightarrow> ('b, 'a) checkout_use_case \<Rightarrow> ('b, 'a) checkout_use_case" where
  "record_usage deps tenant ref d k =
     (let used = filter (\<lambda>x. 0 < sd_amountMinor x) (dr_discounts d);
          q = \<lparr>us_tenantId = tenant, us_orderRef = ref, us_customerRef = dr_customerRef d, us_email = dr_contactEmail d,
               us_applied = used\<rparr>
      in case cd_discountUsage deps of
           Some port \<Rightarrow> if 0 < length used then attempt port (\<lambda>_. UsageRecorded q) q (\<lambda>_. k) else k
         | None \<Rightarrow> k)"

definition place_order ::
  "complete_deps \<Rightarrow> (checkout_event, 'b) agg_env \<Rightarrow> string \<Rightarrow> timestamp \<Rightarrow> timestamp \<Rightarrow> string \<Rightarrow> string \<Rightarrow> checkout \<Rightarrow>
     ('b, complete_output) checkout_use_case" where
  "place_order deps env eventId at_time savedAt tenant key c =
     or_return (generateOrderDraft c) (\<lambda>d. check_stock deps tenant c
       (ask (cd_orderCreation deps) (OrderPlaced (agg_id c) (order_request_of tenant key c d)) (order_request_of tenant key c d)
         (\<lambda>ref. hold_stock deps tenant c ref
           (try_session tenant (on_session (co_complete ref eventId at_time))
             (\<lambda>_ c. then_do (save_agg env savedAt tenant c)
                (record_usage deps tenant ref d (return_ok (complete_answer c ref)))) c))))"

text \<open>Two identifiers and three clock readings: one pair for the recalculation, one for the completion, one for the save.\<close>

record complete_moments =
  cm_recalculateId :: string
  cm_recalculateAt :: timestamp
  cm_completeId :: string
  cm_completeAt :: timestamp
  cm_savedAt :: timestamp

definition CompleteCheckout ::
  "complete_deps \<Rightarrow> (checkout_event, 'b) agg_env \<Rightarrow> complete_moments \<Rightarrow> string \<Rightarrow> string \<Rightarrow> string \<Rightarrow>
     ('b, complete_output) checkout_use_case" where
  "CompleteCheckout deps env m tenant sid key =
     or_return (againstEmpty key ''idempotencyKey'') (\<lambda>_.
     lookup session_not_found (find_agg tenant sid) (\<lambda>c.
       case co_orderRef c of
         Some ref \<Rightarrow> return_ok (complete_answer c ref)
       | None \<Rightarrow>
           if \<not> isOpen (co_state c) then return_err (closed_error c)
           else review_discounts deps env (cm_recalculateId m) (cm_recalculateAt m) (cm_savedAt m) tenant
             (place_order deps env (cm_completeId m) (cm_completeAt m) (cm_savedAt m) tenant key) c))"

subsection \<open>Payment (payment-initiation.use-cases.ts)\<close>

definition ListPaymentMethods :: "(string, string list) port \<Rightarrow> string \<Rightarrow> ('b, string list) checkout_use_case" where
  "ListPaymentMethods port tenant = ask port (\<lambda>_. MethodsAsked tenant) tenant return_ok"

record payment_output =
  pyo_checkoutSessionId :: string
  pyo_provider :: string
  pyo_paymentIntentId :: string
  pyo_status :: string
  pyo_clientHandle :: "string option"

definition payment_ready :: "checkout \<Rightarrow> (domain_error, string \<times> payment_selection \<times> checkout_totals) result" where
  "payment_ready c =
     (case co_orderRef c of
        None \<Rightarrow> Inl (BusinessRuleError ''Payment can only be initiated for a completed checkout'')
      | Some ref \<Rightarrow>
          (case co_paymentSelection c of
             None \<Rightarrow> Inl (BusinessRuleError ''Payment cannot be initiated before a payment method is selected'')
           | Some sel \<Rightarrow>
               (case co_totals c of
                  None \<Rightarrow> Inl (BusinessRuleError ''Payment cannot be initiated before totals are calculated'')
                | Some t \<Rightarrow> Inr (ref, sel, t))))"

definition InitiatePayment ::
  "(payment_request, payment_opened) port \<Rightarrow> (checkout_event, 'b) agg_env \<Rightarrow> timestamp \<Rightarrow> string \<Rightarrow> string \<Rightarrow>
     ('b, payment_output) checkout_use_case" where
  "InitiatePayment port env now tenant sid =
     lookup session_not_found (find_agg tenant sid) (\<lambda>c.
     or_return (payment_ready c) (\<lambda>(ref, sel, t).
       case co_paymentIntentRef c of
         Some intent \<Rightarrow> return_ok
           \<lparr>pyo_checkoutSessionId = agg_id c, pyo_provider = ps_provider sel, pyo_paymentIntentId = intent,
            pyo_status = ''existing'', pyo_clientHandle = None\<rparr>
       | None \<Rightarrow>
           let q = \<lparr>pr_tenantId = tenant, pr_orderRef = ref, pr_provider = ps_provider sel,
                    pr_amountMinor = tt_totalMinor t, pr_currency = tt_currency t\<rparr> in
           ask port (PaymentOpened (agg_id c) q) q (\<lambda>opened.
           lookup session_not_found (find_agg tenant sid)
             (try_session tenant (on_session (co_attachPaymentIntent (pop_paymentIntentId opened)))
               (\<lambda>_ c. save_session env now tenant (Inr
                  \<lparr>pyo_checkoutSessionId = agg_id c, pyo_provider = pop_provider opened,
                   pyo_paymentIntentId = pop_paymentIntentId opened, pyo_status = pop_status opened,
                   pyo_clientHandle = pop_clientHandle opened\<rparr>) c)))))"

subsection \<open>The offline adapters (in-memory-orchestration-adapters.ts, in-memory-order-creation-adapter.ts, in-memory-payment-adapters.ts)\<close>

definition InMemoryPricingValidation :: "(checkout_item list \<times> string \<times> string, validity) port" where
  "InMemoryPricingValidation calls =
     (\<lambda>(items, cur, tenant). Inr \<lparr>va_valid = list_all (\<lambda>i. 0 \<le> ki_unitPriceAmountMinor i) items, va_reason = None\<rparr>)"

definition InMemoryInventoryValidation :: stock_port where
  "InMemoryInventoryValidation calls = (\<lambda>(items, tenant). Inr \<lparr>va_valid = list_all (\<lambda>i. 0 < ki_quantity i) items, va_reason = None\<rparr>)"

definition InMemoryTaxCalculation :: tax_port where
  "InMemoryTaxCalculation calls q = Inr \<lparr>tr_taxMinor = 0, tr_included = True\<rparr>"

definition InMemoryShippingCalculation :: "(shipping_query, shipping_quote list) port" where
  "InMemoryShippingCalculation calls q = Inr
     [\<lparr>qu_method = ''standard'', qu_name = ''Standard'', qu_rateAmountMinor = jint 500, qu_description = None\<rparr>,
      \<lparr>qu_method = ''express'', qu_name = ''Express'', qu_rateAmountMinor = jint 1500, qu_description = None\<rparr>]"

definition InMemoryPromotionValidation :: promotion_port where
  "InMemoryPromotionValidation =
     \<lparr>pp_validate = (\<lambda>calls q. Inr \<lparr>pv_valid = True, pv_discountMinor = 0\<rparr>),
      pp_evaluate = (\<lambda>calls q. Inr \<lparr>ds_applied = [], ds_orderDiscountMinor = 0, ds_shippingDiscountMinor = 0,
        ds_codeStatuses = map (\<lambda>code. \<lparr>cst_code = code, cst_applicable = False, cst_reason = Some ''not_found''\<rparr>) (de_codes q),
        ds_lineAllocations = []\<rparr>)\<rparr>"

definition InMemoryOrderCreation :: "(order_request, string) port" where
  "InMemoryOrderCreation calls q = Inr (''order-'' @ rq_checkoutSessionId q)"

definition InMemoryPaymentMethods :: "(string, string list) port" where
  "InMemoryPaymentMethods calls tenant = Inr [''stripe'']"

definition InMemoryPaymentInitiation :: "(payment_request, payment_opened) port" where
  "InMemoryPaymentInitiation calls q = Inr
     \<lparr>pop_paymentIntentId = ''payment-'' @ pr_orderRef q, pop_status = ''created'', pop_provider = pr_provider q,
      pop_clientHandle = None\<rparr>"

end
