(* ===== verification/CheckoutLedger.thy ===== *)
theory CheckoutLedger
  imports CheckoutService
begin

section \<open>Orders and payments of the checkout sessions\<close>

text \<open>
  What the checkout service promises across its ports: under any requests, each session has the one order
  it recorded and the one payment intent opened for it, at the price the order was placed at. The
  invariant \<open>checkout_ledger\<close> relates the log of port calls to the stored sessions.
\<close>

subsection \<open>Requests\<close>

record checkout_ports =
  op_prices :: "(checkout_item list \<times> string \<times> string, validity) port"
  op_stock :: stock_port
  op_tax :: tax_port
  op_quotes :: "(shipping_query, shipping_quote list) port"
  op_promotion :: promotion_port
  op_complete :: complete_deps
  op_methods :: "(string, string list) port"
  op_payment :: "(payment_request, payment_opened) port"

datatype checkout_command =
    CmStart string "string option" string string
  | CmGet
  | CmLoad "raw_item list"
  | CmBilling address_input
  | CmShipTo address_input
  | CmEmail string
  | CmSelectShipping string
  | CmSelectPayment string string
  | CmAddCode string
  | CmRemoveCode string
  | CmValidate
  | CmTax
  | CmQuote
  | CmPromotion "string option"
  | CmRecalculate
  | CmLock
  | CmExpire
  | CmFail string
  | CmDraft
  | CmComplete string
  | CmIntentRequest
  | CmMethods
  | CmPay

record checkout_request =
  cr_tenant :: string
  cr_session :: string
  cr_now :: timestamp
  cr_moments :: complete_moments
  cr_command :: checkout_command

text \<open>The controller, with the ports the composition root hands to each use case.\<close>

definition serve_checkout ::
  "checkout_ports \<Rightarrow> (checkout_event, 'b) agg_env \<Rightarrow> checkout_request \<Rightarrow> ('b, unit) checkout_use_case" where
  "serve_checkout p env r =
     (let t = cr_tenant r; i = cr_session r; m = cr_moments r; ev = cm_completeId m; at_time = cm_completeAt m;
          saved = cm_savedAt m
      in case cr_command r of
        CmStart cartRef customerRef sessionRef cur \<Rightarrow> drop_answer (StartCheckout env i saved t cartRef customerRef sessionRef cur)
      | CmGet \<Rightarrow> drop_answer (GetCheckoutSession t i)
      | CmLoad raws \<Rightarrow> drop_answer (LoadItems env saved t i raws)
      | CmBilling a \<Rightarrow> drop_answer (SetBillingAddress env saved t i a)
      | CmShipTo a \<Rightarrow> drop_answer (SetShippingAddress env saved t i a)
      | CmEmail e \<Rightarrow> drop_answer (SetContactEmail env saved t i e)
      | CmSelectShipping k \<Rightarrow> drop_answer (SelectShipping (op_quotes p) env saved t i k)
      | CmSelectPayment k v \<Rightarrow> drop_answer (SelectPayment (op_methods p) env saved t i k v)
      | CmAddCode k \<Rightarrow>
          drop_answer (AddDiscountCode (op_promotion p) (Some (op_tax p)) env ev (cr_now r) at_time saved t i k)
      | CmRemoveCode k \<Rightarrow> drop_answer (RemoveDiscountCode (op_promotion p) (Some (op_tax p)) env ev at_time saved t i k)
      | CmValidate \<Rightarrow> drop_answer (ValidateCheckout (op_prices p) (op_stock p) t i)
      | CmTax \<Rightarrow> drop_answer (RequestTaxCalculation (op_tax p) (Some (op_promotion p)) env ev at_time saved t i)
      | CmQuote \<Rightarrow> drop_answer (RequestShippingQuote (op_quotes p) t i)
      | CmPromotion ref \<Rightarrow> drop_answer (ValidatePromotion (op_promotion p) env saved t i ref)
      | CmRecalculate \<Rightarrow>
          drop_answer (RecalculateTotals (Some (op_promotion p)) (Some (op_tax p)) env ev at_time saved t i)
      | CmLock \<Rightarrow> drop_answer (LockCheckout env ev at_time saved t i)
      | CmExpire \<Rightarrow> drop_answer (ExpireCheckout env ev at_time saved t i)
      | CmFail why \<Rightarrow> drop_answer (FailCheckout env ev at_time saved t i why)
      | CmDraft \<Rightarrow> drop_answer (GenerateOrderDraft t i)
      | CmComplete key \<Rightarrow> drop_answer (CompleteCheckout (op_complete p) env m t i key)
      | CmIntentRequest \<Rightarrow> drop_answer (GeneratePaymentIntentRequest t i)
      | CmMethods \<Rightarrow> drop_answer (ListPaymentMethods (op_methods p) t)
      | CmPay \<Rightarrow> drop_answer (InitiatePayment (op_payment p) env saved t i))"

text \<open>The identifier generator never repeats an identifier of the tenant.\<close>

fun fresh_session :: "'b checkout_service \<Rightarrow> checkout_request \<Rightarrow> bool" where
  "fresh_session s r = (case cr_command r of CmStart _ _ _ _ \<Rightarrow> find_agg (cr_tenant r) (cr_session r) s = None | _ \<Rightarrow> True)"

subsection \<open>Reading the log\<close>

text \<open>
  The orders placed for a session and not yet withdrawn, the orders placed for it and not cancelled, and the payment
  intents opened for it. An order is withdrawn once Orders is asked to cancel it, and cancelled once Orders has
  answered that; one whose cancellation failed is left for the merchant.
\<close>

fun claimed_after :: "string \<Rightarrow> string \<Rightarrow> port_event \<Rightarrow> string list \<Rightarrow> string list" where
  "claimed_after t i (OrderPlaced j q (Inr r)) refs = (if rq_tenantId q = t \<and> j = i then refs @ [r] else refs)"
| "claimed_after t i (OrderCancelled j r u a) refs = (if u = t \<and> j = i then removeAll r refs else refs)"
| "claimed_after t i _ refs = refs"

definition claimed :: "string \<Rightarrow> string \<Rightarrow> port_log \<Rightarrow> string list" where
  "claimed t i calls = fold (claimed_after t i) calls []"




fun opened_by :: "string \<Rightarrow> string \<Rightarrow> port_event \<Rightarrow> (payment_request \<times> payment_opened) list" where
  "opened_by t i (PaymentOpened j q (Inr po)) = (if pr_tenantId q = t \<and> j = i then [(q, po)] else [])"
| "opened_by t i _ = []"

definition opened :: "string \<Rightarrow> string \<Rightarrow> port_log \<Rightarrow> (payment_request \<times> payment_opened) list" where
  "opened t i calls = concat (map (opened_by t i) calls)"

fun is_aside :: "port_event \<Rightarrow> bool" where
  "is_aside (OrderPlaced j q (Inr r)) = False"
| "is_aside (OrderCancelled j r u a) = False"
| "is_aside (PaymentOpened j q (Inr po)) = False"
| "is_aside _ = True"

lemma aside_claimed: "is_aside e \<Longrightarrow> claimed_after t i e refs = refs"
  by (cases "(t, i, e, refs)" rule: claimed_after.cases) simp_all

lemma aside_opened: "is_aside e \<Longrightarrow> opened_by t i e = []"
  by (cases "(t, i, e)" rule: opened_by.cases) simp_all

lemma claimed_asides [simp]: "list_all is_aside new \<Longrightarrow> claimed t i (calls @ new) = claimed t i calls"
  by (induction new rule: rev_induct) (simp_all add: claimed_def aside_claimed)

lemma opened_asides [simp]: "list_all is_aside new \<Longrightarrow> opened t i (calls @ new) = opened t i calls"
  by (induction new) (simp_all add: opened_def aside_opened)

lemma claimed_snoc: "claimed t i (calls @ [e]) = claimed_after t i e (claimed t i calls)"
  by (simp add: claimed_def)

lemma opened_snoc: "opened t i (calls @ [e]) = opened t i calls @ opened_by t i e"
  by (simp add: opened_def)

subsection \<open>The books of a session\<close>

definition order_on_book :: "string \<Rightarrow> string \<Rightarrow> port_log \<Rightarrow> checkout \<Rightarrow> string \<Rightarrow> bool" where
  "order_on_book t i calls c r \<longleftrightarrow> (\<exists>q. OrderPlaced i q (Inr r) \<in> set calls \<and> rq_tenantId q = t \<and>
     rq_checkoutSessionId q = i \<and> co_totals c = Some (rq_totals q) \<and> co_items c = rq_items q)"

definition payment_on_book :: "string \<Rightarrow> string \<Rightarrow> port_log \<Rightarrow> checkout \<Rightarrow> string \<Rightarrow> bool" where
  "payment_on_book t i calls c p \<longleftrightarrow> (\<exists>q po x. opened t i calls = [(q, po)] \<and> pop_paymentIntentId po = p \<and>
     co_orderRef c = Some (pr_orderRef q) \<and> co_totals c = Some x \<and> pr_amountMinor q = tt_totalMinor x \<and>
     pr_currency q = tt_currency x \<and> map_option ps_provider (co_paymentSelection c) = Some (pr_provider q))"

definition books :: "bool \<Rightarrow> string \<Rightarrow> string \<Rightarrow> port_log \<Rightarrow> checkout option \<Rightarrow> bool" where
  "books wired t i calls row \<longleftrightarrow>
     (case row of
        None \<Rightarrow> (wired \<longrightarrow> claimed t i calls = []) \<and> opened t i calls = []
      | Some c \<Rightarrow> session_wf c \<and> agg_id c = i \<and>
          (case co_orderRef c of
             None \<Rightarrow> wired \<longrightarrow> claimed t i calls = []
           | Some r \<Rightarrow> (wired \<longrightarrow> claimed t i calls = [r]) \<and> order_on_book t i calls c r) \<and>
          (case co_paymentIntentRef c of
             None \<Rightarrow> opened t i calls = [] | Some p \<Rightarrow> payment_on_book t i calls c p))"

text \<open>
  The invariant; \<open>pins\<close> are orders already answered to a caller. What is claimed is promised when the cancellation
  port is wired.
\<close>

definition checkout_ledger :: "bool \<Rightarrow> (string \<times> string \<times> string) set \<Rightarrow> 'b checkout_service \<Rightarrow> bool" where
  "checkout_ledger wired pins s \<longleftrightarrow> (\<forall>t i. books wired t i (cks_log s) (find_agg t i s)) \<and>
     (\<forall>t i r. (t, i, r) \<in> pins \<longrightarrow> (\<exists>c. find_agg t i s = Some c \<and> co_orderRef c = Some r))"

lemma ledger_books: "checkout_ledger wired pins s \<Longrightarrow> books wired t i (cks_log s) (find_agg t i s)"
  by (simp add: checkout_ledger_def)

lemma ledger_session: "checkout_ledger wired pins s \<Longrightarrow> find_agg t i s = Some c \<Longrightarrow> session_wf c \<and> agg_id c = i"
  using ledger_books [of wired pins s t i] by (simp add: books_def)

lemma find_agg_log [simp]: "find_agg t i (s\<lparr>cks_log := l\<rparr>) = find_agg t i s"
  by (simp add: find_agg_def)

lemma cks_log_parts [simp]:
  "cks_log (touch_agg t c s) = cks_log s"
  "cks_log (snd (save_agg env now t c s)) = cks_log s"
  "cks_log (touch_work t w s) = snd w"
  by (simp_all add: touch_work_def touch_agg_def save_agg_def split: prod.splits)

lemma find_touch_work:
  "find_agg t i (touch_work t' w s) = (if t = t' \<and> i = agg_id (fst w) then Some (fst w) else find_agg t i s)"
  by (simp add: touch_work_def find_agg_touch)

text \<open>One session and the log move on; the books of the others are untouched.\<close>

lemma ledger_move:
  assumes "checkout_ledger wired pins s" "find_agg t i s = Some c" "agg_id c' = i"
    and "\<And>u j. (u, j) \<noteq> (t, i) \<Longrightarrow> claimed u j calls = claimed u j (cks_log s) \<and> opened u j calls = opened u j (cks_log s)"
    and "set (cks_log s) \<subseteq> set calls"
    and "books wired t i calls (Some c')"
    and "\<And>r. co_orderRef c = Some r \<Longrightarrow> co_orderRef c' = Some r"
  shows "checkout_ledger wired pins (touch_work t (c', calls) s)"
proof -
  have "books wired u j calls (find_agg u j s)" if "(u, j) \<noteq> (t, i)" for u j
    using ledger_books [OF assms(1), of u j] assms(4) [OF that] assms(5)
    by (auto simp: books_def order_on_book_def payment_on_book_def split: option.splits)
  then show ?thesis using assms(1,2,3,6,7) by (fastforce simp: checkout_ledger_def find_touch_work)
qed

lemma events_off_book [simp]:
  "session_wf (c\<lparr>agg_events := es\<rparr>) = session_wf c"
  "order_on_book t i calls (c\<lparr>agg_events := es\<rparr>) = order_on_book t i calls c"
  "payment_on_book t i calls (c\<lparr>agg_events := es\<rparr>) = payment_on_book t i calls c"
  by (simp_all add: session_wf_def order_on_book_def payment_on_book_def fun_eq_iff)

lemma books_events: "books wired t i calls (Some (c\<lparr>agg_events := es\<rparr>)) = books wired t i calls (Some c)"
  by (simp add: books_def cong: option.case_cong)

lemma ledger_save:
  assumes "checkout_ledger wired pins s" "find_agg t (agg_id c) s = Some c"
  shows "checkout_ledger wired pins (snd (save_agg env now t c s))"
  using assms by (auto simp: checkout_ledger_def find_agg_save books_events) (metis option.inject)+

lemma ledger_asides:
  assumes "checkout_ledger wired pins s" "list_all is_aside new"
  shows "checkout_ledger wired pins (s\<lparr>cks_log := cks_log s @ new\<rparr>)"
proof -
  have "books wired t i (cks_log s @ new) row" if "books wired t i (cks_log s) row" for t i row
    using that assms(2) by (auto simp: books_def order_on_book_def payment_on_book_def split: option.splits)
  with assms(1) show ?thesis by (simp add: checkout_ledger_def)
qed

subsection \<open>Calls that leave order and payment alone\<close>

named_theorems along_intros \<open>work that stays along a relation\<close>

text \<open>
  A relation that the calls on a session and the port calls stay along, one after the other.
\<close>

locale work_relation =
  fixes R :: "work \<Rightarrow> work \<Rightarrow> bool"
  assumes reflexive: "R w w" and transitive: "R u v \<Longrightarrow> R v w \<Longrightarrow> R u w"
begin

definition along :: "'a work_action \<Rightarrow> bool" where
  "along act \<longleftrightarrow> (\<forall>w. R w (snd (act w)))"

lemma alongD: "along act \<Longrightarrow> R w (snd (act w))"
  unfolding along_def by blast

lemma along_ret [along_intros]: "along (ret x)" "along (throw e)"
  by (simp_all add: along_def reflexive)

lemma along_bind [along_intros]:
  assumes f: "along f" and g: "\<And>x. along (g x)"
  shows "along (bind_action f g)"
  unfolding along_def
proof
  fix w
  obtain r v where r: "f w = (r, v)" by (cases "f w")
  have v: "R w v" using alongD [OF f, of w] r by simp
  show "R w (snd (bind_action f g w))"
  proof (cases r)
    case (Inr x)
    with transitive [OF v alongD [OF g]] show ?thesis by (simp add: bind_action_apply r)
  qed (simp add: bind_action_apply r v)
qed

lemma along_then [along_intros]: "along f \<Longrightarrow> along g \<Longrightarrow> along (then_do f g)"
  unfolding then_do_def by (intro along_bind)

lemma along_with_work [along_intros]: "(\<And>c. along (f c)) \<Longrightarrow> along (with_work f)"
  by (simp add: along_def with_work_def)

lemma along_if [along_intros]: "(b \<Longrightarrow> along f) \<Longrightarrow> (\<not> b \<Longrightarrow> along g) \<Longrightarrow> along (if b then f else g)"
  by simp

lemma along_option [along_intros]:
  "along f \<Longrightarrow> (\<And>x. along (g x)) \<Longrightarrow> along (case z of None \<Rightarrow> f | Some x \<Rightarrow> g x)"
  by (cases z) simp_all

lemma along_let [along_intros]: "(\<And>x. along (f x)) \<Longrightarrow> along (Let z f)"
  by simp

end

definition quiet :: "work \<Rightarrow> work \<Rightarrow> bool" where
  "quiet w w' \<longleftrightarrow> (session_wf (fst w) \<longrightarrow> session_wf (fst w')) \<and> agg_id (fst w') = agg_id (fst w) \<and>
     (\<exists>new. snd w' = snd w @ new \<and> list_all is_aside new) \<and>
     co_orderRef (fst w') = co_orderRef (fst w) \<and> co_paymentIntentRef (fst w') = co_paymentIntentRef (fst w) \<and>
     (session_wf (fst w) \<and> co_orderRef (fst w) \<noteq> None \<longrightarrow> co_totals (fst w') = co_totals (fst w) \<and>
        co_items (fst w') = co_items (fst w) \<and> co_paymentSelection (fst w') = co_paymentSelection (fst w))"

lemma quiet_trans: "quiet w v \<Longrightarrow> quiet v x \<Longrightarrow> quiet w x"
  unfolding quiet_def by auto

interpretation quietly: work_relation quiet
  by unfold_locales (simp add: quiet_def, rule quiet_trans)

interpretation same_state: work_relation "\<lambda>w v. co_state (fst v) = co_state (fst w)"
  by unfold_locales simp_all

lemma port_along [along_intros]:
  "is_aside e \<Longrightarrow> quietly.along (call_port port e q)"
  "same_state.along (call_port port e q)"
  by (simp_all add: quietly.along_def same_state.along_def quiet_def call_port_def split: prod.split)

fun quiet_call :: "checkout_call \<Rightarrow> bool" where
  "quiet_call (CoLoad items) = list_all co_item_ok items"
| "quiet_call (CoIntent r) = False"
| "quiet_call (CoComplete r e t) = False"
| "quiet_call _ = True"

lemma quiet_call_refs:
  assumes "quiet_call call"
  shows "co_orderRef (snd (co_step call c)) = co_orderRef c"
    "co_paymentIntentRef (snd (co_step call c)) = co_paymentIntentRef c"
  using assms by (cases call; simp add: co_ops co_plumbing split: option.split)+

lemma quiet_step: "quiet_call call \<Longrightarrow> quiet (c, calls) (snd (co_step call c), calls)"
proof -
  assume q: "quiet_call call"
  have "snd (co_step call c) = c" if "session_wf c" "co_orderRef c \<noteq> None"
    using that q by (intro closed_call) (auto simp: session_wf_def isOpen_def)
  moreover have "valid_call call" using q by (cases call) simp_all
  ultimately show ?thesis using quiet_call_refs [OF q, of c] by (auto simp: quiet_def co_step_wf)
qed

lemma snd_on_session [simp]: "snd (on_session act w) = (snd (act (fst w)), snd w)"
  by (simp add: on_session_def split: prod.split)

lemma quiet_on_session: "quiet_call call \<Longrightarrow> quietly.along (on_session (co_step call))"
  by (simp add: quietly.along_def) (metis quiet_step prod.collapse)

lemma quiet_methods [along_intros]:
  "list_all co_item_ok items \<Longrightarrow> quietly.along (on_session (co_loadItems items))"
  "quietly.along (on_session (co_setBillingAddress a))" "quietly.along (on_session (co_setShippingAddress a))"
  "quietly.along (on_session (co_setContactEmail m))" "quietly.along (on_session (co_selectShipping sel))"
  "quietly.along (on_session (co_selectPayment psel))" "quietly.along (on_session (co_applyTaxSnapshot n b))"
  "quietly.along (on_session (co_applyPromotionSnapshot n))" "quietly.along (on_session (co_enterDiscountCode k))"
  "quietly.along (on_session (co_removeDiscountCode k))" "quietly.along (on_session (co_applyDiscountSnapshot sn))"
  "quietly.along (on_session (co_recordRejectedDiscountCode now))" "quietly.along (on_session (co_recalculateTotals e now))"
  "quietly.along (on_session (co_lock e now))" "quietly.along (on_session (co_expire e now))"
  "quietly.along (on_session (co_fail why e now))"
  using quiet_on_session [of "CoLoad items"] quiet_on_session [of "CoBilling a"] quiet_on_session [of "CoShipTo a"]
    quiet_on_session [of "CoEmail m"] quiet_on_session [of "CoShipping sel"] quiet_on_session [of "CoPayment psel"]
    quiet_on_session [of "CoTax n b"] quiet_on_session [of "CoPromotion n"] quiet_on_session [of "CoEnter k"]
    quiet_on_session [of "CoRemove k"] quiet_on_session [of "CoDiscount sn"] quiet_on_session [of "CoRejected now"]
    quiet_on_session [of "CoRecalculate e now"] quiet_on_session [of "CoLock e now"] quiet_on_session [of "CoExpire e now"]
    quiet_on_session [of "CoFail why e now"]
  by simp_all

lemma quiet_refresh [along_intros]:
  "quietly.along (refreshDiscounts port t)" "quietly.along (calculateAndStoreTax tax t)"
  "quietly.along (refreshDiscountsAndTax port tax' t)" "quietly.along (recalculateIfPossible e now)"
  "quietly.along (try_code port tax' e at_time t now code)"
  by (auto simp: refreshDiscounts_def calculateAndStoreTax_def refreshDiscountsAndTax_def recalculateIfPossible_def
      try_code_def intro!: along_intros)

lemma same_state_methods [along_intros]:
  "same_state.along (on_session (co_applyDiscountSnapshot sn))" "same_state.along (on_session (co_applyTaxSnapshot n b))"
  "same_state.along (on_session (co_recalculateTotals e now))"
  by (simp_all add: same_state.along_def co_ops co_plumbing)

lemma same_state_refresh [along_intros]:
  "same_state.along (refreshDiscounts port t)" "same_state.along (calculateAndStoreTax tax t)"
  "same_state.along (refreshDiscountsAndTax port tax' t)"
  by (auto simp: refreshDiscounts_def calculateAndStoreTax_def refreshDiscountsAndTax_def intro!: along_intros)

lemma quiet_books:
  assumes "quiet (c, calls) (c', calls')" "books wired t i calls (Some c)"
  shows "books wired t i calls' (Some c')"
proof -
  obtain new where new: "calls' = calls @ new" "list_all is_aside new" using assms(1) by (auto simp: quiet_def)
  have wf: "session_wf c" "agg_id c = i" using assms(2) by (simp_all add: books_def)
  have same: "session_wf c'" "agg_id c' = i" "co_orderRef c' = co_orderRef c" "co_paymentIntentRef c' = co_paymentIntentRef c"
    using assms(1) wf by (simp_all add: quiet_def)
  show ?thesis
  proof (cases "co_orderRef c")
    case None
    moreover have "co_paymentIntentRef c = None" using wf None by (auto simp: session_wf_def)
    ultimately show ?thesis using assms(2) same new by (simp add: books_def)
  next
    case (Some r)
    then have rest: "co_totals c' = co_totals c" "co_items c' = co_items c" "co_paymentSelection c' = co_paymentSelection c"
      using assms(1) wf by (simp_all add: quiet_def)
    have "order_on_book t i calls' c' r" using assms(2) Some new rest by (auto simp: books_def order_on_book_def)
    moreover have "payment_on_book t i calls' c' p" if "payment_on_book t i calls c p" for p
      using that new rest same by (simp add: payment_on_book_def)
    ultimately show ?thesis using assms(2) Some same new
      by (simp add: books_def split: option.splits)
  qed
qed

subsection \<open>Preservation\<close>

abbreviation books_kept :: "bool \<Rightarrow> (string \<times> string \<times> string) set \<Rightarrow> ('b, 'a) checkout_use_case \<Rightarrow> 'b checkout_service \<Rightarrow> bool" where
  "books_kept wired pins \<equiv> keeps (checkout_ledger wired pins)"

lemma ledger_quiet:
  assumes "checkout_ledger wired pins s" "find_agg t i s = Some c" "quiet (c, cks_log s) (c', calls)"
  shows "checkout_ledger wired pins (touch_work t (c', calls) s)"
proof -
  obtain new where new: "calls = cks_log s @ new" "list_all is_aside new" using assms(3) by (auto simp: quiet_def)
  have "agg_id c = i" using ledger_session assms(1,2) by blast
  then have "agg_id c' = i" using assms(3) by (simp add: quiet_def)
  moreover have "books wired t i calls (Some c')"
    using quiet_books [OF assms(3)] ledger_books [OF assms(1), of t i] assms(2) by simp
  moreover have "co_orderRef c' = co_orderRef c" using assms(3) by (simp add: quiet_def)
  ultimately show ?thesis using assms(1,2) new by (intro ledger_move [OF assms(1,2)]) simp_all
qed

lemma keeps_try_from:
  assumes "find_agg t i s = Some c" "quietly.along act"
    and "\<And>x c' s'. act (c, cks_log s) = (Inr x, (c', cks_log s')) \<Longrightarrow> find_agg t i s' = Some c' \<Longrightarrow> agg_id c' = i \<Longrightarrow>
      books_kept wired pins (k x c') s'"
  shows "books_kept wired pins (try_session t act k c) s"
  unfolding keeps_def
proof
  assume l: "checkout_ledger wired pins s"
  obtain r c' calls where a: "act (c, cks_log s) = (r, (c', calls))" by (metis surj_pair)
  have "quiet (c, cks_log s) (snd (act (c, cks_log s)))" using assms(2) by (rule quietly.alongD)
  then have q: "quiet (c, cks_log s) (c', calls)" by (simp add: a)
  have t: "checkout_ledger wired pins (touch_work t (c', calls) s)" using l assms(1) q by (rule ledger_quiet)
  have i: "agg_id c' = i" using ledger_session [OF l assms(1)] q by (simp add: quiet_def)
  then have "find_agg t i (touch_work t (c', calls) s) = Some c'" by (simp add: find_touch_work)
  then have "r = Inr x \<Longrightarrow> checkout_ledger wired pins (snd (k x c' (touch_work t (c', calls) s)))" for x
    using assms(3) [of x c' "touch_work t (c', calls) s"] a i t by (simp add: keeps_def)
  with t show "checkout_ledger wired pins (snd (try_session t act k c s))"
    by (simp add: try_session_def a split: sum.split thrown.split)
qed

lemma keeps_try [keeps_intros]:
  assumes "find_agg t i s = Some c" "quietly.along act"
    and "\<And>x c' s'. find_agg t i s' = Some c' \<Longrightarrow> agg_id c' = i \<Longrightarrow> books_kept wired pins (k x c') s'"
  shows "books_kept wired pins (try_session t act k c) s"
  using assms by (rule keeps_try_from)

lemma keeps_save_session [keeps_intros]:
  "find_agg t i s = Some c \<Longrightarrow> agg_id c = i \<Longrightarrow> books_kept wired pins (save_session env now t out c) s"
  by (auto simp: keeps_def save_session_def then_do_apply split: prod.split sum.split
      dest: ledger_save [of wired pins s t c env now])

lemma keeps_attempt:
  assumes "\<And>r. is_aside (note r)" "\<And>r. books_kept wired pins (k r) (s\<lparr>cks_log := cks_log s @ [note r]\<rparr>)"
  shows "books_kept wired pins (attempt port note q k) s"
  using assms ledger_asides [of wired pins s "[note (port (cks_log s) q)]"]
  by (simp add: keeps_def attempt_def Let_def)

lemma keeps_ask [keeps_intros]:
  assumes "\<And>r. is_aside (note r)" "\<And>x r. books_kept wired pins (k x) (s\<lparr>cks_log := cks_log s @ [note r]\<rparr>)"
  shows "books_kept wired pins (ask port note q k) s"
  unfolding ask_def using assms(2)
  by (intro keeps_attempt [OF assms(1)]) (auto simp: keeps_def split: sum.split)

lemma keeps_withSession:
  "quietly.along (on_session act) \<Longrightarrow> books_kept wired pins (withSession env now t i act) s"
  unfolding withSession_def by (intro keeps_intros; assumption)

lemma keeps_move_session:
  "quietly.along (on_session act) \<Longrightarrow> books_kept wired pins (move_session env now t i act) s"
  unfolding move_session_def by (intro keeps_intros; assumption)

lemma read_items_ok: "read_items raws = Inr items \<Longrightarrow> list_all co_item_ok items"
proof (induction raws arbitrary: items)
  case (Cons raw raws)
  then show ?case
    by (cases "read_items raws") (auto simp: bind_result_Inr_iff map_ok_def dest: CheckoutItem_create_ok)
qed simp

lemma keeps_start:
  assumes "find_agg t i s = None"
  shows "books_kept wired pins (StartCheckout env i now t cartRef customerRef sessionRef cur) s"
proof -
  have "books_kept wired pins (save_new env now t agg_id (CheckoutSession_start i cartRef customerRef sessionRef cur)) s"
    unfolding keeps_def
  proof
    assume l: "checkout_ledger wired pins s"
    let ?c = "CheckoutSession_start i cartRef customerRef sessionRef cur"
    have "books wired t i (cks_log s) (Some ?c)"
      using ledger_books [OF l, of t i] assms start_wf [of i cartRef customerRef sessionRef cur]
      by (simp add: books_def CheckoutSession_start_def)
    moreover have "agg_id ?c = i" by (simp add: CheckoutSession_start_def)
    ultimately show "checkout_ledger wired pins (snd (save_new env now t agg_id ?c s))"
      using l assms by (fastforce simp: checkout_ledger_def find_agg_save books_events)
  qed
  then show ?thesis unfolding StartCheckout_def by (auto intro!: keeps_intros simp: UniqueEntityId_from_Inr_iff)
qed

subsection \<open>Placing the order\<close>

text \<open>Between the answer of the order port and the completion or the undoing, one order is not on the books.\<close>

definition order_pending :: "bool \<Rightarrow> (string \<times> string \<times> string) set \<Rightarrow> string \<Rightarrow> checkout \<Rightarrow> string \<Rightarrow> 'b checkout_service \<Rightarrow> bool" where
  "order_pending wired pins t c r s \<longleftrightarrow> isOpen (co_state c) \<and> find_agg t (agg_id c) s = Some c \<and>
     (\<exists>calls q new. checkout_ledger wired pins (s\<lparr>cks_log := calls\<rparr>) \<and> cks_log s = calls @ OrderPlaced (agg_id c) q (Inr r) # new \<and>
        list_all is_aside new \<and> rq_tenantId q = t \<and> rq_checkoutSessionId q = agg_id c \<and>
        co_totals c = Some (rq_totals q) \<and> co_items c = rq_items q)"

lemma order_pendingI:
  assumes "checkout_ledger wired pins s" "isOpen (co_state c)" "find_agg t (agg_id c) s = Some c" "rq_tenantId q = t"
    "rq_checkoutSessionId q = agg_id c" "co_totals c = Some (rq_totals q)" "co_items c = rq_items q"
  shows "order_pending wired pins t c r (s\<lparr>cks_log := cks_log s @ [OrderPlaced (agg_id c) q (Inr r)]\<rparr>)"
  unfolding order_pending_def
  by (intro conjI exI [of _ "cks_log s"] exI [of _ q] exI [of _ "[]"]) (use assms in simp_all)

lemma pending_asides:
  assumes "order_pending wired pins t c r s" "list_all is_aside more_calls"
  shows "order_pending wired pins t c r (s\<lparr>cks_log := cks_log s @ more_calls\<rparr>)"
  using assms unfolding order_pending_def by (fastforce simp: list_all_append)

lemma claimed_placed:
  "list_all is_aside new \<Longrightarrow> claimed u j (calls @ e # new) = claimed_after u j e (claimed u j calls)"
  "list_all is_aside new \<Longrightarrow> opened u j (calls @ e # new) = opened u j calls @ opened_by u j e"
  using claimed_asides [of new u j "calls @ [e]"] opened_asides [of new u j "calls @ [e]"]
  by (simp_all add: claimed_snoc opened_snoc)

text \<open>Asking Orders to cancel takes the order off again; without a cancellation port nothing is promised of it.\<close>

lemma pending_withdrawn:
  assumes "order_pending wired pins t c r s" and given: "wired \<longrightarrow> (\<exists>a. new' = [OrderCancelled (agg_id c) r t a])"
    and quiet: "\<not> wired \<longrightarrow> (\<forall>u j. opened u j (cks_log s @ new') = opened u j (cks_log s))"
  shows "checkout_ledger wired pins (s\<lparr>cks_log := cks_log s @ new'\<rparr>)"
proof -
  obtain calls q new where p: "checkout_ledger wired pins (s\<lparr>cks_log := calls\<rparr>)"
    "cks_log s = calls @ OrderPlaced (agg_id c) q (Inr r) # new" "list_all is_aside new" "rq_tenantId q = t"
    and c: "find_agg t (agg_id c) s = Some c" "isOpen (co_state c)"
    using assms(1) by (auto simp: order_pending_def)
  let ?calls = "cks_log s @ new'"
  have wf: "session_wf c" using ledger_session [OF p(1)] c by simp
  then have none: "co_orderRef c = None" using c(2) by (auto simp: session_wf_def isOpen_def)
  have empty: "wired \<longrightarrow> claimed t (agg_id c) calls = []"
    using ledger_books [OF p(1), of t "agg_id c"] c none by (simp add: books_def)
  have "books wired u j ?calls (find_agg u j s)" for u j
  proof -
    have "claimed u j ?calls = claimed u j calls" if w: wired
    proof -
      obtain a where a: "new' = [OrderCancelled (agg_id c) r t a]" using given w by blast
      have "claimed u j (cks_log s) = (if u = t \<and> j = agg_id c then [r] else claimed u j calls)"
        using p empty w by (simp add: claimed_placed)
      then show ?thesis
        unfolding a claimed_snoc using empty w by (cases "u = t \<and> j = agg_id c") auto
    qed
    moreover have "opened u j ?calls = opened u j (cks_log s)"
      using given quiet by (cases wired) (auto simp: opened_snoc)
    then have "opened u j ?calls = opened u j calls" using p by (simp add: claimed_placed)
    moreover have "set calls \<subseteq> set ?calls" using p by auto
    ultimately show ?thesis using ledger_books [OF p(1), of u j]
      by (auto simp: books_def order_on_book_def payment_on_book_def split: option.splits)
  qed
  with p(1) show ?thesis by (simp add: checkout_ledger_def)
qed

text \<open>Completing the session puts it on the books.\<close>

lemma pending_completed:
  assumes "order_pending wired pins t c r s" and c': "snd (co_complete r e at_time c) = c'"
  shows "checkout_ledger wired pins (touch_work t (c', cks_log s) s)"
proof -
  obtain calls q new where p: "checkout_ledger wired pins (s\<lparr>cks_log := calls\<rparr>)"
    "cks_log s = calls @ OrderPlaced (agg_id c) q (Inr r) # new" "list_all is_aside new" "rq_tenantId q = t"
    "rq_checkoutSessionId q = agg_id c" "co_totals c = Some (rq_totals q)" "co_items c = rq_items q"
    and c: "find_agg t (agg_id c) s = Some c" "isOpen (co_state c)"
    using assms by (auto simp: order_pending_def)
  have wf: "session_wf c" using ledger_session [OF p(1)] c by simp
  then have none: "co_orderRef c = None" "co_paymentIntentRef c = None" using c(2) by (auto simp: session_wf_def isOpen_def)
  have b: "wired \<longrightarrow> claimed t (agg_id c) calls = []" "opened t (agg_id c) calls = []"
    using ledger_books [OF p(1), of t "agg_id c"] c none by (simp_all add: books_def)
  have parts: "agg_id c' = agg_id c" "co_orderRef c' = Some r" "co_paymentIntentRef c' = None"
      "co_totals c' = co_totals c" "co_items c' = co_items c"
    using c' c(2) none by (auto simp: co_complete_def set_if_open_apply addDomainEvent_def)
  have wf': "session_wf c'" using co_step_wf [OF wf, of "CoComplete r e at_time"] c' by simp
  have others: "claimed u j (cks_log s) = claimed u j calls \<and> opened u j (cks_log s) = opened u j calls"
    if "(u, j) \<noteq> (t, agg_id c)" for u j
    using that p by (auto simp: claimed_placed)
  have "books wired t (agg_id c) (cks_log s) (Some c')"
    using p b wf' parts by (auto simp: books_def claimed_placed order_on_book_def)
  have f: "find_agg t (agg_id c) (s\<lparr>cks_log := calls\<rparr>) = Some c" using c by simp
  have "checkout_ledger wired pins (touch_work t (c', cks_log s) (s\<lparr>cks_log := calls\<rparr>))"
  proof (rule ledger_move [OF p(1) f parts(1)])
    show "set (cks_log (s\<lparr>cks_log := calls\<rparr>)) \<subseteq> set (cks_log s)" using p(2) by auto
  qed (use \<open>books wired t (agg_id c) (cks_log s) (Some c')\<close> others c none in simp_all)
  then show ?thesis by (simp add: touch_work_def)
qed

text \<open>\<open>k\<close> runs with the pending order, or the order is undone.\<close>

lemma keeps_undo:
  assumes "order_pending wired pins t c r s" "wired \<longrightarrow> cd_orderCancellation deps \<noteq> None"
  shows "checkout_ledger wired pins (snd (undoOrder deps t (agg_id c) r (return_err e) s))"
proof -
  have cancel: "checkout_ledger wired pins (snd ((case cd_orderCancellation deps of None \<Rightarrow> return_err e
      | Some port \<Rightarrow> attempt port (OrderCancelled (agg_id c) r t) (r, t) (\<lambda>_. return_err e)) s'))"
    if s': "order_pending wired pins t c r s'" for s'
    using pending_withdrawn [OF s', of "[]"] pending_withdrawn [OF s', of "[OrderCancelled (agg_id c) r t a]" for a] assms(2)
    by (auto simp: attempt_def Let_def opened_snoc split: option.split)
  show ?thesis
  proof (cases "cd_stockReservation deps")
    case None
    with cancel [OF assms(1)] show ?thesis by (simp add: undoOrder_def)
  next
    case (Some rp)
    with cancel [OF pending_asides [OF assms(1), of "[StockReleased (agg_id c) r t]"]] show ?thesis
      by (simp add: undoOrder_def attempt_def [of "rp_release rp"] Let_def)
  qed
qed

lemma hold_stock_ledger:
  assumes "order_pending wired pins t c r s" "\<And>s'. order_pending wired pins t c r s' \<Longrightarrow> checkout_ledger wired pins (snd (k s'))"
    and "wired \<longrightarrow> cd_orderCancellation deps \<noteq> None"
  shows "checkout_ledger wired pins (snd (hold_stock deps t c r k s))"
proof (cases "cd_stockReservation deps")
  case None
  with assms show ?thesis by (simp add: hold_stock_def)
next
  case (Some rp)
  have p: "order_pending wired pins t c r (s\<lparr>cks_log := cks_log s @ [StockReserved (agg_id c) r (co_items c) t]\<rparr>)"
    using assms(1) by (rule pending_asides) simp
  show ?thesis
    using Some by (auto simp: hold_stock_def attempt_def Let_def split: sum.split
        intro: keeps_undo [OF p assms(3)] assms(2) [OF p])
qed

lemma record_usage_ledger:
  "checkout_ledger wired pins s \<Longrightarrow> checkout_ledger wired pins (snd (record_usage deps t r d (return_ok x) s))"
  using ledger_asides [of wired pins s "[UsageRecorded q]" for q]
  by (simp add: record_usage_def attempt_def Let_def split: option.split)

lemma finish_ledger:
  assumes "order_pending wired pins t c r s"
  shows "checkout_ledger wired pins (snd (try_session t (on_session (co_complete r e at_time))
     (\<lambda>_ c. then_do (save_agg env saved t c) (record_usage deps t r d (return_ok (complete_answer c r)))) c s))"
proof -
  obtain res c' where c': "co_complete r e at_time c = (res, c')" by (cases "co_complete r e at_time c")
  have l: "checkout_ledger wired pins (touch_work t (c', cks_log s) s)" 
    using pending_completed [OF assms, of e at_time c'] c' by simp
  have "find_agg t (agg_id c') (touch_work t (c', cks_log s) s) = Some c'" by (simp add: find_touch_work)
  then have v: "checkout_ledger wired pins (snd (save_agg env saved t c' (touch_work t (c', cks_log s) s)))"
    by (rule ledger_save [OF l])
  obtain rv sv where sv: "save_agg env saved t c' (touch_work t (c', cks_log s) s) = (rv, sv)" by fastforce
  show ?thesis
  proof (cases res)
    case (Inl er)
    then show ?thesis using l by (simp add: try_session_def on_session_def c' mapError_def)
  next
    case (Inr u)
    show ?thesis using v
      by (auto simp: try_session_def on_session_def c' mapError_def Inr then_do_apply sv split: sum.split
          intro: record_usage_ledger)
  qed
qed

lemma draft_parts:
  "generateOrderDraft c = Inr d \<Longrightarrow> co_totals c = Some (dr_totals d) \<and> co_items c = dr_items d"
  by (auto simp: generateOrderDraft_def split: option.splits if_splits)

lemma place_ask_ledger:
  assumes "checkout_ledger wired pins s" "find_agg t i s = Some c" "isOpen (co_state c)" "generateOrderDraft c = Inr d"
    and "wired \<longrightarrow> cd_orderCancellation deps \<noteq> None"
  shows "checkout_ledger wired pins (snd (ask (cd_orderCreation deps) (OrderPlaced (agg_id c) (order_request_of t key c d))
     (order_request_of t key c d) (\<lambda>ref. hold_stock deps t c ref
           (try_session t (on_session (co_complete ref e at_time))
             (\<lambda>_ c. then_do (save_agg env saved t c)
                (record_usage deps t ref d (return_ok (complete_answer c ref)))) c)) s))"
proof -
  let ?q = "order_request_of t key c d"
  have i: "agg_id c = i" using ledger_session [OF assms(1,2)] by simp
  define r where "r = cd_orderCreation deps (cks_log s) ?q"
  show ?thesis
  proof (cases r)
    case (Inl er)
    have "checkout_ledger wired pins (s\<lparr>cks_log := cks_log s @ [OrderPlaced (agg_id c) ?q r]\<rparr>)"
      using ledger_asides [OF assms(1)] Inl by simp
    then show ?thesis by (simp add: ask_def attempt_def Let_def Inl flip: r_def)
  next
    case (Inr ref)
    have "order_pending wired pins t c ref (s\<lparr>cks_log := cks_log s @ [OrderPlaced (agg_id c) ?q r]\<rparr>)"
      unfolding Inr using assms i draft_parts [OF assms(4)]
      by (intro order_pendingI) (simp_all add: order_request_of_def)
    from hold_stock_ledger [OF this finish_ledger assms(5)] show ?thesis
      by (simp add: ask_def attempt_def Let_def Inr flip: r_def)
  qed
qed

lemma keeps_place_order:
  assumes "find_agg t i s = Some c" "isOpen (co_state c)" "wired \<longrightarrow> cd_orderCancellation deps \<noteq> None"
  shows "books_kept wired pins (place_order deps env e at_time saved t key c) s"
proof -
  have ask: "books_kept wired pins (ask (cd_orderCreation deps) (OrderPlaced (agg_id c) (order_request_of t key c d))
     (order_request_of t key c d) (\<lambda>ref. hold_stock deps t c ref
           (try_session t (on_session (co_complete ref e at_time))
             (\<lambda>_ c. then_do (save_agg env saved t c)
                (record_usage deps t ref d (return_ok (complete_answer c ref)))) c))) s'"
    if "generateOrderDraft c = Inr d" "find_agg t i s' = Some c" for d s'
    using place_ask_ledger [OF _ that(2) assms(2) that(1) assms(3)] by (simp add: keeps_def)
  show ?thesis
    unfolding place_order_def check_stock_def
    using assms(1) by (auto intro!: keeps_intros ask split: option.split)
qed

subsection \<open>Opening the payment\<close>

lemma touch_after_log [simp]: "touch_work t w (s\<lparr>cks_log := l\<rparr>) = touch_work t w s"
  by (simp add: touch_work_def)

lemma ledger_paid:
  assumes "checkout_ledger wired pins s" "find_agg t i s = Some c" "payment_ready c = Inr (ref, sel, x)" "co_paymentIntentRef c = None"
    and "q = \<lparr>pr_tenantId = t, pr_orderRef = ref, pr_provider = ps_provider sel, pr_amountMinor = tt_totalMinor x,
      pr_currency = tt_currency x\<rparr>"
  shows "checkout_ledger wired pins (touch_work t (c\<lparr>co_paymentIntentRef := Some (pop_paymentIntentId po)\<rparr>,
     cks_log s @ [PaymentOpened (agg_id c) q (Inr po)]) s)"
proof -
  have ready: "co_orderRef c = Some ref" "co_paymentSelection c = Some sel" "co_totals c = Some x"
    using assms(3) by (auto simp: payment_ready_def split: option.splits)
  have b: "session_wf c" "agg_id c = i" "wired \<longrightarrow> claimed t i (cks_log s) = [ref]" "order_on_book t i (cks_log s) c ref"
      "opened t i (cks_log s) = []"
    using ledger_books [OF assms(1), of t i] assms(2,4) ready by (simp_all add: books_def)
  let ?c = "c\<lparr>co_paymentIntentRef := Some (pop_paymentIntentId po)\<rparr>"
  let ?calls = "cks_log s @ [PaymentOpened i q (Inr po)]"
  have "session_wf ?c" using b(1) ready by (simp add: session_wf_def)
  moreover have "order_on_book t i ?calls ?c ref" using b(4) by (auto simp: order_on_book_def)
  moreover have "payment_on_book t i ?calls ?c (pop_paymentIntentId po)"
    using b ready assms(5) by (simp add: payment_on_book_def opened_snoc)
  ultimately have "books wired t i ?calls (Some ?c)" using b ready by (simp add: books_def claimed_snoc)
  with assms(1,2,5) b(2) show ?thesis
    by (intro ledger_move [OF assms(1,2)]) (auto simp: claimed_snoc opened_snoc)
qed

lemma keeps_pay: "books_kept wired pins (InitiatePayment port env now t i) s"
  unfolding InitiatePayment_def
proof (intro keeps_intros)
  fix c x
  assume c: "find_agg t i s = Some c" "checkout_ledger wired pins s" and x: "payment_ready c = Inr x"
  obtain ref sel tt where xs: "x = (ref, sel, tt)" by (metis surj_pair)
  have i: "agg_id c = i" using ledger_session [OF c(2,1)] by simp
  have ready: "co_orderRef c = Some ref" "co_paymentSelection c = Some sel"
    using x xs by (auto simp: payment_ready_def split: option.splits)
  let ?q = "\<lparr>pr_tenantId = t, pr_orderRef = ref, pr_provider = ps_provider sel, pr_amountMinor = tt_totalMinor tt,
      pr_currency = tt_currency tt\<rparr>"
  let ?calls = "\<lambda>r. cks_log s @ [PaymentOpened i ?q r]"
  show "books_kept wired pins (case x of (ref, sel, t') \<Rightarrow>
       case co_paymentIntentRef c of
         Some intent \<Rightarrow> return_ok
           \<lparr>pyo_checkoutSessionId = agg_id c, pyo_provider = ps_provider sel, pyo_paymentIntentId = intent,
            pyo_status = ''existing'', pyo_clientHandle = None\<rparr>
       | None \<Rightarrow>
           let q = \<lparr>pr_tenantId = t, pr_orderRef = ref, pr_provider = ps_provider sel,
                    pr_amountMinor = tt_totalMinor t', pr_currency = tt_currency t'\<rparr> in
           ask port (PaymentOpened (agg_id c) q) q (\<lambda>opened.
           lookup session_not_found (find_agg t i)
             (try_session t (on_session (co_attachPaymentIntent (pop_paymentIntentId opened)))
               (\<lambda>_ c. save_session env now t (Inr
                  \<lparr>pyo_checkoutSessionId = agg_id c, pyo_provider = pop_provider opened,
                   pyo_paymentIntentId = pop_paymentIntentId opened, pyo_status = pop_status opened,
                   pyo_clientHandle = pop_clientHandle opened\<rparr>) c)))) s"
  proof (cases "co_paymentIntentRef c")
    case (Some p)
    then show ?thesis by (simp add: xs keeps_return_ok)
  next
    case None
    show ?thesis
    proof (cases "port (cks_log s) ?q")
      case (Inl e)
      then show ?thesis using ledger_asides [OF c(2), of "[PaymentOpened i ?q (Inl e)]"] None
        by (simp add: keeps_def xs ask_def attempt_def Let_def i)
    next
      case (Inr po)
      let ?c = "c\<lparr>co_paymentIntentRef := Some (pop_paymentIntentId po)\<rparr>"
      let ?s = "touch_work t (?c, ?calls (Inr po)) s"
      have l: "checkout_ledger wired pins ?s" using ledger_paid [OF c(2,1) x [unfolded xs] None refl] i by simp
      have "find_agg t (agg_id ?c) ?s = Some ?c" by (simp add: find_touch_work i)
      then have "checkout_ledger wired pins (snd (save_session env now t out ?c ?s))" for out :: "(domain_error, payment_output) result"
        using keepsD [OF keeps_save_session l] by blast
      then show ?thesis using Inr None c ready
        by (simp add: keeps_def xs ask_def attempt_def Let_def i lookup_def try_session_def on_session_def
            co_attachPaymentIntent_def then_do_apply mapError_def)
    qed
  qed
qed

subsection \<open>All requests\<close>

lemma keeps_review:
  fixes s :: "'b checkout_service"
  assumes "find_agg t i s = Some c" "isOpen (co_state c)" "co_orderRef c = None"
    and "wired \<longrightarrow> cd_orderCancellation deps \<noteq> None"
  shows "books_kept wired pins (review_discounts deps env e at_time saved t
     (place_order deps env e' at' saved t key) c) s"
proof (cases "cd_promotionValidation deps")
  case None
  with keeps_place_order assms show ?thesis by (simp add: review_discounts_def)
next
  case (Some promotion)
  let ?act = "bind_action (refreshDiscountsAndTax promotion (cd_taxCalculation deps) t) (\<lambda>changed. with_work (\<lambda>d.
               if changed \<or> co_taxMinor d \<noteq> co_taxMinor c
               then then_do (on_session (co_recalculateTotals e at_time)) (ret True) else ret False))"
  have q: "quietly.along ?act" and st: "same_state.along ?act" by (intro along_intros)+
  have "books_kept wired pins (try_session t ?act
     (\<lambda>moved d. if moved then save_session env saved t (Inl DISCOUNTS_CHANGED) d
       else place_order deps env e' at' saved t key d) c) s"
  proof (rule keeps_try_from [OF assms(1) q])
    fix moved c' and s' :: "'b checkout_service"
    assume a: "?act (c, cks_log s) = (Inr moved, (c', cks_log s'))" and c': "find_agg t i s' = Some c'" "agg_id c' = i"
    have "isOpen (co_state c')" using same_state.alongD [OF st, of "(c, cks_log s)"] assms(2) by (simp add: a)
    then show "books_kept wired pins (if moved then save_session env saved t (Inl DISCOUNTS_CHANGED) c'
       else place_order deps env e' at' saved t key c') s'"
      using keeps_save_session [OF c'] keeps_place_order [OF c'(1)] assms(4) by auto
  qed
  with Some show ?thesis by (simp add: review_discounts_def)
qed

lemma keeps_complete:
  "wired \<longrightarrow> cd_orderCancellation deps \<noteq> None \<Longrightarrow> books_kept wired pins (CompleteCheckout deps env m t i key) s"
  unfolding CompleteCheckout_def
  by (intro keeps_intros) (auto split: option.split intro!: keeps_intros keeps_review)

lemma keeps_add_code:
  "books_kept wired pins (AddDiscountCode promotion tax env e now at_time saved t i raw) s"
  unfolding AddDiscountCode_def Let_def
  by (auto intro!: keeps_intros along_intros split: prod.split sum.split if_split)

lemma serve_keeps_books:
  assumes "fresh_session s r" "wired \<longrightarrow> cd_orderCancellation (op_complete p) \<noteq> None"
  shows "books_kept wired pins (serve_checkout p env r) s"
proof (cases "cr_command r")
  case (CmStart cartRef customerRef sessionRef cur)
  then show ?thesis using assms by (auto simp: serve_checkout_def Let_def intro!: keeps_intros keeps_start)
next
  case (CmLoad raws)
  then show ?thesis
    by (auto simp: serve_checkout_def Let_def LoadItems_def
        intro!: keeps_intros keeps_withSession along_intros dest: read_items_ok)
next
  case (CmAddCode k)
  then show ?thesis by (auto simp: serve_checkout_def Let_def intro!: keeps_intros keeps_add_code)
next
  case (CmComplete key)
  then show ?thesis using keeps_complete [OF assms(2)] by (auto simp: serve_checkout_def Let_def intro!: keeps_intros)
next
  case CmPay
  then show ?thesis by (auto simp: serve_checkout_def Let_def intro!: keeps_drop keeps_pay)
qed (auto simp: serve_checkout_def Let_def GetCheckoutSession_def SetBillingAddress_def SetShippingAddress_def
    SetContactEmail_def SelectShipping_def SelectPayment_def RemoveDiscountCode_def ValidateCheckout_def
    RequestTaxCalculation_def RequestShippingQuote_def ValidatePromotion_def RecalculateTotals_def LockCheckout_def
    ExpireCheckout_def FailCheckout_def GenerateOrderDraft_def GeneratePaymentIntentRequest_def ListPaymentMethods_def
    intro!: keeps_intros keeps_withSession keeps_move_session along_intros split: if_split option.split)

subsection \<open>Reachable states\<close>

definition empty_checkout :: "'b checkout_service" where
  "empty_checkout = \<lparr>ag_rows = [], ag_outbox = [], cks_log = []\<rparr>"

lemma empty_ledger: "checkout_ledger wired {} empty_checkout"
  by (simp add: checkout_ledger_def books_def empty_checkout_def find_agg_def find_row_def bucket_def claimed_def opened_def)



interpretation loosely: guarded_object "checkout_ledger False pins" fresh_session "serve_checkout p env" for pins p env
  by unfold_locales (rule keepsD [OF serve_keeps_books]; simp)

lemmas reached_loosely = loosely.guarded_runs [OF empty_ledger]


lemma opened_mem: "PaymentOpened i q (Inr po) \<in> set calls \<Longrightarrow> (q, po) \<in> set (opened (pr_tenantId q) i calls)"
  by (auto simp: opened_def intro!: bexI [of _ "PaymentOpened i q (Inr po)"])

text \<open>
  C10: While requests run one after the other, each to its end, a payment intent is opened at most once for a session, for
  exactly the total, in the currency, that its order was placed with, and the session records that intent. A process
  that dies between the opening and the recording, or two requests at once, may open a second one.
\<close>

theorem charged_what_was_ordered:
  assumes "s = runs (serve_checkout p env) requests empty_checkout"
    and "admissible fresh_session (serve_checkout p env) empty_checkout requests"
    and "PaymentOpened i q (Inr po) \<in> set (cks_log s)"
  shows "opened (pr_tenantId q) i (cks_log s) = [(q, po)] \<and>
    (\<exists>c. find_agg (pr_tenantId q) i s = Some c \<and> co_paymentIntentRef c = Some (pop_paymentIntentId po)) \<and>
    (\<exists>order. OrderPlaced i order (Inr (pr_orderRef q)) \<in> set (cks_log s) \<and> rq_tenantId order = pr_tenantId q \<and>
       pr_amountMinor q = tt_totalMinor (rq_totals order) \<and> pr_currency q = tt_currency (rq_totals order))"
proof -
  let ?t = "pr_tenantId q"
  have "checkout_ledger False {} s" unfolding assms(1) by (rule reached_loosely [OF assms(2)])
  then have b: "books False ?t i (cks_log s) (find_agg ?t i s)" by (rule ledger_books)
  have m: "(q, po) \<in> set (opened ?t i (cks_log s))" by (rule opened_mem [OF assms(3)])
  then obtain c p where c: "find_agg ?t i s = Some c" "co_paymentIntentRef c = Some p"
      "payment_on_book ?t i (cks_log s) c p"
    using b by (auto simp: books_def split: option.splits)
  then have o: "opened ?t i (cks_log s) = [(q, po)]" "pop_paymentIntentId po = p" "co_orderRef c = Some (pr_orderRef q)"
    and t: "\<exists>x. co_totals c = Some x \<and> pr_amountMinor q = tt_totalMinor x \<and> pr_currency q = tt_currency x"
    using m by (auto simp: payment_on_book_def)
  have "order_on_book ?t i (cks_log s) c (pr_orderRef q)" using b c(1) o(3) by (simp add: books_def)
  with t have "\<exists>order. OrderPlaced i order (Inr (pr_orderRef q)) \<in> set (cks_log s) \<and> rq_tenantId order = ?t \<and>
       pr_amountMinor q = tt_totalMinor (rq_totals order) \<and> pr_currency q = tt_currency (rq_totals order)"
    by (auto simp: order_on_book_def)
  with o c show ?thesis by auto
qed

subsection \<open>Completing again\<close>

lemma answers_attempt [answers_intros]:
  "(\<And>r. answers Q (k r) (s\<lparr>cks_log := cks_log s @ [note r]\<rparr>)) \<Longrightarrow> answers Q (attempt port note q k) s"
  by (simp add: answers_def attempt_def Let_def)

lemma answers_ask [answers_intros]:
  "(\<And>x r. answers Q (k x) (s\<lparr>cks_log := cks_log s @ [note r]\<rparr>)) \<Longrightarrow> answers Q (ask port note q k) s"
  unfolding ask_def by (intro answers_attempt) (simp add: answers_def split: sum.split)

lemma answers_try:
  "(\<And>x c' calls. act (c, cks_log s) = (Inr x, (c', calls)) \<Longrightarrow> answers Q (k x c') (touch_work t (c', calls) s)) \<Longrightarrow>
     answers Q (try_session t act k c) s"
  by (auto simp: answers_def try_session_def split: prod.splits sum.splits thrown.splits)

text \<open>A completion that answers has recorded its order.\<close>

definition has_order :: "string \<Rightarrow> string \<Rightarrow> complete_output \<Rightarrow> 'b checkout_service \<Rightarrow> bool" where
  "has_order t i out s \<longleftrightarrow> (\<exists>c. find_agg t i s = Some c \<and> co_orderRef c = Some (cpo_orderRef out))"

lemma has_order_log [simp]: "has_order t i out (s\<lparr>cks_log := l\<rparr>) = has_order t i out s"
  by (simp add: has_order_def)

lemma cpo_complete_answer [simp]: "cpo_orderRef (complete_answer c r) = r"
  by (simp add: complete_answer_def status_output.defs)

lemma place_order_records:
  assumes "agg_id c = i"
  shows "answers (has_order t i) (place_order deps env e at_time saved t key c) s"
proof -
  have finish: "answers (has_order t i) (try_session t (on_session (co_complete ref e at_time))
       (\<lambda>_ c. then_do (save_agg env saved t c) (record_usage deps t ref d (return_ok (complete_answer c ref)))) c) s'"
    for ref d s'
  proof (intro answers_try answers_then)
    fix u c' calls s''
    assume a: "on_session (co_complete ref e at_time) (c, cks_log s') = (Inr u, (c', calls))"
      and v: "save_agg env saved t c' (touch_work t (c', calls) s') = (Inr (), s'')"
    have c': "agg_id c' = i" "co_orderRef c' = Some ref"
      using a assms by (auto simp: on_session_def co_complete_def set_if_open_apply mapError_def addDomainEvent_def split: if_splits)
    have "has_order t i (complete_answer c' ref) s''"
      using find_agg_save [of t i env saved t c' "touch_work t (c', calls) s'"] c' by (simp add: v has_order_def)
    then show "answers (has_order t i) (record_usage deps t ref d (return_ok (complete_answer c' ref))) s''"
      unfolding record_usage_def Let_def by (auto intro!: answers_intros split: option.split)
  qed
  have hold: "answers (has_order t i) (hold_stock deps t c ref (try_session t (on_session (co_complete ref e at_time))
       (\<lambda>_ c. then_do (save_agg env saved t c) (record_usage deps t ref d (return_ok (complete_answer c ref)))) c)) s'"
    for ref d s'
    unfolding hold_stock_def undoOrder_def Let_def
    by (auto intro!: answers_intros finish split: option.split sum.split)
  show ?thesis
    unfolding place_order_def check_stock_def by (auto intro!: answers_intros hold split: option.split)
qed

lemma complete_records:
  assumes "checkout_ledger wired pins s"
  shows "answers (has_order t i) (CompleteCheckout deps env m t i key) s"
  unfolding CompleteCheckout_def
proof (intro answers_or_return answers_lookup)
  fix k c
  assume c: "find_agg t i s = Some c"
  have i: "agg_id c = i" using ledger_session [OF assms c] by simp
  let ?place = "place_order deps env (cm_completeId m) (cm_completeAt m) (cm_savedAt m) t key"
  have review: "answers (has_order t i) (review_discounts deps env (cm_recalculateId m) (cm_recalculateAt m) (cm_savedAt m) t ?place c) s"
  proof (cases "cd_promotionValidation deps")
    case None
    with place_order_records [OF i] show ?thesis by (simp add: review_discounts_def)
  next
    case (Some promotion)
    let ?act = "bind_action (refreshDiscountsAndTax promotion (cd_taxCalculation deps) t) (\<lambda>changed. with_work (\<lambda>d.
               if changed \<or> co_taxMinor d \<noteq> co_taxMinor c
               then then_do (on_session (co_recalculateTotals (cm_recalculateId m) (cm_recalculateAt m))) (ret True)
               else ret False))"
    have q: "quietly.along ?act" by (intro along_intros)+
    have "answers (has_order t i) (try_session t ?act
       (\<lambda>moved d. if moved then save_session env (cm_savedAt m) t (Inl DISCOUNTS_CHANGED) d else ?place d) c) s"
    proof (rule answers_try)
      fix moved c' calls
      assume a: "?act (c, cks_log s) = (Inr moved, (c', calls))"
      have "agg_id c' = i" using quietly.alongD [OF q, of "(c, cks_log s)"] i by (simp add: a quiet_def)
      then show "answers (has_order t i)
         (if moved then save_session env (cm_savedAt m) t (Inl DISCOUNTS_CHANGED) c' else ?place c') (touch_work t (c', calls) s)"
        by (cases moved) (simp_all add: place_order_records, simp add: save_session_def answers_def then_do_ok_iff)
    qed
    with Some show ?thesis by (simp add: review_discounts_def)
  qed
  with c show "answers (has_order t i)
     (case co_orderRef c of
         Some ref \<Rightarrow> return_ok (complete_answer c ref)
       | None \<Rightarrow>
           if \<not> isOpen (co_state c) then return_err (closed_error c)
           else review_discounts deps env (cm_recalculateId m) (cm_recalculateAt m) (cm_savedAt m) t ?place c) s"
    by (auto intro: answers_intros simp: has_order_def split: option.split)
qed

text \<open>
  Once a completion has answered an order, every later completion of that session, after any requests
  and whatever its key, answers the same order, calls no port and changes nothing.
\<close>

lemma completion_idempotent:
  assumes "s = runs (serve_checkout p env) requests empty_checkout"
    and "admissible fresh_session (serve_checkout p env) empty_checkout requests"
    and "CompleteCheckout deps env m t i key s = (Inr (Inr out), s1)"
    and "later = runs (serve_checkout p env) more_requests s1"
    and "admissible fresh_session (serve_checkout p env) s1 more_requests"
    and "\<not> blank key'"
  shows "CompleteCheckout deps' env' m' t i key' later =
    (Inr (Inr \<lparr>sto_checkoutSessionId = i, sto_state = ''completed'', cpo_orderRef = cpo_orderRef out\<rparr>), later)"
proof -
  let ?pins = "{(t, i, cpo_orderRef out)}"
  have l: "checkout_ledger False {} s" unfolding assms(1) by (rule reached_loosely [OF assms(2)])
  have "checkout_ledger False {} s1" using keepsD [OF keeps_complete l, of deps env m t i key] assms(3) by simp
  moreover have "has_order t i out s1" using complete_records [OF l] assms(3) by (rule answersD)
  ultimately have "checkout_ledger False ?pins s1" by (auto simp: checkout_ledger_def has_order_def)
  then have later: "checkout_ledger False ?pins later" unfolding assms(4) by (rule loosely.guarded_runs) (rule assms(5))
  then obtain c where c: "find_agg t i later = Some c" "co_orderRef c = Some (cpo_orderRef out)"
    by (auto simp: checkout_ledger_def)
  with ledger_session [OF later c(1)] have "agg_id c = i" "co_state c = CoCompleted" by (auto simp: session_wf_def)
  with c assms(6) show ?thesis
    by (simp add: CompleteCheckout_def or_return_def lookup_def complete_answer_def status_answer_def status_output.defs)
qed

subsection \<open>A run with the offline adapters\<close>

text \<open>buildController when nothing is supplied, here with a reservation port that holds every order's stock.\<close>

definition offline_ports :: "(string \<times> checkout_item list \<times> string \<Rightarrow> (string, unit) result) \<Rightarrow> checkout_ports" where
  "offline_ports reserve =
     \<lparr>op_prices = InMemoryPricingValidation, op_stock = InMemoryInventoryValidation, op_tax = InMemoryTaxCalculation,
      op_quotes = InMemoryShippingCalculation, op_promotion = InMemoryPromotionValidation,
      op_complete = \<lparr>cd_orderCreation = InMemoryOrderCreation, cd_inventoryValidation = None,
        cd_stockReservation = Some \<lparr>rp_reserve = (\<lambda>calls q. Inr (reserve q)), rp_release = (\<lambda>calls q. Inr ())\<rparr>,
        cd_orderCancellation = None, cd_promotionValidation = Some InMemoryPromotionValidation,
        cd_taxCalculation = Some InMemoryTaxCalculation, cd_discountUsage = None\<rparr>,
      op_methods = InMemoryPaymentMethods, op_payment = InMemoryPaymentInitiation\<rparr>"

definition co_sample_env :: "(checkout_event, unit) agg_env" where
  "co_sample_env = \<lparr>ae_translate = CheckoutEventTranslator, ae_serialize = (\<lambda>e. ('''', ())), ae_producer = Some ''checkout'',
     ae_context = rootEventContext ''ctx'' None\<rparr>"

definition sample_request :: "checkout_command \<Rightarrow> checkout_request" where
  "sample_request c = \<lparr>cr_tenant = ''t'', cr_session = ''s'', cr_now = 1, cr_moments =
     \<lparr>cm_recalculateId = ''e1'', cm_recalculateAt = 2, cm_completeId = ''e2'', cm_completeAt = 3, cm_savedAt = 4\<rparr>,
     cr_command = c\<rparr>"

definition co_sample_address :: address_input where
  "co_sample_address = \<lparr>ai_name = None, ai_phone = None, ai_line1 = ''1 Main St'', ai_line2 = None, ai_city = ''Paris'',
     ai_postalCode = ''75001'', ai_country = ''FR'', ai_province = None\<rparr>"

definition co_sample_order :: "checkout_request list" where
  "co_sample_order = map sample_request
     [CmStart ''cart'' None ''web'' ''EUR'',
      CmLoad [\<lparr>ri_productId = ''p'', ri_quantity = jint 2, ri_unitPriceAmountMinor = jint 700, ri_currency = ''EUR'',
        ri_variantId = None, ri_sku = None, ri_title = None, ri_variantTitle = None\<rparr>],
      CmBilling co_sample_address, CmShipTo co_sample_address, CmSelectShipping ''standard'', CmSelectPayment ''pm'' ''stripe'',
      CmAddCode ''save10'', CmRecalculate, CmComplete ''key-1'']"

definition after :: "(string \<times> checkout_item list \<times> string \<Rightarrow> (string, unit) result) \<Rightarrow> checkout_request list \<Rightarrow>
    unit checkout_service" where
  "after reserve requests = runs (serve_checkout (offline_ports reserve) co_sample_env) requests empty_checkout"

lemma sample_fresh:
  "admissible fresh_session (serve_checkout (offline_ports (\<lambda>_. Inr ())) co_sample_env) empty_checkout (co_sample_order @ [sample_request CmPay])"
  by code_simp




lemma charged_what_was_ordered_witness:
  "map (\<lambda>(q, po). (pr_amountMinor q, pop_paymentIntentId po))
     (opened ''t'' ''s'' (cks_log (after (\<lambda>_. Inr ()) (co_sample_order @ [sample_request CmPay])))) = [(1900, ''payment-order-s'')]"
proof -
  let ?q = "\<lparr>pr_tenantId = ''t'', pr_orderRef = ''order-s'', pr_provider = ''stripe'', pr_amountMinor = 1900, pr_currency = ''EUR''\<rparr>"
  let ?po = "\<lparr>pop_paymentIntentId = ''payment-order-s'', pop_status = ''created'', pop_provider = ''stripe'', pop_clientHandle = None\<rparr>"
  have "PaymentOpened ''s'' ?q (Inr ?po) \<in> set (cks_log (after (\<lambda>_. Inr ()) (co_sample_order @ [sample_request CmPay])))"
    by code_simp
  from charged_what_was_ordered [OF after_def sample_fresh this]
  have "opened ''t'' ''s'' (cks_log (after (\<lambda>_. Inr ()) (co_sample_order @ [sample_request CmPay]))) = [(?q, ?po)]"
    by simp
  then show ?thesis by simp
qed

lemma completion_idempotent_witness:
  "\<exists>out s1. CompleteCheckout (op_complete (offline_ports (\<lambda>_. Inr ()))) co_sample_env (cr_moments (sample_request CmGet)) ''t'' ''s'' ''k''
       (after (\<lambda>_. Inr ()) (butlast co_sample_order)) = (Inr (Inr out), s1) \<and>
     fst (CompleteCheckout (op_complete (offline_ports (\<lambda>_. Inr ()))) co_sample_env (cr_moments (sample_request CmGet)) ''t'' ''s'' ''other''
       (runs (serve_checkout (offline_ports (\<lambda>_. Inr ())) co_sample_env) [sample_request CmExpire, sample_request CmPay] s1)) =
     Inr (Inr \<lparr>sto_checkoutSessionId = ''s'', sto_state = ''completed'', cpo_orderRef = cpo_orderRef out\<rparr>)"
proof -
  let ?deps = "op_complete (offline_ports (\<lambda>_. Inr ()))"
  let ?first = "CompleteCheckout ?deps co_sample_env (cr_moments (sample_request CmGet)) ''t'' ''s'' ''k''
    (after (\<lambda>_. Inr ()) (butlast co_sample_order))"
  have "isOk (fst ?first) \<and> isOk (projr (fst ?first))" by code_simp
  then obtain out s1 where one: "?first = (Inr (Inr out), s1)"
    by (cases ?first) (auto simp: isOk_def split: sum.splits)
  have fresh: "admissible fresh_session (serve_checkout (offline_ports (\<lambda>_. Inr ())) co_sample_env) empty_checkout (butlast co_sample_order)"
    by code_simp
  have more_fresh: "admissible fresh_session (serve_checkout (offline_ports (\<lambda>_. Inr ())) co_sample_env) s1
      [sample_request CmExpire, sample_request CmPay]"
    by (simp add: sample_request_def)
  have "\<not> blank ''other''" by code_simp
  from completion_idempotent [OF after_def fresh one refl more_fresh this] one show ?thesis by fastforce
qed

end
