(* ===== verification/CheckoutOutcomes.thy ===== *)
theory CheckoutOutcomes
  imports CheckoutLedger
begin

section \<open>What becomes of a discount code and of an open checkout\<close>

text \<open>
  The functional behaviour of two use cases. \<^verbatim>\<open>AddDiscountCode\<close>: the answer, the codes kept, the attempts counted
  and the totals agree. \<^verbatim>\<open>CompleteCheckout\<close>: when the other contexts agree, an open session with a draft
  completes; the outbox cannot refuse its events.
\<close>

subsection \<open>Entering a code\<close>

definition same_entry :: "work \<Rightarrow> work \<Rightarrow> bool" where
  "same_entry w v \<longleftrightarrow> agg_id (fst v) = agg_id (fst w) \<and> co_discountCodes (fst v) = co_discountCodes (fst w) \<and>
     co_rejectedCodeAttempts (fst v) = co_rejectedCodeAttempts (fst w) \<and>
     co_codeAttemptsWindowStartedAt (fst v) = co_codeAttemptsWindowStartedAt (fst w) \<and> co_items (fst v) = co_items (fst w)"

interpretation entry: work_relation same_entry
  by unfold_locales (simp_all add: same_entry_def)

lemma entry_refresh: "entry.along (refreshDiscountsAndTax port tax t)"
proof -
  have [along_intros]: "entry.along (call_port p e q)" "entry.along (on_session (co_applyDiscountSnapshot sn))"
    "entry.along (on_session (co_applyTaxSnapshot n b))" for p :: "('q, 'a) port" and e q sn n b
    by (simp_all add: entry.along_def same_entry_def call_port_def co_ops co_plumbing split: prod.split)
  show ?thesis
    unfolding refreshDiscountsAndTax_def refreshDiscounts_def calculateAndStoreTax_def
    by (auto intro!: along_intros)
qed

lemma refresh_keeps_entry: "refreshDiscountsAndTax port tax t w = (Inr b, v) \<Longrightarrow> same_entry w v"
  using entry.alongD [OF entry_refresh, of w port tax t] by simp

definition same_fields :: "checkout \<Rightarrow> checkout \<Rightarrow> bool" where
  "same_fields c d \<longleftrightarrow> agg_id c = agg_id d \<and> co_discountCodes c = co_discountCodes d \<and> co_items c = co_items d"

lemma on_session_ok_iff: "on_session act w = (Inr u, v) \<longleftrightarrow> (\<exists>c. act (fst w) = (Inr u, c) \<and> v = (c, snd w))"
  by (auto simp: on_session_def mapError_def split: prod.splits sum.splits)

lemma recalculate_totals_current:
  assumes "recalculateIfPossible e now w = (Inr u, v)"
  shows "same_entry w v" "co_items (fst v) \<noteq> [] \<Longrightarrow> co_totals (fst v) = Some (assembled_totals (fst v))"
    "co_discountSnapshot (fst v) = co_discountSnapshot (fst w)"
  using assms
  by (auto simp: recalculateIfPossible_def with_work_def on_session_ok_iff same_entry_def co_recalculateTotals_def
      co_plumbing assembled_totals_def selected_rate_def shipping_discount_def split: if_splits)

lemma try_code_outcome:
  assumes "try_code port tax e at_time t now k w = (Inr (ok, why), v)"
  shows "co_discountCodes (fst v) =
      (if ok then co_discountCodes (fst w) else filter (\<lambda>x. x \<noteq> co_normalizeDiscountCode k) (co_discountCodes (fst w)))"
    and "(co_rejectedCodeAttempts (fst v), co_codeAttemptsWindowStartedAt (fst v)) =
      (let c = (if ok then fst w else snd (co_recordRejectedDiscountCode now (fst w)))
       in (co_rejectedCodeAttempts c, co_codeAttemptsWindowStartedAt c))"
    and "co_items (fst v) \<noteq> [] \<Longrightarrow> co_totals (fst v) = Some (assembled_totals (fst v))"
    and "ok \<Longrightarrow> \<exists>x. session_code_status k (fst v) = Some x \<and> cst_applicable x"
    and "agg_id (fst v) = agg_id (fst w)" "co_items (fst v) = co_items (fst w)"
proof -
  obtain b w1 where w1: "refreshDiscountsAndTax port tax t w = (Inr b, w1)"
    using assms by (auto simp: try_code_def bind_action_ok_iff)
  define applies where "applies \<longleftrightarrow> (case session_code_status k (fst w1) of Some x \<Rightarrow> cst_applicable x | None \<Rightarrow> False)"
  obtain w4 u where w4: "(if applies then ret ()
                   else then_do (on_session (co_removeDiscountCode k))
                       (then_do (on_session (co_recordRejectedDiscountCode now))
                        (bind_action (refreshDiscountsAndTax port tax t) (\<lambda>_. ret ())))) w1 = (Inr u, w4)"
    and v: "recalculateIfPossible e at_time w4 = (Inr (), v)" and ok: "ok = applies"
    using assms unfolding try_code_def bind_action_apply w1 prod.case sum.case with_work_def Let_def applies_def [symmetric]
    unfolding then_do_ok_iff by auto
  have entry: "same_entry w w1" by (rule refresh_keeps_entry [OF w1])
  note rec = recalculate_totals_current [OF v]
  have after: "co_discountCodes (fst w4) =
      (if ok then co_discountCodes (fst w) else filter (\<lambda>x. x \<noteq> co_normalizeDiscountCode k) (co_discountCodes (fst w))) \<and>
    (co_rejectedCodeAttempts (fst w4), co_codeAttemptsWindowStartedAt (fst w4)) =
      (let c = (if ok then fst w else snd (co_recordRejectedDiscountCode now (fst w)))
       in (co_rejectedCodeAttempts c, co_codeAttemptsWindowStartedAt c)) \<and>
    agg_id (fst w4) = agg_id (fst w) \<and> co_items (fst w4) = co_items (fst w) \<and> (ok \<longrightarrow> w4 = w1)"
  proof (cases applies)
    case True
    with w4 ok entry show ?thesis by (simp add: same_entry_def Let_def)
  next
    case False
    with w4 obtain c2 c3 b4 where c: "co_removeDiscountCode k (fst w1) = (Inr (), c2)"
        "co_recordRejectedDiscountCode now c2 = (Inr (), c3)"
        "refreshDiscountsAndTax port tax t (c3, snd w1) = (Inr b4, w4)"
      by (auto simp: then_do_ok_iff on_session_ok_iff bind_action_ok_iff)
    have open1: "isOpen (co_state (fst w1))" and c2: "c2 = (fst w1)\<lparr>co_discountCodes :=
        filter (\<lambda>x. x \<noteq> co_normalizeDiscountCode k) (co_discountCodes (fst w1))\<rparr>"
      using c(1) by (simp_all add: co_removeDiscountCode_def set_if_open_apply split: if_splits)
    have "co_state (fst w1) = co_state (fst w)"
      using same_state.alongD [OF same_state_refresh(3) [where port=port and tax'=tax and t=t], of w] w1 by simp
    then have open0: "isOpen (co_state (fst w))" using open1 by simp
    have e4: "same_entry (c3, snd w1) w4" by (rule refresh_keeps_entry [OF c(3)])
    have e3: "same_fields c3 c2" "(co_rejectedCodeAttempts c3, co_codeAttemptsWindowStartedAt c3) =
        (let c = snd (co_recordRejectedDiscountCode now (fst w)) in (co_rejectedCodeAttempts c, co_codeAttemptsWindowStartedAt c))"
      using c(2) entry open0 open1
      by (auto simp: same_fields_def c2 same_entry_def co_recordRejectedDiscountCode_def set_if_open_apply split: option.splits if_splits)
    show ?thesis using e3 e4 entry False ok c2 by (auto simp: same_fields_def same_entry_def Let_def)
  qed
  show "co_discountCodes (fst v) =
      (if ok then co_discountCodes (fst w) else filter (\<lambda>x. x \<noteq> co_normalizeDiscountCode k) (co_discountCodes (fst w)))"
    "(co_rejectedCodeAttempts (fst v), co_codeAttemptsWindowStartedAt (fst v)) =
      (let c = (if ok then fst w else snd (co_recordRejectedDiscountCode now (fst w)))
       in (co_rejectedCodeAttempts c, co_codeAttemptsWindowStartedAt c))"
    "agg_id (fst v) = agg_id (fst w)" "co_items (fst v) = co_items (fst w)"
    using after rec(1) by (simp_all add: same_entry_def)
  show "co_items (fst v) \<noteq> [] \<Longrightarrow> co_totals (fst v) = Some (assembled_totals (fst v))" by (rule rec(2))
  assume ok
  then have "w4 = w1" "applies" using after \<open>ok = applies\<close> by simp_all
  then show "\<exists>x. session_code_status k (fst v) = Some x \<and> cst_applicable x"
    using rec(3) by (auto simp: applies_def session_code_status_def split: option.splits)
qed

lemma enter_room:
  assumes "k \<in> set (co_discountCodes c) \<or> length (co_discountCodes c) < 5" "co_normalizeDiscountCode k = k"
  shows "co_enterDiscountCode k c =
    (if isOpen (co_state c)
     then (Inr (), if k \<in> set (co_discountCodes c) then c else c\<lparr>co_discountCodes := co_discountCodes c @ [k]\<rparr>)
     else (Inl (closed_error c), c))"
  using assms by (auto simp: co_enterDiscountCode_def co_ensureOpen_def then_do_apply CO_MAX_DISCOUNT_CODES_def)

text \<open>
  A discount code that is entered and answered is kept exactly when it is reported applicable; a rejected one
  is taken out again and counted as one attempt; the items never move, and a session with items is left with
  the totals of its new figures.
\<close>

lemma discount_code_outcome:
  fixes s :: "'b checkout_service"
  assumes "AddDiscountCode port tax env e now at_time saved t i raw s = (Inr (Inr out), s')"
    and "find_agg t i s = Some c" "agg_id c = i" "k = co_normalizeDiscountCode raw"
    and "\<not> isDiscountCodeEntryLocked now c" "k \<in> set (co_discountCodes c) \<or> length (co_discountCodes c) < 5"
  shows "\<exists>d. find_agg t i s' = Some d \<and> cdo_code out = k \<and> co_items d = co_items c \<and>
    (let entered = (if k \<in> set (co_discountCodes c) then co_discountCodes c else co_discountCodes c @ [k]);
         counted = (if cdo_applicable out then c else snd (co_recordRejectedDiscountCode now c))
     in co_discountCodes d = (if cdo_applicable out then entered else filter (\<lambda>x. x \<noteq> k) entered) \<and>
        co_rejectedCodeAttempts d = co_rejectedCodeAttempts counted \<and>
        co_codeAttemptsWindowStartedAt d = co_codeAttemptsWindowStartedAt counted) \<and>
    (cdo_applicable out \<longrightarrow> (\<exists>x. session_code_status k d = Some x \<and> cst_applicable x)) \<and>
    (co_items c \<noteq> [] \<longrightarrow> co_totals d = Some (assembled_totals d))"
proof -
  have norm: "co_normalizeDiscountCode k = k" using assms(4) by simp
  note enter = enter_room [OF assms(6) norm]
  have ne: "k \<noteq> ''''" using assms(1) by (auto simp: AddDiscountCode_def assms(4) returns_iff)
  have opened: "isOpen (co_state c)"
    using assms(1) enter ne assms(5) by (auto simp: AddDiscountCode_def lookup_def assms(2) returns_iff too_many_codes_def closed_error_def simp flip: assms(4) split: if_splits)
  define c1 where "c1 = (if k \<in> set (co_discountCodes c) then c else c\<lparr>co_discountCodes := co_discountCodes c @ [k]\<rparr>)"
  have "try_session t (then_do (on_session (co_enterDiscountCode k)) (try_code port tax e at_time t now k))
      (\<lambda>(applicable, reason) c. save_session env saved t (Inr (code_answer c k applicable reason)) c) c s = (Inr (Inr out), s')"
    using assms(1) ne enter opened assms(5) by (simp add: AddDiscountCode_def lookup_def assms(2) flip: assms(4))
  moreover have "then_do (on_session (co_enterDiscountCode k)) (try_code port tax e at_time t now k) (c, cks_log s) =
      try_code port tax e at_time t now k (c1, cks_log s)"
    using enter opened by (simp add: then_do_apply on_session_def mapError_def c1_def)
  ultimately obtain ok why v where tried: "try_code port tax e at_time t now k (c1, cks_log s) = (Inr (ok, why), v)"
    and saved: "save_session env saved t (Inr (code_answer (fst v) k ok why)) (fst v) (touch_work t v s) = (Inr (Inr out), s')"
    by (auto simp: try_session_def split: prod.splits sum.splits thrown.splits)
  note outcome = try_code_outcome [OF tried, unfolded norm fst_conv]
  have out: "out = code_answer (fst v) k ok why"
    using saved by (auto simp: save_session_def then_do_ok_iff)
  obtain u where "save_agg env saved t (fst v) (touch_work t v s) = (Inr u, s')"
    using saved by (auto simp: save_session_def then_do_ok_iff)
  then have "find_agg t i s' = Some ((fst v)\<lparr>agg_events := []\<rparr>)"
    using find_agg_save [of t i env saved t "fst v" "touch_work t v s"] outcome(5) assms(3) by (simp add: c1_def split: if_splits)
  moreover have "co_rejectedCodeAttempts (snd (co_recordRejectedDiscountCode now c1)) =
      co_rejectedCodeAttempts (snd (co_recordRejectedDiscountCode now c))"
    "co_codeAttemptsWindowStartedAt (snd (co_recordRejectedDiscountCode now c1)) =
      co_codeAttemptsWindowStartedAt (snd (co_recordRejectedDiscountCode now c))"
    using opened by (auto simp: c1_def co_recordRejectedDiscountCode_def set_if_open_apply split: option.split)
  moreover have "co_rejectedCodeAttempts c1 = co_rejectedCodeAttempts c"
    "co_codeAttemptsWindowStartedAt c1 = co_codeAttemptsWindowStartedAt c" "co_items c1 = co_items c"
    "co_discountCodes c1 = (if k \<in> set (co_discountCodes c) then co_discountCodes c else co_discountCodes c @ [k])"
    by (simp_all add: c1_def)
  moreover have "session_code_status k ((fst v)\<lparr>agg_events := []\<rparr>) = session_code_status k (fst v)"
    "assembled_totals ((fst v)\<lparr>agg_events := []\<rparr>) = assembled_totals (fst v)"
    by (simp_all add: session_code_status_def assembled_totals_def selected_rate_def shipping_discount_def)
  ultimately show ?thesis using outcome out
    by (intro exI [of _ "(fst v)\<lparr>agg_events := []\<rparr>"]) (simp add: code_answer_def Let_def split: if_splits)
qed

subsection \<open>Completing an open session\<close>

lemma checkout_event_types: "CheckoutEventTranslator ev = Some d \<Longrightarrow> event_type_pattern (d_type d) \<and> d_eventVersion d = 1"
proof -
  have "event_type_pattern ''checkout.checkout_session.completed''" "event_type_pattern ''checkout.checkout_session.failed''"
    "event_type_pattern ''checkout.checkout_session.recalculated''" "event_type_pattern ''checkout.checkout_session.locked''"
    "event_type_pattern ''checkout.checkout_session.expired''"
    by code_simp+
  then show "CheckoutEventTranslator ev = Some d \<Longrightarrow> event_type_pattern (d_type d) \<and> d_eventVersion d = 1"
    by (cases "ev_data ev") (auto simp: CheckoutEventTranslator_def Let_def)
qed

text \<open>The outbox takes the events of any session, whatever is pending.\<close>

lemma checkout_save_ok:
  fixes s :: "'b checkout_service"
  assumes "ae_translate env = CheckoutEventTranslator" "\<not> blank t"
  shows "fst (save_agg env now t c s) = Inr ()"
  by (rule save_agg_ok) (use checkout_event_types assms in auto)

definition completed_as :: "string \<Rightarrow> string \<Rightarrow> checkout_totals \<Rightarrow> complete_output \<Rightarrow> 'b checkout_service \<Rightarrow> bool" where
  "completed_as t i x out s \<longleftrightarrow> (\<exists>c. find_agg t i s = Some c \<and> co_state c = CoCompleted \<and>
     co_orderRef c = Some (cpo_orderRef out) \<and> co_totals c = Some x)"

definition delivers :: "('a \<Rightarrow> 's \<Rightarrow> bool) \<Rightarrow> ('s, 'a) use_case \<Rightarrow> 's \<Rightarrow> bool" where
  "delivers Q f s \<longleftrightarrow> (\<exists>y s'. f s = (Inr (Inr y), s') \<and> Q y s')"

lemma delivers_ask:
  assumes "\<And>calls. \<exists>x. port calls q = Inr x" "\<And>x r. port (cks_log s) q = Inr x \<Longrightarrow> delivers Q (k x) (s\<lparr>cks_log := cks_log s @ [note r]\<rparr>)"
  shows "delivers Q (ask port note q k) s"
proof -
  obtain x where x: "port (cks_log s) q = Inr x" using assms(1) by blast
  from assms(2) [OF this, of "Inr x"] show ?thesis by (simp add: ask_def attempt_def Let_def delivers_def x)
qed

lemma delivers_attempt:
  "(\<And>r. r = port (cks_log s) q \<Longrightarrow> delivers Q (k r) (s\<lparr>cks_log := cks_log s @ [note r]\<rparr>)) \<Longrightarrow> delivers Q (attempt port note q k) s"
  by (simp add: attempt_def Let_def delivers_def)

lemma completed_log [simp]: "completed_as t i x out (s\<lparr>cks_log := l\<rparr>) = completed_as t i x out s"
  by (simp add: completed_as_def)

lemma finish_delivers:
  fixes s :: "'b checkout_service"
  assumes "ae_translate env = CheckoutEventTranslator" "\<not> blank t" "isOpen (co_state c)" "agg_id c = i" "co_totals c = Some x"
  shows "delivers (completed_as t i x) (try_session t (on_session (co_complete ref e at_time))
     (\<lambda>_ c. then_do (save_agg env saved t c) (record_usage deps t ref d (return_ok (complete_answer c ref)))) c) s"
proof -
  obtain c' where c': "co_complete ref e at_time c = (Inr (), c')" "agg_id c' = i" "co_state c' = CoCompleted"
      "co_orderRef c' = Some ref" "co_totals c' = Some x"
    using assms(3-5) by (auto simp: co_complete_def set_if_open_apply addDomainEvent_def)
  let ?s = "touch_work t (c', cks_log s) s"
  obtain s' where s': "save_agg env saved t c' ?s = (Inr (), s')"
    using checkout_save_ok [OF assms(1,2), of saved c' ?s] by (cases "save_agg env saved t c' ?s") auto
  have there: "completed_as t i x (complete_answer c' ref) s'"
    using find_agg_save [of t i env saved t c' ?s] c' by (simp add: s' completed_as_def)
  have "delivers (completed_as t i x) (record_usage deps t ref d (return_ok (complete_answer c' ref))) s'"
    unfolding record_usage_def Let_def
    using there by (auto simp: delivers_def attempt_def Let_def return_ok_def split: option.split)
  then show ?thesis by (simp add: delivers_def try_session_def on_session_def c' mapError_def then_do_apply s')
qed

lemma place_delivers:
  fixes s :: "'b checkout_service"
  assumes env: "ae_translate env = CheckoutEventTranslator" "\<not> blank t"
    and c: "isOpen (co_state c)" "agg_id c = i" "generateOrderDraft c = Inr d"
    and orders: "\<And>calls q. \<exists>ref. cd_orderCreation deps calls q = Inr ref"
    and stock: "\<And>port calls q. cd_inventoryValidation deps = Some port \<Longrightarrow> \<exists>v. port calls q = Inr v \<and> va_valid v"
    and held: "\<And>port calls q. cd_stockReservation deps = Some port \<Longrightarrow> rp_reserve port calls q = Inr (Inr ())"
  shows "delivers (completed_as t i (dr_totals d)) (place_order deps env e at_time saved t key c) s"
proof -
  have x: "co_totals c = Some (dr_totals d)" using draft_parts [OF c(3)] by simp
  note finish = finish_delivers [OF env c(1,2) x]
  have hold: "delivers (completed_as t i (dr_totals d)) (hold_stock deps t c ref (try_session t (on_session (co_complete ref e at_time))
       (\<lambda>_ c. then_do (save_agg env saved t c) (record_usage deps t ref d (return_ok (complete_answer c ref)))) c)) s'"
    for ref s'
    unfolding hold_stock_def
    by (cases "cd_stockReservation deps") (auto intro!: delivers_attempt finish simp: held)
  have place: "delivers (completed_as t i (dr_totals d))
     (ask (cd_orderCreation deps) (OrderPlaced (agg_id c) (order_request_of t key c d)) (order_request_of t key c d)
         (\<lambda>ref. hold_stock deps t c ref
           (try_session t (on_session (co_complete ref e at_time))
             (\<lambda>_ c. then_do (save_agg env saved t c)
                (record_usage deps t ref d (return_ok (complete_answer c ref)))) c))) s'" for s'
    by (intro delivers_ask orders hold)
  show ?thesis
  proof (cases "cd_inventoryValidation deps")
    case None
    with place [of s] show ?thesis by (simp add: place_order_def or_return_def c(3) check_stock_def)
  next
    case (Some port)
    obtain v where v: "port (cks_log s) (co_items c, t) = Inr v" "va_valid v" using stock [OF Some] by blast
    have "\<And>calls. \<exists>v. port calls (co_items c, t) = Inr v" using stock [OF Some] by blast
    with v show ?thesis
      by (simp add: place_order_def or_return_def c(3) check_stock_def Some) (intro delivers_ask; simp add: place)
  qed
qed

text \<open>A look at the discounts that finds the same figures.\<close>

lemma refresh_same_figures:
  assumes "pp_evaluate port calls (evaluation_of t c) = Inr sn" "isOpen (co_state c)"
    "ds_orderDiscountMinor sn = or_zero (co_discountMinor c)" "ds_shippingDiscountMinor sn = shipping_discount c"
  shows "\<exists>n m. refreshDiscountsAndTax port tax t (c, calls) =
    (Inr False, (c\<lparr>co_discountSnapshot := n, co_discountMinor := m\<rparr>, calls @ [Evaluated (evaluation_of t c)]))"
proof -
  define d where "d = (if 0 < length (ds_applied sn) \<or> hasDiscountState c
    then c\<lparr>co_discountSnapshot := Some sn, co_discountMinor := Some (ds_orderDiscountMinor sn)\<rparr> else c)"
  have "refreshDiscounts port t (c, calls) = (Inr (), (d, calls @ [Evaluated (evaluation_of t c)]))"
    using assms(1,2) by (simp add: refreshDiscounts_def with_work_def bind_action_apply call_port_def on_session_def
        co_applyDiscountSnapshot_def set_if_open_apply mapError_def d_def)
  moreover have "figures d = figures c" using assms(3,4) by (simp add: d_def figures_def or_zero_def shipping_discount_def)
  ultimately have "refreshDiscountsAndTax port tax t (c, calls) = (Inr False, (d, calls @ [Evaluated (evaluation_of t c)]))"
    by (simp add: refreshDiscountsAndTax_def with_work_def then_do_apply split: option.split)
  moreover have "d = c\<lparr>co_discountSnapshot := co_discountSnapshot d, co_discountMinor := co_discountMinor d\<rparr>"
    by (simp add: d_def)
  ultimately show ?thesis by metis
qed

text \<open>
  C11: When the other contexts agree - the promotion service still finds the same figures, the stock is there and
  can be held, and the order is accepted - completing an open session whose draft can be generated succeeds: it
  answers an order, and the session is stored as completed with that order and with its totals unchanged.
\<close>

theorem open_checkout_completes:
  fixes s :: "'b checkout_service"
  assumes "s = runs (serve_checkout p env) requests empty_checkout"
    and "admissible fresh_session (serve_checkout p env) empty_checkout requests"
    and "find_agg t i s = Some c" "isOpen (co_state c)" "generateOrderDraft c = Inr d"
    and "ae_translate env = CheckoutEventTranslator" "\<not> blank t" "\<not> blank key"
    and "\<And>calls q. \<exists>ref. cd_orderCreation deps calls q = Inr ref"
    and "\<And>port calls q. cd_inventoryValidation deps = Some port \<Longrightarrow> \<exists>v. port calls q = Inr v \<and> va_valid v"
    and "\<And>port calls q. cd_stockReservation deps = Some port \<Longrightarrow> rp_reserve port calls q = Inr (Inr ())"
    and "\<And>port calls q. cd_promotionValidation deps = Some port \<Longrightarrow> \<exists>sn. pp_evaluate port calls q = Inr sn \<and>
      ds_orderDiscountMinor sn = or_zero (co_discountMinor c) \<and> ds_shippingDiscountMinor sn = shipping_discount c"
  shows "\<exists>out s'. CompleteCheckout deps env m t i key s = (Inr (Inr out), s') \<and>
    (\<exists>c'. find_agg t i s' = Some c' \<and> co_state c' = CoCompleted \<and> co_orderRef c' = Some (cpo_orderRef out) \<and>
      co_totals c' = co_totals c)"
proof -
  let ?place = "place_order deps env (cm_completeId m) (cm_completeAt m) (cm_savedAt m) t key"
  have "checkout_ledger False {} s" unfolding assms(1) by (rule reached_loosely [OF assms(2)])
  then have c: "session_wf c" "agg_id c = i" using ledger_session assms(3) by blast+
  then have none: "co_orderRef c = None" using assms(4) by (auto simp: session_wf_def isOpen_def)
  have place: "delivers (completed_as t i (dr_totals d)) (?place c') s'"
    if "c' = c\<lparr>co_discountSnapshot := n, co_discountMinor := x\<rparr>" for n x c' s'
  proof -
    have "\<exists>d'. generateOrderDraft c' = Inr d' \<and> dr_totals d' = dr_totals d"
      using assms(5) by (auto simp: that generateOrderDraft_def split: option.splits if_splits)
    then obtain d' where d': "generateOrderDraft c' = Inr d'" "dr_totals d' = dr_totals d" by blast
    have "delivers (completed_as t i (dr_totals d')) (?place c') s'"
      by (rule place_delivers) (use assms(4,6,7) c(2) that d'(1) in simp_all, (rule assms(9-11), assumption?)+)
    with d'(2) show ?thesis by simp
  qed
  have "delivers (completed_as t i (dr_totals d))
     (review_discounts deps env (cm_recalculateId m) (cm_recalculateAt m) (cm_savedAt m) t ?place c) s"
  proof (cases "cd_promotionValidation deps")
    case None
    then show ?thesis using place [where n = "co_discountSnapshot c" and x = "co_discountMinor c" and c' = c and s' = s] by (simp add: review_discounts_def)
  next
    case (Some port)
    obtain sn where sn: "pp_evaluate port (cks_log s) (evaluation_of t c) = Inr sn"
        "ds_orderDiscountMinor sn = or_zero (co_discountMinor c)" "ds_shippingDiscountMinor sn = shipping_discount c"
      using assms(12) [OF Some] by blast
    obtain n x where "refreshDiscountsAndTax port (cd_taxCalculation deps) t (c, cks_log s) = (Inr False,
        (c\<lparr>co_discountSnapshot := n, co_discountMinor := x\<rparr>, cks_log s @ [Evaluated (evaluation_of t c)]))"
      using refresh_same_figures [OF sn(1) assms(4) sn(2,3)] by blast
    then show ?thesis using place [OF refl, where n = n and x = x]
      by (simp add: review_discounts_def Some try_session_def bind_action_apply with_work_def delivers_def)
  qed
  moreover have "co_totals c = Some (dr_totals d)" using draft_parts [OF assms(5)] by simp
  ultimately show ?thesis using assms(3,4,8) none
    by (auto simp: CompleteCheckout_def or_return_def lookup_def delivers_def completed_as_def)
qed

subsection \<open>Concrete sessions\<close>

text \<open>The session of the sample run before its code is entered, and before it is completed.\<close>

definition before_code :: "unit checkout_service" where
  "before_code = after (\<lambda>_. Inr ()) (take 6 co_sample_order)"

definition before_completion :: "unit checkout_service" where
  "before_completion = after (\<lambda>_. Inr ()) (butlast co_sample_order)"

definition enter_save10 :: "(unit, code_output) checkout_use_case" where
  "enter_save10 = AddDiscountCode InMemoryPromotionValidation (Some InMemoryTaxCalculation) co_sample_env ''e'' 5 6 7 ''t'' ''s'' '' save10 ''"

lemma discount_code_outcome_witness:
  "map_option (\<lambda>d. (co_discountCodes d, co_rejectedCodeAttempts d)) (find_agg ''t'' ''s'' (snd (enter_save10 before_code))) = Some ([], 1)"
proof -
  have "(case fst (enter_save10 before_code) of Inr (Inr out) \<Rightarrow> \<not> cdo_applicable out | _ \<Rightarrow> False) \<and>
     (case find_agg ''t'' ''s'' before_code of None \<Rightarrow> False
      | Some c \<Rightarrow> agg_id c = ''s'' \<and> \<not> isDiscountCodeEntryLocked 5 c \<and> co_discountCodes c = [] \<and>
          co_rejectedCodeAttempts (snd (co_recordRejectedDiscountCode 5 c)) = 1)"
    by code_simp
  then obtain out s' c where w: "enter_save10 before_code = (Inr (Inr out), s')" "\<not> cdo_applicable out"
      "find_agg ''t'' ''s'' before_code = Some c" "agg_id c = ''s''" "\<not> isDiscountCodeEntryLocked 5 c" "co_discountCodes c = []"
      "co_rejectedCodeAttempts (snd (co_recordRejectedDiscountCode 5 c)) = 1"
    by (cases "enter_save10 before_code") (auto split: sum.splits option.splits)
  have "co_normalizeDiscountCode '' save10 '' \<in> set (co_discountCodes c) \<or> length (co_discountCodes c) < 5"
    using w(6) by simp
  from discount_code_outcome [OF w(1) [unfolded enter_save10_def] w(3,4) refl w(5) this] w show ?thesis
    by (auto simp: Let_def)
qed

lemma open_checkout_completes_witness:
  "\<exists>out s'. CompleteCheckout (op_complete (offline_ports (\<lambda>_. Inr ()))) co_sample_env (cr_moments (sample_request CmGet))
       ''t'' ''s'' ''k'' before_completion = (Inr (Inr out), s') \<and>
     (\<exists>c. find_agg ''t'' ''s'' s' = Some c \<and> co_state c = CoCompleted \<and> map_option tt_totalMinor (co_totals c) = Some 1900)"
proof -
  have fresh: "admissible fresh_session (serve_checkout (offline_ports (\<lambda>_. Inr ())) co_sample_env) empty_checkout (butlast co_sample_order)"
    by code_simp
  have "case find_agg ''t'' ''s'' before_completion of None \<Rightarrow> False
      | Some c \<Rightarrow> isOpen (co_state c) \<and> isOk (generateOrderDraft c) \<and> or_zero (co_discountMinor c) = 0 \<and> shipping_discount c = 0 \<and>
          map_option tt_totalMinor (co_totals c) = Some 1900"
    by code_simp
  then obtain c d where c: "find_agg ''t'' ''s'' before_completion = Some c" "isOpen (co_state c)" "generateOrderDraft c = Inr d"
      "or_zero (co_discountMinor c) = 0" "shipping_discount c = 0" "map_option tt_totalMinor (co_totals c) = Some 1900"
    by (auto simp: isOk_def split: option.splits sum.splits)
  have "\<not> blank ''t''" "\<not> blank ''k''" by code_simp+
  note run = open_checkout_completes [OF before_completion_def [unfolded after_def] fresh c(1-3) _ this,
      of "op_complete (offline_ports (\<lambda>_. Inr ()))" "cr_moments (sample_request CmGet)"]
  have "\<exists>out s'. CompleteCheckout (op_complete (offline_ports (\<lambda>_. Inr ()))) co_sample_env (cr_moments (sample_request CmGet))
       ''t'' ''s'' ''k'' before_completion = (Inr (Inr out), s') \<and>
     (\<exists>c'. find_agg ''t'' ''s'' s' = Some c' \<and> co_state c' = CoCompleted \<and> co_orderRef c' = Some (cpo_orderRef out) \<and>
       co_totals c' = co_totals c)"
    by (rule run) (auto simp: co_sample_env_def offline_ports_def InMemoryOrderCreation_def InMemoryPromotionValidation_def c)
  with c(6) show ?thesis by force
qed

end
