(* ===== verification/Delivery.thy ===== *)
theory Delivery
  imports Outbox
begin

section \<open>The outbox as a delivery queue\<close>

text \<open>
  packages/messaging/src/outbox: the broker-less transport. \<^verbatim>\<open>OutboxDeliveryRelay\<close> hands every due row to the
  consumers of its topic, in this process; a row is retried along a schedule of delays and then dead-lettered.
  \<^item> The queue port is a record of operations; the locale \<open>delivery_queue\<close> is its contract, on the rows a queue
    stands for, and the in-memory queue is interpreted in it.
  \<^item> A consumer is any pair of throwing methods on a world that all consumers share; the clock is read from that
    world, so it may run while a consumer works.
  \<^item> \<open>rl_log\<close> records what the relay handed out: it is read by the properties only.
\<close>

subsection \<open>Messages and consumers\<close>

type_synonym header_bag = "(string \<times> string) list"

definition header_bag :: "headers \<Rightarrow> header_bag" where
  "header_bag h =
     [(''messageId'', h_messageId h), (''type'', h_type h), (''eventVersion'', h_eventVersion h),
      (''contentType'', h_contentType h), (''correlationId'', h_correlationId h), (''causationId'', h_causationId h),
      (''tenantId'', h_tenantId h)] @ (case h_producer h of None \<Rightarrow> [] | Some p \<Rightarrow> [(''producer'', p)])"

record 'b incoming_message =
  msg_topic :: string
  msg_key :: string
  msg_value :: 'b
  msg_headers :: header_bag

record 'b direct_dead_letter =
  ddl_messageId :: string
  ddl_message :: "'b incoming_message"
  ddl_attempts :: int
  ddl_error :: string

record ('b, 'w) direct_consumer =
  dc_topic :: string
  dc_consumerGroup :: string
  dc_deliver :: "'b incoming_message \<Rightarrow> (string, 'w, unit) action"
  dc_deadLetter :: "'b direct_dead_letter \<Rightarrow> (string, 'w, unit) action"

subsection \<open>The queue\<close>

record 'b due_entry =
  due_entry :: "'b outbox_entry"
  due_attempts :: int

record ('b, 'q) queue_ops =
  op_enqueue :: "'b outbox_entry list \<Rightarrow> 'q \<Rightarrow> 'q"
  op_fetchDue :: "int \<Rightarrow> timestamp \<Rightarrow> 'q \<Rightarrow> 'b due_entry list"
  op_markDelivered :: "string list \<Rightarrow> timestamp \<Rightarrow> 'q \<Rightarrow> 'q"
  op_defer :: "string \<Rightarrow> int \<Rightarrow> timestamp \<Rightarrow> 'q \<Rightarrow> 'q"

record 'b queue_row =
  qr_entry :: "'b outbox_entry"
  qr_attempts :: int
  qr_availableAt :: "timestamp option"

text \<open>\<^verbatim>\<open>xs.slice(0, limit)\<close>: a negative limit counts from the end.\<close>

definition slice_to :: "int \<Rightarrow> 'a list \<Rightarrow> 'a list" where
  "slice_to limit xs = (if limit < 0 then take (nat (int (length xs) + limit)) xs else take (nat limit) xs)"

definition row_pending :: "'b queue_row \<Rightarrow> bool" where
  "row_pending r = (oe_status (qr_entry r) = Pending)"

definition row_due :: "timestamp \<Rightarrow> 'b queue_row \<Rightarrow> bool" where
  "row_due now r = (row_pending r \<and> (case qr_availableAt r of None \<Rightarrow> True | Some t \<Rightarrow> t \<le> now))"

definition due_of :: "'b queue_row \<Rightarrow> 'b due_entry" where
  "due_of r = \<lparr>due_entry = qr_entry r, due_attempts = qr_attempts r\<rparr>"

definition fresh_row :: "'b outbox_entry \<Rightarrow> 'b queue_row" where
  "fresh_row e = \<lparr>qr_entry = e, qr_attempts = 0, qr_availableAt = None\<rparr>"

definition deliver_row :: "string list \<Rightarrow> timestamp \<Rightarrow> 'b queue_row \<Rightarrow> 'b queue_row" where
  "deliver_row ids deliveredAt r =
     (if oe_id (qr_entry r) \<in> set ids \<and> row_pending r
      then r\<lparr>qr_entry := (qr_entry r)\<lparr>oe_status := Published, oe_publishedAt := Some deliveredAt\<rparr>\<rparr> else r)"

definition defer_row :: "string \<Rightarrow> int \<Rightarrow> timestamp \<Rightarrow> 'b queue_row \<Rightarrow> 'b queue_row" where
  "defer_row rid attempts availableAt r =
     (if oe_id (qr_entry r) = rid \<and> row_pending r
      then r\<lparr>qr_attempts := attempts, qr_availableAt := Some availableAt\<rparr> else r)"

definition memory_queue_ops :: "('b, 'b queue_row list) queue_ops" where
  "memory_queue_ops =
     \<lparr>op_enqueue = (\<lambda>entries q. q @ map fresh_row entries),
      op_fetchDue = (\<lambda>limit now q. map due_of (slice_to limit (filter (row_due now) q))),
      op_markDelivered = (\<lambda>ids deliveredAt. map (deliver_row ids deliveredAt)),
      op_defer = (\<lambda>rid attempts availableAt. map (defer_row rid attempts availableAt))\<rparr>"

subsection \<open>The relay\<close>

text \<open>Group, message, round and whether the consumer returned.\<close>

datatype delivery_event =
    Tried string string int bool
  | Buried string string int bool

record ('q, 'w) relay_state =
  rl_queue :: 'q
  rl_world :: 'w
  rl_log :: "delivery_event list"

record ('b, 'q, 'w) relay_deps =
  rd_queue :: "('b, 'q) queue_ops"
  rd_consumers :: "('b, 'w) direct_consumer list"
  rd_clock :: "'w \<Rightarrow> timestamp"
  rd_retryDelaysMs :: "int list"
  rd_batchSize :: "int option"

record delivery_report =
  re_delivered :: nat
  re_unrouted :: nat
  re_deferred :: nat
  re_deadLettered :: nat

datatype row_outcome = Delivered | Deferred | DeadLettered

definition consumersByTopic :: "('b, 'w) direct_consumer list \<Rightarrow> (string \<times> ('b, 'w) direct_consumer list) list" where
  "consumersByTopic consumers = fold (\<lambda>c m.
     AList.update (dc_topic c) ((case map_of m (dc_topic c) of Some cs \<Rightarrow> cs | None \<Rightarrow> []) @ [c]) m) consumers []"

definition message_of :: "'b outbox_entry \<Rightarrow> 'b incoming_message" where
  "message_of e = \<lparr>msg_topic = oe_topic e, msg_key = oe_key e, msg_value = oe_payload e, msg_headers = header_bag (oe_headers e)\<rparr>"

text \<open>Every consumer is tried, also after one has failed; the failures are collected.\<close>

fun try_consumers ::
  "'b outbox_entry \<Rightarrow> int \<Rightarrow> ('b, 'w) direct_consumer list \<Rightarrow> ('q, 'w) relay_state \<Rightarrow>
     (('b, 'w) direct_consumer \<times> string) list \<times> ('q, 'w) relay_state" where
  "try_consumers e rounds [] s = ([], s)"
| "try_consumers e rounds (c # cs) s =
     (case dc_deliver c (message_of e) (rl_world s) of
        (r, w) \<Rightarrow>
          case try_consumers e rounds cs
            (s\<lparr>rl_world := w, rl_log := rl_log s @ [Tried (dc_consumerGroup c) (oe_id e) rounds (isOk r)]\<rparr>) of
            (failures, s') \<Rightarrow> (case r of Inl x \<Rightarrow> (c, x) # failures | Inr _ \<Rightarrow> failures, s'))"

fun dead_letter_all ::
  "'b outbox_entry \<Rightarrow> int \<Rightarrow> (('b, 'w) direct_consumer \<times> string) list \<Rightarrow> (string, ('q, 'w) relay_state, unit) action" where
  "dead_letter_all e rounds [] s = (Inr (), s)"
| "dead_letter_all e rounds ((c, x) # failures) s =
     (case dc_deadLetter c \<lparr>ddl_messageId = oe_id e, ddl_message = message_of e, ddl_attempts = rounds, ddl_error = x\<rparr>
             (rl_world s) of
        (r, w) \<Rightarrow>
          let s' = s\<lparr>rl_world := w, rl_log := rl_log s @ [Buried (dc_consumerGroup c) (oe_id e) rounds (isOk r)]\<rparr>
          in case r of Inl y \<Rightarrow> (Inl y, s') | Inr _ \<Rightarrow> dead_letter_all e rounds failures s')"

definition on_queue :: "('q \<Rightarrow> 'q) \<Rightarrow> ('q, 'w) relay_state \<Rightarrow> ('q, 'w) relay_state" where
  "on_queue f s = s\<lparr>rl_queue := f (rl_queue s)\<rparr>"

definition settle :: "('b, 'q, 'w) relay_deps \<Rightarrow> string list \<Rightarrow> ('q, 'w) relay_state \<Rightarrow> ('q, 'w) relay_state" where
  "settle deps ids s = on_queue (op_markDelivered (rd_queue deps) ids (rd_clock deps (rl_world s))) s"

definition delay_at :: "int list \<Rightarrow> int \<Rightarrow> int option" where
  "delay_at delays k = (if 0 \<le> k \<and> k < int (length delays) then Some (delays ! nat k) else None)"

definition deliverRow ::
  "('b, 'q, 'w) relay_deps \<Rightarrow> 'b due_entry \<Rightarrow> ('b, 'w) direct_consumer list \<Rightarrow>
     (string, ('q, 'w) relay_state, row_outcome) action" where
  "deliverRow deps due consumers s =
     (let e = due_entry due; rounds = due_attempts due + 1 in
      case try_consumers e rounds consumers s of
        (failures, s1) \<Rightarrow>
          if length failures = 0 then (Inr Delivered, settle deps [oe_id e] s1)
          else case delay_at (rd_retryDelaysMs deps) (rounds - 1) of
            None \<Rightarrow>
              (case dead_letter_all e rounds failures s1 of
                 (Inl x, s2) \<Rightarrow> (Inl x, s2)
               | (Inr _, s2) \<Rightarrow> (Inr DeadLettered, settle deps [oe_id e] s2))
          | Some delayMs \<Rightarrow>
              (Inr Deferred, on_queue (op_defer (rd_queue deps) (oe_id e) rounds (rd_clock deps (rl_world s1) + delayMs)) s1))"

fun count_outcome :: "row_outcome \<Rightarrow> delivery_report \<Rightarrow> delivery_report" where
  "count_outcome Delivered p = p\<lparr>re_delivered := re_delivered p + 1\<rparr>"
| "count_outcome Deferred p = p\<lparr>re_deferred := re_deferred p + 1\<rparr>"
| "count_outcome DeadLettered p = p\<lparr>re_deadLettered := re_deadLettered p + 1\<rparr>"

fun deliver_batch ::
  "('b, 'q, 'w) relay_deps \<Rightarrow> delivery_report \<Rightarrow> 'b due_entry list \<Rightarrow> (string, ('q, 'w) relay_state, delivery_report) action" where
  "deliver_batch deps p [] s = (Inr p, s)"
| "deliver_batch deps p (due # rest) s =
     (case map_of (consumersByTopic (rd_consumers deps)) (oe_topic (due_entry due)) of
        None \<Rightarrow> deliver_batch deps p rest s
      | Some consumers \<Rightarrow>
          (case deliverRow deps due consumers s of
             (Inl x, s') \<Rightarrow> (Inl x, s')
           | (Inr outcome, s') \<Rightarrow> deliver_batch deps (count_outcome outcome p) rest s'))"

definition delivery_drainOnce :: "('b, 'q, 'w) relay_deps \<Rightarrow> (string, ('q, 'w) relay_state, delivery_report) action" where
  "delivery_drainOnce deps s =
     (let batch = op_fetchDue (rd_queue deps) (case rd_batchSize deps of Some n \<Rightarrow> n | None \<Rightarrow> 100)
                    (rd_clock deps (rl_world s)) (rl_queue s);
          unrouted = filter (\<lambda>due. map_of (consumersByTopic (rd_consumers deps)) (oe_topic (due_entry due)) = None) batch;
          s1 = (if 0 < length unrouted then settle deps (map (oe_id \<circ> due_entry) unrouted) s else s)
      in deliver_batch deps \<lparr>re_delivered = 0, re_unrouted = length unrouted, re_deferred = 0, re_deadLettered = 0\<rparr> batch s1)"

text \<open>
  What happens to a queue: the producers enqueue, the relay passes over it, and the world goes on in between.
  A pass that throws ends there; the timer starts the next one.
\<close>

datatype ('b, 'w) relay_command =
    Enqueue "'b outbox_entry list"
  | Pass
  | Meanwhile "'w \<Rightarrow> 'w"

fun delivery_step :: "('b, 'q, 'w) relay_deps \<Rightarrow> ('b, 'w) relay_command \<Rightarrow> (string, ('q, 'w) relay_state, unit) action" where
  "delivery_step deps (Enqueue entries) s = (Inr (), on_queue (op_enqueue (rd_queue deps) entries) s)"
| "delivery_step deps Pass s = (case delivery_drainOnce deps s of (r, s') \<Rightarrow> (map_ok (\<lambda>_. ()) r, s'))"
| "delivery_step deps (Meanwhile f) s = (Inr (), s\<lparr>rl_world := f (rl_world s)\<rparr>)"

end
