(* ===== verification/DeliveryPromises.thy ===== *)
theory DeliveryPromises
  imports Delivery
begin

section \<open>What the delivery relay promises\<close>

text \<open>
  Over any queue that keeps the contract: no entry is lost (\<open>promises\<close>), every pass makes progress
  (\<open>rounds_left\<close>), and a consumer is tried a bounded number of times for one entry (\<open>few_tries\<close>). The properties are
  those of the relay over the in-memory queue.
\<close>

subsection \<open>What one row goes through\<close>

definition row_id :: "'b queue_row \<Rightarrow> string" where
  "row_id r = oe_id (qr_entry r)"

definition row_topic :: "'b queue_row \<Rightarrow> string" where
  "row_topic r = oe_topic (qr_entry r)"

lemma row_moves [simp]:
  "row_id (deliver_row ids t r) = row_id r" "row_topic (deliver_row ids t r) = row_topic r"
  "qr_attempts (deliver_row ids t r) = qr_attempts r"
  "row_id (defer_row i n t r) = row_id r" "row_topic (defer_row i n t r) = row_topic r"
  "row_pending (defer_row i n t r) = row_pending r"
  "row_id (fresh_row e) = oe_id e" "row_topic (fresh_row e) = oe_topic e" "qr_attempts (fresh_row e) = 0"
  by (simp_all add: row_id_def row_topic_def deliver_row_def defer_row_def row_pending_def fresh_row_def)

lemma row_pending_deliver [simp]: "row_pending (deliver_row ids t r) \<longleftrightarrow> row_pending r \<and> row_id r \<notin> set ids"
  by (auto simp: row_pending_def deliver_row_def row_id_def)

lemma defer_attempts [simp]:
  "qr_attempts (defer_row i n t r) = (if row_id r = i \<and> row_pending r then n else qr_attempts r)"
  by (simp add: defer_row_def row_id_def)

lemma other_row [simp]:
  "row_id r \<notin> set ids \<Longrightarrow> deliver_row ids t r = r" "row_id r \<noteq> i \<Longrightarrow> defer_row i n t r = r"
  by (simp_all add: deliver_row_def defer_row_def row_id_def)

lemma moved_ids [simp]:
  "map (row_id \<circ> deliver_row ids t) rs = map row_id rs" "map (row_id \<circ> defer_row i n t) rs = map row_id rs"
  "map (row_id \<circ> fresh_row) es = map oe_id es"
  by simp_all

lemma due_of_row [simp]:
  "oe_id (due_entry (due_of r)) = row_id r" "oe_topic (due_entry (due_of r)) = row_topic r"
  "due_attempts (due_of r) = qr_attempts r"
  by (simp_all add: due_of_def row_id_def row_topic_def)

text \<open>The map the constructor builds holds the consumers of each topic, in the order given.\<close>

definition subscribers :: "('b, 'w) direct_consumer list \<Rightarrow> string \<Rightarrow> ('b, 'w) direct_consumer list" where
  "subscribers consumers t = filter (\<lambda>c. dc_topic c = t) consumers"

lemma consumersByTopic_lookup:
  "map_of (consumersByTopic consumers) t = (if subscribers consumers t = [] then None else Some (subscribers consumers t))"
proof (induction consumers rule: rev_induct)
  case (snoc c cs)
  then show ?case by (auto simp: consumersByTopic_def update_conv' subscribers_def split: if_splits)
qed (simp add: consumersByTopic_def subscribers_def)

lemma try_consumers_exact:
  assumes "try_consumers e k cs s = (failures, s')"
  shows "\<exists>oks. length oks = length cs \<and>
    rl_queue s' = rl_queue s \<and> rl_log s' = rl_log s @ map2 (\<lambda>c ok. Tried (dc_consumerGroup c) (oe_id e) k ok) cs oks \<and>
    map fst failures = map fst (filter (\<lambda>(c, ok). \<not> ok) (zip cs oks))"
  using assms
proof (induction cs arbitrary: s failures s')
  case (Cons c cs)
  obtain r w where r: "dc_deliver c (message_of e) (rl_world s) = (r, w)" by fastforce
  let ?s = "s\<lparr>rl_world := w, rl_log := rl_log s @ [Tried (dc_consumerGroup c) (oe_id e) k (isOk r)]\<rparr>"
  obtain fs s2 where rest: "try_consumers e k cs ?s = (fs, s2)" by fastforce
  with Cons.prems r have out: "s' = s2" "failures = (case r of Inl x \<Rightarrow> (c, x) # fs | Inr _ \<Rightarrow> fs)" by simp_all
  from Cons.IH [OF rest] obtain oks where "length oks = length cs"
    "rl_queue s2 = rl_queue ?s" "rl_log s2 = rl_log ?s @ map2 (\<lambda>c ok. Tried (dc_consumerGroup c) (oe_id e) k ok) cs oks"
    "map fst fs = map fst (filter (\<lambda>(c, ok). \<not> ok) (zip cs oks))" by blast
  then show ?case unfolding out
    by (intro exI [of _ "isOk r # oks"]) (auto simp: isOk_def split: sum.splits)
qed simp

lemma dead_letter_all_exact:
  assumes "dead_letter_all e k failures s = (r, s')"
  shows "\<exists>new. rl_queue s' = rl_queue s \<and> rl_log s' = rl_log s @ new \<and>
    (\<forall>x\<in>set new. \<exists>g ok. x = Buried g (oe_id e) k ok) \<and>
    (isOk r \<longrightarrow> (\<forall>c\<in>fst ` set failures. Buried (dc_consumerGroup c) (oe_id e) k True \<in> set new))"
  using assms
proof (induction failures arbitrary: s)
  case (Cons f failures)
  obtain c x where f: "f = (c, x)" by fastforce
  obtain r1 w where r1: "dc_deadLetter c \<lparr>ddl_messageId = oe_id e, ddl_message = message_of e, ddl_attempts = k, ddl_error = x\<rparr>
      (rl_world s) = (r1, w)" by fastforce
  let ?b = "Buried (dc_consumerGroup c) (oe_id e) k (isOk r1)"
  let ?s = "s\<lparr>rl_world := w, rl_log := rl_log s @ [?b]\<rparr>"
  show ?case
  proof (cases r1)
    case (Inl y)
    with Cons.prems f r1 have "r = Inl y" "s' = ?s" by (auto simp: Let_def)
    then show ?thesis by (intro exI [of _ "[?b]"]) simp
  next
    case (Inr u)
    with Cons.prems f r1 have rest: "dead_letter_all e k failures ?s = (r, s')" by (simp add: Let_def)
    from Cons.IH [OF rest] obtain new where
      "rl_queue s' = rl_queue ?s" "rl_log s' = rl_log ?s @ new" "\<forall>x\<in>set new. \<exists>g ok. x = Buried g (oe_id e) k ok"
      "isOk r \<longrightarrow> (\<forall>c\<in>fst ` set failures. Buried (dc_consumerGroup c) (oe_id e) k True \<in> set new)" by blast
    with Inr f show ?thesis by (intro exI [of _ "?b # new"]) auto
  qed
qed (auto intro!: exI [of _ "[]"])

subsection \<open>The contract of a queue\<close>

text \<open>
  A queue stands for a list of rows. The rows come out in insertion order, a row that waits is neither returned
  nor counted against the limit, and only pending rows are moved.
\<close>

locale delivery_queue =
  fixes ops :: "('b, 'q) queue_ops" and rows :: "'q \<Rightarrow> 'b queue_row list"
  assumes enqueued: "rows (op_enqueue ops es q) = rows q @ map fresh_row es"
    and fetched: "op_fetchDue ops limit now q = map due_of (slice_to limit (filter (row_due now) (rows q)))"
    and marked: "rows (op_markDelivered ops ids t q) = map (deliver_row ids t) (rows q)"
    and deferred: "rows (op_defer ops i n t q) = map (defer_row i n t) (rows q)"

text \<open>A relay over such a queue.\<close>

locale row_relay = delivery_queue "rd_queue deps" rows for deps :: "('b, 'q, 'w) relay_deps" and rows
begin

abbreviation subs :: "string \<Rightarrow> ('b, 'w) direct_consumer list" where
  "subs \<equiv> subscribers (rd_consumers deps)"

abbreviation state_rows :: "('q, 'w) relay_state \<Rightarrow> 'b queue_row list" where
  "state_rows s \<equiv> rows (rl_queue s)"

lemma rows_settle [simp]:
  "state_rows (settle deps ids s) = map (deliver_row ids (rd_clock deps (rl_world s))) (state_rows s)"
  "rl_log (settle deps ids s) = rl_log s"
  by (simp_all add: settle_def on_queue_def marked)

text \<open>The three ways a round ends, and the fourth: the dead-letter store throws and the row stays as it was.\<close>

definition round_spec :: "'b outbox_entry \<Rightarrow> int \<Rightarrow> ('b, 'w) direct_consumer list \<Rightarrow> 'b queue_row list \<Rightarrow>
    (string, row_outcome) result \<Rightarrow> 'b queue_row list \<Rightarrow> delivery_event list \<Rightarrow> bool" where
  "round_spec e k cs before res after new \<longleftrightarrow>
     (case res of
        Inl x \<Rightarrow> after = before
      | Inr Delivered \<Rightarrow> (\<exists>t. after = map (deliver_row [oe_id e] t) before) \<and>
          (\<forall>c\<in>set cs. Tried (dc_consumerGroup c) (oe_id e) k True \<in> set new)
      | Inr DeadLettered \<Rightarrow> (\<exists>t. after = map (deliver_row [oe_id e] t) before) \<and>
          delay_at (rd_retryDelaysMs deps) (k - 1) = None \<and>
          (\<forall>c\<in>set cs. Tried (dc_consumerGroup c) (oe_id e) k True \<in> set new \<or>
             Buried (dc_consumerGroup c) (oe_id e) k True \<in> set new)
      | Inr Deferred \<Rightarrow> (\<exists>t. after = map (defer_row (oe_id e) k t) before) \<and>
          delay_at (rd_retryDelaysMs deps) (k - 1) \<noteq> None)"

lemma round_outcome:
  assumes "deliverRow deps due cs s = (res, s')"
  shows "\<exists>oks buried. length oks = length cs \<and>
     rl_log s' = rl_log s @ map2 (\<lambda>c ok. Tried (dc_consumerGroup c) (oe_id (due_entry due)) (due_attempts due + 1) ok) cs oks @ buried \<and>
     (\<forall>x\<in>set buried. \<exists>g ok. x = Buried g (oe_id (due_entry due)) (due_attempts due + 1) ok) \<and>
     round_spec (due_entry due) (due_attempts due + 1) cs (state_rows s) res (state_rows s')
       (map2 (\<lambda>c ok. Tried (dc_consumerGroup c) (oe_id (due_entry due)) (due_attempts due + 1) ok) cs oks @ buried)"
proof -
  let ?e = "due_entry due" and ?k = "due_attempts due + 1"
  obtain failures s1 where t: "try_consumers ?e ?k cs s = (failures, s1)" by fastforce
  from try_consumers_exact [OF t] obtain oks where oks: "length oks = length cs"
    and q1: "rl_queue s1 = rl_queue s" "rl_log s1 = rl_log s @ map2 (\<lambda>c ok. Tried (dc_consumerGroup c) (oe_id ?e) ?k ok) cs oks"
    and fs: "map fst failures = map fst (filter (\<lambda>(c, ok). \<not> ok) (zip cs oks))" by blast
  define tried where "tried = map2 (\<lambda>c ok. Tried (dc_consumerGroup c) (oe_id ?e) ?k ok) cs oks"
  note q1 = q1 [folded tried_def]
  have each: "Tried (dc_consumerGroup c) (oe_id ?e) ?k True \<in> set tried \<or> c \<in> fst ` set failures" if c: "c \<in> set cs" for c
  proof -
    obtain i where i: "i < length cs" "c = cs ! i" using c by (auto simp: in_set_conv_nth)
    then have "zip cs oks ! i = (c, oks ! i)" "i < length (zip cs oks)" using oks by simp_all
    then have z: "(c, oks ! i) \<in> set (zip cs oks)" by (metis nth_mem)
    show ?thesis
    proof (cases "oks ! i")
      case True
      with z show ?thesis by (force simp: image_iff tried_def)
    next
      case False
      with z have "c \<in> set (map fst (filter (\<lambda>(c, ok). \<not> ok) (zip cs oks)))" by force
      then show ?thesis unfolding fs [symmetric] by simp
    qed
  qed
  have "\<exists>buried. rl_log s' = rl_log s @ tried @ buried \<and>
     (\<forall>x\<in>set buried. \<exists>g ok. x = Buried g (oe_id ?e) ?k ok) \<and>
     round_spec ?e ?k cs (state_rows s) res (state_rows s') (tried @ buried)"
  proof (cases "failures = []")
    case True
    with assms t have "res = Inr Delivered" "s' = settle deps [oe_id ?e] s1" by (simp_all add: deliverRow_def Let_def)
    with True each q1 show ?thesis by (intro exI [of _ "[]"]) (auto simp: round_spec_def)
  next
    case failed: False
    show ?thesis
    proof (cases "delay_at (rd_retryDelaysMs deps) (?k - 1)")
      case (Some d)
      with failed assms t have "res = Inr Deferred"
          "s' = on_queue (op_defer (rd_queue deps) (oe_id ?e) ?k (rd_clock deps (rl_world s1) + d)) s1"
        by (auto simp: deliverRow_def Let_def)
      with Some q1 show ?thesis
        by (intro exI [of _ "[]"]) (auto simp: round_spec_def on_queue_def deferred)
    next
      case None
      obtain r s2 where b: "dead_letter_all ?e ?k failures s1 = (r, s2)" by fastforce
      from dead_letter_all_exact [OF b] obtain new where q2: "rl_queue s2 = rl_queue s1" "rl_log s2 = rl_log s1 @ new"
        and new: "\<forall>x\<in>set new. \<exists>g ok. x = Buried g (oe_id ?e) ?k ok"
        and ok: "isOk r \<longrightarrow> (\<forall>c\<in>fst ` set failures. Buried (dc_consumerGroup c) (oe_id ?e) ?k True \<in> set new)" by blast
      show ?thesis
      proof (cases r)
        case (Inl x)
        with None failed assms t b have "res = Inl x" "s' = s2" by (auto simp: deliverRow_def Let_def)
        with q1 q2 new show ?thesis by (intro exI [of _ new]) (auto simp: round_spec_def)
      next
        case (Inr u)
        with None failed assms t b have "res = Inr DeadLettered" "s' = settle deps [oe_id ?e] s2"
          by (auto simp: deliverRow_def Let_def)
        moreover have "Tried (dc_consumerGroup c) (oe_id ?e) ?k True \<in> set tried \<or>
            Buried (dc_consumerGroup c) (oe_id ?e) ?k True \<in> set new" if "c \<in> set cs" for c
          using each [OF that] ok Inr by auto
        ultimately show ?thesis using None q1 q2 new by (intro exI [of _ new]) (auto simp: round_spec_def)
      qed
    qed
  qed
  then show ?thesis unfolding tried_def using oks by blast
qed

end

subsection \<open>Nothing is lost\<close>

text \<open>
  The promise for one row: while it is pending it has rounds left, and when it leaves the queue each of its
  consumers has, in one and the same round, effected it or been given a dead letter, the latter after the schedule.
\<close>

definition row_promise :: "('b, 'w) direct_consumer list \<Rightarrow> int \<Rightarrow> delivery_event list \<Rightarrow> 'b queue_row \<Rightarrow> bool" where
  "row_promise consumers n calls r \<longleftrightarrow> 0 \<le> qr_attempts r \<and> qr_attempts r \<le> n \<and>
     (\<not> row_pending r \<longrightarrow> (\<exists>k. \<forall>c\<in>set (subscribers consumers (row_topic r)).
        Tried (dc_consumerGroup c) (row_id r) k True \<in> set calls \<or>
        k = n + 1 \<and> Buried (dc_consumerGroup c) (row_id r) k True \<in> set calls))"

definition promises :: "('b, 'w) direct_consumer list \<Rightarrow> int \<Rightarrow> delivery_event list \<Rightarrow> 'b queue_row list \<Rightarrow> bool" where
  "promises consumers n calls rs \<longleftrightarrow> distinct (map row_id rs) \<and> (\<forall>r\<in>set rs. row_promise consumers n calls r)"

lemma promises_attempts: "promises consumers n calls rs \<Longrightarrow> r \<in> set rs \<Longrightarrow> qr_attempts r \<le> n"
  by (simp add: promises_def row_promise_def)

lemma row_promise_mono: "row_promise consumers n calls r \<Longrightarrow> row_promise consumers n (calls @ new) r"
  unfolding row_promise_def by (auto 0 3)

definition row_keys :: "'b queue_row list \<Rightarrow> (string \<times> string) list" where
  "row_keys rs = map (\<lambda>r. (row_id r, row_topic r)) rs"

lemma row_keys_moves [simp]:
  "row_keys (map (deliver_row ids t) rs) = row_keys rs" "row_keys (map (defer_row i n t) rs) = row_keys rs"
  by (simp_all add: row_keys_def)

lemma row_keys_unique:
  "distinct (map row_id rs) \<Longrightarrow> r \<in> set rs \<Longrightarrow> (row_id r, t) \<in> set (row_keys rs) \<Longrightarrow> row_topic r = t"
  by (auto simp: row_keys_def distinct_map inj_on_def)

lemma delay_at_None: "delay_at delays k = None \<longleftrightarrow> k < 0 \<or> int (length delays) \<le> k"
  by (auto simp: delay_at_def)

text \<open>What a pass fetched: the key of a row, and an attempt count within the schedule.\<close>

definition from_queue :: "int \<Rightarrow> 'b queue_row list \<Rightarrow> 'b due_entry \<Rightarrow> bool" where
  "from_queue n rs due \<longleftrightarrow> (oe_id (due_entry due), oe_topic (due_entry due)) \<in> set (row_keys rs) \<and>
     0 \<le> due_attempts due \<and> due_attempts due \<le> n"

context row_relay
begin

abbreviation retries :: int where
  "retries \<equiv> int (length (rd_retryDelaysMs deps))"

abbreviation promised :: "('q, 'w) relay_state \<Rightarrow> bool" where
  "promised s \<equiv> promises (rd_consumers deps) retries (rl_log s) (state_rows s)"

lemma round_keys:
  assumes "deliverRow deps due cs s = (res, s')"
  shows "row_keys (state_rows s') = row_keys (state_rows s)"
proof -
  obtain new where "round_spec (due_entry due) (due_attempts due + 1) cs (state_rows s) res (state_rows s') new"
    using round_outcome [OF assms] by blast
  then show ?thesis
    by (cases res; simp add: round_spec_def) (cases "projr res"; auto split: row_outcome.splits)
qed

lemma promises_ids: "promises consumers n calls rs \<Longrightarrow> distinct (map row_id rs)"
  by (simp add: promises_def)

lemma promises_deliver:
  assumes p: "promises consumers n calls rs" and due: "from_queue n rs due" and "k \<le> n \<or> k = n + 1"
    and fin: "\<forall>c\<in>set (subscribers consumers (oe_topic (due_entry due))).
        Tried (dc_consumerGroup c) (oe_id (due_entry due)) k True \<in> set new \<or>
        k = n + 1 \<and> Buried (dc_consumerGroup c) (oe_id (due_entry due)) k True \<in> set new"
  shows "promises consumers n (calls @ new) (map (deliver_row [oe_id (due_entry due)] t) rs)"
  unfolding promises_def
proof (intro conjI ballI)
  show "distinct (map row_id (map (deliver_row [oe_id (due_entry due)] t) rs))" using p by (simp add: promises_def)
  fix r' assume "r' \<in> set (map (deliver_row [oe_id (due_entry due)] t) rs)"
  then obtain r where r: "r \<in> set rs" "r' = deliver_row [oe_id (due_entry due)] t r" by auto
  have old: "row_promise consumers n (calls @ new) r" using p r(1) by (simp add: promises_def row_promise_mono)
  show "row_promise consumers n (calls @ new) r'"
  proof (cases "row_id r = oe_id (due_entry due)")
    case True
    then have "row_topic r = oe_topic (due_entry due)"
      using row_keys_unique [OF promises_ids [OF p] r(1)] due by (simp add: from_queue_def)
    with True old fin r(2) show ?thesis by (auto simp: row_promise_def)
  next
    case False
    with old r(2) show ?thesis by simp
  qed
qed

lemma promises_defer:
  assumes "promises consumers n calls rs" "0 \<le> k" "k \<le> n"
  shows "promises consumers n (calls @ new) (map (defer_row i k t) rs)"
  using assms row_promise_mono [of consumers n calls _ new]
  by (auto simp: promises_def row_promise_def)

lemma round_kept:
  assumes "deliverRow deps due (subs (oe_topic (due_entry due))) s = (res, s')"
    and promised: "promised s" and due: "from_queue retries (state_rows s) due"
  shows "promised s'"
proof -
  let ?k = "due_attempts due + 1"
  obtain new where log: "rl_log s' = rl_log s @ new"
    and spec: "round_spec (due_entry due) ?k (subs (oe_topic (due_entry due))) (state_rows s) res (state_rows s') new"
    using round_outcome [OF assms(1)] by blast
  have k: "?k \<le> retries \<or> ?k = retries + 1" using due by (auto simp: from_queue_def)
  show ?thesis
  proof (cases res)
    case (Inl x)
    with spec have "state_rows s' = state_rows s" by (simp add: round_spec_def)
    with promised show ?thesis unfolding log by (simp add: promises_def row_promise_mono)
  next
    case (Inr outcome)
    show ?thesis
    proof (cases outcome)
      case Deferred
      with spec Inr obtain t where "state_rows s' = map (defer_row (oe_id (due_entry due)) ?k t) (state_rows s)" "?k \<le> retries"
        by (auto simp: round_spec_def delay_at_None)
      moreover have "0 \<le> ?k" using due by (simp add: from_queue_def)
      ultimately show ?thesis unfolding log using promises_defer [OF promised] by simp
    next
      case Delivered
      with spec Inr obtain t where "state_rows s' = map (deliver_row [oe_id (due_entry due)] t) (state_rows s)"
        "\<forall>c\<in>set (subs (oe_topic (due_entry due))). Tried (dc_consumerGroup c) (oe_id (due_entry due)) ?k True \<in> set new"
        by (auto simp: round_spec_def)
      with promises_deliver [OF promised due k] show ?thesis unfolding log by auto
    next
      case DeadLettered
      with spec Inr obtain t where "state_rows s' = map (deliver_row [oe_id (due_entry due)] t) (state_rows s)"
        "delay_at (rd_retryDelaysMs deps) (?k - 1) = None"
        "\<forall>c\<in>set (subs (oe_topic (due_entry due))). Tried (dc_consumerGroup c) (oe_id (due_entry due)) ?k True \<in> set new \<or>
           Buried (dc_consumerGroup c) (oe_id (due_entry due)) ?k True \<in> set new"
        by (auto simp: round_spec_def)
      moreover from this(2) have "?k = retries + 1" using due by (auto simp: from_queue_def delay_at_None)
      ultimately show ?thesis using promises_deliver [OF promised due k] unfolding log by auto
    qed
  qed
qed

lemma batch_kept:
  assumes "promised s" "\<forall>due\<in>set batch. from_queue retries (state_rows s) due"
  shows "promised (snd (deliver_batch deps p batch s))"
  using assms
proof (induction batch arbitrary: p s)
  case (Cons due rest)
  show ?case
  proof (cases "subs (oe_topic (due_entry due)) = []")
    case True
    with Cons show ?thesis by (simp add: consumersByTopic_lookup)
  next
    case False
    obtain res s' where r: "deliverRow deps due (subs (oe_topic (due_entry due))) s = (res, s')" by fastforce
    have "promised s'" using round_kept [OF r] Cons.prems by simp
    moreover have "\<forall>due\<in>set rest. from_queue retries (state_rows s') due"
      using Cons.prems(2) round_keys [OF r] by (simp add: from_queue_def)
    ultimately show ?thesis using False r Cons.IH [of s'] Cons.prems(1)
      by (simp add: consumersByTopic_lookup split: sum.split)
  qed
qed simp

lemma set_slice_to: "set (slice_to n xs) \<subseteq> set xs"
  by (simp add: slice_to_def set_take_subset)

lemma unrouted_kept:
  assumes "promised s" "\<forall>r\<in>set (state_rows s). row_id r \<in> set ids \<longrightarrow> subs (row_topic r) = []"
  shows "promised (settle deps ids s)"
  using assms by (auto simp: promises_def row_promise_def)

lemma unrouted_step:
  assumes promised: "promised s" and batch: "\<forall>due\<in>set batch. \<exists>r\<in>set (state_rows s). due = due_of r"
    and unrouted: "unrouted = filter (\<lambda>due. map_of (consumersByTopic (rd_consumers deps)) (oe_topic (due_entry due)) = None) batch"
    and s1: "s1 = (if 0 < length unrouted then settle deps (map (oe_id \<circ> due_entry) unrouted) s else s)"
  shows "promised s1" "row_keys (state_rows s1) = row_keys (state_rows s)"
    "due \<in> set batch \<Longrightarrow> from_queue retries (state_rows s1) due"
proof -
  have "\<forall>r\<in>set (state_rows s). row_id r \<in> set (map (oe_id \<circ> due_entry) unrouted) \<longrightarrow> subs (row_topic r) = []"
  proof (intro ballI impI)
    fix r assume r: "r \<in> set (state_rows s)" "row_id r \<in> set (map (oe_id \<circ> due_entry) unrouted)"
    then obtain due where due: "due \<in> set batch" "row_id r = oe_id (due_entry due)" "subs (oe_topic (due_entry due)) = []"
      by (auto simp: unrouted consumersByTopic_lookup split: if_splits)
    then obtain r2 where r2: "r2 \<in> set (state_rows s)" "due = due_of r2" using batch by blast
    have "r2 = r" using r(1) r2 due(2) promises_ids [OF promised] by (auto simp: distinct_map inj_on_def)
    with due(3) r2 show "subs (row_topic r) = []" by simp
  qed
  then show "promised s1" using unrouted_kept promised by (simp add: s1)
  show keys: "row_keys (state_rows s1) = row_keys (state_rows s)" by (simp add: s1)
  assume "due \<in> set batch"
  then obtain r where r: "r \<in> set (state_rows s)" "due = due_of r" using batch by blast
  then have "(row_id r, row_topic r) \<in> set (row_keys (state_rows s))" by (auto simp: row_keys_def)
  with r promised show "from_queue retries (state_rows s1) due" by (simp add: from_queue_def keys promises_def row_promise_def)
qed

definition batch_size :: int where
  "batch_size = (case rd_batchSize deps of Some n \<Rightarrow> n | None \<Rightarrow> 100)"

lemma drain_unfold:
  obtains chosen unrouted s1 where "chosen = slice_to batch_size (filter (row_due (rd_clock deps (rl_world s))) (state_rows s))"
    and "unrouted = filter (\<lambda>due. map_of (consumersByTopic (rd_consumers deps)) (oe_topic (due_entry due)) = None) (map due_of chosen)"
    and "s1 = (if 0 < length unrouted then settle deps (map (oe_id \<circ> due_entry) unrouted) s else s)"
    and "delivery_drainOnce deps s = deliver_batch deps
      \<lparr>re_delivered = 0, re_unrouted = length unrouted, re_deferred = 0, re_deadLettered = 0\<rparr> (map due_of chosen) s1"
    and "set chosen \<subseteq> {r \<in> set (state_rows s). row_due (rd_clock deps (rl_world s)) r}"
proof (rule that [OF refl refl refl])
  let ?chosen = "slice_to batch_size (filter (row_due (rd_clock deps (rl_world s))) (state_rows s))"
  show "set ?chosen \<subseteq> {r \<in> set (state_rows s). row_due (rd_clock deps (rl_world s)) r}"
    using set_slice_to [of batch_size "filter (row_due (rd_clock deps (rl_world s))) (state_rows s)"] by auto
qed (simp only: delivery_drainOnce_def Let_def fetched batch_size_def)

lemma drain_kept:
  assumes "promised s"
  shows "promised (snd (delivery_drainOnce deps s))"
    "row_keys (state_rows (snd (delivery_drainOnce deps s))) = row_keys (state_rows s)"
proof -
  obtain chosen unrouted s1 where chosen: "set chosen \<subseteq> {r \<in> set (state_rows s). row_due (rd_clock deps (rl_world s)) r}"
    and unrouted: "unrouted = filter (\<lambda>due. map_of (consumersByTopic (rd_consumers deps)) (oe_topic (due_entry due)) = None) (map due_of chosen)"
    and s1: "s1 = (if 0 < length unrouted then settle deps (map (oe_id \<circ> due_entry) unrouted) s else s)"
    and drain: "delivery_drainOnce deps s = deliver_batch deps
      \<lparr>re_delivered = 0, re_unrouted = length unrouted, re_deferred = 0, re_deadLettered = 0\<rparr> (map due_of chosen) s1"
    by (rule drain_unfold) blast
  have batch: "\<forall>due\<in>set (map due_of chosen). \<exists>r\<in>set (state_rows s). due = due_of r"
    using chosen by auto
  note step = unrouted_step [OF assms batch unrouted s1]
  show "promised (snd (delivery_drainOnce deps s))"
    unfolding drain by (rule batch_kept [of s1], rule step(1), rule ballI, rule step(3))
  have "row_keys (state_rows (snd (deliver_batch deps p b u))) = row_keys (state_rows u)" for p b u
  proof (induction b arbitrary: p u)
    case (Cons due rest)
    obtain res u' where r: "deliverRow deps due (subs (oe_topic (due_entry due))) u = (res, u')" by fastforce
    with Cons round_keys [OF r] show ?case by (simp add: consumersByTopic_lookup split: sum.split)
  qed simp
  then show "row_keys (state_rows (snd (delivery_drainOnce deps s))) = row_keys (state_rows s)"
    unfolding drain by (simp add: step(2))
qed

text \<open>Entries come in pending, under identifiers the queue has not seen.\<close>

fun admits :: "('q, 'w) relay_state \<Rightarrow> ('b, 'w) relay_command \<Rightarrow> bool" where
  "admits s (Enqueue es) = (distinct (map oe_id es) \<and>
     list_all (\<lambda>e. oe_status e = Pending \<and> oe_id e \<notin> set (map row_id (state_rows s))) es)"
| "admits s c = True"

lemma step_kept:
  assumes "promised s" "admits s c"
  shows "promised (snd (delivery_step deps c s))"
    "set (row_keys (state_rows s)) \<subseteq> set (row_keys (state_rows (snd (delivery_step deps c s))))"
proof -
  show "promised (snd (delivery_step deps c s))"
  proof (cases c)
    case (Enqueue es)
    with assms show ?thesis
      by (auto simp: on_queue_def enqueued promises_def row_promise_def fresh_row_def row_pending_def list_all_iff) (metis image_eqI)
  next
    case Pass
    with drain_kept(1) [OF assms(1)] show ?thesis by (simp add: case_prod_unfold)
  qed (use assms in simp)
  show "set (row_keys (state_rows s)) \<subseteq> set (row_keys (state_rows (snd (delivery_step deps c s))))"
  proof (cases c)
    case Pass
    with drain_kept(2) [OF assms(1)] show ?thesis by (simp add: case_prod_unfold)
  qed (auto simp: on_queue_def enqueued row_keys_def)
qed

lemma runs_kept:
  assumes "promised s" "admissible admits (delivery_step deps) s commands"
  shows "promised (runs (delivery_step deps) commands s)"
    "set (row_keys (state_rows s)) \<subseteq> set (row_keys (state_rows (runs (delivery_step deps) commands s)))"
  using assms
proof (induction commands arbitrary: s)
  case (Cons c cs)
  case 1
  with Cons.IH(1) step_kept(1) show ?case by auto
next
  case (Cons c cs)
  case 2
  then have "admits s c" "promised (snd (delivery_step deps c s))" using step_kept(1) by simp_all
  with step_kept(2) [OF 2(1)] Cons.IH(2) [of "snd (delivery_step deps c s)"] 2(2) show ?case by auto
qed simp_all

lemma enqueued_stays:
  assumes "promised s" "admissible admits (delivery_step deps) s commands" "Enqueue es \<in> set commands" "e \<in> set es"
  shows "(oe_id e, oe_topic e) \<in> set (row_keys (state_rows (runs (delivery_step deps) commands s)))"
  using assms
proof (induction commands arbitrary: s)
  case (Cons c cs)
  have k: "promised (snd (delivery_step deps c s))" using step_kept(1) Cons.prems(1,2) by simp
  show ?case
  proof (cases "c = Enqueue es")
    case True
    then have "(oe_id e, oe_topic e) \<in> set (row_keys (state_rows (snd (delivery_step deps c s))))"
      using Cons.prems(4) by (auto simp: on_queue_def enqueued row_keys_def)
    with runs_kept(2) [OF k] Cons.prems(2) show ?thesis by auto
  next
    case False
    with Cons.IH [OF k] Cons.prems show ?thesis by simp
  qed
qed simp

end

subsection \<open>Every pass makes progress\<close>

definition burials_work :: "('b, 'w) direct_consumer list \<Rightarrow> bool" where
  "burials_work consumers \<longleftrightarrow> (\<forall>c\<in>set consumers. \<forall>x w. isOk (fst (dc_deadLetter c x w)))"

definition rounds_of :: "int \<Rightarrow> 'b queue_row \<Rightarrow> nat" where
  "rounds_of n r = (if row_pending r then nat (n + 1 - qr_attempts r) else 0)"

definition rounds_left :: "int \<Rightarrow> 'b queue_row list \<Rightarrow> nat" where
  "rounds_left n rs = sum_list (map (rounds_of n) rs)"

lemma rounds_left_le: "(\<And>r. r \<in> set rs \<Longrightarrow> rounds_of n (f r) \<le> rounds_of n r) \<Longrightarrow> rounds_left n (map f rs) \<le> rounds_left n rs"
  unfolding rounds_left_def map_map by (rule sum_list_mono) simp

lemma rounds_left_less:
  assumes "\<And>r. r \<in> set rs \<Longrightarrow> rounds_of n (f r) \<le> rounds_of n r" "r \<in> set rs" "rounds_of n (f r) < rounds_of n r"
  shows "rounds_left n (map f rs) < rounds_left n rs"
proof -
  obtain xs ys where rs: "rs = xs @ r # ys" using assms(2) by (meson split_list)
  have "rounds_left n (map f xs) \<le> rounds_left n xs" "rounds_left n (map f ys) \<le> rounds_left n ys"
    using assms(1) by (auto simp: rs intro!: rounds_left_le)
  with assms(3) show ?thesis by (simp add: rs rounds_left_def)
qed

lemma rounds_of_deliver [simp]: "rounds_of n (deliver_row ids t r) \<le> rounds_of n r"
  by (simp add: rounds_of_def)

text \<open>A row as it was when it was fetched.\<close>

definition tracked :: "'b queue_row list \<Rightarrow> 'b due_entry \<Rightarrow> bool" where
  "tracked rs due \<longleftrightarrow> (\<exists>r\<in>set rs. row_pending r \<and> due = due_of r)"

lemma tracked_other:
  "tracked rs due \<Longrightarrow> oe_id (due_entry due) \<notin> set ids \<Longrightarrow> tracked (map (deliver_row ids t) rs) due"
  "tracked rs due \<Longrightarrow> oe_id (due_entry due) \<noteq> i \<Longrightarrow> tracked (map (defer_row i n t) rs) due"
  unfolding tracked_def by (metis (no_types, lifting) due_of_row(1) image_eqI list.set_map other_row)+

lemma tracked_delivered:
  assumes "tracked rs due" "\<And>r. r \<in> set rs \<Longrightarrow> qr_attempts r \<le> n"
  shows "rounds_left n (map (deliver_row [oe_id (due_entry due)] t) rs) < rounds_left n rs"
proof -
  obtain r where r: "r \<in> set rs" "row_pending r" "due = due_of r" using assms(1) by (auto simp: tracked_def)
  with assms(2) [OF r(1)] show ?thesis by (intro rounds_left_less) (auto simp: rounds_of_def)
qed

lemma tracked_deferred:
  assumes "tracked rs due" "distinct (map row_id rs)" "due_attempts due < n"
  shows "rounds_left n (map (defer_row (oe_id (due_entry due)) (due_attempts due + 1) t) rs) < rounds_left n rs"
proof -
  obtain r where r: "r \<in> set rs" "row_pending r" "due = due_of r" using assms(1) by (auto simp: tracked_def)
  have same: "r' = r" if "r' \<in> set rs" "row_id r' = row_id r" for r'
    using that r(1) assms(2) by (auto simp: distinct_map inj_on_def)
  have "rounds_of n (defer_row (row_id r) (qr_attempts r + 1) t r') \<le> rounds_of n r'" if "r' \<in> set rs" for r'
  proof (cases "row_id r' = row_id r")
    case True
    from same [OF that this] show ?thesis by (simp add: rounds_of_def nat_mono)
  qed simp
  with r assms(3) show ?thesis by (intro rounds_left_less [of rs n _ r]) (auto simp: rounds_of_def)
qed

lemma dead_letter_all_returns:
  "burials_work (map fst failures) \<Longrightarrow> isOk (fst (dead_letter_all e k failures s))"
proof (induction failures arbitrary: s)
  case (Cons f failures)
  obtain c x where f: "f = (c, x)" by fastforce
  obtain r w where r: "dc_deadLetter c \<lparr>ddl_messageId = oe_id e, ddl_message = message_of e, ddl_attempts = k, ddl_error = x\<rparr>
      (rl_world s) = (r, w)" by fastforce
  have "isOk r" using Cons.prems f r by (auto simp: burials_work_def) (metis fst_conv)
  then have "r = Inr ()" by (cases r) simp_all
  moreover have "burials_work (map fst failures)" using Cons.prems by (simp add: burials_work_def)
  ultimately show ?case using Cons.IH f r by (simp add: Let_def)
qed simp

lemma deliverRow_returns:
  assumes "burials_work cs"
  shows "isOk (fst (deliverRow deps due cs s))"
proof -
  obtain failures s1 where t: "try_consumers (due_entry due) (due_attempts due + 1) cs s = (failures, s1)" by fastforce
  from try_consumers_exact [OF t] obtain oks where "map fst failures = map fst (filter (\<lambda>(c, ok). \<not> ok) (zip cs oks))" by blast
  then have "set (map fst failures) \<subseteq> set cs" by (auto dest: set_zip_leftD)
  then have "burials_work (map fst failures)" using assms by (auto simp: burials_work_def)
  from dead_letter_all_returns [OF this, of "due_entry due" "due_attempts due + 1" s1] t show ?thesis
    by (auto simp: deliverRow_def Let_def isOk_def split: option.split sum.splits prod.splits)
qed

lemma subscribers_burials: "burials_work consumers \<Longrightarrow> burials_work (subscribers consumers t)"
  by (simp add: burials_work_def subscribers_def)

context row_relay
begin

lemma round_progress:
  assumes r: "deliverRow deps due (subs (oe_topic (due_entry due))) s = (Inr outcome, s')"
    and promised: "promised s" and due: "tracked (state_rows s) due"
  shows "rounds_left retries (state_rows s') < rounds_left retries (state_rows s)"
    "tracked (state_rows s) other \<Longrightarrow> oe_id (due_entry other) \<noteq> oe_id (due_entry due) \<Longrightarrow> tracked (state_rows s') other"
proof -
  obtain new where spec: "round_spec (due_entry due) (due_attempts due + 1) (subs (oe_topic (due_entry due)))
      (state_rows s) (Inr outcome) (state_rows s') new"
    using round_outcome [OF r] by blast
  have le: "qr_attempts r \<le> retries" if "r \<in> set (state_rows s)" for r
    using promised that by (simp add: promises_def row_promise_def)
  have after: "(\<exists>t. state_rows s' = map (deliver_row [oe_id (due_entry due)] t) (state_rows s)) \<or>
      (\<exists>t. state_rows s' = map (defer_row (oe_id (due_entry due)) (due_attempts due + 1) t) (state_rows s) \<and> due_attempts due < retries)"
    using spec by (cases outcome) (auto simp: round_spec_def delay_at_None)
  then show "rounds_left retries (state_rows s') < rounds_left retries (state_rows s)"
    using tracked_delivered [OF due le] tracked_deferred [OF due promises_ids [OF promised]] by auto
  show "tracked (state_rows s') other" if "tracked (state_rows s) other" "oe_id (due_entry other) \<noteq> oe_id (due_entry due)"
    using after that by (elim disjE exE conjE) (simp_all add: tracked_other)
qed

lemma tracked_from_queue: "promised s \<Longrightarrow> tracked (state_rows s) due \<Longrightarrow> from_queue retries (state_rows s) due"
  by (auto simp: tracked_def from_queue_def row_keys_def promises_def row_promise_def image_iff)

lemma batch_progress:
  assumes "burials_work (rd_consumers deps)" "promised s" "distinct (map (oe_id \<circ> due_entry) batch)"
    "\<forall>due\<in>set batch. subs (oe_topic (due_entry due)) \<noteq> [] \<longrightarrow> tracked (state_rows s) due"
  shows "isOk (fst (deliver_batch deps p batch s))"
    "rounds_left retries (state_rows (snd (deliver_batch deps p batch s))) +
       length (filter (\<lambda>due. subs (oe_topic (due_entry due)) \<noteq> []) batch) \<le> rounds_left retries (state_rows s)"
proof -
  have "isOk (fst (deliver_batch deps p batch s)) \<and>
    rounds_left retries (state_rows (snd (deliver_batch deps p batch s))) +
       length (filter (\<lambda>due. subs (oe_topic (due_entry due)) \<noteq> []) batch) \<le> rounds_left retries (state_rows s)"
    using assms(2-4)
  proof (induction batch arbitrary: p s)
    case (Cons due rest)
    show ?case
    proof (cases "subs (oe_topic (due_entry due)) = []")
      case True
      with Cons show ?thesis by (simp add: consumersByTopic_lookup)
    next
      case False
      let ?cs = "subs (oe_topic (due_entry due))"
      obtain outcome s' where r: "deliverRow deps due ?cs s = (Inr outcome, s')"
        using deliverRow_returns [OF subscribers_burials [OF assms(1)], of deps due "oe_topic (due_entry due)" s]
        by (cases "deliverRow deps due ?cs s") (auto simp: isOk_def split: sum.splits)
      have t: "tracked (state_rows s) due" using Cons.prems(3) False by simp
      have "promised s'" by (rule round_kept [OF r Cons.prems(1) tracked_from_queue [OF Cons.prems(1) t]])
      moreover have "\<forall>d\<in>set rest. subs (oe_topic (due_entry d)) \<noteq> [] \<longrightarrow> tracked (state_rows s') d"
        using Cons.prems(2,3) round_progress(2) [OF r Cons.prems(1) t] by (auto simp: image_iff)
      ultimately have "isOk (fst (deliver_batch deps (count_outcome outcome p) rest s')) \<and>
        rounds_left retries (state_rows (snd (deliver_batch deps (count_outcome outcome p) rest s'))) +
       length (filter (\<lambda>due. subs (oe_topic (due_entry due)) \<noteq> []) rest) \<le> rounds_left retries (state_rows s')"
        using Cons.IH Cons.prems(2) by simp
      with round_progress(1) [OF r Cons.prems(1) t] False r show ?thesis by (simp add: consumersByTopic_lookup)
    qed
  qed simp
  then show "isOk (fst (deliver_batch deps p batch s))"
    "rounds_left retries (state_rows (snd (deliver_batch deps p batch s))) +
       length (filter (\<lambda>due. subs (oe_topic (due_entry due)) \<noteq> []) batch) \<le> rounds_left retries (state_rows s)"
    by blast+
qed

lemma batch_rounds:
  assumes "burials_work (rd_consumers deps)" "promised s" "distinct (map (oe_id \<circ> due_entry) batch)"
    "\<forall>due\<in>set batch. subs (oe_topic (due_entry due)) \<noteq> [] \<longrightarrow> tracked (state_rows s) due"
    and step: "\<And>due outcome u u'. deliverRow deps due (subs (oe_topic (due_entry due))) u = (Inr outcome, u') \<Longrightarrow>
      promised u \<Longrightarrow> tracked (state_rows u) due \<Longrightarrow> P u \<Longrightarrow> P u'"
    and "P s"
  shows "P (snd (deliver_batch deps p batch s))"
  using assms(2-4,6)
proof (induction batch arbitrary: p s)
  case (Cons due rest)
  show ?case
  proof (cases "subs (oe_topic (due_entry due)) = []")
    case True
    with Cons show ?thesis by (simp add: consumersByTopic_lookup)
  next
    case False
    let ?cs = "subs (oe_topic (due_entry due))"
    obtain outcome s' where r: "deliverRow deps due ?cs s = (Inr outcome, s')"
      using deliverRow_returns [OF subscribers_burials [OF assms(1)], of deps due "oe_topic (due_entry due)" s]
      by (cases "deliverRow deps due ?cs s") (auto simp: isOk_def split: sum.splits)
    have t: "tracked (state_rows s) due" using Cons.prems(3) False by simp
    have "promised s'" by (rule round_kept [OF r Cons.prems(1) tracked_from_queue [OF Cons.prems(1) t]])
    moreover have "\<forall>d\<in>set rest. subs (oe_topic (due_entry d)) \<noteq> [] \<longrightarrow> tracked (state_rows s') d"
      using Cons.prems(2,3) round_progress(2) [OF r Cons.prems(1) t] by (auto simp: image_iff)
    moreover have "P s'" by (rule step [OF r Cons.prems(1) t Cons.prems(4)])
    ultimately show ?thesis using Cons.IH Cons.prems(2) False r by (simp add: consumersByTopic_lookup)
  qed
qed simp

lemma pass_shape:
  assumes promised: "promised s"
  obtains chosen unrouted s1 where "set chosen \<subseteq> {r \<in> set (state_rows s). row_due (rd_clock deps (rl_world s)) r}"
    "chosen = slice_to batch_size (filter (row_due (rd_clock deps (rl_world s))) (state_rows s))"
    "\<And>d. d \<in> set unrouted \<longleftrightarrow> d \<in> set (map due_of chosen) \<and> subs (oe_topic (due_entry d)) = []"
    "s1 = (if 0 < length unrouted then settle deps (map (oe_id \<circ> due_entry) unrouted) s else s)"
    "delivery_drainOnce deps s = deliver_batch deps
      \<lparr>re_delivered = 0, re_unrouted = length unrouted, re_deferred = 0, re_deadLettered = 0\<rparr> (map due_of chosen) s1"
    "promised s1" "distinct (map (oe_id \<circ> due_entry) (map due_of chosen))"
    "\<forall>d\<in>set (map due_of chosen). subs (oe_topic (due_entry d)) \<noteq> [] \<longrightarrow> tracked (state_rows s1) d"
proof -
  let ?due = "row_due (rd_clock deps (rl_world s))"
  obtain chosen unrouted s1 where chosen: "set chosen \<subseteq> {r \<in> set (state_rows s). ?due r}"
      "chosen = slice_to batch_size (filter ?due (state_rows s))"
    and unrouted: "unrouted = filter (\<lambda>due. map_of (consumersByTopic (rd_consumers deps)) (oe_topic (due_entry due)) = None) (map due_of chosen)"
    and s1: "s1 = (if 0 < length unrouted then settle deps (map (oe_id \<circ> due_entry) unrouted) s else s)"
    and drain: "delivery_drainOnce deps s = deliver_batch deps
      \<lparr>re_delivered = 0, re_unrouted = length unrouted, re_deferred = 0, re_deadLettered = 0\<rparr> (map due_of chosen) s1"
    by (rule drain_unfold [of s]) blast
  let ?batch = "map due_of chosen"
  have batch: "\<forall>d\<in>set ?batch. \<exists>r\<in>set (state_rows s). d = due_of r"
    using chosen by auto
  note step = unrouted_step [OF promised batch unrouted s1]
  have split: "d \<in> set unrouted \<longleftrightarrow> d \<in> set ?batch \<and> subs (oe_topic (due_entry d)) = []" for d
    by (auto simp: unrouted consumersByTopic_lookup)
  have "distinct (map row_id chosen)"
    using promises_ids [OF promised] by (simp add: chosen(2) slice_to_def distinct_map_filter flip: take_map)
  then have ids: "distinct (map (oe_id \<circ> due_entry) ?batch)" by (simp add: comp_def)
  have t0: "tracked (state_rows s) d" if "d \<in> set ?batch" for d
    using that chosen(1) by (auto simp: tracked_def row_due_def)
  have t1: "tracked (state_rows s1) d" if "d \<in> set ?batch" "subs (oe_topic (due_entry d)) \<noteq> []" for d
  proof (cases "unrouted = []")
    case False
    have "oe_id (due_entry d) \<notin> set (map (oe_id \<circ> due_entry) unrouted)"
    proof
      assume "oe_id (due_entry d) \<in> set (map (oe_id \<circ> due_entry) unrouted)"
      then obtain d2 where d2: "d2 \<in> set unrouted" "oe_id (due_entry d2) = oe_id (due_entry d)" by auto
      have "inj_on (oe_id \<circ> due_entry) (set ?batch)" using ids unfolding distinct_map by blast
      then have "d2 = d" by (rule inj_onD) (use d2 that(1) split in simp_all)
      with d2(1) split that(2) show False by blast
    qed
    with tracked_other(1) [OF t0 [OF that(1)] this] False show ?thesis by (simp add: s1)
  qed (use t0 that in \<open>simp add: s1\<close>)
  show thesis by (rule that [OF chosen split s1 drain step(1) ids]) (use t1 in blast)
qed

text \<open>A pass at a moment when everything that is pending is due, with room for at least one row.\<close>

lemma pass_progress:
  assumes working: "burials_work (rd_consumers deps)" and promised: "promised s"
    and due: "\<forall>r\<in>set (state_rows s). row_pending r \<longrightarrow> row_due (rd_clock deps (rl_world s)) r" and room: "0 < batch_size"
  shows "rounds_left retries (state_rows (snd (delivery_drainOnce deps s))) \<le> rounds_left retries (state_rows s) - 1"
proof -
  let ?due = "row_due (rd_clock deps (rl_world s))"
  let ?routed = "\<lambda>d. subs (oe_topic (due_entry d)) \<noteq> []"
  obtain chosen unrouted s1 where chosen: "set chosen \<subseteq> {r \<in> set (state_rows s). ?due r}"
      "chosen = slice_to batch_size (filter ?due (state_rows s))"
    and split: "\<And>d. d \<in> set unrouted \<longleftrightarrow> d \<in> set (map due_of chosen) \<and> \<not> ?routed d"
    and s1: "s1 = (if 0 < length unrouted then settle deps (map (oe_id \<circ> due_entry) unrouted) s else s)"
    and drain: "delivery_drainOnce deps s = deliver_batch deps
      \<lparr>re_delivered = 0, re_unrouted = length unrouted, re_deferred = 0, re_deadLettered = 0\<rparr> (map due_of chosen) s1"
    and k1: "promised s1" and ids: "distinct (map (oe_id \<circ> due_entry) (map due_of chosen))"
    and t1: "\<forall>d\<in>set (map due_of chosen). ?routed d \<longrightarrow> tracked (state_rows s1) d"
    by (rule pass_shape [OF promised]) blast
  have after: "rounds_left retries (state_rows (snd (delivery_drainOnce deps s))) + length (filter ?routed (map due_of chosen)) \<le>
      rounds_left retries (state_rows s1)"
    unfolding drain by (rule batch_progress(2) [OF working k1 ids t1])
  have mark: "rounds_left retries (state_rows s1) \<le> rounds_left retries (state_rows s)"
    by (auto simp: s1 intro: rounds_left_le)
  show ?thesis
  proof (cases "chosen = []")
    case True
    then have "filter ?due (state_rows s) = []" using chosen(2) room by (auto simp: slice_to_def split: if_splits)
    then have "\<forall>r\<in>set (state_rows s). \<not> row_pending r" using due by (auto simp: filter_empty_conv)
    then have "rounds_left retries (state_rows s) = 0" by (auto simp: rounds_left_def rounds_of_def)
    with after mark show ?thesis by simp
  next
    case False
    show ?thesis
    proof (cases "unrouted = []")
      case True
      then have "filter ?routed (map due_of chosen) = map due_of chosen" using split by (auto simp: filter_id_conv)
      with after mark False show ?thesis by (cases chosen) auto
    next
      case unrouted: False
      then obtain d where d: "d \<in> set unrouted" by (cases unrouted) auto
      then obtain r where r: "r \<in> set (state_rows s)" "row_pending r" "d = due_of r"
        using split chosen(1) by (auto simp: row_due_def)
      have "qr_attempts r \<le> retries" using promised r(1) by (simp add: promises_def row_promise_def)
      moreover have "row_id r \<in> set (map (oe_id \<circ> due_entry) unrouted)" using d r(3) by force
      ultimately have "rounds_left retries (state_rows s1) < rounds_left retries (state_rows s)"
        using r(1,2) unrouted by (auto simp: s1 rounds_of_def intro!: rounds_left_less)
      with after show ?thesis by simp
    qed
  qed
qed

end

subsection \<open>How often a consumer is tried\<close>

fun is_try :: "string \<Rightarrow> string \<Rightarrow> delivery_event \<Rightarrow> bool" where
  "is_try g i (Tried g' i' k ok) = (g = g' \<and> i = i')"
| "is_try g i (Buried g' i' k ok) = False"

definition tries :: "string \<Rightarrow> string \<Rightarrow> delivery_event list \<Rightarrow> nat" where
  "tries g i calls = length (filter (is_try g i) calls)"

lemma tries_append [simp]: "tries g i (xs @ ys) = tries g i xs + tries g i ys"
  by (simp add: tries_def)

lemma tries_round:
  assumes "length oks = length cs"
  shows "g \<notin> dc_consumerGroup ` set cs \<Longrightarrow> tries g i (map2 (\<lambda>c ok. Tried (dc_consumerGroup c) j k ok) cs oks) = 0"
    and "distinct (map dc_consumerGroup cs) \<Longrightarrow>
      tries g i (map2 (\<lambda>c ok. Tried (dc_consumerGroup c) j k ok) cs oks) \<le> (if i = j then 1 else 0)"
  using assms
proof (induction oks cs rule: list_induct2)
  case (Cons ok oks c cs)
  case 1 with Cons.IH(1) show ?case by (simp add: tries_def)
next
  case (Cons ok oks c cs)
  case 2 with Cons.IH show ?case by (cases "g = dc_consumerGroup c") (auto simp: tries_def)
qed (simp_all add: tries_def)

lemma tries_buried: "\<forall>x\<in>set buried. \<exists>g ok. x = Buried g j k ok \<Longrightarrow> tries g i buried = 0"
  by (auto simp: tries_def filter_empty_conv)

definition few_tries :: "int \<Rightarrow> delivery_event list \<Rightarrow> 'b queue_row list \<Rightarrow> bool" where
  "few_tries n calls rs \<longleftrightarrow> (\<forall>g.
     (\<forall>r\<in>set rs. int (tries g (row_id r) calls) \<le> (if row_pending r then qr_attempts r else n + 1)) \<and>
     (\<forall>i. i \<notin> row_id ` set rs \<longrightarrow> tries g i calls = 0))"

lemma few_triesI:
  "(\<And>g r. r \<in> set rs \<Longrightarrow> int (tries g (row_id r) calls) \<le> (if row_pending r then qr_attempts r else n + 1)) \<Longrightarrow>
   (\<And>g i. i \<notin> row_id ` set rs \<Longrightarrow> tries g i calls = 0) \<Longrightarrow> few_tries n calls rs"
  by (simp add: few_tries_def)

lemma few_tries_mapI:
  assumes "\<And>r. row_id (f r) = row_id r"
    "\<And>g r. r \<in> set rs \<Longrightarrow> int (tries g (row_id r) calls) \<le> (if row_pending (f r) then qr_attempts (f r) else n + 1)"
    "\<And>g i. i \<notin> row_id ` set rs \<Longrightarrow> tries g i calls = 0"
  shows "few_tries n calls (map f rs)"
proof (rule few_triesI)
  fix g r' assume "r' \<in> set (map f rs)"
  then obtain r where "r \<in> set rs" "r' = f r" by auto
  with assms(2) [of r g] show "int (tries g (row_id r') calls) \<le> (if row_pending r' then qr_attempts r' else n + 1)"
    by (simp only: assms(1))
qed (use assms(1,3) in \<open>simp add: image_image\<close>)

lemma few_triesD:
  "few_tries n calls rs \<Longrightarrow> r \<in> set rs \<Longrightarrow> int (tries g (row_id r) calls) \<le> (if row_pending r then qr_attempts r else n + 1)"
  "few_tries n calls rs \<Longrightarrow> i \<notin> row_id ` set rs \<Longrightarrow> tries g i calls = 0"
  unfolding few_tries_def by blast+

lemma few_tries_bound:
  assumes "few_tries n calls rs" "\<forall>r\<in>set rs. qr_attempts r \<le> n" "0 \<le> n"
  shows "int (tries g i calls) \<le> n + 1"
proof (cases "i \<in> row_id ` set rs")
  case True
  then obtain r where "r \<in> set rs" "i = row_id r" by auto
  with few_triesD(1) [OF assms(1), of r g] assms(2) show ?thesis by (fastforce split: if_splits)
next
  case False
  with few_triesD(2) [OF assms(1)] assms(3) show ?thesis by simp
qed

context row_relay
begin

abbreviation groups_distinct :: bool where
  "groups_distinct \<equiv> \<forall>t. distinct (map dc_consumerGroup (subs t))"

lemma round_few:
  assumes r: "deliverRow deps due (subs (oe_topic (due_entry due))) s = (Inr outcome, s')"
    and promised: "promised s" and due: "tracked (state_rows s) due" and groups_distinct
    and few: "few_tries retries (rl_log s) (state_rows s)"
  shows "few_tries retries (rl_log s') (state_rows s')"
proof -
  let ?e = "due_entry due" and ?k = "due_attempts due + 1"
  let ?cs = "subs (oe_topic ?e)"
  obtain oks buried where len: "length oks = length ?cs"
    and log: "rl_log s' = rl_log s @ map2 (\<lambda>c ok. Tried (dc_consumerGroup c) (oe_id ?e) ?k ok) ?cs oks @ buried"
    and b: "\<forall>x\<in>set buried. \<exists>g ok. x = Buried g (oe_id ?e) ?k ok"
    and spec: "round_spec ?e ?k ?cs (state_rows s) (Inr outcome) (state_rows s')
       (map2 (\<lambda>c ok. Tried (dc_consumerGroup c) (oe_id ?e) ?k ok) ?cs oks @ buried)"
    using round_outcome [OF r] by blast
  have more: "tries g i (rl_log s') \<le> tries g i (rl_log s) + (if i = oe_id ?e then 1 else 0)" for g i
    using tries_round(2) [OF len, of g i "oe_id ?e" ?k] tries_buried [OF b, of g i] assms(4) by (simp add: log)
  obtain r where row: "r \<in> set (state_rows s)" "row_pending r" "due = due_of r" using due by (auto simp: tracked_def)
  have le: "qr_attempts r \<le> retries" using promised row(1) by (simp add: promises_def row_promise_def)
  have old: "int (tries g (oe_id ?e) (rl_log s)) \<le> due_attempts due" for g
    using few_triesD(1) [OF few row(1), of g] row(2,3) by simp
  have rest: "int (tries g (row_id r') (rl_log s')) \<le> (if row_pending r' then qr_attempts r' else retries + 1)"
    if "r' \<in> set (state_rows s)" "row_id r' \<noteq> oe_id ?e" for r' g
    using few_triesD(1) [OF few that(1), of g] that(2) more [of g "row_id r'"] by (simp split: if_splits)
  have unseen: "tries g i (rl_log s') = 0" if "i \<notin> row_id ` set (state_rows s)" for g i
  proof -
    have "i \<noteq> oe_id ?e" using that row by auto
    with more [of g i] few_triesD(2) [OF few that, of g] show ?thesis by simp
  qed
  consider t where "state_rows s' = map (deliver_row [oe_id ?e] t) (state_rows s)"
    | t where "state_rows s' = map (defer_row (oe_id ?e) ?k t) (state_rows s)"
    using spec by (cases outcome) (auto simp: round_spec_def)
  then show ?thesis
  proof cases
    case (1 t)
    have "int (tries g (row_id r') (rl_log s')) \<le> (if row_pending (deliver_row [oe_id ?e] t r')
        then qr_attempts (deliver_row [oe_id ?e] t r') else retries + 1)" if "r' \<in> set (state_rows s)" for r' g
      using rest [OF that, of g] more [of g "oe_id ?e"] old [of g] le row(3)
      by (cases "row_id r' = oe_id ?e") auto
    from few_tries_mapI [OF _ this unseen] show ?thesis unfolding 1 by simp
  next
    case (2 t)
    have "int (tries g (row_id r') (rl_log s')) \<le> (if row_pending (defer_row (oe_id ?e) ?k t r')
        then qr_attempts (defer_row (oe_id ?e) ?k t r') else retries + 1)" if r': "r' \<in> set (state_rows s)" for r' g
    proof (cases "row_id r' = oe_id ?e")
      case True
      then have "r' = r" using r' row promises_ids [OF promised] by (auto simp: distinct_map inj_on_def)
      with True row(2) more [of g "oe_id ?e"] old [of g] show ?thesis by simp
    qed (use rest [OF r', of g] in \<open>auto split: if_splits\<close>)
    from few_tries_mapI [OF _ this unseen] show ?thesis unfolding 2 by simp
  qed
qed

lemma pass_few:
  assumes "burials_work (rd_consumers deps)" "promised s" groups_distinct "few_tries retries (rl_log s) (state_rows s)"
  shows "few_tries retries (rl_log (snd (delivery_drainOnce deps s))) (state_rows (snd (delivery_drainOnce deps s)))"
proof -
  obtain chosen unrouted s1 where chosen: "set chosen \<subseteq> {r \<in> set (state_rows s). (row_due (rd_clock deps (rl_world s))) r}"
      "chosen = slice_to batch_size (filter (row_due (rd_clock deps (rl_world s))) (state_rows s))"
    and split: "\<And>d. d \<in> set unrouted \<longleftrightarrow> d \<in> set (map due_of chosen) \<and> subs (oe_topic (due_entry d)) = []"
    and s1: "s1 = (if 0 < length unrouted then settle deps (map (oe_id \<circ> due_entry) unrouted) s else s)"
    and drain: "delivery_drainOnce deps s = deliver_batch deps
      \<lparr>re_delivered = 0, re_unrouted = length unrouted, re_deferred = 0, re_deadLettered = 0\<rparr> (map due_of chosen) s1"
    and k1: "promised s1" and ids: "distinct (map (oe_id \<circ> due_entry) (map due_of chosen))"
    and t1: "\<forall>d\<in>set (map due_of chosen). subs (oe_topic (due_entry d)) \<noteq> [] \<longrightarrow> tracked (state_rows s1) d"
    by (rule pass_shape [OF assms(2)]) blast
  have le: "qr_attempts r \<le> retries + 1" if "r \<in> set (state_rows s)" for r
    using promises_attempts [OF assms(2) that] by simp
  have each: "int (tries g (row_id r) (rl_log s)) \<le> (if row_pending (deliver_row ids t r)
      then qr_attempts (deliver_row ids t r) else retries + 1)" if "r \<in> set (state_rows s)" for r g ids t
    using few_triesD(1) [OF assms(4) that, of g] le [OF that] by (cases "row_pending r") auto
  have "few_tries retries (rl_log s) (map (deliver_row ids t) (state_rows s))" for ids t
  proof (rule few_tries_mapI)
    show "int (tries g (row_id r) (rl_log s)) \<le> (if row_pending (deliver_row ids t r)
      then qr_attempts (deliver_row ids t r) else retries + 1)" if "r \<in> set (state_rows s)" for g r
      by (rule each [OF that])
    show "tries g i (rl_log s) = 0" if "i \<notin> row_id ` set (state_rows s)" for g i
      by (rule few_triesD(2) [OF assms(4) that])
  qed simp
  then have "few_tries retries (rl_log s1) (state_rows s1)" using assms(4) by (simp add: s1)
  then show ?thesis
    unfolding drain by (rule batch_rounds [OF assms(1) k1 ids t1, rotated]) (rule round_few [OF _ _ _ assms(3)])
qed

lemma runs_few:
  assumes "burials_work (rd_consumers deps)" groups_distinct "promised s" "few_tries retries (rl_log s) (state_rows s)"
    "admissible admits (delivery_step deps) s commands"
  shows "few_tries retries (rl_log (runs (delivery_step deps) commands s)) (state_rows (runs (delivery_step deps) commands s))"
  using assms(3-5)
proof (induction commands arbitrary: s)
  case (Cons c cs)
  have "few_tries retries (rl_log (snd (delivery_step deps c s))) (state_rows (snd (delivery_step deps c s)))"
  proof (cases c)
    case (Enqueue es)
    note few = few_triesD [OF Cons.prems(2)]
    have "int (tries g (row_id r) (rl_log s)) \<le> (if row_pending r then qr_attempts r else retries + 1)"
      if "r \<in> set (map fresh_row es)" for r g
    proof -
      have "row_id r \<notin> row_id ` set (state_rows s)" "row_pending r"
        using that Cons.prems(3) Enqueue by (auto simp: list_all_iff fresh_row_def row_pending_def row_id_def)
      with few(2) that show ?thesis by auto
    qed
    with few(1) have "int (tries g (row_id r) (rl_log s)) \<le> (if row_pending r then qr_attempts r else retries + 1)"
      if "r \<in> set (state_rows s @ map fresh_row es)" for r g
      using that unfolding set_append Un_iff by blast
    moreover have "tries g i (rl_log s) = 0" if "i \<notin> row_id ` set (state_rows s @ map fresh_row es)" for g i
    proof (rule few(2))
      show "i \<notin> row_id ` set (state_rows s)" using that by auto
    qed
    ultimately have "few_tries retries (rl_log s) (state_rows s @ map fresh_row es)" by (rule few_triesI)
    with Enqueue show ?thesis by (simp add: on_queue_def enqueued)
  next
    case Pass
    with pass_few [OF assms(1) Cons.prems(1) assms(2) Cons.prems(2)] show ?thesis by (simp add: case_prod_unfold)
  qed (use Cons.prems in simp)
  with Cons step_kept(1) show ?case by simp
qed simp

end

subsection \<open>The relay over the in-memory queue\<close>

definition memory_relay ::
  "('b, 'w) direct_consumer list \<Rightarrow> ('w \<Rightarrow> timestamp) \<Rightarrow> int list \<Rightarrow> int option \<Rightarrow> ('b, 'b queue_row list, 'w) relay_deps" where
  "memory_relay consumers clock delays batchSize =
     \<lparr>rd_queue = memory_queue_ops, rd_consumers = consumers, rd_clock = clock, rd_retryDelaysMs = delays, rd_batchSize = batchSize\<rparr>"

definition idle_relay :: "'w \<Rightarrow> ('b queue_row list, 'w) relay_state" where
  "idle_relay w = \<lparr>rl_queue = [], rl_world = w, rl_log = []\<rparr>"

interpretation memory: row_relay "memory_relay consumers clock delays batchSize" "\<lambda>q. q"
  for consumers :: "('b, 'w) direct_consumer list" and clock delays batchSize
  by unfold_locales (simp_all add: memory_relay_def memory_queue_ops_def)

lemma memory_relay_simps [simp]:
  "rd_consumers (memory_relay consumers clock delays batchSize) = consumers"
  "rd_retryDelaysMs (memory_relay consumers clock delays batchSize) = delays"
  "rd_clock (memory_relay consumers clock delays batchSize) = clock"
  "rd_batchSize (memory_relay consumers clock delays batchSize) = batchSize"
  by (simp_all add: memory_relay_def)

text \<open>Entries come in pending, under identifiers the queue has not seen.\<close>

fun queue_admits :: "('b queue_row list, 'w) relay_state \<Rightarrow> ('b, 'w) relay_command \<Rightarrow> bool" where
  "queue_admits s (Enqueue es) = (distinct (map oe_id es) \<and>
     list_all (\<lambda>e. oe_status e = Pending \<and> oe_id e \<notin> set (map row_id (rl_queue s))) es)"
| "queue_admits s c = True"

lemma memory_admits [simp]: "memory.admits = queue_admits"
proof (intro ext)
  show "memory.admits s c = queue_admits s c" for s and c :: "('a, 'b) relay_command"
    by (cases c) simp_all
qed

lemma idle_kept: "promises consumers (int n) (rl_log (idle_relay w)) (rl_queue (idle_relay w))"
  by (simp add: promises_def idle_relay_def)

lemma idle_few: "few_tries (int n) (rl_log (idle_relay w)) (rl_queue (idle_relay w))"
  by (simp add: few_tries_def idle_relay_def tries_def)

lemma reached_kept:
  assumes "s = runs (delivery_step (memory_relay consumers clock delays batchSize)) commands (idle_relay w)"
    and "admissible queue_admits (delivery_step (memory_relay consumers clock delays batchSize)) (idle_relay w) commands"
  shows "promises consumers (int (length delays)) (rl_log s) (rl_queue s)"
  using memory.runs_kept(1) [where consumers = consumers and delays = delays and s = "idle_relay w" and clock = clock and batchSize = batchSize and commands = commands] assms by (simp add: idle_kept)

text \<open>
  C24: No outbox entry is lost. Whatever the producers enqueue, whatever the consumers do - fail, throw, refuse a
  dead letter - and however often the relay runs, every entry enqueued is in the queue: either still pending, or
  in one and the same round each consumer of its topic has effected it or been given a dead letter for it, and a
  dead letter only after the whole retry schedule.
\<close>

theorem no_entry_lost:
  assumes "s = runs (delivery_step (memory_relay consumers clock delays batchSize)) commands (idle_relay w)"
    and "admissible queue_admits (delivery_step (memory_relay consumers clock delays batchSize)) (idle_relay w) commands"
    and "Enqueue es \<in> set commands" "e \<in> set es"
  shows "\<exists>r\<in>set (rl_queue s). row_id r = oe_id e \<and> row_topic r = oe_topic e \<and>
    (row_pending r \<or> (\<exists>k. \<forall>c\<in>set consumers. dc_topic c = oe_topic e \<longrightarrow>
       Tried (dc_consumerGroup c) (oe_id e) k True \<in> set (rl_log s) \<or>
       k = int (length delays) + 1 \<and> Buried (dc_consumerGroup c) (oe_id e) k True \<in> set (rl_log s)))"
proof -
  have "(oe_id e, oe_topic e) \<in> set (row_keys (rl_queue s))"
    using memory.enqueued_stays [where consumers = consumers and delays = delays and s = "idle_relay w" and clock = clock and batchSize = batchSize and commands = commands and es = es and e = e] assms by (simp add: idle_kept)
  then obtain r where r: "r \<in> set (rl_queue s)" "row_id r = oe_id e" "row_topic r = oe_topic e"
    by (auto simp: row_keys_def)
  moreover have "row_promise consumers (int (length delays)) (rl_log s) r"
    using reached_kept [OF assms(1,2)] r(1) by (simp add: promises_def)
  ultimately show ?thesis unfolding row_promise_def subscribers_def by (intro bexI [of _ r]) auto
qed

text \<open>
  With a dead-letter store that does not throw and one consumer per group and topic, no consumer is handed the
  same entry more often than the schedule has retries, plus once.
\<close>

lemma tries_bounded:
  assumes "s = runs (delivery_step (memory_relay consumers clock delays batchSize)) commands (idle_relay w)"
    and "admissible queue_admits (delivery_step (memory_relay consumers clock delays batchSize)) (idle_relay w) commands"
    and "burials_work consumers" "\<forall>t. distinct (map dc_consumerGroup (subscribers consumers t))"
  shows "tries g i (rl_log s) \<le> length delays + 1"
proof -
  have "few_tries (int (length delays)) (rl_log s) (rl_queue s)"
    using memory.runs_few [where consumers = consumers and delays = delays and s = "idle_relay w" and clock = clock and batchSize = batchSize and commands = commands] assms
    by (simp add: idle_kept idle_few)
  then have "int (tries g i (rl_log s)) \<le> int (length delays) + 1"
    using promises_attempts [OF reached_kept [OF assms(1,2)]] by (intro few_tries_bound) auto
  then show ?thesis by linarith
qed

subsection \<open>Everything leaves the queue\<close>

text \<open>The passes of a relay that is started in the worlds given, one after the other.\<close>

fun passes :: "('b, 'q, 'w) relay_deps \<Rightarrow> 'w list \<Rightarrow> ('q, 'w) relay_state \<Rightarrow> ('q, 'w) relay_state" where
  "passes deps [] s = s"
| "passes deps (w # ws) s = passes deps ws (snd (delivery_drainOnce deps (s\<lparr>rl_world := w\<rparr>)))"

text \<open>Each pass begins when the waiting times of the rows still pending are over.\<close>

fun patient :: "('b, 'b queue_row list, 'w) relay_deps \<Rightarrow> 'w list \<Rightarrow> ('b queue_row list, 'w) relay_state \<Rightarrow> bool" where
  "patient deps [] s = True"
| "patient deps (w # ws) s =
     (list_all (\<lambda>r. row_pending r \<longrightarrow> row_due (rd_clock deps w) r) (rl_queue s) \<and>
      patient deps ws (snd (delivery_drainOnce deps (s\<lparr>rl_world := w\<rparr>))))"

lemma passes_progress:
  assumes "burials_work consumers" "0 < (case batchSize of Some n \<Rightarrow> n | None \<Rightarrow> 100)"
    and "promises consumers (int (length delays)) (rl_log s) (rl_queue s)"
    and "patient (memory_relay consumers clock delays batchSize) ws s"
  shows "promises consumers (int (length delays)) (rl_log (passes (memory_relay consumers clock delays batchSize) ws s))
      (rl_queue (passes (memory_relay consumers clock delays batchSize) ws s)) \<and>
    rounds_left (int (length delays)) (rl_queue (passes (memory_relay consumers clock delays batchSize) ws s)) \<le>
      rounds_left (int (length delays)) (rl_queue s) - length ws"
  using assms(3,4)
proof (induction ws arbitrary: s)
  case (Cons w ws)
  let ?deps = "memory_relay consumers clock delays batchSize"
  let ?s = "snd (delivery_drainOnce ?deps (s\<lparr>rl_world := w\<rparr>))"
  have p: "promises consumers (int (length delays)) (rl_log ?s) (rl_queue ?s)"
    using memory.drain_kept(1) [where consumers = consumers and delays = delays and s = "s\<lparr>rl_world := w\<rparr>" and clock = clock and batchSize = batchSize] Cons.prems(1) by simp
  have "rounds_left (int (length delays)) (rl_queue ?s) \<le> rounds_left (int (length delays)) (rl_queue s) - 1"
    using memory.pass_progress [where consumers = consumers and delays = delays and s = "s\<lparr>rl_world := w\<rparr>" and clock = clock and batchSize = batchSize] Cons.prems assms(1,2)
    by (simp add: memory.batch_size_def list_all_iff)
  with Cons.IH [OF p] Cons.prems(2) show ?case by simp linarith
qed simp

lemma rounds_left_bound:
  assumes "promises consumers (int n) calls rs"
  shows "rounds_left (int n) rs \<le> length rs * (n + 1)"
proof -
  have "rounds_of (int n) r \<le> n + 1" if "r \<in> set rs" for r
    using assms that by (auto simp: rounds_of_def promises_def row_promise_def)
  then have "rounds_left (int n) rs \<le> sum_list (map (\<lambda>r. n + 1) rs)" unfolding rounds_left_def by (rule sum_list_mono)
  then show ?thesis by (simp add: sum_list_triv)
qed

text \<open>
  C25: The queue drains. From any reachable queue, with a dead-letter store that does not throw, as many passes
  as there are rounds left - rows times retries plus one - leave nothing pending, if each pass begins when the
  waiting rows are due; however the consumers fail, an entry is effected or dead-lettered. With a dead-letter store that throws, a row may
  stay pending for ever.
\<close>

theorem queue_drains:
  assumes "s = runs (delivery_step (memory_relay consumers clock delays batchSize)) commands (idle_relay w)"
    and "admissible queue_admits (delivery_step (memory_relay consumers clock delays batchSize)) (idle_relay w) commands"
    and "burials_work consumers" "0 < (case batchSize of Some n \<Rightarrow> n | None \<Rightarrow> 100)"
    and "patient (memory_relay consumers clock delays batchSize) worlds s"
    and "length (rl_queue s) * (length delays + 1) \<le> length worlds"
  shows "\<forall>r\<in>set (rl_queue (passes (memory_relay consumers clock delays batchSize) worlds s)). \<not> row_pending r"
proof -
  let ?s = "passes (memory_relay consumers clock delays batchSize) worlds s"
  let ?n = "int (length delays)"
  have k: "promises consumers ?n (rl_log s) (rl_queue s)" by (rule reached_kept [OF assms(1,2)])
  have p: "promises consumers ?n (rl_log ?s) (rl_queue ?s)" and
    "rounds_left ?n (rl_queue ?s) \<le> rounds_left ?n (rl_queue s) - length worlds"
    using passes_progress [OF assms(3,4) k assms(5)] by blast+
  then have "rounds_left ?n (rl_queue ?s) = 0" using rounds_left_bound [OF k] assms(6) by simp
  then have "rounds_of ?n r = 0" if "r \<in> set (rl_queue ?s)" for r
    using that by (auto simp: rounds_left_def sum_list_eq_0_iff)
  with promises_attempts [OF p] show ?thesis by (fastforce simp: rounds_of_def)
qed

subsection \<open>A topic with a broken consumer\<close>

type_synonym sample_world = "int \<times> string list"

definition sample_consumers :: "(unit, sample_world) direct_consumer list" where
  "sample_consumers =
     [\<lparr>dc_topic = ''a.b.c.v1'', dc_consumerGroup = ''broken'', dc_deliver = (\<lambda>m w. (Inl ''boom'', w)),
       dc_deadLetter = (\<lambda>x w. (Inr (), w))\<rparr>,
      \<lparr>dc_topic = ''a.b.c.v1'', dc_consumerGroup = ''steady'', dc_deliver = (\<lambda>m (t, seen). (Inr (), (t, seen @ [msg_key m]))),
       dc_deadLetter = (\<lambda>x w. (Inr (), w))\<rparr>]"

definition sample_queue_entry :: "string \<Rightarrow> string \<Rightarrow> unit outbox_entry" where
  "sample_queue_entry i topic =
     \<lparr>oe_id = i, oe_topic = topic, oe_key = ''k'', oe_contentType = '''', oe_payload = (),
      oe_headers = \<lparr>h_messageId = i, h_type = ''a.b.c'', h_eventVersion = ''1'', h_contentType = '''', h_correlationId = ''x'',
        h_causationId = ''x'', h_tenantId = ''t'', h_producer = None\<rparr>,
      oe_status = Pending, oe_createdAt = 0, oe_publishedAt = None\<rparr>"

definition sample_relay :: "(unit, unit queue_row list, sample_world) relay_deps" where
  "sample_relay = memory_relay sample_consumers fst [50] (Some 1)"

definition sample_commands :: "(unit, sample_world) relay_command list" where
  "sample_commands = [Enqueue [sample_queue_entry ''m1'' ''a.b.c.v1'', sample_queue_entry ''m2'' ''x.y.z.v1''], Pass, Pass,
     Meanwhile (\<lambda>(t, seen). (t + 60, seen)), Pass]"

lemma sample_admitted: "admissible queue_admits (delivery_step sample_relay) (idle_relay (0, [])) sample_commands"
  by code_simp

lemma sample_groups: "\<forall>t. distinct (map dc_consumerGroup (subscribers sample_consumers t))"
  by (simp add: sample_consumers_def subscribers_def)

lemma sample_burials: "burials_work sample_consumers"
  by (simp add: sample_consumers_def burials_work_def)

lemma sample_queue_entry_parts: "oe_id (sample_queue_entry i topic) = i" "oe_topic (sample_queue_entry i topic) = topic"
  by (simp_all add: sample_queue_entry_def)

definition sample_outcome :: "(unit queue_row list, sample_world) relay_state" where
  "sample_outcome = runs (delivery_step sample_relay) sample_commands (idle_relay (0, []))"

lemma no_entry_lost_witness:
  "\<exists>r\<in>set (rl_queue sample_outcome). row_id r = ''m1'' \<and> row_topic r = ''a.b.c.v1'' \<and>
    (row_pending r \<or> (\<exists>k. \<forall>c\<in>set sample_consumers. dc_topic c = ''a.b.c.v1'' \<longrightarrow>
       Tried (dc_consumerGroup c) ''m1'' k True \<in> set (rl_log sample_outcome) \<or>
       k = int (length [50::int]) + 1 \<and> Buried (dc_consumerGroup c) ''m1'' k True \<in> set (rl_log sample_outcome)))"
proof -
  let ?es = "[sample_queue_entry ''m1'' ''a.b.c.v1'', sample_queue_entry ''m2'' ''x.y.z.v1'']"
  have "Enqueue ?es \<in> set sample_commands" "sample_queue_entry ''m1'' ''a.b.c.v1'' \<in> set ?es" by (simp_all add: sample_commands_def)
  from no_entry_lost [OF sample_outcome_def [unfolded sample_relay_def] sample_admitted [unfolded sample_relay_def] this]
  show ?thesis unfolding sample_queue_entry_parts .
qed

lemma tries_bounded_witness:
  "tries ''broken'' ''m1'' (rl_log sample_outcome) \<le> length [50::int] + 1"
  using tries_bounded [OF sample_outcome_def [unfolded sample_relay_def] sample_admitted [unfolded sample_relay_def]
      sample_burials sample_groups] .

lemma queue_drains_witness:
  "list_all (\<lambda>r. \<not> row_pending r) (rl_queue (passes sample_relay (map (\<lambda>t. (t, [])) [60, 120, 180, 240])
     (runs (delivery_step sample_relay) (take 1 sample_commands) (idle_relay (0, [])))))"
proof -
  have "admissible queue_admits (delivery_step sample_relay) (idle_relay (0, [])) (take 1 sample_commands)"
    "patient sample_relay (map (\<lambda>t. (t, [])) [60, 120, 180, 240])
      (runs (delivery_step sample_relay) (take 1 sample_commands) (idle_relay (0, [])))"
    "length (rl_queue (runs (delivery_step sample_relay) (take 1 sample_commands) (idle_relay (0, [])))) = 2"
    by code_simp+
  then show ?thesis unfolding sample_relay_def list_all_iff
    by (intro queue_drains [OF refl _ sample_burials]) simp_all
qed

end
