(* ===== verification/ConsumerRuntime.thy ===== *)
theory ConsumerRuntime
  imports Delivery JsConvert
begin

section \<open>The consumer runtime\<close>

text \<open>
  packages/kafka: \<^verbatim>\<open>KafkaConsumerRuntime\<close> turns a message into one effect of its handler. It reads the retry headers,
  looks the message up in the inbox, runs the handler and writes the marker, and on failure publishes a retry or a
  dead letter. The broker-less \<^verbatim>\<open>deliver\<close> and \<^verbatim>\<open>deadLetter\<close> are what the relay of the theory \<open>Delivery\<close> calls.
  \<^item> The world holds the domain state of the handlers, the inbox (one row per group and message), the dead-letter
    rows, the records published, the metrics and the clock.
  \<^item> The handler, the deserializer, the transaction runner and the publisher are the ports of the runtime: functions
    that may throw. A transaction runs on domain state and inbox.
\<close>

subsection \<open>Retry schedule (retry-schedule.ts)\<close>

definition DEFAULT_RETRY_SCHEDULE :: "int list" where
  "DEFAULT_RETRY_SCHEDULE = [5000, 30000, 120000, 600000, 3600000]"

definition maxAttempts :: "int list \<Rightarrow> int" where
  "maxAttempts schedule = int (length schedule)"

subsection \<open>Errors\<close>

text \<open>
  Errors carry message and stack; the duplicate error is told apart by \<^verbatim>\<open>instanceof\<close>. The stack of an error the
  runtime makes itself is left empty.
\<close>

datatype runtime_error = DuplicateProcessedEventError string | OtherError string string

fun runtime_error_message :: "runtime_error \<Rightarrow> string" where
  "runtime_error_message (DuplicateProcessedEventError i) = ''integration event '' @ i @ '' was concurrently processed twice''"
| "runtime_error_message (OtherError m stack) = m"

fun runtime_error_stack :: "runtime_error \<Rightarrow> string" where
  "runtime_error_stack (DuplicateProcessedEventError i) = []"
| "runtime_error_stack (OtherError m stack) = stack"

definition delayForAttempt :: "int list \<Rightarrow> int \<Rightarrow> (runtime_error, int) result" where
  "delayForAttempt schedule attempt =
     (case delay_at schedule (attempt - 1) of
        None \<Rightarrow> Inl (OtherError (''RetrySchedule: attempt '' @ show_int attempt @ '' exceeds max '' @ show_int (maxAttempts schedule)) [])
      | Some delay \<Rightarrow> Inr delay)"

subsection \<open>Header codec (runtime-headers.ts)\<close>

text \<open>A due time that is no whole number of milliseconds is read rounded down.\<close>

record retry_headers =
  rh_attempt :: int
  rh_dueAtMs :: int
  rh_originalTopic :: string
  rh_consumerGroup :: string

text \<open>\<^verbatim>\<open>{ ...base, ...over }\<close>\<close>

definition spread :: "header_bag \<Rightarrow> header_bag \<Rightarrow> header_bag" where
  "spread base over = fold (\<lambda>(k, v) m. AList.update k v m) over base"

definition encodeRetryHeaders :: "retry_headers \<Rightarrow> header_bag" where
  "encodeRetryHeaders h =
     [(''x-retry-attempt'', show_int (rh_attempt h)), (''x-retry-due-at'', show_int (rh_dueAtMs h)),
      (''x-retry-original-topic'', rh_originalTopic h), (''x-retry-consumer-group'', rh_consumerGroup h)]"

definition decodeRetryHeaders :: "header_bag \<Rightarrow> retry_headers option" where
  "decodeRetryHeaders headers =
     (let attempt = js_Number (map_of headers ''x-retry-attempt'');
          dueAtMs = js_Number (map_of headers ''x-retry-due-at'')
      in if \<not> isInteger attempt \<or> js_less attempt (jint 1) then None
         else if \<not> isFinite dueAtMs then None
         else case (map_of headers ''x-retry-original-topic'', map_of headers ''x-retry-consumer-group'') of
           (Some topic, Some grp) \<Rightarrow>
             Some \<lparr>rh_attempt = js_to_int attempt, rh_dueAtMs = js_to_int dueAtMs, rh_originalTopic = topic, rh_consumerGroup = grp\<rparr>
         | _ \<Rightarrow> None)"

definition TRACE_HEADERS :: "string list" where
  "TRACE_HEADERS = [''traceparent'', ''tracestate'', ''baggage'']"

definition traceHeaders :: "header_bag \<Rightarrow> header_bag" where
  "traceHeaders headers = concat (map (\<lambda>n. case map_of headers n of None \<Rightarrow> [] | Some v \<Rightarrow> [(n, v)]) TRACE_HEADERS)"

subsection \<open>The world of a runtime\<close>

record 'b dead_letter_entry =
  dle_consumerGroup :: string
  dle_messageId :: string
  dle_topic :: string
  dle_value :: 'b
  dle_headers :: header_bag
  dle_attempts :: int
  dle_error :: string
  dle_failedAt :: timestamp

datatype metric =
    MProcessed string string int
  | MFailed string string
  | MRetried string string int
  | MDeadLettered string string
  | MDuplicate string string

type_synonym inbox = "((string \<times> string) \<times> timestamp) list"

record ('b, 'd) runtime_world =
  rw_domain :: 'd
  rw_inbox :: inbox
  rw_deadLetters :: "'b dead_letter_entry list"
  rw_published :: "'b incoming_message list"
  rw_metrics :: "metric list"
  rw_now :: timestamp

type_synonym ('b, 'd, 'a) runtime_action = "(runtime_error, ('b, 'd) runtime_world, 'a) action"
type_synonym ('d, 'a) transaction_action = "(runtime_error, 'd \<times> inbox, 'a) action"

record 'b serialized_envelope =
  sv_type :: string
  sv_eventVersion :: js_number
  sv_contentType :: string
  sv_data :: 'b

record ('b, 'p, 'd) runtime_deps =
  rt_eventType :: string
  rt_eventVersion :: int
  rt_handle :: "'p integration_event \<Rightarrow> (runtime_error, 'd, unit) action"
  rt_handleAtomic :: "('p integration_event \<Rightarrow> (runtime_error, 'd, unit) action) option"
  rt_consumerGroup :: string
  rt_deserialize :: "'b serialized_envelope \<Rightarrow> (runtime_error, 'p integration_event) result"
  rt_unitOfWork :: "(('d, unit) transaction_action \<Rightarrow> ('d, unit) transaction_action) option"
  rt_publish :: "'b incoming_message \<Rightarrow> ('b, 'd, unit) runtime_action"
  rt_addDeadLetter :: "'b dead_letter_entry \<Rightarrow> ('b, 'd, unit) runtime_action"
  rt_retrySchedule :: "int list"

definition runtime_topic :: "('b, 'p, 'd) runtime_deps \<Rightarrow> string" where
  "runtime_topic deps = rt_eventType deps @ ''.v'' @ show_int (rt_eventVersion deps)"

definition note_metric :: "metric \<Rightarrow> ('b, 'd, unit) runtime_action" where
  "note_metric m = modify (\<lambda>w. w\<lparr>rw_metrics := rw_metrics w @ [m]\<rparr>)"

text \<open>The inbox of one group: \<^verbatim>\<open>has\<close> and the insert guarded by the primary key.\<close>

definition inbox_has :: "string \<Rightarrow> string \<Rightarrow> inbox \<Rightarrow> bool" where
  "inbox_has grp mid box = (map_of box (grp, mid) \<noteq> None)"

definition recordIfNew :: "string \<Rightarrow> string \<Rightarrow> timestamp \<Rightarrow> inbox \<Rightarrow> bool \<times> inbox" where
  "recordIfNew grp mid processedAt box =
     (if inbox_has grp mid box then (False, box) else (True, box @ [((grp, mid), processedAt)]))"

text \<open>An action on domain state and inbox, run on the world.\<close>

definition on_store :: "('d, 'a) transaction_action \<Rightarrow> ('b, 'd, 'a) runtime_action" where
  "on_store act w = (case act (rw_domain w, rw_inbox w) of (r, (d, box)) \<Rightarrow> (r, w\<lparr>rw_domain := d, rw_inbox := box\<rparr>))"

definition on_domain :: "(runtime_error, 'd, 'a) action \<Rightarrow> ('d, 'a) transaction_action" where
  "on_domain act = (\<lambda>(d, box). case act d of (r, d') \<Rightarrow> (r, (d', box)))"

subsection \<open>Decoding and effecting\<close>

definition header_or :: "header_bag \<Rightarrow> string \<Rightarrow> string \<Rightarrow> string" where
  "header_or headers name fallback = (case map_of headers name of None \<Rightarrow> fallback | Some v \<Rightarrow> v)"

definition decode_message :: "('b, 'p, 'd) runtime_deps \<Rightarrow> header_bag \<Rightarrow> 'b \<Rightarrow> (runtime_error, 'p integration_event) result" where
  "decode_message deps headers val = rt_deserialize deps
     \<lparr>sv_type = header_or headers ''type'' '''', sv_eventVersion = js_Number (Some (header_or headers ''eventVersion'' ''0'')),
      sv_contentType = header_or headers ''contentType'' '''', sv_data = val\<rparr>"

definition alreadyEffected :: "('b, 'p, 'd) runtime_deps \<Rightarrow> 'p integration_event \<Rightarrow> ('b, 'd, bool) runtime_action" where
  "alreadyEffected deps e w =
     (if inbox_has (rt_consumerGroup deps) (ie_messageId e) (rw_inbox w)
      then then_do (note_metric (MDuplicate (runtime_topic deps) (rt_consumerGroup deps))) (ret True) w
      else (Inr False, w))"

text \<open>The body of the transaction: the handler's write, then the marker; a lost race throws and so rolls back.\<close>

definition atomic_body ::
  "('b, 'p, 'd) runtime_deps \<Rightarrow> ('p integration_event \<Rightarrow> (runtime_error, 'd, unit) action) \<Rightarrow> timestamp \<Rightarrow>
     'p integration_event \<Rightarrow> ('d, unit) transaction_action" where
  "atomic_body deps handler now e =
     then_do (on_domain (handler e)) (\<lambda>(d, box).
       case recordIfNew (rt_consumerGroup deps) (ie_messageId e) now box of
         (isNew, box') \<Rightarrow>
           if isNew then (Inr (), (d, box')) else (Inl (DuplicateProcessedEventError (ie_messageId e)), (d, box')))"

definition runtime_handleAtomic ::
  "('b, 'p, 'd) runtime_deps \<Rightarrow> ('p integration_event \<Rightarrow> (runtime_error, 'd, unit) action) \<Rightarrow>
     (('d, unit) transaction_action \<Rightarrow> ('d, unit) transaction_action) \<Rightarrow> 'p integration_event \<Rightarrow> ('b, 'd, bool) runtime_action" where
  "runtime_handleAtomic deps handler run e w =
     (case on_store (run (atomic_body deps handler (rw_now w) e)) w of
        (Inr _, w') \<Rightarrow> (Inr True, w')
      | (Inl (DuplicateProcessedEventError i), w') \<Rightarrow> (Inr False, w')
      | (Inl other, w') \<Rightarrow> (Inl other, w'))"

definition plain_body :: "('b, 'p, 'd) runtime_deps \<Rightarrow> 'p integration_event \<Rightarrow> ('b, 'd, unit) runtime_action" where
  "plain_body deps e =
     then_do (on_store (on_domain (rt_handle deps e))) (\<lambda>w.
       (Inr (), w\<lparr>rw_inbox := snd (recordIfNew (rt_consumerGroup deps) (ie_messageId e) (rw_now w) (rw_inbox w))\<rparr>))"

definition note_processed :: "('b, 'p, 'd) runtime_deps \<Rightarrow> timestamp \<Rightarrow> ('b, 'd, unit) runtime_action" where
  "note_processed deps started w =
     note_metric (MProcessed (runtime_topic deps) (rt_consumerGroup deps) (rw_now w - started)) w"

definition effect :: "('b, 'p, 'd) runtime_deps \<Rightarrow> 'p integration_event \<Rightarrow> timestamp \<Rightarrow> ('b, 'd, unit) runtime_action" where
  "effect deps e started =
     (case (rt_handleAtomic deps, rt_unitOfWork deps) of
        (Some handler, Some run) \<Rightarrow>
          bind_action (runtime_handleAtomic deps handler run e) (\<lambda>handled.
            if \<not> handled then note_metric (MDuplicate (runtime_topic deps) (rt_consumerGroup deps))
            else note_processed deps started)
      | _ \<Rightarrow> then_do (plain_body deps e) (note_processed deps started))"

subsection \<open>Dead letters (dead-letter-publisher.ts)\<close>

record 'b dead_letter_input =
  dli_messageId :: string
  dli_key :: string
  dli_value :: 'b
  dli_headers :: header_bag
  dli_attempts :: int
  dli_error :: runtime_error

definition dead_letter_row ::
  "('b, 'p, 'd) runtime_deps \<Rightarrow> 'b dead_letter_input \<Rightarrow> timestamp \<Rightarrow> ('b, 'd, unit) runtime_action" where
  "dead_letter_row deps i failedAt = rt_addDeadLetter deps
     \<lparr>dle_consumerGroup = rt_consumerGroup deps, dle_messageId = dli_messageId i, dle_topic = runtime_topic deps,
      dle_value = dli_value i, dle_headers = dli_headers i, dle_attempts = dli_attempts i,
      dle_error = runtime_error_message (dli_error i), dle_failedAt = failedAt\<rparr>"

definition dlq_headers :: "('b, 'p, 'd) runtime_deps \<Rightarrow> 'b dead_letter_input \<Rightarrow> timestamp \<Rightarrow> header_bag" where
  "dlq_headers deps i failedAt =
     spread (spread (dli_headers i) (traceHeaders (dli_headers i)))
       [(''x-dlq-original-topic'', runtime_topic deps), (''x-dlq-consumer-group'', rt_consumerGroup deps),
        (''x-dlq-attempts'', show_int (dli_attempts i)), (''x-dlq-error'', runtime_error_message (dli_error i)),
        (''x-dlq-stack'', take 4096 (runtime_error_stack (dli_error i))), (''x-dlq-failed-at'', toISOString failedAt)]"

definition dead_letter_publish :: "('b, 'p, 'd) runtime_deps \<Rightarrow> 'b dead_letter_input \<Rightarrow> ('b, 'd, unit) runtime_action" where
  "dead_letter_publish deps i w =
     then_do (rt_publish deps \<lparr>msg_topic = runtime_topic deps @ ''.dlq'', msg_key = dli_key i, msg_value = dli_value i,
                               msg_headers = dlq_headers deps i (rw_now w)\<rparr>)
       (dead_letter_row deps i (rw_now w)) w"

definition dead_letter_record :: "('b, 'p, 'd) runtime_deps \<Rightarrow> 'b dead_letter_input \<Rightarrow> ('b, 'd, unit) runtime_action" where
  "dead_letter_record deps i w = dead_letter_row deps i (rw_now w) w"

subsection \<open>The entry points (consumer-runtime.ts)\<close>

definition scheduleRetryOrDeadLetter ::
  "('b, 'p, 'd) runtime_deps \<Rightarrow> 'b dead_letter_input \<Rightarrow> ('b, 'd, unit) runtime_action" where
  "scheduleRetryOrDeadLetter deps i w =
     (let nextAttempt = dli_attempts i + 1 in
      if maxAttempts (rt_retrySchedule deps) < nextAttempt
      then then_do (dead_letter_publish deps i)
             (note_metric (MDeadLettered (runtime_topic deps) (rt_consumerGroup deps))) w
      else case delayForAttempt (rt_retrySchedule deps) nextAttempt of
        Inl err \<Rightarrow> (Inl err, w)
      | Inr delay \<Rightarrow>
          then_do (rt_publish deps
              \<lparr>msg_topic = runtime_topic deps @ ''.retry'', msg_key = dli_key i, msg_value = dli_value i,
               msg_headers = spread (spread (dli_headers i) (traceHeaders (dli_headers i)))
                 (encodeRetryHeaders \<lparr>rh_attempt = nextAttempt, rh_dueAtMs = rw_now w + delay,
                    rh_originalTopic = runtime_topic deps, rh_consumerGroup = rt_consumerGroup deps\<rparr>)\<rparr>)
            (note_metric (MRetried (runtime_topic deps) (rt_consumerGroup deps) nextAttempt)) w)"

definition wait_until :: "timestamp \<Rightarrow> ('b, 'd, unit) runtime_action" where
  "wait_until dueAt = modify (\<lambda>w. if 0 < dueAt - rw_now w then w\<lparr>rw_now := dueAt\<rparr> else w)"

definition handleMessage :: "('b, 'p, 'd) runtime_deps \<Rightarrow> 'b incoming_message \<Rightarrow> ('b, 'd, unit) runtime_action" where
  "handleMessage deps m =
     (let retry = decodeRetryHeaders (msg_headers m);
          attempt = (case retry of None \<Rightarrow> 0 | Some h \<Rightarrow> rh_attempt h)
      in then_do (case retry of None \<Rightarrow> ret () | Some h \<Rightarrow> wait_until (rh_dueAtMs h))
           (bind_action (from_result (\<lambda>_. decode_message deps (msg_headers m) (msg_value m))) (\<lambda>envelope w.
              let started = rw_now w in
              bind_action (alreadyEffected deps envelope) (\<lambda>effected.
                if effected then ret ()
                else (\<lambda>w. case effect deps envelope started w of
                    (Inr _, w') \<Rightarrow> (Inr (), w')
                  | (Inl err, w') \<Rightarrow>
                      then_do (note_metric (MFailed (runtime_topic deps) (rt_consumerGroup deps)))
                        (scheduleRetryOrDeadLetter deps
                           \<lparr>dli_messageId = ie_messageId envelope, dli_key = msg_key m, dli_value = msg_value m,
                            dli_headers = msg_headers m, dli_attempts = attempt, dli_error = err\<rparr>) w')) w)))"

definition runtime_deliver :: "('b, 'p, 'd) runtime_deps \<Rightarrow> 'b incoming_message \<Rightarrow> ('b, 'd, unit) runtime_action" where
  "runtime_deliver deps m w =
     (let started = rw_now w;
          body = bind_action (from_result (\<lambda>_. decode_message deps (msg_headers m) (msg_value m))) (\<lambda>envelope.
            bind_action (alreadyEffected deps envelope) (\<lambda>effected.
              if effected then ret () else effect deps envelope started))
      in case body w of
           (Inr _, w') \<Rightarrow> (Inr (), w')
         | (Inl err, w') \<Rightarrow> then_do (note_metric (MFailed (runtime_topic deps) (rt_consumerGroup deps))) (throw err) w')"

definition runtime_deadLetter :: "('b, 'p, 'd) runtime_deps \<Rightarrow> 'b incoming_message \<Rightarrow> string \<Rightarrow> int \<Rightarrow> runtime_error \<Rightarrow>
    ('b, 'd, unit) runtime_action" where
  "runtime_deadLetter deps m mid attempts err =
     then_do (dead_letter_record deps \<lparr>dli_messageId = mid, dli_key = msg_key m, dli_value = msg_value m,
         dli_headers = msg_headers m, dli_attempts = attempts, dli_error = err\<rparr>)
       (note_metric (MDeadLettered (runtime_topic deps) (rt_consumerGroup deps)))"

subsection \<open>Headers survive the journey\<close>

lemma map_of_spread:
  "distinct (map fst over) \<Longrightarrow> map_of (spread base over) k = (case map_of over k of Some v \<Rightarrow> Some v | None \<Rightarrow> map_of base k)"
proof (induction over arbitrary: base)
  case (Cons kv over)
  obtain a v where kv: "kv = (a, v)" by fastforce
  have "map_of (spread base (kv # over)) k = map_of (spread (AList.update a v base) over) k"
    by (simp add: spread_def kv)
  moreover have "map_of over a = None" using Cons.prems kv by (simp add: map_of_eq_None_iff)
  ultimately show ?case using Cons.IH [of "AList.update a v base"] Cons.prems kv
    by (simp add: update_conv' split: option.split)
qed (simp add: spread_def)

lemma retry_keys_distinct [simp]: "distinct (map fst (encodeRetryHeaders h))"
  by (simp add: encodeRetryHeaders_def)

lemma retry_headers_read:
  assumes "1 \<le> rh_attempt h" "rh_attempt h < safe_limit" "0 \<le> rh_dueAtMs h" "rh_dueAtMs h < safe_limit"
  shows "decodeRetryHeaders (spread headers (encodeRetryHeaders h)) = Some h"
proof -
  have bag: "map_of (spread headers (encodeRetryHeaders h)) ''x-retry-attempt'' = Some (show_int (rh_attempt h))"
    "map_of (spread headers (encodeRetryHeaders h)) ''x-retry-due-at'' = Some (show_int (rh_dueAtMs h))"
    "map_of (spread headers (encodeRetryHeaders h)) ''x-retry-original-topic'' = Some (rh_originalTopic h)"
    "map_of (spread headers (encodeRetryHeaders h)) ''x-retry-consumer-group'' = Some (rh_consumerGroup h)"
    by (simp_all add: map_of_spread) (simp_all add: encodeRetryHeaders_def)
  have "js_Number (Some (show_int (rh_attempt h))) = jint (rh_attempt h)"
    "js_Number (Some (show_int (rh_dueAtMs h))) = jint (rh_dueAtMs h)"
    using assms by (simp_all add: Number_of_digits)
  with bag assms(1) show ?thesis by (simp add: decodeRetryHeaders_def isFinite_def Let_def)
qed

text \<open>
  C28: What the runtime writes into the headers of a retry is what it reads back, whatever headers the message
  had before: the attempt (from one on), the due time, the topic and the group.
\<close>

theorem retry_headers_roundtrip:
  assumes "1 \<le> rh_attempt h" "rh_attempt h < safe_limit" "0 \<le> rh_dueAtMs h" "rh_dueAtMs h < safe_limit"
  shows "decodeRetryHeaders (spread headers (encodeRetryHeaders h)) = Some h"
  by (rule retry_headers_read [OF assms])

lemma retry_headers_roundtrip_witness:
  "decodeRetryHeaders (spread [(''x-retry-attempt'', ''9''), (''type'', ''a.b.c'')]
     (encodeRetryHeaders \<lparr>rh_attempt = 2, rh_dueAtMs = 1782864000123, rh_originalTopic = ''a.b.c.v1'', rh_consumerGroup = ''g''\<rparr>)) =
   Some \<lparr>rh_attempt = 2, rh_dueAtMs = 1782864000123, rh_originalTopic = ''a.b.c.v1'', rh_consumerGroup = ''g''\<rparr>"
  by (rule retry_headers_roundtrip) (simp_all add: safe_limit_def)

end
