(* ===== verification/ConsumerFleet.thy ===== *)
theory ConsumerFleet
  imports ConsumerRuntime "HOL-Library.Multiset"
begin

section \<open>Consumers side by side\<close>

text \<open>
  What the inbox promises: with atomic handlers, at-least-once delivery has exactly-once effect, also when deliveries
  of several processes interleave. The deliveries are pieces between two awaits; the entry points of the runtime
  are sequences of them.
\<close>

subsection \<open>The contract of a transaction\<close>

text \<open>
  \<^verbatim>\<open>TransactionalUnitOfWork.run\<close> over the database: what the body wrote is kept when it returns and undone when it
  throws, and the caller sees the outcome of the body.
\<close>

locale unit_of_work =
  fixes run :: "('d, unit) transaction_action \<Rightarrow> ('d, unit) transaction_action"
  assumes commits: "body s = (Inr x, s') \<Longrightarrow> run body s = (Inr x, s')"
    and rolls_back: "body s = (Inl e, s') \<Longrightarrow> run body s = (Inl e, s)"

definition all_or_nothing :: "('d, unit) transaction_action \<Rightarrow> ('d, unit) transaction_action" where
  "all_or_nothing body s = (case body s of (Inl e, _) \<Rightarrow> (Inl e, s) | (Inr x, s') \<Rightarrow> (Inr x, s'))"

interpretation database: unit_of_work all_or_nothing
  by unfold_locales (simp_all add: all_or_nothing_def)

text \<open>The runner may be any; the effect of an atomic delivery on domain state and inbox is then one of two.\<close>

context unit_of_work
begin

lemma atomic_delivery:
  assumes "runtime_handleAtomic deps handler run e w = (r, w')"
  shows "(\<exists>d'. r = Inr True \<and> handler e (rw_domain w) = (Inr (), d') \<and>
      \<not> inbox_has (rt_consumerGroup deps) (ie_messageId e) (rw_inbox w) \<and>
      w' = w\<lparr>rw_domain := d', rw_inbox := rw_inbox w @ [((rt_consumerGroup deps, ie_messageId e), rw_now w)]\<rparr>) \<or>
    r \<noteq> Inr True \<and> w' = w"
proof -
  let ?s = "(rw_domain w, rw_inbox w)"
  let ?body = "atomic_body deps handler (rw_now w) e"
  obtain r1 d' where h: "handler e (rw_domain w) = (r1, d')" by fastforce
  show ?thesis
  proof (cases "\<exists>u. r1 = Inr u \<and> \<not> inbox_has (rt_consumerGroup deps) (ie_messageId e) (rw_inbox w)")
    case True
    then have "?body ?s = (Inr (), (d', rw_inbox w @ [((rt_consumerGroup deps, ie_messageId e), rw_now w)]))"
      using h by (auto simp: atomic_body_def then_do_apply on_domain_def recordIfNew_def)
    then have "run ?body ?s = (Inr (), (d', rw_inbox w @ [((rt_consumerGroup deps, ie_messageId e), rw_now w)]))" by (rule commits)
    with True h assms show ?thesis by (auto simp: runtime_handleAtomic_def on_store_def)
  next
    case False
    have "\<exists>er s'. ?body ?s = (Inl er, s')"
      using False h by (cases r1) (auto simp: atomic_body_def then_do_apply on_domain_def recordIfNew_def)
    then obtain er s' where "?body ?s = (Inl er, s')" by blast
    then have "run ?body ?s = (Inl er, ?s)" by (rule rolls_back)
    with assms show ?thesis
      by (auto simp: runtime_handleAtomic_def on_store_def split: runtime_error.splits)
  qed
qed

end

subsection \<open>Workers side by side\<close>

text \<open>
  A fleet of runtimes, one consumer group each, works on the same database; each may have several deliveries in
  flight. Between the look into the inbox and the transaction anything else may happen. The steps are the pieces of
  a delivery between two awaits; \<open>Elsewhere\<close> is everything that touches neither domain state nor inbox: other
  producers, the clock, publishing retries and dead letters.
\<close>

record ('b, 'p, 'd) fleet_state =
  fl_world :: "('b, 'd) runtime_world"
  fl_busy :: "(nat \<times> 'p integration_event \<times> timestamp) multiset"

definition same_store :: "('b, 'd) runtime_world \<Rightarrow> ('b, 'd) runtime_world \<Rightarrow> bool" where
  "same_store w w' \<longleftrightarrow> rw_domain w' = rw_domain w \<and> rw_inbox w' = rw_inbox w"

inductive fleet_step :: "('b, 'p, 'd) runtime_deps list \<Rightarrow> ('b, 'p, 'd) fleet_state \<Rightarrow> ('b, 'p, 'd) fleet_state \<Rightarrow> bool"
  for fleet where
  Looked: "i < length fleet \<Longrightarrow> alreadyEffected (fleet ! i) e (fl_world s) = (Inr False, w) \<Longrightarrow>
    fleet_step fleet s (s\<lparr>fl_world := w, fl_busy := add_mset (i, e, started) (fl_busy s)\<rparr>)"
| Skipped: "i < length fleet \<Longrightarrow> alreadyEffected (fleet ! i) e (fl_world s) = (Inr True, w) \<Longrightarrow>
    fleet_step fleet s (s\<lparr>fl_world := w\<rparr>)"
| Effected: "(i, e, started) \<in># fl_busy s \<Longrightarrow> effect (fleet ! i) e started (fl_world s) = (r, w) \<Longrightarrow>
    fleet_step fleet s (s\<lparr>fl_world := w, fl_busy := fl_busy s - {#(i, e, started)#}\<rparr>)"
| Elsewhere: "same_store (fl_world s) w \<Longrightarrow> fleet_step fleet s (s\<lparr>fl_world := w\<rparr>)"

inductive_cases fleet_stepE: "fleet_step fleet s t"

definition fleet_start :: "('b, 'd) runtime_world \<Rightarrow> ('b, 'p, 'd) fleet_state" where
  "fleet_start w = \<lparr>fl_world = w, fl_busy = {#}\<rparr>"

text \<open>A fleet of atomic consumers: one group each, a handler with \<^verbatim>\<open>handleAtomic\<close>, transactions that roll back.\<close>

definition atomic_fleet :: "('b, 'p, 'd) runtime_deps list \<Rightarrow> bool" where
  "atomic_fleet fleet \<longleftrightarrow> distinct (map rt_consumerGroup fleet) \<and>
     (\<forall>deps\<in>set fleet. rt_handleAtomic deps \<noteq> None \<and> (\<exists>run. rt_unitOfWork deps = Some run \<and> unit_of_work run))"

text \<open>The specification: the markers of the inbox, in order, handled once each.\<close>

fun handled_once :: "('b, 'p, 'd) runtime_deps list \<Rightarrow> 'd \<Rightarrow> (nat \<times> 'p integration_event) list \<Rightarrow> 'd option" where
  "handled_once fleet d [] = Some d"
| "handled_once fleet d ((i, e) # rest) =
     (case rt_handleAtomic (fleet ! i) of
        None \<Rightarrow> None
      | Some handler \<Rightarrow> (case handler e d of (Inr _, d') \<Rightarrow> handled_once fleet d' rest | (Inl _, _) \<Rightarrow> None))"

definition markers :: "('b, 'p, 'd) runtime_deps list \<Rightarrow> (nat \<times> 'p integration_event) list \<Rightarrow> (string \<times> string) list" where
  "markers fleet trace = map (\<lambda>(i, e). (rt_consumerGroup (fleet ! i), ie_messageId e)) trace"

definition exactly_once :: "('b, 'p, 'd) runtime_deps list \<Rightarrow> 'd \<Rightarrow> ('b, 'd) runtime_world \<Rightarrow> bool" where
  "exactly_once fleet d0 w \<longleftrightarrow> (\<exists>trace. list_all (\<lambda>(i, e). i < length fleet) trace \<and>
     map fst (rw_inbox w) = markers fleet trace \<and> distinct (markers fleet trace) \<and>
     handled_once fleet d0 trace = Some (rw_domain w))"

lemma handled_once_append:
  "handled_once fleet d (xs @ ys) = (case handled_once fleet d xs of None \<Rightarrow> None | Some d' \<Rightarrow> handled_once fleet d' ys)"
  by (induction fleet d xs rule: handled_once.induct) (auto split: option.split prod.split sum.split)

lemma exactly_once_store: "same_store w w' \<Longrightarrow> exactly_once fleet d0 w \<Longrightarrow> exactly_once fleet d0 w'"
  by (simp add: same_store_def exactly_once_def)

lemma note_metric_store: "same_store w (snd (note_metric m w))" "same_store w (snd (note_processed deps started w))"
  by (simp_all add: same_store_def note_metric_def note_processed_def)

lemma alreadyEffected_store: "alreadyEffected deps e w = (r, w') \<Longrightarrow> same_store w w'"
  by (auto simp: alreadyEffected_def then_do_apply note_metric_def same_store_def split: if_splits)

lemma effect_once:
  assumes fleet: "atomic_fleet fleet" and i: "i < length fleet" and once: "exactly_once fleet d0 w"
    and eff: "effect (fleet ! i) e started w = (r, w')"
  shows "exactly_once fleet d0 w'"
proof -
  obtain handler run where hr: "rt_handleAtomic (fleet ! i) = Some handler" "rt_unitOfWork (fleet ! i) = Some run" "unit_of_work run"
    using fleet i by (force simp: atomic_fleet_def)
  obtain r1 w1 where h: "runtime_handleAtomic (fleet ! i) handler run e w = (r1, w1)" by fastforce
  have store: "same_store w1 w'"
    using eff hr h note_metric_store
    by (auto simp: effect_def bind_action_apply same_store_def note_metric_def note_processed_def split: sum.splits if_splits)
  from unit_of_work.atomic_delivery [OF hr(3) h] have "exactly_once fleet d0 w1"
  proof (elim disjE exE conjE)
    fix d'
    assume d': "handler e (rw_domain w) = (Inr (), d')" "\<not> inbox_has (rt_consumerGroup (fleet ! i)) (ie_messageId e) (rw_inbox w)"
      and w1: "w1 = w\<lparr>rw_domain := d', rw_inbox := rw_inbox w @ [((rt_consumerGroup (fleet ! i), ie_messageId e), rw_now w)]\<rparr>"
    from once obtain trace where t: "list_all (\<lambda>(i, e). i < length fleet) trace" "map fst (rw_inbox w) = markers fleet trace"
        "distinct (markers fleet trace)" "handled_once fleet d0 trace = Some (rw_domain w)"
      by (auto simp: exactly_once_def)
    have "(rt_consumerGroup (fleet ! i), ie_messageId e) \<notin> set (markers fleet trace)"
      using d'(2) unfolding t(2) [symmetric] by (auto simp: inbox_has_def map_of_eq_None_iff)
    then show ?thesis unfolding exactly_once_def
      using t i d'(1) hr(1) w1
      by (intro exI [of _ "trace @ [(i, e)]"]) (simp add: markers_def handled_once_append)
  qed (use once in simp)
  then show ?thesis by (rule exactly_once_store [OF store])
qed

definition busy_ok :: "('b, 'p, 'd) runtime_deps list \<Rightarrow> ('b, 'p, 'd) fleet_state \<Rightarrow> bool" where
  "busy_ok fleet s \<longleftrightarrow> (\<forall>(i, e, started)\<in>#fl_busy s. i < length fleet)"

lemma fleet_step_once:
  assumes "fleet_step fleet s t" "atomic_fleet fleet" "busy_ok fleet s" "exactly_once fleet d0 (fl_world s)"
  shows "busy_ok fleet t \<and> exactly_once fleet d0 (fl_world t)"
  using assms(1)
proof (cases rule: fleet_step.cases)
  case (Looked i e w started)
  have "exactly_once fleet d0 w" by (rule exactly_once_store [OF alreadyEffected_store [OF Looked(3)] assms(4)])
  with Looked(1,2) assms(3) show ?thesis by (auto simp: busy_ok_def)
next
  case (Skipped i e w)
  have "exactly_once fleet d0 w" by (rule exactly_once_store [OF alreadyEffected_store [OF Skipped(3)] assms(4)])
  with Skipped(1) assms(3) show ?thesis by (simp add: busy_ok_def)
next
  case (Effected i e started r w)
  then have "i < length fleet" using assms(3) by (auto simp: busy_ok_def)
  then have "exactly_once fleet d0 w" by (rule effect_once [OF assms(2) _ assms(4) Effected(3)])
  with Effected(1) assms(3) show ?thesis by (auto simp: busy_ok_def dest: in_diffD)
next
  case (Elsewhere w)
  have "exactly_once fleet d0 w" by (rule exactly_once_store [OF Elsewhere(2) assms(4)])
  with Elsewhere(1) assms(3) show ?thesis by (simp add: busy_ok_def)
qed

lemma fleet_steps_once:
  assumes "(fleet_step fleet)\<^sup>*\<^sup>* s t" "atomic_fleet fleet" "busy_ok fleet s" "exactly_once fleet d0 (fl_world s)"
  shows "busy_ok fleet t \<and> exactly_once fleet d0 (fl_world t)"
  using assms(1)
proof (induction rule: rtranclp_induct)
  case (step t u)
  then show ?case using fleet_step_once [OF step.hyps(2) assms(2)] by blast
qed (use assms in simp)

lemma fleet_start_once:
  assumes "(fleet_step fleet)\<^sup>*\<^sup>* (fleet_start w) s" "atomic_fleet fleet" "exactly_once fleet d0 w"
  shows "exactly_once fleet d0 (fl_world s)"
  using fleet_steps_once [OF assms(1,2)] assms(3) by (simp add: busy_ok_def fleet_start_def)

lemma empty_once: "rw_inbox w = [] \<Longrightarrow> exactly_once fleet (rw_domain w) w"
  by (auto simp: exactly_once_def markers_def intro!: exI [of _ "[]"])

text \<open>
  C26: At-least-once delivery has exactly-once effect. However often messages are redelivered and however the
  deliveries of a fleet of atomic consumers interleave, the domain state is the one reached by handling the events
  whose markers are in the inbox once each, in the order of the markers; no group has two markers for a message.
\<close>

theorem effects_exactly_once:
  assumes "(fleet_step fleet)\<^sup>*\<^sup>* (fleet_start w) s" "atomic_fleet fleet" "rw_inbox w = []"
  shows "exactly_once fleet (rw_domain w) (fl_world s)"
  by (rule fleet_start_once [OF assms(1,2) empty_once [OF assms(3)]])

subsection \<open>The entry points are sequences of these steps\<close>

definition quiet_ports :: "('b, 'p, 'd) runtime_deps \<Rightarrow> bool" where
  "quiet_ports deps \<longleftrightarrow> (\<forall>m w. same_store w (snd (rt_publish deps m w))) \<and>
     (\<forall>x w. same_store w (snd (rt_addDeadLetter deps x w)))"

lemma same_store_trans: "same_store u v \<Longrightarrow> same_store v w \<Longrightarrow> same_store u w"
  by (simp add: same_store_def)

lemma same_store_refl [simp]: "same_store w w"
  by (simp add: same_store_def)

text \<open>Actions that leave domain state and inbox alone, one after the other.\<close>

definition keeps_store :: "('b, 'd, 'a) runtime_action \<Rightarrow> bool" where
  "keeps_store act \<longleftrightarrow> (\<forall>w. same_store w (snd (act w)))"

lemma keeps_store_then: "keeps_store f \<Longrightarrow> keeps_store g \<Longrightarrow> keeps_store (then_do f g)"
  unfolding keeps_store_def by (auto simp: then_do_apply same_store_def split: prod.split sum.split)
    (metis snd_conv)+

lemma keeps_store_metric: "keeps_store (note_metric m)"
  by (simp add: keeps_store_def note_metric_store)

lemma keeps_store_wait: "keeps_store (wait_until t)"
  by (simp add: keeps_store_def wait_until_def same_store_def)

lemma keeps_store_retry:
  fixes deps :: "('b, 'p, 'd) runtime_deps"
  assumes "quiet_ports deps"
  shows "keeps_store (scheduleRetryOrDeadLetter deps i)"
proof -
  have p: "keeps_store (rt_publish deps m)" "keeps_store (rt_addDeadLetter deps x)" for m x
    using assms by (simp_all add: quiet_ports_def keeps_store_def)
  have d: "keeps_store (\<lambda>w. dead_letter_row deps i t w)" for t
    using p(2) by (simp add: dead_letter_row_def keeps_store_def)
  have "keeps_store (dead_letter_publish deps i)"
    unfolding keeps_store_def
  proof
    fix w :: "('b, 'd) runtime_world"
    have "keeps_store (then_do (rt_publish deps \<lparr>msg_topic = runtime_topic deps @ ''.dlq'', msg_key = dli_key i,
        msg_value = dli_value i, msg_headers = dlq_headers deps i (rw_now w)\<rparr>) (dead_letter_row deps i (rw_now w)))"
      using p(1) d [of "rw_now w"] by (intro keeps_store_then) simp_all
    then show "same_store w (snd (dead_letter_publish deps i w))" unfolding dead_letter_publish_def keeps_store_def by blast
  qed
  then have dead: "keeps_store (then_do (dead_letter_publish deps i) (note_metric m))" for m
    by (intro keeps_store_then keeps_store_metric)
  show ?thesis
    unfolding keeps_store_def
  proof
    fix w :: "('b, 'd) runtime_world"
    show "same_store w (snd (scheduleRetryOrDeadLetter deps i w))"
    proof (cases "maxAttempts (rt_retrySchedule deps) < dli_attempts i + 1")
      case True
      with dead show ?thesis by (simp add: scheduleRetryOrDeadLetter_def Let_def keeps_store_def)
    next
      case False
      have "keeps_store (then_do (rt_publish deps m) (note_metric n))" for m n
        by (intro keeps_store_then keeps_store_metric p)
      with False show ?thesis
        by (auto simp: scheduleRetryOrDeadLetter_def Let_def keeps_store_def split: sum.split)
    qed
  qed
qed

abbreviation fleet_steps :: "('b, 'p, 'd) runtime_deps list \<Rightarrow> ('b, 'p, 'd) fleet_state \<Rightarrow> ('b, 'p, 'd) fleet_state \<Rightarrow> bool" where
  "fleet_steps fleet \<equiv> (fleet_step fleet)\<^sup>*\<^sup>*"

text \<open>The world moves, the deliveries in flight stay.\<close>

definition world_moves :: "('b, 'p, 'd) runtime_deps list \<Rightarrow> ('b, 'd) runtime_world \<Rightarrow> ('b, 'd) runtime_world \<Rightarrow> bool" where
  "world_moves fleet w w' \<longleftrightarrow> (\<forall>s. fl_world s = w \<longrightarrow> fleet_steps fleet s (s\<lparr>fl_world := w'\<rparr>))"

lemma moves_trans: "world_moves fleet u v \<Longrightarrow> world_moves fleet v w \<Longrightarrow> world_moves fleet u w"
  unfolding world_moves_def
proof (intro allI impI)
  fix s :: "('a, 'b, 'c) fleet_state" assume a: "\<forall>s. fl_world s = u \<longrightarrow> fleet_steps fleet s (s\<lparr>fl_world := v\<rparr>)"
    "\<forall>s. fl_world s = v \<longrightarrow> fleet_steps fleet s (s\<lparr>fl_world := w\<rparr>)" "fl_world s = u"
  have "fleet_steps fleet s (s\<lparr>fl_world := v\<rparr>)" using a by blast
  also have "fleet_steps fleet (s\<lparr>fl_world := v\<rparr>) (s\<lparr>fl_world := v, fl_world := w\<rparr>)"
    using a(2) [rule_format, of "s\<lparr>fl_world := v\<rparr>"] by simp
  finally show "fleet_steps fleet s (s\<lparr>fl_world := w\<rparr>)" by simp
qed

lemma moves_store: "same_store w w' \<Longrightarrow> world_moves fleet w w'"
  unfolding world_moves_def by (blast intro: Elsewhere)

lemma moves_effect:
  assumes "i < length fleet" "alreadyEffected (fleet ! i) e w = (Inr False, w1)" "effect (fleet ! i) e started w1 = (r, w2)"
  shows "world_moves fleet w w2"
  unfolding world_moves_def
proof (intro allI impI)
  fix s :: "('a, 'b, 'c) fleet_state" assume s: "fl_world s = w"
  let ?t = "s\<lparr>fl_world := w1, fl_busy := add_mset (i, e, started) (fl_busy s)\<rparr>"
  have "fleet_step fleet s ?t" by (rule Looked) (use assms s in simp_all)
  moreover have "fleet_step fleet ?t (?t\<lparr>fl_world := w2, fl_busy := fl_busy ?t - {#(i, e, started)#}\<rparr>)"
    by (rule Effected) (use assms in simp_all)
  ultimately have "fleet_steps fleet s (?t\<lparr>fl_world := w2, fl_busy := fl_busy ?t - {#(i, e, started)#}\<rparr>)" by (blast intro: rtranclp.rtrancl_into_rtrancl)
  then show "fleet_steps fleet s (s\<lparr>fl_world := w2\<rparr>)" by simp
qed

lemma alreadyEffected_no_effect: "alreadyEffected deps e w = (Inr False, w1) \<Longrightarrow> w1 = w"
  by (auto simp: alreadyEffected_def then_do_apply note_metric_def split: if_splits)

lemma alreadyEffected_returns: "\<exists>b w1. alreadyEffected deps e w = (Inr b, w1)"
  by (auto simp: alreadyEffected_def then_do_apply note_metric_def)

lemma deliver_unfold:
  assumes "decode_message deps (msg_headers m) (msg_value m) = Inr e" and c: "alreadyEffected deps e w = (Inr c, w1)"
  shows "runtime_deliver deps m w = (if c then (Inr (), w1) else
        case effect deps e (rw_now w) w1 of
          (Inr _, w') \<Rightarrow> (Inr (), w')
        | (Inl err, w') \<Rightarrow> then_do (note_metric (MFailed (runtime_topic deps) (rt_consumerGroup deps))) (throw err) w')"
  using assms by (simp add: runtime_deliver_def Let_def bind_action_apply split: prod.split sum.split)

lemma deliver_undecodable:
  assumes "decode_message deps (msg_headers m) (msg_value m) = Inl er"
  shows "runtime_deliver deps m w = then_do (note_metric (MFailed (runtime_topic deps) (rt_consumerGroup deps))) (throw er) w"
  using assms by (simp add: runtime_deliver_def Let_def bind_action_apply)

lemma metric_then_throw: "then_do (note_metric x) (throw er) w = (Inl er, w\<lparr>rw_metrics := rw_metrics w @ [x]\<rparr>)"
  by (simp add: then_do_apply note_metric_def)

lemma deliver_moves:
  assumes "i < length fleet"
  shows "world_moves fleet w (snd (runtime_deliver (fleet ! i) m w))"
proof (cases "decode_message (fleet ! i) (msg_headers m) (msg_value m)")
  case (Inl er)
  then show ?thesis by (simp add: deliver_undecodable metric_then_throw moves_store same_store_def)
next
  case (Inr e)
  obtain c w1 where c: "alreadyEffected (fleet ! i) e w = (Inr c, w1)" using alreadyEffected_returns by blast
  note unfold = deliver_unfold [OF Inr c]
  show ?thesis
  proof (cases c)
    case True
    with alreadyEffected_store [OF c] show ?thesis by (simp add: unfold moves_store)
  next
    case False
    obtain r w2 where r: "effect (fleet ! i) e (rw_now w) w1 = (r, w2)" by fastforce
    have "world_moves fleet w w2" by (rule moves_effect [OF assms _ r]) (use c False in simp)
    moreover have "same_store w2 (snd (runtime_deliver (fleet ! i) m w))"
      using r False by (cases r) (simp_all add: unfold metric_then_throw same_store_def)
    ultimately show ?thesis by (rule moves_trans [OF _ moves_store])
  qed
qed

text \<open>A message that can be decoded, after its waiting time.\<close>

definition waited :: "'b incoming_message \<Rightarrow> ('b, 'd) runtime_world \<Rightarrow> ('b, 'd) runtime_world" where
  "waited m w = (case decodeRetryHeaders (msg_headers m) of None \<Rightarrow> w | Some h \<Rightarrow> w\<lparr>rw_now := max (rw_now w) (rh_dueAtMs h)\<rparr>)"

definition attempt_of :: "'b incoming_message \<Rightarrow> int" where
  "attempt_of m = (case decodeRetryHeaders (msg_headers m) of None \<Rightarrow> 0 | Some h \<Rightarrow> rh_attempt h)"

definition failed_round :: "('b, 'p, 'd) runtime_deps \<Rightarrow> 'b incoming_message \<Rightarrow> 'p integration_event \<Rightarrow> runtime_error \<Rightarrow>
    ('b, 'd, unit) runtime_action" where
  "failed_round deps m e err =
     then_do (note_metric (MFailed (runtime_topic deps) (rt_consumerGroup deps)))
       (scheduleRetryOrDeadLetter deps \<lparr>dli_messageId = ie_messageId e, dli_key = msg_key m, dli_value = msg_value m,
          dli_headers = msg_headers m, dli_attempts = attempt_of m, dli_error = err\<rparr>)"

lemma waited_store [simp]: "same_store w (waited m w)"
  by (auto simp: waited_def same_store_def split: option.split)

lemma handle_unfold:
  assumes "decode_message deps (msg_headers m) (msg_value m) = Inr e"
    and c: "alreadyEffected deps e (waited m w) = (Inr c, w1)"
  shows "handleMessage deps m w = (if c then (Inr (), w1) else
        case effect deps e (rw_now (waited m w)) w1 of
          (Inr _, w') \<Rightarrow> (Inr (), w')
        | (Inl err, w') \<Rightarrow> failed_round deps m e err w')"
proof -
  have w: "(case decodeRetryHeaders (msg_headers m) of None \<Rightarrow> ret () | Some h \<Rightarrow> wait_until (rh_dueAtMs h)) w = (Inr (), waited m w)"
    by (cases "decodeRetryHeaders (msg_headers m)") (auto simp: wait_until_def waited_def max_def)
  show ?thesis
    unfolding failed_round_def attempt_of_def using assms
    by (simp add: handleMessage_def Let_def then_do_apply [of "case_option _ _ _"] w bind_action_apply)
qed

lemma handle_undecodable:
  assumes "decode_message deps (msg_headers m) (msg_value m) = Inl er"
  shows "handleMessage deps m w = (Inl er, waited m w)"
proof -
  have w: "(case decodeRetryHeaders (msg_headers m) of None \<Rightarrow> ret () | Some h \<Rightarrow> wait_until (rh_dueAtMs h)) w = (Inr (), waited m w)"
    by (cases "decodeRetryHeaders (msg_headers m)") (auto simp: wait_until_def waited_def max_def)
  then show ?thesis using assms by (simp add: handleMessage_def Let_def then_do_apply bind_action_apply)
qed

lemma handle_moves:
  assumes "i < length fleet" "quiet_ports (fleet ! i)"
  shows "world_moves fleet w (snd (handleMessage (fleet ! i) m w))"
proof (cases "decode_message (fleet ! i) (msg_headers m) (msg_value m)")
  case (Inl er)
  then show ?thesis by (simp add: handle_undecodable moves_store)
next
  case (Inr e)
  let ?deps = "fleet ! i"
  obtain c w1 where c: "alreadyEffected ?deps e (waited m w) = (Inr c, w1)" using alreadyEffected_returns by blast
  note unfold = handle_unfold [OF Inr c]
  have to_w1: "same_store w w1" by (rule same_store_trans [OF waited_store alreadyEffected_store [OF c]])
  show ?thesis
  proof (cases c)
    case True
    with to_w1 show ?thesis by (simp add: unfold moves_store)
  next
    case False
    obtain r w2 where r: "effect ?deps e (rw_now (waited m w)) w1 = (r, w2)" by fastforce
    have to_w2: "world_moves fleet w w2"
      by (rule moves_trans [OF moves_store [OF waited_store] moves_effect [OF assms(1) _ r]]) (use c False in simp)
    have "same_store w2 (snd (handleMessage ?deps m w))"
    proof (cases r)
      case (Inl err)
      have "keeps_store (failed_round ?deps m e err)"
        unfolding failed_round_def by (intro keeps_store_then keeps_store_metric keeps_store_retry assms(2))
      with Inl r False show ?thesis by (simp add: unfold keeps_store_def)
    qed (use r False in \<open>simp add: unfold\<close>)
    then show ?thesis by (rule moves_trans [OF to_w2 moves_store])
  qed
qed

text \<open>
  The two entry points of a runtime, over the broker (\<^verbatim>\<open>handleMessage\<close>) and without it (\<^verbatim>\<open>deliver\<close>), run as
  sequences of fleet steps; so whatever is proved of interleaved steps holds of them.
\<close>

lemma entry_points_refine_steps:
  assumes "i < length fleet" "quiet_ports (fleet ! i)" "fl_world s = w"
  shows "(fleet_step fleet)\<^sup>*\<^sup>* s (s\<lparr>fl_world := snd (handleMessage (fleet ! i) m w)\<rparr>) \<and>
    (fleet_step fleet)\<^sup>*\<^sup>* s (s\<lparr>fl_world := snd (runtime_deliver (fleet ! i) m w)\<rparr>)"
  using handle_moves [OF assms(1,2)] deliver_moves [OF assms(1)] assms(3) by (simp_all add: world_moves_def)

subsection \<open>A message delivered twice\<close>

text \<open>The in-memory ports (in-memory-dead-letter-store.ts, a publisher that keeps what it is given).\<close>

definition memory_publish :: "'b incoming_message \<Rightarrow> ('b, 'd, unit) runtime_action" where
  "memory_publish m = modify (\<lambda>w. w\<lparr>rw_published := rw_published w @ [m]\<rparr>)"

definition memory_addDeadLetter :: "'b dead_letter_entry \<Rightarrow> ('b, 'd, unit) runtime_action" where
  "memory_addDeadLetter x = modify (\<lambda>w. w\<lparr>rw_deadLetters := rw_deadLetters w @ [x]\<rparr>)"

definition sample_event :: "string \<Rightarrow> unit integration_event" where
  "sample_event i = \<lparr>ie_messageId = i, ie_type = ''a.b.c'', ie_eventVersion = 1, ie_aggregateId = ''k'', ie_aggregateType = ''b'',
     ie_occurredAt = 0, ie_correlationId = ''x'', ie_causationId = ''x'', ie_tenantId = ''t'', ie_producer = None, ie_payload = ()\<rparr>"

text \<open>A consumer that counts; the message carries its identifier as value.\<close>

definition counting_consumer :: "string \<Rightarrow> (string, unit, int) runtime_deps" where
  "counting_consumer grp = \<lparr>rt_eventType = ''a.b.c'', rt_eventVersion = 1, rt_handle = (\<lambda>e d. (Inr (), d + 1)),
     rt_handleAtomic = Some (\<lambda>e d. (Inr (), d + 1)), rt_consumerGroup = grp, rt_deserialize = (\<lambda>x. Inr (sample_event (sv_data x))),
     rt_unitOfWork = Some all_or_nothing, rt_publish = memory_publish, rt_addDeadLetter = memory_addDeadLetter,
     rt_retrySchedule = DEFAULT_RETRY_SCHEDULE\<rparr>"

definition sample_fleet :: "(string, unit, int) runtime_deps list" where
  "sample_fleet = [counting_consumer ''g1'', counting_consumer ''g2'']"

definition sample_start :: "(string, int) runtime_world" where
  "sample_start = \<lparr>rw_domain = 0, rw_inbox = [], rw_deadLetters = [], rw_published = [], rw_metrics = [], rw_now = 1000\<rparr>"

definition sample_message :: "string incoming_message" where
  "sample_message = \<lparr>msg_topic = ''a.b.c.v1'', msg_key = ''k'', msg_value = ''m1'', msg_headers = [(''type'', ''a.b.c'')]\<rparr>"

lemma sample_fleet_atomic: "atomic_fleet sample_fleet"
  by (auto simp: atomic_fleet_def sample_fleet_def counting_consumer_def intro: database.unit_of_work_axioms)

lemma sample_fleet_quiet: "quiet_ports (sample_fleet ! 0)"
  by (simp add: sample_fleet_def counting_consumer_def quiet_ports_def memory_publish_def memory_addDeadLetter_def same_store_def)

definition delivered_once :: "(string, int) runtime_world" where
  "delivered_once = snd (handleMessage (sample_fleet ! 0) sample_message sample_start)"

definition delivered_twice :: "(string, int) runtime_world" where
  "delivered_twice = snd (handleMessage (sample_fleet ! 0) sample_message delivered_once)"

lemma entry_points_refine_steps_witness:
  "(fleet_step sample_fleet)\<^sup>*\<^sup>* (fleet_start sample_start) ((fleet_start sample_start)\<lparr>fl_world := delivered_once\<rparr>)"
  unfolding delivered_once_def
  using entry_points_refine_steps [of 0 sample_fleet "fleet_start sample_start" sample_start sample_message] sample_fleet_quiet
  by (simp add: sample_fleet_def fleet_start_def)

lemma sample_steps:
  "(fleet_step sample_fleet)\<^sup>*\<^sup>* (fleet_start sample_start) ((fleet_start sample_start)\<lparr>fl_world := delivered_twice\<rparr>)"
proof -
  have "(0::nat) < length sample_fleet" by (simp add: sample_fleet_def)
  note steps = handle_moves [OF this sample_fleet_quiet, of _ sample_message]
  have "world_moves sample_fleet sample_start delivered_twice"
    using moves_trans [OF steps steps] unfolding delivered_once_def delivered_twice_def .
  then show ?thesis unfolding world_moves_def by (rule allE [of _ "fleet_start sample_start"]) (simp add: fleet_start_def)
qed

lemma effects_exactly_once_witness:
  "exactly_once sample_fleet 0 delivered_twice \<and> rw_domain delivered_twice = 1 \<and> length (rw_inbox delivered_twice) = 1"
proof -
  have "rw_domain delivered_twice = 1" "length (rw_inbox delivered_twice) = 1" by code_simp+
  moreover have "exactly_once sample_fleet 0 delivered_twice"
    using effects_exactly_once [OF sample_steps sample_fleet_atomic] by (simp add: sample_start_def)
  ultimately show ?thesis by simp
qed

end
