(* ===== verification/RetryJourney.thy ===== *)
theory RetryJourney
  imports ConsumerFleet
begin

section \<open>The journey of a message over the retry topic\<close>

text \<open>
  A group with its retry topic to itself: what the runtime publishes to \<^verbatim>\<open><topic>.retry\<close> comes back to it. The journey
  ends: the message is effected, or it rests in the dead-letter store after the whole schedule.
\<close>

subsection \<open>Effects leave markers\<close>

definition transactional :: "('b, 'p, 'd) runtime_deps \<Rightarrow> bool" where
  "transactional deps \<longleftrightarrow> (\<forall>run. rt_unitOfWork deps = Some run \<longrightarrow> unit_of_work run)"

lemma inbox_has_append: "inbox_has g i box \<Longrightarrow> inbox_has g i (box @ new)"
  by (auto simp: inbox_has_def map_add_def split: option.splits)

lemma inbox_has_recorded: "inbox_has g i (snd (recordIfNew g i t box))"
  by (auto simp: recordIfNew_def inbox_has_def map_add_def split: option.splits)

lemma duplicate_was_there:
  assumes "unit_of_work run" "runtime_handleAtomic deps handler run e w = (Inr False, w')"
    and never: "\<And>d. \<forall>i. fst (handler e d) \<noteq> Inl (DuplicateProcessedEventError i)"
  shows "inbox_has (rt_consumerGroup deps) (ie_messageId e) (rw_inbox w')"
proof -
  let ?s = "(rw_domain w, rw_inbox w)"
  let ?body = "atomic_body deps handler (rw_now w) e"
  obtain r1 d' where h: "handler e (rw_domain w) = (r1, d')" by fastforce
  obtain r s' where b: "?body ?s = (r, s')" by (cases "?body ?s")
  have "\<exists>i. r = Inl (DuplicateProcessedEventError i) \<and> w' = w"
  proof (cases r)
    case (Inl er)
    then have "run ?body ?s = (Inl er, ?s)" using b by (auto intro: unit_of_work.rolls_back [OF assms(1)])
    with assms(2) Inl show ?thesis by (cases er) (simp_all add: runtime_handleAtomic_def on_store_def)
  next
    case (Inr x)
    then have "run ?body ?s = (Inr x, s')" using b by (auto intro: unit_of_work.commits [OF assms(1)])
    with assms(2) show ?thesis by (cases s') (simp add: runtime_handleAtomic_def on_store_def)
  qed
  then obtain i where "r = Inl (DuplicateProcessedEventError i)" "w' = w" by blast
  moreover have "r1 \<noteq> Inl (DuplicateProcessedEventError i)" for i using never [of "rw_domain w"] h by simp
  ultimately show ?thesis using b h
    by (cases r1) (auto simp: atomic_body_def then_do_apply on_domain_def recordIfNew_def split: if_splits)
qed

text \<open>The handlers do not throw the error that is the runtime's own.\<close>

definition own_errors :: "('b, 'p, 'd) runtime_deps \<Rightarrow> bool" where
  "own_errors deps \<longleftrightarrow> (\<forall>handler e d i. rt_handleAtomic deps = Some handler \<longrightarrow> fst (handler e d) \<noteq> Inl (DuplicateProcessedEventError i))"

lemma effect_marks:
  assumes "transactional deps" "own_errors deps" "effect deps e started w = (Inr u, w')"
  shows "inbox_has (rt_consumerGroup deps) (ie_messageId e) (rw_inbox w')"
proof (cases "\<exists>handler run. rt_handleAtomic deps = Some handler \<and> rt_unitOfWork deps = Some run")
  case True
  then obtain handler run where hr: "rt_handleAtomic deps = Some handler" "rt_unitOfWork deps = Some run" by blast
  then have run: "unit_of_work run" using assms(1) by (simp add: transactional_def)
  obtain b w1 where h: "runtime_handleAtomic deps handler run e w = (Inr b, w1)" "rw_inbox w' = rw_inbox w1"
    using assms(3) hr
    by (auto simp: effect_def bind_action_ok_iff note_metric_def note_processed_def split: if_splits)
  have "inbox_has (rt_consumerGroup deps) (ie_messageId e) (rw_inbox w1)"
  proof (cases b)
    case True
    from unit_of_work.atomic_delivery [OF run h(1)] True show ?thesis
      by (auto simp: inbox_has_def map_add_def split: option.splits)
  next
    case False
    show ?thesis
      by (rule duplicate_was_there [OF run h(1) [unfolded Eq_FalseI [OF False]]])
        (use assms(2) hr(1) in \<open>simp add: own_errors_def\<close>)
  qed
  with h(2) show ?thesis by simp
next
  case False
  then have "effect deps e started = then_do (plain_body deps e) (note_processed deps started)"
    by (auto simp: effect_def split: option.splits)
  with assms(3) show ?thesis
    by (auto simp: then_do_ok_iff plain_body_def note_processed_def note_metric_def inbox_has_recorded)
qed

definition same_channels :: "('b, 'd) runtime_world \<Rightarrow> ('b, 'd) runtime_world \<Rightarrow> bool" where
  "same_channels w w' \<longleftrightarrow> rw_now w' = rw_now w \<and> rw_published w' = rw_published w \<and> rw_deadLetters w' = rw_deadLetters w"

lemma on_store_channels: "same_channels w (snd (on_store act w))"
  by (simp add: same_channels_def on_store_def split: prod.split)

lemma handleAtomic_channels: "same_channels w (snd (runtime_handleAtomic deps handler run e w))"
proof -
  obtain r w1 where h: "on_store (run (atomic_body deps handler (rw_now w) e)) w = (r, w1)" by fastforce
  then have "same_channels w w1" using on_store_channels [of w "run (atomic_body deps handler (rw_now w) e)"] by simp
  with h show ?thesis by (simp add: runtime_handleAtomic_def split: sum.split runtime_error.split)
qed

lemma effect_channels: "same_channels w (snd (effect deps e started w))"
proof (cases "\<exists>handler run. rt_handleAtomic deps = Some handler \<and> rt_unitOfWork deps = Some run")
  case True
  then obtain handler run where hr: "rt_handleAtomic deps = Some handler" "rt_unitOfWork deps = Some run" by blast
  obtain r w1 where h: "runtime_handleAtomic deps handler run e w = (r, w1)" by fastforce
  then have "same_channels w w1" using handleAtomic_channels [of w deps handler run e] by simp
  with hr h show ?thesis
    by (cases r) (simp_all add: effect_def bind_action_apply note_metric_def note_processed_def same_channels_def)
next
  case False
  then have "effect deps e started = then_do (plain_body deps e) (note_processed deps started)"
    by (auto simp: effect_def split: option.splits)
  moreover obtain r w1 where h: "on_store (on_domain (rt_handle deps e)) w = (r, w1)" by fastforce
  moreover have "same_channels w w1" using on_store_channels [of w "on_domain (rt_handle deps e)"] h by simp
  ultimately show ?thesis
    by (cases r) (simp_all add: then_do_apply plain_body_def note_metric_def note_processed_def same_channels_def)
qed

subsection \<open>One round\<close>

text \<open>The retry that a failed round publishes carries the message on: same key and bytes, decoded to the same event.\<close>

definition retry_of :: "('b, 'p, 'd) runtime_deps \<Rightarrow> 'b incoming_message \<Rightarrow> timestamp \<Rightarrow> int \<Rightarrow> 'b incoming_message" where
  "retry_of deps m now delay =
     \<lparr>msg_topic = runtime_topic deps @ ''.retry'', msg_key = msg_key m, msg_value = msg_value m,
      msg_headers = spread (spread (msg_headers m) (traceHeaders (msg_headers m)))
        (encodeRetryHeaders \<lparr>rh_attempt = attempt_of m + 1, rh_dueAtMs = now + delay, rh_originalTopic = runtime_topic deps,
           rh_consumerGroup = rt_consumerGroup deps\<rparr>)\<rparr>"

lemma trace_lookup: "map_of (traceHeaders h) k = (if k \<in> set TRACE_HEADERS then map_of h k else None)"
  by (auto simp: traceHeaders_def TRACE_HEADERS_def map_add_def split: option.split)

lemma trace_distinct [simp]: "distinct (map fst (traceHeaders h))"
  by (simp add: traceHeaders_def TRACE_HEADERS_def split: option.split)

lemma trace_spread: "map_of (spread h (traceHeaders h)) k = map_of h k"
  by (simp add: map_of_spread trace_lookup split: option.split)

lemma retry_decodes: "decode_message deps (msg_headers (retry_of deps m now delay)) (msg_value (retry_of deps m now delay)) =
    decode_message deps (msg_headers m) (msg_value m)"
proof -
  have "header_or (msg_headers (retry_of deps m now delay)) k d = header_or (msg_headers m) k d"
    if "k \<in> {''type'', ''eventVersion'', ''contentType''}" for k d
    using that by (auto simp: header_or_def retry_of_def map_of_spread trace_spread encodeRetryHeaders_def)
  then show ?thesis by (simp add: decode_message_def retry_of_def)
qed

lemma retry_attempt:
  assumes "0 \<le> attempt_of m" "attempt_of m + 1 < safe_limit" "0 \<le> now + delay" "now + delay < safe_limit"
  shows "decodeRetryHeaders (msg_headers (retry_of deps m now delay)) = Some
     \<lparr>rh_attempt = attempt_of m + 1, rh_dueAtMs = now + delay, rh_originalTopic = runtime_topic deps,
      rh_consumerGroup = rt_consumerGroup deps\<rparr>"
  using assms by (simp add: retry_of_def retry_headers_read)

lemma attempt_of_nonneg: "0 \<le> attempt_of m"
proof (cases "decodeRetryHeaders (msg_headers m)")
  case (Some h)
  then obtain n where "js_Number (map_of (msg_headers m) ''x-retry-attempt'') = jint n" "rh_attempt h = n" "\<not> n < 1"
    by (auto simp: decodeRetryHeaders_def Let_def isInteger_iff split: if_splits option.splits)
  with Some show ?thesis by (simp add: attempt_of_def)
qed (simp add: attempt_of_def)

text \<open>Ports that do not fail.\<close>

definition memory_ports :: "('b, 'p, 'd) runtime_deps \<Rightarrow> bool" where
  "memory_ports deps \<longleftrightarrow> rt_publish deps = memory_publish \<and> rt_addDeadLetter deps = memory_addDeadLetter"

lemma failed_round_result:
  assumes "memory_ports deps"
  shows "attempt_of m < maxAttempts (rt_retrySchedule deps) \<Longrightarrow>
      \<exists>w'. failed_round deps m e err w = (Inr (), w') \<and> rw_now w' = rw_now w \<and> rw_deadLetters w' = rw_deadLetters w \<and>
        rw_published w' = rw_published w @ [retry_of deps m (rw_now w) (rt_retrySchedule deps ! nat (attempt_of m))]"
    and "\<not> attempt_of m < maxAttempts (rt_retrySchedule deps) \<Longrightarrow>
      \<exists>w'. failed_round deps m e err w = (Inr (), w') \<and> rw_inbox w' = rw_inbox w \<and>
        (\<exists>r. rw_published w' = rw_published w @ [r] \<and> msg_topic r = runtime_topic deps @ ''.dlq'') \<and>
        (\<exists>x. rw_deadLetters w' = rw_deadLetters w @ [x] \<and> dle_messageId x = ie_messageId e \<and>
           dle_consumerGroup x = rt_consumerGroup deps \<and> dle_value x = msg_value m \<and> dle_attempts x = attempt_of m)"
  using assms attempt_of_nonneg [of m]
  by (auto simp: failed_round_def scheduleRetryOrDeadLetter_def Let_def then_do_apply note_metric_def delayForAttempt_def
      delay_at_def maxAttempts_def memory_ports_def memory_publish_def memory_addDeadLetter_def retry_of_def
      dead_letter_publish_def dead_letter_row_def)

lemma effect_error_inbox:
  assumes "transactional deps" "effect deps e started w = (Inl err, w')"
  shows "rw_inbox w' = rw_inbox w"
proof (cases "\<exists>handler run. rt_handleAtomic deps = Some handler \<and> rt_unitOfWork deps = Some run")
  case True
  then obtain handler run where hr: "rt_handleAtomic deps = Some handler" "rt_unitOfWork deps = Some run" by blast
  then have run: "unit_of_work run" using assms(1) by (simp add: transactional_def)
  obtain r w1 where h: "runtime_handleAtomic deps handler run e w = (r, w1)" by fastforce
  with assms(2) hr have "r = Inl err" "w' = w1"
    by (cases r; simp add: effect_def bind_action_apply note_metric_def note_processed_def split: if_splits)+
  with unit_of_work.atomic_delivery [OF run h] show ?thesis by auto
next
  case False
  then have "effect deps e started = then_do (plain_body deps e) (note_processed deps started)"
    by (auto simp: effect_def split: option.splits)
  with assms(2) show ?thesis
    by (auto simp: then_do_apply plain_body_def note_processed_def note_metric_def on_store_def on_domain_def
        split: prod.splits sum.splits)
qed

subsection \<open>The whole journey\<close>

text \<open>
  One group that reads its own retry topic: deliver the message; when that published a retry, deliver the retry, at
  most so many rounds. A round that throws ends the journey: the broker would deliver the message again.
\<close>

fun redeliver :: "nat \<Rightarrow> ('b, 'p, 'd) runtime_deps \<Rightarrow> 'b incoming_message \<Rightarrow> ('b, 'd) runtime_world \<Rightarrow> ('b, 'd) runtime_world" where
  "redeliver 0 deps m w = w"
| "redeliver (Suc rounds) deps m w =
     (case handleMessage deps m w of
        (Inl _, w') \<Rightarrow> w'
      | (Inr _, w') \<Rightarrow>
          (case drop (length (rw_published w)) (rw_published w') of
             r # _ \<Rightarrow> if msg_topic r = runtime_topic deps @ ''.retry'' then redeliver rounds deps r w' else w'
           | [] \<Rightarrow> w'))"

definition at_rest :: "('b, 'p, 'd) runtime_deps \<Rightarrow> 'p integration_event \<Rightarrow> 'b \<Rightarrow> ('b, 'd) runtime_world \<Rightarrow> ('b, 'd) runtime_world \<Rightarrow> bool" where
  "at_rest deps e val w w' \<longleftrightarrow>
     (if inbox_has (rt_consumerGroup deps) (ie_messageId e) (rw_inbox w') then rw_deadLetters w' = rw_deadLetters w
      else \<exists>x. rw_deadLetters w' = rw_deadLetters w @ [x] \<and> dle_messageId x = ie_messageId e \<and>
        dle_consumerGroup x = rt_consumerGroup deps \<and> dle_value x = val \<and>
        dle_attempts x = maxAttempts (rt_retrySchedule deps))"

definition sound_ports :: "('b, 'p, 'd) runtime_deps \<Rightarrow> bool" where
  "sound_ports deps \<longleftrightarrow> memory_ports deps \<and> transactional deps \<and> own_errors deps"

text \<open>One round: the message is at rest, or a retry of it has been published.\<close>

lemma round_cases:
  assumes ports: "sound_ports deps" and dec: "decode_message deps (msg_headers m) (msg_value m) = Inr e"
    and k: "attempt_of m = int k" "k \<le> length (rt_retrySchedule deps)"
  obtains (rests) w' where "handleMessage deps m w = (Inr (), w')" "at_rest deps e (msg_value m) w w'"
      "\<forall>r\<in>set (drop (length (rw_published w)) (rw_published w')). msg_topic r = runtime_topic deps @ ''.dlq''"
  | (again) w' where "handleMessage deps m w = (Inr (), w')" "k < length (rt_retrySchedule deps)"
      "rw_published w' = rw_published w @ [retry_of deps m (rw_now (waited m w)) (rt_retrySchedule deps ! k)]"
      "rw_now w' = rw_now (waited m w)" "rw_deadLetters w' = rw_deadLetters w"
proof -
  let ?has = "\<lambda>w. inbox_has (rt_consumerGroup deps) (ie_messageId e) (rw_inbox w)"
  have same: "rw_published (waited m w) = rw_published w" "rw_deadLetters (waited m w) = rw_deadLetters w"
    by (simp_all add: waited_def split: option.split)
  obtain c w1 where c: "alreadyEffected deps e (waited m w) = (Inr c, w1)" using alreadyEffected_returns by blast
  note unfold = handle_unfold [OF dec c]
  show thesis
  proof (cases c)
    case True
    have "?has w1" "rw_published w1 = rw_published w" "rw_deadLetters w1 = rw_deadLetters w"
      using c True same by (auto simp: alreadyEffected_def then_do_apply note_metric_def split: if_splits)
    then show thesis using True by (intro rests [of w1]) (simp_all add: unfold at_rest_def)
  next
    case False
    with c have w1: "w1 = waited m w" "\<not> ?has w1"
      by (auto simp: alreadyEffected_def then_do_apply note_metric_def split: if_splits)
    obtain r w2 where eff: "effect deps e (rw_now (waited m w)) w1 = (r, w2)" by fastforce
    have ch: "rw_now w2 = rw_now (waited m w)" "rw_published w2 = rw_published w" "rw_deadLetters w2 = rw_deadLetters w"
      using effect_channels [of w1 deps e "rw_now (waited m w)"] eff w1(1) same by (simp_all add: same_channels_def)
    show thesis
    proof (cases r)
      case (Inr u)
      have "?has w2" by (rule effect_marks) (use ports eff Inr in \<open>simp_all add: sound_ports_def\<close>)
      then show thesis using Inr eff False ch by (intro rests [of w2]) (simp_all add: unfold at_rest_def)
    next
      case (Inl err)
      have out: "handleMessage deps m w = failed_round deps m e err w2" using Inl eff False by (simp add: unfold)
      have not: "\<not> ?has w2" using effect_error_inbox [of deps e _ w1 err w2] eff Inl ports w1(2) by (simp add: sound_ports_def)
      have mem: "memory_ports deps" using ports by (simp add: sound_ports_def)
      show thesis
      proof (cases "k < length (rt_retrySchedule deps)")
        case True
        then have "attempt_of m < maxAttempts (rt_retrySchedule deps)" using k by (simp add: maxAttempts_def)
        from failed_round_result(1) [OF mem this, of e err w2] obtain w' where
          "failed_round deps m e err w2 = (Inr (), w')" "rw_now w' = rw_now w2" "rw_deadLetters w' = rw_deadLetters w2"
          "rw_published w' = rw_published w2 @ [retry_of deps m (rw_now w2) (rt_retrySchedule deps ! nat (attempt_of m))]" by blast
        then show thesis using True out ch k by (intro again [of w']) simp_all
      next
        case False
        then have n: "attempt_of m = maxAttempts (rt_retrySchedule deps)" using k by (simp add: maxAttempts_def)
        then have "\<not> attempt_of m < maxAttempts (rt_retrySchedule deps)" by simp
        from failed_round_result(2) [OF mem this, of e err w2] obtain w' d x where
          "failed_round deps m e err w2 = (Inr (), w')" "rw_inbox w' = rw_inbox w2"
          "rw_published w' = rw_published w2 @ [d]" "msg_topic d = runtime_topic deps @ ''.dlq''"
          "rw_deadLetters w' = rw_deadLetters w2 @ [x]" "dle_messageId x = ie_messageId e"
          "dle_consumerGroup x = rt_consumerGroup deps" "dle_value x = msg_value m" "dle_attempts x = attempt_of m" by blast
        then show thesis using out ch not n by (intro rests [of w']) (simp_all add: at_rest_def)
      qed
    qed
  qed
qed

lemma at_rest_shift:
  "at_rest deps e val w1 w' \<Longrightarrow> rw_deadLetters w = rw_deadLetters w1 \<Longrightarrow> at_rest deps e val w w'"
  by (simp add: at_rest_def)

lemma redeliver_rests:
  assumes "sound_ports deps" "decode_message deps (msg_headers m) (msg_value m) = Inr e"
    and "attempt_of m = int k" "k + j = length (rt_retrySchedule deps)"
    and "int (length (rt_retrySchedule deps)) < safe_limit" "\<forall>d\<in>set (rt_retrySchedule deps). 0 \<le> d"
    and "0 \<le> rw_now (waited m w)" "rw_now (waited m w) + sum_list (drop k (rt_retrySchedule deps)) < safe_limit"
  shows "at_rest deps e (msg_value m) w (redeliver (Suc j) deps m w)"
  using assms
proof (induction j arbitrary: k m w)
  case 0
  let ?retry = "runtime_topic deps @ ''.retry''"
  from 0 have k: "k \<le> length (rt_retrySchedule deps)" "\<not> k < length (rt_retrySchedule deps)" by simp_all
  show ?case
  proof (cases rule: round_cases [OF 0(1,2,3) k(1), where w = w, case_names rests again])
    case (rests w')
    then show ?thesis by (auto split: list.split)
  next
    case (again w')
    with k(2) show ?thesis by simp
  qed
next
  case (Suc j)
  from Suc.prems(4) have k: "k \<le> length (rt_retrySchedule deps)" by simp
  show ?case
  proof (cases rule: round_cases [OF Suc.prems(1,2,3) k, where w = w, case_names rests again])
    case (rests w')
    then show ?thesis by (auto simp del: redeliver.simps(2) simp: redeliver.simps(2) [of "Suc j"] split: list.split)
  next
    case (again w')
    let ?now = "rw_now (waited m w)" and ?delay = "rt_retrySchedule deps ! k"
    let ?r = "retry_of deps m ?now ?delay"
    have rest: "drop k (rt_retrySchedule deps) = ?delay # drop (Suc k) (rt_retrySchedule deps)"
      using again(2) by (simp add: Cons_nth_drop_Suc)
    have delay: "0 \<le> ?delay" using Suc.prems(6) again(2) by simp
    have later: "0 \<le> sum_list (drop (Suc k) (rt_retrySchedule deps))"
      using Suc.prems(6) by (intro sum_list_nonneg) (auto dest: in_set_dropD)
    have due: "0 \<le> ?now + ?delay" "?now + ?delay < safe_limit"
      using Suc.prems(7,8) rest delay later by simp_all
    have att: "0 \<le> attempt_of m" "attempt_of m + 1 < safe_limit"
      using Suc.prems(3,4,5) by simp_all
    note read = retry_attempt [OF att due, of deps]
    have "attempt_of ?r = int (Suc k)" using read Suc.prems(3) by (simp add: attempt_of_def)
    moreover have clock: "rw_now (waited ?r w') = ?now + ?delay"
      using read again(4) delay by (simp add: waited_def)
    moreover have "decode_message deps (msg_headers ?r) (msg_value ?r) = Inr e"
      using Suc.prems(2) by (simp add: retry_decodes)
    ultimately have "at_rest deps e (msg_value ?r) w' (redeliver (Suc j) deps ?r w')"
      using Suc.prems rest due by (intro Suc.IH [of _ "Suc k"]) simp_all
    moreover have "redeliver (Suc (Suc j)) deps m w = redeliver (Suc j) deps ?r w'"
      using again(1,3) by (simp del: redeliver.simps(2) add: redeliver.simps(2) [of "Suc j"] retry_of_def)
    ultimately show ?thesis using again(5) by (simp del: redeliver.simps add: at_rest_shift retry_of_def)
  qed
qed

text \<open>
  C27: A fresh message that its group can decode comes to rest, where the group alone reads the retry topic, the ports
  other than the handler do not fail, and clock and delays stay below \<open>safe_limit\<close>. Whatever its handler does, one more round than the schedule has
  delays suffices: then either the inbox has the group's marker for the message and nothing was dead-lettered, or
  there is no marker and exactly one dead letter was written, for this group, with the message's bytes and the full
  number of attempts.
\<close>

theorem message_rests:
  assumes "sound_ports deps" "decode_message deps (msg_headers m) (msg_value m) = Inr e" "decodeRetryHeaders (msg_headers m) = None"
    and "int (length (rt_retrySchedule deps)) < safe_limit" "\<forall>d\<in>set (rt_retrySchedule deps). 0 \<le> d"
    and "0 \<le> rw_now w" "rw_now w + sum_list (rt_retrySchedule deps) < safe_limit"
  shows "at_rest deps e (msg_value m) w (redeliver (length (rt_retrySchedule deps) + 1) deps m w)"
proof -
  have "waited m w = w" "attempt_of m = int 0" using assms(3) by (simp_all add: waited_def attempt_of_def)
  then show ?thesis
    using redeliver_rests [OF assms(1,2), of 0 "length (rt_retrySchedule deps)" w] assms by simp
qed

text \<open>A poison message: its handler always fails. It is dead-lettered after two retries.\<close>

definition failing_consumer :: "(string, unit, int) runtime_deps" where
  "failing_consumer = (counting_consumer ''g1'')\<lparr>rt_handleAtomic := Some (\<lambda>e d. (Inl (OtherError ''boom'' []), d + 1)),
     rt_retrySchedule := [5000, 30000]\<rparr>"

lemma failing_consumer_sound: "sound_ports failing_consumer"
  by (auto simp: sound_ports_def memory_ports_def transactional_def own_errors_def failing_consumer_def counting_consumer_def
      intro: database.unit_of_work_axioms)

lemma message_rests_witness:
  "at_rest failing_consumer (sample_event ''m1'') ''m1'' sample_start (redeliver 3 failing_consumer sample_message sample_start)"
proof -
  have "at_rest failing_consumer (sample_event ''m1'') (msg_value sample_message) sample_start
      (redeliver (length (rt_retrySchedule failing_consumer) + 1) failing_consumer sample_message sample_start)"
    by (rule message_rests [OF failing_consumer_sound])
      (simp_all add: failing_consumer_def counting_consumer_def sample_message_def decode_message_def sample_start_def
        safe_limit_def decodeRetryHeaders_def js_Number_def Let_def)
  then show "at_rest failing_consumer (sample_event ''m1'') ''m1'' sample_start (redeliver 3 failing_consumer sample_message sample_start)"
    by (simp add: failing_consumer_def sample_message_def eval_nat_numeral del: redeliver.simps)
qed

end
