(* ===== verification/EndToEnd.thy ===== *)
theory EndToEnd
  imports DeliveryPromises RetryJourney
begin

section \<open>From the outbox to the consumers\<close>

text \<open>
  The relay of the theory \<open>Delivery\<close> with the runtimes of the theory \<open>ConsumerRuntime\<close> as its consumers: what the
  relay's log says is so in the database, and with atomic handlers every effect happens once.
\<close>

subsection \<open>Consumers that do what they report\<close>

text \<open>
  A consumer that returns has left something in the world that stays there (\<open>holds\<close>); what happens to the world
  only adds to it (\<open>grows\<close>). \<open>fits\<close> relates an identifier to the message it belongs to.
\<close>

fun succeeded :: "delivery_event \<Rightarrow> bool" where
  "succeeded (Tried g i k ok) = ok"
| "succeeded (Buried g i k ok) = ok"

definition row_message :: "'b queue_row \<Rightarrow> string \<times> 'b incoming_message" where
  "row_message r = (row_id r, message_of (qr_entry r))"

lemma row_message_moves [simp]:
  "row_message (deliver_row ids t r) = row_message r" "row_message (defer_row i n t r) = row_message r"
  by (simp_all add: row_message_def message_of_def deliver_row_def defer_row_def row_id_def)

lemma row_messages_moves [simp]:
  "map row_message (map (deliver_row ids t) rs) = map row_message rs"
  "map row_message (map (defer_row i n t) rs) = map row_message rs"
  by simp_all

locale honest_relay = row_relay deps rows
  for deps :: "('b, 'q, 'w) relay_deps" and rows +
  fixes holds :: "delivery_event \<Rightarrow> 'w \<Rightarrow> bool"
    and fits :: "string \<Rightarrow> 'b incoming_message \<Rightarrow> bool"
    and grows :: "'w \<Rightarrow> 'w \<Rightarrow> bool"
  assumes grows_refl: "grows w w"
    and grows_trans: "grows u v \<Longrightarrow> grows v w \<Longrightarrow> grows u w"
    and grown: "holds ev w \<Longrightarrow> grows w w' \<Longrightarrow> holds ev w'"
    and delivers: "c \<in> set (rd_consumers deps) \<Longrightarrow> fits i m \<Longrightarrow> dc_deliver c m w = (r, w') \<Longrightarrow>
      grows w w' \<and> (isOk r \<longrightarrow> holds (Tried (dc_consumerGroup c) i k True) w')"
    and buries: "c \<in> set (rd_consumers deps) \<Longrightarrow> fits (ddl_messageId x) (ddl_message x) \<Longrightarrow> dc_deadLetter c x w = (r, w') \<Longrightarrow>
      grows w w' \<and> (isOk r \<longrightarrow> holds (Buried (dc_consumerGroup c) (ddl_messageId x) k True) w')"
begin

definition truthful :: "('q, 'w) relay_state \<Rightarrow> bool" where
  "truthful s \<longleftrightarrow> (\<forall>ev\<in>set (rl_log s). succeeded ev \<longrightarrow> holds ev (rl_world s))"

definition advances :: "('q, 'w) relay_state \<Rightarrow> ('q, 'w) relay_state \<Rightarrow> bool" where
  "advances s s' \<longleftrightarrow> grows (rl_world s) (rl_world s') \<and> (truthful s \<longrightarrow> truthful s')"

lemma advances_trans: "advances s t \<Longrightarrow> advances t u \<Longrightarrow> advances s u"
  unfolding advances_def using grows_trans by blast

lemma advances_same: "rl_world s' = rl_world s \<Longrightarrow> rl_log s' = rl_log s \<Longrightarrow> advances s s'"
  by (simp add: advances_def truthful_def grows_refl)

lemma advances_event:
  assumes "grows (rl_world s) w" "succeeded ev \<Longrightarrow> holds ev w"
  shows "advances s (s\<lparr>rl_world := w, rl_log := rl_log s @ [ev]\<rparr>)"
  using assms grown by (auto simp: advances_def truthful_def)

lemma try_advances:
  assumes "set cs \<subseteq> set (rd_consumers deps)" "fits (oe_id e) (message_of e)" "try_consumers e k cs s = (failures, s')"
  shows "advances s s' \<and> fst ` set failures \<subseteq> set cs"
  using assms(1,3)
proof (induction cs arbitrary: s failures s')
  case (Cons c cs)
  obtain r w where r: "dc_deliver c (message_of e) (rl_world s) = (r, w)" by fastforce
  let ?ev = "Tried (dc_consumerGroup c) (oe_id e) k (isOk r)"
  let ?s = "s\<lparr>rl_world := w, rl_log := rl_log s @ [?ev]\<rparr>"
  obtain fs s2 where rest: "try_consumers e k cs ?s = (fs, s2)" by fastforce
  have c: "c \<in> set (rd_consumers deps)" "set cs \<subseteq> set (rd_consumers deps)" using Cons.prems(1) by simp_all
  have "grows (rl_world s) w" "isOk r \<Longrightarrow> holds (Tried (dc_consumerGroup c) (oe_id e) k True) w"
    using delivers [OF c(1) assms(2) r] by blast+
  then have "advances s ?s" by (intro advances_event) simp_all
  moreover have "advances ?s s2" "fst ` set fs \<subseteq> set cs" using Cons.IH [OF c(2) rest] by simp_all
  moreover have "s' = s2" "set failures \<subseteq> set fs \<union> {c} \<times> UNIV"
    using Cons.prems(2) rest r by (cases r; auto)+
  ultimately show ?case using advances_trans by force
qed (simp add: advances_same)

lemma bury_advances:
  assumes "fst ` set failures \<subseteq> set (rd_consumers deps)" "fits (oe_id e) (message_of e)" "dead_letter_all e k failures s = (r, s')"
  shows "advances s s'"
  using assms(1,3)
proof (induction failures arbitrary: s)
  case (Cons f failures)
  obtain c x where f: "f = (c, x)" by fastforce
  let ?x = "\<lparr>ddl_messageId = oe_id e, ddl_message = message_of e, ddl_attempts = k, ddl_error = x\<rparr>"
  obtain r1 w where r1: "dc_deadLetter c ?x (rl_world s) = (r1, w)" by fastforce
  let ?s = "s\<lparr>rl_world := w, rl_log := rl_log s @ [Buried (dc_consumerGroup c) (oe_id e) k (isOk r1)]\<rparr>"
  have c: "c \<in> set (rd_consumers deps)" "fst ` set failures \<subseteq> set (rd_consumers deps)" using Cons.prems(1) f by auto
  have "grows (rl_world s) w" "isOk r1 \<Longrightarrow> holds (Buried (dc_consumerGroup c) (oe_id e) k True) w"
    using buries [OF c(1) _ r1, of k] assms(2) by simp_all
  then have step: "advances s ?s" by (intro advances_event) simp_all
  show ?case
  proof (cases r1)
    case (Inl y)
    with Cons.prems(2) f r1 step show ?thesis by (auto simp: Let_def)
  next
    case (Inr u)
    with Cons.prems(2) f r1 have "dead_letter_all e k failures ?s = (r, s')" by (simp add: Let_def)
    from advances_trans [OF step Cons.IH [OF c(2) this]] show ?thesis .
  qed
qed (simp add: advances_same)

lemma settle_advances: "advances s (settle deps ids s)" "advances s (on_queue f s)"
  by (simp_all add: advances_same settle_def on_queue_def)

definition fitting :: "'b queue_row list \<Rightarrow> bool" where
  "fitting rs \<longleftrightarrow> (\<forall>r\<in>set rs. fits (row_id r) (message_of (qr_entry r)))"

lemma fitting_messages: "fitting rs \<longleftrightarrow> (\<forall>(i, m)\<in>set (map row_message rs). fits i m)"
  by (auto simp: fitting_def row_message_def)

lemma row_advances:
  assumes "set cs \<subseteq> set (rd_consumers deps)" "fits (oe_id (due_entry due)) (message_of (due_entry due))"
    and "deliverRow deps due cs s = (res, s')"
  shows "advances s s'"
proof -
  let ?e = "due_entry due" and ?k = "due_attempts due + 1"
  obtain failures s1 where t: "try_consumers ?e ?k cs s = (failures, s1)" by fastforce
  have a: "advances s s1" and fs: "fst ` set failures \<subseteq> set (rd_consumers deps)"
    using try_advances [OF assms(1,2) t] assms(1) by auto
  obtain r s2 where b: "dead_letter_all ?e ?k failures s1 = (r, s2)" by fastforce
  have ab: "advances s s2" by (rule advances_trans [OF a bury_advances [OF fs assms(2) b]])
  have "s' \<in> {settle deps [oe_id ?e] s1, s2, settle deps [oe_id ?e] s2} \<or> (\<exists>f. s' = on_queue f s1)"
    using assms(3) t b by (auto simp: deliverRow_def Let_def split: if_splits option.splits sum.splits)
  then show ?thesis
    using a ab advances_trans [OF a settle_advances(1)] advances_trans [OF a settle_advances(2)]
      advances_trans [OF ab settle_advances(1)] by auto
qed

lemma row_messages_kept:
  assumes "deliverRow deps due cs s = (res, s')"
  shows "map row_message (state_rows s') = map row_message (state_rows s)"
proof -
  obtain new where "round_spec (due_entry due) (due_attempts due + 1) cs (state_rows s) res (state_rows s') new"
    using round_outcome [OF assms] by blast
  then have "state_rows s' = state_rows s \<or> (\<exists>i t. state_rows s' = map (deliver_row i t) (state_rows s)) \<or>
      (\<exists>i n t. state_rows s' = map (defer_row i n t) (state_rows s))"
    unfolding round_spec_def
    by (cases res; simp del: map_eq_conv split: row_outcome.splits; blast)
  then show ?thesis by (elim disjE exE) (simp_all only: row_messages_moves)
qed

definition due_fits :: "'b due_entry \<Rightarrow> bool" where
  "due_fits due \<longleftrightarrow> fits (oe_id (due_entry due)) (message_of (due_entry due))"

lemma batch_advances:
  assumes "list_all due_fits batch" "deliver_batch deps p batch s = (res, s')"
  shows "advances s s' \<and> map row_message (state_rows s') = map row_message (state_rows s)"
  using assms
proof (induction batch arbitrary: p s)
  case (Cons due rest)
  show ?case
  proof (cases "map_of (consumersByTopic (rd_consumers deps)) (oe_topic (due_entry due))")
    case None
    with Cons show ?thesis by simp
  next
    case (Some cs)
    then have cs: "set cs \<subseteq> set (rd_consumers deps)"
      by (auto simp: consumersByTopic_lookup subscribers_def split: if_splits)
    obtain r s1 where r: "deliverRow deps due cs s = (r, s1)" by fastforce
    have step: "advances s s1" using row_advances [OF cs _ r] Cons.prems(1) by (simp add: due_fits_def)
    note kept = row_messages_kept [OF r]
    show ?thesis
    proof (cases r)
      case (Inl x)
      with Cons.prems(2) Some r step kept show ?thesis by simp
    next
      case (Inr outcome)
      with Cons.prems(2) Some r have "deliver_batch deps (count_outcome outcome p) rest s1 = (res, s')" by simp
      from Cons.IH [OF _ this] Cons.prems(1) step kept show ?thesis by (auto intro: advances_trans)
    qed
  qed
qed (simp add: advances_same)

lemma drain_advances:
  assumes "fitting (state_rows s)"
  shows "advances s (snd (delivery_drainOnce deps s)) \<and>
    map row_message (state_rows (snd (delivery_drainOnce deps s))) = map row_message (state_rows s)"
proof -
  define batch where "batch = op_fetchDue (rd_queue deps) (case rd_batchSize deps of Some n \<Rightarrow> n | None \<Rightarrow> 100)
                    (rd_clock deps (rl_world s)) (rl_queue s)"
  define unrouted where "unrouted = filter (\<lambda>due. map_of (consumersByTopic (rd_consumers deps)) (oe_topic (due_entry due)) = None) batch"
  define s1 where "s1 = (if 0 < length unrouted then settle deps (map (oe_id \<circ> due_entry) unrouted) s else s)"
  have batch: "list_all due_fits batch"
    using assms set_slice_to by (force simp: batch_def fetched due_fits_def list_all_iff fitting_def due_of_def row_id_def)
  have s1: "advances s s1 \<and> map row_message (state_rows s1) = map row_message (state_rows s)"
    by (simp add: s1_def settle_advances advances_same)
  have "delivery_drainOnce deps s =
      deliver_batch deps \<lparr>re_delivered = 0, re_unrouted = length unrouted, re_deferred = 0, re_deadLettered = 0\<rparr> batch s1"
    by (simp only: delivery_drainOnce_def Let_def s1_def unrouted_def batch_def)
  moreover obtain res s' where
    b: "deliver_batch deps \<lparr>re_delivered = 0, re_unrouted = length unrouted, re_deferred = 0, re_deadLettered = 0\<rparr> batch s1 = (res, s')"
    by fastforce
  moreover note batch_advances [OF batch b]
  ultimately show ?thesis using s1 by (auto intro: advances_trans)
qed

fun fair_command :: "('b, 'w) relay_command \<Rightarrow> bool" where
  "fair_command (Enqueue es) = (\<forall>e\<in>set es. fits (oe_id e) (message_of e))"
| "fair_command Pass = True"
| "fair_command (Meanwhile f) = (\<forall>w. grows w (f w))"

lemma step_advances:
  assumes "fitting (state_rows s)" "fair_command c"
  shows "advances s (snd (delivery_step deps c s)) \<and> fitting (state_rows (snd (delivery_step deps c s)))"
proof (cases c)
  case (Enqueue es)
  with assms show ?thesis
    by (auto simp: settle_advances on_queue_def enqueued fitting_def fresh_row_def row_id_def advances_same)
next
  case Pass
  with drain_advances [OF assms(1)] assms(1) show ?thesis by (simp add: fitting_messages case_prod_unfold)
next
  case (Meanwhile f)
  with assms show ?thesis using grown by (auto simp: advances_def truthful_def)
qed

lemma runs_advance:
  assumes "fitting (state_rows s)" "\<forall>c\<in>set commands. fair_command c"
  shows "advances s (runs (delivery_step deps) commands s)"
  using assms
proof (induction commands arbitrary: s)
  case (Cons c cs)
  then have "advances s (snd (delivery_step deps c s))" "fitting (state_rows (snd (delivery_step deps c s)))"
    using step_advances by simp_all
  with Cons show ?case by (auto intro: advances_trans)
qed (simp add: advances_same)

end


subsection \<open>The runtimes as consumers of the relay\<close>

text \<open>\<^verbatim>\<open>KafkaConsumerRuntime implements DirectConsumer\<close>. The relay hands the error on as it got it.\<close>

definition as_direct :: "('b, 'p, 'd) runtime_deps \<Rightarrow> ('b, ('b, 'd) runtime_world) direct_consumer" where
  "as_direct deps =
     \<lparr>dc_topic = runtime_topic deps, dc_consumerGroup = rt_consumerGroup deps,
      dc_deliver = (\<lambda>m w. case runtime_deliver deps m w of (r, w') \<Rightarrow> (mapError runtime_error_message r, w')),
      dc_deadLetter = (\<lambda>x w. case runtime_deadLetter deps (ddl_message x) (ddl_messageId x) (ddl_attempts x)
          (OtherError (ddl_error x) []) w of (r, w') \<Rightarrow> (mapError runtime_error_message r, w'))\<rparr>"

definition runtime_relay ::
  "('b, 'p, 'd) runtime_deps list \<Rightarrow> int list \<Rightarrow> int option \<Rightarrow> ('b, 'b queue_row list, ('b, 'd) runtime_world) relay_deps" where
  "runtime_relay fleet delays batchSize = memory_relay (map as_direct fleet) rw_now delays batchSize"

text \<open>What an entry of the relay's log stands for in the database.\<close>

definition dead_lettered :: "string \<Rightarrow> string \<Rightarrow> ('b, 'd) runtime_world \<Rightarrow> bool" where
  "dead_lettered grp mid w \<longleftrightarrow> (\<exists>x\<in>set (rw_deadLetters w). dle_consumerGroup x = grp \<and> dle_messageId x = mid)"

fun backed :: "delivery_event \<Rightarrow> ('b, 'd) runtime_world \<Rightarrow> bool" where
  "backed (Tried g i k ok) w = inbox_has g i (rw_inbox w)"
| "backed (Buried g i k ok) w = dead_lettered g i w"

text \<open>The world only gains markers and dead letters, and keeps its effects exactly once.\<close>

definition gains :: "('b, 'p, 'd) runtime_deps list \<Rightarrow> ('b, 'd) runtime_world \<Rightarrow> ('b, 'd) runtime_world \<Rightarrow> bool" where
  "gains fleet w w' \<longleftrightarrow> (\<forall>g i. inbox_has g i (rw_inbox w) \<longrightarrow> inbox_has g i (rw_inbox w')) \<and>
     set (rw_deadLetters w) \<subseteq> set (rw_deadLetters w') \<and> (\<forall>d. exactly_once fleet d w \<longrightarrow> exactly_once fleet d w')"

text \<open>A message decodes to the event of its identifier, if it decodes.\<close>

definition carries :: "('b, 'p, 'd) runtime_deps list \<Rightarrow> string \<Rightarrow> 'b incoming_message \<Rightarrow> bool" where
  "carries fleet i m \<longleftrightarrow> (\<forall>deps\<in>set fleet. \<forall>e. decode_message deps (msg_headers m) (msg_value m) = Inr e \<longrightarrow> ie_messageId e = i)"

text \<open>Consumers with atomic handlers over the database, and a dead-letter table that takes what it is given.\<close>

definition honest_fleet :: "('b, 'p, 'd) runtime_deps list \<Rightarrow> bool" where
  "honest_fleet fleet \<longleftrightarrow> atomic_fleet fleet \<and> (\<forall>deps\<in>set fleet. own_errors deps \<and> rt_addDeadLetter deps = memory_addDeadLetter)"

lemma fleet_transactional: "atomic_fleet fleet \<Longrightarrow> deps \<in> set fleet \<Longrightarrow> transactional deps"
  by (auto simp: atomic_fleet_def transactional_def)

lemma gains_refl: "gains fleet w w"
  by (simp add: gains_def)

lemma gains_trans: "gains fleet u v \<Longrightarrow> gains fleet v w \<Longrightarrow> gains fleet u w"
  unfolding gains_def by blast

lemma backed_gains: "backed ev w \<Longrightarrow> gains fleet w w' \<Longrightarrow> backed ev w'"
  by (cases ev) (auto simp: gains_def dead_lettered_def)

lemma gains_store:
  "same_store w w' \<Longrightarrow> set (rw_deadLetters w) \<subseteq> set (rw_deadLetters w') \<Longrightarrow> gains fleet w w'"
  using exactly_once_store [of w w' fleet] by (auto simp: gains_def same_store_def)

lemma atomic_inbox_grows:
  assumes "atomic_fleet fleet" "deps \<in> set fleet" "effect deps e started w = (r, w')" "inbox_has g i (rw_inbox w)"
  shows "inbox_has g i (rw_inbox w')"
proof -
  obtain handler run where hr: "rt_handleAtomic deps = Some handler" "rt_unitOfWork deps = Some run" "unit_of_work run"
    using assms(1,2) by (force simp: atomic_fleet_def)
  obtain r1 w1 where h: "runtime_handleAtomic deps handler run e w = (r1, w1)" by fastforce
  have "rw_inbox w' = rw_inbox w1"
    using assms(3) hr h by (auto simp: effect_def bind_action_apply note_metric_def note_processed_def split: sum.splits if_splits)
  moreover have "inbox_has g i (rw_inbox w1)"
    using unit_of_work.atomic_delivery [OF hr(3) h] assms(4) by (auto simp: inbox_has_append)
  ultimately show ?thesis by simp
qed

lemma deliver_once:
  assumes "atomic_fleet fleet" "deps \<in> set fleet" "exactly_once fleet d w"
  shows "exactly_once fleet d (snd (runtime_deliver deps m w))"
proof -
  obtain i where i: "i < length fleet" "deps = fleet ! i" using assms(2) by (auto simp: in_set_conv_nth)
  have "fleet_steps fleet (fleet_start w) ((fleet_start w)\<lparr>fl_world := snd (runtime_deliver deps m w)\<rparr>)"
    using deliver_moves [OF i(1), of w m] unfolding i(2) world_moves_def
    by (rule allE [of _ "fleet_start w"]) (simp add: fleet_start_def)
  from fleet_start_once [OF this assms(1,3)] show ?thesis by simp
qed

lemma deliver_backed:
  assumes "honest_fleet fleet" "deps \<in> set fleet" "carries fleet i m" "runtime_deliver deps m w = (r, w')"
  shows "gains fleet w w' \<and> (isOk r \<longrightarrow> inbox_has (rt_consumerGroup deps) i (rw_inbox w'))"
proof -
  have fleet: "atomic_fleet fleet" "own_errors deps" using assms(1,2) by (simp_all add: honest_fleet_def)
  note trans = fleet_transactional [OF fleet(1) assms(2)]
  have once: "\<forall>d. exactly_once fleet d w \<longrightarrow> exactly_once fleet d w'"
    using deliver_once [OF fleet(1) assms(2), of _ w m] assms(4) by simp
  show ?thesis
  proof (cases "decode_message deps (msg_headers m) (msg_value m)")
    case (Inl er)
    with assms(4) have "r = Inl er" "rw_inbox w' = rw_inbox w" "rw_deadLetters w' = rw_deadLetters w"
      by (auto simp: deliver_undecodable metric_then_throw)
    with once show ?thesis by (simp add: gains_def isOk_def)
  next
    case (Inr e)
    with assms(2,3) have e: "ie_messageId e = i" by (auto simp: carries_def)
    obtain c w1 where c: "alreadyEffected deps e w = (Inr c, w1)" using alreadyEffected_returns by blast
    note unfold = deliver_unfold [OF Inr c]
    show ?thesis
    proof (cases c)
      case True
      with c e have "inbox_has (rt_consumerGroup deps) i (rw_inbox w)" "rw_inbox w1 = rw_inbox w" "rw_deadLetters w1 = rw_deadLetters w"
        by (auto simp: alreadyEffected_def then_do_apply note_metric_def split: if_splits)
      with True once assms(4) show ?thesis by (simp add: unfold gains_def)
    next
      case False
      with c have w1: "w1 = w" by (simp add: alreadyEffected_no_effect)
      obtain r2 w2 where eff: "effect deps e (rw_now w) w = (r2, w2)" by fastforce
      have dead: "rw_deadLetters w2 = rw_deadLetters w"
        using effect_channels [of w deps e "rw_now w"] eff by (simp add: same_channels_def)
      have box: "\<forall>g i. inbox_has g i (rw_inbox w) \<longrightarrow> inbox_has g i (rw_inbox w2)"
        using atomic_inbox_grows [OF fleet(1) assms(2) eff] by blast
      show ?thesis
      proof (cases r2)
        case (Inl er)
        with False eff w1 assms(4) have "r = Inl er" "rw_inbox w' = rw_inbox w2" "rw_deadLetters w' = rw_deadLetters w2"
          by (auto simp: unfold metric_then_throw)
        with box dead once show ?thesis by (simp add: gains_def isOk_def)
      next
        case (Inr u)
        with False eff w1 assms(4) have "w' = w2" by (simp add: unfold)
        moreover have "inbox_has (rt_consumerGroup deps) i (rw_inbox w2)"
          using effect_marks [OF trans fleet(2)] eff Inr e by blast
        ultimately show ?thesis using box dead once by (simp add: gains_def)
      qed
    qed
  qed
qed

lemma bury_backed:
  assumes "honest_fleet fleet" "deps \<in> set fleet" "runtime_deadLetter deps m i n err w = (r, w')"
  shows "gains fleet w w' \<and> (isOk r \<longrightarrow> dead_lettered (rt_consumerGroup deps) i w')"
proof -
  have "rt_addDeadLetter deps = memory_addDeadLetter" using assms(1,2) by (simp add: honest_fleet_def)
  with assms(3) have "same_store w w'" "\<exists>x. rw_deadLetters w' = rw_deadLetters w @ [x] \<and>
      dle_consumerGroup x = rt_consumerGroup deps \<and> dle_messageId x = i"
    by (auto simp: runtime_deadLetter_def then_do_apply dead_letter_record_def dead_letter_row_def memory_addDeadLetter_def
        note_metric_def same_store_def)
  then show ?thesis by (auto simp: dead_lettered_def intro!: gains_store)
qed

definition understood :: "('b, 'p, 'd) runtime_deps list \<Rightarrow> string \<Rightarrow> 'b incoming_message \<Rightarrow> bool" where
  "understood fleet i m \<longleftrightarrow> honest_fleet fleet \<and> carries fleet i m"

interpretation runtimes: honest_relay "runtime_relay fleet delays batchSize" "\<lambda>q. q" backed "understood fleet" "gains fleet"
  for fleet :: "('b, 'p, 'd) runtime_deps list" and delays batchSize
  unfolding runtime_relay_def
proof unfold_locales
  fix c :: "('b, ('b, 'd) runtime_world) direct_consumer" and i m w r w' k
  assume c: "c \<in> set (rd_consumers (memory_relay (map as_direct fleet) rw_now delays batchSize))"
    and m: "understood fleet i m" and r: "dc_deliver c m w = (r, w')"
  then obtain deps where deps: "deps \<in> set fleet" "c = as_direct deps" by auto
  with r obtain r2 where "runtime_deliver deps m w = (r2, w')" "r = mapError runtime_error_message r2"
    by (auto simp: as_direct_def split: prod.splits)
  with deliver_backed [OF _ deps(1)] deps(2) m
  show "gains fleet w w' \<and> (isOk r \<longrightarrow> backed (Tried (dc_consumerGroup c) i k True) w')"
    unfolding understood_def by (cases r2) (fastforce simp: as_direct_def isOk_def mapError_def)+
next
  fix c :: "('b, ('b, 'd) runtime_world) direct_consumer" and x w r w' k
  assume c: "c \<in> set (rd_consumers (memory_relay (map as_direct fleet) rw_now delays batchSize))"
    and x: "understood fleet (ddl_messageId x) (ddl_message x)" and r: "dc_deadLetter c x w = (r, w')"
  then obtain deps where deps: "deps \<in> set fleet" "c = as_direct deps" by auto
  with r obtain r2 where "runtime_deadLetter deps (ddl_message x) (ddl_messageId x) (ddl_attempts x) (OtherError (ddl_error x) []) w = (r2, w')"
      "r = mapError runtime_error_message r2"
    by (auto simp: as_direct_def split: prod.splits)
  moreover have "honest_fleet fleet" using x by (simp add: understood_def)
  ultimately show "gains fleet w w' \<and> (isOk r \<longrightarrow> backed (Buried (dc_consumerGroup c) (ddl_messageId x) k True) w')"
    using bury_backed [OF _ deps(1)] deps(2) by (cases r2) (auto simp: as_direct_def isOk_def mapError_def)
qed (auto simp: gains_refl intro: gains_trans backed_gains)

subsection \<open>No event is lost and none takes effect twice\<close>

text \<open>
  C23: The broker-less transport end to end, from the outbox table to the consumers' effects, for consumers that handle
  atomically (marker and effect in one transaction) and a dead-letter table that takes what it is given. Start with an
  empty inbox; let rows come under new ids, let messages that decode carry the id of their entry, and let nothing but such
  consumers touch the world in between. However often the relay runs and whichever handlers fail: an event enqueued is still pending, or every group that
  subscribes to its topic has it marked as effected in the inbox or has a dead letter for it; and the domain state is the
  one of effecting the marked events exactly once each, in the order of the markers.
\<close>

theorem events_reach_every_group:
  fixes fleet :: "('b, 'p, 'd) runtime_deps list"
  assumes "s = runs (delivery_step (runtime_relay fleet delays batchSize)) commands (idle_relay w)"
    and "admissible queue_admits (delivery_step (runtime_relay fleet delays batchSize)) (idle_relay w) commands"
    and "honest_fleet fleet" "rw_inbox w = []"
    and "\<forall>es e. Enqueue es \<in> set commands \<longrightarrow> e \<in> set es \<longrightarrow> carries fleet (oe_id e) (message_of e)"
    and "\<forall>f v. Meanwhile f \<in> set commands \<longrightarrow> gains fleet v (f v)"
    and "Enqueue es \<in> set commands" "e \<in> set es"
  shows "((\<exists>r\<in>set (rl_queue s). row_id r = oe_id e \<and> row_pending r) \<or>
      (\<forall>deps\<in>set fleet. runtime_topic deps = oe_topic e \<longrightarrow>
         inbox_has (rt_consumerGroup deps) (oe_id e) (rw_inbox (rl_world s)) \<or>
         dead_lettered (rt_consumerGroup deps) (oe_id e) (rl_world s))) \<and>
    exactly_once fleet (rw_domain w) (rl_world s)"
proof -
  have "runtimes.fair_command TYPE('p) fleet c" if "c \<in> set commands" for c
    by (cases c) (use that assms(3,5,6) in \<open>auto simp: understood_def\<close>)
  then have "runtimes.advances TYPE('p) fleet (idle_relay w) s"
    unfolding assms(1) by (intro runtimes.runs_advance) (simp_all add: runtimes.fitting_def idle_relay_def)
  then have all: "\<forall>ev\<in>set (rl_log s). succeeded ev \<longrightarrow> backed ev (rl_world s)" and "gains fleet w (rl_world s)"
    by (simp_all add: runtimes.advances_def runtimes.truthful_def idle_relay_def)
  then have once: "exactly_once fleet (rw_domain w) (rl_world s)"
    using empty_once [OF assms(4), of fleet] by (simp add: gains_def)
  obtain r where r: "r \<in> set (rl_queue s)" "row_id r = oe_id e" "row_topic r = oe_topic e"
    using memory.enqueued_stays [where consumers = "map as_direct fleet" and delays = delays and s = "idle_relay w" and
      clock = rw_now and batchSize = batchSize and commands = commands and es = es and e = e] assms
    by (auto simp: runtime_relay_def idle_kept row_keys_def)
  have "row_promise (map as_direct fleet) (int (length delays)) (rl_log s) r"
    using reached_kept [OF assms(1,2) [unfolded runtime_relay_def]] r(1) by (simp add: promises_def)
  then have "row_pending r \<or> (\<exists>k. \<forall>c\<in>set (subscribers (map as_direct fleet) (oe_topic e)).
        Tried (dc_consumerGroup c) (oe_id e) k True \<in> set (rl_log s) \<or> Buried (dc_consumerGroup c) (oe_id e) k True \<in> set (rl_log s))"
    using r unfolding row_promise_def by metis
  then have "row_pending r \<or> (\<forall>deps\<in>set fleet. runtime_topic deps = oe_topic e \<longrightarrow>
      inbox_has (rt_consumerGroup deps) (oe_id e) (rw_inbox (rl_world s)) \<or> dead_lettered (rt_consumerGroup deps) (oe_id e) (rl_world s))"
    using all by (fastforce simp: subscribers_def as_direct_def)
  with r once show ?thesis by blast
qed

definition sample_outbox_entry :: "string \<Rightarrow> string outbox_entry" where
  "sample_outbox_entry i =
     \<lparr>oe_id = i, oe_topic = ''a.b.c.v1'', oe_key = ''k'', oe_contentType = '''', oe_payload = i,
      oe_headers = \<lparr>h_messageId = i, h_type = ''a.b.c'', h_eventVersion = ''1'', h_contentType = '''', h_correlationId = ''x'',
        h_causationId = ''x'', h_tenantId = ''t'', h_producer = None\<rparr>,
      oe_status = Pending, oe_createdAt = 0, oe_publishedAt = None\<rparr>"

definition both_groups :: "(string queue_row list, (string, int) runtime_world) relay_state" where
  "both_groups = runs (delivery_step (runtime_relay sample_fleet [50] None))
     [Enqueue [sample_outbox_entry ''m1''], Pass, Pass] (idle_relay sample_start)"

lemma sample_fleet_honest: "honest_fleet sample_fleet"
  by (simp add: honest_fleet_def sample_fleet_atomic) (simp add: sample_fleet_def counting_consumer_def own_errors_def)

lemma sample_entry_carried: "carries sample_fleet (oe_id (sample_outbox_entry i)) (message_of (sample_outbox_entry i))"
  by (simp add: carries_def sample_fleet_def counting_consumer_def decode_message_def sample_event_def message_of_def sample_outbox_entry_def)

lemma sample_outbox_parts:
  "oe_id (sample_outbox_entry i) = i" "oe_topic (sample_outbox_entry i) = ''a.b.c.v1''" "oe_status (sample_outbox_entry i) = Pending"
  by (simp_all add: sample_outbox_entry_def)

lemma both_groups_effected: "rw_domain (rl_world both_groups) = 2"
  by code_simp

lemma events_reach_every_group_witness:
  "((\<exists>r\<in>set (rl_queue both_groups). row_id r = ''m1'' \<and> row_pending r) \<or>
      (\<forall>deps\<in>set sample_fleet. runtime_topic deps = ''a.b.c.v1'' \<longrightarrow>
         inbox_has (rt_consumerGroup deps) ''m1'' (rw_inbox (rl_world both_groups)) \<or>
         dead_lettered (rt_consumerGroup deps) ''m1'' (rl_world both_groups))) \<and>
    exactly_once sample_fleet (rw_domain sample_start) (rl_world both_groups) \<and> rw_domain (rl_world both_groups) = 2"
proof -
  have "admissible queue_admits (delivery_step (runtime_relay sample_fleet [50] None)) (idle_relay sample_start)
      [Enqueue [sample_outbox_entry ''m1''], Pass, Pass]"
    by (simp add: sample_outbox_parts idle_relay_def)
  moreover have "rw_inbox sample_start = []" by (simp add: sample_start_def)
  ultimately show ?thesis
    using events_reach_every_group [OF both_groups_def, where es = "[sample_outbox_entry ''m1'']" and e = "sample_outbox_entry ''m1''"]
      sample_fleet_honest sample_entry_carried both_groups_effected by (simp add: sample_outbox_parts)
qed

end
