(* ===== verification/PortedService.thy ===== *)
theory PortedService
  imports AggregateService
begin

section \<open>Services that call out\<close>

text \<open>
  A service of one aggregate whose use cases call other contexts through ports. A port is any function of the calls
  made so far and of the request, so it may keep a state of its own, refuse or throw. Every call is written to a log.
\<close>

record ('a, 'b, 'e) ported_service = "('a, 'b) agg_service" +
  sv_log :: "'e list"

type_synonym ('e, 'q, 'r) out_port = "'e list \<Rightarrow> 'q \<Rightarrow> (thrown, 'r) result"
type_synonym ('d, 'z, 'b, 'e, 'x, 'a) ported_use_case = "((('d, 'z) aggregate_scheme, 'b, 'e, 'x) ported_service_scheme, 'a) use_case"

definition consult ::
  "('e, 'q, 'r) out_port \<Rightarrow> ('q \<Rightarrow> 'e) \<Rightarrow> 'q \<Rightarrow> ((thrown, 'r) result \<Rightarrow> ('d, 'z, 'b, 'e, 'x, 'a) ported_use_case) \<Rightarrow>
     ('d, 'z, 'b, 'e, 'x, 'a) ported_use_case" where
  "consult port note q k s = k (port (sv_log s) q) (s\<lparr>sv_log := sv_log s @ [note q]\<rparr>)"

text \<open>An awaited call outside any \<^verbatim>\<open>try\<close>.\<close>

definition consulted ::
  "('e, 'q, 'r) out_port \<Rightarrow> ('q \<Rightarrow> 'e) \<Rightarrow> 'q \<Rightarrow> ('r \<Rightarrow> ('d, 'z, 'b, 'e, 'x, 'a) ported_use_case) \<Rightarrow>
     ('d, 'z, 'b, 'e, 'x, 'a) ported_use_case" where
  "consulted port note q k = consult port note q (\<lambda>r s. case r of Inl e \<Rightarrow> (Inl e, s) | Inr x \<Rightarrow> k x s)"

text \<open>Call a method in a \<^verbatim>\<open>try\<close>, save, and go on with the object.\<close>

definition call_then ::
  "('d, 'b) agg_env \<Rightarrow> timestamp \<Rightarrow> string \<Rightarrow> (domain_error, ('d, 'z) aggregate_scheme, unit) action \<Rightarrow>
     (('d, 'z) aggregate_scheme \<Rightarrow> ('d, 'z, 'b, 'e, 'x, 'a) ported_use_case) \<Rightarrow> ('d, 'z) aggregate_scheme \<Rightarrow>
     ('d, 'z, 'b, 'e, 'x, 'a) ported_use_case" where
  "call_then env now tenant act k a s =
     (case act a of
        (Inl e, a') \<Rightarrow> (Inr (Inl e), touch_agg tenant a' s)
      | (Inr _, a') \<Rightarrow> then_do (save_agg env now tenant a') (k a') (touch_agg tenant a' s))"

text \<open>Only a \<^verbatim>\<open>ConcurrencyError\<close> is tried again.\<close>

fun withConcurrencyRetry :: "nat \<Rightarrow> nat \<Rightarrow> (nat \<Rightarrow> ('s, 'a) use_case) \<Rightarrow> ('s, 'a) use_case" where
  "withConcurrencyRetry i 0 attempt s = (Inl ThrownOther, s)"
| "withConcurrencyRetry i (Suc left) attempt s =
     (case attempt i s of
        (Inl (ThrownDomain (ConcurrencyError m)), s') \<Rightarrow>
          if left = 0 then (Inl (ThrownDomain (ConcurrencyError m)), s') else withConcurrencyRetry (Suc i) left attempt s'
      | (r, s') \<Rightarrow> (r, s'))"

lemma touch_agg_log [simp]: "sv_log (touch_agg t a s) = sv_log s"
  by (simp add: touch_agg_def)

lemma save_agg_log [simp]: "sv_log (snd (save_agg env now t a s)) = sv_log s"
  by (simp add: save_agg_def split: prod.split)

lemma find_agg_logged [simp]: "find_agg t i (s\<lparr>sv_log := l\<rparr>) = find_agg t i s"
  by (simp add: find_agg_def)

text \<open>Preservation through the calls.\<close>

lemma keeps_consult [keeps_intros]:
  assumes "\<And>r. P s \<Longrightarrow> P (s\<lparr>sv_log := sv_log s @ [note q]\<rparr>)"
    and "\<And>r. keeps P (k r) (s\<lparr>sv_log := sv_log s @ [note q]\<rparr>)"
  shows "keeps P (consult port note q k) s"
  using assms by (simp add: keeps_def consult_def)

lemma keeps_consulted [keeps_intros]:
  assumes "P s \<Longrightarrow> P (s\<lparr>sv_log := sv_log s @ [note q]\<rparr>)"
    and "\<And>x. keeps P (k x) (s\<lparr>sv_log := sv_log s @ [note q]\<rparr>)"
  shows "keeps P (consulted port note q k) s"
  using assms by (auto simp: keeps_def consulted_def consult_def split: sum.split)

lemma keeps_call_then:
  assumes "\<And>r a'. act a = (r, a') \<Longrightarrow> P s \<Longrightarrow> P (touch_agg t a' s)"
    and "\<And>a'. act a = (Inr (), a') \<Longrightarrow> P s \<Longrightarrow> P (snd (save_agg env now t a' (touch_agg t a' s)))"
    and "\<And>a'. act a = (Inr (), a') \<Longrightarrow> P s \<Longrightarrow> keeps P (k a') (snd (save_agg env now t a' (touch_agg t a' s)))"
  shows "keeps P (call_then env now t act k a) s"
proof -
  obtain r a' where a: "act a = (r, a')" by fastforce
  show ?thesis
  proof (cases r)
    case (Inl e)
    with a assms(1) show ?thesis by (simp add: keeps_def call_then_def)
  next
    case (Inr u)
    obtain r2 s2 where s2: "save_agg env now t a' (touch_agg t a' s) = (r2, s2)" by fastforce
    with a Inr assms(2,3) show ?thesis
      by (cases r2) (auto simp: keeps_def call_then_def then_do_apply)
  qed
qed

lemma keeps_retry [keeps_intros]:
  assumes "\<And>i s. keeps P (attempt i) s"
  shows "keeps P (withConcurrencyRetry i left attempt) s"
proof (induction left arbitrary: i s)
  case (Suc left i s)
  obtain r s' where a: "attempt i s = (r, s')" by fastforce
  have "P s \<Longrightarrow> P s'" using assms [of i s] a by (simp add: keeps_def)
  moreover have "keeps P (withConcurrencyRetry (Suc i) left attempt) s'" by (rule Suc.IH)
  ultimately show ?case using a by (simp add: keeps_def split: sum.split thrown.split domain_error.split)
qed (simp add: keeps_def)

lemma answers_retry:
  assumes "\<And>i s. P s \<Longrightarrow> answers Q (attempt i) s" "\<And>i s. keeps P (attempt i) s" "P s"
  shows "answers Q (withConcurrencyRetry i left attempt) s"
  using assms(3)
proof (induction left arbitrary: i s)
  case (Suc left i s)
  obtain r s' where a: "attempt i s = (r, s')" by fastforce
  have "P s'" using assms(2) [of i s] a Suc.prems by (simp add: keeps_def)
  then have "answers Q (withConcurrencyRetry (Suc i) left attempt) s'" by (rule Suc.IH)
  moreover have "answers Q (attempt i) s" by (rule assms(1) [OF Suc.prems])
  ultimately show ?case using a by (auto simp: answers_def split: sum.splits thrown.splits domain_error.splits if_splits)
qed (simp add: answers_def)

lemma answers_consulted [answers_intros]:
  "(\<And>x. answers Q (k x) (s\<lparr>sv_log := sv_log s @ [ev q]\<rparr>)) \<Longrightarrow> answers Q (consulted port ev q k) s"
  by (auto simp: answers_def consulted_def consult_def split: sum.splits)

lemma answers_call_then:
  assumes "\<And>a'. act a = (Inr (), a') \<Longrightarrow> answers Q (k a') (snd (save_agg env now u a' (touch_agg u a' s)))"
  shows "answers Q (call_then env now u act k a) s"
proof -
  obtain r a' where a: "act a = (r, a')" by fastforce
  obtain r2 s2 where s2: "save_agg env now u a' (touch_agg u a' s) = (r2, s2)" by fastforce
  show ?thesis using assms a s2
    by (cases r; cases r2) (auto simp: answers_def call_then_def then_do_apply)
qed

end
