(* ===== verification/OrderService.thy ===== *)
theory OrderService
  imports Orders PortedService JsConvert
begin

section \<open>Order use cases\<close>

text \<open>
  services/orders/src/application (without the sales summary), its in-memory repository and number allocator, and
  the consumer of captured payments. Payments, inventory, shipping, fulfillment and notifications are ports.
  \<open>gen\<close> is what \<^verbatim>\<open>idGenerator.generate()\<close> returns, by the position of the call in the request or by the attempt,
  \<open>now\<close> the clock. The numbers handed out are a map from tenant to the last one.
\<close>

datatype order_port_event =
    CaptureVerified "string \<times> string \<times> string"
  | TruthObserved "string \<times> string \<times> order_event_type"
  | CaptureAsked "string \<times> int \<times> string \<times> string"
  | ReservationAsked "string \<times> string"
  | ShipmentAsked "string \<times> string"
  | OrderNotified "string \<times> string \<times> order_event_type \<times> string"
  | FulfillmentCancelled "string \<times> string"
  | StockReleased "string \<times> string"
  | VoidAsked "string \<times> string"

type_synonym ('q, 'r) order_port = "(order_port_event, 'q, 'r) out_port"

record order_ports =
  op_verification :: "(string \<times> string \<times> string, bool) order_port option"
  op_shadow :: "(string \<times> string \<times> order_event_type, unit) order_port option"
  op_payment :: "(string \<times> int \<times> string \<times> string, string) order_port"
  op_inventory :: "(string \<times> string, string) order_port"
  op_shipping :: "(string \<times> string, string) order_port"
  op_notifications :: "(string \<times> string \<times> order_event_type \<times> string, unit) order_port option"
  op_fulfillmentCancel :: "(string \<times> string, unit) order_port option"
  op_stockRelease :: "(string \<times> string, unit) order_port option"
  op_paymentVoid :: "(string \<times> string, unit) order_port option"

record 'b order_env =
  oe_env :: "(order_domain_event, 'b) agg_env"
  oe_ports :: order_ports

record 'b order_service = "(order, 'b, order_port_event) ported_service" +
  os_numbers :: "(string \<times> int) list"

type_synonym ('b, 'a) order_use_case = "('b order_service, 'a) use_case"

fun order_event_name :: "order_domain_event \<Rightarrow> string" where
  "order_event_name (OrderPlaced _ _ _ _ _) = ''orders.order.placed''"
| "order_event_name (OrderPaid _ _ _ _ _) = ''orders.order.paid''"
| "order_event_name (OrderRefunded _ _ _ _) = ''orders.order.refunded''"
| "order_event_name (OrderTransitioned _ _ from to) = ''orders.order.'' @ order_type_name to"

definition OrderEventTranslator :: "order_domain_event domain_event \<Rightarrow> order_domain_event descriptor option" where
  "OrderEventTranslator event =
     Some \<lparr>d_type = order_event_name (ev_data event), d_eventVersion = 1, d_aggregateType = ''order'',
       d_payload = ev_data event\<rparr>"

record order_output =
  oo_orderId :: string
  oo_status :: order_event_type

definition order_not_found :: domain_error where
  "order_not_found = NotFoundError ''Order not found''"

text \<open>\<^verbatim>\<open>ok({ orderId: order.id.toString(), status: order.status })\<close>; the getter may throw.\<close>

definition order_answer :: "order \<Rightarrow> ('b, order_output) order_use_case" where
  "order_answer a = or_reject (order_status a) (\<lambda>st. return_ok \<lparr>oo_orderId = agg_id a, oo_status = st\<rparr>)"

subsection \<open>Order numbers (in-memory-order-number-allocator.ts)\<close>

definition FIRST_ORDER_NUMBER :: int where "FIRST_ORDER_NUMBER = 1001"

definition last_number :: "string \<Rightarrow> 'b order_service \<Rightarrow> int" where
  "last_number tenant s = (case map_of (os_numbers s) tenant of Some n \<Rightarrow> n | None \<Rightarrow> FIRST_ORDER_NUMBER - 1)"

definition with_number :: "string \<Rightarrow> (string \<Rightarrow> ('b, 'a) order_use_case) \<Rightarrow> ('b, 'a) order_use_case" where
  "with_number tenant k s =
     (let n = last_number tenant s + 1
      in k (show_int n) (s\<lparr>os_numbers := AList.update tenant n (os_numbers s)\<rparr>))"

subsection \<open>Placing an order (place-order.use-case.ts, create-order-from-checkout.use-case.ts)\<close>

record order_item_input =
  oii_productId :: string
  oii_name :: string
  oii_unitPriceAmountMinor :: js_number
  oii_quantity :: js_number
  oii_variantRef :: "string option"
  oii_sku :: "string option"
  oii_variantTitle :: "string option"

record order_address_input =
  oai_name :: "string option"
  oai_phone :: "string option"
  oai_line2 :: "string option"
  oai_line1 :: string
  oai_city :: string
  oai_postalCode :: string
  oai_country :: string
  oai_province :: "string option"

definition item_variant :: "order_item_input \<Rightarrow> product_variant option" where
  "item_variant i = map_option (\<lambda>ref. \<lparr>pv_variantRef = ref,
     pv_sku = (case oii_sku i of Some k \<Rightarrow> k | None \<Rightarrow> []), pv_variantTitle = oii_variantTitle i\<rparr>) (oii_variantRef i)"

fun with_order_items ::
  "(nat \<Rightarrow> string) \<Rightarrow> string \<Rightarrow> order_item_input list \<Rightarrow> order_item list \<Rightarrow>
     (order_item list \<Rightarrow> ('s, 'a) use_case) \<Rightarrow> ('s, 'a) use_case" where
  "with_order_items gen cur [] acc k = k acc"
| "with_order_items gen cur (i # is) acc k =
     (if \<not> isInteger (oii_quantity i) \<or> js_less (oii_quantity i) (jint 1)
      then return_err (ValidationError ''Invalid quantity'' [issue ''quantity'' ''must be a positive integer''])
      else or_return (Money_create (oii_unitPriceAmountMinor i) cur) (\<lambda>unitPrice.
           or_return (ProductSnapshot_create (oii_productId i) (oii_name i) unitPrice (item_variant i)) (\<lambda>snapshot.
           or_reject (UniqueEntityId_from (gen (length acc))) (\<lambda>iid.
             with_order_items gen cur is
               (acc @ [\<lparr>oi_id = iid, oi_snapshot = snapshot, oi_quantity = oii_quantity i\<rparr>]) k))))"

definition no_items :: domain_error where
  "no_items = ValidationError ''An order needs at least one item'' [issue ''items'' ''at least one is required'']"

definition placed_extra :: "order_address_input \<Rightarrow> address_extra" where
  "placed_extra a = \<lparr>ax_recipientName = oai_name a, ax_phone = oai_phone a, ax_line2 = oai_line2 a, ax_province = None\<rparr>"

definition toExtra :: "order_address_input \<Rightarrow> address_extra" where
  "toExtra a = (placed_extra a)\<lparr>ax_province := oai_province a\<rparr>"

definition input_address ::
  "(order_address_input \<Rightarrow> address_extra) \<Rightarrow> order_address_input \<Rightarrow> (domain_error, address_snapshot) result" where
  "input_address extra a =
     AddressSnapshot_create (oai_line1 a) (oai_city a) (oai_postalCode a) (oai_country a) (Some (extra a))"

text \<open>The items take the first identifiers, then the order and its event.\<close>

definition PlaceOrder ::
  "'b order_env \<Rightarrow> (nat \<Rightarrow> string) \<Rightarrow> timestamp \<Rightarrow> string \<Rightarrow> string \<Rightarrow> string \<Rightarrow> order_item_input list \<Rightarrow>
     order_address_input \<Rightarrow> ('b, string \<times> string \<times> int) order_use_case" where
  "PlaceOrder env gen now tenant customerRef cur inputs shipping =
     or_return (againstEmpty customerRef ''customerRef'') (\<lambda>_.
       if length inputs = 0 then return_err no_items
       else with_order_items gen cur inputs [] (\<lambda>items.
         or_return (input_address placed_extra shipping) (\<lambda>address.
         with_number tenant (\<lambda>n.
         or_return (OrderNumber_create n) (\<lambda>number.
         or_reject (UniqueEntityId_from (gen (length items))) (\<lambda>oid.
         or_reject (Order_place oid number customerRef cur items address (gen (length items + 1)) now) (\<lambda>order.
           then_do (save_agg (oe_env env) now tenant order)
             (or_reject (totalAmount order) (\<lambda>m. return_ok (agg_id order, number, amountMinor m))))))))))"

record checkout_order_input =
  coi_checkoutRef :: string
  coi_customerRef :: string
  coi_currency :: string
  coi_items :: "order_item_input list"
  coi_billingAddress :: order_address_input
  coi_shippingAddress :: order_address_input
  coi_totals :: order_totals

text \<open>The totals take the currency of the request.\<close>

definition CreateOrderFromCheckout ::
  "'b order_env \<Rightarrow> (nat \<Rightarrow> string) \<Rightarrow> timestamp \<Rightarrow> string \<Rightarrow> checkout_order_input \<Rightarrow>
     ('b, string \<times> string \<times> order_event_type) order_use_case" where
  "CreateOrderFromCheckout env gen now tenant input =
     or_return (againstEmpty (coi_checkoutRef input) ''checkoutRef'') (\<lambda>_.
     or_return (againstEmpty (coi_customerRef input) ''customerRef'') (\<lambda>_.
       if length (coi_items input) = 0 then return_err no_items
       else with_order_items gen (coi_currency input) (coi_items input) [] (\<lambda>items.
         or_return (input_address toExtra (coi_billingAddress input)) (\<lambda>billing.
         or_return (input_address toExtra (coi_shippingAddress input)) (\<lambda>shipping.
         with_number tenant (\<lambda>n.
         or_return (OrderNumber_create n) (\<lambda>number.
         or_reject (UniqueEntityId_from (gen (length items))) (\<lambda>oid.
         or_reject (Order_createFromCheckout oid number (coi_customerRef input) (coi_currency input) items shipping billing
             ((coi_totals input)\<lparr>ot_currency := coi_currency input\<rparr>) (coi_checkoutRef input) (gen (length items + 1)) now) (\<lambda>order.
           then_do (save_agg (oe_env env) now tenant order)
             (or_reject (order_status order) (\<lambda>st. return_ok (agg_id order, number, st))))))))))))"

subsection \<open>The lifecycle (order-lifecycle.use-cases.ts)\<close>

definition notify_order :: "order_ports \<Rightarrow> order \<Rightarrow> string \<Rightarrow> ('b, 'a) order_use_case \<Rightarrow> ('b, 'a) order_use_case" where
  "notify_order ports a tenant k =
     (case (op_notifications ports, order_status a) of
        (Some port, Inr st) \<Rightarrow> consult port OrderNotified (or_customerRef a, or_orderNumber a, st, tenant) (\<lambda>_. k)
      | _ \<Rightarrow> k)"

definition bestEffort ::
  "('q, unit) order_port option \<Rightarrow> ('q \<Rightarrow> order_port_event) \<Rightarrow> 'q \<Rightarrow> ('b, 'a) order_use_case \<Rightarrow> ('b, 'a) order_use_case" where
  "bestEffort port entry q k = (case port of None \<Rightarrow> k | Some p \<Rightarrow> consult p entry q (\<lambda>_. k))"

definition after_cancel :: "order_ports \<Rightarrow> string \<Rightarrow> string \<Rightarrow> string option \<Rightarrow> ('b, 'a) order_use_case \<Rightarrow> ('b, 'a) order_use_case" where
  "after_cancel ports tenant oid paymentToVoid k =
     bestEffort (op_fulfillmentCancel ports) FulfillmentCancelled (oid, tenant)
       (bestEffort (op_stockRelease ports) StockReleased (oid, tenant)
         (case paymentToVoid of None \<Rightarrow> k | Some ref \<Rightarrow> bestEffort (op_paymentVoid ports) VoidAsked (ref, tenant) k))"

definition AdvanceOrder ::
  "'b order_env \<Rightarrow> string \<Rightarrow> timestamp \<Rightarrow> string \<Rightarrow> string \<Rightarrow> order_event_type \<Rightarrow> ('b, order_output) order_use_case" where
  "AdvanceOrder env gen now tenant oid toStatus =
     lookup order_not_found (find_agg tenant oid)
       (call_then (oe_env env) now tenant (order_transition toStatus gen now) (\<lambda>a.
          notify_order (oe_ports env) a tenant
            (or_reject (order_status a) (\<lambda>st.
               if st = OCancelled then after_cancel (oe_ports env) tenant oid (or_paymentRef a) (order_answer a)
               else order_answer a))))"

definition cannot_transition :: "order_event_type \<Rightarrow> order_event_type \<Rightarrow> domain_error" where
  "cannot_transition from to = BusinessRuleError (''Cannot transition order from \"'' @ order_type_name from @
     ''\" to \"'' @ order_type_name to @ ''\"'')"

text \<open>One attempt to settle, with its event identifier and clock reading.\<close>

definition capture_attempt ::
  "'b order_env \<Rightarrow> string \<Rightarrow> string \<Rightarrow> string \<Rightarrow> string \<times> timestamp \<Rightarrow> ('b, order_output) order_use_case" where
  "capture_attempt env tenant oid ref input =
     lookup order_not_found (find_agg tenant oid) (\<lambda>a.
       if or_paymentRef a = None
       then call_then (oe_env env) (snd input) tenant (order_requestPayment ref (fst input) (snd input))
              (\<lambda>a. notify_order (oe_ports env) a tenant (order_answer a)) a
       else order_answer a)"

definition RequestPaymentCapture ::
  "'b order_env \<Rightarrow> (nat \<Rightarrow> string \<times> timestamp) \<Rightarrow> string \<Rightarrow> string \<Rightarrow> ('b, order_output) order_use_case" where
  "RequestPaymentCapture env inputs tenant oid =
     lookup order_not_found (find_agg tenant oid) (\<lambda>a.
     or_reject (order_status a) (\<lambda>st.
     or_reject (totalAmount a) (\<lambda>m.
       if or_paymentRef a \<noteq> None then return_ok \<lparr>oo_orderId = oid, oo_status = st\<rparr>
       else if \<not> canTransition st OPaymentRequested then return_err (cannot_transition st OPaymentRequested)
       else consulted (op_payment (oe_ports env)) CaptureAsked (oid, amountMinor m, or_currency a, tenant) (\<lambda>ref.
         withConcurrencyRetry 1 5 (\<lambda>i. capture_attempt env tenant oid ref (inputs i))))))"

definition fulfillment_attempt ::
  "'b order_env \<Rightarrow> string \<Rightarrow> string \<Rightarrow> string \<Rightarrow> string \<times> timestamp \<Rightarrow> ('b, order_output) order_use_case" where
  "fulfillment_attempt env tenant oid ref input =
     lookup order_not_found (find_agg tenant oid) (\<lambda>a.
       if or_fulfillmentRef a = None
       then call_then (oe_env env) (snd input) tenant (order_requestFulfillment ref (fst input) (snd input))
              (\<lambda>a. notify_order (oe_ports env) a tenant (order_answer a)) a
       else order_answer a)"

definition RequestFulfillment ::
  "'b order_env \<Rightarrow> (nat \<Rightarrow> string \<times> timestamp) \<Rightarrow> string \<Rightarrow> string \<Rightarrow> ('b, order_output) order_use_case" where
  "RequestFulfillment env inputs tenant oid =
     lookup order_not_found (find_agg tenant oid) (\<lambda>a.
     or_reject (order_status a) (\<lambda>st.
       if or_fulfillmentRef a \<noteq> None then return_ok \<lparr>oo_orderId = oid, oo_status = st\<rparr>
       else if \<not> canTransition st OFulfillmentRequested then return_err (cannot_transition st OFulfillmentRequested)
       else consulted (op_inventory (oe_ports env)) ReservationAsked (oid, tenant) (\<lambda>reservationRef.
            consulted (op_shipping (oe_ports env)) ShipmentAsked (oid, tenant) (\<lambda>shipmentRef.
              withConcurrencyRetry 1 5 (\<lambda>i.
                fulfillment_attempt env tenant oid (reservationRef @ ''|'' @ shipmentRef) (inputs i))))))"

subsection \<open>Payments (mark-order-paid, record-checkout-payment and refund-order use cases)\<close>

definition unverified_payment :: domain_error where
  "unverified_payment = ValidationError ''No captured payment found for this reference on this order''
     [issue ''paymentRef'' ''could not be verified against Payments'']"

definition observe_truth ::
  "order_ports \<Rightarrow> string \<Rightarrow> order \<Rightarrow> ('b, order_output) order_use_case \<Rightarrow> ('b, order_output) order_use_case" where
  "observe_truth ports ref a k =
     (case op_shadow ports of None \<Rightarrow> k
      | Some port \<Rightarrow> or_reject (order_status a) (\<lambda>st. consulted port TruthObserved (agg_id a, ref, st) (\<lambda>_. k)))"

definition pay_loaded ::
  "'b order_env \<Rightarrow> string \<Rightarrow> timestamp \<Rightarrow> string \<Rightarrow> string \<Rightarrow> string \<Rightarrow> ('b, order_output) order_use_case" where
  "pay_loaded env gen now tenant oid ref =
     lookup order_not_found (find_agg tenant oid)
       (call_then (oe_env env) now tenant (order_completePayment ref gen now)
         (\<lambda>a. observe_truth (oe_ports env) ref a (order_answer a)))"

definition MarkOrderPaid ::
  "'b order_env \<Rightarrow> string \<Rightarrow> timestamp \<Rightarrow> string \<Rightarrow> string \<Rightarrow> string \<Rightarrow> ('b, order_output) order_use_case" where
  "MarkOrderPaid env gen now tenant oid ref =
     or_return (againstEmpty ref ''paymentRef'') (\<lambda>_.
       case op_verification (oe_ports env) of
         None \<Rightarrow> pay_loaded env gen now tenant oid ref
       | Some port \<Rightarrow> consulted port CaptureVerified (oid, ref, tenant) (\<lambda>verified.
           if \<not> verified then return_err unverified_payment else pay_loaded env gen now tenant oid ref))"

text \<open>The three event identifiers and the clock reading of each attempt.\<close>

type_synonym record_inputs = "nat \<Rightarrow> string \<times> string \<times> string \<times> timestamp"

definition record_payment :: "string \<Rightarrow> string \<times> string \<times> string \<times> timestamp \<Rightarrow> order_action" where
  "record_payment ref input =
     (case input of (g1, g2, g3, now) \<Rightarrow>
       then_do (order_confirm g1 now) (then_do (order_markAwaitingPayment g2 now) (order_requestPayment ref g3 now)))"

definition record_attempt ::
  "'b order_env \<Rightarrow> string \<Rightarrow> string \<Rightarrow> string \<Rightarrow> string \<times> string \<times> string \<times> timestamp \<Rightarrow> ('b, order_output) order_use_case" where
  "record_attempt env tenant oid ref input =
     lookup order_not_found (find_agg tenant oid) (\<lambda>a.
       case or_paymentRef a of
         Some r \<Rightarrow> if r = ref then order_answer a
           else return_err (BusinessRuleError ''Order is already linked to a different payment'')
       | None \<Rightarrow> or_reject (order_status a) (\<lambda>st.
           if st \<noteq> OCreated
           then return_err (BusinessRuleError (''Cannot record a payment for an order in status \"'' @ order_type_name st @ ''\"''))
           else call_then (oe_env env) (snd (snd (snd input))) tenant (record_payment ref input) order_answer a))"

definition RecordCheckoutPayment ::
  "'b order_env \<Rightarrow> record_inputs \<Rightarrow> string \<Rightarrow> string \<Rightarrow> string \<Rightarrow> ('b, order_output) order_use_case" where
  "RecordCheckoutPayment env inputs tenant oid ref =
     withConcurrencyRetry 1 5 (\<lambda>i. record_attempt env tenant oid ref (inputs i))"

definition RefundOrder ::
  "'b order_env \<Rightarrow> string \<Rightarrow> timestamp \<Rightarrow> string \<Rightarrow> string \<Rightarrow> ('b, order_output) order_use_case" where
  "RefundOrder env gen now tenant oid =
     lookup order_not_found (find_agg tenant oid)
       (call_then (oe_env env) now tenant (order_refund gen now) order_answer)"

subsection \<open>Reads (get-order, list-orders)\<close>

definition GetOrder :: "string \<Rightarrow> string \<Rightarrow> ('b, order) order_use_case" where
  "GetOrder tenant oid = lookup order_not_found (find_agg tenant oid) return_ok"

record order_list_query =
  oq_first :: "int option"
  oq_after :: "string option"
  oq_status :: "order_event_type option"
  oq_search :: "string option"

definition matchesQuery :: "order_list_query \<Rightarrow> order \<Rightarrow> (domain_error, bool) result" where
  "matchesQuery q a =
     bind_result (case oq_status q of None \<Rightarrow> Inr True | Some st \<Rightarrow> map_ok (\<lambda>x. x = st) (order_status a)) (\<lambda>ok.
       Inr (ok \<and> (case oq_search q of None \<Rightarrow> True
         | Some w \<Rightarrow> str_includes (toLowerCase (or_orderNumber a @ '' '' @ or_customerRef a)) (toLowerCase (trim w)))))"

fun filter_orders :: "order_list_query \<Rightarrow> order list \<Rightarrow> (domain_error, order list) result" where
  "filter_orders q [] = Inr []"
| "filter_orders q (a # as) =
     bind_result (matchesQuery q a) (\<lambda>keep.
       map_ok (\<lambda>rest. if keep then a # rest else rest) (filter_orders q as))"

definition newest_first :: "order list \<Rightarrow> order list" where
  "newest_first = sort_cmp (\<lambda>a b. if str_less (agg_id a) (agg_id b) then 1 else -1)"

definition ListOrders :: "order_list_query \<Rightarrow> string \<Rightarrow> ('b, order list \<times> page_info) order_use_case" where
  "ListOrders q tenant s =
     or_reject (filter_orders q (newest_first (rows_of tenant (ag_rows s)))) (\<lambda>filtered.
       let limit = normalizePageSize (oq_first q);
           remaining = (case oq_after q of None \<Rightarrow> filtered
             | Some c \<Rightarrow> filter (\<lambda>a. str_less (agg_id a) c) filtered)
       in return_ok (buildPaginatedPage (take (nat (limit + 1)) remaining) limit agg_id)) s"

subsection \<open>Captured payments (payment-captured.consumer.ts)\<close>

definition already_paid :: "domain_error \<Rightarrow> bool" where
  "already_paid e = (error_code e = ''BUSINESS_RULE'' \<and>
     (str_includes (error_message e) ''from status \"paid\"'' \<or>
      str_includes (error_message e) ''from status \"payment_received\"''))"

text \<open>A handler that throws is \<open>Inl\<close>; it never answers an error.\<close>

definition handle_captured ::
  "'b order_env \<Rightarrow> string \<Rightarrow> timestamp \<Rightarrow> string option \<Rightarrow> string \<Rightarrow> string \<Rightarrow> ('b, unit) order_use_case" where
  "handle_captured env gen now tenantId orderRef aggregateId s =
     (case readEnvelopeTenant tenantId of
        None \<Rightarrow> (Inl ThrownOther, s)
      | Some tenant \<Rightarrow>
          (case MarkOrderPaid env gen now tenant orderRef aggregateId s of
             (Inl e, s') \<Rightarrow> (Inl e, s')
           | (Inr (Inr _), s') \<Rightarrow> return_ok () s'
           | (Inr (Inl e), s') \<Rightarrow> if already_paid e then return_ok () s' else (Inl (ThrownDomain e), s')))"

subsection \<open>The adapters of the ports (in-memory-port-adapters.ts)\<close>

text \<open>
  The counter and the map of an adapter, from the calls it has had: \<open>asked\<close> picks its calls, \<open>label\<close> is the prefix
  of its references.
\<close>

definition adapter_step ::
  "(order_port_event \<Rightarrow> (string \<times> string) option) \<Rightarrow> string \<Rightarrow> int \<times> ((string \<times> string) \<times> string) list \<Rightarrow> order_port_event \<Rightarrow>
     int \<times> ((string \<times> string) \<times> string) list" where
  "adapter_step asked label st ev =
     (case asked ev of None \<Rightarrow> st
      | Some (oid, tenant) \<Rightarrow>
          (case map_of (snd st) (tenant, oid) of
             Some _ \<Rightarrow> st
           | None \<Rightarrow> (fst st + 1, AList.update (tenant, oid) (label @ oid @ ''-'' @ show_int (fst st + 1)) (snd st))))"

definition adapter_answer ::
  "(order_port_event \<Rightarrow> (string \<times> string) option) \<Rightarrow> string \<Rightarrow> (string \<times> string, string) order_port" where
  "adapter_answer asked label calls q =
     (case q of (oid, tenant) \<Rightarrow>
       let st = foldl (adapter_step asked label) (0, []) calls in
       case map_of (snd st) (tenant, oid) of
         Some ref \<Rightarrow> Inr ref
       | None \<Rightarrow> Inr (label @ oid @ ''-'' @ show_int (fst st + 1)))"

definition InMemoryInventoryAdapter :: "(string \<times> string, string) order_port" where
  "InMemoryInventoryAdapter =
     adapter_answer (\<lambda>ev. case ev of ReservationAsked q \<Rightarrow> Some q | _ \<Rightarrow> None) ''reservation-''"

definition InMemoryShippingAdapter :: "(string \<times> string, string) order_port" where
  "InMemoryShippingAdapter =
     adapter_answer (\<lambda>ev. case ev of ShipmentAsked q \<Rightarrow> Some q | _ \<Rightarrow> None) ''shipment-''"

definition InMemoryPaymentAdapter :: "(string \<times> int \<times> string \<times> string, string) order_port" where
  "InMemoryPaymentAdapter calls q =
     Inr (''payment-'' @ fst q @ ''-'' @
       show_int (int (length (filter (\<lambda>ev. case ev of CaptureAsked _ \<Rightarrow> True | _ \<Rightarrow> False) calls)) + 1))"

subsection \<open>Requests\<close>

datatype order_request =
    ReqPlace "nat \<Rightarrow> string" timestamp string string string "order_item_input list" order_address_input
  | ReqCheckout "nat \<Rightarrow> string" timestamp string checkout_order_input
  | ReqAdvance string timestamp string string order_event_type
  | ReqCapture "nat \<Rightarrow> string \<times> timestamp" string string
  | ReqFulfill "nat \<Rightarrow> string \<times> timestamp" string string
  | ReqMarkPaid string timestamp string string string
  | ReqRecord record_inputs string string string
  | ReqRefund string timestamp string string
  | ReqCaptured string timestamp "string option" string string

fun order_serve :: "'b order_env \<Rightarrow> order_request \<Rightarrow> ('b, unit) order_use_case" where
  "order_serve env (ReqPlace gen now tenant c cur inputs shipping) = drop_answer (PlaceOrder env gen now tenant c cur inputs shipping)"
| "order_serve env (ReqCheckout gen now tenant input) = drop_answer (CreateOrderFromCheckout env gen now tenant input)"
| "order_serve env (ReqAdvance gen now tenant oid to) = drop_answer (AdvanceOrder env gen now tenant oid to)"
| "order_serve env (ReqCapture inputs tenant oid) = drop_answer (RequestPaymentCapture env inputs tenant oid)"
| "order_serve env (ReqFulfill inputs tenant oid) = drop_answer (RequestFulfillment env inputs tenant oid)"
| "order_serve env (ReqMarkPaid gen now tenant oid ref) = drop_answer (MarkOrderPaid env gen now tenant oid ref)"
| "order_serve env (ReqRecord inputs tenant oid ref) = drop_answer (RecordCheckoutPayment env inputs tenant oid ref)"
| "order_serve env (ReqRefund gen now tenant oid) = drop_answer (RefundOrder env gen now tenant oid)"
| "order_serve env (ReqCaptured gen now tenant oid ref) = handle_captured env gen now tenant oid ref"

text \<open>The identifier generated for a new order is new.\<close>

fun fresh_order :: "'b order_service \<Rightarrow> order_request \<Rightarrow> bool" where
  "fresh_order s (ReqPlace gen now tenant c cur inputs shipping) = (find_agg tenant (gen (length inputs)) s = None)"
| "fresh_order s (ReqCheckout gen now tenant input) = (find_agg tenant (gen (length (coi_items input))) s = None)"
| "fresh_order s q = True"

definition empty_orders :: "'b order_service" where
  "empty_orders = \<lparr>ag_rows = [], ag_outbox = [], sv_log = [], os_numbers = []\<rparr>"

subsection \<open>What the use cases do to a row\<close>

definition order_moved :: "order \<Rightarrow> order \<Rightarrow> bool" where
  "order_moved a a' = (\<exists>cs. a' = runs order_step cs a)"

lemma moved_step [intro]: "order_moved a (snd (order_step c a))"
  unfolding order_moved_def by (rule exI [of _ "[c]"]) simp

lemma moved_trans: "order_moved a b \<Longrightarrow> order_moved b c \<Longrightarrow> order_moved a c"
  unfolding order_moved_def by (metis runs_append)

lemma moved_then:
  assumes "\<And>a. order_moved a (snd (f a))" "\<And>a. order_moved a (snd (g a))"
  shows "order_moved a (snd (then_do f g a))"
  using assms(1) [of a] moved_trans [OF assms(1) assms(2), of a]
  by (cases "f a") (auto simp: then_do_apply split: sum.splits)

lemma moved_methods [simp]:
  "order_moved a (snd (order_transition to g now a))"
  "order_moved a (snd (order_requestPayment ref g now a))"
  "order_moved a (snd (order_requestFulfillment ref g now a))"
  "order_moved a (snd (order_completePayment ref g now a))"
  "order_moved a (snd (order_refund g now a))"
  using moved_step [of a "(CallTransition to, g, now)"] moved_step [of a "(CallRequestPayment ref, g, now)"]
    moved_step [of a "(CallRequestFulfillment ref, g, now)"] moved_step [of a "(CallCompletePayment ref, g, now)"]
    moved_step [of a "(CallRefund, g, now)"]
  by simp_all

lemma moved_record [simp]: "order_moved a (snd (record_payment ref input a))"
  unfolding record_payment_def order_confirm_def order_markAwaitingPayment_def
  by (cases input) (auto intro!: moved_then)

lemma addDomainEvent_row [simp]:
  fixes a :: order
  shows "or_orderNumber (addDomainEvent e t d a) = or_orderNumber a"
    "or_paymentRef (addDomainEvent e t d a) = or_paymentRef a" "agg_id (addDomainEvent e t d a) = agg_id a"
  by (simp_all add: addDomainEvent_def)

definition same_row :: "order \<Rightarrow> order \<Rightarrow> bool" where
  "same_row a a' = (agg_id a' = agg_id a \<and> or_orderNumber a' = or_orderNumber a \<and>
     (or_paymentRef a \<noteq> None \<longrightarrow> or_paymentRef a' \<noteq> None))"

lemma same_row_record [simp]: "same_row a (snd (order_record ty e t a))"
  by (simp add: same_row_def order_record_def split: sum.split)

lemma same_row_raise [simp]: "same_row a (snd (raise_with_total e t mk a))"
  by (simp add: same_row_def raise_with_total_def bind_action_apply split: sum.split)

lemma same_row_then:
  assumes "\<And>a. same_row a (snd (f a))" "\<And>a. same_row a (snd (g a))"
  shows "same_row a (snd (then_do f g a))"
  using assms(1) [of a] assms(2) [of "snd (f a)"]
  by (cases "f a") (auto simp: then_do_apply same_row_def split: sum.splits)

lemma same_row_step: "same_row a (snd (order_step c a))"
proof -
  have set: "same_row a (snd (modify f a))" if "\<And>a. same_row a (f a)" for f :: "order \<Rightarrow> order" and a
    using that by simp
  have status: "same_row a (snd (with_status f a))" if "\<And>st a. same_row a (snd (f st a))" for f a
    using that by (simp add: with_status_cases) (simp add: same_row_def)
  have stay: "same_row a a" for a by (simp add: same_row_def)
  have trans: "same_row a (snd (order_transition to e t a))" for to e t a
    unfolding order_transition_def
    by (rule status) (auto simp: stay intro!: same_row_then, simp add: same_row_def)
  have mark: "same_row a (snd (order_markPaid ref e t a))" for ref e t a
    unfolding order_markPaid_def by (rule status) (auto simp: stay intro!: same_row_then)
  show ?thesis
  proof (cases c rule: order_step.cases)
    case (2 ref e t)
    have "same_row a (snd (order_completePayment ref e t a))"
      unfolding order_completePayment_def
      by (rule status) (auto simp: stay trans mark intro!: same_row_then, simp add: same_row_def)
    with 2 show ?thesis by simp
  next
    case (3 e t)
    have "same_row a (snd (order_refund e t a))"
      unfolding order_refund_def by (rule status) (auto simp: stay intro!: same_row_then)
    with 3 show ?thesis by simp
  next
    case (5 ref e t)
    have "same_row a (snd (order_requestPayment ref e t a))"
      unfolding order_requestPayment_def by (rule same_row_then, rule trans) (simp add: same_row_def)
    with 5 show ?thesis by simp
  next
    case (6 ref e t)
    have "same_row a (snd (order_requestFulfillment ref e t a))"
      unfolding order_requestFulfillment_def by (rule same_row_then, rule trans) (simp add: same_row_def)
    with 6 show ?thesis by simp
  qed (simp_all add: trans mark)
qed

lemma moved_same_row: "order_moved a a' \<Longrightarrow> same_row a a'"
proof -
  have "same_row a (runs order_step cs a)" for cs
  proof (induction cs rule: rev_induct)
    case (snoc c cs)
    then show ?case using same_row_step [of "runs order_step cs a" c] by (auto simp: runs_append same_row_def)
  qed (simp add: same_row_def)
  then show "order_moved a a' \<Longrightarrow> same_row a a'" by (auto simp: order_moved_def)
qed

lemma moved_inv: "order_moved a a' \<Longrightarrow> order_inv a \<Longrightarrow> order_inv a'"
  unfolding order_moved_def using ord_inv.runs_inv by (fastforce simp: list_all_iff)

lemma placed_rows:
  "Order_place oid number c cur items address e t = Inr a \<Longrightarrow>
     new_order a \<and> agg_id a = oid \<and> or_orderNumber a = number \<and> or_paymentRef a = None"
  "Order_createFromCheckout oid number c cur items sa ba tot ck e t = Inr a \<Longrightarrow>
     new_order a \<and> agg_id a = oid \<and> or_orderNumber a = number \<and> or_paymentRef a = None"
proof -
  show "Order_place oid number c cur items address e t = Inr a \<Longrightarrow>
     new_order a \<and> agg_id a = oid \<and> or_orderNumber a = number \<and> or_paymentRef a = None"
    by (frule new_order.placed)
      (auto simp: Order_place_def Let_def then_do_apply order_record_def raise_with_total_def bind_action_apply
        split: if_splits sum.splits prod.splits)
  show "Order_createFromCheckout oid number c cur items sa ba tot ck e t = Inr a \<Longrightarrow>
     new_order a \<and> agg_id a = oid \<and> or_orderNumber a = number \<and> or_paymentRef a = None"
    by (frule new_order.from_checkout)
      (auto simp: Order_createFromCheckout_def Let_def then_do_apply order_record_def
        split: if_splits sum.splits prod.splits)
qed

subsection \<open>Promises of the service\<close>

text \<open>
  What an invariant of the service has to survive: a loaded order moves on and is saved, a number is handed out, a new
  order is saved, a port is called. Payments is asked for a capture only while no payment is recorded, and to void
  one only of an order at \<open>cancelled\<close>. The orders that requests reach may be limited to a \<open>scope\<close>.
\<close>

fun routine_call :: "order_port_event \<Rightarrow> bool" where
  "routine_call (CaptureAsked q) = False"
| "routine_call (VoidAsked q) = False"
| "routine_call ev = True"

definition number_taken :: "string \<Rightarrow> 'b order_service \<Rightarrow> 'b order_service" where
  "number_taken u s = s\<lparr>os_numbers := AList.update u (last_number u s + 1) (os_numbers s)\<rparr>"

lemma find_agg_number [simp]: "find_agg t i (number_taken u s) = find_agg t i s"
  by (simp add: find_agg_def number_taken_def)

fun in_scope :: "(string \<Rightarrow> string \<Rightarrow> bool) \<Rightarrow> order_request \<Rightarrow> bool" where
  "in_scope scope (ReqPlace gen now tenant c cur inputs shipping) = scope tenant (gen (length inputs))"
| "in_scope scope (ReqCheckout gen now tenant input) = scope tenant (gen (length (coi_items input)))"
| "in_scope scope (ReqAdvance gen now tenant oid to) = scope tenant oid"
| "in_scope scope (ReqCapture inputs tenant oid) = scope tenant oid"
| "in_scope scope (ReqFulfill inputs tenant oid) = scope tenant oid"
| "in_scope scope (ReqMarkPaid gen now tenant oid ref) = scope tenant oid"
| "in_scope scope (ReqRecord inputs tenant oid ref) = scope tenant oid"
| "in_scope scope (ReqRefund gen now tenant oid) = scope tenant oid"
| "in_scope scope (ReqCaptured gen now tenantId oid ref) =
     (case readEnvelopeTenant tenantId of None \<Rightarrow> True | Some tenant \<Rightarrow> scope tenant oid)"

lemma in_scope_all [simp]: "in_scope (\<lambda>_ _. True) q"
  by (cases q) (auto split: option.split)

definition order_guard :: "(string \<Rightarrow> string \<Rightarrow> bool) \<Rightarrow> 'b order_service \<Rightarrow> order_request \<Rightarrow> bool" where
  "order_guard scope s q = (fresh_order s q \<and> in_scope scope q)"

locale order_promise =
  fixes scope :: "string \<Rightarrow> string \<Rightarrow> bool" and I :: "'b order_service \<Rightarrow> bool"
  assumes ids: "I s \<Longrightarrow> find_agg u j s = Some a \<Longrightarrow> agg_id a = j"
    and moves: "I s \<Longrightarrow> scope u j \<Longrightarrow> find_agg u j s = Some a \<Longrightarrow> order_moved a a' \<Longrightarrow> I (touch_agg u a' s)"
    and saves: "I s \<Longrightarrow> scope u (agg_id a) \<Longrightarrow> find_agg u (agg_id a) s = Some a \<Longrightarrow> I (snd (save_agg env now u a s))"
    and numbers: "I s \<Longrightarrow> I (number_taken u s)"
    and places: "I s \<Longrightarrow> scope u (agg_id a) \<Longrightarrow> find_agg u (agg_id a) s = None \<Longrightarrow> new_order a \<Longrightarrow> or_paymentRef a = None \<Longrightarrow>
      or_orderNumber a = show_int (last_number u s + 1) \<Longrightarrow> I (snd (save_agg env now u a (number_taken u s)))"
    and routine: "I s \<Longrightarrow> routine_call ev \<Longrightarrow> I (s\<lparr>sv_log := sv_log s @ [ev]\<rparr>)"
    and captures: "I s \<Longrightarrow> find_agg u j s = Some a \<Longrightarrow> or_paymentRef a = None \<Longrightarrow>
      I (s\<lparr>sv_log := sv_log s @ [CaptureAsked (j, n, c, u)]\<rparr>)"
    and voids: "I s \<Longrightarrow> find_agg u j s = Some a \<Longrightarrow> status_of a = Some OCancelled \<Longrightarrow> or_paymentRef a = Some r \<Longrightarrow>
      I (s\<lparr>sv_log := sv_log s @ [VoidAsked (r, u)]\<rparr>)"
begin

lemma keeps_answer: "keeps I (order_answer a) s"
  by (auto simp: order_answer_def intro!: keeps_intros)

lemma keeps_call:
  assumes "scope u j" "find_agg u j s = Some a" "order_moved a (snd (act a))"
    and "\<And>a'. act a = (Inr (), a') \<Longrightarrow> keeps I (k a') (snd (save_agg env now u a' (touch_agg u a' s)))"
  shows "keeps I (call_then env now u act k a) s"
proof (rule keeps_call_then)
  fix r a' assume a': "act a = (r, a')" and "I s"
  then show "I (touch_agg u a' s)" using assms(3) by (auto intro: moves [OF _ assms(1,2)])
next
  fix a' assume a': "act a = (Inr (), a')" and s: "I s"
  then have moved: "order_moved a a'" "I (touch_agg u a' s)" using assms(3) by (auto intro: moves [OF _ assms(1,2)])
  have "agg_id a' = j" using moved_same_row [OF moved(1)] ids [OF s assms(2)] by (simp add: same_row_def)
  with moved(2) assms(1) show "I (snd (save_agg env now u a' (touch_agg u a' s)))"
    by (intro saves) (simp_all add: find_agg_touch)
qed (use assms(4) in blast)

lemma keeps_notify:
  assumes "keeps I k s" "\<And>ev. keeps I k (s\<lparr>sv_log := sv_log s @ [ev]\<rparr>)"
  shows "keeps I (notify_order ports a u k) s"
  unfolding notify_order_def using assms
  by (auto split: option.split sum.split intro!: keeps_consult routine)

lemma keeps_best_effort:
  assumes "keeps I k s" "\<And>ev. keeps I k (s\<lparr>sv_log := sv_log s @ [ev]\<rparr>)"
    and "I s \<Longrightarrow> I (s\<lparr>sv_log := sv_log s @ [entry q]\<rparr>)"
  shows "keeps I (bestEffort port entry q k) s"
  unfolding bestEffort_def using assms by (auto split: option.split intro!: keeps_consult)

lemma keeps_cleanup:
  assumes "find_agg u j s = Some b" "\<And>s. find_agg u j s = Some b \<Longrightarrow> keeps I k s"
  shows "keeps I (bestEffort (op_fulfillmentCancel ports) FulfillmentCancelled (oid, u)
    (bestEffort (op_stockRelease ports) StockReleased (oid, u) k)) s"
  using assms by (auto intro!: keeps_best_effort routine)

lemma keeps_after_cancel:
  assumes "find_agg u j s = Some b" "status_of b = Some OCancelled" "\<And>s. keeps I k s"
  shows "keeps I (after_cancel ports u oid (or_paymentRef b) k) s"
  unfolding after_cancel_def
proof (rule keeps_cleanup [OF assms(1)])
  fix s' :: "'b order_service" assume "find_agg u j s' = Some b"
  then show "keeps I (case or_paymentRef b of None \<Rightarrow> k | Some ref \<Rightarrow> bestEffort (op_paymentVoid ports) VoidAsked (ref, u) k) s'"
    using assms(2,3) by (auto intro!: keeps_best_effort voids split: option.split)
qed

lemma keeps_advance: "scope u oid \<Longrightarrow> keeps I (AdvanceOrder env gen now u oid to) s"
  unfolding AdvanceOrder_def
proof (rule keeps_lookup, rule keeps_call, assumption, assumption, simp)
  fix a a' :: order and s :: "'b order_service"
  let ?s = "snd (save_agg (oe_env env) now u a' (touch_agg u a' s))"
  let ?k = "or_reject (order_status a') (\<lambda>st. if st = OCancelled
      then after_cancel (oe_ports env) u oid (or_paymentRef a') (order_answer a') else order_answer a')"
  have k: "keeps I ?k s'" if "find_agg u (agg_id a') s' = Some (a'\<lparr>agg_events := []\<rparr>)" for s'
  proof (rule keeps_or_reject)
    fix st assume "order_status a' = Inr st"
    then have "status_of a' = Some st" by (simp add: status_of_def order_status_Inr_iff)
    then have st: "status_of (a'\<lparr>agg_events := []\<rparr>) = Some st" by (simp add: status_of_def history_types_def split: if_splits)
    show "keeps I (if st = OCancelled then after_cancel (oe_ports env) u oid (or_paymentRef a') (order_answer a')
        else order_answer a') s'"
      using keeps_after_cancel [OF that, of "order_answer a'"] st keeps_answer by simp
  qed
  have "find_agg u (agg_id a') ?s = Some (a'\<lparr>agg_events := []\<rparr>)" by (simp add: find_agg_save)
  then show "keeps I (notify_order (oe_ports env) a' u ?k) ?s" by (intro keeps_notify k) simp_all
qed

lemma keeps_attempts:
  assumes "scope u oid"
  shows "keeps I (capture_attempt env u oid ref input) s" "keeps I (fulfillment_attempt env u oid ref input) s"
    "keeps I (record_attempt env u oid ref input3) s"
  unfolding capture_attempt_def fulfillment_attempt_def record_attempt_def using assms
  by (auto intro!: keeps_lookup keeps_call keeps_notify keeps_answer keeps_or_reject keeps_return_err split: option.split)

lemma keeps_capture: "scope u oid \<Longrightarrow> keeps I (RequestPaymentCapture env inputs u oid) s"
  unfolding RequestPaymentCapture_def
  by (auto intro!: keeps_lookup keeps_or_reject keeps_return_ok keeps_return_err keeps_consulted captures keeps_retry keeps_attempts)

lemma keeps_fulfillment: "scope u oid \<Longrightarrow> keeps I (RequestFulfillment env inputs u oid) s"
  unfolding RequestFulfillment_def
  by (auto intro!: keeps_lookup keeps_or_reject keeps_return_ok keeps_return_err keeps_consulted routine keeps_retry keeps_attempts)

lemma keeps_pay_loaded: "scope u oid \<Longrightarrow> keeps I (pay_loaded env gen now u oid ref) s"
  unfolding pay_loaded_def observe_truth_def
  by (auto intro!: keeps_lookup keeps_call keeps_or_reject keeps_consulted routine keeps_answer split: option.split)

lemma keeps_mark: "scope u oid \<Longrightarrow> keeps I (MarkOrderPaid env gen now u oid ref) s"
  unfolding MarkOrderPaid_def
  by (auto intro!: keeps_or_return keeps_consulted routine keeps_pay_loaded keeps_return_err split: option.split)

lemma keeps_record: "scope u oid \<Longrightarrow> keeps I (RecordCheckoutPayment env inputs u oid ref) s"
  unfolding RecordCheckoutPayment_def by (auto intro!: keeps_retry keeps_attempts)

lemma keeps_refund: "scope u oid \<Longrightarrow> keeps I (RefundOrder env gen now u oid) s"
  unfolding RefundOrder_def by (auto intro!: keeps_lookup keeps_call keeps_answer)

lemma keeps_captured:
  assumes "in_scope scope (ReqCaptured gen now tenantId oid ref)"
  shows "keeps I (handle_captured env gen now tenantId oid ref) s"
  unfolding keeps_def handle_captured_def
  using assms keepsD [OF keeps_mark] by (auto split: option.splits prod.splits sum.splits simp: return_ok_def) (metis snd_conv)+

lemma keeps_with_order_items:
  "(\<And>items. length items = length inputs + length acc \<Longrightarrow> keeps I (k items) s) \<Longrightarrow>
     keeps I (with_order_items gen cur inputs acc k) s"
proof (induction inputs arbitrary: acc)
  case (Cons i inputs)
  then show ?case by (auto intro!: keeps_intros)
qed simp

lemma keeps_numbered:
  assumes "scope u gen" "find_agg u gen s = None"
    and "\<And>number oid a. order number oid = Inr a \<Longrightarrow>
      new_order a \<and> agg_id a = oid \<and> or_orderNumber a = number \<and> or_paymentRef a = None"
    and "\<And>number a s. keeps I (answer number a) s"
  shows "keeps I (with_number u (\<lambda>n. or_return (OrderNumber_create n) (\<lambda>number.
      or_reject (UniqueEntityId_from gen) (\<lambda>oid. or_reject (order number oid) (\<lambda>a.
        then_do (save_agg env now u a) (answer number a)))))) s"
  unfolding keeps_def
proof
  assume s: "I s"
  let ?n = "show_int (last_number u s + 1)" and ?s = "number_taken u s"
  let ?k = "or_return (OrderNumber_create ?n) (\<lambda>number.
      or_reject (UniqueEntityId_from gen) (\<lambda>oid. or_reject (order number oid) (\<lambda>a.
        then_do (save_agg env now u a) (answer number a))))"
  have "keeps I ?k ?s"
  proof (intro keeps_or_return keeps_or_reject)
    fix number oid a
    assume "OrderNumber_create ?n = Inr number" "UniqueEntityId_from gen = Inr oid" "order number oid = Inr a"
    with assms(3) have a: "new_order a" "agg_id a = gen" "or_orderNumber a = ?n" "or_paymentRef a = None"
      by (auto simp: OrderNumber_create_def UniqueEntityId_from_Inr_iff split: sum.splits)
    obtain r s2 where s2: "save_agg env now u a ?s = (r, s2)" by fastforce
    have "I (snd (save_agg env now u a ?s))"
      by (rule places) (use s assms(1,2) a in simp_all)
    then have "I s2" by (simp add: s2)
    then show "keeps I (then_do (save_agg env now u a) (answer number a)) ?s"
      using keepsD [OF assms(4)] s2 by (cases r) (auto simp: keeps_def then_do_apply)
  qed
  with numbers [OF s] show "I (snd (with_number u (\<lambda>n. or_return (OrderNumber_create n) (\<lambda>number.
      or_reject (UniqueEntityId_from gen) (\<lambda>oid. or_reject (order number oid) (\<lambda>a.
        then_do (save_agg env now u a) (answer number a))))) s))"
    by (simp add: with_number_def Let_def keeps_def number_taken_def)
qed

lemma keeps_place:
  assumes "scope u (gen (length inputs))" "find_agg u (gen (length inputs)) s = None"
  shows "keeps I (PlaceOrder env gen now u c cur inputs shipping) s"
  unfolding PlaceOrder_def
proof (intro keeps_or_return)
  show "keeps I (if length inputs = 0 then return_err no_items
       else with_order_items gen cur inputs [] (\<lambda>items.
         or_return (input_address placed_extra shipping) (\<lambda>address.
         with_number u (\<lambda>n.
         or_return (OrderNumber_create n) (\<lambda>number.
         or_reject (UniqueEntityId_from (gen (length items))) (\<lambda>oid.
         or_reject (Order_place oid number c cur items address (gen (length items + 1)) now) (\<lambda>order.
           then_do (save_agg (oe_env env) now u order)
             (or_reject (totalAmount order) (\<lambda>m. return_ok (agg_id order, number, amountMinor m)))))))))) s"
    using assms placed_rows(1)
    by (auto intro!: keeps_with_order_items keeps_or_return keeps_numbered keeps_or_reject keeps_return_ok keeps_return_err)
qed

lemma keeps_checkout:
  assumes "scope u (gen (length (coi_items input)))" "find_agg u (gen (length (coi_items input))) s = None"
  shows "keeps I (CreateOrderFromCheckout env gen now u input) s"
  unfolding CreateOrderFromCheckout_def using assms placed_rows(2)
  by (auto intro!: keeps_with_order_items keeps_or_return keeps_numbered keeps_or_reject keeps_return_ok keeps_return_err)

lemma keeps_serve: "order_guard scope s q \<Longrightarrow> keeps I (order_serve env q) s"
  by (cases q)
    (simp_all add: order_guard_def keeps_drop keeps_place keeps_checkout keeps_advance keeps_capture keeps_fulfillment keeps_mark
      keeps_record keeps_refund keeps_captured)

end

sublocale order_promise \<subseteq> guarded_object I "order_guard scope" "order_serve env" for env
  by unfold_locales (rule keepsD [OF keeps_serve])

end
