(* ===== verification/OrderPromises.thy ===== *)
theory OrderPromises
  imports OrderService
begin

section \<open>What the order service promises\<close>

text \<open>
  Interpretations of the contract \<open>order_promise\<close> on the service: order numbers are handed out once, only payments of
  orders that were cancelled unpaid are voided, a recorded payment is never asked for again, a paid order stays paid.
\<close>

lemma stored_ids: "store_all P (ag_rows s) \<Longrightarrow> find_agg u j s = Some a \<Longrightarrow> agg_id a = j \<and> P a"
  unfolding find_agg_def using store_all_find by blast

lemma store_touch: "store_all P (ag_rows s) \<Longrightarrow> P a \<Longrightarrow> store_all P (ag_rows (touch_agg u a s))"
  by (simp add: touch_row_def store_all_put)

lemma store_save:
  "store_all P (ag_rows s) \<Longrightarrow> P (a\<lparr>agg_events := []\<rparr>) \<Longrightarrow> store_all P (ag_rows (snd (save_agg env now u a s)))"
  by (simp add: store_all_put)

lemma store_number [simp]: "ag_rows (number_taken u s) = ag_rows s" "sv_log (number_taken u s) = sv_log s"
  by (simp_all add: number_taken_def)

lemma last_number_taken: "last_number t (number_taken u s) = last_number t s + (if t = u then 1 else 0)"
  by (simp add: last_number_def number_taken_def update_conv')

lemma last_number_rest [simp]:
  "last_number t (touch_agg u a s) = last_number t s"
  "last_number t (snd (save_agg env now u a s)) = last_number t s"
  "last_number t (s\<lparr>sv_log := l\<rparr>) = last_number t s"
  by (simp_all add: last_number_def touch_agg_def save_agg_def split: prod.split)

lemma history_quiet [simp]:
  fixes a :: order
  shows "history_types (a\<lparr>agg_events := es\<rparr>) = history_types a" "status_of (a\<lparr>agg_events := es\<rparr>) = status_of a"
  by (simp_all add: history_types_def status_of_def)

subsection \<open>Order numbers\<close>

definition numbers_ok :: "'b order_service \<Rightarrow> bool" where
  "numbers_ok s = (store_all (\<lambda>_. True) (ag_rows s) \<and>
     (\<forall>u. FIRST_ORDER_NUMBER - 1 \<le> last_number u s) \<and>
     (\<forall>u i a. find_agg u i s = Some a \<longrightarrow>
        (\<exists>n. or_orderNumber a = show_int n \<and> FIRST_ORDER_NUMBER \<le> n \<and> n \<le> last_number u s)) \<and>
     (\<forall>u i j a b. find_agg u i s = Some a \<and> find_agg u j s = Some b \<and> or_orderNumber a = or_orderNumber b \<longrightarrow> i = j))"

lemma numbers_okD:
  assumes "numbers_ok s"
  shows "store_all (\<lambda>_. True) (ag_rows s)" "FIRST_ORDER_NUMBER - 1 \<le> last_number u s"
    "find_agg u i s = Some a \<Longrightarrow> \<exists>n. or_orderNumber a = show_int n \<and> FIRST_ORDER_NUMBER \<le> n \<and> n \<le> last_number u s"
    "find_agg u i s = Some a \<Longrightarrow> find_agg u j s = Some b \<Longrightarrow> or_orderNumber a = or_orderNumber b \<Longrightarrow> i = j"
  using assms unfolding numbers_ok_def by blast+

text \<open>A row that keeps its number.\<close>

lemma numbers_ok_same:
  assumes "numbers_ok s" "find_agg u (agg_id a) s = Some b" "or_orderNumber a = or_orderNumber b"
    and rows: "\<And>t i. map_option or_orderNumber (find_agg t i s') =
      (if t = u \<and> i = agg_id a then Some (or_orderNumber a) else map_option or_orderNumber (find_agg t i s))"
    and last: "\<And>t. last_number t s' = last_number t s" and store: "store_all (\<lambda>_. True) (ag_rows s')"
  shows "numbers_ok s'"
proof -
  have eq: "map_option or_orderNumber (find_agg t i s') = map_option or_orderNumber (find_agg t i s)" for t i
    using rows [of t i] assms(2,3) by simp
  have earlier: "\<exists>y. find_agg t i s = Some y \<and> or_orderNumber y = or_orderNumber x" if "find_agg t i s' = Some x" for t i x
    using eq [of t i] that by (cases "find_agg t i s") auto
  show ?thesis
    unfolding numbers_ok_def last
  proof (intro conjI allI impI store numbers_okD(2) [OF assms(1)])
    fix t i x assume "find_agg t i s' = Some x"
    with earlier numbers_okD(3) [OF assms(1)]
    show "\<exists>n. or_orderNumber x = show_int n \<and> FIRST_ORDER_NUMBER \<le> n \<and> n \<le> last_number t s" by metis
  next
    fix t i j x y
    assume "find_agg t i s' = Some x \<and> find_agg t j s' = Some y \<and> or_orderNumber x = or_orderNumber y"
    with earlier numbers_okD(4) [OF assms(1)] show "i = j" by metis
  qed
qed

lemma numbers_ok_place:
  assumes ok: "numbers_ok s" and fresh: "find_agg u (agg_id a) s = None"
    and number: "or_orderNumber a = show_int (last_number u s + 1)"
  shows "numbers_ok (snd (save_agg env now u a (number_taken u s)))" (is "numbers_ok ?s")
proof -
  have find: "find_agg t i ?s = (if t = u \<and> i = agg_id a then Some (a\<lparr>agg_events := []\<rparr>) else find_agg t i s)" for t i
    by (simp add: find_agg_save)
  have last: "last_number t ?s = last_number t s + (if t = u then 1 else 0)" for t
    by (simp add: last_number_taken)
  have new: "or_orderNumber b \<noteq> or_orderNumber a" if b: "find_agg u i s = Some b" for i b
  proof -
    obtain n where n: "or_orderNumber b = show_int n" "FIRST_ORDER_NUMBER \<le> n" "n \<le> last_number u s"
      using numbers_okD(3) [OF ok b] by blast
    have "show_int n \<noteq> show_int (last_number u s + 1)"
      using n numbers_okD(2) [OF ok, of u] show_nat_inj [of "nat n" "nat (last_number u s + 1)"]
      by (auto simp: show_int_def FIRST_ORDER_NUMBER_def)
    with n number show ?thesis by simp
  qed
  show ?thesis
    unfolding numbers_ok_def
  proof (intro conjI allI impI)
    show "store_all (\<lambda>_. True) (ag_rows ?s)" by (rule store_save) (simp_all add: numbers_okD(1) [OF ok])
    show "FIRST_ORDER_NUMBER - 1 \<le> last_number t ?s" for t using numbers_okD(2) [OF ok, of t] unfolding last by auto
  next
    fix t i b assume b: "find_agg t i ?s = Some b"
    show "\<exists>n. or_orderNumber b = show_int n \<and> FIRST_ORDER_NUMBER \<le> n \<and> n \<le> last_number t ?s"
    proof (cases "t = u \<and> i = agg_id a")
      case True
      with b number numbers_okD(2) [OF ok, of u] show ?thesis
        by (intro exI [of _ "last_number u s + 1"]) (auto simp: find last_number_taken)
    next
      case False
      with b have "find_agg t i s = Some b" by (auto simp: find split: if_splits)
      from numbers_okD(3) [OF ok this] obtain n
        where "or_orderNumber b = show_int n" "FIRST_ORDER_NUMBER \<le> n" "n \<le> last_number t s" by blast
      then show ?thesis by (intro exI [of _ n]) (auto simp: last_number_taken)
    qed
  next
    fix t i j x y
    assume "find_agg t i ?s = Some x \<and> find_agg t j ?s = Some y \<and> or_orderNumber x = or_orderNumber y"
    then show "i = j"
      using new numbers_okD(4) [OF ok, of t i x j y] by (fastforce simp: find split: if_splits)
  qed
qed

interpretation numbers: order_promise "\<lambda>_ _. True" numbers_ok
proof unfold_locales
  fix s :: "'b order_service" and u j a assume "numbers_ok s" "find_agg u j s = Some a"
  then show "agg_id a = j" using stored_ids numbers_okD(1) by blast
next
  fix s :: "'b order_service" and u j and a a' :: order
  assume s: "numbers_ok s" "find_agg u j s = Some a" "order_moved a a'"
  then have j: "agg_id a = j" using stored_ids numbers_okD(1) by blast
  with moved_same_row [OF s(3)] have a': "agg_id a' = j" "or_orderNumber a' = or_orderNumber a" by (simp_all add: same_row_def)
  show "numbers_ok (touch_agg u a' s)"
    by (rule numbers_ok_same [OF s(1), of u a' a])
      (use s(2) a' store_touch numbers_okD(1) [OF s(1)] in \<open>auto simp: find_agg_touch\<close>)
next
  fix s :: "'b order_service" and u and a :: order and env :: "(order_domain_event, 'b) agg_env" and now
  assume s: "numbers_ok s" "find_agg u (agg_id a) s = Some a"
  show "numbers_ok (snd (save_agg env now u a s))"
    by (rule numbers_ok_same [OF s(1), of u a a])
      (use s(2) store_save numbers_okD(1) [OF s(1)] in \<open>auto simp: find_agg_save\<close>)
next
  fix s :: "'b order_service" and u assume s: "numbers_ok s"
  have "\<exists>n. or_orderNumber a = show_int n \<and> FIRST_ORDER_NUMBER \<le> n \<and> n \<le> last_number t (number_taken u s)"
    if a: "find_agg t i s = Some a" for t i a
  proof -
    obtain n where "or_orderNumber a = show_int n" "FIRST_ORDER_NUMBER \<le> n" "n \<le> last_number t s"
      using numbers_okD(3) [OF s a] by blast
    then show ?thesis unfolding last_number_taken by (intro exI [of _ n]) auto
  qed
  moreover have "FIRST_ORDER_NUMBER - 1 \<le> last_number t (number_taken u s)" for t
    using numbers_okD(2) [OF s, of t] unfolding last_number_taken by auto
  ultimately show "numbers_ok (number_taken u s)"
    using numbers_okD(1,4) [OF s] unfolding numbers_ok_def by simp blast
next
  fix s :: "'b order_service" and u and a :: order and env :: "(order_domain_event, 'b) agg_env" and now
  assume "numbers_ok s" "find_agg u (agg_id a) s = None" "or_orderNumber a = show_int (last_number u s + 1)"
  then show "numbers_ok (snd (save_agg env now u a (number_taken u s)))" by (rule numbers_ok_place)
qed (simp_all add: numbers_ok_def)

subsection \<open>Voided payments\<close>

definition row_legal :: "order \<Rightarrow> bool" where
  "row_legal a = (order_inv a \<and> isValidCurrencyCode (or_currency a))"

lemma row_legal_quiet [simp]: "row_legal (a\<lparr>agg_events := es\<rparr>) = row_legal a"
  by (simp add: row_legal_def order_inv_def)

lemma moved_legal: "order_moved a a' \<Longrightarrow> row_legal a \<Longrightarrow> row_legal a'"
  using moved_inv order_frame by (auto simp: row_legal_def order_moved_def)

lemma new_legal: "new_order a \<Longrightarrow> row_legal a"
proof -
  assume new: "new_order a"
  then have "isValidCurrencyCode (or_currency a)"
    by (cases rule: new_order.cases)
      (auto simp: Order_place_def Order_createFromCheckout_def Let_def then_do_apply order_record_def raise_with_total_def
        bind_action_apply split: if_splits sum.splits prod.splits)
  with new_order_inv [OF new] show ?thesis by (simp add: row_legal_def)
qed

definition was_cancelled :: "order \<Rightarrow> bool" where
  "was_cancelled a = (OCancelled \<in> set (history_types a))"

text \<open>After its cancellation an order keeps its payment reference and its past.\<close>

lemma cancelled_step:
  assumes "order_inv a" "was_cancelled a"
  shows "or_paymentRef (snd (order_step c a)) = or_paymentRef a \<and> was_cancelled (snd (order_step c a))"
proof -
  have past: "was_cancelled (snd (order_step c a))"
    using order_step_grows [of a c] assms(2) by (auto simp: grows_def was_cancelled_def history_types_def)
  have last: "last (history_types a) \<in> {OCancelled, OClosed}" "or_history a \<noteq> []"
    using assms by (auto simp: order_inv_def phase_ok_def was_cancelled_def history_types_def)
  have "or_paymentRef (snd (order_step c a)) = or_paymentRef a"
  proof (cases c rule: order_step.cases)
    case (4 to e t)
    then show ?thesis
      by (auto simp: order_transition_def with_status_cases then_do_apply order_record_def split: sum.split)
  qed (use last in \<open>auto simp: order_markPaid_def order_completePayment_def order_refund_def order_requestPayment_def
      order_requestFulfillment_def order_transition_def with_status_cases canTransition_def canRefund_def then_do_apply\<close>)
  with past show ?thesis by blast
qed

lemma cancelled_moved:
  assumes "order_moved a a'" "order_inv a" "was_cancelled a"
  shows "or_paymentRef a' = or_paymentRef a" "was_cancelled a'"
proof -
  have "or_paymentRef (runs order_step cs a) = or_paymentRef a \<and> was_cancelled (runs order_step cs a)" for cs
    using assms(2,3)
  proof (induction cs arbitrary: a)
    case (Cons c cs)
    from cancelled_step [OF Cons.prems] Cons.IH [of "snd (order_step c a)"] order_step_inv [OF Cons.prems(1)]
    show ?case by simp
  qed simp
  with assms(1) show "or_paymentRef a' = or_paymentRef a" "was_cancelled a'" by (auto simp: order_moved_def)
qed

definition voids_ok :: "'b order_service \<Rightarrow> bool" where
  "voids_ok s = (store_all row_legal (ag_rows s) \<and>
     (\<forall>r u. VoidAsked (r, u) \<in> set (sv_log s) \<longrightarrow>
        (\<exists>j a. find_agg u j s = Some a \<and> or_paymentRef a = Some r \<and> was_cancelled a)))"

lemma was_cancelled_quiet [simp]: "was_cancelled (a\<lparr>agg_events := es\<rparr>) = was_cancelled a"
  by (simp add: was_cancelled_def)

text \<open>The witness of a void survives when its row does.\<close>

lemma voids_ok_rows:
  assumes "voids_ok s" "store_all row_legal (ag_rows s')" "sv_log s' = sv_log s"
    and "\<And>u j a r. find_agg u j s = Some a \<Longrightarrow> or_paymentRef a = Some r \<Longrightarrow> was_cancelled a \<Longrightarrow>
      \<exists>j' b. find_agg u j' s' = Some b \<and> or_paymentRef b = Some r \<and> was_cancelled b"
  shows "voids_ok s'"
  using assms unfolding voids_ok_def by metis

interpretation voids: order_promise "\<lambda>_ _. True" voids_ok
proof unfold_locales
  fix s :: "'b order_service" and u j a assume "voids_ok s" "find_agg u j s = Some a"
  then show "agg_id a = j" using stored_ids unfolding voids_ok_def by blast
next
  fix s :: "'b order_service" and u j and a a' :: order
  assume s: "voids_ok s" "find_agg u j s = Some a" "order_moved a a'"
  have a: "agg_id a = j \<and> row_legal a" using s(1,2) stored_ids unfolding voids_ok_def by blast
  have a': "agg_id a' = j" "row_legal a'"
    using moved_same_row [OF s(3)] moved_legal [OF s(3)] a by (simp_all add: same_row_def)
  show "voids_ok (touch_agg u a' s)"
  proof (rule voids_ok_rows [OF s(1)])
    show "store_all row_legal (ag_rows (touch_agg u a' s))"
      using s(1) a'(2) by (intro store_touch) (simp_all add: voids_ok_def)
  next
    fix t i b r assume b: "find_agg t i s = Some b" "or_paymentRef b = Some r" "was_cancelled b"
    show "\<exists>j' c. find_agg t j' (touch_agg u a' s) = Some c \<and> or_paymentRef c = Some r \<and> was_cancelled c"
    proof (cases "t = u \<and> i = j")
      case True
      with b s(2) have "b = a" by simp
      with b cancelled_moved [OF s(3)] a True a' show ?thesis
        by (intro exI [of _ j] exI [of _ a']) (simp add: find_agg_touch row_legal_def)
    next
      case False
      with b a' show ?thesis by (intro exI [of _ i] exI [of _ b]) (auto simp: find_agg_touch)
    qed
  qed simp
next
  fix s :: "'b order_service" and u and a :: order and env :: "(order_domain_event, 'b) agg_env" and now
  assume s: "voids_ok s" "find_agg u (agg_id a) s = Some a"
  have legal: "row_legal a" using s stored_ids unfolding voids_ok_def by blast
  show "voids_ok (snd (save_agg env now u a s))"
  proof (rule voids_ok_rows [OF s(1)])
    show "store_all row_legal (ag_rows (snd (save_agg env now u a s)))"
      using s(1) legal by (intro store_save) (simp_all add: voids_ok_def)
  next
    fix t i b r assume b: "find_agg t i s = Some b" "or_paymentRef b = Some r" "was_cancelled b"
    then show "\<exists>j' c. find_agg t j' (snd (save_agg env now u a s)) = Some c \<and> or_paymentRef c = Some r \<and> was_cancelled c"
      using s(2) by (cases "t = u \<and> i = agg_id a") (auto simp: find_agg_save intro!: exI [of _ i])
  qed simp
next
  fix s :: "'b order_service" and u assume "voids_ok s"
  then show "voids_ok (number_taken u s)" by (simp add: voids_ok_def)
next
  fix s :: "'b order_service" and u and a :: order and env :: "(order_domain_event, 'b) agg_env" and now
  assume s: "voids_ok s" "find_agg u (agg_id a) s = None" "new_order a"
  show "voids_ok (snd (save_agg env now u a (number_taken u s)))"
  proof (rule voids_ok_rows [OF s(1)])
    show "store_all row_legal (ag_rows (snd (save_agg env now u a (number_taken u s))))"
      using s(1) new_legal [OF s(3)] by (intro store_save) (simp_all add: voids_ok_def)
  next
    fix t i b r assume b: "find_agg t i s = Some b" "or_paymentRef b = Some r" "was_cancelled b"
    with s(2) show "\<exists>j' c. find_agg t j' (snd (save_agg env now u a (number_taken u s))) = Some c \<and>
        or_paymentRef c = Some r \<and> was_cancelled c"
      by (intro exI [of _ i] exI [of _ b]) (auto simp: find_agg_save)
  qed simp
next
  fix s :: "'b order_service" and ev assume "voids_ok s" "routine_call ev"
  then show "voids_ok (s\<lparr>sv_log := sv_log s @ [ev]\<rparr>)" by (auto simp: voids_ok_def)
next
  fix s :: "'b order_service" and u j n c and a :: order
  assume "voids_ok s"
  then show "voids_ok (s\<lparr>sv_log := sv_log s @ [CaptureAsked (j, n, c, u)]\<rparr>)" by (auto simp: voids_ok_def)
next
  fix s :: "'b order_service" and u j r and a :: order
  assume "voids_ok s" "find_agg u j s = Some a" "status_of a = Some OCancelled" "or_paymentRef a = Some r"
  moreover from this have "was_cancelled a"
    using last_in_set [of "history_types a"] by (auto simp: was_cancelled_def status_of_def history_types_def split: if_splits)
  ultimately show "voids_ok (s\<lparr>sv_log := sv_log s @ [VoidAsked (r, u)]\<rparr>)" by (auto simp: voids_ok_def)
qed

subsection \<open>A recorded payment\<close>

fun asks_capture :: "string \<Rightarrow> string \<Rightarrow> order_port_event \<Rightarrow> bool" where
  "asks_capture t i (CaptureAsked (j, n, c, u)) = (u = t \<and> j = i)"
| "asks_capture t i ev = False"

definition captures_asked :: "string \<Rightarrow> string \<Rightarrow> 'b order_service \<Rightarrow> nat" where
  "captures_asked t i s = length (filter (asks_capture t i) (sv_log s))"

text \<open>A fact about one order that its moves keep, with the number of captures asked for it.\<close>

definition row_holds :: "(order \<Rightarrow> bool) \<Rightarrow> string \<Rightarrow> string \<Rightarrow> 'b order_service \<Rightarrow> bool" where
  "row_holds K t i s = (store_all row_legal (ag_rows s) \<and> (\<exists>a. find_agg t i s = Some a \<and> K a))"

locale order_fact =
  fixes K :: "order \<Rightarrow> bool"
  assumes K_step: "K a \<Longrightarrow> row_legal a \<Longrightarrow> K (snd (order_step c a))"
    and K_quiet: "K (a\<lparr>agg_events := es\<rparr>) = K a"
begin

lemma K_moved: "order_moved a a' \<Longrightarrow> K a \<Longrightarrow> row_legal a \<Longrightarrow> K a'"
proof -
  have "K (runs order_step cs a)" if "K a" "row_legal a" for cs
    using that
  proof (induction cs arbitrary: a)
    case (Cons c cs)
    then show ?case using K_step [of a c] moved_legal [OF moved_step, of a c] by simp
  qed simp
  then show "order_moved a a' \<Longrightarrow> K a \<Longrightarrow> row_legal a \<Longrightarrow> K a'" by (auto simp: order_moved_def)
qed

lemma holds_moves:
  assumes "row_holds K t i s" "find_agg u j s = Some a" "order_moved a a'"
  shows "row_holds K t i (touch_agg u a' s)"
proof -
  have store: "store_all row_legal (ag_rows s)" using assms(1) by (simp add: row_holds_def)
  have a: "agg_id a = j" "row_legal a" using store assms(2) stored_ids by blast+
  have a': "agg_id a' = j" "row_legal a'"
    using moved_same_row [OF assms(3)] moved_legal [OF assms(3)] a by (simp_all add: same_row_def)
  have "store_all row_legal (ag_rows (touch_agg u a' s))" by (rule store_touch [OF store a'(2)])
  then show ?thesis
    using assms K_moved [OF assms(3) _ a(2)] a'(1)
    by (cases "u = t \<and> j = i") (auto simp: row_holds_def find_agg_touch simp del: touch_agg_rows)
qed

lemma holds_saves:
  assumes "row_holds K t i s" "find_agg u (agg_id a) s = Some a"
  shows "row_holds K t i (snd (save_agg env now u a s))"
proof -
  have store: "store_all row_legal (ag_rows s)" using assms(1) by (simp add: row_holds_def)
  then have "row_legal a" using assms(2) stored_ids by blast
  then have "store_all row_legal (ag_rows (snd (save_agg env now u a s)))" by (intro store_save [OF store]) simp
  then show ?thesis
    using assms by (cases "u = t \<and> agg_id a = i") (auto simp: row_holds_def find_agg_save K_quiet simp del: save_agg_rows)
qed

lemma holds_places:
  assumes "row_holds K t i s" "find_agg u (agg_id a) s = None" "new_order a"
  shows "row_holds K t i (snd (save_agg env now u a (number_taken u s)))"
proof -
  have "store_all row_legal (ag_rows (snd (save_agg env now u a (number_taken u s))))"
    using assms(1) new_legal [OF assms(3)] by (intro store_save) (simp_all add: row_holds_def)
  then show ?thesis
    using assms by (cases "u = t \<and> agg_id a = i") (auto simp: row_holds_def find_agg_save simp del: save_agg_rows)
qed

lemma holds_rest:
  "row_holds K t i s \<Longrightarrow> row_holds K t i (number_taken u s)"
  "row_holds K t i s \<Longrightarrow> row_holds K t i (s\<lparr>sv_log := l\<rparr>)"
  by (simp_all add: row_holds_def)

end

sublocale order_fact \<subseteq> held: order_promise "\<lambda>_ _. True" "row_holds K t i :: 'b order_service \<Rightarrow> bool" for t i
proof unfold_locales
  fix s :: "'b order_service" and u j a assume "row_holds K t i s" "find_agg u j s = Some a"
  then show "agg_id a = j" using stored_ids unfolding row_holds_def by blast
qed (auto intro: holds_moves holds_saves holds_places holds_rest)

definition has_payment :: "order \<Rightarrow> bool" where
  "has_payment a = (or_paymentRef a \<noteq> None)"

definition is_paid :: "order \<Rightarrow> bool" where
  "is_paid a = (status_of a \<in> Some ` after_payment)"

interpretation linked: order_fact has_payment
  by unfold_locales (use same_row_step in \<open>auto simp: has_payment_def same_row_def\<close>)

interpretation paid: order_fact is_paid
proof unfold_locales
  fix a c assume "is_paid a"
  then show "is_paid (snd (order_step c a))" using ord_paid.step_inv by (simp add: is_paid_def)
qed (simp add: is_paid_def)

text \<open>No further capture is asked for.\<close>

definition settled :: "string \<Rightarrow> string \<Rightarrow> nat \<Rightarrow> 'b order_service \<Rightarrow> bool" where
  "settled t i n s = (row_holds has_payment t i s \<and> captures_asked t i s = n)"

lemma captures_asked_log [simp]:
  "captures_asked t i (touch_agg u a s) = captures_asked t i s"
  "captures_asked t i (snd (save_agg env now u a s)) = captures_asked t i s"
  "captures_asked t i (number_taken u s) = captures_asked t i s"
  "captures_asked t i (s\<lparr>sv_log := sv_log s @ [ev]\<rparr>) = captures_asked t i s + (if asks_capture t i ev then 1 else 0)"
  by (simp_all add: captures_asked_def)

interpretation settled: order_promise "\<lambda>_ _. True" "settled t i n :: 'b order_service \<Rightarrow> bool" for t i n
proof unfold_locales
  fix s :: "'b order_service" and u j a assume "settled t i n s" "find_agg u j s = Some a"
  then show "agg_id a = j" using linked.held.ids [of t i s u j a] by (simp add: settled_def)
next
  fix s :: "'b order_service" and ev assume "settled t i n s" "routine_call ev"
  then show "settled t i n (s\<lparr>sv_log := sv_log s @ [ev]\<rparr>)"
    by (cases ev) (simp_all add: settled_def linked.holds_rest)
next
  fix s :: "'b order_service" and u j a m c
  assume s: "settled t i n s" "find_agg u j s = Some a" "or_paymentRef a = None"
  then have "\<not> (u = t \<and> j = i)" by (auto simp: settled_def row_holds_def has_payment_def)
  with s show "settled t i n (s\<lparr>sv_log := sv_log s @ [CaptureAsked (j, m, c, u)]\<rparr>)"
    by (auto simp: settled_def linked.holds_rest)
qed (auto simp: settled_def intro: linked.holds_moves linked.holds_saves linked.holds_places linked.holds_rest)

lemma all_scope: "order_guard (\<lambda>_ _. True) = fresh_order"
  by (simp add: fun_eq_iff order_guard_def)

lemma empty_promises: "numbers_ok empty_orders" "voids_ok empty_orders"
  by (simp_all add: numbers_ok_def voids_ok_def empty_orders_def find_agg_def find_row_def bucket_def last_number_def)

lemma reachable_legal:
  assumes "admissible fresh_order (order_serve env) empty_orders qs"
  shows "voids_ok (runs (order_serve env) qs empty_orders)"
  using voids.guarded_runs [OF empty_promises(2), of env qs] assms by (simp add: all_scope)

subsection \<open>What an answer tells\<close>

lemma snd_order_answer [simp]: "snd (order_answer a s) = s"
  by (simp add: order_answer_def or_reject_def split: sum.split)

lemma answers_order_answer: "Q s \<Longrightarrow> answers (\<lambda>_. Q) (order_answer a) s"
  by (metis answers_def snd_order_answer snd_conv)

lemma answers_kept: "keeps P f s \<Longrightarrow> P s \<Longrightarrow> answers (\<lambda>_. P) f s"
  by (simp add: answers_def keeps_def) (metis snd_conv)

context order_fact
begin

lemma answers_call:
  assumes "voids_ok s" "find_agg u j s = Some a" "order_moved a (snd (act a))"
    and "\<And>a'. act a = (Inr (), a') \<Longrightarrow> K a'"
    and "\<And>a' s. keeps (row_holds K u j) (k a') s"
  shows "answers (\<lambda>_. row_holds K u j) (call_then env now u act k a) s"
proof (rule answers_call_then)
  fix a' assume act: "act a = (Inr (), a')"
  let ?s = "snd (save_agg env now u a' (touch_agg u a' s))"
  have store: "store_all row_legal (ag_rows s)" using assms(1) by (simp add: voids_ok_def)
  have a: "agg_id a = j" "row_legal a" using store assms(2) stored_ids by blast+
  have moved: "order_moved a a'" using assms(3) act by simp
  have a': "agg_id a' = j" "row_legal a'"
    using moved_same_row [OF moved] moved_legal [OF moved a(2)] a(1) by (simp_all add: same_row_def)
  have "store_all row_legal (ag_rows ?s)"
    by (rule store_save, rule store_touch [OF store a'(2)]) (simp add: a'(2))
  moreover have "find_agg u j ?s = Some (a'\<lparr>agg_events := []\<rparr>)" by (simp add: find_agg_save a'(1))
  ultimately have "row_holds K u j ?s" using assms(4) [OF act] by (simp add: row_holds_def K_quiet)
  with assms(5) show "answers (\<lambda>_. row_holds K u j) (k a') ?s" by (rule answers_kept)
qed

end

lemma voids_ok_logged [simp]: "voids_ok s \<Longrightarrow> routine_call ev \<Longrightarrow> voids_ok (s\<lparr>sv_log := sv_log s @ [ev]\<rparr>)"
  by (rule voids.routine)

lemma stored_payment:
  fixes s :: "'b order_service"
  shows "voids_ok s \<Longrightarrow> find_agg t i s = Some a \<Longrightarrow> or_paymentRef a = Some r \<Longrightarrow> row_holds has_payment t i s"
  by (simp add: row_holds_def has_payment_def voids_ok_def)

lemma record_links:
  fixes s :: "'b order_service" and env :: "'b order_env"
  assumes "voids_ok s"
  shows "answers (\<lambda>_. row_holds has_payment t i) (RecordCheckoutPayment env inputs t i ref) s"
  unfolding RecordCheckoutPayment_def
proof (rule answers_retry [where P = voids_ok])
  fix n and s :: "'b order_service" assume s: "voids_ok s"
  have act: "has_payment a'" if "record_payment ref (inputs n) a = (Inr (), a')" for a a'
    using that
    by (cases "inputs n") (auto simp: record_payment_def order_requestPayment_def then_do_ok_iff has_payment_def)
  show "answers (\<lambda>_. row_holds has_payment t i) (record_attempt env t i ref (inputs n)) s"
    unfolding record_attempt_def
  proof (rule answers_lookup)
    fix a assume a: "find_agg t i s = Some a"
    show "answers (\<lambda>_. row_holds has_payment t i)
       (case or_paymentRef a of
         Some r \<Rightarrow> if r = ref then order_answer a
           else return_err (BusinessRuleError ''Order is already linked to a different payment'')
       | None \<Rightarrow> or_reject (order_status a) (\<lambda>st.
           if st \<noteq> OCreated
           then return_err (BusinessRuleError (''Cannot record a payment for an order in status \"'' @ order_type_name st @ ''\"''))
           else call_then (oe_env env) (snd (snd (snd (inputs n)))) t (record_payment ref (inputs n)) order_answer a)) s"
    proof (cases "or_paymentRef a")
      case None
      have "answers (\<lambda>_. row_holds has_payment t i)
          (call_then (oe_env env) now t (record_payment ref (inputs n)) order_answer a) s" for now
        by (rule linked.answers_call [OF s a]) (simp_all add: act linked.held.keeps_answer)
      with None show ?thesis by (auto intro!: answers_intros)
    next
      case (Some r)
      with stored_payment [OF s a] show ?thesis by (auto intro!: answers_order_answer answers_intros)
    qed
  qed
qed (auto intro!: voids.keeps_attempts assms)

lemma request_links:
  fixes s :: "'b order_service" and env :: "'b order_env"
  assumes s: "voids_ok s"
  shows "answers (\<lambda>_. row_holds has_payment t i) (RequestPaymentCapture env inputs t i) s"
  unfolding RequestPaymentCapture_def
proof (rule answers_lookup)
  fix a assume a: "find_agg t i s = Some a"
  have attempt: "answers (\<lambda>_. row_holds has_payment t i) (capture_attempt env t i ref (inputs n)) s'"
    if s': "voids_ok s'" for ref n and s' :: "'b order_service"
    unfolding capture_attempt_def
  proof (rule answers_lookup)
    fix b assume b: "find_agg t i s' = Some b"
    have act: "has_payment a'" if "order_requestPayment ref e now b = (Inr (), a')" for e now a'
      using that by (auto simp: order_requestPayment_def then_do_ok_iff has_payment_def)
    have "answers (\<lambda>_. row_holds has_payment t i)
        (call_then (oe_env env) now t (order_requestPayment ref e now)
          (\<lambda>a. notify_order (oe_ports env) a t (order_answer a)) b) s'" for now e
      by (rule linked.answers_call [OF s' b])
        (auto simp: act intro!: linked.held.keeps_notify linked.held.keeps_answer)
    then show "answers (\<lambda>_. row_holds has_payment t i)
        (if or_paymentRef b = None
         then call_then (oe_env env) (snd (inputs n)) t (order_requestPayment ref (fst (inputs n)) (snd (inputs n)))
              (\<lambda>a. notify_order (oe_ports env) a t (order_answer a)) b
         else order_answer b) s'"
      using stored_payment [OF s' b] by (auto intro!: answers_order_answer)
  qed
  show "answers (\<lambda>_. row_holds has_payment t i)
     (or_reject (order_status a) (\<lambda>st. or_reject (totalAmount a) (\<lambda>m.
        if or_paymentRef a \<noteq> None then return_ok \<lparr>oo_orderId = i, oo_status = st\<rparr>
        else if \<not> canTransition st OPaymentRequested then return_err (cannot_transition st OPaymentRequested)
        else consulted (op_payment (oe_ports env)) CaptureAsked (i, amountMinor m, or_currency a, t) (\<lambda>ref.
          withConcurrencyRetry 1 5 (\<lambda>n. capture_attempt env t i ref (inputs n)))))) s"
    using stored_payment [OF s a] s a
    by (auto intro!: answers_intros answers_retry [where P = voids_ok] attempt voids.keeps_attempts voids.captures)
qed

end
