(* ===== verification/OrderOutcomes.thy ===== *)
theory OrderOutcomes
  imports OrderPromises
begin

section \<open>Outcomes of the order service\<close>

text \<open>
  What holds of every history of requests from the empty service, and the way of a checkout order to its payment.
\<close>

lemma reachable_numbers:
  "admissible fresh_order (order_serve env) empty_orders qs \<Longrightarrow> numbers_ok (runs (order_serve env) qs empty_orders)"
  using numbers.guarded_runs [OF empty_promises(1), of env qs] by (simp add: all_scope)

lemma cancelled_unpaid:
  "row_legal a \<Longrightarrow> was_cancelled a \<Longrightarrow> OPaid \<notin> set (history_types a) \<and> OPaymentReceived \<notin> set (history_types a)"
  by (auto simp: row_legal_def order_inv_def phase_ok_def was_cancelled_def)

text \<open>The answers that settle a payment.\<close>

lemma mark_pays:
  fixes s :: "'b order_service" and env :: "'b order_env"
  assumes s: "voids_ok s"
  shows "answers (\<lambda>_. row_holds is_paid t i) (MarkOrderPaid env gen now t i ref) s"
proof -
  have pay: "answers (\<lambda>_. row_holds is_paid t i) (pay_loaded env gen now t i ref) s'"
    if s': "voids_ok s'" for s' :: "'b order_service"
    unfolding pay_loaded_def
  proof (rule answers_lookup)
    fix a assume a: "find_agg t i s' = Some a"
    show "answers (\<lambda>_. row_holds is_paid t i)
        (call_then (oe_env env) now t (order_completePayment ref gen now)
          (\<lambda>a. observe_truth (oe_ports env) ref a (order_answer a)) a) s'"
    proof (rule paid.answers_call [OF s' a])
      fix a' assume "order_completePayment ref gen now a = (Inr (), a')"
      then show "is_paid a'" unfolding is_paid_def by (rule completePayment_ok_status)
    next
      fix a' and s :: "'b order_service"
      show "keeps (row_holds is_paid t i) (observe_truth (oe_ports env) ref a' (order_answer a')) s"
        unfolding observe_truth_def
        by (auto intro!: keeps_or_reject keeps_consulted paid.held.keeps_answer paid.held.routine split: option.split)
    qed simp
  qed
  then show ?thesis
    unfolding MarkOrderPaid_def using s
    by (auto intro!: answers_intros pay split: option.split)
qed

lemma mark_notice:
  "handle_captured env gen now tid i ref s = (Inr (Inr u), s') \<Longrightarrow> readEnvelopeTenant tid = Some t \<Longrightarrow>
     \<exists>r. MarkOrderPaid env gen now t i ref s = (Inr r, s')"
  by (auto simp: handle_captured_def return_ok_def split: prod.splits sum.splits if_splits)

subsection \<open>A notice that comes again\<close>

lemma paid_status_recognised:
  "st \<in> after_payment \<Longrightarrow> already_paid (cannot_be_paid st) = (st \<in> {OPaid, OPaymentReceived})"
proof -
  have "list_all (\<lambda>st. already_paid (cannot_be_paid st) = (st \<in> {OPaid, OPaymentReceived}))
      [OPaid, ORefunded, OPaymentReceived, OReadyForFulfillment, OFulfillmentRequested, OPartiallyFulfilled, OFulfilled,
       ODelivered, OReturnRequested, OReturned, ORefundRequested, OClosed]"
    by code_simp
  then show "st \<in> after_payment \<Longrightarrow> already_paid (cannot_be_paid st) = (st \<in> {OPaid, OPaymentReceived})" by auto
qed

lemma pay_again:
  fixes s :: "'b order_service" and env :: "'b order_env"
  assumes "row_holds is_paid t i s"
  obtains a st where "find_agg t i s = Some a" "order_status a = Inr st" "st \<in> after_payment"
    "pay_loaded env gen now t i ref s = (Inr (Inl (cannot_be_paid st)), s)"
proof -
  obtain a where a: "find_agg t i s = Some a" "is_paid a" using assms by (auto simp: row_holds_def)
  then obtain st where st: "status_of a = Some st" "st \<in> after_payment" by (auto simp: is_paid_def)
  have "agg_id a = i" using assms a(1) stored_ids unfolding row_holds_def by blast
  then have "pay_loaded env gen now t i ref s = (Inr (Inl (cannot_be_paid st)), s)"
    using a(1) after_payment_not_payable [OF st] touch_agg_same [of t a s]
    by (simp add: pay_loaded_def lookup_def call_then_def)
  moreover have "order_status a = Inr st" using st(1) by (auto simp: status_of_def order_status_Inr_iff split: if_splits)
  ultimately show ?thesis using that a(1) st(2) by blast
qed

subsection \<open>From checkout to payment\<close>

lemma order_event_topics: "OrderEventTranslator ev = Some d \<Longrightarrow> event_type_pattern (d_type d) \<and> d_eventVersion d = 1"
proof -
  have "event_type_pattern ''orders.order.placed''" "event_type_pattern ''orders.order.paid''"
    "event_type_pattern ''orders.order.refunded''"
    by code_simp+
  moreover have "event_type_pattern (''orders.order.'' @ order_type_name to)" for to
    by (cases to; hypsubst; code_simp)
  ultimately show "OrderEventTranslator ev = Some d \<Longrightarrow> event_type_pattern (d_type d) \<and> d_eventVersion d = 1"
    by (cases "ev_data ev") (auto simp: OrderEventTranslator_def)
qed

lemma order_save_ok:
  fixes s :: "'b order_service"
  assumes "ae_translate env = OrderEventTranslator" "\<not> blank t"
  shows "fst (save_agg env now t a s) = Inr ()"
  by (rule save_agg_ok) (use order_event_topics assms in auto)

lemma transition_goes:
  assumes "status_of a = Some st" "canTransition st to" "\<not> blank e"
  obtains a' where "order_transition to e now a = (Inr (), a')" "status_of a' = Some to" "or_paymentRef a' = or_paymentRef a"
    "agg_id a' = agg_id a"
proof -
  have a: "or_history a \<noteq> []" "last (history_types a) = st" using assms(1) by (auto simp: status_of_def split: if_splits)
  let ?b = "a\<lparr>or_history := or_history a @ [\<lparr>oh_id = e, oh_type = to, oh_occurredAt = now\<rparr>]\<rparr>"
  let ?a = "addDomainEvent e now (OrderTransitioned (or_orderNumber a) (or_customerRef a) st to) ?b"
  have "order_transition to e now a = (Inr (), ?a)"
    using a assms(2,3) by (simp add: order_transition_def with_status_cases then_do_apply order_record_def)
  then show ?thesis by (rule that) (simp_all add: status_of_def history_types_def)
qed

lemma status_linked [simp]: "status_of (a\<lparr>or_paymentRef := r\<rparr>) = status_of a"
  by (simp add: status_of_def history_types_def)

lemma recording_goes:
  assumes "status_of a = Some OCreated" "\<not> blank g1" "\<not> blank g2" "\<not> blank g3"
  obtains a' where "record_payment ref (g1, g2, g3, now) a = (Inr (), a')" "status_of a' = Some OPaymentRequested"
    "or_paymentRef a' = Some ref" "agg_id a' = agg_id a"
proof -
  have edges: "canTransition OCreated OConfirmed" "canTransition OConfirmed OAwaitingPayment"
    "canTransition OAwaitingPayment OPaymentRequested"
    by (simp_all add: canTransition_def)
  obtain b where b: "order_transition OConfirmed g1 now a = (Inr (), b)" "status_of b = Some OConfirmed" "agg_id b = agg_id a"
    using transition_goes [OF assms(1) edges(1) assms(2)] by metis
  obtain c where c: "order_transition OAwaitingPayment g2 now b = (Inr (), c)" "status_of c = Some OAwaitingPayment"
      "agg_id c = agg_id b"
    using transition_goes [OF b(2) edges(2) assms(3)] by metis
  obtain d where d: "order_transition OPaymentRequested g3 now c = (Inr (), d)" "status_of d = Some OPaymentRequested"
      "agg_id d = agg_id c"
    using transition_goes [OF c(2) edges(3) assms(4)] by metis
  have "record_payment ref (g1, g2, g3, now) a = (Inr (), d\<lparr>or_paymentRef := Some ref\<rparr>)"
    by (simp add: record_payment_def order_confirm_def order_markAwaitingPayment_def order_requestPayment_def then_do_apply b c d)
  then show ?thesis by (rule that) (use b c d in simp_all)
qed

lemma paying_goes:
  assumes "status_of a = Some OPaymentRequested" "\<not> blank e"
  obtains a' where "order_completePayment ref e now a = (Inr (), a')" "status_of a' = Some OPaymentReceived"
    "or_paymentRef a' = Some ref" "agg_id a' = agg_id a"
proof -
  have a: "or_history a \<noteq> []" "last (history_types a) = OPaymentRequested"
    using assms(1) by (auto simp: status_of_def split: if_splits)
  have edge: "canTransition OPaymentRequested OPaymentReceived" by (simp add: canTransition_def)
  obtain b where b: "order_transition OPaymentReceived e now a = (Inr (), b)" "status_of b = Some OPaymentReceived" "agg_id b = agg_id a"
    using transition_goes [OF assms(1) edge assms(2)] by metis
  have "order_completePayment ref e now a = (Inr (), b\<lparr>or_paymentRef := Some ref\<rparr>)"
    using a edge by (simp add: order_completePayment_def with_status_cases then_do_apply b)
  then show ?thesis by (rule that) (use b in simp_all)
qed

text \<open>A call that succeeds and is saved.\<close>

lemma call_then_goes:
  assumes "act a = (Inr (), a')" "fst (save_agg env now u a' (touch_agg u a' s)) = Inr ()"
  shows "call_then env now u act k a s = k a' (snd (save_agg env now u a' (touch_agg u a' s)))"
  using assms by (cases "save_agg env now u a' (touch_agg u a' s)") (simp add: call_then_def then_do_apply)

lemma order_answer_goes: "status_of a = Some st \<Longrightarrow> order_answer a s = (Inr (Inr \<lparr>oo_orderId = agg_id a, oo_status = st\<rparr>), s)"
  by (auto simp: order_answer_def or_reject_def order_status_def status_of_def history_types_def last_map return_ok_def
      split: if_splits)

text \<open>Requests on other orders leave a row as it is.\<close>

interpretation untouched: order_promise "\<lambda>u j. (u, j) \<noteq> (t, i)"
  "\<lambda>s :: 'b order_service. voids_ok s \<and> find_agg t i s = Some b" for t i b
proof unfold_locales
  fix s :: "'b order_service" and u j and a a' :: order
  assume s: "voids_ok s \<and> find_agg t i s = Some b" and u: "(u, j) \<noteq> (t, i)" and a: "find_agg u j s = Some a" "order_moved a a'"
  have "agg_id a' = j" using moved_same_row [OF a(2)] voids.ids [of s u j a] s a by (simp add: same_row_def)
  then show "voids_ok (touch_agg u a' s) \<and> find_agg t i (touch_agg u a' s) = Some b"
    using s u voids.moves [of s u j a a'] a by (auto simp: find_agg_touch simp del: touch_agg_rows)
qed (auto intro: voids.ids voids.saves voids.numbers voids.places voids.routine voids.captures voids.voids simp: find_agg_save)

text \<open>The ports that may stop a payment answer as they should.\<close>

definition payments_confirm :: "order_ports \<Rightarrow> bool" where
  "payments_confirm ports \<longleftrightarrow> (\<forall>p. op_verification ports = Some p \<longrightarrow> (\<forall>calls q. p calls q = Inr True)) \<and>
     (\<forall>p. op_shadow ports = Some p \<longrightarrow> (\<forall>calls q. p calls q = Inr ()))"

lemma recording_answers:
  fixes s :: "'b order_service" and env :: "'b order_env"
  assumes s: "voids_ok s" and a: "find_agg t i s = Some a" "order_status a = Inr OCreated" "or_paymentRef a = None"
    and env: "ae_translate (oe_env env) = OrderEventTranslator" "\<not> blank t"
    and input: "inputs 1 = (g1, g2, g3, now)" "\<not> blank g1" "\<not> blank g2" "\<not> blank g3"
  obtains b where
    "fst (RecordCheckoutPayment env inputs t i ref s) = Inr (Inr \<lparr>oo_orderId = i, oo_status = OPaymentRequested\<rparr>)"
    "find_agg t i (snd (RecordCheckoutPayment env inputs t i ref s)) = Some b"
    "status_of b = Some OPaymentRequested" "agg_id b = i"
proof -
  have id: "agg_id a = i" by (rule voids.ids [OF s a(1)])
  have created: "status_of a = Some OCreated" using a(2) by (auto simp: status_of_def order_status_Inr_iff)
  obtain a' where a': "record_payment ref (g1, g2, g3, now) a = (Inr (), a')" "status_of a' = Some OPaymentRequested"
      "agg_id a' = agg_id a"
    using recording_goes [OF created input(2-4)] by metis
  let ?s = "snd (save_agg (oe_env env) now t a' (touch_agg t a' s))"
  have "record_attempt env t i ref (inputs 1) s = (Inr (Inr \<lparr>oo_orderId = i, oo_status = OPaymentRequested\<rparr>), ?s)"
    unfolding record_attempt_def input(1)
    using a call_then_goes [where act = "record_payment ref (g1, g2, g3, now)" and k = order_answer, OF a'(1) order_save_ok [OF env]] order_answer_goes [OF a'(2)] id a'(3)
    by (simp add: lookup_def or_reject_def)
  then have recorded: "RecordCheckoutPayment env inputs t i ref s = (Inr (Inr \<lparr>oo_orderId = i, oo_status = OPaymentRequested\<rparr>), ?s)"
    by (simp add: RecordCheckoutPayment_def numeral_eq_Suc)
  show ?thesis
    by (rule that [of "a'\<lparr>agg_events := []\<rparr>"]) (use recorded a' id in \<open>simp_all add: find_agg_save\<close>)
qed

lemma notice_pays:
  fixes s :: "'b order_service" and env :: "'b order_env"
  assumes a: "find_agg t i s = Some a" "status_of a = Some OPaymentRequested" "agg_id a = i"
    and env: "ae_translate (oe_env env) = OrderEventTranslator" "payments_confirm (oe_ports env)"
    and named: "readEnvelopeTenant tid = Some t" "\<not> blank t" "\<not> blank gen" "\<not> blank ref"
  obtains b where "fst (handle_captured env gen now tid i ref s) = Inr (Inr ())"
    "find_agg t i (snd (handle_captured env gen now tid i ref s)) = Some b"
    "order_status b = Inr OPaymentReceived" "or_paymentRef b = Some ref"
proof -
  obtain a' where a': "order_completePayment ref gen now a = (Inr (), a')" "status_of a' = Some OPaymentReceived"
      "or_paymentRef a' = Some ref" "agg_id a' = agg_id a"
    using paying_goes [OF a(2) named(3)] by metis
  have paid_status: "order_status a' = Inr OPaymentReceived"
    using a'(2) by (auto simp: status_of_def order_status_Inr_iff split: if_splits)
  have loaded: "fst (pay_loaded env gen now t i ref s') = Inr (Inr \<lparr>oo_orderId = i, oo_status = OPaymentReceived\<rparr>) \<and>
      find_agg t i (snd (pay_loaded env gen now t i ref s')) = Some (a'\<lparr>agg_events := []\<rparr>)"
    if s': "find_agg t i s' = Some a" for s' :: "'b order_service"
  proof -
    let ?s = "snd (save_agg (oe_env env) now t a' (touch_agg t a' s'))"
    have "pay_loaded env gen now t i ref s' = observe_truth (oe_ports env) ref a' (order_answer a') ?s"
      using s' call_then_goes [where act = "order_completePayment ref gen now" and s = s', OF a'(1) order_save_ok [OF env(1) named(2)]]
      by (simp add: pay_loaded_def lookup_def)
    then show ?thesis
      using env(2) paid_status a'(4) a(3)
      by (auto simp: order_answer_goes [OF a'(2)] observe_truth_def payments_confirm_def or_reject_def consulted_def consult_def find_agg_save
          split: option.splits)
  qed
  have mark: "fst (MarkOrderPaid env gen now t i ref s) = Inr (Inr \<lparr>oo_orderId = i, oo_status = OPaymentReceived\<rparr>) \<and>
      find_agg t i (snd (MarkOrderPaid env gen now t i ref s)) = Some (a'\<lparr>agg_events := []\<rparr>)"
    using env(2) loaded [of s] loaded [of "s\<lparr>sv_log := sv_log s @ [CaptureVerified (i, ref, t)]\<rparr>"] a(1) named(4)
    by (auto simp: MarkOrderPaid_def or_return_def againstEmpty_def payments_confirm_def consulted_def consult_def
        split: option.splits)
  have final: "order_status (a'\<lparr>agg_events := []\<rparr>) = Inr OPaymentReceived" using paid_status by (simp add: order_status_def split: if_splits)
  show ?thesis
    by (rule that [OF _ _ final]) (use mark a'(3) named(1) in \<open>auto simp: handle_captured_def return_ok_def split: prod.splits\<close>)
qed

subsection \<open>A sample history\<close>

definition sample_order_ports :: order_ports where
  "sample_order_ports = \<lparr>op_verification = None, op_shadow = None, op_payment = InMemoryPaymentAdapter,
     op_inventory = InMemoryInventoryAdapter, op_shipping = InMemoryShippingAdapter, op_notifications = None,
     op_fulfillmentCancel = None, op_stockRelease = None, op_paymentVoid = Some (\<lambda>_ _. Inr ())\<rparr>"

definition sample_orders :: "unit order_env" where
  "sample_orders = \<lparr>oe_env = \<lparr>ae_translate = OrderEventTranslator, ae_serialize = (\<lambda>_. ([], ())), ae_producer = None,
       ae_context = \<lparr>cx_correlationId = ''c'', cx_causationId = ''c'', cx_tenantId = None\<rparr>\<rparr>,
     oe_ports = sample_order_ports\<rparr>"

definition sample_order_item :: order_item_input where
  "sample_order_item = \<lparr>oii_productId = ''p'', oii_name = ''n'', oii_unitPriceAmountMinor = jint 500, oii_quantity = jint 1,
     oii_variantRef = None, oii_sku = None, oii_variantTitle = None\<rparr>"

definition sample_order_address :: order_address_input where
  "sample_order_address = \<lparr>oai_name = None, oai_phone = None, oai_line2 = None, oai_line1 = ''1 Main'', oai_city = ''C'',
     oai_postalCode = [], oai_country = ''EG'', oai_province = None\<rparr>"

definition sample_order_checkout :: checkout_order_input where
  "sample_order_checkout = \<lparr>coi_checkoutRef = ''k'', coi_customerRef = ''c'', coi_currency = ''EGP'', coi_items = [sample_order_item],
     coi_billingAddress = sample_order_address, coi_shippingAddress = sample_order_address, coi_totals = \<lparr>ot_subtotalMinor = jint 500, ot_taxMinor = jint 0,
       ot_shippingMinor = jint 0, ot_discountMinor = jint 0, ot_totalMinor = jint 500, ot_currency = ''EGP'', ot_shippingMethod = None,
       ot_shippingName = None, ot_taxIncluded = None, ot_shippingDiscountMinor = None, ot_discounts = None\<rparr>\<rparr>"

definition sample_checkout_request :: "char \<Rightarrow> order_request" where
  "sample_checkout_request c = ReqCheckout (\<lambda>n. c # show_nat n) 1 ''t'' sample_order_checkout"

definition sample_record :: record_inputs where
  "sample_record n = (''g1'', ''g2'', ''g3'', 2)"

text \<open>Two orders, one of them linked to a payment and cancelled.\<close>

text \<open>An order linked to a payment; then cancelled, or paid.\<close>

definition sample_order_requests :: "order_request list" where
  "sample_order_requests = [sample_checkout_request CHR ''a'', ReqRecord sample_record ''t'' ''a1'' ''p1'']"

definition cancelled_sample :: "unit order_service" where
  "cancelled_sample = runs (order_serve sample_orders) (sample_order_requests @ [ReqAdvance ''g'' 3 ''t'' ''a1'' OCancelled]) empty_orders"

definition linked_sample :: "unit order_service" where
  "linked_sample = runs (order_serve sample_orders) sample_order_requests empty_orders"

definition paid_sample :: "(thrown, (domain_error, order_output) result) result \<times> unit order_service" where
  "paid_sample = MarkOrderPaid sample_orders ''g'' 3 ''t'' ''a1'' ''p1'' linked_sample"

definition shipped_sample :: "unit order_service" where
  "shipped_sample = runs (order_serve sample_orders) [ReqAdvance ''h'' 4 ''t'' ''a1'' OReadyForFulfillment] (snd paid_sample)"

lemma sample_order_fresh:
  "admissible fresh_order (order_serve sample_orders) empty_orders sample_order_requests"
  "admissible fresh_order (order_serve sample_orders) empty_orders
     (sample_order_requests @ [ReqAdvance ''g'' 3 ''t'' ''a1'' OCancelled])"
  by (simp_all add: sample_order_requests_def sample_checkout_request_def empty_orders_def find_agg_def find_row_def bucket_def)

lemma sample_void: "VoidAsked (''p1'', ''t'') \<in> set (sv_log cancelled_sample)"
  by code_simp

lemma sample_paid: "fst paid_sample = Inr (Inr \<lparr>oo_orderId = ''a1'', oo_status = OPaymentReceived\<rparr>)"
  by code_simp

subsection \<open>Properties\<close>

text \<open>
  Within a tenant no two orders share a number (the numbers of the in-memory allocator), whatever was requested: a number is handed out once, counting up
  from 1001, also when the request that took it fails.
\<close>

lemma order_numbers_unique:
  assumes "admissible fresh_order (order_serve env) empty_orders qs"
    and "find_agg u i (runs (order_serve env) qs empty_orders) = Some a"
    and "find_agg u j (runs (order_serve env) qs empty_orders) = Some b"
    and "or_orderNumber a = or_orderNumber b"
  shows "i = j \<and> (\<exists>n. or_orderNumber a = show_int n \<and> 1001 \<le> n \<and> n \<le> last_number u (runs (order_serve env) qs empty_orders))"
  using numbers_okD(3,4) [OF reachable_numbers [OF assms(1)]] assms(2-4) unfolding FIRST_ORDER_NUMBER_def by blast

text \<open>
  C7: Payments is asked to void a payment only for an order of that tenant which carries the payment, was cancelled, and
  never was paid.
\<close>

theorem voids_only_cancelled:
  assumes "admissible fresh_order (order_serve env) empty_orders qs"
    and "VoidAsked (r, u) \<in> set (sv_log (runs (order_serve env) qs empty_orders))"
  shows "\<exists>j a. find_agg u j (runs (order_serve env) qs empty_orders) = Some a \<and> or_paymentRef a = Some r \<and>
    OCancelled \<in> set (history_types a) \<and> OPaid \<notin> set (history_types a) \<and> OPaymentReceived \<notin> set (history_types a)"
proof -
  let ?s = "runs (order_serve env) qs empty_orders"
  have ok: "voids_ok ?s" by (rule reachable_legal [OF assms(1)])
  then obtain j a where a: "find_agg u j ?s = Some a" "or_paymentRef a = Some r" "was_cancelled a"
    using assms(2) unfolding voids_ok_def by blast
  have "row_legal a" using ok a(1) stored_ids unfolding voids_ok_def by blast
  with a cancelled_unpaid [of a] show ?thesis unfolding was_cancelled_def by blast
qed

text \<open>
  Once a capture request has answered for an order, or a checkout payment was recorded on it, no later request asks
  Payments for another capture of that order.
\<close>

lemma capture_not_asked_again:
  assumes "admissible fresh_order (order_serve env) empty_orders qs"
    and "s = runs (order_serve env) qs empty_orders"
    and "RequestPaymentCapture env inputs t i s = (Inr (Inr out), s1) \<or>
      RecordCheckoutPayment env record t i ref s = (Inr (Inr out), s1)"
    and "admissible fresh_order (order_serve env) s1 later"
  shows "captures_asked t i (runs (order_serve env) later s1) = captures_asked t i s1"
proof -
  have ok: "voids_ok s" unfolding assms(2) by (rule reachable_legal [OF assms(1)])
  have "row_holds has_payment t i s1"
    using assms(3) answersD [OF request_links [OF ok]] answersD [OF record_links [OF ok]] by blast
  then have "settled t i (captures_asked t i s1) s1" by (simp add: settled_def)
  from settled.guarded_runs [OF this, of env later] assms(4) show ?thesis by (simp add: all_scope settled_def)
qed

text \<open>
  C8: once an order was marked paid, a capture notice that arrives later changes neither the orders nor the outbox,
  whatever was requested in between; without a verification port it is acknowledged exactly while the order rests at
  \<open>paid\<close> or \<open>payment_received\<close>.
\<close>

theorem capture_redelivery_harmless:
  assumes "admissible fresh_order (order_serve env) empty_orders qs"
    and "s = runs (order_serve env) qs empty_orders"
    and "MarkOrderPaid env gen now t i ref s = (Inr (Inr out), s1)"
    and "admissible fresh_order (order_serve env) s1 later"
    and "s2 = runs (order_serve env) later s1"
    and "readEnvelopeTenant tid = Some t" "\<not> blank ref'"
    and "handle_captured env gen' now' tid i ref' s2 = (r, s3)"
  shows "ag_rows s3 = ag_rows s2 \<and> ag_outbox s3 = ag_outbox s2 \<and>
    (op_verification (oe_ports env) = None \<longrightarrow>
       (r = Inr (Inr ()) \<longleftrightarrow>
          (\<exists>a. find_agg t i s2 = Some a \<and> order_status a \<in> {Inr OPaid, Inr OPaymentReceived})))"
proof -
  have ok: "voids_ok s" unfolding assms(2) by (rule reachable_legal [OF assms(1)])
  have "row_holds is_paid t i s1" by (rule answersD [OF mark_pays [OF ok] assms(3)])
  then have paid: "row_holds is_paid t i s2"
    unfolding assms(5) using paid.held.guarded_runs [of t i s1 env later] assms(4) by (simp add: all_scope)
  show ?thesis
  proof (cases "op_verification (oe_ports env)")
    case None
    obtain a st where a: "find_agg t i s2 = Some a" "order_status a = Inr st" "st \<in> after_payment"
        "pay_loaded env gen' now' t i ref' s2 = (Inr (Inl (cannot_be_paid st)), s2)"
      by (rule pay_again [OF paid])
    then have "MarkOrderPaid env gen' now' t i ref' s2 = (Inr (Inl (cannot_be_paid st)), s2)"
      using None assms(7) by (simp add: MarkOrderPaid_def or_return_def againstEmpty_def)
    then show ?thesis
      using assms(6,8) a(1,2) paid_status_recognised [OF a(3)] None
      by (auto simp: handle_captured_def return_ok_def split: if_splits)
  next
    case (Some p)
    let ?s = "s2\<lparr>sv_log := sv_log s2 @ [CaptureVerified (i, ref', t)]\<rparr>"
    obtain st where "pay_loaded env gen' now' t i ref' ?s = (Inr (Inl (cannot_be_paid st)), ?s)"
      by (rule pay_again [of t i ?s env gen' now' ref']) (use paid in \<open>auto simp: row_holds_def\<close>)
    then have "snd (MarkOrderPaid env gen' now' t i ref' s2) = ?s"
      using Some assms(7)
      by (auto simp: MarkOrderPaid_def or_return_def againstEmpty_def consulted_def consult_def split: sum.split)
    then have "s3 = ?s"
      using assms(6,8) by (auto simp: handle_captured_def return_ok_def split: prod.splits sum.splits if_splits)
    then show ?thesis using Some by simp
  qed
qed

text \<open>
  An order created from a checkout, with no payment recorded, takes the payment Checkout records, and when the capture
  notice for it arrives it is received, acknowledged and stored, whatever was requested for other orders in between,
  provided Payments confirms the capture.
\<close>

lemma checkout_order_gets_paid:
  assumes "admissible fresh_order (order_serve env) empty_orders qs"
    and "s = runs (order_serve env) qs empty_orders"
    and "find_agg t i s = Some a" "order_status a = Inr OCreated" "or_paymentRef a = None"
    and "ae_translate (oe_env env) = OrderEventTranslator" "payments_confirm (oe_ports env)"
    and "inputs 1 = (g1, g2, g3, now)" "\<not> blank g1" "\<not> blank g2" "\<not> blank g3" "\<not> blank gen" "\<not> blank ref" "\<not> blank t"
    and "readEnvelopeTenant tid = Some t"
    and "s1 = snd (RecordCheckoutPayment env inputs t i ref s)"
    and "admissible (order_guard (\<lambda>u j. (u, j) \<noteq> (t, i))) (order_serve env) s1 later"
    and "s2 = runs (order_serve env) later s1"
  shows "fst (RecordCheckoutPayment env inputs t i ref s) = Inr (Inr \<lparr>oo_orderId = i, oo_status = OPaymentRequested\<rparr>) \<and>
    (\<exists>s3 b. handle_captured env gen now' tid i ref s2 = (Inr (Inr ()), s3) \<and> find_agg t i s3 = Some b \<and>
       order_status b = Inr OPaymentReceived \<and> or_paymentRef b = Some ref)"
proof -
  have ok: "voids_ok s" unfolding assms(2) by (rule reachable_legal [OF assms(1)])
  obtain b where b: "fst (RecordCheckoutPayment env inputs t i ref s) = Inr (Inr \<lparr>oo_orderId = i, oo_status = OPaymentRequested\<rparr>)"
      "find_agg t i s1 = Some b" "status_of b = Some OPaymentRequested" "agg_id b = i"
    unfolding assms(16) by (rule recording_answers [where inputs = inputs, OF ok assms(3-6,14,8-11)])
  have "voids_ok s1" unfolding assms(16) by (rule keepsD [OF voids.keeps_record ok]) simp
  with b(2) have "voids_ok s2 \<and> find_agg t i s2 = Some b"
    unfolding assms(18) by (intro untouched.guarded_runs [OF _ assms(17)]) simp
  then have s2: "find_agg t i s2 = Some b" ..
  obtain c where "fst (handle_captured env gen now' tid i ref s2) = Inr (Inr ())"
      "find_agg t i (snd (handle_captured env gen now' tid i ref s2)) = Some c"
      "order_status c = Inr OPaymentReceived" "or_paymentRef c = Some ref"
    by (rule notice_pays [OF s2 b(3,4) assms(6,7,15,14,12,13)])
  with b(1) show ?thesis by (cases "handle_captured env gen now' tid i ref s2") auto
qed

subsection \<open>Witnesses\<close>

lemma voids_only_cancelled_witness:
  "\<exists>j a. find_agg ''t'' j cancelled_sample = Some a \<and> or_paymentRef a = Some ''p1'' \<and>
     OCancelled \<in> set (history_types a) \<and> OPaid \<notin> set (history_types a) \<and> OPaymentReceived \<notin> set (history_types a)"
  using voids_only_cancelled [OF sample_order_fresh(2), of "''p1''" "''t''"] sample_void
  by (simp add: cancelled_sample_def)

lemma capture_redelivery_harmless_witness:
  "ag_rows (snd (handle_captured sample_orders ''k'' 5 (Some ''t'') ''a1'' ''p1'' shipped_sample)) = ag_rows shipped_sample \<and>
   fst (handle_captured sample_orders ''k'' 5 (Some ''t'') ''a1'' ''p1'' shipped_sample) \<noteq> Inr (Inr ())"
proof -
  let ?r = "handle_captured sample_orders ''k'' 5 (Some ''t'') ''a1'' ''p1'' shipped_sample"
  have paid: "MarkOrderPaid sample_orders ''g'' 3 ''t'' ''a1'' ''p1'' linked_sample =
      (Inr (Inr \<lparr>oo_orderId = ''a1'', oo_status = OPaymentReceived\<rparr>), snd paid_sample)"
    using sample_paid by (metis paid_sample_def prod.collapse)
  have later: "admissible fresh_order (order_serve sample_orders) (snd paid_sample) [ReqAdvance ''h'' 4 ''t'' ''a1'' OReadyForFulfillment]"
    by simp
  have named: "readEnvelopeTenant (Some ''t'') = Some ''t''" "\<not> blank ''p1''" by code_simp+
  have status: "map_option order_status (find_agg ''t'' ''a1'' shipped_sample) = Some (Inr OReadyForFulfillment)" by code_simp
  have port: "op_verification (oe_ports sample_orders) = None" by (simp add: sample_orders_def sample_order_ports_def)
  from capture_redelivery_harmless [OF sample_order_fresh(1) linked_sample_def paid later shipped_sample_def named, of "''k''" 5 "fst ?r" "snd ?r"]
    status port show ?thesis by auto
qed

end
