(* ===== verification/Returns.thy ===== *)
theory Returns
  imports AggregateService JsConvert
begin

section \<open>Return requests\<close>

text \<open>
  services/returns/src/domain. A request moves along the table of return-status.ts; what the warehouse, the
  inspector and the staff did is kept in append-only logs. Several methods write before the transition can refuse
  them. \<open>sha1\<close> stands for the hexadecimal digest of \<^verbatim>\<open>node:crypto\<close>, from which the identifiers of the log entries
  are made.
\<close>

subsection \<open>Status (return-status.ts)\<close>

datatype return_status =
    RtRequested | RtApproved | RtRejected | RtRmaGenerated | RtPackageReceived | RtInspectionCompleted
  | RtItemsAccepted | RtItemsRejected | RtRefundRequested | RtReplacementRequested | RtRepairRequested | RtClosed

fun return_status_name :: "return_status \<Rightarrow> string" where
  "return_status_name RtRequested = ''requested''"
| "return_status_name RtApproved = ''approved''"
| "return_status_name RtRejected = ''rejected''"
| "return_status_name RtRmaGenerated = ''rma_generated''"
| "return_status_name RtPackageReceived = ''package_received''"
| "return_status_name RtInspectionCompleted = ''inspection_completed''"
| "return_status_name RtItemsAccepted = ''items_accepted''"
| "return_status_name RtItemsRejected = ''items_rejected''"
| "return_status_name RtRefundRequested = ''refund_requested''"
| "return_status_name RtReplacementRequested = ''replacement_requested''"
| "return_status_name RtRepairRequested = ''repair_requested''"
| "return_status_name RtClosed = ''closed''"

fun return_transitions :: "return_status \<Rightarrow> return_status list" where
  "return_transitions RtRequested = [RtApproved, RtRejected]"
| "return_transitions RtApproved = [RtRmaGenerated]"
| "return_transitions RtRejected = [RtClosed]"
| "return_transitions RtRmaGenerated = [RtPackageReceived]"
| "return_transitions RtPackageReceived = [RtInspectionCompleted]"
| "return_transitions RtInspectionCompleted = [RtItemsAccepted, RtItemsRejected]"
| "return_transitions RtItemsAccepted = [RtRefundRequested, RtReplacementRequested, RtRepairRequested]"
| "return_transitions RtItemsRejected = [RtClosed]"
| "return_transitions RtRefundRequested = [RtClosed]"
| "return_transitions RtReplacementRequested = [RtClosed]"
| "return_transitions RtRepairRequested = [RtClosed]"
| "return_transitions RtClosed = []"

definition canTransitionReturn :: "return_status \<Rightarrow> return_status \<Rightarrow> bool" where
  "canTransitionReturn from to = (to \<in> set (return_transitions from))"

fun return_event_type :: "return_status \<Rightarrow> string" where
  "return_event_type RtRequested = ''returns.request.requested''"
| "return_event_type RtApproved = ''returns.request.approved''"
| "return_event_type RtRejected = ''returns.request.rejected''"
| "return_event_type RtRmaGenerated = ''returns.package.rma_generated''"
| "return_event_type RtPackageReceived = ''returns.package.received''"
| "return_event_type RtInspectionCompleted = ''returns.inspection.completed''"
| "return_event_type RtItemsAccepted = ''returns.items.accepted''"
| "return_event_type RtItemsRejected = ''returns.items.rejected''"
| "return_event_type RtRefundRequested = ''returns.refund.requested''"
| "return_event_type RtReplacementRequested = ''returns.replacement.requested''"
| "return_event_type RtRepairRequested = ''returns.repair.requested''"
| "return_event_type RtClosed = ''returns.request.closed''"

subsection \<open>Value objects and entities\<close>

datatype resolution = ResolveRefund | ResolveReplacement | ResolveRepair

fun resolution_name :: "resolution \<Rightarrow> string" where
  "resolution_name ResolveRefund = ''refund''"
| "resolution_name ResolveReplacement = ''replacement''"
| "resolution_name ResolveRepair = ''repair''"

fun resolution_status :: "resolution \<Rightarrow> return_status" where
  "resolution_status ResolveRefund = RtRefundRequested"
| "resolution_status ResolveReplacement = RtReplacementRequested"
| "resolution_status ResolveRepair = RtRepairRequested"

record refund_decision =
  rf_outcome :: resolution
  rf_amountMinor :: "js_number option"
  rf_currency :: "string option"

definition RefundDecision_create :: "resolution \<Rightarrow> js_number option \<Rightarrow> string option \<Rightarrow> (domain_error, refund_decision) result" where
  "RefundDecision_create outcome amount cur =
     (if outcome = ResolveRefund \<and> (amount = None \<or> cur = None)
      then Inl (ValidationError ''Invalid refund decision''
             [issue ''amountMinor'' ''amountMinor and currency are required for a refund''])
      else Inr \<lparr>rf_outcome = outcome, rf_amountMinor = amount, rf_currency = cur\<rparr>)"

record return_approval =
  ra_approved :: bool
  ra_note :: "string option"
  ra_decidedAt :: timestamp

definition valid_dispositions :: "string list" where
  "valid_dispositions = [''restock'', ''discard'', ''refurbish'', ''return_to_vendor'']"

definition ReturnDisposition_create :: "string \<Rightarrow> (domain_error, string) result" where
  "ReturnDisposition_create v =
     (if v \<notin> set valid_dispositions
      then Inl (ValidationError ''Invalid return disposition''
             [issue ''disposition'' (''must be one of '' @ join '', '' valid_dispositions)])
      else Inr v)"

record return_reason =
  rr_code :: string
  rr_note :: "string option"

definition ReturnReason_create :: "string \<Rightarrow> string option \<Rightarrow> (domain_error, return_reason) result" where
  "ReturnReason_create code note =
     (case againstEmpty code ''reasonCode'' of
        Inl e \<Rightarrow> Inl e | Inr _ \<Rightarrow> Inr \<lparr>rr_code = code, rr_note = note\<rparr>)"

record return_item =
  ri_id :: string
  ri_orderItemRef :: string
  ri_productRef :: string
  ri_quantity :: js_number
  ri_reason :: return_reason
  ri_disposition :: "string option"

datatype return_attempt_kind =
    AtApproval | AtRma | AtReceive | AtInspection | AtAccept | AtResolution | AtWarehouseCallback

record return_attempt =
  rta_id :: string
  rta_kind :: return_attempt_kind
  rta_succeeded :: bool
  rta_reference :: "string option"
  rta_occurredAt :: timestamp

record return_inspection =
  rin_id :: string
  rin_itemRef :: string
  rin_passed :: bool
  rin_note :: "string option"
  rin_occurredAt :: timestamp

subsection \<open>Identifiers of log entries\<close>

definition hex_digit :: "int \<Rightarrow> char" where
  "hex_digit n = ''0123456789abcdef'' ! nat n"

definition slice :: "nat \<Rightarrow> nat \<Rightarrow> 'a list \<Rightarrow> 'a list" where
  "slice a b xs = take (b - a) (drop a xs)"

text \<open>\<^verbatim>\<open>parseInt(c, 16) & 0x3 | 0x8\<close>; a character that is no hexadecimal digit counts as 0.\<close>

definition variant_nibble :: "string \<Rightarrow> string" where
  "variant_nibble hex =
     [hex_digit (8 + (case hex_value (if 16 < length hex then hex ! 16 else CHR ''0'') of None \<Rightarrow> 0 | Some n \<Rightarrow> n mod 4))]"

definition deterministicUuid :: "(string \<Rightarrow> string) \<Rightarrow> string \<Rightarrow> string" where
  "deterministicUuid sha1 input =
     (let hex = slice 0 32 (sha1 input)
      in join ''-'' [slice 0 8 hex, slice 8 12 hex, ''5'' @ slice 13 16 hex, variant_nibble hex @ slice 17 20 hex, slice 20 32 hex])"

subsection \<open>The aggregate (return-request.ts)\<close>

datatype return_event = ReturnTransitioned string string return_status return_status

record return_request = "return_event aggregate" +
  rm_orderRef :: string
  rm_items :: "return_item list"
  rm_status :: return_status
  rm_attempts :: "return_attempt list"
  rm_inspections :: "return_inspection list"
  rm_approval :: "return_approval option"
  rm_rmaNumber :: "string option"
  rm_refundDecision :: "refund_decision option"

type_synonym return_action = "(domain_error, return_request, unit) action"

definition ReturnRequest_create :: "string \<Rightarrow> string \<Rightarrow> return_item list \<Rightarrow> return_request" where
  "ReturnRequest_create rid orderRef items =
     \<lparr>agg_id = rid, agg_version = 0, agg_events = [], rm_orderRef = orderRef, rm_items = items, rm_status = RtRequested,
      rm_attempts = [], rm_inspections = [], rm_approval = None, rm_rmaNumber = None, rm_refundDecision = None\<rparr>"

definition return_transition :: "return_status \<Rightarrow> string \<Rightarrow> timestamp \<Rightarrow> return_action" where
  "return_transition toStatus eventId occurredAt s =
     (let fromStatus = rm_status s in
      if \<not> canTransitionReturn fromStatus toStatus
      then (Inl (BusinessRuleError (''Cannot transition return from \"'' @ return_status_name fromStatus @ ''\" to \"'' @
              return_status_name toStatus @ ''\"'')), s)
      else (Inr (), addDomainEvent eventId occurredAt
              (ReturnTransitioned (rm_orderRef s) (return_event_type toStatus) fromStatus toStatus) (s\<lparr>rm_status := toStatus\<rparr>)))"

definition return_recordAttempt ::
  "(string \<Rightarrow> string) \<Rightarrow> return_attempt_kind \<Rightarrow> bool \<Rightarrow> timestamp \<Rightarrow> string option \<Rightarrow> return_action" where
  "return_recordAttempt sha1 kind succeeded occurredAt reference =
     bind_action (from_result (\<lambda>s. UniqueEntityId_from (deterministicUuid sha1
       (agg_id s @ '':attempt:'' @ show_nat (length (rm_attempts s)))))) (\<lambda>aid.
     modify (\<lambda>s. s\<lparr>rm_attempts := rm_attempts s @
       [\<lparr>rta_id = aid, rta_kind = kind, rta_succeeded = succeeded, rta_reference = reference, rta_occurredAt = occurredAt\<rparr>]\<rparr>))"

definition return_approve :: "(string \<Rightarrow> string) \<Rightarrow> string \<Rightarrow> timestamp \<Rightarrow> string option \<Rightarrow> return_action" where
  "return_approve sha1 eventId occurredAt note =
     then_do (return_transition RtApproved eventId occurredAt)
    (then_do (modify (\<lambda>s. s\<lparr>rm_approval := Some \<lparr>ra_approved = True, ra_note = note, ra_decidedAt = occurredAt\<rparr>\<rparr>))
       (return_recordAttempt sha1 AtApproval True occurredAt None))"

definition return_reject :: "(string \<Rightarrow> string) \<Rightarrow> string \<Rightarrow> timestamp \<Rightarrow> string option \<Rightarrow> return_action" where
  "return_reject sha1 eventId occurredAt note =
     then_do (return_transition RtRejected eventId occurredAt)
    (then_do (modify (\<lambda>s. s\<lparr>rm_approval := Some \<lparr>ra_approved = False, ra_note = note, ra_decidedAt = occurredAt\<rparr>\<rparr>))
       (return_recordAttempt sha1 AtApproval False occurredAt note))"

definition return_generateRma :: "(string \<Rightarrow> string) \<Rightarrow> string \<Rightarrow> string \<Rightarrow> timestamp \<Rightarrow> return_action" where
  "return_generateRma sha1 rmaNumber eventId occurredAt =
     then_do (modify (\<lambda>s. s\<lparr>rm_rmaNumber := Some rmaNumber\<rparr>))
    (then_do (return_transition RtRmaGenerated eventId occurredAt)
       (return_recordAttempt sha1 AtRma True occurredAt (Some rmaNumber)))"

definition return_receivePackage :: "(string \<Rightarrow> string) \<Rightarrow> string \<Rightarrow> timestamp \<Rightarrow> return_action" where
  "return_receivePackage sha1 eventId occurredAt =
     then_do (return_transition RtPackageReceived eventId occurredAt)
       (return_recordAttempt sha1 AtReceive True occurredAt None)"

definition return_inspectItem ::
  "(string \<Rightarrow> string) \<Rightarrow> string \<Rightarrow> bool \<Rightarrow> timestamp \<Rightarrow> string option \<Rightarrow> return_action" where
  "return_inspectItem sha1 itemRef passed occurredAt note s =
     (if list_ex (\<lambda>i. rin_itemRef i = itemRef) (rm_inspections s) then (Inr (), s)
      else bind_action (from_result (\<lambda>s. UniqueEntityId_from (deterministicUuid sha1
             (agg_id s @ '':inspection:'' @ itemRef)))) (\<lambda>iid.
           then_do (modify (\<lambda>s. s\<lparr>rm_inspections := rm_inspections s @
               [\<lparr>rin_id = iid, rin_itemRef = itemRef, rin_passed = passed, rin_note = note, rin_occurredAt = occurredAt\<rparr>]\<rparr>))
             (return_recordAttempt sha1 AtInspection True occurredAt (Some itemRef))) s)"

definition return_completeInspection :: "string \<Rightarrow> timestamp \<Rightarrow> return_action" where
  "return_completeInspection = return_transition RtInspectionCompleted"

text \<open>The first item with that reference; none is no error.\<close>

fun dispose :: "string \<Rightarrow> string \<Rightarrow> return_item list \<Rightarrow> return_item list" where
  "dispose ref disposition [] = []"
| "dispose ref disposition (i # is) =
     (if ri_orderItemRef i = ref then i\<lparr>ri_disposition := Some disposition\<rparr> # is else i # dispose ref disposition is)"

definition return_acceptItems ::
  "(string \<Rightarrow> string) \<Rightarrow> (string \<times> string) list \<Rightarrow> string \<Rightarrow> timestamp \<Rightarrow> return_action" where
  "return_acceptItems sha1 dispositions eventId occurredAt =
     then_do (modify (\<lambda>s. s\<lparr>rm_items := fold (\<lambda>(ref, d). dispose ref d) dispositions (rm_items s)\<rparr>))
    (then_do (return_transition RtItemsAccepted eventId occurredAt)
       (return_recordAttempt sha1 AtAccept True occurredAt None))"

definition return_rejectItems :: "(string \<Rightarrow> string) \<Rightarrow> string \<Rightarrow> string \<Rightarrow> timestamp \<Rightarrow> return_action" where
  "return_rejectItems sha1 reason eventId occurredAt =
     then_do (return_transition RtItemsRejected eventId occurredAt)
       (return_recordAttempt sha1 AtAccept False occurredAt (Some reason))"

definition return_decideResolution :: "(string \<Rightarrow> string) \<Rightarrow> refund_decision \<Rightarrow> string \<Rightarrow> timestamp \<Rightarrow> return_action" where
  "return_decideResolution sha1 decision eventId occurredAt =
     then_do (modify (\<lambda>s. s\<lparr>rm_refundDecision := Some decision\<rparr>))
    (then_do (return_transition (resolution_status (rf_outcome decision)) eventId occurredAt)
       (return_recordAttempt sha1 AtResolution True occurredAt (Some (resolution_name (rf_outcome decision)))))"

definition return_close :: "string \<Rightarrow> timestamp \<Rightarrow> return_action" where
  "return_close = return_transition RtClosed"

definition return_recordWarehouseCallback :: "(string \<Rightarrow> string) \<Rightarrow> timestamp \<Rightarrow> string option \<Rightarrow> return_action" where
  "return_recordWarehouseCallback sha1 occurredAt reference =
     return_recordAttempt sha1 AtWarehouseCallback True occurredAt reference"

subsection \<open>Log entries always get an identifier\<close>

lemma uuid_accepted [simp]: "UniqueEntityId_from (deterministicUuid sha1 x) = Inr (deterministicUuid sha1 x)"
proof -
  have "CHR ''-'' \<in> set (deterministicUuid sha1 x)" by (simp add: deterministicUuid_def Let_def)
  moreover have "\<not> is_js_space (CHR ''-'')" by code_simp
  ultimately have "\<not> blank (deterministicUuid sha1 x)" by (rule not_blank)
  then show ?thesis by (simp add: UniqueEntityId_from_Inr_iff)
qed

definition attempt_entry ::
  "(string \<Rightarrow> string) \<Rightarrow> return_attempt_kind \<Rightarrow> bool \<Rightarrow> timestamp \<Rightarrow> string option \<Rightarrow> return_request \<Rightarrow> return_attempt" where
  "attempt_entry sha1 kind succeeded t ref s =
     \<lparr>rta_id = deterministicUuid sha1 (agg_id s @ '':attempt:'' @ show_nat (length (rm_attempts s))),
      rta_kind = kind, rta_succeeded = succeeded, rta_reference = ref, rta_occurredAt = t\<rparr>"

lemma return_recordAttempt_apply [simp]:
  "return_recordAttempt sha1 kind succeeded t ref s =
     (Inr (), s\<lparr>rm_attempts := rm_attempts s @ [attempt_entry sha1 kind succeeded t ref s]\<rparr>)"
  by (simp add: return_recordAttempt_def bind_action_apply attempt_entry_def)

lemma addDomainEvent_return [simp]:
  "rm_orderRef (addDomainEvent i t d s) = rm_orderRef s" "rm_items (addDomainEvent i t d s) = rm_items s"
  "rm_status (addDomainEvent i t d s) = rm_status s" "rm_attempts (addDomainEvent i t d s) = rm_attempts s"
  "rm_inspections (addDomainEvent i t d s) = rm_inspections s" "rm_refundDecision (addDomainEvent i t d s) = rm_refundDecision s"
  by (simp_all add: addDomainEvent_def)

subsection \<open>Calls\<close>

datatype return_call =
    RtTransition return_status string timestamp
  | RtApprove string timestamp "string option"
  | RtReject string timestamp "string option"
  | RtGenerateRma string string timestamp
  | RtReceivePackage string timestamp
  | RtInspectItem string bool timestamp "string option"
  | RtAcceptItems "(string \<times> string) list" string timestamp
  | RtRejectItems string string timestamp
  | RtDecideResolution refund_decision string timestamp
  | RtWarehouseCallback timestamp "string option"

fun return_step :: "(string \<Rightarrow> string) \<Rightarrow> return_call \<Rightarrow> return_action" where
  "return_step sha1 (RtTransition to i t) = return_transition to i t"
| "return_step sha1 (RtApprove i t note) = return_approve sha1 i t note"
| "return_step sha1 (RtReject i t note) = return_reject sha1 i t note"
| "return_step sha1 (RtGenerateRma rma i t) = return_generateRma sha1 rma i t"
| "return_step sha1 (RtReceivePackage i t) = return_receivePackage sha1 i t"
| "return_step sha1 (RtInspectItem ref passed t note) = return_inspectItem sha1 ref passed t note"
| "return_step sha1 (RtAcceptItems ds i t) = return_acceptItems sha1 ds i t"
| "return_step sha1 (RtRejectItems reason i t) = return_rejectItems sha1 reason i t"
| "return_step sha1 (RtDecideResolution d i t) = return_decideResolution sha1 d i t"
| "return_step sha1 (RtWarehouseCallback t ref) = return_recordWarehouseCallback sha1 t ref"

text \<open>The status a call asks for, if any.\<close>

fun asks_for :: "return_call \<Rightarrow> return_status option" where
  "asks_for (RtTransition to i t) = Some to"
| "asks_for (RtApprove i t note) = Some RtApproved"
| "asks_for (RtReject i t note) = Some RtRejected"
| "asks_for (RtGenerateRma rma i t) = Some RtRmaGenerated"
| "asks_for (RtReceivePackage i t) = Some RtPackageReceived"
| "asks_for (RtAcceptItems ds i t) = Some RtItemsAccepted"
| "asks_for (RtRejectItems reason i t) = Some RtItemsRejected"
| "asks_for (RtDecideResolution d i t) = Some (resolution_status (rf_outcome d))"
| "asks_for (RtInspectItem ref passed t note) = None"
| "asks_for (RtWarehouseCallback t ref) = None"

lemmas return_step_defs = return_transition_def return_approve_def return_reject_def return_generateRma_def
  return_receivePackage_def return_inspectItem_def return_acceptItems_def return_rejectItems_def return_decideResolution_def
  return_recordWarehouseCallback_def then_do_apply bind_action_apply Let_def

lemma return_step_status:
  "rm_status (snd (return_step sha1 c s)) =
     (case asks_for c of Some to \<Rightarrow> if canTransitionReturn (rm_status s) to then to else rm_status s | None \<Rightarrow> rm_status s)"
  by (cases c) (simp_all add: return_step_defs)

lemma return_step_outcome:
  "isOk (fst (return_step sha1 c s)) \<longleftrightarrow> (case asks_for c of Some to \<Rightarrow> canTransitionReturn (rm_status s) to | None \<Rightarrow> True)"
  by (cases c) (simp_all add: return_step_defs)

lemma return_step_id [simp]: "agg_id (snd (return_step sha1 c s)) = agg_id s" "rm_orderRef (snd (return_step sha1 c s)) = rm_orderRef s"
  by (cases c; simp add: return_step_defs addDomainEvent_def)+

text \<open>The logs only grow, and an item is inspected once.\<close>

lemma return_step_logs:
  "\<exists>new. rm_attempts (snd (return_step sha1 c s)) = rm_attempts s @ new"
  "\<exists>new. rm_inspections (snd (return_step sha1 c s)) = rm_inspections s @ new"
  by (cases c; simp add: return_step_defs)+

lemma return_step_inspections:
  "distinct (map rin_itemRef (rm_inspections s)) \<Longrightarrow> distinct (map rin_itemRef (rm_inspections (snd (return_step sha1 c s))))"
  by (cases c) (auto simp: return_step_defs list_ex_iff)

interpretation returns: lifecycle rm_status return_transitions "return_step sha1" for sha1
  by unfold_locales (auto simp: return_step_status canTransitionReturn_def split: option.split)

end
