(* ===== verification/ReturnService.thy ===== *)
theory ReturnService
  imports Returns PortedService
begin

section \<open>Return use cases\<close>

text \<open>
  services/returns/src/application over the in-memory repository. Orders, notifications, payments, inventory and
  shipping are ports. \<open>gen\<close> is what \<^verbatim>\<open>idGenerator.generate()\<close> returns, \<open>now\<close> the clock.
\<close>

datatype return_port_event =
    OutcomeReported "string \<times> string \<times> string"
  | ReturnNotified "string \<times> string \<times> string"
  | RefundChecked "string \<times> js_number \<times> string \<times> string"
  | RefundAsked "string \<times> js_number \<times> string \<times> string \<times> string"
  | Restocked "string \<times> (string \<times> js_number) list \<times> string"
  | ShipmentChecked "string \<times> string"

type_synonym ('q, 'r) return_port = "(return_port_event, 'q, 'r) out_port"

record return_ports =
  rp_orders :: "(string \<times> string \<times> string, unit) return_port option"
  rp_notifications :: "(string \<times> string \<times> string, unit) return_port option"
  rp_shipping :: "(string \<times> string, bool) return_port"
  rp_inventory :: "(string \<times> (string \<times> js_number) list \<times> string, unit) return_port"
  rp_payments :: "(string \<times> js_number \<times> string \<times> string \<times> string, unit) return_port"
  rp_refundVerification :: "(string \<times> js_number \<times> string \<times> string, bool) return_port option"

record 'b return_env =
  re_env :: "(return_event, 'b) agg_env"
  re_sha1 :: "string \<Rightarrow> string"
  re_ports :: return_ports

type_synonym 'b return_service = "(return_request, 'b, return_port_event) ported_service"
type_synonym ('b, 'a) return_use_case = "('b return_service, 'a) use_case"

definition ReturnsEventTranslator :: "return_event domain_event \<Rightarrow> return_event descriptor option" where
  "ReturnsEventTranslator event = (case ev_data event of ReturnTransitioned orderRef type from to \<Rightarrow>
     Some \<lparr>d_type = type, d_eventVersion = 1, d_aggregateType = ''return_request'', d_payload = ev_data event\<rparr>)"

record return_output =
  ro_returnId :: string
  ro_status :: return_status

definition return_out :: "return_request \<Rightarrow> return_output" where
  "return_out a = \<lparr>ro_returnId = agg_id a, ro_status = rm_status a\<rparr>"

definition return_not_found :: domain_error where
  "return_not_found = NotFoundError ''Return request not found''"

subsection \<open>Opening a return (create-return-request.use-case.ts)\<close>

record return_item_input =
  rii_orderItemRef :: string
  rii_productRef :: string
  rii_quantity :: js_number
  rii_reasonCode :: string
  rii_reasonNote :: "string option"

fun with_return_items ::
  "return_item_input list \<Rightarrow> return_item list \<Rightarrow> (return_item list \<Rightarrow> ('s, 'a) use_case) \<Rightarrow> ('s, 'a) use_case" where
  "with_return_items [] acc k = k acc"
| "with_return_items (i # is) acc k =
     or_return (ProductRef_create (rii_productRef i)) (\<lambda>productRef.
     or_return (ReturnReason_create (rii_reasonCode i) (rii_reasonNote i)) (\<lambda>reason.
     or_reject (UniqueEntityId_from (rii_orderItemRef i)) (\<lambda>iid.
       with_return_items is (acc @ [\<lparr>ri_id = iid, ri_orderItemRef = rii_orderItemRef i, ri_productRef = productRef,
         ri_quantity = rii_quantity i, ri_reason = reason, ri_disposition = None\<rparr>]) k)))"

definition CreateReturnRequest ::
  "'b return_env \<Rightarrow> string \<Rightarrow> timestamp \<Rightarrow> string \<Rightarrow> string \<Rightarrow> return_item_input list \<Rightarrow> ('b, return_output) return_use_case" where
  "CreateReturnRequest env gen now tenant orderRef inputs =
     or_return (againstEmpty orderRef ''orderRef'') (\<lambda>_.
       if length inputs = 0
       then return_err (ValidationError ''Invalid return request'' [issue ''items'' ''must not be empty''])
       else with_return_items inputs [] (\<lambda>items.
         or_reject (UniqueEntityId_from gen) (\<lambda>rid.
           save_new (re_env env) now tenant return_out (ReturnRequest_create rid orderRef items))))"

subsection \<open>The lifecycle (return-lifecycle.use-cases.ts)\<close>

definition notifyBestEffort ::
  "return_ports \<Rightarrow> return_request \<Rightarrow> string \<Rightarrow> ('b, 'a) return_use_case \<Rightarrow> ('b, 'a) return_use_case" where
  "notifyBestEffort ports a tenant k =
     (let q = (rm_orderRef a, return_status_name (rm_status a), tenant);
          notify = (case rp_notifications ports of None \<Rightarrow> k | Some port \<Rightarrow> consult port ReturnNotified q (\<lambda>_. k))
      in case rp_orders ports of
           None \<Rightarrow> notify
         | Some port \<Rightarrow> consult port OutcomeReported q (\<lambda>r. case r of Inl _ \<Rightarrow> k | Inr _ \<Rightarrow> notify))"

definition call_notify ::
  "'b return_env \<Rightarrow> timestamp \<Rightarrow> string \<Rightarrow> return_action \<Rightarrow> (return_request \<Rightarrow> 'a) \<Rightarrow> return_request \<Rightarrow> ('b, 'a) return_use_case" where
  "call_notify env now tenant act out =
     call_then (re_env env) now tenant act (\<lambda>a. notifyBestEffort (re_ports env) a tenant (return_ok (out a)))"

definition AdvanceReturn ::
  "'b return_env \<Rightarrow> string \<Rightarrow> timestamp \<Rightarrow> string \<Rightarrow> string \<Rightarrow> return_status \<Rightarrow> ('b, return_output) return_use_case" where
  "AdvanceReturn env gen now tenant returnId toStatus =
     lookup return_not_found (find_agg tenant returnId)
       (call_notify env now tenant (return_transition toStatus gen now) return_out)"

definition DecideApproval ::
  "'b return_env \<Rightarrow> string \<Rightarrow> timestamp \<Rightarrow> string \<Rightarrow> string \<Rightarrow> bool \<Rightarrow> string option \<Rightarrow> ('b, return_output) return_use_case" where
  "DecideApproval env gen now tenant returnId approved note =
     lookup return_not_found (find_agg tenant returnId)
       (call_notify env now tenant
         (if approved then return_approve (re_sha1 env) gen now note else return_reject (re_sha1 env) gen now note) return_out)"

definition GenerateRma ::
  "'b return_env \<Rightarrow> string \<Rightarrow> timestamp \<Rightarrow> string \<Rightarrow> string \<Rightarrow> string \<Rightarrow> ('b, return_output) return_use_case" where
  "GenerateRma env gen now tenant returnId rmaNumber =
     or_return (againstEmpty rmaNumber ''rmaNumber'') (\<lambda>_.
       lookup return_not_found (find_agg tenant returnId)
         (call_notify env now tenant (return_generateRma (re_sha1 env) rmaNumber gen now) return_out))"

record receive_output =
  rco_returnId :: string
  rco_status :: return_status
  rco_duplicate :: bool

definition receive_out :: "bool \<Rightarrow> return_request \<Rightarrow> receive_output" where
  "receive_out duplicate a = \<lparr>rco_returnId = agg_id a, rco_status = rm_status a, rco_duplicate = duplicate\<rparr>"

definition callback_seen :: "string \<Rightarrow> return_request \<Rightarrow> bool" where
  "callback_seen ref a \<longleftrightarrow> list_ex (\<lambda>x. rta_kind x = AtWarehouseCallback \<and> rta_succeeded x \<and> rta_reference x = Some ref) (rm_attempts a)"

text \<open>Identifier and the two clock readings of each attempt.\<close>

type_synonym attempt_inputs = "nat \<Rightarrow> string \<times> timestamp \<times> timestamp"

definition receive_attempt ::
  "'b return_env \<Rightarrow> string \<Rightarrow> string \<Rightarrow> string \<Rightarrow> string \<Rightarrow> timestamp \<Rightarrow> timestamp \<Rightarrow> ('b, receive_output) return_use_case" where
  "receive_attempt env tenant returnId ref gen now now' =
     lookup return_not_found (find_agg tenant returnId) (\<lambda>a.
       if callback_seen ref a then return_ok (receive_out True a)
       else consulted (rp_shipping (re_ports env)) ShipmentChecked (rm_orderRef a, tenant) (\<lambda>verified.
         if \<not> verified then return_err (ValidationError ''Return shipment could not be verified'' [])
         else call_notify env now' tenant
           (then_do (return_recordWarehouseCallback (re_sha1 env) now (Some ref)) (return_receivePackage (re_sha1 env) gen now'))
           (receive_out False) a))"

definition ReceivePackage ::
  "'b return_env \<Rightarrow> attempt_inputs \<Rightarrow> string \<Rightarrow> string \<Rightarrow> string \<Rightarrow> string \<Rightarrow> ('b, receive_output) return_use_case" where
  "ReceivePackage env inputs tenant returnId source callbackId =
     or_return (againstEmpty source ''source'') (\<lambda>_.
     or_return (againstEmpty callbackId ''callbackId'') (\<lambda>_.
       withConcurrencyRetry 1 5 (\<lambda>i.
         case inputs i of (gen, now, now') \<Rightarrow>
           receive_attempt env tenant returnId (source @ '':'' @ callbackId) gen now now')))"

definition InspectItems ::
  "'b return_env \<Rightarrow> timestamp \<Rightarrow> string \<Rightarrow> string \<Rightarrow> string \<Rightarrow> bool \<Rightarrow> string option \<Rightarrow> ('b, return_output) return_use_case" where
  "InspectItems env now tenant returnId itemRef passed note =
     or_return (againstEmpty itemRef ''itemRef'') (\<lambda>_.
       lookup return_not_found (find_agg tenant returnId) (\<lambda>a.
         if rm_status a = RtInspectionCompleted then return_ok (return_out a)
         else call_then (re_env env) now tenant (return_inspectItem (re_sha1 env) itemRef passed now note)
           (\<lambda>a. return_ok (return_out a)) a))"

fun with_dispositions ::
  "(string \<times> string) list \<Rightarrow> (string \<times> string) list \<Rightarrow> ((string \<times> string) list \<Rightarrow> ('s, 'a) use_case) \<Rightarrow> ('s, 'a) use_case" where
  "with_dispositions [] acc k = k acc"
| "with_dispositions ((ref, d) # rest) acc k =
     or_return (ReturnDisposition_create d) (\<lambda>disposition. with_dispositions rest (acc @ [(ref, disposition)]) k)"

definition restock_items :: "return_request \<Rightarrow> (string \<times> js_number) list" where
  "restock_items a = map (\<lambda>i. (ri_productRef i, ri_quantity i)) (filter (\<lambda>i. ri_disposition i = Some ''restock'') (rm_items a))"

definition AcceptItems ::
  "'b return_env \<Rightarrow> string \<Rightarrow> timestamp \<Rightarrow> string \<Rightarrow> string \<Rightarrow> (string \<times> string) list \<Rightarrow> ('b, return_output) return_use_case" where
  "AcceptItems env gen now tenant returnId inputs =
     with_dispositions inputs [] (\<lambda>dispositions.
       lookup return_not_found (find_agg tenant returnId)
         (call_then (re_env env) now tenant (return_acceptItems (re_sha1 env) dispositions gen now) (\<lambda>a.
            let rest = notifyBestEffort (re_ports env) a tenant (return_ok (return_out a)) in
            if 0 < length (restock_items a)
            then consult (rp_inventory (re_ports env)) Restocked (rm_orderRef a, restock_items a, tenant) (\<lambda>_. rest)
            else rest)))"

definition over_refundable :: domain_error where
  "over_refundable = ValidationError ''Refund amount exceeds the refundable amount for this order''
     [issue ''amountMinor'' ''could not be verified against Payments/Orders'']"

definition refund_wanted :: "resolution \<Rightarrow> js_number option \<Rightarrow> string option \<Rightarrow> (js_number \<times> string) option" where
  "refund_wanted outcome amount cur =
     (case (amount, cur) of (Some a, Some c) \<Rightarrow> if outcome = ResolveRefund then Some (a, c) else None | _ \<Rightarrow> None)"

definition verify_refund ::
  "return_ports \<Rightarrow> (js_number \<times> string) option \<Rightarrow> string \<Rightarrow> return_request \<Rightarrow> ('b, 'a) return_use_case \<Rightarrow> ('b, 'a) return_use_case" where
  "verify_refund ports wanted tenant a k =
     (case (wanted, rp_refundVerification ports) of
        (Some (amount, cur), Some port) \<Rightarrow>
          consulted port RefundChecked (rm_orderRef a, amount, cur, tenant) (\<lambda>refundable.
            if \<not> refundable then return_err over_refundable else k)
      | _ \<Rightarrow> k)"

definition refund_key :: "string \<Rightarrow> string" where
  "refund_key returnId = returnId @ '':refund''"

definition DecideResolution ::
  "'b return_env \<Rightarrow> string \<Rightarrow> timestamp \<Rightarrow> string \<Rightarrow> string \<Rightarrow> resolution \<Rightarrow> js_number option \<Rightarrow> string option \<Rightarrow>
     ('b, return_output) return_use_case" where
  "DecideResolution env gen now tenant returnId outcome amount cur =
     or_return (RefundDecision_create outcome amount cur) (\<lambda>decision.
       let wanted = refund_wanted outcome amount cur in
       lookup return_not_found (find_agg tenant returnId) (\<lambda>a.
         verify_refund (re_ports env) wanted tenant a
           (call_then (re_env env) now tenant (return_decideResolution (re_sha1 env) decision gen now) (\<lambda>a'.
              let finish = notifyBestEffort (re_ports env) a' tenant (return_ok (return_out a')) in
              case wanted of
                None \<Rightarrow> finish
              | Some (amt, c) \<Rightarrow>
                  consulted (rp_payments (re_ports env)) RefundAsked
                    (rm_orderRef a', amt, c, refund_key (agg_id a'), tenant) (\<lambda>_. finish)) a)))"

definition return_findByOrderRef :: "string \<Rightarrow> string \<Rightarrow> 'b return_service \<Rightarrow> return_request option" where
  "return_findByOrderRef orderRef tenant s = List.find (\<lambda>a. rm_orderRef a = orderRef) (rows_of tenant (ag_rows s))"

definition GetReturnByOrder :: "string \<Rightarrow> string \<Rightarrow> ('b, return_request) return_use_case" where
  "GetReturnByOrder tenant orderRef =
     lookup (NotFoundError ''No return request found for this order'') (return_findByOrderRef orderRef tenant) return_ok"

subsection \<open>Requests\<close>

datatype return_op =
    OpCreate string timestamp string string "return_item_input list"
  | OpAdvance string timestamp string string return_status
  | OpApproval string timestamp string string bool "string option"
  | OpRma string timestamp string string string
  | OpReceive attempt_inputs string string string string
  | OpInspect timestamp string string string bool "string option"
  | OpAccept string timestamp string string "(string \<times> string) list"
  | OpResolve string timestamp string string resolution "js_number option" "string option"

fun return_serve :: "'b return_env \<Rightarrow> return_op \<Rightarrow> ('b, unit) return_use_case" where
  "return_serve env (OpCreate gen now tenant orderRef inputs) = drop_answer (CreateReturnRequest env gen now tenant orderRef inputs)"
| "return_serve env (OpAdvance gen now tenant rid to) = drop_answer (AdvanceReturn env gen now tenant rid to)"
| "return_serve env (OpApproval gen now tenant rid approved note) = drop_answer (DecideApproval env gen now tenant rid approved note)"
| "return_serve env (OpRma gen now tenant rid rma) = drop_answer (GenerateRma env gen now tenant rid rma)"
| "return_serve env (OpReceive inputs tenant rid source callback) = drop_answer (ReceivePackage env inputs tenant rid source callback)"
| "return_serve env (OpInspect now tenant rid ref passed note) = drop_answer (InspectItems env now tenant rid ref passed note)"
| "return_serve env (OpAccept gen now tenant rid inputs) = drop_answer (AcceptItems env gen now tenant rid inputs)"
| "return_serve env (OpResolve gen now tenant rid outcome amount cur) =
     drop_answer (DecideResolution env gen now tenant rid outcome amount cur)"

text \<open>A generated identifier is new.\<close>

fun fresh_return :: "'b return_service \<Rightarrow> return_op \<Rightarrow> bool" where
  "fresh_return s (OpCreate gen now tenant orderRef inputs) = (find_agg tenant gen s = None)"
| "fresh_return s _ = True"

definition empty_returns :: "'b return_service" where
  "empty_returns = \<lparr>ag_rows = [], ag_outbox = [], sv_log = []\<rparr>"

subsection \<open>A refund is asked for once\<close>

fun asks_refund :: "string \<Rightarrow> string \<Rightarrow> return_port_event \<Rightarrow> bool" where
  "asks_refund tenant rid (RefundAsked (orderRef, amount, cur, key, t)) = (t = tenant \<and> key = refund_key rid)"
| "asks_refund tenant rid _ = False"

definition refunds_asked :: "string \<Rightarrow> string \<Rightarrow> return_port_event list \<Rightarrow> nat" where
  "refunds_asked tenant rid evs = length (filter (asks_refund tenant rid) evs)"

definition refund_over :: "return_status \<Rightarrow> bool" where
  "refund_over st \<longleftrightarrow> st = RtRefundRequested \<or> st = RtClosed"

text \<open>The ledger of a return's refund, with the warehouse callbacks \<open>R\<close> it has recorded.\<close>

definition refund_ok :: "string \<Rightarrow> string \<Rightarrow> string set \<Rightarrow> 'b return_service \<Rightarrow> bool" where
  "refund_ok tenant rid R s \<longleftrightarrow> store_all (\<lambda>_. True) (ag_rows s) \<and> refunds_asked tenant rid (sv_log s) \<le> 1 \<and>
     (refunds_asked tenant rid (sv_log s) = 1 \<longrightarrow> (\<exists>a. find_agg tenant rid s = Some a \<and> refund_over (rm_status a))) \<and>
     (\<forall>ref\<in>R. \<exists>a. find_agg tenant rid s = Some a \<and> callback_seen ref a)"

lemma refunds_asked_snoc [simp]:
  "refunds_asked tenant rid (evs @ [ev]) = refunds_asked tenant rid evs + (if asks_refund tenant rid ev then 1 else 0)"
  by (simp add: refunds_asked_def)

lemma refund_key_inject [simp]: "refund_key i = refund_key j \<longleftrightarrow> i = j"
  by (simp add: refund_key_def)

lemma refund_over_step: "refund_over (rm_status a) \<Longrightarrow> refund_over (rm_status (snd (return_step sha1 c a)))"
  by (auto simp: return_step_status refund_over_def canTransitionReturn_def split: option.split)

lemma refund_ok_log: "\<not> asks_refund tenant rid ev \<Longrightarrow> refund_ok tenant rid R s \<Longrightarrow> refund_ok tenant rid R (s\<lparr>sv_log := sv_log s @ [ev]\<rparr>)"
  by (simp add: refund_ok_def)

text \<open>A row moves on: it stays over once it was, and forgets no callback.\<close>

definition moves_on :: "return_request \<Rightarrow> return_request \<Rightarrow> bool" where
  "moves_on a a' \<longleftrightarrow> agg_id a' = agg_id a \<and> (refund_over (rm_status a) \<longrightarrow> refund_over (rm_status a')) \<and>
     (\<forall>ref. callback_seen ref a \<longrightarrow> callback_seen ref a')"

lemma callback_seen_quiet [simp]: "callback_seen ref (a\<lparr>agg_events := es\<rparr>) = callback_seen ref a"
  by (simp add: callback_seen_def)

lemma callback_seen_step: "callback_seen ref a \<Longrightarrow> callback_seen ref (snd (return_step sha1 c a))"
  using return_step_logs [of sha1 c a] by (auto simp: callback_seen_def)

lemma moves_on_step: "moves_on a (snd (return_step sha1 c a))"
  by (simp add: moves_on_def refund_over_step callback_seen_step)

lemma refund_ok_touch:
  assumes "refund_ok t i R s" "find_agg u j s = Some a" "moves_on a a'"
  shows "refund_ok t i R (touch_agg u a' s)"
proof -
  have "agg_id a = j" using assms(1,2) unfolding refund_ok_def find_agg_def by (blast dest: store_all_find)
  with assms show ?thesis by (auto simp: refund_ok_def moves_on_def find_agg_touch touch_row_def store_all_put)
qed

lemma refund_ok_save:
  assumes "refund_ok t i R s" "find_agg u (agg_id a) s = Some a"
  shows "refund_ok t i R (snd (save_agg env now u a s))"
  using assms by (auto simp: refund_ok_def find_agg_save store_all_put)

lemma find_touched: "find_agg u (agg_id a') (touch_agg u a' s) = Some a'"
  by (simp add: find_agg_touch)

text \<open>A use case step in which the row moves on, and what follows keeps the ledger.\<close>

lemma keeps_refund_call:
  assumes "find_agg u j s = Some a" "moves_on a (snd (act a))"
    and "\<And>a'. act a = (Inr (), a') \<Longrightarrow> refund_ok t i R s \<Longrightarrow>
      keeps (refund_ok t i R) (k a') (snd (save_agg env now u a' (touch_agg u a' s)))"
  shows "keeps (refund_ok t i R) (call_then env now u act k a) s"
proof (rule keeps_call_then)
  fix r a' assume a': "act a = (r, a')" and p: "refund_ok t i R s"
  show "refund_ok t i R (touch_agg u a' s)" by (rule refund_ok_touch [OF p assms(1)]) (use assms(2) a' in simp)
next
  fix a' assume a': "act a = (Inr (), a')" and p: "refund_ok t i R s"
  have "refund_ok t i R (touch_agg u a' s)" by (rule refund_ok_touch [OF p assms(1)]) (use assms(2) a' in simp)
  then show "refund_ok t i R (snd (save_agg env now u a' (touch_agg u a' s)))" by (rule refund_ok_save [OF _ find_touched])
qed (use assms(3) in blast)

lemma keeps_refund_notify [keeps_intros]:
  assumes "\<And>s. keeps (refund_ok t i R) k s"
  shows "keeps (refund_ok t i R) (notifyBestEffort ports a u k) s"
  unfolding notifyBestEffort_def Let_def
  using assms by (auto split: option.split sum.split intro!: keeps_consult refund_ok_log)

lemma keeps_refund_call_notify:
  assumes "find_agg u j s = Some a" "moves_on a (snd (act a))"
  shows "keeps (refund_ok t i R) (call_notify env now u act out a) s"
  unfolding call_notify_def by (rule keeps_refund_call, rule assms(1), rule assms(2)) (intro keeps_intros)

lemma keeps_with_items [keeps_intros]:
  "(\<And>items. keeps P (k items) s) \<Longrightarrow> keeps P (with_return_items inputs acc k) s"
  by (induction inputs arbitrary: acc) (auto intro!: keeps_intros)

lemma keeps_with_dispositions [keeps_intros]:
  "(\<And>ds. keeps P (k ds) s) \<Longrightarrow> keeps P (with_dispositions inputs acc k) s"
  by (induction inputs acc k rule: with_dispositions.induct) (auto intro!: keeps_intros)

lemma resolved_refund:
  assumes "return_decideResolution sha1 d gen now a = (Inr (), a')" "rf_outcome d = ResolveRefund"
  shows "rm_status a = RtItemsAccepted" "rm_status a' = RtRefundRequested" "agg_id a' = agg_id a"
proof -
  have out: "isOk (fst (return_step sha1 (RtDecideResolution d gen now) a))" using assms(1) by simp
  then have "canTransitionReturn (rm_status a) RtRefundRequested" using assms(2) unfolding return_step_outcome by simp
  moreover from this show "rm_status a = RtItemsAccepted" by (cases "rm_status a") (simp_all add: canTransitionReturn_def)
  ultimately show "rm_status a' = RtRefundRequested"
    using return_step_status [of sha1 "RtDecideResolution d gen now" a] assms by simp
  show "agg_id a' = agg_id a" using return_step_id(1) [of sha1 "RtDecideResolution d gen now" a] assms(1) by simp
qed

text \<open>The state after the decision was saved has room for the request that follows.\<close>

lemma refund_ok_request:
  assumes "refund_ok t i R s" "find_agg u j s = Some a"
    and "return_decideResolution sha1 d gen now a = (Inr (), a')" "rf_outcome d = ResolveRefund"
    and "refund_ok t i R (snd (save_agg env now u a' (touch_agg u a' s)))"
  shows "refund_ok t i R ((snd (save_agg env now u a' (touch_agg u a' s)))
      \<lparr>sv_log := sv_log (snd (save_agg env now u a' (touch_agg u a' s))) @ [RefundAsked (orderRef, amt, c, refund_key (agg_id a'), u)]\<rparr>)"
proof (cases "u = t \<and> agg_id a' = i")
  case True
  note r = resolved_refund [OF assms(3,4)]
  have "agg_id a = j" using assms(1,2) unfolding refund_ok_def find_agg_def by (blast dest: store_all_find)
  then have "find_agg t i s = Some a" using assms(2) True r(3) by simp
  then have "refunds_asked t i (sv_log s) \<noteq> 1" using assms(1) r(1) by (auto simp: refund_ok_def refund_over_def)
  then have "refunds_asked t i (sv_log s) = 0" using assms(1) unfolding refund_ok_def by linarith
  with assms(5) True r(2) show ?thesis by (simp add: refund_ok_def find_agg_save refund_over_def)
next
  case False
  then have "\<not> asks_refund t i (RefundAsked (orderRef, amt, c, refund_key (agg_id a'), u))" by auto
  then show ?thesis by (rule refund_ok_log [OF _ assms(5)])
qed

lemma keeps_refund_verify [keeps_intros]:
  assumes "\<And>s. find_agg u j s = Some a \<Longrightarrow> keeps (refund_ok t i R) k s" "find_agg u j s = Some a"
  shows "keeps (refund_ok t i R) (verify_refund ports wanted u a k) s"
  unfolding verify_refund_def using assms
  by (auto split: option.split intro!: keeps_consulted refund_ok_log keeps_return_err)

lemma keeps_refund_resolution:
  fixes s :: "'b return_service"
  shows "keeps (refund_ok t i R) (DecideResolution env gen now u j outcome amount cur) s"
  unfolding DecideResolution_def Let_def
proof (intro keeps_or_return keeps_lookup keeps_refund_verify)
  fix d and a :: return_request and s :: "'b return_service"
  assume d: "RefundDecision_create outcome amount cur = Inr d" and f: "find_agg u j s = Some a"
  let ?act = "return_decideResolution (re_sha1 env) d gen now"
  let ?finish = "\<lambda>a'. notifyBestEffort (re_ports env) a' u (return_ok (return_out a'))"
  show "keeps (refund_ok t i R) (call_then (re_env env) now u ?act (\<lambda>a'. case refund_wanted outcome amount cur of
          None \<Rightarrow> ?finish a'
        | Some (amt, c) \<Rightarrow> consulted (rp_payments (re_ports env)) RefundAsked
            (rm_orderRef a', amt, c, refund_key (agg_id a'), u) (\<lambda>_. ?finish a')) a) s"
  proof (rule keeps_refund_call, rule f)
    show "moves_on a (snd (?act a))"
      using moves_on_step [of a "re_sha1 env" "RtDecideResolution d gen now"] by simp
  next
    fix a' assume a': "?act a = (Inr (), a')" and p: "refund_ok t i R s"
    show "keeps (refund_ok t i R) (case refund_wanted outcome amount cur of
          None \<Rightarrow> ?finish a'
        | Some (amt, c) \<Rightarrow> consulted (rp_payments (re_ports env)) RefundAsked
            (rm_orderRef a', amt, c, refund_key (agg_id a'), u) (\<lambda>_. ?finish a'))
        (snd (save_agg (re_env env) now u a' (touch_agg u a' s)))"
    proof (cases "refund_wanted outcome amount cur")
      case None
      then show ?thesis by (simp add: keeps_intros)
    next
      case (Some w)
      then have "rf_outcome d = ResolveRefund"
        using d by (auto simp: refund_wanted_def RefundDecision_create_def split: option.splits if_splits)
      note request = refund_ok_request [OF p f a' this]
      show ?thesis
        using Some request by (cases w) (auto intro!: keeps_consulted keeps_refund_notify keeps_return_ok)
    qed
  qed
qed

lemma moves_on_callback:
  "moves_on a (snd (then_do (return_recordWarehouseCallback sha1 now ref) (return_receivePackage sha1 gen now') a))"
proof -
  have "snd (then_do (return_recordWarehouseCallback sha1 now ref) (return_receivePackage sha1 gen now') a) =
      snd (return_step sha1 (RtReceivePackage gen now') (snd (return_step sha1 (RtWarehouseCallback now ref) a)))"
    by (simp add: then_do_apply return_recordWarehouseCallback_def)
  then show ?thesis
    using moves_on_step [of a sha1 "RtWarehouseCallback now ref"]
      moves_on_step [of "snd (return_step sha1 (RtWarehouseCallback now ref) a)" sha1 "RtReceivePackage gen now'"]
    by (simp add: moves_on_def)
qed

lemma keeps_refund_receive: "keeps (refund_ok t i R) (receive_attempt env tenant rid ref gen now now') s"
  by (auto simp: receive_attempt_def intro!: keeps_lookup keeps_consulted
      keeps_return_ok keeps_return_err refund_ok_log keeps_refund_call_notify moves_on_callback)

text \<open>The methods the use cases call, as steps of the aggregate.\<close>

lemma moves_on_methods:
  "moves_on a (snd (return_transition to gen now a))"
  "moves_on a (snd ((if approved then return_approve sha1 gen now note else return_reject sha1 gen now note) a))"
  "moves_on a (snd (return_generateRma sha1 rma gen now a))"
  "moves_on a (snd (return_inspectItem sha1 ref passed now note a))"
  "moves_on a (snd (return_acceptItems sha1 ds gen now a))"
  using moves_on_step [of a sha1 "RtTransition to gen now"] moves_on_step [of a sha1 "RtApprove gen now note"]
    moves_on_step [of a sha1 "RtReject gen now note"] moves_on_step [of a sha1 "RtGenerateRma rma gen now"]
    moves_on_step [of a sha1 "RtInspectItem ref passed now note"] moves_on_step [of a sha1 "RtAcceptItems ds gen now"]
  by simp_all

lemma keeps_refund_new:
  assumes "find_agg u gen s = None"
  shows "keeps (refund_ok t i R) (CreateReturnRequest env gen now u orderRef inputs) s"
proof -
  have "refund_ok t i R (snd (save_agg (re_env env) now u (ReturnRequest_create rid orderRef items) s))"
    if "refund_ok t i R s" "UniqueEntityId_from gen = Inr rid" for rid items
    using that assms by (auto simp: refund_ok_def find_agg_save store_all_put ReturnRequest_create_def UniqueEntityId_from_Inr_iff)
  then have "keeps (refund_ok t i R) (save_new (re_env env) now u return_out (ReturnRequest_create rid orderRef items)) s"
    if "UniqueEntityId_from gen = Inr rid" for rid items
    using that by (simp add: keeps_def)
  then show ?thesis unfolding CreateReturnRequest_def by (auto intro!: keeps_intros)
qed

lemma keeps_refund_ok:
  assumes "fresh_return s op"
  shows "keeps (refund_ok t i R) (return_serve env op) s"
proof (cases op)
  case (OpCreate gen now tenant orderRef inputs)
  with assms show ?thesis by (simp add: keeps_drop keeps_refund_new)
next
  case (OpAdvance gen now tenant rid toStatus)
  then show ?thesis
    by (auto simp: AdvanceReturn_def intro!: keeps_drop keeps_lookup keeps_refund_call_notify moves_on_methods)
next
  case (OpApproval gen now tenant rid approved remark)
  then show ?thesis unfolding OpApproval return_serve.simps DecideApproval_def
    by (intro keeps_drop keeps_lookup keeps_refund_call_notify moves_on_methods)
next
  case (OpRma gen now tenant rid rma)
  then show ?thesis
    by (auto simp: GenerateRma_def intro!: keeps_drop keeps_or_return keeps_lookup keeps_refund_call_notify moves_on_methods)
next
  case (OpReceive inputs tenant rid source callback)
  then show ?thesis
    by (auto simp: ReceivePackage_def intro!: keeps_drop keeps_or_return keeps_retry keeps_refund_receive split: prod.split)
next
  case (OpInspect now tenant rid itemRef passed remark)
  then show ?thesis
    by (auto simp: InspectItems_def intro!: keeps_drop keeps_or_return keeps_lookup keeps_return_ok keeps_refund_call moves_on_methods)
next
  case (OpAccept gen now tenant rid inputs)
  then show ?thesis
    by (auto simp: AcceptItems_def Let_def intro!: keeps_drop keeps_with_dispositions keeps_lookup keeps_refund_call moves_on_methods
        keeps_consult refund_ok_log keeps_refund_notify keeps_return_ok)
next
  case (OpResolve gen now tenant rid outcome amount cur)
  then show ?thesis by (simp add: keeps_drop keeps_refund_resolution)
qed

interpretation return_refunds: guarded_object "refund_ok t i R" fresh_return "return_serve env" for t i R env
  by unfold_locales (rule keepsD [OF keeps_refund_ok])

lemma empty_refund_ok: "refund_ok t i {} empty_returns"
  by (simp add: refund_ok_def empty_returns_def refunds_asked_def store_all_def bucket_def)

text \<open>
  C29: A return is refunded at most once. Whatever requests the service gets, in any order and with any answers of the
  other contexts, Payments is asked to refund a given return at most once, under a key that names the return; once it
  was asked the return is waiting for the refund or closed.
\<close>

theorem refund_requested_once:
  assumes "s = runs (return_serve env) ops empty_returns"
    and "admissible fresh_return (return_serve env) empty_returns ops"
  shows "refunds_asked tenant rid (sv_log s) \<le> 1 \<and> (refunds_asked tenant rid (sv_log s) = 1 \<longrightarrow>
    (\<exists>a. find_agg tenant rid s = Some a \<and> (rm_status a = RtRefundRequested \<or> rm_status a = RtClosed)))"
  using return_refunds.guarded_runs [OF empty_refund_ok assms(2), of tenant rid] assms(1)
  by (simp add: refund_ok_def refund_over_def)

subsection \<open>A warehouse callback counts once\<close>

definition callback_kept :: "string \<Rightarrow> string \<Rightarrow> string \<Rightarrow> receive_output \<Rightarrow> 'b return_service \<Rightarrow> bool" where
  "callback_kept tenant rid ref out s \<longleftrightarrow> (\<exists>a. find_agg tenant rid s = Some a \<and> callback_seen ref a \<and>
     rco_returnId out = agg_id a \<and> rco_status out = rm_status a)"

lemma answers_notify:
  assumes "\<And>l. Q x (s\<lparr>sv_log := l\<rparr>)"
  shows "answers Q (notifyBestEffort ports a u (return_ok x)) s"
proof -
  have "Q x s" using assms [of "sv_log s"] by simp
  then show ?thesis using assms
    by (auto simp: answers_def notifyBestEffort_def consult_def Let_def split: option.splits sum.splits)
qed

lemma seen_again:
  assumes "find_agg tenant rid s = Some a" "callback_seen (source @ '':'' @ callback) a"
    "againstEmpty source ''source'' = Inr source" "againstEmpty callback ''callbackId'' = Inr callback"
  shows "ReceivePackage env inputs tenant rid source callback s =
    (Inr (Inr \<lparr>rco_returnId = agg_id a, rco_status = rm_status a, rco_duplicate = True\<rparr>), s)"
proof -
  obtain gen now now' where i: "inputs 1 = (gen, now, now')" by (cases "inputs 1")
  have "receive_attempt env tenant rid (source @ '':'' @ callback) gen now now' s =
      (Inr (Inr \<lparr>rco_returnId = agg_id a, rco_status = rm_status a, rco_duplicate = True\<rparr>), s)"
    using assms(1,2) by (simp add: receive_attempt_def lookup_def receive_out_def)
  with i assms(3,4) show ?thesis by (simp add: ReceivePackage_def or_return_def eval_nat_numeral)
qed

lemma receive_kept:
  assumes "refund_ok tenant rid R s"
  shows "answers (callback_kept tenant rid ref) (receive_attempt env tenant rid ref gen now now') s"
  unfolding receive_attempt_def
proof (intro answers_lookup)
  fix a assume f: "find_agg tenant rid s = Some a"
  have i: "agg_id a = rid" using assms f unfolding refund_ok_def find_agg_def by (blast dest: store_all_find)
  let ?act = "then_do (return_recordWarehouseCallback (re_sha1 env) now (Some ref)) (return_receivePackage (re_sha1 env) gen now')"
  have act: "callback_seen ref a' \<and> agg_id a' = rid" if "?act a = (Inr (), a')" for a'
    using that i by (auto simp: return_step_defs callback_seen_def attempt_entry_def addDomainEvent_def split: if_splits)
  show "answers (callback_kept tenant rid ref)
      (if callback_seen ref a then return_ok (receive_out True a)
       else consulted (rp_shipping (re_ports env)) ShipmentChecked (rm_orderRef a, tenant) (\<lambda>verified.
         if \<not> verified then return_err (ValidationError ''Return shipment could not be verified'' [])
         else call_notify env now' tenant ?act (receive_out False) a)) s"
  proof (cases "callback_seen ref a")
    case True
    with f show ?thesis by (auto simp: callback_kept_def receive_out_def intro!: answers_intros)
  next
    case False
    have "answers (callback_kept tenant rid ref) (call_notify env now' tenant ?act (receive_out False) a) t" for t
      unfolding call_notify_def
    proof (intro answers_call_then answers_notify)
      fix a' l assume "?act a = (Inr (), a')"
      with act show "callback_kept tenant rid ref (receive_out False a')
          ((snd (save_agg (re_env env) now' tenant a' (touch_agg tenant a' t)))\<lparr>sv_log := l\<rparr>)"
        by (auto simp: callback_kept_def find_agg_save receive_out_def callback_seen_def)
    qed
    with False show ?thesis by (auto intro!: answers_intros)
  qed
qed

text \<open>
  C30: Receiving a package is idempotent. In any state the service can reach, once a callback of the warehouse was
  answered with success, and after any further requests, the same callback again - with whatever fresh identifiers and
  clock - is answered as a duplicate with the same return and the status it has by then (the same status when it is
  repeated at once), and changes nothing.
\<close>

theorem receive_package_idempotent:
  assumes "s = runs (return_serve env) ops empty_returns"
    and "admissible fresh_return (return_serve env) empty_returns ops"
    and "ReceivePackage env inputs tenant rid source callback s = (Inr (Inr out), s')"
    and "admissible fresh_return (return_serve env) s' later"
    and "s2 = runs (return_serve env) later s'"
  shows "\<exists>a. find_agg tenant rid s2 = Some a \<and> agg_id a = rco_returnId out \<and> (later = [] \<longrightarrow> rm_status a = rco_status out) \<and>
    ReceivePackage env inputs' tenant rid source callback s2 =
      (Inr (Inr \<lparr>rco_returnId = agg_id a, rco_status = rm_status a, rco_duplicate = True\<rparr>), s2)"
proof -
  have ok: "refund_ok tenant rid {} s" using return_refunds.guarded_runs [OF empty_refund_ok assms(2)] assms(1) by simp
  let ?ref = "source @ '':'' @ callback"
  have g: "againstEmpty source ''source'' = Inr source" "againstEmpty callback ''callbackId'' = Inr callback"
    using assms(3) by (auto simp: ReceivePackage_def or_return_def againstEmpty_def guard_fail_def split: sum.splits if_splits)
  let ?tries = "withConcurrencyRetry 1 5 (\<lambda>i. case inputs i of (gen, now, now') \<Rightarrow> receive_attempt env tenant rid ?ref gen now now')"
  have call: "ReceivePackage env inputs tenant rid source callback s = ?tries s"
    using g by (simp add: ReceivePackage_def or_return_def)
  have "answers (callback_kept tenant rid ?ref) ?tries s"
    by (rule answers_retry [where P = "refund_ok tenant rid {}"])
      (auto simp: ok receive_kept keeps_refund_receive split: prod.split)
  with assms(3) have kept: "callback_kept tenant rid ?ref out s'" by (simp add: call answers_def)
  then obtain a where a: "find_agg tenant rid s' = Some a" "callback_seen ?ref a" "rco_returnId out = agg_id a" "rco_status out = rm_status a"
    by (auto simp: callback_kept_def)
  have "keeps (refund_ok tenant rid {}) ?tries s"
    by (intro keeps_retry) (auto simp: keeps_refund_receive split: prod.split)
  from keepsD [OF this ok] have "refund_ok tenant rid {} s'" using assms(3) by (simp add: call)
  then have "refund_ok tenant rid {?ref} s'" using a by (auto simp: refund_ok_def)
  then have s2: "refund_ok tenant rid {?ref} s2" unfolding assms(5) using assms(4) by (rule return_refunds.guarded_runs)
  then obtain b where b: "find_agg tenant rid s2 = Some b" "callback_seen ?ref b" by (auto simp: refund_ok_def)
  have "agg_id b = rid" "agg_id a = rid"
    using s2 \<open>refund_ok tenant rid {} s'\<close> b(1) a(1) unfolding refund_ok_def find_agg_def by (blast dest: store_all_find)+
  then have "agg_id b = rco_returnId out" using a(3) by simp
  moreover have "later = [] \<longrightarrow> rm_status b = rco_status out" using a b(1) assms(5) by auto
  ultimately show ?thesis using b(1) seen_again [OF b g] by metis
qed

text \<open>
  When Payments fails the request, the decision stays and the status with it: no later decision is taken, so the
  refund is not asked for again.
\<close>

lemma decided_is_final:
  assumes "find_agg tenant rid s = Some a" "rm_status a \<noteq> RtItemsAccepted"
  shows "answers (\<lambda>_ _. False) (DecideResolution env gen now tenant rid outcome amount cur) s"
proof -
  have refused: "\<not> (\<exists>a'. return_decideResolution sha1 d gen now a = (Inr (), a'))" for sha1 d
  proof
    assume "\<exists>a'. return_decideResolution sha1 d gen now a = (Inr (), a')"
    then have "isOk (fst (return_step sha1 (RtDecideResolution d gen now) a))" by auto
    then have "canTransitionReturn (rm_status a) (resolution_status (rf_outcome d))" unfolding return_step_outcome by simp
    with assms(2) show False
      by (cases "rm_status a"; cases "rf_outcome d") (simp_all add: canTransitionReturn_def)
  qed
  have "answers (\<lambda>_ _. False) (call_then (re_env env) now tenant (return_decideResolution (re_sha1 env) d gen now) k a) t" for d k t
    by (rule answers_call_then) (use refused in blast)
  then show ?thesis unfolding DecideResolution_def Let_def verify_refund_def
    using assms(1) by (auto intro!: answers_intros split: option.split)
qed

subsection \<open>A return from opening to refund\<close>

definition sample_ports :: return_ports where
  "sample_ports = \<lparr>rp_orders = Some (\<lambda>_ _. Inr ()), rp_notifications = None, rp_shipping = (\<lambda>_ _. Inr True),
     rp_inventory = (\<lambda>_ _. Inr ()), rp_payments = (\<lambda>_ _. Inr ()), rp_refundVerification = Some (\<lambda>_ _. Inr True)\<rparr>"

definition sample_returns :: "unit return_env" where
  "sample_returns = \<lparr>re_env = \<lparr>ae_translate = ReturnsEventTranslator, ae_serialize = (\<lambda>_. ([], ())), ae_producer = None,
      ae_context = \<lparr>cx_correlationId = ''c'', cx_causationId = ''c'', cx_tenantId = None\<rparr>\<rparr>,
     re_sha1 = (\<lambda>_. []), re_ports = sample_ports\<rparr>"

definition sample_return_ops :: "return_op list" where
  "sample_return_ops =
     [OpCreate ''r'' 0 ''t'' ''o'' [\<lparr>rii_orderItemRef = ''i'', rii_productRef = ''p'', rii_quantity = jint 1, rii_reasonCode = ''x'', rii_reasonNote = None\<rparr>],
      OpApproval ''e'' 1 ''t'' ''r'' True None, OpRma ''e'' 2 ''t'' ''r'' ''n'', OpReceive (\<lambda>_. (''e'', 3, 3)) ''t'' ''r'' ''w'' ''1'',
      OpAdvance ''e'' 4 ''t'' ''r'' RtInspectionCompleted, OpAccept ''e'' 5 ''t'' ''r'' [(''i'', ''restock'')],
      OpResolve ''e'' 6 ''t'' ''r'' ResolveRefund (Some (jint 5)) (Some ''EGP''),
      OpResolve ''e'' 7 ''t'' ''r'' ResolveRefund (Some (jint 5)) (Some ''EGP'')]"

definition sample_returned :: "unit return_service" where
  "sample_returned = runs (return_serve sample_returns) sample_return_ops empty_returns"

lemma sample_return_fresh: "admissible fresh_return (return_serve sample_returns) empty_returns sample_return_ops"
  by (simp add: sample_return_ops_def empty_returns_def find_agg_def find_row_def bucket_def)

lemma sample_refunds: "refunds_asked ''t'' ''r'' (sv_log sample_returned) = 1"
  by code_simp

lemma refund_requested_once_witness:
  "\<exists>a. find_agg ''t'' ''r'' sample_returned = Some a \<and> (rm_status a = RtRefundRequested \<or> rm_status a = RtClosed)"
  using refund_requested_once [OF sample_returned_def sample_return_fresh, of "''t''" "''r''"] sample_refunds by simp

definition before_package :: "unit return_service" where
  "before_package = runs (return_serve sample_returns) (take 3 sample_return_ops) empty_returns"

definition package_received :: "(thrown, (domain_error, receive_output) result) result \<times> unit return_service" where
  "package_received = ReceivePackage sample_returns (\<lambda>_. (''e'', 3, 3)) ''t'' ''r'' ''w'' ''1'' before_package"

lemma receive_package_idempotent_witness:
  "\<exists>a. find_agg ''t'' ''r'' (runs (return_serve sample_returns) (drop 4 sample_return_ops) (snd package_received)) = Some a \<and>
     fst (ReceivePackage sample_returns (\<lambda>_. (''f'', 9, 9)) ''t'' ''r'' ''w'' ''1''
       (runs (return_serve sample_returns) (drop 4 sample_return_ops) (snd package_received))) =
     Inr (Inr \<lparr>rco_returnId = ''r'', rco_status = rm_status a, rco_duplicate = True\<rparr>)"
proof -
  have fresh: "admissible fresh_return (return_serve sample_returns) empty_returns (take 3 sample_return_ops)"
    by (simp add: sample_return_ops_def empty_returns_def find_agg_def find_row_def bucket_def)
  have later: "admissible fresh_return (return_serve sample_returns) (snd package_received) (drop 4 sample_return_ops)"
    by (simp add: sample_return_ops_def)
  have "fst package_received = Inr (Inr \<lparr>rco_returnId = ''r'', rco_status = RtPackageReceived, rco_duplicate = False\<rparr>)"
    by code_simp
  then have "ReceivePackage sample_returns (\<lambda>_. (''e'', 3, 3)) ''t'' ''r'' ''w'' ''1'' before_package =
      (Inr (Inr \<lparr>rco_returnId = ''r'', rco_status = RtPackageReceived, rco_duplicate = False\<rparr>), snd package_received)"
    by (metis package_received_def prod.collapse)
  from receive_package_idempotent [OF before_package_def fresh this later refl, of "\<lambda>_. (''f'', 9, 9)"]
  show ?thesis by fastforce
qed

end
