(* ===== verification/TenantRows.thy ===== *)
theory TenantRows
  imports AggregateService
begin

section \<open>Repositories keyed by id, with the tenant in the row\<close>

text \<open>
  The in-memory repository most small contexts share: one \<^verbatim>\<open>Map\<close> from aggregate id to
  \<^verbatim>\<open>{ tenantId, aggregate }\<close>, so a save under an id replaces whatever tenant held it, and every read
  filters by tenant. \<open>rows_call\<close> is the shape of their use cases: a method of a loaded aggregate in a
  \<^verbatim>\<open>try\<close>, whose domain error is returned and whose other errors leave \<^verbatim>\<open>execute\<close>. The locale
  \<open>keyed_rows\<close> is the contract of an aggregate with a natural key (a customer, a code) of which a tenant
  holds at most one.
\<close>

record ('a, 'b) row_service =
  rw_store :: "(string \<times> (string \<times> 'a)) list"
  rw_outbox :: "'b outbox_entry list"

type_synonym ('d, 'z, 'b, 'a) row_use_case = "((('d, 'z) aggregate_scheme, 'b) row_service, 'a) use_case"

definition empty_rows :: "('a, 'b) row_service" where
  "empty_rows = \<lparr>rw_store = [], rw_outbox = []\<rparr>"

definition tenant_rows :: "string \<Rightarrow> ('a, 'b) row_service \<Rightarrow> 'a list" where
  "tenant_rows tenant s = map (\<lambda>(i, t, a). a) (filter (\<lambda>(i, t, a). t = tenant) (rw_store s))"

definition row_find :: "string \<Rightarrow> string \<Rightarrow> ('a, 'b) row_service \<Rightarrow> 'a option" where
  "row_find rid tenant s =
     (case map_of (rw_store s) rid of None \<Rightarrow> None | Some (t, a) \<Rightarrow> if t = tenant then Some a else None)"

definition row_put ::
  "string \<Rightarrow> ('d, 'z) aggregate_scheme \<Rightarrow> (('d, 'z) aggregate_scheme, 'b) row_service \<Rightarrow>
     (('d, 'z) aggregate_scheme, 'b) row_service" where
  "row_put tenant a s = s\<lparr>rw_store := AList.update (agg_id a) (tenant, a) (rw_store s)\<rparr>"

definition row_save ::
  "('d, 'b) agg_env \<Rightarrow> timestamp \<Rightarrow> string \<Rightarrow> ('d, 'z) aggregate_scheme \<Rightarrow>
     (thrown, (('d, 'z) aggregate_scheme, 'b) row_service, unit) action" where
  "row_save env now tenant a s =
     (case pullDomainEvents a of (events, a') \<Rightarrow>
      case outbox_write (env_at env now) events ((ae_context env)\<lparr>cx_tenantId := Some tenant\<rparr>) (rw_outbox s) of
        (r, outbox) \<Rightarrow> (mapError (\<lambda>_. ThrownOther) r, (row_put tenant a' s)\<lparr>rw_outbox := outbox\<rparr>))"

text \<open>\<^verbatim>\<open>catch (error) { if (isDomainError(error)) return err(error); throw error; }\<close>\<close>

fun caught :: "thrown \<Rightarrow> (thrown, (domain_error, 'a) result) result" where
  "caught (ThrownDomain e) = Inr (Inl e)"
| "caught e = Inl e"

definition rows_call ::
  "('d, 'b) agg_env \<Rightarrow> timestamp \<Rightarrow> string \<Rightarrow> (thrown, ('d, 'z) aggregate_scheme, unit) action \<Rightarrow>
     (('d, 'z) aggregate_scheme \<Rightarrow> 'a) \<Rightarrow> ('d, 'z) aggregate_scheme \<Rightarrow> ('d, 'z, 'b, 'a) row_use_case" where
  "rows_call env now tenant act out a s =
     (case act a of
        (Inl e, a') \<Rightarrow> (caught e, row_put tenant a' s)
      | (Inr _, a') \<Rightarrow> then_do (row_save env now tenant a') (return_ok (out a')) (row_put tenant a' s))"

text \<open>\<^verbatim>\<open>list\<close>: sorted by id, from the first id past the cursor.\<close>

definition row_list ::
  "(string \<Rightarrow> string \<Rightarrow> int) \<Rightarrow> int option \<Rightarrow> string option \<Rightarrow> string \<Rightarrow>
     (('d, 'z) aggregate_scheme, 'b) row_service \<Rightarrow> ('d, 'z) aggregate_scheme list \<times> page_info" where
  "row_list localeCompare first after tenant s =
     page_past (\<lambda>x c. str_less c (agg_id x)) first after
       (sort_cmp (\<lambda>a b. localeCompare (agg_id a) (agg_id b)) (tenant_rows tenant s))"

subsection \<open>Lemmas\<close>

lemma row_put_store [simp]:
  "rw_store (row_put t a s) = AList.update (agg_id a) (t, a) (rw_store s)"
  "rw_outbox (row_put t a s) = rw_outbox s"
  by (simp_all add: row_put_def)

lemma row_save_store [simp]:
  "rw_store (snd (row_save env now t a s)) = AList.update (agg_id a) (t, a\<lparr>agg_events := []\<rparr>) (rw_store s)"
  by (simp add: row_save_def pullDomainEvents_def split: prod.splits)

lemma row_find_put:
  "row_find i u (row_put t a s) = (if i = agg_id a then (if t = u then Some a else None) else row_find i u s)"
  by (simp add: row_find_def update_conv')

lemma row_find_save:
  "row_find i u (snd (row_save env now t a s)) =
     (if i = agg_id a then (if t = u then Some (a\<lparr>agg_events := []\<rparr>) else None) else row_find i u s)"
  by (simp add: row_find_def update_conv')

lemma snd_rows_call:
  "snd (rows_call env now t act out a s) =
     (case act a of (Inl e, a') \<Rightarrow> row_put t a' s
      | (Inr _, a') \<Rightarrow> snd (row_save env now t a' (row_put t a' s)))"
  by (simp add: rows_call_def split: prod.splits sum.splits)

lemma alist_update_same: "map_of xs k = Some v \<Longrightarrow> AList.update k v xs = xs"
  by (induction xs) (auto split: if_splits)

lemma row_put_same: "row_find (agg_id a) t s = Some a \<Longrightarrow> row_put t a s = s"
  by (auto simp: row_put_def row_find_def alist_update_same split: option.splits if_splits)

text \<open>A save without pending events writes the row and nothing to the outbox.\<close>

lemma row_save_quiet:
  "agg_events a = [] \<Longrightarrow> row_save env now t a s = (Inr (), row_put t a s)"
  by (cases a) (simp add: row_save_def pullDomainEvents_def outbox_write_def mapError_def row_put_def)

lemma rows_call_idle:
  assumes "act a = (Inr (), a)" "agg_events a = []" "row_find (agg_id a) t s = Some a"
  shows "rows_call env now t act out a s = (Inr (Inr (out a)), s)"
  using assms by (simp add: rows_call_def then_do_apply row_save_quiet row_put_same)

lemma caught_cases: "caught e = Inr (Inr x) \<longleftrightarrow> False" "caught e = Inr (Inl d) \<longleftrightarrow> e = ThrownDomain d"
  by (cases e; simp)+

subsection \<open>Rows that keep a promise, one per natural key\<close>

locale keyed_rows =
  fixes key :: "('d, 'z) aggregate_scheme \<Rightarrow> 'k"
    and P :: "('d, 'z) aggregate_scheme \<Rightarrow> bool"
  assumes key_events: "key (a\<lparr>agg_events := es\<rparr>) = key a"
    and promise_events: "P (a\<lparr>agg_events := es\<rparr>) = P a"
begin

definition rows_ok :: "(('d, 'z) aggregate_scheme, 'b) row_service \<Rightarrow> bool" where
  "rows_ok s =
     (distinct (map fst (rw_store s)) \<and>
      (\<forall>i t a. map_of (rw_store s) i = Some (t, a) \<longrightarrow> agg_id a = i \<and> P a) \<and>
      (\<forall>i j t a b. map_of (rw_store s) i = Some (t, a) \<and> map_of (rw_store s) j = Some (t, b) \<and>
         key a = key b \<longrightarrow> i = j))"

lemma rows_okD:
  assumes "rows_ok s"
  shows "map_of (rw_store s) i = Some (t, a) \<Longrightarrow> agg_id a = i"
    and "map_of (rw_store s) i = Some (t, a) \<Longrightarrow> P a"
    and "map_of (rw_store s) i = Some (t, a) \<Longrightarrow> map_of (rw_store s) j = Some (t, b) \<Longrightarrow> key a = key b \<Longrightarrow> i = j"
    and "distinct (map fst (rw_store s))"
  using assms unfolding rows_ok_def by blast+

lemma empty_rows_ok: "rows_ok empty_rows"
  by (simp add: rows_ok_def empty_rows_def)

text \<open>No other row of the tenant carries the key.\<close>

definition key_free :: "string \<Rightarrow> ('d, 'z) aggregate_scheme \<Rightarrow> (('d, 'z) aggregate_scheme, 'b) row_service \<Rightarrow> bool" where
  "key_free t a s = (\<forall>j b. map_of (rw_store s) j = Some (t, b) \<and> key b = key a \<longrightarrow> j = agg_id a)"

lemma rows_ok_update:
  assumes ok: "rows_ok s" and st: "rw_store s' = AList.update (agg_id a) (t, a) (rw_store s)"
    and free: "key_free t a s" and p: "P a"
  shows "rows_ok s'"
proof -
  have m: "map_of (rw_store s') i = (if i = agg_id a then Some (t, a) else map_of (rw_store s) i)" for i
    by (simp add: st update_conv')
  have "i = j" if "map_of (rw_store s') i = Some (u, b)" "map_of (rw_store s') j = Some (u, c)" "key b = key c"
    for i j u b c
  proof (cases "i = agg_id a"; cases "j = agg_id a")
    assume "i = agg_id a" "j \<noteq> agg_id a"
    with that free show ?thesis by (force simp: m key_free_def)
  next
    assume "i \<noteq> agg_id a" "j = agg_id a"
    with that free show ?thesis by (force simp: m key_free_def)
  next
    assume "i \<noteq> agg_id a" "j \<noteq> agg_id a"
    with that rows_okD(3) [OF ok] show ?thesis by (simp add: m)
  qed simp
  moreover have "agg_id b = i \<and> P b" if "map_of (rw_store s') i = Some (u, b)" for i u b
    using that p rows_okD(1,2) [OF ok] by (auto simp: m split: if_splits)
  moreover have "distinct (map fst (rw_store s'))"
    using rows_okD(4) [OF ok] by (simp add: st distinct_update)
  ultimately show ?thesis unfolding rows_ok_def by blast
qed

lemma key_free_quiet: "key_free t (a\<lparr>agg_events := es\<rparr>) s = key_free t a s"
  by (simp add: key_free_def key_events)

lemma rows_ok_put: "rows_ok s \<Longrightarrow> key_free t a s \<Longrightarrow> P a \<Longrightarrow> rows_ok (row_put t a s)"
  by (rule rows_ok_update [where a = a and t = t]) simp_all

lemma rows_ok_save: "rows_ok s \<Longrightarrow> key_free t a s \<Longrightarrow> P a \<Longrightarrow> rows_ok (snd (row_save env now t a s))"
  by (rule rows_ok_update [where a = "a\<lparr>agg_events := []\<rparr>" and t = t])
    (simp_all add: key_free_quiet promise_events)

lemma row_found: "rows_ok s \<Longrightarrow> row_find i t s = Some a \<Longrightarrow> map_of (rw_store s) i = Some (t, a) \<and> agg_id a = i \<and> P a"
  using rows_okD(1,2) by (fastforce simp: row_find_def split: option.splits if_splits)

lemma own_key_free:
  "rows_ok s \<Longrightarrow> row_find (agg_id a) t s = Some a \<Longrightarrow> agg_id b = agg_id a \<Longrightarrow> key b = key a \<Longrightarrow> key_free t b s"
  unfolding key_free_def using rows_okD(3) row_found by metis

lemma key_free_put:
  "key_free t a s \<Longrightarrow> key_free t a (row_put t a s)"
  by (auto simp: key_free_def update_conv' split: if_splits)

text \<open>A method of a loaded aggregate that leaves its key alone and keeps the promise.\<close>

lemma keeps_rows_call:
  assumes "row_find i t s = Some a" "agg_id (snd (act a)) = agg_id a" "key (snd (act a)) = key a"
    and "P a \<Longrightarrow> P (snd (act a))"
  shows "keeps rows_ok (rows_call env now t act out a) s"
  unfolding keeps_def
proof
  assume ok: "rows_ok s"
  obtain r a' where a': "act a = (r, a')" by (cases "act a")
  have row: "agg_id a = i" "P a" using row_found [OF ok assms(1)] by simp_all
  have "key_free t a' s" using own_key_free [OF ok, of a t a'] assms(1-3) row by (simp add: a')
  moreover have "P a'" using assms(4) row by (simp add: a')
  ultimately have "rows_ok (row_put t a' s)" "rows_ok (snd (row_save env now t a' (row_put t a' s)))"
    using ok by (simp_all add: rows_ok_put rows_ok_save key_free_put)
  then show "rows_ok (snd (rows_call env now t act out a s))" by (cases r) (simp_all add: snd_rows_call a')
qed

lemma keeps_row_new:
  assumes "rows_ok s \<Longrightarrow> key_free t a s" "P a"
  shows "keeps rows_ok (then_do (row_save env now t a) (return_ok x)) s"
  using assms by (simp add: keeps_def rows_ok_save)

lemma tenant_row: "a \<in> set (tenant_rows t s) \<longleftrightarrow> (\<exists>i. (i, t, a) \<in> set (rw_store s))"
  by (force simp: tenant_rows_def)

lemma row_promise:
  assumes "rows_ok s" "a \<in> set (tenant_rows t s)"
  shows "P a"
proof -
  obtain i where "(i, t, a) \<in> set (rw_store s)" using assms(2) by (auto simp: tenant_row)
  then have "map_of (rw_store s) i = Some (t, a)" using rows_okD(4) [OF assms(1)] by simp
  then show ?thesis by (rule rows_okD(2) [OF assms(1)])
qed

text \<open>The reads that look for a key.\<close>

lemma find_by_key:
  assumes "rows_ok s"
  shows "List.find (\<lambda>a. key a = k) (tenant_rows t s) = Some a \<Longrightarrow> row_find (agg_id a) t s = Some a \<and> key a = k"
    and "List.find (\<lambda>a. key a = k) (tenant_rows t s) = None \<Longrightarrow> key b = k \<Longrightarrow> key_free t b s"
proof -
  have row: "a \<in> set (tenant_rows t s) \<longleftrightarrow> (\<exists>i. map_of (rw_store s) i = Some (t, a))" for a
    unfolding tenant_row using rows_okD(4) [OF assms] by simp
  show "List.find (\<lambda>a. key a = k) (tenant_rows t s) = Some a \<Longrightarrow> row_find (agg_id a) t s = Some a \<and> key a = k"
    using rows_okD(1) [OF assms] row by (fastforce dest: find_Some_props simp: row_find_def)
  show "List.find (\<lambda>a. key a = k) (tenant_rows t s) = None \<Longrightarrow> key b = k \<Longrightarrow> key_free t b s"
    using row by (fastforce simp: find_None_iff_all key_free_def)
qed

lemma distinct_keys: "rows_ok s \<Longrightarrow> distinct (map key (tenant_rows t s))"
proof -
  assume ok: "rows_ok s"
  have "distinct (map fst xs) \<Longrightarrow> set xs \<subseteq> set (rw_store s) \<Longrightarrow>
      distinct (map key (map (\<lambda>(i, t, a). a) (filter (\<lambda>(i, u, a). u = t) xs)))" for xs
  proof (induction xs)
    case (Cons x xs)
    obtain i u a where x: "x = (i, u, a)" by (cases x)
    have row: "(j, v, b) \<in> set (x # xs) \<Longrightarrow> map_of (rw_store s) j = Some (v, b)" for j v b
      using Cons.prems(2) rows_okD(4) [OF ok] by (meson map_of_is_SomeI subsetD)
    have "key a \<noteq> key b" if "u = t" "(j, t, b) \<in> set xs" for j b
      using rows_okD(3) [OF ok row row, of i t a j b] Cons.prems(1) that by (force simp: x)
    with Cons show ?case by (auto simp: x)
  qed simp
  from this [OF rows_okD(4) [OF ok]] show ?thesis by (simp add: tenant_rows_def)
qed

end

text \<open>Rows at rest carry no pending events.\<close>

definition quiet_rows :: "(('d, 'z) aggregate_scheme, 'b) row_service \<Rightarrow> bool" where
  "quiet_rows s = (\<forall>i t a. map_of (rw_store s) i = Some (t, a) \<longrightarrow> agg_events a = [])"

lemma empty_rows_quiet: "quiet_rows empty_rows"
  by (simp add: quiet_rows_def empty_rows_def)

lemma quiet_found: "quiet_rows s \<Longrightarrow> row_find i t s = Some a \<Longrightarrow> agg_events a = []"
  by (auto simp: quiet_rows_def row_find_def split: option.splits if_splits)

lemma quiet_save:
  assumes "\<And>i u b. map_of (rw_store s) i = Some (u, b) \<Longrightarrow> i \<noteq> agg_id a \<Longrightarrow> agg_events b = []"
  shows "quiet_rows (snd (row_save env now t a s))"
  using assms by (auto simp: quiet_rows_def update_conv')

lemma keeps_quiet_new: "keeps quiet_rows (then_do (row_save env now t a) (return_ok x)) s"
  by (auto simp: keeps_def quiet_rows_def update_conv' split: if_splits)

lemma keeps_quiet_call:
  assumes "agg_events a = []" "\<And>e a'. act a = (Inl e, a') \<Longrightarrow> a' = a"
  shows "keeps quiet_rows (rows_call env now t act out a) s"
proof (cases "act a")
  case (Pair r a')
  show ?thesis
  proof (cases r)
    case (Inl e)
    with assms Pair show ?thesis by (auto simp: keeps_def snd_rows_call quiet_rows_def update_conv')
  next
    case (Inr u)
    have "quiet_rows (snd (row_save env now t a' (row_put t a' s)))" if "quiet_rows s"
      using that by (intro quiet_save) (auto simp: quiet_rows_def update_conv')
    with Inr Pair show ?thesis by (simp add: keeps_def snd_rows_call)
  qed
qed

text \<open>A fact about the row of one id that the other requests leave alone.\<close>

lemma row_find_call_other:
  assumes "agg_id (snd (act a)) \<noteq> i"
  shows "row_find i t (snd (rows_call env now u act out a s)) = row_find i t s"
  using assms by (cases "act a"; cases "fst (act a)") (simp_all add: snd_rows_call row_find_put row_find_save)

lemma row_find_call_own:
  assumes "agg_id (snd (act a)) = i"
  shows "\<exists>a'. row_find i t (snd (rows_call env now t act out a s)) = Some a' \<and>
    (a' = snd (act a) \<or> a' = (snd (act a))\<lparr>agg_events := []\<rparr>)"
  using assms by (cases "act a"; cases "fst (act a)") (auto simp: snd_rows_call row_find_put row_find_save)

end
