(* ===== verification/Loyalty.thy ===== *)
theory Loyalty
  imports AggregateService JsConvert
begin

section \<open>Loyalty accounts\<close>

text \<open>
  services/loyalty/src/domain: a customer's wallet of points with its append-only ledger, the reward tier
  the balance qualifies for, and the status of the account. Points are whole numbers (the column is an
  \<^verbatim>\<open>Int\<close>) of either sign: nothing checks the sign of the points of a request. A method may throw a domain
  error or, when no tier is configured, a plain \<^verbatim>\<open>Error\<close>.
\<close>

subsection \<open>Values\<close>

datatype account_status = LsActive | LsSuspended | LsClosed

fun account_status_name :: "account_status \<Rightarrow> string" where
  "account_status_name LsActive = ''active''"
| "account_status_name LsSuspended = ''suspended''"
| "account_status_name LsClosed = ''closed''"

fun account_transitions :: "account_status \<Rightarrow> account_status list" where
  "account_transitions LsActive = [LsSuspended, LsClosed]"
| "account_transitions LsSuspended = [LsActive, LsClosed]"
| "account_transitions LsClosed = []"

definition canTransitionAccount :: "account_status \<Rightarrow> account_status \<Rightarrow> bool" where
  "canTransitionAccount from to = (to \<in> set (account_transitions from))"

record reward_tier =
  rt_name :: string
  rt_minimumPoints :: int

definition resolveTier :: "int \<Rightarrow> reward_tier list \<Rightarrow> (thrown, reward_tier) result" where
  "resolveTier balance tiers =
     (let sorted = sort_cmp (\<lambda>a b. rt_minimumPoints a - rt_minimumPoints b) tiers;
          start = (case sorted of [] \<Rightarrow> None | t # _ \<Rightarrow> Some t);
          current = fold (\<lambda>tier cur. if rt_minimumPoints tier \<le> balance then Some tier else cur) sorted start
      in case current of None \<Rightarrow> Inl ThrownOther | Some t \<Rightarrow> Inr t)"

record reward =
  rwd_rewardRef :: string
  rwd_name :: string
  rwd_costPoints :: int

definition Reward_create :: "string \<Rightarrow> string \<Rightarrow> int \<Rightarrow> (domain_error, reward) result" where
  "Reward_create rewardRef name costPoints =
     bind_result (againstEmpty rewardRef ''rewardRef'') (\<lambda>_.
     bind_result (againstNegative (jint costPoints) ''costPoints'') (\<lambda>_.
       Inr \<lparr>rwd_rewardRef = rewardRef, rwd_name = name, rwd_costPoints = costPoints\<rparr>))"

datatype transaction_kind = LtEarn | LtSpend | LtCashback | LtReferral

record loyalty_transaction =
  lt_id :: string
  lt_idempotencyKey :: string
  lt_kind :: transaction_kind
  lt_pointsDelta :: int
  lt_ref :: "string option"
  lt_occurredAt :: timestamp

datatype loyalty_family = FamAccount | FamPoints | FamTier | FamReward | FamReferral

fun loyalty_family_name :: "loyalty_family \<Rightarrow> string" where
  "loyalty_family_name FamAccount = ''account''"
| "loyalty_family_name FamPoints = ''points''"
| "loyalty_family_name FamTier = ''tier''"
| "loyalty_family_name FamReward = ''reward''"
| "loyalty_family_name FamReferral = ''referral''"

record loyalty_transitioned =
  ly_customerRef :: string
  ly_family :: loyalty_family
  ly_action :: string
  ly_balance :: int
  ly_ref :: "string option"

subsection \<open>The aggregate (loyalty-account.ts)\<close>

record loyalty_account = "loyalty_transitioned aggregate" +
  la_customerRef :: string
  la_status :: account_status
  la_points :: int
  la_tiers :: "reward_tier list"
  la_tierName :: string
  la_transactions :: "loyalty_transaction list"

type_synonym loyalty_action = "(thrown, loyalty_account, unit) action"

definition LoyaltyAccount_create ::
  "string \<Rightarrow> string \<Rightarrow> reward_tier list \<Rightarrow> (thrown, loyalty_account) result" where
  "LoyaltyAccount_create aid customerRef tiers =
     bind_result (resolveTier 0 tiers) (\<lambda>startingTier.
       Inr \<lparr>agg_id = aid, agg_version = 0, agg_events = [], la_customerRef = customerRef, la_status = LsActive,
         la_points = 0, la_tiers = tiers, la_tierName = rt_name startingTier, la_transactions = []\<rparr>)"

definition hasTransaction :: "string \<Rightarrow> loyalty_account \<Rightarrow> bool" where
  "hasTransaction idempotencyKey a = list_ex (\<lambda>t. lt_idempotencyKey t = idempotencyKey) (la_transactions a)"

definition loyalty_raise ::
  "loyalty_family \<Rightarrow> string \<Rightarrow> string \<Rightarrow> timestamp \<Rightarrow> string option \<Rightarrow> loyalty_account \<Rightarrow> loyalty_account" where
  "loyalty_raise family act eventId occurredAt ref a =
     addDomainEvent eventId occurredAt \<lparr>ly_customerRef = la_customerRef a, ly_family = family, ly_action = act,
       ly_balance = la_points a, ly_ref = ref\<rparr> a"

definition account_transition :: "account_status \<Rightarrow> string \<Rightarrow> timestamp \<Rightarrow> loyalty_action" where
  "account_transition toStatus eventId occurredAt = (\<lambda>a.
     let fromStatus = la_status a in
     if \<not> canTransitionAccount fromStatus toStatus
     then (Inl (ThrownDomain (BusinessRuleError (''Cannot transition loyalty account from \"'' @
             account_status_name fromStatus @ ''\" to \"'' @ account_status_name toStatus @ ''\"''))), a)
     else (let act = (if toStatus = LsActive then ''opened'' else account_status_name toStatus)
           in (Inr (), loyalty_raise FamAccount act eventId occurredAt None (a\<lparr>la_status := toStatus\<rparr>))))"

definition requireActive :: loyalty_action where
  "requireActive = require (\<lambda>a. la_status a = LsActive) (\<lambda>a. ThrownDomain (BusinessRuleError
     (''Loyalty account is not active (status: '' @ account_status_name (la_status a) @ '')'')))"

definition recordTransaction :: "string \<Rightarrow> transaction_kind \<Rightarrow> int \<Rightarrow> string \<Rightarrow> timestamp \<Rightarrow> loyalty_action" where
  "recordTransaction idempotencyKey kind pointsDelta ref occurredAt =
     bind_action (from_result (\<lambda>a. mapError ThrownDomain
       (UniqueEntityId_from (agg_id a @ show_nat (length (la_transactions a)))))) (\<lambda>tid.
     modify (\<lambda>a. a\<lparr>la_transactions := la_transactions a @
       [\<lparr>lt_id = tid, lt_idempotencyKey = idempotencyKey, lt_kind = kind, lt_pointsDelta = pointsDelta,
         lt_ref = Some ref, lt_occurredAt = occurredAt\<rparr>]\<rparr>))"

definition checkTierUpgrade :: "string \<Rightarrow> timestamp \<Rightarrow> loyalty_action" where
  "checkTierUpgrade eventId occurredAt =
     bind_action (from_result (\<lambda>a. resolveTier (la_points a) (la_tiers a))) (\<lambda>newTier.
     modify (\<lambda>a. if rt_name newTier \<noteq> la_tierName a
       then loyalty_raise FamTier ''upgraded'' eventId occurredAt (Some (rt_name newTier))
              (a\<lparr>la_tierName := rt_name newTier\<rparr>)
       else a))"

text \<open>\<^verbatim>\<open>if (this.hasTransaction(idempotencyKey)) return;\<close> in front of a ledger method.\<close>

definition unless_recorded :: "string \<Rightarrow> loyalty_action \<Rightarrow> loyalty_action" where
  "unless_recorded key act = (\<lambda>a. if hasTransaction key a then (Inr (), a) else act a)"

text \<open>What \<^verbatim>\<open>earn\<close>, \<^verbatim>\<open>recordCashback\<close> and \<^verbatim>\<open>completeReferral\<close> share, and what \<^verbatim>\<open>spend\<close> and \<^verbatim>\<open>redeemReward\<close> share.\<close>

definition gain_points ::
  "transaction_kind \<Rightarrow> loyalty_family \<Rightarrow> string \<Rightarrow> string \<Rightarrow> int \<Rightarrow> string \<Rightarrow> string \<Rightarrow> timestamp \<Rightarrow> loyalty_action" where
  "gain_points kind family act key points ref eventId occurredAt =
     unless_recorded key
       (then_do requireActive
       (then_do (recordTransaction key kind points ref occurredAt)
       (then_do (modify (\<lambda>a. a\<lparr>la_points := la_points a + points\<rparr>))
       (then_do (modify (loyalty_raise family act eventId occurredAt (Some ref)))
         (checkTierUpgrade eventId occurredAt)))))"

definition take_points ::
  "loyalty_family \<Rightarrow> string \<Rightarrow> string \<Rightarrow> string \<Rightarrow> int \<Rightarrow> string \<Rightarrow> string \<Rightarrow> timestamp \<Rightarrow> loyalty_action" where
  "take_points family act shortfall key points ref eventId occurredAt =
     unless_recorded key
       (then_do requireActive
       (then_do (require (\<lambda>a. points \<le> la_points a) (\<lambda>_. ThrownDomain (BusinessRuleError shortfall)))
       (then_do (recordTransaction key LtSpend (- points) ref occurredAt)
       (then_do (modify (\<lambda>a. a\<lparr>la_points := la_points a - points\<rparr>))
         (modify (loyalty_raise family act eventId occurredAt (Some ref)))))))"

definition loyalty_earn :: "string \<Rightarrow> int \<Rightarrow> string \<Rightarrow> string \<Rightarrow> timestamp \<Rightarrow> loyalty_action" where
  "loyalty_earn = gain_points LtEarn FamPoints ''earned''"

definition recordCashback :: "string \<Rightarrow> int \<Rightarrow> string \<Rightarrow> string \<Rightarrow> timestamp \<Rightarrow> loyalty_action" where
  "recordCashback = gain_points LtCashback FamPoints ''earned''"

definition loyalty_spend :: "string \<Rightarrow> int \<Rightarrow> string \<Rightarrow> string \<Rightarrow> timestamp \<Rightarrow> loyalty_action" where
  "loyalty_spend = take_points FamPoints ''spent'' ''Insufficient loyalty points balance''"

definition redeemReward :: "string \<Rightarrow> reward \<Rightarrow> string \<Rightarrow> timestamp \<Rightarrow> loyalty_action" where
  "redeemReward key reward = take_points FamReward ''redeemed''
     ''Insufficient loyalty points balance to redeem this reward'' key (rwd_costPoints reward) (rwd_rewardRef reward)"

definition completeReferral :: "string \<Rightarrow> int \<Rightarrow> string \<Rightarrow> string \<Rightarrow> timestamp \<Rightarrow> loyalty_action" where
  "completeReferral = gain_points LtReferral FamReferral ''completed''"

subsection \<open>Calls\<close>

datatype wallet_entry =
    Earn int string
  | Cashback int string
  | Spend int string
  | Redeem reward
  | Referral int string

fun ledger_method :: "wallet_entry \<Rightarrow> string \<Rightarrow> string \<Rightarrow> timestamp \<Rightarrow> loyalty_action" where
  "ledger_method (Earn p ref) k i t = loyalty_earn k p ref i t"
| "ledger_method (Cashback p ref) k i t = recordCashback k p ref i t"
| "ledger_method (Spend p ref) k i t = loyalty_spend k p ref i t"
| "ledger_method (Redeem r) k i t = redeemReward k r i t"
| "ledger_method (Referral p ref) k i t = completeReferral k p ref i t"

datatype loyalty_call =
    MoveAccount account_status string timestamp
  | Ledger wallet_entry string string timestamp

fun loyalty_step :: "loyalty_call \<Rightarrow> loyalty_action" where
  "loyalty_step (MoveAccount to i t) = account_transition to i t"
| "loyalty_step (Ledger e k i t) = ledger_method e k i t"

subsection \<open>The tier of a balance\<close>

abbreviation tier_floor :: "reward_tier \<Rightarrow> int" where
  "tier_floor \<equiv> rt_minimumPoints"

abbreviation by_floor :: "reward_tier list \<Rightarrow> reward_tier list" where
  "by_floor \<equiv> sort_cmp (\<lambda>a b. tier_floor a - tier_floor b)"

text \<open>
  The reference: among the tiers the balance reaches, the last one listed with the highest threshold; when
  it reaches none, the first one listed with the lowest.
\<close>

definition highest_tier :: "int \<Rightarrow> reward_tier list \<Rightarrow> reward_tier" where
  "highest_tier balance tiers =
     (let reached = filter (\<lambda>q. tier_floor q \<le> balance) tiers in
      if reached = [] then hd (filter (\<lambda>q. tier_floor q = Min (tier_floor ` set tiers)) tiers)
      else last (filter (\<lambda>q. tier_floor q = Max (tier_floor ` set reached)) tiers))"

lemma floor_sorted: "sorted (map tier_floor (by_floor ts))"
proof (induction ts)
  case (Cons t ts)
  have "sorted (map tier_floor (ins_cmp (\<lambda>a b. tier_floor a - tier_floor b) t xs))" if "sorted (map tier_floor xs)" for xs
    using that
  proof (induction xs)
    case (Cons y ys)
    have "set (ins_cmp (\<lambda>a b. tier_floor a - tier_floor b) t ys) = insert t (set ys)"
      by (metis mset_ins_cmp set_mset_mset set_mset_add_mset_insert)
    with Cons show ?case by auto
  qed simp
  with Cons show ?case by simp
qed simp

lemma floor_stable: "filter (\<lambda>q. tier_floor q = m) (by_floor ts) = filter (\<lambda>q. tier_floor q = m) ts"
proof (induction ts)
  case (Cons t ts)
  have "filter (\<lambda>q. tier_floor q = m) (ins_cmp (\<lambda>a b. tier_floor a - tier_floor b) t xs) =
      filter (\<lambda>q. tier_floor q = m) (t # xs)" for xs
    by (induction xs) auto
  with Cons show ?case by simp
qed simp

lemma fold_reached:
  "fold (\<lambda>tier cur. if tier_floor tier \<le> b then Some tier else cur) xs start =
     (let qs = filter (\<lambda>q. tier_floor q \<le> b) xs in if qs = [] then start else Some (last qs))"
  by (induction xs arbitrary: start) (auto simp: Let_def)

lemma last_filter: "xs \<noteq> [] \<Longrightarrow> Q (last xs) \<Longrightarrow> last (filter Q xs) = last xs"
  by (induction xs rule: rev_induct) auto

lemma sorted_map_last: "sorted (map f xs) \<Longrightarrow> q \<in> set xs \<Longrightarrow> f q \<le> f (last xs)"
  by (induction xs rule: rev_induct) (auto simp: sorted_append)

lemma last_reached:
  assumes "filter (\<lambda>q. tier_floor q \<le> b) ts \<noteq> []"
  shows "last (filter (\<lambda>q. tier_floor q \<le> b) (by_floor ts)) = highest_tier b ts"
proof -
  define qs where "qs = filter (\<lambda>q. tier_floor q \<le> b) (by_floor ts)"
  define m where "m = tier_floor (last qs)"
  have same: "set qs = set (filter (\<lambda>q. tier_floor q \<le> b) ts)" by (auto simp: qs_def)
  then have ne: "qs \<noteq> []" using assms by (metis set_empty)
  have "sorted (map tier_floor qs)" unfolding qs_def by (rule sorted_filter [OF floor_sorted])
  then have top: "\<forall>q\<in>set qs. tier_floor q \<le> m"
    by (auto simp: m_def intro: sorted_map_last)
  have "last qs \<in> set qs" using ne by simp
  then have m: "m = Max (tier_floor ` set (filter (\<lambda>q. tier_floor q \<le> b) ts))" "m \<le> b"
    using top by (auto simp flip: same simp: m_def qs_def intro!: Max_eqI [symmetric])
  have "last qs = last (filter (\<lambda>q. tier_floor q = m) qs)" using ne by (simp add: last_filter m_def)
  also have "filter (\<lambda>q. tier_floor q = m) qs = filter (\<lambda>q. tier_floor q = m) (by_floor ts)"
    unfolding qs_def filter_filter by (rule filter_cong) (use m(2) in auto)
  finally show ?thesis using assms m(1) by (simp add: qs_def floor_stable highest_tier_def)
qed

lemma first_by_floor:
  assumes "ts \<noteq> []"
  shows "hd (by_floor ts) = hd (filter (\<lambda>q. tier_floor q = Min (tier_floor ` set ts)) ts)"
proof -
  obtain x xs where x: "by_floor ts = x # xs"
    using assms by (metis length_0_conv length_sort_cmp neq_Nil_conv)
  have same: "set ts = set (x # xs)" by (metis x set_sort_cmp)
  have low: "\<forall>q\<in>set (x # xs). tier_floor x \<le> tier_floor q" using floor_sorted [of ts] by (auto simp: x)
  have "Min (tier_floor ` set ts) = tier_floor x"
    unfolding same by (rule Min_eqI) (use low in auto)
  moreover have "x # filter (\<lambda>q. tier_floor q = tier_floor x) xs = filter (\<lambda>q. tier_floor q = tier_floor x) ts"
    using floor_stable [of "tier_floor x" ts] by (simp add: x)
  ultimately show ?thesis by (metis list.sel(1) x)
qed

lemma resolveTier_highest: "ts \<noteq> [] \<Longrightarrow> resolveTier b ts = Inr (highest_tier b ts)"
proof -
  assume ne: "ts \<noteq> []"
  obtain x xs where x: "by_floor ts = x # xs" using ne by (metis length_0_conv length_sort_cmp neq_Nil_conv)
  have none: "(filter (\<lambda>q. tier_floor q \<le> b) (by_floor ts) = []) = (filter (\<lambda>q. tier_floor q \<le> b) ts = [])"
    by (simp add: filter_empty_conv)
  show ?thesis
  proof (cases "filter (\<lambda>q. tier_floor q \<le> b) ts = []")
    case True
    then have "resolveTier b ts = Inr (hd (by_floor ts))"
      using none by (simp only: resolveTier_def fold_reached Let_def) (simp add: x)
    with True show ?thesis using first_by_floor [OF ne] by (simp add: highest_tier_def)
  next
    case False
    then have "resolveTier b ts = Inr (last (filter (\<lambda>q. tier_floor q \<le> b) (by_floor ts)))"
      using none by (simp only: resolveTier_def fold_reached Let_def) simp
    with False show ?thesis using last_reached by simp
  qed
qed

text \<open>\<^verbatim>\<open>resolveTier\<close>, which sorts the ladder and walks up, answers for every balance and every order of the ladder the
  last listed of the highest tiers the balance reaches, the first listed of the lowest tiers when it reaches none,
  and throws exactly when no tier is configured.\<close>

lemma tier_is_highest:
  "resolveTier balance tiers = (if tiers = [] then Inl ThrownOther else Inr (highest_tier balance tiers))"
  by (simp add: resolveTier_highest) (simp add: resolveTier_def)

lemma highest_tier_in: "ts \<noteq> [] \<Longrightarrow> highest_tier b ts \<in> set ts"
proof -
  assume ne: "ts \<noteq> []"
  show ?thesis
  proof (cases "filter (\<lambda>q. tier_floor q \<le> b) ts = []")
    case True
    then have "highest_tier b ts = hd (by_floor ts)" using first_by_floor [OF ne] by (simp add: highest_tier_def)
    moreover have "by_floor ts \<noteq> []" using ne by (metis length_0_conv length_sort_cmp)
    ultimately show ?thesis by (metis hd_in_set set_sort_cmp)
  next
    case False
    have "filter (\<lambda>q. tier_floor q \<le> b) (by_floor ts) \<noteq> []" using False by (simp add: filter_empty_conv)
    then have "last (filter (\<lambda>q. tier_floor q \<le> b) (by_floor ts)) \<in> set ts"
      using last_in_set by fastforce
    with last_reached [OF False] show ?thesis by simp
  qed
qed


subsection \<open>What a ledger method does\<close>

fun delta_of :: "wallet_entry \<Rightarrow> int" where
  "delta_of (Earn p ref) = p"
| "delta_of (Cashback p ref) = p"
| "delta_of (Spend p ref) = - p"
| "delta_of (Redeem r) = - rwd_costPoints r"
| "delta_of (Referral p ref) = p"

fun kind_of :: "wallet_entry \<Rightarrow> transaction_kind" where
  "kind_of (Earn p ref) = LtEarn"
| "kind_of (Cashback p ref) = LtCashback"
| "kind_of (Spend p ref) = LtSpend"
| "kind_of (Redeem r) = LtSpend"
| "kind_of (Referral p ref) = LtReferral"

fun ref_of :: "wallet_entry \<Rightarrow> string" where
  "ref_of (Earn p ref) = ref"
| "ref_of (Cashback p ref) = ref"
| "ref_of (Spend p ref) = ref"
| "ref_of (Redeem r) = rwd_rewardRef r"
| "ref_of (Referral p ref) = ref"

fun event_of :: "wallet_entry \<Rightarrow> loyalty_family \<times> string" where
  "event_of (Earn p ref) = (FamPoints, ''earned'')"
| "event_of (Cashback p ref) = (FamPoints, ''earned'')"
| "event_of (Spend p ref) = (FamPoints, ''spent'')"
| "event_of (Redeem r) = (FamReward, ''redeemed'')"
| "event_of (Referral p ref) = (FamReferral, ''completed'')"

definition transaction_of :: "wallet_entry \<Rightarrow> string \<Rightarrow> timestamp \<Rightarrow> loyalty_account \<Rightarrow> loyalty_transaction" where
  "transaction_of e key t a =
     \<lparr>lt_id = agg_id a @ show_nat (length (la_transactions a)), lt_idempotencyKey = key, lt_kind = kind_of e,
      lt_pointsDelta = delta_of e, lt_ref = Some (ref_of e), lt_occurredAt = t\<rparr>"

text \<open>The account with the entry in its ledger and the event raised; an earning then looks at the tier.\<close>

definition posted :: "wallet_entry \<Rightarrow> string \<Rightarrow> string \<Rightarrow> timestamp \<Rightarrow> loyalty_account \<Rightarrow> loyalty_account" where
  "posted e key eventId t a =
     loyalty_raise (fst (event_of e)) (snd (event_of e)) eventId t (Some (ref_of e))
       (a\<lparr>la_transactions := la_transactions a @ [transaction_of e key t a], la_points := la_points a + delta_of e\<rparr>)"

definition regraded :: "string \<Rightarrow> timestamp \<Rightarrow> loyalty_account \<Rightarrow> loyalty_account" where
  "regraded eventId t a =
     (let name = rt_name (highest_tier (la_points a) (la_tiers a)) in
      if name \<noteq> la_tierName a
      then loyalty_raise FamTier ''upgraded'' eventId t (Some name) (a\<lparr>la_tierName := name\<rparr>) else a)"

definition takes :: "wallet_entry \<Rightarrow> bool" where
  "takes e = (case e of Spend _ _ \<Rightarrow> True | Redeem _ \<Rightarrow> True | _ \<Rightarrow> False)"

lemma loyalty_raise_sel [simp]:
  "agg_id (loyalty_raise f act i t r a) = agg_id a"
  "la_customerRef (loyalty_raise f act i t r a) = la_customerRef a"
  "la_status (loyalty_raise f act i t r a) = la_status a"
  "la_points (loyalty_raise f act i t r a) = la_points a"
  "la_tiers (loyalty_raise f act i t r a) = la_tiers a"
  "la_tierName (loyalty_raise f act i t r a) = la_tierName a"
  "la_transactions (loyalty_raise f act i t r a) = la_transactions a"
  "agg_events (loyalty_raise f act i t r a) = agg_events a @
     [\<lparr>ev_eventId = i, ev_aggregateId = agg_id a, ev_occurredAt = t, ev_data = \<lparr>ly_customerRef = la_customerRef a,
       ly_family = f, ly_action = act, ly_balance = la_points a, ly_ref = r\<rparr>\<rparr>]"
  by (simp_all add: loyalty_raise_def addDomainEvent_def)

lemma posted_sel [simp]:
  "agg_id (posted e k i t a) = agg_id a"
  "la_customerRef (posted e k i t a) = la_customerRef a"
  "la_status (posted e k i t a) = la_status a"
  "la_points (posted e k i t a) = la_points a + delta_of e"
  "la_tiers (posted e k i t a) = la_tiers a"
  "la_tierName (posted e k i t a) = la_tierName a"
  "la_transactions (posted e k i t a) = la_transactions a @ [transaction_of e k t a]"
  by (simp_all add: posted_def)

lemma regraded_sel [simp]:
  "agg_id (regraded i t a) = agg_id a"
  "la_customerRef (regraded i t a) = la_customerRef a"
  "la_status (regraded i t a) = la_status a"
  "la_points (regraded i t a) = la_points a"
  "la_tiers (regraded i t a) = la_tiers a"
  "la_tierName (regraded i t a) = rt_name (highest_tier (la_points a) (la_tiers a))"
  "la_transactions (regraded i t a) = la_transactions a"
  by (simp_all add: regraded_def Let_def)

lemma checkTierUpgrade_apply:
  "la_tiers a \<noteq> [] \<Longrightarrow> checkTierUpgrade i t a = (Inr (), regraded i t a)"
  by (simp add: checkTierUpgrade_def bind_action_apply resolveTier_highest regraded_def Let_def)

lemma ledger_apply:
  assumes "la_tiers a \<noteq> []"
  shows "ledger_method e k i t a =
    (if hasTransaction k a then (Inr (), a)
     else if la_status a \<noteq> LsActive then (fst (requireActive a), a)
     else if takes e \<and> la_points a < - delta_of e then
       (Inl (ThrownDomain (BusinessRuleError (case e of Redeem _ \<Rightarrow> ''Insufficient loyalty points balance to redeem this reward''
          | _ \<Rightarrow> ''Insufficient loyalty points balance''))), a)
     else (Inr (), if takes e then posted e k i t a else regraded i t (posted e k i t a)))"
  using assms
  by (cases e) (simp_all add: loyalty_earn_def recordCashback_def loyalty_spend_def redeemReward_def completeReferral_def
      gain_points_def take_points_def unless_recorded_def then_do_apply requireActive_def recordTransaction_def
      bind_action_apply mapError_def checkTierUpgrade_apply takes_def posted_def transaction_of_def)

subsection \<open>The ledger accounts for the balance\<close>

definition account_ok :: "reward_tier list \<Rightarrow> loyalty_account \<Rightarrow> bool" where
  "account_ok tiers a =
     (la_tiers a = tiers \<and> tiers \<noteq> [] \<and> la_points a = sum_list (map lt_pointsDelta (la_transactions a)) \<and>
      distinct (map lt_idempotencyKey (la_transactions a)) \<and>
      map lt_id (la_transactions a) = map (\<lambda>n. agg_id a @ show_nat n) [0..<length (la_transactions a)] \<and>
      la_tierName a \<in> rt_name ` set tiers)"

lemma account_ok_events [simp]: "account_ok tiers (a\<lparr>agg_events := es\<rparr>) = account_ok tiers a"
  by (simp add: account_ok_def)

lemma account_ok_ids: "account_ok tiers a \<Longrightarrow> distinct (map lt_id (la_transactions a))"
  by (auto simp: account_ok_def distinct_map inj_on_def dest: show_nat_inj)

lemma account_ok_create:
  "LoyaltyAccount_create i c tiers = Inr a \<Longrightarrow>
     account_ok tiers a \<and> agg_id a = i \<and> la_customerRef a = c \<and> la_points a = 0 \<and> agg_events a = []"
proof -
  assume c: "LoyaltyAccount_create i c tiers = Inr a"
  then obtain t where t: "resolveTier 0 tiers = Inr t" by (auto simp: LoyaltyAccount_create_def bind_result_Inr_iff)
  have ne: "tiers \<noteq> []" using t by (auto simp: resolveTier_def)
  then have "t \<in> set tiers" using t highest_tier_in [of tiers 0] by (simp add: resolveTier_highest)
  with c t ne show ?thesis by (auto simp: LoyaltyAccount_create_def account_ok_def)
qed

lemma posted_ok:
  assumes "account_ok tiers a" "\<not> hasTransaction k a"
  shows "account_ok tiers (posted e k i t a)"
  using assms by (auto simp: account_ok_def transaction_of_def hasTransaction_def list_ex_iff)

lemma regraded_ok: "account_ok tiers a \<Longrightarrow> account_ok tiers (regraded i t a)"
  using highest_tier_in [of tiers "la_points a"] by (auto simp: account_ok_def)

text \<open>Every call keeps who the account belongs to, the promise above, and throws before it writes.\<close>

lemma loyalty_step_facts:
  assumes "account_ok tiers a"
  shows "account_ok tiers (snd (loyalty_step c a))"
    and "agg_id (snd (loyalty_step c a)) = agg_id a"
    and "la_customerRef (snd (loyalty_step c a)) = la_customerRef a"
    and "loyalty_step c a = (Inl err, a') \<Longrightarrow> a' = a \<and> (\<exists>d. err = ThrownDomain d)"
    and "hasTransaction k a \<Longrightarrow> hasTransaction k (snd (loyalty_step c a))"
proof -
  have "la_tiers a \<noteq> []" using assms by (simp add: account_ok_def)
  note ledger = ledger_apply [OF this]
  have move: "snd (account_transition to i t a) =
      (if to \<in> set (account_transitions (la_status a))
       then loyalty_raise FamAccount (if to = LsActive then ''opened'' else account_status_name to) i t None
              (a\<lparr>la_status := to\<rparr>)
       else a)" for to i t
    by (simp add: account_transition_def canTransitionAccount_def)
  have status: "account_ok tiers (loyalty_raise f act i t r (a\<lparr>la_status := st\<rparr>))" for f act i t r st
    using assms by (simp add: account_ok_def)
  show "account_ok tiers (snd (loyalty_step c a))"
    using assms status by (cases c) (auto simp: ledger move posted_ok regraded_ok)
  show "agg_id (snd (loyalty_step c a)) = agg_id a" "la_customerRef (snd (loyalty_step c a)) = la_customerRef a"
    by (cases c; simp add: ledger move)+
  show "loyalty_step c a = (Inl err, a') \<Longrightarrow> a' = a \<and> (\<exists>d. err = ThrownDomain d)"
    by (cases c) (auto simp: ledger requireActive_def account_transition_def Let_def split: if_splits)
  show "hasTransaction k a \<Longrightarrow> hasTransaction k (snd (loyalty_step c a))"
    by (cases c) (auto simp: ledger move hasTransaction_def)
qed

interpretation loyalty: lifecycle la_status account_transitions loyalty_step
proof unfold_locales
  fix a :: loyalty_account and c
  have kept: "la_status (snd (gain_points k f act key p r i t a)) = la_status a" 
      "la_status (snd (take_points f act m key p r i t a)) = la_status a" for k f act key p r i t m
    by (auto simp: gain_points_def take_points_def unless_recorded_def then_do_apply requireActive_def recordTransaction_def
        bind_action_apply mapError_def checkTierUpgrade_def split: prod.splits sum.splits)
  show "(la_status a, la_status (snd (loyalty_step c a))) \<in> (edges account_transitions)\<^sup>*"
  proof (cases c)
    case (MoveAccount to i t)
    then show ?thesis by (auto simp: account_transition_def canTransitionAccount_def Let_def)
  next
    case (Ledger e k i t)
    then show ?thesis
      using kept by (cases e) (simp_all add: loyalty_earn_def recordCashback_def loyalty_spend_def redeemReward_def completeReferral_def)
  qed
qed

interpretation accounts: invariant_object "account_ok tiers" "\<lambda>_. True" loyalty_step for tiers
  by unfold_locales (rule loyalty_step_facts(1))

text \<open>Only earnings of a negative number of points take a balance below zero.\<close>

definition sound_entry :: "wallet_entry \<Rightarrow> bool" where
  "sound_entry e = (takes e \<or> 0 \<le> delta_of e)"

lemma ledger_balance:
  assumes "account_ok tiers a" "sound_entry e" "0 \<le> la_points a"
  shows "0 \<le> la_points (snd (ledger_method e k i t a))"
proof -
  have "la_tiers a \<noteq> []" using assms(1) by (simp add: account_ok_def)
  with assms(2,3) show ?thesis by (auto simp: ledger_apply sound_entry_def)
qed

end
