(* ===== verification/LoyaltyService.thy ===== *)
theory LoyaltyService
  imports Loyalty TenantRows
begin

section \<open>Loyalty use cases over the in-memory repository\<close>

text \<open>
  services/loyalty/src/application and src/infrastructure (in-memory). The ladder of tiers is configuration
  of the composition root, an argument here; \<open>gen\<close> and event ids are what \<^verbatim>\<open>idGenerator.generate()\<close>
  returns, \<open>now\<close> the clock.
\<close>

type_synonym 'b loyalty_service = "(loyalty_account, 'b) row_service"
type_synonym ('b, 'a) loyalty_use_case = "('b loyalty_service, 'a) use_case"
type_synonym 'b loyalty_env = "(loyalty_transitioned, 'b) agg_env"

definition LoyaltyEventTranslator ::
  "loyalty_transitioned domain_event \<Rightarrow> loyalty_transitioned descriptor option" where
  "LoyaltyEventTranslator event =
     Some \<lparr>d_type = ''loyalty.'' @ loyalty_family_name (ly_family (ev_data event)) @ ''.'' @ ly_action (ev_data event),
       d_eventVersion = 1, d_aggregateType = ''loyalty_account'', d_payload = ev_data event\<rparr>"

definition findByCustomerRef :: "string \<Rightarrow> string \<Rightarrow> 'b loyalty_service \<Rightarrow> loyalty_account option" where
  "findByCustomerRef customerRef tenant s = List.find (\<lambda>a. la_customerRef a = customerRef) (tenant_rows tenant s)"

subsection \<open>Use cases (loyalty.use-cases.ts)\<close>

record account_output =
  ao_accountId :: string
  ao_status :: account_status
  ao_balance :: int
  ao_tierName :: string

definition account_out :: "loyalty_account \<Rightarrow> account_output" where
  "account_out a = \<lparr>ao_accountId = agg_id a, ao_status = la_status a, ao_balance = la_points a,
     ao_tierName = la_tierName a\<rparr>"

definition OpenAccount ::
  "'b loyalty_env \<Rightarrow> reward_tier list \<Rightarrow> string \<Rightarrow> timestamp \<Rightarrow> string \<Rightarrow> string \<Rightarrow> ('b, account_output) loyalty_use_case" where
  "OpenAccount env tiers gen now tenant customerRef =
     or_return (againstEmpty customerRef ''customerRef'') (\<lambda>_. (\<lambda>s.
       case findByCustomerRef customerRef tenant s of
         Some _ \<Rightarrow> return_err (ConflictError (''Customer \"'' @ customerRef @ ''\" already has a loyalty account'')) s
       | None \<Rightarrow>
           or_reject (UniqueEntityId_from gen) (\<lambda>aid.
             case LoyaltyAccount_create aid customerRef tiers of
               Inl e \<Rightarrow> throw e
             | Inr a \<Rightarrow> then_do (row_save env now tenant a) (return_ok (account_out a))) s))"

definition account_missing :: domain_error where
  "account_missing = NotFoundError ''Loyalty account not found''"

definition AdvanceAccount ::
  "'b loyalty_env \<Rightarrow> string \<Rightarrow> timestamp \<Rightarrow> string \<Rightarrow> string \<Rightarrow> account_status \<Rightarrow> ('b, account_output) loyalty_use_case" where
  "AdvanceAccount env eventId now tenant accountId toStatus =
     lookup account_missing (row_find accountId tenant) (\<lambda>a.
       rows_call env now tenant (account_transition toStatus eventId now) account_out a)"

definition runLedgerAction ::
  "'b loyalty_env \<Rightarrow> timestamp \<Rightarrow> string \<Rightarrow> string \<Rightarrow> loyalty_action \<Rightarrow> ('b, account_output) loyalty_use_case" where
  "runLedgerAction env now tenant accountId act =
     lookup account_missing (row_find accountId tenant) (\<lambda>a. rows_call env now tenant act account_out a)"

definition EarnPoints ::
  "'b loyalty_env \<Rightarrow> string \<Rightarrow> timestamp \<Rightarrow> string \<Rightarrow> string \<Rightarrow> string \<Rightarrow> int \<Rightarrow> string \<Rightarrow> ('b, account_output) loyalty_use_case" where
  "EarnPoints env eventId now tenant accountId key points ref =
     runLedgerAction env now tenant accountId (loyalty_earn key points ref eventId now)"

definition SpendPoints ::
  "'b loyalty_env \<Rightarrow> string \<Rightarrow> timestamp \<Rightarrow> string \<Rightarrow> string \<Rightarrow> string \<Rightarrow> int \<Rightarrow> string \<Rightarrow> ('b, account_output) loyalty_use_case" where
  "SpendPoints env eventId now tenant accountId key points ref =
     runLedgerAction env now tenant accountId (loyalty_spend key points ref eventId now)"

definition RecordCashback ::
  "'b loyalty_env \<Rightarrow> string \<Rightarrow> timestamp \<Rightarrow> string \<Rightarrow> string \<Rightarrow> string \<Rightarrow> int \<Rightarrow> string \<Rightarrow> ('b, account_output) loyalty_use_case" where
  "RecordCashback env eventId now tenant accountId key points ref =
     runLedgerAction env now tenant accountId (recordCashback key points ref eventId now)"

definition RedeemReward ::
  "'b loyalty_env \<Rightarrow> string \<Rightarrow> timestamp \<Rightarrow> string \<Rightarrow> string \<Rightarrow> string \<Rightarrow> string \<Rightarrow> string \<Rightarrow> int \<Rightarrow>
     ('b, account_output) loyalty_use_case" where
  "RedeemReward env eventId now tenant accountId key rewardRef rewardName costPoints =
     or_return (Reward_create rewardRef rewardName costPoints) (\<lambda>reward.
     lookup account_missing (row_find accountId tenant) (\<lambda>a.
       rows_call env now tenant (redeemReward key reward eventId now) account_out a))"

definition CompleteReferral ::
  "'b loyalty_env \<Rightarrow> string \<Rightarrow> timestamp \<Rightarrow> string \<Rightarrow> string \<Rightarrow> string \<Rightarrow> int \<Rightarrow> string \<Rightarrow> ('b, account_output) loyalty_use_case" where
  "CompleteReferral env eventId now tenant accountId key bonusPoints referredCustomerRef =
     lookup account_missing (row_find accountId tenant) (\<lambda>a.
       rows_call env now tenant (completeReferral key bonusPoints referredCustomerRef eventId now) account_out a)"

definition GetAccount :: "string \<Rightarrow> string \<Rightarrow> 'b loyalty_service \<Rightarrow> (domain_error, loyalty_account) result" where
  "GetAccount tenant accountId s =
     (case row_find accountId tenant s of None \<Rightarrow> Inl account_missing | Some a \<Rightarrow> Inr a)"

definition GetAccountByCustomer :: "string \<Rightarrow> string \<Rightarrow> 'b loyalty_service \<Rightarrow> (domain_error, loyalty_account) result" where
  "GetAccountByCustomer tenant customerRef s =
     (case findByCustomerRef customerRef tenant s of None \<Rightarrow> Inl account_missing | Some a \<Rightarrow> Inr a)"

definition ListAccounts ::
  "(string \<Rightarrow> string \<Rightarrow> int) \<Rightarrow> int option \<Rightarrow> string option \<Rightarrow> string \<Rightarrow> 'b loyalty_service \<Rightarrow>
     (domain_error, loyalty_account list \<times> page_info) result" where
  "ListAccounts localeCompare first after tenant s = Inr (row_list localeCompare first after tenant s)"

subsection \<open>Requests\<close>

datatype ledger_input =
    EarnInput int string
  | SpendInput int string
  | CashbackInput int string
  | RedeemInput string string int
  | ReferralInput int string

fun ledger_use_case ::
  "'b loyalty_env \<Rightarrow> string \<Rightarrow> timestamp \<Rightarrow> string \<Rightarrow> string \<Rightarrow> string \<Rightarrow> ledger_input \<Rightarrow> ('b, account_output) loyalty_use_case" where
  "ledger_use_case env i now t acc key (EarnInput p ref) = EarnPoints env i now t acc key p ref"
| "ledger_use_case env i now t acc key (SpendInput p ref) = SpendPoints env i now t acc key p ref"
| "ledger_use_case env i now t acc key (CashbackInput p ref) = RecordCashback env i now t acc key p ref"
| "ledger_use_case env i now t acc key (RedeemInput ref name cost) = RedeemReward env i now t acc key ref name cost"
| "ledger_use_case env i now t acc key (ReferralInput p ref) = CompleteReferral env i now t acc key p ref"

datatype loyalty_request =
    ReqOpenAccount string timestamp string string
  | ReqAdvanceAccount string timestamp string string account_status
  | ReqLedger string timestamp string string string ledger_input

fun loyalty_handle :: "'b loyalty_env \<Rightarrow> reward_tier list \<Rightarrow> loyalty_request \<Rightarrow> ('b, unit) loyalty_use_case" where
  "loyalty_handle env tiers (ReqOpenAccount g now t c) = drop_answer (OpenAccount env tiers g now t c)"
| "loyalty_handle env tiers (ReqAdvanceAccount i now t acc st) = drop_answer (AdvanceAccount env i now t acc st)"
| "loyalty_handle env tiers (ReqLedger i now t acc key inp) = drop_answer (ledger_use_case env i now t acc key inp)"

subsection \<open>A ledger request is a validated entry posted to a loaded account\<close>

fun entry_of :: "ledger_input \<Rightarrow> (domain_error, wallet_entry) result" where
  "entry_of (EarnInput p ref) = Inr (Earn p ref)"
| "entry_of (SpendInput p ref) = Inr (Spend p ref)"
| "entry_of (CashbackInput p ref) = Inr (Cashback p ref)"
| "entry_of (RedeemInput ref name cost) = map_ok Redeem (Reward_create ref name cost)"
| "entry_of (ReferralInput p ref) = Inr (Referral p ref)"

lemma ledger_use_case_entry:
  "ledger_use_case env i now t acc key inp =
     or_return (entry_of inp) (\<lambda>e. runLedgerAction env now t acc (ledger_method e key i now))"
  by (cases inp) (auto simp: EarnPoints_def SpendPoints_def RecordCashback_def RedeemReward_def CompleteReferral_def
      runLedgerAction_def or_return_def map_ok_def fun_eq_iff split: sum.splits)

subsection \<open>What every stored account promises\<close>

text \<open>\<open>lax\<close> tells whether requests may earn a negative number of points.\<close>

definition stored_account :: "bool \<Rightarrow> reward_tier list \<Rightarrow> loyalty_account \<Rightarrow> bool" where
  "stored_account lax tiers a = (account_ok tiers a \<and> (lax \<or> 0 \<le> la_points a))"

interpretation loyalty_rows: keyed_rows la_customerRef "stored_account lax tiers" for lax tiers
  by unfold_locales (simp_all add: stored_account_def)

definition loyalty_ok :: "bool \<Rightarrow> reward_tier list \<Rightarrow> 'b loyalty_service \<Rightarrow> bool" where
  "loyalty_ok lax tiers s = (loyalty_rows.rows_ok lax tiers s \<and> quiet_rows s)"

fun negative_earning :: "loyalty_request \<Rightarrow> bool" where
  "negative_earning (ReqLedger i now t acc key (EarnInput p ref)) = (p < 0)"
| "negative_earning (ReqLedger i now t acc key (CashbackInput p ref)) = (p < 0)"
| "negative_earning (ReqLedger i now t acc key (ReferralInput p ref)) = (p < 0)"
| "negative_earning r = False"

lemma keeps_loyalty_call:
  assumes "row_find acc t s = Some a" "\<And>a. act a = loyalty_step c a"
    and "stored_account lax tiers a \<Longrightarrow> lax \<or> 0 \<le> la_points (snd (act a))"
  shows "keeps (loyalty_ok lax tiers) (rows_call env now t act out a) s"
  unfolding keeps_def loyalty_ok_def
proof
  assume ok: "loyalty_rows.rows_ok lax tiers s \<and> quiet_rows s"
  then have a: "stored_account lax tiers a" "agg_events a = []"
    using loyalty_rows.row_found [OF _ assms(1)] quiet_found [OF _ assms(1)] by blast+
  note facts = loyalty_step_facts [where tiers = tiers and a = a and c = c, folded assms(2)]
  have "keeps (loyalty_rows.rows_ok lax tiers) (rows_call env now t act out a) s"
    by (rule loyalty_rows.keeps_rows_call [OF assms(1)])
      (use a(1) facts assms(3) in \<open>auto simp: stored_account_def\<close>)
  moreover have "keeps quiet_rows (rows_call env now t act out a) s"
    using a facts(4) by (intro keeps_quiet_call) (auto simp: stored_account_def)
  ultimately show "loyalty_rows.rows_ok lax tiers (snd (rows_call env now t act out a s)) \<and>
      quiet_rows (snd (rows_call env now t act out a s))"
    using ok by (simp add: keeps_def)
qed

lemma keeps_open: "keeps (loyalty_ok lax tiers) (OpenAccount env tiers g now t c) s"
  unfolding OpenAccount_def
proof (intro keeps_intros)
  fix u :: string
  have new: "keeps (loyalty_ok lax tiers) (then_do (row_save env now t a) (return_ok (account_out a))) s"
    if "findByCustomerRef c t s = None" "LoyaltyAccount_create i c tiers = Inr a" for i a
  proof -
    have a: "stored_account lax tiers a" "la_customerRef a = c"
      using account_ok_create [OF that(2)] by (auto simp: stored_account_def)
    have "loyalty_rows.key_free t a s" if "loyalty_rows.rows_ok lax tiers s"
      using loyalty_rows.find_by_key(2) [OF that, of c t a] a(2) \<open>findByCustomerRef c t s = None\<close>
      by (simp add: findByCustomerRef_def)
    then have "keeps (loyalty_rows.rows_ok lax tiers) (then_do (row_save env now t a) (return_ok (account_out a))) s"
      using a(1) by (intro loyalty_rows.keeps_row_new)
    then show ?thesis
      using keeps_quiet_new [of env now t a "account_out a" s] by (auto simp: keeps_def loyalty_ok_def)
  qed
  show "keeps (loyalty_ok lax tiers) (\<lambda>s. case findByCustomerRef c t s of
      Some _ \<Rightarrow> return_err (ConflictError (''Customer \"'' @ c @ ''\" already has a loyalty account'')) s
    | None \<Rightarrow> or_reject (UniqueEntityId_from g) (\<lambda>aid. case LoyaltyAccount_create aid c tiers of
        Inl e \<Rightarrow> throw e | Inr a \<Rightarrow> then_do (row_save env now t a) (return_ok (account_out a))) s) s"
  proof (cases "findByCustomerRef c t s")
    case None
    show ?thesis
    proof (cases "UniqueEntityId_from g")
      case (Inr i)
      then show ?thesis using None new [of i]
        by (cases "LoyaltyAccount_create i c tiers") (auto simp: keeps_def or_reject_def)
    qed (simp add: keeps_def or_reject_def None)
  qed (simp add: keeps_def)
qed

lemma keeps_loyalty_handle:
  assumes "lax \<or> \<not> negative_earning r"
  shows "keeps (loyalty_ok lax tiers) (loyalty_handle env tiers r) s"
proof (cases r)
  case (ReqOpenAccount g now t c)
  then show ?thesis by (simp add: keeps_open keeps_drop)
next
  case (ReqAdvanceAccount i now t acc st)
  have "la_points (snd (account_transition st i now a)) = la_points a" for a
    by (simp add: account_transition_def Let_def)
  then show ?thesis unfolding ReqAdvanceAccount
    by (auto simp: AdvanceAccount_def stored_account_def intro!: keeps_intros keeps_loyalty_call [where c = "MoveAccount st i now"])
next
  case (ReqLedger i now t acc key inp)
  have "keeps (loyalty_ok lax tiers) (runLedgerAction env now t acc (ledger_method e key i now)) s"
    if "entry_of inp = Inr e" for e
  proof -
    have "lax \<or> sound_entry e"
      using assms that by (cases inp) (auto simp: ReqLedger sound_entry_def takes_def map_ok_def split: sum.splits)
    then show ?thesis unfolding runLedgerAction_def
      by (intro keeps_intros keeps_loyalty_call [where c = "Ledger e key i now"])
        (auto simp: stored_account_def ledger_balance)
  qed
  then show ?thesis by (auto simp: ReqLedger ledger_use_case_entry intro!: keeps_intros)
qed

interpretation loyalty_service: invariant_object "loyalty_ok lax tiers" "\<lambda>r. lax \<or> \<not> negative_earning r"
    "loyalty_handle env tiers" for lax tiers and env :: "'b loyalty_env"
  by unfold_locales (rule keepsD [OF keeps_loyalty_handle])

abbreviation loyalty_after :: "'b loyalty_env \<Rightarrow> reward_tier list \<Rightarrow> loyalty_request list \<Rightarrow> 'b loyalty_service" where
  "loyalty_after env tiers requests \<equiv> runs (loyalty_handle env tiers) requests empty_rows"

lemma loyalty_after_ok: "lax \<or> \<not> list_ex negative_earning rs \<Longrightarrow> loyalty_ok lax tiers (loyalty_after env tiers rs)"
  by (rule loyalty_service.runs_inv)
    (auto simp: loyalty_ok_def loyalty_rows.empty_rows_ok empty_rows_quiet list_all_iff list_ex_iff)

text \<open>C31: One account per customer, and the ledger accounts for it: whatever requests the loyalty service handles,
  no two accounts of a tenant belong to one customer; the balance of every account is the sum of its ledger, in
  which no idempotency key and no entry id occurs twice; its tier is one of the ladder; and no balance is negative
  unless some request earned a negative number of points.\<close>

theorem ledgers_account_for_balances:
  "let accounts = tenant_rows tenant (loyalty_after env tiers requests) in
     distinct (map la_customerRef accounts) \<and>
     list_all (\<lambda>a. la_points a = sum_list (map lt_pointsDelta (la_transactions a)) \<and>
       distinct (map lt_idempotencyKey (la_transactions a)) \<and> distinct (map lt_id (la_transactions a)) \<and>
       la_tierName a \<in> rt_name ` set tiers) accounts \<and>
     (list_ex negative_earning requests \<or> list_all (\<lambda>a. 0 \<le> la_points a) accounts)"
proof -
  define lax where "lax = list_ex negative_earning requests"
  have ok: "loyalty_rows.rows_ok lax tiers (loyalty_after env tiers requests)"
    using loyalty_after_ok [of lax requests tiers env] by (simp add: lax_def loyalty_ok_def)
  have row: "account_ok tiers a \<and> (lax \<or> 0 \<le> la_points a)"
    if "a \<in> set (tenant_rows tenant (loyalty_after env tiers requests))" for a
    using loyalty_rows.row_promise [OF ok that] by (simp add: stored_account_def)
  have "la_points a = sum_list (map lt_pointsDelta (la_transactions a)) \<and>
      distinct (map lt_idempotencyKey (la_transactions a)) \<and> distinct (map lt_id (la_transactions a)) \<and>
      la_tierName a \<in> rt_name ` set tiers"
    if "a \<in> set (tenant_rows tenant (loyalty_after env tiers requests))" for a
    using row [OF that] account_ok_ids [of tiers a] by (simp add: account_ok_def)
  moreover have "lax \<or> list_all (\<lambda>a. 0 \<le> la_points a) (tenant_rows tenant (loyalty_after env tiers requests))"
    using row by (auto simp: list_all_iff)
  ultimately show ?thesis
    using loyalty_rows.distinct_keys [OF ok] by (simp add: Let_def list_all_iff lax_def)
qed

subsection \<open>A request that is sent again\<close>

definition recorded :: "reward_tier list \<Rightarrow> string \<Rightarrow> string \<Rightarrow> string \<Rightarrow> 'b loyalty_service \<Rightarrow> bool" where
  "recorded tiers t acc key s =
     (loyalty_ok True tiers s \<and> (\<exists>a. row_find acc t s = Some a \<and> hasTransaction key a))"

fun opens_other :: "string \<Rightarrow> loyalty_request \<Rightarrow> bool" where
  "opens_other acc (ReqOpenAccount g now t c) = (g \<noteq> acc)"
| "opens_other acc r = True"

lemma hasTransaction_events [simp]: "hasTransaction k (a\<lparr>agg_events := es\<rparr>) = hasTransaction k a"
  by (simp add: hasTransaction_def)

lemma recorded_call:
  assumes rec: "recorded tiers t acc key s" and found: "row_find i u s = Some a" and act: "\<And>a. act a = loyalty_step c a"
    and ok: "loyalty_ok True tiers (snd (rows_call env now u act out a s))"
  shows "recorded tiers t acc key (snd (rows_call env now u act out a s))"
proof -
  have rows: "loyalty_rows.rows_ok True tiers s" using rec by (simp add: recorded_def loyalty_ok_def)
  have a: "account_ok tiers a" "agg_id a = i" "map_of (rw_store s) i = Some (u, a)"
    using loyalty_rows.row_found [OF rows found] by (auto simp: stored_account_def)
  note facts = loyalty_step_facts [where tiers = tiers and a = a and c = c, OF a(1), folded act]
  obtain b where b: "row_find acc t s = Some b" "hasTransaction key b" using rec by (auto simp: recorded_def)
  have "\<exists>b. row_find acc t (snd (rows_call env now u act out a s)) = Some b \<and> hasTransaction key b"
  proof (cases "acc = i")
    case True
    then have "b = a" "u = t" using b(1) a(3) by (auto simp: row_find_def split: if_splits)
    then show ?thesis
      using row_find_call_own [of act a acc t env now out s] facts(2) facts(5) [of key] b(2) a(2) True by auto
  next
    case False
    then show ?thesis using b row_find_call_other [of act a acc t env now u out s] facts(2) a(2) by simp
  qed
  with ok show ?thesis by (simp add: recorded_def)
qed

lemma recorded_open:
  assumes "recorded tiers t acc key s" "g \<noteq> acc"
    and ok: "loyalty_ok True tiers (snd (OpenAccount env tiers g now u c s))"
  shows "recorded tiers t acc key (snd (OpenAccount env tiers g now u c s))"
proof -
  have "row_find acc t (snd (OpenAccount env tiers g now u c s)) = row_find acc t s"
    using assms(2) account_ok_create
    by (fastforce simp: OpenAccount_def or_return_def or_reject_def UniqueEntityId_from_def row_find_save
        split: option.splits sum.splits)
  with assms(1) ok show ?thesis by (simp add: recorded_def)
qed

lemma recorded_handle:
  assumes "recorded tiers t acc key s" "opens_other acc r"
  shows "recorded tiers t acc key (snd (loyalty_handle env tiers r s))"
proof -
  have ok: "loyalty_ok True tiers (snd (loyalty_handle env tiers r s))"
    using assms(1) keepsD [OF keeps_loyalty_handle [of True r tiers env s]] by (simp add: recorded_def)
  show ?thesis
  proof (cases r)
    case (ReqOpenAccount g now u c)
    with assms ok show ?thesis by (simp add: recorded_open)
  next
    case (ReqAdvanceAccount i now u j st)
    with assms(1) ok show ?thesis
      by (auto simp: AdvanceAccount_def lookup_def intro: recorded_call [where c = "MoveAccount st i now"] split: option.splits)
  next
    case (ReqLedger i now u j k inp)
    with assms(1) ok show ?thesis
      by (auto simp: ledger_use_case_entry or_return_def runLedgerAction_def lookup_def
          intro: recorded_call [where c = "Ledger e k i now" for e] split: option.splits sum.splits)
  qed
qed

interpretation recorded_entries: invariant_object "recorded tiers t acc key" "opens_other acc" "loyalty_handle env tiers"
    for tiers t acc key and env :: "'b loyalty_env"
  by unfold_locales (rule recorded_handle)

lemma ledger_answer_recorded:
  assumes ok: "loyalty_ok True tiers s" and "ledger_use_case env i now t acc key inp s = (Inr (Inr out), s')"
  shows "recorded tiers t acc key s'"
proof -
  obtain e a where e: "entry_of inp = Inr e" and a: "row_find acc t s = Some a"
      and call: "rows_call env now t (ledger_method e key i now) account_out a s = (Inr (Inr out), s')"
    using assms(2) by (auto simp: ledger_use_case_entry runLedgerAction_def returns_iff)
  have "loyalty_rows.rows_ok True tiers s" using ok by (simp add: loyalty_ok_def)
  with a have row: "account_ok tiers a" "agg_id a = acc"
    using loyalty_rows.row_found [of True tiers s acc t a] by (auto simp: stored_account_def)
  have "la_tiers a \<noteq> []" using row(1) by (simp add: account_ok_def)
  note ledger = ledger_apply [OF this, of e key i now]
  obtain r a' where a': "ledger_method e key i now a = (r, a')" by (cases "ledger_method e key i now a")
  have "isOk r" using call by (cases r) (auto simp: rows_call_def a' caught_cases)
  then have "hasTransaction key a'"
    using a' by (auto simp: ledger requireActive_def hasTransaction_def transaction_of_def split: if_splits)
  moreover have "agg_id a' = acc" using loyalty_step_facts(2) [OF row(1), of "Ledger e key i now"] row(2) a' by simp
  ultimately have "\<exists>b. row_find acc t s' = Some b \<and> hasTransaction key b"
    using row_find_call_own [of "ledger_method e key i now" a acc t env now account_out s] a' call by auto
  moreover have "loyalty_ok True tiers s'"
    using keepsD [OF keeps_loyalty_handle [of True "ReqLedger i now t acc key inp" tiers env s] ok] assms(2) by simp
  ultimately show ?thesis by (simp add: recorded_def)
qed

lemma replay_idle:
  assumes rec: "recorded tiers t acc key s" and e: "entry_of inp = Inr e"
  shows "\<exists>a. row_find acc t s = Some a \<and> ledger_use_case env i now t acc key inp s = (Inr (Inr (account_out a)), s)"
proof -
  obtain a where a: "row_find acc t s = Some a" "hasTransaction key a"
      and ok: "loyalty_rows.rows_ok True tiers s" "quiet_rows s"
    using rec by (auto simp: recorded_def loyalty_ok_def)
  have row: "account_ok tiers a" "agg_id a = acc"
    using loyalty_rows.row_found [OF ok(1) a(1)] by (auto simp: stored_account_def)
  have idle: "ledger_method e key i now a = (Inr (), a)"
    using row(1) a(2) by (simp add: ledger_apply account_ok_def)
  have "rows_call env now t (ledger_method e key i now) account_out a s = (Inr (Inr (account_out a)), s)"
    by (rule rows_call_idle) (use idle a(1) row(2) quiet_found [OF ok(2) a(1)] in simp_all)
  then have "ledger_use_case env i now t acc key inp s = (Inr (Inr (account_out a)), s)"
    by (simp add: ledger_use_case_entry or_return_def e runLedgerAction_def lookup_def a(1))
  with a(1) show ?thesis by blast
qed

text \<open>C32: A ledger request can be sent again: once one has been answered for an account and an idempotency key, every
  later ledger request for that account under the key, of any kind, with any number of points and whatever the
  service handled in between, is answered with the current state of the account and changes neither a row nor the
  outbox, provided no account is opened under the identifier anew.\<close>

theorem ledger_request_idempotent:
  assumes "fst (ledger_use_case env i now tenant acc key inp (loyalty_after env tiers before)) = Inr (Inr out)"
    and "list_all (opens_other acc) later" and "entry_of inp' = Inr e"
  shows "let s = runs (loyalty_handle env tiers) later
                   (snd (ledger_use_case env i now tenant acc key inp (loyalty_after env tiers before))) in
    \<exists>a. row_find acc tenant s = Some a \<and>
      ledger_use_case env i' now' tenant acc key inp' s = (Inr (Inr (account_out a)), s)"
proof -
  have answer: "ledger_use_case env i now tenant acc key inp (loyalty_after env tiers before) =
      (Inr (Inr out), snd (ledger_use_case env i now tenant acc key inp (loyalty_after env tiers before)))"
    using assms(1) by (simp add: prod_eq_iff)
  show ?thesis
    unfolding Let_def
    by (rule replay_idle [OF recorded_entries.runs_inv [OF ledger_answer_recorded [OF _ answer] assms(2)] assms(3)])
      (simp add: loyalty_after_ok)
qed

text \<open>Ana earns 600 points, spends some, and the earning arrives a second time.\<close>

definition sample_ladder :: "reward_tier list" where
  "sample_ladder = [\<lparr>rt_name = ''bronze'', rt_minimumPoints = 0\<rparr>, \<lparr>rt_name = ''gold'', rt_minimumPoints = 2000\<rparr>,
     \<lparr>rt_name = ''silver'', rt_minimumPoints = 500\<rparr>]"

definition sample_loyalty_env :: "unit loyalty_env" where
  "sample_loyalty_env = \<lparr>ae_translate = LoyaltyEventTranslator, ae_serialize = (\<lambda>_. (''application/json'', ())),
     ae_producer = Some ''loyalty'',
     ae_context = \<lparr>cx_correlationId = ''c'', cx_causationId = ''c'', cx_tenantId = None\<rparr>\<rparr>"

lemma ledger_request_idempotent_witness:
  "let s = runs (loyalty_handle sample_loyalty_env sample_ladder) [ReqLedger ''e2'' 2 ''t'' ''a1'' ''k2'' (SpendInput 100 ''o2'')]
         (snd (ledger_use_case sample_loyalty_env ''e1'' 1 ''t'' ''a1'' ''k1'' (EarnInput 600 ''o1'')
           (loyalty_after sample_loyalty_env sample_ladder [ReqOpenAccount ''a1'' 0 ''t'' ''ana'']))) in
    \<exists>a. row_find ''a1'' ''t'' s = Some a \<and>
      ledger_use_case sample_loyalty_env ''e3'' 3 ''t'' ''a1'' ''k1'' (CashbackInput 600 ''o1'') s =
        (Inr (Inr (account_out a)), s)"
  by (rule ledger_request_idempotent
        [where out = "\<lparr>ao_accountId = ''a1'', ao_status = LsActive, ao_balance = 600, ao_tierName = ''silver''\<rparr>"])
    code_simp+

subsection \<open>What an earning publishes\<close>

lemma row_save_enqueues:
  assumes "row_save env now t a s = (Inr (), s')" "\<And>ev. ev \<in> set (agg_events a) \<Longrightarrow> ae_translate env ev \<noteq> None"
  shows "map oe_id (rw_outbox s') = map oe_id (rw_outbox s) @ map ev_eventId (agg_events a)"
proof -
  obtain entries where en: "toEntries (env_at env now) (agg_events a) ((ae_context env)\<lparr>cx_tenantId := Some t\<rparr>) = Inr entries"
      and out: "rw_outbox s' = rw_outbox s @ entries"
    using assms(1)
    by (auto simp: row_save_def pullDomainEvents_def mapError_def outbox_write_def append_entries_def
        split: prod.splits sum.splits if_splits)
  have "filter (\<lambda>ev. od_translate (env_at env now) ev \<noteq> None) (agg_events a) = agg_events a"
    using assms(2) by (intro filter_True) (auto simp: env_at_def)
  with toEntries_ids [OF en] out show ?thesis by simp
qed

lemma posting_event_ids:
  assumes "account_ok tiers a" "\<not> hasTransaction key a" "ledger_method e key i now a = (Inr (), a')"
  shows "map ev_eventId (agg_events a') = map ev_eventId (agg_events a) @
    (if la_tierName a' \<noteq> la_tierName a then [i, i] else [i])"
proof -
  have "la_tiers a \<noteq> []" using assms(1) by (simp add: account_ok_def)
  with assms(2,3) show ?thesis
    by (auto simp: ledger_apply requireActive_def posted_def regraded_def Let_def split: if_splits)
qed

text \<open>C33: A posted ledger request enqueues its event under the event id of the request, and when it changes the tier it
  enqueues the tier event under the very same id. The outbox table has that id as its primary key, so the database
  adapter refuses such a batch.\<close>

theorem tier_change_reuses_event_id:
  assumes "row_find acc tenant (loyalty_after env tiers requests) = Some a" and "\<not> hasTransaction key a"
    and "ledger_use_case env i now tenant acc key inp (loyalty_after env tiers requests) = (Inr (Inr out), s')"
    and "ae_translate env = LoyaltyEventTranslator"
  shows "map oe_id (rw_outbox s') = map oe_id (rw_outbox (loyalty_after env tiers requests)) @
    (if ao_tierName out \<noteq> la_tierName a then [i, i] else [i])"
proof -
  let ?s = "loyalty_after env tiers requests"
  have ok: "loyalty_rows.rows_ok True tiers ?s" "quiet_rows ?s"
    using loyalty_after_ok [of True requests tiers env] by (simp_all add: loyalty_ok_def)
  have row: "account_ok tiers a" using loyalty_rows.row_found [OF ok(1) assms(1)] by (simp add: stored_account_def)
  obtain e where call: "rows_call env now tenant (ledger_method e key i now) account_out a ?s = (Inr (Inr out), s')"
    using assms(3) by (auto simp: ledger_use_case_entry runLedgerAction_def returns_iff assms(1))
  obtain r a' where a': "ledger_method e key i now a = (r, a')" by (cases "ledger_method e key i now a")
  with call have m: "ledger_method e key i now a = (Inr (), a')"
    by (cases r) (auto simp: rows_call_def caught_cases)
  with call have save: "row_save env now tenant a' (row_put tenant a' ?s) = (Inr (), s')" and out: "out = account_out a'"
    by (auto simp: rows_call_def then_do_ok_iff)
  have "map oe_id (rw_outbox s') = map oe_id (rw_outbox ?s) @ map ev_eventId (agg_events a')"
    using row_save_enqueues [OF save] by (simp add: assms(4) LoyaltyEventTranslator_def)
  with posting_event_ids [OF row assms(2) m] quiet_found [OF ok(2) assms(1)] out show ?thesis
    by (simp add: account_out_def)
qed

lemma tier_change_reuses_event_id_witness:
  "let before = [ReqOpenAccount ''a1'' 0 ''t'' ''ana''];
       s' = snd (ledger_use_case sample_loyalty_env ''e1'' 1 ''t'' ''a1'' ''k1'' (EarnInput 600 ''o1'')
              (loyalty_after sample_loyalty_env sample_ladder before)) in
    map oe_id (rw_outbox s') = map oe_id (rw_outbox (loyalty_after sample_loyalty_env sample_ladder before)) @
      (if ''silver'' \<noteq> ''bronze'' then [''e1'', ''e1''] else [''e1''])"
proof -
  let ?s = "loyalty_after sample_loyalty_env sample_ladder [ReqOpenAccount ''a1'' 0 ''t'' ''ana'']"
  let ?a = "\<lparr>agg_id = ''a1'', agg_version = 0, agg_events = [], la_customerRef = ''ana'', la_status = LsActive,
    la_points = 0, la_tiers = sample_ladder, la_tierName = ''bronze'', la_transactions = []\<rparr>"
  let ?out = "\<lparr>ao_accountId = ''a1'', ao_status = LsActive, ao_balance = 600, ao_tierName = ''silver''\<rparr>"
  have row: "row_find ''a1'' ''t'' ?s = Some ?a" by code_simp
  have ans: "fst (ledger_use_case sample_loyalty_env ''e1'' 1 ''t'' ''a1'' ''k1'' (EarnInput 600 ''o1'') ?s) = Inr (Inr ?out)"
    by code_simp
  have "ae_translate sample_loyalty_env = LoyaltyEventTranslator" by (simp add: sample_loyalty_env_def)
  from tier_change_reuses_event_id [OF row _ _ this, where key = "''k1''" and i = "''e1''" and now = 1
      and inp = "EarnInput 600 ''o1''" and out = ?out] ans
  show ?thesis by (simp add: hasTransaction_def prod_eq_iff Let_def)
qed

end
