(* ===== verification/Ledger.thy ===== *)
theory Ledger
  imports Kernel Lifecycle
begin

section \<open>The double-entry ledger\<close>

text \<open>
  services/finance/src/domain: journals and the entries they post, the chart of accounts, and the pure services
  over the entries: posting templates, account and trial balances, statements, opening balances. A \<^verbatim>\<open>Balance\<close> is
  signed, a \<^verbatim>\<open>Money\<close> is not; both carry their currency, and adding two currencies throws. Amounts are integers,
  so \<^verbatim>\<open>Balance.of\<close> never refuses one.
\<close>

subsection \<open>Values\<close>

datatype ledger_direction = Debit | Credit

fun opposite :: "ledger_direction \<Rightarrow> ledger_direction" where
  "opposite Debit = Credit"
| "opposite Credit = Debit"

datatype account_type = AsAsset | AsLiability | AsEquity | AsRevenue | AsExpense

fun normalSide :: "account_type \<Rightarrow> ledger_direction" where
  "normalSide AsAsset = Debit"
| "normalSide AsExpense = Debit"
| "normalSide _ = Credit"

record balance =
  bl_amountMinor :: int
  bl_currency :: string

definition Balance_zero :: "string \<Rightarrow> balance" where
  "Balance_zero cur = \<lparr>bl_amountMinor = 0, bl_currency = cur\<rparr>"

definition Balance_of :: "int \<Rightarrow> string \<Rightarrow> balance" where
  "Balance_of n cur = \<lparr>bl_amountMinor = n, bl_currency = cur\<rparr>"

definition balance_currency :: "balance \<Rightarrow> balance \<Rightarrow> (domain_error, unit) result" where
  "balance_currency b other =
     (if bl_currency other \<noteq> bl_currency b
      then Inl (BusinessRuleError ''Cannot operate on balances of different currencies'') else Inr ())"

definition Balance_plus :: "balance \<Rightarrow> balance \<Rightarrow> (domain_error, balance) result" where
  "Balance_plus b other = bind_result (balance_currency b other) (\<lambda>_.
     Inr \<lparr>bl_amountMinor = bl_amountMinor b + bl_amountMinor other, bl_currency = bl_currency b\<rparr>)"

definition Balance_minus :: "balance \<Rightarrow> balance \<Rightarrow> (domain_error, balance) result" where
  "Balance_minus b other = bind_result (balance_currency b other) (\<lambda>_.
     Inr \<lparr>bl_amountMinor = bl_amountMinor b - bl_amountMinor other, bl_currency = bl_currency b\<rparr>)"

record journal_line =
  jl_accountRef :: string
  jl_direction :: ledger_direction
  jl_amount :: money
  jl_memo :: "string option"

record ledger_entry =
  le_journalId :: string
  le_sourceRef :: string
  le_accountRef :: string
  le_direction :: ledger_direction
  le_amount :: money
  le_memo :: "string option"
  le_postedAt :: timestamp

datatype finance_event =
    LedgerPosted string string string "string option"
  | ExpenseCreated string string int string
  | BudgetUpdated string string int string
  | PeriodClosed timestamp timestamp

subsection \<open>Journals (journal.ts)\<close>

record journal = "finance_event aggregate" +
  jn_sourceRef :: string
  jn_currency :: string
  jn_lines :: "journal_line list"
  jn_reversalOf :: "string option"
  jn_postedAt :: "timestamp option"

definition sumByDirection :: "journal_line list \<Rightarrow> ledger_direction \<Rightarrow> int" where
  "sumByDirection lines d = sum_list (map (\<lambda>l. amountMinor (jl_amount l)) (filter (\<lambda>l. jl_direction l = d) lines))"

definition Journal_create ::
  "string \<Rightarrow> string \<Rightarrow> string \<Rightarrow> journal_line list \<Rightarrow> (domain_error, journal) result" where
  "Journal_create jid sourceRef cur lines =
     (if length lines < 2
      then Inl (ValidationError ''Invalid journal'' [issue ''lines'' ''a journal must have at least 2 lines''])
      else if list_ex (\<lambda>l. currency (jl_amount l) \<noteq> cur) lines
      then Inl (BusinessRuleError ''All journal lines must share the journal's currency'')
      else
        let debits = sumByDirection lines Debit; credits = sumByDirection lines Credit in
        if debits \<noteq> credits
        then Inl (BusinessRuleError (''Journal is not balanced: debits ('' @ show_int debits @ '') != credits ('' @
               show_int credits @ '')''))
        else Inr \<lparr>agg_id = jid, agg_version = 0, agg_events = [], jn_sourceRef = sourceRef, jn_currency = cur,
               jn_lines = lines, jn_reversalOf = None, jn_postedAt = None\<rparr>)"

definition Journal_post :: "string \<Rightarrow> timestamp \<Rightarrow> (domain_error, journal, unit) action" where
  "Journal_post eventId occurredAt =
     then_do (require (\<lambda>j. jn_postedAt j = None) (\<lambda>_. BusinessRuleError ''Journal is already posted''))
       (modify (\<lambda>j. addDomainEvent eventId occurredAt
          (LedgerPosted (agg_id j) (jn_sourceRef j) (jn_currency j) (jn_reversalOf j))
          (j\<lparr>jn_postedAt := Some occurredAt\<rparr>)))"

definition Journal_reverse :: "string \<Rightarrow> journal \<Rightarrow> string \<Rightarrow> timestamp \<Rightarrow> (domain_error, journal) result" where
  "Journal_reverse newId original eventId occurredAt =
     (if jn_postedAt original = None
      then Inl (BusinessRuleError ''Cannot reverse a journal that was never posted'')
      else
        let flipped = map (\<lambda>l. l\<lparr>jl_direction := opposite (jl_direction l)\<rparr>) (jn_lines original);
            reversal = \<lparr>agg_id = newId, agg_version = 0, agg_events = [], jn_sourceRef = jn_sourceRef original,
              jn_currency = jn_currency original, jn_lines = flipped, jn_reversalOf = Some (agg_id original),
              jn_postedAt = None\<rparr>
        in case Journal_post eventId occurredAt reversal of (Inl e, _) \<Rightarrow> Inl e | (Inr _, j) \<Rightarrow> Inr j)"

definition toLedgerEntries :: "journal \<Rightarrow> (domain_error, ledger_entry list) result" where
  "toLedgerEntries j =
     (case jn_postedAt j of
        None \<Rightarrow> Inl (BusinessRuleError ''Cannot derive ledger entries from an unposted journal'')
      | Some postedAt \<Rightarrow> Inr (map (\<lambda>l. \<lparr>le_journalId = agg_id j, le_sourceRef = jn_sourceRef j,
          le_accountRef = jl_accountRef l, le_direction = jl_direction l, le_amount = jl_amount l,
          le_memo = jl_memo l, le_postedAt = postedAt\<rparr>) (jn_lines j)))"

subsection \<open>The chart of accounts (account.ts)\<close>

record account = "finance_event aggregate" +
  ac_code :: string
  ac_name :: string
  ac_type :: account_type
  ac_active :: bool

definition Account_create :: "string \<Rightarrow> string \<Rightarrow> string \<Rightarrow> account_type \<Rightarrow> (domain_error, account) result" where
  "Account_create aid code name type =
     (if length (trim code) = 0 then Inl (ValidationError ''Invalid account'' [issue ''code'' ''must not be empty''])
      else if length (trim name) = 0 then Inl (ValidationError ''Invalid account'' [issue ''name'' ''must not be empty''])
      else Inr \<lparr>agg_id = aid, agg_version = 0, agg_events = [], ac_code = code, ac_name = name, ac_type = type,
             ac_active = True\<rparr>)"

subsection \<open>Posting templates (ledger-poster.ts)\<close>

record posting_accounts =
  pa_revenue :: string
  pa_receivable :: string
  pa_cogs :: string
  pa_inventory :: string
  pa_refundContra :: string
  pa_expense :: string
  pa_cash :: string
  pa_fees :: string

definition two_legs :: "string \<Rightarrow> string \<Rightarrow> money \<Rightarrow> string option \<Rightarrow> journal_line list" where
  "two_legs debited credited amount memo =
     [\<lparr>jl_accountRef = debited, jl_direction = Debit, jl_amount = amount, jl_memo = memo\<rparr>,
      \<lparr>jl_accountRef = credited, jl_direction = Credit, jl_amount = amount, jl_memo = memo\<rparr>]"

type_synonym journal_template = "posting_accounts \<Rightarrow> string \<Rightarrow> string \<Rightarrow> money \<Rightarrow> (domain_error, journal) result"

definition forSale :: journal_template where
  "forSale acc jid sourceRef amount = Journal_create jid sourceRef (currency amount)
     (two_legs (pa_receivable acc) (pa_revenue acc) amount (Some ''sale''))"

definition forCogs :: journal_template where
  "forCogs acc jid sourceRef amount = Journal_create jid sourceRef (currency amount)
     (two_legs (pa_cogs acc) (pa_inventory acc) amount (Some ''cogs''))"

definition forRefund :: journal_template where
  "forRefund acc jid sourceRef amount = Journal_create jid sourceRef (currency amount)
     (two_legs (pa_refundContra acc) (pa_receivable acc) amount (Some ''refund''))"

definition forExpense :: journal_template where
  "forExpense acc jid sourceRef amount = Journal_create jid sourceRef (currency amount)
     (two_legs (pa_expense acc) (pa_cash acc) amount (Some ''expense''))"

definition forFee :: journal_template where
  "forFee acc jid sourceRef amount = Journal_create jid sourceRef (currency amount)
     (two_legs (pa_fees acc) (pa_cash acc) amount (Some ''fee''))"

subsection \<open>Reading the ledger (ledger-service.ts, cash-flow-projector.ts)\<close>

fun balance_over :: "(ledger_entry \<Rightarrow> balance) \<Rightarrow> balance \<Rightarrow> ledger_entry list \<Rightarrow> (domain_error, balance) result" where
  "balance_over signed bal [] = Inr bal"
| "balance_over signed bal (e # es) = bind_result (Balance_plus bal (signed e)) (\<lambda>bal'. balance_over signed bal' es)"

definition accountBalance ::
  "ledger_entry list \<Rightarrow> string \<Rightarrow> account_type \<Rightarrow> string \<Rightarrow> (domain_error, balance) result" where
  "accountBalance entries accountRef type cur =
     balance_over (\<lambda>e. if le_direction e = normalSide type
                      then Balance_of (amountMinor (le_amount e)) (currency (le_amount e))
                      else Balance_of (- amountMinor (le_amount e)) (currency (le_amount e)))
       (Balance_zero cur) (filter (\<lambda>e. le_accountRef e = accountRef) entries)"

record trial_row =
  tb_accountRef :: string
  tb_debitMinor :: int
  tb_creditMinor :: int

definition post_row :: "ledger_entry \<Rightarrow> (string \<times> int \<times> int) list \<Rightarrow> (string \<times> int \<times> int) list" where
  "post_row e rows =
     (let (d, c) = (case map_of rows (le_accountRef e) of None \<Rightarrow> (0, 0) | Some r \<Rightarrow> r);
          n = amountMinor (le_amount e)
      in AList.update (le_accountRef e) (if le_direction e = Debit then (d + n, c) else (d, c + n)) rows)"

definition trialBalance :: "ledger_entry list \<Rightarrow> trial_row list" where
  "trialBalance entries = map (\<lambda>(ref, d, c). \<lparr>tb_accountRef = ref, tb_debitMinor = d, tb_creditMinor = c\<rparr>)
     (fold post_row entries [])"

definition cash_flow :: "ledger_entry list \<Rightarrow> string list \<Rightarrow> string \<Rightarrow> (domain_error, balance) result" where
  "cash_flow entries cashAccountRefs cur =
     balance_over (\<lambda>e. if le_direction e = Debit
                      then Balance_of (amountMinor (le_amount e)) (currency (le_amount e))
                      else Balance_of (- amountMinor (le_amount e)) (currency (le_amount e)))
       (Balance_zero cur) (filter (\<lambda>e. le_accountRef e \<in> set cashAccountRefs) entries)"

subsection \<open>Statements (statement-builder.ts)\<close>

record income_statement =
  in_revenue :: balance
  in_cogs :: balance
  in_expenses :: balance
  in_netIncome :: balance

record balance_sheet =
  bs_assets :: balance
  bs_liabilities :: balance
  bs_equity :: balance

fun sum_accounts ::
  "ledger_entry list \<Rightarrow> string \<Rightarrow> balance \<Rightarrow> account list \<Rightarrow> (domain_error, balance) result" where
  "sum_accounts entries cur acc [] = Inr acc"
| "sum_accounts entries cur acc (a # as) =
     bind_result (accountBalance entries (ac_code a) (ac_type a) cur) (\<lambda>b.
     bind_result (Balance_plus acc b) (\<lambda>acc'. sum_accounts entries cur acc' as))"

definition sumByType ::
  "ledger_entry list \<Rightarrow> string \<Rightarrow> account_type \<Rightarrow> account list \<Rightarrow> (domain_error, balance) result" where
  "sumByType entries cur type accounts =
     sum_accounts entries cur (Balance_zero cur) (filter (\<lambda>a. ac_type a = type) accounts)"

definition incomeStatement ::
  "ledger_entry list \<Rightarrow> account list \<Rightarrow> string \<Rightarrow> (domain_error, income_statement) result" where
  "incomeStatement entries accounts cur =
     bind_result (sumByType entries cur AsRevenue accounts) (\<lambda>revenue.
     let cogsAccounts = filter (\<lambda>a. ac_type a = AsExpense \<and> str_includes (toUpperCase (ac_code a)) ''COGS'') accounts;
         cogsRefs = map ac_code cogsAccounts;
         nonCogs = filter (\<lambda>a. ac_type a = AsExpense \<and> ac_code a \<notin> set cogsRefs) accounts
     in
     bind_result (sumByType entries cur AsExpense cogsAccounts) (\<lambda>cogs.
     bind_result (sumByType entries cur AsExpense nonCogs) (\<lambda>expenses.
     bind_result (Balance_minus revenue cogs) (\<lambda>gross.
     bind_result (Balance_minus gross expenses) (\<lambda>netIncome.
       Inr \<lparr>in_revenue = revenue, in_cogs = cogs, in_expenses = expenses, in_netIncome = netIncome\<rparr>)))))"

definition balanceSheet ::
  "ledger_entry list \<Rightarrow> account list \<Rightarrow> balance \<Rightarrow> string \<Rightarrow> (domain_error, balance_sheet) result" where
  "balanceSheet entries accounts netIncome cur =
     bind_result (sumByType entries cur AsAsset accounts) (\<lambda>assets.
     bind_result (sumByType entries cur AsLiability accounts) (\<lambda>liabilities.
     bind_result (sumByType entries cur AsEquity accounts) (\<lambda>equity.
     bind_result (Balance_plus liabilities equity) (\<lambda>claims.
     bind_result (Balance_plus claims netIncome) (\<lambda>total.
       if bl_amountMinor assets \<noteq> bl_amountMinor total
       then Inl (BusinessRuleError ''Balance sheet does not satisfy assets = liabilities + equity + net income'')
       else Inr \<lparr>bs_assets = assets, bs_liabilities = liabilities, bs_equity = equity\<rparr>)))))"

subsection \<open>Opening balances (opening-balance-service.ts)\<close>

definition opening_line :: "string \<Rightarrow> trial_row \<Rightarrow> (domain_error, journal_line) result" where
  "opening_line cur row =
     (let net = tb_debitMinor row - tb_creditMinor row in
      bind_result (case Money_create (jint (abs net)) cur of Inr m \<Rightarrow> Inr m | Inl _ \<Rightarrow> Money_zero cur) (\<lambda>value.
        Inr \<lparr>jl_accountRef = tb_accountRef row, jl_direction = (if net > 0 then Debit else Credit),
          jl_amount = value, jl_memo = Some ''opening balance''\<rparr>))"

fun opening_lines :: "string \<Rightarrow> trial_row list \<Rightarrow> (domain_error, journal_line list) result" where
  "opening_lines cur [] = Inr []"
| "opening_lines cur (row # rows) =
     bind_result (opening_line cur row) (\<lambda>l. bind_result (opening_lines cur rows) (\<lambda>ls. Inr (l # ls)))"

definition plug_of :: "journal_line list \<Rightarrow> int" where
  "plug_of lines = foldl (\<lambda>sum l. sum + (if jl_direction l = Debit then - amountMinor (jl_amount l)
                                        else amountMinor (jl_amount l))) 0 lines"

text \<open>The outer error is a throw, of \<^verbatim>\<open>Money.zero\<close> on an invalid currency.\<close>

definition openingJournal ::
  "string \<Rightarrow> string \<Rightarrow> trial_row list \<Rightarrow> string \<Rightarrow> string \<Rightarrow> (domain_error, (domain_error, journal) result) result" where
  "openingJournal jid sourceRef closing equityRef cur =
     bind_result (opening_lines cur (filter (\<lambda>r. tb_debitMinor r \<noteq> tb_creditMinor r) closing)) (\<lambda>lines.
     let plug = plug_of lines;
         plugged = (case Money_create (jint (abs plug)) cur of
             Inr m \<Rightarrow> if amountMinor m > 0
               then lines @ [\<lparr>jl_accountRef = equityRef, jl_direction = (if plug > 0 then Debit else Credit),
                 jl_amount = m, jl_memo = Some ''opening balance equity plug''\<rparr>]
               else lines
           | Inl _ \<Rightarrow> lines)
     in Inr (Journal_create jid sourceRef cur plugged))"

subsection \<open>Totals\<close>

definition signed :: "ledger_entry \<Rightarrow> int" where
  "signed e = (if le_direction e = Debit then amountMinor (le_amount e) else - amountMinor (le_amount e))"

definition line_signed :: "journal_line \<Rightarrow> int" where
  "line_signed l = (if jl_direction l = Debit then amountMinor (jl_amount l) else - amountMinor (jl_amount l))"

definition account_total :: "ledger_entry list \<Rightarrow> string \<Rightarrow> int" where
  "account_total es ref = sum_list (map signed (filter (\<lambda>e. le_accountRef e = ref) es))"

definition ledger_total :: "ledger_entry list \<Rightarrow> int" where
  "ledger_total es = sum_list (map signed es)"

definition line_total :: "journal_line list \<Rightarrow> string \<Rightarrow> int" where
  "line_total ls ref = sum_list (map line_signed (filter (\<lambda>l. jl_accountRef l = ref) ls))"

lemma account_total_simps [simp]:
  "account_total [] ref = 0"
  "account_total (e # es) ref = (if le_accountRef e = ref then signed e else 0) + account_total es ref"
  "account_total (es @ fs) ref = account_total es ref + account_total fs ref"
  by (simp_all add: account_total_def)

lemma ledger_total_simps [simp]:
  "ledger_total [] = 0"
  "ledger_total (e # es) = signed e + ledger_total es"
  "ledger_total (es @ fs) = ledger_total es + ledger_total fs"
  by (simp_all add: ledger_total_def)

lemma line_total_simps [simp]:
  "line_total [] ref = 0"
  "line_total (l # ls) ref = (if jl_accountRef l = ref then line_signed l else 0) + line_total ls ref"
  "line_total (ls @ ms) ref = line_total ls ref + line_total ms ref"
  by (simp_all add: line_total_def)

lemma line_signed_sum: "sum_list (map line_signed ls) = sumByDirection ls Debit - sumByDirection ls Credit"
proof (induction ls)
  case (Cons l ls)
  then show ?case by (cases "jl_direction l") (simp_all add: sumByDirection_def line_signed_def)
qed (simp add: sumByDirection_def)

text \<open>Splitting by account loses nothing.\<close>

lemma partition_total:
  assumes "finite R" "le_accountRef ` set es \<subseteq> R"
  shows "(\<Sum>r\<in>R. account_total es r) = ledger_total es"
  using assms(2)
proof (induction es)
  case (Cons e es)
  then have "(\<Sum>r\<in>R. account_total (e # es) r) = (\<Sum>r\<in>R. if le_accountRef e = r then signed e else 0) + ledger_total es"
    by (simp add: sum.distrib)
  also have "(\<Sum>r\<in>R. if le_accountRef e = r then signed e else 0) = signed e"
    using Cons.prems assms(1) by (simp add: sum.delta)
  finally show ?case by simp
qed simp

subsection \<open>Journals balance\<close>

definition journal_ok :: "journal \<Rightarrow> bool" where
  "journal_ok j = (2 \<le> length (jn_lines j) \<and> list_all (\<lambda>l. currency (jl_amount l) = jn_currency j) (jn_lines j) \<and>
     sumByDirection (jn_lines j) Debit = sumByDirection (jn_lines j) Credit)"

lemma Journal_create_Inr_iff:
  "Journal_create jid src cur ls = Inr j \<longleftrightarrow>
     2 \<le> length ls \<and> list_all (\<lambda>l. currency (jl_amount l) = cur) ls \<and> sumByDirection ls Debit = sumByDirection ls Credit \<and>
     j = \<lparr>agg_id = jid, agg_version = 0, agg_events = [], jn_sourceRef = src, jn_currency = cur, jn_lines = ls,
       jn_reversalOf = None, jn_postedAt = None\<rparr>"
  by (auto simp: Journal_create_def Let_def list_all_iff list_ex_iff)

lemma Journal_create_ok: "Journal_create jid src cur ls = Inr j \<Longrightarrow> journal_ok j"
  by (auto simp: Journal_create_Inr_iff journal_ok_def)

lemma two_legs_balance [simp]:
  "Journal_create jid src (currency m) (two_legs a b m memo) =
     Inr \<lparr>agg_id = jid, agg_version = 0, agg_events = [], jn_sourceRef = src, jn_currency = currency m,
       jn_lines = two_legs a b m memo, jn_reversalOf = None, jn_postedAt = None\<rparr>"
  by (auto simp: Journal_create_Inr_iff two_legs_def sumByDirection_def)

lemma post_ok: "journal_ok j \<Longrightarrow> journal_ok (snd (Journal_post i t j))"
  by (simp add: Journal_post_def then_do_apply journal_ok_def addDomainEvent_def)

text \<open>What a balanced journal posts: entries of one time and one currency that sum to nothing.\<close>

definition posting :: "ledger_entry list \<Rightarrow> bool" where
  "posting es = (ledger_total es = 0 \<and> (\<exists>t. list_all (\<lambda>e. le_postedAt e = t) es) \<and>
     (\<exists>c. list_all (\<lambda>e. currency (le_amount e) = c) es))"

lemma entries_of_lines:
  assumes "toLedgerEntries j = Inr es"
  shows "account_total es ref = line_total (jn_lines j) ref"
    and "ledger_total es = sumByDirection (jn_lines j) Debit - sumByDirection (jn_lines j) Credit"
proof -
  obtain t where t: "jn_postedAt j = Some t" using assms by (auto simp: toLedgerEntries_def split: option.splits)
  define entry where "entry l = \<lparr>le_journalId = agg_id j, le_sourceRef = jn_sourceRef j,
      le_accountRef = jl_accountRef l, le_direction = jl_direction l, le_amount = jl_amount l,
      le_memo = jl_memo l, le_postedAt = t\<rparr>" for l :: journal_line
  have es: "es = map entry (jn_lines j)" using assms t by (auto simp: toLedgerEntries_def entry_def)
  have "account_total (map entry ls) ref = line_total ls ref \<and>
      ledger_total (map entry ls) = sum_list (map line_signed ls)" for ls
    by (induction ls) (simp_all add: entry_def signed_def line_signed_def)
  then show "account_total es ref = line_total (jn_lines j) ref"
      "ledger_total es = sumByDirection (jn_lines j) Debit - sumByDirection (jn_lines j) Credit"
    by (simp_all add: es line_signed_sum)
qed

lemma posting_journal: "journal_ok j \<Longrightarrow> toLedgerEntries j = Inr es \<Longrightarrow> posting es"
  using entries_of_lines(2) [of j es]
  by (auto simp: posting_def journal_ok_def toLedgerEntries_def list_all_iff split: option.splits)

subsection \<open>Reversal\<close>

lemma opposite_twice [simp]: "opposite (opposite d) = d"
  by (cases d) simp_all

lemma opposite_iff [simp]: "(opposite d = Debit) = (d = Credit)" "(opposite d = Credit) = (d = Debit)"
  by (cases d; simp)+

lemma flip_lines:
  "sumByDirection (map (\<lambda>l. l\<lparr>jl_direction := opposite (jl_direction l)\<rparr>) ls) d = sumByDirection ls (opposite d)"
  "line_total (map (\<lambda>l. l\<lparr>jl_direction := opposite (jl_direction l)\<rparr>) ls) ref = - line_total ls ref"
proof -
  show "sumByDirection (map (\<lambda>l. l\<lparr>jl_direction := opposite (jl_direction l)\<rparr>) ls) d = sumByDirection ls (opposite d)"
    by (induction ls) (cases d; simp add: sumByDirection_def)+
  have "line_signed (l\<lparr>jl_direction := opposite (jl_direction l)\<rparr>) = - line_signed l" for l
    by (cases "jl_direction l") (simp_all add: line_signed_def)
  then show "line_total (map (\<lambda>l. l\<lparr>jl_direction := opposite (jl_direction l)\<rparr>) ls) ref = - line_total ls ref"
    by (induction ls) simp_all
qed

lemma reverse_lines:
  "Journal_reverse i j e t = Inr r \<Longrightarrow>
     jn_lines r = map (\<lambda>l. l\<lparr>jl_direction := opposite (jl_direction l)\<rparr>) (jn_lines j) \<and>
     jn_postedAt r = Some t \<and> jn_reversalOf r = Some (agg_id j) \<and> jn_currency r = jn_currency j"
  by (auto simp: Journal_reverse_def Journal_post_def then_do_apply addDomainEvent_def split: if_splits)

lemma reverse_ok: "journal_ok j \<Longrightarrow> Journal_reverse i j e t = Inr r \<Longrightarrow> journal_ok r"
  using reverse_lines [of i j e t r] by (simp add: journal_ok_def flip_lines list_all_iff)

subsection \<open>The trial balance\<close>

definition side_total :: "ledger_entry list \<Rightarrow> string \<Rightarrow> ledger_direction \<Rightarrow> int" where
  "side_total es ref d =
     sum_list (map (\<lambda>e. amountMinor (le_amount e)) (filter (\<lambda>e. le_accountRef e = ref \<and> le_direction e = d) es))"

lemma side_total_simps [simp]:
  "side_total [] ref d = 0"
  "side_total (es @ [e]) ref d = side_total es ref d +
     (if le_accountRef e = ref \<and> le_direction e = d then amountMinor (le_amount e) else 0)"
  by (simp_all add: side_total_def)

lemma side_total_none: "ref \<notin> le_accountRef ` set es \<Longrightarrow> side_total es ref d = 0"
  by (induction es rule: rev_induct) auto

lemma account_total_sides: "account_total es ref = side_total es ref Debit - side_total es ref Credit"
proof (induction es rule: rev_induct)
  case (snoc e es)
  then show ?case by (cases "le_direction e") (simp_all add: signed_def)
qed simp

lemma posted_rows:
  "map_of (fold post_row es []) ref =
     (if ref \<in> le_accountRef ` set es then Some (side_total es ref Debit, side_total es ref Credit) else None) \<and>
   distinct (map fst (fold post_row es []))"
proof (induction es arbitrary: ref rule: rev_induct)
  case (snoc e es)
  define rows where "rows = fold post_row es []"
  define r where "r = le_accountRef e"
  have IH: "map_of rows q = (if q \<in> le_accountRef ` set es then Some (side_total es q Debit, side_total es q Credit) else None)"
      "distinct (map fst rows)" for q
    using snoc [of q] by (simp_all only: rows_def)
  have "(case map_of rows r of None \<Rightarrow> (0, 0) | Some x \<Rightarrow> x) = (side_total es r Debit, side_total es r Credit)"
    by (simp only: IH(1)) (simp add: side_total_none)
  then have "post_row e rows = AList.update r (side_total (es @ [e]) r Debit, side_total (es @ [e]) r Credit) rows"
    by (cases "le_direction e") (simp_all add: post_row_def r_def)
  then have step: "fold post_row (es @ [e]) [] =
      AList.update r (side_total (es @ [e]) r Debit, side_total (es @ [e]) r Credit) rows"
    by (simp add: rows_def)
  have "map_of (fold post_row (es @ [e]) []) ref =
      (if ref = r then Some (side_total (es @ [e]) r Debit, side_total (es @ [e]) r Credit) else map_of rows ref)"
    by (simp only: step update_conv' fun_upd_apply)
  also have "\<dots> = (if ref \<in> le_accountRef ` set (es @ [e])
      then Some (side_total (es @ [e]) ref Debit, side_total (es @ [e]) ref Credit) else None)"
    by (simp only: IH(1)) (simp add: r_def)
  finally show ?case using IH(2) by (simp only: step) (simp add: distinct_update)
qed simp

lemma trial_balance_rows:
  "map tb_accountRef (trialBalance es) = map fst (fold post_row es [])"
  "row \<in> set (trialBalance es) \<longleftrightarrow> tb_accountRef row \<in> le_accountRef ` set es \<and>
     tb_debitMinor row = side_total es (tb_accountRef row) Debit \<and>
     tb_creditMinor row = side_total es (tb_accountRef row) Credit"
proof -
  show "map tb_accountRef (trialBalance es) = map fst (fold post_row es [])"
    by (simp add: trialBalance_def case_prod_beta)
  have dist: "distinct (map fst (fold post_row es []))" using posted_rows by blast
  have "row \<in> set (trialBalance es) \<longleftrightarrow>
      (tb_accountRef row, tb_debitMinor row, tb_creditMinor row) \<in> set (fold post_row es [])"
    by (force simp: trialBalance_def)
  also have "\<dots> \<longleftrightarrow> map_of (fold post_row es []) (tb_accountRef row) = Some (tb_debitMinor row, tb_creditMinor row)"
    using dist by simp
  finally show "row \<in> set (trialBalance es) \<longleftrightarrow> tb_accountRef row \<in> le_accountRef ` set es \<and>
     tb_debitMinor row = side_total es (tb_accountRef row) Debit \<and>
     tb_creditMinor row = side_total es (tb_accountRef row) Credit"
    using posted_rows [of es "tb_accountRef row"] by auto
qed

lemma trial_refs:
  "distinct (map tb_accountRef (trialBalance es))" "tb_accountRef ` set (trialBalance es) = le_accountRef ` set es"
proof -
  show "distinct (map tb_accountRef (trialBalance es))" using posted_rows by (simp add: trial_balance_rows(1))
  have "fst ` set (fold post_row es []) = dom (map_of (fold post_row es []))" by (simp add: dom_map_of_conv_image_fst)
  also have "\<dots> = le_accountRef ` set es" using posted_rows [of es] by (auto simp: dom_def)
  finally show "tb_accountRef ` set (trialBalance es) = le_accountRef ` set es"
    using trial_balance_rows(1) [of es] by (metis image_set)
qed

lemma trial_net: "row \<in> set (trialBalance es) \<Longrightarrow>
    tb_debitMinor row - tb_creditMinor row = account_total es (tb_accountRef row)"
  by (simp add: trial_balance_rows(2) account_total_sides)

lemma trial_sum:
  "sum_list (map (\<lambda>r. f (account_total es (tb_accountRef r))) (trialBalance es)) =
     (\<Sum>r\<in>le_accountRef ` set es. f (account_total es r))" for f :: "int \<Rightarrow> int"
  using sum_list_distinct_conv_sum_set [OF trial_refs(1), of "\<lambda>r. f (account_total es r)" es]
  by (simp add: trial_refs(2) comp_def)

lemma trial_totals:
  "sum_list (map tb_debitMinor (trialBalance es)) - sum_list (map tb_creditMinor (trialBalance es)) = ledger_total es"
proof -
  have "sum_list (map tb_debitMinor rs) - sum_list (map tb_creditMinor rs) =
      sum_list (map (\<lambda>r. tb_debitMinor r - tb_creditMinor r) rs)" for rs :: "trial_row list"
    by (induction rs) simp_all
  also have "map (\<lambda>r. tb_debitMinor r - tb_creditMinor r) (trialBalance es) =
      map (\<lambda>r. account_total es (tb_accountRef r)) (trialBalance es)"
    by (simp add: trial_net)
  finally show ?thesis using trial_sum [of "\<lambda>x. x" es] partition_total [of "le_accountRef ` set es" es] by simp
qed

subsection \<open>Account balances and statements\<close>

lemma balance_over_sum:
  "list_all (\<lambda>e. bl_currency (f e) = bl_currency b) es \<Longrightarrow>
     balance_over f b es = Inr \<lparr>bl_amountMinor = bl_amountMinor b + sum_list (map (\<lambda>e. bl_amountMinor (f e)) es),
       bl_currency = bl_currency b\<rparr>"
  by (induction es arbitrary: b) (simp_all add: Balance_plus_def balance_currency_def)

definition normal_amount :: "account_type \<Rightarrow> int \<Rightarrow> int" where
  "normal_amount type n = (if normalSide type = Debit then n else - n)"

lemma normal_amount_add: "normal_amount ty (m + n) = normal_amount ty m + normal_amount ty n" "normal_amount ty 0 = 0"
  by (simp_all add: normal_amount_def)

lemma accountBalance_total:
  assumes "list_all (\<lambda>e. le_accountRef e = ref \<longrightarrow> currency (le_amount e) = cur) es"
  shows "accountBalance es ref type cur =
    Inr \<lparr>bl_amountMinor = normal_amount type (account_total es ref), bl_currency = cur\<rparr>"
proof -
  define f where "f = (\<lambda>e :: ledger_entry. if le_direction e = normalSide type
      then Balance_of (amountMinor (le_amount e)) (currency (le_amount e))
      else Balance_of (- amountMinor (le_amount e)) (currency (le_amount e)))"
  have sides: "bl_amountMinor (f e) = normal_amount type (signed e)" "bl_currency (f e) = currency (le_amount e)" for e :: ledger_entry
    by (cases "normalSide type"; cases "le_direction e"; simp add: f_def signed_def normal_amount_def Balance_of_def)+
  have "accountBalance es ref type cur = balance_over f (Balance_zero cur) (filter (\<lambda>e. le_accountRef e = ref) es)"
    by (simp add: accountBalance_def f_def)
  also have "\<dots> = Inr \<lparr>bl_amountMinor = sum_list (map (\<lambda>e. bl_amountMinor (f e)) (filter (\<lambda>e. le_accountRef e = ref) es)),
      bl_currency = cur\<rparr>"
    by (subst balance_over_sum) (use assms in \<open>auto simp: list_all_iff sides Balance_zero_def\<close>)
  also have "sum_list (map (\<lambda>e. bl_amountMinor (f e)) (filter (\<lambda>e. le_accountRef e = ref) es)) =
      normal_amount type (account_total es ref)"
    by (induction es) (simp_all add: sides normal_amount_add)
  finally show ?thesis .
qed

definition entries_in :: "string \<Rightarrow> ledger_entry list \<Rightarrow> bool" where
  "entries_in cur es = list_all (\<lambda>e. currency (le_amount e) = cur) es"

lemma sum_accounts_total:
  assumes "entries_in cur es" "bl_currency b = cur"
  shows "sum_accounts es cur b as =
    Inr \<lparr>bl_amountMinor = bl_amountMinor b + sum_list (map (\<lambda>a. normal_amount (ac_type a) (account_total es (ac_code a))) as),
      bl_currency = cur\<rparr>"
  using assms(2)
proof (induction as arbitrary: b)
  case (Cons a as)
  have "accountBalance es (ac_code a) (ac_type a) cur =
      Inr \<lparr>bl_amountMinor = normal_amount (ac_type a) (account_total es (ac_code a)), bl_currency = cur\<rparr>"
    using assms(1) by (intro accountBalance_total) (simp add: entries_in_def list_all_iff)
  with Cons show ?case by (simp add: Balance_plus_def balance_currency_def)
qed (simp add: balance.equality)

text \<open>What the accounts of a kind hold, on the debit side.\<close>

definition held_by :: "ledger_entry list \<Rightarrow> (account \<Rightarrow> bool) \<Rightarrow> account list \<Rightarrow> int" where
  "held_by es Q accounts = sum_list (map (\<lambda>a. account_total es (ac_code a)) (filter Q accounts))"

lemma sumByType_total:
  assumes "entries_in cur es"
  shows "sumByType es cur type accounts =
    Inr \<lparr>bl_amountMinor = normal_amount type (held_by es (\<lambda>a. ac_type a = type) accounts), bl_currency = cur\<rparr>"
proof -
  have "sum_list (map (\<lambda>a. normal_amount (ac_type a) (account_total es (ac_code a))) (filter (\<lambda>a. ac_type a = type) accounts)) =
      normal_amount type (held_by es (\<lambda>a. ac_type a = type) accounts)"
    by (induction accounts) (simp_all add: held_by_def normal_amount_add)
  then show ?thesis using sum_accounts_total [OF assms, of "Balance_zero cur"] by (simp add: sumByType_def Balance_zero_def)
qed

lemma held_by_split:
  "held_by es Q as = held_by es (\<lambda>a. Q a \<and> R a) as + held_by es (\<lambda>a. Q a \<and> \<not> R a) as"
  by (induction as) (simp_all add: held_by_def)

lemma held_by_types:
  "held_by es (\<lambda>a. True) as = held_by es (\<lambda>a. ac_type a = AsAsset) as + held_by es (\<lambda>a. ac_type a = AsLiability) as +
     held_by es (\<lambda>a. ac_type a = AsEquity) as + held_by es (\<lambda>a. ac_type a = AsRevenue) as +
     held_by es (\<lambda>a. ac_type a = AsExpense) as"
proof (induction as)
  case (Cons a as)
  then show ?case by (cases "ac_type a") (simp_all add: held_by_def)
qed (simp add: held_by_def)

lemma held_by_all:
  assumes "distinct (map ac_code accounts)" "le_accountRef ` set es \<subseteq> ac_code ` set accounts"
  shows "held_by es (\<lambda>a. True) accounts = ledger_total es"
proof -
  have "held_by es (\<lambda>a. True) accounts = (\<Sum>r\<in>ac_code ` set accounts. account_total es r)"
    using sum_list_distinct_conv_sum_set [OF assms(1), of "account_total es"] by (simp add: held_by_def comp_def)
  with partition_total [OF _ assms(2)] show ?thesis by simp
qed

lemma income_total:
  assumes "entries_in cur es"
  shows "\<exists>inc. incomeStatement es accounts cur = Inr inc \<and> bl_currency (in_netIncome inc) = cur \<and>
    bl_amountMinor (in_revenue inc) = - held_by es (\<lambda>a. ac_type a = AsRevenue) accounts \<and>
    bl_amountMinor (in_cogs inc) + bl_amountMinor (in_expenses inc) = held_by es (\<lambda>a. ac_type a = AsExpense) accounts \<and>
    bl_amountMinor (in_netIncome inc) =
      bl_amountMinor (in_revenue inc) - bl_amountMinor (in_cogs inc) - bl_amountMinor (in_expenses inc)"
proof -
  define cogs where "cogs a = (ac_type a = AsExpense \<and> str_includes (toUpperCase (ac_code a)) ''COGS'')" for a :: account
  define refs where "refs = map ac_code (filter cogs accounts)"
  have other: "ac_code a \<in> set refs \<longleftrightarrow> cogs a" if "a \<in> set accounts" "ac_type a = AsExpense" for a
    using that by (auto simp: refs_def cogs_def)
  have "held_by es (\<lambda>a. ac_type a = AsExpense) (filter cogs accounts) =
      held_by es (\<lambda>a. ac_type a = AsExpense \<and> cogs a) accounts"
    unfolding held_by_def filter_filter by (rule arg_cong [where f = "\<lambda>xs. sum_list (map _ xs)"], rule filter_cong) (auto simp: cogs_def)
  moreover have "held_by es (\<lambda>a. ac_type a = AsExpense) (filter (\<lambda>a. ac_type a = AsExpense \<and> ac_code a \<notin> set refs) accounts) =
      held_by es (\<lambda>a. ac_type a = AsExpense \<and> \<not> cogs a) accounts"
    unfolding held_by_def filter_filter by (rule arg_cong [where f = "\<lambda>xs. sum_list (map _ xs)"], rule filter_cong) (auto simp: other)
  ultimately have "held_by es (\<lambda>a. ac_type a = AsExpense) (filter cogs accounts) +
      held_by es (\<lambda>a. ac_type a = AsExpense) (filter (\<lambda>a. ac_type a = AsExpense \<and> ac_code a \<notin> set refs) accounts) =
      held_by es (\<lambda>a. ac_type a = AsExpense) accounts"
    using held_by_split [of es "\<lambda>a. ac_type a = AsExpense" accounts cogs] by simp
  then show ?thesis
    by (simp add: incomeStatement_def sumByType_total [OF assms] Let_def Balance_minus_def balance_currency_def
        normal_amount_def refs_def flip: cogs_def)
qed

lemma statements_hold:
  assumes "entries_in cur es" "ledger_total es = 0"
    and "distinct (map ac_code accounts)" "le_accountRef ` set es \<subseteq> ac_code ` set accounts"
  shows "\<exists>inc sheet. incomeStatement es accounts cur = Inr inc \<and>
    balanceSheet es accounts (in_netIncome inc) cur = Inr sheet \<and>
    bl_amountMinor (bs_assets sheet) = held_by es (\<lambda>a. ac_type a = AsAsset) accounts \<and>
    bl_amountMinor (bs_assets sheet) = bl_amountMinor (bs_liabilities sheet) + bl_amountMinor (bs_equity sheet) +
      bl_amountMinor (in_netIncome inc)"
proof -
  obtain inc where inc: "incomeStatement es accounts cur = Inr inc" "bl_currency (in_netIncome inc) = cur"
      "bl_amountMinor (in_revenue inc) = - held_by es (\<lambda>a. ac_type a = AsRevenue) accounts"
      "bl_amountMinor (in_cogs inc) + bl_amountMinor (in_expenses inc) = held_by es (\<lambda>a. ac_type a = AsExpense) accounts"
      "bl_amountMinor (in_netIncome inc) =
        bl_amountMinor (in_revenue inc) - bl_amountMinor (in_cogs inc) - bl_amountMinor (in_expenses inc)"
    using income_total [OF assms(1)] by blast
  have "held_by es (\<lambda>a. True) accounts = 0" using held_by_all [OF assms(3,4)] assms(2) by simp
  then show ?thesis
    using inc(2-5) held_by_types [of es accounts]
    by (simp add: inc(1) balanceSheet_def sumByType_total [OF assms(1)] Balance_plus_def balance_currency_def normal_amount_def)
qed

subsection \<open>Carrying balances into a new period\<close>

lemma opening_line_net:
  assumes "isValidCurrencyCode cur"
  shows "\<exists>l. opening_line cur row = Inr l \<and> jl_accountRef l = tb_accountRef row \<and> currency (jl_amount l) = cur \<and>
    line_signed l = tb_debitMinor row - tb_creditMinor row"
proof -
  have "Money_create (jint (abs n)) cur = Inr \<lparr>amountMinor = abs n, currency = cur\<rparr>" for n
    using assms by (simp add: Money_create_Inr_iff)
  then show ?thesis by (simp add: opening_line_def Let_def line_signed_def)
qed

lemma opening_lines_net:
  assumes "isValidCurrencyCode cur"
  shows "\<exists>ls. opening_lines cur rows = Inr ls \<and> length ls = length rows \<and>
    list_all (\<lambda>l. currency (jl_amount l) = cur) ls \<and>
    (\<forall>ref. line_total ls ref = sum_list (map (\<lambda>r. tb_debitMinor r - tb_creditMinor r)
       (filter (\<lambda>r. tb_accountRef r = ref) rows))) \<and>
    sum_list (map line_signed ls) = sum_list (map (\<lambda>r. tb_debitMinor r - tb_creditMinor r) rows)"
proof (induction rows)
  case (Cons row rows)
  obtain l where l: "opening_line cur row = Inr l" "jl_accountRef l = tb_accountRef row" "currency (jl_amount l) = cur"
      "line_signed l = tb_debitMinor row - tb_creditMinor row"
    using opening_line_net [OF assms] by blast
  with Cons show ?case by auto
qed simp

lemma plug_signed: "plug_of ls = - sum_list (map line_signed ls)"
proof -
  have "foldl (\<lambda>sum l. sum + (if jl_direction l = Debit then - amountMinor (jl_amount l) else amountMinor (jl_amount l))) n ls =
      n - sum_list (map line_signed ls)" for n
    by (induction ls arbitrary: n) (simp_all add: line_signed_def)
  then show ?thesis by (simp add: plug_of_def)
qed

text \<open>The rows with a balance carry it over, and the plug takes what is missing.\<close>

lemma opening_journal:
  assumes cur: "isValidCurrencyCode cur" and some: "\<exists>ref. account_total es ref \<noteq> 0"
  shows "\<exists>j. openingJournal jid src (trialBalance es) eq cur = Inr (Inr j) \<and> journal_ok j \<and>
    (\<forall>ref. line_total (jn_lines j) ref = account_total es ref - (if ref = eq then ledger_total es else 0))"
proof -
  define rows where "rows = filter (\<lambda>r. tb_debitMinor r \<noteq> tb_creditMinor r) (trialBalance es)"
  obtain ls where ls: "opening_lines cur rows = Inr ls" "length ls = length rows"
      "list_all (\<lambda>l. currency (jl_amount l) = cur) ls"
      "\<And>ref. line_total ls ref = sum_list (map (\<lambda>r. tb_debitMinor r - tb_creditMinor r) (filter (\<lambda>r. tb_accountRef r = ref) rows))"
      "sum_list (map line_signed ls) = sum_list (map (\<lambda>r. tb_debitMinor r - tb_creditMinor r) rows)"
    using opening_lines_net [OF cur, of rows] by blast
  have row: "r \<in> set (trialBalance es) \<Longrightarrow> tb_debitMinor r - tb_creditMinor r = account_total es (tb_accountRef r)" for r
    by (rule trial_net)
  have drop: "sum_list (map (\<lambda>r. tb_debitMinor r - tb_creditMinor r) (filter (\<lambda>r. tb_debitMinor r \<noteq> tb_creditMinor r) rs)) =
      sum_list (map (\<lambda>r. tb_debitMinor r - tb_creditMinor r) rs)" for rs :: "trial_row list"
    by (induction rs) simp_all
  have total: "sum_list (map line_signed ls) = ledger_total es"
  proof -
    have "sum_list (map line_signed ls) = sum_list (map (\<lambda>r. tb_debitMinor r - tb_creditMinor r) (trialBalance es))"
      unfolding ls(5) rows_def by (rule drop)
    also have "map (\<lambda>r. tb_debitMinor r - tb_creditMinor r) (trialBalance es) =
        map (\<lambda>r. account_total es (tb_accountRef r)) (trialBalance es)"
      by (simp add: row)
    finally show ?thesis using trial_sum [of "\<lambda>x. x" es] partition_total [of "le_accountRef ` set es" es] by simp
  qed
  have own: "line_total ls ref = account_total es ref" for ref
  proof -
    have eq: "filter (\<lambda>r. tb_accountRef r = ref) rows =
        filter (\<lambda>r. tb_debitMinor r \<noteq> tb_creditMinor r) (filter (\<lambda>r. tb_accountRef r = ref) (trialBalance es))"
      by (auto simp: rows_def intro!: filter_cong)
    have "line_total ls ref = sum_list (map (\<lambda>r. tb_debitMinor r - tb_creditMinor r)
        (filter (\<lambda>r. tb_accountRef r = ref) (trialBalance es)))"
      unfolding ls(4) eq by (rule drop)
    also have "\<dots> = sum_list (map (\<lambda>r. account_total es (tb_accountRef r)) (filter (\<lambda>r. tb_accountRef r = ref) (trialBalance es)))"
      by (rule arg_cong [where f = sum_list], rule map_cong) (simp_all add: row)
    also have "\<dots> = sum_list (map (\<lambda>r. if tb_accountRef r = ref then account_total es (tb_accountRef r) else 0) (trialBalance es))"
      by (rule sum_list_map_filter') 
    also have "\<dots> = (\<Sum>q\<in>le_accountRef ` set es. if q = ref then account_total es q else 0)"
      using sum_list_distinct_conv_sum_set [OF trial_refs(1), of "\<lambda>q. if q = ref then account_total es q else 0" es]
      by (simp add: trial_refs(2) comp_def)
    also have "\<dots> = account_total es ref"
      by (auto simp: sum.delta account_total_sides side_total_none)
    finally show ?thesis .
  qed
  obtain ref where ref: "account_total es ref \<noteq> 0" using some by blast
  then have "ls \<noteq> []" using own [of ref] by auto
  define plug where "plug = plug_of ls"
  have plug: "plug = - ledger_total es" using total by (simp add: plug_def plug_signed)
  have money: "Money_create (jint (abs plug)) cur = Inr \<lparr>amountMinor = abs plug, currency = cur\<rparr>"
    using cur by (simp add: Money_create_Inr_iff)
  define extra where "extra = (if plug = 0 then [] else [\<lparr>jl_accountRef = eq, jl_direction = (if plug > 0 then Debit else Credit),
      jl_amount = \<lparr>amountMinor = abs plug, currency = cur\<rparr>, jl_memo = Some ''opening balance equity plug''\<rparr>])"
  have extra: "sum_list (map line_signed extra) = plug" "line_total extra q = (if q = eq then plug else 0)" for q
    by (auto simp: extra_def line_signed_def)
  have "openingJournal jid src (trialBalance es) eq cur = Inr (Journal_create jid src cur (ls @ extra))"
    unfolding openingJournal_def Let_def rows_def [symmetric] ls(1) bind_result_simps plug_def [symmetric] money
    by (simp add: extra_def)
  moreover have "2 \<le> length (ls @ extra)"
  proof (rule ccontr)
    assume "\<not> 2 \<le> length (ls @ extra)"
    with \<open>ls \<noteq> []\<close> have len: "length ls = 1" "length extra = 0"
      unfolding length_append length_greater_0_conv [symmetric] by linarith+
    obtain l where l: "ls = [l]" using len(1) by (auto simp: length_Suc_conv)
    have "extra = []" using len(2) by simp
    have "plug = 0" using \<open>extra = []\<close> by (simp add: extra_def split: if_splits)
    then have "line_signed l = 0" using total plug l by simp
    then show False using own [of ref] ref l by (simp split: if_splits)
  qed
  moreover have "list_all (\<lambda>l. currency (jl_amount l) = cur) (ls @ extra)" using ls(3) by (simp add: extra_def)
  moreover have "sumByDirection (ls @ extra) Debit = sumByDirection (ls @ extra) Credit"
    using line_signed_sum [of "ls @ extra"] total extra(1) plug by simp
  ultimately have "openingJournal jid src (trialBalance es) eq cur = Inr (Inr
      \<lparr>agg_id = jid, agg_version = 0, agg_events = [], jn_sourceRef = src, jn_currency = cur, jn_lines = ls @ extra,
        jn_reversalOf = None, jn_postedAt = None\<rparr>)"
    by (simp add: Journal_create_Inr_iff)
  moreover from this have "journal_ok \<lparr>agg_id = jid, agg_version = 0, agg_events = [], jn_sourceRef = src, jn_currency = cur,
      jn_lines = ls @ extra, jn_reversalOf = None, jn_postedAt = None\<rparr>"
    using \<open>openingJournal jid src (trialBalance es) eq cur = Inr (Journal_create jid src cur (ls @ extra))\<close>
    by (intro Journal_create_ok [of jid src cur "ls @ extra"]) simp
  ultimately show ?thesis using own extra(2) plug by auto
qed

text \<open>Reversing a posted journal undoes it: the reversal posts, names the original, and the entries of the two sum to
  nothing on every account; reversing the reversal restores the lines of the original.\<close>

lemma reversal_undoes:
  assumes "toLedgerEntries j = Inr es" and "Journal_reverse newId j eventId t = Inr r"
  shows "\<exists>fs. toLedgerEntries r = Inr fs \<and> (\<forall>ref. account_total (es @ fs) ref = 0) \<and>
    jn_reversalOf r = Some (agg_id j) \<and>
    (\<exists>r'. Journal_reverse newId' r eventId' t' = Inr r' \<and> jn_lines r' = jn_lines j)"
proof -
  have r: "jn_lines r = map (\<lambda>l. l\<lparr>jl_direction := opposite (jl_direction l)\<rparr>) (jn_lines j)" "jn_postedAt r = Some t"
      "jn_reversalOf r = Some (agg_id j)"
    using reverse_lines [OF assms(2)] by simp_all
  obtain fs where fs: "toLedgerEntries r = Inr fs" using r(2) by (simp add: toLedgerEntries_def)
  have "account_total (es @ fs) ref = 0" for ref
    by (simp add: entries_of_lines(1) [OF assms(1)] entries_of_lines(1) [OF fs] r(1) flip_lines)
  moreover obtain r' where r': "Journal_reverse newId' r eventId' t' = Inr r'"
    using r(2) by (simp add: Journal_reverse_def Journal_post_def then_do_apply)
  moreover have "jn_lines r' = jn_lines j" using reverse_lines [OF r'] r(1) by (simp add: comp_def)
  ultimately show ?thesis using fs r(3) by blast
qed

definition sample_journal :: journal where
  "sample_journal = \<lparr>agg_id = ''j1'', agg_version = 0, agg_events = [], jn_sourceRef = ''o1'', jn_currency = ''EGP'',
     jn_lines = two_legs ''1200'' ''4000'' \<lparr>amountMinor = 1000, currency = ''EGP''\<rparr> (Some ''sale''), jn_reversalOf = None,
     jn_postedAt = Some 5\<rparr>"

definition sample_entries :: "ledger_entry list" where
  "sample_entries = (case toLedgerEntries sample_journal of Inr es \<Rightarrow> es | Inl _ \<Rightarrow> [])"

lemma reversal_undoes_witness:
  "\<exists>r fs. Journal_reverse ''j2'' sample_journal ''e'' 6 = Inr r \<and> toLedgerEntries r = Inr fs \<and>
    (\<forall>ref. account_total (sample_entries @ fs) ref = 0) \<and> jn_reversalOf r = Some ''j1'' \<and>
    (\<exists>r'. Journal_reverse ''j3'' r ''f'' 7 = Inr r' \<and> jn_lines r' = jn_lines sample_journal)"
proof -
  have es: "toLedgerEntries sample_journal = Inr sample_entries"
    by (simp add: sample_entries_def toLedgerEntries_def sample_journal_def)
  have "\<exists>r. Journal_reverse ''j2'' sample_journal ''e'' 6 = Inr r"
    by (simp add: Journal_reverse_def Journal_post_def then_do_apply sample_journal_def)
  then obtain r where r: "Journal_reverse ''j2'' sample_journal ''e'' 6 = Inr r" by blast
  from reversal_undoes [OF es r, of "''j3''" "''f''" 7] r show ?thesis by (auto simp: sample_journal_def)
qed

text \<open>C37: Carrying forward: the opening journal made of the trial balance of any entries is balanced and puts on every account
  exactly what the entries left on it, except that the equity account also takes what the entries lack to balance;
  it is refused only when no account has a balance.\<close>

theorem opening_carries_balances:
  assumes "isValidCurrencyCode cur" and "account_total es used \<noteq> 0"
  shows "\<exists>j. openingJournal jid src (trialBalance es) equityRef cur = Inr (Inr j) \<and>
    sumByDirection (jn_lines j) Debit = sumByDirection (jn_lines j) Credit \<and>
    (\<forall>ref. line_total (jn_lines j) ref = account_total es ref - (if ref = equityRef then ledger_total es else 0))"
  using opening_journal [OF assms(1), of es jid src equityRef] assms(2) unfolding journal_ok_def by blast

lemma opening_carries_balances_witness:
  "\<exists>j. openingJournal ''o'' ''opening'' (trialBalance sample_entries) ''3000'' ''EGP'' = Inr (Inr j) \<and>
    sumByDirection (jn_lines j) Debit = sumByDirection (jn_lines j) Credit \<and>
    (\<forall>ref. line_total (jn_lines j) ref =
       account_total sample_entries ref - (if ref = ''3000'' then ledger_total sample_entries else 0))"
proof (rule opening_carries_balances)
  show "isValidCurrencyCode ''EGP''" by code_simp
  show "account_total sample_entries ''1200'' \<noteq> 0" by code_simp
qed

end
