(* ===== verification/Finance.thy ===== *)
theory Finance
  imports Ledger AggregateService
begin

section \<open>The other aggregates of finance, and its store\<close>

text \<open>
  services/finance/src/domain (fiscal periods, expenses, budgets, exchange rates, reference data, cost
  snapshots) and src/infrastructure/in-memory-repositories.ts. Most repositories are a \<^verbatim>\<open>Map\<close> whose key is
  \<^verbatim>\<open>`${tenantId}:${id}`\<close>; a listing filters by the prefix \<^verbatim>\<open>`${tenantId}:`\<close>. The ledger is an array of
  entries with their tenant that is only ever pushed to. An exchange rate is a double, \<open>js_number\<close>.
\<close>

subsection \<open>Aggregates\<close>

record fiscal_period = "finance_event aggregate" +
  fp_startDate :: timestamp
  fp_endDate :: timestamp
  fp_closed :: bool

definition FiscalPeriod_open :: "string \<Rightarrow> timestamp \<Rightarrow> timestamp \<Rightarrow> (domain_error, fiscal_period) result" where
  "FiscalPeriod_open pid startDate endDate =
     (if endDate \<le> startDate then Inl (BusinessRuleError ''Fiscal period endDate must be after startDate'')
      else Inr \<lparr>agg_id = pid, agg_version = 0, agg_events = [], fp_startDate = startDate, fp_endDate = endDate,
             fp_closed = False\<rparr>)"

definition FiscalPeriod_close :: "string \<Rightarrow> timestamp \<Rightarrow> (domain_error, fiscal_period, unit) action" where
  "FiscalPeriod_close eventId occurredAt =
     then_do (require (\<lambda>p. \<not> fp_closed p) (\<lambda>_. BusinessRuleError ''Fiscal period is already closed''))
       (modify (\<lambda>p. addDomainEvent eventId occurredAt (PeriodClosed (fp_startDate p) (fp_endDate p))
          (p\<lparr>fp_closed := True\<rparr>)))"

record expense = "finance_event aggregate" +
  ex_costCenterRef :: string
  ex_categoryRef :: string
  ex_amount :: money
  ex_description :: string
  ex_incurredAt :: timestamp

definition Expense_record ::
  "string \<Rightarrow> string \<Rightarrow> string \<Rightarrow> money \<Rightarrow> string \<Rightarrow> timestamp \<Rightarrow> string \<Rightarrow> timestamp \<Rightarrow> expense" where
  "Expense_record xid costCenterRef categoryRef amount description incurredAt eventId occurredAt =
     addDomainEvent eventId occurredAt (ExpenseCreated costCenterRef categoryRef (amountMinor amount) (currency amount))
       \<lparr>agg_id = xid, agg_version = 0, agg_events = [], ex_costCenterRef = costCenterRef, ex_categoryRef = categoryRef,
        ex_amount = amount, ex_description = description, ex_incurredAt = incurredAt\<rparr>"

record budget = "finance_event aggregate" +
  bg_costCenterRef :: string
  bg_period :: string
  bg_amount :: money
  bg_revisions :: int

definition Budget_raiseUpdated :: "string \<Rightarrow> timestamp \<Rightarrow> budget \<Rightarrow> budget" where
  "Budget_raiseUpdated eventId occurredAt b = addDomainEvent eventId occurredAt
     (BudgetUpdated (bg_costCenterRef b) (bg_period b) (amountMinor (bg_amount b)) (currency (bg_amount b))) b"

definition Budget_create :: "string \<Rightarrow> string \<Rightarrow> string \<Rightarrow> money \<Rightarrow> string \<Rightarrow> timestamp \<Rightarrow> budget" where
  "Budget_create bid costCenterRef period amount eventId occurredAt =
     Budget_raiseUpdated eventId occurredAt \<lparr>agg_id = bid, agg_version = 0, agg_events = [],
       bg_costCenterRef = costCenterRef, bg_period = period, bg_amount = amount, bg_revisions = 0\<rparr>"

definition Budget_revise :: "money \<Rightarrow> string \<Rightarrow> timestamp \<Rightarrow> budget \<Rightarrow> budget" where
  "Budget_revise amount eventId occurredAt b =
     Budget_raiseUpdated eventId occurredAt (b\<lparr>bg_amount := amount, bg_revisions := bg_revisions b + 1\<rparr>)"

record exchange_rate = "finance_event aggregate" +
  xr_baseCurrency :: string
  xr_quoteCurrency :: string
  xr_rate :: js_number
  xr_effectiveAt :: timestamp

definition ExchangeRate_record ::
  "string \<Rightarrow> string \<Rightarrow> string \<Rightarrow> js_number \<Rightarrow> timestamp \<Rightarrow> (domain_error, exchange_rate) result" where
  "ExchangeRate_record rid baseCur quoteCur rate effectiveAt =
     (if js_less rate (jint 0) \<or> rate = jint 0 then Inl (BusinessRuleError ''Exchange rate must be positive'')
      else Inr \<lparr>agg_id = rid, agg_version = 0, agg_events = [], xr_baseCurrency = baseCur, xr_quoteCurrency = quoteCur,
             xr_rate = rate, xr_effectiveAt = effectiveAt\<rparr>)"

record cost_center = "finance_event aggregate" +
  cc_code :: string
  cc_name :: string
  cc_active :: bool

definition CostCenter_create :: "string \<Rightarrow> string \<Rightarrow> string \<Rightarrow> (domain_error, cost_center) result" where
  "CostCenter_create cid code name =
     (if length (trim code) = 0 \<or> length (trim name) = 0
      then Inl (ValidationError ''Invalid cost center''
        [issue (if length (trim code) = 0 then ''code'' else ''name'') ''must not be empty''])
      else Inr \<lparr>agg_id = cid, agg_version = 0, agg_events = [], cc_code = code, cc_name = name, cc_active = True\<rparr>)"

record expense_category = "finance_event aggregate" +
  ec_name :: string
  ec_costCenterRef :: "string option"

definition ExpenseCategory_create :: "string \<Rightarrow> string \<Rightarrow> string option \<Rightarrow> (domain_error, expense_category) result" where
  "ExpenseCategory_create cid name costCenterRef =
     (if length (trim name) = 0
      then Inl (ValidationError ''Invalid expense category'' [issue ''name'' ''must not be empty''])
      else Inr \<lparr>agg_id = cid, agg_version = 0, agg_events = [], ec_name = name, ec_costCenterRef = costCenterRef\<rparr>)"

definition TaxRate_create :: "js_number \<Rightarrow> (domain_error, int) result" where
  "TaxRate_create basisPoints =
     (if \<not> isInteger basisPoints \<or> js_less basisPoints (jint 0) \<or> js_less (jint 10000) basisPoints
      then Inl (ValidationError ''Invalid tax rate'' [issue ''basisPoints'' ''must be an integer between 0 and 10000''])
      else Inr (js_to_int basisPoints))"

fun tax_rates :: "js_number list \<Rightarrow> (domain_error, int list) result" where
  "tax_rates [] = Inr []"
| "tax_rates (bp # bps) = bind_result (TaxRate_create bp) (\<lambda>r. bind_result (tax_rates bps) (\<lambda>rs. Inr (r # rs)))"

record tax_profile = "finance_event aggregate" +
  tp_jurisdiction :: string
  tp_rates :: "int list"

definition TaxProfile_define :: "string \<Rightarrow> string \<Rightarrow> int list \<Rightarrow> (domain_error, tax_profile) result" where
  "TaxProfile_define pid jurisdiction rates =
     (if length (trim jurisdiction) = 0
      then Inl (ValidationError ''Invalid tax profile'' [issue ''jurisdiction'' ''must not be empty''])
      else Inr \<lparr>agg_id = pid, agg_version = 0, agg_events = [], tp_jurisdiction = jurisdiction, tp_rates = rates\<rparr>)"

record cost_component =
  cmp_type :: string
  cmp_amount :: money

record cogs_snapshot = "finance_event aggregate" +
  cs_productRef :: string
  cs_components :: "cost_component list"
  cs_effectiveAt :: timestamp

fun cost_components :: "string \<Rightarrow> (string \<times> js_number) list \<Rightarrow> (domain_error, cost_component list) result" where
  "cost_components cur [] = Inr []"
| "cost_components cur ((type, amount) # cs) =
     bind_result (Money_create amount cur) (\<lambda>m. bind_result (cost_components cur cs) (\<lambda>rest.
       Inr (\<lparr>cmp_type = type, cmp_amount = m\<rparr> # rest)))"

definition CogsSnapshot_record :: "string \<Rightarrow> string \<Rightarrow> cost_component list \<Rightarrow> timestamp \<Rightarrow> cogs_snapshot" where
  "CogsSnapshot_record sid productRef components effectiveAt =
     \<lparr>agg_id = sid, agg_version = 0, agg_events = [], cs_productRef = productRef, cs_components = components,
      cs_effectiveAt = effectiveAt\<rparr>"

subsection \<open>Events published (finance-event-translator.ts)\<close>

fun finance_descriptor :: "finance_event \<Rightarrow> string \<times> string" where
  "finance_descriptor (LedgerPosted j s c r) = (''finance.ledger.posted'', ''journal'')"
| "finance_descriptor (ExpenseCreated c k n cur) = (''finance.expense.created'', ''expense'')"
| "finance_descriptor (BudgetUpdated c p n cur) = (''finance.budget.updated'', ''budget'')"
| "finance_descriptor (PeriodClosed a b) = (''finance.period.closed'', ''fiscal_period'')"

definition FinanceEventTranslator :: "finance_event domain_event \<Rightarrow> finance_event descriptor option" where
  "FinanceEventTranslator event = (case finance_descriptor (ev_data event) of (type, kind) \<Rightarrow>
     Some \<lparr>d_type = type, d_eventVersion = 1, d_aggregateType = kind, d_payload = ev_data event\<rparr>)"

subsection \<open>The store (in-memory-repositories.ts)\<close>

record principal =
  pr_id :: string
  pr_kind :: string

record audit_record =
  au_principalId :: string
  au_principalKind :: string
  au_permission :: string
  au_allow :: bool
  au_occurredAt :: timestamp
  au_metadata :: "(string \<times> string) list"

record 'b finance_service =
  fs_journals :: "(string \<times> journal) list"
  fs_entries :: "(string \<times> ledger_entry) list"
  fs_accounts :: "(string \<times> account) list"
  fs_costCenters :: "(string \<times> cost_center) list"
  fs_categories :: "(string \<times> expense_category) list"
  fs_expenses :: "(string \<times> expense) list"
  fs_budgets :: "(string \<times> budget) list"
  fs_periods :: "(string \<times> fiscal_period) list"
  fs_rates :: "(string \<times> exchange_rate) list"
  fs_taxProfiles :: "(string \<times> tax_profile) list"
  fs_snapshots :: "(string \<times> cogs_snapshot) list"
  fs_audit :: "audit_record list"
  fs_outbox :: "'b outbox_entry list"

definition empty_finance :: "'b finance_service" where
  "empty_finance = \<lparr>fs_journals = [], fs_entries = [], fs_accounts = [], fs_costCenters = [], fs_categories = [],
     fs_expenses = [], fs_budgets = [], fs_periods = [], fs_rates = [], fs_taxProfiles = [], fs_snapshots = [],
     fs_audit = [], fs_outbox = []\<rparr>"

definition tenantKey :: "string \<Rightarrow> string \<Rightarrow> string" where
  "tenantKey tenant rid = tenant @ '':'' @ rid"

definition of_tenant :: "string \<Rightarrow> (string \<times> 'a) list \<Rightarrow> 'a list" where
  "of_tenant tenant store = map snd (filter (\<lambda>(k, _). take (length tenant + 1) k = tenant @ '':'') store)"

definition put_in :: "string \<Rightarrow> ('d, 'z) aggregate_scheme \<Rightarrow> (string \<times> ('d, 'z) aggregate_scheme) list \<Rightarrow>
    (string \<times> ('d, 'z) aggregate_scheme) list" where
  "put_in tenant a store = AList.update (tenantKey tenant (agg_id a)) a store"

definition publish ::
  "(finance_event, 'b) agg_env \<Rightarrow> timestamp \<Rightarrow> string \<Rightarrow> finance_event domain_event list \<Rightarrow>
     (thrown, 'b finance_service, unit) action" where
  "publish env now tenant events s =
     (case outbox_write (env_at env now) events ((ae_context env)\<lparr>cx_tenantId := Some tenant\<rparr>) (fs_outbox s) of
        (r, outbox) \<Rightarrow> (mapError (\<lambda>_. ThrownOther) r, s\<lparr>fs_outbox := outbox\<rparr>))"

definition journals_append ::
  "(finance_event, 'b) agg_env \<Rightarrow> timestamp \<Rightarrow> string \<Rightarrow> journal \<Rightarrow> (thrown, 'b finance_service, unit) action" where
  "journals_append env now tenant j =
     (case pullDomainEvents j of (events, j') \<Rightarrow>
      then_do (modify (\<lambda>s. s\<lparr>fs_journals := put_in tenant j' (fs_journals s),
         fs_entries := fs_entries s @ (case toLedgerEntries j of Inl _ \<Rightarrow> [] | Inr es \<Rightarrow> map (Pair tenant) es)\<rparr>))
        (publish env now tenant events))"

definition expenses_save ::
  "(finance_event, 'b) agg_env \<Rightarrow> timestamp \<Rightarrow> string \<Rightarrow> expense \<Rightarrow> (thrown, 'b finance_service, unit) action" where
  "expenses_save env now tenant x =
     (case pullDomainEvents x of (events, x') \<Rightarrow>
      then_do (modify (\<lambda>s. s\<lparr>fs_expenses := put_in tenant x' (fs_expenses s)\<rparr>)) (publish env now tenant events))"

definition budgets_save ::
  "(finance_event, 'b) agg_env \<Rightarrow> timestamp \<Rightarrow> string \<Rightarrow> budget \<Rightarrow> (thrown, 'b finance_service, unit) action" where
  "budgets_save env now tenant b =
     (case pullDomainEvents b of (events, b') \<Rightarrow>
      then_do (modify (\<lambda>s. s\<lparr>fs_budgets := put_in tenant b' (fs_budgets s)\<rparr>)) (publish env now tenant events))"

definition fiscalPeriods_save ::
  "(finance_event, 'b) agg_env \<Rightarrow> timestamp \<Rightarrow> string \<Rightarrow> fiscal_period \<Rightarrow> (thrown, 'b finance_service, unit) action" where
  "fiscalPeriods_save env now tenant p =
     (case pullDomainEvents p of (events, p') \<Rightarrow>
      then_do (modify (\<lambda>s. s\<lparr>fs_periods := put_in tenant p' (fs_periods s)\<rparr>)) (publish env now tenant events))"

definition tenant_entries :: "string \<Rightarrow> 'b finance_service \<Rightarrow> ledger_entry list" where
  "tenant_entries tenant s = map snd (filter (\<lambda>(t, e). t = tenant) (fs_entries s))"

definition entries_findByPeriod :: "timestamp \<Rightarrow> timestamp \<Rightarrow> string \<Rightarrow> 'b finance_service \<Rightarrow> ledger_entry list" where
  "entries_findByPeriod startDate endDate tenant s =
     map snd (filter (\<lambda>(t, e). t = tenant \<and> startDate \<le> le_postedAt e \<and> le_postedAt e \<le> endDate) (fs_entries s))"

definition entries_findByAccount :: "string \<Rightarrow> string \<Rightarrow> 'b finance_service \<Rightarrow> ledger_entry list" where
  "entries_findByAccount accountRef tenant s =
     map snd (filter (\<lambda>(t, e). t = tenant \<and> le_accountRef e = accountRef) (fs_entries s))"

definition journals_findBySourceRef :: "string \<Rightarrow> string \<Rightarrow> 'b finance_service \<Rightarrow> journal list" where
  "journals_findBySourceRef sourceRef tenant s =
     filter (\<lambda>j. jn_sourceRef j = sourceRef) (of_tenant tenant (fs_journals s))"

end
