(* ===== verification/FinanceService.thy ===== *)
theory FinanceService
  imports Finance
begin

section \<open>Finance commands, queries and consumers\<close>

text \<open>
  services/finance/src/application and src/interfaces/finance-consumers.ts over the store of \<open>Finance\<close>. Every
  command and query goes through \<open>authorize\<close>, which asks the security port and records its decision; the port
  may answer as it likes and may throw (\<open>None\<close>, or \<open>False\<close> for recording). The consumers turn events of other
  contexts into posted journals and go without authorization.
\<close>

subsection \<open>The gate (authorize.ts)\<close>

record security =
  sp_authorize :: "principal \<Rightarrow> string \<Rightarrow> bool option"
  sp_hasSteppedUp :: "string \<Rightarrow> bool option"
  sp_record :: "audit_record \<Rightarrow> bool"

type_synonym ('b, 'a) finance_use_case = "('b finance_service, 'a) use_case"
type_synonym 'b finance_env = "(finance_event, 'b) agg_env"

definition authorize ::
  "security \<Rightarrow> principal \<Rightarrow> string \<Rightarrow> timestamp \<Rightarrow> (string \<times> string) list \<Rightarrow> bool \<Rightarrow> ('b, unit) finance_use_case" where
  "authorize sec p permission occurredAt metadata requireStepUp = (\<lambda>s.
     case sp_authorize sec p permission of
       None \<Rightarrow> (Inl ThrownOther, s)
     | Some allowed \<Rightarrow>
         (case (if requireStepUp then sp_hasSteppedUp sec (pr_id p) else Some True) of
            None \<Rightarrow> (Inl ThrownOther, s)
          | Some steppedUp \<Rightarrow>
              let decision = (allowed \<and> steppedUp);
                  entry = \<lparr>au_principalId = pr_id p, au_principalKind = pr_kind p, au_permission = permission,
                    au_allow = decision, au_occurredAt = occurredAt, au_metadata = metadata\<rparr>
              in if \<not> sp_record sec entry then (Inl ThrownOther, s)
                 else let s' = s\<lparr>fs_audit := fs_audit s @ [entry]\<rparr> in
                   if \<not> decision
                   then return_err (AuthorizationError
                     (if \<not> allowed then ''Principal lacks permission \"'' @ permission @ ''\"''
                      else ''Step-up authentication required'')) s'
                   else return_ok () s'))"

text \<open>\<^verbatim>\<open>if (!authz.ok) return err(authz.error);\<close> in front of the rest of a command.\<close>

definition gated ::
  "security \<Rightarrow> principal \<Rightarrow> string \<Rightarrow> timestamp \<Rightarrow> (string \<times> string) list \<Rightarrow> bool \<Rightarrow> ('b, 'a) finance_use_case \<Rightarrow>
     ('b, 'a) finance_use_case" where
  "gated sec p permission now metadata requireStepUp body = (\<lambda>s.
     case authorize sec p permission now metadata requireStepUp s of
       (Inl e, s') \<Rightarrow> (Inl e, s')
     | (Inr (Inl e), s') \<Rightarrow> return_err e s'
     | (Inr (Inr _), s') \<Rightarrow> body s')"

subsection \<open>Ledger commands (ledger.commands.ts)\<close>

record request_env =
  rq_security :: security
  rq_principal :: principal
  rq_tenant :: string
  rq_now :: timestamp
  rq_gen :: string
  rq_eventId :: string

definition RecordExpense ::
  "'b finance_env \<Rightarrow> request_env \<Rightarrow> string \<Rightarrow> string \<Rightarrow> js_number \<Rightarrow> string \<Rightarrow> string \<Rightarrow> timestamp \<Rightarrow>
     ('b, string) finance_use_case" where
  "RecordExpense env q costCenterRef categoryRef minor cur description incurredAt =
     gated (rq_security q) (rq_principal q) ''finance:manage'' (rq_now q) [(''action'', ''RecordExpense'')] False
       (or_return (Money_create minor cur) (\<lambda>amount.
        or_reject (UniqueEntityId_from (rq_gen q)) (\<lambda>xid.
          let x = Expense_record xid costCenterRef categoryRef amount description incurredAt (rq_eventId q) (rq_now q)
          in then_do (expenses_save env (rq_now q) (rq_tenant q) x) (return_ok (agg_id x)))))"

definition CreateBudget ::
  "'b finance_env \<Rightarrow> request_env \<Rightarrow> string \<Rightarrow> string \<Rightarrow> js_number \<Rightarrow> string \<Rightarrow> ('b, string) finance_use_case" where
  "CreateBudget env q costCenterRef period minor cur =
     gated (rq_security q) (rq_principal q) ''finance:manage'' (rq_now q) [(''action'', ''CreateBudget'')] False
       (or_return (Money_create minor cur) (\<lambda>amount.
        or_reject (UniqueEntityId_from (rq_gen q)) (\<lambda>bid.
          let b = Budget_create bid costCenterRef period amount (rq_eventId q) (rq_now q)
          in then_do (budgets_save env (rq_now q) (rq_tenant q) b) (return_ok (agg_id b)))))"

definition ReviseBudget ::
  "'b finance_env \<Rightarrow> request_env \<Rightarrow> string \<Rightarrow> js_number \<Rightarrow> ('b, string \<times> int) finance_use_case" where
  "ReviseBudget env q budgetId minor =
     gated (rq_security q) (rq_principal q) ''finance:manage'' (rq_now q)
       [(''action'', ''ReviseBudget''), (''budgetId'', budgetId)] False
       (lookup (NotFoundError ''Budget not found'') (\<lambda>s. map_of (fs_budgets s) (tenantKey (rq_tenant q) budgetId)) (\<lambda>b.
        or_return (Money_create minor (currency (bg_amount b))) (\<lambda>amount.
          let b' = Budget_revise amount (rq_eventId q) (rq_now q) b
          in then_do (budgets_save env (rq_now q) (rq_tenant q) b') (return_ok (agg_id b', bg_revisions b')))))"

definition RecordManualAdjustment ::
  "'b finance_env \<Rightarrow> request_env \<Rightarrow> string \<Rightarrow> string \<Rightarrow> string \<Rightarrow> js_number \<Rightarrow> string \<Rightarrow> string option \<Rightarrow>
     ('b, string) finance_use_case" where
  "RecordManualAdjustment env q sourceRef debitAccountRef creditAccountRef minor cur memo =
     gated (rq_security q) (rq_principal q) ''finance:manage'' (rq_now q) [(''action'', ''RecordManualAdjustment'')] True
       (or_return (Money_create minor cur) (\<lambda>amount.
        or_reject (UniqueEntityId_from (rq_gen q)) (\<lambda>jid.
        or_return (Journal_create jid sourceRef cur (two_legs debitAccountRef creditAccountRef amount memo)) (\<lambda>j.
          case Journal_post (rq_eventId q) (rq_now q) j of
            (Inl e, _) \<Rightarrow> return_err e
          | (Inr _, j') \<Rightarrow> then_do (journals_append env (rq_now q) (rq_tenant q) j') (return_ok (agg_id j'))))))"

subsection \<open>Fiscal commands (fiscal.commands.ts)\<close>

definition OpenFiscalPeriod ::
  "'b finance_env \<Rightarrow> request_env \<Rightarrow> timestamp \<Rightarrow> timestamp \<Rightarrow> ('b, string) finance_use_case" where
  "OpenFiscalPeriod env q startDate endDate =
     gated (rq_security q) (rq_principal q) ''finance:manage'' (rq_now q) [(''action'', ''OpenFiscalPeriod'')] False
       (or_reject (UniqueEntityId_from (rq_gen q)) (\<lambda>pid.
        or_return (FiscalPeriod_open pid startDate endDate) (\<lambda>p.
          then_do (fiscalPeriods_save env (rq_now q) (rq_tenant q) p) (return_ok (agg_id p)))))"

definition CloseFiscalPeriod :: "'b finance_env \<Rightarrow> request_env \<Rightarrow> string \<Rightarrow> ('b, string) finance_use_case" where
  "CloseFiscalPeriod env q periodId =
     gated (rq_security q) (rq_principal q) ''finance:manage'' (rq_now q)
       [(''action'', ''CloseFiscalPeriod''), (''periodId'', periodId)] True
       (lookup (NotFoundError ''Fiscal period not found'') (\<lambda>s. map_of (fs_periods s) (tenantKey (rq_tenant q) periodId)) (\<lambda>p.
          case FiscalPeriod_close (rq_eventId q) (rq_now q) p of
            (Inl e, _) \<Rightarrow> return_err e
          | (Inr _, p') \<Rightarrow> then_do (fiscalPeriods_save env (rq_now q) (rq_tenant q) p') (return_ok (agg_id p'))))"

definition SetExchangeRate ::
  "request_env \<Rightarrow> string \<Rightarrow> string \<Rightarrow> js_number \<Rightarrow> timestamp \<Rightarrow> ('b, string) finance_use_case" where
  "SetExchangeRate q baseCur quoteCur rate effectiveAt =
     gated (rq_security q) (rq_principal q) ''finance:manage'' (rq_now q) [(''action'', ''SetExchangeRate'')] True
       (or_reject (UniqueEntityId_from (rq_gen q)) (\<lambda>rid.
        or_return (ExchangeRate_record rid baseCur quoteCur rate effectiveAt) (\<lambda>r.
          then_do (modify (\<lambda>s. s\<lparr>fs_rates := fs_rates s @ [(rq_tenant q, r)]\<rparr>)) (return_ok (agg_id r)))))"

subsection \<open>Reference data (reference-data.commands.ts)\<close>

definition CreateAccount :: "request_env \<Rightarrow> string \<Rightarrow> string \<Rightarrow> account_type \<Rightarrow> ('b, string) finance_use_case" where
  "CreateAccount q code name type =
     gated (rq_security q) (rq_principal q) ''finance:manage'' (rq_now q) [(''action'', ''CreateAccount'')] False
       (or_reject (UniqueEntityId_from (rq_gen q)) (\<lambda>aid.
        or_return (Account_create aid code name type) (\<lambda>a.
          then_do (modify (\<lambda>s. s\<lparr>fs_accounts := put_in (rq_tenant q) a (fs_accounts s)\<rparr>)) (return_ok (agg_id a)))))"

definition CreateCostCenter :: "request_env \<Rightarrow> string \<Rightarrow> string \<Rightarrow> ('b, string) finance_use_case" where
  "CreateCostCenter q code name =
     gated (rq_security q) (rq_principal q) ''finance:manage'' (rq_now q) [(''action'', ''CreateCostCenter'')] False
       (or_reject (UniqueEntityId_from (rq_gen q)) (\<lambda>cid.
        or_return (CostCenter_create cid code name) (\<lambda>c.
          then_do (modify (\<lambda>s. s\<lparr>fs_costCenters := put_in (rq_tenant q) c (fs_costCenters s)\<rparr>)) (return_ok (agg_id c)))))"

definition CreateExpenseCategory :: "request_env \<Rightarrow> string \<Rightarrow> string option \<Rightarrow> ('b, string) finance_use_case" where
  "CreateExpenseCategory q name costCenterRef =
     gated (rq_security q) (rq_principal q) ''finance:manage'' (rq_now q) [(''action'', ''CreateExpenseCategory'')] False
       (or_reject (UniqueEntityId_from (rq_gen q)) (\<lambda>cid.
        or_return (ExpenseCategory_create cid name costCenterRef) (\<lambda>c.
          then_do (modify (\<lambda>s. s\<lparr>fs_categories := put_in (rq_tenant q) c (fs_categories s)\<rparr>)) (return_ok (agg_id c)))))"

definition DefineTaxProfile :: "request_env \<Rightarrow> string \<Rightarrow> js_number list \<Rightarrow> ('b, string) finance_use_case" where
  "DefineTaxProfile q jurisdiction basisPointsPerRate =
     gated (rq_security q) (rq_principal q) ''finance:manage'' (rq_now q) [(''action'', ''DefineTaxProfile'')] False
       (or_return (tax_rates basisPointsPerRate) (\<lambda>rates.
        or_reject (UniqueEntityId_from (rq_gen q)) (\<lambda>pid.
        or_return (TaxProfile_define pid jurisdiction rates) (\<lambda>p.
          then_do (modify (\<lambda>s. s\<lparr>fs_taxProfiles := put_in (rq_tenant q) p (fs_taxProfiles s)\<rparr>)) (return_ok (agg_id p))))))"

definition SetProductCost ::
  "request_env \<Rightarrow> string \<Rightarrow> string \<Rightarrow> (string \<times> js_number) list \<Rightarrow> timestamp \<Rightarrow> ('b, string) finance_use_case" where
  "SetProductCost q productRef cur components effectiveAt =
     gated (rq_security q) (rq_principal q) ''finance:manage'' (rq_now q) [(''action'', ''SetProductCost'')] False
       (or_return (cost_components cur components) (\<lambda>cs.
        or_reject (UniqueEntityId_from (rq_gen q)) (\<lambda>sid.
          let c = CogsSnapshot_record sid productRef cs effectiveAt
          in then_do (modify (\<lambda>s. s\<lparr>fs_snapshots := fs_snapshots s @ [(rq_tenant q, c)]\<rparr>)) (return_ok (agg_id c)))))"

text \<open>A forecast is the answer of a port (\<open>None\<close>: it throws); \<^verbatim>\<open>applied: false\<close> has one value.\<close>

record forecast_proposal =
  fp_period :: string
  fp_figure :: string
  fp_proposedMinor :: js_number
  fp_currency :: string

type_synonym forecast_port = "string \<Rightarrow> string \<Rightarrow> js_number \<Rightarrow> forecast_proposal option"

definition GenerateForecast ::
  "request_env \<Rightarrow> forecast_port \<Rightarrow> string \<Rightarrow> string \<Rightarrow> js_number \<Rightarrow> ('b, forecast_proposal) finance_use_case" where
  "GenerateForecast q propose figure cur horizonPeriods =
     gated (rq_security q) (rq_principal q) ''finance:read'' (rq_now q) [(''action'', ''GenerateForecast'')] False
       (\<lambda>s. case propose figure cur horizonPeriods of None \<Rightarrow> (Inl ThrownOther, s) | Some p \<Rightarrow> return_ok p s)"

subsection \<open>Queries (queries.ts)\<close>

definition TrialBalanceQuery ::
  "request_env \<Rightarrow> timestamp \<Rightarrow> timestamp \<Rightarrow> ('b, trial_row list) finance_use_case" where
  "TrialBalanceQuery q startDate endDate =
     gated (rq_security q) (rq_principal q) ''finance:read'' (rq_now q) [(''action'', ''TrialBalanceQuery'')] False
       (\<lambda>s. return_ok (trialBalance (entries_findByPeriod startDate endDate (rq_tenant q) s)) s)"

text \<open>The accounts of the tenant that the entries name.\<close>

definition accounts_named :: "string \<Rightarrow> ledger_entry list \<Rightarrow> 'b finance_service \<Rightarrow> account list" where
  "accounts_named tenant entries s =
     filter (\<lambda>a. ac_code a \<in> set (map le_accountRef entries)) (of_tenant tenant (fs_accounts s))"

definition IncomeStatementQuery ::
  "request_env \<Rightarrow> timestamp \<Rightarrow> timestamp \<Rightarrow> string \<Rightarrow> ('b, income_statement) finance_use_case" where
  "IncomeStatementQuery q startDate endDate cur =
     gated (rq_security q) (rq_principal q) ''finance:read'' (rq_now q) [(''action'', ''IncomeStatementQuery'')] False
       (\<lambda>s. let entries = entries_findByPeriod startDate endDate (rq_tenant q) s;
                accounts = accounts_named (rq_tenant q) entries s
            in or_reject (incomeStatement entries accounts cur) return_ok s)"

definition BalanceSheetQuery ::
  "request_env \<Rightarrow> timestamp \<Rightarrow> timestamp \<Rightarrow> string \<Rightarrow> ('b, balance_sheet) finance_use_case" where
  "BalanceSheetQuery q startDate endDate cur =
     gated (rq_security q) (rq_principal q) ''finance:read'' (rq_now q) [(''action'', ''BalanceSheetQuery'')] False
       (\<lambda>s. let entries = entries_findByPeriod startDate endDate (rq_tenant q) s;
                accounts = accounts_named (rq_tenant q) entries s
            in or_reject (incomeStatement entries accounts cur) (\<lambda>income.
               or_reject (balanceSheet entries accounts (in_netIncome income) cur) return_ok) s)"

subsection \<open>Consumers (finance-consumers.ts)\<close>

definition postAndAppend ::
  "'b finance_env \<Rightarrow> string option \<Rightarrow> string \<Rightarrow> string \<Rightarrow> timestamp \<Rightarrow> (string \<Rightarrow> (domain_error, journal) result) \<Rightarrow>
     (thrown, 'b finance_service, unit) action" where
  "postAndAppend env tenantId gen eventId now build =
     (case readEnvelopeTenant tenantId of
        None \<Rightarrow> throw ThrownOther
      | Some tenant \<Rightarrow>
          (case bind_result (UniqueEntityId_from gen) build of
             Inl e \<Rightarrow> throw (ThrownDomain e)
           | Inr j \<Rightarrow> (case Journal_post eventId now j of
                (Inl e, _) \<Rightarrow> throw (ThrownDomain e)
              | (Inr _, j') \<Rightarrow> journals_append env now tenant j')))"

definition requireMoney ::
  "js_number \<Rightarrow> string \<Rightarrow> (money \<Rightarrow> (thrown, 'b finance_service, unit) action) \<Rightarrow> (thrown, 'b finance_service, unit) action" where
  "requireMoney amount cur f = (case Money_create amount cur of Inl e \<Rightarrow> throw (ThrownDomain e) | Inr m \<Rightarrow> f m)"

datatype finance_message =
    OrderPlaced
  | OrderPaid string js_number string
  | PaymentCaptured string js_number string
  | RefundIssued string js_number string
  | ReturnAccepted string js_number string
  | InventoryAdjusted string js_number string
  | PriceChanged
  | MarketingSpendRecorded string js_number string

fun finance_consume ::
  "'b finance_env \<Rightarrow> posting_accounts \<Rightarrow> string option \<Rightarrow> string \<Rightarrow> string \<Rightarrow> timestamp \<Rightarrow> finance_message \<Rightarrow>
     (thrown, 'b finance_service, unit) action" where
  "finance_consume env acc tenantId gen eventId now OrderPlaced = ret ()"
| "finance_consume env acc tenantId gen eventId now (OrderPaid ref amount cur) =
     requireMoney amount cur (\<lambda>m. postAndAppend env tenantId gen eventId now (\<lambda>i. forSale acc i ref m))"
| "finance_consume env acc tenantId gen eventId now (PaymentCaptured ref amount cur) =
     requireMoney amount cur (\<lambda>m. postAndAppend env tenantId gen eventId now (\<lambda>i. forFee acc i ref m))"
| "finance_consume env acc tenantId gen eventId now (RefundIssued ref amount cur) =
     requireMoney amount cur (\<lambda>m. postAndAppend env tenantId gen eventId now (\<lambda>i. forRefund acc i ref m))"
| "finance_consume env acc tenantId gen eventId now (ReturnAccepted ref amount cur) =
     requireMoney amount cur (\<lambda>m. postAndAppend env tenantId gen eventId now (\<lambda>i. forRefund acc i ref m))"
| "finance_consume env acc tenantId gen eventId now (InventoryAdjusted ref amount cur) =
     (if js_less amount (jint 0) \<or> amount = jint 0 then ret ()
      else requireMoney amount cur (\<lambda>m. postAndAppend env tenantId gen eventId now (\<lambda>i. forCogs acc i ref m)))"
| "finance_consume env acc tenantId gen eventId now PriceChanged = ret ()"
| "finance_consume env acc tenantId gen eventId now (MarketingSpendRecorded ref amount cur) =
     requireMoney amount cur (\<lambda>m. postAndAppend env tenantId gen eventId now (\<lambda>i. forExpense acc i ref m))"

subsection \<open>Everything that reaches the context\<close>

datatype finance_command =
    CmdRecordExpense string string js_number string string timestamp
  | CmdCreateBudget string string js_number string
  | CmdReviseBudget string js_number
  | CmdManualAdjustment string string string js_number string "string option"
  | CmdOpenFiscalPeriod timestamp timestamp
  | CmdCloseFiscalPeriod string
  | CmdSetExchangeRate string string js_number timestamp
  | CmdCreateAccount string string account_type
  | CmdCreateCostCenter string string
  | CmdCreateExpenseCategory string "string option"
  | CmdDefineTaxProfile string "js_number list"
  | CmdSetProductCost string string "(string \<times> js_number) list" timestamp
  | CmdGenerateForecast forecast_port string string js_number
  | QryTrialBalance timestamp timestamp
  | QryIncomeStatement timestamp timestamp string
  | QryBalanceSheet timestamp timestamp string

fun run_command :: "'b finance_env \<Rightarrow> request_env \<Rightarrow> finance_command \<Rightarrow> ('b, unit) finance_use_case" where
  "run_command env q (CmdRecordExpense c k n cur d t) = drop_answer (RecordExpense env q c k n cur d t)"
| "run_command env q (CmdCreateBudget c p n cur) = drop_answer (CreateBudget env q c p n cur)"
| "run_command env q (CmdReviseBudget b n) = drop_answer (ReviseBudget env q b n)"
| "run_command env q (CmdManualAdjustment src a b n cur memo) = drop_answer (RecordManualAdjustment env q src a b n cur memo)"
| "run_command env q (CmdOpenFiscalPeriod a b) = drop_answer (OpenFiscalPeriod env q a b)"
| "run_command env q (CmdCloseFiscalPeriod p) = drop_answer (CloseFiscalPeriod env q p)"
| "run_command env q (CmdSetExchangeRate a b r t) = drop_answer (SetExchangeRate q a b r t)"
| "run_command env q (CmdCreateAccount code name ty) = drop_answer (CreateAccount q code name ty)"
| "run_command env q (CmdCreateCostCenter code name) = drop_answer (CreateCostCenter q code name)"
| "run_command env q (CmdCreateExpenseCategory name c) = drop_answer (CreateExpenseCategory q name c)"
| "run_command env q (CmdDefineTaxProfile j bps) = drop_answer (DefineTaxProfile q j bps)"
| "run_command env q (CmdSetProductCost p cur cs t) = drop_answer (SetProductCost q p cur cs t)"
| "run_command env q (CmdGenerateForecast port figure cur n) = drop_answer (GenerateForecast q port figure cur n)"
| "run_command env q (QryTrialBalance a b) = drop_answer (TrialBalanceQuery q a b)"
| "run_command env q (QryIncomeStatement a b cur) = drop_answer (IncomeStatementQuery q a b cur)"
| "run_command env q (QryBalanceSheet a b cur) = drop_answer (BalanceSheetQuery q a b cur)"

datatype finance_request =
    FinanceCommand request_env finance_command
  | FinanceEvent "string option" string string timestamp finance_message

fun finance_serve ::
  "'b finance_env \<Rightarrow> posting_accounts \<Rightarrow> finance_request \<Rightarrow> (thrown, 'b finance_service, unit) action" where
  "finance_serve env acc (FinanceCommand q c) s =
     (case run_command env q c s of (r, s') \<Rightarrow> (map_ok (\<lambda>_. ()) r, s'))"
| "finance_serve env acc (FinanceEvent t g i now m) s = finance_consume env acc t g i now m s"

subsection \<open>Only balanced postings enter the ledger\<close>

text \<open>The entries of every tenant are a sequence of postings, each balanced, of one time and one currency.\<close>

definition books_ok :: "'b finance_service \<Rightarrow> bool" where
  "books_ok s = (\<forall>t. \<exists>pss. list_all posting pss \<and> tenant_entries t s = concat pss)"

lemma empty_books: "books_ok empty_finance"
  by (auto simp: books_ok_def tenant_entries_def empty_finance_def intro: exI [of _ "[]"])

lemma books_ok_same: "fs_entries s' = fs_entries s \<Longrightarrow> books_ok s' = books_ok s"
  by (simp add: books_ok_def tenant_entries_def)

lemma publish_entries [simp]: "fs_entries (snd (publish env now t evs s)) = fs_entries s"
  by (simp add: publish_def split: prod.splits)

lemma append_books:
  assumes "books_ok s" "journal_ok j"
  shows "books_ok (snd (journals_append env now t j s))"
proof -
  define es where "es = (case toLedgerEntries j of Inl _ \<Rightarrow> [] | Inr es \<Rightarrow> es)"
  have es: "posting es" using posting_journal [OF assms(2)]
    by (auto simp: es_def posting_def split: sum.splits)
  have "fs_entries (snd (journals_append env now t j s)) = fs_entries s @ map (Pair t) es"
    by (simp add: journals_append_def pullDomainEvents_def then_do_apply es_def split: sum.splits)
  then have ent: "tenant_entries u (snd (journals_append env now t j s)) = tenant_entries u s @ (if u = t then es else [])" for u
    by (simp add: tenant_entries_def comp_def)
  show ?thesis
    unfolding books_ok_def ent
  proof
    fix u
    obtain pss where pss: "list_all posting pss" "tenant_entries u s = concat pss" using assms(1) by (auto simp: books_ok_def)
    show "\<exists>pss. list_all posting pss \<and> tenant_entries u s @ (if u = t then es else []) = concat pss"
      using pss es by (intro exI [of _ "if u = t then pss @ [es] else pss"]) auto
  qed
qed

lemma authorize_entries [simp]: "fs_entries (snd (authorize sec p perm now meta step s)) = fs_entries s"
  by (simp add: authorize_def Let_def split: option.splits)

lemma keeps_gated [keeps_intros]:
  assumes "\<And>s'. fs_entries s' = fs_entries s \<Longrightarrow> keeps books_ok body s'"
  shows "keeps books_ok (gated sec p perm now meta step body) s"
proof -
  obtain r s' where r: "authorize sec p perm now meta step s = (r, s')"
    by (cases "authorize sec p perm now meta step s")
  then have "fs_entries s' = fs_entries s" using authorize_entries [of sec p perm now meta step s] by simp
  then show ?thesis
    using assms [of s'] books_ok_same [of s' s]
    by (auto simp: keeps_def gated_def r split: sum.splits)
qed

lemma gated_entries:
  assumes "\<And>s'. fs_entries (snd (body s')) = fs_entries s'"
  shows "fs_entries (snd (gated sec p perm now meta step body s)) = fs_entries s"
proof -
  obtain r s' where r: "authorize sec p perm now meta step s = (r, s')"
    by (cases "authorize sec p perm now meta step s")
  then have "fs_entries s' = fs_entries s" using authorize_entries [of sec p perm now meta step s] by simp
  then show ?thesis using assms by (simp add: gated_def r split: sum.splits)
qed

lemma keeps_same_entries:
  "fs_entries (snd (f s)) = fs_entries s \<Longrightarrow> keeps books_ok f s"
  using books_ok_same [of "snd (f s)" s] by (simp add: keeps_def)

lemma saves_keep_entries [simp]:
  "fs_entries (snd (expenses_save env now t x s)) = fs_entries s"
  "fs_entries (snd (budgets_save env now t b s)) = fs_entries s"
  "fs_entries (snd (fiscalPeriods_save env now t p s)) = fs_entries s"
  by (simp_all add: expenses_save_def budgets_save_def fiscalPeriods_save_def pullDomainEvents_def then_do_apply)

lemma keeps_save [keeps_intros]:
  "(\<And>s. fs_entries (snd (f s)) = fs_entries s) \<Longrightarrow> keeps books_ok (then_do f (return_ok x)) s"
  by (simp add: keeps_same_entries)

lemma keeps_append [keeps_intros]:
  "journal_ok j \<Longrightarrow> keeps books_ok (then_do (journals_append env now t j) (return_ok x)) s"
  by (simp add: keeps_def append_books)

lemma keeps_manual: "keeps books_ok (RecordManualAdjustment env q src a b n cur memo) s"
  unfolding RecordManualAdjustment_def
proof (intro keeps_intros)
  fix s' m jid j
  assume j: "Journal_create jid src cur (two_legs a b m memo) = Inr j"
  have "journal_ok (snd (Journal_post (rq_eventId q) (rq_now q) j))"
    by (rule post_ok, rule Journal_create_ok, rule j)
  then show "keeps books_ok (case Journal_post (rq_eventId q) (rq_now q) j of
      (Inl e, _) \<Rightarrow> return_err e
    | (Inr _, j') \<Rightarrow> then_do (journals_append env (rq_now q) (rq_tenant q) j') (return_ok (agg_id j'))) s'"
    by (auto intro!: keeps_intros split: prod.splits sum.splits)
qed

lemma keeps_close: "keeps books_ok (CloseFiscalPeriod env q p) s"
  unfolding CloseFiscalPeriod_def
  by (intro keeps_intros) (auto intro!: keeps_intros split: prod.splits sum.splits)

lemma keeps_command: "keeps books_ok (run_command env q c) s"
proof (cases c)
  case (CmdManualAdjustment src a b n cur memo)
  then show ?thesis by (simp add: keeps_manual keeps_drop)
next
  case (CmdCloseFiscalPeriod p)
  then show ?thesis by (simp add: keeps_close keeps_drop)
next
  case (QryBalanceSheet a b cur)
  then show ?thesis
    by (auto simp: BalanceSheetQuery_def Let_def or_reject_def intro!: keeps_drop keeps_same_entries gated_entries split: sum.splits)
next
  case (QryIncomeStatement a b cur)
  then show ?thesis
    by (auto simp: IncomeStatementQuery_def Let_def or_reject_def intro!: keeps_drop keeps_same_entries gated_entries split: sum.splits)
next
  case (CmdGenerateForecast port figure cur n)
  then show ?thesis
    by (auto simp: GenerateForecast_def intro!: keeps_drop keeps_same_entries gated_entries split: option.splits)
next
  case (QryTrialBalance a b)
  then show ?thesis by (auto simp: TrialBalanceQuery_def intro!: keeps_drop keeps_same_entries gated_entries)
qed (auto simp: RecordExpense_def CreateBudget_def ReviseBudget_def OpenFiscalPeriod_def SetExchangeRate_def CreateAccount_def
    CreateCostCenter_def CreateExpenseCategory_def DefineTaxProfile_def SetProductCost_def Let_def intro!: keeps_intros)

lemma post_books:
  assumes "books_ok s" "\<And>i j. build i = Inr j \<Longrightarrow> journal_ok j"
  shows "books_ok (snd (postAndAppend env t g i now build s))"
proof -
  have "journal_ok j'" if "bind_result (UniqueEntityId_from g) build = Inr j" "Journal_post i now j = (r, j')" for j r j'
  proof -
    have "journal_ok j" using that(1) assms(2) by (auto simp: bind_result_Inr_iff)
    then have "journal_ok (snd (Journal_post i now j))" by (rule post_ok)
    then show ?thesis by (simp add: that(2))
  qed
  then show ?thesis
    using assms(1) by (auto simp: postAndAppend_def intro!: append_books split: option.splits sum.splits prod.splits)
qed

lemma templates_ok:
  "forSale acc i ref m = Inr j \<Longrightarrow> journal_ok j" "forCogs acc i ref m = Inr j \<Longrightarrow> journal_ok j"
  "forRefund acc i ref m = Inr j \<Longrightarrow> journal_ok j" "forExpense acc i ref m = Inr j \<Longrightarrow> journal_ok j"
  "forFee acc i ref m = Inr j \<Longrightarrow> journal_ok j"
  unfolding forSale_def forCogs_def forRefund_def forExpense_def forFee_def by (rule Journal_create_ok, assumption)+

lemma consume_books: "books_ok s \<Longrightarrow> books_ok (snd (finance_consume env acc t g i now m s))"
  by (cases m) (auto simp: requireMoney_def intro!: post_books dest: templates_ok split: sum.splits)

interpretation finance: invariant_object books_ok "\<lambda>_. True" "finance_serve env acc" for env :: "'b finance_env" and acc
proof unfold_locales
  fix s :: "'b finance_service" and r
  assume "books_ok s"
  then show "books_ok (snd (finance_serve env acc r s))"
    by (cases r) (simp_all add: case_prod_beta keepsD [OF keeps_command] consume_books)
qed

subsection \<open>What the statements show\<close>

abbreviation finance_after :: "'b finance_env \<Rightarrow> posting_accounts \<Rightarrow> finance_request list \<Rightarrow> 'b finance_service" where
  "finance_after env acc requests \<equiv> runs (finance_serve env acc) requests empty_finance"

lemma books_after: "books_ok (finance_after env acc requests)"
  by (rule finance.runs_inv [OF empty_books]) (simp add: list_all_iff)

lemma period_is_filter:
  "entries_findByPeriod a b t s = filter (\<lambda>e. a \<le> le_postedAt e \<and> le_postedAt e \<le> b) (tenant_entries t s)"
  by (auto simp: entries_findByPeriod_def tenant_entries_def filter_map comp_def case_prod_beta intro!: arg_cong [where f = "map snd"] filter_cong)

text \<open>A filter that takes or leaves whole postings keeps the sum.\<close>

lemma filter_postings:
  assumes "list_all posting pss" "\<And>ps. ps \<in> set pss \<Longrightarrow> filter Q ps = ps \<or> filter Q ps = []"
  shows "ledger_total (filter Q (concat pss)) = 0"
  using assms
proof (induction pss)
  case (Cons ps pss)
  have "filter Q ps = ps \<or> filter Q ps = []" using Cons.prems(2) by simp
  moreover have "ledger_total ps = 0" using Cons.prems(1) by (simp add: posting_def)
  ultimately have "ledger_total (filter Q ps) = 0" by auto
  with Cons show ?case by simp
qed simp

lemma period_balanced:
  assumes "books_ok s"
  shows "ledger_total (filter (\<lambda>e. currency (le_amount e) = cur) (entries_findByPeriod a b t s)) = 0"
    and "ledger_total (entries_findByPeriod a b t s) = 0"
proof -
  obtain pss where pss: "list_all posting pss" "tenant_entries t s = concat pss" using assms by (auto simp: books_ok_def)
  have one: "filter (\<lambda>e. Q (le_postedAt e) \<and> R (currency (le_amount e))) ps = ps \<or>
      filter (\<lambda>e. Q (le_postedAt e) \<and> R (currency (le_amount e))) ps = []" if "ps \<in> set pss" for ps Q R
  proof -
    have p: "posting ps" using pss(1) that by (simp add: list_all_iff)
    obtain u c where "list_all (\<lambda>e. le_postedAt e = u) ps" "list_all (\<lambda>e. currency (le_amount e) = c) ps"
      using p unfolding posting_def by blast
    then show ?thesis by (cases "Q u \<and> R c") (auto simp: list_all_iff filter_id_conv filter_empty_conv)
  qed
  show "ledger_total (filter (\<lambda>e. currency (le_amount e) = cur) (entries_findByPeriod a b t s)) = 0"
    using filter_postings [OF pss(1) one, of "\<lambda>u. a \<le> u \<and> u \<le> b" "\<lambda>c. c = cur"]
    by (simp add: period_is_filter pss(2) conj_commute)
  show "ledger_total (entries_findByPeriod a b t s) = 0"
    using filter_postings [OF pss(1) one, of "\<lambda>u. a \<le> u \<and> u \<le> b" "\<lambda>_. True"]
    by (simp add: period_is_filter pss(2))
qed

text \<open>C34: The books balance: whatever commands and events finance handles, and however they fail, the trial balance of any
  tenant over any period has equal debits and credits, the entries of each currency sum to nothing, and a row of
  the trial balance is the difference it contributes to the balance of its account.\<close>

theorem books_balance:
  "let es = entries_findByPeriod startDate endDate tenant (finance_after env acc requests) in
     sum_list (map tb_debitMinor (trialBalance es)) = sum_list (map tb_creditMinor (trialBalance es)) \<and>
     ledger_total (filter (\<lambda>e. currency (le_amount e) = cur) es) = 0 \<and>
     list_all (\<lambda>r. tb_debitMinor r - tb_creditMinor r = account_total es (tb_accountRef r)) (trialBalance es)"
proof -
  let ?es = "entries_findByPeriod startDate endDate tenant (finance_after env acc requests)"
  have "sum_list (map tb_debitMinor (trialBalance ?es)) = sum_list (map tb_creditMinor (trialBalance ?es))"
    using trial_totals [of ?es] period_balanced(2) [OF books_after, of startDate endDate tenant env acc requests] by simp
  moreover have "list_all (\<lambda>r. tb_debitMinor r - tb_creditMinor r = account_total ?es (tb_accountRef r)) (trialBalance ?es)"
    unfolding list_all_iff using trial_net by blast
  ultimately show ?thesis
    using period_balanced(1) [OF books_after, of cur startDate endDate tenant env acc requests] by (simp only: Let_def simp_thms)
qed

definition gate_admits :: "request_env \<Rightarrow> string \<Rightarrow> bool \<Rightarrow> bool" where
  "gate_admits q permission requireStepUp =
     (sp_authorize (rq_security q) (rq_principal q) permission = Some True \<and>
      (requireStepUp \<longrightarrow> sp_hasSteppedUp (rq_security q) (pr_id (rq_principal q)) = Some True) \<and>
      (\<forall>a. sp_record (rq_security q) a))"

lemma gated_admits:
  assumes "gate_admits q permission step"
  shows "\<exists>s'. gated (rq_security q) (rq_principal q) permission now meta step body s = body s' \<and>
    fs_entries s' = fs_entries s \<and> fs_accounts s' = fs_accounts s"
  using assms by (auto simp: gated_def authorize_def gate_admits_def Let_def intro!: exI)

text \<open>C35: The balance sheet query never fails its identity check: on whatever books finance has reached, when the entries
  of the period are in the requested currency and each names exactly one account of the chart, an admitted balance
  sheet query answers, and the assets are the liabilities plus the equity plus the net income that the income
  statement query answers.\<close>

theorem balance_sheet_answers:
  assumes "gate_admits q ''finance:read'' False"
    and "entries_in cur (entries_findByPeriod a b (rq_tenant q) (finance_after env acc requests))"
    and "distinct (map ac_code (of_tenant (rq_tenant q) (fs_accounts (finance_after env acc requests))))"
    and "le_accountRef ` set (entries_findByPeriod a b (rq_tenant q) (finance_after env acc requests)) \<subseteq>
      ac_code ` set (of_tenant (rq_tenant q) (fs_accounts (finance_after env acc requests)))"
  shows "\<exists>inc sheet. fst (IncomeStatementQuery q a b cur (finance_after env acc requests)) = Inr (Inr inc) \<and>
    fst (BalanceSheetQuery q a b cur (finance_after env acc requests)) = Inr (Inr sheet) \<and>
    bl_amountMinor (bs_assets sheet) =
      bl_amountMinor (bs_liabilities sheet) + bl_amountMinor (bs_equity sheet) + bl_amountMinor (in_netIncome inc)"
proof -
  let ?s = "finance_after env acc requests"
  define es where "es = entries_findByPeriod a b (rq_tenant q) ?s"
  define accounts where "accounts = accounts_named (rq_tenant q) es ?s"
  have "distinct (map ac_code accounts)"
    using assms(3) by (simp add: accounts_def accounts_named_def distinct_map_filter)
  moreover have "le_accountRef ` set es \<subseteq> ac_code ` set accounts"
    using assms(4) by (force simp: accounts_def accounts_named_def es_def)
  moreover have in_cur: "entries_in cur es" using assms(2) by (simp only: es_def)
  moreover have zero: "ledger_total es = 0" unfolding es_def by (rule period_balanced(2) [OF books_after])
  ultimately obtain inc sheet where st: "incomeStatement es accounts cur = Inr inc"
      "balanceSheet es accounts (in_netIncome inc) cur = Inr sheet"
      "bl_amountMinor (bs_assets sheet) =
        bl_amountMinor (bs_liabilities sheet) + bl_amountMinor (bs_equity sheet) + bl_amountMinor (in_netIncome inc)"
    using statements_hold [of cur es accounts] by blast
  have read: "entries_findByPeriod a b (rq_tenant q) s' = es" "accounts_named (rq_tenant q) es s' = accounts"
    if "fs_entries s' = fs_entries ?s" "fs_accounts s' = fs_accounts ?s" for s'
    using that by (simp_all add: es_def accounts_def entries_findByPeriod_def accounts_named_def)
  obtain s1 where s1: "IncomeStatementQuery q a b cur ?s =
        (let entries = entries_findByPeriod a b (rq_tenant q) s1; accounts = accounts_named (rq_tenant q) entries s1
         in or_reject (incomeStatement entries accounts cur) return_ok s1)"
      "fs_entries s1 = fs_entries ?s" "fs_accounts s1 = fs_accounts ?s"
    using gated_admits [OF assms(1)] unfolding IncomeStatementQuery_def by blast
  have "fst (IncomeStatementQuery q a b cur ?s) = Inr (Inr inc)"
    unfolding s1(1) by (simp add: Let_def read [OF s1(2,3)] st(1) or_reject_def)
  moreover
  obtain s2 where s2: "BalanceSheetQuery q a b cur ?s =
        (let entries = entries_findByPeriod a b (rq_tenant q) s2; accounts = accounts_named (rq_tenant q) entries s2
         in or_reject (incomeStatement entries accounts cur) (\<lambda>income.
            or_reject (balanceSheet entries accounts (in_netIncome income) cur) return_ok) s2)"
      "fs_entries s2 = fs_entries ?s" "fs_accounts s2 = fs_accounts ?s"
    using gated_admits [OF assms(1)] unfolding BalanceSheetQuery_def by blast
  have "fst (BalanceSheetQuery q a b cur ?s) = Inr (Inr sheet)"
    unfolding s2(1) by (simp add: Let_def read [OF s2(2,3)] st(1,2) or_reject_def)
  ultimately show ?thesis using st(3) by blast
qed

text \<open>Acme sells for 1000, refunds 200 and is charged a fee of 30; the chart holds the accounts posted to.\<close>

definition sample_finance_env :: "unit finance_env" where
  "sample_finance_env = \<lparr>ae_translate = FinanceEventTranslator, ae_serialize = (\<lambda>_. (''application/json'', ())),
     ae_producer = Some ''finance'',
     ae_context = \<lparr>cx_correlationId = ''c'', cx_causationId = ''c'', cx_tenantId = None\<rparr>\<rparr>"

definition sample_accounts :: posting_accounts where
  "sample_accounts = \<lparr>pa_revenue = ''4000'', pa_receivable = ''1200'', pa_cogs = ''5000-COGS'', pa_inventory = ''1300'',
     pa_refundContra = ''4100'', pa_expense = ''6000'', pa_cash = ''1000'', pa_fees = ''6100''\<rparr>"

definition finance_sample_request :: "string \<Rightarrow> request_env" where
  "finance_sample_request g = \<lparr>rq_security = \<lparr>sp_authorize = (\<lambda>_ _. Some True), sp_hasSteppedUp = (\<lambda>_. Some True), sp_record = (\<lambda>_. True)\<rparr>,
     rq_principal = \<lparr>pr_id = ''ana'', pr_kind = ''user''\<rparr>, rq_tenant = ''acme'', rq_now = 1, rq_gen = g, rq_eventId = ''e''\<rparr>"

definition sample_books :: "finance_request list" where
  "sample_books =
     [FinanceCommand (finance_sample_request ''a1'') (CmdCreateAccount ''4000'' ''Revenue'' AsRevenue),
      FinanceCommand (finance_sample_request ''a2'') (CmdCreateAccount ''1200'' ''Receivable'' AsAsset),
      FinanceCommand (finance_sample_request ''a3'') (CmdCreateAccount ''4100'' ''Refunds'' AsRevenue),
      FinanceCommand (finance_sample_request ''a4'') (CmdCreateAccount ''1000'' ''Cash'' AsAsset),
      FinanceCommand (finance_sample_request ''a5'') (CmdCreateAccount ''6100'' ''Fees'' AsExpense),
      FinanceEvent (Some ''acme'') ''j1'' ''e1'' 5 (OrderPaid ''o1'' (jint 1000) ''EGP''),
      FinanceEvent (Some ''acme'') ''j2'' ''e2'' 6 (RefundIssued ''o1'' (jint 200) ''EGP''),
      FinanceEvent (Some ''acme'') ''j3'' ''e3'' 7 (PaymentCaptured ''o1'' (jint 30) ''EGP'')]"

lemma balance_sheet_answers_witness:
  "\<exists>inc sheet. fst (IncomeStatementQuery (finance_sample_request ''x'') 0 10 ''EGP'' (finance_after sample_finance_env sample_accounts sample_books)) =
      Inr (Inr inc) \<and>
    fst (BalanceSheetQuery (finance_sample_request ''x'') 0 10 ''EGP'' (finance_after sample_finance_env sample_accounts sample_books)) =
      Inr (Inr sheet) \<and>
    bl_amountMinor (bs_assets sheet) =
      bl_amountMinor (bs_liabilities sheet) + bl_amountMinor (bs_equity sheet) + bl_amountMinor (in_netIncome inc)"
proof (rule balance_sheet_answers)
  show "gate_admits (finance_sample_request ''x'') ''finance:read'' False" by (simp add: gate_admits_def finance_sample_request_def)
  have e: "entries_findByPeriod 0 10 (rq_tenant (finance_sample_request ''x'')) (finance_after sample_finance_env sample_accounts sample_books) =
      (let leg = (\<lambda>j ref acc d n memo t. \<lparr>le_journalId = j, le_sourceRef = ref, le_accountRef = acc, le_direction = d,
         le_amount = \<lparr>amountMinor = n, currency = ''EGP''\<rparr>, le_memo = Some memo, le_postedAt = t\<rparr>) in
       [leg ''j1'' ''o1'' ''1200'' Debit 1000 ''sale'' 5, leg ''j1'' ''o1'' ''4000'' Credit 1000 ''sale'' 5,
        leg ''j2'' ''o1'' ''4100'' Debit 200 ''refund'' 6, leg ''j2'' ''o1'' ''1200'' Credit 200 ''refund'' 6,
        leg ''j3'' ''o1'' ''6100'' Debit 30 ''fee'' 7, leg ''j3'' ''o1'' ''1000'' Credit 30 ''fee'' 7])"
    by code_simp
  show "entries_in ''EGP'' (entries_findByPeriod 0 10 (rq_tenant (finance_sample_request ''x''))
      (finance_after sample_finance_env sample_accounts sample_books))"
    unfolding e by (simp add: entries_in_def Let_def)
  have c: "map ac_code (of_tenant (rq_tenant (finance_sample_request ''x'')) (fs_accounts (finance_after sample_finance_env sample_accounts sample_books))) =
      [''4000'', ''1200'', ''4100'', ''1000'', ''6100'']"
    by code_simp
  show "distinct (map ac_code (of_tenant (rq_tenant (finance_sample_request ''x''))
      (fs_accounts (finance_after sample_finance_env sample_accounts sample_books))))"
    unfolding c by simp
  have "ac_code ` set (of_tenant (rq_tenant (finance_sample_request ''x'')) (fs_accounts (finance_after sample_finance_env sample_accounts sample_books))) =
      {''4000'', ''1200'', ''4100'', ''1000'', ''6100''}"
    unfolding image_set c by simp
  then show "le_accountRef ` set (entries_findByPeriod 0 10 (rq_tenant (finance_sample_request ''x''))
      (finance_after sample_finance_env sample_accounts sample_books)) \<subseteq>
    ac_code ` set (of_tenant (rq_tenant (finance_sample_request ''x'')) (fs_accounts (finance_after sample_finance_env sample_accounts sample_books)))"
    unfolding e by (simp add: Let_def)
qed

subsection \<open>Every command is authorized and audited\<close>





lemma publish_audit [simp]: "fs_audit (snd (publish env now t evs s)) = fs_audit s"
  by (simp add: publish_def split: prod.splits)

lemma saves_audit [simp]:
  "fs_audit (snd (expenses_save env now t x s)) = fs_audit s"
  "fs_audit (snd (budgets_save env now t b s)) = fs_audit s"
  "fs_audit (snd (fiscalPeriods_save env now t p s)) = fs_audit s"
  "fs_audit (snd (journals_append env now t j s)) = fs_audit s"
  by (simp_all add: expenses_save_def budgets_save_def fiscalPeriods_save_def journals_append_def pullDomainEvents_def then_do_apply)









end
