(* ===== verification/Tax.thy ===== *)
theory Tax
  imports CheckoutValues LargestRemainder UseCase
begin

section \<open>Tax\<close>

text \<open>
  services/finance/src/domain: tax-calculation.ts, tax-settings.ts and the store of one settings value per
  tenant, with the use cases of tax-settings.use-cases.ts and calculate-store-tax.use-case.ts over it. Sums and
  products of prices are integers; what is divided, and the products and sums that lead to a division, are
  those of binary64. A rate or a discount that arrives from outside is any number until it was validated.
  \<open>loc\<close> is \<^verbatim>\<open>localeCompare\<close>. The stored settings object is live: a method that throws leaves in the store
  what it had written before.
\<close>

subsection \<open>Double arithmetic\<close>

definition js_add :: "rat \<Rightarrow> rat \<Rightarrow> rat" where "js_add x y = fl (x + y)"

text \<open>\<^verbatim>\<open>x % y\<close> is exact on doubles; the sign is that of \<open>x\<close>.\<close>

definition js_rem :: "rat \<Rightarrow> rat \<Rightarrow> rat" where
  "js_rem x y = x - y * of_int (if x / y < 0 then \<lceil>x / y\<rceil> else \<lfloor>x / y\<rfloor>)"

subsection \<open>Settings (tax-settings.ts)\<close>

definition MAX_RATE_BASIS_POINTS :: int where "MAX_RATE_BASIS_POINTS = 10000"

text \<open>The rate is any number in an input, an integer in a region.\<close>

record 'n province_rate =
  pv_code :: string
  pv_rateBasisPoints :: 'n

record region_input =
  ri_countryCode :: string
  ri_rateBasisPoints :: js_number
  ri_provinces :: "js_number province_rate list"

record tax_region =
  tr_id :: string
  tr_countryCode :: string
  tr_rateBasisPoints :: int
  tr_provinces :: "int province_rate list"

definition validRate :: "js_number \<Rightarrow> bool" where
  "validRate v = (isInteger v \<and> \<not> js_less v (jint 0) \<and> \<not> js_less (jint MAX_RATE_BASIS_POINTS) v)"

definition startsWith :: "string \<Rightarrow> string \<Rightarrow> bool" where
  "startsWith s prefix = (take (length prefix) s = prefix)"

text \<open>The loop over the provinces, with the codes seen so far.\<close>

fun province_issues :: "string \<Rightarrow> string list \<Rightarrow> js_number province_rate list \<Rightarrow> field_issue list" where
  "province_issues country seen [] = []"
| "province_issues country seen (p # ps) =
     (if \<not> startsWith (pv_code p) (country @ ''-'')
      then [issue ''provinces'' (pv_code p @ '' is not a province of '' @ country)] else []) @
     (if pv_code p \<in> set seen then [issue ''provinces'' (pv_code p @ '' is listed twice'')] else []) @
     (if \<not> validRate (pv_rateBasisPoints p)
      then [issue ''provinces'' (pv_code p @ '': the rate must be a whole number from 0 to 10000'')] else []) @
     province_issues country (pv_code p # seen) ps"

definition region_issues :: "region_input \<Rightarrow> field_issue list" where
  "region_issues input =
     (if \<not> (length (ri_countryCode input) = 2 \<and> list_all is_upper_letter (ri_countryCode input))
      then [issue ''countryCode'' ''must be an ISO 3166-1 alpha-2 code''] else []) @
     (if \<not> validRate (ri_rateBasisPoints input)
      then [issue ''rateBasisPoints'' ''must be a whole number from 0 to 10000''] else []) @
     province_issues (ri_countryCode input) [] (ri_provinces input)"

text \<open>\<^verbatim>\<open>TaxRegion.create\<close> with \<^verbatim>\<open>cleanRegion\<close>.\<close>

definition TaxRegion_create ::
  "(string \<Rightarrow> string \<Rightarrow> int) \<Rightarrow> string \<Rightarrow> region_input \<Rightarrow> (domain_error, tax_region) result" where
  "TaxRegion_create loc rid input =
     (let issues = region_issues input in
      if length issues > 0 then Inl (ValidationError ''Invalid tax region'' issues)
      else Inr \<lparr>tr_id = rid, tr_countryCode = ri_countryCode input,
        tr_rateBasisPoints = js_to_int (ri_rateBasisPoints input),
        tr_provinces = sort_cmp (\<lambda>a b. loc (pv_code a) (pv_code b))
          (map (\<lambda>p. \<lparr>pv_code = pv_code p, pv_rateBasisPoints = js_to_int (pv_rateBasisPoints p)\<rparr>) (ri_provinces input))\<rparr>)"

definition rateFor :: "string option \<Rightarrow> tax_region \<Rightarrow> int" where
  "rateFor province r =
     (let override = (case province of None \<Rightarrow> None | Some c \<Rightarrow> List.find (\<lambda>p. pv_code p = c) (tr_provinces r))
      in case override of Some p \<Rightarrow> pv_rateBasisPoints p | None \<Rightarrow> tr_rateBasisPoints r)"

record tax_settings =
  ts_includesTax :: bool
  ts_taxesShipping :: bool
  ts_taxRegions :: "tax_region list"

definition TaxSettings_defaults :: tax_settings where
  "TaxSettings_defaults = \<lparr>ts_includesTax = True, ts_taxesShipping = False, ts_taxRegions = []\<rparr>"

definition setFlags :: "bool \<Rightarrow> bool \<Rightarrow> (domain_error, tax_settings, unit) action" where
  "setFlags includes shipping = modify (\<lambda>t. t\<lparr>ts_includesTax := includes, ts_taxesShipping := shipping\<rparr>)"

text \<open>The region that is replaced keeps its id.\<close>

definition upsertRegion ::
  "(string \<Rightarrow> string \<Rightarrow> int) \<Rightarrow> string \<Rightarrow> region_input \<Rightarrow> (domain_error, tax_settings, unit) action" where
  "upsertRegion loc rid input = (\<lambda>t.
     case List.find (\<lambda>r. tr_countryCode r = ri_countryCode input) (ts_taxRegions t) of
       Some current \<Rightarrow>
         (case TaxRegion_create loc (tr_id current) input of
            Inl e \<Rightarrow> (Inl e, t)
          | Inr r' \<Rightarrow> (Inr (), t\<lparr>ts_taxRegions :=
              update_first (\<lambda>r. tr_countryCode r = ri_countryCode input) (\<lambda>_. r') (ts_taxRegions t)\<rparr>))
     | None \<Rightarrow>
         (case TaxRegion_create loc rid input of
            Inl e \<Rightarrow> (Inl e, t)
          | Inr r' \<Rightarrow> (Inr (), t\<lparr>ts_taxRegions := ts_taxRegions t @ [r']\<rparr>)))"

definition removeRegion :: "string \<Rightarrow> (domain_error, tax_settings, unit) action" where
  "removeRegion country =
     then_do (require (\<lambda>t. List.find (\<lambda>r. tr_countryCode r = country) (ts_taxRegions t) \<noteq> None)
                (\<lambda>_. NotFoundError ''Tax region not found''))
       (modify (\<lambda>t. t\<lparr>ts_taxRegions := remove_first (\<lambda>r. tr_countryCode r = country) (ts_taxRegions t)\<rparr>))"

definition regionFor :: "string \<Rightarrow> tax_settings \<Rightarrow> tax_region option" where
  "regionFor country t = List.find (\<lambda>r. tr_countryCode r = country) (ts_taxRegions t)"

subsection \<open>The calculation (tax-calculation.ts)\<close>

record taxable_line =
  tl_unitPriceMinor :: int
  tl_quantity :: int
  tl_taxable :: bool

record tax_destination =
  td_country :: string
  td_province :: "string option"

record store_tax_result =
  tx_taxMinor :: int
  tx_included :: bool

record tax_remainder =
  tm_index :: nat
  tm_remainder :: rat

text \<open>\<^verbatim>\<open>b.remainder - a.remainder || a.index - b.index\<close>; only the sign matters.\<close>

definition remainder_cmp :: "tax_remainder \<Rightarrow> tax_remainder \<Rightarrow> int" where
  "remainder_cmp a b =
     (let d = js_sub (tm_remainder b) (tm_remainder a)
      in if d = 0 then int (tm_index a) - int (tm_index b) else if d < 0 then -1 else 1)"

fun hand_out :: "int \<Rightarrow> tax_remainder list \<Rightarrow> int list \<Rightarrow> int list" where
  "hand_out left [] shares = shares"
| "hand_out left (x # xs) shares =
     (if left = 0 then shares
      else hand_out (left - 1) xs (shares[tm_index x := shares ! tm_index x + 1]))"

definition allocateDiscount :: "int list \<Rightarrow> int \<Rightarrow> int list" where
  "allocateDiscount amounts discountMinor =
     (let total = sum_list amounts; discount = min (max 0 discountMinor) total
      in if total = 0 \<or> discount = 0 then map (\<lambda>_. 0) amounts
         else let shares = map (\<lambda>a. \<lfloor>js_div (js_mul (of_int discount) (of_int a)) (of_int total)\<rfloor>) amounts;
                  remainders = map (\<lambda>(i, a). \<lparr>tm_index = i,
                    tm_remainder = js_rem (js_mul (of_int discount) (of_int a)) (of_int total)\<rparr>) (List.enumerate 0 amounts);
                  left = discount - sum_list shares
              in hand_out left (sort_cmp remainder_cmp remainders) shares)"

definition roundedShare :: "int \<Rightarrow> int \<Rightarrow> int \<Rightarrow> int" where
  "roundedShare minor basisPoints divisor =
     (let numerator = js_mul (of_int minor) (of_int basisPoints)
      in \<lfloor>js_div (js_add (js_mul 2 numerator) (of_int divisor)) (js_mul 2 (of_int divisor))\<rfloor>)"

definition taxOf :: "bool \<Rightarrow> int \<Rightarrow> int \<Rightarrow> int" where
  "taxOf included rate minor =
     (if included then roundedShare minor rate (10000 + rate) else roundedShare minor rate 10000)"

definition calculateTax ::
  "tax_settings \<Rightarrow> taxable_line list \<Rightarrow> tax_destination \<Rightarrow> int \<Rightarrow> int option \<Rightarrow> int option \<Rightarrow> store_tax_result" where
  "calculateTax t lines destination shippingMinor orderMinor shippingDiscount =
     (let included = ts_includesTax t in
      case regionFor (td_country destination) t of
        None \<Rightarrow> \<lparr>tx_taxMinor = 0, tx_included = included\<rparr>
      | Some region \<Rightarrow>
          let rate = rateFor (td_province destination) region;
              amounts = map (\<lambda>l. tl_unitPriceMinor l * tl_quantity l) lines;
              shares = allocateDiscount amounts (case orderMinor of Some d \<Rightarrow> d | None \<Rightarrow> 0);
              tax = foldl (\<lambda>tax (l, a, s). if tl_taxable l then tax + taxOf included rate (a - s) else tax)
                      0 (zip lines (zip amounts shares));
              shippingAfter = max 0 (shippingMinor - max 0 (case shippingDiscount of Some d \<Rightarrow> d | None \<Rightarrow> 0));
              taxMinor = (if ts_taxesShipping t \<and> 0 < shippingAfter
                          then tax + taxOf included rate shippingAfter else tax)
          in \<lparr>tx_taxMinor = taxMinor, tx_included = included\<rparr>)"

subsection \<open>The store and the use cases\<close>

type_synonym tax_store = "(string \<times> tax_settings) list"
type_synonym 'a tax_use_case = "(tax_store, 'a) use_case"

record tax_settings_view =
  sv_pricesIncludeTax :: bool
  sv_chargeTaxOnShipping :: bool
  sv_regions :: "(string \<times> int \<times> int province_rate list) list"

definition toTaxSettingsView :: "tax_settings \<Rightarrow> tax_settings_view" where
  "toTaxSettingsView t =
     \<lparr>sv_pricesIncludeTax = ts_includesTax t, sv_chargeTaxOnShipping = ts_taxesShipping t,
      sv_regions = map (\<lambda>r. (tr_countryCode r, tr_rateBasisPoints r, tr_provinces r)) (ts_taxRegions t)\<rparr>"

definition tax_get :: "string \<Rightarrow> tax_store \<Rightarrow> tax_settings option" where
  "tax_get tenant s = map_of s tenant"

definition tax_save :: "string \<Rightarrow> tax_settings \<Rightarrow> tax_store \<Rightarrow> tax_store" where
  "tax_save tenant t s = AList.update tenant t s"

definition tax_load :: "string \<Rightarrow> tax_store \<Rightarrow> tax_settings" where
  "tax_load tenant s = (case tax_get tenant s of Some t \<Rightarrow> t | None \<Rightarrow> TaxSettings_defaults)"

text \<open>
  A method of the loaded settings inside \<^verbatim>\<open>attempt\<close>, then the save. A stored object carries what the method
  wrote even when it threw.
\<close>

definition change_tax :: "string \<Rightarrow> (domain_error, tax_settings, unit) action \<Rightarrow> tax_settings_view tax_use_case" where
  "change_tax tenant change s =
     (case change (tax_load tenant s) of
        (Inl e, t) \<Rightarrow> return_err e (if tax_get tenant s = None then s else tax_save tenant t s)
      | (Inr _, t) \<Rightarrow> return_ok (toTaxSettingsView t) (tax_save tenant t s))"

definition GetTaxSettings :: "string \<Rightarrow> tax_settings_view tax_use_case" where
  "GetTaxSettings tenant s = return_ok (toTaxSettingsView (tax_load tenant s)) s"

definition UpdateTaxSettings :: "string \<Rightarrow> bool \<Rightarrow> bool \<Rightarrow> tax_settings_view tax_use_case" where
  "UpdateTaxSettings tenant includes shipping = change_tax tenant (setFlags includes shipping)"

text \<open>\<^verbatim>\<open>regionIssues\<close> of the use case: the country exists, and the provinces are its own.\<close>

definition known_region_issues :: "region_input \<Rightarrow> field_issue list" where
  "known_region_issues input =
     (if ri_countryCode input \<notin> set COUNTRY_CODES
      then [issue ''countryCode'' (ri_countryCode input @ '' is not a country code'')]
      else let known = (case map_of PROVINCES (ri_countryCode input) of Some ps \<Rightarrow> ps | None \<Rightarrow> []) in
        concat (map (\<lambda>p. if pv_code p \<in> set known then []
          else [issue ''provinces'' (pv_code p @ '' is not a province of '' @ ri_countryCode input)]) (ri_provinces input)))"

definition UpsertTaxRegion ::
  "(string \<Rightarrow> string \<Rightarrow> int) \<Rightarrow> string \<Rightarrow> string \<Rightarrow> region_input \<Rightarrow> tax_settings_view tax_use_case" where
  "UpsertTaxRegion loc gen tenant input =
     (let issues = known_region_issues input in
      if length issues > 0 then return_err (ValidationError ''Invalid tax region'' issues)
      else or_reject (UniqueEntityId_from gen) (\<lambda>rid. change_tax tenant (upsertRegion loc rid input)))"

definition DeleteTaxRegion :: "string \<Rightarrow> string \<Rightarrow> tax_settings_view tax_use_case" where
  "DeleteTaxRegion tenant country =
     lookup (NotFoundError ''Tax region not found'') (tax_get tenant) (\<lambda>_. change_tax tenant (removeRegion country))"

record store_tax_input =
  si_tenantId :: string
  si_lines :: "taxable_line list"
  si_destination :: tax_destination
  si_shippingMinor :: js_number
  si_orderDiscountMinor :: "js_number option"
  si_shippingDiscountMinor :: "js_number option"

definition whole_amount :: "js_number \<Rightarrow> bool" where
  "whole_amount v = (isInteger v \<and> \<not> js_less v (jint 0))"

definition bad_discount :: "string \<Rightarrow> js_number option \<Rightarrow> domain_error option" where
  "bad_discount field value =
     (case value of None \<Rightarrow> None
      | Some v \<Rightarrow> if whole_amount v then None
          else Some (ValidationError ''Invalid discount'' [issue field ''must be a non-negative integer'']))"

definition CalculateStoreTax :: "store_tax_input \<Rightarrow> store_tax_result tax_use_case" where
  "CalculateStoreTax input s =
     (if blank (td_country (si_destination input))
      then return_err (ValidationError ''Invalid destination'' [issue ''country'' ''required'']) s
      else if \<not> whole_amount (si_shippingMinor input)
      then return_err (ValidationError ''Invalid shipping price''
             [issue ''shippingMinor'' ''must be a non-negative integer'']) s
      else case bad_discount ''orderDiscountMinor'' (si_orderDiscountMinor input) of
        Some e \<Rightarrow> return_err e s
      | None \<Rightarrow>
          (case bad_discount ''shippingDiscountMinor'' (si_shippingDiscountMinor input) of
             Some e \<Rightarrow> return_err e s
           | None \<Rightarrow>
               return_ok (calculateTax (tax_load (si_tenantId input) s) (si_lines input) (si_destination input)
                 (js_to_int (si_shippingMinor input)) (map_option js_to_int (si_orderDiscountMinor input))
                 (map_option js_to_int (si_shippingDiscountMinor input))) s))"

subsection \<open>Exact numbers\<close>

lemma js_add_of_int: "0 \<le> a + b \<Longrightarrow> a + b < safe_limit \<Longrightarrow> js_add (of_int a) (of_int b) = of_int (a + b)"
  using fl_of_int [of "a + b"] by (simp add: js_add_def)

lemma js_rem_of_int:
  assumes "0 \<le> a" "0 < b"
  shows "js_rem (of_int a) (of_int b) = of_int (a mod b)"
proof -
  have "\<not> rat_of_int a / of_int b < 0" using assms by (simp add: divide_less_0_iff)
  then show ?thesis by (simp add: js_rem_def floor_divide_of_int_eq minus_mult_div_eq_mod flip: of_int_mult of_int_diff)
qed

text \<open>Half up: \<open>n / d\<close> plus a half, in whole numbers.\<close>

definition half_up :: "int \<Rightarrow> int \<Rightarrow> int" where
  "half_up n d = (2 * n + d) div (2 * d)"

lemma half_up_error:
  assumes "0 < d"
  shows "2 * n - d < 2 * d * half_up n d" "2 * d * half_up n d \<le> 2 * n + d"
proof -
  have "2 * d * half_up n d = 2 * n + d - (2 * n + d) mod (2 * d)"
    by (simp add: half_up_def minus_mod_eq_mult_div)
  moreover have "0 \<le> (2 * n + d) mod (2 * d)" "(2 * n + d) mod (2 * d) < 2 * d"
    using assms by simp_all
  ultimately show "2 * n - d < 2 * d * half_up n d" "2 * d * half_up n d \<le> 2 * n + d" by linarith+
qed

lemma half_up_bounds:
  assumes "0 < d" "0 \<le> a" "0 \<le> r" "r \<le> d"
  shows "0 \<le> half_up (a * r) d" "half_up (a * r) d \<le> a"
proof -
  show "0 \<le> half_up (a * r) d" using assms by (simp add: half_up_def pos_imp_zdiv_nonneg_iff)
  have "a * r \<le> a * d" using assms by (intro mult_left_mono) auto
  then have "half_up (a * r) d \<le> (2 * (a * d) + d) div (2 * d)"
    using assms unfolding half_up_def by (intro zdiv_mono1) auto
  also have "2 * (a * d) + d = d + a * (2 * d)" by simp
  also have "(d + a * (2 * d)) div (2 * d) = a + d div (2 * d)"
    using assms by (intro div_mult_self1) simp
  also have "\<dots> = a" using assms by simp
  finally show "half_up (a * r) d \<le> a" .
qed

lemma roundedShare_exact:
  assumes "0 \<le> a" "0 \<le> r" "0 < d" "2 * (a * r) + 2 * d < safe_limit"
  shows "roundedShare a r d = half_up (a * r) d"
proof -
  have n: "0 \<le> a * r" using assms by simp
  have "js_mul (of_int a) (of_int r) = of_int (a * r)"
    using assms n by (intro js_mul_of_int) linarith+
  moreover have "js_mul 2 (of_int (a * r)) = of_int (2 * (a * r))" "js_mul 2 (of_int d) = of_int (2 * d)"
    using js_mul_of_int [of 2 "a * r"] js_mul_of_int [of 2 d] assms n by simp_all
  moreover have "js_add (of_int (2 * (a * r))) (of_int d) = of_int (2 * (a * r) + d)"
    using assms n by (intro js_add_of_int) auto
  moreover have "\<lfloor>js_div (of_int (2 * (a * r) + d)) (of_int (2 * d))\<rfloor> = (2 * (a * r) + d) div (2 * d)"
    using assms n by (intro floor_js_div) auto
  ultimately show ?thesis unfolding roundedShare_def half_up_def Let_def by metis
qed

subsection \<open>Sharing the discount\<close>

lemma remainder_cmp_front:
  "0 < tm_remainder x \<Longrightarrow> \<not> 0 < tm_remainder y \<Longrightarrow> remainder_cmp x y \<le> 0"
  "\<not> 0 < tm_remainder x \<Longrightarrow> 0 < tm_remainder y \<Longrightarrow> 0 < remainder_cmp x y"
  using fl_neg [of "tm_remainder y - tm_remainder x"] fl_pos_positive [of "tm_remainder y - tm_remainder x"]
  by (auto simp: remainder_cmp_def js_sub_def Let_def)

lemma length_hand_out [simp]: "length (hand_out left xs ss) = length ss"
  by (induction left xs ss rule: hand_out.induct) auto

lemma hand_out_nth:
  assumes "distinct (map tm_index xs)" "i < length ss"
  shows "hand_out (int n) xs ss ! i = ss ! i + (if i \<in> tm_index ` set (take n xs) then 1 else 0)"
  using assms
proof (induction xs arbitrary: n ss)
  case (Cons x xs)
  show ?case
  proof (cases n)
    case (Suc k)
    have "tm_index x \<notin> tm_index ` set (take k xs)"
      using Cons.prems(1) by (auto dest: in_set_takeD)
    moreover have "hand_out (int k) xs (ss[tm_index x := ss ! tm_index x + 1]) ! i =
        ss[tm_index x := ss ! tm_index x + 1] ! i + (if i \<in> tm_index ` set (take k xs) then 1 else 0)"
      using Cons by simp
    moreover have "ss[tm_index x := ss ! tm_index x + 1] ! i = ss ! i + (if i = tm_index x then 1 else 0)"
      using Cons.prems(2) by (simp add: nth_list_update)
    ultimately show ?thesis by (auto simp: Suc)
  qed simp
qed simp

text \<open>The remainders of \<open>discount * amount\<close> over the total, by index.\<close>

definition remainders_of :: "int \<Rightarrow> int \<Rightarrow> int list \<Rightarrow> tax_remainder list" where
  "remainders_of d whole amounts =
     map (\<lambda>(i, a). \<lparr>tm_index = i, tm_remainder = js_rem (js_mul (of_int d) (of_int a)) (of_int whole)\<rparr>)
       (List.enumerate 0 amounts)"

lemma remainders_nth:
  "length (remainders_of d whole amounts) = length amounts"
  "i < length amounts \<Longrightarrow> remainders_of d whole amounts ! i =
     \<lparr>tm_index = i, tm_remainder = js_rem (js_mul (of_int d) (of_int (amounts ! i))) (of_int whole)\<rparr>"
  by (simp_all add: remainders_of_def nth_enumerate_eq)

definition shareable :: "int list \<Rightarrow> bool" where
  "shareable amounts = ((\<forall>a\<in>set amounts. 0 \<le> a) \<and> sum_list amounts * sum_list amounts < safe_limit)"

lemma shareable_product:
  assumes "shareable amounts" "0 \<le> d" "d \<le> sum_list amounts" "a \<in> set amounts"
  shows "0 \<le> a" "a \<le> sum_list amounts" "0 \<le> d * a" "d * a < safe_limit"
proof -
  show a: "0 \<le> a" using assms by (simp add: shareable_def)
  show le: "a \<le> sum_list amounts"
    using sum_list_nonneg_mem [of a amounts id] assms by (simp add: shareable_def)
  show "0 \<le> d * a" using a assms(2) by simp
  have "d * a \<le> sum_list amounts * sum_list amounts" using assms a le by (intro mult_mono) auto
  with assms(1) show "d * a < safe_limit" by (simp add: shareable_def)
qed

text \<open>What the floors leave over never exceeds the number of positive remainders.\<close>

lemma left_over_count:
  assumes ok: "shareable amounts" "0 \<le> d" "d \<le> sum_list amounts" "0 < sum_list amounts"
  defines "T \<equiv> sum_list amounts"
  shows "map (\<lambda>a. \<lfloor>js_div (js_mul (of_int d) (of_int a)) (of_int T)\<rfloor>) amounts = map (\<lambda>a. d * a div T) amounts"
    and "i < length amounts \<Longrightarrow> tm_remainder (remainders_of d T amounts ! i) = of_int (d * amounts ! i mod T)"
    and "0 \<le> d - (\<Sum>a\<leftarrow>amounts. d * a div T)"
    and "d - (\<Sum>a\<leftarrow>amounts. d * a div T) \<le>
           int (length (filter (\<lambda>x. 0 < tm_remainder x) (remainders_of d T amounts)))"
proof -
  note prod = shareable_product [OF ok(1-3)]
  have T: "0 < T" using ok(4) by (simp add: T_def)
  have mul: "js_mul (of_int d) (of_int a) = of_int (d * a)" if "a \<in> set amounts" for a
    using prod [OF that] by (intro js_mul_of_int)
  show "map (\<lambda>a. \<lfloor>js_div (js_mul (of_int d) (of_int a)) (of_int T)\<rfloor>) amounts = map (\<lambda>a. d * a div T) amounts"
    using prod T by (intro map_cong) (simp_all add: mul floor_js_div del: of_int_mult)
  show rem: "tm_remainder (remainders_of d T amounts ! i) = of_int (d * amounts ! i mod T)"
    if "i < length amounts" for i
    using that prod [of "amounts ! i"] T
    by (simp add: remainders_nth mul js_rem_of_int del: of_int_mult)
  have "(\<Sum>a\<leftarrow>amounts. d * a) = T * d"
    using sum_list_const_mult [of d "\<lambda>a. a" amounts] by (simp add: T_def)
  then have eq: "T * (d - (\<Sum>a\<leftarrow>amounts. d * a div T)) = (\<Sum>a\<leftarrow>amounts. d * a mod T)"
    using sum_div_mod [of T "\<lambda>a. d * a" amounts] by (simp add: algebra_simps)
  have "map (\<lambda>x. 0 < tm_remainder x) (remainders_of d T amounts) = map (\<lambda>a. d * a mod T \<noteq> 0) amounts"
    using T pos_mod_sign [OF T] by (intro nth_equalityI) (auto simp: remainders_nth(1) rem le_less)
  from arg_cong [OF this, of "\<lambda>bs. length (filter id bs)"]
  have cnt: "length (filter (\<lambda>x. 0 < tm_remainder x) (remainders_of d T amounts)) =
    length (filter (\<lambda>a. d * a mod T \<noteq> 0) amounts)" by (simp add: filter_map comp_def)
  have "0 \<le> T * (d - (\<Sum>a\<leftarrow>amounts. d * a div T))"
    "T * (d - (\<Sum>a\<leftarrow>amounts. d * a div T)) \<le> T * int (length (filter (\<lambda>a. d * a mod T \<noteq> 0) amounts))"
    using sum_mod_count [OF T, of "\<lambda>a. d * a" amounts] by (simp_all add: eq)
  with T show "0 \<le> d - (\<Sum>a\<leftarrow>amounts. d * a div T)"
    "d - (\<Sum>a\<leftarrow>amounts. d * a div T) \<le> int (length (filter (\<lambda>x. 0 < tm_remainder x) (remainders_of d T amounts)))"
    by (simp_all add: cnt zero_le_mult_iff)
qed

definition capped :: "int \<Rightarrow> int list \<Rightarrow> int" where
  "capped d amounts = min (max 0 d) (sum_list amounts)"

lemma shareable_total: "shareable amounts \<Longrightarrow> 0 \<le> sum_list amounts"
  by (auto simp: shareable_def intro: sum_list_nonneg)

lemma capped_range: "shareable amounts \<Longrightarrow> 0 \<le> capped d amounts \<and> capped d amounts \<le> sum_list amounts"
  using shareable_total by (simp add: capped_def)

lemma length_allocateDiscount [simp]: "length (allocateDiscount amounts d) = length amounts"
  by (simp add: allocateDiscount_def Let_def)

text \<open>The indexes that get one unit more.\<close>

definition topped :: "int \<Rightarrow> int list \<Rightarrow> nat set" where
  "topped d amounts =
     (let T = sum_list amounts
      in tm_index ` set (take (nat (d - (\<Sum>a\<leftarrow>amounts. d * a div T))) (sort_cmp remainder_cmp (remainders_of d T amounts))))"

lemma topped_facts:
  assumes ok: "shareable amounts" "0 \<le> d" "d \<le> sum_list amounts" "0 < sum_list amounts"
  shows "i \<in> topped d amounts \<Longrightarrow> i < length amounts \<and> d * amounts ! i mod sum_list amounts \<noteq> 0"
    and "int (card (topped d amounts)) = d - (\<Sum>a\<leftarrow>amounts. d * a div sum_list amounts)"
    and "distinct (map tm_index (sort_cmp remainder_cmp (remainders_of d (sum_list amounts) amounts)))"
proof -
  let ?T = "sum_list amounts" and ?pos = "\<lambda>x. 0 < tm_remainder x"
  let ?rs = "remainders_of d ?T amounts"
  define n where "n = nat (d - (\<Sum>a\<leftarrow>amounts. d * a div ?T))"
  note count = left_over_count [OF ok]
  have n: "int n = d - (\<Sum>a\<leftarrow>amounts. d * a div ?T)" "n \<le> length (filter ?pos ?rs)"
    using count(3,4) by (simp_all add: n_def nat_le_iff)
  have idx: "map tm_index ?rs = [0..<length amounts]"
    by (rule nth_equalityI) (simp_all add: remainders_nth)
  then show dist: "distinct (map tm_index (sort_cmp remainder_cmp ?rs))"
    by (metis distinct_upt mset_map mset_sort_cmp mset_eq_imp_distinct_iff)
  have up: "topped d amounts = set (take n (map tm_index (sort_cmp remainder_cmp ?rs)))"
    by (simp add: topped_def Let_def n_def take_map)
  have "n \<le> length ?rs" using n(2) length_filter_le order_trans by blast
  then show "int (card (topped d amounts)) = d - (\<Sum>a\<leftarrow>amounts. d * a div ?T)"
    using dist by (simp add: up distinct_card n(1) [symmetric])
  have "front ?pos (sort_cmp remainder_cmp ?rs)"
    by (rule front_sort_cmp) (rule remainder_cmp_front; assumption)+
  moreover have "n \<le> length (filter ?pos (sort_cmp remainder_cmp ?rs))"
    using n(2) by (metis mset_filter mset_sort_cmp size_mset)
  ultimately have pos: "\<And>x. x \<in> set (take n (sort_cmp remainder_cmp ?rs)) \<Longrightarrow> ?pos x"
    by (rule front_take)
  assume "i \<in> topped d amounts"
  then obtain x where x: "x \<in> set (take n (sort_cmp remainder_cmp ?rs))" "tm_index x = i"
    by (auto simp: up take_map)
  then have "x \<in> set ?rs" by (auto dest: in_set_takeD)
  then obtain j where "j < length amounts" "x = ?rs ! j" by (auto simp: in_set_conv_nth remainders_nth)
  with x pos [OF x(1)] count(2) [of j] show "i < length amounts \<and> d * amounts ! i mod ?T \<noteq> 0"
    by (auto simp: remainders_nth)
qed

lemma allocateDiscount_parts:
  assumes "shareable amounts" "capped d amounts \<noteq> 0"
  shows "i < length amounts \<Longrightarrow> allocateDiscount amounts d ! i =
      capped d amounts * amounts ! i div sum_list amounts + (if i \<in> topped (capped d amounts) amounts then 1 else 0)"
proof -
  let ?d = "capped d amounts" and ?T = "sum_list amounts"
  have range: "0 \<le> ?d" "?d \<le> ?T" "0 < ?T" using capped_range [OF assms(1), of d] assms(2) by linarith+
  note count = left_over_count [OF assms(1) range] and top = topped_facts [OF assms(1) range]
  define n where "n = nat (?d - (\<Sum>a\<leftarrow>amounts. ?d * a div ?T))"
  have n: "?d - (\<Sum>a\<leftarrow>amounts. ?d * a div ?T) = int n" using count(3) by (simp add: n_def)
  have "allocateDiscount amounts d =
      hand_out (int n) (sort_cmp remainder_cmp (remainders_of ?d ?T amounts)) (map (\<lambda>a. ?d * a div ?T) amounts)"
    using assms(2) range
    by (simp add: allocateDiscount_def Let_def capped_def [symmetric] count(1) n remainders_of_def [symmetric])
  then show "i < length amounts \<Longrightarrow> allocateDiscount amounts d ! i =
      ?d * amounts ! i div ?T + (if i \<in> topped ?d amounts then 1 else 0)"
    using hand_out_nth [OF top(3), of i "map (\<lambda>a. ?d * a div ?T) amounts" n]
    by (simp add: topped_def Let_def n_def)
qed

lemma allocateDiscount_share:
  assumes ok: "shareable amounts" and i: "i < length amounts"
  shows "0 \<le> allocateDiscount amounts d ! i" "allocateDiscount amounts d ! i \<le> amounts ! i"
    "allocateDiscount amounts d ! i - capped d amounts * amounts ! i div sum_list amounts \<in> {0, 1}"
proof -
  let ?d = "capped d amounts" and ?T = "sum_list amounts"
  have a: "amounts ! i \<in> set amounts" using i by simp
  then have a0: "0 \<le> amounts ! i" using ok by (simp add: shareable_def)
  consider "?d = 0" | "?d \<noteq> 0" by blast
  then have "0 \<le> allocateDiscount amounts d ! i \<and> allocateDiscount amounts d ! i \<le> amounts ! i \<and>
    allocateDiscount amounts d ! i - ?d * amounts ! i div ?T \<in> {0, 1}"
  proof cases
    case 1
    then have "allocateDiscount amounts d = map (\<lambda>_. 0) amounts"
      by (simp add: allocateDiscount_def Let_def capped_def)
    with 1 i a0 show ?thesis by simp
  next
    case 2
    then have range: "0 \<le> ?d" "?d \<le> ?T" "0 < ?T" using capped_range [OF ok, of d] by linarith+
    have "0 \<le> ?d * amounts ! i" using range a0 by simp
    from share_bound [OF range(3) this range(2) a0] topped_facts(1) [OF ok range, of i]
    show ?thesis by (auto simp: allocateDiscount_parts [OF ok 2 i])
  qed
  then show "0 \<le> allocateDiscount amounts d ! i" "allocateDiscount amounts d ! i \<le> amounts ! i"
    "allocateDiscount amounts d ! i - ?d * amounts ! i div ?T \<in> {0, 1}" by blast+
qed

lemma allocateDiscount_sum:
  assumes ok: "shareable amounts"
  shows "sum_list (allocateDiscount amounts d) = capped d amounts"
proof (cases "capped d amounts = 0")
  case True
  then have "allocateDiscount amounts d = map (\<lambda>_. 0) amounts"
    by (simp add: allocateDiscount_def Let_def capped_def)
  with True show ?thesis by simp
next
  case False
  let ?d = "capped d amounts" and ?T = "sum_list amounts"
  have range: "0 \<le> ?d" "?d \<le> ?T" "0 < ?T" using capped_range [OF ok, of d] False by linarith+
  note top = topped_facts [OF ok range]
  have "allocateDiscount amounts d =
      map (\<lambda>i. ?d * amounts ! i div ?T + (if i \<in> topped ?d amounts then 1 else 0)) [0..<length amounts]"
    by (rule nth_equalityI) (simp_all add: allocateDiscount_parts [OF ok False])
  then have "sum_list (allocateDiscount amounts d) =
      (\<Sum>i\<leftarrow>[0..<length amounts]. ?d * amounts ! i div ?T) +
      int (length (filter (\<lambda>i. i \<in> topped ?d amounts) [0..<length amounts]))"
    by (simp only: sum_list_diff_nat)
  moreover have "map (\<lambda>i. ?d * amounts ! i div ?T) [0..<length amounts] = map (\<lambda>a. ?d * a div ?T) amounts"
    by (rule nth_equalityI) simp_all
  moreover have "length (filter (\<lambda>i. i \<in> topped ?d amounts) [0..<length amounts]) = card (topped ?d amounts)"
  proof -
    have "set (filter (\<lambda>i. i \<in> topped ?d amounts) [0..<length amounts]) = topped ?d amounts"
      using top(1) by auto
    then show ?thesis by (metis distinct_card distinct_filter distinct_upt)
  qed
  ultimately show ?thesis using top(2) by simp
qed

text \<open>
  \<open>allocateDiscount\<close> shares a discount exactly: over non-negative amounts (with the square of their total
  below \<open>2 ^ 53\<close>) the shares add up to the discount, capped at the total and not below zero; each share is
  the proportional part of its line rounded down, or one unit more, and never exceeds the line's amount.
\<close>

lemma discount_shared_exactly:
  "shareable amounts \<Longrightarrow>
   sum_list (allocateDiscount amounts d) = capped d amounts \<and>
   length (allocateDiscount amounts d) = length amounts \<and>
   (\<forall>i<length amounts.
      0 \<le> allocateDiscount amounts d ! i \<and> allocateDiscount amounts d ! i \<le> amounts ! i \<and>
      allocateDiscount amounts d ! i - capped d amounts * amounts ! i div sum_list amounts \<in> {0, 1})"
  using allocateDiscount_sum allocateDiscount_share by auto

lemma discount_shared_exactly_witness:
  "sum_list (allocateDiscount [333, 0, 333, 334] 100) = 100 \<and> allocateDiscount [333, 0, 333, 334] 100 = [33, 0, 33, 34]"
proof
  have "shareable [333, 0, 333, 334]" by (simp add: shareable_def safe_limit_def)
  from discount_shared_exactly [OF this, of 100]
  show "sum_list (allocateDiscount [333, 0, 333, 334] 100) = 100" by (simp add: capped_def)
  show "allocateDiscount [333, 0, 333, 334] 100 = [33, 0, 33, 34]" by code_simp
qed

subsection \<open>The tax of a checkout\<close>

definition rate_ok :: "int \<Rightarrow> bool" where
  "rate_ok r = (0 \<le> r \<and> r \<le> MAX_RATE_BASIS_POINTS)"

definition region_ok :: "tax_region \<Rightarrow> bool" where
  "region_ok r =
     (tr_countryCode r \<in> set COUNTRY_CODES \<and> rate_ok (tr_rateBasisPoints r) \<and>
      distinct (map pv_code (tr_provinces r)) \<and>
      (\<forall>p\<in>set (tr_provinces r). isProvinceOf (tr_countryCode r) (pv_code p) \<and> rate_ok (pv_rateBasisPoints p)))"

lemma rateFor_ok: "region_ok r \<Longrightarrow> rate_ok (rateFor p r)"
  by (auto simp: region_ok_def rateFor_def Let_def dest: find_Some_props split: option.splits)

text \<open>The exact tax: \<open>a * r / (1 + r)\<close> when the price includes it, \<open>a * r\<close> when not, half up.\<close>

definition tax_due :: "bool \<Rightarrow> int \<Rightarrow> int \<Rightarrow> int" where
  "tax_due included rate a = half_up (a * rate) (if included then 10000 + rate else 10000)"

definition amount_limit :: int where "amount_limit = 400000000000"

lemma taxOf_exact:
  assumes "rate_ok r" "0 \<le> a" "a \<le> amount_limit"
  shows "taxOf included r a = tax_due included r a" "0 \<le> tax_due included r a" "tax_due included r a \<le> a"
proof -
  have r: "0 \<le> r" "r \<le> 10000" using assms(1) by (simp_all add: rate_ok_def MAX_RATE_BASIS_POINTS_def)
  have "a * r \<le> amount_limit * 10000" using assms r by (intro mult_mono) (auto simp: amount_limit_def)
  then have lim: "2 * (a * r) + 2 * (10000 + r) < safe_limit" using r by (simp add: amount_limit_def safe_limit_def)
  then show "taxOf included r a = tax_due included r a"
    using assms r by (simp add: taxOf_def tax_due_def roundedShare_exact)
  show "0 \<le> tax_due included r a" "tax_due included r a \<le> a"
    using assms r by (simp_all add: tax_due_def half_up_bounds)
qed

lemma tax_due_zero [simp]: "tax_due included r 0 = 0"
  by (simp add: tax_due_def half_up_def)

definition line_amounts :: "taxable_line list \<Rightarrow> int list" where
  "line_amounts lines = map (\<lambda>l. tl_unitPriceMinor l * tl_quantity l) lines"

text \<open>What is left of each line after its share of the order discount; of the shipping price after its own.\<close>

definition net_amounts :: "taxable_line list \<Rightarrow> int option \<Rightarrow> int list" where
  "net_amounts lines orderMinor =
     map2 (-) (line_amounts lines)
       (allocateDiscount (line_amounts lines) (case orderMinor of Some d \<Rightarrow> d | None \<Rightarrow> 0))"

definition net_shipping :: "tax_settings \<Rightarrow> int \<Rightarrow> int option \<Rightarrow> int" where
  "net_shipping t shippingMinor shippingDiscount =
     (if ts_taxesShipping t
      then max 0 (shippingMinor - max 0 (case shippingDiscount of Some d \<Rightarrow> d | None \<Rightarrow> 0)) else 0)"

definition taxable_sum :: "(int \<Rightarrow> int) \<Rightarrow> taxable_line list \<Rightarrow> int option \<Rightarrow> int" where
  "taxable_sum f lines orderMinor =
     (\<Sum>(l, n)\<leftarrow>zip lines (net_amounts lines orderMinor). if tl_taxable l then f n else 0)"

lemma net_amount_range:
  assumes "shareable (line_amounts lines)" "n \<in> set (net_amounts lines od)"
  shows "0 \<le> n" "n \<le> amount_limit"
proof -
  let ?as = "line_amounts lines"
  obtain i where i: "i < length ?as" "n = ?as ! i - allocateDiscount ?as (case od of Some d \<Rightarrow> d | None \<Rightarrow> 0) ! i"
    using assms(2) by (auto simp: net_amounts_def in_set_conv_nth)
  show "0 \<le> n" using allocateDiscount_share(2) [OF assms(1) i(1)] i(2) by simp
  have "?as ! i \<in> set ?as" using i(1) by simp
  then have "0 \<le> ?as ! i" "?as ! i \<le> sum_list ?as"
    using shareable_product [OF assms(1), of 0] shareable_total [OF assms(1)] by simp_all
  moreover have "sum_list ?as \<le> amount_limit"
  proof (rule ccontr)
    assume "\<not> sum_list ?as \<le> amount_limit"
    then have "amount_limit * amount_limit \<le> sum_list ?as * sum_list ?as"
      by (intro mult_mono) (auto simp: amount_limit_def)
    with assms(1) show False by (simp add: shareable_def amount_limit_def safe_limit_def)
  qed
  ultimately show "n \<le> amount_limit"
    using allocateDiscount_share(1) [OF assms(1) i(1), of "case od of Some d \<Rightarrow> d | None \<Rightarrow> 0"] i(2) by linarith
qed

lemma foldl_taxable:
  fixes f :: "int \<Rightarrow> int"
  shows "foldl (\<lambda>tax (l, a, s). if tl_taxable l then tax + f (a - s) else tax) x (zip ls (zip as ss)) =
     x + (\<Sum>(l, n)\<leftarrow>zip ls (map2 (-) as ss). if tl_taxable l then f n else 0)"
proof (induction ls arbitrary: x as ss)
  case (Cons l ls)
  then show ?case by (cases as; cases ss) auto
qed simp

lemma taxable_sum_mono:
  assumes "\<And>n. n \<in> set (net_amounts lines od) \<Longrightarrow> f n \<le> g n"
  shows "taxable_sum f lines od \<le> taxable_sum g lines od"
  unfolding taxable_sum_def
proof (rule sum_list_mono)
  fix x assume "x \<in> set (zip lines (net_amounts lines od))"
  then have "snd x \<in> set (net_amounts lines od)" by (metis prod.collapse set_zip_rightD)
  with assms show "(case x of (l, n) \<Rightarrow> if tl_taxable l then f n else 0) \<le>
      (case x of (l, n) \<Rightarrow> if tl_taxable l then g n else 0)"
    by (cases x) simp
qed

lemma taxable_sum_cong:
  "(\<And>n. n \<in> set (net_amounts lines od) \<Longrightarrow> f n = g n) \<Longrightarrow> taxable_sum f lines od = taxable_sum g lines od"
  by (intro antisym taxable_sum_mono) simp_all

lemma calculateTax_region:
  assumes "regionFor (td_country dest) t = Some region" "region_ok region"
    and "shareable (line_amounts lines)" "shipping \<le> amount_limit"
  shows "calculateTax t lines dest shipping od sd =
    \<lparr>tx_taxMinor = taxable_sum (tax_due (ts_includesTax t) (rateFor (td_province dest) region)) lines od +
       tax_due (ts_includesTax t) (rateFor (td_province dest) region) (net_shipping t shipping sd),
     tx_included = ts_includesTax t\<rparr>"
proof -
  let ?r = "rateFor (td_province dest) region" and ?i = "ts_includesTax t"
  have r: "rate_ok ?r" by (rule rateFor_ok [OF assms(2)])
  have lines: "taxable_sum (taxOf ?i ?r) lines od = taxable_sum (tax_due ?i ?r) lines od"
    using net_amount_range [OF assms(3)] by (intro taxable_sum_cong taxOf_exact(1) [OF r])
  have "max 0 (shipping - max 0 d) \<le> amount_limit" for d
    using assms(4) by (simp add: amount_limit_def)
  then have ship: "taxOf ?i ?r (max 0 (shipping - max 0 d)) = tax_due ?i ?r (max 0 (shipping - max 0 d))" for d
    by (intro taxOf_exact(1) [OF r]) simp_all
  show ?thesis
    using assms(1) lines ship
    by (simp add: calculateTax_def Let_def foldl_taxable net_shipping_def
        taxable_sum_def net_amounts_def line_amounts_def max_def)
qed

text \<open>
  The tax of a checkout is exact: for a destination with a well-formed region, lines whose amounts can be
  shared and a shipping price up to \<open>amount_limit\<close> (4 * 10^11 minor units), \<open>calculateTax\<close> answers the sum of
  the half-up taxes at the destination's rate on what the discounts leave of the taxable lines and, when the
  shop taxes shipping, of the shipping price; it is never negative and never more than those amounts.
\<close>

theorem tax_exact:
  "regionFor (td_country dest) t = Some region \<Longrightarrow> region_ok region \<Longrightarrow>
   shareable (line_amounts lines) \<Longrightarrow> shipping \<le> amount_limit \<Longrightarrow>
   calculateTax t lines dest shipping od sd =
     \<lparr>tx_taxMinor = taxable_sum (tax_due (ts_includesTax t) (rateFor (td_province dest) region)) lines od +
        tax_due (ts_includesTax t) (rateFor (td_province dest) region) (net_shipping t shipping sd),
      tx_included = ts_includesTax t\<rparr> \<and>
   0 \<le> tx_taxMinor (calculateTax t lines dest shipping od sd) \<and>
   tx_taxMinor (calculateTax t lines dest shipping od sd) \<le>
     taxable_sum (\<lambda>n. n) lines od + net_shipping t shipping sd"
proof -
  assume a: "regionFor (td_country dest) t = Some region" "region_ok region"
    "shareable (line_amounts lines)" "shipping \<le> amount_limit"
  let ?r = "rateFor (td_province dest) region" and ?i = "ts_includesTax t"
  have r: "rate_ok ?r" by (rule rateFor_ok [OF a(2)])
  have ship: "0 \<le> net_shipping t shipping sd" "net_shipping t shipping sd \<le> amount_limit"
    using a(4) by (auto simp: net_shipping_def amount_limit_def)
  have zero: "taxable_sum (\<lambda>n. 0) lines od = 0"
    by (simp add: taxable_sum_def case_prod_beta')
  have "taxable_sum (\<lambda>n. 0) lines od \<le> taxable_sum (tax_due ?i ?r) lines od"
    "taxable_sum (tax_due ?i ?r) lines od \<le> taxable_sum (\<lambda>n. n) lines od"
    using taxOf_exact(2,3) [OF r] net_amount_range [OF a(3)] by (auto intro!: taxable_sum_mono)
  with zero taxOf_exact(2,3) [OF r ship, of ?i] show ?thesis
    by (simp add: calculateTax_region [OF a] add_mono del: add_le_cancel_left add_le_cancel_right)
qed

lemma tax_exact_witness:
  "tx_taxMinor (calculateTax
     \<lparr>ts_includesTax = True, ts_taxesShipping = True, ts_taxRegions =
        [\<lparr>tr_id = ''r'', tr_countryCode = ''EG'', tr_rateBasisPoints = 1400,
           tr_provinces = [\<lparr>pv_code = ''EG-C'', pv_rateBasisPoints = 1000\<rparr>]\<rparr>]\<rparr>
     [\<lparr>tl_unitPriceMinor = 5000, tl_quantity = 2, tl_taxable = True\<rparr>,
      \<lparr>tl_unitPriceMinor = 3000, tl_quantity = 1, tl_taxable = False\<rparr>]
     \<lparr>td_country = ''EG'', td_province = Some ''EG-C''\<rparr> 1500 (Some 1300) (Some 400)) = 918"
proof -
  define region where "region = \<lparr>tr_id = ''r'', tr_countryCode = ''EG'', tr_rateBasisPoints = 1400,
    tr_provinces = [\<lparr>pv_code = ''EG-C'', pv_rateBasisPoints = 1000\<rparr>]\<rparr>"
  define t where "t = \<lparr>ts_includesTax = True, ts_taxesShipping = True, ts_taxRegions = [region]\<rparr>"
  define lines where "lines = [\<lparr>tl_unitPriceMinor = 5000, tl_quantity = 2, tl_taxable = True\<rparr>,
    \<lparr>tl_unitPriceMinor = 3000, tl_quantity = 1, tl_taxable = False\<rparr>]"
  define dest where "dest = \<lparr>td_country = ''EG'', td_province = Some ''EG-C''\<rparr>"
  have find: "regionFor (td_country dest) t = Some region"
    by (simp add: regionFor_def t_def region_def dest_def)
  have region: "region_ok region"
    by (simp add: region_ok_def region_def rate_ok_def MAX_RATE_BASIS_POINTS_def COUNTRY_CODES_def isProvinceOf_def
        PROVINCES_def provinces_EG_def)
  have amounts: "shareable (line_amounts lines)" "1500 \<le> amount_limit"
    by (simp_all add: shareable_def line_amounts_def lines_def safe_limit_def amount_limit_def)
  have rate: "rateFor (td_province dest) region = 1000" by (simp add: rateFor_def region_def dest_def)
  have nets: "net_amounts lines (Some 1300) = [9000, 2700]" unfolding lines_def by code_simp
  have sum: "taxable_sum f lines (Some 1300) = f 9000" for f
    unfolding taxable_sum_def nets by (simp add: lines_def)
  have flags: "ts_includesTax t" "net_shipping t 1500 (Some 400) = 1100"
    by (simp_all add: t_def net_shipping_def)
  have "tx_taxMinor (calculateTax t lines dest 1500 (Some 1300) (Some 400)) = 918"
    using tax_exact [OF find region amounts, of "Some 1300" "Some 400"]
    by (simp add: rate sum flags tax_due_def half_up_def)
  then show ?thesis by (simp add: t_def lines_def dest_def region_def)
qed

text \<open>
  C38: tax taken out of a price and tax put on top of it agree: for a rate up to 100% and a price up to
  \<open>amount_limit\<close>, take the tax that a tax-inclusive price contains out of it, and the tax that the shop would add
  to the remainder is the same to within one minor unit.
\<close>

theorem tax_inside_matches_added:
  "rate_ok r \<Longrightarrow> 0 \<le> a \<Longrightarrow> a \<le> amount_limit \<Longrightarrow>
   \<bar>taxOf False r (a - taxOf True r a) - taxOf True r a\<bar> \<le> 1"
proof -
  assume as: "rate_ok r" "0 \<le> a" "a \<le> amount_limit"
  note inside = taxOf_exact [OF as, of True]
  define x where "x = tax_due True r a"
  have net: "0 \<le> a - x" "a - x \<le> amount_limit" using inside(2,3) as(3) by (simp_all add: x_def)
  define y where "y = tax_due False r (a - x)"
  have r: "0 \<le> r" "r \<le> 10000" using as(1) by (simp_all add: rate_ok_def MAX_RATE_BASIS_POINTS_def)
  have "2 * (a * r) - (10000 + r) < 2 * (10000 + r) * x" "2 * (10000 + r) * x \<le> 2 * (a * r) + (10000 + r)"
    using half_up_error [of "10000 + r" "a * r"] r by (simp_all add: x_def tax_due_def)
  moreover have "2 * ((a - x) * r) - 10000 < 20000 * y" "20000 * y \<le> 2 * ((a - x) * r) + 10000"
    using half_up_error [of 10000 "(a - x) * r"] by (simp_all add: y_def tax_due_def)
  ultimately have "20000 * (y - x) \<le> 30000" "- 30000 \<le> 20000 * (y - x)"
    using r by (simp_all add: algebra_simps)
  then have "20000 * (y - x) < 20000 * 2" "20000 * - 2 < 20000 * (y - x)" by linarith+
  then have "y - x < 2" "- 2 < y - x" by (simp_all only: mult_less_cancel_left_pos zero_less_numeral)
  then have "\<bar>y - x\<bar> \<le> 1" by simp
  moreover have "taxOf False r (a - taxOf True r a) = y" "taxOf True r a = x"
    using inside(1) taxOf_exact(1) [OF as(1) net, of False] by (simp_all add: x_def y_def)
  ultimately show ?thesis by simp
qed

lemma tax_inside_matches_added_witness:
  "\<bar>taxOf False 1400 (9999 - taxOf True 1400 9999) - taxOf True 1400 9999\<bar> \<le> 1 \<and> taxOf True 1400 9999 = 1228"
proof
  have "rate_ok 1400" by (simp add: rate_ok_def MAX_RATE_BASIS_POINTS_def)
  from tax_inside_matches_added [OF this, of 9999]
  show "\<bar>taxOf False 1400 (9999 - taxOf True 1400 9999) - taxOf True 1400 9999\<bar> \<le> 1" by (simp add: amount_limit_def)
  show "taxOf True 1400 9999 = 1228" by code_simp
qed

subsection \<open>The settings of a shop\<close>

text \<open>\<open>settings_ok\<close>: one region per country of the list, each with valid rates for its own provinces.\<close>

definition settings_ok :: "tax_settings \<Rightarrow> bool" where
  "settings_ok t =
     (distinct (map tr_countryCode (ts_taxRegions t)) \<and>
      (\<forall>r\<in>set (ts_taxRegions t). region_ok r \<and> \<not> blank (tr_id r)))"

definition taxes_ok :: "tax_store \<Rightarrow> bool" where
  "taxes_ok s = (\<forall>tenant t. tax_get tenant s = Some t \<longrightarrow> settings_ok t)"

datatype tax_request =
  ReqGetTax string | ReqFlags string bool bool | ReqUpsertRegion string string region_input
| ReqDeleteRegion string string | ReqStoreTax store_tax_input

fun tax_handle :: "(string \<Rightarrow> string \<Rightarrow> int) \<Rightarrow> tax_request \<Rightarrow> (tax_store, unit) use_case" where
  "tax_handle loc (ReqGetTax tenant) = drop_answer (GetTaxSettings tenant)"
| "tax_handle loc (ReqFlags tenant a b) = drop_answer (UpdateTaxSettings tenant a b)"
| "tax_handle loc (ReqUpsertRegion gen tenant input) = drop_answer (UpsertTaxRegion loc gen tenant input)"
| "tax_handle loc (ReqDeleteRegion tenant country) = drop_answer (DeleteTaxRegion tenant country)"
| "tax_handle loc (ReqStoreTax input) = drop_answer (CalculateStoreTax input)"

lemma validRate_iff: "validRate v \<longleftrightarrow> (\<exists>n. v = jint n \<and> rate_ok n)"
  by (auto simp: validRate_def isInteger_iff rate_ok_def MAX_RATE_BASIS_POINTS_def not_less)

lemma validRate_value: "validRate v \<Longrightarrow> rate_ok (js_to_int v)"
  by (auto simp: validRate_iff)

lemma province_issues_none:
  "province_issues country seen ps = [] \<Longrightarrow>
     distinct (map pv_code ps) \<and> set (map pv_code ps) \<inter> set seen = {} \<and> (\<forall>p\<in>set ps. validRate (pv_rateBasisPoints p))"
  by (induction country seen ps rule: province_issues.induct) (auto split: if_splits)

lemma create_region:
  assumes "TaxRegion_create loc rid input = Inr r"
  shows "tr_id r = rid" "tr_countryCode r = ri_countryCode input" "validRate (ri_rateBasisPoints input)"
    "tr_rateBasisPoints r = js_to_int (ri_rateBasisPoints input)" "distinct (map pv_code (ri_provinces input))"
    "\<forall>p\<in>set (ri_provinces input). validRate (pv_rateBasisPoints p)"
    "tr_provinces r = sort_cmp (\<lambda>a b. loc (pv_code a) (pv_code b))
       (map (\<lambda>p. \<lparr>pv_code = pv_code p, pv_rateBasisPoints = js_to_int (pv_rateBasisPoints p)\<rparr>) (ri_provinces input))"
  using assms province_issues_none [of "ri_countryCode input" "[]" "ri_provinces input"]
  by (auto simp: TaxRegion_create_def region_issues_def Let_def split: if_splits)

lemma no_issues: "concat (map (\<lambda>p. if Q p then [] else [g p]) ps) = [] \<longleftrightarrow> (\<forall>p\<in>set ps. Q p)"
  by (induction ps) auto

lemma known_region:
  assumes "known_region_issues input = []"
  shows "ri_countryCode input \<in> set COUNTRY_CODES"
    "p \<in> set (ri_provinces input) \<Longrightarrow> isProvinceOf (ri_countryCode input) (pv_code p)"
proof -
  show country: "ri_countryCode input \<in> set COUNTRY_CODES"
    using assms by (auto simp: known_region_issues_def split: if_splits)
  let ?known = "case map_of PROVINCES (ri_countryCode input) of Some ps \<Rightarrow> ps | None \<Rightarrow> []"
  have "\<forall>p\<in>set (ri_provinces input). pv_code p \<in> set ?known"
    using assms country by (simp only: known_region_issues_def Let_def if_False not_True_eq_False no_issues)
  then show "p \<in> set (ri_provinces input) \<Longrightarrow> isProvinceOf (ri_countryCode input) (pv_code p)"
    by (cases "map_of PROVINCES (ri_countryCode input)") (simp_all add: isProvinceOf_def list_ex_iff)
qed

lemma create_region_ok:
  assumes "TaxRegion_create loc rid input = Inr r" "known_region_issues input = []"
  shows "region_ok r"
proof -
  note c = create_region [OF assms(1)] and k = known_region [OF assms(2)]
  have "distinct (map pv_code (tr_provinces r))"
    using c(5) mset_eq_imp_distinct_iff [of "map pv_code (tr_provinces r)" "map pv_code (ri_provinces input)"]
    by (simp add: c(7) mset_map image_mset.compositionality comp_def)
  with c k show ?thesis by (auto simp: region_ok_def validRate_value)
qed

lemma map_replaced:
  "(\<And>x. P x \<Longrightarrow> f x = f y) \<Longrightarrow> map f (update_first P (\<lambda>_. y) xs) = map f xs"
  by (induction xs) auto

lemma distinct_removed: "distinct (map f xs) \<Longrightarrow> distinct (map f (remove_first P xs))"
  by (induction xs) (use set_remove_first in fastforce)+

lemma set_replaced: "set (update_first P (\<lambda>_. y) xs) \<subseteq> insert y (set xs)"
  by (induction xs) auto

lemma upsert_ok:
  assumes "settings_ok t" "known_region_issues input = []" "\<not> blank rid"
  shows "settings_ok (snd (upsertRegion loc rid input t))"
proof (cases "List.find (\<lambda>r. tr_countryCode r = ri_countryCode input) (ts_taxRegions t)")
  case None
  then have "ri_countryCode input \<notin> tr_countryCode ` set (ts_taxRegions t)" by (auto simp: find_None_iff_all)
  with None assms create_region(1,2) [of loc rid input] create_region_ok [of loc rid input] show ?thesis
    by (auto simp: upsertRegion_def settings_ok_def split: sum.splits)
next
  case (Some current)
  show ?thesis
  proof (cases "TaxRegion_create loc (tr_id current) input")
    case (Inr r)
    have new: "region_ok r \<and> \<not> blank (tr_id r)"
      using create_region_ok [OF Inr assms(2)] create_region(1) [OF Inr] find_Some_props [OF Some] assms(1)
      by (simp add: settings_ok_def)
    let ?P = "\<lambda>x. tr_countryCode x = ri_countryCode input"
    have "map tr_countryCode (update_first ?P (\<lambda>_. r) (ts_taxRegions t)) = map tr_countryCode (ts_taxRegions t)"
      by (rule map_replaced) (simp add: create_region(2) [OF Inr])
    with Some Inr assms(1) new set_replaced [of ?P r "ts_taxRegions t"] show ?thesis
      by (auto simp: upsertRegion_def settings_ok_def)
  qed (use Some assms in \<open>simp add: upsertRegion_def\<close>)
qed

lemma remove_ok: "settings_ok t \<Longrightarrow> settings_ok (snd (removeRegion country t))"
  using set_remove_first [of "\<lambda>r. tr_countryCode r = country" "ts_taxRegions t"]
  by (auto simp: removeRegion_def then_do_apply settings_ok_def distinct_removed)

lemma flags_ok: "settings_ok t \<Longrightarrow> settings_ok (snd (setFlags a b t))"
  by (simp add: setFlags_def settings_ok_def)

lemma load_ok: "taxes_ok s \<Longrightarrow> settings_ok (tax_load tenant s)"
  by (auto simp: tax_load_def taxes_ok_def TaxSettings_defaults_def settings_ok_def split: option.splits)

lemma save_ok: "taxes_ok s \<Longrightarrow> settings_ok t \<Longrightarrow> taxes_ok (tax_save tenant t s)"
  by (simp add: taxes_ok_def tax_get_def tax_save_def update_conv')

lemma keeps_change_tax [keeps_intros]:
  assumes "settings_ok (tax_load tenant s) \<Longrightarrow> settings_ok (snd (change (tax_load tenant s)))"
  shows "keeps taxes_ok (change_tax tenant change) s"
  using assms load_ok [of s tenant] save_ok [of s "snd (change (tax_load tenant s))" tenant]
  by (auto simp: keeps_def change_tax_def split: prod.splits sum.splits)

lemma keeps_tax_handle: "keeps taxes_ok (tax_handle loc q) s"
proof (cases q)
  case (ReqUpsertRegion gen tenant input)
  then show ?thesis
    by (auto simp: UpsertTaxRegion_def Let_def UniqueEntityId_from_Inr_iff intro!: keeps_intros upsert_ok)
next
  case (ReqStoreTax input)
  then show ?thesis by (auto simp: keeps_def CalculateStoreTax_def split: option.splits)
qed (auto simp: GetTaxSettings_def UpdateTaxSettings_def DeleteTaxRegion_def keeps_def [of _ "GetTaxSettings _"]
    intro!: keeps_intros flags_ok remove_ok)

interpretation tax_requests: invariant_object taxes_ok "\<lambda>_. True" "tax_handle loc" for loc
  by unfold_locales (rule keepsD [OF keeps_tax_handle])

subsection \<open>A saved region applies\<close>

text \<open>The rate an input gives a province: its own, or the country's.\<close>

definition input_rate :: "region_input \<Rightarrow> string option \<Rightarrow> int" where
  "input_rate input province =
     (case (case province of None \<Rightarrow> None | Some c \<Rightarrow> List.find (\<lambda>p. pv_code p = c) (ri_provinces input)) of
        Some p \<Rightarrow> js_to_int (pv_rateBasisPoints p) | None \<Rightarrow> js_to_int (ri_rateBasisPoints input))"

lemma find_unique:
  assumes "distinct (map f xs)" "x \<in> set xs" "f x = c"
  shows "List.find (\<lambda>y. f y = c) xs = Some x"
  using assms by (induction xs) force+

lemma create_rateFor:
  assumes "TaxRegion_create loc rid input = Inr r"
  shows "rateFor province r = input_rate input province"
proof (cases province)
  case (Some c)
  note c = create_region [OF assms]
  let ?ps = "ri_provinces input" and ?whole = "\<lambda>p. \<lparr>pv_code = pv_code p, pv_rateBasisPoints = js_to_int (pv_rateBasisPoints p)\<rparr>"
  have codes: "set (tr_provinces r) = ?whole ` set ?ps" by (simp add: c(7))
  have "distinct (map pv_code (tr_provinces r))"
    using c(5) mset_eq_imp_distinct_iff [of "map pv_code (tr_provinces r)" "map pv_code ?ps"]
    by (simp add: c(7) mset_map image_mset.compositionality comp_def)
  note unique = find_unique [OF this] find_unique [OF c(5)]
  show ?thesis
  proof (cases "\<exists>p\<in>set ?ps. pv_code p = c")
    case True
    then obtain p where p: "p \<in> set ?ps" "pv_code p = c" by blast
    then have "?whole p \<in> set (tr_provinces r)" unfolding codes by blast
    from unique(1) [OF this] unique(2) [OF p] p(2) show ?thesis
      by (simp add: Some rateFor_def input_rate_def)
  next
    case False
    then have "List.find (\<lambda>p. pv_code p = c) ?ps = None" "List.find (\<lambda>p. pv_code p = c) (tr_provinces r) = None"
      by (auto simp: find_None_iff_all codes)
    then show ?thesis by (simp add: Some rateFor_def input_rate_def c(4))
  qed
qed (simp add: rateFor_def input_rate_def create_region(4) [OF assms])

lemma find_replaced:
  assumes "P y"
  shows "List.find P (update_first P (\<lambda>_. y) xs) = (if List.find P xs = None then None else Some y)"
  using assms by (induction xs) auto

lemma find_replaced_other:
  assumes "\<And>x. P x \<Longrightarrow> \<not> Q x" "\<not> Q y"
  shows "List.find Q (update_first P (\<lambda>_. y) xs) = List.find Q xs"
  using assms by (induction xs) auto

lemma find_removed_other:
  "(\<And>x. P x \<Longrightarrow> \<not> Q x) \<Longrightarrow> List.find Q (remove_first P xs) = List.find Q xs"
  by (induction xs) auto

lemma upsert_then_find:
  assumes "upsertRegion loc rid input t = (Inr (), t')"
  shows "\<exists>i r. TaxRegion_create loc i input = Inr r \<and> regionFor (ri_countryCode input) t' = Some r"
proof (cases "List.find (\<lambda>r. tr_countryCode r = ri_countryCode input) (ts_taxRegions t)")
  case None
  with assms obtain r where r: "TaxRegion_create loc rid input = Inr r" "t' = t\<lparr>ts_taxRegions := ts_taxRegions t @ [r]\<rparr>"
    by (auto simp: upsertRegion_def split: sum.splits)
  with None create_region(2) [OF r(1)] show ?thesis by (auto simp: regionFor_def find_append)
next
  case (Some current)
  with assms obtain r where r: "TaxRegion_create loc (tr_id current) input = Inr r"
    "t' = t\<lparr>ts_taxRegions := update_first (\<lambda>r. tr_countryCode r = ri_countryCode input) (\<lambda>_. r) (ts_taxRegions t)\<rparr>"
    by (auto simp: upsertRegion_def split: sum.splits)
  with Some create_region(2) [OF r(1)] show ?thesis
    by (auto simp: regionFor_def find_replaced)
qed

text \<open>The requests that leave the region of one country of one shop alone.\<close>

fun leaves_region :: "string \<Rightarrow> string \<Rightarrow> tax_request \<Rightarrow> bool" where
  "leaves_region tenant country (ReqUpsertRegion gen u input) = ((u, ri_countryCode input) \<noteq> (tenant, country))"
| "leaves_region tenant country (ReqDeleteRegion u c) = ((u, c) \<noteq> (tenant, country))"
| "leaves_region tenant country q = True"

definition has_region :: "string \<Rightarrow> string \<Rightarrow> tax_region \<Rightarrow> tax_store \<Rightarrow> bool" where
  "has_region tenant country r s = (regionFor country (tax_load tenant s) = Some r)"

lemma tax_load_save: "tax_load u (tax_save tenant t s) = (if u = tenant then t else tax_load u s)"
  by (simp add: tax_load_def tax_get_def tax_save_def update_conv')

lemma keeps_region_change [keeps_intros]:
  assumes "regionFor country (snd (change (tax_load u s))) = regionFor country (tax_load u s) \<or> u \<noteq> tenant"
  shows "keeps (has_region tenant country r) (change_tax u change) s"
  using assms
  by (auto simp: keeps_def has_region_def change_tax_def tax_load_save split: prod.splits sum.splits)

lemma upsert_other:
  assumes "ri_countryCode input \<noteq> country"
  shows "regionFor country (snd (upsertRegion loc rid input t)) = regionFor country t"
proof (cases "List.find (\<lambda>r. tr_countryCode r = ri_countryCode input) (ts_taxRegions t)")
  case None
  with assms show ?thesis
    by (auto simp: upsertRegion_def regionFor_def find_append create_region(2) split: sum.splits option.splits)
next
  case (Some current)
  show ?thesis
  proof (cases "TaxRegion_create loc (tr_id current) input")
    case (Inr r)
    have "List.find (\<lambda>r. tr_countryCode r = country)
        (update_first (\<lambda>r. tr_countryCode r = ri_countryCode input) (\<lambda>_. r) (ts_taxRegions t)) =
      List.find (\<lambda>r. tr_countryCode r = country) (ts_taxRegions t)"
      using assms by (intro find_replaced_other) (auto simp: create_region(2) [OF Inr])
    with Some Inr show ?thesis by (simp add: upsertRegion_def regionFor_def)
  qed (use Some in \<open>simp add: upsertRegion_def\<close>)
qed

lemma remove_other:
  assumes "c \<noteq> country"
  shows "regionFor country (snd (removeRegion c t)) = regionFor country t"
proof -
  have "List.find (\<lambda>r. tr_countryCode r = country) (remove_first (\<lambda>r. tr_countryCode r = c) (ts_taxRegions t)) =
      List.find (\<lambda>r. tr_countryCode r = country) (ts_taxRegions t)"
    using assms by (intro find_removed_other) simp
  then show ?thesis by (simp add: removeRegion_def then_do_apply regionFor_def)
qed

lemma keeps_has_region:
  assumes "leaves_region tenant country q"
  shows "keeps (has_region tenant country r) (tax_handle loc q) s"
proof (cases q)
  case (ReqUpsertRegion gen u input)
  with assms upsert_other [of input country] show ?thesis
    by (auto simp: UpsertTaxRegion_def Let_def intro!: keeps_intros)
next
  case (ReqDeleteRegion u c)
  with assms remove_other [of c country] show ?thesis
    by (auto simp: DeleteTaxRegion_def intro!: keeps_intros)
next
  case (ReqFlags u a b)
  then show ?thesis
    by (auto simp: UpdateTaxSettings_def setFlags_def regionFor_def intro!: keeps_intros)
next
  case (ReqStoreTax input)
  then show ?thesis by (auto simp: keeps_def CalculateStoreTax_def split: option.splits)
qed (simp add: keeps_def GetTaxSettings_def)

interpretation kept_region: invariant_object "has_region tenant country r" "leaves_region tenant country" "tax_handle loc"
  for tenant country r loc
  by unfold_locales (rule keepsD [OF keeps_has_region])

lemma upsert_answered:
  assumes "UpsertTaxRegion loc gen tenant input s = (Inr (Inr view), s')"
  shows "\<exists>r. has_region tenant (ri_countryCode input) r s' \<and> region_ok r \<and> (\<forall>p. rateFor p r = input_rate input p)"
proof -
  have known: "known_region_issues input = []"
    using assms by (auto simp: UpsertTaxRegion_def Let_def return_err_def split: if_splits)
  with assms have "change_tax tenant (upsertRegion loc gen input) s = (Inr (Inr view), s')"
    by (auto simp: UpsertTaxRegion_def returns_iff UniqueEntityId_from_Inr_iff)
  then obtain t where t: "upsertRegion loc gen input (tax_load tenant s) = (Inr (), t)" "s' = tax_save tenant t s"
    by (auto simp: change_tax_def return_err_def return_ok_def split: prod.splits sum.splits)
  obtain i r where r: "TaxRegion_create loc i input = Inr r" "regionFor (ri_countryCode input) t = Some r"
    using upsert_then_find [OF t(1)] by blast
  have "has_region tenant (ri_countryCode input) r s'" by (simp add: has_region_def tax_load_save t(2) r(2))
  with create_region_ok [OF r(1) known] create_rateFor [OF r(1)] show ?thesis by blast
qed

lemma country_not_blank: "c \<in> set COUNTRY_CODES \<Longrightarrow> \<not> blank c"
proof -
  have "list_all (\<lambda>c. \<not> blank c) COUNTRY_CODES" by code_simp
  then show "c \<in> set COUNTRY_CODES \<Longrightarrow> \<not> blank c" by (simp add: list_all_iff)
qed

text \<open>
  C39: whatever requests the tax use cases serve, and whatever order \<open>localeCompare\<close> gives: every shop's settings
  hold at most one region per country, the country is one of the ISO list, every rate is a whole number from 0
  to 10000, and the provinces of a region are distinct provinces of its country.
\<close>

theorem tax_settings_valid: "taxes_ok (runs (tax_handle loc) requests [])"
  by (rule tax_requests.runs_inv) (simp_all add: taxes_ok_def tax_get_def list_all_iff)

text \<open>
  C40: a saved region applies: once \<open>UpsertTaxRegion\<close> has answered with success, and until that region is saved
  again or deleted, whatever else is requested of the service, \<open>CalculateStoreTax\<close> for a destination in that
  country answers the exact tax at the rate the request gave the province, or else the country.
\<close>

theorem saved_region_applies:
  assumes "UpsertTaxRegion loc gen tenant input s = (Inr (Inr view), s')"
    and "list_all (leaves_region tenant (ri_countryCode input)) requests"
    and "shareable (line_amounts lines)" "0 \<le> shipping" "shipping \<le> amount_limit" "0 \<le> od" "0 \<le> sd"
  shows "let now = runs (tax_handle loc) requests s'; t = tax_load tenant now; rate = input_rate input province in
    CalculateStoreTax
      \<lparr>si_tenantId = tenant, si_lines = lines,
       si_destination = \<lparr>td_country = ri_countryCode input, td_province = province\<rparr>,
       si_shippingMinor = jint shipping, si_orderDiscountMinor = Some (jint od),
       si_shippingDiscountMinor = Some (jint sd)\<rparr> now =
    (Inr (Inr \<lparr>tx_taxMinor = taxable_sum (tax_due (ts_includesTax t) rate) lines (Some od) +
         tax_due (ts_includesTax t) rate (net_shipping t shipping (Some sd)),
       tx_included = ts_includesTax t\<rparr>), now)"
proof -
  let ?now = "runs (tax_handle loc) requests s'" and ?c = "ri_countryCode input"
  obtain r where r: "has_region tenant ?c r s'" "region_ok r" "\<forall>p. rateFor p r = input_rate input p"
    using upsert_answered [OF assms(1)] by blast
  have "has_region tenant ?c r ?now" by (rule kept_region.runs_inv [OF r(1) assms(2)])
  then have find: "regionFor (td_country \<lparr>td_country = ?c, td_province = province\<rparr>) (tax_load tenant ?now) = Some r"
    by (simp add: has_region_def)
  then have "tr_countryCode r = ?c" by (auto simp: regionFor_def dest: find_Some_props)
  then have "\<not> blank ?c" using r(2) country_not_blank by (auto simp: region_ok_def)
  then show ?thesis
    using calculateTax_region [OF find r(2) assms(3,5), of "Some od" "Some sd"] r(3) assms(4,6,7)
    by (simp add: CalculateStoreTax_def Let_def whole_amount_def bad_discount_def)
qed

definition demo_region :: region_input where
  "demo_region = \<lparr>ri_countryCode = ''EG'', ri_rateBasisPoints = jint 1400,
     ri_provinces = [\<lparr>pv_code = ''EG-GZ'', pv_rateBasisPoints = jint 500\<rparr>, \<lparr>pv_code = ''EG-C'', pv_rateBasisPoints = jint 1000\<rparr>]\<rparr>"

lemma saved_region_applies_witness:
  "fst (CalculateStoreTax
     \<lparr>si_tenantId = ''a'', si_lines = [\<lparr>tl_unitPriceMinor = 5000, tl_quantity = 2, tl_taxable = True\<rparr>],
      si_destination = \<lparr>td_country = ''EG'', td_province = Some ''EG-C''\<rparr>, si_shippingMinor = jint 1500,
      si_orderDiscountMinor = Some (jint 1000), si_shippingDiscountMinor = Some (jint 0)\<rparr>
     (runs (tax_handle (\<lambda>_ _. 0)) [ReqFlags ''a'' False True, ReqDeleteRegion ''a'' ''SA'', ReqDeleteRegion ''b'' ''EG'']
       (snd (UpsertTaxRegion (\<lambda>_ _. 0) ''r1'' ''a'' demo_region [])))) =
   Inr (Inr \<lparr>tx_taxMinor = 1050, tx_included = False\<rparr>)"
proof -
  define lines where "lines = [\<lparr>tl_unitPriceMinor = 5000, tl_quantity = 2, tl_taxable = True\<rparr>]"
  define others where "others = [ReqFlags ''a'' False True, ReqDeleteRegion ''a'' ''SA'', ReqDeleteRegion ''b'' ''EG'']"
  obtain view s' where up: "UpsertTaxRegion (\<lambda>_ _. 0) ''r1'' ''a'' demo_region [] = (Inr (Inr view), s')"
  proof -
    have "isOk (fst (UpsertTaxRegion (\<lambda>_ _. 0) ''r1'' ''a'' demo_region [])) \<and>
        (case fst (UpsertTaxRegion (\<lambda>_ _. 0) ''r1'' ''a'' demo_region []) of Inr x \<Rightarrow> isOk x | Inl _ \<Rightarrow> False)"
      by code_simp
    then show thesis using that
      by (cases "UpsertTaxRegion (\<lambda>_ _. 0) ''r1'' ''a'' demo_region []") (auto simp: isOk_def split: sum.splits)
  qed
  have country: "ri_countryCode demo_region = ''EG''" by (simp add: demo_region_def)
  have left: "list_all (leaves_region ''a'' (ri_countryCode demo_region)) others" by (simp add: others_def country)
  have amounts: "shareable (line_amounts lines)" "1500 \<le> amount_limit"
    by (simp_all add: shareable_def line_amounts_def lines_def safe_limit_def amount_limit_def)
  have rate: "input_rate demo_region (Some ''EG-C'') = 1000" by (simp add: input_rate_def demo_region_def)
  have nets: "net_amounts lines (Some 1000) = [9000]" unfolding lines_def by code_simp
  have sum: "taxable_sum f lines (Some 1000) = f 9000" for f
    unfolding taxable_sum_def nets by (simp add: lines_def)
  have flags: "ts_includesTax (tax_load ''a'' (runs (tax_handle (\<lambda>_ _. 0)) others s')) = False \<and>
      ts_taxesShipping (tax_load ''a'' (runs (tax_handle (\<lambda>_ _. 0)) others s')) = True"
  proof -
    have "s' = snd (UpsertTaxRegion (\<lambda>_ _. 0) ''r1'' ''a'' demo_region [])" by (simp add: up)
    then show ?thesis unfolding others_def by (simp only:) code_simp
  qed
  from saved_region_applies [OF up left amounts(1) _ amounts(2), of 1000 0 "Some ''EG-C''"]
  show ?thesis
    using flags by (simp add: Let_def rate sum country net_shipping_def tax_due_def half_up_def up lines_def [symmetric]
        others_def [symmetric])
qed

subsection \<open>Beyond the exact range\<close>

text \<open>
  Past \<open>shareable\<close> the product \<^verbatim>\<open>discount * amount\<close> is rounded, and a share can exceed its line: with a full
  discount on an order of 2.19 million (amounts in hundredths) one line gets one unit more than its amount.
\<close>

lemma share_above_amount: "allocateDiscount [136016121, 83121929] 219138050 = [136016122, 83121928]"
  by code_simp

end
