(* ===== verification/Spec2Isabelle.thy ===== *)
theory Spec2Isabelle
  imports Prelude JsText JsNumber Kernel Lifecycle Outbox Repository UseCase AggregateService Inventory InventoryService
    Orders Payments Promotions DiscountCalculator DiscountAmounts DiscountChoice PromotionService Coupons CouponService
    Carts CartService CartCache CheckoutValues Checkout CheckoutService CheckoutOutcomes
    JsConvert Delivery DeliveryPromises ConsumerRuntime ConsumerFleet RetryJourney EndToEnd
    PortedService OrderService OrderPromises OrderOutcomes Returns ReturnService TenantRows Loyalty LoyaltyService
    Ledger Finance FinanceService LargestRemainder Tax
begin

text \<open>
  A model of the commerce core of the platform, with its correctness properties. The platform is a set of bounded
  contexts under services/, each with \<^verbatim>\<open>domain\<close> (aggregates), \<^verbatim>\<open>application\<close> (use cases) and \<^verbatim>\<open>infrastructure\<close>
  (repositories, translators), over shared packages under packages/. A context changes its aggregate and writes the
  integration events of the change to an outbox in one transaction; a relay delivers them to consumers in the other
  contexts. The checkout calls carts, promotions, coupons, inventory, orders and payments through ports.

  \<^bold>\<open>Theories and code\<close>
  \<^item> \<open>Prelude\<close>, \<open>Lifecycle\<close>: results, throwing methods as actions \<open>'s \<Rightarrow> ('e + 'a) \<times> 's\<close>, and the contracts of an
    object under sequences of calls (locales \<open>guarded_object\<close>, \<open>lifecycle\<close>, \<open>refinement\<close>).
  \<^item> \<open>JsText\<close>, \<open>JsNumber\<close>, \<open>JsConvert\<close>: what the code uses of the language: trimming and case, doubles as exact
    rationals with NaN and infinities, \<^verbatim>\<open>Number(text)\<close>, \<^verbatim>\<open>toISOString\<close>.
  \<^item> \<open>Kernel\<close>: packages/utils and packages/domain (errors, guards, identity, money, aggregate root, specifications).
  \<^item> \<open>Repository\<close>, \<open>UseCase\<close>, \<open>AggregateService\<close>: the in-memory repositories and the shape of a use case.
  \<^item> \<open>Outbox\<close>: packages/domain-events and packages/messaging/src/outbox (writer, store, polling relay), pages.
  \<^item> \<open>Delivery\<close>, \<open>DeliveryPromises\<close>: the broker-less transport (\<^verbatim>\<open>outbox-delivery-relay.ts\<close>) over the contract
    \<open>delivery_queue\<close>; no entry lost, rounds bounded, the queue drains.
  \<^item> \<open>ConsumerRuntime\<close>, \<open>ConsumerFleet\<close>, \<open>RetryJourney\<close>: packages/kafka/src/consumer-runtime.ts with its header codec,
    schedule and dead letters; effects exactly once under interleaving (\<open>fleet_step\<close>), retries that come to rest.
  \<^item> \<open>EndToEnd\<close>: the relay with the runtimes as its consumers.
  \<^item> \<open>Inventory\<close>, \<open>InventoryService\<close>: services/inventory. \<open>Orders\<close>, \<open>Payments\<close>: the aggregates of services/orders and
    services/payments.
  \<^item> \<open>Promotions\<close>, \<open>DiscountCalculator\<close>, \<open>DiscountAmounts\<close>, \<open>DiscountChoice\<close>, \<open>PromotionService\<close>: services/promotions;
    the calculator's amounts and its choice of a compatible set are compared with reference definitions.
  \<^item> \<open>Coupons\<close>, \<open>CouponService\<close>: services/coupons. \<open>Carts\<close>, \<open>CartService\<close>, \<open>CartCache\<close>: services/cart; lines are
    objects on a heap because a merge shares them between carts, and the cache is a repository over a repository.
  \<^item> \<open>CheckoutValues\<close>, \<open>Checkout\<close>, \<open>CheckoutService\<close>, \<open>CheckoutLedger\<close>, \<open>CheckoutOutcomes\<close>: services/checkout, from the
    value objects to the orchestration of holds, orders, payments and redemptions over the ports.
  \<^item> \<open>PortedService\<close>, \<open>OrderService\<close>, \<open>OrderPromises\<close>, \<open>OrderOutcomes\<close>: the use cases of services/orders over the ports to payments,
    stock and shipping, and the consumer of captured payments. The locale \<open>order_promise\<close> says what an invariant of the
    service has to survive; its interpretations give unique numbers, voids of unpaid cancelled orders only, no second
    capture after an answered one, and a capture notice that is harmless when it comes again.
  \<^item> \<open>Returns\<close>, \<open>ReturnService\<close>: services/returns, the request's status table and its use cases over the
    ports to orders, payments and the warehouse; Payments is asked for a refund at most once.
  \<^item> \<open>TenantRows\<close>, \<open>Loyalty\<close>, \<open>LoyaltyService\<close>: services/loyalty over the repository of rows with a tenant; the ledger
    accounts for the balance, and the tier of a balance is compared with a reference definition.
  \<^item> \<open>Ledger\<close>, \<open>Finance\<close>, \<open>FinanceService\<close>: services/finance, double-entry journals and the statements over them, behind
    the gate that authorizes and audits every command; the books balance whatever is posted.
  \<^item> \<open>Tax\<close>: the tax settings of a shop and the tax of a checkout in services/finance; \<open>LargestRemainder\<close> holds what its
    split of a discount shares with that of the promotions.

  \<^bold>\<open>Conventions\<close>
  \<^item> A class is a record, its constructor and each method a definition; an enum is a datatype or the code's strings. A
    \<^verbatim>\<open>throw\<close> is an \<open>Inl\<close> with the state the method had reached, so partial writes show.
  \<^item> A \<^verbatim>\<open>Date\<close> and an ISO time is a number of milliseconds, amounts are integers, numbers that arrive unvalidated are
    \<open>js_number\<close>; a JavaScript \<^verbatim>\<open>Map\<close> is an association list, since its order is observable.
  \<^item> Generated identifiers, the clock of a use case, \<^verbatim>\<open>localeCompare\<close>, serializers and translators are arguments. A port of
    the checkout is a function of everything asked so far, so it may keep state, refuse or throw.
  \<^item> A use case runs from its load to its save without another one in between. The consumers are the exception: there
    every piece between two awaits is a step of its own and the steps interleave freely.

  \<^bold>\<open>Bounds and fuel\<close>
  \<^item> Recursion is structural wherever the loop goes over a list. \<open>redeliver\<close> takes the number of rounds; \<open>message_rests\<close>
    shows that one more than the schedule has delays is enough. \<open>passes\<close> takes the worlds of the passes;
    \<open>queue_drains\<close> says how many suffice. Other loops carry a measure.
  \<^item> \<open>safe_limit\<close> is \<open>2 ^ 53\<close>: below it integers are doubles exactly. Header values and due times are bounded by it.

  \<^bold>\<open>Not modelled\<close>
  \<^item> The user interfaces (apps/admin-web, apps/storefront), the HTTP layer and the wiring of apps/runtime and apps/admin:
    rendering, parsing and composition around the operations above.
  \<^item> The adapters to Postgres, Redis, Kafka, S3, ClickHouse and the payment providers: calls into libraries and services
    outside this repository. What the code relies on them for is a contract here (a transaction keeps all or nothing, a
    delivery queue moves only pending rows) that the in-memory adapters are proved to meet.
  \<^item> The other contexts (catalog, shipping, licensing, security and the content and insight
    services) are left out; the component list of the manifest names each with its reason.
  \<^item> Log lines and tracing spans. Metrics are kept where a consumer counts what it did.
\<close>

end
